(* ===== verification/Prelude.thy ===== *)
theory Prelude
  imports Main "HOL-Library.AList" "HOL-Library.Char_ord" "HOL-Library.List_Lexorder"
begin

text \<open>
  Shared vocabulary of the development: the parts of the JavaScript language and of its standard
  library that the modelled sources use, the lemmas on them that the components share, and the
  contract of a state machine with an invariant.

  A JavaScript string is a \<^typ>\<open>string\<close>; one \<^typ>\<open>char\<close> stands for one UTF-16 code unit, so the
  strings of the model are those whose code units are below 256. On them \<open>trim\<close>, \<open>toLowerCase\<close> and
  the string order below are the ones of the language. Numbers that the sources use as times,
  counts and sequence numbers are \<^typ>\<open>int\<close> or \<^typ>\<open>nat\<close>. A \<open>Map\<close> is an association list in
  insertion order (\<^const>\<open>AList.update\<close> keeps the place of a key that is present and appends a new
  one, as \<open>Map.set\<close> does); a \<open>Set\<close> is a list without repetitions in insertion order. A field or a
  result that may be \<open>undefined\<close> or \<open>null\<close> is an \<open>option\<close>. An operation that awaits nothing inside
  runs to its end before any other, so it is one function from state to state; \<open>Date.now()\<close> and
  \<open>randomUUID()\<close> are arguments of the operation that reads them.
\<close>

named_theorems js_defs \<open>definitions of the string and container operations\<close>
named_theorems store_simps \<open>what a store's operations do to a lookup\<close>
named_theorems step_intros \<open>steps that keep an invariant\<close>

type_synonym time = int
type_synonym scope_id = string
type_synonym ('k, 'v) jsmap = "('k \<times> 'v) list"

section \<open>Strings\<close>

definition js_is_space :: "char \<Rightarrow> bool" where
  "js_is_space c \<longleftrightarrow> c \<in> {CHR 0x09, CHR 0x0A, CHR 0x0B, CHR 0x0C, CHR 0x0D, CHR 0x20, CHR 0xA0}"

text \<open>The character classes of regular expressions: \<open>\d\<close>, letters, \<open>\w\<close> and what \<open>.\<close> leaves out.\<close>

definition is_digit :: "char \<Rightarrow> bool" where
  "is_digit c \<longleftrightarrow> (let n = (of_char c :: nat) in 48 \<le> n \<and> n \<le> 57)"

definition is_alpha :: "char \<Rightarrow> bool" where
  "is_alpha c \<longleftrightarrow> (let n = (of_char c :: nat) in 65 \<le> n \<and> n \<le> 90 \<or> 97 \<le> n \<and> n \<le> 122)"

definition is_alnum :: "char \<Rightarrow> bool" where
  "is_alnum c \<longleftrightarrow> is_digit c \<or> is_alpha c"

definition is_word_char :: "char \<Rightarrow> bool" where
  "is_word_char c \<longleftrightarrow> is_alnum c \<or> c = CHR ''_''"

definition is_line_end :: "char \<Rightarrow> bool" where
  "is_line_end c \<longleftrightarrow> c = CHR 0x0A \<or> c = CHR 0x0D"

definition js_trimStart :: "string \<Rightarrow> string" where
  "js_trimStart s = dropWhile js_is_space s"

definition js_trimEnd :: "string \<Rightarrow> string" where
  "js_trimEnd s = rev (dropWhile js_is_space (rev s))"

definition js_trim :: "string \<Rightarrow> string" where
  "js_trim s = js_trimEnd (js_trimStart s)"

definition js_lower_char :: "char \<Rightarrow> char" where
  "js_lower_char c =
     (let n = (of_char c :: nat)
      in if 65 \<le> n \<and> n \<le> 90 \<or> 192 \<le> n \<and> n \<le> 222 \<and> n \<noteq> 215 then char_of (n + 32) else c)"

definition js_lower :: "string \<Rightarrow> string" where
  "js_lower s = map js_lower_char s"

definition js_startsWith :: "'a list \<Rightarrow> 'a list \<Rightarrow> bool" where
  "js_startsWith s p \<longleftrightarrow> take (length p) s = p"

definition js_endsWith :: "'a list \<Rightarrow> 'a list \<Rightarrow> bool" where
  "js_endsWith s p \<longleftrightarrow> length p \<le> length s \<and> drop (length s - length p) s = p"

fun js_includes :: "'a list \<Rightarrow> 'a list \<Rightarrow> bool" where
  "js_includes [] p \<longleftrightarrow> p = []"
| "js_includes (c # cs) p \<longleftrightarrow> js_startsWith (c # cs) p \<or> js_includes cs p"

fun js_split :: "char \<Rightarrow> string \<Rightarrow> string list" where
  "js_split d [] = [[]]"
| "js_split d (c # cs) =
     (if c = d then [] # js_split d cs
      else (case js_split d cs of [] \<Rightarrow> [[c]] | w # ws \<Rightarrow> (c # w) # ws))"

fun js_join :: "'a list \<Rightarrow> 'a list list \<Rightarrow> 'a list" where
  "js_join sep [] = []"
| "js_join sep [x] = x"
| "js_join sep (x # y # ys) = x @ sep @ js_join sep (y # ys)"

text \<open>\<open>s.replace(/\s+/g, " ")\<close>: every run of white space becomes one blank.\<close>

fun js_squeeze :: "string \<Rightarrow> string" where
  "js_squeeze [] = []"
| "js_squeeze (c # cs) =
     (if js_is_space c
      then (case cs of
              [] \<Rightarrow> '' ''
            | d # _ \<Rightarrow> if js_is_space d then js_squeeze cs else CHR 0x20 # js_squeeze cs)
      else c # js_squeeze cs)"

text \<open>The decimal numeral of an integer, as a template literal prints it.\<close>

fun nat_digits :: "nat \<Rightarrow> string" where
  "nat_digits n =
     (if n < 10 then [char_of (48 + n)] else nat_digits (n div 10) @ [char_of (48 + n mod 10)])"

definition js_show_int :: "int \<Rightarrow> string" where
  "js_show_int i = (if i < 0 then CHR ''-'' # nat_digits (nat (- i)) else nat_digits (nat i))"

section \<open>Lists\<close>

text \<open>The index that a relative position of \<open>slice\<close> names in a list of the given length.\<close>

definition js_rel_index :: "nat \<Rightarrow> int \<Rightarrow> nat" where
  "js_rel_index n i = (if i < 0 then nat (int n + i) else min n (nat i))"

definition js_slice :: "'a list \<Rightarrow> int \<Rightarrow> int \<Rightarrow> 'a list" where
  "js_slice xs a b =
     (let s = js_rel_index (length xs) a; e = js_rel_index (length xs) b
      in take (e - s) (drop s xs))"

definition js_slice_from :: "'a list \<Rightarrow> int \<Rightarrow> 'a list" where
  "js_slice_from xs a = drop (js_rel_index (length xs) a) xs"

fun js_find_index :: "('a \<Rightarrow> bool) \<Rightarrow> 'a list \<Rightarrow> nat option" where
  "js_find_index p [] = None"
| "js_find_index p (x # xs) = (if p x then Some 0 else map_option Suc (js_find_index p xs))"

definition js_find_last :: "('a \<Rightarrow> bool) \<Rightarrow> 'a list \<Rightarrow> 'a option" where
  "js_find_last p xs = List.find p (rev xs)"

section \<open>Sets and maps\<close>

definition jset_add :: "'a \<Rightarrow> 'a list \<Rightarrow> 'a list" where
  "jset_add x xs = (if x \<in> set xs then xs else xs @ [x])"

definition jset_of :: "'a list \<Rightarrow> 'a list" where
  "jset_of xs = fold jset_add xs []"

abbreviation jmap_set :: "'k \<Rightarrow> 'v \<Rightarrow> ('k, 'v) jsmap \<Rightarrow> ('k, 'v) jsmap" where
  "jmap_set \<equiv> AList.update"

abbreviation jmap_delete :: "'k \<Rightarrow> ('k, 'v) jsmap \<Rightarrow> ('k, 'v) jsmap" where
  "jmap_delete \<equiv> AList.delete"

abbreviation jmap_values :: "('k, 'v) jsmap \<Rightarrow> 'v list" where
  "jmap_values m \<equiv> map snd m"

text \<open>Assigning to the fields of the object stored under a key, when there is one.\<close>

definition jmap_mutate :: "'k \<Rightarrow> ('v \<Rightarrow> 'v) \<Rightarrow> ('k, 'v) jsmap \<Rightarrow> ('k, 'v) jsmap" where
  "jmap_mutate k f m = (case map_of m k of None \<Rightarrow> m | Some v \<Rightarrow> jmap_set k (f v) m)"

text \<open>A string used as a condition: the empty string counts as absent.\<close>

definition truthy :: "string option \<Rightarrow> bool" where
  "truthy x \<longleftrightarrow> x \<noteq> None \<and> x \<noteq> Some []"

text \<open>
  A promise that settles: \<open>Rejected\<close> carries what was thrown. \<open>p.catch(() => d)\<close> replaces a rejection
  by \<open>d\<close>.
\<close>

datatype ('e, 'a) promise = Resolved 'a | Rejected 'e

fun catch_with :: "'a \<Rightarrow> ('e, 'a) promise \<Rightarrow> 'a" where
  "catch_with d (Resolved x) = x"
| "catch_with d (Rejected e) = d"

text \<open>A payload the program stores or forwards without looking inside.\<close>

datatype json =
    JNull
  | JBool bool
  | JNum int
  | JStr string
  | JArr "json list"
  | JObj "(string \<times> json) list"

text \<open>Reading a property of such a payload; anything that is not an object has none of those read.\<close>

fun json_get :: "string \<Rightarrow> json \<Rightarrow> json option" where
  "json_get k (JObj m) = map_of m k"
| "json_get k _ = None"

text \<open>A JSON value used as a condition.\<close>

fun json_truthy :: "json \<Rightarrow> bool" where
  "json_truthy JNull = False"
| "json_truthy (JBool b) = b"
| "json_truthy (JNum n) = (n \<noteq> 0)"
| "json_truthy (JStr s) = (s \<noteq> [])"
| "json_truthy _ = True"

definition json_get_str :: "string \<Rightarrow> json \<Rightarrow> string option" where
  "json_get_str k m = (case json_get k m of Some (JStr s) \<Rightarrow> Some s | _ \<Rightarrow> None)"

definition json_get_arr :: "string \<Rightarrow> json \<Rightarrow> json list option" where
  "json_get_arr k m = (case json_get k m of Some (JArr xs) \<Rightarrow> Some xs | _ \<Rightarrow> None)"

definition json_flag :: "string \<Rightarrow> json \<Rightarrow> bool" where
  "json_flag k m \<longleftrightarrow> json_get k m = Some (JBool True)"

definition json_truthy_at :: "string \<Rightarrow> json \<Rightarrow> bool" where
  "json_truthy_at k m \<longleftrightarrow> (case json_get k m of Some v \<Rightarrow> json_truthy v | None \<Rightarrow> False)"

section \<open>Facts about strings\<close>

lemmas [js_defs] = js_trim_def js_trimStart_def js_trimEnd_def js_lower_def js_lower_char_def
  js_is_space_def js_startsWith_def js_endsWith_def js_slice_def js_slice_from_def
  js_rel_index_def js_find_last_def jset_add_def jset_of_def jmap_mutate_def truthy_def

declare nat_digits.simps [simp del]

lemma js_startsWith_iff: "js_startsWith s p \<longleftrightarrow> (\<exists>t. s = p @ t)"
  by (auto simp: js_startsWith_def) (metis append_take_drop_id)

lemma js_startsWith_append [simp]: "js_startsWith (p @ t) p"
  by (simp add: js_startsWith_def)

lemma js_startsWith_Nil [simp]: "js_startsWith s []"
  by (simp add: js_startsWith_def)

lemma js_endsWith_iff: "js_endsWith s p \<longleftrightarrow> (\<exists>t. s = t @ p)"
proof
  assume "js_endsWith s p"
  then show "\<exists>t. s = t @ p"
    by (metis append_take_drop_id js_endsWith_def)
qed (auto simp: js_endsWith_def)

lemma js_includes_iff: "js_includes s p \<longleftrightarrow> (\<exists>a b. s = a @ p @ b)"
proof (induction s)
  case (Cons c cs)
  show ?case
    by (auto simp: js_startsWith_iff Cons.IH Cons_eq_append_conv append_eq_Cons_conv)
qed auto

lemma js_split_ne [simp]: "js_split d s \<noteq> []"
  by (induction s) (auto split: list.split)

lemma js_join_split: "js_join [d] (js_split d s) = s"
proof (induction s)
  case (Cons c cs)
  obtain w ws where "js_split d cs = w # ws"
    by (cases "js_split d cs") auto
  with Cons.IH show ?case
    by (cases ws) auto
qed simp

lemma js_split_no_sep: "w \<in> set (js_split d s) \<Longrightarrow> d \<notin> set w"
proof (induction s arbitrary: w)
  case (Cons c cs)
  then show ?case
    by (auto split: list.splits if_splits)
qed simp

lemma js_split_append: "d \<notin> set w \<Longrightarrow> js_split d (w @ d # s) = w # js_split d s"
  by (induction w) auto

lemma js_split_word: "d \<notin> set w \<Longrightarrow> js_split d w = [w]"
  by (induction w) auto

lemma js_split_join: "ws \<noteq> [] \<Longrightarrow> (\<forall>w \<in> set ws. d \<notin> set w) \<Longrightarrow> js_split d (js_join [d] ws) = ws"
proof (induction ws)
  case (Cons w ws)
  then show ?case by (cases ws) (simp_all add: js_split_word js_split_append)
qed simp

lemma js_split_append_sep: "js_split d (x @ d # y) = js_split d x @ js_split d y"
proof (induction x)
  case (Cons c x)
  have "js_split d x \<noteq> []" by simp
  with Cons show ?case by (auto split: list.splits simp: neq_Nil_conv)
qed simp

lemma set_js_split: "w \<in> set (js_split d s) \<Longrightarrow> set w \<subseteq> set s"
proof (induction s arbitrary: w)
  case (Cons c cs)
  then show ?case by (auto split: list.splits if_splits) blast
qed simp

lemma js_lower_char_idem [simp]: "js_lower_char (js_lower_char c) = js_lower_char c"
proof -
  let ?n = "of_char c :: nat"
  have "?n \<in> {0..<256}" using range_nat_of_char by blast
  then show ?thesis
    by (auto simp: js_lower_char_def Let_def of_char_of)
qed

lemma js_lower_idem [simp]: "js_lower (js_lower s) = js_lower s"
  by (simp add: js_lower_def)

lemma js_trimStart_head: "js_trimStart s = c # cs \<Longrightarrow> \<not> js_is_space c"
  unfolding js_trimStart_def by (metis hd_dropWhile list.distinct(1) list.sel(1))

lemma js_trimStart_idem [simp]: "js_trimStart (js_trimStart s) = js_trimStart s"
  by (simp add: js_trimStart_def dropWhile_idem)

lemma js_trimEnd_idem [simp]: "js_trimEnd (js_trimEnd s) = js_trimEnd s"
  by (simp add: js_trimEnd_def dropWhile_idem)

lemma js_trimEnd_prefix: "\<exists>t. s = js_trimEnd s @ t \<and> (\<forall>c \<in> set t. js_is_space c)"
proof -
  have "rev s = takeWhile js_is_space (rev s) @ dropWhile js_is_space (rev s)" by simp
  then have "s = js_trimEnd s @ rev (takeWhile js_is_space (rev s))"
    unfolding js_trimEnd_def by (metis rev_append rev_rev_ident)
  moreover have "\<forall>c \<in> set (rev (takeWhile js_is_space (rev s))). js_is_space c"
    by (auto dest: set_takeWhileD)
  ultimately show ?thesis by blast
qed

lemma js_trimStart_trimEnd: "js_trimStart (js_trimEnd (js_trimStart s)) = js_trimEnd (js_trimStart s)"
proof (cases "js_trimEnd (js_trimStart s)")
  case (Cons c cs)
  with js_trimEnd_prefix [of "js_trimStart s"] obtain t where "js_trimStart s = c # cs @ t" by auto
  then have "\<not> js_is_space c" by (rule js_trimStart_head)
  with Cons show ?thesis by (simp add: js_trimStart_def)
qed (simp add: js_trimStart_def)

lemma js_trim_idem [simp]: "js_trim (js_trim s) = js_trim s"
  by (simp add: js_trim_def js_trimStart_trimEnd)

lemma nat_digits_range: "c \<in> set (nat_digits n) \<Longrightarrow> of_char c \<in> {48..57::nat}"
proof (induction n rule: nat_digits.induct)
  case (1 n)
  then show ?case by (subst (asm) nat_digits.simps) (auto split: if_splits simp: of_char_of)
qed

lemma nat_digits_value: "foldl (\<lambda>a c. 10 * a + (of_char c - 48)) 0 (nat_digits n) = n"
proof (induction n rule: nat_digits.induct)
  case (1 n)
  then show ?case by (subst nat_digits.simps) (auto simp: of_char_of)
qed

lemma nat_digits_inj [simp]: "nat_digits m = nat_digits n \<longleftrightarrow> m = n"
  by (metis nat_digits_value)

lemma nat_digits_no_minus: "CHR ''-'' \<notin> set (nat_digits n)"
  using nat_digits_range [of "CHR ''-''" n] by auto

lemma js_show_int_inj [simp]: "js_show_int i = js_show_int j \<longleftrightarrow> i = j"
proof -
  have "CHR ''-'' # xs \<noteq> nat_digits n" for xs n
    using nat_digits_no_minus [of n] by (metis list.set_intros(1))
  then show ?thesis by (auto simp: js_show_int_def) (metis nat_digits_inj)+
qed

lemma js_show_int_chars: "c \<noteq> CHR ''-'' \<Longrightarrow> of_char c \<notin> {48..57::nat} \<Longrightarrow> c \<notin> set (js_show_int i)"
  using nat_digits_range by (auto simp: js_show_int_def)

text \<open>A string whose last part does not contain the separator splits at the last separator only.\<close>

lemma last_sep_unique:
  "xs @ d # ys = xs' @ d # ys' \<Longrightarrow> d \<notin> set ys \<Longrightarrow> d \<notin> set ys' \<Longrightarrow> xs = xs' \<and> ys = ys'"
proof (induction xs arbitrary: xs')
  case Nil
  then show ?case by (cases xs') auto
next
  case (Cons x xs)
  then show ?case by (cases xs') auto
qed

section \<open>Facts about sets and maps\<close>

lemma set_jset_add [simp]: "set (jset_add x xs) = insert x (set xs)"
  by (auto simp: jset_add_def)

lemma distinct_jset_add [simp]: "distinct (jset_add x xs) = distinct xs"
  by (auto simp: jset_add_def)

lemma set_fold_jset_add: "set (fold jset_add xs ys) = set ys \<union> set xs"
  by (induction xs arbitrary: ys) auto

lemma distinct_fold_jset_add: "distinct (fold jset_add xs ys) = distinct ys"
  by (induction xs arbitrary: ys) auto

lemma set_jset_of [simp]: "set (jset_of xs) = set xs"
  by (simp add: jset_of_def set_fold_jset_add)

lemma distinct_jset_of [simp]: "distinct (jset_of xs)"
  by (simp add: jset_of_def distinct_fold_jset_add)

lemma fold_jset_add_id: "distinct (ys @ xs) \<Longrightarrow> fold jset_add xs ys = ys @ xs"
  by (induction xs arbitrary: ys) (auto simp: jset_add_def)

lemma jset_of_id: "distinct xs \<Longrightarrow> jset_of xs = xs"
  using fold_jset_add_id [of "[]" xs] by (simp add: jset_of_def)

lemma map_of_jmap_set [simp, store_simps]: "map_of (jmap_set k v m) = (map_of m)(k \<mapsto> v)"
  by (rule update_conv')

lemma map_of_jmap_delete [simp, store_simps]: "map_of (jmap_delete k m) = (map_of m)(k := None)"
  by (rule delete_conv')

lemma map_of_jmap_mutate [store_simps]:
  "map_of (jmap_mutate k f m) = (map_of m)(k := map_option f (map_of m k))"
  by (auto simp: jmap_mutate_def fun_upd_idem_iff split: option.split)

lemma map_of_filter_value: "map_of m k = Some v \<Longrightarrow> P v \<Longrightarrow> map_of (filter (\<lambda>(_, v). P v) m) k = Some v"
  by (induction m) auto

lemma distinct_jmap_mutate: "distinct (map fst m) \<Longrightarrow> distinct (map fst (jmap_mutate k f m))"
  by (auto simp: jmap_mutate_def distinct_update split: option.split)

lemma keys_jmap_mutate [simp]: "map fst (jmap_mutate k f m) = map fst m"
proof (cases "map_of m k")
  case (Some v)
  then have "k \<in> fst ` set m" by (metis domI dom_map_of_conv_image_fst)
  with Some show ?thesis by (simp add: jmap_mutate_def update_keys)
qed (simp add: jmap_mutate_def)

lemma in_set_jmap_set:
  "distinct (map fst m) \<Longrightarrow> (k', v') \<in> set (jmap_set k v m) \<longleftrightarrow>
     (if k' = k then v' = v else (k', v') \<in> set m)"
  by (metis (no_types, lifting) distinct_update fun_upd_apply map_of_jmap_set
      map_of_eq_Some_iff option.inject)

lemma in_values_iff:
  "distinct (map fst m) \<Longrightarrow> v \<in> set (jmap_values m) \<longleftrightarrow> (\<exists>k. map_of m k = Some v)"
  by (force simp: image_iff)

lemma set_sort_key_eq [simp]: "set (sort_key f xs) = set xs"
  by simp

lemma find_SomeD: "List.find P xs = Some x \<Longrightarrow> x \<in> set xs \<and> P x"
  by (auto simp: find_Some_iff)

lemma find_append:
  "List.find P (xs @ ys) = (case List.find P xs of None \<Rightarrow> List.find P ys | Some x \<Rightarrow> Some x)"
  by (induction xs) auto

lemma js_join_includes: "x \<in> set xs \<Longrightarrow> js_includes (js_join sep xs) x"
proof (induction sep xs rule: js_join.induct)
  case (3 sep x' y ys)
  then show ?case unfolding js_includes_iff js_join.simps
    by (metis append.assoc append_Nil set_ConsD)
qed (auto simp: js_includes_iff intro: exI [of _ "[]"])

lemma find_unique:
  assumes "x \<in> set xs" "P x" "\<And>y. y \<in> set xs \<Longrightarrow> P y \<Longrightarrow> y = x"
  shows "List.find P xs = Some x"
proof (cases "List.find P xs")
  case None
  with assms(1,2) show ?thesis by (auto simp: find_None_iff)
next
  case (Some y)
  with find_SomeD [OF Some] assms(3) show ?thesis by blast
qed

lemma js_slice_from_subset: "set (js_slice_from xs a) \<subseteq> set xs"
  by (simp add: js_slice_from_def set_drop_subset)

lemma js_slice_subset: "set (js_slice xs a b) \<subseteq> set xs"
  unfolding js_slice_def Let_def by (meson order_trans set_drop_subset set_take_subset)

lemma js_find_last_Some: "js_find_last p xs = Some x \<Longrightarrow> x \<in> set xs \<and> p x"
  by (auto simp: js_find_last_def find_Some_iff)
     (metis Suc_diff_Suc diff_less length_rev nth_mem set_rev)

section \<open>State machines with an invariant\<close>

text \<open>
  The contract every store of the development is checked against: the initial states satisfy the
  invariant and every operation keeps it, whatever the order in which clients call them.
\<close>

locale invariant_machine =
  fixes init :: "'s \<Rightarrow> bool"
    and step :: "'s \<Rightarrow> 's \<Rightarrow> bool"
    and inv :: "'s \<Rightarrow> bool"
  assumes inv_init: "init s \<Longrightarrow> inv s"
    and inv_step: "step s t \<Longrightarrow> inv s \<Longrightarrow> inv t"
begin

lemma inv_steps: "step\<^sup>*\<^sup>* s t \<Longrightarrow> inv s \<Longrightarrow> inv t"
  by (induction rule: rtranclp_induct) (auto intro: inv_step)

lemma inv_reachable: "init s \<Longrightarrow> step\<^sup>*\<^sup>* s t \<Longrightarrow> inv t"
  by (blast intro: inv_init inv_steps)

end

text \<open>
  A machine whose runs respect a preorder (a field that never changes, a counter that only grows,
  a status that is never left): it is enough that one step from an invariant state respects it.
\<close>

locale evolving_machine = invariant_machine +
  fixes rel :: "'a \<Rightarrow> 'a \<Rightarrow> bool"
  assumes rel_refl: "rel s s"
    and rel_trans: "rel s t \<Longrightarrow> rel t u \<Longrightarrow> rel s u"
    and rel_step: "step s t \<Longrightarrow> inv s \<Longrightarrow> rel s t"
begin

lemma rel_steps: "step\<^sup>*\<^sup>* s t \<Longrightarrow> inv s \<Longrightarrow> rel s t"
proof (induction rule: rtranclp_induct)
  case base
  show ?case by (rule rel_refl)
next
  case (step t u)
  from step.hyps(1) step.prems have "inv t" by (rule inv_steps)
  with step.hyps(2) have "rel t u" by (rule rel_step)
  with step.IH [OF step.prems] show ?case by (rule rel_trans)
qed

end

section \<open>Refinement\<close>

text \<open>
  The answers of a component to a sequence of calls, and a component that refines another: related
  states give the same answer and stay related, for every call that the abstract state allows.
\<close>

fun answers :: "('s \<Rightarrow> 'i \<Rightarrow> 'o \<times> 's) \<Rightarrow> 's \<Rightarrow> 'i list \<Rightarrow> 'o list" where
  "answers exec s [] = []"
| "answers exec s (i # is) = fst (exec s i) # answers exec (snd (exec s i)) is"

fun calls_ok :: "('s \<Rightarrow> 'i \<Rightarrow> bool) \<Rightarrow> ('s \<Rightarrow> 'i \<Rightarrow> 'o \<times> 's) \<Rightarrow> 's \<Rightarrow> 'i list \<Rightarrow> bool" where
  "calls_ok ok exec s [] = True"
| "calls_ok ok exec s (i # is) \<longleftrightarrow> ok s i \<and> calls_ok ok exec (snd (exec s i)) is"

lemma calls_ok_always: "(\<And>s i. ok s i) \<Longrightarrow> calls_ok ok exec s is"
  by (induction "is" arbitrary: s) auto

locale simulation =
  fixes concrete :: "'c \<Rightarrow> 'i \<Rightarrow> 'o \<times> 'c"
    and abstract :: "'a \<Rightarrow> 'i \<Rightarrow> 'o \<times> 'a"
    and R :: "'c \<Rightarrow> 'a \<Rightarrow> bool"
    and ok :: "'a \<Rightarrow> 'i \<Rightarrow> bool"
  assumes simulates: "R c a \<Longrightarrow> ok a i \<Longrightarrow>
    fst (concrete c i) = fst (abstract a i) \<and> R (snd (concrete c i)) (snd (abstract a i))"
begin

lemma same_answers: "R c a \<Longrightarrow> calls_ok ok abstract a is \<Longrightarrow> answers concrete c is = answers abstract a is"
  by (induction "is" arbitrary: c a) (auto simp: simulates)

end

end
