(* ===== verification/Scope.thy ===== *)
theory Scope
  imports Prelude
begin

text \<open>
  The names the whole program is keyed by: scope ids (\<open>src/types.ts\<close>), the keys under which two
  spellings of a person are the same person (\<open>src/directory/person.ts\<close>) and the references to
  shared resources (\<open>src/acl/resource-ref.ts\<close>), with the round trips of their encodings.
\<close>

section \<open>Principals and scope ids\<close>

datatype principal_type = Internal | Guest

record principal =
  p_id :: string
  p_type :: principal_type
  p_teamIds :: "string list option"
  p_displayName :: "string option"

datatype scope_kind = Personal | Channel | Team | Org | Group

fun kind_name :: "scope_kind \<Rightarrow> string" where
  "kind_name Personal = ''personal''"
| "kind_name Channel = ''channel''"
| "kind_name Team = ''team''"
| "kind_name Org = ''org''"
| "kind_name Group = ''group''"

definition SCOPE_KINDS :: "scope_kind list" where
  "SCOPE_KINDS = [Personal, Channel, Team, Org, Group]"

text \<open>\<open>isScopeKind\<close> as a parser: the kind a string names, if it names one.\<close>

definition isScopeKind :: "string \<Rightarrow> scope_kind option" where
  "isScopeKind s = List.find (\<lambda>k. kind_name k = s) SCOPE_KINDS"

definition scopeId :: "scope_kind \<Rightarrow> string \<Rightarrow> scope_id" where
  "scopeId k r = kind_name k @ '':'' @ r"

definition personalScope :: "string \<Rightarrow> scope_id" where
  "personalScope pid = scopeId Personal pid"

definition parseScopeId :: "scope_id \<Rightarrow> scope_kind option \<times> string" where
  "parseScopeId sid =
     (case js_find_index (\<lambda>c. c = CHR '':'') sid of
        None \<Rightarrow> (None, '''')
      | Some sep \<Rightarrow> (isScopeKind (take sep sid), drop (sep + 1) sid))"

definition isManageableCreationScope :: "scope_id option \<Rightarrow> bool" where
  "isManageableCreationScope sid \<longleftrightarrow>
     (if \<not> truthy sid then False
      else let k = fst (parseScopeId (the sid)) in k = Some Channel \<or> k = Some Team)"

definition isSharedScope :: "scope_id option \<Rightarrow> bool" where
  "isSharedScope sid \<longleftrightarrow>
     (if \<not> truthy sid then False
      else let k = fst (parseScopeId (the sid)) in k = Some Channel \<or> k = Some Group)"

datatype conversation_kind = CDm | CChannel | CGroup

record conversation =
  cv_kind :: conversation_kind
  cv_threadRef :: string
  cv_channelRef :: "string option"
  cv_channelName :: "string option"
  cv_audience :: "principal list"
  cv_isPrivate :: "bool option"
  cv_isMpim :: "bool option"
  cv_publishMembers :: "principal list option"

section \<open>Persons\<close>

definition personKey :: "string option \<Rightarrow> string" where
  "personKey pid =
     (let s = js_trim (case pid of None \<Rightarrow> '''' | Some x \<Rightarrow> x)
      in if js_includes s ''@'' then js_lower s else s)"

definition samePerson :: "string option \<Rightarrow> string option \<Rightarrow> bool" where
  "samePerson a b \<longleftrightarrow> (let key = personKey a in key \<noteq> '''' \<and> key = personKey b)"

record roster_person =
  rp_principalId :: "string option"
  rp_slackId :: "string option"

definition personKeys :: "roster_person option \<Rightarrow> string \<Rightarrow> string list" where
  "personKeys member rawId =
     fold (\<lambda>pid keys. let key = personKey pid in if key \<noteq> '''' then jset_add key keys else keys)
       [Some rawId, Option.bind member rp_principalId, Option.bind member rp_slackId] []"

type_synonym roster_get = "string \<Rightarrow> (string, roster_person option) promise"

definition samePersonInDirectory :: "roster_get \<Rightarrow> string \<Rightarrow> string \<Rightarrow> bool" where
  "samePersonInDirectory directory_get a b \<longleftrightarrow>
     (if samePerson (Some a) (Some b) then True
      else if personKey (Some a) = '''' \<or> personKey (Some b) = '''' then False
      else
        let ma = catch_with None (directory_get a);
            mb = catch_with None (directory_get b);
            bKeys = personKeys mb b
        in list_ex (\<lambda>key. key \<in> set bKeys) (personKeys ma a))"

definition samePersonMatcher :: "roster_get \<Rightarrow> string \<Rightarrow> string \<Rightarrow> bool" where
  "samePersonMatcher directory_get actorId =
     (let row = catch_with None (directory_get actorId);
          keys = personKeys row actorId
      in (\<lambda>pid.
            if personKey (Some pid) \<in> set keys then True
            else if row \<noteq> None then False
            else samePersonInDirectory directory_get pid actorId))"

section \<open>Resource references\<close>

datatype resource_kind = RFile | RSkill | RDeploy | RCron | RServiceCred

definition RESOURCE_KINDS :: "resource_kind list" where
  "RESOURCE_KINDS = [RFile, RSkill, RDeploy, RCron, RServiceCred]"

record resource_ref =
  ref_kind :: resource_kind
  ref_id :: string

text \<open>\<open>PREFIX\<close> has no entry for \<open>file\<close>; its value there is never read.\<close>

fun PREFIX :: "resource_kind \<Rightarrow> string" where
  "PREFIX RSkill = ''skill:''"
| "PREFIX RDeploy = ''deployment:''"
| "PREFIX RCron = ''cron:''"
| "PREFIX RServiceCred = ''service-cred:''"
| "PREFIX RFile = ''''"

definition encodeRef :: "resource_ref \<Rightarrow> string" where
  "encodeRef r = (if ref_kind r = RFile then ref_id r else PREFIX (ref_kind r) @ ref_id r)"

fun parseRef_loop :: "resource_kind list \<Rightarrow> string \<Rightarrow> resource_ref" where
  "parseRef_loop [] s = \<lparr> ref_kind = RFile, ref_id = s \<rparr>"
| "parseRef_loop (k # ks) s =
     (if k = RFile then parseRef_loop ks s
      else let p = PREFIX k
           in if js_startsWith s p then \<lparr> ref_kind = k, ref_id = drop (length p) s \<rparr>
              else parseRef_loop ks s)"

definition parseRef :: "string \<Rightarrow> resource_ref" where
  "parseRef s = parseRef_loop RESOURCE_KINDS s"

section \<open>Facts about scope ids\<close>

lemma kind_name_inj [simp]: "kind_name k = kind_name k' \<longleftrightarrow> k = k'"
  by (cases k; cases k') auto

lemma isScopeKind_name [simp]: "isScopeKind (kind_name k) = Some k"
  by (cases k) (auto simp: isScopeKind_def SCOPE_KINDS_def)

lemma isScopeKind_Some: "isScopeKind s = Some k \<longleftrightarrow> s = kind_name k"
proof
  assume "isScopeKind s = Some k"
  then show "s = kind_name k" by (auto simp: isScopeKind_def find_Some_iff)
qed simp

lemma colon_index_app:
  "CHR '':'' \<notin> set a \<Longrightarrow> js_find_index (\<lambda>c. c = CHR '':'') (a @ '':'' @ r) = Some (length a)"
  by (induction a) auto

lemma kind_name_no_colon [simp]: "CHR '':'' \<notin> set (kind_name k)"
  by (cases k) auto

lemma parse_scopeId [simp]: "parseScopeId (scopeId k r) = (Some k, r)"
  using colon_index_app [OF kind_name_no_colon, of k r]
  by (simp add: parseScopeId_def scopeId_def)

lemma colon_index_Some:
  "js_find_index (\<lambda>c. c = d) s = Some n \<Longrightarrow> s = take n s @ d # drop (n + 1) s"
  by (induction s arbitrary: n) (auto split: if_splits)

lemma parseScopeId_kind: "parseScopeId s = (Some k, r) \<longleftrightarrow> s = scopeId k r"
proof
  assume p: "parseScopeId s = (Some k, r)"
  then obtain n where n: "js_find_index (\<lambda>c. c = CHR '':'') s = Some n"
    and k: "isScopeKind (take n s) = Some k" and r: "r = drop (n + 1) s"
    by (auto simp: parseScopeId_def split: option.splits)
  with colon_index_Some [OF n] show "s = scopeId k r"
    by (simp add: isScopeKind_Some scopeId_def)
qed simp

lemma scopeId_inj [simp]: "scopeId k r = scopeId k' r' \<longleftrightarrow> k = k' \<and> r = r'"
  by (metis Pair_inject option.inject parse_scopeId)

lemma personalScope_inj [simp]: "personalScope a = personalScope b \<longleftrightarrow> a = b"
  by (simp add: personalScope_def)

lemma parse_personalScope [simp]: "parseScopeId (personalScope a) = (Some Personal, a)"
  by (simp add: personalScope_def)

text \<open>
  A scope id is read back as exactly the kind and the reference it was built from, and a string
  that parses with a kind is the id built from the parts it parses to: different scopes never share
  an id, whatever the reference contains (colons included).
\<close>

theorem scope_id_roundtrip:
  "parseScopeId (scopeId k r) = (Some k, r) \<and>
   (parseScopeId s = (Some k', r') \<longleftrightarrow> s = scopeId k' r')"
  by (simp add: parseScopeId_kind)

section \<open>Facts about persons\<close>

lemma js_includes_char: "js_includes s [c] \<longleftrightarrow> c \<in> set s"
  by (induction s) (auto simp: js_startsWith_def)

lemma samePerson_sym: "samePerson a b \<Longrightarrow> samePerson b a"
  by (auto simp: samePerson_def Let_def)

lemma samePerson_trans: "samePerson a b \<Longrightarrow> samePerson b c \<Longrightarrow> samePerson a c"
  by (auto simp: samePerson_def Let_def)

lemma set_personKeys:
  "set (personKeys m rawId) =
     {personKey (Some rawId), personKey (Option.bind m rp_principalId),
      personKey (Option.bind m rp_slackId)} - {''''}"
  by (auto simp: personKeys_def Let_def)

lemma samePersonInDirectory_sym:
  "samePersonInDirectory d a b = samePersonInDirectory d b a"
  unfolding samePersonInDirectory_def Let_def
  by (auto simp: samePerson_def Let_def list_ex_iff)

section \<open>Facts about resource references\<close>

lemmas ref_defs = encodeRef_def parseRef_def RESOURCE_KINDS_def Let_def

lemma encode_parseRef: "encodeRef (parseRef s) = s"
  by (auto simp: ref_defs js_startsWith_iff)

lemma parse_encodeRef_nonfile:
  "ref_kind r \<noteq> RFile \<Longrightarrow> parseRef (encodeRef r) = r"
  by (cases r; cases "ref_kind r") (auto simp: ref_defs js_startsWith_def)

text \<open>
  Every string is the encoding of the reference it parses to, and a reference survives encoding
  exactly when it is not a file whose path starts with the prefix of another resource kind: a file
  called \<open>skill:x\<close> is read back as the skill \<open>x\<close>.
\<close>

theorem resource_ref_roundtrip:
  "encodeRef (parseRef s) = s \<and>
   (parseRef (encodeRef r) = r \<longleftrightarrow>
      (case ref_kind r of
         RFile \<Rightarrow> list_all (\<lambda>k. \<not> js_startsWith (ref_id r) (PREFIX k)) [RSkill, RDeploy, RCron, RServiceCred]
       | _ \<Rightarrow> True))"
proof
  show "encodeRef (parseRef s) = s" by (rule encode_parseRef)
  show "parseRef (encodeRef r) = r \<longleftrightarrow>
      (case ref_kind r of
         RFile \<Rightarrow> list_all (\<lambda>k. \<not> js_startsWith (ref_id r) (PREFIX k)) [RSkill, RDeploy, RCron, RServiceCred]
       | _ \<Rightarrow> True)"
  proof (cases "ref_kind r = RFile")
    case True
    then show ?thesis by (cases r) (auto simp: ref_defs)
  next
    case False
    then show ?thesis using parse_encodeRef_nonfile [of r] by (cases "ref_kind r") auto
  qed
qed

end
