(* ===== verification/Runs.thy ===== *)
theory Runs
  imports Scope
begin

text \<open>
  The run queue: \<open>src/runs/run-store.ts\<close> and its in-memory implementation
  \<open>src/runs/memory-run-store.ts\<close> with the tool ledger, the way a worker settles a claimed run
  (\<open>src/runs/worker.ts\<close>) and the signal queue (\<open>src/runs/run-signal-store.ts\<close>). The store is a record
  of its three maps plus the log of the terminal notifications \<open>settle\<close> has sent. One reading of the
  clock is taken per operation. Lease tokens and run ids come from \<open>randomUUID()\<close>: the step relation
  takes them as fresh and keeps the tokens already issued as a ghost component.
\<close>

section \<open>Runs\<close>

datatype turn_status = TSOk | TSRefused | TSFailed | TSPendingApproval | TSQueued | TSSilent | TSReact

record turn_result =
  tr_status :: turn_status
  tr_sessionId :: "string option"
  tr_reply :: "string option"
  tr_reactions :: "string list option"
  tr_reason :: "string option"
  tr_quarantined :: bool
  tr_adminUrl :: "string option"
  tr_runId :: "string option"
  tr_steered :: bool
  tr_stopped :: "bool option"
  tr_pendingApprovals :: "json list option"
  tr_attachments :: "json list option"
  tr_sourceUserSeq :: "int option"
  tr_sourceAssistantEntrySeq :: "int option"

text \<open>The result object \<open>{ status: "failed", sessionId, reason }\<close> of a parked run.\<close>

definition failed_result :: "string \<Rightarrow> string \<Rightarrow> turn_result" where
  "failed_result sid reason =
     \<lparr> tr_status = TSFailed, tr_sessionId = Some sid, tr_reply = None, tr_reactions = None,
       tr_reason = Some reason, tr_quarantined = False, tr_adminUrl = None, tr_runId = None,
       tr_steered = False, tr_stopped = None, tr_pendingApprovals = None, tr_attachments = None,
       tr_sourceUserSeq = None, tr_sourceAssistantEntrySeq = None \<rparr>"

datatype run_status = RPending | RRunning | RDone | RFailed

record run =
  run_id :: string
  run_sessionId :: string
  run_status :: run_status
  run_request :: json
  run_result :: "turn_result option"
  run_deliveryState :: "string option option"
  run_dedupKey :: "string option"
  run_attempts :: int
  run_errorAttempts :: int
  run_maxAttempts :: int
  run_leaseToken :: "string option"
  run_leaseExpiresAt :: "time option"
  run_workerId :: "string option"
  run_createdAt :: time
  run_startedAt :: "time option"
  run_finishedAt :: "time option"

datatype reap_outcome = Requeued | Parked

record reap_event =
  re_runId :: string
  re_sessionId :: string
  re_workerId :: "string option"
  re_attempts :: int
  re_errorAttempts :: int
  re_outcome :: reap_outcome

record enqueue_input =
  eq_sessionId :: string
  eq_request :: json
  eq_dedupKey :: "string option"
  eq_maxAttempts :: "int option"

definition isTerminal :: "run_status \<Rightarrow> bool" where
  "isTerminal st \<longleftrightarrow> st \<in> {RDone, RFailed}"

definition errorParks :: "run \<Rightarrow> int option \<Rightarrow> bool" where
  "errorParks r maxClaims \<longleftrightarrow>
     run_errorAttempts r + 1 \<ge> run_maxAttempts r \<or>
     (case maxClaims of None \<Rightarrow> False | Some m \<Rightarrow> run_attempts r \<ge> m)"

definition leaseLapsed :: "run \<Rightarrow> time \<Rightarrow> bool" where
  "leaseLapsed r asOf \<longleftrightarrow>
     run_status r = RRunning \<and>
     (case run_leaseExpiresAt r of None \<Rightarrow> False | Some t \<Rightarrow> t \<le> asOf)"

section \<open>The in-memory store\<close>

record run_store =
  rs_runs :: "(string, run) jsmap"
  rs_byKey :: "(string, string) jsmap"
  rs_ledger :: "(string, string) jsmap"
  rs_settled :: "run list"

definition createMemoryRunStore :: run_store where
  "createMemoryRunStore = \<lparr> rs_runs = [], rs_byKey = [], rs_ledger = [], rs_settled = [] \<rparr>"

definition get_run :: "run_store \<Rightarrow> string \<Rightarrow> run option" where
  "get_run s rid = map_of (rs_runs s) rid"

definition sessionHasRunning :: "run_store \<Rightarrow> string \<Rightarrow> string option \<Rightarrow> bool" where
  "sessionHasRunning s sid exceptId \<longleftrightarrow>
     list_ex (\<lambda>r. run_sessionId r = sid \<and> run_status r = RRunning \<and> Some (run_id r) \<noteq> exceptId)
       (jmap_values (rs_runs s))"

definition settle :: "run \<Rightarrow> run_store \<Rightarrow> run_store" where
  "settle r s =
     (if \<not> isTerminal (run_status r) then s else s\<lparr> rs_settled := rs_settled s @ [r] \<rparr>)"

text \<open>Writing the fields of the run object back into the store that holds it.\<close>

definition put_run :: "run \<Rightarrow> run_store \<Rightarrow> run_store" where
  "put_run r s = s\<lparr> rs_runs := jmap_set (run_id r) r (rs_runs s) \<rparr>"

definition new_run :: "string \<Rightarrow> time \<Rightarrow> enqueue_input \<Rightarrow> run" where
  "new_run newId now inp =
     \<lparr> run_id = newId, run_sessionId = eq_sessionId inp, run_status = RPending,
       run_request = eq_request inp, run_result = None, run_deliveryState = None,
       run_dedupKey = eq_dedupKey inp, run_attempts = 0, run_errorAttempts = 0,
       run_maxAttempts = (case eq_maxAttempts inp of None \<Rightarrow> 3 | Some m \<Rightarrow> m),
       run_leaseToken = None, run_leaseExpiresAt = None, run_workerId = None,
       run_createdAt = now, run_startedAt = None, run_finishedAt = None \<rparr>"

definition dedup_lookup :: "enqueue_input \<Rightarrow> run_store \<Rightarrow> run option" where
  "dedup_lookup inp s =
     (if truthy (eq_dedupKey inp)
      then (case map_of (rs_byKey s) (the (eq_dedupKey inp)) of
              None \<Rightarrow> None
            | Some existingId \<Rightarrow> if existingId = '''' then None else get_run s existingId)
      else None)"

definition insert_run :: "run \<Rightarrow> run_store \<Rightarrow> run_store" where
  "insert_run r s =
     (let s1 = put_run r s
      in if truthy (run_dedupKey r)
         then s1\<lparr> rs_byKey := jmap_set (the (run_dedupKey r)) (run_id r) (rs_byKey s1) \<rparr>
         else s1)"

definition enqueue :: "string \<Rightarrow> time \<Rightarrow> enqueue_input \<Rightarrow> run_store \<Rightarrow> (run \<times> bool) \<times> run_store" where
  "enqueue newId now inp s =
     (case dedup_lookup inp s of
        Some r \<Rightarrow> ((r, True), s)
      | None \<Rightarrow>
          let r = new_run newId now inp
          in ((r, False), insert_run r s))"

definition lease_run :: "string \<Rightarrow> time \<Rightarrow> string \<Rightarrow> int \<Rightarrow> run \<Rightarrow> run" where
  "lease_run tok now workerId ttlMs r =
     r\<lparr> run_status := RRunning, run_leaseToken := Some tok, run_leaseExpiresAt := Some (now + ttlMs),
        run_workerId := Some workerId, run_attempts := run_attempts r + 1,
        run_startedAt := (case run_startedAt r of None \<Rightarrow> Some now | Some t \<Rightarrow> Some t) \<rparr>"

definition claimable :: "run_store \<Rightarrow> run list" where
  "claimable s =
     sort_key run_createdAt
       (filter (\<lambda>r. run_status r = RPending \<and> \<not> sessionHasRunning s (run_sessionId r) None)
         (jmap_values (rs_runs s)))"

definition claim :: "string \<Rightarrow> time \<Rightarrow> string \<Rightarrow> int \<Rightarrow> run_store \<Rightarrow> run option \<times> run_store" where
  "claim tok now workerId ttlMs s =
     (case claimable s of
        [] \<Rightarrow> (None, s)
      | r # _ \<Rightarrow> let r' = lease_run tok now workerId ttlMs r in (Some r', put_run r' s))"

definition claimById ::
  "string \<Rightarrow> time \<Rightarrow> string \<Rightarrow> string \<Rightarrow> int \<Rightarrow> run_store \<Rightarrow> run option \<times> run_store" where
  "claimById tok now runId workerId ttlMs s =
     (case get_run s runId of
        None \<Rightarrow> (None, s)
      | Some r \<Rightarrow>
          if run_status r \<noteq> RPending \<or> sessionHasRunning s (run_sessionId r) None then (None, s)
          else let r' = lease_run tok now workerId ttlMs r in (Some r', put_run r' s))"

definition heartbeat :: "time \<Rightarrow> string \<Rightarrow> string \<Rightarrow> int \<Rightarrow> run_store \<Rightarrow> bool \<times> run_store" where
  "heartbeat now runId leaseToken ttlMs s =
     (case get_run s runId of
        None \<Rightarrow> (False, s)
      | Some r \<Rightarrow>
          if run_status r \<noteq> RRunning \<or> run_leaseToken r \<noteq> Some leaseToken then (False, s)
          else (True, put_run (r\<lparr> run_leaseExpiresAt := Some (now + ttlMs) \<rparr>) s))"

definition releaseLease :: "string \<Rightarrow> string \<Rightarrow> run_store \<Rightarrow> bool \<times> run_store" where
  "releaseLease runId leaseToken s =
     (case get_run s runId of
        None \<Rightarrow> (False, s)
      | Some r \<Rightarrow>
          if run_status r \<noteq> RRunning \<or> run_leaseToken r \<noteq> Some leaseToken then (False, s)
          else (True, put_run (r\<lparr> run_status := RPending, run_leaseToken := None,
                                  run_leaseExpiresAt := None, run_workerId := None \<rparr>) s))"

definition complete ::
  "time \<Rightarrow> string \<Rightarrow> string \<Rightarrow> turn_result \<Rightarrow> run_store \<Rightarrow> bool \<times> run_store" where
  "complete now runId leaseToken result s =
     (case get_run s runId of
        None \<Rightarrow> (False, s)
      | Some r \<Rightarrow>
          if run_leaseToken r \<noteq> Some leaseToken then (False, s)
          else let r' = r\<lparr> run_status := RDone, run_result := Some result, run_leaseToken := None,
                           run_leaseExpiresAt := None, run_finishedAt := Some now \<rparr>
               in (True, settle r' (put_run r' s)))"

text \<open>
  \<open>retire\<close> on the run object: the updated object, whether it was requeued and whether it applied at
  all. \<open>maxClaims\<close> is \<open>None\<close> for \<open>Infinity\<close>.
\<close>

definition retire_run ::
  "int option \<Rightarrow> time \<Rightarrow> run \<Rightarrow> string \<Rightarrow> bool \<Rightarrow> time option \<Rightarrow> bool \<Rightarrow> run \<times> bool \<times> bool" where
  "retire_run maxClaims now r error retry ifExpiredAt countsAsError =
     (if run_status r \<noteq> RRunning then (r, False, False)
      else if (case ifExpiredAt of
                 None \<Rightarrow> False
               | Some t \<Rightarrow> (case run_leaseExpiresAt r of None \<Rightarrow> True | Some e \<Rightarrow> e > t))
      then (r, False, False)
      else
        let r1 = r\<lparr> run_leaseToken := None, run_leaseExpiresAt := None, run_workerId := None \<rparr>;
            r2 = (if countsAsError then r1\<lparr> run_errorAttempts := run_errorAttempts r1 + 1 \<rparr> else r1);
            overClaimed = (case maxClaims of None \<Rightarrow> False | Some m \<Rightarrow> run_attempts r2 \<ge> m)
        in if retry \<and> run_errorAttempts r2 < run_maxAttempts r2 \<and> \<not> overClaimed
           then (r2\<lparr> run_status := RPending \<rparr>, True, True)
           else
             let reason =
                   (if \<not> countsAsError \<and> overClaimed \<and> retry \<and> run_errorAttempts r2 < run_maxAttempts r2
                    then ''run parked after '' @ js_show_int (run_attempts r2) @
                         '' claims without completing (suspected crash loop)''
                    else error)
             in (r2\<lparr> run_status := RFailed,
                     run_result := Some (failed_result (run_sessionId r2) reason),
                     run_finishedAt := Some now \<rparr>, False, True))"

text \<open>\<open>retire\<close> on the store: the object is written back and, when it failed, settled.\<close>

definition retire ::
  "int option \<Rightarrow> time \<Rightarrow> run \<Rightarrow> string \<Rightarrow> bool \<Rightarrow> time option \<Rightarrow> bool \<Rightarrow> run_store \<Rightarrow>
     (bool \<times> bool) \<times> run_store" where
  "retire maxClaims now r error retry ifExpiredAt countsAsError s =
     (case retire_run maxClaims now r error retry ifExpiredAt countsAsError of
        (r', requeued, applied) \<Rightarrow>
          ((requeued, applied), if applied then settle r' (put_run r' s) else s))"

definition fail_run ::
  "int option \<Rightarrow> time \<Rightarrow> string \<Rightarrow> string \<Rightarrow> string \<Rightarrow> bool option \<Rightarrow> run_store \<Rightarrow> bool \<times> run_store" where
  "fail_run maxClaims now runId leaseToken error retry s =
     (case get_run s runId of
        None \<Rightarrow> (False, s)
      | Some r \<Rightarrow>
          if run_leaseToken r \<noteq> Some leaseToken then (False, s)
          else (case retire maxClaims now r error (retry \<noteq> Some False) None True s of
                  ((requeued, _), s') \<Rightarrow> (requeued, s')))"

definition setDeliveryState ::
  "string \<Rightarrow> string option \<Rightarrow> string option \<Rightarrow> run_store \<Rightarrow> bool \<times> run_store" where
  "setDeliveryState runId leaseToken state s =
     (case get_run s runId of
        None \<Rightarrow> (False, s)
      | Some r \<Rightarrow>
          if leaseToken \<noteq> None \<and> run_leaseToken r \<noteq> leaseToken then (False, s)
          else (True, put_run (r\<lparr> run_deliveryState := Some state \<rparr>) s))"

definition activeForThread :: "run_store \<Rightarrow> string \<Rightarrow> run option" where
  "activeForThread s sid =
     (case sort_key (\<lambda>r. - run_createdAt r)
             (filter (\<lambda>r. run_sessionId r = sid \<and> \<not> isTerminal (run_status r))
               (jmap_values (rs_runs s))) of
        [] \<Rightarrow> None
      | r # _ \<Rightarrow> Some r)"

definition activeSessionIds :: "run_store \<Rightarrow> string list" where
  "activeSessionIds s =
     jset_of (map run_sessionId (filter (\<lambda>r. \<not> isTerminal (run_status r)) (jmap_values (rs_runs s))))"

definition list_runs :: "run_store \<Rightarrow> int option \<Rightarrow> run list" where
  "list_runs s limit =
     js_slice (sort_key (\<lambda>r. - run_createdAt r) (jmap_values (rs_runs s))) 0
       (case limit of None \<Rightarrow> 200 | Some l \<Rightarrow> l)"

record reap_result =
  rr_requeued :: nat
  rr_parked :: nat
  rr_retiredSessionIds :: "string list"
  rr_events :: "reap_event list"

definition reap_one ::
  "int option \<Rightarrow> time \<Rightarrow> int option \<Rightarrow> run \<Rightarrow> reap_result \<times> run_store \<Rightarrow> reap_result \<times> run_store" where
  "reap_one maxClaims now maxAgeMs r acc =
     (case acc of (res, s) \<Rightarrow>
        let tooOld = (case (maxAgeMs, run_startedAt r) of
                        (Some age, Some st) \<Rightarrow> now - st > age
                      | _ \<Rightarrow> False);
            reason = (if tooOld then ''run exceeded max age (reaped)'' else ''lease expired (reaped)'')
        in case retire maxClaims now r reason (\<not> tooOld) (Some now) False s of
             ((requeued, applied), s') \<Rightarrow>
               if \<not> applied then (res, s')
               else
                 (let r' = (case get_run s' (run_id r) of None \<Rightarrow> r | Some x \<Rightarrow> x)
                  in \<lparr> rr_requeued = rr_requeued res + (if requeued then 1 else 0),
                       rr_parked = rr_parked res + (if requeued then 0 else 1),
                       rr_retiredSessionIds = rr_retiredSessionIds res @ [run_sessionId r],
                       rr_events = rr_events res @
                         [\<lparr> re_runId = run_id r, re_sessionId = run_sessionId r,
                            re_workerId = run_workerId r, re_attempts = run_attempts r',
                            re_errorAttempts = run_errorAttempts r',
                            re_outcome = (if requeued then Requeued else Parked) \<rparr>] \<rparr>, s'))"

definition reapExpired ::
  "int option \<Rightarrow> time \<Rightarrow> int option \<Rightarrow> run_store \<Rightarrow> reap_result \<times> run_store" where
  "reapExpired maxClaims now maxAgeMs s =
     (let expired = filter (\<lambda>r. leaseLapsed r now) (jmap_values (rs_runs s))
      in fold (reap_one maxClaims now maxAgeMs) expired
           (\<lparr> rr_requeued = 0, rr_parked = 0, rr_retiredSessionIds = [], rr_events = [] \<rparr>, s))"

text \<open>
  \<open>waitFor\<close> on a run that has not finished subscribes to the run's next terminal notification: the
  subscription is the position the notification log has reached.
\<close>

datatype run_wait = WaitDone run | WaitFrom string nat

definition waitFor :: "run_store \<Rightarrow> string \<Rightarrow> run_wait" where
  "waitFor s runId =
     (case get_run s runId of
        Some r \<Rightarrow> if isTerminal (run_status r) then WaitDone r else WaitFrom runId (length (rs_settled s))
      | None \<Rightarrow> WaitFrom runId (length (rs_settled s)))"

fun wait_poll :: "run_wait \<Rightarrow> run_store \<Rightarrow> run option" where
  "wait_poll (WaitDone r) s = Some r"
| "wait_poll (WaitFrom runId n) s = List.find (\<lambda>r. run_id r = runId) (drop n (rs_settled s))"

section \<open>The tool ledger\<close>

definition ledger_key :: "string \<Rightarrow> int \<Rightarrow> int \<Rightarrow> string" where
  "ledger_key runId attempt callIndex =
     runId @ '':'' @ js_show_int attempt @ '':'' @ js_show_int callIndex"

definition ledger_begin :: "run_store \<Rightarrow> string \<Rightarrow> int \<Rightarrow> int \<Rightarrow> string option" where
  "ledger_begin s runId attempt callIndex = map_of (rs_ledger s) (ledger_key runId attempt callIndex)"

definition ledger_record :: "string \<Rightarrow> int \<Rightarrow> int \<Rightarrow> string \<Rightarrow> run_store \<Rightarrow> run_store" where
  "ledger_record runId attempt callIndex output s =
     s\<lparr> rs_ledger := jmap_set (ledger_key runId attempt callIndex) output (rs_ledger s) \<rparr>"

section \<open>The store as a state machine\<close>

text \<open>
  One step per operation that changes the store, with any arguments. The second component collects
  the lease tokens handed out so far; \<open>randomUUID()\<close> gives a run an id no stored run has and a claim a
  token that was never handed out.
\<close>

inductive run_step :: "int option \<Rightarrow> run_store \<times> string set \<Rightarrow> run_store \<times> string set \<Rightarrow> bool"
  for mc :: "int option" where
  step_enqueue: "newId \<noteq> '''' \<Longrightarrow> get_run s newId = None \<Longrightarrow>
     run_step mc (s, I) (snd (enqueue newId now inp s), I)"
| step_claim: "tok \<notin> I \<Longrightarrow> run_step mc (s, I) (snd (claim tok now w ttl s), insert tok I)"
| step_claimById: "tok \<notin> I \<Longrightarrow>
     run_step mc (s, I) (snd (claimById tok now rid w ttl s), insert tok I)"
| step_heartbeat: "run_step mc (s, I) (snd (heartbeat now rid tok ttl s), I)"
| step_releaseLease: "run_step mc (s, I) (snd (releaseLease rid tok s), I)"
| step_complete: "run_step mc (s, I) (snd (complete now rid tok res s), I)"
| step_fail: "run_step mc (s, I) (snd (fail_run mc now rid tok err retry s), I)"
| step_setDeliveryState: "run_step mc (s, I) (snd (setDeliveryState rid tk st s), I)"
| step_reapExpired: "run_step mc (s, I) (snd (reapExpired mc now maxAge s), I)"
| step_record: "run_step mc (s, I) (ledger_record rid a c out s, I)"

definition run_init :: "run_store \<times> string set \<Rightarrow> bool" where
  "run_init c \<longleftrightarrow> c = (createMemoryRunStore, {})"

definition run_wf :: "run \<Rightarrow> bool" where
  "run_wf r \<longleftrightarrow>
     (run_leaseToken r \<noteq> None \<longleftrightarrow> run_status r = RRunning) \<and>
     (run_leaseExpiresAt r \<noteq> None \<longleftrightarrow> run_status r = RRunning) \<and>
     (run_finishedAt r \<noteq> None \<longleftrightarrow> isTerminal (run_status r)) \<and>
     (run_result r \<noteq> None \<longleftrightarrow> isTerminal (run_status r)) \<and>
     0 \<le> run_errorAttempts r \<and> run_errorAttempts r \<le> run_attempts r \<and>
     (run_status r = RRunning \<longrightarrow> run_errorAttempts r < run_attempts r) \<and>
     run_errorAttempts r \<le> max 1 (run_maxAttempts r) \<and>
     (\<not> isTerminal (run_status r) \<longrightarrow> run_errorAttempts r < max 1 (run_maxAttempts r))"

text \<open>Equal in everything but the delivery state, which may be written after the run has finished.\<close>

definition same_outcome :: "run \<Rightarrow> run \<Rightarrow> bool" where
  "same_outcome r r' \<longleftrightarrow> r' = r\<lparr> run_deliveryState := run_deliveryState r' \<rparr>"

definition runs_keyed :: "run_store \<Rightarrow> bool" where
  "runs_keyed s \<longleftrightarrow> distinct (map fst (rs_runs s)) \<and>
     (\<forall>rid r. get_run s rid = Some r \<longrightarrow> run_id r = rid \<and> rid \<noteq> '''' \<and> run_wf r)"

definition runs_exclusive :: "run_store \<Rightarrow> bool" where
  "runs_exclusive s \<longleftrightarrow>
     (\<forall>i j r q. get_run s i = Some r \<longrightarrow> get_run s j = Some q \<longrightarrow>
        run_status r = RRunning \<longrightarrow> run_status q = RRunning \<longrightarrow>
        run_sessionId r = run_sessionId q \<longrightarrow> i = j)"

definition tokens_ok :: "run_store \<times> string set \<Rightarrow> bool" where
  "tokens_ok c \<longleftrightarrow>
     (\<forall>i r t. get_run (fst c) i = Some r \<longrightarrow> run_leaseToken r = Some t \<longrightarrow>
        t \<in> snd c \<and> (\<forall>j q. get_run (fst c) j = Some q \<longrightarrow> run_leaseToken q = Some t \<longrightarrow> i = j))"

definition byKey_ok :: "run_store \<Rightarrow> bool" where
  "byKey_ok s \<longleftrightarrow>
     (\<forall>k rid. map_of (rs_byKey s) k = Some rid \<longrightarrow>
        (\<exists>r. get_run s rid = Some r \<and> run_dedupKey r = Some k)) \<and>
     (\<forall>rid r k. get_run s rid = Some r \<longrightarrow> run_dedupKey r = Some k \<longrightarrow> k \<noteq> '''' \<longrightarrow>
        map_of (rs_byKey s) k = Some rid)"

definition settled_ok :: "run_store \<Rightarrow> bool" where
  "settled_ok s \<longleftrightarrow>
     distinct (map run_id (rs_settled s)) \<and>
     (\<forall>x \<in> set (rs_settled s). \<exists>r. get_run s (run_id x) = Some r \<and>
        isTerminal (run_status r) \<and> same_outcome x r) \<and>
     (\<forall>rid r. get_run s rid = Some r \<longrightarrow> isTerminal (run_status r) \<longrightarrow>
        rid \<in> run_id ` set (rs_settled s))"

definition run_inv :: "run_store \<times> string set \<Rightarrow> bool" where
  "run_inv c \<longleftrightarrow> runs_keyed (fst c) \<and> runs_exclusive (fst c) \<and> tokens_ok c \<and> byKey_ok (fst c) \<and>
     settled_ok (fst c)"

text \<open>What a run keeps and how it may change, and what the store keeps, over any number of steps.\<close>

definition run_evolves :: "run \<Rightarrow> run \<Rightarrow> bool" where
  "run_evolves r r' \<longleftrightarrow>
     run_id r' = run_id r \<and> run_sessionId r' = run_sessionId r \<and> run_request r' = run_request r \<and>
     run_dedupKey r' = run_dedupKey r \<and> run_maxAttempts r' = run_maxAttempts r \<and>
     run_createdAt r' = run_createdAt r \<and>
     run_attempts r \<le> run_attempts r' \<and> run_errorAttempts r \<le> run_errorAttempts r' \<and>
     (run_startedAt r \<noteq> None \<longrightarrow> run_startedAt r' = run_startedAt r) \<and>
     (isTerminal (run_status r) \<longrightarrow> same_outcome r r')"

definition holds_token :: "run_store \<Rightarrow> string \<Rightarrow> bool" where
  "holds_token s t \<longleftrightarrow> (\<exists>rid r. get_run s rid = Some r \<and> run_leaseToken r = Some t)"

definition run_rel :: "run_store \<times> string set \<Rightarrow> run_store \<times> string set \<Rightarrow> bool" where
  "run_rel c d \<longleftrightarrow>
     (\<forall>rid r. get_run (fst c) rid = Some r \<longrightarrow>
        (\<exists>r'. get_run (fst d) rid = Some r' \<and> run_evolves r r')) \<and>
     (\<exists>zs. rs_settled (fst d) = rs_settled (fst c) @ zs) \<and> snd c \<subseteq> snd d \<and>
     (\<forall>t \<in> snd c. \<not> holds_token (fst c) t \<longrightarrow> \<not> holds_token (fst d) t)"

section \<open>Lookups\<close>

lemma get_put_run [simp, store_simps]: "get_run (put_run r s) = (get_run s)(run_id r \<mapsto> r)"
  by (auto simp: get_run_def put_run_def)

lemma get_settle [simp, store_simps]: "get_run (settle r s) = get_run s"
  by (auto simp: get_run_def settle_def)

lemma put_run_sel [simp]:
  "rs_byKey (put_run r s) = rs_byKey s" "rs_ledger (put_run r s) = rs_ledger s"
  "rs_settled (put_run r s) = rs_settled s"
  by (simp_all add: put_run_def)

lemma settle_sel [simp]:
  "rs_byKey (settle r s) = rs_byKey s" "rs_ledger (settle r s) = rs_ledger s"
  "rs_runs (settle r s) = rs_runs s"
  "rs_settled (settle r s) = rs_settled s @ (if isTerminal (run_status r) then [r] else [])"
  by (simp_all add: settle_def)

lemma isTerminal_simps [simp]:
  "isTerminal RDone" "isTerminal RFailed" "\<not> isTerminal RPending" "\<not> isTerminal RRunning"
  by (simp_all add: isTerminal_def)

lemma distinct_put_run:
  "distinct (map fst (rs_runs s)) \<Longrightarrow> distinct (map fst (rs_runs (put_run r s)))"
  by (simp add: put_run_def distinct_update)

lemma values_get_run:
  "runs_keyed s \<Longrightarrow> r \<in> set (jmap_values (rs_runs s)) \<longleftrightarrow> get_run s (run_id r) = Some r"
  by (auto simp: runs_keyed_def get_run_def in_values_iff simp del: set_map)

lemma sessionHasRunning_iff:
  "runs_keyed s \<Longrightarrow> sessionHasRunning s sid None \<longleftrightarrow>
     (\<exists>rid r. get_run s rid = Some r \<and> run_sessionId r = sid \<and> run_status r = RRunning)"
  unfolding sessionHasRunning_def list_ex_iff
  by (auto simp: values_get_run Bex_def simp del: set_map) (metis runs_keyed_def)

lemma set_claimable:
  "runs_keyed s \<Longrightarrow> r \<in> set (claimable s) \<longleftrightarrow>
     get_run s (run_id r) = Some r \<and> run_status r = RPending \<and>
     \<not> sessionHasRunning s (run_sessionId r) None"
  unfolding claimable_def using values_get_run [of s r] by (auto simp del: set_map)

section \<open>Every operation keeps the invariant\<close>

lemmas run_inv_defs = run_inv_def runs_keyed_def runs_exclusive_def tokens_ok_def byKey_ok_def settled_ok_def

lemma run_inv_D:
  assumes "run_inv (s, I)"
  shows "runs_keyed s" "runs_exclusive s" "tokens_ok (s, I)" "byKey_ok s" "settled_ok s"
  using assms by (auto simp: run_inv_def)

lemma get_run_D:
  assumes "run_inv (s, I)" "get_run s rid = Some r"
  shows "run_id r = rid" "run_wf r" "rid \<noteq> ''''"
  using assms by (auto simp: run_inv_def runs_keyed_def)

lemma same_outcome_refl [simp]: "same_outcome r r"
  by (simp add: same_outcome_def)

lemma same_outcome_delivery: "same_outcome x r \<Longrightarrow> same_outcome x (r\<lparr> run_deliveryState := d \<rparr>)"
  by (cases x; cases r) (simp add: same_outcome_def)

text \<open>Assigning to the fields of a run that has not finished, and settling it if it then has.\<close>

lemma run_inv_update:
  assumes inv: "run_inv (s, I)" and r0: "get_run s (run_id r') = Some r0"
    and live: "\<not> isTerminal (run_status r0)"
    and same: "run_sessionId r' = run_sessionId r0" "run_dedupKey r' = run_dedupKey r0"
    and wf: "run_wf r'"
    and excl: "run_status r' = RRunning \<Longrightarrow> run_status r0 = RRunning \<or>
                 \<not> sessionHasRunning s (run_sessionId r0) None"
    and tok: "run_leaseToken r' = None \<or> run_leaseToken r' = run_leaseToken r0 \<or>
                (\<exists>t. run_leaseToken r' = Some t \<and> t \<notin> I \<and> t \<in> J)"
    and IJ: "I \<subseteq> J"
  shows "run_inv (settle r' (put_run r' s), J)"
proof -
  note D = run_inv_D [OF inv]
  let ?s = "settle r' (put_run r' s)"
  have "runs_keyed ?s"
    using D(1) wf r0 by (auto simp: runs_keyed_def distinct_put_run)
  moreover have "runs_exclusive ?s"
    using D(2) r0 excl same
    unfolding runs_exclusive_def sessionHasRunning_iff [OF D(1)]
    by (auto split: if_splits)
  moreover have "tokens_ok (?s, J)"
    unfolding tokens_ok_def
  proof (intro allI impI)
    fix i r t
    assume "get_run (fst (?s, J)) i = Some r" and t: "run_leaseToken r = Some t"
    then have i: "(if i = run_id r' then r = r' else get_run s i = Some r)" by (auto split: if_splits)
    show "t \<in> snd (?s, J) \<and>
        (\<forall>j q. get_run (fst (?s, J)) j = Some q \<longrightarrow> run_leaseToken q = Some t \<longrightarrow> i = j)"
      using D(3) tok IJ r0 i t unfolding tokens_ok_def
      by (auto split: if_splits) (metis option.inject)+
  qed
  moreover have "byKey_ok ?s"
    using D(4) r0 same by (auto simp: byKey_ok_def split: if_splits) (metis option.inject)
  moreover have "settled_ok ?s"
  proof -
    have "run_id r' \<notin> run_id ` set (rs_settled s)"
      using D(5) r0 live unfolding settled_ok_def by (metis imageE option.inject)
    with D(5) show ?thesis
      by (auto simp: settled_ok_def split: if_splits)
  qed
  ultimately show ?thesis by (simp add: run_inv_def)
qed

lemma run_inv_delivery:
  assumes inv: "run_inv (s, I)" and r: "get_run s rid = Some r"
  shows "run_inv (put_run (r\<lparr> run_deliveryState := d \<rparr>) s, I)"
proof -
  note D = run_inv_D [OF inv]
  have rid: "run_id r = rid" "run_wf r" using get_run_D [OF inv r] by auto
  let ?r = "r\<lparr> run_deliveryState := d \<rparr>"
  let ?s = "put_run ?r s"
  have "runs_keyed ?s" using D(1) r rid by (auto simp: runs_keyed_def distinct_put_run run_wf_def)
  moreover have "runs_exclusive ?s"
    using D(2) r rid unfolding runs_exclusive_def by (auto split: if_splits)
  moreover have "tokens_ok (?s, I)"
    using D(3) r rid unfolding tokens_ok_def by (auto split: if_splits)
  moreover have "byKey_ok ?s"
    using D(4) r rid by (auto simp: byKey_ok_def split: if_splits) (metis option.inject)
  moreover have "settled_ok ?s"
    using D(5) r rid same_outcome_delivery
    by (fastforce simp: settled_ok_def split: if_splits)
  ultimately show ?thesis by (simp add: run_inv_def)
qed

lemma run_inv_new:
  assumes inv: "run_inv (s, I)" and new: "get_run s (run_id r) = None" "run_id r \<noteq> ''''"
    and r: "run_status r = RPending" "run_wf r" "run_leaseToken r = None"
    and key: "truthy (run_dedupKey r) \<Longrightarrow> map_of (rs_byKey s) (the (run_dedupKey r)) = None"
  shows "run_inv (insert_run r s, I)" (is "run_inv (?s, I)")
proof -
  note D = run_inv_D [OF inv]
  have get: "get_run ?s = (get_run s)(run_id r \<mapsto> r)"
    and runs: "rs_runs ?s = rs_runs (put_run r s)" and set: "rs_settled ?s = rs_settled s"
    by (auto simp: get_run_def put_run_def insert_run_def Let_def)
  have unreg: "map_of (rs_byKey s) k \<noteq> Some (run_id r)" for k
    using D(4) new unfolding byKey_ok_def by (metis option.distinct(1))
  have "runs_keyed ?s" unfolding runs_keyed_def get runs
    using D(1) r new by (auto simp: runs_keyed_def distinct_put_run)
  moreover have "runs_exclusive ?s" unfolding runs_exclusive_def get
    using D(2) r new by (auto simp: runs_exclusive_def)
  moreover have "tokens_ok (?s, I)" unfolding tokens_ok_def fst_conv snd_conv get
    using D(3) r new by (auto simp: tokens_ok_def)
  moreover have "byKey_ok ?s" unfolding byKey_ok_def get
    using D(4) key new unreg by (auto simp: byKey_ok_def truthy_def insert_run_def Let_def)
  moreover have "settled_ok ?s" unfolding settled_ok_def get set
    using D(5) r new by (auto simp: settled_ok_def)
  ultimately show ?thesis by (simp add: run_inv_def)
qed

lemma dedup_lookup_iff:
  assumes inv: "run_inv (s, I)"
  shows "dedup_lookup inp s = Some r \<longleftrightarrow>
    truthy (eq_dedupKey inp) \<and> get_run s (run_id r) = Some r \<and> run_dedupKey r = eq_dedupKey inp"
proof (cases "truthy (eq_dedupKey inp)")
  case True
  then obtain k where k: "eq_dedupKey inp = Some k" "k \<noteq> ''''" by (auto simp: truthy_def)
  note K = run_inv_D(4) [OF inv, unfolded byKey_ok_def]
  have "dedup_lookup inp s =
      (case map_of (rs_byKey s) k of None \<Rightarrow> None | Some rid \<Rightarrow> if rid = '''' then None else get_run s rid)"
    using True k by (simp add: dedup_lookup_def)
  also have "\<dots> = Some r \<longleftrightarrow> map_of (rs_byKey s) k = Some (run_id r) \<and> get_run s (run_id r) = Some r"
    using get_run_D(1,3) [OF inv] by (auto split: option.split)
  also have "\<dots> \<longleftrightarrow> get_run s (run_id r) = Some r \<and> run_dedupKey r = Some k"
    using K k(2) by (metis option.inject)
  finally show ?thesis using True k by simp
qed (simp add: dedup_lookup_def)

lemma dedup_lookup_None:
  assumes inv: "run_inv (s, I)" and "dedup_lookup inp s = None" "truthy (eq_dedupKey inp)"
  shows "map_of (rs_byKey s) (the (eq_dedupKey inp)) = None"
proof (rule ccontr)
  assume "\<not> ?thesis"
  then obtain rid where rid: "map_of (rs_byKey s) (the (eq_dedupKey inp)) = Some rid" by auto
  with run_inv_D(4) [OF inv] obtain r where "get_run s rid = Some r"
    unfolding byKey_ok_def by metis
  with get_run_D(3) [OF inv this] rid assms(2,3) show False by (simp add: dedup_lookup_def)
qed

lemma new_run_sel [simp]:
  "run_id (new_run i t inp) = i" "run_status (new_run i t inp) = RPending"
  "run_leaseToken (new_run i t inp) = None" "run_dedupKey (new_run i t inp) = eq_dedupKey inp"
  "run_wf (new_run i t inp)"
  by (auto simp: new_run_def run_wf_def)

lemma enqueue_inv [step_intros]:
  assumes inv: "run_inv (s, I)" and new: "get_run s newId = None" "newId \<noteq> ''''"
  shows "run_inv (snd (enqueue newId now inp s), I)"
proof (cases "dedup_lookup inp s")
  case None
  have "run_inv (insert_run (new_run newId now inp) s, I)"
    using new dedup_lookup_None [OF inv None] by (intro run_inv_new [OF inv]) simp_all
  with None show ?thesis by (simp add: enqueue_def Let_def)
qed (use inv in \<open>simp add: enqueue_def\<close>)

lemma lease_run_inv:
  assumes inv: "run_inv (s, I)" and r: "get_run s rid = Some r" "run_status r = RPending"
    and free: "\<not> sessionHasRunning s (run_sessionId r) None" and tok: "tok \<notin> I"
  shows "run_inv (put_run (lease_run tok now w ttl r) s, insert tok I)"
proof -
  let ?r = "lease_run tok now w ttl r"
  have st: "run_id ?r = rid" "run_wf r" using get_run_D [OF inv r(1)] by (auto simp: lease_run_def)
  then have "run_wf ?r" using r(2) by (auto simp: run_wf_def lease_run_def)
  then have "run_inv (settle ?r (put_run ?r s), insert tok I)"
    using inv r free tok st by (intro run_inv_update) (auto simp: lease_run_def)
  then show ?thesis by (simp add: settle_def lease_run_def)
qed

lemma run_inv_tokens_mono: "run_inv (s, I) \<Longrightarrow> I \<subseteq> J \<Longrightarrow> run_inv (s, J)"
  by (auto simp: run_inv_def tokens_ok_def)

lemma claim_inv [step_intros]:
  assumes inv: "run_inv (s, I)" and tok: "tok \<notin> I"
  shows "run_inv (snd (claim tok now w ttl s), insert tok I)"
proof (cases "claimable s")
  case Nil
  with run_inv_tokens_mono [OF inv] show ?thesis by (auto simp: claim_def)
next
  case (Cons r rs)
  then have "r \<in> set (claimable s)" by simp
  with set_claimable [OF run_inv_D(1) [OF inv]]
  have "get_run s (run_id r) = Some r" "run_status r = RPending"
    "\<not> sessionHasRunning s (run_sessionId r) None" by auto
  from lease_run_inv [OF inv this tok] Cons show ?thesis by (simp add: claim_def Let_def)
qed

lemma claimById_inv [step_intros]:
  assumes inv: "run_inv (s, I)" and tok: "tok \<notin> I"
  shows "run_inv (snd (claimById tok now rid w ttl s), insert tok I)"
  using lease_run_inv [OF inv _ _ _ tok] run_inv_tokens_mono [OF inv subset_insertI]
  by (simp add: claimById_def Let_def split: option.split)

lemma heartbeat_inv [step_intros]:
  assumes inv: "run_inv (s, I)"
  shows "run_inv (snd (heartbeat now rid tok ttl s), I)"
proof (cases "\<exists>r. get_run s rid = Some r \<and> run_status r = RRunning \<and> run_leaseToken r = Some tok")
  case True
  then obtain r where r: "get_run s rid = Some r" "run_status r = RRunning" "run_leaseToken r = Some tok"
    by blast
  let ?r = "r\<lparr> run_leaseExpiresAt := Some (now + ttl) \<rparr>"
  have "run_inv (settle ?r (put_run ?r s), I)"
    using r get_run_D [OF inv r(1)] by (intro run_inv_update [OF inv]) (auto simp: run_wf_def)
  with r show ?thesis by (simp add: heartbeat_def settle_def)
qed (use inv in \<open>auto simp: heartbeat_def split: option.split\<close>)

lemma releaseLease_inv [step_intros]:
  assumes inv: "run_inv (s, I)"
  shows "run_inv (snd (releaseLease rid tok s), I)"
proof (cases "\<exists>r. get_run s rid = Some r \<and> run_status r = RRunning \<and> run_leaseToken r = Some tok")
  case True
  then obtain r where r: "get_run s rid = Some r" "run_status r = RRunning" "run_leaseToken r = Some tok"
    by blast
  let ?r = "r\<lparr> run_status := RPending, run_leaseToken := None, run_leaseExpiresAt := None, run_workerId := None \<rparr>"
  have "run_inv (settle ?r (put_run ?r s), I)"
    using r get_run_D [OF inv r(1)] by (intro run_inv_update [OF inv]) (auto simp: run_wf_def)
  with r show ?thesis by (simp add: releaseLease_def settle_def)
qed (use inv in \<open>auto simp: releaseLease_def split: option.split\<close>)

text \<open>A token is only ever held by a running run, which is why \<open>complete\<close> need not check the status.\<close>

lemma token_running:
  "run_inv (s, I) \<Longrightarrow> get_run s rid = Some r \<Longrightarrow> run_leaseToken r = Some t \<Longrightarrow> run_status r = RRunning"
  by (drule (1) get_run_D(2)) (auto simp: run_wf_def)

lemma complete_inv [step_intros]:
  assumes inv: "run_inv (s, I)"
  shows "run_inv (snd (complete now rid tok res s), I)"
proof (cases "\<exists>r. get_run s rid = Some r \<and> run_leaseToken r = Some tok")
  case True
  then obtain r where r: "get_run s rid = Some r" "run_leaseToken r = Some tok" by blast
  let ?r = "r\<lparr> run_status := RDone, run_result := Some res, run_leaseToken := None,
               run_leaseExpiresAt := None, run_finishedAt := Some now \<rparr>"
  have "run_inv (settle ?r (put_run ?r s), I)"
    using r token_running [OF inv r] get_run_D [OF inv r(1)]
    by (intro run_inv_update [OF inv]) (auto simp: run_wf_def)
  with r show ?thesis by (simp add: complete_def Let_def)
qed (use inv in \<open>auto simp: complete_def split: option.split\<close>)

lemma retire_run_sel:
  "retire_run mc now r err rt ex ce = (r', rq, ap) \<Longrightarrow>
   run_id r' = run_id r \<and> run_sessionId r' = run_sessionId r \<and> run_dedupKey r' = run_dedupKey r \<and>
   run_request r' = run_request r \<and> run_maxAttempts r' = run_maxAttempts r \<and>
   run_createdAt r' = run_createdAt r \<and> run_startedAt r' = run_startedAt r \<and>
   run_attempts r' = run_attempts r \<and>
   run_errorAttempts r' = run_errorAttempts r + (if ap \<and> ce then 1 else 0) \<and>
   (ap \<longrightarrow> run_status r = RRunning \<and> run_leaseToken r' = None \<and> run_leaseExpiresAt r' = None \<and>
           run_status r' = (if rq then RPending else RFailed)) \<and>
   (\<not> ap \<longrightarrow> r' = r \<and> \<not> rq)"
  by (auto simp: retire_run_def Let_def split: if_splits)

lemma retire_run_wf:
  "retire_run mc now r err rt ex ce = (r', rq, ap) \<Longrightarrow> run_wf r \<Longrightarrow> run_wf r'"
  by (auto simp: retire_run_def run_wf_def Let_def split: if_splits)

lemma retire_run_inv:
  assumes inv: "run_inv (s, I)" and r: "get_run s rid = Some r"
    and eq: "retire_run mc now r err rt ex ce = (r', rq, ap)"
  shows "run_inv (if ap then settle r' (put_run r' s) else s, I)"
proof -
  note sel = retire_run_sel [OF eq] and wf = retire_run_wf [OF eq]
  have "ap \<Longrightarrow> run_inv (settle r' (put_run r' s), I)"
    using sel wf r get_run_D [OF inv r] by (intro run_inv_update [OF inv]) auto
  with inv show ?thesis by simp
qed

lemma retire_inv:
  assumes "run_inv (s, I)" "get_run s rid = Some r"
  shows "run_inv (snd (retire mc now r err rt ex ce s), I)"
  unfolding retire_def using retire_run_inv [OF assms] by (auto split: prod.split)

lemma fail_inv [step_intros]:
  assumes inv: "run_inv (s, I)"
  shows "run_inv (snd (fail_run mc now rid tok err rt s), I)"
proof (cases "\<exists>r. get_run s rid = Some r \<and> run_leaseToken r = Some tok")
  case True
  then obtain r where r: "get_run s rid = Some r" "run_leaseToken r = Some tok" by blast
  then have "snd (fail_run mc now rid tok err rt s) = snd (retire mc now r err (rt \<noteq> Some False) None True s)"
    by (simp add: fail_run_def split: prod.split)
  with retire_inv [OF inv r(1)] show ?thesis by simp
qed (use inv in \<open>auto simp: fail_run_def split: option.split\<close>)

lemma setDeliveryState_inv [step_intros]:
  "run_inv (s, I) \<Longrightarrow> run_inv (snd (setDeliveryState rid tk st s), I)"
  by (auto simp: setDeliveryState_def split: option.split intro: run_inv_delivery)

lemma ledger_record_sel [simp]:
  "get_run (ledger_record rid a c out s) = get_run s"
  "rs_runs (ledger_record rid a c out s) = rs_runs s"
  "rs_byKey (ledger_record rid a c out s) = rs_byKey s"
  "rs_settled (ledger_record rid a c out s) = rs_settled s"
  by (auto simp: ledger_record_def get_run_def)

lemma ledger_record_inv [step_intros]:
  "run_inv (s, I) \<Longrightarrow> run_inv (ledger_record rid a c out s, I)"
  unfolding run_inv_defs fst_conv snd_conv ledger_record_sel .

text \<open>What the reaper makes of a run whose lease has lapsed.\<close>

definition reap_target :: "int option \<Rightarrow> time \<Rightarrow> int option \<Rightarrow> run \<Rightarrow> run \<times> bool \<times> bool" where
  "reap_target mc now maxAge r =
     (let tooOld = (case (maxAge, run_startedAt r) of (Some age, Some st) \<Rightarrow> now - st > age | _ \<Rightarrow> False)
      in retire_run mc now r
           (if tooOld then ''run exceeded max age (reaped)'' else ''lease expired (reaped)'')
           (\<not> tooOld) (Some now) False)"

lemma reap_target_retire:
  obtains err rt where "reap_target mc now maxAge r = retire_run mc now r err rt (Some now) False"
  by (simp add: reap_target_def Let_def)

lemma reap_target_sel:
  assumes "reap_target mc now maxAge r = (r', rq, ap)"
  shows "run_id r' = run_id r" "leaseLapsed r now \<Longrightarrow> ap"
    "ap \<Longrightarrow> run_status r' = (if rq then RPending else RFailed)"
proof -
  obtain err rt where eq: "retire_run mc now r err rt (Some now) False = (r', rq, ap)"
    using assms reap_target_retire [of mc now maxAge r] by metis
  show "run_id r' = run_id r" "ap \<Longrightarrow> run_status r' = (if rq then RPending else RFailed)"
    using retire_run_sel [OF eq] by auto
  assume "leaseLapsed r now"
  with eq show ap
    by (auto simp: retire_run_def leaseLapsed_def Let_def split: if_splits option.splits)
qed

lemma reap_one_store:
  "snd (reap_one mc now maxAge r (res, s)) =
     (case reap_target mc now maxAge r of (r', rq, ap) \<Rightarrow> if ap then settle r' (put_run r' s) else s)"
  by (simp add: reap_one_def reap_target_def retire_def Let_def split: prod.split if_split)

lemma reap_one_inv:
  assumes "run_inv (s, I)" "get_run s (run_id r) = Some r"
  shows "run_inv (snd (reap_one mc now maxAge r (res, s)), I)"
proof -
  obtain err rt where eq: "reap_target mc now maxAge r = retire_run mc now r err rt (Some now) False"
    by (rule reap_target_retire)
  obtain r' rq ap where eq': "retire_run mc now r err rt (Some now) False = (r', rq, ap)"
    by (metis prod_cases3)
  from retire_run_inv [OF assms eq'] show ?thesis by (simp add: reap_one_store eq eq')
qed

text \<open>The runs the sweep visits are pairwise different objects, so each is still as the sweep read it.\<close>

lemma reap_one_other:
  assumes "run_id q \<noteq> run_id r"
  shows "get_run (snd (reap_one mc now maxAge r (res, s))) (run_id q) = get_run s (run_id q)"
proof -
  obtain r' rq ap where eq: "reap_target mc now maxAge r = (r', rq, ap)" by (metis prod_cases3)
  then have "run_id r' = run_id r" by (rule reap_target_sel)
  with assms eq show ?thesis by (simp add: reap_one_store)
qed

lemma reap_fold_inv:
  assumes "run_inv (snd acc, I)" "distinct (map run_id rs)" "\<forall>r \<in> set rs. get_run (snd acc) (run_id r) = Some r"
  shows "run_inv (snd (fold (reap_one mc now maxAge) rs acc), I)"
  using assms
proof (induction rs arbitrary: acc)
  case (Cons r rs)
  obtain res s where acc: "acc = (res, s)" by force
  let ?acc = "reap_one mc now maxAge r acc"
  have "run_inv (snd ?acc, I)" using Cons.prems acc by (auto intro: reap_one_inv)
  moreover have "\<forall>q \<in> set rs. get_run (snd ?acc) (run_id q) = Some q"
    using Cons.prems(2,3) acc by (auto simp: reap_one_other image_iff)
  ultimately show ?case using Cons.IH [of ?acc] Cons.prems(2) by simp
qed simp

definition lapsed_runs :: "time \<Rightarrow> run_store \<Rightarrow> run list" where
  "lapsed_runs now s = filter (\<lambda>r. leaseLapsed r now) (jmap_values (rs_runs s))"

lemma lapsed_runs_props:
  assumes inv: "run_inv (s, I)"
  shows "distinct (map run_id (lapsed_runs now s))"
    "r \<in> set (lapsed_runs now s) \<longleftrightarrow> get_run s (run_id r) = Some r \<and> leaseLapsed r now"
proof -
  note K = run_inv_D(1) [OF inv]
  have "map run_id (jmap_values (rs_runs s)) = map fst (rs_runs s)"
    using K unfolding runs_keyed_def get_run_def
    by (auto intro: map_of_is_SomeI)
  moreover have "distinct (map fst (rs_runs s))" using K by (simp add: runs_keyed_def)
  ultimately have "distinct (map run_id (jmap_values (rs_runs s)))" by metis
  then show "distinct (map run_id (lapsed_runs now s))"
    unfolding lapsed_runs_def by (rule distinct_map_filter)
  show "r \<in> set (lapsed_runs now s) \<longleftrightarrow> get_run s (run_id r) = Some r \<and> leaseLapsed r now"
    unfolding lapsed_runs_def using values_get_run [OF K, of r] by (auto simp del: set_map)
qed

lemma reapExpired_inv [step_intros]:
  "run_inv (s, I) \<Longrightarrow> run_inv (snd (reapExpired mc now maxAge s), I)"
  unfolding reapExpired_def Let_def lapsed_runs_def [symmetric]
  by (rule reap_fold_inv) (auto simp: lapsed_runs_props)

lemma run_inv_init: "run_init c \<Longrightarrow> run_inv c"
  by (auto simp: run_init_def createMemoryRunStore_def run_inv_defs get_run_def)

lemma run_inv_step: "run_step mc c d \<Longrightarrow> run_inv c \<Longrightarrow> run_inv d"
  by (erule run_step.cases) (auto intro: step_intros)

section \<open>What every operation preserves\<close>

lemma same_outcome_trans: "same_outcome a b \<Longrightarrow> same_outcome b c \<Longrightarrow> same_outcome a c"
  by (cases a; cases b; cases c) (simp add: same_outcome_def)

lemma same_outcome_status: "same_outcome a b \<Longrightarrow> run_status b = run_status a"
  by (cases a; cases b) (simp add: same_outcome_def)

lemma run_evolves_refl: "run_evolves r r"
  by (simp add: run_evolves_def)

lemma run_evolves_trans: "run_evolves a b \<Longrightarrow> run_evolves b c \<Longrightarrow> run_evolves a c"
  unfolding run_evolves_def
  by (auto dest: same_outcome_status intro: same_outcome_trans)

lemma run_rel_refl: "run_rel c c"
  by (auto simp: run_rel_def run_evolves_refl)

lemma run_rel_trans: "run_rel a b \<Longrightarrow> run_rel b c \<Longrightarrow> run_rel a c"
proof -
  assume ab: "run_rel a b" and bc: "run_rel b c"
  have "\<exists>r'. get_run (fst c) rid = Some r' \<and> run_evolves r r'" if "get_run (fst a) rid = Some r" for rid r
    using that ab bc unfolding run_rel_def by (meson run_evolves_trans)
  moreover have "\<exists>zs. rs_settled (fst c) = rs_settled (fst a) @ zs"
    using ab bc unfolding run_rel_def by (metis append_assoc)
  moreover have "snd a \<subseteq> snd c" "\<forall>t \<in> snd a. \<not> holds_token (fst a) t \<longrightarrow> \<not> holds_token (fst c) t"
    using ab bc unfolding run_rel_def by blast+
  ultimately show ?thesis unfolding run_rel_def by blast
qed

lemma run_rel_upd:
  assumes get: "get_run s' = (get_run s)(run_id r' \<mapsto> r')" and r0: "get_run s (run_id r') = Some r0"
    and ev: "run_evolves r0 r'"
    and tok: "run_leaseToken r' = None \<or> run_leaseToken r' = run_leaseToken r0 \<or>
                (\<exists>t. run_leaseToken r' = Some t \<and> t \<notin> I)"
    and set: "\<exists>zs. rs_settled s' = rs_settled s @ zs" and IJ: "I \<subseteq> J"
  shows "run_rel (s, I) (s', J)"
proof -
  have "\<exists>q. get_run s' rid = Some q \<and> run_evolves r q" if "get_run s rid = Some r" for rid r
    using that get r0 ev by (auto simp: run_evolves_refl)
  moreover have "\<not> holds_token s' t" if "t \<in> I" "\<not> holds_token s t" for t
    using that get r0 tok by (auto simp: holds_token_def split: if_splits)
  ultimately show ?thesis using set IJ by (auto simp: run_rel_def)
qed

lemma run_rel_tokens: "I \<subseteq> J \<Longrightarrow> run_rel (s, I) (s, J)"
  by (auto simp: run_rel_def run_evolves_refl)

lemma lease_run_rel:
  "get_run s (run_id r) = Some r \<Longrightarrow> run_status r = RPending \<Longrightarrow> tok \<notin> I \<Longrightarrow>
   run_rel (s, I) (put_run (lease_run tok now w ttl r) s, insert tok I)"
  by (rule run_rel_upd [where r' = "lease_run tok now w ttl r" and ?r0.0 = r])
     (auto simp: lease_run_def run_evolves_def split: option.split)

lemma enqueue_rel [step_intros]:
  assumes "get_run s newId = None"
  shows "run_rel (s, I) (snd (enqueue newId now inp s), I)"
proof (cases "dedup_lookup inp s")
  case None
  let ?s = "insert_run (new_run newId now inp) s"
  have "get_run ?s = (get_run s)(newId \<mapsto> new_run newId now inp)" "rs_settled ?s = rs_settled s"
    by (auto simp: insert_run_def Let_def get_run_def put_run_def)
  with assms have "run_rel (s, I) (?s, I)"
    by (auto simp: run_rel_def holds_token_def run_evolves_refl split: if_splits)
  with None show ?thesis by (simp add: enqueue_def Let_def)
qed (simp add: enqueue_def run_rel_refl)

lemma claim_rel [step_intros]:
  assumes inv: "run_inv (s, I)" and tok: "tok \<notin> I"
  shows "run_rel (s, I) (snd (claim tok now w ttl s), insert tok I)"
proof (cases "claimable s")
  case (Cons r rs)
  then have "r \<in> set (claimable s)" by simp
  with set_claimable [OF run_inv_D(1) [OF inv]]
  have "get_run s (run_id r) = Some r" "run_status r = RPending" by auto
  from lease_run_rel [OF this tok] Cons show ?thesis by (simp add: claim_def Let_def)
qed (auto simp: claim_def intro: run_rel_tokens)

lemma claimById_rel [step_intros]:
  assumes inv: "run_inv (s, I)" and tok: "tok \<notin> I"
  shows "run_rel (s, I) (snd (claimById tok now rid w ttl s), insert tok I)"
proof (cases "get_run s rid")
  case (Some r)
  with get_run_D(1) [OF inv Some] lease_run_rel [of s r tok I] tok run_rel_tokens [OF subset_insertI]
  show ?thesis by (simp add: claimById_def Let_def)
qed (auto simp: claimById_def intro: run_rel_tokens)

text \<open>The operations that only touch the run they name, and only when it is theirs to touch.\<close>

lemma update_rel:
  assumes "run_inv (s, I)" "get_run s rid = Some r" "run_id r' = run_id r" "run_evolves r r'"
    "run_leaseToken r' = None \<or> run_leaseToken r' = run_leaseToken r"
  shows "run_rel (s, I) (put_run r' s, I)" "run_rel (s, I) (settle r' (put_run r' s), I)"
  using assms get_run_D(1) [OF assms(1,2)]
  by (auto intro!: run_rel_upd [where r' = r' and ?r0.0 = r] simp: get_run_D)

lemma heartbeat_rel [step_intros]:
  "run_inv (s, I) \<Longrightarrow> run_rel (s, I) (snd (heartbeat now rid tok ttl s), I)"
  by (auto simp: heartbeat_def run_evolves_def run_rel_refl split: option.split intro!: update_rel(1))

lemma releaseLease_rel [step_intros]:
  "run_inv (s, I) \<Longrightarrow> run_rel (s, I) (snd (releaseLease rid tok s), I)"
  by (auto simp: releaseLease_def run_evolves_def run_rel_refl split: option.split intro!: update_rel(1))

lemma complete_rel [step_intros]:
  "run_inv (s, I) \<Longrightarrow> run_rel (s, I) (snd (complete now rid tok res s), I)"
  by (auto simp: complete_def Let_def run_evolves_def run_rel_refl split: option.split
      intro!: update_rel(2) dest: token_running)

lemma setDeliveryState_rel [step_intros]:
  "run_inv (s, I) \<Longrightarrow> run_rel (s, I) (snd (setDeliveryState rid tk st s), I)"
  by (auto simp: setDeliveryState_def run_evolves_def run_rel_refl same_outcome_def
      split: option.split intro!: update_rel(1))

lemma retire_run_rel:
  assumes inv: "run_inv (s, I)" and r: "get_run s rid = Some r"
    and eq: "retire_run mc now r err rt ex ce = (r', rq, ap)"
  shows "run_rel (s, I) (if ap then settle r' (put_run r' s) else s, I)"
proof (cases ap)
  case True
  with retire_run_sel [OF eq] have "run_evolves r r'" "run_id r' = run_id r" "run_leaseToken r' = None"
    by (auto simp: run_evolves_def)
  with update_rel(2) [OF inv r] True show ?thesis by simp
qed (simp add: run_rel_refl)

lemma fail_rel [step_intros]:
  "run_inv (s, I) \<Longrightarrow> run_rel (s, I) (snd (fail_run mc now rid tok err rt s), I)"
  using retire_run_rel [of s I rid]
  by (auto simp: fail_run_def retire_def run_rel_refl split: option.split prod.split)

lemma reap_one_rel:
  assumes "run_inv (s, I)" "get_run s (run_id r) = Some r"
  shows "run_rel (s, I) (snd (reap_one mc now maxAge r (res, s)), I)"
proof -
  obtain err rt where eq: "reap_target mc now maxAge r = retire_run mc now r err rt (Some now) False"
    by (rule reap_target_retire)
  obtain r' rq ap where eq': "retire_run mc now r err rt (Some now) False = (r', rq, ap)"
    by (metis prod_cases3)
  from retire_run_rel [OF assms eq'] show ?thesis by (simp add: reap_one_store eq eq')
qed

lemma reap_fold_rel:
  assumes "run_inv (snd acc, I)" "distinct (map run_id rs)" "\<forall>r \<in> set rs. get_run (snd acc) (run_id r) = Some r"
  shows "run_rel (snd acc, I) (snd (fold (reap_one mc now maxAge) rs acc), I)"
  using assms
proof (induction rs arbitrary: acc)
  case (Cons r rs)
  obtain res s where acc: "acc = (res, s)" by force
  let ?acc = "reap_one mc now maxAge r acc"
  have "run_inv (snd ?acc, I)" "run_rel (snd acc, I) (snd ?acc, I)"
    using Cons.prems acc by (auto intro: reap_one_inv reap_one_rel)
  moreover have "\<forall>q \<in> set rs. get_run (snd ?acc) (run_id q) = Some q"
    using Cons.prems(2,3) acc by (auto simp: reap_one_other image_iff)
  ultimately show ?case using Cons.IH [of ?acc] Cons.prems(2) by (auto intro: run_rel_trans)
qed (simp add: run_rel_refl)

lemma reapExpired_rel [step_intros]:
  "run_inv (s, I) \<Longrightarrow> run_rel (s, I) (snd (reapExpired mc now maxAge s), I)"
  unfolding reapExpired_def Let_def lapsed_runs_def [symmetric]
  using reap_fold_rel [of "(_, s)" I "lapsed_runs now s"]
  by (auto simp: lapsed_runs_props)

lemma ledger_record_rel [step_intros]: "run_rel (s, I) (ledger_record rid a c out s, I)"
  by (auto simp: run_rel_def run_evolves_refl holds_token_def)

lemma run_rel_step: "run_step mc c d \<Longrightarrow> run_inv c \<Longrightarrow> run_rel c d"
  by (erule run_step.cases) (auto intro: step_intros)

interpretation run_machine: evolving_machine run_init "run_step mc" run_inv run_rel for mc
  by unfold_locales
    (erule run_inv_init, erule (1) run_inv_step, rule run_rel_refl, erule (1) run_rel_trans,
      erule (1) run_rel_step)

section \<open>Properties of the run store\<close>

definition run_reachable :: "int option \<Rightarrow> run_store \<times> string set \<Rightarrow> bool" where
  "run_reachable mc c \<longleftrightarrow> (\<exists>c0. run_init c0 \<and> (run_step mc)\<^sup>*\<^sup>* c0 c)"

lemma run_reachable_inv: "run_reachable mc c \<Longrightarrow> run_inv c"
  unfolding run_reachable_def by (metis run_machine.inv_reachable)

lemma run_reachable_step: "run_reachable mc c \<Longrightarrow> run_step mc c d \<Longrightarrow> run_reachable mc d"
  unfolding run_reachable_def by (metis rtranclp.rtrancl_into_rtrancl)

lemma run_reachable_steps: "run_reachable mc c \<Longrightarrow> (run_step mc)\<^sup>*\<^sup>* c d \<Longrightarrow> run_reachable mc d"
  unfolding run_reachable_def by (metis rtranclp_trans)

lemma run_reachable_init: "run_reachable mc (createMemoryRunStore, {})"
  unfolding run_reachable_def run_init_def by blast

lemma run_rel_steps: "run_reachable mc c \<Longrightarrow> (run_step mc)\<^sup>*\<^sup>* c d \<Longrightarrow> run_rel c d"
  by (metis run_machine.rel_steps run_reachable_inv)

text \<open>
  A short history used by the witnesses: one message is queued as run \<open>r1\<close>, a worker claims it under
  the token \<open>t1\<close>, the turn fails for good.
\<close>

definition demo_input :: enqueue_input where
  "demo_input = \<lparr> eq_sessionId = ''s'', eq_request = JNull, eq_dedupKey = Some ''k'', eq_maxAttempts = Some 1 \<rparr>"

definition demo_queued :: run_store where
  "demo_queued = snd (enqueue ''r1'' 5 demo_input createMemoryRunStore)"

definition demo_claimed :: run_store where
  "demo_claimed = snd (claim ''t1'' 7 ''w'' 100 demo_queued)"

definition demo_failed :: run_store where
  "demo_failed = snd (fail_run None 9 ''r1'' ''t1'' ''boom'' None demo_claimed)"

lemma demo_queued_reachable: "run_reachable None (demo_queued, {})"
  unfolding demo_queued_def
  by (rule run_reachable_step [OF run_reachable_init], rule step_enqueue)
     (auto simp: get_run_def createMemoryRunStore_def)

lemma demo_claimed_reachable: "run_reachable None (demo_claimed, {''t1''})"
  unfolding demo_claimed_def
  by (rule run_reachable_step [OF demo_queued_reachable], rule step_claim) simp

lemma demo_fails: "run_step None (demo_claimed, {''t1''}) (demo_failed, {''t1''})"
  unfolding demo_failed_def by (rule step_fail)

text \<open>
  C1. In every state the run store can reach, a session has at most one running run; a run holds a
  lease token, and a lease expiry, exactly while it is running, and no two runs hold the same token;
  it has a result exactly when it is done or failed; and it never counts more errors than attempts
  nor more errors than its limit allows (a limit below one counts as one).
\<close>

theorem run_store_invariant:
  assumes "run_reachable mc (s, I)" and "get_run s i = Some r"
  shows "(run_leaseToken r \<noteq> None \<longleftrightarrow> run_status r = RRunning) \<and>
    (run_leaseExpiresAt r \<noteq> None \<longleftrightarrow> run_status r = RRunning) \<and>
    (run_result r \<noteq> None \<longleftrightarrow> isTerminal (run_status r)) \<and>
    0 \<le> run_errorAttempts r \<and> run_errorAttempts r \<le> run_attempts r \<and>
    run_errorAttempts r \<le> max 1 (run_maxAttempts r) \<and>
    (\<forall>j q. get_run s j = Some q \<and> run_status r = RRunning \<and> run_status q = RRunning \<and>
       (run_sessionId r = run_sessionId q \<or> run_leaseToken r = run_leaseToken q) \<longrightarrow> i = j)"
proof -
  note inv = run_reachable_inv [OF assms(1)]
  have wf: "run_wf r" using get_run_D(2) [OF inv assms(2)] .
  have "i = j" if q: "get_run s j = Some q" "run_status r = RRunning" "run_status q = RRunning"
      "run_sessionId r = run_sessionId q \<or> run_leaseToken r = run_leaseToken q" for j q
  proof (cases "run_sessionId r = run_sessionId q")
    case True
    with q assms(2) run_inv_D(2) [OF inv] show ?thesis unfolding runs_exclusive_def by blast
  next
    case False
    with q(4) wf q(2) obtain t where "run_leaseToken r = Some t" "run_leaseToken q = Some t"
      by (auto simp: run_wf_def)
    with q(1) assms(2) run_inv_D(3) [OF inv] show ?thesis unfolding tokens_ok_def by simp
  qed
  with wf show ?thesis unfolding run_wf_def by blast
qed

theorem run_store_invariant_witness:
  "\<exists>r. get_run demo_claimed ''r1'' = Some r \<and> run_status r = RRunning \<and> run_leaseToken r \<noteq> None \<and>
     run_result r = None"
proof -
  have "map_option run_status (get_run demo_claimed ''r1'') = Some RRunning" by code_simp
  then obtain r where r: "get_run demo_claimed ''r1'' = Some r" "run_status r = RRunning" by auto
  with run_store_invariant [OF demo_claimed_reachable r(1)] show ?thesis by auto
qed

text \<open>
  C3. A run that has finished is never touched again: whatever operations follow, in whatever order
  and with whatever tokens, the run is still there with the same status, result, error and attempt
  counts and times; only the delivery state may be written.
\<close>

theorem finished_run_is_final:
  assumes "run_reachable mc (s, I)" and "(run_step mc)\<^sup>*\<^sup>* (s, I) (s', I')"
    and "get_run s i = Some r" and "isTerminal (run_status r)"
  shows "\<exists>r'. get_run s' i = Some r' \<and> r' = r\<lparr> run_deliveryState := run_deliveryState r' \<rparr>"
  using run_rel_steps [OF assms(1,2)] assms(3,4)
  unfolding run_rel_def run_evolves_def same_outcome_def by fastforce

theorem finished_run_is_final_witness:
  "\<exists>r'. get_run (snd (setDeliveryState ''r1'' None (Some ''m'') demo_failed)) ''r1'' = Some r' \<and>
     run_status r' = RFailed"
proof -
  have reach: "run_reachable None (demo_failed, {''t1''})"
    by (rule run_reachable_step [OF demo_claimed_reachable demo_fails])
  have "map_option run_status (get_run demo_failed ''r1'') = Some RFailed" by code_simp
  then obtain r where r: "get_run demo_failed ''r1'' = Some r" "run_status r = RFailed" by auto
  have "\<exists>r'. get_run (snd (setDeliveryState ''r1'' None (Some ''m'') demo_failed)) ''r1'' = Some r' \<and>
     r' = r\<lparr> run_deliveryState := run_deliveryState r' \<rparr>"
    by (rule finished_run_is_final [OF reach r_into_rtranclp [of "run_step None"], OF step_setDeliveryState])
       (use r in auto)
  with r(2) show ?thesis by (metis run.select_convs(3) run.surjective run.update_convs(6))
qed



text \<open>
  Enqueueing is idempotent per dedup key: once a request with a non-empty key has been accepted,
  every later request with the same key, after any history, is answered with that same run, flagged
  as a duplicate, and queues nothing.
\<close>

theorem enqueue_dedups:
  assumes "run_reachable mc (s, I)" and "get_run s newId = None" and "newId \<noteq> ''''"
    and "enqueue newId now inp s = ((r, dup), s1)" and "(run_step mc)\<^sup>*\<^sup>* (s1, I) (s2, I2)"
    and "eq_dedupKey inp = Some k" and "k \<noteq> ''''" and "eq_dedupKey inp' = Some k"
  shows "\<exists>r'. enqueue newId' now' inp' s2 = ((r', True), s2) \<and> run_id r' = run_id r"
proof -
  have step: "run_step mc (s, I) (s1, I)" using step_enqueue [OF assms(3,2), of mc I now inp] assms(4) by simp
  have reach: "run_reachable mc (s1, I)" "run_reachable mc (s2, I2)"
    using run_reachable_step [OF assms(1) step] run_reachable_steps [OF _ assms(5)] by auto
  have r: "get_run s1 (run_id r) = Some r \<and> run_dedupKey r = Some k"
  proof (cases "dedup_lookup inp s")
    case None
    with assms(4,6) show ?thesis
      by (auto simp: enqueue_def Let_def insert_run_def get_run_def put_run_def)
  next
    case (Some q)
    with assms(4,6) dedup_lookup_iff [OF run_reachable_inv [OF assms(1)], of inp q] show ?thesis
      by (auto simp: enqueue_def)
  qed
  with run_rel_steps [OF reach(1) assms(5)] obtain r' where
    r': "get_run s2 (run_id r) = Some r'" "run_evolves r r'" unfolding run_rel_def fst_conv by blast
  then have "dedup_lookup inp' s2 = Some r'"
    using dedup_lookup_iff [OF run_reachable_inv [OF reach(2)]] r assms(7,8)
    by (auto simp: run_evolves_def truthy_def)
  with r'(2) show ?thesis by (auto simp: enqueue_def run_evolves_def)
qed

theorem enqueue_dedups_witness:
  "\<exists>r'. enqueue ''r2'' 30 demo_input demo_failed = ((r', True), demo_failed) \<and> run_id r' = ''r1''"
proof -
  let ?r = "new_run ''r1'' 5 demo_input"
  have e: "enqueue ''r1'' 5 demo_input createMemoryRunStore = ((?r, False), demo_queued)"
    unfolding demo_queued_def enqueue_def
    by (simp add: dedup_lookup_def createMemoryRunStore_def Let_def)
  have "run_step None (demo_queued, {}) (demo_claimed, {''t1''})"
    unfolding demo_claimed_def by (rule step_claim) simp
  then have "(run_step None)\<^sup>*\<^sup>* (demo_queued, {}) (demo_failed, {''t1''})"
    by (rule converse_rtranclp_into_rtranclp) (rule r_into_rtranclp, rule demo_fails)
  from enqueue_dedups [OF run_reachable_init _ _ e this, of "''k''" demo_input "''r2''" 30]
  show ?thesis by (simp add: demo_input_def get_run_def createMemoryRunStore_def)
qed

text \<open>
  \<open>claim\<close> returns nothing exactly when every pending run belongs to a session that is already
  running one; otherwise it leases one of the oldest claimable runs, of an idle session, under the
  new token, counts the attempt, and touches no other run.
\<close>

theorem claim_takes_oldest:
  assumes "run_reachable mc (s, I)"
  shows "case claim tok now w ttl s of
      (None, s') \<Rightarrow> s' = s \<and> (\<forall>i r. get_run s i = Some r \<and> run_status r = RPending \<longrightarrow>
                      sessionHasRunning s (run_sessionId r) None)
    | (Some r', s') \<Rightarrow> \<exists>i r. get_run s i = Some r \<and> run_status r = RPending \<and>
         \<not> sessionHasRunning s (run_sessionId r) None \<and> r' = lease_run tok now w ttl r \<and>
         get_run s' = (get_run s)(i \<mapsto> r') \<and>
         (\<forall>j q. get_run s j = Some q \<and> run_status q = RPending \<and>
            \<not> sessionHasRunning s (run_sessionId q) None \<longrightarrow> run_createdAt r \<le> run_createdAt q)"
proof -
  note inv = run_reachable_inv [OF assms]
  note C = set_claimable [OF run_inv_D(1) [OF inv]]
  have key: "get_run s j = Some q \<Longrightarrow> run_id q = j" for j q using get_run_D(1) [OF inv] .
  show ?thesis
  proof (cases "claimable s")
    case Nil
    then have "\<And>r. r \<notin> set (claimable s)" by simp
    with Nil show ?thesis unfolding C claim_def using key by auto
  next
    case (Cons r rs)
    have "sorted (map run_createdAt (claimable s))" unfolding claimable_def by (rule sorted_sort_key)
    with Cons have min: "\<forall>q \<in> set (claimable s). run_createdAt r \<le> run_createdAt q" by auto
    from Cons have "r \<in> set (claimable s)" by simp
    then have r: "get_run s (run_id r) = Some r" "run_status r = RPending"
      "\<not> sessionHasRunning s (run_sessionId r) None" unfolding C by auto
    have "run_createdAt r \<le> run_createdAt q"
      if "get_run s j = Some q" "run_status q = RPending" "\<not> sessionHasRunning s (run_sessionId q) None" for j q
      using that min key unfolding Ball_def C by metis
    with r Cons show ?thesis
      by (auto simp: claim_def Let_def lease_run_def)
  qed
qed

theorem claim_takes_oldest_witness:
  "\<exists>r' s'. claim ''t1'' 7 ''w'' 100 demo_queued = (Some r', s') \<and>
     (\<exists>i r. get_run demo_queued i = Some r \<and> run_status r = RPending \<and> r' = lease_run ''t1'' 7 ''w'' 100 r)"
proof -
  have "\<not> Option.is_none (fst (claim ''t1'' 7 ''w'' 100 demo_queued))" by code_simp
  then obtain r' s' where "claim ''t1'' 7 ''w'' 100 demo_queued = (Some r', s')"
    by (metis is_none_code(1) not_None_eq prod.collapse)
  with claim_takes_oldest [OF demo_queued_reachable, of "''t1''" 7 "''w''" 100] show ?thesis by auto
qed

text \<open>
  \<open>errorParks\<close>, which a worker asks before a turn to announce the final attempt, is exact: when the
  attempt then fails with a retryable error, the run is requeued if \<open>errorParks\<close> said no, and is failed
  with that error as its reason if it said yes.
\<close>

theorem errorParks_exact:
  assumes "run_reachable mc (s, I)" and "get_run s i = Some r" and "run_leaseToken r = Some t"
  shows "case fail_run mc now i t err None s of (requeued, s') \<Rightarrow>
    requeued = (\<not> errorParks r mc) \<and>
    (\<exists>r'. get_run s' i = Some r' \<and> run_errorAttempts r' = run_errorAttempts r + 1 \<and>
       (if errorParks r mc
        then run_status r' = RFailed \<and> run_result r' = Some (failed_result (run_sessionId r) err)
        else run_status r' = RPending \<and> run_result r' = None))"
proof -
  note inv = run_reachable_inv [OF assms(1)]
  have "run_status r = RRunning" using token_running [OF inv assms(2,3)] .
  moreover have "run_id r = i" "run_wf r" using get_run_D [OF inv assms(2)] by auto
  ultimately show ?thesis using assms(2,3)
    by (auto simp: fail_run_def retire_def retire_run_def errorParks_def run_wf_def Let_def
        split: option.split)
qed

theorem errorParks_exact_witness:
  "fst (fail_run None 9 ''r1'' ''t1'' ''boom'' None demo_claimed) = False"
proof -
  have "map_option (\<lambda>r. (run_leaseToken r, errorParks r None)) (get_run demo_claimed ''r1'') =
      Some (Some ''t1'', True)" by code_simp
  then obtain r where r: "get_run demo_claimed ''r1'' = Some r" "run_leaseToken r = Some ''t1''"
    "errorParks r None" by auto
  from errorParks_exact [OF demo_claimed_reachable r(1,2), where now = 9 and err = "''boom''"] r(3) show ?thesis
    by (auto split: prod.splits)
qed

lemma reap_fold_result:
  assumes "distinct (map run_id rs)" "\<forall>r \<in> set rs. get_run (snd acc) (run_id r) = Some r \<and> leaseLapsed r now"
  shows "rr_requeued (fst (fold (reap_one mc now maxAge) rs acc)) +
         rr_parked (fst (fold (reap_one mc now maxAge) rs acc)) =
           rr_requeued (fst acc) + rr_parked (fst acc) + length rs \<and>
         rr_retiredSessionIds (fst (fold (reap_one mc now maxAge) rs acc)) =
           rr_retiredSessionIds (fst acc) @ map run_sessionId rs \<and>
         map re_runId (rr_events (fst (fold (reap_one mc now maxAge) rs acc))) =
           map re_runId (rr_events (fst acc)) @ map run_id rs \<and>
         (\<forall>i. get_run (snd (fold (reap_one mc now maxAge) rs acc)) i =
           (case List.find (\<lambda>r. run_id r = i) rs of
              None \<Rightarrow> get_run (snd acc) i | Some r \<Rightarrow> Some (fst (reap_target mc now maxAge r))))"
  using assms
proof (induction rs arbitrary: acc)
  case (Cons r rs)
  obtain res s where acc: "acc = (res, s)" by force
  let ?acc = "reap_one mc now maxAge r acc"
  obtain r' rq ap where eq: "reap_target mc now maxAge r = (r', rq, ap)" by (metis prod_cases3)
  note sel = reap_target_sel [OF eq]
  have ap: ap using Cons.prems(2) sel(2) by simp
  have st: "snd ?acc = settle r' (put_run r' s)" using acc eq ap by (simp add: reap_one_store)
  have res: "rr_requeued (fst ?acc) + rr_parked (fst ?acc) = rr_requeued res + rr_parked res + 1"
    "rr_retiredSessionIds (fst ?acc) = rr_retiredSessionIds res @ [run_sessionId r]"
    "map re_runId (rr_events (fst ?acc)) = map re_runId (rr_events res) @ [run_id r]"
    using eq ap unfolding acc
    by (simp_all add: reap_one_def reap_target_def retire_def Let_def split: if_splits)
  have "\<forall>q \<in> set rs. get_run (snd ?acc) (run_id q) = Some q \<and> leaseLapsed q now"
    using Cons.prems acc by (auto simp: reap_one_other image_iff)
  note IH = Cons.IH [OF _ this]
  have new: "List.find (\<lambda>q. run_id q = run_id r) rs = None"
    using Cons.prems(1) by (auto simp: find_None_iff image_iff)
  show ?case using IH Cons.prems(1) res st sel(1) new eq acc by (auto split: option.splits)
qed simp

lemma reapExpired_result:
  assumes inv: "run_inv (s, I)" and eq: "reapExpired mc now maxAge s = (res, s')"
  shows "rr_requeued res + rr_parked res = length (lapsed_runs now s)"
    "rr_retiredSessionIds res = map run_sessionId (lapsed_runs now s)"
    "map re_runId (rr_events res) = map run_id (lapsed_runs now s)"
    "get_run s i = Some r \<Longrightarrow>
       get_run s' i = Some (if leaseLapsed r now then fst (reap_target mc now maxAge r) else r)"
    "get_run s i = None \<Longrightarrow> get_run s' i = None"
proof -
  note L = lapsed_runs_props [OF inv]
  let ?acc = "(\<lparr> rr_requeued = 0, rr_parked = 0, rr_retiredSessionIds = [], rr_events = [] \<rparr>, s)"
  have fold: "fold (reap_one mc now maxAge) (lapsed_runs now s) ?acc = (res, s')"
    using eq by (simp add: reapExpired_def lapsed_runs_def)
  have all: "\<forall>r \<in> set (lapsed_runs now s). get_run (snd ?acc) (run_id r) = Some r \<and> leaseLapsed r now"
    using L(2) by auto
  note F = reap_fold_result [OF L(1) all, of mc maxAge, unfolded fold fst_conv snd_conv]
  show "rr_requeued res + rr_parked res = length (lapsed_runs now s)"
    "rr_retiredSessionIds res = map run_sessionId (lapsed_runs now s)"
    "map re_runId (rr_events res) = map run_id (lapsed_runs now s)"
    using F by simp_all
  show "get_run s' i = Some (if leaseLapsed r now then fst (reap_target mc now maxAge r) else r)"
    if r: "get_run s i = Some r"
  proof (cases "List.find (\<lambda>q. run_id q = i) (lapsed_runs now s)")
    case None
    then have "\<not> leaseLapsed r now" using L(2) [of r] r get_run_D(1) [OF inv r] by (auto simp: find_None_iff)
    with None F r show ?thesis by simp
  next
    case (Some q)
    then have "q \<in> set (lapsed_runs now s)" "run_id q = i" by (auto simp: find_Some_iff)
    with L(2) [of q] r have "q = r" "leaseLapsed r now" by auto
    with Some F show ?thesis by simp
  qed
  show "get_run s' i = None" if "get_run s i = None"
    using F that L(2) by (auto split: option.splits simp: find_Some_iff) (metis nth_mem option.distinct(1))
qed

text \<open>
  C7. A reaper sweep deals with exactly the runs whose lease has lapsed: afterwards no lease that had
  lapsed at the time of the sweep is left, each run that had lapsed is pending again or failed, every
  other run is as before, the requeued and parked counts add up to the number of lapsed runs, and the
  sessions reported for lease release are theirs, in order.
\<close>

theorem reapExpired_sweeps:
  assumes "run_reachable mc (s, I)"
  shows "case reapExpired mc now maxAge s of (res, s') \<Rightarrow>
    rr_requeued res + rr_parked res = length (lapsed_runs now s) \<and>
    rr_retiredSessionIds res = map run_sessionId (lapsed_runs now s) \<and>
    (\<forall>i r. get_run s i = Some r \<longrightarrow>
       (if leaseLapsed r now
        then \<exists>r'. get_run s' i = Some r' \<and> run_status r' \<in> {RPending, RFailed} \<and> \<not> leaseLapsed r' now
        else get_run s' i = Some r)) \<and>
    (\<forall>i. get_run s i = None \<longrightarrow> get_run s' i = None)"
proof -
  note inv = run_reachable_inv [OF assms]
  obtain res s' where eq: "reapExpired mc now maxAge s = (res, s')" by force
  note R = reapExpired_result [OF inv eq]
  have "\<exists>r'. get_run s' i = Some r' \<and> run_status r' \<in> {RPending, RFailed} \<and> \<not> leaseLapsed r' now"
    if "get_run s i = Some r" "leaseLapsed r now" for i r
  proof -
    obtain r' rq ap where t: "reap_target mc now maxAge r = (r', rq, ap)" by (metis prod_cases3)
    show ?thesis using R(4) [OF that(1)] that(2) reap_target_sel [OF t] t by (auto simp: leaseLapsed_def)
  qed
  with R eq show ?thesis by simp
qed

theorem reapExpired_sweeps_witness:
  "rr_requeued (fst (reapExpired None 200 None demo_claimed)) +
   rr_parked (fst (reapExpired None 200 None demo_claimed)) = 1"
proof -
  have "length (lapsed_runs 200 demo_claimed) = 1" by code_simp
  with reapExpired_sweeps [OF demo_claimed_reachable, of 200 None] show ?thesis
    by (auto split: prod.splits)
qed

text \<open>
  Every run that finishes is announced to the terminal listeners exactly once, and a caller that
  waits for a run gets it: if the run has finished by a later state, the subscription made by
  \<open>waitFor\<close> (or its immediate answer) yields that run with its final status and result.
\<close>

theorem waitFor_resolves:
  assumes "run_reachable mc (s, I)" and "(run_step mc)\<^sup>*\<^sup>* (s, I) (s', I')"
    and "get_run s' i = Some r'" and "isTerminal (run_status r')"
  shows "length (filter (\<lambda>x. run_id x = i) (rs_settled s')) = 1 \<and>
    (\<exists>x. wait_poll (waitFor s i) s' = Some x \<and> r' = x\<lparr> run_deliveryState := run_deliveryState r' \<rparr>)"
proof -
  note inv = run_reachable_inv [OF assms(1)]
  note inv' = run_reachable_inv [OF run_reachable_steps [OF assms(1,2)]]
  note S = run_inv_D(5) [OF inv, unfolded settled_ok_def] and S' = run_inv_D(5) [OF inv', unfolded settled_ok_def]
  note R = run_rel_steps [OF assms(1,2), unfolded run_rel_def fst_conv snd_conv]
  from S' assms(3,4) obtain x where x: "x \<in> set (rs_settled s')" "run_id x = i" by blast
  have uniq: "y = x" if "y \<in> set (rs_settled s')" "run_id y = i" for y
    using S' x that by (metis distinct_map inj_on_eq_iff)
  have "distinct (rs_settled s')" using S' by (metis distinct_map)
  then have "length (filter (\<lambda>x. run_id x = i) (rs_settled s')) =
      card (set (filter (\<lambda>x. run_id x = i) (rs_settled s')))"
    by (intro distinct_card [symmetric] distinct_filter)
  moreover have "set (filter (\<lambda>x. run_id x = i) (rs_settled s')) = {x}"
    using x uniq unfolding set_filter by blast
  ultimately have one: "length (filter (\<lambda>x. run_id x = i) (rs_settled s')) = 1" by simp
  have out: "same_outcome x r'" using S' x assms(3) by (metis option.inject)
  have "\<exists>y. wait_poll (waitFor s i) s' = Some y \<and> same_outcome y r'"
  proof (cases "\<exists>r. get_run s i = Some r \<and> isTerminal (run_status r)")
    case True
    then obtain r where r: "get_run s i = Some r" "isTerminal (run_status r)" by blast
    with R assms(3) have "same_outcome r r'" by (fastforce simp: run_evolves_def)
    with r show ?thesis by (simp add: waitFor_def)
  next
    case False
    then have w: "waitFor s i = WaitFrom i (length (rs_settled s))"
      by (auto simp: waitFor_def split: option.split)
    from R obtain zs where zs: "rs_settled s' = rs_settled s @ zs" by blast
    have "x \<notin> set (rs_settled s)" using S False x(2) by blast
    then have "x \<in> set zs" using x(1) zs by simp
    then have "List.find (\<lambda>r. run_id r = i) zs \<noteq> None" using x(2) by (auto simp: find_None_iff)
    then obtain y where y: "List.find (\<lambda>r. run_id r = i) zs = Some y" by blast
    then have "y \<in> set zs" "run_id y = i" by (auto simp: find_Some_iff)
    then have "y = x" using uniq zs by auto
    with w y zs out show ?thesis by simp
  qed
  with one show ?thesis by (simp add: same_outcome_def)
qed

theorem waitFor_resolves_witness:
  "\<exists>x. wait_poll (waitFor demo_claimed ''r1'') demo_failed = Some x \<and> run_status x = RFailed"
proof -
  have "map_option run_status (get_run demo_failed ''r1'') = Some RFailed" by code_simp
  then obtain r where r: "get_run demo_failed ''r1'' = Some r" "run_status r = RFailed" by auto
  from waitFor_resolves [OF demo_claimed_reachable r_into_rtranclp [of "run_step None"], OF demo_fails r(1)] r(2)
  obtain x where x: "wait_poll (waitFor demo_claimed ''r1'') demo_failed = Some x"
    "r = x\<lparr> run_deliveryState := run_deliveryState r \<rparr>" by auto
  from arg_cong [OF x(2), of run_status] r(2) have "run_status x = RFailed" by simp
  with x(1) show ?thesis by blast
qed

section \<open>The ledger\<close>

lemma ledger_key_inj [simp]:
  "ledger_key r a c = ledger_key r' a' c' \<longleftrightarrow> r = r' \<and> a = a' \<and> c = c'"
proof
  assume eq: "ledger_key r a c = ledger_key r' a' c'"
  have nc: "CHR '':'' \<notin> set (js_show_int i)" for i by (rule js_show_int_chars) simp_all
  from eq have "(r @ '':'' @ js_show_int a) @ CHR '':'' # js_show_int c =
      (r' @ '':'' @ js_show_int a') @ CHR '':'' # js_show_int c'" by (simp add: ledger_key_def)
  from last_sep_unique [OF this nc nc] have "c = c'"
    and "r @ CHR '':'' # js_show_int a = r' @ CHR '':'' # js_show_int a'" by auto
  from this(1) last_sep_unique [OF this(2) nc nc] show "r = r' \<and> a = a' \<and> c = c'" by simp
qed simp

text \<open>
  The tool ledger replays a call exactly: after a call's output is recorded, asking for that run,
  attempt and call index returns it, and asking for any other run, attempt or index returns what it
  returned before, whatever characters run ids contain.
\<close>

theorem ledger_replays:
  "ledger_begin (ledger_record r a c out s) r' a' c' =
     (if r' = r \<and> a' = a \<and> c' = c then Some out else ledger_begin s r' a' c')"
  by (auto simp: ledger_begin_def ledger_record_def)

end
