(* ===== verification/Sessions.thy ===== *)
theory Sessions
  imports Scope
begin

text \<open>
  The in-memory session store (\<open>src/sessions/memory-session-store.ts\<close>): sessions by thread, the
  append-only entry log and tape behind a lease, participants and the window of the log each of them
  sees. Ids and lease tokens come from \<open>randomUUID()\<close>; the step relation keeps those already handed
  out as a ghost set. The clock of the store is the argument \<open>now\<close>, the lease time \<open>ttl\<close>.
\<close>

datatype session_type = SDm | SChannel | SGroup

text \<open>The live badges of a session (\<open>working\<close>, \<open>awaitingInput\<close>, \<open>backgroundJobs\<close>, \<open>watches\<close>) are no part of the store.\<close>

record session =
  se_id :: string
  se_type :: session_type
  se_scopeId :: scope_id
  se_threadRef :: string
  se_surface :: "string option"
  se_createdAt :: time
  se_channelName :: "string option"
  se_title :: "string option"
  se_archived :: bool
  se_pinned :: bool
  se_color :: "string option"
  se_lastActivityAt :: "time option"
  se_hasEntries :: "bool option"

datatype entry_type =
    EUser | EAssistant | EThinking | EText | EToolCall | EToolResult | ESoul | ESystem | EDelivery
  | EApprovalRequest | EApprovalResolved

record session_entry =
  en_sessionId :: string
  en_seq :: nat
  en_parentSeq :: "nat option"
  en_type :: entry_type
  en_payload :: json
  en_scopeLabel :: scope_id
  en_createdAt :: time

datatype tape_kind = TMessage | TContextEvent | TAnnotation

record tape_meta =
  tm_bareText :: "string option"
  tm_ts :: "string option"
  tm_changeTime :: "string option"
  tm_hidden :: bool
  tm_overheard :: bool
  tm_author :: "string option"

record new_tape_record =
  tp_kind :: tape_kind
  tp_payload :: json
  tp_scopeLabel :: scope_id
  tp_harness :: "string option"
  tp_meta :: "tape_meta option"
  tp_entrySeq :: "int option"
  tp_coversEntrySeq :: "int option"

record tape_record = new_tape_record +
  tp_sessionId :: string
  tp_seq :: nat
  tp_createdAt :: time

datatype lease_holder = HTurn | HCompaction | HFork | HBackfill

record lease =
  le_sessionId :: string
  le_token :: string

record held_lease =
  hl_token :: string
  hl_expiresAt :: time
  hl_acquiredAt :: time
  hl_holder :: "lease_holder option"

datatype lease_attempt =
    LeaseTaken lease
  | LeaseHeld "lease_holder option" time time

text \<open>
  A participant's window. \<open>title\<close> holds neither \<open>undefined\<close> nor \<open>null\<close> apart and the two flags read
  \<open>undefined\<close> as false: the store only ever tests them that way.
\<close>

record window =
  wi_validFrom :: time
  wi_validTo :: "time option"
  wi_validFromSeq :: nat
  wi_validToSeq :: "nat option"
  wi_title :: "string option"
  wi_archived :: bool
  wi_pinned :: bool
  wi_color :: "string option"

record new_llm_request =
  lr_turnSeq :: "int option"
  lr_step :: int
  lr_model :: string
  lr_scopeLabel :: scope_id
  lr_request :: json
  lr_truncated :: "bool option"
  lr_ttftMs :: "int option"
  lr_durationMs :: "int option"
  lr_stepGapMs :: "int option"
  lr_toolWallMs :: "int list option"
  lr_gapPhases :: "json option"
  lr_usage :: "json option"
  lr_transport :: "json option"

record llm_request = new_llm_request +
  lr_id :: string
  lr_sessionId :: string
  lr_createdAt :: time

record session_store =
  ss_sessions :: "(string, session) jsmap"
  ss_entries :: "(string, session_entry list) jsmap"
  ss_tape :: "(string, tape_record list) jsmap"
  ss_llm :: "(string, llm_request list) jsmap"
  ss_byThread :: "(string, string) jsmap"
  ss_participants :: "(string, string list) jsmap"
  ss_windows :: "(string, (string, window) jsmap) jsmap"
  ss_leases :: "(string, held_lease) jsmap"

datatype session_error = AppendWithoutLease | UnknownSession string | TapeAppendWithoutLease

definition createMemorySessionStore :: session_store where
  "createMemorySessionStore =
     \<lparr> ss_sessions = [], ss_entries = [], ss_tape = [], ss_llm = [], ss_byThread = [],
       ss_participants = [], ss_windows = [], ss_leases = [] \<rparr>"

section \<open>Operations\<close>

definition log_of :: "session_store \<Rightarrow> string \<Rightarrow> session_entry list" where
  "log_of s sid = (case map_of (ss_entries s) sid of None \<Rightarrow> [] | Some l \<Rightarrow> l)"

definition tape_of :: "session_store \<Rightarrow> string \<Rightarrow> tape_record list" where
  "tape_of s sid = (case map_of (ss_tape s) sid of None \<Rightarrow> [] | Some l \<Rightarrow> l)"

definition window_of :: "session_store \<Rightarrow> string \<Rightarrow> string \<Rightarrow> window option" where
  "window_of s sid pid = Option.bind (map_of (ss_windows s) sid) (\<lambda>w. map_of w pid)"

definition new_session ::
  "string \<Rightarrow> time \<Rightarrow> string \<Rightarrow> session_type \<Rightarrow> scope_id \<Rightarrow> string option \<Rightarrow> string option \<Rightarrow> session" where
  "new_session newId now threadRef typ sc channelName surface =
     \<lparr> se_id = newId, se_type = typ, se_scopeId = sc, se_threadRef = threadRef,
       se_surface = (if truthy surface then surface else None), se_createdAt = now,
       se_channelName = (if truthy channelName then channelName else None),
       se_title = None, se_archived = False, se_pinned = False, se_color = None,
       se_lastActivityAt = None, se_hasEntries = None \<rparr>"

definition getByThread :: "session_store \<Rightarrow> string \<Rightarrow> session option" where
  "getByThread s threadRef =
     (case map_of (ss_byThread s) threadRef of
        None \<Rightarrow> None
      | Some sid \<Rightarrow> if sid = '''' then None else map_of (ss_sessions s) sid)"

definition getOrCreateByThread ::
  "string \<Rightarrow> time \<Rightarrow> string \<Rightarrow> session_type \<Rightarrow> scope_id \<Rightarrow> string option \<Rightarrow> string option \<Rightarrow>
     session_store \<Rightarrow> session \<times> session_store" where
  "getOrCreateByThread newId now threadRef typ sc channelName surface s =
     (case getByThread s threadRef of
        Some se \<Rightarrow>
          let se1 = (if truthy channelName \<and> se_channelName se \<noteq> channelName
                     then se\<lparr> se_channelName := channelName \<rparr> else se);
              se2 = (if truthy surface \<and> \<not> truthy (se_surface se1)
                     then se1\<lparr> se_surface := surface \<rparr> else se1)
          in (se2, s\<lparr> ss_sessions := jmap_set (the (map_of (ss_byThread s) threadRef)) se2 (ss_sessions s) \<rparr>)
      | None \<Rightarrow>
          let se = new_session newId now threadRef typ sc channelName surface
          in (se, s\<lparr> ss_sessions := jmap_set (se_id se) se (ss_sessions s),
                     ss_entries := jmap_set (se_id se) [] (ss_entries s),
                     ss_byThread := jmap_set threadRef (se_id se) (ss_byThread s) \<rparr>))"

definition updateTitle :: "string \<Rightarrow> string option \<Rightarrow> session_store \<Rightarrow> session_store" where
  "updateTitle sid title s =
     s\<lparr> ss_sessions := jmap_mutate sid (\<lambda>se. se\<lparr> se_title := title \<rparr>) (ss_sessions s) \<rparr>"

definition acquireLease ::
  "int \<Rightarrow> time \<Rightarrow> string \<Rightarrow> string \<Rightarrow> lease_holder option \<Rightarrow> session_store \<Rightarrow> lease_attempt \<times> session_store" where
  "acquireLease ttl now tok sid holder s =
     (case map_of (ss_leases s) sid of
        Some held \<Rightarrow>
          if now < hl_expiresAt held
          then (LeaseHeld (hl_holder held) (hl_acquiredAt held) (hl_expiresAt held), s)
          else (LeaseTaken \<lparr> le_sessionId = sid, le_token = tok \<rparr>,
                s\<lparr> ss_leases := jmap_set sid \<lparr> hl_token = tok, hl_expiresAt = now + ttl,
                     hl_acquiredAt = now, hl_holder = holder \<rparr> (ss_leases s) \<rparr>)
      | None \<Rightarrow>
          (LeaseTaken \<lparr> le_sessionId = sid, le_token = tok \<rparr>,
           s\<lparr> ss_leases := jmap_set sid \<lparr> hl_token = tok, hl_expiresAt = now + ttl,
                hl_acquiredAt = now, hl_holder = holder \<rparr> (ss_leases s) \<rparr>))"

definition releaseSessionLease :: "lease \<Rightarrow> session_store \<Rightarrow> session_store" where
  "releaseSessionLease l s =
     (if map_option hl_token (map_of (ss_leases s) (le_sessionId l)) = Some (le_token l)
      then s\<lparr> ss_leases := jmap_delete (le_sessionId l) (ss_leases s) \<rparr> else s)"

definition forceReleaseLease :: "string \<Rightarrow> session_store \<Rightarrow> session_store" where
  "forceReleaseLease sid s = s\<lparr> ss_leases := jmap_delete sid (ss_leases s) \<rparr>"

definition deleteSession :: "string \<Rightarrow> session_store \<Rightarrow> session_store" where
  "deleteSession sid s =
     (let byThread = (case map_of (ss_sessions s) sid of
                        Some se \<Rightarrow> jmap_delete (se_threadRef se) (ss_byThread s)
                      | None \<Rightarrow> ss_byThread s);
          members = (case map_of (ss_windows s) sid of None \<Rightarrow> [] | Some w \<Rightarrow> map fst w)
      in s\<lparr> ss_byThread := byThread,
            ss_participants :=
              fold (\<lambda>pid m. jmap_mutate pid (\<lambda>ids. removeAll sid ids) m) members (ss_participants s),
            ss_sessions := jmap_delete sid (ss_sessions s),
            ss_entries := jmap_delete sid (ss_entries s),
            ss_tape := jmap_delete sid (ss_tape s),
            ss_llm := jmap_delete sid (ss_llm s),
            ss_windows := jmap_delete sid (ss_windows s),
            ss_leases := jmap_delete sid (ss_leases s) \<rparr>)"

text \<open>\<open>held.expiresAt = now() + leaseTtlMs\<close>: the append extends the lease, also when it then throws.\<close>

definition extend_lease :: "time \<Rightarrow> string \<Rightarrow> session_store \<Rightarrow> session_store" where
  "extend_lease till sid s =
     s\<lparr> ss_leases := jmap_mutate sid (\<lambda>h. h\<lparr> hl_expiresAt := till \<rparr>) (ss_leases s) \<rparr>"

definition lease_valid :: "lease \<Rightarrow> session_store \<Rightarrow> bool" where
  "lease_valid l s \<longleftrightarrow>
     map_option hl_token (map_of (ss_leases s) (le_sessionId l)) = Some (le_token l)"

definition new_entry :: "string \<Rightarrow> nat \<Rightarrow> entry_type \<Rightarrow> json \<Rightarrow> scope_id \<Rightarrow> time \<Rightarrow> session_entry" where
  "new_entry sid seq typ payload label now =
     \<lparr> en_sessionId = sid, en_seq = seq, en_parentSeq = (if seq = 0 then None else Some (seq - 1)),
       en_type = typ, en_payload = payload, en_scopeLabel = label, en_createdAt = now \<rparr>"

definition append_entry ::
  "int \<Rightarrow> time \<Rightarrow> lease \<Rightarrow> entry_type \<Rightarrow> json \<Rightarrow> scope_id \<Rightarrow> session_store \<Rightarrow>
     (session_error + session_entry) \<times> session_store" where
  "append_entry ttl now l typ payload label s =
     (if \<not> lease_valid l s then (Inl AppendWithoutLease, s)
      else
        let sid = le_sessionId l;
            s1 = extend_lease (now + ttl) sid s
        in case map_of (ss_entries s1) sid of
             None \<Rightarrow> (Inl (UnknownSession sid), s1)
           | Some log \<Rightarrow>
               let full = new_entry sid (length log) typ payload label now
               in (Inr full, s1\<lparr> ss_entries := jmap_set sid (log @ [full]) (ss_entries s1) \<rparr>))"

definition getEntries :: "session_store \<Rightarrow> string \<Rightarrow> int option \<Rightarrow> int option \<Rightarrow> session_entry list" where
  "getEntries s sid sinceSeq limit =
     (let since = (case sinceSeq of None \<Rightarrow> 0 | Some n \<Rightarrow> n);
          filtered = filter (\<lambda>e. int (en_seq e) \<ge> since) (log_of s sid)
      in case limit of None \<Rightarrow> filtered | Some n \<Rightarrow> js_slice_from filtered (- n))"

definition full_tape_record :: "new_tape_record \<Rightarrow> string \<Rightarrow> nat \<Rightarrow> time \<Rightarrow> tape_record" where
  "full_tape_record rec sid seq now =
     new_tape_record.extend rec \<lparr> tp_sessionId = sid, tp_seq = seq, tp_createdAt = now \<rparr>"

definition appendTape ::
  "int \<Rightarrow> time \<Rightarrow> lease \<Rightarrow> new_tape_record \<Rightarrow> session_store \<Rightarrow>
     (session_error + tape_record) \<times> session_store" where
  "appendTape ttl now l rec s =
     (if \<not> lease_valid l s then (Inl TapeAppendWithoutLease, s)
      else
        let sid = le_sessionId l;
            s1 = extend_lease (now + ttl) sid s;
            log = tape_of s1 sid;
            full = full_tape_record rec sid (length log) now
        in (Inr full, s1\<lparr> ss_tape := jmap_set sid (log @ [full]) (ss_tape s1) \<rparr>))"

definition getTape :: "session_store \<Rightarrow> string \<Rightarrow> int option \<Rightarrow> int option \<Rightarrow> tape_record list" where
  "getTape s sid sinceSeq limit =
     (let log = tape_of s sid;
          filtered = (case sinceSeq of None \<Rightarrow> log | Some n \<Rightarrow> filter (\<lambda>r. int (tp_seq r) > n) log)
      in case limit of None \<Rightarrow> filtered | Some n \<Rightarrow> js_slice_from filtered (- n))"

definition tapeCoverage :: "session_store \<Rightarrow> string \<Rightarrow> int" where
  "tapeCoverage s sid =
     fold (\<lambda>r m. max (max m
              (if tp_kind r = TAnnotation \<and> json_get ''turnEnd'' (tp_payload r) = Some (JBool True)
               then (case tp_entrySeq r of None \<Rightarrow> -1 | Some n \<Rightarrow> n) else -1))
              (if tp_kind r = TContextEvent \<and> json_get ''event'' (tp_payload r) = Some (JStr ''legacy_import'')
               then (case tp_coversEntrySeq r of None \<Rightarrow> -1 | Some n \<Rightarrow> n) else -1))
       (tape_of s sid) (-1)"

text \<open>The stored record is the request's with \<open>truncated\<close> defaulting to false.\<close>

definition full_llm_request :: "new_llm_request \<Rightarrow> string \<Rightarrow> string \<Rightarrow> time \<Rightarrow> llm_request" where
  "full_llm_request rec newId sid now =
     new_llm_request.extend
       (rec\<lparr> lr_truncated := Some (case lr_truncated rec of None \<Rightarrow> False | Some b \<Rightarrow> b) \<rparr>)
       \<lparr> lr_id = newId, lr_sessionId = sid, lr_createdAt = now \<rparr>"

definition recordLlmRequest ::
  "string \<Rightarrow> time \<Rightarrow> string \<Rightarrow> new_llm_request \<Rightarrow> session_store \<Rightarrow> session_store" where
  "recordLlmRequest newId now sid rec s =
     (let full = full_llm_request rec newId sid now;
          arr = (case map_of (ss_llm s) sid of None \<Rightarrow> [] | Some a \<Rightarrow> a)
      in s\<lparr> ss_llm := jmap_set sid (arr @ [full]) (ss_llm s) \<rparr>)"

definition listLlmRequests ::
  "session_store \<Rightarrow> string \<Rightarrow> int list option \<Rightarrow> bool \<Rightarrow> bool \<Rightarrow> llm_request list" where
  "listLlmRequests s sid turnSeqs orphans omitRequest =
     (let all = (case map_of (ss_llm s) sid of None \<Rightarrow> [] | Some a \<Rightarrow> a);
          filtered =
            (if turnSeqs \<noteq> None \<or> orphans
             then filter (\<lambda>r. (case (turnSeqs, lr_turnSeq r) of (Some want, Some t) \<Rightarrow> t \<in> set want | _ \<Rightarrow> False) \<or>
                              orphans \<and> lr_turnSeq r = None) all
             else all)
      in map (\<lambda>r. if omitRequest then r\<lparr> lr_request := JNull \<rparr> else r) filtered)"

section \<open>Participants\<close>

text \<open>\<open>title\<close> is \<open>None\<close> when \<open>undefined\<close> and \<open>Some None\<close> when \<open>null\<close>.\<close>

definition addParticipant ::
  "time \<Rightarrow> string \<Rightarrow> string \<Rightarrow> string option option \<Rightarrow> bool \<Rightarrow> session_store \<Rightarrow> session_store" where
  "addParticipant now sid pid title includeHistory s =
     (let ids = (case map_of (ss_participants s) pid of None \<Rightarrow> [] | Some x \<Rightarrow> x);
          w = (case map_of (ss_windows s) sid of None \<Rightarrow> [] | Some x \<Rightarrow> x);
          w' = (case map_of w pid of
                  Some e \<Rightarrow>
                    if wi_validTo e \<noteq> None
                    then jmap_set pid
                      \<lparr> wi_validFrom = (if includeHistory then 0 else now), wi_validTo = None,
                        wi_validFromSeq = (if includeHistory then 0 else length (log_of s sid)),
                        wi_validToSeq = None,
                        wi_title = (case title of None \<Rightarrow> wi_title e | Some t \<Rightarrow> t),
                        wi_archived = wi_archived e, wi_pinned = wi_pinned e, wi_color = wi_color e \<rparr> w
                    else
                      let e1 = (if includeHistory then e\<lparr> wi_validFrom := 0, wi_validFromSeq := 0 \<rparr> else e);
                          e2 = (case title of None \<Rightarrow> e1 | Some t \<Rightarrow> e1\<lparr> wi_title := t \<rparr>)
                      in jmap_set pid e2 w
                | None \<Rightarrow>
                    jmap_set pid
                      \<lparr> wi_validFrom = (if includeHistory then 0 else now), wi_validTo = None,
                        wi_validFromSeq = (if includeHistory then 0 else length (log_of s sid)),
                        wi_validToSeq = None,
                        wi_title = (case title of None \<Rightarrow> None | Some t \<Rightarrow> t),
                        wi_archived = False, wi_pinned = False, wi_color = None \<rparr> w)
      in s\<lparr> ss_participants := jmap_set pid (jset_add sid ids) (ss_participants s),
            ss_windows := jmap_set sid w' (ss_windows s) \<rparr>)"

definition removeParticipant :: "time \<Rightarrow> string \<Rightarrow> string \<Rightarrow> session_store \<Rightarrow> session_store" where
  "removeParticipant now sid pid s =
     (case window_of s sid pid of
        Some win \<Rightarrow>
          if wi_validTo win = None
          then s\<lparr> ss_windows := jmap_mutate sid
                   (jmap_set pid (win\<lparr> wi_validTo := Some now, wi_validToSeq := Some (length (log_of s sid)) \<rparr>))
                   (ss_windows s) \<rparr>
          else s
      | None \<Rightarrow> s)"

record view_patch =
  vp_title :: "string option option"
  vp_archived :: "bool option"
  vp_pinned :: "bool option"
  vp_color :: "string option option"

definition patch_window :: "view_patch \<Rightarrow> window \<Rightarrow> window" where
  "patch_window patch v =
     (let v1 = (case vp_title patch of None \<Rightarrow> v | Some t \<Rightarrow> v\<lparr> wi_title := t \<rparr>);
          v2 = (case vp_archived patch of None \<Rightarrow> v1 | Some b \<Rightarrow> v1\<lparr> wi_archived := b \<rparr>);
          v3 = (case vp_pinned patch of None \<Rightarrow> v2 | Some b \<Rightarrow> v2\<lparr> wi_pinned := b \<rparr>)
      in case vp_color patch of None \<Rightarrow> v3 | Some c \<Rightarrow> v3\<lparr> wi_color := c \<rparr>)"

definition updateParticipantView :: "string \<Rightarrow> string \<Rightarrow> view_patch \<Rightarrow> session_store \<Rightarrow> session_store" where
  "updateParticipantView sid pid patch s =
     (case window_of s sid pid of
        None \<Rightarrow> s
      | Some v \<Rightarrow> s\<lparr> ss_windows := jmap_mutate sid (jmap_set pid (patch_window patch v)) (ss_windows s) \<rparr>)"

definition in_window :: "window \<Rightarrow> session_entry \<Rightarrow> bool" where
  "in_window win e \<longleftrightarrow> en_seq e \<ge> wi_validFromSeq win \<and>
     (case wi_validToSeq win of None \<Rightarrow> True | Some n \<Rightarrow> en_seq e < n)"

definition visibleEntries :: "session_store \<Rightarrow> string \<Rightarrow> string \<Rightarrow> session_entry list" where
  "visibleEntries s sid pid =
     (case window_of s sid pid of
        None \<Rightarrow> []
      | Some win \<Rightarrow> filter (in_window win) (log_of s sid))"

definition listed_session :: "session_store \<Rightarrow> string \<Rightarrow> string \<Rightarrow> session \<Rightarrow> session" where
  "listed_session s pid sid se =
     (let view = window_of s sid pid;
          all = log_of s sid;
          log = filter (\<lambda>e. en_type e = EUser) all
      in se\<lparr> se_title := (case Option.bind view wi_title of None \<Rightarrow> se_title se | Some t \<Rightarrow> Some t),
             se_archived := (case view of Some v \<Rightarrow> wi_archived v \<or> se_archived se | None \<Rightarrow> se_archived se),
             se_pinned := (case view of Some v \<Rightarrow> wi_pinned v \<or> se_pinned se | None \<Rightarrow> se_pinned se),
             se_color := (case Option.bind view wi_color of None \<Rightarrow> se_color se | Some c \<Rightarrow> Some c),
             se_lastActivityAt := Some (fold max (map en_createdAt log) (se_createdAt se)),
             se_hasEntries := Some (case view of None \<Rightarrow> False | Some v \<Rightarrow> list_ex (in_window v) all) \<rparr>)"

definition listByParticipant :: "session_store \<Rightarrow> string \<Rightarrow> session list" where
  "listByParticipant s pid =
     (case map_of (ss_participants s) pid of
        None \<Rightarrow> []
      | Some ids \<Rightarrow>
          List.map_filter
            (\<lambda>sid. map_option (listed_session s pid sid) (map_of (ss_sessions s) sid)) ids)"

definition listParticipants :: "session_store \<Rightarrow> (string \<times> string \<times> time \<times> time option) list" where
  "listParticipants s =
     concat (map (\<lambda>(sid, byPrincipal).
       map (\<lambda>(pid, w). (sid, pid, wi_validFrom w, wi_validTo w)) byPrincipal) (ss_windows s))"

definition participantsOf :: "session_store \<Rightarrow> string \<Rightarrow> string list" where
  "participantsOf s sid = (case map_of (ss_windows s) sid of None \<Rightarrow> [] | Some w \<Rightarrow> map fst w)"

section \<open>The store as a state machine\<close>

text \<open>The second component of a state holds every id and token handed out so far.\<close>

inductive session_step :: "session_store \<times> string set \<Rightarrow> session_store \<times> string set \<Rightarrow> bool" where
  step_getOrCreate: "newId \<noteq> '''' \<Longrightarrow> newId \<notin> I \<Longrightarrow>
     session_step (s, I) (snd (getOrCreateByThread newId now th typ sc ch sf s), insert newId I)"
| step_updateTitle: "session_step (s, I) (updateTitle sid title s, I)"
| step_acquireLease: "tok \<notin> I \<Longrightarrow>
     session_step (s, I) (snd (acquireLease ttl now tok sid holder s), insert tok I)"
| step_releaseSessionLease: "session_step (s, I) (releaseSessionLease l s, I)"
| step_forceReleaseLease: "session_step (s, I) (forceReleaseLease sid s, I)"
| step_deleteSession: "session_step (s, I) (deleteSession sid s, I)"
| step_append: "session_step (s, I) (snd (append_entry ttl now l typ payload label s), I)"
| step_appendTape: "session_step (s, I) (snd (appendTape ttl now l rec s), I)"
| step_recordLlm: "session_step (s, I) (recordLlmRequest newId now sid req s, I)"
| step_addParticipant: "session_step (s, I) (addParticipant now sid pid title hist s, I)"
| step_removeParticipant: "session_step (s, I) (removeParticipant now sid pid s, I)"
| step_updateView: "session_step (s, I) (updateParticipantView sid pid patch s, I)"

definition session_init :: "session_store \<times> string set \<Rightarrow> bool" where
  "session_init c \<longleftrightarrow> c = (createMemorySessionStore, {})"

definition log_wf :: "string \<Rightarrow> session_entry list \<Rightarrow> bool" where
  "log_wf sid log \<longleftrightarrow>
     (\<forall>i < length log. en_sessionId (log ! i) = sid \<and> en_seq (log ! i) = i \<and>
        en_parentSeq (log ! i) = (if i = 0 then None else Some (i - 1)))"

definition tape_wf :: "string \<Rightarrow> tape_record list \<Rightarrow> bool" where
  "tape_wf sid log \<longleftrightarrow> (\<forall>i < length log. tp_sessionId (log ! i) = sid \<and> tp_seq (log ! i) = i)"

definition window_wf :: "nat \<Rightarrow> window \<Rightarrow> bool" where
  "window_wf n w \<longleftrightarrow> wi_validFromSeq w \<le> n \<and> (wi_validTo w = None \<longleftrightarrow> wi_validToSeq w = None) \<and>
     (case wi_validToSeq w of None \<Rightarrow> True | Some m \<Rightarrow> wi_validFromSeq w \<le> m \<and> m \<le> n)"

definition logs_ok :: "session_store \<Rightarrow> bool" where
  "logs_ok s \<longleftrightarrow> (\<forall>sid log. map_of (ss_entries s) sid = Some log \<longrightarrow> log_wf sid log) \<and>
     (\<forall>sid log. map_of (ss_tape s) sid = Some log \<longrightarrow> tape_wf sid log)"

definition threads_ok :: "session_store \<times> string set \<Rightarrow> bool" where
  "threads_ok c \<longleftrightarrow>
     (\<forall>sid se. map_of (ss_sessions (fst c)) sid = Some se \<longrightarrow>
        se_id se = sid \<and> sid \<noteq> '''' \<and> sid \<in> snd c) \<and>
     (\<forall>th sid. map_of (ss_byThread (fst c)) th = Some sid \<longleftrightarrow>
        (\<exists>se. map_of (ss_sessions (fst c)) sid = Some se \<and> se_threadRef se = th)) \<and>
     dom (map_of (ss_entries (fst c))) = dom (map_of (ss_sessions (fst c)))"

definition windows_ok :: "session_store \<Rightarrow> bool" where
  "windows_ok s \<longleftrightarrow>
     (\<forall>sid pid w. window_of s sid pid = Some w \<longrightarrow> window_wf (length (log_of s sid)) w)"

definition member_of :: "session_store \<Rightarrow> string \<Rightarrow> string \<Rightarrow> bool" where
  "member_of s sid pid \<longleftrightarrow> (\<exists>ids. map_of (ss_participants s) pid = Some ids \<and> sid \<in> set ids)"

definition members_ok :: "session_store \<Rightarrow> bool" where
  "members_ok s \<longleftrightarrow> (\<forall>sid pid. member_of s sid pid \<longleftrightarrow> window_of s sid pid \<noteq> None)"

definition leases_ok :: "session_store \<times> string set \<Rightarrow> bool" where
  "leases_ok c \<longleftrightarrow>
     (\<forall>sid h. map_of (ss_leases (fst c)) sid = Some h \<longrightarrow>
        hl_token h \<in> snd c \<and>
        (\<forall>sid' h'. map_of (ss_leases (fst c)) sid' = Some h' \<longrightarrow> hl_token h' = hl_token h \<longrightarrow> sid' = sid))"

definition session_inv :: "session_store \<times> string set \<Rightarrow> bool" where
  "session_inv c \<longleftrightarrow> logs_ok (fst c) \<and> threads_ok c \<and> windows_ok (fst c) \<and> members_ok (fst c) \<and>
     leases_ok c"

definition holds_lease :: "session_store \<Rightarrow> string \<Rightarrow> bool" where
  "holds_lease s tok \<longleftrightarrow> (\<exists>sid h. map_of (ss_leases s) sid = Some h \<and> hl_token h = tok)"

text \<open>
  Over time a session that exists keeps its identity, its thread, its scope and its log, which only
  grows, until it is deleted; an id that was used and deleted is never used again; a token that was
  handed out and is no longer held is never held again.
\<close>

definition session_kept :: "session_store \<Rightarrow> session_store \<Rightarrow> string \<Rightarrow> bool" where
  "session_kept s s' sid =
     (case (map_of (ss_sessions s) sid, map_of (ss_sessions s') sid) of
        (Some se, Some se') \<Rightarrow>
          se_id se' = se_id se \<and> se_threadRef se' = se_threadRef se \<and>
          se_scopeId se' = se_scopeId se \<and> se_type se' = se_type se \<and>
          (\<exists>zs. log_of s' sid = log_of s sid @ zs)
      | (_, None) \<Rightarrow> True
      | (None, Some _) \<Rightarrow> False)"

definition session_rel :: "session_store \<times> string set \<Rightarrow> session_store \<times> string set \<Rightarrow> bool" where
  "session_rel c d \<longleftrightarrow> snd c \<subseteq> snd d \<and> (\<forall>sid \<in> snd c. session_kept (fst c) (fst d) sid) \<and>
     (\<forall>t \<in> snd c. \<not> holds_lease (fst c) t \<longrightarrow> \<not> holds_lease (fst d) t)"

section \<open>Every operation keeps the invariant\<close>

lemma session_inv_D:
  assumes "session_inv (s, I)"
  shows "logs_ok s" "threads_ok (s, I)" "windows_ok s" "members_ok s" "leases_ok (s, I)"
  using assms by (auto simp: session_inv_def)

text \<open>Changing fields the other parts of the invariant do not read.\<close>

lemma logs_ok_cong:
  "ss_entries s = ss_entries t \<Longrightarrow> ss_tape s = ss_tape t \<Longrightarrow> logs_ok s = logs_ok t"
  by (simp add: logs_ok_def)

lemma windows_ok_cong:
  "ss_entries s = ss_entries t \<Longrightarrow> ss_windows s = ss_windows t \<Longrightarrow> windows_ok s = windows_ok t"
  by (simp add: windows_ok_def window_of_def log_of_def)

lemma members_ok_cong:
  "ss_participants s = ss_participants t \<Longrightarrow> ss_windows s = ss_windows t \<Longrightarrow> members_ok s = members_ok t"
  by (simp add: members_ok_def member_of_def window_of_def)

lemma threads_ok_cong:
  "ss_sessions s = ss_sessions t \<Longrightarrow> ss_byThread s = ss_byThread t \<Longrightarrow> ss_entries s = ss_entries t \<Longrightarrow>
   threads_ok (s, I) = threads_ok (t, I)"
  by (simp add: threads_ok_def)

lemma leases_ok_cong: "ss_leases s = ss_leases t \<Longrightarrow> leases_ok (s, I) = leases_ok (t, I)"
  by (simp add: leases_ok_def)

lemmas session_congs = logs_ok_cong windows_ok_cong members_ok_cong threads_ok_cong leases_ok_cong

lemma threads_ok_mono: "threads_ok (s, I) \<Longrightarrow> I \<subseteq> J \<Longrightarrow> threads_ok (s, J)"
  by (auto simp: threads_ok_def)

lemma leases_ok_mono: "leases_ok (s, I) \<Longrightarrow> I \<subseteq> J \<Longrightarrow> leases_ok (s, J)"
  by (auto simp: leases_ok_def)

lemma session_inv_mono: "session_inv (s, I) \<Longrightarrow> I \<subseteq> J \<Longrightarrow> session_inv (s, J)"
  by (auto simp: session_inv_def intro: threads_ok_mono leases_ok_mono)

lemma session_inv_leases:
  assumes "session_inv (s, I)" "I \<subseteq> J" "leases_ok (s\<lparr> ss_leases := L \<rparr>, J)"
  shows "session_inv (s\<lparr> ss_leases := L \<rparr>, J)"
  using session_inv_D [OF assms(1)] assms(2,3) threads_ok_mono [of s I J]
  by (auto simp: session_inv_def logs_ok_def windows_ok_def members_ok_def member_of_def
      window_of_def log_of_def threads_ok_def)

lemma threads_D:
  assumes "threads_ok (s, I)"
  shows "map_of (ss_sessions s) sid = Some se \<Longrightarrow> se_id se = sid \<and> sid \<noteq> '''' \<and> sid \<in> I"
    "map_of (ss_byThread s) th = Some sid \<longleftrightarrow> (\<exists>se. map_of (ss_sessions s) sid = Some se \<and> se_threadRef se = th)"
    "map_of (ss_entries s) sid = None \<longleftrightarrow> map_of (ss_sessions s) sid = None"
proof -
  show "map_of (ss_sessions s) sid = Some se \<Longrightarrow> se_id se = sid \<and> sid \<noteq> '''' \<and> sid \<in> I"
    "map_of (ss_byThread s) th = Some sid \<longleftrightarrow> (\<exists>se. map_of (ss_sessions s) sid = Some se \<and> se_threadRef se = th)"
    using assms unfolding threads_ok_def fst_conv snd_conv by blast+
  have "dom (map_of (ss_entries s)) = dom (map_of (ss_sessions s))"
    using assms by (simp add: threads_ok_def)
  then have "sid \<notin> dom (map_of (ss_entries s)) \<longleftrightarrow> sid \<notin> dom (map_of (ss_sessions s))" by simp
  then show "map_of (ss_entries s) sid = None \<longleftrightarrow> map_of (ss_sessions s) sid = None"
    by (simp only: domIff not_not)
qed

lemma getByThread_iff:
  assumes "session_inv (s, I)"
  shows "getByThread s th = Some se \<longleftrightarrow> map_of (ss_sessions s) (se_id se) = Some se \<and> se_threadRef se = th"
proof -
  note T = threads_D [OF session_inv_D(2) [OF assms]]
  show ?thesis
  proof (cases "map_of (ss_byThread s) th")
    case None
    then have "\<not> (map_of (ss_sessions s) (se_id se) = Some se \<and> se_threadRef se = th)"
      using T(2) by (metis option.distinct(1))
    with None show ?thesis by (simp add: getByThread_def)
  next
    case (Some sid)
    then obtain q where q: "map_of (ss_sessions s) sid = Some q" "se_threadRef q = th" using T(2) by blast
    have "se = q" if "map_of (ss_sessions s) (se_id se) = Some se" "se_threadRef se = th"
      using that Some q T(2) by (metis option.inject)
    moreover have "getByThread s th = Some q" using Some q T(1) [OF q(1)] by (simp add: getByThread_def)
    ultimately show ?thesis using q T(1) [OF q(1)] by auto
  qed
qed

text \<open>Changing the descriptive fields of a session.\<close>

lemma session_inv_describe:
  assumes inv: "session_inv (s, I)" and se: "map_of (ss_sessions s) sid = Some se"
    and same: "se_id se' = se_id se" "se_threadRef se' = se_threadRef se"
  shows "session_inv (s\<lparr> ss_sessions := jmap_set sid se' (ss_sessions s) \<rparr>, I)" (is "session_inv (?s, I)")
proof -
  note D = session_inv_D [OF inv]
  note T = threads_D [OF D(2)]
  have "threads_ok (?s, I)"
    unfolding threads_ok_def fst_conv snd_conv
    using T(1) T(3) se same by (auto simp: T(2) domIff fun_eq_iff set_eq_iff)
  moreover have "logs_ok ?s" "windows_ok ?s" "members_ok ?s" "leases_ok (?s, I)"
    using D session_congs [of ?s s] by auto
  ultimately show ?thesis by (simp add: session_inv_def)
qed

lemma session_inv_create:
  assumes inv: "session_inv (s, I)" and new: "newId \<notin> I" "newId \<noteq> ''''" and none: "getByThread s th = None"
    and se: "se_id se = newId" "se_threadRef se = th"
  shows "session_inv (s\<lparr> ss_sessions := jmap_set newId se (ss_sessions s),
    ss_entries := jmap_set newId [] (ss_entries s), ss_byThread := jmap_set th newId (ss_byThread s) \<rparr>,
    insert newId I)" (is "session_inv (?s, ?J)")
proof -
  note D = session_inv_D [OF inv]
  note T = threads_D [OF D(2)]
  have fresh: "map_of (ss_sessions s) newId = None" using T(1) new(1) by (metis not_None_eq)
  then have fresh': "map_of (ss_entries s) newId = None" using T(3) by simp
  have thread: "map_of (ss_byThread s) th = None"
  proof (rule ccontr)
    assume "map_of (ss_byThread s) th \<noteq> None"
    then obtain sid where "map_of (ss_byThread s) th = Some sid" by blast
    then obtain se where "map_of (ss_sessions s) sid = Some se" "se_threadRef se = th" using T(2) by blast
    with getByThread_iff [OF inv] T(1) none show False by (metis option.distinct(1))
  qed
  have unthread: "map_of (ss_byThread s) t \<noteq> Some newId" for t
    using T(2) fresh by simp
  have noth: "map_of (ss_sessions s) sid = Some q \<Longrightarrow> se_threadRef q \<noteq> th" for sid q
    using T(2) thread by (metis option.distinct(1))
  have log: "log_of ?s sid = log_of s sid" for sid using fresh' by (simp add: log_of_def)
  have "threads_ok (?s, ?J)"
    unfolding threads_ok_def fst_conv snd_conv
    using T(1,3) new se fresh thread unthread noth by (auto simp: T(2) domIff set_eq_iff)
  moreover have "windows_ok ?s" using D(3) by (simp add: windows_ok_def log window_of_def)
  moreover have "logs_ok ?s" using D(1) by (auto simp: logs_ok_def log_wf_def)
  moreover have "members_ok ?s" "leases_ok (?s, ?J)"
    using D(4) leases_ok_mono [OF D(5)] session_congs(3,5) [of ?s s] by auto
  ultimately show ?thesis by (simp add: session_inv_def)
qed

lemma getOrCreate_inv [step_intros]:
  assumes inv: "session_inv (s, I)" and new: "newId \<notin> I" "newId \<noteq> ''''"
  shows "session_inv (snd (getOrCreateByThread newId now th typ sc ch sf s), insert newId I)"
proof (cases "getByThread s th")
  case None
  then show ?thesis
    using session_inv_create [OF inv new None, of "new_session newId now th typ sc ch sf"]
    by (simp add: getOrCreateByThread_def new_session_def Let_def)
next
  case (Some se)
  then have se: "map_of (ss_sessions s) (se_id se) = Some se" "se_threadRef se = th"
    using getByThread_iff [OF inv] by auto
  then have "map_of (ss_byThread s) th = Some (se_id se)"
    using threads_D(2) [OF session_inv_D(2) [OF inv]] by blast
  with Some se show ?thesis
    by (auto simp: getOrCreateByThread_def Let_def intro!: session_inv_mono [OF session_inv_describe [OF inv]])
qed

lemma updateTitle_inv [step_intros]: "session_inv (s, I) \<Longrightarrow> session_inv (updateTitle sid title s, I)"
  by (auto simp: updateTitle_def jmap_mutate_def split: option.split intro!: session_inv_describe)

lemma acquireLease_inv [step_intros]:
  assumes inv: "session_inv (s, I)" and tok: "tok \<notin> I"
  shows "session_inv (snd (acquireLease ttl now tok sid holder s), insert tok I)"
proof -
  have "leases_ok (s\<lparr> ss_leases := jmap_set sid \<lparr> hl_token = tok, hl_expiresAt = now + ttl,
          hl_acquiredAt = now, hl_holder = holder \<rparr> (ss_leases s) \<rparr>, insert tok I)"
    using session_inv_D(5) [OF inv] tok unfolding leases_ok_def by auto
  with session_inv_mono [OF inv subset_insertI] session_inv_leases [OF inv subset_insertI]
  show ?thesis by (auto simp: acquireLease_def split: option.split)
qed

lemma releaseSessionLease_inv [step_intros]:
  "session_inv (s, I) \<Longrightarrow> session_inv (releaseSessionLease l s, I)"
  by (auto simp: releaseSessionLease_def leases_ok_def dest: session_inv_D(5) intro!: session_inv_leases)

lemma forceReleaseLease_inv [step_intros]:
  "session_inv (s, I) \<Longrightarrow> session_inv (forceReleaseLease sid s, I)"
  by (auto simp: forceReleaseLease_def leases_ok_def dest: session_inv_D(5) intro!: session_inv_leases)

lemma fold_mutate_lookup:
  "map_of (fold (\<lambda>pid m. jmap_mutate pid f m) ps m) pid =
     (if pid \<in> set ps then map_option ((f ^^ count_list ps pid)) (map_of m pid) else map_of m pid)"
  by (induction ps arbitrary: m) (auto simp: map_of_jmap_mutate option.map_comp comp_def funpow_swap1)

lemma removeAll_pow: "removeAll x ^^ Suc n = removeAll x"
  by (induction n) (auto simp: fun_eq_iff)

lemma deleteSession_participants:
  "map_of (ss_participants (deleteSession sid s)) pid =
     (if window_of s sid pid \<noteq> None then map_option (removeAll sid) (map_of (ss_participants s) pid)
      else map_of (ss_participants s) pid)"
proof -
  let ?ps = "case map_of (ss_windows s) sid of None \<Rightarrow> [] | Some w \<Rightarrow> map fst w"
  have mem: "pid \<in> set ?ps \<longleftrightarrow> window_of s sid pid \<noteq> None"
  proof (cases "map_of (ss_windows s) sid")
    case (Some w)
    then show ?thesis using map_of_eq_None_iff [of w pid] by (simp add: window_of_def del: not_None_eq)
  qed (simp add: window_of_def)
  have "pid \<in> set ?ps \<Longrightarrow> \<exists>n. count_list ?ps pid = Suc n"
    by (metis count_list_0_iff not0_implies_Suc)
  with mem show ?thesis
    by (auto simp: deleteSession_def Let_def fold_mutate_lookup removeAll_pow simp del: funpow.simps)
qed

lemma deleteSession_member:
  "member_of (deleteSession sid s) sid' pid \<longleftrightarrow>
     member_of s sid' pid \<and> (sid' \<noteq> sid \<or> window_of s sid pid = None)"
  unfolding member_of_def deleteSession_participants by (cases "map_of (ss_participants s) pid") auto

lemma deleteSession_sel:
  "window_of (deleteSession sid s) sid' pid = (if sid' = sid then None else window_of s sid' pid)"
  "log_of (deleteSession sid s) sid' = (if sid' = sid then [] else log_of s sid')"
  "map_of (ss_sessions (deleteSession sid s)) = (map_of (ss_sessions s))(sid := None)"
  "map_of (ss_entries (deleteSession sid s)) = (map_of (ss_entries s))(sid := None)"
  "map_of (ss_tape (deleteSession sid s)) = (map_of (ss_tape s))(sid := None)"
  "map_of (ss_leases (deleteSession sid s)) = (map_of (ss_leases s))(sid := None)"
  "map_of (ss_byThread (deleteSession sid s)) =
     (case map_of (ss_sessions s) sid of None \<Rightarrow> map_of (ss_byThread s)
      | Some se \<Rightarrow> (map_of (ss_byThread s))(se_threadRef se := None))"
  by (auto simp: deleteSession_def Let_def window_of_def log_of_def split: option.split)

lemma deleteSession_inv [step_intros]:
  assumes inv: "session_inv (s, I)"
  shows "session_inv (deleteSession sid s, I)"
proof -
  note D = session_inv_D [OF inv] and T = threads_D [OF session_inv_D(2) [OF inv]]
  let ?s = "deleteSession sid s"
  have byT: "map_of (ss_byThread ?s) th = Some j \<longleftrightarrow>
      j \<noteq> sid \<and> (\<exists>se. map_of (ss_sessions s) j = Some se \<and> se_threadRef se = th)" for th j
  proof (cases "map_of (ss_sessions s) sid")
    case None
    then show ?thesis by (auto simp: deleteSession_sel T(2))
  next
    case (Some se)
    then have "map_of (ss_byThread s) (se_threadRef se) = Some sid" using T(2) by blast
    then have "j = sid" if "map_of (ss_sessions s) j = Some q" "se_threadRef q = se_threadRef se" for q
      using that T(2) by (metis option.inject)
    with Some show ?thesis by (auto simp: deleteSession_sel T(2))
  qed
  have "threads_ok (?s, I)"
    unfolding threads_ok_def fst_conv snd_conv byT
    using T(1,3) by (auto simp: deleteSession_sel domIff set_eq_iff)
  moreover have "logs_ok ?s" using D(1) by (auto simp: logs_ok_def deleteSession_sel)
  moreover have "windows_ok ?s" using D(3) by (auto simp: windows_ok_def deleteSession_sel)
  moreover have "members_ok ?s"
    using D(4) unfolding members_ok_def deleteSession_member deleteSession_sel(1) by auto
  moreover have "leases_ok (?s, I)" using D(5) by (auto simp: leases_ok_def deleteSession_sel)
  ultimately show ?thesis by (simp add: session_inv_def)
qed

lemma extend_lease_inv:
  assumes "session_inv (s, I)"
  shows "session_inv (extend_lease till sid s, I)"
proof -
  have "leases_ok (extend_lease till sid s, I)"
    using session_inv_D(5) [OF assms] unfolding leases_ok_def extend_lease_def
    by (auto simp: map_of_jmap_mutate)
  then show ?thesis unfolding extend_lease_def by (intro session_inv_leases [OF assms]) auto
qed

lemma log_wf_snoc: "log_wf sid log \<Longrightarrow> log_wf sid (log @ [new_entry sid (length log) typ p l t])"
  by (auto simp: log_wf_def new_entry_def nth_append less_Suc_eq)

lemma window_wf_mono: "window_wf n w \<Longrightarrow> n \<le> m \<Longrightarrow> window_wf m w"
  by (auto simp: window_wf_def split: option.splits)

lemma push_entry_inv:
  assumes inv: "session_inv (s, I)" and log: "map_of (ss_entries s) sid = Some log"
  shows "session_inv (s\<lparr> ss_entries := jmap_set sid (log @ [new_entry sid (length log) typ p l t])
    (ss_entries s) \<rparr>, I)" (is "session_inv (?s, I)")
proof -
  note D = session_inv_D [OF inv] and T = threads_D [OF session_inv_D(2) [OF inv]]
  have "logs_ok ?s" using D(1) log log_wf_snoc by (auto simp: logs_ok_def)
  moreover have "threads_ok (?s, I)"
    using D(2) log unfolding threads_ok_def by (auto simp: insert_absorb dest: domI)
  moreover have "windows_ok ?s"
    unfolding windows_ok_def
  proof (intro allI impI)
    fix j pid w
    assume "window_of ?s j pid = Some w"
    then have "window_wf (length (log_of s j)) w" using D(3) by (simp add: windows_ok_def window_of_def)
    moreover have "length (log_of s j) \<le> length (log_of ?s j)" using log by (simp add: log_of_def)
    ultimately show "window_wf (length (log_of ?s j)) w" by (rule window_wf_mono)
  qed
  moreover have "members_ok ?s" "leases_ok (?s, I)" using D session_congs(3,5) [of ?s s] by auto
  ultimately show ?thesis by (simp add: session_inv_def)
qed

lemma append_inv [step_intros]:
  "session_inv (s, I) \<Longrightarrow> session_inv (snd (append_entry ttl now l typ payload label s), I)"
  by (auto simp: append_entry_def Let_def split: option.split intro: extend_lease_inv push_entry_inv)

lemma appendTape_inv [step_intros]:
  assumes inv: "session_inv (s, I)"
  shows "session_inv (snd (appendTape ttl now l rec s), I)"
proof (cases "lease_valid l s")
  case True
  let ?sid = "le_sessionId l"
  let ?s1 = "extend_lease (now + ttl) ?sid s"
  let ?s = "?s1\<lparr> ss_tape := jmap_set ?sid (tape_of ?s1 ?sid @
      [full_tape_record rec ?sid (length (tape_of ?s1 ?sid)) now]) (ss_tape ?s1) \<rparr>"
  note D = session_inv_D [OF extend_lease_inv [OF inv, of "now + ttl" ?sid]]
  have "tape_wf ?sid (tape_of ?s1 ?sid)"
    using D(1) by (auto simp: logs_ok_def tape_of_def tape_wf_def split: option.split)
  then have "tape_wf ?sid (tape_of ?s1 ?sid @ [full_tape_record rec ?sid (length (tape_of ?s1 ?sid)) now])"
    by (auto simp: tape_wf_def nth_append full_tape_record_def new_tape_record.extend_def less_Suc_eq)
  then have "logs_ok ?s" using D(1) by (auto simp: logs_ok_def)
  moreover have "threads_ok (?s, I)" "windows_ok ?s" "members_ok ?s" "leases_ok (?s, I)"
    using D session_congs [of ?s ?s1] by auto
  ultimately show ?thesis using True by (simp add: session_inv_def appendTape_def Let_def)
qed (use inv in \<open>simp add: appendTape_def\<close>)

lemma recordLlm_inv [step_intros]:
  assumes "session_inv (s, I)"
  shows "session_inv (recordLlmRequest newId now sid req s, I)"
proof -
  let ?s = "recordLlmRequest newId now sid req s"
  have "ss_entries ?s = ss_entries s" "ss_tape ?s = ss_tape s" "ss_windows ?s = ss_windows s"
    "ss_participants ?s = ss_participants s" "ss_sessions ?s = ss_sessions s"
    "ss_byThread ?s = ss_byThread s" "ss_leases ?s = ss_leases s"
    by (simp_all add: recordLlmRequest_def Let_def)
  with assms session_congs [of ?s s] show ?thesis by (simp add: session_inv_def)
qed

text \<open>The three operations on windows change one window and, at most, who is listed for the session.\<close>

lemma session_inv_window:
  assumes inv: "session_inv (s, I)"
    and win: "\<And>j p. window_of s' j p = (if j = sid \<and> p = pid then Some w else window_of s j p)"
    and mem: "\<And>j p. member_of s' j p \<longleftrightarrow> j = sid \<and> p = pid \<or> member_of s j p"
    and wf: "window_wf (length (log_of s sid)) w"
    and same: "ss_entries s' = ss_entries s" "ss_tape s' = ss_tape s" "ss_sessions s' = ss_sessions s"
      "ss_byThread s' = ss_byThread s" "ss_leases s' = ss_leases s"
  shows "session_inv (s', I)"
proof -
  note D = session_inv_D [OF inv]
  have log: "log_of s' j = log_of s j" for j by (simp add: log_of_def same)
  have "windows_ok s'" using D(3) wf unfolding windows_ok_def win log by auto
  moreover have "members_ok s'" using D(4) unfolding members_ok_def win mem by auto
  moreover have "logs_ok s'" "threads_ok (s', I)" "leases_ok (s', I)"
    using D session_congs [of s' s] same by auto
  ultimately show ?thesis by (simp add: session_inv_def)
qed

definition added_window ::
  "time \<Rightarrow> string option option \<Rightarrow> bool \<Rightarrow> nat \<Rightarrow> window option \<Rightarrow> window" where
  "added_window now title hist n old =
     (case old of
        Some e \<Rightarrow>
          if wi_validTo e \<noteq> None
          then e\<lparr> wi_validFrom := (if hist then 0 else now), wi_validTo := None,
                  wi_validFromSeq := (if hist then 0 else n), wi_validToSeq := None,
                  wi_title := (case title of None \<Rightarrow> wi_title e | Some t \<Rightarrow> t) \<rparr>
          else e\<lparr> wi_validFrom := (if hist then 0 else wi_validFrom e),
                  wi_validFromSeq := (if hist then 0 else wi_validFromSeq e),
                  wi_title := (case title of None \<Rightarrow> wi_title e | Some t \<Rightarrow> t) \<rparr>
      | None \<Rightarrow>
          \<lparr> wi_validFrom = (if hist then 0 else now), wi_validTo = None,
            wi_validFromSeq = (if hist then 0 else n), wi_validToSeq = None,
            wi_title = (case title of None \<Rightarrow> None | Some t \<Rightarrow> t),
            wi_archived = False, wi_pinned = False, wi_color = None \<rparr>)"

lemma addParticipant_window:
  "window_of (addParticipant now sid pid title hist s) j p =
     (if j = sid \<and> p = pid
      then Some (added_window now title hist (length (log_of s sid)) (window_of s sid pid))
      else window_of s j p)"
  by (cases "map_of (ss_windows s) sid")
     (auto simp: addParticipant_def Let_def window_of_def added_window_def split: option.split)

lemma addParticipant_member:
  "member_of (addParticipant now sid pid title hist s) j p \<longleftrightarrow> j = sid \<and> p = pid \<or> member_of s j p"
  by (auto simp: addParticipant_def Let_def member_of_def split: option.split)

lemma addParticipant_inv [step_intros]:
  assumes inv: "session_inv (s, I)"
  shows "session_inv (addParticipant now sid pid title hist s, I)"
proof (rule session_inv_window [OF inv addParticipant_window addParticipant_member])
  show "window_wf (length (log_of s sid))
      (added_window now title hist (length (log_of s sid)) (window_of s sid pid))"
    using session_inv_D(3) [OF inv]
    by (auto simp: windows_ok_def window_wf_def added_window_def split: option.splits)
qed (simp_all add: addParticipant_def Let_def)

lemma set_window:
  assumes "window_of s sid pid = Some v"
  shows "window_of (s\<lparr> ss_windows := jmap_mutate sid (jmap_set pid v') (ss_windows s) \<rparr>) j p =
      (if j = sid \<and> p = pid then Some v' else window_of s j p)"
    "member_of (s\<lparr> ss_windows := W \<rparr>) j p = member_of s j p"
  using assms by (auto simp: window_of_def member_of_def map_of_jmap_mutate bind_eq_Some_conv)

lemma session_inv_set_window:
  assumes inv: "session_inv (s, I)" and v: "window_of s sid pid = Some v"
    and wf: "window_wf (length (log_of s sid)) v'"
  shows "session_inv (s\<lparr> ss_windows := jmap_mutate sid (jmap_set pid v') (ss_windows s) \<rparr>, I)"
proof (rule session_inv_window [OF inv set_window(1) [OF v]])
  show "member_of (s\<lparr> ss_windows := W \<rparr>) j p \<longleftrightarrow> j = sid \<and> p = pid \<or> member_of s j p" for W j p
    using session_inv_D(4) [OF inv] v unfolding set_window(2) [OF v] by (auto simp: members_ok_def)
qed (use wf in simp_all)

lemma removeParticipant_inv [step_intros]:
  assumes inv: "session_inv (s, I)"
  shows "session_inv (removeParticipant now sid pid s, I)"
proof (cases "window_of s sid pid")
  case (Some w)
  then have "window_wf (length (log_of s sid)) w" using session_inv_D(3) [OF inv] by (simp add: windows_ok_def)
  then have "window_wf (length (log_of s sid))
      (w\<lparr> wi_validTo := Some now, wi_validToSeq := Some (length (log_of s sid)) \<rparr>)"
    by (simp add: window_wf_def)
  with session_inv_set_window [OF inv Some] inv Some show ?thesis by (simp add: removeParticipant_def)
qed (use inv in \<open>simp add: removeParticipant_def\<close>)

lemma patch_window_sel [simp]:
  "wi_validFromSeq (patch_window patch w) = wi_validFromSeq w"
  "wi_validTo (patch_window patch w) = wi_validTo w"
  "wi_validToSeq (patch_window patch w) = wi_validToSeq w"
  by (simp_all add: patch_window_def Let_def split: option.split)

lemma updateView_inv [step_intros]:
  assumes inv: "session_inv (s, I)"
  shows "session_inv (updateParticipantView sid pid patch s, I)"
proof (cases "window_of s sid pid")
  case (Some w)
  then have "window_wf (length (log_of s sid)) w" using session_inv_D(3) [OF inv] by (simp add: windows_ok_def)
  then have "window_wf (length (log_of s sid)) (patch_window patch w)"
    by (simp add: window_wf_def split: option.splits)
  with session_inv_set_window [OF inv Some] Some show ?thesis
    by (simp add: updateParticipantView_def)
qed (use inv in \<open>simp add: updateParticipantView_def\<close>)

lemma session_inv_init: "session_init c \<Longrightarrow> session_inv c"
  by (simp add: session_init_def createMemorySessionStore_def session_inv_def logs_ok_def threads_ok_def
      windows_ok_def members_ok_def member_of_def window_of_def leases_ok_def)

lemma session_inv_step: "session_step c d \<Longrightarrow> session_inv c \<Longrightarrow> session_inv d"
  by (erule session_step.cases) (simp_all add: step_intros)

section \<open>What every operation preserves\<close>

definition tokens_kept :: "session_store \<times> string set \<Rightarrow> session_store \<Rightarrow> bool" where
  "tokens_kept c s' \<longleftrightarrow>
     (\<forall>sid h'. map_of (ss_leases s') sid = Some h' \<longrightarrow>
        (\<exists>h. map_of (ss_leases (fst c)) sid = Some h \<and> hl_token h = hl_token h') \<or> hl_token h' \<notin> snd c)"

lemma tokens_keptD: "tokens_kept (s, I) s' \<Longrightarrow> t \<in> I \<Longrightarrow> \<not> holds_lease s t \<Longrightarrow> \<not> holds_lease s' t"
  unfolding tokens_kept_def holds_lease_def by (metis fst_conv snd_conv)

lemma tokens_kept_same: "ss_leases s' = ss_leases s \<Longrightarrow> tokens_kept (s, I) s'"
  by (auto simp: tokens_kept_def)

text \<open>The sessions are the same and the logs have at most grown.\<close>

lemma session_rel_frame:
  assumes "I \<subseteq> J" "ss_sessions s' = ss_sessions s" "tokens_kept (s, I) s'"
    and "\<And>sid. \<exists>zs. log_of s' sid = log_of s sid @ zs"
  shows "session_rel (s, I) (s', J)"
  using assms tokens_keptD [OF assms(3)] by (auto simp: session_rel_def session_kept_def split: option.split)

lemma session_rel_refl: "session_rel c c"
  by (auto simp: session_rel_def session_kept_def split: option.split)

lemma session_kept_trans: "session_kept s t sid \<Longrightarrow> session_kept t u sid \<Longrightarrow> session_kept s u sid"
  unfolding session_kept_def
  by (cases "map_of (ss_sessions s) sid"; cases "map_of (ss_sessions t) sid"; cases "map_of (ss_sessions u) sid")
     auto

lemma session_rel_trans: "session_rel a b \<Longrightarrow> session_rel b c \<Longrightarrow> session_rel a c"
  unfolding session_rel_def by (meson session_kept_trans subset_trans subsetD)

lemma session_rel_describe:
  assumes "map_of (ss_sessions s) sid = Some se" "se_id se' = se_id se" "se_threadRef se' = se_threadRef se"
    "se_scopeId se' = se_scopeId se" "se_type se' = se_type se" "I \<subseteq> J"
  shows "session_rel (s, I) (s\<lparr> ss_sessions := jmap_set sid se' (ss_sessions s) \<rparr>, J)"
  using assms by (auto simp: session_rel_def session_kept_def log_of_def holds_lease_def split: option.split)

lemma getOrCreate_rel [step_intros]:
  assumes inv: "session_inv (s, I)" and new: "newId \<notin> I"
  shows "session_rel (s, I) (snd (getOrCreateByThread newId now th typ sc ch sf s), insert newId I)"
proof (cases "getByThread s th")
  case None
  then show ?thesis using new
    by (auto simp: getOrCreateByThread_def new_session_def Let_def session_rel_def session_kept_def log_of_def
        holds_lease_def split: option.split)
next
  case (Some se)
  then have se: "map_of (ss_sessions s) (se_id se) = Some se" "se_threadRef se = th"
    using getByThread_iff [OF inv] by auto
  then have "map_of (ss_byThread s) th = Some (se_id se)"
    using threads_D(2) [OF session_inv_D(2) [OF inv]] by blast
  with Some se show ?thesis
    by (auto simp: getOrCreateByThread_def Let_def intro!: session_rel_describe)
qed

lemma updateTitle_rel [step_intros]: "session_rel (s, I) (updateTitle sid title s, I)"
  by (auto simp: updateTitle_def jmap_mutate_def session_rel_refl split: option.split
      intro!: session_rel_describe)

lemma lease_ops_rel [step_intros]:
  "tok \<notin> I \<Longrightarrow> session_rel (s, I) (snd (acquireLease ttl now tok sid holder s), insert tok I)"
  "session_rel (s, I) (releaseSessionLease l s, I)" "session_rel (s, I) (forceReleaseLease sid s, I)"
  by (rule session_rel_frame;
      auto simp: acquireLease_def releaseSessionLease_def forceReleaseLease_def tokens_kept_def log_of_def
        split: option.split if_splits)+

lemma deleteSession_rel [step_intros]: "session_rel (s, I) (deleteSession sid s, I)"
  by (auto simp: session_rel_def session_kept_def deleteSession_sel holds_lease_def split: option.split if_splits)

lemma extend_lease_kept: "tokens_kept (s, I) (extend_lease t sid s)"
  by (auto simp: tokens_kept_def extend_lease_def map_of_jmap_mutate)

lemma append_rel [step_intros]: "session_rel (s, I) (snd (append_entry ttl now l typ p label s), I)"
proof (rule session_rel_frame)
  show "tokens_kept (s, I) (snd (append_entry ttl now l typ p label s))"
    using extend_lease_kept [of s I "now + ttl" "le_sessionId l"]
    by (auto simp: append_entry_def Let_def tokens_kept_def split: option.split)
  show "\<exists>zs. log_of (snd (append_entry ttl now l typ p label s)) sid = log_of s sid @ zs" for sid
    by (auto simp: append_entry_def Let_def log_of_def extend_lease_def split: option.split)
qed (auto simp: append_entry_def Let_def extend_lease_def split: option.split)

lemma appendTape_rel [step_intros]: "session_rel (s, I) (snd (appendTape ttl now l rec s), I)"
proof (rule session_rel_frame)
  show "tokens_kept (s, I) (snd (appendTape ttl now l rec s))"
    using extend_lease_kept [of s I "now + ttl" "le_sessionId l"]
    by (auto simp: appendTape_def Let_def tokens_kept_def)
qed (auto simp: appendTape_def Let_def extend_lease_def log_of_def)

lemma side_ops_rel [step_intros]:
  "session_rel (s, I) (recordLlmRequest newId now sid req s, I)"
  "session_rel (s, I) (addParticipant now sid pid title hist s, I)"
  "session_rel (s, I) (removeParticipant now sid pid s, I)"
  "session_rel (s, I) (updateParticipantView sid pid patch s, I)"
  by (rule session_rel_frame;
      auto simp: recordLlmRequest_def addParticipant_def removeParticipant_def updateParticipantView_def
        Let_def log_of_def intro: tokens_kept_same split: option.split)+

lemma session_rel_step: "session_step c d \<Longrightarrow> session_inv c \<Longrightarrow> session_rel c d"
  by (erule session_step.cases) (simp_all add: step_intros)

interpretation session_machine: evolving_machine session_init session_step session_inv session_rel
  by unfold_locales
    (erule session_inv_init, erule (1) session_inv_step, rule session_rel_refl,
      erule (1) session_rel_trans, erule (1) session_rel_step)

section \<open>Properties of the session store\<close>

definition session_reachable :: "session_store \<times> string set \<Rightarrow> bool" where
  "session_reachable c \<longleftrightarrow> (\<exists>c0. session_init c0 \<and> session_step\<^sup>*\<^sup>* c0 c)"

lemma session_reachable_inv: "session_reachable c \<Longrightarrow> session_inv c"
  unfolding session_reachable_def by (metis session_machine.inv_reachable)

lemma session_reachable_step: "session_reachable c \<Longrightarrow> session_step c d \<Longrightarrow> session_reachable d"
  unfolding session_reachable_def by (metis rtranclp.rtrancl_into_rtrancl)

lemma session_reachable_init: "session_reachable (createMemorySessionStore, {})"
  unfolding session_reachable_def session_init_def by blast

lemma session_rel_steps: "session_reachable c \<Longrightarrow> session_step\<^sup>*\<^sup>* c d \<Longrightarrow> session_rel c d"
  by (metis session_machine.rel_steps session_reachable_inv)

lemma lease_eq_iff: "l = \<lparr> le_sessionId = a, le_token = b \<rparr> \<longleftrightarrow> le_sessionId l = a \<and> le_token l = b"
  by (cases l) auto

text \<open>
  A short history for the witnesses: the session \<open>s1\<close> of thread \<open>th\<close> is created, a turn takes its
  lease under the token \<open>t1\<close>, \<open>ann\<close> joins, an entry is appended, the lease is given back.
\<close>

definition demo_lease :: lease where
  "demo_lease = \<lparr> le_sessionId = ''s1'', le_token = ''t1'' \<rparr>"

definition demo_s1 :: session_store where
  "demo_s1 = snd (getOrCreateByThread ''s1'' 1 ''th'' SDm ''personal:ann'' None None createMemorySessionStore)"

definition demo_s2 :: session_store where
  "demo_s2 = addParticipant 2 ''s1'' ''ann'' None False (snd (acquireLease 100 2 ''t1'' ''s1'' None demo_s1))"

definition demo_s3 :: session_store where
  "demo_s3 = snd (append_entry 100 3 demo_lease EUser (JStr ''hi'') ''personal:ann'' demo_s2)"

definition demo_s4 :: session_store where
  "demo_s4 = releaseSessionLease demo_lease demo_s3"

lemma demo_s1_reachable: "session_reachable (demo_s1, {''s1''})"
  unfolding demo_s1_def by (rule session_reachable_step [OF session_reachable_init], rule step_getOrCreate) simp_all

lemma demo_s2_reachable: "session_reachable (demo_s2, {''t1'', ''s1''})"
proof -
  have "session_reachable (snd (acquireLease 100 2 ''t1'' ''s1'' None demo_s1), insert ''t1'' {''s1''})"
    by (rule session_reachable_step [OF demo_s1_reachable], rule step_acquireLease) simp
  then show ?thesis unfolding demo_s2_def by (rule session_reachable_step) (rule step_addParticipant)
qed

lemma demo_appends: "session_step (demo_s2, {''t1'', ''s1''}) (demo_s3, {''t1'', ''s1''})"
  unfolding demo_s3_def by (rule step_append)

lemma demo_s4_reachable: "session_reachable (demo_s4, {''t1'', ''s1''})"
  unfolding demo_s4_def
  by (rule session_reachable_step [OF session_reachable_step [OF demo_s2_reachable demo_appends]])
     (rule step_releaseSessionLease)

text \<open>
  The log of a session is numbered without gaps from 0, each entry naming the one before it as its
  parent, and it is append-only: after any further operations the session either is gone, or still has
  its id, thread, type and scope and a log that starts with the old one.
\<close>

theorem session_log_append_only:
  assumes "session_reachable (s, I)" and "session_step\<^sup>*\<^sup>* (s, I) (s', I')"
    and "map_of (ss_sessions s) sid = Some se"
  shows "(\<forall>i < length (log_of s sid). en_seq (log_of s sid ! i) = i \<and>
      en_parentSeq (log_of s sid ! i) = (if i = 0 then None else Some (i - 1))) \<and>
    (case map_of (ss_sessions s') sid of
       None \<Rightarrow> True
     | Some se' \<Rightarrow> se_id se' = se_id se \<and> se_threadRef se' = se_threadRef se \<and> se_type se' = se_type se \<and>
         se_scopeId se' = se_scopeId se \<and> (\<exists>zs. log_of s' sid = log_of s sid @ zs))"
proof -
  note inv = session_reachable_inv [OF assms(1)]
  have "sid \<in> I" using threads_D(1) [OF session_inv_D(2) [OF inv] assms(3)] by blast
  then have "session_kept s s' sid" using session_rel_steps [OF assms(1,2)] by (auto simp: session_rel_def)
  then have 1: "case map_of (ss_sessions s') sid of
       None \<Rightarrow> True
     | Some se' \<Rightarrow> se_id se' = se_id se \<and> se_threadRef se' = se_threadRef se \<and> se_type se' = se_type se \<and>
         se_scopeId se' = se_scopeId se \<and> (\<exists>zs. log_of s' sid = log_of s sid @ zs)"
    using assms(3) by (auto simp: session_kept_def split: option.splits)
  have "log_wf sid (log_of s sid)"
    using session_inv_D(1) [OF inv] by (auto simp: logs_ok_def log_of_def log_wf_def split: option.split)
  then show ?thesis using 1 by (simp add: log_wf_def)
qed

theorem session_log_append_only_witness:
  "en_seq (log_of demo_s3 ''s1'' ! 0) = 0 \<and> length (log_of demo_s3 ''s1'') = 1"
proof -
  have r: "session_reachable (demo_s3, {''t1'', ''s1''})"
    by (rule session_reachable_step [OF demo_s2_reachable demo_appends])
  have "map_option se_id (map_of (ss_sessions demo_s3) ''s1'') = Some ''s1''" by code_simp
  then obtain se where se: "map_of (ss_sessions demo_s3) ''s1'' = Some se" by auto
  have len: "length (log_of demo_s3 ''s1'') = 1" by code_simp
  with session_log_append_only [OF r rtranclp.rtrancl_refl se] show ?thesis by simp
qed

text \<open>
  C8. Only the holder of the current lease writes: once a token that was handed out is no longer the
  one held, then for ever after appending to the log or the tape under it is an error that changes
  nothing, and releasing it changes nothing either.
\<close>

theorem session_lease_fenced:
  assumes "session_reachable (s, I)" and "le_token l \<in> I" and "\<not> holds_lease s (le_token l)"
    and "session_step\<^sup>*\<^sup>* (s, I) (s', I')"
  shows "append_entry ttl now l typ payload label s' = (Inl AppendWithoutLease, s') \<and>
    appendTape ttl now l rec s' = (Inl TapeAppendWithoutLease, s') \<and>
    releaseSessionLease l s' = s'"
proof -
  have "\<not> holds_lease s' (le_token l)"
    using session_rel_steps [OF assms(1,4)] assms(2,3) by (auto simp: session_rel_def)
  then show ?thesis
    by (auto simp: holds_lease_def append_entry_def appendTape_def releaseSessionLease_def lease_valid_def)
qed

theorem session_lease_fenced_witness:
  "append_entry 100 9 demo_lease EUser JNull ''x'' demo_s4 = (Inl AppendWithoutLease, demo_s4)"
proof -
  have "ss_leases demo_s4 = []" by code_simp
  then have "\<not> holds_lease demo_s4 (le_token demo_lease)" by (simp add: holds_lease_def)
  moreover have "le_token demo_lease \<in> {''t1'', ''s1''}" by (simp add: demo_lease_def)
  ultimately show ?thesis
    using session_lease_fenced [OF demo_s4_reachable _ _ rtranclp.rtrancl_refl] by blast
qed

text \<open>
  A lease excludes: \<open>acquireLease\<close> succeeds exactly when nobody holds the session or the holder's
  time is over, and then every other lease on the session stops being valid while the new one is; a
  refused attempt changes nothing and reports the holder.
\<close>

theorem session_lease_exclusive:
  assumes "session_reachable (s, I)" and "tok \<notin> I"
  shows "case acquireLease ttl now tok sid holder s of
      (LeaseTaken l, s') \<Rightarrow>
        (\<forall>h. map_of (ss_leases s) sid = Some h \<longrightarrow> hl_expiresAt h \<le> now) \<and>
        (\<forall>l'. le_sessionId l' = sid \<longrightarrow> (lease_valid l' s' \<longleftrightarrow> l' = l)) \<and> \<not> lease_valid l s
    | (LeaseHeld heldBy since till, s') \<Rightarrow>
        s' = s \<and> now < till \<and> (\<exists>h. map_of (ss_leases s) sid = Some h \<and> hl_holder h = heldBy \<and>
           hl_acquiredAt h = since \<and> hl_expiresAt h = till)"
proof -
  have "map_of (ss_leases s) sid = Some h \<Longrightarrow> hl_token h \<noteq> tok" for h
    using session_inv_D(5) [OF session_reachable_inv [OF assms(1)]] assms(2) by (auto simp: leases_ok_def)
  then show ?thesis by (auto simp: acquireLease_def lease_valid_def lease_eq_iff split: option.split)
qed

theorem session_lease_exclusive_witness:
  "acquireLease 100 50 ''t2'' ''s1'' (Some HCompaction) demo_s2 = (LeaseHeld None 2 102, demo_s2)"
proof -
  have a: "fst (acquireLease 100 50 ''t2'' ''s1'' (Some HCompaction) demo_s2) = LeaseHeld None 2 102"
    by code_simp
  from session_lease_exclusive [OF demo_s2_reachable, where tok = "''t2''" and ttl = 100 and now = 50
      and sid = "''s1''" and holder = "Some HCompaction"] a
  show ?thesis by (auto split: prod.splits)
qed

definition window_open :: "session_store \<Rightarrow> string \<Rightarrow> string \<Rightarrow> bool" where
  "window_open s sid pid \<longleftrightarrow> (case window_of s sid pid of None \<Rightarrow> False | Some w \<Rightarrow> wi_validTo w = None)"

lemma log_of_wf: "session_inv (s, I) \<Longrightarrow> log_wf sid (log_of s sid)"
  by (drule session_inv_D(1)) (auto simp: logs_ok_def log_of_def log_wf_def split: option.split)

lemma append_entry_ok:
  assumes "append_entry ttl now l typ payload label s = (Inr e, s')"
  shows "log_of s' j = log_of s j @ (if j = le_sessionId l then [e] else [])"
    "window_of s' j p = window_of s j p" "en_seq e = length (log_of s (le_sessionId l))"
  using assms
  by (auto simp: append_entry_def Let_def extend_lease_def log_of_def window_of_def new_entry_def
      split: if_splits option.splits)

text \<open>
  C11. A participant sees exactly the part of the conversation they took part in. Joining (or joining
  again after having left) without the history shows nothing of the past, joining with it shows the
  whole log; leaving takes nothing away; and an entry appended later becomes visible to exactly the
  participants whose window is open.
\<close>

theorem participant_windows:
  assumes "session_reachable (s, I)"
  shows "(\<not> window_open s sid pid \<longrightarrow>
            visibleEntries (addParticipant now sid pid title False s) sid pid = []) \<and>
    visibleEntries (addParticipant now sid pid title True s) sid pid = log_of s sid \<and>
    visibleEntries (removeParticipant now sid pid s) sid pid = visibleEntries s sid pid \<and>
    \<not> window_open (removeParticipant now sid pid s) sid pid \<and>
    (append_entry ttl now l typ payload label s = (Inr e, s') \<longrightarrow>
       visibleEntries s' sid pid = visibleEntries s sid pid @
         (if le_sessionId l = sid \<and> window_open s sid pid then [e] else []))"
proof (intro conjI impI)
  note inv = session_reachable_inv [OF assms]
  have all: "en_seq x < length (log_of s sid)" if "x \<in> set (log_of s sid)" for x
    using log_of_wf [OF inv, of sid] that by (auto simp: log_wf_def in_set_conv_nth)
  have win: "window_wf (length (log_of s sid)) w" if "window_of s sid pid = Some w" for w
    using session_inv_D(3) [OF inv] that by (simp add: windows_ok_def)
  have log: "log_of (addParticipant now sid pid title h s) sid = log_of s sid" for h
    by (simp add: log_of_def addParticipant_def Let_def)
  show "visibleEntries (addParticipant now sid pid title False s) sid pid = []" if "\<not> window_open s sid pid"
    using all that by (auto simp: visibleEntries_def addParticipant_window added_window_def log in_window_def
        window_open_def filter_empty_conv not_le split: option.splits)
  show "visibleEntries (addParticipant now sid pid title True s) sid pid = log_of s sid"
    using win by (auto simp: visibleEntries_def addParticipant_window added_window_def log in_window_def
        window_wf_def split: option.splits)
  show "visibleEntries (removeParticipant now sid pid s) sid pid = visibleEntries s sid pid"
  proof (cases "window_of s sid pid")
    case (Some w)
    with win [OF Some] all show ?thesis
      by (auto simp: removeParticipant_def visibleEntries_def set_window in_window_def window_wf_def log_of_def
          split: option.splits intro!: filter_cong)
  qed (simp add: removeParticipant_def)
  show "\<not> window_open (removeParticipant now sid pid s) sid pid"
    by (cases "window_of s sid pid") (auto simp: removeParticipant_def window_open_def set_window)
  show "visibleEntries s' sid pid = visibleEntries s sid pid @
      (if le_sessionId l = sid \<and> window_open s sid pid then [e] else [])"
    if "append_entry ttl now l typ payload label s = (Inr e, s')"
    using append_entry_ok [OF that] win
    by (auto simp: visibleEntries_def window_open_def in_window_def window_wf_def split: option.splits)
qed

theorem participant_windows_witness:
  "visibleEntries (removeParticipant 9 ''s1'' ''ann'' demo_s4) ''s1'' ''ann'' = log_of demo_s4 ''s1'' \<and>
   visibleEntries (addParticipant 9 ''s1'' ''bob'' None False demo_s4) ''s1'' ''bob'' = []"
proof -
  have v: "visibleEntries demo_s4 ''s1'' ''ann'' = log_of demo_s4 ''s1''" by code_simp
  have b: "\<not> window_open demo_s4 ''s1'' ''bob''" by code_simp
  note P = participant_windows [OF demo_s4_reachable, where sid = "''s1''" and now = 9 and title = None]
  from P [where pid = "''ann''"] P [where pid = "''bob''"] v b show ?thesis by simp
qed

text \<open>
  A thread has one session: after \<open>getOrCreateByThread\<close>, looking the thread up, or asking for it
  again after any history in which the session was not deleted, gives the session with the same id,
  and no second one is created.
\<close>

theorem thread_has_one_session:
  assumes "session_reachable (s, I)" and "newId \<notin> I" and "newId \<noteq> ''''"
    and "getOrCreateByThread newId now th typ sc ch sf s = (se, s1)"
    and "session_step\<^sup>*\<^sup>* (s1, insert newId I) (s2, I2)"
    and "map_of (ss_sessions s2) (se_id se) \<noteq> None"
  shows "\<exists>se'. getByThread s2 th = Some se' \<and> se_id se' = se_id se \<and>
    (case getOrCreateByThread newId' now' th typ' sc' ch' sf' s2 of
       (q, s3) \<Rightarrow> se_id q = se_id se \<and> map fst (ss_sessions s3) = map fst (ss_sessions s2) \<and>
         ss_entries s3 = ss_entries s2)"
proof -
  have st: "session_step (s, I) (s1, insert newId I)"
    using step_getOrCreate [OF assms(3,2), of s now th "typ" sc ch sf] assms(4) by simp
  note r1 = session_reachable_step [OF assms(1) st]
  have r2: "session_reachable (s2, I2)"
    using r1 assms(5) unfolding session_reachable_def by (meson rtranclp_trans)
  note inv = session_reachable_inv [OF assms(1)] and inv1 = session_reachable_inv [OF r1]
    and inv2 = session_reachable_inv [OF r2]
  have se: "map_of (ss_sessions s1) (se_id se) = Some se" "se_threadRef se = th"
  proof -
    show "map_of (ss_sessions s1) (se_id se) = Some se"
    proof (cases "getByThread s th")
      case None
      with assms(4) show ?thesis by (auto simp: getOrCreateByThread_def Let_def)
    next
      case (Some q)
      with getByThread_iff [OF inv] have q: "map_of (ss_sessions s) (se_id q) = Some q" "se_threadRef q = th" by auto
      then have "map_of (ss_byThread s) th = Some (se_id q)"
        using threads_D(2) [OF session_inv_D(2) [OF inv]] by blast
      with Some assms(4) q show ?thesis by (auto simp: getOrCreateByThread_def Let_def)
    qed
    show "se_threadRef se = th"
      using assms(4) getByThread_iff [OF inv]
      by (auto simp: getOrCreateByThread_def Let_def new_session_def split: option.splits if_splits)
  qed
  have "session_kept s1 s2 (se_id se)"
    using session_rel_steps [OF r1 assms(5)] threads_D(1) [OF session_inv_D(2) [OF inv1] se(1)]
    by (auto simp: session_rel_def)
  with se assms(6) obtain se' where se': "map_of (ss_sessions s2) (se_id se) = Some se'" "se_id se' = se_id se"
    "se_threadRef se' = th" by (auto simp: session_kept_def split: option.splits)
  then have g: "getByThread s2 th = Some se'" using getByThread_iff [OF inv2] by simp
  have "map_of (ss_byThread s2) th = Some (se_id se)"
    using threads_D(2) [OF session_inv_D(2) [OF inv2]] se' by blast
  moreover have "se_id se \<in> fst ` set (ss_sessions s2)" using se'(1) by (force dest: map_of_SomeD)
  ultimately show ?thesis using g se'
    by (auto simp: getOrCreateByThread_def Let_def update_keys)
qed

theorem thread_has_one_session_witness:
  "\<exists>se'. getByThread demo_s1 ''th'' = Some se' \<and> se_id se' = ''s1''"
proof -
  let ?se = "new_session ''s1'' 1 ''th'' SDm ''personal:ann'' None None"
  have e: "getOrCreateByThread ''s1'' 1 ''th'' SDm ''personal:ann'' None None createMemorySessionStore = (?se, demo_s1)"
    unfolding demo_s1_def getOrCreateByThread_def
    by (simp add: getByThread_def createMemorySessionStore_def Let_def)
  have "map_option se_id (map_of (ss_sessions demo_s1) ''s1'') = Some ''s1''" by code_simp
  then have p: "map_of (ss_sessions demo_s1) (se_id ?se) \<noteq> None" by (auto simp: new_session_def)
  from thread_has_one_session [OF session_reachable_init _ _ e rtranclp.rtrancl_refl p, of "''x''" 0 SDm "''''" None None]
  show ?thesis by (auto simp: new_session_def)
qed

text \<open>
  Deleting a session leaves nothing of it behind: no session, log, tape, model requests, windows or
  lease, no thread that leads to it, nobody lists it or sees an entry of it, and every other session
  keeps its record, log, windows and lease.
\<close>

theorem deleteSession_complete:
  assumes "session_reachable (s, I)"
  shows "let s' = deleteSession sid s in
    map_of (ss_sessions s') sid = None \<and> map_of (ss_entries s') sid = None \<and>
    map_of (ss_tape s') sid = None \<and> map_of (ss_llm s') sid = None \<and>
    map_of (ss_leases s') sid = None \<and> participantsOf s' sid = [] \<and>
    (\<forall>th. map_of (ss_byThread s') th \<noteq> Some sid) \<and>
    (\<forall>pid. visibleEntries s' sid pid = [] \<and> sid \<notin> se_id ` set (listByParticipant s' pid)) \<and>
    (\<forall>j pid. j \<noteq> sid \<longrightarrow> map_of (ss_sessions s') j = map_of (ss_sessions s) j \<and> log_of s' j = log_of s j \<and>
       window_of s' j pid = window_of s j pid \<and> map_of (ss_leases s') j = map_of (ss_leases s) j \<and>
       (member_of s' j pid \<longleftrightarrow> member_of s j pid))"
proof -
  let ?s = "deleteSession sid s"
  note inv = session_reachable_inv [OF assms]
  note inv' = deleteSession_inv [OF inv, of sid]
  have "participantsOf ?s sid = []"
    by (simp add: participantsOf_def deleteSession_def Let_def)
  moreover have "map_of (ss_llm ?s) sid = None" by (simp add: deleteSession_def Let_def)
  moreover have "map_of (ss_byThread ?s) th \<noteq> Some sid" for th
    using threads_D(2) [OF session_inv_D(2) [OF inv'], of th sid] by (simp add: deleteSession_sel)
  moreover have "sid \<notin> se_id ` set (listByParticipant ?s pid)" for pid
  proof -
    have "se_id (listed_session ?s pid j q) = se_id q" for j q by (simp add: listed_session_def Let_def)
    moreover have "se_id q = j \<and> j \<noteq> sid" if "map_of (ss_sessions ?s) j = Some q" for j q
      using threads_D(1) [OF session_inv_D(2) [OF inv'] that] that by (auto simp: deleteSession_sel split: if_splits)
    moreover have "\<exists>j q. map_of (ss_sessions ?s) j = Some q \<and> x = listed_session ?s pid j q"
      if "x \<in> set (listByParticipant ?s pid)" for x
      using that by (auto simp: listByParticipant_def List.map_filter_def split: option.splits) blast
    ultimately show ?thesis by (metis imageE)
  qed
  ultimately show ?thesis
    by (simp add: Let_def deleteSession_sel deleteSession_member visibleEntries_def)
qed

theorem deleteSession_complete_witness:
  "getByThread (deleteSession ''s1'' demo_s4) ''th'' = None \<and>
   map_of (ss_entries (deleteSession ''s1'' demo_s4)) ''s1'' = None"
proof -
  from deleteSession_complete [OF demo_s4_reachable, of "''s1''"]
  have "map_of (ss_entries (deleteSession ''s1'' demo_s4)) ''s1'' = None" by (simp add: Let_def)
  moreover have "map_option se_id (getByThread (deleteSession ''s1'' demo_s4) ''th'') = None" by code_simp
  ultimately show ?thesis by simp
qed

end
