(* ===== verification/Entitlement.thy ===== *)
theory Entitlement
  imports Sessions
begin

text \<open>
  Who may see what was said in which scope (\<open>src/resolution/context-filter.ts\<close>). The entitlement test
  is handed to the access-control store and to the history and tape filters as a function; the locale
  \<open>entitlement\<close> is what they rely on, and the program's own test is its instance.
\<close>

definition principalEntitledToScope :: "principal \<Rightarrow> scope_id \<Rightarrow> scope_id \<Rightarrow> scope_id \<Rightarrow> bool" where
  "principalEntitledToScope p label sessionScopeId orgScopeId \<longleftrightarrow>
     (if label = orgScopeId then True
      else if label = sessionScopeId then True
      else case parseScopeId label of
             (Some Personal, ref) \<Rightarrow> p_id p = ref
           | (Some Team, ref) \<Rightarrow> ref \<in> set (case p_teamIds p of None \<Rightarrow> [] | Some ts \<Rightarrow> ts)
           | _ \<Rightarrow> False)"

definition filterHistoryForAudience ::
  "session_entry list \<Rightarrow> principal list \<Rightarrow> scope_id \<Rightarrow> scope_id \<Rightarrow> session_entry list" where
  "filterHistoryForAudience entries audience sessionScopeId orgScopeId =
     (if audience = [] then []
      else filter (\<lambda>e. list_all (\<lambda>p. principalEntitledToScope p (en_scopeLabel e) sessionScopeId orgScopeId)
                         audience) entries)"

section \<open>The contract of an entitlement test\<close>

text \<open>
  Everybody in a conversation may see what belongs to the organisation and to the conversation
  itself, and nothing else but personal and team scopes is open to anybody.
\<close>

locale entitlement =
  fixes entitled :: "principal \<Rightarrow> scope_id \<Rightarrow> scope_id \<Rightarrow> scope_id \<Rightarrow> bool"
  assumes own_org: "entitled p org session org"
    and own_session: "entitled p session session org"
    and private_only: "entitled p label session org \<Longrightarrow> label \<noteq> org \<Longrightarrow> label \<noteq> session \<Longrightarrow>
          \<exists>ref. label = scopeId Personal ref \<or> label = scopeId Team ref"
    and personal_owner: "scopeId Personal ref \<noteq> org \<Longrightarrow> scopeId Personal ref \<noteq> session \<Longrightarrow>
          entitled p (scopeId Personal ref) session org \<longleftrightarrow> p_id p = ref"
begin

definition allows :: "principal list \<Rightarrow> scope_id \<Rightarrow> scope_id \<Rightarrow> scope_id \<Rightarrow> bool" where
  "allows audience label session org \<longleftrightarrow>
     audience \<noteq> [] \<and> list_all (\<lambda>p. entitled p label session org) audience"

lemma allows_antimono: "set a \<subseteq> set b \<Longrightarrow> a \<noteq> [] \<Longrightarrow> allows b label session org \<Longrightarrow> allows a label session org"
  by (auto simp: allows_def list_all_iff)

lemma allows_shared: "audience \<noteq> [] \<Longrightarrow> allows audience org session org \<and> allows audience session session org"
  by (simp add: allows_def list_all_iff own_org own_session)

text \<open>Another person's private scope closes as soon as anybody else is listening.\<close>

lemma allows_personal:
  "scopeId Personal ref \<noteq> org \<Longrightarrow> scopeId Personal ref \<noteq> session \<Longrightarrow>
   allows audience (scopeId Personal ref) session org \<longleftrightarrow> audience \<noteq> [] \<and> (\<forall>p \<in> set audience. p_id p = ref)"
  by (simp add: allows_def list_all_iff personal_owner)

lemma allows_cases:
  "allows audience label session org \<Longrightarrow>
   label = org \<or> label = session \<or> (\<exists>ref. label = scopeId Team ref) \<or>
   (\<exists>ref. label = scopeId Personal ref \<and> (\<forall>p \<in> set audience. p_id p = ref))"
  using private_only personal_owner unfolding allows_def list_all_iff
  by (metis list.set_intros(1) neq_Nil_conv)

end

lemma entitled_cases:
  "principalEntitledToScope p label session org \<longleftrightarrow>
     label = org \<or> label = session \<or> label = scopeId Personal (p_id p) \<or>
     (\<exists>t ts. p_teamIds p = Some ts \<and> t \<in> set ts \<and> label = scopeId Team t)"
  by (auto simp: principalEntitledToScope_def split: prod.splits option.splits scope_kind.splits)
     (auto simp: parseScopeId_kind)

interpretation principal_entitlement: entitlement principalEntitledToScope
  by unfold_locales (auto simp: entitled_cases)

section \<open>The history filter\<close>

lemma filterHistory_allows:
  "filterHistoryForAudience entries audience session org =
     filter (\<lambda>e. principal_entitlement.allows audience (en_scopeLabel e) session org) entries"
  by (auto simp: filterHistoryForAudience_def principal_entitlement.allows_def)

text \<open>
  C15. What an agent recalls of a conversation is cut to what everybody listening may see: an entry
  survives the filter only if its label is the organisation's or the conversation's scope, a team
  scope all listeners belong to, or the personal scope of the one and only listener; whoever joins the
  audience can only make the recalled history shorter; with nobody listening there is none; and the
  entries that stay keep their order.
\<close>

theorem history_filter_sound:
  "let kept = filterHistoryForAudience entries audience session org in
     (\<forall>e \<in> set kept. e \<in> set entries \<and>
        (en_scopeLabel e = org \<or> en_scopeLabel e = session \<or>
         (\<exists>t. en_scopeLabel e = scopeId Team t \<and>
            (\<forall>p \<in> set audience. \<exists>ts. p_teamIds p = Some ts \<and> t \<in> set ts)) \<or>
         (\<exists>ref. en_scopeLabel e = scopeId Personal ref \<and> (\<forall>p \<in> set audience. p_id p = ref)))) \<and>
     (audience \<noteq> [] \<and> set audience \<subseteq> set larger \<longrightarrow>
        filterHistoryForAudience kept larger session org = filterHistoryForAudience entries larger session org) \<and>
     (\<exists>P. kept = filter P entries) \<and> (audience = [] \<longrightarrow> kept = [])"
proof -
  let ?kept = "filterHistoryForAudience entries audience session org"
  have "e \<in> set entries \<and> (en_scopeLabel e = org \<or> en_scopeLabel e = session \<or>
         (\<exists>t. en_scopeLabel e = scopeId Team t \<and>
            (\<forall>p \<in> set audience. \<exists>ts. p_teamIds p = Some ts \<and> t \<in> set ts)) \<or>
         (\<exists>ref. en_scopeLabel e = scopeId Personal ref \<and> (\<forall>p \<in> set audience. p_id p = ref)))"
    if e: "e \<in> set ?kept" for e
  proof -
    have "e \<in> set entries" and a: "principal_entitlement.allows audience (en_scopeLabel e) session org"
      using e by (auto simp: filterHistory_allows)
    moreover have "\<forall>p \<in> set audience. \<exists>ts. p_teamIds p = Some ts \<and> t \<in> set ts"
      if "en_scopeLabel e = scopeId Team t" "en_scopeLabel e \<noteq> org" "en_scopeLabel e \<noteq> session" for t
      using a that by (auto simp: principal_entitlement.allows_def list_all_iff entitled_cases)
    ultimately show ?thesis using principal_entitlement.allows_cases [OF a] by blast
  qed
  moreover have "filterHistoryForAudience ?kept larger session org = filterHistoryForAudience entries larger session org"
    if "audience \<noteq> []" "set audience \<subseteq> set larger"
    using principal_entitlement.allows_antimono [OF that(2,1)]
    by (auto simp: filterHistory_allows intro: filter_cong)
  moreover have "\<exists>P. ?kept = filter P entries" unfolding filterHistory_allows by blast
  moreover have "audience = [] \<longrightarrow> ?kept = []" by (simp add: filterHistoryForAudience_def)
  ultimately show ?thesis unfolding Let_def by blast
qed

theorem history_filter_sound_witness:
  "let ann = \<lparr> p_id = ''ann'', p_type = Internal, p_teamIds = None, p_displayName = None \<rparr>;
       bob = \<lparr> p_id = ''bob'', p_type = Internal, p_teamIds = None, p_displayName = None \<rparr>;
       es = [new_entry ''s'' 0 EUser JNull ''personal:ann'' 0, new_entry ''s'' 1 EUser JNull ''channel:c'' 0]
   in filterHistoryForAudience (filterHistoryForAudience es [ann] ''channel:c'' ''org:o'') [ann, bob]
        ''channel:c'' ''org:o'' = [new_entry ''s'' 1 EUser JNull ''channel:c'' 0]"
proof -
  let ?ann = "\<lparr> p_id = ''ann'', p_type = Internal, p_teamIds = None, p_displayName = None \<rparr>"
  let ?bob = "\<lparr> p_id = ''bob'', p_type = Internal, p_teamIds = None, p_displayName = None \<rparr>"
  let ?es = "[new_entry ''s'' 0 EUser JNull ''personal:ann'' 0, new_entry ''s'' 1 EUser JNull ''channel:c'' 0]"
  have "filterHistoryForAudience (filterHistoryForAudience ?es [?ann] ''channel:c'' ''org:o'') [?ann, ?bob]
      ''channel:c'' ''org:o'' = filterHistoryForAudience ?es [?ann, ?bob] ''channel:c'' ''org:o''"
    using history_filter_sound [where entries = ?es and audience = "[?ann]" and larger = "[?ann, ?bob]"
        and session = "''channel:c''" and org = "''org:o''"] by (simp add: Let_def)
  moreover have "filterHistoryForAudience ?es [?ann, ?bob] ''channel:c'' ''org:o'' =
      [new_entry ''s'' 1 EUser JNull ''channel:c'' 0]" by code_simp
  ultimately show ?thesis by (simp add: Let_def)
qed

end
