(* ===== verification/Acl.thy ===== *)
theory Acl
  imports Entitlement
begin

text \<open>
  The access-control store (\<open>src/acl/acl-store.ts\<close>): grants of a resource from the scope that owns it
  to another scope, who may hand them out, and which shared files a conversation sees. The rows are the
  list of the in-memory persistence. \<open>manages\<close>, the membership test for channel and group scopes, is a
  parameter; \<open>None\<close> when the store was created without one.
\<close>

datatype permission = PRead | PWrite

fun permission_name :: "permission \<Rightarrow> string" where
  "permission_name PRead = ''read''"
| "permission_name PWrite = ''write''"

record grant =
  gr_ownerScopeId :: scope_id
  gr_ref :: string
  gr_granteeScopeId :: scope_id
  gr_permission :: permission
  gr_grantedBy :: string

record granted_handle =
  gh_handlePath :: string
  gh_ownerScopeId :: scope_id
  gh_ownerPath :: string
  gh_permission :: permission

datatype acl_error = GrantByNonManager | RevokeByNonManager | ReplaceByNonManager | ReplaceForeignGrants

type_synonym scope_management = "string \<Rightarrow> scope_id \<Rightarrow> string option \<Rightarrow> bool"

definition isFileGrant :: "grant \<Rightarrow> bool" where
  "isFileGrant g \<longleftrightarrow> ref_kind (parseRef (gr_ref g)) = RFile"

definition basename :: "string \<Rightarrow> string" where
  "basename p = (let lst = last (js_split CHR ''/'' p) in if lst = '''' then p else lst)"

definition toHandle :: "grant \<Rightarrow> granted_handle" where
  "toHandle g =
     \<lparr> gh_handlePath = ''shared/'' @ basename (gr_ref g), gh_ownerScopeId = gr_ownerScopeId g,
       gh_ownerPath = gr_ref g, gh_permission = gr_permission g \<rparr>"

definition ownerOf :: "scope_id \<Rightarrow> string option" where
  "ownerOf sid = (case parseScopeId sid of (Some Personal, ref) \<Rightarrow> Some ref | _ \<Rightarrow> None)"

definition isMembershipManaged :: "scope_id \<Rightarrow> bool" where
  "isMembershipManaged sid \<longleftrightarrow> fst (parseScopeId sid) \<in> {Some Channel, Some Group}"

definition sameGrant :: "grant \<Rightarrow> grant \<Rightarrow> bool" where
  "sameGrant a b \<longleftrightarrow>
     gr_ownerScopeId a = gr_ownerScopeId b \<and> gr_ref a = gr_ref b \<and>
     gr_granteeScopeId a = gr_granteeScopeId b \<and> gr_permission a = gr_permission b"

definition sameGrantTuple :: "grant \<Rightarrow> grant \<Rightarrow> bool" where
  "sameGrantTuple a b \<longleftrightarrow> sameGrant a b \<and> gr_grantedBy a = gr_grantedBy b"

definition sameGrantSet :: "grant list \<Rightarrow> grant list \<Rightarrow> bool" where
  "sameGrantSet a b \<longleftrightarrow>
     length a = length b \<and> list_all (\<lambda>g. list_ex (\<lambda>candidate. sameGrantTuple g candidate) b) a"

section \<open>The in-memory rows\<close>

definition grant_sort_key :: "grant \<Rightarrow> string" where
  "grant_sort_key g =
     js_join [CHR 0x0A] [gr_ownerScopeId g, gr_ref g, gr_granteeScopeId g, permission_name (gr_permission g)]"

definition persist_all :: "grant list \<Rightarrow> grant list" where
  "persist_all grants = sort_key grant_sort_key grants"

definition persist_put :: "grant \<Rightarrow> grant list \<Rightarrow> grant list" where
  "persist_put g grants = (if list_ex (\<lambda>x. sameGrant x g) grants then grants else grants @ [g])"

definition persist_remove :: "grant \<Rightarrow> grant list \<Rightarrow> grant list" where
  "persist_remove g grants = filter (\<lambda>x. \<not> sameGrant x g) grants"

definition replaceForResourceIfCurrent ::
  "scope_id \<Rightarrow> string \<Rightarrow> grant list \<Rightarrow> grant list \<Rightarrow> grant list \<Rightarrow> bool \<times> grant list" where
  "replaceForResourceIfCurrent owner ref expected replacement grants =
     (let current = filter (\<lambda>g. gr_ownerScopeId g = owner \<and> gr_ref g = ref) grants
      in if \<not> sameGrantSet current expected then (False, grants)
         else (True, filter (\<lambda>g. \<not> (gr_ownerScopeId g = owner \<and> gr_ref g = ref)) grants @ replacement))"

section \<open>The store\<close>

definition acl_canManage :: "scope_management option \<Rightarrow> scope_id \<Rightarrow> string \<Rightarrow> string option \<Rightarrow> bool" where
  "acl_canManage manages sid pid authoredBy \<longleftrightarrow>
     (case ownerOf sid of
        Some owner \<Rightarrow> samePerson (Some pid) (Some owner)
      | None \<Rightarrow>
          (case manages of
             Some f \<Rightarrow> if isMembershipManaged sid then f pid sid authoredBy else True
           | None \<Rightarrow> True))"

definition grant_access ::
  "scope_management option \<Rightarrow> grant \<Rightarrow> string option \<Rightarrow> grant list \<Rightarrow> (acl_error + unit) \<times> grant list" where
  "grant_access manages g authoredBy grants =
     (if \<not> acl_canManage manages (gr_ownerScopeId g) (gr_grantedBy g) authoredBy
      then (Inl GrantByNonManager, grants)
      else (Inr (), persist_put g grants))"

definition revoke_access ::
  "scope_management option \<Rightarrow> scope_id \<Rightarrow> string \<Rightarrow> scope_id \<Rightarrow> string \<Rightarrow> string option \<Rightarrow> grant list \<Rightarrow>
     (acl_error + unit) \<times> grant list" where
  "revoke_access manages owner ref grantee revokedBy authoredBy grants =
     (if \<not> acl_canManage manages owner revokedBy authoredBy then (Inl RevokeByNonManager, grants)
      else
        let matches = filter (\<lambda>g. gr_ownerScopeId g = owner \<and> gr_ref g = ref \<and> gr_granteeScopeId g = grantee)
                        (persist_all grants)
        in (Inr (), fold persist_remove matches grants))"

definition replaceGrantsIfCurrent ::
  "scope_management option \<Rightarrow> scope_id \<Rightarrow> string \<Rightarrow> grant list \<Rightarrow> grant list \<Rightarrow> string \<Rightarrow> string option \<Rightarrow>
     grant list \<Rightarrow> (acl_error + bool) \<times> grant list" where
  "replaceGrantsIfCurrent manages owner ref expected replacement changedBy authoredBy grants =
     (if \<not> acl_canManage manages owner changedBy authoredBy then (Inl ReplaceByNonManager, grants)
      else if list_ex (\<lambda>g. gr_ownerScopeId g \<noteq> owner \<or> gr_ref g \<noteq> ref) expected \<or>
              list_ex (\<lambda>g. gr_ownerScopeId g \<noteq> owner \<or> gr_ref g \<noteq> ref) replacement
      then (Inl ReplaceForeignGrants, grants)
      else (case replaceForResourceIfCurrent owner ref expected replacement grants of
              (ok, grants') \<Rightarrow> (Inr ok, grants')))"

definition handlesFor :: "scope_id list \<Rightarrow> grant list \<Rightarrow> granted_handle list" where
  "handlesFor scopeIds grants =
     map toHandle (filter (\<lambda>g. isFileGrant g \<and> gr_granteeScopeId g \<in> set scopeIds) (persist_all grants))"

definition handlesForAudience ::
  "(principal \<Rightarrow> scope_id \<Rightarrow> scope_id \<Rightarrow> scope_id \<Rightarrow> bool) \<Rightarrow> principal list \<Rightarrow> scope_id \<Rightarrow> scope_id \<Rightarrow>
     grant list \<Rightarrow> granted_handle list" where
  "handlesForAudience entitled audience sessionScopeId orgScopeId grants =
     (if audience = [] then []
      else
        let reaches = (\<lambda>p g. entitled p (gr_granteeScopeId g) sessionScopeId orgScopeId \<or>
                             entitled p (gr_ownerScopeId g) sessionScopeId orgScopeId)
        in map toHandle
             (filter (\<lambda>g. isFileGrant g \<and>
                list_ex (\<lambda>p. entitled p (gr_granteeScopeId g) sessionScopeId orgScopeId) audience \<and>
                list_all (\<lambda>p. reaches p g) audience) (persist_all grants)))"

definition grantsFor :: "scope_id \<Rightarrow> string \<Rightarrow> grant list \<Rightarrow> grant list" where
  "grantsFor owner ref grants =
     filter (\<lambda>g. gr_ownerScopeId g = owner \<and> gr_ref g = ref) (persist_all grants)"

definition grantsOfKind ::
  "(principal \<Rightarrow> scope_id \<Rightarrow> scope_id \<Rightarrow> scope_id \<Rightarrow> bool) \<Rightarrow> resource_kind \<Rightarrow> principal list \<Rightarrow>
     scope_id \<Rightarrow> scope_id \<Rightarrow> grant list \<Rightarrow> grant list" where
  "grantsOfKind entitled kind audience sessionScopeId orgScopeId grants =
     (if audience = [] then []
      else filter (\<lambda>g. js_startsWith (gr_ref g) (PREFIX kind) \<and> gr_ownerScopeId g = orgScopeId \<and>
             list_all (\<lambda>p. entitled p (gr_granteeScopeId g) sessionScopeId orgScopeId) audience)
             (persist_all grants))"

section \<open>The rows stay free of duplicates\<close>

definition grant_key :: "grant \<Rightarrow> scope_id \<times> string \<times> scope_id \<times> permission" where
  "grant_key g = (gr_ownerScopeId g, gr_ref g, gr_granteeScopeId g, gr_permission g)"

definition acl_inv :: "grant list \<Rightarrow> bool" where
  "acl_inv grants \<longleftrightarrow> distinct (map grant_key grants)"

lemma sameGrant_key: "sameGrant a b \<longleftrightarrow> grant_key a = grant_key b"
  by (auto simp: sameGrant_def grant_key_def)

lemma sameGrantTuple_eq: "sameGrantTuple a b \<longleftrightarrow> a = b"
  by (cases a; cases b) (auto simp: sameGrantTuple_def sameGrant_def)

lemma set_persist_all [simp]: "set (persist_all grants) = set grants"
  by (simp add: persist_all_def)

lemma persist_put_inv: "acl_inv grants \<Longrightarrow> acl_inv (persist_put g grants)"
  by (auto simp: acl_inv_def persist_put_def sameGrant_key list_ex_iff)

lemma acl_inv_filter: "acl_inv grants \<Longrightarrow> acl_inv (filter P grants)"
  by (simp add: acl_inv_def distinct_map_filter)

lemma fold_persist_remove:
  "fold persist_remove ms grants = filter (\<lambda>g. grant_key g \<notin> grant_key ` set ms) grants"
  by (induction ms arbitrary: grants) (auto simp: persist_remove_def sameGrant_key intro: filter_cong)

lemma revoke_rows:
  "acl_canManage manages owner actor ab \<Longrightarrow>
   revoke_access manages owner ref grantee actor ab grants =
     (Inr (), filter (\<lambda>g. \<not> (gr_ownerScopeId g = owner \<and> gr_ref g = ref \<and> gr_granteeScopeId g = grantee)) grants)"
  by (auto simp: revoke_access_def Let_def fold_persist_remove grant_key_def image_iff intro!: filter_cong)

lemma grant_ops_inv:
  assumes "acl_inv grants"
  shows "acl_inv (snd (grant_access manages g ab grants))"
    "acl_inv (snd (revoke_access manages owner ref grantee actor ab grants))"
    "acl_inv replacement \<Longrightarrow> acl_inv (snd (replaceGrantsIfCurrent manages owner ref expected replacement actor ab grants))"
proof -
  show "acl_inv (snd (grant_access manages g ab grants))"
    using assms by (simp add: grant_access_def persist_put_inv)
  show "acl_inv (snd (revoke_access manages owner ref grantee actor ab grants))"
    using assms acl_inv_filter revoke_rows
    by (cases "acl_canManage manages owner actor ab") (simp_all add: revoke_access_def acl_inv_filter revoke_rows)
  assume r: "acl_inv replacement"
  show "acl_inv (snd (replaceGrantsIfCurrent manages owner ref expected replacement actor ab grants))"
    using assms r distinct_map_filter
    by (auto simp: replaceGrantsIfCurrent_def replaceForResourceIfCurrent_def Let_def acl_inv_def
        grant_key_def list_ex_iff)
qed

section \<open>Properties\<close>



text \<open>
  The shared files a conversation sees are sound and complete: a handle is listed exactly when some
  file grant produces it whose grantee scope at least one listener is entitled to and of which every
  single listener may see the grantee or the owning scope. With nobody listening nothing is listed.
\<close>

theorem shared_handles_exact:
  "h \<in> set (handlesForAudience principalEntitledToScope audience session org grants) \<longleftrightarrow>
     (\<exists>g \<in> set grants. h = toHandle g \<and> (\<forall>k \<in> {RSkill, RDeploy, RCron, RServiceCred}. \<not> js_startsWith (gr_ref g) (PREFIX k)) \<and>
        (\<exists>p \<in> set audience. principalEntitledToScope p (gr_granteeScopeId g) session org) \<and>
        (\<forall>p \<in> set audience. principalEntitledToScope p (gr_granteeScopeId g) session org \<or>
                             principalEntitledToScope p (gr_ownerScopeId g) session org))"
proof -
  have "isFileGrant g \<longleftrightarrow> (\<forall>k \<in> {RSkill, RDeploy, RCron, RServiceCred}. \<not> js_startsWith (gr_ref g) (PREFIX k))" for g
    by (auto simp: isFileGrant_def ref_defs)
  then show ?thesis
    by (auto simp: handlesForAudience_def Let_def list_ex_iff list_all_iff)
qed

theorem shared_handles_exact_witness:
  "let ann = \<lparr> p_id = ''ann'', p_type = Internal, p_teamIds = None, p_displayName = None \<rparr>;
       g = \<lparr> gr_ownerScopeId = ''personal:bob'', gr_ref = ''docs/plan.md'', gr_granteeScopeId = ''personal:ann'',
             gr_permission = PRead, gr_grantedBy = ''bob'' \<rparr>
   in toHandle g \<in> set (handlesForAudience principalEntitledToScope [ann] ''personal:ann'' ''org:o'' [g])"
proof -
  let ?ann = "\<lparr> p_id = ''ann'', p_type = Internal, p_teamIds = None, p_displayName = None \<rparr>"
  let ?g = "\<lparr> gr_ownerScopeId = ''personal:bob'', gr_ref = ''docs/plan.md'', gr_granteeScopeId = ''personal:ann'',
             gr_permission = PRead, gr_grantedBy = ''bob'' \<rparr>"
  have "\<forall>k \<in> {RSkill, RDeploy, RCron, RServiceCred}. \<not> js_startsWith (gr_ref ?g) (PREFIX k)"
    "principalEntitledToScope ?ann (gr_granteeScopeId ?g) ''personal:ann'' ''org:o''" by code_simp+
  then show ?thesis
    using shared_handles_exact [of "toHandle ?g" "[?ann]" "''personal:ann''" "''org:o''" "[?g]"]
    by (simp add: Let_def)
qed

lemma distinct_subset_set_eq:
  assumes "distinct xs" "length xs = length ys" "set xs \<subseteq> set ys"
  shows "set xs = set ys"
proof -
  have "card (set ys) \<le> length xs" using assms(2) card_length [of ys] by simp
  moreover have "card (set xs) = length xs" using assms(1) by (simp add: distinct_card)
  ultimately show ?thesis using assms(3) by (metis List.finite_set card_seteq)
qed

text \<open>
  Replacing the grants of a resource is a compare-and-swap: it goes through exactly when the grants
  the caller expected are the grants that are there, and then the resource has exactly the replacement;
  otherwise nothing changes. The rows of every other resource are kept either way, in order. A
  revocation removes exactly the grants of the resource to that grantee.
\<close>

theorem replace_is_compare_and_swap:
  assumes "acl_inv grants" and "acl_canManage manages owner actor ab"
    and "\<forall>g \<in> set expected \<union> set replacement. gr_ownerScopeId g = owner \<and> gr_ref g = ref"
  shows "(case replaceGrantsIfCurrent manages owner ref expected replacement actor ab grants of
      (outcome, grants') \<Rightarrow>
        outcome = Inr (set (grantsFor owner ref grants) = set expected \<and>
                       length (grantsFor owner ref grants) = length expected) \<and>
        set (grantsFor owner ref grants') =
          (if outcome = Inr True then set replacement else set (grantsFor owner ref grants)) \<and>
        filter (\<lambda>g. \<not> (gr_ownerScopeId g = owner \<and> gr_ref g = ref)) grants' =
          filter (\<lambda>g. \<not> (gr_ownerScopeId g = owner \<and> gr_ref g = ref)) grants) \<and>
    set (snd (revoke_access manages owner ref grantee actor ab grants)) =
      {g \<in> set grants. \<not> (gr_ownerScopeId g = owner \<and> gr_ref g = ref \<and> gr_granteeScopeId g = grantee)}"
proof -
  let ?P = "\<lambda>g. gr_ownerScopeId g = owner \<and> gr_ref g = ref"
  let ?cur = "filter ?P grants"
  have d: "distinct ?cur" using assms(1) by (simp add: acl_inv_def distinct_map)
  have len: "length (grantsFor owner ref grants) = length ?cur"
  proof -
    have "distinct (grantsFor owner ref grants)"
      using assms(1) by (simp add: acl_inv_def grantsFor_def persist_all_def distinct_map)
    moreover have "set (grantsFor owner ref grants) = set ?cur" by (auto simp: grantsFor_def)
    ultimately show ?thesis using d by (metis distinct_card)
  qed
  have set: "set (grantsFor owner ref grants) = set ?cur" by (auto simp: grantsFor_def)
  have same: "sameGrantSet ?cur expected \<longleftrightarrow> set ?cur = set expected \<and> length ?cur = length expected"
  proof
    assume "sameGrantSet ?cur expected"
    then have "length ?cur = length expected" "set ?cur \<subseteq> set expected"
      by (auto simp: sameGrantSet_def list_all_iff list_ex_iff sameGrantTuple_eq)
    then show "set ?cur = set expected \<and> length ?cur = length expected"
      using distinct_subset_set_eq [OF d] by blast
  next
    assume "set ?cur = set expected \<and> length ?cur = length expected"
    then show "sameGrantSet ?cur expected"
      unfolding sameGrantSet_def list_all_iff list_ex_iff sameGrantTuple_eq by blast
  qed
  have foreign: "\<not> (list_ex (\<lambda>g. gr_ownerScopeId g \<noteq> owner \<or> gr_ref g \<noteq> ref) expected \<or>
      list_ex (\<lambda>g. gr_ownerScopeId g \<noteq> owner \<or> gr_ref g \<noteq> ref) replacement)"
    using assms(3) by (auto simp: list_ex_iff)
  have eq: "replaceGrantsIfCurrent manages owner ref expected replacement actor ab grants =
      (if sameGrantSet ?cur expected then (Inr True, filter (\<lambda>g. \<not> ?P g) grants @ replacement)
       else (Inr False, grants))"
    unfolding replaceGrantsIfCurrent_def replaceForResourceIfCurrent_def Let_def
    using assms(2) foreign by simp
  have rep: "\<forall>g \<in> set replacement. ?P g" using assms(3) by blast
  show ?thesis
  proof (cases "sameGrantSet ?cur expected")
    case True
    then have eqT: "replaceGrantsIfCurrent manages owner ref expected replacement actor ab grants =
        (Inr True, filter (\<lambda>g. \<not> ?P g) grants @ replacement)" using eq by simp
    have "set (grantsFor owner ref (filter (\<lambda>g. \<not> ?P g) grants @ replacement)) = set replacement"
      using rep by (auto simp: grantsFor_def)
    moreover have "filter (\<lambda>g. \<not> ?P g) replacement = []" using rep by (simp add: filter_empty_conv)
    ultimately show ?thesis using True len set same revoke_rows [OF assms(2)] unfolding eqT by auto
  next
    case False
    then show ?thesis using eq len set same revoke_rows [OF assms(2)] by auto
  qed
qed

theorem replace_is_compare_and_swap_witness:
  "let g = \<lparr> gr_ownerScopeId = ''personal:ann'', gr_ref = ''f'', gr_granteeScopeId = ''personal:bob'',
             gr_permission = PRead, gr_grantedBy = ''ann'' \<rparr>
   in fst (replaceGrantsIfCurrent None ''personal:ann'' ''f'' [] [g] ''ann'' None [g]) = Inr False"
proof -
  let ?g = "\<lparr> gr_ownerScopeId = ''personal:ann'', gr_ref = ''f'', gr_granteeScopeId = ''personal:bob'',
             gr_permission = PRead, gr_grantedBy = ''ann'' \<rparr>"
  have 1: "acl_inv [?g]" "acl_canManage None ''personal:ann'' ''ann'' None" by code_simp+
  have 2: "\<forall>g \<in> set [] \<union> set [?g]. gr_ownerScopeId g = ''personal:ann'' \<and> gr_ref g = ''f''" by simp
  have "grantsFor ''personal:ann'' ''f'' [?g] = [?g]" by (simp add: grantsFor_def persist_all_def)
  with replace_is_compare_and_swap [OF 1 2, where grantee = "[]"] show ?thesis by (auto simp: Let_def split: prod.splits)
qed

end
