(* ===== verification/Directory.thy ===== *)
theory Directory
  imports Scope
begin

text \<open>
  The workspace directory (\<open>src/directory/directory-store.ts\<close>): members, channels, who is in which
  channel or group, and how a name is resolved to one of them; and the visibility test of
  \<open>src/directory/visibility.ts\<close>.
\<close>

record directory_member =
  dm_principalId :: string
  dm_displayName :: string
  dm_type :: principal_type
  dm_slackId :: "string option"

record directory_channel =
  dc_channelId :: string
  dc_name :: string
  dc_isPrivate :: "bool option"

datatype 'a resolution = ROne 'a | RAmbiguous "'a list" | RNone

definition groupParticipantsKey :: "string list \<Rightarrow> string" where
  "groupParticipantsKey participants =
     js_join '','' (sort (jset_of (filter (\<lambda>p. p \<noteq> '''') participants)))"

definition MAX_CANDIDATES :: int where
  "MAX_CANDIDATES = 10"

definition normDirectoryQuery :: "string \<Rightarrow> string" where
  "normDirectoryQuery s =
     (case js_lower (js_trim s) of
        [] \<Rightarrow> []
      | c # cs \<Rightarrow> if c = CHR ''@'' \<or> c = CHR ''#'' then cs else c # cs)"

definition pickMatch :: "'a list \<Rightarrow> string \<Rightarrow> ('a \<Rightarrow> string) \<Rightarrow> ('a \<Rightarrow> string) \<Rightarrow> 'a resolution" where
  "pickMatch items query ident label =
     (let q = normDirectoryQuery query
      in if q = '''' then RNone
         else case List.find (\<lambda>t. js_lower (ident t) = q) items of
                Some t \<Rightarrow> ROne t
              | None \<Rightarrow>
                  let exact = filter (\<lambda>t. normDirectoryQuery (label t) = q) items
                  in if length exact = 1 then ROne (hd exact)
                     else if length exact > 1 then RAmbiguous (js_slice exact 0 MAX_CANDIDATES)
                     else
                       let prefix = filter (\<lambda>t. js_startsWith (normDirectoryQuery (label t)) q) items;
                           pool = (if prefix \<noteq> [] then prefix
                                   else filter (\<lambda>t. js_includes (normDirectoryQuery (label t)) q) items)
                       in if pool = [] then RNone
                          else if length pool = 1 then ROne (hd pool)
                          else RAmbiguous (js_slice pool 0 MAX_CANDIDATES))"

section \<open>The store\<close>

record directory_store =
  ds_members :: "directory_member list"
  ds_channels :: "directory_channel list"
  ds_channelMembers :: "(string, string list) jsmap option"
  ds_groupMembers :: "(string, string list) jsmap option"
  ds_groupsSynced :: bool
  ds_workspaceUrl :: "string option"

definition createDirectoryStore :: directory_store where
  "createDirectoryStore =
     \<lparr> ds_members = [], ds_channels = [], ds_channelMembers = None, ds_groupMembers = None,
       ds_groupsSynced = False, ds_workspaceUrl = None \<rparr>"

definition setWorkspaceUrl :: "string \<Rightarrow> directory_store \<Rightarrow> directory_store" where
  "setWorkspaceUrl url d = d\<lparr> ds_workspaceUrl := Some url \<rparr>"

definition replace_members :: "directory_member list \<Rightarrow> directory_store \<Rightarrow> directory_store" where
  "replace_members nxt d =
     d\<lparr> ds_members := filter (\<lambda>m. dm_principalId m \<noteq> '''' \<and> dm_type m = Internal) nxt \<rparr>"

text \<open>Grouping membership rows \<open>(collection, person)\<close> by collection, rows with an empty part skipped.\<close>

definition add_row :: "string \<times> string \<Rightarrow> (string, string list) jsmap \<Rightarrow> (string, string list) jsmap" where
  "add_row row m =
     (case row of (c, p) \<Rightarrow>
        if c = '''' \<or> p = '''' then m
        else jmap_set c (jset_add p (case map_of m c of None \<Rightarrow> [] | Some ps \<Rightarrow> ps)) m)"

definition group_rows :: "(string \<times> string) list \<Rightarrow> (string, string list) jsmap" where
  "group_rows rows = fold add_row rows []"

definition replaceChannels ::
  "directory_channel list \<Rightarrow> (string \<times> string) list option \<Rightarrow> directory_store \<Rightarrow> directory_store" where
  "replaceChannels nextChannels nextChannelMembers d =
     (let d1 = d\<lparr> ds_channels := filter (\<lambda>c. dc_channelId c \<noteq> '''' \<and> dc_name c \<noteq> '''') nextChannels \<rparr>
      in case nextChannelMembers of
           None \<Rightarrow> d1
         | Some rows \<Rightarrow> d1\<lparr> ds_channelMembers := Some (group_rows rows) \<rparr>)"

definition in_rows :: "(string, string list) jsmap option \<Rightarrow> string \<Rightarrow> string \<Rightarrow> bool" where
  "in_rows rows c p \<longleftrightarrow>
     (case rows of
        None \<Rightarrow> False
      | Some m \<Rightarrow> (case map_of m c of None \<Rightarrow> False | Some ps \<Rightarrow> p \<in> set ps))"

definition channelMember :: "directory_store \<Rightarrow> string \<Rightarrow> string \<Rightarrow> bool" where
  "channelMember d channelId principalId \<longleftrightarrow> in_rows (ds_channelMembers d) channelId principalId"

definition find_channel :: "directory_store \<Rightarrow> string \<Rightarrow> directory_channel option" where
  "find_channel d channelId = List.find (\<lambda>c. dc_channelId c = channelId) (ds_channels d)"

definition channelMembership :: "directory_store \<Rightarrow> string \<Rightarrow> string \<Rightarrow> bool option" where
  "channelMembership d channelId principalId =
     (case (ds_channelMembers d, find_channel d channelId) of
        (Some m, Some channel) \<Rightarrow>
          let member = in_rows (Some m) channelId principalId
          in if member \<or> dc_isPrivate channel = Some True then Some member else None
      | _ \<Rightarrow> None)"

definition channelPrivacy :: "directory_store \<Rightarrow> string \<Rightarrow> bool option" where
  "channelPrivacy d channelId =
     map_option (\<lambda>channel. dc_isPrivate channel = Some True) (find_channel d channelId)"

definition replaceGroups :: "(string \<times> string) list \<Rightarrow> directory_store \<Rightarrow> directory_store" where
  "replaceGroups rows d = d\<lparr> ds_groupMembers := Some (group_rows rows), ds_groupsSynced := True \<rparr>"

definition upsertGroup :: "string \<Rightarrow> string list \<Rightarrow> directory_store \<Rightarrow> directory_store" where
  "upsertGroup groupId principalIds d =
     (let ids = filter (\<lambda>p. p \<noteq> '''') principalIds
      in if groupId = '''' \<or> ids = [] then d
         else d\<lparr> ds_groupMembers :=
                   Some (jmap_set groupId (jset_of ids)
                          (case ds_groupMembers d of None \<Rightarrow> [] | Some m \<Rightarrow> m)) \<rparr>)"

definition resolveGroupByParticipants :: "directory_store \<Rightarrow> string list \<Rightarrow> string option" where
  "resolveGroupByParticipants d participants =
     (let key = groupParticipantsKey participants
      in if key = '''' then None
         else case ds_groupMembers d of
                None \<Rightarrow> None
              | Some groups \<Rightarrow>
                  map_option fst (List.find (\<lambda>(_, members). groupParticipantsKey members = key) groups))"

definition groupMember :: "directory_store \<Rightarrow> string \<Rightarrow> string \<Rightarrow> bool" where
  "groupMember d groupId principalId \<longleftrightarrow> in_rows (ds_groupMembers d) groupId principalId"

definition groupMembership :: "directory_store \<Rightarrow> string \<Rightarrow> string \<Rightarrow> bool option" where
  "groupMembership d groupId principalId =
     (if ds_groupMembers d = None \<or> \<not> ds_groupsSynced d then None
      else Some (in_rows (ds_groupMembers d) groupId principalId))"

definition listGroupsFor :: "directory_store \<Rightarrow> string \<Rightarrow> string list" where
  "listGroupsFor d principalId =
     (case ds_groupMembers d of
        None \<Rightarrow> []
      | Some m \<Rightarrow> map fst (filter (\<lambda>(_, members). principalId \<in> set members) m))"

definition listChannelsFor :: "directory_store \<Rightarrow> string \<Rightarrow> directory_channel list" where
  "listChannelsFor d principalId =
     filter (\<lambda>c. dc_isPrivate c \<noteq> Some True \<or> in_rows (ds_channelMembers d) (dc_channelId c) principalId)
       (ds_channels d)"

definition get_member :: "directory_store \<Rightarrow> string \<Rightarrow> directory_member option" where
  "get_member d principalId =
     List.find (\<lambda>m. samePerson (Some (dm_principalId m)) (Some principalId)) (ds_members d)"

definition resolve_member :: "directory_store \<Rightarrow> string \<Rightarrow> directory_member resolution" where
  "resolve_member d query =
     (case List.find (\<lambda>x. truthy (dm_slackId x) \<and> dm_slackId x = Some (js_trim query)) (ds_members d) of
        Some m \<Rightarrow> ROne m
      | None \<Rightarrow> pickMatch (ds_members d) query dm_principalId dm_displayName)"

definition resolveChannel :: "directory_store \<Rightarrow> string \<Rightarrow> directory_channel resolution" where
  "resolveChannel d query = pickMatch (ds_channels d) query dc_channelId dc_name"

section \<open>Visibility\<close>

datatype visibility_target =
    VDm string
  | VGroup string
  | VChannel string "bool option"

definition isVisible :: "directory_store \<Rightarrow> string \<Rightarrow> visibility_target \<Rightarrow> bool" where
  "isVisible d actorId target =
     (case target of
        VDm ownerId \<Rightarrow> samePerson (Some actorId) (Some ownerId)
      | VGroup groupId \<Rightarrow> groupMember d groupId actorId
      | VChannel channelId isPrivate \<Rightarrow>
          (case isPrivate of
             Some True \<Rightarrow> channelMember d channelId actorId
           | Some False \<Rightarrow> True
           | None \<Rightarrow> list_ex (\<lambda>c. dc_channelId c = channelId) (listChannelsFor d actorId)))"

datatype reach_resolution =
    ReachOk scope_id string string bool
  | ReachNoMatch string
  | ReachAmbiguous string "string list"
  | ReachPrivate string
  | ReachUnknownActor string

text \<open>\<open>resolveReachableChannel\<close> of \<open>src/resolution/scope-reach.ts\<close>; its four error messages are the last four results.\<close>

definition resolveReachableChannel :: "directory_store \<Rightarrow> string \<Rightarrow> string \<Rightarrow> reach_resolution" where
  "resolveReachableChannel d actorId query =
     (case resolveChannel d query of
        RNone \<Rightarrow> ReachNoMatch query
      | RAmbiguous candidates \<Rightarrow> ReachAmbiguous query (map (\<lambda>c. ''#'' @ dc_name c) candidates)
      | ROne channel \<Rightarrow>
          let isPrivate = (dc_isPrivate channel = Some True)
          in if \<not> isVisible d actorId (VChannel (dc_channelId channel) (Some isPrivate))
             then (if get_member d actorId \<noteq> None then ReachPrivate (dc_name channel)
                   else ReachUnknownActor (dc_name channel))
             else ReachOk (scopeId Channel (dc_channelId channel)) (dc_channelId channel) (dc_name channel) isPrivate)"

section \<open>Facts\<close>

lemma in_rows_add_row:
  "in_rows (Some (add_row row m)) c p \<longleftrightarrow> (c, p) = row \<and> c \<noteq> '''' \<and> p \<noteq> '''' \<or> in_rows (Some m) c p"
  by (cases row) (auto simp: add_row_def in_rows_def split: option.splits)

lemma in_rows_fold:
  "in_rows (Some (fold add_row rows m)) c p \<longleftrightarrow>
     (c, p) \<in> set rows \<and> c \<noteq> '''' \<and> p \<noteq> '''' \<or> in_rows (Some m) c p"
  by (induction rows arbitrary: m) (auto simp: in_rows_add_row)

lemma in_group_rows: "in_rows (Some (group_rows rows)) c p \<longleftrightarrow> (c, p) \<in> set rows \<and> c \<noteq> '''' \<and> p \<noteq> ''''"
  by (simp add: group_rows_def in_rows_fold) (simp add: in_rows_def)

lemma membership_exact:
  "channelMembership d c p = Some b \<Longrightarrow> channelMember d c p = b"
  "groupMembership d g p = Some b \<Longrightarrow> groupMember d g p = b"
  by (auto simp: channelMembership_def channelMember_def groupMembership_def groupMember_def Let_def
      split: option.splits if_splits)

lemma private_channel_membership:
  "channelPrivacy d c = Some True \<Longrightarrow> ds_channelMembers d \<noteq> None \<Longrightarrow>
   channelMembership d c p = Some (channelMember d c p)"
  by (auto simp: channelPrivacy_def channelMembership_def channelMember_def Let_def)

lemma hd_filter_mem: "filter P xs \<noteq> [] \<Longrightarrow> hd (filter P xs) \<in> set xs"
  by (metis filter_is_subset hd_in_set subsetD)

lemma pickMatch_mem:
  assumes "pickMatch items q ident label = ROne t"
  shows "t \<in> set items"
proof (cases "List.find (\<lambda>t. js_lower (ident t) = normDirectoryQuery q) items")
  case None
  have "length (filter P items) = 1 \<Longrightarrow> hd (filter P items) \<in> set items" for P
    by (rule hd_filter_mem) auto
  with assms None show ?thesis by (simp add: pickMatch_def Let_def split: if_splits) blast+
next
  case (Some x)
  with assms find_SomeD [OF Some] show ?thesis by (simp add: pickMatch_def Let_def split: if_splits)
qed

end
