(* ===== verification/Durable_Map.thy ===== *)
theory Durable_Map
  imports Prelude
begin

text \<open>
  The key-value interface the durable stores are written against (\<open>DurableMap\<close> in
  \<open>src/persistence/durable-map.ts\<close>) and its in-memory implementation \<open>createMemoryMap\<close>. The interface
  is the locale \<open>kv_store\<close>; the stores that keep their rows in a durable map use its facts through
  the interpretation on the memory map.
\<close>

section \<open>The memory map\<close>

type_synonym 'v mem_map = "(string, 'v) jsmap"

definition mm_empty :: "'v mem_map" where
  "mm_empty = []"

definition mm_entries :: "'v mem_map \<Rightarrow> (string \<times> 'v) list" where
  "mm_entries m = sort_key fst m"

definition mm_all :: "'v mem_map \<Rightarrow> 'v list" where
  "mm_all m = map snd (mm_entries m)"

definition mm_get :: "'v mem_map \<Rightarrow> string \<Rightarrow> 'v option" where
  "mm_get m k = map_of m k"

definition mm_put :: "string \<Rightarrow> 'v \<Rightarrow> 'v mem_map \<Rightarrow> 'v mem_map" where
  "mm_put k v m = jmap_set k v m"

definition mm_putIfAbsent :: "string \<Rightarrow> 'v \<Rightarrow> 'v mem_map \<Rightarrow> 'v \<times> 'v mem_map" where
  "mm_putIfAbsent k v m =
     (case map_of m k of Some existing \<Rightarrow> (existing, m) | None \<Rightarrow> (v, jmap_set k v m))"

definition mm_insertIfAbsent :: "string \<Rightarrow> 'v \<Rightarrow> 'v mem_map \<Rightarrow> bool \<times> 'v mem_map" where
  "mm_insertIfAbsent k v m =
     (if map_of m k \<noteq> None then (False, m) else (True, jmap_set k v m))"

text \<open>
  \<open>applyPatch\<close> on an object given by its fields; a patch field that is \<open>undefined\<close> is \<open>None\<close>.
\<close>

definition applyPatch :: "(string \<times> json) list \<Rightarrow> (string \<times> json option) list \<Rightarrow> (string \<times> json) list" where
  "applyPatch obj patch =
     fold (\<lambda>(k, v) next. case v of None \<Rightarrow> jmap_delete k next | Some w \<Rightarrow> jmap_set k w next) patch obj"

definition mm_merge ::
  "string \<Rightarrow> (string \<times> json option) list \<Rightarrow> (string \<times> json) list mem_map \<Rightarrow>
     (string \<times> json) list option \<times> (string \<times> json) list mem_map" where
  "mm_merge k patch m =
     (case map_of m k of
        None \<Rightarrow> (None, m)
      | Some v \<Rightarrow> let merged = applyPatch v patch in (Some merged, jmap_set k merged m))"

definition mm_update :: "string \<Rightarrow> ('v \<Rightarrow> 'v) \<Rightarrow> 'v mem_map \<Rightarrow> 'v option \<times> 'v mem_map" where
  "mm_update k f m =
     (case map_of m k of
        None \<Rightarrow> (None, m)
      | Some v \<Rightarrow> let next = f v in (Some next, jmap_set k next m))"

definition mm_deleteIf :: "string \<Rightarrow> ('v \<Rightarrow> bool) \<Rightarrow> 'v mem_map \<Rightarrow> bool \<times> 'v mem_map" where
  "mm_deleteIf k p m =
     (case map_of m k of
        None \<Rightarrow> (False, m)
      | Some v \<Rightarrow> if \<not> p v then (False, m) else (True, jmap_delete k m))"

definition mm_delete :: "string \<Rightarrow> 'v mem_map \<Rightarrow> 'v mem_map" where
  "mm_delete k m = jmap_delete k m"

definition mm_take :: "string \<Rightarrow> 'v mem_map \<Rightarrow> 'v option \<times> 'v mem_map" where
  "mm_take k m = (map_of m k, jmap_delete k m)"

definition mm_invar :: "'v mem_map \<Rightarrow> bool" where
  "mm_invar m \<longleftrightarrow> distinct (map fst m)"

section \<open>The interface\<close>

locale kv_store =
  fixes empty :: 'm
    and get :: "'m \<Rightarrow> string \<Rightarrow> 'v option"
    and put :: "string \<Rightarrow> 'v \<Rightarrow> 'm \<Rightarrow> 'm"
    and del :: "string \<Rightarrow> 'm \<Rightarrow> 'm"
    and entries :: "'m \<Rightarrow> (string \<times> 'v) list"
    and invar :: "'m \<Rightarrow> bool"
  assumes get_empty: "get empty k = None"
    and get_put: "invar m \<Longrightarrow> get (put k v m) = (get m)(k \<mapsto> v)"
    and get_del: "invar m \<Longrightarrow> get (del k m) = (get m)(k := None)"
    and entries_iff: "invar m \<Longrightarrow> (k, v) \<in> set (entries m) \<longleftrightarrow> get m k = Some v"
    and entries_sorted: "invar m \<Longrightarrow> sorted (map fst (entries m)) \<and> distinct (map fst (entries m))"
    and invar_empty: "invar empty"
    and invar_put: "invar m \<Longrightarrow> invar (put k v m)"
    and invar_del: "invar m \<Longrightarrow> invar (del k m)"
begin

lemma values_iff: "invar m \<Longrightarrow> v \<in> set (map snd (entries m)) \<longleftrightarrow> (\<exists>k. get m k = Some v)"
  by (auto simp: entries_iff [symmetric] image_iff) force

lemma entries_determined:
  assumes "invar m" "invar n" "get m = get n"
  shows "entries m = entries n"
proof -
  have "set (entries m) = set (entries n)" using assms by (auto simp: entries_iff)
  moreover have "inj_on fst (set (entries m) \<union> set (entries n))"
    using assms by (auto simp: inj_on_def entries_iff)
  ultimately show ?thesis
    using entries_sorted [OF assms(1)] entries_sorted [OF assms(2)]
    by (metis map_sorted_distinct_set_unique)
qed

lemma fold_put_invar: "invar m \<Longrightarrow> invar (fold (\<lambda>x. put (f x) (g x)) xs m)"
  by (induction xs arbitrary: m) (auto simp: invar_put)

lemma put_del_other: "invar m \<Longrightarrow> k \<noteq> k' \<Longrightarrow> get (put k v (del k' m)) = get (del k' (put k v m))"
  by (auto simp: get_put get_del invar_put invar_del fun_eq_iff)

end

lemma sort_key_strict:
  fixes m :: "'v mem_map"
  assumes "distinct (map fst m)"
  shows "distinct (map fst (sort_key fst m))"
  using assms by (simp add: distinct_map)

interpretation mem: kv_store mm_empty mm_get mm_put mm_delete mm_entries mm_invar
proof
  fix m :: "'v mem_map" and k v
  show "mm_get mm_empty k = (None :: 'v option)" by (simp add: mm_get_def mm_empty_def)
  assume inv: "mm_invar m"
  show "mm_get (mm_put k v m) = (mm_get m)(k \<mapsto> v)" by (simp add: mm_get_def mm_put_def fun_eq_iff)
  show "mm_get (mm_delete k m) = (mm_get m)(k := None)" by (simp add: mm_get_def mm_delete_def fun_eq_iff)
  show "(k, v) \<in> set (mm_entries m) \<longleftrightarrow> mm_get m k = Some v"
    using inv by (simp add: mm_entries_def mm_get_def mm_invar_def)
  show "sorted (map fst (mm_entries m)) \<and> distinct (map fst (mm_entries m))"
    using inv by (simp add: mm_entries_def sort_key_strict mm_invar_def)
  show "mm_invar (mm_put k v m)" using inv by (simp add: mm_invar_def mm_put_def distinct_update)
  show "mm_invar (mm_delete k m)" using inv by (simp add: mm_invar_def mm_delete_def distinct_delete)
next
  show "mm_invar mm_empty" by (simp add: mm_invar_def mm_empty_def)
qed

lemma mm_get_put [simp]: "mm_get (mm_put k v m) = (mm_get m)(k \<mapsto> v)"
  by (simp add: mm_get_def mm_put_def fun_eq_iff)

lemma mm_get_delete [simp]: "mm_get (mm_delete k m) = (mm_get m)(k := None)"
  by (simp add: mm_get_def mm_delete_def fun_eq_iff)

lemma mm_get_empty [simp]: "mm_get mm_empty k = None"
  by (simp add: mm_get_def mm_empty_def)

lemma mm_get_update [simp]: "mm_get (snd (mm_update pid f m)) = (mm_get m)(pid := map_option f (mm_get m pid))"
  by (auto simp: mm_update_def mm_get_def Let_def split: option.split)

lemma mm_invar_update: "mm_invar m \<Longrightarrow> mm_invar (snd (mm_update pid f m))"
  by (simp add: mm_update_def mm_invar_def Let_def distinct_update split: option.split)

section \<open>What the operations return\<close>

lemma map_of_applyPatch:
  assumes "distinct (map fst patch)"
  shows "map_of (applyPatch obj patch) k =
    (case map_of patch k of None \<Rightarrow> map_of obj k | Some w \<Rightarrow> w)"
  using assms unfolding applyPatch_def
proof (induction patch arbitrary: obj)
  case (Cons p ps)
  obtain k' w where p: "p = (k', w)" by force
  have "k' \<notin> dom (map_of ps)" using Cons.prems p by (auto simp: dom_map_of_conv_image_fst)
  then have "map_of ps k' = None" by auto
  then show ?case using Cons p by (auto split: option.split)
qed simp

text \<open>
  The compound operations of the durable map are what their names say on the stored mapping: a
  put-if-absent never overwrites and returns what is stored afterwards, an insert-if-absent succeeds
  exactly when the key was free, an update or a merge changes exactly a row that is there (a merge
  overwrites the fields its patch sets, drops those it sets to undefined and keeps the rest), a
  delete-if removes exactly a row that satisfies the condition, and a take removes and returns the row.
\<close>

theorem memory_map_operations:
  assumes "distinct (map fst patch)"
  shows "(case mm_putIfAbsent k v n of (r, n') \<Rightarrow> mm_get n' k = Some r \<and>
            (\<forall>k'. mm_get n' k' = (if k' = k \<and> mm_get n k = None then Some v else mm_get n k'))) \<and>
    (case mm_insertIfAbsent k v n of (b, n') \<Rightarrow> b = (mm_get n k = None) \<and>
            (\<forall>k'. mm_get n' k' = (if k' = k \<and> b then Some v else mm_get n k'))) \<and>
    (case mm_update k f n of (r, n') \<Rightarrow> r = map_option f (mm_get n k) \<and>
            mm_get n' = (mm_get n)(k := r)) \<and>
    (case mm_deleteIf k p n of (b, n') \<Rightarrow> b = (\<exists>w. mm_get n k = Some w \<and> p w) \<and>
            (\<forall>k'. mm_get n' k' = (if k' = k \<and> b then None else mm_get n k'))) \<and>
    (case mm_take k n of (r, n') \<Rightarrow> r = mm_get n k \<and> mm_get n' = (mm_get n)(k := None)) \<and>
    (case mm_merge k patch m of (r, m') \<Rightarrow>
       (case mm_get m k of
          None \<Rightarrow> r = None \<and> m' = m
        | Some obj \<Rightarrow> \<exists>obj'. r = Some obj' \<and> mm_get m' = (mm_get m)(k \<mapsto> obj') \<and>
            (\<forall>field. map_of obj' field =
               (case map_of patch field of None \<Rightarrow> map_of obj field | Some w \<Rightarrow> w))))"
  using assms
  by (auto simp: mm_putIfAbsent_def mm_insertIfAbsent_def mm_update_def mm_deleteIf_def mm_take_def
      mm_merge_def mm_get_def map_of_applyPatch Let_def fun_eq_iff split: option.split)

theorem memory_map_operations_witness:
  "(case mm_merge ''a'' [(''x'', None), (''y'', Some JNull)] [(''a'', [(''x'', JNum 1)])] of
      (r, m') \<Rightarrow> map_option (\<lambda>obj. map_of obj ''x'') r = Some None)"
proof -
  have "distinct (map fst [(''x'', None :: json option), (''y'', Some JNull)])" by simp
  from memory_map_operations [OF this, where k = "''a''" and n = "[] :: nat mem_map" and v = 0 and f = id
      and p = "\<lambda>_. True" and m = "[(''a'', [(''x'', JNum 1)])]"]
  show ?thesis by (auto simp: mm_get_def split: prod.splits)
qed

end
