(* ===== verification/Identity.thy ===== *)
theory Identity
  imports Scope Durable_Map
begin

text \<open>
  The identity service (\<open>src/identity/identity-service.ts\<close>): who is internal, who was deactivated and
  why. The service keeps a cache of the deactivations in front of a durable map; the rows are the
  memory map of \<open>Durable_Map\<close>, reached through the facts of the interpretation \<open>mem\<close>.
\<close>

datatype deactivation_source = Manual | DirectorySync

record deactivation_record =
  dr_principalId :: string
  dr_source :: deactivation_source
  dr_at :: time

record actor_assertion =
  aa_externalId :: string
  aa_isExternalGuest :: "bool option"
  aa_isBot :: "bool option"
  aa_teamIds :: "string list option"
  aa_displayName :: "string option"

record identity_service =
  is_store :: "deactivation_record mem_map"
  is_deactivated :: "(string, deactivation_record) jsmap"
  is_refreshedAt :: time
  is_hydrated :: bool

definition createIdentityService :: "deactivation_record mem_map \<Rightarrow> identity_service" where
  "createIdentityService backing =
     \<lparr> is_store = backing, is_deactivated = [], is_refreshedAt = 0, is_hydrated = False \<rparr>"

definition REFRESH_TTL_MS :: int where
  "REFRESH_TTL_MS = 10000"

definition classify :: "identity_service \<Rightarrow> string \<Rightarrow> bool option \<Rightarrow> principal" where
  "classify s externalId isExternalGuest =
     \<lparr> p_id = externalId,
       p_type = (if map_of (is_deactivated s) (personKey (Some externalId)) \<noteq> None \<or> isExternalGuest = Some True
                 then Guest else Internal),
       p_teamIds = None, p_displayName = None \<rparr>"

definition deactivate :: "time \<Rightarrow> string \<Rightarrow> deactivation_source \<Rightarrow> identity_service \<Rightarrow> identity_service" where
  "deactivate now externalId source s =
     (let key = personKey (Some externalId);
          record = \<lparr> dr_principalId = externalId, dr_source = source, dr_at = now \<rparr>
      in case map_of (is_deactivated s) key of
           Some existing \<Rightarrow>
             if dr_source existing = Manual \<or> dr_source existing = source then s
             else s\<lparr> is_deactivated := jmap_set key record (is_deactivated s),
                     is_store := mm_put key record (is_store s) \<rparr>
         | None \<Rightarrow>
             s\<lparr> is_deactivated := jmap_set key record (is_deactivated s),
                is_store := mm_put key record (is_store s) \<rparr>)"

definition reactivate :: "string \<Rightarrow> identity_service \<Rightarrow> identity_service" where
  "reactivate externalId s =
     (let key = personKey (Some externalId)
      in s\<lparr> is_deactivated := jmap_delete key (is_deactivated s), is_store := mm_delete key (is_store s) \<rparr>)"

definition sync_removed ::
  "time \<Rightarrow> string \<Rightarrow> string list \<times> identity_service \<Rightarrow> string list \<times> identity_service" where
  "sync_removed now pid acc =
     (case acc of (out, s) \<Rightarrow>
        if map_of (is_deactivated s) (personKey (Some pid)) \<noteq> None then (out, s)
        else (out @ [pid], deactivate now pid DirectorySync s))"

definition sync_present :: "string \<Rightarrow> string list \<times> identity_service \<Rightarrow> string list \<times> identity_service" where
  "sync_present pid acc =
     (case acc of (out, s) \<Rightarrow>
        if map_option dr_source (map_of (is_deactivated s) (personKey (Some pid))) \<noteq> Some DirectorySync
        then (out, s) else (out @ [pid], reactivate pid s))"

definition recordDirectorySync ::
  "time \<Rightarrow> string list \<Rightarrow> string list \<Rightarrow> identity_service \<Rightarrow>
     (string list \<times> string list) \<times> identity_service" where
  "recordDirectorySync now removedIds presentIds s =
     (case fold (sync_removed now) removedIds ([], s) of
        (deactivated, s1) \<Rightarrow>
          (case fold sync_present presentIds ([], s1) of
             (reactivated, s2) \<Rightarrow> ((deactivated, reactivated), s2)))"

definition hydrate :: "identity_service \<Rightarrow> identity_service" where
  "hydrate s =
     (if is_hydrated s then s
      else s\<lparr> is_hydrated := True,
              is_deactivated :=
                fold (\<lambda>r m. let key = personKey (Some (dr_principalId r))
                            in if map_of m key = None then jmap_set key r m else m)
                  (mm_all (is_store s)) (is_deactivated s) \<rparr>)"

definition refresh_identity :: "time \<Rightarrow> identity_service \<Rightarrow> identity_service" where
  "refresh_identity now s =
     (if now - is_refreshedAt s < REFRESH_TTL_MS then s
      else s\<lparr> is_deactivated :=
                fold (\<lambda>r. jmap_set (personKey (Some (dr_principalId r))) r) (mm_all (is_store s)) [],
              is_refreshedAt := now \<rparr>)"

definition resolve_identity :: "identity_service \<Rightarrow> actor_assertion \<Rightarrow> principal" where
  "resolve_identity s actor =
     (classify s (aa_externalId actor) (aa_isExternalGuest actor))
       \<lparr> p_teamIds := aa_teamIds actor,
         p_displayName := (if truthy (aa_displayName actor) then aa_displayName actor else None) \<rparr>"

definition isInternal :: "principal \<Rightarrow> bool" where
  "isInternal p \<longleftrightarrow> p_type p = Internal"

definition audienceIsAllInternal :: "principal list \<Rightarrow> bool" where
  "audienceIsAllInternal audience \<longleftrightarrow> length audience > 0 \<and> list_all (\<lambda>p. p_type p = Internal) audience"

section \<open>The cache and the rows\<close>

text \<open>Every row is filed under the key of the person it names.\<close>

definition identity_inv :: "identity_service \<Rightarrow> bool" where
  "identity_inv s \<longleftrightarrow> mm_invar (is_store s) \<and>
     (\<forall>k r. mm_get (is_store s) k = Some r \<longrightarrow> personKey (Some (dr_principalId r)) = k) \<and>
     (\<forall>k r. map_of (is_deactivated s) k = Some r \<longrightarrow> personKey (Some (dr_principalId r)) = k)"

text \<open>Once hydrated the cache is the rows.\<close>

definition write_through :: "identity_service \<Rightarrow> bool" where
  "write_through s \<longleftrightarrow> map_of (is_deactivated s) = mm_get (is_store s)"

lemmas mem_get_simps = mem.get_put mem.get_del mem.invar_put mem.invar_del

lemma deactivate_lookup:
  "map_of (is_deactivated (deactivate now pid src s)) k =
     (if k = personKey (Some pid) \<and>
         (case map_of (is_deactivated s) k of
            None \<Rightarrow> True | Some e \<Rightarrow> dr_source e \<noteq> Manual \<and> dr_source e \<noteq> src)
      then Some \<lparr> dr_principalId = pid, dr_source = src, dr_at = now \<rparr> else map_of (is_deactivated s) k)"
  by (auto simp: deactivate_def Let_def split: option.split)

lemma reactivate_lookup:
  "map_of (is_deactivated (reactivate pid s)) = (map_of (is_deactivated s))(personKey (Some pid) := None)"
  by (simp add: reactivate_def Let_def)

lemma deactivate_inv:
  assumes "identity_inv s"
  shows "identity_inv (deactivate now pid src s)"
    "write_through s \<Longrightarrow> write_through (deactivate now pid src s)"
  using assms
  by (auto simp: identity_inv_def write_through_def deactivate_def Let_def mem_get_simps fun_eq_iff
      split: option.splits)

lemma reactivate_inv:
  assumes "identity_inv s"
  shows "identity_inv (reactivate pid s)" "write_through s \<Longrightarrow> write_through (reactivate pid s)"
  using assms
  by (auto simp: identity_inv_def write_through_def reactivate_def Let_def mem_get_simps fun_eq_iff
      split: if_splits)

lemma fold_records_lookup:
  assumes "\<forall>r \<in> set rs. \<forall>q \<in> set rs. f r = f q \<longrightarrow> r = q"
  shows "map_of (fold (\<lambda>r. jmap_set (f r) r) rs m) k =
    (case List.find (\<lambda>r. f r = k) rs of None \<Rightarrow> map_of m k | Some r \<Rightarrow> Some r)"
  using assms
proof (induction rs arbitrary: m)
  case (Cons r rs)
  have "f q = f r \<Longrightarrow> q = r" if "q \<in> set rs" for q using Cons.prems that by simp
  then have "q = r" if "List.find (\<lambda>q. f q = f r) rs = Some q" for q using find_SomeD [OF that] by simp
  moreover have "map_of (fold (\<lambda>r. jmap_set (f r) r) rs (jmap_set (f r) r m)) k =
      (case List.find (\<lambda>r. f r = k) rs of None \<Rightarrow> map_of (jmap_set (f r) r m) k | Some r \<Rightarrow> Some r)"
    using Cons.prems by (intro Cons.IH) simp
  ultimately show ?case by (cases "f r = k") (auto split: option.split)
qed simp

lemma records_key_inj:
  assumes "identity_inv s" "r \<in> set (mm_all (is_store s))" "q \<in> set (mm_all (is_store s))"
    "personKey (Some (dr_principalId r)) = personKey (Some (dr_principalId q))"
  shows "r = q"
  using assms mem.values_iff [of "is_store s"] unfolding mm_all_def identity_inv_def by (metis option.inject)

lemma find_record:
  assumes "identity_inv s"
  shows "List.find (\<lambda>r. personKey (Some (dr_principalId r)) = k) (mm_all (is_store s)) = mm_get (is_store s) k"
proof (cases "mm_get (is_store s) k")
  case None
  have "personKey (Some (dr_principalId r)) \<noteq> k" if "r \<in> set (mm_all (is_store s))" for r
    using that assms None mem.values_iff [of "is_store s"] unfolding mm_all_def identity_inv_def
    by (metis option.distinct(1))
  with None show ?thesis by (auto simp: find_None_iff)
next
  case (Some r)
  then have r: "r \<in> set (mm_all (is_store s))" "personKey (Some (dr_principalId r)) = k"
    using assms mem.values_iff [of "is_store s"] unfolding mm_all_def identity_inv_def by blast+
  then show ?thesis using records_key_inj [OF assms] Some by (auto intro!: find_unique)
qed

text \<open>A refresh makes the cache the rows again, whatever was in it.\<close>

lemma refresh_write_through:
  assumes "identity_inv s" "REFRESH_TTL_MS \<le> now - is_refreshedAt s"
  shows "write_through (refresh_identity now s)"
  using assms records_key_inj [OF assms(1)]
  by (auto simp: write_through_def refresh_identity_def fun_eq_iff fold_records_lookup find_record
      split: option.split)

section \<open>Directory sync\<close>

abbreviation source_of :: "identity_service \<Rightarrow> string \<Rightarrow> deactivation_source option" where
  "source_of s k \<equiv> map_option dr_source (map_of (is_deactivated s) k)"

definition keys_of :: "string list \<Rightarrow> string set" where
  "keys_of ids = (\<lambda>pid. personKey (Some pid)) ` set ids"

lemma sync_removed_source:
  "source_of (snd (fold (sync_removed now) ids acc)) k =
     (if source_of (snd acc) k = None \<and> k \<in> keys_of ids then Some DirectorySync else source_of (snd acc) k)"
proof (induction ids arbitrary: acc)
  case (Cons i ids)
  obtain out s where acc: "acc = (out, s)" by force
  have "source_of (snd (sync_removed now i acc)) k =
      (if source_of s k = None \<and> k = personKey (Some i) then Some DirectorySync else source_of s k)"
    by (auto simp: acc sync_removed_def deactivate_lookup)
  then show ?case using Cons.IH [of "sync_removed now i acc"] by (auto simp: acc keys_of_def)
qed (simp add: keys_of_def)

lemma sync_present_source:
  "source_of (snd (fold sync_present ids acc)) k =
     (if source_of (snd acc) k = Some DirectorySync \<and> k \<in> keys_of ids then None else source_of (snd acc) k)"
proof (induction ids arbitrary: acc)
  case (Cons i ids)
  obtain out s where acc: "acc = (out, s)" by force
  have "source_of (snd (sync_present i acc)) k =
      (if source_of s k = Some DirectorySync \<and> k = personKey (Some i) then None else source_of s k)"
    by (auto simp: acc sync_present_def reactivate_lookup)
  then show ?case using Cons.IH [of "sync_present i acc"] by (auto simp: acc keys_of_def)
qed (simp add: keys_of_def)

lemma sync_keeps_manual:
  "map_of (is_deactivated (snd acc)) k = Some r \<Longrightarrow> dr_source r = Manual \<Longrightarrow>
   map_of (is_deactivated (snd (fold (sync_removed now) ids acc))) k = Some r"
  "map_of (is_deactivated (snd acc)) k = Some r \<Longrightarrow> dr_source r = Manual \<Longrightarrow>
   map_of (is_deactivated (snd (fold sync_present ids acc))) k = Some r"
proof (induction ids arbitrary: acc)
  case (Cons i ids)
  {
    case 1
    then have "map_of (is_deactivated (snd (sync_removed now i acc))) k = Some r"
      by (cases acc) (auto simp: sync_removed_def deactivate_lookup)
    then show ?case using Cons.IH(1) 1(2) by simp
  next
    case 2
    then have "map_of (is_deactivated (snd (sync_present i acc))) k = Some r"
      by (cases acc) (auto simp: sync_present_def reactivate_lookup)
    then show ?case using Cons.IH(2) 2(2) by simp
  }
qed simp_all

lemma sync_inv:
  assumes "identity_inv (snd acc)"
  shows "identity_inv (snd (fold (sync_removed now) ids acc)) \<and>
      (write_through (snd acc) \<longrightarrow> write_through (snd (fold (sync_removed now) ids acc)))"
    "identity_inv (snd (fold sync_present ids acc)) \<and>
      (write_through (snd acc) \<longrightarrow> write_through (snd (fold sync_present ids acc)))"
  using assms
proof (induction ids arbitrary: acc)
  case (Cons i ids)
  {
    case 1
    then have "identity_inv (snd (sync_removed now i acc)) \<and>
        (write_through (snd acc) \<longrightarrow> write_through (snd (sync_removed now i acc)))"
      by (cases acc) (simp add: sync_removed_def deactivate_inv)
    then show ?case using Cons.IH(1) by simp
  next
    case 2
    then have "identity_inv (snd (sync_present i acc)) \<and>
        (write_through (snd acc) \<longrightarrow> write_through (snd (sync_present i acc)))"
      by (cases acc) (simp add: sync_present_def reactivate_inv)
    then show ?case using Cons.IH(2) by simp
  }
qed simp_all

text \<open>
  A directory sync deactivates and reactivates exactly whom it should. A person deactivated by hand
  stays deactivated, with the record untouched, whatever the sync reports; of the others, those reported
  present are active afterwards, those only reported removed are guests afterwards and marked as
  deactivated by the sync, and nobody else changes. The durable rows are kept equal to the cache.
\<close>

theorem directory_sync_exact:
  assumes "identity_inv s" and "write_through s"
  shows "case recordDirectorySync now removed present s of (_, s') \<Rightarrow>
    write_through s' \<and> identity_inv s' \<and>
    (\<forall>k. source_of s' k =
       (if source_of s k = Some Manual then Some Manual
        else if k \<in> keys_of present then None
        else if k \<in> keys_of removed then Some DirectorySync else source_of s k)) \<and>
    (\<forall>k r. map_of (is_deactivated s) k = Some r \<and> dr_source r = Manual \<longrightarrow> mm_get (is_store s') k = Some r) \<and>
    (\<forall>pid. p_type (classify s' pid None) = Guest \<longleftrightarrow> source_of s' (personKey (Some pid)) \<noteq> None)"
proof -
  obtain d s1 where 1: "fold (sync_removed now) removed ([], s) = (d, s1)" by force
  obtain r s2 where 2: "fold sync_present present ([], s1) = (r, s2)" by force
  have eq: "recordDirectorySync now removed present s = ((d, r), s2)"
    by (simp add: recordDirectorySync_def 1 2)
  have i1: "identity_inv s1 \<and> write_through s1" using sync_inv(1) [of "([], s)" now removed] assms 1 by simp
  have i2: "identity_inv s2 \<and> write_through s2" using sync_inv(2) [of "([], s1)" present] i1 2 by simp
  have src: "source_of s2 k =
      (if source_of s k = Some Manual then Some Manual
       else if k \<in> keys_of present then None
       else if k \<in> keys_of removed then Some DirectorySync else source_of s k)" for k
    using sync_removed_source [of now removed "([], s)" k] sync_present_source [of present "([], s1)" k] 1 2
    by (cases "source_of s k"; cases "the (source_of s k)") auto
  have man: "mm_get (is_store s2) k = Some q" if "map_of (is_deactivated s) k = Some q" "dr_source q = Manual" for k q
    using sync_keeps_manual(1) [of "([], s)" k q now removed] sync_keeps_manual(2) [of "([], s1)" k q present]
      that i2 1 2 by (simp add: write_through_def)
  show ?thesis using i2 src man by (simp add: eq classify_def)
qed

theorem directory_sync_exact_witness:
  "let s = deactivate 1 ''Ann@x.org'' Manual (createIdentityService []);
       s' = snd (recordDirectorySync 2 [''bob''] [''ann@x.org''] s)
   in source_of s' ''ann@x.org'' = Some Manual \<and> source_of s' ''bob'' = Some DirectorySync"
proof -
  let ?s = "deactivate 1 ''Ann@x.org'' Manual (createIdentityService [])"
  have e: "identity_inv (createIdentityService [])" "write_through (createIdentityService [])"
    by (auto simp: identity_inv_def write_through_def createIdentityService_def mm_invar_def mm_get_def)
  have i: "identity_inv ?s" "write_through ?s" by (rule deactivate_inv [OF e(1)], rule deactivate_inv(2) [OF e])
  have k: "personKey (Some ''bob'') = ''bob''" "personKey (Some ''ann@x.org'') = ''ann@x.org''"
    "source_of ?s ''ann@x.org'' = Some Manual" "source_of ?s ''bob'' = None" by code_simp+
  obtain out s' where eq: "recordDirectorySync 2 [''bob''] [''ann@x.org''] ?s = (out, s')" by (rule prod.exhaust)
  have "source_of s' k =
       (if source_of ?s k = Some Manual then Some Manual
        else if k \<in> keys_of [''ann@x.org''] then None
        else if k \<in> keys_of [''bob''] then Some DirectorySync else source_of ?s k)" for k
    using directory_sync_exact [OF i, where now = 2 and removed = "[''bob'']" and present = "[''ann@x.org'']"] eq
    by (simp only: split_conv)
  from this [of "''ann@x.org''"] this [of "''bob''"] show ?thesis
    using k by (simp add: Let_def eq keys_of_def)
qed

end
