(* ===== verification/Membership.thy ===== *)
theory Membership
  imports Directory Identity
begin

text \<open>
  Who may read, write and manage a scope (\<open>src/resolution/scope-membership.ts\<close>). The collaborators the
  tests are given (managed groups, directory, identity, sessions) are records of functions; a method
  that may reject is a function into \<^typ>\<open>('e, 'a) promise\<close>, an optional method or collaborator an
  \<open>option\<close>. The locale \<open>scope_directory\<close> is what the tests rely on of a directory; the directory store
  is its instance, and \<open>wired_deps\<close> is the configuration \<open>src/wiring.ts\<close> builds.
\<close>

record managed_groups =
  mg_recognizes :: "string \<Rightarrow> bool"
  mg_membership :: "string \<Rightarrow> string \<Rightarrow> (string, bool option) promise"
  mg_members :: "string \<Rightarrow> (string, string list option) promise"

record member_directory =
  md_channelMember :: "string \<Rightarrow> string \<Rightarrow> (string, bool) promise"
  md_groupMember :: "string \<Rightarrow> string \<Rightarrow> (string, bool) promise"
  md_channelMembership :: "(string \<Rightarrow> string \<Rightarrow> (string, bool option) promise) option"
  md_groupMembership :: "(string \<Rightarrow> string \<Rightarrow> (string, bool option) promise) option"
  md_channelPrivacy :: "(string \<Rightarrow> (string, bool option) promise) option"
  md_list :: "(string, (string \<times> string option) list) promise option"

record membership_deps =
  de_managedGroups :: "managed_groups option"
  de_directory :: "member_directory option"
  de_identity :: "(string \<Rightarrow> principal_type option \<times> string list option) option"
  de_sessions :: "(string \<Rightarrow> (string, scope_id list) promise) option"

definition activePrincipal :: "membership_deps \<Rightarrow> string \<Rightarrow> bool" where
  "activePrincipal deps pid \<longleftrightarrow>
     (let typ = (case de_identity deps of None \<Rightarrow> None | Some f \<Rightarrow> fst (f pid))
      in typ = None \<or> typ = Some Internal)"

definition recognizedGroup :: "membership_deps \<Rightarrow> scope_kind \<Rightarrow> string \<Rightarrow> managed_groups option" where
  "recognizedGroup deps kind ref =
     (case de_managedGroups deps of
        Some mg \<Rightarrow> if kind = Group \<and> mg_recognizes mg ref then Some mg else None
      | None \<Rightarrow> None)"

definition directMember :: "membership_deps \<Rightarrow> scope_kind \<Rightarrow> string \<Rightarrow> string \<Rightarrow> bool" where
  "directMember deps kind ref pid \<longleftrightarrow>
     (case de_directory deps of
        None \<Rightarrow> False
      | Some d \<Rightarrow> catch_with False
          ((if kind = Channel then md_channelMember d else md_groupMember d) ref pid))"

definition privacyOf :: "membership_deps \<Rightarrow> string \<Rightarrow> bool option" where
  "privacyOf deps ref =
     (case de_directory deps of
        None \<Rightarrow> None
      | Some d \<Rightarrow> (case md_channelPrivacy d of None \<Rightarrow> None | Some f \<Rightarrow> catch_with None (f ref)))"

definition currentSharedScopeMember :: "membership_deps \<Rightarrow> scope_kind \<Rightarrow> string \<Rightarrow> string \<Rightarrow> bool" where
  "currentSharedScopeMember deps kind ref pid \<longleftrightarrow>
     (if \<not> activePrincipal deps pid then False
      else case recognizedGroup deps kind ref of
             Some mg \<Rightarrow> catch_with (Some False) (mg_membership mg ref pid) = Some True
           | None \<Rightarrow> directMember deps kind ref pid)"

definition sharedScopeMembership :: "membership_deps \<Rightarrow> scope_kind \<Rightarrow> string \<Rightarrow> string \<Rightarrow> bool option" where
  "sharedScopeMembership deps kind ref pid =
     (if \<not> activePrincipal deps pid then Some False
      else case recognizedGroup deps kind ref of
             Some mg \<Rightarrow> Some (catch_with (Some False) (mg_membership mg ref pid) = Some True)
           | None \<Rightarrow>
               (case Option.bind (de_directory deps)
                       (if kind = Channel then md_channelMembership else md_groupMembership) of
                  Some triState \<Rightarrow> catch_with None (triState ref pid)
                | None \<Rightarrow>
                    if directMember deps kind ref pid then Some True
                    else if kind = Channel \<and> privacyOf deps ref \<noteq> None then Some False
                    else None))"

definition memberOfSharedScope ::
  "membership_deps \<Rightarrow> scope_kind \<Rightarrow> string \<Rightarrow> string \<Rightarrow> scope_id \<Rightarrow> bool" where
  "memberOfSharedScope deps kind ref pid fullScope \<longleftrightarrow>
     (case sharedScopeMembership deps kind ref pid of
        Some current \<Rightarrow> current
      | None \<Rightarrow>
          (case de_sessions deps of
             None \<Rightarrow> False
           | Some f \<Rightarrow> fullScope \<in> set (catch_with [] (f pid))))"

definition isCurrentSharedScopeMember :: "membership_deps \<Rightarrow> string \<Rightarrow> scope_id \<Rightarrow> bool" where
  "isCurrentSharedScopeMember deps pid sc \<longleftrightarrow>
     (if pid = '''' then False
      else case parseScopeId sc of
             (Some Channel, ref) \<Rightarrow> currentSharedScopeMember deps Channel ref pid
           | (Some Group, ref) \<Rightarrow> currentSharedScopeMember deps Group ref pid
           | _ \<Rightarrow> False)"

definition teamMember :: "membership_deps \<Rightarrow> string \<Rightarrow> string \<Rightarrow> bool" where
  "teamMember deps pid ref \<longleftrightarrow>
     (case de_identity deps of
        None \<Rightarrow> False
      | Some f \<Rightarrow> (case snd (f pid) of None \<Rightarrow> False | Some ts \<Rightarrow> ref \<in> set ts))"

definition canReadScope :: "membership_deps \<Rightarrow> string \<Rightarrow> scope_id \<Rightarrow> bool" where
  "canReadScope deps pid targetScope \<longleftrightarrow>
     (if pid = '''' then False
      else case parseScopeId targetScope of
             (Some Org, ref) \<Rightarrow>
               (case de_identity deps of None \<Rightarrow> False | Some f \<Rightarrow> fst (f pid) = Some Internal)
           | (Some Personal, ref) \<Rightarrow> samePerson (Some ref) (Some pid)
           | (Some Team, ref) \<Rightarrow> teamMember deps pid ref
           | (Some Group, ref) \<Rightarrow> memberOfSharedScope deps Group ref pid targetScope
           | (Some Channel, ref) \<Rightarrow>
               if memberOfSharedScope deps Channel ref pid targetScope then True
               else if privacyOf deps ref = Some False then activePrincipal deps pid
               else False
           | (None, ref) \<Rightarrow> False)"

definition canWriteScope :: "membership_deps \<Rightarrow> string \<Rightarrow> scope_id \<Rightarrow> bool" where
  "canWriteScope deps pid targetScope \<longleftrightarrow>
     (if pid = '''' \<or> \<not> activePrincipal deps pid then False
      else case parseScopeId targetScope of
             (Some Org, ref) \<Rightarrow> True
           | (Some Personal, ref) \<Rightarrow> samePerson (Some ref) (Some pid)
           | (Some Team, ref) \<Rightarrow> teamMember deps pid ref
           | (Some Channel, ref) \<Rightarrow> currentSharedScopeMember deps Channel ref pid
           | (Some Group, ref) \<Rightarrow> currentSharedScopeMember deps Group ref pid
           | (None, ref) \<Rightarrow> False)"

definition membershipControlsScope :: "membership_deps \<Rightarrow> scope_id \<Rightarrow> bool" where
  "membershipControlsScope deps sc \<longleftrightarrow>
     (case parseScopeId sc of
        (Some Group, ref) \<Rightarrow> True
      | (Some Channel, ref) \<Rightarrow> privacyOf deps ref = Some True
      | _ \<Rightarrow> False)"

definition canManageScope :: "membership_deps \<Rightarrow> string \<Rightarrow> scope_id \<Rightarrow> bool" where
  "canManageScope deps pid sc \<longleftrightarrow>
     (if pid = '''' \<or> \<not> activePrincipal deps pid then False
      else case parseScopeId sc of
             (Some Personal, ref) \<Rightarrow> samePerson (Some ref) (Some pid)
           | (Some Group, ref) \<Rightarrow> currentSharedScopeMember deps Group ref pid
           | (Some Channel, ref) \<Rightarrow>
               if privacyOf deps ref \<noteq> Some True then False
               else currentSharedScopeMember deps Channel ref pid
           | _ \<Rightarrow> False)"

definition managesArtifactHome ::
  "membership_deps \<Rightarrow> (string \<Rightarrow> scope_id \<Rightarrow> bool) \<Rightarrow> scope_id \<Rightarrow> string \<Rightarrow> string \<Rightarrow> bool" where
  "managesArtifactHome deps canManage home createdBy pid \<longleftrightarrow>
     (if pid = '''' \<or> \<not> activePrincipal deps pid then False
      else if canManage pid home then True
      else if \<not> samePerson (Some createdBy) (Some pid) then False
      else case parseScopeId home of
             (Some Personal, ref) \<Rightarrow> True
           | (Some Channel, ref) \<Rightarrow> privacyOf deps ref = Some False
           | _ \<Rightarrow> False)"

section \<open>The members of a scope\<close>

definition scope_principal :: "membership_deps \<Rightarrow> string \<Rightarrow> string option \<Rightarrow> principal option" where
  "scope_principal deps pid displayName =
     (let classified = map_option (\<lambda>f. f pid) (de_identity deps);
          typ = Option.bind classified fst
      in if typ \<noteq> None \<and> typ \<noteq> Some Internal then None
         else Some \<lparr> p_id = pid, p_type = Internal, p_teamIds = Option.bind classified snd,
                     p_displayName = (if truthy displayName then displayName else None) \<rparr>)"

text \<open>\<open>Promise.all\<close>: the values in order, or the first rejection.\<close>

fun promise_all :: "('e, 'a) promise list \<Rightarrow> ('e, 'a list) promise" where
  "promise_all [] = Resolved []"
| "promise_all (Rejected e # ps) = Rejected e"
| "promise_all (Resolved x # ps) =
     (case promise_all ps of Rejected e \<Rightarrow> Rejected e | Resolved xs \<Rightarrow> Resolved (x # xs))"

definition listed_members ::
  "membership_deps \<Rightarrow> member_directory \<Rightarrow> scope_kind \<Rightarrow> string \<Rightarrow> (string \<times> string option) list \<Rightarrow>
     (string, principal list option) promise" where
  "listed_members deps d kind ref candidates =
     (case promise_all (map (\<lambda>(pid, displayName).
              case (if kind = Channel then md_channelMember d else md_groupMember d) ref pid of
                Rejected e \<Rightarrow> Rejected e
              | Resolved isIn \<Rightarrow> Resolved (if isIn then scope_principal deps pid displayName else None)) candidates) of
        Rejected e \<Rightarrow> Rejected e
      | Resolved included \<Rightarrow> Resolved (Some (List.map_filter id included)))"

definition currentScopeMembers :: "membership_deps \<Rightarrow> scope_id \<Rightarrow> (string, principal list option) promise" where
  "currentScopeMembers deps sc =
     (case parseScopeId sc of (kind, ref) \<Rightarrow>
        if kind \<noteq> Some Channel \<and> kind \<noteq> Some Group then Resolved None
        else case recognizedGroup deps (the kind) ref of
               Some mg \<Rightarrow>
                 (case mg_members mg ref of
                    Rejected e \<Rightarrow> Rejected e
                  | Resolved ids \<Rightarrow>
                      Resolved (Some (List.map_filter (\<lambda>pid. scope_principal deps pid None)
                        (case ids of None \<Rightarrow> [] | Some xs \<Rightarrow> xs))))
             | None \<Rightarrow>
                 (case de_directory deps of
                    None \<Rightarrow> Resolved None
                  | Some d \<Rightarrow>
                      (case md_list d of
                         None \<Rightarrow> Resolved None
                       | Some lst \<Rightarrow>
                           (case (if kind = Some Channel
                                  then (case md_channelPrivacy d of None \<Rightarrow> Resolved None | Some f \<Rightarrow> f ref)
                                  else Resolved (Some True)) of
                              Rejected e \<Rightarrow> Rejected e
                            | Resolved priv \<Rightarrow>
                                if priv \<noteq> Some True then Resolved None
                                else (case lst of
                                        Rejected e \<Rightarrow> Rejected e
                                      | Resolved candidates \<Rightarrow> listed_members deps d (the kind) ref candidates)))))"

section \<open>What the tests rely on\<close>

locale scope_directory =
  fixes chanMember :: "'d \<Rightarrow> string \<Rightarrow> string \<Rightarrow> bool"
    and grpMember :: "'d \<Rightarrow> string \<Rightarrow> string \<Rightarrow> bool"
    and chanMembership :: "'d \<Rightarrow> string \<Rightarrow> string \<Rightarrow> bool option"
    and grpMembership :: "'d \<Rightarrow> string \<Rightarrow> string \<Rightarrow> bool option"
    and chanPrivacy :: "'d \<Rightarrow> string \<Rightarrow> bool option"
    and synced :: "'d \<Rightarrow> bool"
  assumes chan_exact: "chanMembership d c p = Some b \<Longrightarrow> chanMember d c p = b"
    and grp_exact: "grpMembership d g p = Some b \<Longrightarrow> grpMember d g p = b"
    and private_known: "synced d \<Longrightarrow> chanPrivacy d c = Some True \<Longrightarrow>
          chanMembership d c p = Some (chanMember d c p)"
begin

definition iface :: "'d \<Rightarrow> member_directory" where
  "iface d =
     \<lparr> md_channelMember = (\<lambda>c p. Resolved (chanMember d c p)),
       md_groupMember = (\<lambda>g p. Resolved (grpMember d g p)),
       md_channelMembership = Some (\<lambda>c p. Resolved (chanMembership d c p)),
       md_groupMembership = Some (\<lambda>g p. Resolved (grpMembership d g p)),
       md_channelPrivacy = Some (\<lambda>c. Resolved (chanPrivacy d c)),
       md_list = None \<rparr>"

lemma private_channel_iface:
  assumes "synced d" "chanPrivacy d c = Some True" "de_directory deps = Some (iface d\<lparr> md_list := l \<rparr>)" "pid \<noteq> ''''"
  shows "canReadScope deps pid (scopeId Channel c) \<longleftrightarrow> activePrincipal deps pid \<and> chanMember d c pid"
    "canWriteScope deps pid (scopeId Channel c) \<longleftrightarrow> activePrincipal deps pid \<and> chanMember d c pid"
    "canManageScope deps pid (scopeId Channel c) \<longleftrightarrow> activePrincipal deps pid \<and> chanMember d c pid"
proof -
  have r: "recognizedGroup deps Channel c = None"
    by (simp add: recognizedGroup_def split: option.split)
  have p: "privacyOf deps c = Some True" using assms by (simp add: privacyOf_def iface_def)
  have m: "sharedScopeMembership deps Channel c pid = Some (activePrincipal deps pid \<and> chanMember d c pid)"
    using assms r by (simp add: sharedScopeMembership_def iface_def private_known)
  have k: "currentSharedScopeMember deps Channel c pid = (activePrincipal deps pid \<and> chanMember d c pid)"
    using assms r by (simp add: currentSharedScopeMember_def directMember_def iface_def)
  show "canReadScope deps pid (scopeId Channel c) \<longleftrightarrow> activePrincipal deps pid \<and> chanMember d c pid"
    using assms m p by (simp add: canReadScope_def memberOfSharedScope_def)
  show "canWriteScope deps pid (scopeId Channel c) \<longleftrightarrow> activePrincipal deps pid \<and> chanMember d c pid"
    "canManageScope deps pid (scopeId Channel c) \<longleftrightarrow> activePrincipal deps pid \<and> chanMember d c pid"
    using assms k p by (auto simp: canWriteScope_def canManageScope_def)
qed

end

interpretation dirs: scope_directory channelMember groupMember channelMembership groupMembership
  channelPrivacy "\<lambda>d. ds_channelMembers d \<noteq> None"
  by unfold_locales (auto dest: membership_exact simp: private_channel_membership)

section \<open>The program's own configuration\<close>

definition directory_iface :: "directory_store \<Rightarrow> member_directory" where
  "directory_iface d =
     \<lparr> md_channelMember = (\<lambda>c p. Resolved (channelMember d c p)),
       md_groupMember = (\<lambda>g p. Resolved (groupMember d g p)),
       md_channelMembership = Some (\<lambda>c p. Resolved (channelMembership d c p)),
       md_groupMembership = Some (\<lambda>g p. Resolved (groupMembership d g p)),
       md_channelPrivacy = Some (\<lambda>c. Resolved (channelPrivacy d c)),
       md_list = Some (Resolved (map (\<lambda>m. (dm_principalId m, Some (dm_displayName m))) (ds_members d))) \<rparr>"

definition wired_deps ::
  "managed_groups \<Rightarrow> directory_store \<Rightarrow> identity_service \<Rightarrow> (string \<Rightarrow> (string, scope_id list) promise) \<Rightarrow>
     membership_deps" where
  "wired_deps projects d ident sessions =
     \<lparr> de_managedGroups = Some projects, de_directory = Some (directory_iface d),
       de_identity = Some (\<lambda>pid. let c = classify ident pid None in (Some (p_type c), p_teamIds c)),
       de_sessions = Some sessions \<rparr>"

lemma directory_iface_eq:
  "directory_iface d = dirs.iface d\<lparr> md_list :=
     Some (Resolved (map (\<lambda>m. (dm_principalId m, Some (dm_displayName m))) (ds_members d))) \<rparr>"
  by (simp add: directory_iface_def dirs.iface_def)

lemma wired_active:
  "activePrincipal (wired_deps mg d i ss) pid \<longleftrightarrow> p_type (classify i pid None) = Internal"
  by (simp add: activePrincipal_def wired_deps_def Let_def)

lemma wired_team: "\<not> teamMember (wired_deps mg d i ss) pid ref"
  by (simp add: teamMember_def wired_deps_def Let_def classify_def)

lemma inactive_not_member:
  "\<not> activePrincipal deps pid \<Longrightarrow> \<not> memberOfSharedScope deps kind ref pid sc"
  by (simp add: memberOfSharedScope_def sharedScopeMembership_def)

text \<open>
  A guest, that is anybody deactivated by hand or by the directory sync, can write and manage
  nothing and is a current member of no scope, whatever the directory, the projects and the session
  history say; the only scope they can still read is their own personal one.
\<close>

theorem guest_isolated:
  assumes "p_type (classify ident pid None) = Guest"
  shows "\<not> canWriteScope (wired_deps mg d ident ss) pid sc \<and>
    \<not> canManageScope (wired_deps mg d ident ss) pid sc \<and>
    \<not> isCurrentSharedScopeMember (wired_deps mg d ident ss) pid sc \<and>
    \<not> managesArtifactHome (wired_deps mg d ident ss) (canManageScope (wired_deps mg d ident ss)) sc creator pid \<and>
    (canReadScope (wired_deps mg d ident ss) pid sc \<longleftrightarrow>
       pid \<noteq> '''' \<and> (\<exists>ref. sc = scopeId Personal ref \<and> samePerson (Some ref) (Some pid)))"
proof -
  let ?deps = "wired_deps mg d ident ss"
  have inact: "\<not> activePrincipal ?deps pid" using assms by (simp add: wired_active)
  have org: "fst (f pid) \<noteq> Some Internal" if "de_identity ?deps = Some f" for f
    using assms that by (auto simp: wired_deps_def Let_def)
  have "canReadScope ?deps pid sc \<longleftrightarrow>
      pid \<noteq> '''' \<and> (\<exists>ref. sc = scopeId Personal ref \<and> samePerson (Some ref) (Some pid))"
  proof (cases "parseScopeId sc")
    case (Pair k ref)
    have "k = Some Personal \<Longrightarrow> sc = scopeId Personal ref" using Pair parseScopeId_kind by simp
    then show ?thesis
      using Pair inact inactive_not_member [OF inact]
      by (auto simp: canReadScope_def wired_team dest: org split: option.split scope_kind.split)
  qed
  then show ?thesis using inact
    by (auto simp: canWriteScope_def canManageScope_def isCurrentSharedScopeMember_def
        currentSharedScopeMember_def managesArtifactHome_def split: prod.split option.split scope_kind.split)
qed

theorem guest_isolated_witness:
  "let ident = deactivate 1 ''eve'' Manual (createIdentityService []);
       d = replaceChannels [\<lparr> dc_channelId = ''c'', dc_name = ''general'', dc_isPrivate = None \<rparr>]
             (Some [(''c'', ''eve'')]) createDirectoryStore;
       mg = \<lparr> mg_recognizes = (\<lambda>_. True), mg_membership = (\<lambda>_ _. Resolved (Some True)),
              mg_members = (\<lambda>_. Resolved None) \<rparr>
   in \<not> canReadScope (wired_deps mg d ident (\<lambda>_. Resolved [''channel:c''])) ''eve'' ''channel:c''"
proof -
  let ?i = "deactivate 1 ''eve'' Manual (createIdentityService [])"
  have g: "p_type (classify ?i ''eve'' None) = Guest" by code_simp
  have "''channel:c'' \<noteq> scopeId Personal ref" for ref by (simp add: scopeId_def)
  then show ?thesis using guest_isolated [OF g] by (simp add: Let_def)
qed

text \<open>
  A private channel is closed to everybody who is not in it: once its membership has been synced,
  reading, writing and managing its scope each require being an active principal and a current member,
  and being one is enough. In particular no old session opens it.
\<close>

theorem private_channel_closed:
  assumes "ds_channelMembers d \<noteq> None" and "channelPrivacy d c = Some True" and "pid \<noteq> ''''"
  shows "let deps = wired_deps mg d ident ss; allowed = (p_type (classify ident pid None) = Internal \<and> channelMember d c pid)
    in canReadScope deps pid (scopeId Channel c) = allowed \<and>
       canWriteScope deps pid (scopeId Channel c) = allowed \<and>
       canManageScope deps pid (scopeId Channel c) = allowed"
proof -
  have "de_directory (wired_deps mg d ident ss) = Some (dirs.iface d\<lparr> md_list :=
      Some (Resolved (map (\<lambda>m. (dm_principalId m, Some (dm_displayName m))) (ds_members d))) \<rparr>)"
    by (simp add: wired_deps_def directory_iface_eq)
  from dirs.private_channel_iface [OF assms(1,2) this assms(3)] show ?thesis
    by (simp add: Let_def wired_active)
qed

theorem private_channel_closed_witness:
  "let d = replaceChannels [\<lparr> dc_channelId = ''c'', dc_name = ''board'', dc_isPrivate = Some True \<rparr>]
             (Some [(''c'', ''ann'')]) createDirectoryStore;
       mg = \<lparr> mg_recognizes = (\<lambda>_. False), mg_membership = (\<lambda>_ _. Resolved None),
              mg_members = (\<lambda>_. Resolved None) \<rparr>
   in \<not> canReadScope (wired_deps mg d (createIdentityService []) (\<lambda>_. Resolved [''channel:c''])) ''bob''
        (scopeId Channel ''c'')"
proof -
  let ?d = "replaceChannels [\<lparr> dc_channelId = ''c'', dc_name = ''board'', dc_isPrivate = Some True \<rparr>]
             (Some [(''c'', ''ann'')]) createDirectoryStore"
  have "ds_channelMembers ?d \<noteq> None" by (simp add: replaceChannels_def Let_def)
  moreover have "channelPrivacy ?d ''c'' = Some True" "\<not> channelMember ?d ''c'' ''bob''" by code_simp+
  ultimately show ?thesis
    using private_channel_closed [of ?d "''c''" "''bob''"] by (simp add: Let_def)
qed

text \<open>
  The rights are nested: whoever may manage a scope may write it, with any collaborators; and in the
  program's configuration whoever may write a scope may read it, provided the directory is consistent:
  it knows the channels it has members of, and its group memberships are synced as a whole.
\<close>

theorem scope_rights_nested:
  assumes "\<And>c p. channelMember d c p \<Longrightarrow> find_channel d c \<noteq> None"
    and "ds_groupMembers d \<noteq> None \<Longrightarrow> ds_groupsSynced d"
  shows "(canManageScope deps pid sc \<longrightarrow> canWriteScope deps pid sc) \<and>
    (canWriteScope (wired_deps mg d ident ss) pid sc \<longrightarrow> canReadScope (wired_deps mg d ident ss) pid sc)"
proof
  show "canManageScope deps pid sc \<longrightarrow> canWriteScope deps pid sc"
    by (auto simp: canManageScope_def canWriteScope_def split: prod.splits option.splits scope_kind.splits if_splits)
  let ?deps = "wired_deps mg d ident ss"
  have chan: "channelMembership d c pid = Some True" if "channelMember d c pid" for c
    using that assms(1) [OF that]
    by (auto simp: channelMember_def channelMembership_def in_rows_def Let_def split: option.splits)
  have grp: "groupMembership d g pid = Some True" if "groupMember d g pid" for g
    using that assms(2) by (auto simp: groupMember_def groupMembership_def in_rows_def split: option.splits)
  have mem: "memberOfSharedScope ?deps kind ref pid sc'"
    if "currentSharedScopeMember ?deps kind ref pid" "kind = Channel \<or> kind = Group" for kind ref sc'
    using that chan grp
    by (auto simp: currentSharedScopeMember_def memberOfSharedScope_def sharedScopeMembership_def directMember_def
        wired_deps_def directory_iface_def split: if_splits option.splits)
  have org: "fst (f pid) = Some Internal" if "activePrincipal ?deps pid" "de_identity ?deps = Some f" for f
    using that by (auto simp: activePrincipal_def wired_deps_def Let_def)
  have ident: "de_identity ?deps \<noteq> None" by (simp add: wired_deps_def)
  show "canWriteScope ?deps pid sc \<longrightarrow> canReadScope ?deps pid sc"
  proof (cases "parseScopeId sc")
    case (Pair k ref)
    then show ?thesis using mem org ident
      by (auto simp: canWriteScope_def canReadScope_def wired_team split: option.splits scope_kind.splits)
  qed
qed

theorem scope_rights_nested_witness:
  "let d = replaceGroups [(''g'', ''ann'')] createDirectoryStore;
       mg = \<lparr> mg_recognizes = (\<lambda>_. False), mg_membership = (\<lambda>_ _. Resolved None),
              mg_members = (\<lambda>_. Resolved None) \<rparr>;
       deps = wired_deps mg d (createIdentityService []) (\<lambda>_. Resolved [])
   in canWriteScope deps ''ann'' ''group:g'' \<and> canReadScope deps ''ann'' ''group:g''"
proof -
  let ?d = "replaceGroups [(''g'', ''ann'')] createDirectoryStore"
  let ?mg = "\<lparr> mg_recognizes = (\<lambda>_. False), mg_membership = (\<lambda>_ _. Resolved None),
              mg_members = (\<lambda>_. Resolved None) \<rparr>"
  let ?deps = "wired_deps ?mg ?d (createIdentityService []) (\<lambda>_. Resolved [])"
  have 1: "find_channel ?d c \<noteq> None" if "channelMember ?d c p" for c p
    using that by (simp add: channelMember_def replaceGroups_def createDirectoryStore_def in_rows_def)
  have 2: "ds_groupsSynced ?d" by (simp add: replaceGroups_def)
  have "canWriteScope ?deps ''ann'' ''group:g''" by code_simp
  then show ?thesis
    using scope_rights_nested [OF 1 2, where mg = ?mg and ident = "createIdentityService []"
        and ss = "\<lambda>_. Resolved []" and pid = "''ann''" and sc = "''group:g''"] by (simp add: Let_def)
qed

text \<open>
  The artifact test of the deployment service is built without the identity service
  (\<open>createManagesArtifactHome({ managedGroups: projects, directory }, canManageScope)\<close> in
  \<open>src/wiring.ts\<close>): there a deactivated person still manages whatever they created in a personal scope,
  although the same test with the identity service refuses them everything.
\<close>

theorem artifact_home_ignores_deactivation:
  assumes "p_type (classify ident pid None) = Guest" and "samePerson (Some creator) (Some pid)" and "pid \<noteq> ''''"
  shows "managesArtifactHome
      \<lparr> de_managedGroups = Some mg, de_directory = Some (directory_iface d), de_identity = None, de_sessions = None \<rparr>
      (canManageScope (wired_deps mg d ident ss)) (scopeId Personal ref) creator pid \<and>
    \<not> managesArtifactHome (wired_deps mg d ident ss)
      (canManageScope (wired_deps mg d ident ss)) (scopeId Personal ref) creator pid"
proof -
  have "\<not> activePrincipal (wired_deps mg d ident ss) pid" using assms(1) by (simp add: wired_active)
  then show ?thesis using assms(2,3) by (auto simp: managesArtifactHome_def activePrincipal_def)
qed

theorem artifact_home_ignores_deactivation_witness:
  "let mg = \<lparr> mg_recognizes = (\<lambda>_. False), mg_membership = (\<lambda>_ _. Resolved None),
              mg_members = (\<lambda>_. Resolved None) \<rparr>
   in managesArtifactHome
        \<lparr> de_managedGroups = Some mg, de_directory = Some (directory_iface createDirectoryStore),
          de_identity = None, de_sessions = None \<rparr>
        (canManageScope (wired_deps mg createDirectoryStore
           (deactivate 1 ''eve'' Manual (createIdentityService [])) (\<lambda>_. Resolved [])))
        (scopeId Personal ''eve'') ''eve'' ''eve''"
proof -
  let ?i = "deactivate 1 ''eve'' Manual (createIdentityService [])"
  have "p_type (classify ?i ''eve'' None) = Guest" "samePerson (Some ''eve'') (Some ''eve'')" by code_simp+
  from artifact_home_ignores_deactivation [OF this] show ?thesis by (simp add: Let_def)
qed

end
