(* ===== verification/Shell.thy ===== *)
theory Shell
  imports Prelude
begin

text \<open>
  The reader of command lines of the command policy (\<open>src/policy/command-policy.ts\<close>): unquoting,
  here-documents that are only written to a file, and the words of a command line. What the words pass
  on to other shells is in \<open>Shell_Commands\<close>.

  An index into the input is modelled by the text that is left from there. A result is \<open>None\<close> when
  \<open>String.fromCodePoint\<close> is applied to a number that is no character of the model: above \<open>0x10FFFF\<close> it
  raises a \<open>RangeError\<close>, and characters from 256 up are outside the alphabet.
\<close>

section \<open>Regular expressions\<close>

text \<open>
  The three expressions below that need backtracking are written in this syntax. \<open>rx_run\<close> lists the
  ways an expression can match at a position, in the order a backtracking engine tries them; a position
  is the character before it, the text from it and the captures so far.
\<close>

datatype rx =
    REmpty
  | RChr "char \<Rightarrow> bool"
  | RSeq rx rx
  | RAlt rx rx
  | RStar "char \<Rightarrow> bool"
  | RLazy "char \<Rightarrow> bool"
  | RLineStart
  | RLineEnd
  | RStart
  | REnd
  | RCap nat rx
  | RRef nat

type_synonym rx_pos = "char option \<times> string \<times> (nat \<times> string) list"

definition rx_advance :: "nat \<Rightarrow> rx_pos \<Rightarrow> rx_pos" where
  "rx_advance n pos =
     (case pos of (pv, s, caps) \<Rightarrow> (if n = 0 then pv else Some (s ! (n - 1)), drop n s, caps))"

primrec rx_run :: "rx \<Rightarrow> rx_pos \<Rightarrow> rx_pos list" where
  "rx_run REmpty pos = [pos]"
| "rx_run (RChr p) pos = (case fst (snd pos) of [] \<Rightarrow> [] | c # _ \<Rightarrow> if p c then [rx_advance 1 pos] else [])"
| "rx_run (RSeq a b) pos = concat (map (rx_run b) (rx_run a pos))"
| "rx_run (RAlt a b) pos = rx_run a pos @ rx_run b pos"
| "rx_run (RStar p) pos = map (\<lambda>n. rx_advance n pos) (rev [0..<Suc (length (takeWhile p (fst (snd pos))))])"
| "rx_run (RLazy p) pos = map (\<lambda>n. rx_advance n pos) [0..<Suc (length (takeWhile p (fst (snd pos))))]"
| "rx_run RLineStart pos = (case fst pos of None \<Rightarrow> [pos] | Some c \<Rightarrow> if is_line_end c then [pos] else [])"
| "rx_run RLineEnd pos = (case fst (snd pos) of [] \<Rightarrow> [pos] | c # _ \<Rightarrow> if is_line_end c then [pos] else [])"
| "rx_run RStart pos = (if fst pos = None then [pos] else [])"
| "rx_run REnd pos = (if fst (snd pos) = [] then [pos] else [])"
| "rx_run (RCap i r) pos =
     map (\<lambda>(pv, s, caps). (pv, s, jmap_set i (take (length (fst (snd pos)) - length s) (fst (snd pos))) caps))
       (rx_run r pos)"
| "rx_run (RRef i) pos =
     (let w = (case map_of (snd (snd pos)) i of None \<Rightarrow> [] | Some w \<Rightarrow> w)
      in if js_startsWith (fst (snd pos)) w then [rx_advance (length w) pos] else [])"

text \<open>
  The first match from a position on: the text skipped, the text matched, the captures, and the
  character before and the text of the rest.
\<close>

record rx_match =
  xm_skipped :: string
  xm_text :: string
  xm_caps :: "(nat \<times> string) list"
  xm_prev :: "char option"
  xm_rest :: string

fun rx_exec :: "rx \<Rightarrow> char option \<Rightarrow> string \<Rightarrow> rx_match option" where
  "rx_exec r pv s =
     (case rx_run r (pv, s, []) of
        (pv', s', caps) # _ \<Rightarrow>
          Some \<lparr> xm_skipped = [], xm_text = take (length s - length s') s, xm_caps = caps,
                 xm_prev = pv', xm_rest = s' \<rparr>
      | [] \<Rightarrow>
          (case s of
             [] \<Rightarrow> None
           | c # cs \<Rightarrow> map_option (\<lambda>m. m\<lparr> xm_skipped := c # xm_skipped m \<rparr>) (rx_exec r (Some c) cs)))"

definition rx_test :: "rx \<Rightarrow> string \<Rightarrow> bool" where
  "rx_test r s \<longleftrightarrow> rx_exec r None s \<noteq> None"

text \<open>
  The matches of a global expression, with the text between them; the fuel is the length of the text,
  since every match of the expressions used here is at least one character long.
\<close>

fun rx_exec_all :: "nat \<Rightarrow> rx \<Rightarrow> char option \<Rightarrow> string \<Rightarrow> rx_match list \<times> string" where
  "rx_exec_all 0 r pv s = ([], s)"
| "rx_exec_all (Suc n) r pv s =
     (case rx_exec r pv s of
        None \<Rightarrow> ([], s)
      | Some m \<Rightarrow> (case rx_exec_all n r (xm_prev m) (xm_rest m) of (ms, rest) \<Rightarrow> (m # ms, rest)))"

definition rx_matchAll :: "rx \<Rightarrow> string \<Rightarrow> rx_match list" where
  "rx_matchAll r s = fst (rx_exec_all (length s) r None s)"

definition rx_replaceAll :: "rx \<Rightarrow> (rx_match \<Rightarrow> string) \<Rightarrow> string \<Rightarrow> string" where
  "rx_replaceAll r f s =
     (case rx_exec_all (length s) r None s of
        (ms, rest) \<Rightarrow> concat (map (\<lambda>m. xm_skipped m @ f m) ms) @ rest)"

definition xm_cap :: "nat \<Rightarrow> rx_match \<Rightarrow> string" where
  "xm_cap i m = (case map_of (xm_caps m) i of None \<Rightarrow> [] | Some w \<Rightarrow> w)"

definition rx_opt :: "rx \<Rightarrow> rx" where
  "rx_opt r = RAlt r REmpty"

definition rx_lit :: "string \<Rightarrow> rx" where
  "rx_lit w = foldr (\<lambda>c. RSeq (RChr (\<lambda>d. d = c))) w REmpty"

definition rx_seq :: "rx list \<Rightarrow> rx" where
  "rx_seq rs = foldr RSeq rs REmpty"

text \<open>The simpler expressions are written as functions that say how long a match at a position is.\<close>

function replace_all :: "(string \<Rightarrow> (string option \<times> nat) option) \<Rightarrow> string \<Rightarrow> string option" where
  "replace_all m [] = Some []"
| "replace_all m (c # cs) =
     (case m (c # cs) of
        None \<Rightarrow> map_option (Cons c) (replace_all m cs)
      | Some (None, n) \<Rightarrow> None
      | Some (Some w, n) \<Rightarrow> map_option ((@) w) (replace_all m (drop (n - 1) cs)))"
  by pat_completeness auto
termination by (relation "measure (\<lambda>(m, s). length s)") auto

function find_all :: "(string \<Rightarrow> nat option) \<Rightarrow> string \<Rightarrow> string list" where
  "find_all m [] = []"
| "find_all m (c # cs) =
     (case m (c # cs) of
        None \<Rightarrow> find_all m cs
      | Some n \<Rightarrow> take n (c # cs) # find_all m (drop (n - 1) cs))"
  by pat_completeness auto
termination by (relation "measure (\<lambda>(m, s). length s)") auto

declare rx_exec.simps [simp del]

section \<open>Unquoting\<close>

abbreviation bsl :: char where "bsl \<equiv> CHR 0x5C"
abbreviation squote :: char where "squote \<equiv> CHR 0x27"
abbreviation dquote :: char where "dquote \<equiv> CHR 0x22"
abbreviation backquote :: char where "backquote \<equiv> CHR 0x60"
abbreviation newline :: char where "newline \<equiv> CHR 0x0A"

definition fromCodePoint :: "nat \<Rightarrow> string option" where
  "fromCodePoint n = (if n < 256 then Some [char_of n] else None)"

definition hex_value :: "char \<Rightarrow> nat option" where
  "hex_value c =
     (let n = of_char c
      in if 48 \<le> n \<and> n \<le> 57 then Some (n - 48)
         else if 65 \<le> n \<and> n \<le> 70 then Some (n - 55)
         else if 97 \<le> n \<and> n \<le> 102 then Some (n - 87)
         else None)"

definition octal_digit :: "char \<Rightarrow> bool" where
  "octal_digit c \<longleftrightarrow> (let n = (of_char c :: nat) in 48 \<le> n \<and> n \<le> 55)"

text \<open>\<open>Number.parseInt(digits, base)\<close> on digits of that base.\<close>

definition digits_value :: "nat \<Rightarrow> string \<Rightarrow> nat" where
  "digits_value base ds = foldl (\<lambda>a d. base * a + (case hex_value d of Some v \<Rightarrow> v | None \<Rightarrow> 0)) 0 ds"

text \<open>A backslash, a letter and between \<open>lo\<close> and \<open>hi\<close> hexadecimal digits.\<close>

definition hex_escape :: "char \<Rightarrow> nat \<Rightarrow> nat \<Rightarrow> string \<Rightarrow> (string option \<times> nat) option" where
  "hex_escape letter lo hi s =
     (case s of
        a # b # rest \<Rightarrow>
          (let ds = takeWhile (\<lambda>c. hex_value c \<noteq> None) (take hi rest)
           in if a = bsl \<and> b = letter \<and> lo \<le> length ds
              then Some (fromCodePoint (digits_value 16 ds), 2 + length ds) else None)
      | _ \<Rightarrow> None)"

definition octal_escape :: "string \<Rightarrow> (string option \<times> nat) option" where
  "octal_escape s =
     (case s of
        a # rest \<Rightarrow>
          (let ds = takeWhile octal_digit (take 3 rest)
           in if a = bsl \<and> ds \<noteq> [] then Some (fromCodePoint (digits_value 8 ds), 1 + length ds) else None)
      | _ \<Rightarrow> None)"

definition simple_escape :: "string \<Rightarrow> (string option \<times> nat) option" where
  "simple_escape s =
     (case s of
        a # b # _ \<Rightarrow>
          if a = bsl \<and> b \<in> {bsl, squote, dquote} \<union> set ''abefnrtv''
          then Some (Some [case map_of [(CHR ''a'', CHR 0x07), (CHR ''b'', CHR 0x08), (CHR ''e'', CHR 0x1B),
                     (CHR ''f'', CHR 0x0C), (CHR ''n'', CHR 0x0A), (CHR ''r'', CHR 0x0D), (CHR ''t'', CHR 0x09),
                     (CHR ''v'', CHR 0x0B)] b of Some c \<Rightarrow> c | None \<Rightarrow> b], 2)
          else None
      | _ \<Rightarrow> None)"

definition decodeAnsiC :: "string \<Rightarrow> string option" where
  "decodeAnsiC s =
     Option.bind (replace_all (hex_escape CHR ''x'' 1 2) s) (\<lambda>s.
     Option.bind (replace_all (hex_escape CHR ''u'' 4 4) s) (\<lambda>s.
     Option.bind (replace_all (hex_escape CHR ''U'' 8 8) s) (\<lambda>s.
     Option.bind (replace_all octal_escape s) (replace_all simple_escape))))"

definition bare_char :: "char \<Rightarrow> bool" where
  "bare_char c \<longleftrightarrow> is_word_char c \<or> c \<in> set ''@%+=:,./-''"

definition unquoteBareWord :: "string \<Rightarrow> string option" where
  "unquoteBareWord inner = (if list_all bare_char inner then Some inner else None)"

text \<open>
  The length of \<open>(?:[^q\\]|\\.)*q\<close> after the opening quote: the closing quote included, a backslash
  taking the character after it along unless a line ends there.
\<close>

fun quoted_length :: "char \<Rightarrow> string \<Rightarrow> nat option" where
  "quoted_length q [] = None"
| "quoted_length q (c # cs) =
     (if c = bsl
      then (case cs of
              [] \<Rightarrow> None
            | d # ds \<Rightarrow> if is_line_end d then None else map_option (\<lambda>n. n + 2) (quoted_length q ds))
      else if c = q then Some 1
      else map_option Suc (quoted_length q cs))"

text \<open>\<open>m.match(/\$\([^)]*\)|`[^`]*`/g)\<close>: the command substitutions inside double quotes.\<close>

definition substitution_length :: "string \<Rightarrow> nat option" where
  "substitution_length s =
     (if js_startsWith s ''$('' \<and> CHR '')'' \<in> set (drop 2 s)
      then Some (3 + length (takeWhile (\<lambda>c. c \<noteq> CHR '')'') (drop 2 s)))
      else if js_startsWith s [backquote] \<and> backquote \<in> set (drop 1 s)
      then Some (2 + length (takeWhile (\<lambda>c. c \<noteq> backquote) (drop 1 s)))
      else None)"

definition unquote_double :: "string \<Rightarrow> (string option \<times> nat) option" where
  "unquote_double s =
     (case s of
        [] \<Rightarrow> None
      | c # cs \<Rightarrow>
          if c = dquote
          then map_option
                 (\<lambda>n. (let m = c # take n cs; subs = find_all substitution_length m
                       in Some (if subs \<noteq> [] then js_join '' '' subs
                                else case unquoteBareWord (take (n - 1) cs) of
                                       Some w \<Rightarrow> w | None \<Rightarrow> [dquote, dquote]), n + 1))
                 (quoted_length dquote cs)
          else None)"

definition unquote_ansi :: "string \<Rightarrow> (string option \<times> nat) option" where
  "unquote_ansi s =
     (case s of
        c # d # cs \<Rightarrow>
          if c = CHR ''$'' \<and> d = squote
          then map_option
                 (\<lambda>n. (map_option (\<lambda>w. case unquoteBareWord w of Some w' \<Rightarrow> w' | None \<Rightarrow> [squote, squote])
                         (decodeAnsiC (take (n - 1) cs)), n + 2))
                 (quoted_length squote cs)
          else None
      | _ \<Rightarrow> None)"

definition unquote_single :: "string \<Rightarrow> (string option \<times> nat) option" where
  "unquote_single s =
     (case s of
        [] \<Rightarrow> None
      | c # cs \<Rightarrow>
          if c = squote \<and> squote \<in> set cs
          then (let inner = takeWhile (\<lambda>d. d \<noteq> squote) cs
                in Some (Some (case unquoteBareWord inner of Some w \<Rightarrow> w | None \<Rightarrow> [squote, squote]),
                         length inner + 2))
          else None)"

definition unquote_backslash :: "string \<Rightarrow> (string option \<times> nat) option" where
  "unquote_backslash s =
     (case s of
        c # d # _ \<Rightarrow> if c = bsl \<and> bare_char d then Some (Some [d], 2) else None
      | _ \<Rightarrow> None)"

definition unquoted :: "string \<Rightarrow> string option" where
  "unquoted s =
     Option.bind (replace_all unquote_double s) (\<lambda>s.
     Option.bind (replace_all unquote_ansi s) (\<lambda>s.
     Option.bind (replace_all unquote_single s) (replace_all unquote_backslash)))"

section \<open>Here-documents\<close>

text \<open>\<open>/^([^\n]*)<<-?\s*(["']?)([A-Za-z_]\w*)\2([^\n]*)\n([\s\S]*?)^\s*\3\s*$/gm\<close>\<close>

definition heredoc_rx :: rx where
  "heredoc_rx = rx_seq
     [RLineStart, RCap 1 (RStar (\<lambda>c. c \<noteq> newline)), rx_lit ''<<'', rx_opt (RChr (\<lambda>c. c = CHR ''-'')),
      RStar js_is_space, RCap 2 (rx_opt (RChr (\<lambda>c. c = dquote \<or> c = squote))),
      RCap 3 (RSeq (RChr (\<lambda>c. is_alpha c \<or> c = CHR ''_'')) (RStar is_word_char)), RRef 2,
      RCap 4 (RStar (\<lambda>c. c \<noteq> newline)), RChr (\<lambda>c. c = newline), RCap 5 (RLazy (\<lambda>c. True)),
      RLineStart, RStar js_is_space, RRef 3, RStar js_is_space, RLineEnd]"

text \<open>\<open>/(?:^|[|;&]\s*)(?:\S*\/)?(?:ba|da|k|z)?sh((?:\s+[^|;&]*)?)/g\<close>\<close>

definition shell_rx :: rx where
  "shell_rx = rx_seq
     [RAlt RStart (RSeq (RChr (\<lambda>c. c \<in> set ''|;&'')) (RStar js_is_space)),
      rx_opt (RSeq (RStar (\<lambda>c. \<not> js_is_space c)) (rx_lit ''/'')),
      rx_opt (RAlt (rx_lit ''ba'') (RAlt (rx_lit ''da'') (RAlt (rx_lit ''k'') (rx_lit ''z'')))),
      rx_lit ''sh'',
      RCap 1 (rx_opt (rx_seq [RChr js_is_space, RStar js_is_space, RStar (\<lambda>c. c \<notin> set ''|;&'')]))]"

text \<open>\<open>/(?:^|\s)-[^-\s]*c(?:\s|$)/\<close>\<close>

definition command_flag_rx :: rx where
  "command_flag_rx = rx_seq
     [RAlt RStart (RChr js_is_space), rx_lit ''-'', RStar (\<lambda>c. c \<noteq> CHR ''-'' \<and> \<not> js_is_space c), rx_lit ''c'',
      RAlt (RChr js_is_space) REnd]"

definition heredocRunsShell :: "string \<Rightarrow> bool" where
  "heredocRunsShell commandLine =
     list_ex (\<lambda>m. \<not> rx_test command_flag_rx (xm_cap 1 m)) (rx_matchAll shell_rx commandLine)"

definition stripWrittenHeredocs :: "string \<Rightarrow> string" where
  "stripWrittenHeredocs command =
     rx_replaceAll heredoc_rx
       (\<lambda>m. let line = xm_cap 1 m @ xm_cap 4 m
             in if CHR ''>'' \<in> set line \<and> \<not> heredocRunsShell line then [] else xm_text m)
       command"

section \<open>Commands and words\<close>

record shell_scan =
  sh_commands :: "string list list"
  sh_nested :: "string list"

text \<open>
  The body of a command substitution and the text after it, from the text after \<open>$(\<close>: the nesting depth,
  the quote that is open and the body so far.
\<close>

fun substitution_from :: "nat \<Rightarrow> char option \<Rightarrow> string \<Rightarrow> string \<Rightarrow> (string \<times> string) option" where
  "substitution_from depth quote body [] = None"
| "substitution_from depth quote body (c # cs) =
     (if c = bsl
      then (case cs of [] \<Rightarrow> None | d # ds \<Rightarrow> substitution_from depth quote (body @ [c, d]) ds)
      else
        case quote of
          Some q \<Rightarrow> substitution_from depth (if c = q then None else quote) (body @ [c]) cs
        | None \<Rightarrow>
            if c = squote \<or> c = dquote then substitution_from depth (Some c) (body @ [c]) cs
            else if c = CHR ''$'' \<and> js_startsWith cs ''(''
            then (case cs of [] \<Rightarrow> None | d # ds \<Rightarrow> substitution_from (depth + 1) None (body @ [c, d]) ds)
            else if c = CHR '')''
            then (if depth = 1 then Some (body, cs) else substitution_from (depth - 1) None (body @ [c]) cs)
            else substitution_from depth None (body @ [c]) cs)"

definition commandSubstitution :: "string \<Rightarrow> (string \<times> string) option" where
  "commandSubstitution s = substitution_from 1 None [] (drop 2 s)"

lemma substitution_from_shorter:
  "substitution_from depth quote body s = Some (b, rest) \<Longrightarrow> length b + length rest < length body + length s"
proof (induction depth quote body s rule: substitution_from.induct)
  case (2 depth quote body c cs)
  consider (esc) "c = bsl" | (quoted) q where "c \<noteq> bsl" "quote = Some q"
    | (open_quote) "c \<noteq> bsl" "quote = None" "c = squote \<or> c = dquote"
    | (nest) "c \<noteq> bsl" "quote = None" "\<not> (c = squote \<or> c = dquote)" "c = CHR ''$'' \<and> js_startsWith cs ''(''"
    | (other) "c \<noteq> bsl" "quote = None" "\<not> (c = squote \<or> c = dquote)" "\<not> (c = CHR ''$'' \<and> js_startsWith cs ''('')"
    by fastforce
  then show ?case
  proof cases
    case esc
    with 2 show ?thesis by (cases cs) force+
  next
    case quoted
    with 2 show ?thesis by simp (metis add_Suc_right)
  next
    case open_quote
    with 2 show ?thesis by simp
  next
    case nest
    then have d: "c = CHR ''$''" "js_startsWith cs ''(''" by auto
    from nest d 2 show ?thesis by (cases cs) simp_all
  next
    case other
    with 2 show ?thesis by (simp split: if_splits)
  qed
qed simp

text \<open>\<open>indexOf(q)\<close>: the text before the next \<open>q\<close> and the text after it.\<close>

fun up_to :: "char \<Rightarrow> string \<Rightarrow> (string \<times> string) option" where
  "up_to q [] = None"
| "up_to q (c # cs) = (if c = q then Some ([], cs) else map_option (\<lambda>(w, rest). (c # w, rest)) (up_to q cs))"

lemma up_to_Some: "up_to q s = Some (w, rest) \<longleftrightarrow> s = w @ q # rest \<and> q \<notin> set w"
proof (induction s arbitrary: w)
  case (Cons c cs)
  then show ?case by (cases w) auto
qed simp

lemma up_to_shorter: "up_to q s = Some (w, rest) \<Longrightarrow> length w + length rest < length s"
  by (simp add: up_to_Some)

lemma commandSubstitution_shorter:
  "commandSubstitution s = Some (b, rest) \<Longrightarrow> length b + length rest < length s - 2"
  unfolding commandSubstitution_def by (drule substitution_from_shorter) simp

text \<open>The inside of double quotes: the word, the nested command lines and the text from the closing quote.\<close>

function scan_double :: "string \<Rightarrow> string list \<Rightarrow> string \<Rightarrow> string \<times> string list \<times> string" where
  "scan_double word nested [] = (word, nested, [])"
| "scan_double word nested (c # cs) =
     (if c = dquote then (word, nested, c # cs)
      else if c = bsl \<and> cs \<noteq> [] then scan_double (word @ [hd cs]) nested (tl cs)
      else if c = CHR ''$'' \<and> js_startsWith cs ''(''
      then (case commandSubstitution (c # cs) of
              None \<Rightarrow> scan_double (word @ [c]) nested cs
            | Some (body, rest) \<Rightarrow> scan_double word (nested @ [body]) rest)
      else if c = backquote
      then (case up_to backquote cs of
              None \<Rightarrow> scan_double word nested cs
            | Some (body, rest) \<Rightarrow> scan_double word (nested @ [body]) rest)
      else scan_double (word @ [c]) nested cs)"
  by pat_completeness auto
termination
  by (relation "measure (\<lambda>(word, nested, s). length s)")
     (auto dest: commandSubstitution_shorter up_to_shorter)

definition is_operator :: "char \<Rightarrow> bool" where
  "is_operator c \<longleftrightarrow> c \<in> set '';|&(){}''"

definition after_redirect :: "string \<Rightarrow> bool" where
  "after_redirect word \<longleftrightarrow> word \<noteq> [] \<and> last word \<in> set ''<>''"

lemma scan_double_shorter:
  "scan_double word nested s = (w, n, rest) \<Longrightarrow>
     length rest \<le> length s \<and> length w + length rest \<le> length word + length s"
proof (induction word nested s arbitrary: w n rest rule: scan_double.induct)
  case (2 word nested c cs)
  show ?case
  proof (cases "c = dquote \<or> c = bsl \<and> cs \<noteq> []")
    case True
    with 2 show ?thesis by (cases cs) (auto split: if_splits)
  next
    case False
    with 2 show ?thesis
      by (fastforce dest!: commandSubstitution_shorter up_to_shorter split: if_splits option.splits prod.splits)
  qed
qed simp

text \<open>One word: the word, whether it has begun, the nested command lines and the text after it.\<close>

function scan_word ::
  "string \<Rightarrow> bool \<Rightarrow> string list \<Rightarrow> string \<Rightarrow> (string \<times> bool \<times> string list \<times> string) option" where
  "scan_word word started nested [] = Some (word, started, nested, [])"
| "scan_word word started nested (c # cs) =
     (if js_is_space c \<or> is_operator c \<and> \<not> (c = CHR ''&'' \<and> after_redirect word)
      then Some (word, started, nested, c # cs)
      else if c = bsl
      then (case cs of
              [] \<Rightarrow> scan_word word started nested []
            | d # ds \<Rightarrow>
                if d = newline then scan_word word started nested ds
                else scan_word (word @ [d]) True nested ds)
      else if c = squote
      then (case up_to squote cs of
              None \<Rightarrow> scan_word (word @ cs) True nested []
            | Some (w, rest) \<Rightarrow> scan_word (word @ w) True nested rest)
      else if c = CHR ''$'' \<and> js_startsWith cs [squote]
      then (case up_to squote (tl cs) of
              None \<Rightarrow> scan_word (word @ tl cs) True nested []
            | Some (w, rest) \<Rightarrow>
                (case decodeAnsiC w of
                   None \<Rightarrow> None
                 | Some w' \<Rightarrow> scan_word (word @ w') True nested rest))
      else if c = dquote
      then (case scan_double word nested cs of
              (w, n, rest) \<Rightarrow> scan_word w True n (if js_startsWith rest [dquote] then tl rest else rest))
      else if c = CHR ''$'' \<and> js_startsWith cs ''(''
      then (case commandSubstitution (c # cs) of
              None \<Rightarrow> scan_word (word @ [c]) True nested cs
            | Some (body, rest) \<Rightarrow> scan_word word True (nested @ [body]) rest)
      else if c = backquote
      then (case up_to backquote cs of
              None \<Rightarrow> scan_word word True nested cs
            | Some (body, rest) \<Rightarrow> scan_word word True (nested @ [body]) rest)
      else scan_word (word @ [c]) True nested cs)"
  by pat_completeness auto
termination
  by (relation "measure (\<lambda>(word, started, nested, s). length s)")
     (auto dest!: commandSubstitution_shorter up_to_shorter scan_double_shorter [OF sym] simp: js_startsWith_def
       split: if_splits)

definition shrinking :: "(string \<Rightarrow> (string option \<times> nat) option) \<Rightarrow> bool" where
  "shrinking m \<longleftrightarrow> (\<forall>s w n. m s = Some (Some w, n) \<longrightarrow> length w \<le> n \<and> 0 < n \<and> n \<le> length s)"

lemma replace_all_shorter:
  "shrinking m \<Longrightarrow> replace_all m s = Some t \<Longrightarrow> length t \<le> length s"
proof (induction m s arbitrary: t rule: replace_all.induct)
  case (2 m c cs)
  show ?case
  proof (cases "m (c # cs)")
    case None
    with 2 show ?thesis by auto
  next
    case (Some p)
    then obtain w n t' where p: "p = (Some w, n)" and t': "replace_all m (drop (n - 1) cs) = Some t'" "t = w @ t'"
      using 2(4) by (cases p) (auto split: option.splits)
    have "length t' \<le> length (drop (n - 1) cs)" using 2(2) [OF Some p [symmetric] refl 2(3) t'(1)] by simp
    moreover have "length w \<le> n \<and> 0 < n \<and> n \<le> length (c # cs)"
      using 2(3) Some p unfolding shrinking_def by blast
    ultimately show ?thesis using t'(2) by auto
  qed
qed simp

lemma fromCodePoint_length: "fromCodePoint n = Some w \<Longrightarrow> length w = 1"
  by (auto simp: fromCodePoint_def split: if_splits)

lemma shrinking_escapes: "shrinking (hex_escape l a b)" "shrinking octal_escape" "shrinking simple_escape"
proof -
  have t: "length (takeWhile P (take k s)) \<le> length s" for P k and s :: string
    by (metis length_take length_takeWhile_le min.cobounded1 order_trans)
  show "shrinking (hex_escape l a b)" "shrinking octal_escape"
    by (auto simp: shrinking_def hex_escape_def octal_escape_def Let_def less_Suc_eq_le t
      dest!: fromCodePoint_length split: list.splits if_splits)
  show "shrinking simple_escape"
    by (auto simp: shrinking_def simple_escape_def split: list.splits if_splits)
qed

lemma decodeAnsiC_shorter: "decodeAnsiC s = Some t \<Longrightarrow> length t \<le> length s"
  unfolding decodeAnsiC_def
  by (auto simp: bind_eq_Some_conv dest!: shrinking_escapes [THEN replace_all_shorter])

text \<open>Where a word may end.\<close>

definition at_separator :: "string \<Rightarrow> bool" where
  "at_separator s \<longleftrightarrow> s = [] \<or> js_is_space (hd s) \<or> is_operator (hd s)"

declare scan_word.simps [simp del]

lemma scan_word_stop:
  "js_is_space c \<or> is_operator c \<and> \<not> (c = CHR ''&'' \<and> after_redirect word) \<Longrightarrow>
   scan_word word started nested (c # cs) = Some (word, started, nested, c # cs)"
  by (subst scan_word.simps) simp

text \<open>Every other step goes on from less text, with a word that has grown by no more than what was read.\<close>

definition goes_on :: "string \<Rightarrow> string \<Rightarrow> (string \<times> bool \<times> string list \<times> string) option \<Rightarrow> bool" where
  "goes_on word s r \<longleftrightarrow>
     r = None \<or> (\<exists>w started n s'. r = scan_word w started n s' \<and> length s' < length s \<and>
                    length w + length s' \<le> length word + length s)"

lemma goes_onI:
  "length s' < length s \<Longrightarrow> length w + length s' \<le> length word + length s \<Longrightarrow>
   goes_on word s (scan_word w started n s')"
  unfolding goes_on_def by blast

lemma goes_on_None [simp]: "goes_on word s None"
  by (simp add: goes_on_def)

lemma scan_word_goes_on:
  assumes "\<not> (js_is_space c \<or> is_operator c \<and> \<not> (c = CHR ''&'' \<and> after_redirect word))"
  shows "goes_on word (c # cs) (scan_word word started nested (c # cs))"
proof -
  have quotes: "goes_on word (c # cs) (case up_to squote cs of
              None \<Rightarrow> scan_word (word @ cs) True nested []
            | Some (w, rest) \<Rightarrow> scan_word (word @ w) True nested rest)"
    by (auto intro!: goes_onI dest!: up_to_shorter split: option.splits)
  have ansi: "goes_on word (c # cs) (case up_to squote (tl cs) of
              None \<Rightarrow> scan_word (word @ tl cs) True nested []
            | Some (w, rest) \<Rightarrow>
                (case decodeAnsiC w of
                   None \<Rightarrow> None
                 | Some w' \<Rightarrow> scan_word (word @ w') True nested rest))"
    by (auto intro!: goes_onI dest!: up_to_shorter decodeAnsiC_shorter split: option.splits)
  have double: "goes_on word (c # cs) (case scan_double word nested cs of
              (w, n, rest) \<Rightarrow> scan_word w True n (if js_startsWith rest [dquote] then tl rest else rest))"
    by (auto intro!: goes_onI dest!: scan_double_shorter split: prod.splits)
  have substitution: "goes_on word (c # cs) (case commandSubstitution (c # cs) of
              None \<Rightarrow> scan_word (word @ [c]) True nested cs
            | Some (body, rest) \<Rightarrow> scan_word word True (nested @ [body]) rest)"
    by (auto intro!: goes_onI dest!: commandSubstitution_shorter split: option.splits)
  have backticks: "goes_on word (c # cs) (case up_to backquote cs of
              None \<Rightarrow> scan_word word True nested cs
            | Some (body, rest) \<Rightarrow> scan_word word True (nested @ [body]) rest)"
    by (auto intro!: goes_onI dest!: up_to_shorter split: option.splits)
  have backslash: "goes_on word (c # cs) (case cs of
              [] \<Rightarrow> scan_word word started nested []
            | d # ds \<Rightarrow>
                if d = newline then scan_word word started nested ds
                else scan_word (word @ [d]) True nested ds)"
    by (auto intro!: goes_onI split: list.splits)
  have "goes_on word (c # cs) (scan_word (word @ [c]) True nested cs)" by (rule goes_onI) simp_all
  with quotes ansi double substitution backticks backslash assms show ?thesis
    by (subst scan_word.simps) (simp only: if_False simp_thms split: if_split)
qed

lemma scan_word_shorter:
  "scan_word word started nested s = Some (w, started', nested', rest) \<Longrightarrow>
     length rest \<le> length s \<and> length w + length rest \<le> length word + length s \<and> at_separator rest \<and>
     (\<not> at_separator s \<longrightarrow> length rest < length s)"
proof (induction "length s" arbitrary: word started nested s rule: less_induct)
  case less
  show ?case
  proof (cases s)
    case Nil
    with less(2) show ?thesis by (simp add: scan_word.simps at_separator_def)
  next
    case (Cons c cs)
    show ?thesis
    proof (cases "js_is_space c \<or> is_operator c \<and> \<not> (c = CHR ''&'' \<and> after_redirect word)")
      case True
      with less(2) Cons show ?thesis by (auto simp: scan_word_stop at_separator_def)
    next
      case False
      from scan_word_goes_on [OF this, of cs started nested] less(2) Cons
      obtain w1 b n s1 where "scan_word w1 b n s1 = Some (w, started', nested', rest)" "length s1 < length s"
          "length w1 + length s1 \<le> length word + length s"
        unfolding goes_on_def by auto
      with less(1) [OF this(2,1)] show ?thesis by linarith
    qed
  qed
qed

end
