(* ===== verification/Shell_Commands.thy ===== *)
theory Shell_Commands
  imports Shell
begin

text \<open>
  What a command line passes on to other shells (\<open>src/policy/command-policy.ts\<close>, \<open>scanShell\<close> to
  \<open>executedShellPayloads\<close> and \<open>scannableCommand\<close>): the commands of a line, the command that a wrapper
  such as \<open>sudo\<close> or \<open>env\<close> runs, scripts given to \<open>sh -c\<close>, piped or here-string input and simple variables;
  and the text in which the rules of a policy are searched.
\<close>

section \<open>The commands of a line\<close>

definition flush :: "string list list \<Rightarrow> string list \<Rightarrow> string list list" where
  "flush commands words = (if words = [] then commands else commands @ [words])"

function scan_commands ::
  "string list \<Rightarrow> string list list \<Rightarrow> string list \<Rightarrow> string \<Rightarrow> shell_scan option" where
  "scan_commands words commands nested [] =
     Some \<lparr> sh_commands = flush commands words, sh_nested = nested \<rparr>"
| "scan_commands words commands nested (c # cs) =
     (if js_is_space c
      then (if c = newline then scan_commands [] (flush commands words) nested cs
            else scan_commands words commands nested cs)
      else if c = CHR ''#'' \<and> words = []
      then scan_commands words commands nested (dropWhile (\<lambda>d. d \<noteq> newline) cs)
      else if is_operator c
      then scan_commands [] (flush commands words) nested (dropWhile is_operator cs)
      else
        (case scan_word [] False nested (c # cs) of
           None \<Rightarrow> None
         | Some (w, started, nested', rest) \<Rightarrow>
             scan_commands (if started then words @ [w] else words) commands nested' rest))"
  by pat_completeness auto
termination
  by (relation "measure (\<lambda>(words, commands, nested, s). length s)")
     (auto simp: le_imp_less_Suc length_dropWhile_le at_separator_def dest!: scan_word_shorter)

definition scanShell :: "string \<Rightarrow> shell_scan option" where
  "scanShell input = scan_commands [] [] [] input"

text \<open>
  A command has no more words and letters than the line it is read from: this is why reading the line
  inside \<open>env -S\<close> again and again comes to an end.
\<close>

definition weight :: "string list \<Rightarrow> nat" where
  "weight ws = sum_list (map (\<lambda>w. length w + 1) ws)"

lemma weight_simps [simp]:
  "weight [] = 0" "weight (w # ws) = length w + 1 + weight ws" "weight (us @ ws) = weight us + weight ws"
  by (simp_all add: weight_def)

lemma weight_drop: "weight (drop n ws) \<le> weight ws"
  by (metis append_take_drop_id le_add2 weight_simps(3))

lemma weight_join: "ws \<noteq> [] \<Longrightarrow> length (js_join '' '' ws) + 1 = weight ws"
  by (induction "'' ''" ws rule: js_join.induct) auto

declare scan_commands.simps [simp del]

lemma flush_mem: "cmd \<in> set (flush commands words) \<Longrightarrow> cmd \<in> set commands \<or> cmd = words"
  by (auto simp: flush_def split: if_splits)

lemma scan_commands_weight:
  "scan_commands words commands nested s = Some r \<Longrightarrow> cmd \<in> set (sh_commands r) \<Longrightarrow>
     cmd \<in> set commands \<or>
     weight cmd \<le> weight words + length s + (if words \<noteq> [] \<and> at_separator s then 0 else 1)"
proof (induction words commands nested s rule: scan_commands.induct)
  case (1 words commands nested)
  then show ?case by (auto simp: scan_commands.simps flush_def split: if_splits)
next
  case (2 words commands nested c cs)
  have d: "length (dropWhile P cs) \<le> length cs" for P by (rule length_dropWhile_le)
  show ?case
  proof (cases "js_is_space c")
    case True
    with 2 show ?thesis
      by (auto simp: scan_commands.simps(2) at_separator_def dest!: flush_mem split: if_splits)
  next
    case space: False
    show ?thesis
    proof (cases "c = CHR ''#'' \<and> words = []")
      case True
      with 2 space d [of "\<lambda>d. d \<noteq> newline"] show ?thesis
        by (auto simp: scan_commands.simps(2) split: if_splits)
    next
      case comment: False
      show ?thesis
      proof (cases "is_operator c")
        case True
        with 2 space comment d [of is_operator] show ?thesis
          by (auto simp: scan_commands.simps(2) at_separator_def dest!: flush_mem split: if_splits)
      next
        case False
        with 2(6) space comment obtain w started n rest where w:
          "scan_word [] False nested (c # cs) = Some (w, started, n, rest)"
          "scan_commands (if started then words @ [w] else words) commands n rest = Some r"
          by (auto simp: scan_commands.simps(2) split: option.splits)
        from 2(5) [OF space comment False w(1) refl refl refl w(2) 2(7)] scan_word_shorter [OF w(1)] False space
        show ?thesis by (auto simp: at_separator_def split: if_splits)
      qed
    qed
  qed
qed

lemma scanShell_weight: "scanShell input = Some r \<Longrightarrow> cmd \<in> set (sh_commands r) \<Longrightarrow> weight cmd \<le> length input + 1"
  unfolding scanShell_def by (drule (1) scan_commands_weight) simp

section \<open>The command that a line of words runs\<close>

text \<open>\<open>/^[A-Za-z_]\w*=/\<close>\<close>

definition is_assignment :: "string \<Rightarrow> bool" where
  "is_assignment w \<longleftrightarrow>
     w \<noteq> [] \<and> (is_alpha (hd w) \<or> hd w = CHR ''_'') \<and> js_startsWith (dropWhile is_word_char w) ''=''"

definition is_keyword :: "string \<Rightarrow> bool" where
  "is_keyword w \<longleftrightarrow> w \<in> {''if'', ''then'', ''elif'', ''else'', ''while'', ''until'', ''do'', ''!''}"

text \<open>\<open>/^\d*(?:>>?|<<?|<>|>&|<&)$/\<close> and \<open>/^\d*(?:>>?|<<?|<>|>&|<&).+/\<close>\<close>

definition is_redirect :: "string \<Rightarrow> bool" where
  "is_redirect w \<longleftrightarrow> dropWhile is_digit w \<in> {''>'', ''>>'', ''<'', ''<<'', ''<>'', ''>&'', ''<&''}"

definition has_redirect :: "string \<Rightarrow> bool" where
  "has_redirect w =
     (case dropWhile is_digit w of
        c # d # _ \<Rightarrow> (c = CHR ''>'' \<or> c = CHR ''<'') \<and> \<not> is_line_end d
      | _ \<Rightarrow> False)"

fun commandStart :: "string list \<Rightarrow> nat" where
  "commandStart [] = 0"
| "commandStart (word # words) =
     (if is_assignment word \<or> is_keyword word then Suc (commandStart words)
      else if is_redirect word
      then (case words of [] \<Rightarrow> 2 | _ # rest \<Rightarrow> 2 + commandStart rest)
      else if has_redirect word then Suc (commandStart words)
      else 0)"

text \<open>\<open>word.replace(/=.*/, "")\<close>\<close>

definition option_name :: "string \<Rightarrow> string" where
  "option_name word =
     (if CHR ''='' \<in> set word
      then takeWhile (\<lambda>c. c \<noteq> CHR ''='') word @
           dropWhile (\<lambda>c. \<not> is_line_end c) (dropWhile (\<lambda>c. c \<noteq> CHR ''='') word)
      else word)"

fun optionCommand :: "string list \<Rightarrow> string list \<Rightarrow> nat" where
  "optionCommand valueOptions [] = 0"
| "optionCommand valueOptions (word # words) =
     (if word = ''--'' then 1
      else if \<not> js_startsWith word ''-'' \<or> word = ''-'' then 0
      else if option_name word \<in> set valueOptions \<and> CHR ''='' \<notin> set word
      then (case words of [] \<Rightarrow> 2 | _ # rest \<Rightarrow> 2 + optionCommand valueOptions rest)
      else Suc (optionCommand valueOptions words))"

definition is_split_option :: "string \<Rightarrow> bool" where
  "is_split_option arg \<longleftrightarrow>
     arg = ''-S'' \<or> js_startsWith arg ''-S'' \<or> arg = ''--split-string'' \<or> js_startsWith arg ''--split-string=''"

text \<open>The string that \<open>env -S\<close> splits and the arguments after it, from the option on.\<close>

definition splitStringPayload :: "string list \<Rightarrow> nat \<Rightarrow> string option \<times> string list" where
  "splitStringPayload args split =
     (let arg = args ! split; compact = (js_startsWith arg ''-S'' \<and> 2 < length arg); inline = (CHR ''='' \<in> set arg);
          next_arg = (if split + 1 < length args then Some (args ! (split + 1)) else None)
      in (if inline then Some (tl (dropWhile (\<lambda>c. c \<noteq> CHR ''='') arg))
          else if compact then Some (drop 2 arg) else next_arg,
          drop (split + (if inline \<or> compact then 1 else 2)) args))"

text \<open>Outer \<open>None\<close>: decoding failed. Inner \<open>None\<close>: there is no such option.\<close>

definition envSplitWords :: "string list \<Rightarrow> string list option option" where
  "envSplitWords args =
     (case js_find_index is_split_option args of
        None \<Rightarrow> Some None
      | Some split \<Rightarrow>
          (case splitStringPayload args split of
             (None, _) \<Rightarrow> Some (Some [])
           | (Some v, rest) \<Rightarrow>
               map_option (\<lambda>r. Some (case sh_commands r of [] \<Rightarrow> [] | cmd # _ \<Rightarrow> cmd))
                 (scanShell (js_join '' '' (v # rest)))))"

lemma js_find_index_Some: "js_find_index p xs = Some i \<Longrightarrow> i < length xs \<and> p (xs ! i)"
  by (induction xs arbitrary: i) (auto split: if_splits)

lemma splitStringPayload_weight:
  assumes "split < length args" "splitStringPayload args split = (Some v, rest)"
  shows "weight (v # rest) \<le> weight args"
proof -
  have len: "length (tl (dropWhile P w)) \<le> length w" "length (drop n w) \<le> length w" for P n and w :: string
    using length_dropWhile_le [of P w] by (auto intro: le_trans [OF diff_le_self])
  have "drop split args = args ! split # drop (split + 1) args" using assms(1) by (simp add: Cons_nth_drop_Suc)
  then have w: "length (args ! split) + 1 + weight (drop (split + 1) args) \<le> weight args"
    using weight_drop [of split args] by simp
  have "length v \<le> length (args ! split) \<and> rest = drop (split + 1) args \<or> v # rest = drop (split + 1) args"
    using assms(2) len by (auto simp: splitStringPayload_def Let_def Cons_nth_drop_Suc split: if_splits)
  then show ?thesis
  proof
    assume "v # rest = drop (split + 1) args"
    then have "weight (v # rest) = weight (drop (split + 1) args)" by (rule arg_cong)
    with w show ?thesis by linarith
  qed (use w in auto)
qed

lemma envSplitWords_weight:
  assumes "envSplitWords args = Some (Some ws)"
  shows "weight ws \<le> weight args"
proof -
  obtain split where split: "js_find_index is_split_option args = Some split"
    using assms by (auto simp: envSplitWords_def split: option.splits)
  obtain v rest where p: "splitStringPayload args split = (v, rest)" by (rule prod.exhaust)
  show ?thesis
  proof (cases v)
    case None
    with assms split p show ?thesis by (simp add: envSplitWords_def)
  next
    case (Some u)
    with assms split p obtain r where r: "scanShell (js_join '' '' (u # rest)) = Some r"
      "ws = (case sh_commands r of [] \<Rightarrow> [] | cmd # _ \<Rightarrow> cmd)"
      by (auto simp: envSplitWords_def)
    have "weight ws \<le> length (js_join '' '' (u # rest)) + 1"
      using r(2) scanShell_weight [OF r(1)] by (cases "sh_commands r") auto
    also have "\<dots> = weight (u # rest)" by (rule weight_join) simp
    also have "\<dots> \<le> weight args"
      using splitStringPayload_weight js_find_index_Some [OF split] p Some by blast
    finally show ?thesis .
  qed
qed

definition SHELLS :: "string list" where
  "SHELLS = [''bash'', ''sh'', ''dash'', ''zsh'', ''ksh'']"

definition executable_name :: "string \<Rightarrow> string" where
  "executable_name word = last (js_split CHR ''/'' word)"

text \<open>\<open>/^-[^-]*c/\<close>\<close>

definition is_command_flag :: "string \<Rightarrow> bool" where
  "is_command_flag arg \<longleftrightarrow>
     js_startsWith arg ''-'' \<and> CHR ''c'' \<in> set (takeWhile (\<lambda>c. c \<noteq> CHR ''-'') (drop 1 arg))"

definition STDIN_SCRIPTS :: "string list" where
  "STDIN_SCRIPTS = [''-'', ''/dev/stdin'', ''/dev/fd/0'', ''/proc/self/fd/0'']"

definition SHELL_VALUE_OPTIONS :: "string list" where
  "SHELL_VALUE_OPTIONS = [''-O'', ''-o'', ''--rcfile'', ''--init-file'']"

fun shell_reads_stdin :: "string list \<Rightarrow> bool" where
  "shell_reads_stdin [] = True"
| "shell_reads_stdin (arg # args) =
     (if is_command_flag arg then False
      else if arg = ''-s'' then True
      else if arg \<in> set SHELL_VALUE_OPTIONS
      then (case args of [] \<Rightarrow> True | _ # rest \<Rightarrow> shell_reads_stdin rest)
      else if arg = ''--'' then (case args of [] \<Rightarrow> True | script # _ \<Rightarrow> script \<in> set STDIN_SCRIPTS)
      else if \<not> js_startsWith arg ''-'' \<or> arg = ''-'' then arg \<in> set STDIN_SCRIPTS
      else shell_reads_stdin args)"

definition SUDO_OPTIONS :: "string list" where
  "SUDO_OPTIONS = [''-u'', ''--user'', ''-g'', ''--group'', ''-h'', ''--host'', ''-p'', ''--prompt'', ''-C'', ''--chdir'',
     ''-T'', ''--command-timeout'', ''-R'', ''--chroot'', ''-t'', ''--type'']"

definition NICE_OPTIONS :: "string list" where "NICE_OPTIONS = [''-n'', ''--adjustment'']"
definition TIMEOUT_OPTIONS :: "string list" where "TIMEOUT_OPTIONS = [''-s'', ''--signal'', ''-k'', ''--kill-after'']"
definition TIME_OPTIONS :: "string list" where "TIME_OPTIONS = [''-o'', ''--output'', ''-f'', ''--format'']"
definition STDBUF_OPTIONS :: "string list" where
  "STDBUF_OPTIONS = [''-i'', ''--input'', ''-o'', ''--output'', ''-e'', ''--error'']"
definition ENV_OPTIONS :: "string list" where
  "ENV_OPTIONS = [''-u'', ''--unset'', ''-C'', ''--chdir'', ''-S'', ''--split-string'']"
definition ENV_PRODUCER_OPTIONS :: "string list" where
  "ENV_PRODUCER_OPTIONS = [''-u'', ''--unset'', ''-C'', ''--chdir'']"

text \<open>Options of \<open>env\<close> and the assignments after them.\<close>

definition env_command :: "string list \<Rightarrow> string list \<Rightarrow> nat" where
  "env_command valueOptions args =
     (let n = optionCommand valueOptions args in n + length (takeWhile is_assignment (drop n args)))"

text \<open>
  Where the command starts that a wrapper runs, among the wrapper's arguments; these wrappers are
  treated alike by all the functions below.
\<close>

definition wrapped_command :: "string \<Rightarrow> string list \<Rightarrow> nat option" where
  "wrapped_command executable args =
     (if executable = ''exec'' then Some (optionCommand [''-a''] args)
      else if executable = ''sudo'' then Some (optionCommand SUDO_OPTIONS args)
      else if executable = ''nice'' then Some (optionCommand NICE_OPTIONS args)
      else if executable = ''timeout'' then Some (optionCommand TIMEOUT_OPTIONS args + 1)
      else if executable = ''time'' then Some (optionCommand TIME_OPTIONS args)
      else if executable = ''nohup'' then Some (optionCommand [] args)
      else None)"

lemma weight_args: "start < length words \<Longrightarrow> weight (drop n (drop (start + 1) words)) < weight words"
proof -
  assume "start < length words"
  then have "weight (drop start words) = length (words ! start) + 1 + weight (drop (start + 1) words)"
    by (simp flip: Cons_nth_drop_Suc)
  with weight_drop [of start words] weight_drop [of n "drop (start + 1) words"] show ?thesis by linarith
qed

lemma weight_split:
  "start < length words \<Longrightarrow> envSplitWords (drop (start + 1) words) = Some (Some ws) \<Longrightarrow> weight ws < weight words"
  using weight_args [of start words 0] envSplitWords_weight by fastforce

lemmas weight_decreases = weight_args weight_args [where n = 0, simplified] weight_split

function segmentConsumesShellStdin :: "string list \<Rightarrow> bool option" where
  "segmentConsumesShellStdin words =
     (let start = commandStart words
      in if start \<ge> length words then Some False
         else
           let executable = executable_name (words ! start); args = drop (start + 1) words
           in if executable \<in> set SHELLS then Some (shell_reads_stdin args)
              else if executable = ''env''
              then (case envSplitWords args of
                      None \<Rightarrow> None
                    | Some (Some split) \<Rightarrow> segmentConsumesShellStdin split
                    | Some None \<Rightarrow> segmentConsumesShellStdin (drop (env_command ENV_OPTIONS args) args))
              else if executable = ''command''
              then segmentConsumesShellStdin (drop (optionCommand [] args) args)
              else if executable = ''stdbuf''
              then segmentConsumesShellStdin (drop (optionCommand STDBUF_OPTIONS args) args)
              else
                case wrapped_command executable args of
                  Some n \<Rightarrow> segmentConsumesShellStdin (drop n args)
                | None \<Rightarrow> Some False)"
  by pat_completeness auto
termination
  by (relation "measure weight") (auto simp: not_le Let_def intro: weight_decreases [simplified])

text \<open>
  The command after \<open>command\<close> and its \<open>-p\<close> options; \<open>None\<close> for \<open>-v\<close> and \<open>-V\<close>, which run nothing.
\<close>

fun after_command :: "string list \<Rightarrow> nat option" where
  "after_command [] = Some 0"
| "after_command (arg # args) =
     (if arg = ''--'' then Some 1
      else if arg = ''-v'' \<or> arg = ''-V'' then None
      else if arg \<noteq> ''-p'' then Some 0
      else map_option Suc (after_command args))"

text \<open>\<open>/^-[neE]+$/\<close>, and whether the last of its letters that matters is \<open>e\<close>.\<close>

definition is_echo_option :: "string \<Rightarrow> bool" where
  "is_echo_option arg \<longleftrightarrow> js_startsWith arg ''-'' \<and> 1 < length arg \<and> list_all (\<lambda>c. c \<in> set ''neE'') (drop 1 arg)"

definition echo_escapes :: "bool \<Rightarrow> string \<Rightarrow> bool" where
  "echo_escapes decode arg =
     foldl (\<lambda>d c. if c = CHR ''e'' then True else if c = CHR ''E'' then False else d) decode (drop 1 arg)"

fun echo_payload :: "bool \<Rightarrow> string list \<Rightarrow> string option" where
  "echo_payload decode [] = Some []"
| "echo_payload decode (arg # args) =
     (if is_echo_option arg then echo_payload (echo_escapes decode arg) args
      else
        let payload = js_join '' '' (arg # args)
        in if decode then decodeAnsiC payload else Some payload)"

text \<open>The format with its conversions replaced, and the values that are left over.\<close>

fun printf_render :: "string \<Rightarrow> string list \<Rightarrow> (string \<times> string list) option" where
  "printf_render [] values = Some ([], values)"
| "printf_render (c # cs) values =
     (if c = CHR ''%'' \<and> cs \<noteq> [] \<and> hd cs \<in> set ''%sb''
      then (if hd cs = CHR ''%''
            then map_option (\<lambda>(w, vs). (CHR ''%'' # w, vs)) (printf_render (tl cs) values)
            else
              let v = (case values of [] \<Rightarrow> [] | v # _ \<Rightarrow> v)
              in case (if hd cs = CHR ''b'' then decodeAnsiC v else Some v) of
                   None \<Rightarrow> None
                 | Some v' \<Rightarrow> map_option (\<lambda>(w, vs). (v' @ w, vs)) (printf_render (tl cs) (tl values)))
      else map_option (\<lambda>(w, vs). (c # w, vs)) (printf_render cs values))"

definition printf_payload :: "string list \<Rightarrow> string option" where
  "printf_payload args =
     (case decodeAnsiC (hd args) of
        None \<Rightarrow> None
      | Some format \<Rightarrow>
          (case printf_render format (tl args) of
             None \<Rightarrow> None
           | Some (rendered, left) \<Rightarrow> Some (js_join [newline] ([rendered] @ left @ [js_join '' '' args]))))"

function literalProducerPayload :: "string list \<Rightarrow> string option option" where
  "literalProducerPayload words =
     (let start = commandStart words
      in if start \<ge> length words then Some None
         else
           let executable = executable_name (words ! start); args = drop (start + 1) words
           in if executable = ''command''
              then (case after_command args of
                      None \<Rightarrow> Some None
                    | Some n \<Rightarrow> literalProducerPayload (drop n args))
              else if executable = ''builtin''
              then (if args \<noteq> [] \<and> js_startsWith (hd args) ''-'' \<and> hd args \<noteq> ''--'' then Some None
                    else literalProducerPayload
                           (drop (if args \<noteq> [] \<and> hd args = ''--'' then 1 else 0) args))
              else if executable = ''env''
              then (case envSplitWords args of
                      None \<Rightarrow> None
                    | Some (Some split) \<Rightarrow> literalProducerPayload split
                    | Some None \<Rightarrow> literalProducerPayload (drop (env_command ENV_PRODUCER_OPTIONS args) args))
              else if executable = ''stdbuf''
              then literalProducerPayload (drop (optionCommand STDBUF_OPTIONS args) args)
              else
                case wrapped_command executable args of
                  Some n \<Rightarrow> literalProducerPayload (drop n args)
                | None \<Rightarrow>
                    (let args = (if args \<noteq> [] \<and> hd args = ''--'' then tl args else args)
                     in if executable = ''echo'' then map_option Some (echo_payload False args)
                        else if executable \<noteq> ''printf'' \<or> args = [] then Some None
                        else map_option Some (printf_payload args)))"
  by pat_completeness auto
termination
  by (relation "measure weight") (auto simp: not_le Let_def intro: weight_decreases [simplified])

section \<open>What is passed on to other shells\<close>

text \<open>The script of \<open>sh -c script\<close>, if there is one.\<close>

fun shell_script :: "string list \<Rightarrow> string list" where
  "shell_script [] = []"
| "shell_script (arg # args) =
     (if arg = ''--'' \<or> \<not> js_startsWith arg ''-'' then []
      else if arg \<in> set SHELL_VALUE_OPTIONS
      then (case args of [] \<Rightarrow> [] | _ # rest \<Rightarrow> shell_script rest)
      else if is_command_flag arg then (case args of [] \<Rightarrow> [] | script # _ \<Rightarrow> [script])
      else shell_script args)"

definition XARGS_OPTIONS :: "string list" where
  "XARGS_OPTIONS = [''-a'', ''--arg-file'', ''-d'', ''--delimiter'', ''-E'', ''--eof'', ''-I'', ''--replace'', ''-L'',
     ''--max-lines'', ''-n'', ''--max-args'', ''-P'', ''--max-procs'', ''-s'', ''--max-chars'']"

function segmentShellPayloads :: "string list \<Rightarrow> string list" where
  "segmentShellPayloads words =
     (let start = commandStart words
      in if start \<ge> length words then []
         else
           let executable = executable_name (words ! start); args = drop (start + 1) words
           in if executable \<in> set SHELLS then shell_script args
              else if executable = ''eval'' then (if args = [] then [] else [js_join '' '' args])
              else if executable = ''env''
              then (case js_find_index is_split_option args of
                      Some split \<Rightarrow>
                        (case splitStringPayload args split of
                           (None, _) \<Rightarrow> []
                         | (Some v, rest) \<Rightarrow> [js_join '' '' (v # rest)])
                    | None \<Rightarrow> segmentShellPayloads (drop (env_command ENV_OPTIONS args) args))
              else if executable = ''command''
              then (case after_command args of None \<Rightarrow> [] | Some n \<Rightarrow> segmentShellPayloads (drop n args))
              else if executable = ''coproc'' then segmentShellPayloads args
              else if executable = ''xargs'' then segmentShellPayloads (drop (optionCommand XARGS_OPTIONS args) args)
              else
                case wrapped_command executable args of
                  Some n \<Rightarrow> segmentShellPayloads (drop n args)
                | None \<Rightarrow> [])"
  by pat_completeness auto
termination
  by (relation "measure weight") (auto simp: not_le Let_def intro: weight_decreases [simplified])

declare segmentShellPayloads.simps [simp del] literalProducerPayload.simps [simp del]
  segmentConsumesShellStdin.simps [simp del]

text \<open>
  The pipelines of a line with more than one segment: the pipelines so far, the current pipeline, the
  text of the current segment and the open quote.
\<close>

definition finishSegment :: "string list \<Rightarrow> string \<Rightarrow> string list" where
  "finishSegment pipeline segment = (if js_trim segment = [] then pipeline else pipeline @ [js_trim segment])"

definition finishPipeline :: "string list list \<Rightarrow> string list \<Rightarrow> string \<Rightarrow> string list list" where
  "finishPipeline pipelines pipeline segment =
     (let p = finishSegment pipeline segment in if 1 < length p then pipelines @ [p] else pipelines)"

function pipelines_from ::
  "string list list \<Rightarrow> string list \<Rightarrow> string \<Rightarrow> char option \<Rightarrow> string \<Rightarrow> string list list" where
  "pipelines_from pipelines pipeline seg quote [] = finishPipeline pipelines pipeline seg"
| "pipelines_from pipelines pipeline seg quote (c # cs) =
     (if c = bsl then pipelines_from pipelines pipeline (seg @ c # take 1 cs) quote (drop 1 cs)
      else
        case quote of
          Some q \<Rightarrow> pipelines_from pipelines pipeline (seg @ [c]) (if c = q then None else quote) cs
        | None \<Rightarrow>
            if c = squote \<or> c = dquote \<or> c = backquote
            then pipelines_from pipelines pipeline (seg @ [c]) (Some c) cs
            else if (c = CHR ''|'' \<or> c = CHR ''&'') \<and> js_startsWith cs [c]
            then pipelines_from (finishPipeline pipelines pipeline seg) [] [] None (drop 1 cs)
            else if c = CHR ''|''
            then pipelines_from pipelines (finishSegment pipeline seg) [] None
                   (if js_startsWith cs ''&'' then drop 1 cs else cs)
            else if c = CHR '';'' \<or> c = newline \<or> c = CHR ''&''
            then pipelines_from (finishPipeline pipelines pipeline seg) [] [] None cs
            else pipelines_from pipelines pipeline (seg @ [c]) None cs)"
  by pat_completeness auto
termination by (relation "measure (\<lambda>(ps, p, seg, q, s). length s)") auto

definition shellPipelines :: "string \<Rightarrow> string list list" where
  "shellPipelines input = pipelines_from [] [] [] None input"

text \<open>The payloads of one pipeline, from the segment before to the segment after each pipe.\<close>

fun pipeline_payloads :: "string list \<Rightarrow> string list option" where
  "pipeline_payloads (producer # consumer # rest) =
     (case pipeline_payloads (consumer # rest) of
        None \<Rightarrow> None
      | Some payloads \<Rightarrow>
          (case scanShell consumer of
             None \<Rightarrow> None
           | Some c \<Rightarrow>
               (case sh_commands c of
                  [] \<Rightarrow> Some payloads
                | cmd # _ \<Rightarrow>
                    (case segmentConsumesShellStdin cmd of
                       None \<Rightarrow> None
                     | Some False \<Rightarrow> Some payloads
                     | Some True \<Rightarrow>
                         (case scanShell producer of
                            None \<Rightarrow> None
                          | Some p \<Rightarrow>
                              if sh_commands p = [] then Some payloads
                              else
                                (case literalProducerPayload (last (sh_commands p)) of
                                   None \<Rightarrow> None
                                 | Some w \<Rightarrow> Some (if truthy w then the w # payloads else payloads)))))))"
| "pipeline_payloads _ = Some []"

text \<open>The results of all, or \<open>None\<close> when one of them fails.\<close>

fun opt_all :: "'a option list \<Rightarrow> 'a list option" where
  "opt_all [] = Some []"
| "opt_all (x # xs) = (case x of None \<Rightarrow> None | Some v \<Rightarrow> map_option (Cons v) (opt_all xs))"

definition pipedShellPayloads :: "string \<Rightarrow> string list option" where
  "pipedShellPayloads input = map_option concat (opt_all (map pipeline_payloads (shellPipelines input)))"

text \<open>\<open><<<\<close> outside quotes, set off by blanks.\<close>

function space_here_strings :: "char option \<Rightarrow> string \<Rightarrow> string" where
  "space_here_strings quote [] = []"
| "space_here_strings quote (c # cs) =
     (if c = bsl then c # take 1 cs @ space_here_strings quote (drop 1 cs)
      else
        case quote of
          Some q \<Rightarrow> c # space_here_strings (if c = q then None else quote) cs
        | None \<Rightarrow>
            if c = squote \<or> c = dquote \<or> c = backquote then c # space_here_strings (Some c) cs
            else if js_startsWith (c # cs) ''<<<'' then '' <<< '' @ space_here_strings None (drop 2 cs)
            else c # space_here_strings None cs)"
  by pat_completeness auto
termination by (relation "measure (\<lambda>(q, s). length s)") auto

definition here_string_payload :: "string list \<Rightarrow> string list option" where
  "here_string_payload words =
     (case js_find_index (\<lambda>w. w = ''<<<'') words of
        None \<Rightarrow> Some []
      | Some redirect \<Rightarrow>
          if redirect = 0 then Some []
          else
            (case segmentConsumesShellStdin (take redirect words) of
               None \<Rightarrow> None
             | Some False \<Rightarrow> Some []
             | Some True \<Rightarrow>
                 (case drop (redirect + 1) words of
                    [] \<Rightarrow> Some []
                  | payload # _ \<Rightarrow> Some (if payload = [] then [] else [payload]))))"

definition hereStringShellPayloads :: "string \<Rightarrow> string list option" where
  "hereStringShellPayloads input =
     (case scanShell (space_here_strings None input) of
        None \<Rightarrow> None
      | Some r \<Rightarrow> map_option concat (opt_all (map here_string_payload (sh_commands r))))"

text \<open>The place of the command that is really run, behind the wrappers.\<close>

function executableIndex :: "string list \<Rightarrow> nat \<Rightarrow> nat option" where
  "executableIndex words offset =
     (let start = commandStart words
      in if start \<ge> length words then None
         else
           let executable = executable_name (words ! start); args = drop (start + 1) words;
               next_index =
                 (if executable = ''command'' then Some (optionCommand [] args)
                  else if executable = ''env'' then Some (env_command ENV_OPTIONS args)
                  else if executable = ''stdbuf'' then Some (optionCommand STDBUF_OPTIONS args)
                  else wrapped_command executable args)
           in case next_index of
                None \<Rightarrow> Some (offset + start)
              | Some n \<Rightarrow> executableIndex (drop n args) (offset + start + 1 + n))"
  by pat_completeness auto
termination
  by (relation "measure (\<lambda>(words, offset). weight words)")
     (auto simp: not_le Let_def intro: weight_decreases [simplified])

text \<open>\<open>/^([A-Za-z_]\w*)=([\w./-]+)$/\<close>\<close>

definition simple_assignment :: "string \<Rightarrow> (string \<times> string) option" where
  "simple_assignment word =
     (let name = takeWhile is_word_char word; rest = dropWhile is_word_char word; val = drop 1 rest
      in if name \<noteq> [] \<and> (is_alpha (hd name) \<or> hd name = CHR ''_'') \<and> js_startsWith rest ''='' \<and> val \<noteq> [] \<and>
            list_all (\<lambda>c. is_word_char c \<or> c \<in> set ''./-'') val
         then Some (name, val) else None)"

definition is_name :: "string \<Rightarrow> bool" where
  "is_name w \<longleftrightarrow> w \<noteq> [] \<and> (is_alpha (hd w) \<or> hd w = CHR ''_'') \<and> list_all is_word_char w"

text \<open>\<open>/^\$(?:\{([A-Za-z_]\w*)\}|([A-Za-z_]\w*))$/\<close>\<close>

definition variable_reference :: "string \<Rightarrow> string option" where
  "variable_reference word =
     (if js_startsWith word ''${'' \<and> js_endsWith word ''}'' \<and> is_name (butlast (drop 2 word))
      then Some (butlast (drop 2 word))
      else if js_startsWith word ''$'' \<and> is_name (drop 1 word) then Some (drop 1 word)
      else None)"

fun variable_payloads :: "(string, string) jsmap \<Rightarrow> string list list \<Rightarrow> string list" where
  "variable_payloads values [] = []"
| "variable_payloads values (words # commands) =
     (if commandStart words \<ge> length words
      then variable_payloads
             (fold (\<lambda>word m. case simple_assignment word of Some (k, v) \<Rightarrow> jmap_set k v m | None \<Rightarrow> m) words values)
             commands
      else
        (case executableIndex words 0 of
           None \<Rightarrow> variable_payloads values commands
         | Some index \<Rightarrow>
             (case Option.bind (variable_reference (words ! index)) (map_of values) of
                None \<Rightarrow> variable_payloads values commands
              | Some v \<Rightarrow>
                  js_join '' '' (take index words @ [v] @ drop (index + 1) words) # variable_payloads values commands)))"

definition simpleVariablePayloads :: "string \<Rightarrow> string list option" where
  "simpleVariablePayloads input = map_option (\<lambda>r. variable_payloads [] (sh_commands r)) (scanShell input)"

definition executedShellPayloads :: "string \<Rightarrow> string list option" where
  "executedShellPayloads input =
     (case scanShell input of
        None \<Rightarrow> None
      | Some scan \<Rightarrow>
          (case pipedShellPayloads input of
             None \<Rightarrow> None
           | Some piped \<Rightarrow>
               (case hereStringShellPayloads input of
                  None \<Rightarrow> None
                | Some hereStrings \<Rightarrow>
                    (case simpleVariablePayloads input of
                       None \<Rightarrow> None
                     | Some variables \<Rightarrow>
                         Some (sh_nested scan @ concat (map segmentShellPayloads (sh_commands scan)) @
                               piped @ hereStrings @ variables)))))"

section \<open>The text that the rules are searched in\<close>

text \<open>With the number of levels of nested command lines still to be read.\<close>

primrec scannable_levels :: "nat \<Rightarrow> string \<Rightarrow> string option" where
  "scannable_levels 0 command = unquoted (stripWrittenHeredocs command)"
| "scannable_levels (Suc n) command =
     (case unquoted (stripWrittenHeredocs command) of
        None \<Rightarrow> None
      | Some base \<Rightarrow>
          (case executedShellPayloads (stripWrittenHeredocs command) of
             None \<Rightarrow> None
           | Some executed \<Rightarrow>
               if executed = [] then Some base
               else map_option (\<lambda>ts. js_join [newline] (base # ts)) (opt_all (map (scannable_levels n) executed))))"

definition scannableCommandAtDepth :: "string \<Rightarrow> nat \<Rightarrow> string option" where
  "scannableCommandAtDepth command depth = scannable_levels (8 - depth) command"

definition scannableCommand :: "string \<Rightarrow> string option" where
  "scannableCommand command = scannableCommandAtDepth command 0"

declare executableIndex.simps [simp del]

section \<open>Properties\<close>

definition single_quoted :: "string \<Rightarrow> string" where
  "single_quoted w = [squote] @ w @ [squote]"

lemma space_not_operator: "js_is_space CHR '' ''" "\<not> is_operator squote" "\<not> js_is_space squote"
  by (simp_all add: js_is_space_def is_operator_def)

lemma scan_word_quoted:
  assumes "squote \<notin> set w" "rest = [] \<or> (\<exists>t. rest = CHR '' '' # t)"
  shows "scan_word [] False n (squote # w @ squote # rest) = Some (w, True, n, rest)"
proof -
  have u: "up_to squote (w @ squote # rest) = Some (w, rest)" using assms(1) by (simp add: up_to_Some)
  then have "scan_word [] False n (squote # w @ squote # rest) = scan_word w True n rest"
    by (subst scan_word.simps) (simp add: space_not_operator)
  also have "\<dots> = Some (w, True, n, rest)"
    using assms(2) by (auto simp: scan_word.simps(1) scan_word_stop space_not_operator)
  finally show ?thesis .
qed

lemma js_join_Cons: "js_join sep (x # xs) = x @ (if xs = [] then [] else sep @ js_join sep xs)"
  by (cases xs) auto

lemma scan_commands_quoted:
  "ws \<noteq> [] \<Longrightarrow> \<forall>w \<in> set ws. squote \<notin> set w \<Longrightarrow>
   scan_commands words cmds n (js_join '' '' (map single_quoted ws)) =
     Some \<lparr> sh_commands = flush cmds (words @ ws), sh_nested = n \<rparr>"
proof (induction ws arbitrary: words)
  case (Cons w ws)
  let ?rest = "if ws = [] then [] else '' '' @ js_join '' '' (map single_quoted ws)"
  have "scan_commands words cmds n (js_join '' '' (map single_quoted (w # ws))) =
      scan_commands words cmds n (squote # w @ squote # ?rest)"
    by (simp add: js_join_Cons single_quoted_def)
  also have "\<dots> = scan_commands (words @ [w]) cmds n ?rest"
    using Cons.prems by (subst scan_commands.simps) (simp add: space_not_operator scan_word_quoted)
  also have "\<dots> = Some \<lparr> sh_commands = flush cmds (words @ w # ws), sh_nested = n \<rparr>"
    using Cons by (auto simp: scan_commands.simps(1) scan_commands.simps(2) [of _ _ _ "CHR '' ''"] space_not_operator)
  finally show ?case .
qed simp

text \<open>
  Quoting round trip of the shell reader: a line of words, each in single quotes, is read back as one
  command of exactly those words, whatever blanks, operators, dollar signs or back quotes they contain,
  and passes nothing on by substitution.
\<close>

theorem quoted_words_roundtrip:
  assumes "ws \<noteq> []" "\<forall>w \<in> set ws. squote \<notin> set w"
  shows "scanShell (js_join '' '' (map single_quoted ws)) = Some \<lparr> sh_commands = [ws], sh_nested = [] \<rparr>"
  unfolding scanShell_def scan_commands_quoted [OF assms] using assms(1) by (simp add: flush_def)

theorem quoted_words_roundtrip_witness:
  "scanShell (js_join '' '' (map single_quoted [''echo'', ''a; rm $(b) | c''])) =
     Some \<lparr> sh_commands = [[''echo'', ''a; rm $(b) | c'']], sh_nested = [] \<rparr>"
  by (rule quoted_words_roundtrip) simp_all

text \<open>
  Reading a line never makes it longer: every command that is read from a line, with one separator
  per word, is at most one character longer than the line. Splitting the argument of \<open>env -S\<close> as a line
  of its own therefore gives no more text than the arguments had, however deeply it is nested.
\<close>

theorem scan_bounded:
  assumes "scanShell input = Some scan"
  shows "(\<forall>cmd \<in> set (sh_commands scan). weight cmd \<le> length input + 1) \<and>
    (\<forall>args ws. envSplitWords args = Some (Some ws) \<longrightarrow> weight ws \<le> weight args)"
  using scanShell_weight [OF assms] envSplitWords_weight by blast

theorem scan_bounded_witness:
  "weight [''echo'', ''a b''] \<le> length (js_join '' '' (map single_quoted [''echo'', ''a b''])) + 1"
proof -
  have "scanShell (js_join '' '' (map single_quoted [''echo'', ''a b''])) =
      Some \<lparr> sh_commands = [[''echo'', ''a b'']], sh_nested = [] \<rparr>"
    by code_simp
  from scan_bounded [OF this] show ?thesis by simp
qed

section \<open>Scripts behind wrappers\<close>

definition PLAIN_WRAPPERS :: "string list" where
  "PLAIN_WRAPPERS = [''sudo'', ''nohup'', ''nice'', ''time'', ''exec'', ''command'', ''coproc'', ''xargs'']"

lemma optionCommand_plain: "\<not> js_startsWith w ''-'' \<Longrightarrow> optionCommand opts (w # ws) = 0"
  by (auto simp: js_startsWith_def)

lemma after_command_plain: "\<not> js_startsWith w ''-'' \<Longrightarrow> after_command (w # ws) = Some 0"
  by (auto simp: js_startsWith_def)

lemma plain_word:
  assumes "w \<in> set PLAIN_WRAPPERS \<union> set SHELLS"
  shows "commandStart (w # ws) = 0" "executable_name w = w" "\<not> js_startsWith w ''-''"
proof -
  have "\<forall>w \<in> set PLAIN_WRAPPERS \<union> set SHELLS. \<not> is_assignment w \<and> \<not> is_keyword w \<and> \<not> is_redirect w \<and>
      \<not> has_redirect w \<and> executable_name w = w \<and> \<not> js_startsWith w ''-''"
    by code_simp
  with assms show "commandStart (w # ws) = 0" "executable_name w = w" "\<not> js_startsWith w ''-''" by simp_all
qed

lemma segment_wrapper:
  assumes "w \<in> set PLAIN_WRAPPERS" "\<not> js_startsWith v ''-''"
  shows "segmentShellPayloads (w # v # ws) = segmentShellPayloads (v # ws)"
  using assms plain_word(1) [of w "v # ws"] plain_word(2,3) [of w]
  by (subst segmentShellPayloads.simps)
     (auto simp: Let_def PLAIN_WRAPPERS_def SHELLS_def wrapped_command_def optionCommand_plain after_command_plain
       simp del: optionCommand.simps after_command.simps commandStart.simps)

lemma segment_shell:
  assumes "sh \<in> set SHELLS"
  shows "segmentShellPayloads [sh, ''-c'', script] = [script]"
proof -
  have "shell_script [''-c'', script] = [script]"
    by (simp add: SHELL_VALUE_OPTIONS_def js_startsWith_def is_command_flag_def)
  then show ?thesis
    using assms plain_word(1) [of sh "[''-c'', script]"] plain_word(2,3) [of sh]
    by (subst segmentShellPayloads.simps) (auto simp: Let_def simp del: shell_script.simps commandStart.simps)
qed

lemma segment_wrapped_shell:
  "set wrappers \<subseteq> set PLAIN_WRAPPERS \<Longrightarrow> sh \<in> set SHELLS \<Longrightarrow>
   segmentShellPayloads (wrappers @ [sh, ''-c'', script]) = [script]"
proof (induction wrappers)
  case Nil
  then show ?case by (simp add: segment_shell)
next
  case (Cons w ws)
  obtain v rest where v: "ws @ [sh, ''-c'', script] = v # rest" "v \<in> set PLAIN_WRAPPERS \<union> set SHELLS"
    using Cons.prems by (cases ws) auto
  have "segmentShellPayloads (w # v # rest) = segmentShellPayloads (v # rest)"
    by (rule segment_wrapper) (use Cons.prems plain_word(3) v(2) in auto)
  with Cons v(1) show ?case by simp
qed

lemma opt_all_Some: "opt_all xs = Some ys \<Longrightarrow> x \<in> set xs \<Longrightarrow> \<exists>y. x = Some y \<and> y \<in> set ys"
  by (induction xs arbitrary: ys) (auto split: option.splits)

lemma scannable_includes_payload:
  assumes "depth < 8" "executedShellPayloads (stripWrittenHeredocs command) = Some executed" "p \<in> set executed"
    and "scannableCommandAtDepth command depth = Some found"
  shows "\<exists>t. scannableCommandAtDepth p (depth + 1) = Some t \<and> js_includes found t"
proof -
  obtain n where n: "8 - depth = Suc n" using assms(1) by (metis Suc_diff_Suc)
  then have n': "8 - (depth + 1) = n" by simp
  from assms n obtain base ts where ts: "opt_all (map (scannable_levels n) executed) = Some ts"
      "found = js_join [newline] (base # ts)"
    by (auto simp: scannableCommandAtDepth_def split: option.splits if_splits)
  from opt_all_Some [OF ts(1), of "scannable_levels n p"] assms(3)
  obtain t where "scannable_levels n p = Some t" "t \<in> set ts" by auto
  with ts(2) n' show ?thesis unfolding scannableCommandAtDepth_def
    by (auto intro: js_join_includes)
qed



text \<open>
  One wrapper does hide a script: \<open>stdbuf\<close>, which the other readers of words step over, is not
  stepped over where scripts are looked for, so the text searched for \<open>stdbuf -oL sh -c 'rm -rf /x'\<close> has
  empty quotes in the place of the script, while the script itself and the same line without \<open>stdbuf\<close> are
  searched in full.
\<close>

theorem stdbuf_hides_script:
  "scannableCommand (''stdbuf -oL sh -c '' @ single_quoted ''rm -rf /x'') =
     Some (''stdbuf -oL sh -c '' @ [squote, squote]) \<and>
   scannableCommand (''sh -c '' @ single_quoted ''rm -rf /x'') =
     Some (''sh -c '' @ [squote, squote, newline] @ ''rm -rf /x'') \<and>
   segmentShellPayloads (''stdbuf'' # ws) = []"
proof -
  have "segmentShellPayloads (''stdbuf'' # ws) = []"
    by (subst segmentShellPayloads.simps)
       (simp add: Let_def is_assignment_def is_keyword_def is_redirect_def has_redirect_def is_digit_def executable_name_def
         SHELLS_def wrapped_command_def is_alpha_def is_word_char_def is_alnum_def js_startsWith_def)
  moreover have "scannableCommand (''stdbuf -oL sh -c '' @ single_quoted ''rm -rf /x'') =
     Some (''stdbuf -oL sh -c '' @ [squote, squote])" by code_simp
  moreover have "scannableCommand (''sh -c '' @ single_quoted ''rm -rf /x'') =
     Some (''sh -c '' @ [squote, squote, newline] @ ''rm -rf /x'')" by code_simp
  ultimately show ?thesis by blast
qed

end
