(* ===== verification/Policy.thy ===== *)
theory Policy
  imports Scope Shell_Commands
begin

text \<open>
  Command policies (\<open>src/policy/command-policy.ts\<close>), the regular expressions they accept
  (\<open>src/util/safe-regex.ts\<close>) and security postures (\<open>src/security/security-posture.ts\<close>). The regular
  expression engine is a parameter: \<open>regexp\<close> compiles a pattern (\<open>None\<close> when \<open>new RegExp\<close> throws) to the
  search it performs, whose result is the matched text. An evaluation is \<open>None\<close> when the text to search
  cannot be made, which is when \<open>scannableCommand\<close> raises.
\<close>

section \<open>Safe regular expressions\<close>

datatype regex_error = BadLength | Unsupported | NestedRepetition | Invalid

definition MAX_PATTERN_CHARS :: nat where
  "MAX_PATTERN_CHARS = 256"

text \<open>The test \<open>/\\[1-9]|\\k<|\(\?[=!<]/\<close> for back-references and look-arounds.\<close>

fun unsupported_construct :: "string \<Rightarrow> bool" where
  "unsupported_construct [] \<longleftrightarrow> False"
| "unsupported_construct (c # cs) \<longleftrightarrow>
     (c = CHR 0x5C \<and> (case cs of
        [] \<Rightarrow> False
      | d # ds \<Rightarrow> d \<in> set ''123456789'' \<or> d = CHR ''k'' \<and> (case ds of e # _ \<Rightarrow> e = CHR ''<'' | [] \<Rightarrow> False))) \<or>
     (c = CHR ''('' \<and> (case cs of
        d # e # _ \<Rightarrow> d = CHR ''?'' \<and> e \<in> set ''=!<''
      | _ \<Rightarrow> False)) \<or>
     unsupported_construct cs"

record regex_group =
  rg_quantified :: bool
  rg_alternation :: bool

record regex_scan =
  sc_groups :: "regex_group list"
  sc_escaped :: bool
  sc_inClass :: bool
  sc_previousQuantifier :: bool
  sc_closed :: "regex_group option"

definition scan_start :: regex_scan where
  "scan_start = \<lparr> sc_groups = [], sc_escaped = False, sc_inClass = False, sc_previousQuantifier = False,
     sc_closed = None \<rparr>"

definition fresh_group :: regex_group where
  "fresh_group = \<lparr> rg_quantified = False, rg_alternation = False \<rparr>"

text \<open>The innermost open group is the head of the list.\<close>

definition mark_group :: "(regex_group \<Rightarrow> regex_group) \<Rightarrow> regex_scan \<Rightarrow> regex_scan" where
  "mark_group f st = (case sc_groups st of [] \<Rightarrow> st | g # gs \<Rightarrow> st\<lparr> sc_groups := f g # gs \<rparr>)"

definition is_quantifier :: "char option \<Rightarrow> char \<Rightarrow> bool" where
  "is_quantifier prev ch \<longleftrightarrow>
     ch = CHR ''*'' \<or> ch = CHR ''+'' \<or> (ch = CHR ''?'' \<and> prev \<noteq> Some CHR ''('') \<or> ch = CHR ''{''"

text \<open>One turn of the loop: \<open>None\<close> is the throw for nested or ambiguous repetition.\<close>

definition scan_char :: "char option \<Rightarrow> char \<Rightarrow> regex_scan \<Rightarrow> regex_scan option" where
  "scan_char prev ch st =
     (if sc_escaped st then
        Some (st\<lparr> sc_escaped := False, sc_previousQuantifier := False, sc_closed := None \<rparr>)
      else if ch = CHR 0x5C then Some (st\<lparr> sc_escaped := True \<rparr>)
      else if ch = CHR ''['' then
        Some (st\<lparr> sc_inClass := True, sc_previousQuantifier := False, sc_closed := None \<rparr>)
      else if ch = CHR '']'' \<and> sc_inClass st then Some (st\<lparr> sc_inClass := False \<rparr>)
      else if sc_inClass st then Some st
      else if ch = CHR ''('' then
        Some (st\<lparr> sc_groups := fresh_group # sc_groups st, sc_previousQuantifier := False, sc_closed := None \<rparr>)
      else if ch = CHR ''|'' then
        Some ((mark_group (\<lambda>g. g\<lparr> rg_alternation := True \<rparr>) st)
                \<lparr> sc_previousQuantifier := False, sc_closed := None \<rparr>)
      else if ch = CHR '')'' then
        Some (case sc_groups st of
                [] \<Rightarrow> st\<lparr> sc_closed := Some fresh_group, sc_previousQuantifier := False \<rparr>
              | g # gs \<Rightarrow> st\<lparr> sc_groups := gs, sc_closed := Some g, sc_previousQuantifier := False \<rparr>)
      else if is_quantifier prev ch then
        (if sc_previousQuantifier st \<or>
            (case sc_closed st of None \<Rightarrow> False | Some g \<Rightarrow> rg_quantified g \<or> rg_alternation g)
         then None
         else Some ((mark_group (\<lambda>g. g\<lparr> rg_quantified := True \<rparr>) st)
                      \<lparr> sc_previousQuantifier := True, sc_closed := None \<rparr>))
      else Some (st\<lparr> sc_previousQuantifier := False, sc_closed := None \<rparr>))"

fun scan_pattern :: "char option \<Rightarrow> string \<Rightarrow> regex_scan \<Rightarrow> regex_scan option" where
  "scan_pattern prev [] st = Some st"
| "scan_pattern prev (c # cs) st =
     (case scan_char prev c st of None \<Rightarrow> None | Some st' \<Rightarrow> scan_pattern (Some c) cs st')"

type_synonym 're regex_engine = "string \<Rightarrow> 're option"

definition compileSafeRegex :: "'re regex_engine \<Rightarrow> string \<Rightarrow> regex_error + 're" where
  "compileSafeRegex regexp pattern =
     (if pattern = '''' \<or> length pattern > MAX_PATTERN_CHARS then Inl BadLength
      else if unsupported_construct pattern then Inl Unsupported
      else case scan_pattern None pattern scan_start of
             None \<Rightarrow> Inl NestedRepetition
           | Some _ \<Rightarrow> (case regexp pattern of None \<Rightarrow> Inl Invalid | Some re \<Rightarrow> Inr re))"

section \<open>Command policies\<close>

datatype command_decision = Allow | Deny | RequireApproval

record command_rule =
  cr_pattern :: string
  cr_decision :: command_decision
  cr_reason :: "string option"

datatype policy_mode = Denylist | Allowlist

record command_policy =
  cp_mode :: policy_mode
  cp_rules :: "command_rule list"

record command_evaluation =
  ce_decision :: command_decision
  ce_reason :: "string option"
  ce_matched :: "string option"
  ce_approvalKey :: "string option"

definition composePolicy :: "command_policy \<Rightarrow> command_policy option \<Rightarrow> command_policy" where
  "composePolicy orgFloor sc =
     (case sc of
        None \<Rightarrow> orgFloor
      | Some s \<Rightarrow> \<lparr> cp_mode = (if cp_mode orgFloor = Allowlist then Allowlist else cp_mode s),
                    cp_rules = cp_rules orgFloor @ cp_rules s \<rparr>)"

datatype policy_error =
    PolicyNotObject | BadMode | RulesNotArray | RuleNotObject nat | RulePatternEmpty nat
  | RulePatternInvalid nat regex_error | RuleBadDecision nat | RuleBadReason nat

fun parse_decision :: "json option \<Rightarrow> command_decision option" where
  "parse_decision (Some (JStr s)) =
     (if s = ''allow'' then Some Allow
      else if s = ''deny'' then Some Deny
      else if s = ''require_approval'' then Some RequireApproval else None)"
| "parse_decision _ = None"

text \<open>A rule must be an object; an array passes \<open>typeof raw === "object"\<close> but has no pattern.\<close>

definition parse_rule :: "'re regex_engine \<Rightarrow> nat \<Rightarrow> json \<Rightarrow> policy_error + command_rule" where
  "parse_rule regexp i raw =
     (if \<not> (case raw of JObj _ \<Rightarrow> True | JArr _ \<Rightarrow> True | _ \<Rightarrow> False) then Inl (RuleNotObject i)
      else case json_get ''pattern'' raw of
             Some (JStr pattern) \<Rightarrow>
               if pattern = '''' then Inl (RulePatternEmpty i)
               else (case compileSafeRegex regexp pattern of
                       Inl e \<Rightarrow> Inl (RulePatternInvalid i e)
                     | Inr _ \<Rightarrow>
                         (case parse_decision (json_get ''decision'' raw) of
                            None \<Rightarrow> Inl (RuleBadDecision i)
                          | Some d \<Rightarrow>
                              (case json_get ''reason'' raw of
                                 None \<Rightarrow> Inr \<lparr> cr_pattern = pattern, cr_decision = d, cr_reason = None \<rparr>
                               | Some (JStr r) \<Rightarrow> Inr \<lparr> cr_pattern = pattern, cr_decision = d, cr_reason = Some r \<rparr>
                               | Some _ \<Rightarrow> Inl (RuleBadReason i))))
           | _ \<Rightarrow> Inl (RulePatternEmpty i))"

fun parse_rules :: "'re regex_engine \<Rightarrow> nat \<Rightarrow> json list \<Rightarrow> policy_error + command_rule list" where
  "parse_rules regexp i [] = Inr []"
| "parse_rules regexp i (raw # raws) =
     (case parse_rule regexp i raw of
        Inl e \<Rightarrow> Inl e
      | Inr r \<Rightarrow> (case parse_rules regexp (i + 1) raws of Inl e \<Rightarrow> Inl e | Inr rs \<Rightarrow> Inr (r # rs)))"

definition parseCommandPolicy :: "'re regex_engine \<Rightarrow> json \<Rightarrow> policy_error + command_policy" where
  "parseCommandPolicy regexp input =
     (case input of
        JObj _ \<Rightarrow>
          (case (if json_get ''mode'' input = Some (JStr ''denylist'') then Some Denylist
                 else if json_get ''mode'' input = Some (JStr ''allowlist'') then Some Allowlist else None) of
             None \<Rightarrow> Inl BadMode
           | Some mode \<Rightarrow>
               (case json_get ''rules'' input of
                  Some (JArr raws) \<Rightarrow>
                    (case parse_rules regexp 0 raws of
                       Inl e \<Rightarrow> Inl e
                     | Inr rules \<Rightarrow> Inr \<lparr> cp_mode = mode, cp_rules = rules \<rparr>)
                | _ \<Rightarrow> Inl RulesNotArray))
      | _ \<Rightarrow> Inl PolicyNotObject)"

type_synonym regex_search = "string \<Rightarrow> string option"

fun firstMatch :: "regex_search regex_engine \<Rightarrow> string \<Rightarrow> command_rule list \<Rightarrow> command_evaluation option" where
  "firstMatch regexp scannable [] = None"
| "firstMatch regexp scannable (rule # rules) =
     (case compileSafeRegex regexp (cr_pattern rule) of
        Inl _ \<Rightarrow> firstMatch regexp scannable rules
      | Inr re \<Rightarrow>
          (case re scannable of
             Some hit \<Rightarrow> Some \<lparr> ce_decision = cr_decision rule,
                              ce_reason = (if truthy (cr_reason rule) then cr_reason rule else None),
                              ce_matched = Some hit, ce_approvalKey = Some (cr_pattern rule) \<rparr>
           | None \<Rightarrow> firstMatch regexp scannable rules))"

definition not_in_allowlist :: command_evaluation where
  "not_in_allowlist = \<lparr> ce_decision = Deny, ce_reason = Some ''not in allowlist'', ce_matched = None,
     ce_approvalKey = None \<rparr>"

definition allowed_evaluation :: command_evaluation where
  "allowed_evaluation = \<lparr> ce_decision = Allow, ce_reason = None, ce_matched = None, ce_approvalKey = None \<rparr>"

definition evaluateCommand ::
  "regex_search regex_engine \<Rightarrow> string \<Rightarrow> command_policy \<Rightarrow> command_evaluation option" where
  "evaluateCommand regexp command policy =
     map_option
       (\<lambda>scannable.
          case firstMatch regexp scannable (cp_rules policy) of
            Some e \<Rightarrow> e
          | None \<Rightarrow> if cp_mode policy = Allowlist then not_in_allowlist else allowed_evaluation)
       (scannableCommand command)"

definition evaluateCommandWithLayer ::
  "regex_search regex_engine \<Rightarrow> string \<Rightarrow> command_policy \<Rightarrow> command_rule list \<Rightarrow> command_evaluation option" where
  "evaluateCommandWithLayer regexp command policy layerRules =
     map_option
       (\<lambda>scannable.
          case firstMatch regexp scannable (cp_rules policy) of
            Some e \<Rightarrow> e
          | None \<Rightarrow>
              if cp_mode policy = Allowlist then not_in_allowlist
              else (case firstMatch regexp scannable layerRules of Some e \<Rightarrow> e | None \<Rightarrow> allowed_evaluation))
       (scannableCommand command)"

section \<open>Security postures\<close>

datatype security_posture = Dangerous | Auto | Strict

fun posture_name :: "security_posture \<Rightarrow> string" where
  "posture_name Dangerous = ''dangerous''"
| "posture_name Auto = ''auto''"
| "posture_name Strict = ''strict''"

record security_policy =
  sp_screensExternal :: bool
  sp_approvesAll :: bool

fun resolveSecurityPolicy :: "security_posture \<Rightarrow> security_policy" where
  "resolveSecurityPolicy Dangerous = \<lparr> sp_screensExternal = False, sp_approvesAll = False \<rparr>"
| "resolveSecurityPolicy Auto = \<lparr> sp_screensExternal = True, sp_approvesAll = False \<rparr>"
| "resolveSecurityPolicy Strict = \<lparr> sp_screensExternal = False, sp_approvesAll = True \<rparr>"

fun POSTURE_RANK :: "security_posture \<Rightarrow> nat" where
  "POSTURE_RANK Dangerous = 0"
| "POSTURE_RANK Auto = 1"
| "POSTURE_RANK Strict = 2"

definition parseSecurityPosture :: "json \<Rightarrow> security_posture option" where
  "parseSecurityPosture v =
     (case v of
        JStr s \<Rightarrow> (let normalized = js_lower (js_trim s)
                   in List.find (\<lambda>p. posture_name p = normalized) [Dangerous, Auto, Strict])
      | _ \<Rightarrow> None)"

definition composeSecurityPosture :: "security_posture \<Rightarrow> security_posture option \<Rightarrow> security_posture" where
  "composeSecurityPosture orgFloor sc =
     (case sc of
        None \<Rightarrow> orgFloor
      | Some s \<Rightarrow> if POSTURE_RANK orgFloor \<ge> POSTURE_RANK s then orgFloor else s)"

text \<open>Postures are ordered by their rank.\<close>

instantiation security_posture :: linorder
begin

definition less_eq_security_posture :: "security_posture \<Rightarrow> security_posture \<Rightarrow> bool" where
  "p \<le> q \<longleftrightarrow> POSTURE_RANK p \<le> POSTURE_RANK q"

definition less_security_posture :: "security_posture \<Rightarrow> security_posture \<Rightarrow> bool" where
  "p < q \<longleftrightarrow> POSTURE_RANK p < POSTURE_RANK q"

instance
proof
  fix p q r :: security_posture
  show "p < q \<longleftrightarrow> p \<le> q \<and> \<not> q \<le> p" by (auto simp: less_security_posture_def less_eq_security_posture_def)
  show "p \<le> p" by (simp add: less_eq_security_posture_def)
  show "p \<le> q \<Longrightarrow> q \<le> r \<Longrightarrow> p \<le> r" by (simp add: less_eq_security_posture_def)
  show "p \<le> q \<Longrightarrow> q \<le> p \<Longrightarrow> p = q" by (cases p; cases q) (auto simp: less_eq_security_posture_def)
  show "p \<le> q \<or> q \<le> p" by (auto simp: less_eq_security_posture_def)
qed

end

section \<open>Properties\<close>

lemma firstMatch_append:
  "firstMatch regexp s (xs @ ys) =
     (case firstMatch regexp s xs of None \<Rightarrow> firstMatch regexp s ys | Some e \<Rightarrow> Some e)"
  by (induction xs) (auto split: sum.splits option.splits)

text \<open>
  C23. The organisation's command policy is a floor: whatever rule of it first matches a command decides,
  and no scope policy or layer can change that decision; a scope's own rules only decide what the
  organisation's left open; a command that matches nothing is denied as soon as either policy is an
  allowlist, and then no layer rule is consulted; a layer only decides what neither policy matched.
\<close>

theorem org_policy_is_floor:
  assumes "scannableCommand cmd = Some found"
  shows "let policy = composePolicy org (Some sc);
       orgHit = firstMatch regexp found (cp_rules org);
       scopeHit = firstMatch regexp found (cp_rules sc);
       strict = (cp_mode org = Allowlist \<or> cp_mode sc = Allowlist)
   in evaluateCommandWithLayer regexp cmd policy layer =
        Some (case orgHit of
           Some e \<Rightarrow> e
         | None \<Rightarrow>
             (case scopeHit of
                Some e \<Rightarrow> e
              | None \<Rightarrow>
                  if strict then not_in_allowlist
                  else (case firstMatch regexp found layer of Some e \<Rightarrow> e | None \<Rightarrow> allowed_evaluation))) \<and>
      evaluateCommand regexp cmd policy =
        Some (case orgHit of
           Some e \<Rightarrow> e
         | None \<Rightarrow>
             (case scopeHit of Some e \<Rightarrow> e | None \<Rightarrow> if strict then not_in_allowlist else allowed_evaluation))"
  by (cases "cp_mode sc")
     (auto simp: Let_def evaluateCommand_def evaluateCommandWithLayer_def composePolicy_def firstMatch_append assms
       split: option.split)

text \<open>A search that finds a pattern written out, for concrete policies.\<close>

definition literal_search :: "regex_search regex_engine" where
  "literal_search p = Some (\<lambda>s. if js_includes s p then Some p else None)"

definition deny_rule :: "string \<Rightarrow> command_rule" where
  "deny_rule p = \<lparr> cr_pattern = p, cr_decision = Deny, cr_reason = None \<rparr>"

theorem org_policy_is_floor_witness:
  "evaluateCommand literal_search (''sh -c '' @ single_quoted ''rm -rf x'')
     (composePolicy \<lparr> cp_mode = Denylist, cp_rules = [deny_rule ''rm -rf''] \<rparr>
        (Some \<lparr> cp_mode = Denylist,
                cp_rules = [\<lparr> cr_pattern = ''rm'', cr_decision = Allow, cr_reason = None \<rparr>] \<rparr>)) =
   Some \<lparr> ce_decision = Deny, ce_reason = None, ce_matched = Some ''rm -rf'', ce_approvalKey = Some ''rm -rf'' \<rparr>"
proof -
  let ?found = "''sh -c '' @ [squote, squote, newline] @ ''rm -rf x''"
  have found: "scannableCommand (''sh -c '' @ single_quoted ''rm -rf x'') = Some ?found"
    by code_simp
  have hit: "firstMatch literal_search ?found [deny_rule ''rm -rf''] =
      Some \<lparr> ce_decision = Deny, ce_reason = None, ce_matched = Some ''rm -rf'', ce_approvalKey = Some ''rm -rf'' \<rparr>"
    by code_simp
  show ?thesis
    using org_policy_is_floor [OF found, where org = "\<lparr> cp_mode = Denylist, cp_rules = [deny_rule ''rm -rf''] \<rparr>"
        and sc = "\<lparr> cp_mode = Denylist, cp_rules = [\<lparr> cr_pattern = ''rm'', cr_decision = Allow, cr_reason = None \<rparr>] \<rparr>"
        and regexp = literal_search and layer = "[]"] hit
    unfolding Let_def by simp
qed

lemma parse_rule_compiles:
  "parse_rule regexp i raw = Inr r \<Longrightarrow> \<exists>re. compileSafeRegex regexp (cr_pattern r) = Inr re"
  by (auto simp: parse_rule_def split: if_splits option.splits json.splits sum.splits)

lemma parse_rules_compile:
  "parse_rules regexp i raws = Inr rs \<Longrightarrow> \<forall>r \<in> set rs. \<exists>re. compileSafeRegex regexp (cr_pattern r) = Inr re"
  by (induction raws arbitrary: i rs) (auto split: sum.splits dest: parse_rule_compiles)

text \<open>
  No rule of an accepted policy is ever skipped: every pattern that \<open>parseCommandPolicy\<close> accepts
  compiles when the policy is evaluated, so a command any of whose rules matches is decided by the
  first rule whose search finds something.
\<close>

theorem accepted_rules_apply:
  assumes "parseCommandPolicy regexp input = Inr policy"
  shows "(\<forall>r \<in> set (cp_rules policy). \<exists>re. compileSafeRegex regexp (cr_pattern r) = Inr re \<and>
            regexp (cr_pattern r) = Some re \<and> length (cr_pattern r) \<le> MAX_PATTERN_CHARS) \<and>
    (firstMatch regexp text (cp_rules policy) = None \<longleftrightarrow>
       (\<forall>r \<in> set (cp_rules policy). \<exists>re. regexp (cr_pattern r) = Some re \<and> re text = None))"
proof -
  obtain i raws where "parse_rules regexp i raws = Inr (cp_rules policy)"
    using assms by (auto simp: parseCommandPolicy_def split: json.splits option.splits sum.splits if_splits)
  then have c: "\<forall>r \<in> set (cp_rules policy). \<exists>re. compileSafeRegex regexp (cr_pattern r) = Inr re"
    by (rule parse_rules_compile)
  have d: "compileSafeRegex regexp p = Inr re \<Longrightarrow> regexp p = Some re \<and> length p \<le> MAX_PATTERN_CHARS" for p re
    by (auto simp: compileSafeRegex_def split: if_splits option.splits)
  have "firstMatch regexp text rs = None \<longleftrightarrow> (\<forall>r \<in> set rs. \<exists>re. regexp (cr_pattern r) = Some re \<and> re text = None)"
    if "\<forall>r \<in> set rs. \<exists>re. compileSafeRegex regexp (cr_pattern r) = Inr re" for rs
    using that
  proof (induction rs)
    case (Cons r rs)
    then obtain re where "compileSafeRegex regexp (cr_pattern r) = Inr re" by auto
    with d [OF this] Cons show ?case by (simp split: option.splits)
  qed simp
  with c d show ?thesis by blast
qed

theorem accepted_rules_apply_witness:
  "let regexp = (\<lambda>p. Some (\<lambda>s. if js_includes s p then Some p else None));
       input = JObj [(''mode'', JStr ''denylist''),
                     (''rules'', JArr [JObj [(''pattern'', JStr ''mkfs''), (''decision'', JStr ''deny'')]])]
   in case parseCommandPolicy regexp input of
        Inl _ \<Rightarrow> False
      | Inr policy \<Rightarrow> firstMatch regexp ''ls'' (cp_rules policy) = None"
proof -
  let ?re = "\<lambda>p. Some (\<lambda>s. if js_includes s p then Some p else None)"
  let ?in = "JObj [(''mode'', JStr ''denylist''),
                     (''rules'', JArr [JObj [(''pattern'', JStr ''mkfs''), (''decision'', JStr ''deny'')]])]"
  let ?p = "\<lparr> cp_mode = Denylist, cp_rules = [\<lparr> cr_pattern = ''mkfs'', cr_decision = Deny, cr_reason = None \<rparr>] \<rparr>"
  have p: "parseCommandPolicy ?re ?in = Inr ?p"
    by (simp add: parseCommandPolicy_def parse_rule_def compileSafeRegex_def MAX_PATTERN_CHARS_def
        scan_char_def scan_start_def is_quantifier_def)
  from accepted_rules_apply [OF p, of "''ls''"] have "firstMatch ?re ''ls'' (cp_rules ?p) = None"
    by (simp add: js_startsWith_def)
  with p show ?thesis by (simp add: Let_def)
qed

text \<open>
  Security postures only tighten: the posture in force is the stricter of the organisation's floor
  and the scope's own, so it is never below the floor; what is written as a posture is read back in any
  case and with surrounding blanks, and nothing else is a posture.
\<close>

theorem posture_floor:
  "composeSecurityPosture org (Some sc) = max org sc \<and> org \<le> composeSecurityPosture org choice \<and>
   parseSecurityPosture (JStr (posture_name p)) = Some p \<and>
   (parseSecurityPosture (JStr s) = Some p \<longleftrightarrow> js_lower (js_trim s) = posture_name p)"
proof -
  have "composeSecurityPosture org (Some sc) = max org sc"
    by (auto simp: composeSecurityPosture_def max_def less_eq_security_posture_def dest: le_antisym)
       (cases org; cases sc; simp)
  moreover have "org \<le> composeSecurityPosture org choice"
    by (auto simp: composeSecurityPosture_def less_eq_security_posture_def split: option.split)
  moreover have "parseSecurityPosture (JStr (posture_name p)) = Some p"
    by (cases p) (auto simp: parseSecurityPosture_def js_defs Let_def)
  moreover have "parseSecurityPosture (JStr s) = Some p \<longleftrightarrow> js_lower (js_trim s) = posture_name p"
  proof -
    obtain x where x: "js_lower (js_trim s) = x" by simp
    show ?thesis unfolding parseSecurityPosture_def json.case Let_def x by (cases p) auto
  qed
  ultimately show ?thesis by blast
qed

end
