(* ===== verification/Tape.thy ===== *)
theory Tape
  imports Entitlement
begin

text \<open>
  The tape of a session as model context (\<open>src/harness/tape-fold.ts\<close>): which rows an audience may have
  replayed, how rows are folded into the list of messages that seeds a model, how tool calls that were
  cut off are closed, and the lint that a fold must pass before it is served. A message is the JSON
  object stored in the row; \<open>messages\<close> and \<open>content\<close> fields that are not arrays count as absent.
\<close>

section \<open>Reading messages\<close>

text \<open>The dashes of the source, which are outside the alphabet, are written as hyphens.\<close>

definition INTERRUPTED_TOOL_RESULT :: string where
  "INTERRUPTED_TOOL_RESULT = ''[interrupted - the platform restarted while this tool call was running and its outcome was not recorded. Check what actually happened before redoing anything with side effects.]''"

definition text_block :: "string \<Rightarrow> json" where
  "text_block s = JObj [(''type'', JStr ''text''), (''text'', JStr s)]"

definition interrupted_result :: "string \<Rightarrow> string \<Rightarrow> time \<Rightarrow> json" where
  "interrupted_result callId toolName at =
     JObj [(''role'', JStr ''toolResult''), (''toolCallId'', JStr callId), (''toolName'', JStr toolName),
           (''content'', JArr [text_block INTERRUPTED_TOOL_RESULT]), (''isError'', JBool True), (''timestamp'', JNum at)]"

section \<open>The audience's rows\<close>

definition blank_row :: "tape_record \<Rightarrow> tape_record list" where
  "blank_row r =
     (case (json_get_str ''role'' (tp_payload r), json_get_str ''toolCallId'' (tp_payload r)) of
        (Some role, Some callId) \<Rightarrow>
          if role = ''toolResult''
          then [r\<lparr> tp_payload := interrupted_result callId
                     (case json_get_str ''toolName'' (tp_payload r) of Some n \<Rightarrow> n | None \<Rightarrow> ''tool'') (tp_createdAt r) \<rparr>]
          else []
      | _ \<Rightarrow> [])"

definition filterTapeForAudience ::
  "tape_record list \<Rightarrow> principal list \<Rightarrow> scope_id \<Rightarrow> scope_id \<Rightarrow> tape_record list" where
  "filterTapeForAudience rows audience sessionScopeId orgScopeId =
     (if audience = [] then []
      else concat (map
        (\<lambda>r. if tp_kind r \<noteq> TMessage \<or>
                 list_all (\<lambda>p. principalEntitledToScope p (tp_scopeLabel r) sessionScopeId orgScopeId) audience
              then [r] else blank_row r) rows))"

datatype tape_event = Compaction string | LegacyImport "json list" | LegacyPatch "json list" | Interrupt

definition contextEvent :: "tape_record \<Rightarrow> tape_event option" where
  "contextEvent row =
     (if tp_kind row \<noteq> TContextEvent then None
      else
        let event = json_get_str ''event'' (tp_payload row);
            messages = (case json_get_arr ''messages'' (tp_payload row) of Some ms \<Rightarrow> ms | None \<Rightarrow> [])
        in if event = Some ''compaction''
           then Some (Compaction (case json_get_str ''text'' (tp_payload row) of Some t \<Rightarrow> t | None \<Rightarrow> ''undefined''))
           else if event = Some ''legacy_import'' then Some (LegacyImport messages)
           else if event = Some ''legacy_patch'' then Some (LegacyPatch messages)
           else if event = Some ''interrupt'' then Some Interrupt
           else None)"

definition is_import :: "tape_record \<Rightarrow> bool" where
  "is_import r = (case contextEvent r of Some (LegacyImport _) \<Rightarrow> True | _ \<Rightarrow> False)"

definition lastImportLacksScopes :: "tape_record list \<Rightarrow> bool" where
  "lastImportLacksScopes rows =
     (case js_find_last is_import rows of
        None \<Rightarrow> False
      | Some r \<Rightarrow> json_get_arr ''scopes'' (tp_payload r) = None)"

text \<open>The rows from the last import on.\<close>

fun since_import :: "tape_record list \<Rightarrow> tape_record list" where
  "since_import [] = []"
| "since_import (r # rows) = (if list_ex is_import rows then since_import rows else r # rows)"

definition event_entitled :: "(scope_id \<Rightarrow> bool) \<Rightarrow> tape_record \<Rightarrow> bool" where
  "event_entitled entitled r =
     (case contextEvent r of
        None \<Rightarrow> True
      | Some Interrupt \<Rightarrow> True
      | Some (Compaction _) \<Rightarrow> entitled (tp_scopeLabel r)
      | Some _ \<Rightarrow>
          entitled (tp_scopeLabel r) \<and>
          (case json_get_arr ''scopes'' (tp_payload r) of
             None \<Rightarrow> False
           | Some scopes \<Rightarrow> list_all (\<lambda>s. case s of JStr l \<Rightarrow> entitled l | _ \<Rightarrow> False) scopes))"

definition tapeEventsEntitled ::
  "tape_record list \<Rightarrow> principal list \<Rightarrow> scope_id \<Rightarrow> scope_id \<Rightarrow> bool" where
  "tapeEventsEntitled rows audience sessionScopeId orgScopeId =
     (if audience = [] then False
      else list_all
        (event_entitled (\<lambda>l. list_all (\<lambda>p. principalEntitledToScope p l sessionScopeId orgScopeId) audience))
        (since_import rows))"

section \<open>Folding\<close>

record foldable =
  fo_out :: "json list"
  fo_boundaries :: "(nat \<times> int) list"

definition tool_call_id :: "json \<Rightarrow> (string \<times> string) option" where
  "tool_call_id b =
     (if json_get_str ''type'' b = Some ''toolCall''
      then map_option (\<lambda>i. (i, case json_get_str ''name'' b of Some n \<Rightarrow> n | None \<Rightarrow> ''tool'')) (json_get_str ''id'' b)
      else None)"

text \<open>The tool calls of a message, with their names, and the call that a message answers.\<close>

definition message_calls :: "json \<Rightarrow> (string \<times> string) list" where
  "message_calls m =
     (if json_get_str ''role'' m = Some ''assistant''
      then (case json_get_arr ''content'' m of None \<Rightarrow> [] | Some bs \<Rightarrow> List.map_filter tool_call_id bs)
      else [])"

definition message_answer :: "json \<Rightarrow> string option" where
  "message_answer m = (if json_get_str ''role'' m = Some ''toolResult'' then json_get_str ''toolCallId'' m else None)"

definition answered_calls :: "json list \<Rightarrow> string list" where
  "answered_calls out = List.map_filter message_answer out"

definition healDanglingCalls :: "json list \<Rightarrow> time \<Rightarrow> json list" where
  "healDanglingCalls out at =
     out @ map (\<lambda>(i, name). interrupted_result i name at)
             (filter (\<lambda>(i, _). i \<notin> set (answered_calls out)) (concat (map message_calls out)))"

definition summary_message :: "string \<Rightarrow> time \<Rightarrow> json" where
  "summary_message t at =
     JObj [(''role'', JStr ''user''),
           (''content'', JArr [text_block (''[Earlier conversation summary]'' @ [CHR 0x0A] @ t)]),
           (''timestamp'', JNum at)]"

text \<open>The last boundary that is covered.\<close>

definition covered_cut :: "int option \<Rightarrow> (nat \<times> int) list \<Rightarrow> nat option" where
  "covered_cut covers boundaries =
     (case covers of
        None \<Rightarrow> None
      | Some c \<Rightarrow> map_option fst (js_find_last (\<lambda>(_, entrySeq). entrySeq \<le> c) boundaries))"

definition fold_row :: "foldable \<Rightarrow> tape_record \<Rightarrow> foldable" where
  "fold_row f row =
     (if tp_kind row = TAnnotation
      then (case tp_entrySeq row of
              Some e \<Rightarrow>
                if json_get ''turnEnd'' (tp_payload row) = Some (JBool True)
                then f\<lparr> fo_boundaries := fo_boundaries f @ [(length (fo_out f), e)] \<rparr> else f
            | None \<Rightarrow> f)
      else
        case contextEvent row of
          Some (LegacyImport ms) \<Rightarrow>
            \<lparr> fo_out = ms, fo_boundaries = (case tp_coversEntrySeq row of Some c \<Rightarrow> [(length ms, c)] | None \<Rightarrow> []) \<rparr>
        | Some (LegacyPatch ms) \<Rightarrow>
            \<lparr> fo_out = fo_out f @ ms,
              fo_boundaries = fo_boundaries f @
                (case tp_coversEntrySeq row of Some c \<Rightarrow> [(length (fo_out f @ ms), c)] | None \<Rightarrow> []) \<rparr>
        | Some (Compaction t) \<Rightarrow>
            (case covered_cut (tp_coversEntrySeq row) (fo_boundaries f) of
               Some base \<Rightarrow>
                 \<lparr> fo_out = summary_message t (tp_createdAt row) # drop base (fo_out f),
                   fo_boundaries = map (\<lambda>(pos, e). (pos - base + 1, e)) (filter (\<lambda>(pos, _). base \<le> pos) (fo_boundaries f)) \<rparr>
             | None \<Rightarrow>
                 \<lparr> fo_out = summary_message t (tp_createdAt row) # fo_out f,
                   fo_boundaries = map (\<lambda>(pos, e). (pos + 1, e)) (fo_boundaries f) \<rparr>)
        | Some Interrupt \<Rightarrow> f\<lparr> fo_out := healDanglingCalls (fo_out f) (tp_createdAt row) \<rparr>
        | None \<Rightarrow>
            if tp_kind row = TMessage \<and> tp_payload row \<noteq> JNull
            then f\<lparr> fo_out := fo_out f @ [tp_payload row] \<rparr> else f)"

definition fold_start :: foldable where
  "fold_start = \<lparr> fo_out = [], fo_boundaries = [] \<rparr>"

definition foldTape :: "tape_record list \<Rightarrow> json list" where
  "foldTape rows = fo_out (foldl fold_row fold_start rows)"

section \<open>Lint\<close>

datatype fold_problem =
    FirstNotUser
  | UnknownRole nat
  | ImageWithoutBytes nat
  | DuplicateCall nat string
  | OrphanResult nat
  | UserWhileOpen nat nat
  | DanglingAtEnd nat

record lint_state =
  ls_open :: "string list"
  ls_seen :: "string list"
  ls_problems :: "fold_problem list"

definition stripped_image :: "json \<Rightarrow> bool" where
  "stripped_image b \<longleftrightarrow> json_get_str ''type'' b = Some ''image'' \<and> json_get_str ''data'' b = None"

definition image_problems :: "nat \<Rightarrow> json \<Rightarrow> fold_problem list" where
  "image_problems i m =
     (case json_get_arr ''content'' m of
        None \<Rightarrow> []
      | Some bs \<Rightarrow> map (\<lambda>_. ImageWithoutBytes i) (filter stripped_image bs))"

definition lint_call :: "nat \<Rightarrow> string \<Rightarrow> lint_state \<Rightarrow> lint_state" where
  "lint_call i c s =
     s\<lparr> ls_problems := ls_problems s @ (if c \<in> set (ls_seen s) then [DuplicateCall i c] else []),
        ls_seen := jset_add c (ls_seen s), ls_open := jset_add c (ls_open s) \<rparr>"

definition lint_message :: "nat \<Rightarrow> json \<Rightarrow> lint_state \<Rightarrow> lint_state" where
  "lint_message i m s =
     (let role = json_get_str ''role'' m
      in if role \<noteq> Some ''user'' \<and> role \<noteq> Some ''assistant'' \<and> role \<noteq> Some ''toolResult''
         then s\<lparr> ls_problems := ls_problems s @ [UnknownRole i] \<rparr>
         else
           let s = s\<lparr> ls_problems := ls_problems s @ image_problems i m \<rparr>
           in if role = Some ''assistant'' \<and> json_get_arr ''content'' m \<noteq> None
              then fold (lint_call i) (map fst (message_calls m)) s
              else if role = Some ''toolResult''
              then (case json_get_str ''toolCallId'' m of
                      Some c \<Rightarrow>
                        if c \<in> set (ls_open s) then s\<lparr> ls_open := filter (\<lambda>d. d \<noteq> c) (ls_open s) \<rparr>
                        else s\<lparr> ls_problems := ls_problems s @ [OrphanResult i] \<rparr>
                    | None \<Rightarrow> s\<lparr> ls_problems := ls_problems s @ [OrphanResult i] \<rparr>)
              else if role = Some ''user'' \<and> ls_open s \<noteq> []
              then s\<lparr> ls_problems := ls_problems s @ [UserWhileOpen i (length (ls_open s))], ls_open := [] \<rparr>
              else s)"

fun lint_messages :: "nat \<Rightarrow> json list \<Rightarrow> lint_state \<Rightarrow> lint_state" where
  "lint_messages i [] s = s"
| "lint_messages i (m # ms) s = lint_messages (Suc i) ms (lint_message i m s)"

definition lint_start :: "json list \<Rightarrow> lint_state" where
  "lint_start messages =
     \<lparr> ls_open = [], ls_seen = [],
       ls_problems = (case messages of
                        [] \<Rightarrow> []
                      | m # _ \<Rightarrow>
                          if json_truthy m \<and> json_get_str ''role'' m \<noteq> Some ''user'' then [FirstNotUser] else []) \<rparr>"

definition lintFold :: "json list \<Rightarrow> fold_problem list" where
  "lintFold messages =
     (let s = lint_messages 0 messages (lint_start messages)
      in ls_problems s @ (if ls_open s = [] then [] else [DanglingAtEnd (length (ls_open s))]))"

section \<open>Seeding a model\<close>

datatype tape_mode = Shadow | Serve

record seed_plan =
  sp_seed :: "json list option"
  sp_foreign :: bool
  sp_lint :: "fold_problem list option"
  sp_fold :: "json list option"

definition planTapeSeed ::
  "tape_record list \<Rightarrow> string \<Rightarrow> tape_mode option \<Rightarrow> json list option \<Rightarrow> seed_plan" where
  "planTapeSeed rows harness mode folded =
     (if list_ex (\<lambda>r. tp_kind r = TMessage \<and> tp_harness r \<noteq> None \<and> tp_harness r \<noteq> Some harness) rows
      then \<lparr> sp_seed = None, sp_foreign = True, sp_lint = None, sp_fold = None \<rparr>
      else
        let fold = (case folded of Some f \<Rightarrow> f | None \<Rightarrow> foldTape rows); lint = lintFold fold
        in \<lparr> sp_seed = (if mode = Some Serve \<and> lint = [] \<and> fold \<noteq> [] then Some fold else None),
             sp_foreign = False, sp_lint = Some lint, sp_fold = Some fold \<rparr>)"

fun is_end_problem :: "fold_problem \<Rightarrow> bool" where
  "is_end_problem (DanglingAtEnd _) = True"
| "is_end_problem _ = False"

definition tapeNeedsInterruptHeal :: "tape_record list \<Rightarrow> json list option \<Rightarrow> bool" where
  "tapeNeedsInterruptHeal rows folded =
     (let problems = lintFold (case folded of Some f \<Rightarrow> f | None \<Rightarrow> foldTape rows)
      in problems \<noteq> [] \<and> list_all is_end_problem problems)"

definition healFoldInterrupt :: "json list \<Rightarrow> time \<Rightarrow> json list" where
  "healFoldInterrupt messages at = healDanglingCalls messages at"

section \<open>Closing calls that were cut off\<close>

definition call_ids :: "json list \<Rightarrow> string list" where
  "call_ids ms = map fst (concat (map message_calls ms))"

lemma call_ids_append [simp]: "call_ids (xs @ ys) = call_ids xs @ call_ids ys"
  by (simp add: call_ids_def)

lemma answered_append [simp]: "answered_calls (xs @ ys) = answered_calls xs @ answered_calls ys"
  by (simp add: answered_calls_def map_filter_def)

lemma lint_messages_append:
  "lint_messages i (xs @ ys) s = lint_messages (i + length xs) ys (lint_messages i xs s)"
  by (induction xs arbitrary: i s) auto

lemma fold_lint_call:
  assumes "ls_problems (fold (lint_call i) cs s) = []" "set (ls_open s) \<subseteq> set (ls_seen s)"
  shows "ls_problems s = [] \<and> distinct cs \<and> set cs \<inter> set (ls_seen s) = {} \<and>
    ls_seen (fold (lint_call i) cs s) = ls_seen s @ cs \<and> ls_open (fold (lint_call i) cs s) = ls_open s @ cs"
  using assms
proof (induction cs arbitrary: s)
  case (Cons c cs)
  have sub: "set (ls_open (lint_call i c s)) \<subseteq> set (ls_seen (lint_call i c s))"
    using Cons.prems(2) by (auto simp: lint_call_def)
  have ih: "ls_problems (lint_call i c s) = []" "distinct cs" "set cs \<inter> set (ls_seen (lint_call i c s)) = {}"
    "ls_seen (fold (lint_call i) cs (lint_call i c s)) = ls_seen (lint_call i c s) @ cs"
    "ls_open (fold (lint_call i) cs (lint_call i c s)) = ls_open (lint_call i c s) @ cs"
    using Cons.IH [OF _ sub] Cons.prems(1) by auto
  from ih(1) have c: "c \<notin> set (ls_seen s)" "ls_problems s = []"
    by (auto simp: lint_call_def split: if_splits)
  then have "c \<notin> set (ls_open s)" using Cons.prems(2) by blast
  with c have "ls_seen (lint_call i c s) = ls_seen s @ [c]" "ls_open (lint_call i c s) = ls_open s @ [c]"
    by (simp_all add: lint_call_def jset_add_def)
  with ih c show ?case by auto
qed simp

text \<open>What the lint knows after messages without a problem.\<close>

definition lint_knows :: "json list \<Rightarrow> lint_state \<Rightarrow> bool" where
  "lint_knows seen_so_far s \<longleftrightarrow>
     distinct (call_ids seen_so_far) \<and> set (answered_calls seen_so_far) \<subseteq> set (call_ids seen_so_far) \<and>
     ls_seen s = call_ids seen_so_far \<and>
     ls_open s = filter (\<lambda>c. c \<notin> set (answered_calls seen_so_far)) (call_ids seen_so_far)"

lemma lint_message_knows:
  assumes "lint_knows ms s" "ls_problems (lint_message i m s) = []"
  shows "ls_problems s = [] \<and> lint_knows (ms @ [m]) (lint_message i m s)"
proof -
  let ?role = "json_get_str ''role'' m"
  have open_seen: "set (ls_open s) \<subseteq> set (ls_seen s)" using assms(1) by (auto simp: lint_knows_def)
  have role: "?role = Some ''user'' \<or> ?role = Some ''assistant'' \<or> ?role = Some ''toolResult''"
    using assms(2) by (auto simp: lint_message_def Let_def split: if_splits)
  let ?s = "s\<lparr> ls_problems := ls_problems s @ image_problems i m \<rparr>"
  consider (calls) "?role = Some ''assistant''" "json_get_arr ''content'' m \<noteq> None"
    | (silent) "?role = Some ''assistant''" "json_get_arr ''content'' m = None"
    | (answer) "?role = Some ''toolResult''" | (user) "?role = Some ''user''"
    using role by blast
  then show ?thesis
  proof cases
    case calls
    then have eq: "lint_message i m s = fold (lint_call i) (map fst (message_calls m)) ?s"
      by (auto simp: lint_message_def Let_def)
    have "answered_calls [m] = []" "call_ids [m] = map fst (message_calls m)"
      using calls by (simp_all add: answered_calls_def map_filter_def message_answer_def call_ids_def)
    moreover note f = fold_lint_call [of i "map fst (message_calls m)" ?s, folded eq, OF assms(2)]
    moreover have "filter (\<lambda>c. c \<notin> set (answered_calls ms)) (map fst (message_calls m)) = map fst (message_calls m)"
      using f open_seen assms(1) by (fastforce simp: lint_knows_def filter_id_conv)
    ultimately show ?thesis using assms(1) open_seen by (auto simp: lint_knows_def)
  next
    case silent
    then have "answered_calls [m] = []" "call_ids [m] = []" "lint_message i m s = ?s"
      by (auto simp: answered_calls_def map_filter_def message_answer_def call_ids_def message_calls_def
        lint_message_def Let_def)
    with assms show ?thesis by (auto simp: lint_knows_def)
  next
    case answer
    with assms(2) obtain c where c: "json_get_str ''toolCallId'' m = Some c" "c \<in> set (ls_open s)"
        "lint_message i m s = ?s\<lparr> ls_open := filter (\<lambda>d. d \<noteq> c) (ls_open s) \<rparr>"
      by (auto simp: lint_message_def Let_def split: option.splits if_splits)
    from answer c(1) have "answered_calls [m] = [c]" "call_ids [m] = []"
      by (auto simp: answered_calls_def map_filter_def message_answer_def call_ids_def message_calls_def)
    with assms c show ?thesis by (auto simp: lint_knows_def intro: filter_cong)
  next
    case user
    with assms(2) have "ls_open s = []" "lint_message i m s = ?s"
      by (auto simp: lint_message_def Let_def split: if_splits)
    moreover from user have "answered_calls [m] = []" "call_ids [m] = []"
      by (auto simp: answered_calls_def map_filter_def message_answer_def call_ids_def message_calls_def)
    ultimately show ?thesis using assms by (auto simp: lint_knows_def)
  qed
qed

lemma lint_calls_clean: "ls_problems (fold (lint_call i) cs s) = [] \<Longrightarrow> ls_problems s = []"
proof (induction cs arbitrary: s)
  case (Cons c cs)
  then have "ls_problems (lint_call i c s) = []" by simp
  then show ?case by (simp add: lint_call_def)
qed simp

lemma lint_message_clean: "ls_problems (lint_message i m s) = [] \<Longrightarrow> ls_problems s = []"
  using lint_calls_clean [of i "map fst (message_calls m)" "s\<lparr> ls_problems := ls_problems s @ image_problems i m \<rparr>"]
  by (simp add: lint_message_def Let_def split: option.splits if_splits)

lemma lint_messages_clean: "ls_problems (lint_messages i ms s) = [] \<Longrightarrow> ls_problems s = []"
proof (induction ms arbitrary: i s)
  case (Cons m ms)
  then have "ls_problems (lint_message i m s) = []" by simp
  then show ?case by (rule lint_message_clean)
qed simp

lemma lint_messages_knows:
  "lint_knows pre s \<Longrightarrow> ls_problems (lint_messages i ms s) = [] \<Longrightarrow>
   ls_problems s = [] \<and> lint_knows (pre @ ms) (lint_messages i ms s)"
proof (induction ms arbitrary: i s pre)
  case (Cons m ms)
  have "ls_problems (lint_message i m s) = []"
    using lint_messages_clean [of "Suc i" ms "lint_message i m s"] Cons.prems(2) by simp
  from lint_message_knows [OF Cons.prems(1) this] Cons.IH [of "pre @ [m]" "lint_message i m s" "Suc i"] Cons.prems(2)
  show ?case by simp
qed simp

text \<open>The results that heal a fold close the calls that are open, and no others.\<close>

lemma lint_interrupted_result:
  assumes "c \<in> set (ls_open s)"
  shows "lint_message i (interrupted_result c n at) s = s\<lparr> ls_open := filter (\<lambda>d. d \<noteq> c) (ls_open s) \<rparr>"
  using assms by (simp add: lint_message_def interrupted_result_def image_problems_def json_get_str_def json_get_arr_def
    stripped_image_def text_block_def Let_def)

lemma lint_heal:
  "distinct (map fst cs) \<Longrightarrow> ls_open s = map fst cs \<Longrightarrow>
   lint_messages i (map (\<lambda>(c, n). interrupted_result c n at) cs) s = s\<lparr> ls_open := [] \<rparr>"
proof (induction cs arbitrary: i s)
  case (Cons cn cs)
  obtain c n where cn: "cn = (c, n)" by (rule prod.exhaust)
  have "filter (\<lambda>d. d \<noteq> c) (map fst cs) = map fst cs"
    using Cons.prems(1) cn by (auto simp: filter_id_conv)
  then have "lint_message i (interrupted_result c n at) s = s\<lparr> ls_open := map fst cs \<rparr>"
    using Cons.prems(2) cn by (subst lint_interrupted_result) auto
  with Cons.IH [of "s\<lparr> ls_open := map fst cs \<rparr>" "Suc i"] Cons.prems(1) cn show ?case by simp
qed simp

definition dangling :: "json list \<Rightarrow> (string \<times> string) list" where
  "dangling ms = filter (\<lambda>(c, _). c \<notin> set (answered_calls ms)) (concat (map message_calls ms))"

lemma map_fst_dangling: "map fst (dangling ms) = filter (\<lambda>c. c \<notin> set (answered_calls ms)) (call_ids ms)"
  by (simp add: dangling_def call_ids_def filter_map comp_def case_prod_unfold)

lemma heal_dangling: "healDanglingCalls ms at = ms @ map (\<lambda>(c, n). interrupted_result c n at) (dangling ms)"
  by (simp add: healDanglingCalls_def dangling_def)

lemma lint_start_knows: "lint_knows [] (lint_start ms)"
  by (simp add: lint_knows_def lint_start_def call_ids_def answered_calls_def map_filter_def)

lemma lint_heal_clean:
  assumes "ls_problems (lint_messages 0 ms (lint_start ms)) = []"
  shows "lintFold (healDanglingCalls ms at) = [] \<and>
    ls_open (lint_messages 0 ms (lint_start ms)) = map fst (dangling ms)"
proof -
  let ?s = "lint_messages 0 ms (lint_start ms)"
  have k: "lint_knows ms ?s" using lint_messages_knows [OF lint_start_knows assms] by simp
  then have o: "ls_open ?s = map fst (dangling ms)" "distinct (map fst (dangling ms))"
    by (simp_all add: lint_knows_def map_fst_dangling)
  have "lint_start (healDanglingCalls ms at) = lint_start ms"
    by (cases ms) (simp_all add: healDanglingCalls_def lint_start_def answered_calls_def)
  with lint_heal [OF o(2,1), of "length ms" at] assms o show ?thesis
    by (simp add: lintFold_def heal_dangling lint_messages_append Let_def)
qed

lemma lint_problem_kinds:
  "list_all (\<lambda>p. \<not> is_end_problem p) (ls_problems s) \<Longrightarrow>
   list_all (\<lambda>p. \<not> is_end_problem p) (ls_problems (lint_messages i ms s))"
proof (induction ms arbitrary: i s)
  case (Cons m ms)
  have "list_all (\<lambda>p. \<not> is_end_problem p) (ls_problems s) \<Longrightarrow>
      list_all (\<lambda>p. \<not> is_end_problem p) (ls_problems (fold (lint_call i) cs s))" for cs s
  proof (induction cs arbitrary: s)
    case (Cons c cs)
    have "list_all (\<lambda>p. \<not> is_end_problem p) (ls_problems (lint_call i c s))"
      using Cons.prems by (simp add: lint_call_def)
    with Cons.IH show ?case by simp
  qed simp
  moreover have "list_all (\<lambda>p. \<not> is_end_problem p) (image_problems i m)"
    by (auto simp: image_problems_def list_all_iff split: option.splits)
  ultimately have "list_all (\<lambda>p. \<not> is_end_problem p) (ls_problems (lint_message i m s))"
    using Cons.prems by (auto simp: lint_message_def Let_def split: option.splits)
  with Cons.IH show ?case by simp
qed simp

lemma needs_heal_clean:
  assumes "tapeNeedsInterruptHeal rows (Some ms)"
  shows "ls_problems (lint_messages 0 ms (lint_start ms)) = [] \<and> ms \<noteq> []"
proof -
  let ?s = "lint_messages 0 ms (lint_start ms)"
  have "list_all (\<lambda>p. \<not> is_end_problem p) (ls_problems (lint_start ms))"
    by (simp add: lint_start_def split: list.split)
  from lint_problem_kinds [OF this, of 0 ms] assms have "ls_problems ?s = []"
    by (cases "ls_problems ?s") (auto simp: tapeNeedsInterruptHeal_def lintFold_def Let_def)
  moreover have "ms \<noteq> []"
    using assms by (auto simp: tapeNeedsInterruptHeal_def lintFold_def lint_start_def Let_def)
  ultimately show ?thesis ..
qed

text \<open>
  An interrupted turn is always repairable: whenever the only fault of a fold is calls left without
  a result at its end, closing it gives a fold with no fault at all, which is served as it is; a fold
  with no fault is left unchanged by closing it.
\<close>

theorem interrupt_heal_repairs:
  "(tapeNeedsInterruptHeal rows (Some ms) \<longrightarrow>
      lintFold (healFoldInterrupt ms at) = [] \<and>
      (list_all (\<lambda>r. tp_harness r = None \<or> tp_harness r = Some harness) rows \<longrightarrow>
         sp_seed (planTapeSeed rows harness (Some Serve) (Some (healFoldInterrupt ms at))) = Some (healFoldInterrupt ms at))) \<and>
   (lintFold ms = [] \<longrightarrow> healFoldInterrupt ms at = ms)"
proof (intro conjI impI)
  assume need: "tapeNeedsInterruptHeal rows (Some ms)"
  from needs_heal_clean [OF need] lint_heal_clean
  show clean: "lintFold (healFoldInterrupt ms at) = []" by (simp add: healFoldInterrupt_def)
  assume "list_all (\<lambda>r. tp_harness r = None \<or> tp_harness r = Some harness) rows"
  with clean needs_heal_clean [OF need]
  show "sp_seed (planTapeSeed rows harness (Some Serve) (Some (healFoldInterrupt ms at))) = Some (healFoldInterrupt ms at)"
    by (auto simp: planTapeSeed_def Let_def healFoldInterrupt_def healDanglingCalls_def list_ex_iff list_all_iff)
next
  assume "lintFold ms = []"
  then have "ls_problems (lint_messages 0 ms (lint_start ms)) = []" "ls_open (lint_messages 0 ms (lint_start ms)) = []"
    by (simp_all add: lintFold_def Let_def split: if_splits)
  with lint_heal_clean [of ms at] show "healFoldInterrupt ms at = ms"
    by (simp add: healFoldInterrupt_def heal_dangling)
qed

section \<open>Images\<close>

record tape_image =
  im_data :: string
  im_mimeType :: string
  im_sizeBytes :: int

datatype loaded_image = Loaded tape_image | OverBudget | NotLoaded

definition ELIDED_IMAGE_TEXT :: string where
  "ELIDED_IMAGE_TEXT = ''[image removed: this conversation'' @ [CHR 0x27] @ ''s images no longer fit the model'' @ [CHR 0x27] @
     ''s request-size limit; ask for it to be re-shared if needed]''"

definition is_stripped_ref :: "json \<Rightarrow> bool" where
  "is_stripped_ref b \<longleftrightarrow> stripped_image b \<and> json_get_str ''artifactRef'' b \<noteq> None"

definition is_omitted :: "json \<Rightarrow> bool" where
  "is_omitted b \<longleftrightarrow> stripped_image b \<and> json_get_str ''artifactRef'' b = None \<and> json_get ''omitted'' b = Some (JBool True)"

text \<open>The blocks of all messages with their places.\<close>

definition placed_blocks :: "json list \<Rightarrow> ((nat \<times> nat) \<times> json) list" where
  "placed_blocks messages =
     concat (map (\<lambda>(msg, m). case json_get_arr ''content'' m of
                                None \<Rightarrow> []
                              | Some bs \<Rightarrow> map (\<lambda>(i, b). ((msg, i), b)) (List.enumerate 0 bs))
       (List.enumerate 0 messages))"

record rehydration =
  rh_cached :: "(string, loaded_image) jsmap"
  rh_remaining :: int
  rh_replacements :: "(nat \<times> nat, json) jsmap"
  rh_served :: "tape_image list"

definition with_image :: "json \<Rightarrow> tape_image \<Rightarrow> json" where
  "with_image b img =
     (case b of
        JObj kvs \<Rightarrow>
          JObj (jmap_set ''mimeType'' (JStr (im_mimeType img)) (jmap_set ''data'' (JStr (im_data img))
            (filter (\<lambda>(k, _). k \<noteq> ''artifactRef'' \<and> k \<noteq> ''omitted'') kvs)))
      | _ \<Rightarrow> b)"

text \<open>
  One candidate, from the last to the first. \<open>rh_served\<close> lists the images put in; the program does not
  keep it.
\<close>

definition rehydrate_one ::
  "(string \<Rightarrow> int \<Rightarrow> loaded_image) \<Rightarrow> (nat \<times> nat) \<times> json \<Rightarrow> rehydration \<Rightarrow> rehydration" where
  "rehydrate_one load pb s =
     (case pb of (pos, block) \<Rightarrow>
        let ref = the (json_get_str ''artifactRef'' block);
            budgetSpent = (rh_remaining s \<le> 0);
            cached = (if budgetSpent \<or> map_of (rh_cached s) ref \<noteq> None then rh_cached s
                      else jmap_set ref (load ref (rh_remaining s)) (rh_cached s));
            loaded = (if budgetSpent then NotLoaded
                      else case map_of cached ref of Some l \<Rightarrow> l | None \<Rightarrow> NotLoaded);
            elided = s\<lparr> rh_cached := cached, rh_replacements := jmap_set pos (text_block ELIDED_IMAGE_TEXT) (rh_replacements s) \<rparr>
        in case loaded of
             Loaded img \<Rightarrow>
               if 0 < im_sizeBytes img \<and> im_sizeBytes img \<le> rh_remaining s \<and>
                  json_get_str ''mimeType'' block = Some (im_mimeType img)
               then s\<lparr> rh_cached := cached, rh_remaining := rh_remaining s - im_sizeBytes img,
                       rh_replacements := jmap_set pos (with_image block img) (rh_replacements s),
                       rh_served := img # rh_served s \<rparr>
               else if budgetSpent \<or> im_sizeBytes img > rh_remaining s then elided
               else s\<lparr> rh_cached := cached \<rparr>
           | OverBudget \<Rightarrow> elided
           | NotLoaded \<Rightarrow> if budgetSpent then elided else s\<lparr> rh_cached := cached \<rparr>)"

definition rehydration_of :: "(string \<Rightarrow> int \<Rightarrow> loaded_image) \<Rightarrow> int \<Rightarrow> json list \<Rightarrow> rehydration" where
  "rehydration_of load maxBytes messages =
     foldl (\<lambda>s pb. rehydrate_one load pb s)
       \<lparr> rh_cached = [], rh_remaining = maxBytes,
         rh_replacements = map (\<lambda>(pos, _). (pos, text_block ELIDED_IMAGE_TEXT)) (filter (\<lambda>(_, b). is_omitted b) (placed_blocks messages)),
         rh_served = [] \<rparr>
       (rev (filter (\<lambda>(_, b). is_stripped_ref b) (placed_blocks messages)))"

definition replace_blocks :: "(nat \<times> nat, json) jsmap \<Rightarrow> nat \<Rightarrow> json \<Rightarrow> json" where
  "replace_blocks repl msg m =
     (case (m, json_get_arr ''content'' m) of
        (JObj kvs, Some bs) \<Rightarrow>
          if list_ex (\<lambda>i. map_of repl (msg, i) \<noteq> None) [0..<length bs]
          then JObj (jmap_set ''content''
                 (JArr (map (\<lambda>(i, b). case map_of repl (msg, i) of Some r \<Rightarrow> r | None \<Rightarrow> b) (List.enumerate 0 bs))) kvs)
          else m
      | _ \<Rightarrow> m)"

definition rehydrateFoldImages :: "(string \<Rightarrow> int \<Rightarrow> loaded_image) \<Rightarrow> int \<Rightarrow> json list \<Rightarrow> json list" where
  "rehydrateFoldImages load maxBytes messages =
     map (\<lambda>(msg, m). replace_blocks (rh_replacements (rehydration_of load maxBytes messages)) msg m)
       (List.enumerate 0 messages)"

text \<open>Images are put in only while they fit: together they are within the budget.\<close>

lemma rehydrate_one_budget:
  "rh_remaining (rehydrate_one load pb s) + sum_list (map im_sizeBytes (rh_served (rehydrate_one load pb s))) =
     rh_remaining s + sum_list (map im_sizeBytes (rh_served s)) \<and>
   (0 \<le> rh_remaining s \<longrightarrow> 0 \<le> rh_remaining (rehydrate_one load pb s))"
  by (auto simp: rehydrate_one_def Let_def split: prod.splits loaded_image.splits)

lemma rehydration_budget:
  assumes "0 \<le> maxBytes"
  shows "sum_list (map im_sizeBytes (rh_served (rehydration_of load maxBytes messages))) \<le> maxBytes"
proof -
  have "rh_remaining (foldl (\<lambda>s pb. rehydrate_one load pb s) s pbs) +
      sum_list (map im_sizeBytes (rh_served (foldl (\<lambda>s pb. rehydrate_one load pb s) s pbs))) =
      rh_remaining s + sum_list (map im_sizeBytes (rh_served s)) \<and>
      0 \<le> rh_remaining (foldl (\<lambda>s pb. rehydrate_one load pb s) s pbs)" if "0 \<le> rh_remaining s" for s pbs
    using that
  proof (induction pbs arbitrary: s)
    case (Cons pb pbs)
    from Cons.IH [of "rehydrate_one load pb s"] rehydrate_one_budget [of load pb s] Cons.prems show ?case by simp
  qed simp
  from this [of "\<lparr> rh_cached = [], rh_remaining = maxBytes, rh_replacements = map (\<lambda>(pos, _). (pos, text_block ELIDED_IMAGE_TEXT))
      (filter (\<lambda>(_, b). is_omitted b) (placed_blocks messages)), rh_served = [] \<rparr>"
      "rev (filter (\<lambda>(_, b). is_stripped_ref b) (placed_blocks messages))"] assms
  show ?thesis unfolding rehydration_of_def by (simp only: rehydration.select_convs) simp
qed

section \<open>What an audience is shown\<close>


section \<open>What a compaction drops\<close>

definition turn_end :: "int \<Rightarrow> tape_record \<Rightarrow> bool" where
  "turn_end e r \<longleftrightarrow>
     tp_kind r = TAnnotation \<and> json_get ''turnEnd'' (tp_payload r) = Some (JBool True) \<and> tp_entrySeq r = Some e"

text \<open>Messages, and the ends of turns after the one given.\<close>

definition later_turn :: "int \<Rightarrow> tape_record \<Rightarrow> bool" where
  "later_turn e r \<longleftrightarrow> tp_kind r = TMessage \<or> (\<exists>d > e. turn_end d r)"

definition message_payloads :: "tape_record list \<Rightarrow> json list" where
  "message_payloads rows = map tp_payload (filter (\<lambda>r. tp_kind r = TMessage \<and> tp_payload r \<noteq> JNull) rows)"

lemma contextEvent_message: "tp_kind r = TMessage \<Longrightarrow> contextEvent r = None"
  by (simp add: contextEvent_def)

lemma fold_row_compaction:
  "tp_kind row = TContextEvent \<Longrightarrow> contextEvent row = Some (Compaction t) \<Longrightarrow>
   covered_cut (tp_coversEntrySeq row) (fo_boundaries f) = Some n \<Longrightarrow>
   fo_out (fold_row f row) = summary_message t (tp_createdAt row) # drop n (fo_out f)"
  by (simp add: fold_row_def)

lemma foldl_later_turns:
  "list_all (later_turn e) rows \<Longrightarrow>
   \<exists>bs. list_all (\<lambda>(_, d). e < d) bs \<and>
     foldl fold_row f rows = \<lparr> fo_out = fo_out f @ message_payloads rows, fo_boundaries = fo_boundaries f @ bs \<rparr>"
proof (induction rows arbitrary: f)
  case Nil
  then show ?case by (intro exI [of _ "[]"]) (simp add: message_payloads_def)
next
  case (Cons r rows)
  have "\<exists>bs. list_all (\<lambda>(_, d). e < d) bs \<and>
      fold_row f r = \<lparr> fo_out = fo_out f @ message_payloads [r], fo_boundaries = fo_boundaries f @ bs \<rparr>"
  proof (cases "tp_kind r = TMessage")
    case True
    then show ?thesis
      by (intro exI [of _ "[]"]) (cases f, auto simp: fold_row_def contextEvent_message message_payloads_def)
  next
    case False
    with Cons.prems obtain d where "e < d" "turn_end d r" by (auto simp: later_turn_def)
    with False show ?thesis
      by (intro exI [of _ "[(length (fo_out f), d)]"]) (cases f, auto simp: fold_row_def turn_end_def message_payloads_def)
  qed
  then obtain bs where bs: "list_all (\<lambda>(_, d). e < d) bs"
    "fold_row f r = \<lparr> fo_out = fo_out f @ message_payloads [r], fo_boundaries = fo_boundaries f @ bs \<rparr>" by blast
  from Cons.IH [of "fold_row f r"] Cons.prems obtain cs where cs: "list_all (\<lambda>(_, d). e < d) cs"
    "foldl fold_row (fold_row f r) rows =
       \<lparr> fo_out = fo_out (fold_row f r) @ message_payloads rows, fo_boundaries = fo_boundaries (fold_row f r) @ cs \<rparr>"
    by auto
  have "message_payloads (r # rows) = message_payloads [r] @ message_payloads rows" by (simp add: message_payloads_def)
  with bs cs show ?case by (intro exI [of _ "bs @ cs"]) simp
qed

text \<open>
  A compaction drops from the model's context exactly the turns it covers: after it the fold is the
  summary followed by all the messages written since the end of the last covered turn, whatever came
  before.
\<close>

theorem compaction_keeps_uncovered:
  assumes "turn_end e boundary" "list_all (later_turn e) since"
    and "tp_kind row = TContextEvent" "contextEvent row = Some (Compaction t)" "tp_coversEntrySeq row = Some e"
  shows "foldTape (before @ [boundary] @ since @ [row]) =
    summary_message t (tp_createdAt row) # message_payloads since"
proof -
  let ?f = "foldl fold_row fold_start before"
  let ?g = "fold_row ?f boundary"
  have g: "?g = ?f\<lparr> fo_boundaries := fo_boundaries ?f @ [(length (fo_out ?f), e)] \<rparr>"
    using assms(1) by (simp add: fold_row_def turn_end_def)
  from foldl_later_turns [OF assms(2), of ?g] obtain bs where bs: "list_all (\<lambda>(_, d). e < d) bs"
    "foldl fold_row ?g since = \<lparr> fo_out = fo_out ?g @ message_payloads since, fo_boundaries = fo_boundaries ?g @ bs \<rparr>"
    by blast
  have "List.find (\<lambda>(_, d). d \<le> e) (rev bs) = None"
    using bs(1) by (auto simp: find_None_iff list_all_iff)
  then have "List.find (\<lambda>(_, d). d \<le> e) (rev (fo_boundaries ?f @ [(length (fo_out ?f), e)] @ bs)) =
      Some (length (fo_out ?f), e)"
    by (simp add: find_append split: option.splits)
  then have c: "covered_cut (Some e) (fo_boundaries ?g @ bs) = Some (length (fo_out ?f))"
    by (simp add: covered_cut_def js_find_last_def g)
  have "fo_out (fold_row (foldl fold_row ?g since) row) =
      summary_message t (tp_createdAt row) # drop (length (fo_out ?f)) (fo_out (foldl fold_row ?g since))"
    by (rule fold_row_compaction) (use assms(3-5) c bs(2) in simp_all)
  moreover have "drop (length (fo_out ?f)) (fo_out (foldl fold_row ?g since)) = message_payloads since"
    unfolding bs(2) by (simp add: g)
  ultimately show ?thesis by (simp add: foldTape_def)
qed

section \<open>A short tape\<close>

definition sample_row :: "tape_kind \<Rightarrow> json \<Rightarrow> int option \<Rightarrow> int option \<Rightarrow> nat \<Rightarrow> tape_record" where
  "sample_row kind payload entry covers seq =
     \<lparr> tp_kind = kind, tp_payload = payload, tp_scopeLabel = ''channel:c'', tp_harness = None, tp_meta = None,
       tp_entrySeq = entry, tp_coversEntrySeq = covers, tp_sessionId = ''s'', tp_seq = seq, tp_createdAt = int seq \<rparr>"

definition user_message :: "string \<Rightarrow> json" where
  "user_message t = JObj [(''role'', JStr ''user''), (''content'', JStr t)]"

definition calling_message :: "string \<Rightarrow> json" where
  "calling_message c =
     JObj [(''role'', JStr ''assistant''),
           (''content'', JArr [JObj [(''type'', JStr ''toolCall''), (''id'', JStr c), (''name'', JStr ''bash'')]])]"

theorem compaction_keeps_uncovered_witness:
  "foldTape ([sample_row TMessage (user_message ''a'') None None 0] @
     [sample_row TAnnotation (JObj [(''turnEnd'', JBool True)]) (Some 1) None 1] @
     [sample_row TMessage (user_message ''b'') None None 2] @
     [sample_row TContextEvent (JObj [(''event'', JStr ''compaction''), (''text'', JStr ''sum'')]) (Some 5) (Some 1) 3]) =
   [summary_message ''sum'' 3, user_message ''b'']"
proof -
  let ?row = "sample_row TContextEvent (JObj [(''event'', JStr ''compaction''), (''text'', JStr ''sum'')]) (Some 5) (Some 1) 3"
  have "turn_end 1 (sample_row TAnnotation (JObj [(''turnEnd'', JBool True)]) (Some 1) None 1)"
      "list_all (later_turn 1) [sample_row TMessage (user_message ''b'') None None 2]"
      "tp_kind ?row = TContextEvent" "tp_coversEntrySeq ?row = Some 1"
    by (simp_all add: sample_row_def turn_end_def later_turn_def)
  moreover have "contextEvent ?row = Some (Compaction ''sum'')"
    by (simp add: sample_row_def contextEvent_def json_get_str_def Let_def)
  ultimately show ?thesis
    using compaction_keeps_uncovered [of 1 "sample_row TAnnotation (JObj [(''turnEnd'', JBool True)]) (Some 1) None 1"
        "[sample_row TMessage (user_message ''b'') None None 2]" ?row "''sum''"
        "[sample_row TMessage (user_message ''a'') None None 0]"]
    by (simp add: message_payloads_def sample_row_def user_message_def)
qed

theorem interrupt_heal_repairs_witness:
  "lintFold (healFoldInterrupt [user_message ''a'', calling_message ''c1''] 7) = [] \<and>
   healFoldInterrupt [user_message ''a''] 7 = [user_message ''a'']"
proof -
  have "tapeNeedsInterruptHeal [] (Some [user_message ''a'', calling_message ''c1''])" by code_simp
  moreover have "lintFold [user_message ''a''] = []" by code_simp
  ultimately show ?thesis
    using interrupt_heal_repairs [of "[]" "[user_message ''a'', calling_message ''c1'']" 7 "''h''"]
      interrupt_heal_repairs [of "[]" "[user_message ''a'']" 7 "''h''"] by blast
qed


end
