(* ===== verification/Json.thy ===== *)
theory Json
  imports Prelude
begin

text \<open>
  Writing JSON: the text \<open>JSON.stringify\<close> and \<open>String\<close> give for the payloads of the model, and the
  canonical text of \<open>contentPart\<close> in \<open>src/triggers/trigger-store.ts\<close>, in which the keys of every object are
  in order.
\<close>

text \<open>\<open>JSON.stringify\<close> and \<open>String\<close> on the payloads of the model.\<close>

definition hex_char :: "nat \<Rightarrow> char" where
  "hex_char n = (if n < 10 then char_of (48 + n) else char_of (87 + n))"

definition json_escape :: "char \<Rightarrow> string" where
  "json_escape c =
     (let n = of_char c :: nat
      in if c = CHR 0x22 then [CHR 0x5C, CHR 0x22]
         else if c = CHR 0x5C then [CHR 0x5C, CHR 0x5C]
         else if n = 8 then [CHR 0x5C, CHR ''b''] else if n = 9 then [CHR 0x5C, CHR ''t'']
         else if n = 10 then [CHR 0x5C, CHR ''n''] else if n = 12 then [CHR 0x5C, CHR ''f'']
         else if n = 13 then [CHR 0x5C, CHR ''r'']
         else if n < 32 then [CHR 0x5C] @ ''u00'' @ [hex_char (n div 16), hex_char (n mod 16)]
         else [c])"

definition json_quote :: "string \<Rightarrow> string" where
  "json_quote s = [CHR 0x22] @ concat (map json_escape s) @ [CHR 0x22]"

fun json_stringify :: "json \<Rightarrow> string" where
  "json_stringify JNull = ''null''"
| "json_stringify (JBool b) = (if b then ''true'' else ''false'')"
| "json_stringify (JNum n) = js_show_int n"
| "json_stringify (JStr s) = json_quote s"
| "json_stringify (JArr xs) = ''['' @ js_join '','' (map json_stringify xs) @ '']''"
| "json_stringify (JObj kvs) =
     ''{'' @ js_join '','' (map (\<lambda>(k, v). json_quote k @ '':'' @ json_stringify v) kvs) @ ''}''"

fun js_String :: "json \<Rightarrow> string" where
  "js_String JNull = ''null''"
| "js_String (JBool b) = (if b then ''true'' else ''false'')"
| "js_String (JNum n) = js_show_int n"
| "js_String (JStr s) = s"
| "js_String (JArr xs) = js_join '','' (map (\<lambda>x. if x = JNull then [] else js_String x) xs)"
| "js_String (JObj kvs) = ''[object Object]''"

text \<open>\<open>contentPart\<close>; an \<open>undefined\<close> part is the empty text.\<close>

fun json_sorted :: "json \<Rightarrow> json" where
  "json_sorted (JArr xs) = JArr (map json_sorted xs)"
| "json_sorted (JObj kvs) = JObj (sort_key fst (map (\<lambda>(k, v). (k, json_sorted v)) kvs))"
| "json_sorted j = j"

definition contentPart :: "json option \<Rightarrow> string" where
  "contentPart v = (case v of None \<Rightarrow> [] | Some j \<Rightarrow> json_stringify (json_sorted j))"

text \<open>Two objects that differ in the order of their distinct keys have the same canonical text.\<close>

lemma contentPart_order:
  assumes "set kvs = set kvs'" "distinct (map fst kvs)" "distinct (map fst kvs')"
  shows "contentPart (Some (JObj kvs)) = contentPart (Some (JObj kvs'))"
proof -
  let ?f = "map (\<lambda>(k, v). (k, json_sorted v))"
  have fst: "map fst (?f xs) = map fst xs" for xs by (simp add: comp_def case_prod_beta)
  have d: "distinct (map fst (?f kvs))" "distinct (map fst (?f kvs'))" using assms(2,3) by (simp_all only: fst)
  then have inj: "inj_on fst (set (?f kvs))" by (simp only: distinct_map)
  have strict: "distinct (map fst xs) \<Longrightarrow> distinct (map fst (sort_key fst xs))" for xs :: "(string \<times> json) list"
    by (simp add: distinct_map)
  have "sort_key fst (?f kvs) = sort_key fst (?f kvs')"
  proof (rule map_sorted_distinct_set_unique)
    show "set (sort_key fst (?f kvs)) = set (sort_key fst (?f kvs'))" using assms(1) by simp
    show "inj_on fst (set (sort_key fst (?f kvs)) \<union> set (sort_key fst (?f kvs')))"
      using assms(1) inj by simp
    show "distinct (map fst (sort_key fst (?f kvs)))" "distinct (map fst (sort_key fst (?f kvs')))"
      using strict [OF d(1)] strict [OF d(2)] .
  qed simp_all
  then show ?thesis by (simp add: contentPart_def)
qed

end
