(* ===== verification/Compaction.thy ===== *)
theory Compaction
  imports Tape Json
begin

text \<open>
  Compaction of a session's history (\<open>src/harness/context-compaction.ts\<close>, \<open>src/util/tokens.ts\<close>,
  \<open>src/util/text.ts\<close> and the compaction of \<open>src/core/orchestrator/compaction.ts\<close>): which entries a model
  is shown, which of them are summarised when they outgrow the budget, the transcript the summary is made
  of, and the writing of the summary. The tokenizer is the parameter \<open>encode\<close>, the number of tokens of a
  chunk of text. The dots and dashes that mark
  a cut line are outside the alphabet and written as \<open>~\<close>.
\<close>

section \<open>Text\<close>

text \<open>No character of the model is half of a surrogate pair, so a cut never has to be moved.\<close>

definition headSlice :: "string \<Rightarrow> int \<Rightarrow> string" where
  "headSlice s n = (if n \<le> 0 then [] else if int (length s) \<le> n then s else take (nat n) s)"

definition tailSlice :: "string \<Rightarrow> int \<Rightarrow> string" where
  "tailSlice s n = (if n \<le> 0 then [] else if int (length s) \<le> n then s else drop (length s - nat n) s)"

definition MAX_COMPACT_ENTRY_CHARS :: int where "MAX_COMPACT_ENTRY_CHARS = 16000"
definition COMPACT_ENTRY_TAIL_CHARS :: int where "COMPACT_ENTRY_TAIL_CHARS = 2000"

definition capCompactLine :: "string \<Rightarrow> string" where
  "capCompactLine s =
     (if int (length s) \<le> MAX_COMPACT_ENTRY_CHARS then s
      else
        let notice = ''~[truncated ~ '' @ js_show_int (int (length s)) @ '' chars]~''
        in headSlice s (MAX_COMPACT_ENTRY_CHARS - COMPACT_ENTRY_TAIL_CHARS - int (length notice)) @ notice @
           tailSlice s COMPACT_ENTRY_TAIL_CHARS)"

section \<open>Tokens\<close>

definition CHUNK_CHARS :: nat where "CHUNK_CHARS = 4000"
definition SAMPLE_CAP_CHARS :: nat where "SAMPLE_CAP_CHARS = 64000"

function chunk_tokens :: "(string \<Rightarrow> nat) \<Rightarrow> string \<Rightarrow> nat" where
  "chunk_tokens encode s =
     (if s = [] then 0 else encode (take CHUNK_CHARS s) + chunk_tokens encode (drop CHUNK_CHARS s))"
  by pat_completeness auto
termination by (relation "measure (\<lambda>(e, s). length s)") (auto simp: CHUNK_CHARS_def)

definition countTokens :: "(string \<Rightarrow> nat) \<Rightarrow> string \<Rightarrow> nat" where
  "countTokens encode t =
     (let sample = take SAMPLE_CAP_CHARS t; n = chunk_tokens encode sample
      in if length sample = length t then n
         else (n * length t + length sample - 1) div length sample)"

definition entry_text :: "session_entry \<Rightarrow> string" where
  "entry_text e =
     (case json_get_str ''text'' (en_payload e) of
        Some t \<Rightarrow> t
      | None \<Rightarrow> json_stringify (if en_payload e = JNull then JObj [] else en_payload e))"

definition entryTokens :: "(string \<Rightarrow> nat) \<Rightarrow> session_entry \<Rightarrow> nat" where
  "entryTokens encode e = countTokens encode (entry_text e)"

text \<open>The estimate with its cache, which forgets its oldest entry when it is full.\<close>

definition ENTRY_TOKEN_CACHE_MAX :: nat where "ENTRY_TOKEN_CACHE_MAX = 50000"

definition token_key :: "session_entry \<Rightarrow> string" where
  "token_key e = en_sessionId e @ '':'' @ js_show_int (int (en_seq e)) @ '':'' @ js_show_int (int (length (entry_text e)))"

definition estimateEntryTokens ::
  "(string \<Rightarrow> nat) \<Rightarrow> session_entry \<Rightarrow> (string, nat) jsmap \<Rightarrow> nat \<times> (string, nat) jsmap" where
  "estimateEntryTokens encode e cache =
     (case map_of cache (token_key e) of
        Some hit \<Rightarrow> (hit, cache)
      | None \<Rightarrow>
          let n = entryTokens encode e;
              kept = (if ENTRY_TOKEN_CACHE_MAX \<le> length cache then tl cache else cache)
          in (n, jmap_set (token_key e) n kept))"

definition estimateHistoryTokens :: "(string \<Rightarrow> nat) \<Rightarrow> session_entry list \<Rightarrow> nat" where
  "estimateHistoryTokens encode history = sum_list (map (entryTokens encode) history)"

section \<open>What a model is shown\<close>

record context_summary =
  cs_throughSeq :: int
  cs_text :: string

definition contextSummaryPayload :: "session_entry \<Rightarrow> context_summary option" where
  "contextSummaryPayload e =
     (case (json_get ''throughSeq'' (en_payload e), json_get ''text'' (en_payload e)) of
        (Some (JNum n), Some (JStr t)) \<Rightarrow>
          if en_type e = ESystem \<and> json_get ''kind'' (en_payload e) = Some (JStr ''context_summary'')
          then Some \<lparr> cs_throughSeq = n, cs_text = t \<rparr> else None
      | _ \<Rightarrow> None)"

definition is_summary :: "session_entry \<Rightarrow> bool" where
  "is_summary e \<longleftrightarrow> contextSummaryPayload e \<noteq> None"

definition createContextSummaryPayload :: "int \<Rightarrow> string \<Rightarrow> (string \<times> json) list" where
  "createContextSummaryPayload throughSeq t =
     [(''kind'', JStr ''context_summary''), (''throughSeq'', JNum throughSeq), (''text'', JStr t)]"

definition compactedScopeLabel :: "session_entry list \<Rightarrow> scope_id \<Rightarrow> scope_id \<Rightarrow> scope_id option" where
  "compactedScopeLabel entries sessionScopeId orgScopeId =
     (let labels = jset_of (map en_scopeLabel entries);
          byKind = (\<lambda>kind. filter (\<lambda>l. fst (parseScopeId l) = Some kind) labels);
          only = (\<lambda>xs. case xs of [x] \<Rightarrow> Some x | _ \<Rightarrow> None);
          nonFloor = filter (\<lambda>l. l \<noteq> orgScopeId \<and> l \<noteq> sessionScopeId) labels
      in if byKind Personal \<noteq> [] then only (byKind Personal)
         else if byKind Team \<noteq> [] then only (byKind Team)
         else if nonFloor \<noteq> [] then only nonFloor
         else Some (if sessionScopeId \<in> set labels then sessionScopeId else orgScopeId))"

definition is_tainted :: "session_entry \<Rightarrow> bool" where
  "is_tainted e \<longleftrightarrow> json_get ''securityTainted'' (en_payload e) = Some (JBool True)"

definition is_replayable :: "session_entry \<Rightarrow> bool" where
  "is_replayable e \<longleftrightarrow>
     en_type e \<noteq> EThinking \<and> en_type e \<noteq> EText \<and> en_type e \<noteq> ESoul \<and>
     json_get ''kind'' (en_payload e) \<noteq> Some (JStr ''turn_failure'')"

text \<open>
  Entries are told apart by their sequence numbers, so the test whether the latest summary object is
  among the visible ones is the test whether it is visible itself.
\<close>

definition forModelContext :: "bool \<Rightarrow> session_entry list \<Rightarrow> session_entry list" where
  "forModelContext includeTainted entries =
     (let replayable = filter is_replayable entries;
          visible = filter (\<lambda>e. includeTainted \<or> \<not> is_tainted e) replayable
      in case js_find_last is_summary replayable of
           None \<Rightarrow> visible
         | Some latest \<Rightarrow>
             (let throughSeq = (case contextSummaryPayload latest of Some p \<Rightarrow> cs_throughSeq p | None \<Rightarrow> 0)
              in (if latest \<in> set visible then [latest] else []) @
                 filter (\<lambda>e. \<not> is_summary e \<and> int (en_seq e) > throughSeq) visible))"

section \<open>Planning\<close>

text \<open>The loop over the history from its end, with the entries and tokens counted so far.\<close>

fun count_recent :: "(session_entry \<Rightarrow> nat) \<Rightarrow> int \<Rightarrow> int \<Rightarrow> session_entry list \<Rightarrow> nat \<Rightarrow> nat \<Rightarrow> nat" where
  "count_recent tok maxCount maxTokens [] count tokens = count"
| "count_recent tok maxCount maxTokens (e # es) count tokens =
     (if int count \<ge> maxCount then count
      else if count \<ge> 1 \<and> int (tokens + tok e) > maxTokens then count
      else count_recent tok maxCount maxTokens es (count + 1) (tokens + tok e))"

definition recentEntryCountWithinBudget ::
  "(session_entry \<Rightarrow> nat) \<Rightarrow> session_entry list \<Rightarrow> int \<Rightarrow> int \<Rightarrow> nat" where
  "recentEntryCountWithinBudget tok history maxCount maxTokens =
     count_recent tok maxCount maxTokens (rev history) 0 0"

text \<open>
  A fraction is a double below one, given by its mantissa: \<open>m\<close> stands for \<open>m / 2 ^ 53\<close>. A product with an
  integer is rounded to 53 significant bits, to even when it is half way, as the language does.
\<close>

type_synonym fraction = int

function bit_length :: "int \<Rightarrow> nat" where
  "bit_length x = (if x \<le> 0 then 0 else Suc (bit_length (x div 2)))"
  by pat_completeness auto
termination by (relation "measure nat") auto

declare bit_length.simps [simp del]

definition round_double :: "int \<Rightarrow> int" where
  "round_double x =
     (let e = bit_length x - 53; q = x div 2 ^ e; r = x mod 2 ^ e
      in (if 2 * r > 2 ^ e \<or> (2 * r = 2 ^ e \<and> odd q) then q + 1 else q) * 2 ^ e)"

definition times_fraction :: "int \<Rightarrow> fraction \<Rightarrow> int" where
  "times_fraction n f = sgn n * round_double (\<bar>n\<bar> * f)"

definition floor_of :: "int \<Rightarrow> fraction \<Rightarrow> int" where
  "floor_of n f = times_fraction n f div 2 ^ 53"

definition COMPACT_SOFT_FRACTION :: fraction where "COMPACT_SOFT_FRACTION = 6305039478318694"
definition COMPACT_HARD_FRACTION :: fraction where "COMPACT_HARD_FRACTION = 8106479329266893"

definition overBudgetFraction ::
  "(session_entry \<Rightarrow> nat) \<Rightarrow> session_entry list \<Rightarrow> int \<Rightarrow> int \<Rightarrow> fraction \<Rightarrow> bool" where
  "overBudgetFraction tok history maxEntries maxTokens f \<longleftrightarrow>
     int (length history) * 2 ^ 53 > times_fraction maxEntries f \<or>
     int (sum_list (map tok history)) * 2 ^ 53 > times_fraction maxTokens f"

record compaction_plan =
  pl_toSummarize :: "session_entry list"
  pl_kept :: "session_entry list"
  pl_reuse :: "session_entry option"

definition call_id :: "session_entry \<Rightarrow> string option" where
  "call_id e = (case json_get_str ''callId'' (en_payload e) of Some c \<Rightarrow> if c = [] then None else Some c | None \<Rightarrow> None)"

text \<open>The call of an entry that has no result among the entries given.\<close>

definition awaits_result :: "session_entry list \<Rightarrow> session_entry \<Rightarrow> bool" where
  "awaits_result batch e \<longleftrightarrow>
     en_type e = EToolCall \<and> call_id e \<noteq> None \<and>
     \<not> list_ex (\<lambda>r. en_type r = EToolResult \<and> json_get_str ''callId'' (en_payload r) = call_id e) batch"

fun step_back :: "session_entry list \<Rightarrow> nat \<Rightarrow> nat" where
  "step_back es 0 = 0"
| "step_back es (Suc n) = (if awaits_result (take (Suc n) es) (es ! n) then step_back es n else Suc n)"

definition planCompaction ::
  "(session_entry \<Rightarrow> nat) \<Rightarrow> session_entry list \<Rightarrow> int \<Rightarrow> fraction \<Rightarrow> int \<Rightarrow> int \<times> int \<Rightarrow> compaction_plan option" where
  "planCompaction tok history maxTokens keepRecentTokenFraction keepRecentEntries reuseBudget =
     (let latestSummary = js_find_last is_summary history;
          latestPayload = Option.bind latestSummary contextSummaryPayload;
          afterSummary = filter (\<lambda>e. \<not> is_summary e \<and>
            (case latestPayload of Some p \<Rightarrow> int (en_seq e) > cs_throughSeq p | None \<Rightarrow> True)) history;
          keptCount = recentEntryCountWithinBudget tok afterSummary (max 1 keepRecentEntries)
            (floor_of maxTokens keepRecentTokenFraction);
          overflowCount = step_back afterSummary (length afterSummary - keptCount);
          overflow = take overflowCount afterSummary
      in case latestSummary of
           Some latest \<Rightarrow>
             if int (length afterSummary) + 1 \<le> fst reuseBudget \<and>
                int (sum_list (map tok (latest # afterSummary))) \<le> snd reuseBudget
             then Some \<lparr> pl_toSummarize = [], pl_kept = latest # afterSummary, pl_reuse = Some latest \<rparr>
             else if overflow = [] then None
             else Some \<lparr> pl_toSummarize = latest # overflow, pl_kept = drop overflowCount afterSummary, pl_reuse = None \<rparr>
         | None \<Rightarrow>
             if overflow = [] then None
             else Some \<lparr> pl_toSummarize = overflow, pl_kept = drop overflowCount afterSummary, pl_reuse = None \<rparr>)"

definition compactionThroughSeq :: "session_entry list \<Rightarrow> int" where
  "compactionThroughSeq entries =
     foldl (\<lambda>m e. max m (case contextSummaryPayload e of Some p \<Rightarrow> cs_throughSeq p | None \<Rightarrow> int (en_seq e))) (-1) entries"

section \<open>The transcript that is summarised\<close>

fun entry_type_name :: "entry_type \<Rightarrow> string" where
  "entry_type_name EUser = ''user''"
| "entry_type_name EAssistant = ''assistant''"
| "entry_type_name EThinking = ''thinking''"
| "entry_type_name EText = ''text''"
| "entry_type_name EToolCall = ''tool_call''"
| "entry_type_name EToolResult = ''tool_result''"
| "entry_type_name ESoul = ''soul''"
| "entry_type_name ESystem = ''system''"
| "entry_type_name EDelivery = ''delivery''"
| "entry_type_name EApprovalRequest = ''approval_request''"
| "entry_type_name EApprovalResolved = ''approval_resolved''"

definition is_overheard :: "session_entry \<Rightarrow> bool" where
  "is_overheard e \<longleftrightarrow> en_type e = EUser \<and> json_get ''overheard'' (en_payload e) = Some (JBool True)"

definition overheard_files :: "session_entry \<Rightarrow> string list" where
  "overheard_files e =
     (if is_overheard e
      then (case json_get_arr ''files'' (en_payload e) of
              None \<Rightarrow> [] | Some fs \<Rightarrow> filter (\<lambda>s. s \<noteq> []) (map js_String fs))
      else [])"

definition entry_label :: "session_entry \<Rightarrow> string" where
  "entry_label e =
     (if is_overheard e
      then ''overheard#'' @ js_show_int (int (en_seq e)) @ '' ('' @
           (case json_get_str ''name'' (en_payload e) of Some n \<Rightarrow> if n = [] then ''someone'' else n | None \<Rightarrow> ''someone'') @ '')''
      else entry_type_name (en_type e) @ ''#'' @ js_show_int (int (en_seq e)))"

definition files_note :: "string list \<Rightarrow> string" where
  "files_note fs = (if fs = [] then [] else '' (files: '' @ js_join '', '' fs @ '')'')"

definition entry_lines :: "session_entry list \<Rightarrow> session_entry \<Rightarrow> string list" where
  "entry_lines history e =
     (case contextSummaryPayload e of
        Some p \<Rightarrow>
          [capCompactLine (''Prior summary through seq '' @ js_show_int (cs_throughSeq p) @ '': '' @ cs_text p)]
      | None \<Rightarrow>
          (let t = js_trim (case json_get ''text'' (en_payload e) of
                              None \<Rightarrow> [] | Some JNull \<Rightarrow> [] | Some v \<Rightarrow> js_String v);
               fs = overheard_files e;
               line = (if t \<noteq> [] then [entry_label e @ '': '' @ t @ files_note fs]
                       else if is_overheard e \<and> fs \<noteq> [] then [entry_label e @ '': (shared file)'' @ files_note fs]
                       else if \<not> is_overheard e
                       then [entry_label e @ '':'' @
                             (if json_get ''isError'' (en_payload e) = Some (JBool True) then '' [isError]'' else []) @ '' '' @
                             json_stringify (if en_payload e = JNull then JObj [] else en_payload e)]
                       else [])
           in map capCompactLine line @
              (if awaits_result history e
               then [''tool_result#'' @ js_show_int (int (en_seq e)) @ '': '' @ INTERRUPTED_TOOL_RESULT] else [])))"

definition compactTranscript :: "session_entry list \<Rightarrow> string" where
  "compactTranscript history = js_join [CHR 0x0A] (concat (map (entry_lines history) history))"

definition deterministicCompactSummary :: "session_entry list \<Rightarrow> string" where
  "deterministicCompactSummary history =
     ''Compacted '' @ js_show_int (int (length history)) @ '' prior entr'' @ (if length history = 1 then ''y'' else ''ies'') @
     '' through seq '' @ js_show_int (compactionThroughSeq history) @ ''.'' @ [CHR 0x0A] @
     headSlice (compactTranscript history) 8000"

section \<open>Properties of plans\<close>

lemma count_recent_bounds: "count \<le> count_recent tok mc mt es count tokens \<and> count_recent tok mc mt es count tokens \<le> count + length es"
proof (induction es arbitrary: count tokens)
  case (Cons e es)
  from Cons [of "count + 1" "tokens + tok e"] show ?case by simp
qed simp

lemma recent_count_bounds:
  "recentEntryCountWithinBudget tok es mc mt \<le> length es"
  "1 \<le> mc \<Longrightarrow> es \<noteq> [] \<Longrightarrow> 1 \<le> recentEntryCountWithinBudget tok es mc mt"
proof -
  show "recentEntryCountWithinBudget tok es mc mt \<le> length es"
    using count_recent_bounds [of 0 tok mc mt "rev es" 0] by (simp add: recentEntryCountWithinBudget_def)
  assume "1 \<le> mc" "es \<noteq> []"
  then obtain e rest where "rev es = e # rest" by (cases "rev es") auto
  with \<open>1 \<le> mc\<close> count_recent_bounds [of 1 tok mc mt rest "tok e"]
  show "1 \<le> recentEntryCountWithinBudget tok es mc mt" by (simp add: recentEntryCountWithinBudget_def)
qed

lemma step_back_le: "step_back es n \<le> n"
  by (induction n) auto

lemma step_back_stop: "step_back es n = Suc k \<Longrightarrow> \<not> awaits_result (take (Suc k) es) (es ! k)"
  by (induction n) (auto split: if_splits)

text \<open>The entries after the latest summary of a history.\<close>

definition after_summary :: "session_entry list \<Rightarrow> session_entry list" where
  "after_summary history =
     filter (\<lambda>e. \<not> is_summary e \<and>
       (case Option.bind (js_find_last is_summary history) contextSummaryPayload of
          Some p \<Rightarrow> int (en_seq e) > cs_throughSeq p | None \<Rightarrow> True)) history"

definition overflow_count :: "(session_entry \<Rightarrow> nat) \<Rightarrow> session_entry list \<Rightarrow> int \<Rightarrow> fraction \<Rightarrow> int \<Rightarrow> nat" where
  "overflow_count tok a mt f kr =
     step_back a (length a - recentEntryCountWithinBudget tok a (max 1 kr) (floor_of mt f))"

lemma planCompaction_alt:
  "planCompaction tok history mt f kr rb =
     (let a = after_summary history; k = overflow_count tok a mt f kr
      in case js_find_last is_summary history of
           Some latest \<Rightarrow>
             if int (length a) + 1 \<le> fst rb \<and> int (sum_list (map tok (latest # a))) \<le> snd rb
             then Some \<lparr> pl_toSummarize = [], pl_kept = latest # a, pl_reuse = Some latest \<rparr>
             else if take k a = [] then None
             else Some \<lparr> pl_toSummarize = latest # take k a, pl_kept = drop k a, pl_reuse = None \<rparr>
         | None \<Rightarrow>
             if take k a = [] then None
             else Some \<lparr> pl_toSummarize = take k a, pl_kept = drop k a, pl_reuse = None \<rparr>)"
  unfolding planCompaction_def after_summary_def overflow_count_def Let_def by (rule refl)

lemma overflow_count_bounds:
  assumes "take (overflow_count tok a mt f kr) a \<noteq> []"
  shows "0 < overflow_count tok a mt f kr" "overflow_count tok a mt f kr < length a"
    "\<not> awaits_result (take (overflow_count tok a mt f kr) a) (a ! (overflow_count tok a mt f kr - 1))"
proof -
  let ?c = "recentEntryCountWithinBudget tok a (max 1 kr) (floor_of mt f)"
  let ?k = "overflow_count tok a mt f kr"
  show k: "0 < ?k" using assms by (cases ?k) auto
  have "a \<noteq> []" using assms by auto
  then have "1 \<le> ?c" by (intro recent_count_bounds(2)) simp_all
  moreover have "?k \<le> length a - ?c" unfolding overflow_count_def by (rule step_back_le)
  ultimately show "?k < length a" using \<open>a \<noteq> []\<close> by (cases a) auto
  show "\<not> awaits_result (take ?k a) (a ! (?k - 1))"
    using step_back_stop [of a "length a - ?c" "?k - 1"] k unfolding overflow_count_def by simp
qed

lemma plan_shape:
  assumes "planCompaction tok history mt f kr rb = Some plan" "pl_reuse plan = None"
  obtains k where "0 < k" "k < length (after_summary history)"
    "pl_kept plan = drop k (after_summary history)"
    "pl_toSummarize plan =
       (case js_find_last is_summary history of Some l \<Rightarrow> [l] | None \<Rightarrow> []) @ take k (after_summary history)"
    "\<not> awaits_result (take k (after_summary history)) (after_summary history ! (k - 1))"
proof (cases "js_find_last is_summary history")
  case None
  with assms have "take (overflow_count tok (after_summary history) mt f kr) (after_summary history) \<noteq> []"
    by (auto simp: planCompaction_alt Let_def split: if_splits)
  from overflow_count_bounds [OF this] show thesis
    using that assms None by (auto simp: planCompaction_alt Let_def split: if_splits)
next
  case (Some l)
  with assms have "take (overflow_count tok (after_summary history) mt f kr) (after_summary history) \<noteq> []"
    by (auto simp: planCompaction_alt Let_def split: if_splits)
  from overflow_count_bounds [OF this] show thesis
    using that assms Some by (auto simp: planCompaction_alt Let_def split: if_splits)
qed

lemma foldl_max_Max: "foldl (\<lambda>m e. max m (g e)) (m0 :: int) es = Max (insert m0 (g ` set es))"
proof (induction es arbitrary: m0)
  case (Cons e es)
  have "Max (insert (max m0 (g e)) S) = Max (insert m0 (insert (g e) S))" if "finite S" for S
    using that by (cases "S = {}") (simp_all add: max.assoc)
  with Cons show ?case by simp
qed simp

lemma throughSeq_bounds:
  defines "g \<equiv> \<lambda>e. case contextSummaryPayload e of Some p \<Rightarrow> cs_throughSeq p | None \<Rightarrow> int (en_seq e)"
  shows "e \<in> set es \<Longrightarrow> g e \<le> compactionThroughSeq es"
    "-1 < b \<Longrightarrow> \<forall>e \<in> set es. g e < b \<Longrightarrow> compactionThroughSeq es < b"
  unfolding compactionThroughSeq_def g_def [symmetric] foldl_max_Max by auto

text \<open>What a model is shown, below the latest summary: the visible entries after it.\<close>

definition visible_of :: "bool \<Rightarrow> session_entry list \<Rightarrow> session_entry list" where
  "visible_of incl entries = filter (\<lambda>e. incl \<or> \<not> is_tainted e) (filter is_replayable entries)"

lemma js_find_last_None: "js_find_last P xs = None \<longleftrightarrow> (\<forall>x \<in> set xs. \<not> P x)"
  by (auto simp: js_find_last_def find_None_iff)

lemma js_find_last_unique: "js_find_last P (if b then [x] else []) = (if b \<and> P x then Some x else None)"
  by (simp add: js_find_last_def)

lemma js_find_last_append:
  "js_find_last P (xs @ ys) = (case js_find_last P ys of None \<Rightarrow> js_find_last P xs | Some y \<Rightarrow> Some y)"
  by (simp add: js_find_last_def find_append split: option.split)

lemma after_summary_of_context:
  obtains t where "after_summary (forModelContext incl entries) =
      filter (\<lambda>e. \<not> is_summary e \<and> int (en_seq e) > t) (visible_of incl entries)"
    "\<And>l p. js_find_last is_summary (forModelContext incl entries) = Some l \<Longrightarrow> contextSummaryPayload l = Some p \<Longrightarrow>
       cs_throughSeq p = t" "-1 \<le> t \<or> js_find_last is_summary (filter is_replayable entries) \<noteq> None"
proof (cases "js_find_last is_summary (filter is_replayable entries)")
  case None
  then have H: "forModelContext incl entries = visible_of incl entries"
    by (simp add: forModelContext_def visible_of_def)
  have "js_find_last is_summary (visible_of incl entries) = None" "\<forall>e \<in> set (visible_of incl entries). \<not> is_summary e"
    using None by (auto simp: js_find_last_None visible_of_def)
  then show thesis
    by (intro that [of "-1"]) (auto simp: H after_summary_def)
next
  case (Some l)
  then have l: "is_summary l" by (auto dest: js_find_last_Some)
  then obtain p where p: "contextSummaryPayload l = Some p" by (auto simp: is_summary_def)
  let ?F = "filter (\<lambda>e. \<not> is_summary e \<and> int (en_seq e) > cs_throughSeq p) (visible_of incl entries)"
  let ?b = "l \<in> set (visible_of incl entries)"
  have H: "forModelContext incl entries = (if ?b then [l] else []) @ ?F"
    using Some p by (simp add: forModelContext_def visible_of_def)
  have "js_find_last is_summary ?F = None" by (simp add: js_find_last_None)
  then have last: "js_find_last is_summary (forModelContext incl entries) = (if ?b then Some l else None)"
    unfolding H js_find_last_append using l by (simp add: js_find_last_unique)
  show thesis
  proof (rule that [of "cs_throughSeq p"])
    show "after_summary (forModelContext incl entries) = ?F"
      unfolding after_summary_def last using p l by (auto simp: H intro!: filter_cong)
  qed (use last p Some in \<open>auto split: if_splits\<close>)
qed

lemma plan_keeps:
  assumes "sorted_wrt (<) (map en_seq entries)"
    and "planCompaction tok (forModelContext incl entries) mt f kr rb = Some plan" "pl_reuse plan = None"
  defines "H \<equiv> forModelContext incl entries" and "T \<equiv> compactionThroughSeq (pl_toSummarize plan)"
  shows "filter (\<lambda>e. \<not> is_summary e \<and> int (en_seq e) > T) (visible_of incl entries) = pl_kept plan"
    "filter (\<lambda>e. int (en_seq e) > T \<and> \<not> is_summary e) H = pl_kept plan"
proof -
  let ?A = "after_summary H"
  obtain k where k: "0 < k" "k < length ?A" "pl_kept plan = drop k ?A"
    "pl_toSummarize plan = (case js_find_last is_summary H of Some l \<Rightarrow> [l] | None \<Rightarrow> []) @ take k ?A"
    "\<not> awaits_result (take k ?A) (?A ! (k - 1))"
    by (rule plan_shape [OF assms(2,3), folded H_def])
  obtain b where b: "?A = filter (\<lambda>e. \<not> is_summary e \<and> int (en_seq e) > b) (visible_of incl entries)"
    "\<And>l p. js_find_last is_summary H = Some l \<Longrightarrow> contextSummaryPayload l = Some p \<Longrightarrow> cs_throughSeq p = b"
    unfolding H_def by (rule after_summary_of_context) blast
  have sorted: "sorted_wrt (<) (map en_seq ?A)"
    using assms(1) unfolding b(1) visible_of_def
    by (simp add: sorted_wrt_map sorted_wrt_filter)
  have plain: "contextSummaryPayload e = None \<and> b < int (en_seq e)" if "e \<in> set ?A" for e
    using that unfolding b(1) by (simp add: is_summary_def)
  have low: "int (en_seq e) \<le> T" if "e \<in> set (take k ?A)" for e
    using throughSeq_bounds(1) [of e "pl_toSummarize plan"] that plain [OF in_set_takeD [OF that]] by (simp add: k(4) T_def)
  have mem: "?A ! (k - 1) \<in> set (take k ?A)"
    using k(1,2) by (auto simp: in_set_conv_nth intro!: exI [of _ "k - 1"])
  have "b \<le> T" using low [OF mem] plain [OF in_set_takeD [OF mem]] by linarith
  have high: "T < int (en_seq e)" if "e \<in> set (drop k ?A)" for e
    unfolding T_def
  proof (rule throughSeq_bounds(2))
    have "?A = take k ?A @ drop k ?A" by simp
    then have lt: "en_seq d < en_seq e" if "d \<in> set (take k ?A)" for d
      using sorted \<open>e \<in> set (drop k ?A)\<close> that by (metis (mono_tags) map_append sorted_wrt_append image_eqI set_map)
    show "\<forall>d \<in> set (pl_toSummarize plan). (case contextSummaryPayload d of Some p \<Rightarrow> cs_throughSeq p | None \<Rightarrow> int (en_seq d)) < int (en_seq e)"
    proof
      fix d assume d: "d \<in> set (pl_toSummarize plan)"
      show "(case contextSummaryPayload d of Some p \<Rightarrow> cs_throughSeq p | None \<Rightarrow> int (en_seq d)) < int (en_seq e)"
      proof (cases "d \<in> set (take k ?A)")
        case True
        with lt plain [OF in_set_takeD [OF True]] show ?thesis by simp
      next
        case False
        with d have l: "js_find_last is_summary H = Some d" by (auto simp: k(4) split: option.splits)
        from js_find_last_Some [OF l] obtain p where "contextSummaryPayload d = Some p" by (auto simp: is_summary_def)
        with b(2) [OF l] plain [OF in_set_dropD [OF that]] show ?thesis by simp
      qed
    qed
  qed simp
  have "filter (\<lambda>e. int (en_seq e) > T) ?A =
      filter (\<lambda>e. int (en_seq e) > T) (take k ?A) @ filter (\<lambda>e. int (en_seq e) > T) (drop k ?A)"
    by (metis append_take_drop_id filter_append)
  also have "\<dots> = drop k ?A" using low high by (simp add: filter_empty_conv filter_id_conv not_less)
  finally have keep: "filter (\<lambda>e. int (en_seq e) > T) ?A = pl_kept plan" by (simp add: k(3))
  have "filter (\<lambda>e. \<not> is_summary e \<and> int (en_seq e) > T) (visible_of incl entries) =
      filter (\<lambda>e. int (en_seq e) > T) ?A"
    unfolding b(1) filter_filter by (rule filter_cong) (use \<open>b \<le> T\<close> in auto)
  with keep show "filter (\<lambda>e. \<not> is_summary e \<and> int (en_seq e) > T) (visible_of incl entries) = pl_kept plan" by simp
  have "filter (\<lambda>e. int (en_seq e) > T \<and> \<not> is_summary e) H = filter (\<lambda>e. int (en_seq e) > T) ?A"
    unfolding after_summary_def filter_filter
  proof (rule filter_cong)
    fix e
    show "(int (en_seq e) > T \<and> \<not> is_summary e) =
        ((\<not> is_summary e \<and> (case Option.bind (js_find_last is_summary H) contextSummaryPayload of
           Some p \<Rightarrow> int (en_seq e) > cs_throughSeq p | None \<Rightarrow> True)) \<and> int (en_seq e) > T)"
      using b(2) \<open>b \<le> T\<close> by (cases "js_find_last is_summary H"; force split: option.splits)
  qed simp
  with keep show "filter (\<lambda>e. int (en_seq e) > T \<and> \<not> is_summary e) H = pl_kept plan" by simp
qed

lemma context_after_summary:
  assumes "sorted_wrt (<) (map en_seq entries)"
    and "planCompaction tok (forModelContext incl entries) mt f kr rb = Some plan" "pl_reuse plan = None"
    and "contextSummaryPayload s = Some \<lparr> cs_throughSeq = compactionThroughSeq (pl_toSummarize plan), cs_text = t \<rparr>"
    and "incl \<or> \<not> is_tainted s"
  shows "forModelContext incl (entries @ [s]) = s # pl_kept plan"
proof -
  have s: "is_summary s" "is_replayable s"
    using assms(4) by (auto simp: is_summary_def is_replayable_def contextSummaryPayload_def
      split: option.splits json.splits if_splits)
  have v: "visible_of incl (entries @ [s]) = visible_of incl entries @ [s]"
    using s assms(5) by (simp add: visible_of_def)
  have "js_find_last is_summary (filter is_replayable (entries @ [s])) = Some s"
    using s by (simp add: js_find_last_def)
  then have "forModelContext incl (entries @ [s]) =
      s # filter (\<lambda>e. \<not> is_summary e \<and> int (en_seq e) > compactionThroughSeq (pl_toSummarize plan)) (visible_of incl entries)"
    using v s assms(4) by (simp add: forModelContext_def visible_of_def)
  then show ?thesis using plan_keeps(1) [OF assms(1-3)] by simp
qed

text \<open>
  Compaction loses nothing that is not in the summary: with the log in order, once the summary of a
  plan is written, the model is shown that summary and then exactly the entries the plan keeps, which is
  at least one; they and the entries summarised are, in order, all that was shown after the previous
  summary. The last entry summarised is never a tool call whose result is left out of the summary.
\<close>

theorem compaction_preserves_context:
  assumes "sorted_wrt (<) (map en_seq entries)"
    and "planCompaction tok (forModelContext incl entries) mt f kr rb = Some plan" "pl_reuse plan = None"
    and "contextSummaryPayload s = Some \<lparr> cs_throughSeq = compactionThroughSeq (pl_toSummarize plan), cs_text = t \<rparr>"
    and "incl \<or> \<not> is_tainted s"
  shows "forModelContext incl (entries @ [s]) = s # pl_kept plan \<and> pl_kept plan \<noteq> [] \<and>
    (\<exists>overflow. overflow \<noteq> [] \<and> after_summary (forModelContext incl entries) = overflow @ pl_kept plan \<and>
       pl_toSummarize plan =
         (case js_find_last is_summary (forModelContext incl entries) of Some l \<Rightarrow> [l] | None \<Rightarrow> []) @ overflow \<and>
       \<not> awaits_result overflow (last overflow))"
proof -
  let ?H = "forModelContext incl entries"
  let ?A = "after_summary ?H"
  obtain k where k: "0 < k" "k < length ?A" "pl_kept plan = drop k ?A"
    "pl_toSummarize plan = (case js_find_last is_summary ?H of Some l \<Rightarrow> [l] | None \<Rightarrow> []) @ take k ?A"
    "\<not> awaits_result (take k ?A) (?A ! (k - 1))"
    by (rule plan_shape [OF assms(2,3)])
  have "last (take k ?A) = ?A ! (k - 1)" using k(1,2) by (subst last_conv_nth) auto
  moreover have "take k ?A \<noteq> []" "?A = take k ?A @ pl_kept plan" "pl_kept plan \<noteq> []" using k(1-3) by auto
  ultimately show ?thesis using context_after_summary [OF assms] k(4,5) by metis
qed

section \<open>A history with parallel calls\<close>

definition sample_entry :: "nat \<Rightarrow> entry_type \<Rightarrow> (string \<times> json) list \<Rightarrow> session_entry" where
  "sample_entry seq k payload =
     \<lparr> en_sessionId = ''s'', en_seq = seq, en_parentSeq = None, en_type = k, en_payload = JObj payload,
       en_scopeLabel = ''channel:c'', en_createdAt = 0 \<rparr>"

definition parallel_history :: "session_entry list" where
  "parallel_history =
     [sample_entry 0 EUser [(''text'', JStr ''go'')],
      sample_entry 1 EToolCall [(''callId'', JStr ''a'')], sample_entry 2 EToolCall [(''callId'', JStr ''b'')],
      sample_entry 3 EToolResult [(''callId'', JStr ''a'')], sample_entry 4 EToolResult [(''callId'', JStr ''b'')]]"

definition parallel_plan :: compaction_plan where
  "parallel_plan = \<lparr> pl_toSummarize = take 4 parallel_history, pl_kept = drop 4 parallel_history, pl_reuse = None \<rparr>"

lemma parallel_plan: "planCompaction (\<lambda>_. 1) parallel_history 10 5404319552844595 1 (1, 1) = Some parallel_plan"
  by code_simp

text \<open>
  With calls made in parallel the plan can still part a call from its result: only the last entry to
  be summarised is looked at, so here the call \<open>b\<close> is summarised and its result kept, and the transcript
  to summarise says of \<open>b\<close> that it was interrupted and its outcome not recorded.
\<close>

theorem parallel_call_reported_interrupted:
  "planCompaction (\<lambda>_. 1) parallel_history 10 5404319552844595 1 (1, 1) = Some parallel_plan \<and>
   json_get_str ''callId'' (en_payload (hd (pl_kept parallel_plan))) = Some ''b'' \<and>
   en_type (hd (pl_kept parallel_plan)) = EToolResult \<and>
   js_includes (compactTranscript (pl_toSummarize parallel_plan)) (''tool_result#2: '' @ INTERRUPTED_TOOL_RESULT)"
proof -
  have "\<exists>lines. compactTranscript (pl_toSummarize parallel_plan) = js_join [CHR 0x0A] lines \<and>
      (''tool_result#2: '' @ INTERRUPTED_TOOL_RESULT) \<in> set lines"
  proof -
    have "awaits_result (take 4 parallel_history) (sample_entry 2 EToolCall [(''callId'', JStr ''b'')])" by code_simp
    moreover have "js_show_int 2 = ''2''" by code_simp
    ultimately show ?thesis
      unfolding compactTranscript_def parallel_plan_def
      by (intro exI [of _ "concat (map (entry_lines (take 4 parallel_history)) (take 4 parallel_history))"])
         (simp add: parallel_history_def entry_lines_def contextSummaryPayload_def sample_entry_def Let_def)
  qed
  then have "js_includes (compactTranscript (pl_toSummarize parallel_plan)) (''tool_result#2: '' @ INTERRUPTED_TOOL_RESULT)"
    using js_join_includes by metis
  moreover have "json_get_str ''callId'' (en_payload (hd (pl_kept parallel_plan))) = Some ''b''"
      "en_type (hd (pl_kept parallel_plan)) = EToolResult"
    by code_simp+
  ultimately show ?thesis using parallel_plan by blast
qed

theorem compaction_preserves_context_witness:
  "let s = sample_entry 5 ESystem (createContextSummaryPayload 3 ''sum'')
   in forModelContext False (parallel_history @ [s]) = s # pl_kept parallel_plan"
proof -
  let ?s = "sample_entry 5 ESystem (createContextSummaryPayload 3 ''sum'')"
  have "sorted_wrt (<) (map en_seq parallel_history)" "forModelContext False parallel_history = parallel_history"
      "pl_reuse parallel_plan = None" "\<not> is_tainted ?s" "compactionThroughSeq (pl_toSummarize parallel_plan) = 3"
      "contextSummaryPayload ?s = Some \<lparr> cs_throughSeq = 3, cs_text = ''sum'' \<rparr>"
    by code_simp+
  then show ?thesis
    using compaction_preserves_context [of parallel_history "\<lambda>_. 1" False 10 "5404319552844595" 1 "(1, 1)" parallel_plan ?s "''sum''"]
      parallel_plan by (simp add: Let_def)
qed

end
