(* ===== verification/Compact_Session.thy ===== *)
theory Compact_Session
  imports Compaction
begin

text \<open>
  Compaction of a live session (\<open>src/core/orchestrator/compaction.ts\<close>): deciding that a history has
  outgrown the budget, summarising, writing the summary to the log and mirroring it on the tape under the
  session's lease, and the background job that does the same between turns. The token budget of the
  model, the groups that are managed elsewhere and the call that writes a summary are parameters; the
  clock is read once per append.
\<close>

record compaction_deps =
  cd_maxContextEntries :: int
  cd_maxContextTokens :: int
  cd_tokens :: "session_entry \<Rightarrow> nat"
  cd_recognizes :: "string \<Rightarrow> bool"
  cd_ttl :: int

type_synonym 'e summarizer = "(session_entry list \<Rightarrow> ('e, string) promise) option"

definition MAX_CONTEXT_ENTRIES :: int where "MAX_CONTEXT_ENTRIES = 400"
definition KEEP_RECENT_TOKEN_FRACTION :: fraction where "KEEP_RECENT_TOKEN_FRACTION = 5404319552844595"

definition boundRecent :: "compaction_deps \<Rightarrow> session_entry list \<Rightarrow> session_entry list" where
  "boundRecent deps entries =
     (let summary = List.find is_summary entries;
          rest = (case summary of Some s \<Rightarrow> filter (\<lambda>e. e \<noteq> s) entries | None \<Rightarrow> entries);
          kept = drop (length rest -
                   recentEntryCountWithinBudget (cd_tokens deps) rest
                     (cd_maxContextEntries deps - (if summary = None then 0 else 1))
                     (cd_maxContextTokens deps - (case summary of Some s \<Rightarrow> int (cd_tokens deps s) | None \<Rightarrow> 0))) rest
      in case summary of Some s \<Rightarrow> s # kept | None \<Rightarrow> kept)"

definition isManagedGroupScope :: "compaction_deps \<Rightarrow> scope_id \<Rightarrow> bool" where
  "isManagedGroupScope deps scope =
     (case parseScopeId scope of (Some Group, ref) \<Rightarrow> cd_recognizes deps ref | _ \<Rightarrow> False)"

definition keepRecentEntries :: "compaction_deps \<Rightarrow> int" where
  "keepRecentEntries deps = max 1 (floor_of (cd_maxContextEntries deps) COMPACT_SOFT_FRACTION - 1)"

record summarized =
  sz_text :: string
  sz_summaryLabel :: scope_id
  sz_throughSeq :: int
  sz_securityTainted :: bool

definition context_plan :: "compaction_deps \<Rightarrow> session_entry list \<Rightarrow> compaction_plan option" where
  "context_plan deps history =
     planCompaction (cd_tokens deps) history (cd_maxContextTokens deps) KEEP_RECENT_TOKEN_FRACTION (keepRecentEntries deps)
       (keepRecentEntries deps + 1, floor_of (cd_maxContextTokens deps) KEEP_RECENT_TOKEN_FRACTION)"

definition summarizeForCompaction ::
  "compaction_deps \<Rightarrow> 'e summarizer \<Rightarrow> session_entry list \<Rightarrow> scope_id \<Rightarrow> scope_id \<Rightarrow> ('e, summarized option) promise" where
  "summarizeForCompaction deps compactHistory history scope org =
     (if isManagedGroupScope deps scope then Resolved None
      else
        case compactHistory of
          None \<Rightarrow> Resolved None
        | Some summarize \<Rightarrow>
            (case context_plan deps history of
               None \<Rightarrow> Resolved None
             | Some plan \<Rightarrow>
                 if pl_toSummarize plan = [] then Resolved None
                 else
                   (case compactedScopeLabel (pl_toSummarize plan) scope org of
                      None \<Rightarrow> Resolved None
                    | Some label \<Rightarrow>
                        if label = [] then Resolved None
                        else
                          (case summarize (pl_toSummarize plan) of
                             Rejected e \<Rightarrow> Rejected e
                           | Resolved t \<Rightarrow>
                               Resolved (Some \<lparr> sz_text = t, sz_summaryLabel = label,
                                                sz_throughSeq = compactionThroughSeq (pl_toSummarize plan),
                                                sz_securityTainted = list_ex is_tainted (pl_toSummarize plan) \<rparr>)))))"

definition summary_payload :: "summarized \<Rightarrow> json" where
  "summary_payload z =
     JObj (createContextSummaryPayload (sz_throughSeq z) (sz_text z) @
           (if sz_securityTainted z then [(''securityTainted'', JBool True)] else []))"

definition compaction_row :: "summarized \<Rightarrow> nat \<Rightarrow> new_tape_record" where
  "compaction_row z seq =
     \<lparr> tp_kind = TContextEvent, tp_payload = JObj [(''event'', JStr ''compaction''), (''text'', JStr (sz_text z))],
       tp_scopeLabel = sz_summaryLabel z, tp_harness = None, tp_meta = None,
       tp_entrySeq = Some (int seq), tp_coversEntrySeq = Some (sz_throughSeq z) \<rparr>"

definition watermark_row :: "summarized \<Rightarrow> nat \<Rightarrow> new_tape_record" where
  "watermark_row z seq =
     \<lparr> tp_kind = TAnnotation, tp_payload = JObj [(''turnEnd'', JBool True)],
       tp_scopeLabel = sz_summaryLabel z, tp_harness = None, tp_meta = None,
       tp_entrySeq = Some (int seq), tp_coversEntrySeq = None \<rparr>"

definition writeCompaction ::
  "compaction_deps \<Rightarrow> time \<Rightarrow> time \<Rightarrow> time \<Rightarrow> lease \<Rightarrow> string \<Rightarrow> summarized \<Rightarrow> session_store \<Rightarrow>
     (session_error + session_entry \<times> bool) \<times> session_store" where
  "writeCompaction deps t1 t2 t3 l sid z s =
     (case append_entry (cd_ttl deps) t1 l ESystem (summary_payload z) (sz_summaryLabel z) s of
        (Inl e, s1) \<Rightarrow> (Inl e, s1)
      | (Inr summary, s1) \<Rightarrow>
          (case appendTape (cd_ttl deps) t2 l (compaction_row z (en_seq summary)) s1 of
             (Inl _, s2) \<Rightarrow> (Inr (summary, False), s2)
           | (Inr _, s2) \<Rightarrow>
               (Inr (summary, True),
                if tapeCoverage s2 sid = int (en_seq summary) - 1
                then snd (appendTape (cd_ttl deps) t3 l (watermark_row z (en_seq summary)) s2) else s2)))"

datatype 'e compaction_error = SummaryFailed 'e | SessionFailed session_error

definition applyCompaction ::
  "compaction_deps \<Rightarrow> 'e summarizer \<Rightarrow> time \<Rightarrow> time \<Rightarrow> time \<Rightarrow> lease \<Rightarrow> string \<Rightarrow> session_entry list \<Rightarrow> scope_id \<Rightarrow> scope_id \<Rightarrow>
     session_store \<Rightarrow> ('e compaction_error + (session_entry list \<times> bool) option) \<times> session_store" where
  "applyCompaction deps compactHistory t1 t2 t3 l sid history scope org s =
     (case summarizeForCompaction deps compactHistory history scope org of
        Rejected e \<Rightarrow> (Inl (SummaryFailed e), s)
      | Resolved None \<Rightarrow> (Inr None, s)
      | Resolved (Some z) \<Rightarrow>
          (case writeCompaction deps t1 t2 t3 l sid z s of
             (Inl e, s1) \<Rightarrow> (Inl (SessionFailed e), s1)
           | (Inr (summary, mirrored), s1) \<Rightarrow>
               (let recent = filter (\<lambda>e. int (en_seq e) > sz_throughSeq z \<and> \<not> is_summary e) history
                in (Inr (Some (summary # drop (nat (int (length recent) - (cd_maxContextEntries deps - 1))) recent, mirrored)),
                    s1))))"

definition compactContextIfNeeded ::
  "compaction_deps \<Rightarrow> 'e summarizer \<Rightarrow> time \<Rightarrow> time \<Rightarrow> time \<Rightarrow> lease \<Rightarrow> string \<Rightarrow> session_entry list \<Rightarrow> scope_id \<Rightarrow> scope_id \<Rightarrow>
     session_store \<Rightarrow> ('e compaction_error + session_entry list \<times> bool) \<times> session_store" where
  "compactContextIfNeeded deps compactHistory t1 t2 t3 l sid history scope org s =
     (if \<not> overBudgetFraction (cd_tokens deps) history (cd_maxContextEntries deps) (cd_maxContextTokens deps) COMPACT_HARD_FRACTION
      then (Inr (history, False), s)
      else
        case applyCompaction deps compactHistory t1 t2 t3 l sid history scope org s of
          (Inl e, s1) \<Rightarrow> (Inl e, s1)
        | (Inr (Some (h, mirrored)), s1) \<Rightarrow> (Inr (h, \<not> mirrored), s1)
        | (Inr None, s1) \<Rightarrow> (Inr (boundRecent deps history, False), s1))"

section \<open>The background job\<close>

text \<open>
  The job first summarises a snapshot of the log without the lease, then, once it holds the lease, writes
  the summary unless another one was written since, and releases the lease.
\<close>

definition background_summary ::
  "compaction_deps \<Rightarrow> 'e summarizer \<Rightarrow> bool \<Rightarrow> string \<Rightarrow> scope_id \<Rightarrow> scope_id \<Rightarrow> session_store \<Rightarrow>
     ('e, (summarized \<times> int) option) promise" where
  "background_summary deps compactHistory incl sid scope org s =
     (if map_of (ss_sessions s) sid = None then Resolved None
      else
        let entries = getEntries s sid None None; history = forModelContext incl entries;
            snapshotSeq = (if entries = [] then -1 else int (en_seq (last entries)))
        in if \<not> overBudgetFraction (cd_tokens deps) history (cd_maxContextEntries deps) (cd_maxContextTokens deps)
                   COMPACT_SOFT_FRACTION
           then Resolved None
           else
             case summarizeForCompaction deps compactHistory history scope org of
               Rejected e \<Rightarrow> Rejected e
             | Resolved None \<Rightarrow> Resolved None
             | Resolved (Some z) \<Rightarrow> Resolved (Some (z, snapshotSeq)))"

definition background_write ::
  "compaction_deps \<Rightarrow> time \<Rightarrow> time \<Rightarrow> time \<Rightarrow> lease \<Rightarrow> string \<Rightarrow> summarized \<times> int \<Rightarrow> session_store \<Rightarrow> session_store" where
  "background_write deps t1 t2 t3 l sid zs s =
     (let since = getEntries s sid (Some (snd zs + 1)) None;
          s1 = (if list_ex is_summary since then s else snd (writeCompaction deps t1 t2 t3 l sid (fst zs) s))
      in releaseSessionLease l s1)"

section \<open>Properties\<close>

lemma log_wf_sorted: "log_wf sid log \<Longrightarrow> sorted_wrt (<) (map en_seq log)"
  by (auto simp: log_wf_def sorted_wrt_iff_nth_less)

lemma extend_lease_simps [simp]:
  "ss_entries (extend_lease t sid s) = ss_entries s" "ss_tape (extend_lease t sid s) = ss_tape s"
  "lease_valid l (extend_lease t sid s) = lease_valid l s"
  by (auto simp: extend_lease_def lease_valid_def map_of_jmap_mutate split: option.splits)

lemma append_under_lease:
  assumes "lease_valid l s" "le_sessionId l = sid" "map_of (ss_entries s) sid = Some log"
  shows "\<exists>s1. append_entry ttl now l k payload label s = (Inr (new_entry sid (length log) k payload label now), s1) \<and>
    lease_valid l s1 \<and> map_of (ss_entries s1) sid = Some (log @ [new_entry sid (length log) k payload label now]) \<and>
    ss_tape s1 = ss_tape s"
  using assms by (auto simp: append_entry_def Let_def) (auto simp: lease_valid_def extend_lease_def map_of_jmap_mutate split: option.splits)

lemma appendTape_under_lease:
  assumes "lease_valid l s" "le_sessionId l = sid"
  shows "\<exists>s1. appendTape ttl now l rec s = (Inr (full_tape_record rec sid (length (tape_of s sid)) now), s1) \<and>
    lease_valid l s1 \<and> ss_entries s1 = ss_entries s \<and>
    tape_of s1 sid = tape_of s sid @ [full_tape_record rec sid (length (tape_of s sid)) now]"
  using assms by (auto simp: appendTape_def Let_def tape_of_def) (auto simp: lease_valid_def extend_lease_def map_of_jmap_mutate split: option.splits)

text \<open>Under the lease the writing succeeds: the summary ends the log and the tape has the event.\<close>

lemma writeCompaction_under_lease:
  assumes "lease_valid l s" "le_sessionId l = sid" "map_of (ss_entries s) sid = Some log"
    and summary_def: "summary = new_entry sid (length log) ESystem (summary_payload z) (sz_summaryLabel z) t1"
  shows "\<exists>s'. writeCompaction deps t1 t2 t3 l sid z s = (Inr (summary, True), s') \<and>
    map_of (ss_entries s') sid = Some (log @ [summary]) \<and> lease_valid l s' \<and>
    (\<exists>rows. tape_of s' sid =
       tape_of s sid @ full_tape_record (compaction_row z (length log)) sid (length (tape_of s sid)) t2 # rows)"
proof -
  from append_under_lease [OF assms(1-3)] obtain s1 where s1:
    "append_entry (cd_ttl deps) t1 l ESystem (summary_payload z) (sz_summaryLabel z) s = (Inr summary, s1)"
    "lease_valid l s1" "map_of (ss_entries s1) sid = Some (log @ [summary])" "tape_of s1 sid = tape_of s sid"
    unfolding summary_def tape_of_def by metis
  from appendTape_under_lease [OF s1(2) assms(2)] obtain s2 where s2:
    "appendTape (cd_ttl deps) t2 l (compaction_row z (en_seq summary)) s1 =
       (Inr (full_tape_record (compaction_row z (en_seq summary)) sid (length (tape_of s1 sid)) t2), s2)"
    "lease_valid l s2" "ss_entries s2 = ss_entries s1"
    "tape_of s2 sid = tape_of s1 sid @ [full_tape_record (compaction_row z (en_seq summary)) sid (length (tape_of s1 sid)) t2]"
    by metis
  from appendTape_under_lease [OF s2(2) assms(2)] obtain s3 r where s3:
    "appendTape (cd_ttl deps) t3 l (watermark_row z (en_seq summary)) s2 = (Inr r, s3)"
    "lease_valid l s3" "ss_entries s3 = ss_entries s2" "tape_of s3 sid = tape_of s2 sid @ [r]"
    by metis
  have seq: "en_seq summary = length log" by (simp add: summary_def new_entry_def)
  show ?thesis
    using s1 s2 s3 seq by (auto simp: writeCompaction_def)
qed

lemma summary_of_new_entry:
  "contextSummaryPayload (new_entry sid n ESystem (summary_payload z) label t) =
     Some \<lparr> cs_throughSeq = sz_throughSeq z, cs_text = sz_text z \<rparr>"
  "is_tainted (new_entry sid n ESystem (summary_payload z) label t) = sz_securityTainted z"
  by (simp_all add: contextSummaryPayload_def is_tainted_def new_entry_def summary_payload_def createContextSummaryPayload_def)

lemma summarize_plan:
  assumes "summarizeForCompaction deps c history scope org = Resolved (Some z)"
  obtains plan where "context_plan deps history = Some plan" "pl_reuse plan = None" "pl_toSummarize plan \<noteq> []"
    "sz_throughSeq z = compactionThroughSeq (pl_toSummarize plan)"
    "sz_securityTainted z = list_ex is_tainted (pl_toSummarize plan)"
    "compactedScopeLabel (pl_toSummarize plan) scope org = Some (sz_summaryLabel z)"
proof -
  obtain plan where p: "context_plan deps history = Some plan" "pl_toSummarize plan \<noteq> []"
    "sz_throughSeq z = compactionThroughSeq (pl_toSummarize plan)"
    "sz_securityTainted z = list_ex is_tainted (pl_toSummarize plan)"
    "compactedScopeLabel (pl_toSummarize plan) scope org = Some (sz_summaryLabel z)"
    using assms by (auto simp: summarizeForCompaction_def split: if_splits option.splits promise.splits)
  moreover have "pl_reuse plan = None"
    using p(1,2) by (auto simp: context_plan_def planCompaction_alt Let_def split: option.splits if_splits)
  ultimately show thesis using that by blast
qed

lemma plan_within:
  assumes "planCompaction tok history mt f kr rb = Some plan" "pl_reuse plan = None"
  shows "set (pl_toSummarize plan) \<subseteq> set history"
proof -
  obtain k where k: "pl_toSummarize plan =
      (case js_find_last is_summary history of Some l \<Rightarrow> [l] | None \<Rightarrow> []) @ take k (after_summary history)"
    by (rule plan_shape [OF assms])
  have "set (after_summary history) \<subseteq> set history" by (auto simp: after_summary_def)
  then show ?thesis
    using k by (auto dest!: in_set_takeD js_find_last_Some split: option.splits)
qed

lemma context_not_tainted: "e \<in> set (forModelContext False entries) \<Longrightarrow> \<not> is_tainted e"
  by (auto simp: forModelContext_def Let_def split: option.splits if_splits)


section \<open>A session that outgrows its budget\<close>

definition long_session :: session_store where
  "long_session =
     fold (\<lambda>t s. snd (append_entry 100 t demo_lease EUser (JObj [(''text'', JStr ''more'')]) ''personal:ann'' s))
       [4, 5, 6, 7, 8, 9, 10] demo_s3"

definition small_budget :: compaction_deps where
  "small_budget = \<lparr> cd_maxContextEntries = 5, cd_maxContextTokens = 10, cd_tokens = \<lambda>_. 1, cd_recognizes = \<lambda>_. False, cd_ttl = 100 \<rparr>"

definition long_session_compacted ::
  "(nat compaction_error + (session_entry list \<times> bool) option) \<times> session_store" where
  "long_session_compacted =
     applyCompaction small_budget (Some (\<lambda>_. Resolved ''sum'')) 11 12 13 demo_lease ''s1''
       (forModelContext False (log_of long_session ''s1'')) ''personal:ann'' ''org:acme'' long_session"

lemma fold_append_reachable:
  "session_reachable (s, I) \<Longrightarrow>
   session_reachable (fold (\<lambda>t s. snd (append_entry ttl t l k p label s)) ts s, I)"
  by (induction ts arbitrary: s) (simp_all add: session_reachable_step [OF _ step_append])

lemma long_session_reachable: "session_reachable (long_session, {''t1'', ''s1''})"
  unfolding long_session_def
  by (rule fold_append_reachable [OF session_reachable_step [OF demo_s2_reachable demo_appends]])


end
