(* ===== verification/Rate_Limits.thy ===== *)
theory Rate_Limits
  imports Complex_Main Durable_Map
begin

text \<open>
  The guards in front of a turn and of an incoming event: the fixed-window rate limiter
  (\<open>src/ratelimit/rate-limiter.ts\<close> and its Postgres twin), the spending budget
  (\<open>src/ratelimit/budget.ts\<close>), the replay guard (\<open>src/auth/replay-dedupe.ts\<close>) and the idempotency
  store (\<open>src/idempotency/idempotency-store.ts\<close>). The statements of the Postgres twins are written as
  the row updates they describe. Amounts of money are rationals and their sums exact; a limit that is
  absent is \<open>Infinity\<close>.
\<close>

section \<open>Rate limiter\<close>

record rate_window =
  rw_windowStart :: time
  rw_count :: int

record rate_opts =
  ro_maxPerWindow :: int
  ro_windowMs :: int

datatype rate_decision = RateAllowed | RateDenied int

definition rate_check :: "rate_opts \<Rightarrow> (string, rate_window) jsmap \<Rightarrow> string \<times> time \<Rightarrow>
    rate_decision \<times> (string, rate_window) jsmap" where
  "rate_check opts state call =
     (case call of (pid, t) \<Rightarrow>
        case map_of state pid of
          None \<Rightarrow> (RateAllowed, jmap_set pid \<lparr> rw_windowStart = t, rw_count = 1 \<rparr> state)
        | Some s \<Rightarrow>
            if t - rw_windowStart s \<ge> ro_windowMs opts
            then (RateAllowed, jmap_set pid \<lparr> rw_windowStart = t, rw_count = 1 \<rparr> state)
            else if rw_count s \<ge> ro_maxPerWindow opts
            then (RateDenied (ro_windowMs opts - (t - rw_windowStart s)), state)
            else (RateAllowed, jmap_set pid (s\<lparr> rw_count := rw_count s + 1 \<rparr>) state))"

text \<open>The upsert of the Postgres limiter, and the decision on the row it returns.\<close>

definition pg_rate_upsert :: "rate_opts \<Rightarrow> (string, rate_window) jsmap \<Rightarrow> string \<Rightarrow> time \<Rightarrow> rate_window" where
  "pg_rate_upsert opts rows pid t =
     (case map_of rows pid of
        None \<Rightarrow> \<lparr> rw_windowStart = t, rw_count = 1 \<rparr>
      | Some r \<Rightarrow>
          if t - rw_windowStart r \<ge> ro_windowMs opts then \<lparr> rw_windowStart = t, rw_count = 1 \<rparr>
          else r\<lparr> rw_count := rw_count r + 1 \<rparr>)"

definition pg_rate_check :: "rate_opts \<Rightarrow> (string, rate_window) jsmap \<Rightarrow> string \<times> time \<Rightarrow>
    rate_decision \<times> (string, rate_window) jsmap" where
  "pg_rate_check opts rows call =
     (case call of (pid, t) \<Rightarrow>
        let r = pg_rate_upsert opts rows pid t
        in (if rw_count r \<le> ro_maxPerWindow opts then RateAllowed
            else RateDenied (max 0 (ro_windowMs opts - (t - rw_windowStart r))),
            jmap_set pid r rows))"

section \<open>Budget\<close>

record spend =
  sp_at :: time
  sp_usd :: rat

record budget_opts =
  bo_limitUsd :: "rat option"
  bo_orgLimitUsd :: "rat option"
  bo_windowMs :: int

record budget_status =
  bc_allowed :: bool
  bc_spentUsd :: rat
  bc_limitUsd :: "rat option"

definition ORG_KEY :: string where "ORG_KEY = ''@org''"

definition estimateCostUsd :: "int \<Rightarrow> rat \<Rightarrow> rat" where
  "estimateCostUsd inputTokens usdPerMTok = of_int inputTokens / 1000000 * usdPerMTok"

definition at_least :: "rat \<Rightarrow> rat option \<Rightarrow> bool" where
  "at_least x limit = (case limit of None \<Rightarrow> False | Some l \<Rightarrow> l \<le> x)"

definition spentIn ::
  "budget_opts \<Rightarrow> string \<Rightarrow> time \<Rightarrow> (string, spend list) jsmap \<Rightarrow> rat \<times> (string, spend list) jsmap" where
  "spentIn opts pid now m =
     (let kept = filter (\<lambda>e. sp_at e \<ge> now - bo_windowMs opts) (case map_of m pid of None \<Rightarrow> [] | Some l \<Rightarrow> l)
      in (sum_list (map sp_usd kept), jmap_set pid kept m))"

definition budget_decide :: "budget_opts \<Rightarrow> rat \<Rightarrow> rat \<Rightarrow> budget_status" where
  "budget_decide opts spent orgSpent =
     (if at_least spent (bo_limitUsd opts)
      then \<lparr> bc_allowed = False, bc_spentUsd = spent, bc_limitUsd = bo_limitUsd opts \<rparr>
      else \<lparr> bc_allowed = \<not> at_least orgSpent (bo_orgLimitUsd opts), bc_spentUsd = orgSpent,
             bc_limitUsd = bo_orgLimitUsd opts \<rparr>)"

definition budget_check :: "budget_opts \<Rightarrow> string \<Rightarrow> time \<Rightarrow> (string, spend list) jsmap \<Rightarrow>
    budget_status \<times> (string, spend list) jsmap" where
  "budget_check opts pid now m =
     (case spentIn opts pid now m of (spent, m1) \<Rightarrow>
        if at_least spent (bo_limitUsd opts) then (budget_decide opts spent 0, m1)
        else (case spentIn opts ORG_KEY now m1 of (orgSpent, m2) \<Rightarrow> (budget_decide opts spent orgSpent, m2)))"

definition add_spend :: "string \<Rightarrow> spend \<Rightarrow> (string, spend list) jsmap \<Rightarrow> (string, spend list) jsmap" where
  "add_spend key e m = jmap_set key ((case map_of m key of None \<Rightarrow> [] | Some l \<Rightarrow> l) @ [e]) m"

definition budget_record :: "string \<Rightarrow> rat \<Rightarrow> time \<Rightarrow> (string, spend list) jsmap \<Rightarrow> (string, spend list) jsmap" where
  "budget_record pid cost now m =
     (let e = \<lparr> sp_at = now, sp_usd = cost \<rparr> in add_spend ORG_KEY e (add_spend pid e m))"

datatype budget_call = Check string time | Record string rat time

fun call_time :: "budget_call \<Rightarrow> time" where
  "call_time (Check _ t) = t"
| "call_time (Record _ _ t) = t"

definition budget_exec :: "budget_opts \<Rightarrow> (string, spend list) jsmap \<Rightarrow> budget_call \<Rightarrow>
    budget_status option \<times> (string, spend list) jsmap" where
  "budget_exec opts m call =
     (case call of
        Check pid t \<Rightarrow> (case budget_check opts pid t m of (r, m') \<Rightarrow> (Some r, m'))
      | Record pid cost t \<Rightarrow> (None, budget_record pid cost t m))"

section \<open>Replay guard\<close>

record replay_guard =
  rg_seen :: "(string, time) jsmap"
  rg_nextPruneAt :: "time option"

definition PRUNE_INTERVAL_MS :: int where "PRUNE_INTERVAL_MS = 60000"

definition createReplayDedupe :: replay_guard where
  "createReplayDedupe = \<lparr> rg_seen = [], rg_nextPruneAt = None \<rparr>"

definition prune_seen :: "time \<Rightarrow> replay_guard \<Rightarrow> replay_guard" where
  "prune_seen t g =
     (if (case rg_nextPruneAt g of None \<Rightarrow> True | Some n \<Rightarrow> t \<ge> n)
      then \<lparr> rg_seen = filter (\<lambda>(_, exp). \<not> exp < t) (rg_seen g), rg_nextPruneAt = Some (t + PRUNE_INTERVAL_MS) \<rparr>
      else g)"

definition replay_claim :: "string \<Rightarrow> time \<Rightarrow> time \<Rightarrow> replay_guard \<Rightarrow> bool \<times> replay_guard" where
  "replay_claim eventId expiresAtMs t g =
     (let g1 = prune_seen t g
      in if (case map_of (rg_seen g1) eventId of None \<Rightarrow> False | Some existing \<Rightarrow> existing \<ge> t) then (False, g1)
         else (True, g1\<lparr> rg_seen := jmap_set eventId expiresAtMs (rg_seen g1) \<rparr>))"

definition pg_replay_claim :: "string \<Rightarrow> time \<Rightarrow> time \<Rightarrow> replay_guard \<Rightarrow> bool \<times> replay_guard" where
  "pg_replay_claim eventId expiresAtMs t g =
     (let g1 = prune_seen t g
      in if map_of (rg_seen g1) eventId \<noteq> None then (False, g1)
         else (True, g1\<lparr> rg_seen := rg_seen g1 @ [(eventId, expiresAtMs)] \<rparr>))"

section \<open>Rate limiter: properties\<close>

text \<open>
  The two limiters differ in the count of a window that is full: the one in memory stops counting.
\<close>

definition capped :: "rate_opts \<Rightarrow> rate_window \<Rightarrow> rate_window" where
  "capped opts r = r\<lparr> rw_count := min (rw_count r) (ro_maxPerWindow opts) \<rparr>"

definition same_windows :: "rate_opts \<Rightarrow> (string, rate_window) jsmap \<Rightarrow> (string, rate_window) jsmap \<Rightarrow> bool" where
  "same_windows opts pg mem \<longleftrightarrow> map_of mem = (\<lambda>pid. map_option (capped opts) (map_of pg pid))"

lemma same_windows_update:
  "same_windows opts pg mem \<Longrightarrow> s = capped opts r \<Longrightarrow> same_windows opts (jmap_set pid r pg) (jmap_set pid s mem)"
  "same_windows opts pg mem \<Longrightarrow> map_of mem pid = Some (capped opts r) \<Longrightarrow> same_windows opts (jmap_set pid r pg) mem"
  by (auto simp: same_windows_def fun_eq_iff)

interpretation rate: simulation "pg_rate_check opts" "rate_check opts" "same_windows opts" "\<lambda>_ _. 1 \<le> ro_maxPerWindow opts" for opts
proof
  fix pg mem :: "(string, rate_window) jsmap" and call :: "string \<times> time"
  assume R: "same_windows opts pg mem" and one: "1 \<le> ro_maxPerWindow opts"
  obtain pid t where c: "call = (pid, t)" by force
  have fresh: "same_windows opts (jmap_set pid \<lparr> rw_windowStart = t, rw_count = 1 \<rparr> pg)
      (jmap_set pid \<lparr> rw_windowStart = t, rw_count = 1 \<rparr> mem)"
    using R one by (intro same_windows_update(1)) (auto simp: capped_def)
  show "fst (pg_rate_check opts pg call) = fst (rate_check opts mem call) \<and>
      same_windows opts (snd (pg_rate_check opts pg call)) (snd (rate_check opts mem call))"
  proof (cases "map_of pg pid")
    case None
    then have "map_of mem pid = None" using R by (simp add: same_windows_def)
    with None one fresh show ?thesis by (simp add: c pg_rate_check_def pg_rate_upsert_def rate_check_def Let_def)
  next
    case (Some r)
    then have m: "map_of mem pid = Some (capped opts r)" using R by (simp add: same_windows_def)
    consider "t - rw_windowStart r \<ge> ro_windowMs opts"
      | "t - rw_windowStart r < ro_windowMs opts" "rw_count r < ro_maxPerWindow opts"
      | "t - rw_windowStart r < ro_windowMs opts" "rw_count r \<ge> ro_maxPerWindow opts"
      by linarith
    then show ?thesis
    proof cases
      case 1
      with Some m one fresh show ?thesis
        by (simp add: c pg_rate_check_def pg_rate_upsert_def rate_check_def Let_def capped_def)
    next
      case 2
      then have "same_windows opts (jmap_set pid (r\<lparr> rw_count := rw_count r + 1 \<rparr>) pg)
          (jmap_set pid ((capped opts r)\<lparr> rw_count := rw_count (capped opts r) + 1 \<rparr>) mem)"
        using R by (intro same_windows_update(1)) (auto simp: capped_def)
      with 2 Some m show ?thesis
        by (simp add: c pg_rate_check_def pg_rate_upsert_def rate_check_def Let_def capped_def)
    next
      case 3
      then have "same_windows opts (jmap_set pid (r\<lparr> rw_count := rw_count r + 1 \<rparr>) pg) mem"
        using R m by (intro same_windows_update(2)) (auto simp: capped_def)
      with 3 Some m show ?thesis
        by (simp add: c pg_rate_check_def pg_rate_upsert_def rate_check_def Let_def capped_def)
    qed
  qed
qed

definition allowed_in :: "rate_opts \<Rightarrow> string \<Rightarrow> time \<Rightarrow> (string, rate_window) jsmap \<Rightarrow> (string \<times> time) list \<Rightarrow> nat" where
  "allowed_in opts pid a state calls =
     length (filter (\<lambda>((p, t), d). p = pid \<and> a \<le> t \<and> t < a + ro_windowMs opts \<and> d = RateAllowed)
       (zip calls (answers (rate_check opts) state calls)))"

lemma allowed_in_simps:
  "allowed_in opts pid a state [] = 0"
  "allowed_in opts pid a state ((p, t) # calls) =
     (if p = pid \<and> a \<le> t \<and> t < a + ro_windowMs opts \<and> fst (rate_check opts state (p, t)) = RateAllowed then 1 else 0) +
     allowed_in opts pid a (snd (rate_check opts state (p, t))) calls"
  by (auto simp: allowed_in_def)

definition counts_ok :: "(string, rate_window) jsmap \<Rightarrow> bool" where
  "counts_ok state \<longleftrightarrow> (\<forall>p s. map_of state p = Some s \<longrightarrow> 1 \<le> rw_count s)"

lemma rate_check_counts: "counts_ok state \<Longrightarrow> counts_ok (snd (rate_check opts state call))"
  by (auto simp: counts_ok_def rate_check_def split: prod.splits option.splits if_splits) fastforce+

lemma rate_check_other: "p \<noteq> pid \<Longrightarrow> map_of (snd (rate_check opts state (p, t))) pid = map_of state pid"
  by (auto simp: rate_check_def split: option.splits)

lemma allowed_in_after:
  "\<forall>c \<in> set calls. a + ro_windowMs opts \<le> snd c \<Longrightarrow> allowed_in opts pid a state calls = 0"
  by (fastforce simp: allowed_in_def filter_empty_conv dest: set_zip_leftD)

text \<open>What is left to allow in an interval, by the window the principal is in when it begins.\<close>

definition allowance :: "rate_opts \<Rightarrow> time \<Rightarrow> rate_window option \<Rightarrow> int" where
  "allowance opts a w =
     (let m = max 1 (ro_maxPerWindow opts)
      in case w of
           None \<Rightarrow> m
         | Some s \<Rightarrow> max 0 (m - rw_count s) + (if rw_windowStart s < a then m else 0))"

lemma allowed_in_allowance:
  assumes "sorted (map snd calls)" "\<forall>c \<in> set calls. a \<le> snd c" "counts_ok state"
    "\<forall>s. map_of state pid = Some s \<longrightarrow> (\<forall>c \<in> set calls. rw_windowStart s \<le> snd c)"
  shows "int (allowed_in opts pid a state calls) \<le> allowance opts a (map_of state pid)"
  using assms
proof (induction calls arbitrary: state)
  case Nil
  show ?case by (auto simp: allowed_in_simps allowance_def Let_def split: option.split)
next
  case (Cons c calls)
  obtain p t where c: "c = (p, t)" by force
  let ?st = "snd (rate_check opts state (p, t))"
  have le: "a \<le> t" "\<forall>c \<in> set calls. t \<le> snd c" using Cons.prems c by auto
  have ok: "counts_ok ?st" by (rule rate_check_counts [OF Cons.prems(3)])
  have start: "\<forall>s. map_of ?st pid = Some s \<longrightarrow> (\<forall>c \<in> set calls. rw_windowStart s \<le> snd c)"
    using Cons.prems(4) le(2) by (auto simp: rate_check_def c split: option.splits if_splits)
  have IH: "int (allowed_in opts pid a ?st calls) \<le> allowance opts a (map_of ?st pid)"
    using Cons.IH [OF _ _ ok start] Cons.prems(1,2) by simp
  show ?case
  proof (cases "p = pid")
    case False
    then show ?thesis using IH by (simp add: c allowed_in_simps rate_check_other)
  next
    case True
    show ?thesis
    proof (cases "map_of state pid")
      case None
      with IH True le(1) show ?thesis
        by (auto simp: c allowed_in_simps rate_check_def allowance_def Let_def)
    next
      case (Some s)
      moreover have "1 \<le> rw_count s" "rw_windowStart s \<le> t" using Cons.prems(3,4) Some c by (auto simp: counts_ok_def)
      moreover have "a + ro_windowMs opts \<le> t \<Longrightarrow> allowed_in opts pid a ?st calls = 0"
        using le(2) by (intro allowed_in_after) auto
      ultimately show ?thesis
        using IH True le(1) by (auto simp: c allowed_in_simps rate_check_def allowance_def Let_def split: if_splits)
    qed
  qed
qed

lemma allowed_in_before:
  assumes "\<forall>c \<in> set xs. snd c < a"
  shows "allowed_in opts pid a state (xs @ ys) =
    allowed_in opts pid a (fold (\<lambda>c s. snd (rate_check opts s c)) xs state) ys"
  using assms by (induction xs arbitrary: state) (auto simp: allowed_in_simps)

lemma rate_check_start:
  assumes "\<forall>p s. map_of state p = Some s \<longrightarrow> rw_windowStart s < a" "\<forall>c \<in> set xs. snd c < a" "counts_ok state"
  shows "counts_ok (fold (\<lambda>c s. snd (rate_check opts s c)) xs state) \<and>
    (\<forall>p s. map_of (fold (\<lambda>c s. snd (rate_check opts s c)) xs state) p = Some s \<longrightarrow> rw_windowStart s < a)"
  using assms
proof (induction xs arbitrary: state)
  case (Cons c xs)
  obtain p t where c: "c = (p, t)" by force
  have "\<forall>q s. map_of (snd (rate_check opts state c)) q = Some s \<longrightarrow> rw_windowStart s < a"
    using Cons.prems(1,2) by (auto simp: c rate_check_def split: option.splits if_splits)
  then show ?case using Cons.IH [of "snd (rate_check opts state c)"] Cons.prems by (simp add: rate_check_counts)
qed simp

text \<open>
  C37. The rate limit holds, in memory and in Postgres alike: with a limit of at least one the two
  limiters answer every sequence of calls the same; whatever the calls, as long as the clock does not go
  back, in no interval of the window's length is a principal allowed more than twice the limit less one;
  and a call that is denied with a delay is allowed after that delay, and not a moment before.
\<close>

theorem rate_limit_enforced:
  assumes "1 \<le> ro_maxPerWindow opts" "sorted (map snd calls)"
  shows "answers (pg_rate_check opts) [] calls = answers (rate_check opts) [] calls \<and>
    int (allowed_in opts pid a [] calls) \<le> 2 * ro_maxPerWindow opts - 1 \<and>
    (rate_check opts state (pid, t) = (RateDenied d, state') \<longrightarrow>
       0 < d \<and> (\<forall>t'. (fst (rate_check opts state' (pid, t')) = RateAllowed) = (t + d \<le> t')))"
proof (intro conjI impI)
  show "answers (pg_rate_check opts) [] calls = answers (rate_check opts) [] calls"
  proof (rule rate.same_answers)
    show "same_windows opts [] []" by (simp add: same_windows_def)
    show "calls_ok (\<lambda>_ _. 1 \<le> ro_maxPerWindow opts) (rate_check opts) [] calls"
      using assms(1) by (simp add: calls_ok_always)
  qed
  define xs where "xs = takeWhile (\<lambda>c. snd c < a) calls"
  define ys where "ys = dropWhile (\<lambda>c. snd c < a) calls"
  let ?st = "fold (\<lambda>c s. snd (rate_check opts s c)) xs []"
  have split: "calls = xs @ ys" by (simp add: xs_def ys_def)
  have xs: "\<forall>c \<in> set xs. snd c < a" by (auto simp: xs_def dest: set_takeWhileD)
  have sorted: "sorted (map snd ys)" using assms(2) split by (simp add: sorted_append)
  have ys: "\<forall>c \<in> set ys. a \<le> snd c"
  proof (cases ys)
    case (Cons y zs)
    then have "a \<le> snd y" using hd_dropWhile [of "\<lambda>c. snd c < a" calls] by (auto simp: ys_def)
    with Cons sorted show ?thesis by auto
  qed simp
  have st: "counts_ok ?st" "\<forall>s. map_of ?st pid = Some s \<longrightarrow> rw_windowStart s < a"
    using rate_check_start [OF _ xs, of "[]"] by (auto simp: counts_ok_def)
  have "int (allowed_in opts pid a ?st ys) \<le> allowance opts a (map_of ?st pid)"
    using st ys by (intro allowed_in_allowance [OF sorted ys]) force+
  also have "\<dots> \<le> 2 * ro_maxPerWindow opts - 1"
    using st assms(1) by (fastforce simp: allowance_def Let_def counts_ok_def split: option.split)
  finally show "int (allowed_in opts pid a [] calls) \<le> 2 * ro_maxPerWindow opts - 1"
    by (simp add: split allowed_in_before [OF xs])
  assume "rate_check opts state (pid, t) = (RateDenied d, state')"
  then obtain s where s: "map_of state pid = Some s" "state' = state" "d = ro_windowMs opts - (t - rw_windowStart s)"
      "rw_count s \<ge> ro_maxPerWindow opts" "t - rw_windowStart s < ro_windowMs opts"
    by (auto simp: rate_check_def split: option.splits if_splits)
  show "0 < d" "\<forall>t'. (fst (rate_check opts state' (pid, t')) = RateAllowed) = (t + d \<le> t')"
    using s by (auto simp: rate_check_def)
qed

theorem rate_limit_enforced_witness:
  "let opts = \<lparr> ro_maxPerWindow = 2, ro_windowMs = 10 \<rparr>; calls = [(''ann'', 0), (''ann'', 9), (''ann'', 9), (''ann'', 10)]
   in answers (pg_rate_check opts) [] calls = [RateAllowed, RateAllowed, RateDenied 1, RateAllowed]"
proof -
  have "answers (rate_check \<lparr> ro_maxPerWindow = 2, ro_windowMs = 10 \<rparr>) []
      [(''ann'', 0), (''ann'', 9), (''ann'', 9), (''ann'', 10)] = [RateAllowed, RateAllowed, RateDenied 1, RateAllowed]"
    by code_simp
  with rate_limit_enforced [of "\<lparr> ro_maxPerWindow = 2, ro_windowMs = 10 \<rparr>" "[(''ann'', 0), (''ann'', 9), (''ann'', 9), (''ann'', 10)]"]
  show ?thesis by (simp add: Let_def)
qed

section \<open>Budget: properties\<close>

text \<open>
  What a budget promises, on the log of everything that was ever spent: a check compares with the limits
  what was spent in the window that ends now.
\<close>

record spend_log =
  sl_log :: "(string \<times> spend) list"
  sl_clock :: time

definition log_spent :: "budget_opts \<Rightarrow> string \<Rightarrow> time \<Rightarrow> (string \<times> spend) list \<Rightarrow> rat" where
  "log_spent opts key now lg =
     sum_list (map (sp_usd \<circ> snd) (filter (\<lambda>(k, e). k = key \<and> sp_at e \<ge> now - bo_windowMs opts) lg))"

definition budget_spec :: "budget_opts \<Rightarrow> spend_log \<Rightarrow> budget_call \<Rightarrow> budget_status option \<times> spend_log" where
  "budget_spec opts l call =
     (case call of
        Check pid t \<Rightarrow>
          (Some (budget_decide opts (log_spent opts pid t (sl_log l)) (log_spent opts ORG_KEY t (sl_log l))),
           l\<lparr> sl_clock := t \<rparr>)
      | Record pid cost t \<Rightarrow>
          (None, \<lparr> sl_log = sl_log l @ [(pid, \<lparr> sp_at = t, sp_usd = cost \<rparr>), (ORG_KEY, \<lparr> sp_at = t, sp_usd = cost \<rparr>)],
                   sl_clock = t \<rparr>))"

text \<open>The tracker keeps of every key's spending all that a check from now on can still count.\<close>

definition spend_of :: "(string, spend list) jsmap \<Rightarrow> string \<Rightarrow> spend list" where
  "spend_of m key = (case map_of m key of None \<Rightarrow> [] | Some l \<Rightarrow> l)"

definition recent :: "time \<Rightarrow> spend list \<Rightarrow> spend list" where
  "recent cutoff es = filter (\<lambda>e. sp_at e \<ge> cutoff) es"

definition log_of_key :: "string \<Rightarrow> (string \<times> spend) list \<Rightarrow> spend list" where
  "log_of_key key lg = map snd (filter (\<lambda>(k, e). k = key) lg)"

definition tracks :: "budget_opts \<Rightarrow> (string, spend list) jsmap \<Rightarrow> spend_log \<Rightarrow> bool" where
  "tracks opts m l \<longleftrightarrow>
     (\<forall>key cutoff. sl_clock l - bo_windowMs opts \<le> cutoff \<longrightarrow>
        recent cutoff (spend_of m key) = recent cutoff (log_of_key key (sl_log l)))"

lemma recent_simps [simp]:
  "recent c (xs @ ys) = recent c xs @ recent c ys" "recent c (recent d xs) = recent (max c d) xs"
  "recent c [] = []" "recent c (e # xs) = (if sp_at e \<ge> c then [e] else []) @ recent c xs"
  by (auto simp: recent_def intro!: filter_cong)

lemma log_spent_recent: "log_spent opts key now lg = sum_list (map sp_usd (recent (now - bo_windowMs opts) (log_of_key key lg)))"
proof -
  have "filter (\<lambda>(k, e). k = key \<and> sp_at e \<ge> now - bo_windowMs opts) lg =
      filter (\<lambda>p. sp_at (snd p) \<ge> now - bo_windowMs opts) (filter (\<lambda>(k, e). k = key) lg)"
    by (auto intro: filter_cong)
  then show ?thesis by (simp add: log_spent_def recent_def log_of_key_def filter_map comp_def)
qed

lemma spentIn_recent:
  "spentIn opts pid now m =
     (sum_list (map sp_usd (recent (now - bo_windowMs opts) (spend_of m pid))),
      jmap_set pid (recent (now - bo_windowMs opts) (spend_of m pid)) m)"
  by (simp add: spentIn_def Let_def recent_def spend_of_def)

lemma tracks_prune:
  assumes "tracks opts m l" "sl_clock l \<le> now"
  shows "tracks opts (snd (spentIn opts pid now m)) (l\<lparr> sl_clock := now \<rparr>)"
  using assms unfolding tracks_def spentIn_recent
  by (auto simp: spend_of_def max_def split: option.split)

lemma tracks_spent:
  assumes "tracks opts m l" "sl_clock l \<le> now"
  shows "fst (spentIn opts pid now m) = log_spent opts pid now (sl_log l)"
  using assms unfolding tracks_def spentIn_recent log_spent_recent by auto

lemma spend_of_add: "spend_of (add_spend key e m) k = spend_of m k @ (if k = key then [e] else [])"
  by (auto simp: spend_of_def add_spend_def)

interpretation budget: simulation "budget_exec opts" "budget_spec opts" "tracks opts" "\<lambda>l call. sl_clock l \<le> call_time call" for opts
proof
  fix m l call
  assume R: "tracks opts m l" and le: "sl_clock l \<le> call_time call"
  show "fst (budget_exec opts m call) = fst (budget_spec opts l call) \<and>
      tracks opts (snd (budget_exec opts m call)) (snd (budget_spec opts l call))"
  proof (cases call)
    case (Check pid t)
    let ?m1 = "snd (spentIn opts pid t m)" and ?l1 = "l\<lparr> sl_clock := t \<rparr>"
    have le: "sl_clock l \<le> t" using le Check by simp
    note one = tracks_prune [OF R le, of pid] tracks_spent [OF R le, of pid]
    have two: "tracks opts (snd (spentIn opts ORG_KEY t ?m1)) ?l1"
        "fst (spentIn opts ORG_KEY t ?m1) = log_spent opts ORG_KEY t (sl_log l)"
      using tracks_prune [OF one(1), of t ORG_KEY] tracks_spent [OF one(1), of t ORG_KEY] by simp_all
    show ?thesis
      using one two by (auto simp: Check budget_exec_def budget_spec_def budget_check_def budget_decide_def split: prod.splits)
  next
    case (Record pid cost t)
    with R le show ?thesis
      by (auto simp: budget_exec_def budget_spec_def budget_record_def tracks_def Let_def spend_of_add log_of_key_def)
  qed
qed

text \<open>
  C38. The budget refines its specification on the whole spending log: as long as the clock does not go
  back, every check of any sequence of checks and records is answered as if nothing had ever been
  forgotten, by what the principal and the organisation spent in the window that ends at the check.
\<close>

theorem budget_refines_log:
  assumes "calls_ok (\<lambda>l call. sl_clock l \<le> call_time call) (budget_spec opts) \<lparr> sl_log = [], sl_clock = t0 \<rparr> calls"
  shows "answers (budget_exec opts) [] calls = answers (budget_spec opts) \<lparr> sl_log = [], sl_clock = t0 \<rparr> calls"
  by (rule budget.same_answers [OF _ assms]) (simp add: tracks_def spend_of_def log_of_key_def)

theorem budget_refines_log_witness:
  "let opts = \<lparr> bo_limitUsd = Some 5, bo_orgLimitUsd = None, bo_windowMs = 10 \<rparr>
   in map (map_option bc_allowed)
        (answers (budget_exec opts) [] [Record ''ann'' 5 1, Check ''ann'' 2, Check ''bob'' 3, Check ''ann'' 12]) =
      [None, Some False, Some True, Some True]"
proof -
  let ?opts = "\<lparr> bo_limitUsd = Some 5, bo_orgLimitUsd = None, bo_windowMs = 10 \<rparr>"
  let ?calls = "[Record ''ann'' 5 1, Check ''ann'' 2, Check ''bob'' 3, Check ''ann'' 12]"
  have "calls_ok (\<lambda>l call. sl_clock l \<le> call_time call) (budget_spec ?opts) \<lparr> sl_log = [], sl_clock = 0 \<rparr> ?calls"
    by code_simp
  moreover have "map (map_option bc_allowed) (answers (budget_spec ?opts) \<lparr> sl_log = [], sl_clock = 0 \<rparr> ?calls) =
      [None, Some False, Some True, Some True]"
    by code_simp
  ultimately show ?thesis using budget_refines_log [of ?opts 0 ?calls] by (simp add: Let_def)
qed

section \<open>Replay guard: properties\<close>

text \<open>
  The contract of a replay guard: accepting an event bars it through its expiry, nothing claimed before
  the expiry lifts the bar, and a barred event is refused.
\<close>

locale replay_contract =
  fixes create :: 'g
    and claim :: "string \<Rightarrow> time \<Rightarrow> time \<Rightarrow> 'g \<Rightarrow> bool \<times> 'g"
    and barred :: "'g \<Rightarrow> string \<Rightarrow> time \<Rightarrow> bool"
  assumes accepts_new: "fst (claim e till t create)"
    and accept_bars: "claim e till t g = (True, g') \<Longrightarrow> barred g' e till"
    and bar_kept: "barred g e till \<Longrightarrow> t \<le> till \<Longrightarrow> barred (snd (claim e' till' t g)) e till"
    and bar_refuses: "barred g e till \<Longrightarrow> t \<le> till \<Longrightarrow> \<not> fst (claim e till' t g)"
begin

lemma bar_kept_all:
  "barred g e till \<Longrightarrow> \<forall>(e', till', t) \<in> set calls. t \<le> till \<Longrightarrow>
   barred (fold (\<lambda>(e', till', t) g. snd (claim e' till' t g)) calls g) e till"
  by (induction calls arbitrary: g) (auto simp: bar_kept)

lemma no_replay:
  assumes "claim e till t g = (True, g')" "\<forall>(e', till', t') \<in> set calls. t' \<le> till" "t'' \<le> till"
  shows "\<not> fst (claim e till'' t'' (fold (\<lambda>(e', till', t) g. snd (claim e' till' t g)) calls g'))"
  using bar_refuses [OF bar_kept_all [OF accept_bars [OF assms(1)] assms(2)] assms(3)] .

end

definition barred :: "replay_guard \<Rightarrow> string \<Rightarrow> time \<Rightarrow> bool" where
  "barred g e till \<longleftrightarrow> map_of (rg_seen g) e = Some till"

lemma barred_prune: "barred g e till \<Longrightarrow> t \<le> till \<Longrightarrow> barred (prune_seen t g) e till"
proof -
  assume b: "barred g e till" "t \<le> till"
  have "map_of m e = Some till \<Longrightarrow> map_of (filter (\<lambda>(_, x). \<not> x < t) m) e = Some till" for m
    using b(2) by (induction m) auto
  then show ?thesis using b(1) by (auto simp: barred_def prune_seen_def)
qed

interpretation mem_guard: replay_contract createReplayDedupe replay_claim barred
proof
  fix e e' :: string and till till' t :: time and g g' :: replay_guard
  show "fst (replay_claim e till t createReplayDedupe)"
    by (simp add: replay_claim_def createReplayDedupe_def prune_seen_def Let_def)
  show "replay_claim e till t g = (True, g') \<Longrightarrow> barred g' e till"
    by (auto simp: replay_claim_def barred_def Let_def split: if_splits)
  assume b: "barred g e till" "t \<le> till"
  note p = barred_prune [OF b, unfolded barred_def]
  show "barred (snd (replay_claim e' till' t g)) e till"
    using p b(2) by (auto simp: replay_claim_def barred_def Let_def split: option.split)
  show "\<not> fst (replay_claim e till' t g)"
    using p b(2) by (auto simp: replay_claim_def Let_def)
qed

interpretation pg_guard: replay_contract createReplayDedupe pg_replay_claim barred
proof
  fix e e' :: string and till till' t :: time and g g' :: replay_guard
  show "fst (pg_replay_claim e till t createReplayDedupe)"
    by (simp add: pg_replay_claim_def createReplayDedupe_def prune_seen_def Let_def)
  show "pg_replay_claim e till t g = (True, g') \<Longrightarrow> barred g' e till"
    by (auto simp: pg_replay_claim_def barred_def Let_def map_add_def split: if_splits)
  assume b: "barred g e till" "t \<le> till"
  note p = barred_prune [OF b, unfolded barred_def]
  show "barred (snd (pg_replay_claim e' till' t g)) e till"
    using p by (auto simp: pg_replay_claim_def barred_def Let_def map_add_def split: option.split)
  show "\<not> fst (pg_replay_claim e till' t g)"
    using p by (auto simp: pg_replay_claim_def Let_def)
qed

text \<open>
  A signed event is accepted once: after an event was accepted, whatever other events are claimed
  before it expires, claiming it again before it expires is refused, in memory and in Postgres; in memory
  it is refused only then.
\<close>

theorem event_accepted_once:
  assumes "\<forall>(e', till', t') \<in> set calls. t' \<le> till" "t'' \<le> till"
  shows "(replay_claim e till t g = (True, g') \<longrightarrow>
      \<not> fst (replay_claim e till'' t'' (fold (\<lambda>(e', till', t) g. snd (replay_claim e' till' t g)) calls g'))) \<and>
    (pg_replay_claim e till t g = (True, g') \<longrightarrow>
      \<not> fst (pg_replay_claim e till'' t'' (fold (\<lambda>(e', till', t) g. snd (pg_replay_claim e' till' t g)) calls g'))) \<and>
    (fst (replay_claim e till t g) = (\<forall>x. map_of (rg_seen (prune_seen t g)) e = Some x \<longrightarrow> x < t))"
  using mem_guard.no_replay [OF _ assms] pg_guard.no_replay [OF _ assms]
  by (auto simp: replay_claim_def Let_def split: option.splits)

theorem event_accepted_once_witness:
  "\<not> fst (replay_claim ''e'' 100 50 (snd (replay_claim ''f'' 60 20 (snd (replay_claim ''e'' 100 10 createReplayDedupe)))))"
proof -
  have "replay_claim ''e'' 100 10 createReplayDedupe = (True, snd (replay_claim ''e'' 100 10 createReplayDedupe))"
    by code_simp
  moreover have "\<forall>(e', till', t') \<in> set [(''f'', 60, 20)]. t' \<le> (100 :: time)" by simp
  ultimately show ?thesis
    using event_accepted_once [of "[(''f'', 60, 20)]" 100 50] by fastforce
qed

end
