(* ===== verification/Tasks.thy ===== *)
theory Tasks
  imports Prelude "HOL-Library.Product_Lexorder"
begin

text \<open>
  The task list of a run (\<open>src/tasks/task-store.ts\<close>, \<open>src/tasks/memory-task-store.ts\<close>): tasks, their
  status changes and the log of events. \<open>localeCompare\<close> is given by the parameter \<open>collate\<close>, the key
  by which the locale orders a string.
\<close>

datatype task_status = TaskPending | TaskInProgress | TaskCompleted | TaskSkipped | TaskFailed

datatype task_event_type = TaskCreated | TaskStatusChanged

record task =
  ta_id :: string
  ta_sessionId :: string
  ta_originRunId :: string
  ta_title :: string
  ta_status :: task_status
  ta_createdAt :: time
  ta_updatedAt :: time

record task_event =
  te_id :: string
  te_taskId :: string
  te_runId :: string
  te_type :: task_event_type
  te_fromStatus :: "task_status option"
  te_toStatus :: task_status
  te_createdAt :: time

record create_task_input =
  ci_id :: "string option"
  ci_sessionId :: string
  ci_originRunId :: string
  ci_title :: string
  ci_status :: "task_status option"

record task_filter =
  tf_sessionId :: "string option"
  tf_originRunId :: "string option"
  tf_statuses :: "task_status list option"

definition isOpenTask :: "task_status \<Rightarrow> bool" where
  "isOpenTask st \<longleftrightarrow> st \<in> {TaskPending, TaskInProgress}"

record task_store =
  tk_tasks :: "(string, task) jsmap"
  tk_events :: "(string, task_event list) jsmap"
  tk_nextEventId :: int

definition createMemoryTaskStore :: task_store where
  "createMemoryTaskStore = \<lparr> tk_tasks = [], tk_events = [], tk_nextEventId = 1 \<rparr>"

definition events_of :: "task_store \<Rightarrow> string \<Rightarrow> task_event list" where
  "events_of s taskId = (case map_of (tk_events s) taskId of None \<Rightarrow> [] | Some es \<Rightarrow> es)"

definition appendEvent ::
  "string \<Rightarrow> string \<Rightarrow> task_status option \<Rightarrow> task_status \<Rightarrow> time \<Rightarrow> task_store \<Rightarrow> task_store" where
  "appendEvent taskId runId fromStatus toStatus at s =
     s\<lparr> tk_events := jmap_set taskId (events_of s taskId @
          [\<lparr> te_id = js_show_int (tk_nextEventId s), te_taskId = taskId, te_runId = runId,
             te_type = (if fromStatus = None then TaskCreated else TaskStatusChanged),
             te_fromStatus = fromStatus, te_toStatus = toStatus, te_createdAt = at \<rparr>]) (tk_events s),
        tk_nextEventId := tk_nextEventId s + 1 \<rparr>"

definition task_matches :: "task_filter \<Rightarrow> task \<Rightarrow> bool" where
  "task_matches f t \<longleftrightarrow>
     (case tf_sessionId f of None \<Rightarrow> True | Some s \<Rightarrow> ta_sessionId t = s) \<and>
     (case tf_originRunId f of None \<Rightarrow> True | Some r \<Rightarrow> ta_originRunId t = r)"

definition ordered_tasks :: "(string \<Rightarrow> string) \<Rightarrow> task list \<Rightarrow> task list" where
  "ordered_tasks collate ts = sort_key (\<lambda>t. (ta_createdAt t, collate (ta_id t))) ts"

datatype task_error = TaskExists string

definition create_task :: "string \<Rightarrow> time \<Rightarrow> create_task_input \<Rightarrow> task_store \<Rightarrow> (task_error + task) \<times> task_store" where
  "create_task newId at input s =
     (let i = (case ci_id input of None \<Rightarrow> newId | Some x \<Rightarrow> x)
      in if map_of (tk_tasks s) i \<noteq> None then (Inl (TaskExists i), s)
         else
           let t = \<lparr> ta_id = i, ta_sessionId = ci_sessionId input, ta_originRunId = ci_originRunId input,
                     ta_title = ci_title input,
                     ta_status = (case ci_status input of None \<Rightarrow> TaskPending | Some st \<Rightarrow> st),
                     ta_createdAt = at, ta_updatedAt = at \<rparr>
           in (Inr t, appendEvent i (ci_originRunId input) None (ta_status t) at
                        (s\<lparr> tk_tasks := jmap_set i t (tk_tasks s) \<rparr>)))"

definition get_task :: "task_store \<Rightarrow> string \<Rightarrow> task option" where
  "get_task s i = map_of (tk_tasks s) i"

definition list_tasks :: "(string \<Rightarrow> string) \<Rightarrow> task_filter \<Rightarrow> task_store \<Rightarrow> task list" where
  "list_tasks collate f s =
     ordered_tasks collate
       (filter (\<lambda>t. task_matches f t \<and> (case tf_statuses f of None \<Rightarrow> True | Some sts \<Rightarrow> ta_status t \<in> set sts))
         (jmap_values (tk_tasks s)))"

definition listOpen_tasks :: "(string \<Rightarrow> string) \<Rightarrow> task_filter \<Rightarrow> task_store \<Rightarrow> task list" where
  "listOpen_tasks collate f s =
     ordered_tasks collate (filter (\<lambda>t. task_matches f t \<and> isOpenTask (ta_status t)) (jmap_values (tk_tasks s)))"

definition transitionStatus ::
  "time \<Rightarrow> string \<Rightarrow> task_status \<Rightarrow> task_status \<Rightarrow> string \<Rightarrow> task_store \<Rightarrow> task option \<times> task_store" where
  "transitionStatus at i expectedStatus nextStatus runId s =
     (case map_of (tk_tasks s) i of
        None \<Rightarrow> (None, s)
      | Some t \<Rightarrow>
          if ta_status t \<noteq> expectedStatus then (None, s)
          else
            let t' = t\<lparr> ta_status := nextStatus, ta_updatedAt := at \<rparr>
            in (Some t', appendEvent i runId (Some expectedStatus) nextStatus at
                           (s\<lparr> tk_tasks := jmap_set i t' (tk_tasks s) \<rparr>)))"

definition listEvents :: "task_store \<Rightarrow> string \<Rightarrow> task_event list" where
  "listEvents s taskId = events_of s taskId"

section \<open>The event log tells the whole story of a task\<close>

inductive task_step :: "task_store \<Rightarrow> task_store \<Rightarrow> bool" where
  task_creates: "task_step s (snd (create_task newId at input s))"
| task_transitions: "task_step s (snd (transitionStatus at i expectedStatus nextStatus runId s))"

text \<open>Replaying the events of a task: the status they lead to, if each starts where the one before ended.\<close>

fun replay_events :: "task_status option \<Rightarrow> task_event list \<Rightarrow> task_status option option" where
  "replay_events st [] = Some st"
| "replay_events st (e # es) = (if te_fromStatus e = st then replay_events (Some (te_toStatus e)) es else None)"

lemma replay_append: "replay_events st (es @ [e]) =
    (case replay_events st es of Some st' \<Rightarrow> if te_fromStatus e = st' then Some (Some (te_toStatus e)) else None | None \<Rightarrow> None)"
  by (induction es arbitrary: st) auto

definition event_ok :: "int \<Rightarrow> string \<Rightarrow> task_event \<Rightarrow> bool" where
  "event_ok n i e \<longleftrightarrow> te_taskId e = i \<and> te_type e = (if te_fromStatus e = None then TaskCreated else TaskStatusChanged) \<and>
     (\<exists>k. 1 \<le> k \<and> k < n \<and> te_id e = js_show_int k)"

definition story_ok :: "task option \<Rightarrow> string \<Rightarrow> task_event list \<Rightarrow> bool" where
  "story_ok t i es \<longleftrightarrow> replay_events None es = Some (map_option ta_status t) \<and>
     (case t of
        None \<Rightarrow> True
      | Some t \<Rightarrow> ta_id t = i \<and> es \<noteq> [] \<and> te_createdAt (hd es) = ta_createdAt t \<and> te_createdAt (last es) = ta_updatedAt t)"

definition task_inv :: "task_store \<Rightarrow> bool" where
  "task_inv s \<longleftrightarrow> 1 \<le> tk_nextEventId s \<and>
     (\<forall>i. story_ok (map_of (tk_tasks s) i) i (events_of s i) \<and> list_all (event_ok (tk_nextEventId s) i) (events_of s i))"

lemma events_of_append:
  "events_of (appendEvent i runId st st' at s) j =
     (if j = i then events_of s i @
        [\<lparr> te_id = js_show_int (tk_nextEventId s), te_taskId = i, te_runId = runId,
           te_type = (if st = None then TaskCreated else TaskStatusChanged),
           te_fromStatus = st, te_toStatus = st', te_createdAt = at \<rparr>]
      else events_of s j)"
  by (simp add: appendEvent_def events_of_def)

lemma events_of_tasks [simp]: "events_of (s\<lparr> tk_tasks := m \<rparr>) i = events_of s i"
  by (simp add: events_of_def)

lemma tk_append [simp]:
  "tk_tasks (appendEvent i r st st' at s) = tk_tasks s"
  "tk_nextEventId (appendEvent i r st st' at s) = tk_nextEventId s + 1"
  by (simp_all add: appendEvent_def)

lemma replay_Nil: "replay_events None es = Some None \<Longrightarrow> es = []"
  by (cases es rule: rev_cases) (auto simp: replay_append split: option.splits if_splits)

lemma event_ok_mono: "list_all (event_ok n i) es \<Longrightarrow> list_all (event_ok (n + 1) i) es"
  by (force simp: event_ok_def list_all_iff)

lemma story_ok_append:
  assumes "story_ok u i es" "te_fromStatus e = map_option ta_status u" "te_toStatus e = ta_status t" "te_createdAt e = ta_updatedAt t"
    "ta_id t = i" "ta_createdAt t = (case u of None \<Rightarrow> ta_updatedAt t | Some u \<Rightarrow> ta_createdAt u)"
  shows "story_ok (Some t) i (es @ [e])"
  using assms replay_Nil [of es] by (cases u) (auto simp: story_ok_def replay_append)

text \<open>Both operations write the task and append the event that leads to its new status.\<close>

lemma task_inv_write:
  assumes inv: "task_inv s" and t: "ta_id t = i" "ta_updatedAt t = at"
    and st: "st = map_option ta_status (map_of (tk_tasks s) i)"
    and created: "ta_createdAt t = (case map_of (tk_tasks s) i of None \<Rightarrow> at | Some u \<Rightarrow> ta_createdAt u)"
  shows "task_inv (appendEvent i r st (ta_status t) at (s\<lparr> tk_tasks := jmap_set i t (tk_tasks s) \<rparr>))"
proof -
  have one: "1 \<le> tk_nextEventId s" and old: "\<And>j. story_ok (map_of (tk_tasks s) j) j (events_of s j)"
      "\<And>j. list_all (event_ok (tk_nextEventId s) j) (events_of s j)"
    using inv by (auto simp: task_inv_def)
  have new: "event_ok (tk_nextEventId s + 1) i
      \<lparr> te_id = js_show_int (tk_nextEventId s), te_taskId = i, te_runId = r,
        te_type = (if st = None then TaskCreated else TaskStatusChanged),
        te_fromStatus = st, te_toStatus = ta_status t, te_createdAt = at \<rparr>"
    using one by (auto simp: event_ok_def)
  show ?thesis
    unfolding task_inv_def
  proof (intro conjI allI)
    fix j
    show "story_ok (map_of (tk_tasks (appendEvent i r st (ta_status t) at (s\<lparr> tk_tasks := jmap_set i t (tk_tasks s) \<rparr>))) j) j
        (events_of (appendEvent i r st (ta_status t) at (s\<lparr> tk_tasks := jmap_set i t (tk_tasks s) \<rparr>)) j)"
      using story_ok_append [OF old(1) [of i], of _ t] old(1) [of j] t st created by (simp add: events_of_append split del: if_split cong: if_cong) auto
    show "list_all (event_ok (tk_nextEventId (appendEvent i r st (ta_status t) at (s\<lparr> tk_tasks := jmap_set i t (tk_tasks s) \<rparr>))) j)
        (events_of (appendEvent i r st (ta_status t) at (s\<lparr> tk_tasks := jmap_set i t (tk_tasks s) \<rparr>)) j)"
      using new old(2) by (simp add: events_of_append event_ok_mono)
  qed (use one in simp)
qed

lemma task_inv_step: "task_step s s' \<Longrightarrow> task_inv s \<Longrightarrow> task_inv s'"
proof (induction rule: task_step.induct)
  case (task_creates s newId at input)
  let ?i = "case ci_id input of None \<Rightarrow> newId | Some x \<Rightarrow> x"
  let ?t = "\<lparr> ta_id = ?i, ta_sessionId = ci_sessionId input, ta_originRunId = ci_originRunId input, ta_title = ci_title input,
     ta_status = (case ci_status input of None \<Rightarrow> TaskPending | Some st \<Rightarrow> st), ta_createdAt = at, ta_updatedAt = at \<rparr>"
  show ?case
    using task_inv_write [OF task_creates, of ?t ?i at None "ci_originRunId input"] task_creates
    by (auto simp: create_task_def Let_def)
next
  case (task_transitions s at i e n r)
  show ?case
  proof (cases "map_of (tk_tasks s) i")
    case (Some t)
    then have "ta_id t = i" using task_transitions by (force simp: task_inv_def story_ok_def split: option.splits)
    then show ?thesis
      using task_inv_write [OF task_transitions, of "t\<lparr> ta_status := n, ta_updatedAt := at \<rparr>" i at "Some e" r] Some task_transitions
      by (auto simp: transitionStatus_def Let_def)
  qed (use task_transitions in \<open>simp add: transitionStatus_def\<close>)
qed

interpretation task_machine: invariant_machine "\<lambda>s. s = createMemoryTaskStore" task_step task_inv
proof
  show "task_inv s" if "s = createMemoryTaskStore" for s
    by (simp add: that createMemoryTaskStore_def task_inv_def story_ok_def events_of_def)
qed (rule task_inv_step)

text \<open>
  The events of a task tell its whole story: in every reachable store they form a chain that starts
  with the creation and in which each change starts from the status the one before led to; they end in
  the status of the task at the time it was last updated. A change is made exactly when the task is
  there with the expected status, and an id that is taken is refused without a trace.
\<close>

theorem task_events_replay:
  assumes "task_step\<^sup>*\<^sup>* createMemoryTaskStore s" "get_task s i = Some t"
  shows "replay_events None (listEvents s i) = Some (Some (ta_status t)) \<and>
    te_createdAt (last (listEvents s i)) = ta_updatedAt t \<and>
    (fst (transitionStatus at i e n r s) \<noteq> None) = (ta_status t = e) \<and>
    (ta_status t \<noteq> e \<longrightarrow> snd (transitionStatus at i e n r s) = s) \<and>
    (ci_id input = Some i \<longrightarrow> create_task newId at input s = (Inl (TaskExists i), s))"
proof -
  have "task_inv s" by (rule task_machine.inv_reachable [OF refl assms(1)])
  then have "story_ok (Some t) i (events_of s i)" using assms(2) by (metis get_task_def task_inv_def)
  then show ?thesis
    using assms(2)
    by (auto simp: story_ok_def listEvents_def get_task_def transitionStatus_def create_task_def Let_def)
qed

definition demo_task_input :: create_task_input where
  "demo_task_input = \<lparr> ci_id = Some ''t'', ci_sessionId = ''s'', ci_originRunId = ''r'', ci_title = ''do it'', ci_status = None \<rparr>"

definition demo_tasks :: task_store where
  "demo_tasks = snd (transitionStatus 2 ''t'' TaskPending TaskCompleted ''r'' (snd (create_task ''x'' 1 demo_task_input createMemoryTaskStore)))"

theorem task_events_replay_witness:
  "replay_events None (listEvents demo_tasks ''t'') = Some (Some TaskCompleted)"
proof -
  have "task_step\<^sup>*\<^sup>* createMemoryTaskStore demo_tasks"
    unfolding demo_tasks_def
    by (rule rtranclp.rtrancl_into_rtrancl [OF r_into_rtranclp [of task_step, OF task_creates] task_transitions])
  moreover have "map_option ta_status (get_task demo_tasks ''t'') = Some TaskCompleted" by code_simp
  ultimately show ?thesis using task_events_replay [of demo_tasks "''t''"] by auto
qed

end
