(* ===== verification/Turn_Origin.thy ===== *)
theory Turn_Origin
  imports Prelude
begin

text \<open>
  Where a turn comes from (\<open>src/core/turn-origin.ts\<close>): a human, something overheard, an automation or a
  direct call, given as a typed origin, by the older flags of a request, or by both.
\<close>

record destination =
  ds_type :: string
  ds_target :: string
  ds_audienceScopeId :: "scope_id option"
  ds_onBehalfOf :: "string option"
  ds_editRef :: "string option"
  ds_taskList :: "(string \<times> string \<times> string) list option"
  ds_unfurlLinks :: "bool option"
  ds_react :: "(string \<times> string) option"
  ds_delete :: "string option"
  ds_identity :: "string option"
  ds_debugFooter :: "string option"

definition destination_to :: "string \<Rightarrow> string \<Rightarrow> destination" where
  "destination_to type target =
     \<lparr> ds_type = type, ds_target = target, ds_audienceScopeId = None, ds_onBehalfOf = None, ds_editRef = None,
       ds_taskList = None, ds_unfurlLinks = None, ds_react = None, ds_delete = None, ds_identity = None,
       ds_debugFooter = None \<rparr>"

datatype turn_origin =
    Human (messageTs: "string option") (humanEntryTs: "string option")
  | Ambient (ambientEntryTs: "string option") (live: bool)
  | Automation (screenData: "string option") (origin_destination: "destination option") (useOwnerKeychain: bool)
  | Direct

record legacy_origin =
  lo_triggerTs :: "string option"
  lo_entryTs :: "string option"
  lo_triggered :: bool
  lo_securityScreenData :: "string option"
  lo_triggerDestination :: "destination option"
  lo_ownerKeychainUnion :: bool
  lo_unprompted :: bool
  lo_liveActor :: bool

definition no_legacy :: legacy_origin where
  "no_legacy = \<lparr> lo_triggerTs = None, lo_entryTs = None, lo_triggered = False, lo_securityScreenData = None,
     lo_triggerDestination = None, lo_ownerKeychainUnion = False, lo_unprompted = False, lo_liveActor = False \<rparr>"

text \<open>The value of \<open>...(x ? { x } : {})\<close>: a string that is absent or empty is left out.\<close>

definition if_truthy :: "string option \<Rightarrow> string option" where
  "if_truthy x = (if truthy x then x else None)"

definition normalizeTurnOrigin :: "legacy_origin \<Rightarrow> turn_origin" where
  "normalizeTurnOrigin i =
     (if lo_triggered i then Automation (lo_securityScreenData i) (lo_triggerDestination i) (lo_ownerKeychainUnion i)
      else if lo_unprompted i then Ambient (if_truthy (lo_entryTs i)) (lo_liveActor i)
      else if lo_liveActor i then Human (if_truthy (lo_triggerTs i)) (if_truthy (lo_entryTs i))
      else Direct)"

fun origin_rank :: "turn_origin \<Rightarrow> nat" where
  "origin_rank Direct = 0"
| "origin_rank (Human _ _) = 1"
| "origin_rank (Ambient _ _) = 2"
| "origin_rank (Automation _ _ _) = 3"

text \<open>\<open>??\<close> on optional values.\<close>

definition coalesce :: "'a option \<Rightarrow> 'a option \<Rightarrow> 'a option" where
  "coalesce x y = (case x of None \<Rightarrow> y | Some v \<Rightarrow> Some v)"

definition merge_screen_data :: "string option \<Rightarrow> string option \<Rightarrow> string option" where
  "merge_screen_data typed legacy =
     (case typed of
        None \<Rightarrow> legacy
      | Some t \<Rightarrow>
          (case legacy of
             None \<Rightarrow> Some t
           | Some l \<Rightarrow>
               if t = l then Some t
               else Some (''Typed automation data:'' @ [CHR 0x0A] @ t @ [CHR 0x0A, CHR 0x0A] @
                          ''Legacy automation data:'' @ [CHR 0x0A] @ l)))"

fun merge_origins :: "turn_origin \<Rightarrow> turn_origin \<Rightarrow> turn_origin" where
  "merge_origins (Automation sd d k) (Automation sd' d' k') =
     Automation (merge_screen_data sd sd') (coalesce d d') (k \<or> k')"
| "merge_origins (Human m e) (Human m' e') = Human (if_truthy (coalesce m m')) (if_truthy (coalesce e e'))"
| "merge_origins (Ambient e l) (Ambient e' l') = Ambient (if_truthy (coalesce e e')) (l \<or> l')"
| "merge_origins typed legacy = typed"

definition has_legacy :: "legacy_origin \<Rightarrow> bool" where
  "has_legacy i \<longleftrightarrow> lo_triggered i \<or> lo_unprompted i \<or> lo_liveActor i"

definition resolveTurnOrigin :: "turn_origin option \<Rightarrow> legacy_origin \<Rightarrow> turn_origin" where
  "resolveTurnOrigin origin i =
     (case origin of
        None \<Rightarrow> normalizeTurnOrigin i
      | Some typed \<Rightarrow>
          if \<not> has_legacy i then typed
          else
            let legacy = normalizeTurnOrigin i
            in if origin_rank typed \<noteq> origin_rank legacy
               then (if origin_rank typed > origin_rank legacy then typed else legacy)
               else merge_origins typed legacy)"

fun turnOriginRequestFields :: "turn_origin \<Rightarrow> legacy_origin" where
  "turnOriginRequestFields (Human m e) =
     no_legacy\<lparr> lo_liveActor := True, lo_triggerTs := if_truthy m, lo_entryTs := if_truthy e \<rparr>"
| "turnOriginRequestFields (Ambient e l) =
     no_legacy\<lparr> lo_unprompted := True, lo_entryTs := if_truthy e, lo_liveActor := l \<rparr>"
| "turnOriginRequestFields (Automation sd d k) =
     no_legacy\<lparr> lo_triggered := True, lo_securityScreenData := sd, lo_triggerDestination := d, lo_ownerKeychainUnion := k \<rparr>"
| "turnOriginRequestFields Direct = no_legacy"

lemma if_truthy_idem [simp]: "if_truthy (if_truthy x) = if_truthy x"
  by (simp add: if_truthy_def)

lemma merge_rank: "origin_rank typed = origin_rank legacy \<Longrightarrow> origin_rank (merge_origins typed legacy) = origin_rank typed"
  by (cases "(typed, legacy)" rule: merge_origins.cases) auto

text \<open>An origin whose time stamps, where given, are not empty.\<close>

fun origin_wf :: "turn_origin \<Rightarrow> bool" where
  "origin_wf (Human m e) \<longleftrightarrow> m \<noteq> Some [] \<and> e \<noteq> Some []"
| "origin_wf (Ambient e _) \<longleftrightarrow> e \<noteq> Some []"
| "origin_wf _ \<longleftrightarrow> True"

lemma origin_fields_roundtrip: "origin_wf o' \<Longrightarrow> normalizeTurnOrigin (turnOriginRequestFields o') = o'"
  by (cases o') (auto simp: normalizeTurnOrigin_def no_legacy_def if_truthy_def truthy_def split: option.splits)

text \<open>
  An origin cannot be played down: of a typed origin and older flags on the same request the one that
  is trusted less decides, an automation keeps the data to be screened that either of them carries, and an
  origin written as flags and read back, with or without the typed origin beside it, is the same origin.
\<close>

theorem turn_origin_never_weaker:
  assumes "origin_wf orig"
  shows "origin_rank (resolveTurnOrigin (Some typed) i) = max (origin_rank typed) (origin_rank (normalizeTurnOrigin i)) \<and>
    (\<forall>sd d k. typed = Automation sd d k \<and> lo_triggered i \<longrightarrow>
       (\<exists>sd' d' k'. resolveTurnOrigin (Some typed) i = Automation sd' d' k' \<and> (k' \<longleftrightarrow> k \<or> lo_ownerKeychainUnion i) \<and>
          (\<forall>s. sd = Some s \<or> lo_securityScreenData i = Some s \<longrightarrow> (\<exists>s'. sd' = Some s' \<and> js_includes s' s)))) \<and>
    resolveTurnOrigin None (turnOriginRequestFields orig) = orig \<and>
    resolveTurnOrigin (Some orig) (turnOriginRequestFields orig) = orig"
proof (intro conjI allI impI)
  show "origin_rank (resolveTurnOrigin (Some typed) i) = max (origin_rank typed) (origin_rank (normalizeTurnOrigin i))"
    by (auto simp: resolveTurnOrigin_def Let_def merge_rank has_legacy_def normalizeTurnOrigin_def)
  show "resolveTurnOrigin None (turnOriginRequestFields orig) = orig"
    using origin_fields_roundtrip [OF assms] by (simp add: resolveTurnOrigin_def)
  show "resolveTurnOrigin (Some orig) (turnOriginRequestFields orig) = orig"
    using origin_fields_roundtrip [OF assms] assms
    by (cases orig) (auto simp: resolveTurnOrigin_def Let_def merge_screen_data_def coalesce_def if_truthy_def truthy_def split: option.splits)
  fix sd d k assume a: "typed = Automation sd d k \<and> lo_triggered i"
  have inc: "js_includes (''Typed automation data:'' @ [CHR 0x0A] @ t @ [CHR 0x0A, CHR 0x0A] @ ''Legacy automation data:'' @ [CHR 0x0A] @ l) t"
    "js_includes (''Typed automation data:'' @ [CHR 0x0A] @ t @ [CHR 0x0A, CHR 0x0A] @ ''Legacy automation data:'' @ [CHR 0x0A] @ l) l"
    "js_includes t t" for t l
    unfolding js_includes_iff by (metis append.assoc append_Nil append_Nil2)+
  show "\<exists>sd' d' k'. resolveTurnOrigin (Some typed) i = Automation sd' d' k' \<and> (k' \<longleftrightarrow> k \<or> lo_ownerKeychainUnion i) \<and>
          (\<forall>s. sd = Some s \<or> lo_securityScreenData i = Some s \<longrightarrow> (\<exists>s'. sd' = Some s' \<and> js_includes s' s))"
    using a inc by (auto simp: resolveTurnOrigin_def has_legacy_def normalizeTurnOrigin_def merge_screen_data_def
        simp del: append.simps split: option.split)
qed

theorem turn_origin_never_weaker_witness:
  "resolveTurnOrigin (Some Direct) (turnOriginRequestFields (Human (Some ''1.2'') None)) = Human (Some ''1.2'') None \<and>
   resolveTurnOrigin None (turnOriginRequestFields (Human (Some ''1.2'') None)) = Human (Some ''1.2'') None"
  using turn_origin_never_weaker [of "Human (Some ''1.2'') None" Direct no_legacy]
  by (simp add: resolveTurnOrigin_def has_legacy_def normalizeTurnOrigin_def no_legacy_def if_truthy_def truthy_def)

end
