(* ===== verification/Delivery.thy ===== *)
theory Delivery
  imports Runs Tasks Turn_Origin
begin

text \<open>
  The outbox (\<open>src/delivery/delivery-store.ts\<close>): messages to be sent to a surface, enqueued once per
  idempotency key, claimed for sending and acknowledged; and the deliveries that finished runs produce
  (\<open>src/delivery/run-result-delivery.ts\<close>). Calling the listeners on an enqueue is the flag the operation
  returns. Characters of the fixed texts that are outside the alphabet are written as \<open>~\<close>.
\<close>

record provenance =
  pv_trigger :: string
  pv_surface :: string
  pv_fireKey :: string
  pv_sourceScopeId :: scope_id
  pv_sourceThreadRef :: string
  pv_sourceSessionId :: "string option"
  pv_sourceUserSeq :: "int option"
  pv_sourceAssistantEntrySeq :: "int option"

record delivery =
  dl_id :: string
  dl_destination :: destination
  dl_text :: string
  dl_attachments :: "json list"
  dl_provenance :: "provenance option"
  dl_idempotencyKey :: string
  dl_createdAt :: time
  dl_deliveredAt :: "time option"
  dl_shadow :: bool
  dl_recipientThreadRef :: "string option"
  dl_deliverLatencyMs :: "int option"
  dl_slackApiMs :: "int option"

record delivery_input =
  di_destination :: destination
  di_text :: string
  di_attachments :: "json list"
  di_provenance :: "provenance option"
  di_idempotencyKey :: string
  di_shadow :: bool

record delivery_store =
  dv_deliveries :: "(string, delivery) jsmap"
  dv_byKey :: "(string, string) jsmap"
  dv_claimedUntil :: "(string, time) jsmap"

definition createDeliveryStore :: delivery_store where
  "createDeliveryStore = \<lparr> dv_deliveries = [], dv_byKey = [], dv_claimedUntil = [] \<rparr>"

definition new_delivery :: "string \<Rightarrow> time \<Rightarrow> delivery_input \<Rightarrow> delivery" where
  "new_delivery newId now input =
     \<lparr> dl_id = newId, dl_destination = di_destination input, dl_text = di_text input,
       dl_attachments = di_attachments input, dl_provenance = di_provenance input,
       dl_idempotencyKey = di_idempotencyKey input, dl_createdAt = now, dl_deliveredAt = None,
       dl_shadow = di_shadow input, dl_recipientThreadRef = None, dl_deliverLatencyMs = None, dl_slackApiMs = None \<rparr>"

definition add_delivery :: "delivery \<Rightarrow> delivery_store \<Rightarrow> delivery_store" where
  "add_delivery d s =
     s\<lparr> dv_deliveries := jmap_set (dl_id d) d (dv_deliveries s),
        dv_byKey := jmap_set (dl_idempotencyKey d) (dl_id d) (dv_byKey s) \<rparr>"

definition get_delivery :: "delivery_store \<Rightarrow> string \<Rightarrow> delivery option" where
  "get_delivery s i = map_of (dv_deliveries s) i"

text \<open>A delivery under a key, if there is one; an empty id counts as none.\<close>

definition by_key :: "delivery_store \<Rightarrow> string \<Rightarrow> string option" where
  "by_key s key = (if truthy (map_of (dv_byKey s) key) then map_of (dv_byKey s) key else None)"

definition enqueue_delivery ::
  "string \<Rightarrow> time \<Rightarrow> delivery_input \<Rightarrow> delivery_store \<Rightarrow> (delivery option \<times> bool) \<times> delivery_store" where
  "enqueue_delivery newId now input s =
     (case by_key s (di_idempotencyKey input) of
        Some existing \<Rightarrow> ((get_delivery s existing, False), s)
      | None \<Rightarrow>
          let d = new_delivery newId now input in ((Some d, \<not> dl_shadow d), add_delivery d s))"

definition is_pending :: "string \<Rightarrow> delivery \<Rightarrow> bool" where
  "is_pending type d \<longleftrightarrow> dl_deliveredAt d = None \<and> \<not> dl_shadow d \<and> ds_type (dl_destination d) = type"

definition pending_deliveries :: "delivery_store \<Rightarrow> string \<Rightarrow> delivery list" where
  "pending_deliveries s type = filter (is_pending type) (jmap_values (dv_deliveries s))"

definition claimPending :: "time \<Rightarrow> string \<Rightarrow> int \<Rightarrow> delivery_store \<Rightarrow> delivery list \<times> delivery_store" where
  "claimPending now type ttlMs s =
     (let rows = filter (\<lambda>d. is_pending type d \<and>
                   (case map_of (dv_claimedUntil s) (dl_id d) of None \<Rightarrow> 0 | Some t \<Rightarrow> t) \<le> now)
                 (jmap_values (dv_deliveries s))
      in (rows, s\<lparr> dv_claimedUntil := fold (\<lambda>d. jmap_set (dl_id d) (now + ttlMs)) rows (dv_claimedUntil s) \<rparr>))"

definition listShadow :: "int option \<Rightarrow> delivery_store \<Rightarrow> delivery list" where
  "listShadow limit s =
     js_slice (sort_key (\<lambda>d. - dl_createdAt d)
        (filter (\<lambda>d. dl_shadow d \<and> dl_deliveredAt d = None) (jmap_values (dv_deliveries s)))) 0
       (max 1 (case limit of None \<Rightarrow> 100 | Some l \<Rightarrow> l))"

definition update_delivery :: "string \<Rightarrow> (delivery \<Rightarrow> delivery) \<Rightarrow> delivery_store \<Rightarrow> delivery_store" where
  "update_delivery i f s = s\<lparr> dv_deliveries := jmap_mutate i f (dv_deliveries s) \<rparr>"

definition ack :: "string \<Rightarrow> time \<Rightarrow> int option \<Rightarrow> delivery_store \<Rightarrow> delivery_store" where
  "ack i at slackApiMs s =
     update_delivery i
       (\<lambda>d. if dl_deliveredAt d \<noteq> None then d
             else d\<lparr> dl_deliveredAt := Some at, dl_deliverLatencyMs := Some (max 0 (at - dl_createdAt d)),
                     dl_slackApiMs := (if slackApiMs = None then dl_slackApiMs d else slackApiMs) \<rparr>) s"

definition tombstone :: "string \<Rightarrow> string \<Rightarrow> time \<Rightarrow> delivery" where
  "tombstone newId key at =
     \<lparr> dl_id = newId, dl_destination = destination_to ''ack-tombstone'' '''', dl_text = '''', dl_attachments = [],
       dl_provenance = None, dl_idempotencyKey = key, dl_createdAt = at, dl_deliveredAt = Some at, dl_shadow = False,
       dl_recipientThreadRef = None, dl_deliverLatencyMs = None, dl_slackApiMs = None \<rparr>"

definition ackByKey :: "string \<Rightarrow> string \<Rightarrow> time \<Rightarrow> delivery_store \<Rightarrow> delivery_store" where
  "ackByKey newId key at s =
     (case by_key s key of
        Some existing \<Rightarrow>
          update_delivery existing (\<lambda>d. if dl_deliveredAt d = None then d\<lparr> dl_deliveredAt := Some at \<rparr> else d) s
      | None \<Rightarrow> add_delivery (tombstone newId key at) s)"

definition setEditRefByKey :: "string \<Rightarrow> string \<Rightarrow> delivery_store \<Rightarrow> delivery_store" where
  "setEditRefByKey key editRef s =
     (case by_key s key of
        None \<Rightarrow> s
      | Some existing \<Rightarrow>
          update_delivery existing
            (\<lambda>d. if dl_deliveredAt d = None
                  then d\<lparr> dl_destination := (dl_destination d)\<lparr> ds_editRef := Some editRef \<rparr> \<rparr> else d) s)"

definition recordRecipientThread :: "string \<Rightarrow> string \<Rightarrow> time \<Rightarrow> delivery_store \<Rightarrow> delivery_store" where
  "recordRecipientThread i threadRef at s =
     update_delivery i
       (\<lambda>d. if ds_type (dl_destination d) \<noteq> ''principal'' then d
             else d\<lparr> dl_recipientThreadRef := Some threadRef,
                     dl_deliveredAt := (if dl_deliveredAt d = None then Some at else dl_deliveredAt d) \<rparr>) s"

definition newest :: "int option \<Rightarrow> delivery list \<Rightarrow> delivery list" where
  "newest limit ds = js_slice_from (sort_key dl_createdAt ds) (- max 1 (case limit of None \<Rightarrow> 20 | Some l \<Rightarrow> l))"

definition listByRecipientThread :: "string \<Rightarrow> int option \<Rightarrow> delivery_store \<Rightarrow> delivery list" where
  "listByRecipientThread threadRef limit s =
     newest limit (filter (\<lambda>d. dl_recipientThreadRef d = Some threadRef \<and> ds_type (dl_destination d) = ''principal'')
       (jmap_values (dv_deliveries s)))"

definition listBySourceSession :: "string \<Rightarrow> string \<Rightarrow> int option \<Rightarrow> delivery_store \<Rightarrow> delivery list" where
  "listBySourceSession sid threadRef limit s =
     newest limit (filter (\<lambda>d. case dl_provenance d of
         None \<Rightarrow> False
       | Some p \<Rightarrow> pv_sourceSessionId p = Some sid \<or> pv_sourceThreadRef p = threadRef)
       (jmap_values (dv_deliveries s)))"

text \<open>The session a delivery counts for, among the sessions asked for.\<close>

definition counted_session :: "(string \<times> string) list \<Rightarrow> delivery \<Rightarrow> string option" where
  "counted_session sources d =
     (if dl_shadow d then None
      else
        case dl_provenance d of
          None \<Rightarrow> None
        | Some p \<Rightarrow>
            if truthy (pv_sourceSessionId p)
            then (if the (pv_sourceSessionId p) \<in> fst ` set sources then pv_sourceSessionId p else None)
            else if pv_sourceThreadRef p \<noteq> []
            then map_of (rev (map (\<lambda>(sid, th). (th, sid)) sources)) (pv_sourceThreadRef p)
            else None)"

definition count_for :: "string option \<Rightarrow> (string, nat) jsmap \<Rightarrow> (string, nat) jsmap" where
  "count_for i counts =
     (if truthy i then jmap_set (the i) ((case map_of counts (the i) of None \<Rightarrow> 0 | Some n \<Rightarrow> n) + 1) counts else counts)"

definition sentCountsBySourceSessions :: "(string \<times> string) list \<Rightarrow> delivery_store \<Rightarrow> (string, nat) jsmap" where
  "sentCountsBySourceSessions sources s =
     fold (\<lambda>d. count_for (counted_session sources d)) (jmap_values (dv_deliveries s)) []"

text \<open>
  \<open>cronIdOf\<close>: the id in \<open>agent:main:cron:<id>\<close> or in \<open>cron:<id>\<close> and \<open>cron:<id>:<anything>\<close>.
\<close>

definition STABLE_CRON_PREFIX :: string where "STABLE_CRON_PREFIX = ''agent:main:cron:''"
definition LEGACY_CRON_PREFIX :: string where "LEGACY_CRON_PREFIX = ''cron:''"

definition stable_cron_id :: "string \<Rightarrow> string option" where
  "stable_cron_id threadRef =
     (let i = drop (length STABLE_CRON_PREFIX) threadRef
      in if js_startsWith threadRef STABLE_CRON_PREFIX \<and> i \<noteq> [] \<and> CHR '':'' \<notin> set i then Some i else None)"

definition legacy_cron_id :: "string \<Rightarrow> string option" where
  "legacy_cron_id threadRef =
     (let t = drop (length LEGACY_CRON_PREFIX) threadRef;
          i = takeWhile (\<lambda>c. c \<noteq> CHR '':'') t; rest = dropWhile (\<lambda>c. c \<noteq> CHR '':'') t
      in if js_startsWith threadRef LEGACY_CRON_PREFIX \<and> i \<noteq> [] \<and>
            (rest = [] \<or> tl rest \<noteq> [] \<and> list_all (\<lambda>c. \<not> is_line_end c) (tl rest))
         then Some i else None)"

definition cronIdOf :: "string \<Rightarrow> string option" where
  "cronIdOf threadRef =
     (case stable_cron_id threadRef of Some i \<Rightarrow> Some i | None \<Rightarrow> legacy_cron_id threadRef)"

definition cron_source :: "delivery \<Rightarrow> (string \<times> string) option" where
  "cron_source d =
     (if dl_shadow d then None
      else
        case dl_provenance d of
          None \<Rightarrow> None
        | Some p \<Rightarrow>
            if pv_sourceThreadRef p = [] then None
            else
              map_option (\<lambda>c. (c, case pv_sourceSessionId p of Some sid \<Rightarrow> sid | None \<Rightarrow> pv_sourceThreadRef p))
                (cronIdOf (pv_sourceThreadRef p)))"

definition sentRunCountsByCron :: "string list \<Rightarrow> delivery_store \<Rightarrow> (string, nat) jsmap" where
  "sentRunCountsByCron cronIds s =
     map (map_prod id length)
       (fold (\<lambda>d runs. case cron_source d of
           Some (c, r) \<Rightarrow>
             if c \<in> set cronIds then jmap_set c (jset_add r (case map_of runs c of None \<Rightarrow> [] | Some rs \<Rightarrow> rs)) runs else runs
         | None \<Rightarrow> runs) (jmap_values (dv_deliveries s)) [])"

section \<open>Deliveries of finished runs\<close>

text \<open>
  The origin written in a request. Only its kind matters here, so of a destination the type and the
  target are read.
\<close>

definition json_destination :: "json \<Rightarrow> destination" where
  "json_destination j =
     destination_to (case json_get_str ''type'' j of Some t \<Rightarrow> t | None \<Rightarrow> [])
       (case json_get_str ''target'' j of Some t \<Rightarrow> t | None \<Rightarrow> [])"

definition json_origin :: "json \<Rightarrow> turn_origin option" where
  "json_origin j =
     (case json_get_str ''kind'' j of
        None \<Rightarrow> None
      | Some k \<Rightarrow>
          if k = ''human'' then Some (Human (json_get_str ''messageTs'' j) (json_get_str ''entryTs'' j))
          else if k = ''ambient'' then Some (Ambient (json_get_str ''entryTs'' j) (json_flag ''live'' j))
          else if k = ''automation''
          then Some (Automation (json_get_str ''screenData'' j) (map_option json_destination (json_get ''destination'' j))
                 (json_flag ''useOwnerKeychain'' j))
          else Some Direct)"

definition request_flags :: "json \<Rightarrow> legacy_origin" where
  "request_flags r =
     \<lparr> lo_triggerTs = json_get_str ''triggerTs'' r, lo_entryTs = json_get_str ''entryTs'' r,
       lo_triggered = json_flag ''triggered'' r, lo_securityScreenData = json_get_str ''securityScreenData'' r,
       lo_triggerDestination = map_option json_destination (json_get ''triggerDestination'' r),
       lo_ownerKeychainUnion = json_flag ''ownerKeychainUnion'' r, lo_unprompted = json_flag ''unprompted'' r,
       lo_liveActor = json_flag ''liveActor'' r \<rparr>"

definition request_is_ambient :: "json \<Rightarrow> bool" where
  "request_is_ambient r \<longleftrightarrow>
     (case resolveTurnOrigin (Option.bind (json_get ''origin'' r) json_origin) (request_flags r) of
        Ambient _ _ \<Rightarrow> True | _ \<Rightarrow> False)"

definition SECURITY_QUARANTINE_REFUSAL_TEXT :: string where
  "SECURITY_QUARANTINE_REFUSAL_TEXT = ''I couldn't act because my security screen flagged part of this message or its conversation context. Please retry without the flagged context, or ask an admin to review the quarantine.''"

fun task_status_name :: "task_status \<Rightarrow> string" where
  "task_status_name TaskPending = ''pending''"
| "task_status_name TaskInProgress = ''in_progress''"
| "task_status_name TaskCompleted = ''completed''"
| "task_status_name TaskSkipped = ''skipped''"
| "task_status_name TaskFailed = ''failed''"

definition has_attachments :: "turn_result option \<Rightarrow> bool" where
  "has_attachments r \<longleftrightarrow>
     (case r of None \<Rightarrow> False | Some x \<Rightarrow> (case tr_attachments x of None \<Rightarrow> False | Some as \<Rightarrow> as \<noteq> []))"

definition run_key :: "string \<Rightarrow> string" where
  "run_key i = ''run:'' @ i"

definition run_destination :: "string \<Rightarrow> string \<Rightarrow> run \<Rightarrow> task list \<Rightarrow> destination" where
  "run_destination surface target r tasks =
     (destination_to surface target)
       \<lparr> ds_editRef := (case run_deliveryState r of Some e \<Rightarrow> if_truthy e | None \<Rightarrow> None),
         ds_taskList := (if tasks = [] then None
                         else Some (map (\<lambda>t. (ta_id t, ta_title t, task_status_name (ta_status t))) tasks)) \<rparr>"

definition run_message :: "destination \<Rightarrow> run \<Rightarrow> string \<Rightarrow> json list \<Rightarrow> delivery_input" where
  "run_message dest r txt atts =
     \<lparr> di_destination = dest, di_text = txt, di_attachments = atts, di_provenance = None,
       di_idempotencyKey = run_key (run_id r), di_shadow = False \<rparr>"

definition runResultDelivery :: "run \<Rightarrow> task list \<Rightarrow> delivery_input option" where
  "runResultDelivery r tasks =
     (let target = json_get_str ''deliveryTarget'' (run_request r); surface = json_get_str ''surface'' (run_request r);
          res = run_result r
      in if \<not> truthy target \<or> \<not> truthy surface then None
         else
           let dest = run_destination (the surface) (the target) r tasks
           in if surface = Some ''slack'' \<and> (case res of Some x \<Rightarrow> tr_status x = TSRefused \<and> tr_quarantined x | None \<Rightarrow> False) \<and>
                 json_truthy_at ''addressed'' (run_request r)
              then Some (run_message dest r SECURITY_QUARANTINE_REFUSAL_TEXT [])
              else if json_truthy_at ''surfaceTools'' (run_request r) \<and>
                (case res of Some x \<Rightarrow> tr_status x \<noteq> TSFailed | None \<Rightarrow> True) \<and> \<not> has_attachments res
              then None
              else if run_status r = RFailed
              then (if request_is_ambient (run_request r) then None
                    else Some (run_message dest r (''~~ I couldn't finish that turn: '' @
                      (case Option.bind res tr_reason of Some m \<Rightarrow> m | None \<Rightarrow> ''unknown error'')) []))
              else
                case res of
                  Some x \<Rightarrow>
                    if tr_status x = TSOk \<and> (truthy (tr_reply x) \<or> has_attachments res)
                    then Some (run_message dest r (case tr_reply x of Some t \<Rightarrow> t | None \<Rightarrow> [])
                           (case tr_attachments x of Some as \<Rightarrow> as | None \<Rightarrow> []))
                    else None
                | None \<Rightarrow> None)"

text \<open>What the terminal listener does with a run, and with all runs announced so far.\<close>

definition deliver_run ::
  "(string \<Rightarrow> string) \<Rightarrow> task_store option \<Rightarrow> string \<Rightarrow> time \<Rightarrow> run \<Rightarrow> delivery_store \<Rightarrow> delivery_store" where
  "deliver_run collate tasks newId now r s =
     (let taskList = (case tasks of
            None \<Rightarrow> []
          | Some t \<Rightarrow> list_tasks collate \<lparr> tf_sessionId = None, tf_originRunId = Some (run_id r), tf_statuses = None \<rparr> t)
      in case runResultDelivery r taskList of
           None \<Rightarrow> s
         | Some d \<Rightarrow> snd (enqueue_delivery newId now d s))"

section \<open>Invariant\<close>

inductive delivery_step :: "delivery_store \<times> string set \<Rightarrow> delivery_store \<times> string set \<Rightarrow> bool" where
  dl_enqueue: "newId \<notin> I \<Longrightarrow> newId \<noteq> [] \<Longrightarrow>
     delivery_step (s, I) (snd (enqueue_delivery newId now input s), insert newId I)"
| dl_claim: "delivery_step (s, I) (snd (claimPending now type ttl s), I)"
| dl_ack: "delivery_step (s, I) (ack i at ms s, I)"
| dl_ackByKey: "newId \<notin> I \<Longrightarrow> newId \<noteq> [] \<Longrightarrow> delivery_step (s, I) (ackByKey newId key at s, insert newId I)"
| dl_editRef: "delivery_step (s, I) (setEditRefByKey key editRef s, I)"
| dl_recipient: "delivery_step (s, I) (recordRecipientThread i th at s, I)"
| dl_run: "newId \<notin> I \<Longrightarrow> newId \<noteq> [] \<Longrightarrow> delivery_step (s, I) (deliver_run collate tasks newId now r s, insert newId I)"

definition delivery_inv :: "delivery_store \<times> string set \<Rightarrow> bool" where
  "delivery_inv c \<longleftrightarrow>
     (\<forall>i d. get_delivery (fst c) i = Some d \<longrightarrow> dl_id d = i \<and> i \<noteq> [] \<and> i \<in> snd c \<and>
        map_of (dv_byKey (fst c)) (dl_idempotencyKey d) = Some i) \<and>
     (\<forall>k i. map_of (dv_byKey (fst c)) k = Some i \<longrightarrow> (\<exists>d. get_delivery (fst c) i = Some d \<and> dl_idempotencyKey d = k))"

text \<open>What may happen to a delivery: it is sent once; only its thread is written after that.\<close>

definition delivery_evolves :: "delivery \<Rightarrow> delivery \<Rightarrow> bool" where
  "delivery_evolves d d' \<longleftrightarrow>
     dl_id d' = dl_id d \<and> dl_text d' = dl_text d \<and> dl_attachments d' = dl_attachments d \<and>
     dl_idempotencyKey d' = dl_idempotencyKey d \<and> dl_createdAt d' = dl_createdAt d \<and> dl_shadow d' = dl_shadow d \<and>
     ds_type (dl_destination d') = ds_type (dl_destination d) \<and> ds_target (dl_destination d') = ds_target (dl_destination d) \<and>
     (dl_deliveredAt d \<noteq> None \<longrightarrow> d' = d\<lparr> dl_recipientThreadRef := dl_recipientThreadRef d' \<rparr>)"

definition delivery_rel :: "delivery_store \<times> string set \<Rightarrow> delivery_store \<times> string set \<Rightarrow> bool" where
  "delivery_rel c c' \<longleftrightarrow>
     (\<forall>i d. get_delivery (fst c) i = Some d \<longrightarrow> (\<exists>d'. get_delivery (fst c') i = Some d' \<and> delivery_evolves d d'))"

lemma delivery_evolves_refl [simp]: "delivery_evolves d d"
  by (simp add: delivery_evolves_def)

lemma delivery_evolves_trans:
  assumes "delivery_evolves d e" "delivery_evolves e f"
  shows "delivery_evolves d f"
proof (cases "dl_deliveredAt d")
  case None
  with assms show ?thesis by (simp add: delivery_evolves_def)
next
  case (Some t)
  then have e: "e = d\<lparr> dl_recipientThreadRef := dl_recipientThreadRef e \<rparr>" using assms(1) by (simp add: delivery_evolves_def)
  then have "dl_deliveredAt e = Some t" using Some by (metis delivery.select_convs(8) delivery.surjective delivery.update_convs(10))
  then have "f = e\<lparr> dl_recipientThreadRef := dl_recipientThreadRef f \<rparr>" using assms(2) by (simp add: delivery_evolves_def)
  moreover have "e\<lparr> dl_recipientThreadRef := x \<rparr> = d\<lparr> dl_recipientThreadRef := x \<rparr>" for x
    by (subst e) simp
  ultimately show ?thesis using assms by (simp add: delivery_evolves_def)
qed

lemma delivery_inv_D:
  assumes "delivery_inv (s, I)"
  shows "get_delivery s i = Some d \<Longrightarrow> dl_id d = i \<and> i \<noteq> [] \<and> i \<in> I \<and> map_of (dv_byKey s) (dl_idempotencyKey d) = Some i"
    "map_of (dv_byKey s) k = Some i \<Longrightarrow> \<exists>d. get_delivery s i = Some d \<and> dl_idempotencyKey d = k"
  using assms by (simp_all add: delivery_inv_def)

lemma delivery_invI:
  assumes "\<And>i d. get_delivery s i = Some d \<Longrightarrow> dl_id d = i \<and> i \<noteq> [] \<and> i \<in> I \<and> map_of (dv_byKey s) (dl_idempotencyKey d) = Some i"
    "\<And>k i. map_of (dv_byKey s) k = Some i \<Longrightarrow> \<exists>d. get_delivery s i = Some d \<and> dl_idempotencyKey d = k"
  shows "delivery_inv (s, I)"
  using assms by (simp add: delivery_inv_def)

lemma by_key_eq:
  assumes "delivery_inv (s, I)"
  shows "by_key s k = map_of (dv_byKey s) k"
proof (cases "map_of (dv_byKey s) k")
  case (Some i)
  with delivery_inv_D(2) [OF assms Some] delivery_inv_D(1) [OF assms] have "i \<noteq> []" by blast
  with Some show ?thesis by (simp add: by_key_def truthy_def)
qed (simp add: by_key_def truthy_def)

lemma get_update_delivery:
  "get_delivery (update_delivery i f s) j = (if j = i then map_option f (get_delivery s i) else get_delivery s j)"
  by (auto simp: update_delivery_def get_delivery_def map_of_jmap_mutate)

lemma get_add_delivery: "get_delivery (add_delivery d s) j = (if j = dl_id d then Some d else get_delivery s j)"
  by (simp add: add_delivery_def get_delivery_def)

text \<open>The three ways a store changes: nothing but claims, one row rewritten, one row added.\<close>

lemma delivery_same:
  assumes "delivery_inv (s, I)" "dv_deliveries s' = dv_deliveries s" "dv_byKey s' = dv_byKey s" "I \<subseteq> J"
  shows "delivery_inv (s', J) \<and> delivery_rel (s, I) (s', J)"
proof -
  have g: "get_delivery s' = get_delivery s" using assms(2) by (simp add: get_delivery_def fun_eq_iff)
  have "delivery_inv (s', J)"
    using delivery_inv_D [OF assms(1)] assms(3,4) by (intro delivery_invI) (auto simp: g)
  then show ?thesis by (simp add: delivery_rel_def g)
qed

lemma delivery_update:
  assumes "delivery_inv (s, I)" "\<And>d. delivery_evolves d (f d)" "I \<subseteq> J"
  shows "delivery_inv (update_delivery i f s, J) \<and> delivery_rel (s, I) (update_delivery i f s, J)"
proof
  have ids: "dl_id (f d) = dl_id d" "dl_idempotencyKey (f d) = dl_idempotencyKey d" for d
    using assms(2) [of d] by (simp_all add: delivery_evolves_def)
  have k: "dv_byKey (update_delivery i f s) = dv_byKey s" by (simp add: update_delivery_def)
  show "delivery_inv (update_delivery i f s, J)"
  proof (rule delivery_invI)
    fix j d assume "get_delivery (update_delivery i f s) j = Some d"
    then show "dl_id d = j \<and> j \<noteq> [] \<and> j \<in> J \<and> map_of (dv_byKey (update_delivery i f s)) (dl_idempotencyKey d) = Some j"
      using delivery_inv_D(1) [OF assms(1)] assms(3) ids by (auto simp: k get_update_delivery split: if_splits)
  next
    fix key j assume "map_of (dv_byKey (update_delivery i f s)) key = Some j"
    then obtain d where "get_delivery s j = Some d" "dl_idempotencyKey d = key"
      using delivery_inv_D(2) [OF assms(1)] k by auto
    then show "\<exists>d. get_delivery (update_delivery i f s) j = Some d \<and> dl_idempotencyKey d = key"
      using ids(2) by (auto simp: get_update_delivery)
  qed
  show "delivery_rel (s, I) (update_delivery i f s, J)"
    using assms(2) by (auto simp: delivery_rel_def get_update_delivery)
qed

lemma delivery_add:
  assumes "delivery_inv (s, I)" "dl_id d \<notin> I" "dl_id d \<noteq> []" "by_key s (dl_idempotencyKey d) = None"
  shows "delivery_inv (add_delivery d s, insert (dl_id d) I) \<and> delivery_rel (s, I) (add_delivery d s, insert (dl_id d) I)"
proof
  note inv = delivery_inv_D [OF assms(1)]
  have none: "map_of (dv_byKey s) (dl_idempotencyKey d) = None" using assms(4) by (simp add: by_key_eq [OF assms(1)])
  have new: "get_delivery s (dl_id d) = None"
    using inv(1) [of "dl_id d"] assms(2) by (cases "get_delivery s (dl_id d)") auto
  have k: "map_of (dv_byKey (add_delivery d s)) = (map_of (dv_byKey s))(dl_idempotencyKey d \<mapsto> dl_id d)"
    by (simp add: add_delivery_def)
  show "delivery_inv (add_delivery d s, insert (dl_id d) I)"
  proof (rule delivery_invI)
    fix i e assume "get_delivery (add_delivery d s) i = Some e"
    then show "dl_id e = i \<and> i \<noteq> [] \<and> i \<in> insert (dl_id d) I \<and> map_of (dv_byKey (add_delivery d s)) (dl_idempotencyKey e) = Some i"
      using inv(1) [of i e] none assms(3) by (auto simp: k get_add_delivery split: if_splits)
  next
    fix key i assume "map_of (dv_byKey (add_delivery d s)) key = Some i"
    then show "\<exists>e. get_delivery (add_delivery d s) i = Some e \<and> dl_idempotencyKey e = key"
      using inv(2) [of key i] new by (auto simp: k get_add_delivery split: if_splits)
  qed
  show "delivery_rel (s, I) (add_delivery d s, insert (dl_id d) I)"
    using new by (auto simp: delivery_rel_def get_add_delivery)
qed

lemma delivery_enqueue:
  assumes "delivery_inv (s, I)" "newId \<notin> I" "newId \<noteq> []"
  shows "delivery_inv (snd (enqueue_delivery newId now input s), insert newId I) \<and>
    delivery_rel (s, I) (snd (enqueue_delivery newId now input s), insert newId I)"
proof (cases "by_key s (di_idempotencyKey input)")
  case None
  with delivery_add [of s I "new_delivery newId now input"] assms show ?thesis
    by (simp add: enqueue_delivery_def new_delivery_def Let_def)
next
  case (Some i)
  with delivery_same [OF assms(1), of s "insert newId I"] show ?thesis by (auto simp: enqueue_delivery_def)
qed

lemma delivery_step_ok:
  assumes "delivery_step c c'" "delivery_inv c"
  shows "delivery_inv c' \<and> delivery_rel c c'"
  using assms
proof (induction rule: delivery_step.induct)
  case (dl_enqueue newId I s now input)
  then show ?case by (intro delivery_enqueue)
next
  case (dl_claim s I now type ttl)
  then show ?case by (intro delivery_same) (auto simp: claimPending_def Let_def)
next
  case (dl_ack s I i at ms)
  then show ?case unfolding ack_def by (intro delivery_update) (auto simp: delivery_evolves_def)
next
  case (dl_ackByKey newId I s key at)
  show ?case
  proof (cases "by_key s key")
    case None
    with delivery_add [of s I "tombstone newId key at"] dl_ackByKey show ?thesis
      by (simp add: ackByKey_def tombstone_def)
  next
    case (Some i)
    show ?thesis
      unfolding ackByKey_def Some option.case
      by (rule delivery_update [OF dl_ackByKey(3)]) (auto simp: delivery_evolves_def)
  qed
next
  case (dl_editRef s I key editRef)
  show ?case
  proof (cases "by_key s key")
    case None
    with delivery_same [OF dl_editRef, of s I] show ?thesis by (simp add: setEditRefByKey_def)
  next
    case (Some i)
    show ?thesis
      unfolding setEditRefByKey_def Some option.case
      by (rule delivery_update [OF dl_editRef]) (auto simp: delivery_evolves_def)
  qed
next
  case (dl_recipient s I i th at)
  then show ?case unfolding recordRecipientThread_def by (intro delivery_update) (auto simp: delivery_evolves_def)
next
  case (dl_run newId I s collate tasks now r)
  then show ?case
    using delivery_enqueue [of s I newId now] delivery_same [of s I s "insert newId I"]
    by (auto simp: deliver_run_def Let_def split: option.split)
qed

interpretation delivery_machine: evolving_machine "\<lambda>c. c = (createDeliveryStore, {})" delivery_step delivery_inv delivery_rel
proof
  show "delivery_inv c" if "c = (createDeliveryStore, {})" for c
    by (simp add: that delivery_inv_def createDeliveryStore_def get_delivery_def)
  show "delivery_rel c d \<Longrightarrow> delivery_rel d e \<Longrightarrow> delivery_rel c e" for c d e
    unfolding delivery_rel_def by (meson delivery_evolves_trans)
qed (use delivery_step_ok in \<open>auto simp: delivery_rel_def\<close>)

section \<open>Properties\<close>

text \<open>
  C28. A message goes out once: whatever is enqueued, claimed, acknowledged or announced in whatever order,
  a delivery stays in the outbox under its key and no other delivery has that key; enqueueing under the
  key again, or announcing the run it is for again, adds nothing and answers with the delivery that is
  there; what it says, to whom and when it was made never changes; and once it was acknowledged it is never
  pending again and only the thread it arrived in is still written.
\<close>

theorem delivery_goes_out_once:
  assumes "delivery_step\<^sup>*\<^sup>* (createDeliveryStore, {}) (s, I)" "delivery_step\<^sup>*\<^sup>* (s, I) (s', I')"
    and "get_delivery s i = Some d"
  shows "\<exists>d'. get_delivery s' i = Some d' \<and>
    (\<forall>j e. get_delivery s' j = Some e \<and> dl_idempotencyKey e = dl_idempotencyKey d \<longrightarrow> j = i) \<and>
    (di_idempotencyKey input = dl_idempotencyKey d \<longrightarrow> enqueue_delivery newId now input s' = ((Some d', False), s')) \<and>
    (run_key (run_id r) = dl_idempotencyKey d \<longrightarrow> deliver_run collate tasks newId now r s' = s') \<and>
    dl_text d' = dl_text d \<and> dl_attachments d' = dl_attachments d \<and> dl_createdAt d' = dl_createdAt d \<and>
    ds_type (dl_destination d') = ds_type (dl_destination d) \<and> ds_target (dl_destination d') = ds_target (dl_destination d) \<and>
    (dl_deliveredAt d \<noteq> None \<longrightarrow>
       d' = d\<lparr> dl_recipientThreadRef := dl_recipientThreadRef d' \<rparr> \<and> d' \<notin> set (pending_deliveries s' type))"
proof -
  have inv: "delivery_inv (s, I)" by (rule delivery_machine.inv_reachable [OF refl assms(1)])
  have inv': "delivery_inv (s', I')" by (rule delivery_machine.inv_steps [OF assms(2) inv])
  obtain d' where d': "get_delivery s' i = Some d'" "delivery_evolves d d'"
    using delivery_machine.rel_steps [OF assms(2) inv] assms(3) by (auto simp: delivery_rel_def)
  have key: "dl_idempotencyKey d' = dl_idempotencyKey d" using d'(2) by (simp add: delivery_evolves_def)
  have found: "by_key s' (dl_idempotencyKey d) = Some i"
    using delivery_inv_D(1) [OF inv' d'(1)] key by (simp add: by_key_eq [OF inv'])
  have enq: "di_idempotencyKey inp = dl_idempotencyKey d \<Longrightarrow> enqueue_delivery newId now inp s' = ((Some d', False), s')" for inp
    by (simp add: enqueue_delivery_def found d'(1))
  have run_key: "di_idempotencyKey m = run_key (run_id r)" if "runResultDelivery r ts = Some m" for m ts
    using that by (auto simp: runResultDelivery_def Let_def run_message_def split: if_splits option.splits)
  have "\<forall>j e. get_delivery s' j = Some e \<and> dl_idempotencyKey e = dl_idempotencyKey d \<longrightarrow> j = i"
    using delivery_inv_D(1) [OF inv'] by (metis found by_key_eq [OF inv'] option.inject)
  moreover have "run_key (run_id r) = dl_idempotencyKey d \<longrightarrow> deliver_run collate tasks newId now r s' = s'"
    using enq run_key by (auto simp: deliver_run_def Let_def split: option.split)
  moreover have "dl_deliveredAt d \<noteq> None \<longrightarrow> d' \<notin> set (pending_deliveries s' type)"
  proof
    assume "dl_deliveredAt d \<noteq> None"
    then have "d' = d\<lparr> dl_recipientThreadRef := dl_recipientThreadRef d' \<rparr>" using d'(2) by (simp add: delivery_evolves_def)
    then have "dl_deliveredAt d' = dl_deliveredAt d" by (metis delivery.select_convs(8) delivery.surjective delivery.update_convs(10))
    with \<open>dl_deliveredAt d \<noteq> None\<close> show "d' \<notin> set (pending_deliveries s' type)"
      by (simp add: pending_deliveries_def is_pending_def)
  qed
  ultimately show ?thesis using d' enq by (intro exI [of _ d']) (auto simp: delivery_evolves_def)
qed

lemma map_of_fold_claims:
  "map_of (fold (\<lambda>d. jmap_set (dl_id d) v) rows m) k = (if k \<in> dl_id ` set rows then Some v else map_of m k)"
  by (induction rows arbitrary: m) auto

definition claimed_until :: "delivery_store \<Rightarrow> string \<Rightarrow> time" where
  "claimed_until s i = (case map_of (dv_claimedUntil s) i of None \<Rightarrow> 0 | Some t \<Rightarrow> t)"

lemma claimPending_rows: "d \<in> set (fst (claimPending now type ttl s)) \<Longrightarrow> claimed_until s (dl_id d) \<le> now"
  by (auto simp: claimPending_def Let_def claimed_until_def)

lemma claimPending_until:
  "claimed_until (snd (claimPending now type ttl s)) i =
     (if i \<in> dl_id ` set (fst (claimPending now type ttl s)) then now + ttl else claimed_until s i)"
  by (auto simp: claimPending_def Let_def claimed_until_def map_of_fold_claims)

lemma claims_kept:
  assumes "t \<le> claimed_until s i" "\<forall>(n, ty, tl) \<in> set claims. n < t"
  shows "t \<le> claimed_until (fold (\<lambda>(n, ty, tl) s. snd (claimPending n ty tl s)) claims s) i"
  using assms
proof (induction claims arbitrary: s)
  case (Cons c claims)
  obtain n ty tl where c: "c = (n, ty, tl)" by (cases c)
  have "i \<notin> dl_id ` set (fst (claimPending n ty tl s))"
    using Cons.prems c by (force dest: claimPending_rows)
  then have "t \<le> claimed_until (snd (claimPending n ty tl s)) i" using Cons.prems(1) by (simp add: claimPending_until)
  with Cons show ?case by (simp add: c)
qed simp

text \<open>
  A message is claimed by one sender at a time: a delivery that a claim hands out is not handed out
  again by any claim before its time is over, whoever else claims in between; and a claim hands out only
  messages of its type that are neither acknowledged nor shadows, all those that nobody holds.
\<close>

theorem delivery_claim_exclusive:
  assumes "d \<in> set (fst (claimPending now type ttl s))" "\<forall>(n, ty, tl) \<in> set claims. n < now + ttl" "now' < now + ttl"
  shows "dl_id d \<notin> dl_id ` set (fst (claimPending now' type' ttl'
      (fold (\<lambda>(n, ty, tl) s. snd (claimPending n ty tl s)) claims (snd (claimPending now type ttl s))))) \<and>
    dl_deliveredAt d = None \<and> \<not> dl_shadow d \<and> ds_type (dl_destination d) = type \<and>
    set (fst (claimPending now type ttl s)) = {e \<in> set (pending_deliveries s type). claimed_until s (dl_id e) \<le> now}"
proof (intro conjI)
  have "now + ttl \<le> claimed_until (snd (claimPending now type ttl s)) (dl_id d)"
    using assms(1) by (auto simp: claimPending_until)
  from claims_kept [OF this assms(2)] assms(3)
  show "dl_id d \<notin> dl_id ` set (fst (claimPending now' type' ttl'
      (fold (\<lambda>(n, ty, tl) s. snd (claimPending n ty tl s)) claims (snd (claimPending now type ttl s)))))"
    by (force dest: claimPending_rows)
qed (use assms(1) in \<open>auto simp: claimPending_def Let_def is_pending_def pending_deliveries_def claimed_until_def\<close>)

section \<open>Examples\<close>

definition demo_message :: delivery_input where
  "demo_message = \<lparr> di_destination = destination_to ''slack'' ''c1'', di_text = ''hello'', di_attachments = [],
     di_provenance = None, di_idempotencyKey = ''run:r1'', di_shadow = False \<rparr>"

definition demo_outbox :: delivery_store where
  "demo_outbox = snd (enqueue_delivery ''d1'' 1 demo_message createDeliveryStore)"

lemma demo_outbox_reachable: "delivery_step\<^sup>*\<^sup>* (createDeliveryStore, {}) (demo_outbox, {''d1''})"
  unfolding demo_outbox_def by (rule r_into_rtranclp, rule dl_enqueue) simp_all

theorem delivery_goes_out_once_witness:
  "snd (enqueue_delivery ''d2'' 3 demo_message (ack ''d1'' 2 None demo_outbox)) = ack ''d1'' 2 None demo_outbox"
proof -
  have "map_option dl_idempotencyKey (get_delivery demo_outbox ''d1'') = Some (di_idempotencyKey demo_message)" by code_simp
  then obtain d where d: "get_delivery demo_outbox ''d1'' = Some d" "dl_idempotencyKey d = di_idempotencyKey demo_message" by auto
  from delivery_goes_out_once [OF demo_outbox_reachable r_into_rtranclp [of delivery_step, OF dl_ack [of _ _ "''d1''" 2 None]] d(1),
      where input = demo_message and newId = "''d2''" and now = 3] d(2)
  obtain d' where "enqueue_delivery ''d2'' 3 demo_message (ack ''d1'' 2 None demo_outbox) =
      ((Some d', False), ack ''d1'' 2 None demo_outbox)"
    by metis
  then show ?thesis by simp
qed

theorem delivery_claim_exclusive_witness:
  "let s = demo_outbox; (rows, s') = claimPending 5 ''slack'' 10 s
   in map dl_id rows = [''d1''] \<and> ''d1'' \<notin> dl_id ` set (fst (claimPending 14 ''slack'' 10 s'))"
proof -
  have "map dl_id (fst (claimPending 5 ''slack'' 10 demo_outbox)) = [''d1'']" by code_simp
  then obtain d where d: "fst (claimPending 5 ''slack'' 10 demo_outbox) = [d]" "dl_id d = ''d1''" by auto
  with delivery_claim_exclusive [of d 5 "''slack''" 10 demo_outbox "[]" 14 "''slack''" 10] show ?thesis
    by (auto simp: Let_def split: prod.splits)
qed

end
