(* ===== verification/Reach.thy ===== *)
theory Reach
  imports Directory Delivery
begin

text \<open>
  Reaching somebody (\<open>src/reach/reach.ts\<close>): resolving a teammate, a channel or a group of participants to
  a destination that the person asking may post to, and putting the message in the outbox. The directory
  interface is the workspace directory, as \<open>src/api/app-helpers.ts\<close> wires it; opening a group on the
  surface is the parameter \<open>openGroup\<close>. Dashes of the messages that are outside the alphabet are written
  as \<open>~\<close>.
\<close>

record reach_target =
  rt_recipient :: "string option"
  rt_channel :: "string option"
  rt_participants :: "string list option"

datatype reached =
    ReachedRecipient string string
  | ReachedChannel string string
  | ReachedGroup string

datatype reach_result =
    Reached destination reached
  | ReachDenied int string string "(string \<times> string) list option"

datatype opened_group = OpenedGroup string | OpenFailed string

type_synonym group_opener = "(string list \<Rightarrow> opened_group option) option"

definition MAX_GROUP_DM_PARTICIPANTS :: nat where "MAX_GROUP_DM_PARTICIPANTS = 8"

definition principalDestination :: "string \<Rightarrow> string \<Rightarrow> destination" where
  "principalDestination target onBehalfOf =
     (destination_to ''principal'' target)
       \<lparr> ds_audienceScopeId := Some (scopeId Personal target), ds_onBehalfOf := Some onBehalfOf \<rparr>"

definition groupTooLarge :: reach_result where
  "groupTooLarge = ReachDenied 400 ''group_too_large''
     (''a group DM holds at most '' @ js_show_int (int MAX_GROUP_DM_PARTICIPANTS) @ '' people including you ~ use a channel instead'') None"

definition membershipDenial :: "directory_store \<Rightarrow> string \<Rightarrow> bool \<Rightarrow> reach_result" where
  "membershipDenial dir authorityId isChannel =
     (if get_member dir authorityId = None
      then ReachDenied 403 ''identity_unverified''
        ''I can't confirm your membership here ~ your account isn't in this workspace's directory, so your login may not be linked to Slack (or it hasn't synced yet). Connecting / signing in with Slack should link it.'' None
      else ReachDenied 403 ''not_a_member''
        (if isChannel then ''I can only post to a private channel you're in'' else ''I can only post to a group DM you're in'') None)"

definition recipient_not_found :: "string \<Rightarrow> reach_result" where
  "recipient_not_found query =
     ReachDenied 404 ''recipient_not_found'' (''no internal teammate matches '' @ [CHR 0x22] @ query @ [CHR 0x22]) None"

definition ambiguous_recipient :: "string \<Rightarrow> directory_member list \<Rightarrow> reach_result" where
  "ambiguous_recipient query candidates =
     ReachDenied 409 ''ambiguous_recipient''
       ([CHR 0x22] @ query @ [CHR 0x22] @ '' matches multiple teammates ~ pass an exact name or id'')
       (Some (map (\<lambda>c. (dm_principalId c, dm_displayName c)) candidates))"

definition reach_recipient :: "directory_store \<Rightarrow> string \<Rightarrow> string \<Rightarrow> reach_result" where
  "reach_recipient dir query authorityId =
     (case resolve_member dir query of
        RNone \<Rightarrow> recipient_not_found query
      | RAmbiguous candidates \<Rightarrow> ambiguous_recipient query candidates
      | ROne m \<Rightarrow>
          Reached (principalDestination (dm_principalId m) authorityId)
            (ReachedRecipient (dm_principalId m) (dm_displayName m)))"

definition reach_channel :: "directory_store \<Rightarrow> string \<Rightarrow> string \<Rightarrow> reach_result" where
  "reach_channel dir query authorityId =
     (case resolveChannel dir query of
        RNone \<Rightarrow> ReachDenied 404 ''channel_not_found'' (''no channel I'm in matches '' @ [CHR 0x22] @ query @ [CHR 0x22]) None
      | RAmbiguous candidates \<Rightarrow>
          ReachDenied 409 ''ambiguous_channel''
            ([CHR 0x22] @ query @ [CHR 0x22] @ '' matches multiple channels ~ pass an exact name or id'')
            (Some (map (\<lambda>c. (dc_channelId c, dc_name c)) candidates))
      | ROne channel \<Rightarrow>
          let cid = dc_channelId channel
          in if \<not> isVisible dir authorityId (VChannel cid (Some (dc_isPrivate channel = Some True)))
             then membershipDenial dir authorityId True
             else Reached ((destination_to ''slack'' cid)\<lparr> ds_audienceScopeId := Some (scopeId Channel cid) \<rparr>)
                    (ReachedChannel cid (dc_name channel)))"

text \<open>The people named, one after the other; the first that is not exactly one teammate ends the search.\<close>

fun resolve_named :: "directory_store \<Rightarrow> string list \<Rightarrow> reach_result + string list" where
  "resolve_named dir [] = Inr []"
| "resolve_named dir (query # queries) =
     (case resolve_member dir query of
        RNone \<Rightarrow> Inl (recipient_not_found query)
      | RAmbiguous candidates \<Rightarrow> Inl (ambiguous_recipient query candidates)
      | ROne m \<Rightarrow>
          (case resolve_named dir queries of
             Inl e \<Rightarrow> Inl e
           | Inr named \<Rightarrow> Inr (dm_principalId m # named)))"

definition groupDestination :: "string \<Rightarrow> reach_result" where
  "groupDestination gid =
     Reached ((destination_to ''group'' gid)\<lparr> ds_audienceScopeId := Some (scopeId Group gid) \<rparr>) (ReachedGroup gid)"

definition open_group ::
  "directory_store \<Rightarrow> bool \<Rightarrow> group_opener \<Rightarrow> string list \<Rightarrow> string \<Rightarrow> reach_result \<times> directory_store" where
  "open_group dir mayOpenGroup openGroup participants authorityId =
     (case openGroup of
        None \<Rightarrow> (ReachDenied 404 ''group_not_found''
           ''no group DM I'm in has exactly those participants (it may not have synced yet)'' None, dir)
      | Some f \<Rightarrow>
          if \<not> mayOpenGroup
          then (ReachDenied 404 ''group_not_found''
             ''no group DM I'm in has exactly those participants ~ post to it once with /v1/reach, which opens it, then address it here'' None, dir)
          else if get_member dir authorityId = None then (membershipDenial dir authorityId False, dir)
          else
            case f participants of
              Some (OpenedGroup gid) \<Rightarrow> (groupDestination gid, upsertGroup gid participants dir)
            | Some (OpenFailed e) \<Rightarrow> (ReachDenied 502 ''group_open_failed'' e None, dir)
            | None \<Rightarrow>
                (ReachDenied 502 ''group_open_failed''
                   ''I couldn't open a group DM with those people just now ~ try again in a moment'' None, dir))"

definition reach_group ::
  "directory_store \<Rightarrow> bool \<Rightarrow> group_opener \<Rightarrow> string list \<Rightarrow> string \<Rightarrow> reach_result \<times> directory_store" where
  "reach_group dir mayOpenGroup openGroup queries authorityId =
     (if queries = []
      then (ReachDenied 400 ''bad_request'' ''participants must list the group DM's other members (at least one)'' None, dir)
      else
        let asked = jset_of queries
        in if length asked > MAX_GROUP_DM_PARTICIPANTS then (groupTooLarge, dir)
           else
             case resolve_named dir asked of
               Inl e \<Rightarrow> (e, dir)
             | Inr named \<Rightarrow>
                 let participants = jset_of (named @ [authorityId])
                 in if length participants < 2
                    then (ReachDenied 400 ''bad_request''
                       ''a group DM needs someone besides you ~ name a `recipient` instead for a 1:1 DM'' None, dir)
                    else if length participants > MAX_GROUP_DM_PARTICIPANTS then (groupTooLarge, dir)
                    else
                      case resolveGroupByParticipants dir participants of
                        Some gid \<Rightarrow>
                          if \<not> isVisible dir authorityId (VGroup gid) then (membershipDenial dir authorityId False, dir)
                          else (groupDestination gid, dir)
                      | None \<Rightarrow> open_group dir mayOpenGroup openGroup participants authorityId)"

definition resolveReachTarget ::
  "directory_store \<Rightarrow> reach_target \<Rightarrow> string \<Rightarrow> bool \<Rightarrow> group_opener \<Rightarrow> reach_result \<times> directory_store" where
  "resolveReachTarget dir target authorityId mayOpenGroup openGroup =
     (if length (filter id [rt_recipient target \<noteq> None, rt_channel target \<noteq> None, rt_participants target \<noteq> None]) > 1
      then (ReachDenied 400 ''bad_request'' ''specify exactly one of recipient (a teammate), channel, or participants (a group DM)'' None, dir)
      else
        case rt_recipient target of
          Some q \<Rightarrow> (reach_recipient dir q authorityId, dir)
        | None \<Rightarrow>
            (case rt_channel target of
               Some q \<Rightarrow> (reach_channel dir q authorityId, dir)
             | None \<Rightarrow>
                 (case rt_participants target of
                    Some qs \<Rightarrow> reach_group dir mayOpenGroup openGroup qs authorityId
                  | None \<Rightarrow>
                      (ReachDenied 400 ''bad_request'' ''name a recipient (a teammate), a channel, or a group DM's participants'' None, dir))))"

section \<open>Enqueueing\<close>

definition attributeRelay :: "string \<Rightarrow> string option \<Rightarrow> string" where
  "attributeRelay txt sender =
     (let who = map_option js_trim sender
      in if truthy who then the who @ '' asked me to pass on:'' @ [CHR 0x0A] @ txt else txt)"

definition isThirdPartyRelay :: "destination \<Rightarrow> string option \<Rightarrow> bool" where
  "isThirdPartyRelay d attributeAs \<longleftrightarrow>
     attributeAs \<noteq> None \<and>
     (ds_type d = ''group'' \<or> ds_type d = ''principal'' \<and> ds_onBehalfOf d \<noteq> Some (ds_target d))"

definition withSlackUnfurlOption :: "destination \<Rightarrow> bool option \<Rightarrow> destination" where
  "withSlackUnfurlOption d unfurlLinks = (if unfurlLinks = None then d else d\<lparr> ds_unfurlLinks := unfurlLinks \<rparr>)"

definition withReact :: "destination \<Rightarrow> (string \<times> string) option \<Rightarrow> destination" where
  "withReact d react = (if react = None then d else d\<lparr> ds_react := react \<rparr>)"

definition withDelete :: "destination \<Rightarrow> string option \<Rightarrow> destination" where
  "withDelete d del = (if del = None then d else d\<lparr> ds_delete := del \<rparr>)"

definition withEdit :: "destination \<Rightarrow> string option \<Rightarrow> destination" where
  "withEdit d editRef = (if truthy editRef then d\<lparr> ds_editRef := editRef \<rparr> else d)"

record reach_input =
  ri_destination :: destination
  ri_text :: string
  ri_attachments :: "json list"
  ri_idempotencyKey :: string
  ri_provenance :: "provenance option"
  ri_attributeAs :: "string option"
  ri_shadow :: bool

definition reach_message :: "reach_input \<Rightarrow> delivery_input" where
  "reach_message i =
     (if ds_react (ri_destination i) \<noteq> None \<or> ds_delete (ri_destination i) \<noteq> None
      then \<lparr> di_destination = ri_destination i, di_text = [], di_attachments = [], di_provenance = ri_provenance i,
             di_idempotencyKey = ri_idempotencyKey i, di_shadow = ri_shadow i \<rparr>
      else \<lparr> di_destination = ri_destination i,
             di_text = (if isThirdPartyRelay (ri_destination i) (ri_attributeAs i)
                        then attributeRelay (ri_text i) (ri_attributeAs i) else ri_text i),
             di_attachments = ri_attachments i, di_provenance = ri_provenance i,
             di_idempotencyKey = ri_idempotencyKey i, di_shadow = ri_shadow i \<rparr>)"

definition reachEnqueue :: "string \<Rightarrow> time \<Rightarrow> reach_input \<Rightarrow> delivery_store \<Rightarrow> (delivery option \<times> bool) \<times> delivery_store" where
  "reachEnqueue newId now i s = enqueue_delivery newId now (reach_message i) s"

section \<open>Properties\<close>

lemma resolve_member_mem: "resolve_member d q = ROne m \<Longrightarrow> m \<in> set (ds_members d)"
  by (auto simp: resolve_member_def dest: find_SomeD pickMatch_mem split: option.splits)

lemma resolve_named_members: "resolve_named d qs = Inr named \<Longrightarrow> set named \<subseteq> dm_principalId ` set (ds_members d)"
  by (induction qs arbitrary: named) (auto split: resolution.splits sum.splits dest!: resolve_member_mem)

lemma not_denial [simp]: "membershipDenial d a c \<noteq> Reached x y" "groupTooLarge \<noteq> Reached x y"
  "recipient_not_found q \<noteq> Reached x y" "ambiguous_recipient q cs \<noteq> Reached x y"
  by (simp_all add: membershipDenial_def groupTooLarge_def recipient_not_found_def ambiguous_recipient_def)

lemma resolve_named_error: "resolve_named d qs = Inl e \<Longrightarrow> e \<noteq> Reached x y"
  by (induction qs) (auto split: resolution.splits sum.splits)

text \<open>Where a resolved message goes, by what was asked for.\<close>

definition may_reach :: "directory_store \<Rightarrow> directory_store \<Rightarrow> string \<Rightarrow> destination \<Rightarrow> reached \<Rightarrow> bool" where
  "may_reach dir dir' authorityId d r \<longleftrightarrow>
     (case r of
        ReachedRecipient pid _ \<Rightarrow>
          d = principalDestination pid authorityId \<and> pid \<in> dm_principalId ` set (ds_members dir)
      | ReachedChannel cid name \<Rightarrow>
          ds_type d = ''slack'' \<and> ds_target d = cid \<and> ds_audienceScopeId d = Some (scopeId Channel cid) \<and>
          (\<exists>c \<in> set (ds_channels dir). dc_channelId c = cid \<and> dc_name c = name \<and>
             (dc_isPrivate c = Some True \<longrightarrow> channelMember dir cid authorityId))
      | ReachedGroup gid \<Rightarrow>
          ds_type d = ''group'' \<and> ds_target d = gid \<and> ds_audienceScopeId d = Some (scopeId Group gid) \<and>
          (gid \<noteq> [] \<and> authorityId \<noteq> [] \<longrightarrow> groupMember dir' gid authorityId))"

lemma upsert_member: "gid \<noteq> [] \<Longrightarrow> p \<in> set ps \<Longrightarrow> p \<noteq> [] \<Longrightarrow> groupMember (upsertGroup gid ps d) gid p"
  by (auto simp: upsertGroup_def groupMember_def in_rows_def Let_def filter_empty_conv)

lemma reach_group_ok:
  assumes "reach_group dir may f qs a = (Reached d r, dir')"
  shows "may_reach dir dir' a d r \<and> (dir' = dir \<or> (\<exists>gid ps. may \<and> get_member dir a \<noteq> None \<and> dir' = upsertGroup gid ps dir))"
proof -
  obtain named where n: "resolve_named dir (jset_of qs) = Inr named"
    using assms resolve_named_error by (auto simp: reach_group_def Let_def split: if_splits sum.splits)
  let ?ps = "jset_of (named @ [a])"
  have a: "a \<in> set ?ps" by simp
  show ?thesis
  proof (cases "resolveGroupByParticipants dir ?ps")
    case (Some gid)
    with assms n show ?thesis
      by (auto simp: reach_group_def Let_def groupDestination_def may_reach_def isVisible_def destination_to_def split: if_splits)
  next
    case None
    with assms n have "open_group dir may f ?ps a = (Reached d r, dir')"
      by (auto simp: reach_group_def Let_def split: if_splits)
    then show ?thesis
      using upsert_member [OF _ a]
      by (auto simp: open_group_def groupDestination_def may_reach_def destination_to_def
          split: if_splits option.splits opened_group.splits)
  qed
qed

text \<open>
  A message only goes where the person asking may post: when a target resolves, it is a teammate of
  the directory, reached on behalf of the person asking; or a channel of the directory that is public or
  that the person is in; or a group the person is a member of. The directory itself is changed only to
  record a group that was just opened, for a person who is in it. Asking for more or less than one kind
  of target is an error.
\<close>

theorem reach_respects_membership:
  assumes "resolveReachTarget dir target a may f = (Reached d r, dir')"
  shows "may_reach dir dir' a d r \<and>
    (dir' = dir \<or> (\<exists>gid ps. may \<and> get_member dir a \<noteq> None \<and> dir' = upsertGroup gid ps dir)) \<and>
    length (filter id [rt_recipient target \<noteq> None, rt_channel target \<noteq> None, rt_participants target \<noteq> None]) = 1"
proof -
  have one: "length (filter id [rt_recipient target \<noteq> None, rt_channel target \<noteq> None, rt_participants target \<noteq> None]) = 1"
    using assms by (auto simp: resolveReachTarget_def split: if_splits option.splits)
  consider q where "rt_recipient target = Some q" | q where "rt_channel target = Some q" "rt_recipient target = None"
    | qs where "rt_participants target = Some qs" "rt_recipient target = None" "rt_channel target = None"
    using one by (auto split: if_splits)
  then have "may_reach dir dir' a d r \<and> (dir' = dir \<or> (\<exists>gid ps. may \<and> get_member dir a \<noteq> None \<and> dir' = upsertGroup gid ps dir))"
  proof cases
    case 1
    with assms show ?thesis
      by (auto simp: resolveReachTarget_def reach_recipient_def may_reach_def dest!: resolve_member_mem
          split: if_splits resolution.splits)
  next
    case 2
    with assms have c: "reach_channel dir q a = Reached d r" "dir' = dir" by (auto simp: resolveReachTarget_def split: if_splits)
    then obtain ch where ch: "resolveChannel dir q = ROne ch"
      by (auto simp: reach_channel_def split: resolution.splits)
    then have "ch \<in> set (ds_channels dir)" by (auto simp: resolveChannel_def dest: pickMatch_mem)
    with c ch show ?thesis
      by (auto simp: reach_channel_def Let_def may_reach_def isVisible_def destination_to_def split: if_splits bool.splits)
  next
    case 3
    with assms have "reach_group dir may f qs a = (Reached d r, dir')" by (auto simp: resolveReachTarget_def split: if_splits)
    then show ?thesis by (rule reach_group_ok)
  qed
  with one show ?thesis by blast
qed

definition demo_directory :: directory_store where
  "demo_directory = createDirectoryStore
     \<lparr> ds_members := [\<lparr> dm_principalId = ''ann'', dm_displayName = ''Ann'', dm_type = Internal, dm_slackId = None \<rparr>,
                      \<lparr> dm_principalId = ''bob'', dm_displayName = ''Bob'', dm_type = Internal, dm_slackId = None \<rparr>],
       ds_channels := [\<lparr> dc_channelId = ''C1'', dc_name = ''plans'', dc_isPrivate = Some True \<rparr>],
       ds_channelMembers := Some [(''C1'', [''ann''])] \<rparr>"

theorem reach_respects_membership_witness:
  "\<exists>d r. fst (resolveReachTarget demo_directory \<lparr> rt_recipient = None, rt_channel = Some ''#plans'', rt_participants = None \<rparr> ''ann'' False None) =
       Reached d r \<and> may_reach demo_directory demo_directory ''ann'' d r \<and> ds_target d = ''C1''"
proof -
  let ?t = "\<lparr> rt_recipient = None, rt_channel = Some ''#plans'', rt_participants = None \<rparr>"
  have e: "resolveReachTarget demo_directory ?t ''ann'' False None =
      (Reached ((destination_to ''slack'' ''C1'')\<lparr> ds_audienceScopeId := Some ''channel:C1'' \<rparr>) (ReachedChannel ''C1'' ''plans''), demo_directory)"
    by code_simp
  with reach_respects_membership [OF e] show ?thesis by (auto simp: destination_to_def)
qed

end
