(* ===== verification/Idempotency.thy ===== *)
theory Idempotency
  imports Durable_Map
begin

text \<open>
  The idempotency store (\<open>src/idempotency/idempotency-store.ts\<close>): a job under a key is run once per
  retention period. \<open>once\<close> is written in the parts between its awaits, so that jobs under other keys, the
  pruning of old rows and a restart of the process can come in between; looking a key up reads the cache
  and the backing map in one part, since the guard in front keeps other calls away from the key.
\<close>

record idem_record =
  ir_key :: string
  ir_at :: time

record idem_opts =
  io_retentionMs :: int
  io_pruneIntervalMs :: int

record idem_store =
  is_done :: "(string, time) jsmap"
  is_inflight :: "string list"
  is_lastPruneAt :: time

type_synonym idem_backing = "idem_record mem_map option"

definition DEFAULT_RETENTION_MS :: int where "DEFAULT_RETENTION_MS = 14 * 24 * 60 * 60000"
definition DEFAULT_PRUNE_INTERVAL_MS :: int where "DEFAULT_PRUNE_INTERVAL_MS = 60 * 60000"

definition createIdempotencyStore :: "time \<Rightarrow> idem_store" where
  "createIdempotencyStore now = \<lparr> is_done = [], is_inflight = [], is_lastPruneAt = now \<rparr>"

text \<open>\<open>pruneIfDue\<close>: the cache at once; the cutoff for the rows of the backing map, if they are due.\<close>

definition pruneIfDue :: "idem_opts \<Rightarrow> time \<Rightarrow> idem_store \<Rightarrow> time option \<times> idem_store" where
  "pruneIfDue opts t s =
     (if t - is_lastPruneAt s < io_pruneIntervalMs opts then (None, s)
      else
        let cutoff = t - io_retentionMs opts
        in (Some cutoff, s\<lparr> is_lastPruneAt := t, is_done := filter (\<lambda>(_, at). \<not> at < cutoff) (is_done s) \<rparr>))"

text \<open>The keys the pruning job reads from the backing map, to be deleted one after the other.\<close>

definition rows_to_prune :: "time \<Rightarrow> idem_backing \<Rightarrow> string list" where
  "rows_to_prune cutoff backing =
     (case backing of None \<Rightarrow> [] | Some m \<Rightarrow> map ir_key (filter (\<lambda>r. ir_at r < cutoff) (map snd (mm_entries m))))"

definition isCommitted :: "idem_opts \<Rightarrow> time \<Rightarrow> string \<Rightarrow> idem_backing \<Rightarrow> idem_store \<Rightarrow> bool \<times> idem_store" where
  "isCommitted opts now key backing s =
     (let cutoff = now - io_retentionMs opts
      in if (case map_of (is_done s) key of Some at \<Rightarrow> at \<ge> cutoff | None \<Rightarrow> False) then (True, s)
         else
           case Option.bind backing (\<lambda>m. mm_get m key) of
             Some r \<Rightarrow>
               if ir_at r \<ge> cutoff then (True, s\<lparr> is_done := jmap_set (ir_key r) (ir_at r) (is_done s) \<rparr>) else (False, s)
           | None \<Rightarrow> (False, s))"

text \<open>\<open>once\<close> up to the call of the job: refused, found committed, or the job runs.\<close>

datatype once_start = InFlight | Committed | Runs

definition once_begin :: "idem_opts \<Rightarrow> time \<Rightarrow> string \<Rightarrow> idem_backing \<Rightarrow> idem_store \<Rightarrow> once_start \<times> idem_store" where
  "once_begin opts now key backing s =
     (if key \<in> set (is_inflight s) then (InFlight, s)
      else
        case isCommitted opts now key backing s of
          (True, s1) \<Rightarrow> (Committed, s1)
        | (False, s1) \<Rightarrow> (Runs, s1\<lparr> is_inflight := is_inflight s1 @ [key] \<rparr>))"

definition once_commit ::
  "idem_opts \<Rightarrow> time \<Rightarrow> string \<Rightarrow> idem_backing \<Rightarrow> idem_store \<Rightarrow> time option \<times> idem_backing \<times> idem_store" where
  "once_commit opts at key backing s =
     (let b = map_option (mm_put key \<lparr> ir_key = key, ir_at = at \<rparr>) backing
      in case pruneIfDue opts at (s\<lparr> is_done := jmap_set key at (is_done s) \<rparr>) of
           (cutoff, s1) \<Rightarrow> (cutoff, b, s1\<lparr> is_inflight := filter (\<lambda>k. k \<noteq> key) (is_inflight s1) \<rparr>))"

definition once_fail :: "string \<Rightarrow> idem_store \<Rightarrow> idem_store" where
  "once_fail key s = s\<lparr> is_inflight := filter (\<lambda>k. k \<noteq> key) (is_inflight s) \<rparr>"

section \<open>Interleavings\<close>

text \<open>
  A state of the process: the clock, the store, the backing map, the jobs that are running, the cutoffs
  handed to pruning jobs and the keys these have still to delete, and, for the statements only, the keys
  and times of the commits since the process started.
\<close>

record idem_state =
  ip_clock :: time
  ip_store :: idem_store
  ip_backing :: idem_backing
  ip_running :: "string list"
  ip_cutoffs :: "time list"
  ip_deletes :: "string list"
  ip_commits :: "(string \<times> time) list"

inductive idem_step :: "idem_opts \<Rightarrow> idem_state \<Rightarrow> idem_state \<Rightarrow> bool" for opts where
  idem_tick: "ip_clock p \<le> t \<Longrightarrow> idem_step opts p (p\<lparr> ip_clock := t \<rparr>)"
| idem_refused: "once_begin opts (ip_clock p) key (ip_backing p) (ip_store p) = (r, s) \<Longrightarrow> r \<noteq> Runs \<Longrightarrow>
     idem_step opts p (p\<lparr> ip_store := s \<rparr>)"
| idem_runs: "once_begin opts (ip_clock p) key (ip_backing p) (ip_store p) = (Runs, s) \<Longrightarrow>
     idem_step opts p (p\<lparr> ip_store := s, ip_running := key # ip_running p \<rparr>)"
| idem_commits: "key \<in> set (ip_running p) \<Longrightarrow>
     once_commit opts (ip_clock p) key (ip_backing p) (ip_store p) = (c, b, s) \<Longrightarrow>
     idem_step opts p (p\<lparr> ip_store := s, ip_backing := b, ip_running := filter (\<lambda>k. k \<noteq> key) (ip_running p),
       ip_cutoffs := (case c of None \<Rightarrow> ip_cutoffs p | Some x \<Rightarrow> x # ip_cutoffs p),
       ip_commits := (key, ip_clock p) # ip_commits p \<rparr>)"
| idem_fails: "key \<in> set (ip_running p) \<Longrightarrow>
     idem_step opts p (p\<lparr> ip_store := once_fail key (ip_store p), ip_running := filter (\<lambda>k. k \<noteq> key) (ip_running p) \<rparr>)"
| idem_prunes: "cutoff \<in> set (ip_cutoffs p) \<Longrightarrow>
     idem_step opts p (p\<lparr> ip_deletes := ip_deletes p @ rows_to_prune cutoff (ip_backing p) \<rparr>)"
| idem_deletes: "key \<in> set (ip_deletes p) \<Longrightarrow>
     idem_step opts p (p\<lparr> ip_backing := map_option (mm_delete key) (ip_backing p) \<rparr>)"
| idem_restarts: "ip_backing p \<noteq> None \<Longrightarrow>
     idem_step opts p (p\<lparr> ip_store := createIdempotencyStore (ip_clock p), ip_running := [], ip_cutoffs := [],
       ip_deletes := [], ip_commits := [] \<rparr>)"

definition idem_init :: "idem_state \<Rightarrow> bool" where
  "idem_init p \<longleftrightarrow> ip_store p = createIdempotencyStore (ip_clock p) \<and> (ip_backing p = None \<or> ip_backing p = Some mm_empty) \<and>
     ip_running p = [] \<and> ip_cutoffs p = [] \<and> ip_deletes p = [] \<and> ip_commits p = []"

section \<open>Invariant\<close>

definition rows_keyed :: "idem_backing \<Rightarrow> bool" where
  "rows_keyed backing \<longleftrightarrow> (\<forall>m. backing = Some m \<longrightarrow> mm_invar m \<and> (\<forall>k r. mm_get m k = Some r \<longrightarrow> ir_key r = k))"

definition idem_inv :: "idem_opts \<Rightarrow> idem_state \<Rightarrow> bool" where
  "idem_inv opts p \<longleftrightarrow> rows_keyed (ip_backing p) \<and> distinct (ip_running p) \<and>
     set (ip_running p) = set (is_inflight (ip_store p)) \<and>
     (\<forall>(k, at) \<in> set (ip_commits p). at \<le> ip_clock p \<and>
        (ip_clock p - io_retentionMs opts \<le> at \<longrightarrow>
           k \<notin> set (ip_running p) \<and> (\<exists>at'. map_of (is_done (ip_store p)) k = Some at' \<and> at \<le> at')))"

lemma rows_keyed_ops:
  "rows_keyed backing \<Longrightarrow> rows_keyed (map_option (mm_delete key) backing)"
  "rows_keyed backing \<Longrightarrow> rows_keyed (map_option (mm_put key \<lparr> ir_key = key, ir_at = at \<rparr>) backing)"
  by (auto simp: rows_keyed_def mem.invar_put mem.invar_del mem.get_put mem.get_del split: if_splits)

lemma isCommitted_cases:
  assumes "isCommitted opts now key backing s = (b, s1)" "rows_keyed backing"
  shows "is_inflight s1 = is_inflight s"
    "map_of (is_done s1) = map_of (is_done s) \<or>
     (\<exists>at. map_of (is_done s1) = (map_of (is_done s))(key \<mapsto> at) \<and> b \<and>
        (\<forall>x. map_of (is_done s) key = Some x \<longrightarrow> x < now - io_retentionMs opts))"
    "map_of (is_done s) key = Some x \<Longrightarrow> now - io_retentionMs opts \<le> x \<Longrightarrow> b"
  using assms by (auto simp: isCommitted_def rows_keyed_def Let_def split: if_splits option.splits bind_splits)

lemma once_begin_cases:
  assumes "once_begin opts now key backing s = (r, s1)" "rows_keyed backing"
  shows "set (is_inflight s1) = (if r = Runs then insert key (set (is_inflight s)) else set (is_inflight s))"
    "r = Runs \<Longrightarrow> key \<notin> set (is_inflight s)"
    "map_of (is_done s) k = Some x \<Longrightarrow> now - io_retentionMs opts \<le> x \<Longrightarrow>
       map_of (is_done s1) k = Some x \<and> (k = key \<longrightarrow> r \<noteq> Runs)"
  using assms isCommitted_cases [of opts now key backing s]
  by (auto simp: once_begin_def split: if_splits prod.splits bool.splits) 

lemma once_commit_cases:
  assumes "once_commit opts now key backing s = (c, b, s1)"
  shows "b = map_option (mm_put key \<lparr> ir_key = key, ir_at = now \<rparr>) backing"
    "set (is_inflight s1) = set (is_inflight s) - {key}"
    "0 \<le> io_retentionMs opts \<Longrightarrow> map_of (is_done s1) key = Some now"
    "map_of (is_done s) k = Some x \<Longrightarrow> now - io_retentionMs opts \<le> x \<Longrightarrow> k \<noteq> key \<Longrightarrow> map_of (is_done s1) k = Some x"
  using assms map_of_filter_value [of "jmap_set key now (is_done s)" k x "\<lambda>a. \<not> a < now - io_retentionMs opts"]
    map_of_filter_value [of "jmap_set key now (is_done s)" key now "\<lambda>a. \<not> a < now - io_retentionMs opts"]
  by (auto simp: once_commit_def pruneIfDue_def Let_def split: if_splits prod.splits)

lemma idem_inv_init: "idem_init p \<Longrightarrow> idem_inv opts p"
  by (auto simp: idem_init_def idem_inv_def rows_keyed_def createIdempotencyStore_def mem.invar_empty mem.get_empty)

lemma idem_inv_begin:
  assumes inv: "idem_inv opts p" and o: "once_begin opts (ip_clock p) key (ip_backing p) (ip_store p) = (r, s)"
  shows "idem_inv opts (p\<lparr> ip_store := s, ip_running := (if r = Runs then key # ip_running p else ip_running p) \<rparr>)"
proof -
  have keyed: "rows_keyed (ip_backing p)" using inv by (simp add: idem_inv_def)
  note b = once_begin_cases [OF o keyed]
  have "k \<notin> set (if r = Runs then key # ip_running p else ip_running p) \<and> (\<exists>at'. map_of (is_done s) k = Some at' \<and> at \<le> at')"
    if "(k, at) \<in> set (ip_commits p)" "ip_clock p - io_retentionMs opts \<le> at" for k at
  proof -
    from inv that obtain at' where "k \<notin> set (ip_running p)" "map_of (is_done (ip_store p)) k = Some at'" "at \<le> at'"
      unfolding idem_inv_def by fastforce
    with b(3) [of k at'] that(2) show ?thesis by auto
  qed
  with inv b(1,2) show ?thesis by (fastforce simp: idem_inv_def)
qed

lemma idem_inv_commit:
  assumes inv: "idem_inv opts p" and o: "once_commit opts (ip_clock p) key (ip_backing p) (ip_store p) = (c, b, s)"
  shows "idem_inv opts (p\<lparr> ip_store := s, ip_backing := b, ip_running := filter (\<lambda>k. k \<noteq> key) (ip_running p),
    ip_cutoffs := cs, ip_commits := (key, ip_clock p) # ip_commits p \<rparr>)"
proof -
  note b = once_commit_cases [OF o]
  have "\<exists>at'. map_of (is_done s) k = Some at' \<and> at \<le> at'"
    if "(k, at) \<in> set (ip_commits p)" "ip_clock p - io_retentionMs opts \<le> at" for k at
  proof (cases "k = key")
    case True
    have "at \<le> ip_clock p" using inv that(1) unfolding idem_inv_def by fastforce
    with that(2) b(3) True show ?thesis by auto
  next
    case False
    from inv that obtain at' where "map_of (is_done (ip_store p)) k = Some at'" "at \<le> at'"
      unfolding idem_inv_def by fastforce
    with b(4) [of k at'] that(2) False show ?thesis by auto
  qed
  with inv b(1,2,3) show ?thesis by (fastforce simp: idem_inv_def rows_keyed_ops)
qed

lemma idem_inv_step: "idem_step opts p q \<Longrightarrow> idem_inv opts p \<Longrightarrow> idem_inv opts q"
proof (induction rule: idem_step.induct)
  case (idem_tick p t)
  then show ?case by (fastforce simp: idem_inv_def)
next
  case (idem_refused p key r s)
  from idem_inv_begin [OF idem_refused(3,1)] idem_refused(2) show ?case by simp
next
  case (idem_runs p key s)
  from idem_inv_begin [OF idem_runs(2,1)] show ?case by simp
next
  case (idem_commits key p c b s)
  from idem_inv_commit [OF idem_commits(3,2)] show ?case .
next
  case (idem_deletes key p)
  then show ?case by (auto simp: idem_inv_def rows_keyed_ops)
qed (fastforce simp: idem_inv_def once_fail_def createIdempotencyStore_def)+

interpretation idem_machine: invariant_machine idem_init "idem_step opts" "idem_inv opts" for opts
  by unfold_locales (auto intro: idem_inv_init idem_inv_step)


section \<open>A pruning job that is overtaken\<close>

definition race_opts :: idem_opts where
  "race_opts = \<lparr> io_retentionMs = 10, io_pruneIntervalMs = 15 \<rparr>"

definition race_start :: idem_state where
  "race_start = \<lparr> ip_clock = 0, ip_store = createIdempotencyStore 0, ip_backing = Some mm_empty, ip_running = [],
     ip_cutoffs = [], ip_deletes = [], ip_commits = [] \<rparr>"

definition run_job :: "string \<Rightarrow> time \<Rightarrow> idem_state \<Rightarrow> idem_state" where
  "run_job key t p =
     (case once_begin race_opts t key (ip_backing p) (ip_store p) of (_, s1) \<Rightarrow>
        case once_commit race_opts t key (ip_backing p) s1 of (c, b, s2) \<Rightarrow>
          p\<lparr> ip_clock := t, ip_store := s2, ip_backing := b,
             ip_running := filter (\<lambda>k. k \<noteq> key) (key # ip_running p),
             ip_cutoffs := (case c of None \<Rightarrow> ip_cutoffs p | Some x \<Rightarrow> x # ip_cutoffs p),
             ip_commits := (key, t) # ip_commits p \<rparr>)"

lemma run_job_steps:
  assumes "ip_clock p \<le> t" "fst (once_begin race_opts t key (ip_backing p) (ip_store p)) = Runs"
  shows "(idem_step race_opts)\<^sup>*\<^sup>* p (run_job key t p)"
proof -
  obtain s1 where s1: "once_begin race_opts t key (ip_backing p) (ip_store p) = (Runs, s1)"
    using assms(2) by (metis prod.collapse)
  obtain c b s2 where s2: "once_commit race_opts t key (ip_backing p) s1 = (c, b, s2)"
    by (cases "once_commit race_opts t key (ip_backing p) s1") auto
  let ?p1 = "p\<lparr> ip_clock := t \<rparr>"
  let ?p2 = "?p1\<lparr> ip_store := s1, ip_running := key # ip_running ?p1 \<rparr>"
  have "idem_step race_opts p ?p1" by (rule idem_tick [OF assms(1)])
  moreover have "idem_step race_opts ?p1 ?p2" by (rule idem_runs) (simp add: s1)
  moreover have "idem_step race_opts ?p2 (run_job key t p)"
    using idem_commits [where p = ?p2 and key = key and opts = race_opts and c = c and b = b and s = s2] s1 s2
    by (cases c) (simp_all add: run_job_def)
  ultimately show ?thesis by (meson rtranclp.rtrancl_into_rtrancl r_into_rtranclp)
qed

definition race_read :: idem_state where
  "race_read =
     (let p = run_job ''j'' 20 (run_job ''k'' 0 race_start)
      in p\<lparr> ip_deletes := ip_deletes p @ rows_to_prune 10 (ip_backing p) \<rparr>)"

definition race_deleted :: idem_state where
  "race_deleted =
     (let p = run_job ''k'' 21 race_read in p\<lparr> ip_backing := map_option (mm_delete ''k'') (ip_backing p) \<rparr>)"

lemma race_read_steps: "(idem_step race_opts)\<^sup>*\<^sup>* race_start race_read"
proof -
  let ?p1 = "run_job ''k'' 0 race_start" and ?p2 = "run_job ''j'' 20 (run_job ''k'' 0 race_start)"
  have "fst (once_begin race_opts 0 ''k'' (ip_backing race_start) (ip_store race_start)) = Runs" "ip_clock race_start \<le> 0"
    "fst (once_begin race_opts 20 ''j'' (ip_backing ?p1) (ip_store ?p1)) = Runs" "ip_clock ?p1 \<le> 20"
    "10 \<in> set (ip_cutoffs ?p2)"
    by code_simp+
  then have "(idem_step race_opts)\<^sup>*\<^sup>* race_start ?p2" "idem_step race_opts ?p2 race_read"
    using run_job_steps [of race_start 0 "''k''"] run_job_steps [of ?p1 20 "''j''"] idem_prunes [of 10 ?p2]
    by (auto simp: race_read_def Let_def)
  then show ?thesis by (rule rtranclp.rtrancl_into_rtrancl)
qed

lemma race_deleted_steps: "(idem_step race_opts)\<^sup>*\<^sup>* race_read race_deleted"
proof -
  let ?p = "run_job ''k'' 21 race_read"
  have "fst (once_begin race_opts 21 ''k'' (ip_backing race_read) (ip_store race_read)) = Runs" "ip_clock race_read \<le> 21"
    "''k'' \<in> set (ip_deletes ?p)"
    by code_simp+
  then have "(idem_step race_opts)\<^sup>*\<^sup>* race_read ?p" "idem_step race_opts ?p race_deleted"
    using run_job_steps [of race_read 21 "''k''"] idem_deletes [of "''k''" ?p race_opts]
    by (auto simp: race_deleted_def Let_def)
  then show ?thesis by (rule rtranclp.rtrancl_into_rtrancl)
qed


text \<open>
  Pruning can lose a commit: the pruning job deletes by key the rows it read, so when the job of an
  expired key is run again and commits in between, the fresh row is deleted, and after a restart the job
  runs a second time one moment after it was committed.
\<close>

theorem stale_prune_loses_commit:
  "(idem_step race_opts)\<^sup>*\<^sup>* race_start race_deleted \<and> (''k'', 21) \<in> set (ip_commits race_deleted) \<and>
   (\<exists>p. idem_step race_opts race_deleted p \<and> ip_clock p \<le> 21 + io_retentionMs race_opts \<and>
      fst (once_begin race_opts (ip_clock p) ''k'' (ip_backing p) (ip_store p)) = Runs)"
proof (intro conjI exI)
  let ?p = "race_deleted\<lparr> ip_store := createIdempotencyStore (ip_clock race_deleted), ip_running := [], ip_cutoffs := [],
       ip_deletes := [], ip_commits := [] \<rparr>"
  show "(idem_step race_opts)\<^sup>*\<^sup>* race_start race_deleted"
    by (rule rtranclp_trans [OF race_read_steps race_deleted_steps])
  show "(''k'', 21) \<in> set (ip_commits race_deleted)" by code_simp
  have "ip_backing race_deleted \<noteq> None" by code_simp
  then show "idem_step race_opts race_deleted ?p" by (rule idem_restarts)
  show "ip_clock ?p \<le> 21 + io_retentionMs race_opts"
    "fst (once_begin race_opts (ip_clock ?p) ''k'' (ip_backing ?p) (ip_store ?p)) = Runs"
    by code_simp+
qed

end
