(* ===== verification/Triggers.thy ===== *)
theory Triggers
  imports Reach Identity Idempotency
begin

text \<open>
  Automations (\<open>src/triggers/trigger-store.ts\<close>, \<open>src/triggers/run-trigger.ts\<close>): who a trigger acts as,
  whether its recipient agreed, and one firing of it, from the check of its owner to the delivery of its
  reply. The turn itself (\<open>run\<close>) and the members of a scope (\<open>currentScopeMembers\<close>) are parameters; a
  rejected promise is an error of the firing. Dashes of the notes that are outside the alphabet are
  written as \<open>~\<close>.
\<close>

section \<open>Triggers\<close>

datatype consent_status = ConsentPending | ConsentAccepted | ConsentDeclined

record recipient_consent =
  rc_recipientId :: string
  rc_status :: consent_status
  rc_decidedAt :: "time option"

record create_trigger_input =
  ct_ownerScopeId :: scope_id
  ct_owner :: string
  ct_createdBy :: string
  ct_destination :: "destination option"
  ct_ownerConsentedAt :: "time option"
  ct_recipientConsent :: "recipient_consent option"

record trigger_base =
  tb_id :: string
  tb_ownerScopeId :: scope_id
  tb_owner :: string
  tb_createdBy :: string
  tb_ownerConsentedAt :: "time option"
  tb_destination :: "destination option"
  tb_enabled :: bool
  tb_createdAt :: time
  tb_lastFiredAt :: "time option"
  tb_recipientConsent :: "recipient_consent option"

definition consentRequiredRecipient :: "string \<Rightarrow> bool \<Rightarrow> destination option \<Rightarrow> string option" where
  "consentRequiredRecipient owner standing dest =
     (if \<not> standing then None
      else
        case dest of
          None \<Rightarrow> None
        | Some d \<Rightarrow>
            if ds_type d = ''principal'' \<and> \<not> samePerson (Some (ds_target d)) (Some owner) then Some (ds_target d) else None)"

definition recipientConsentSatisfied :: "recipient_consent option \<Rightarrow> string option \<Rightarrow> bool" where
  "recipientConsentSatisfied consent requiredRecipient \<longleftrightarrow>
     (if \<not> truthy requiredRecipient
      then (case consent of None \<Rightarrow> True | Some c \<Rightarrow> rc_status c = ConsentAccepted)
      else (case consent of
              None \<Rightarrow> False
            | Some c \<Rightarrow> rc_status c = ConsentAccepted \<and> samePerson (Some (rc_recipientId c)) requiredRecipient))"

datatype consent_error = NoConsent | NotRecipient

definition decideRecipientConsent ::
  "recipient_consent option \<Rightarrow> string \<Rightarrow> bool \<Rightarrow> time \<Rightarrow> consent_error + recipient_consent" where
  "decideRecipientConsent current actorId accept now =
     (case current of
        None \<Rightarrow> Inl NoConsent
      | Some c \<Rightarrow>
          if \<not> samePerson (Some (rc_recipientId c)) (Some actorId) then Inl NotRecipient
          else Inr (c\<lparr> rc_status := (if accept then ConsentAccepted else ConsentDeclined), rc_decidedAt := Some now \<rparr>))"

text \<open>A time of consent counts when it is there and not zero.\<close>

definition truthy_time :: "time option \<Rightarrow> bool" where
  "truthy_time t \<longleftrightarrow> (case t of None \<Rightarrow> False | Some n \<Rightarrow> n \<noteq> 0)"

definition assertNoEscalation :: "string \<Rightarrow> string \<Rightarrow> time option \<Rightarrow> bool" where
  "assertNoEscalation owner createdBy ownerConsentedAt \<longleftrightarrow>
     samePerson (Some owner) (Some createdBy) \<or> truthy_time ownerConsentedAt"

definition buildTriggerBase :: "create_trigger_input \<Rightarrow> string \<Rightarrow> time \<Rightarrow> trigger_base" where
  "buildTriggerBase input i createdAt =
     \<lparr> tb_id = i, tb_ownerScopeId = ct_ownerScopeId input, tb_owner = ct_owner input, tb_createdBy = ct_createdBy input,
       tb_ownerConsentedAt = (if truthy_time (ct_ownerConsentedAt input) then ct_ownerConsentedAt input else None),
       tb_destination = ct_destination input, tb_enabled = True, tb_createdAt = createdAt, tb_lastFiredAt = None,
       tb_recipientConsent = ct_recipientConsent input \<rparr>"

section \<open>One firing\<close>

datatype run_as = RunAsOwner | RunAsScopeFloor | RunAsScopeShared

record trigger_spec =
  sp_owner :: string
  sp_ownerScopeId :: scope_id
  sp_input :: string
  sp_securityScreenData :: "string option"
  sp_fireKey :: string
  sp_surface :: string
  sp_destination :: "destination option"
  sp_message :: "string option"
  sp_threadRef :: "string option"
  sp_runAs :: "run_as option"
  sp_members :: "principal list option"
  sp_recipientConsent :: "recipient_consent option"
  sp_recipientConsentRequired :: bool
  sp_shadow :: bool
  sp_thinkingLevel :: "string option"
  sp_readOnly :: bool
  sp_turnWallClockMs :: "int option"
  sp_errorNotice :: "(string \<Rightarrow> string) option"

record trigger_outcome =
  to_authzFailed :: bool
  to_ran :: bool
  to_status :: "turn_status option"
  to_note :: "string option"
  to_reply :: "string option"
  to_sessionId :: "string option"

record trigger_conversation =
  tc_kind :: conversation_kind
  tc_channelRef :: "string option"
  tc_threadRef :: string
  tc_audience :: "(string \<times> string list option) list option"

record trigger_request =
  rq_surface :: string
  rq_actor :: string
  rq_conversation :: trigger_conversation
  rq_text :: string
  rq_securityScreenData :: "string option"
  rq_thinkingLevel :: "string option"
  rq_fastMode :: "bool option"
  rq_readOnly :: bool
  rq_turnWallClockMs :: "int option"
  rq_triggerDestination :: "destination option"
  rq_surfaceTools :: bool
  rq_ownerKeychainUnion :: bool
  rq_idempotencyKey :: string

record 'e trigger_deps =
  td_run :: "trigger_request \<Rightarrow> ('e, turn_result) promise"
  td_currentScopeMembers :: "scope_id \<Rightarrow> ('e, principal list option) promise"
  td_directory :: "directory_store option"
  td_idem :: idem_opts

text \<open>The state a firing reads and writes, with the turns it has asked for.\<close>

record trigger_world =
  tw_identity :: identity_service
  tw_store :: idem_store
  tw_backing :: idem_backing
  tw_deliveries :: delivery_store
  tw_requests :: "trigger_request list"

definition isTriggerFailure :: "trigger_outcome \<Rightarrow> bool" where
  "isTriggerFailure out \<longleftrightarrow> to_ran out \<and> (case to_status out of None \<Rightarrow> False | Some s \<Rightarrow> s \<noteq> TSOk \<and> s \<noteq> TSSilent)"

definition SILENT_POLL_MARKERS :: "string list" where
  "SILENT_POLL_MARKERS = [''[no-update]'', ''no_reply'', ''[silent]'']"

definition isPollSurface :: "string \<Rightarrow> bool" where
  "isPollSurface surface \<longleftrightarrow> surface \<in> {''cron'', ''monitor''}"

text \<open>Lines ended by a newline that may have a carriage return before it.\<close>

definition js_lines :: "string \<Rightarrow> string list" where
  "js_lines s =
     (let ls = js_split (CHR 0x0A) s
      in map (\<lambda>l. if l \<noteq> [] \<and> last l = CHR 0x0D then butlast l else l) (butlast ls) @ [last ls])"

definition isSilentPollReply :: "string \<Rightarrow> bool" where
  "isSilentPollReply reply \<longleftrightarrow>
     (case js_find_last (\<lambda>l. js_trim l \<noteq> []) (js_lines (js_trimEnd reply)) of
        None \<Rightarrow> True
      | Some l \<Rightarrow> js_lower (js_trim l) \<in> set SILENT_POLL_MARKERS)"

definition deliveryProvenance :: "trigger_spec \<Rightarrow> string \<Rightarrow> turn_result option \<Rightarrow> provenance" where
  "deliveryProvenance spec threadRef res =
     \<lparr> pv_trigger = sp_surface spec, pv_surface = sp_surface spec, pv_fireKey = sp_fireKey spec,
       pv_sourceScopeId = sp_ownerScopeId spec, pv_sourceThreadRef = threadRef,
       pv_sourceSessionId = if_truthy (Option.bind res tr_sessionId),
       pv_sourceUserSeq = Option.bind res tr_sourceUserSeq,
       pv_sourceAssistantEntrySeq = Option.bind res tr_sourceAssistantEntrySeq \<rparr>"

definition relayAttribution :: "directory_store option \<Rightarrow> trigger_spec \<Rightarrow> string option" where
  "relayAttribution dir spec =
     (if sp_message spec = None then None
      else case dir of None \<Rightarrow> None | Some d \<Rightarrow> map_option dm_displayName (get_member d (sp_owner spec)))"

definition actorMayReadScope :: "directory_store option \<Rightarrow> string \<Rightarrow> scope_kind option \<Rightarrow> string \<Rightarrow> bool" where
  "actorMayReadScope dir actorId kind ref \<longleftrightarrow>
     ref \<noteq> [] \<and>
     (if kind = Some Personal then samePerson (Some actorId) (Some ref)
      else
        case dir of
          None \<Rightarrow> kind \<noteq> Some Group \<and> kind \<noteq> Some Channel
        | Some d \<Rightarrow>
            if kind = Some Group then isVisible d actorId (VGroup ref)
            else if kind \<noteq> Some Channel then True
            else (case channelPrivacy d ref of None \<Rightarrow> False | Some p \<Rightarrow> isVisible d actorId (VChannel ref (Some p))))"

definition destinationVisible :: "directory_store option \<Rightarrow> string \<Rightarrow> destination \<Rightarrow> bool" where
  "destinationVisible dir actorId dest \<longleftrightarrow>
     (case dir of
        None \<Rightarrow> True
      | Some d \<Rightarrow>
          let i = hd (js_split (CHR '':'') (ds_target dest))
          in if ds_type dest = ''slack''
             then (case (if truthy (ds_audienceScopeId dest) then parseScopeId (the (ds_audienceScopeId dest)) else (None, [])) of
                     (Some Personal, ref) \<Rightarrow> isVisible d actorId (VDm ref)
                   | (Some Group, _) \<Rightarrow> isVisible d actorId (VGroup i)
                   | _ \<Rightarrow> isVisible d actorId (VChannel i None))
             else if ds_type dest = ''group'' then isVisible d actorId (VGroup i)
             else True)"

text \<open>Who the trigger acts as, or why it may not act.\<close>

definition trigger_actor :: "identity_service \<Rightarrow> principal list option \<Rightarrow> trigger_spec \<Rightarrow> string + string" where
  "trigger_actor identity currentMembers spec =
     (let members = (case currentMembers of Some ms \<Rightarrow> ms | None \<Rightarrow> (case sp_members spec of Some ms \<Rightarrow> ms | None \<Rightarrow> []))
      in if sp_runAs spec = Some RunAsScopeFloor
         then
           let internal = filter (\<lambda>m. p_type m = Internal \<and> p_type (classify identity (p_id m) None) = Internal) members
           in if internal = [] then Inl ''scopeFloor cron has no internal members left''
              else if \<not> list_ex (\<lambda>m. samePerson (Some (p_id m)) (Some (sp_owner spec))) internal then Inr (p_id (hd internal))
              else Inr (sp_owner spec)
         else if p_type (classify identity (sp_owner spec) None) \<noteq> Internal
         then Inl ''owner is no longer an internal principal''
         else if sp_runAs spec = Some RunAsScopeShared \<and>
           (case currentMembers of
              None \<Rightarrow> False
            | Some ms \<Rightarrow> \<not> list_ex (\<lambda>m. samePerson (Some (p_id m)) (Some (sp_owner spec))) ms)
         then Inl ''scopeShared owner is no longer a current scope member''
         else Inr (sp_owner spec))"

definition trigger_conversation_of :: "trigger_spec \<Rightarrow> principal list \<Rightarrow> trigger_conversation" where
  "trigger_conversation_of spec members =
     (let threadRef = (case sp_threadRef spec of Some t \<Rightarrow> t | None \<Rightarrow> sp_fireKey spec);
          audience = (if sp_runAs spec \<in> {Some RunAsScopeFloor, Some RunAsScopeShared} \<and> members \<noteq> []
                      then Some (map (\<lambda>m. (p_id m, p_teamIds m)) members) else None)
      in case parseScopeId (sp_ownerScopeId spec) of
           (Some Channel, ref) \<Rightarrow> \<lparr> tc_kind = CChannel, tc_channelRef = Some ref, tc_threadRef = threadRef, tc_audience = audience \<rparr>
         | (Some Group, ref) \<Rightarrow> \<lparr> tc_kind = CGroup, tc_channelRef = Some ref, tc_threadRef = threadRef, tc_audience = audience \<rparr>
         | _ \<Rightarrow> \<lparr> tc_kind = CDm, tc_channelRef = None, tc_threadRef = threadRef, tc_audience = None \<rparr>)"

definition NON_INTERACTIVE_THINKING_LEVEL :: string where "NON_INTERACTIVE_THINKING_LEVEL = ''xhigh''"

definition turnModelOptions :: "bool \<Rightarrow> string option \<Rightarrow> bool option \<Rightarrow> string option \<times> bool option" where
  "turnModelOptions triggered thinkingLevel fastMode =
     (if_truthy (if \<not> truthy thinkingLevel \<and> triggered then Some NON_INTERACTIVE_THINKING_LEVEL else thinkingLevel),
      if fastMode = None \<and> triggered then Some False else fastMode)"

definition trigger_request_of :: "trigger_spec \<Rightarrow> string \<Rightarrow> principal list \<Rightarrow> bool \<Rightarrow> trigger_request" where
  "trigger_request_of spec actorId members liveDelivery =
     \<lparr> rq_surface = sp_surface spec, rq_actor = actorId, rq_conversation = trigger_conversation_of spec members,
       rq_text = sp_input spec, rq_securityScreenData = sp_securityScreenData spec,
       rq_thinkingLevel = fst (turnModelOptions True (if_truthy (sp_thinkingLevel spec)) None),
       rq_fastMode = snd (turnModelOptions True (if_truthy (sp_thinkingLevel spec)) None),
       rq_readOnly = sp_readOnly spec, rq_turnWallClockMs = sp_turnWallClockMs spec,
       rq_triggerDestination = sp_destination spec, rq_surfaceTools = liveDelivery,
       rq_ownerKeychainUnion = (sp_runAs spec = Some RunAsScopeShared), rq_idempotencyKey = sp_fireKey spec \<rparr>"

fun status_name :: "turn_status \<Rightarrow> string" where
  "status_name TSOk = ''ok''"
| "status_name TSRefused = ''refused''"
| "status_name TSFailed = ''failed''"
| "status_name TSPendingApproval = ''pending_approval''"
| "status_name TSQueued = ''queued''"
| "status_name TSSilent = ''silent''"
| "status_name TSReact = ''react''"

text \<open>What the job of a firing has found out: \<open>status\<close>, \<open>note\<close>, \<open>reply\<close>, \<open>sessionId\<close>.\<close>

record firing =
  fi_status :: "turn_status option"
  fi_note :: "string option"
  fi_reply :: "string option"
  fi_sessionId :: "string option"

definition no_firing :: firing where
  "no_firing = \<lparr> fi_status = None, fi_note = None, fi_reply = None, fi_sessionId = None \<rparr>"

text \<open>What is settled before the job starts: the actor, the consent, whether the destination is visible.\<close>

record trigger_plan =
  pl_actorId :: string
  pl_currentMembers :: "principal list option"
  pl_members :: "principal list"
  pl_consented :: bool
  pl_deliverable :: bool
  pl_threadRef :: string

definition consent_note :: "trigger_spec \<Rightarrow> string" where
  "consent_note spec =
     (if (case sp_recipientConsent spec of Some c \<Rightarrow> rc_status c = ConsentDeclined | None \<Rightarrow> False)
      then ''recipient turned this delivery off ~ skipped'' else ''awaiting the recipient's consent ~ delivery skipped'')"

definition not_visible_note :: string where
  "not_visible_note = ''destination is no longer visible to the cron owner ~ delivery skipped''"

definition pl_liveDelivery :: "trigger_spec \<Rightarrow> trigger_plan \<Rightarrow> bool" where
  "pl_liveDelivery spec p \<longleftrightarrow>
     sp_surface spec = ''monitor'' \<and> sp_destination spec \<noteq> None \<and> pl_consented p \<and> pl_deliverable p"

definition plan_trigger :: "'e trigger_deps \<Rightarrow> trigger_spec \<Rightarrow> principal list option \<Rightarrow> string \<Rightarrow> trigger_plan" where
  "plan_trigger deps spec currentMembers actorId =
     \<lparr> pl_actorId = actorId, pl_currentMembers = currentMembers,
       pl_members = (case currentMembers of Some ms \<Rightarrow> ms | None \<Rightarrow> (case sp_members spec of Some ms \<Rightarrow> ms | None \<Rightarrow> [])),
       pl_consented = recipientConsentSatisfied (sp_recipientConsent spec)
         (consentRequiredRecipient (sp_owner spec) (sp_recipientConsentRequired spec) (sp_destination spec)),
       pl_deliverable = (case sp_destination spec of None \<Rightarrow> True | Some d \<Rightarrow> destinationVisible (td_directory deps) actorId d),
       pl_threadRef = (case sp_threadRef spec of Some t \<Rightarrow> t | None \<Rightarrow> sp_fireKey spec) \<rparr>"

definition can_read_home :: "'e trigger_deps \<Rightarrow> trigger_spec \<Rightarrow> trigger_plan \<Rightarrow> bool" where
  "can_read_home deps spec p \<longleftrightarrow>
     (case pl_currentMembers p of
        None \<Rightarrow> td_directory deps = None \<or>
          (case parseScopeId (sp_ownerScopeId spec) of (kind, ref) \<Rightarrow> actorMayReadScope (td_directory deps) (pl_actorId p) kind ref)
      | Some ms \<Rightarrow> list_ex (\<lambda>m. samePerson (Some (p_id m)) (Some (pl_actorId p))) ms)"

text \<open>Sending a text to the destination, unless consent or visibility is missing.\<close>

definition send_or_note ::
  "string \<Rightarrow> time \<Rightarrow> trigger_spec \<Rightarrow> trigger_plan \<Rightarrow> (destination \<Rightarrow> reach_input) \<Rightarrow> firing \<Rightarrow> delivery_store \<Rightarrow> firing \<times> delivery_store" where
  "send_or_note newId now spec p msg f s =
     (case sp_destination spec of
        None \<Rightarrow> (f, s)
      | Some d \<Rightarrow>
          if \<not> pl_consented p then (f\<lparr> fi_note := Some (consent_note spec) \<rparr>, s)
          else if \<not> pl_deliverable p then (f\<lparr> fi_note := Some not_visible_note \<rparr>, s)
          else (f, snd (reachEnqueue newId now (msg d) s)))"

definition relay_message :: "'e trigger_deps \<Rightarrow> trigger_spec \<Rightarrow> trigger_plan \<Rightarrow> string \<Rightarrow> destination \<Rightarrow> reach_input" where
  "relay_message deps spec p m d =
     \<lparr> ri_destination = d, ri_text = m, ri_attachments = [], ri_idempotencyKey = sp_fireKey spec,
       ri_provenance = Some (deliveryProvenance spec (pl_threadRef p) None),
       ri_attributeAs = if_truthy (relayAttribution (td_directory deps) spec), ri_shadow = sp_shadow spec \<rparr>"

definition reply_message :: "trigger_spec \<Rightarrow> trigger_plan \<Rightarrow> turn_result \<Rightarrow> destination \<Rightarrow> reach_input" where
  "reply_message spec p res d =
     \<lparr> ri_destination = d, ri_text = (case tr_reply res of Some t \<Rightarrow> t | None \<Rightarrow> []),
       ri_attachments = (case tr_attachments res of Some as \<Rightarrow> as | None \<Rightarrow> []), ri_idempotencyKey = sp_fireKey spec,
       ri_provenance = Some (deliveryProvenance spec (pl_threadRef p) (Some res)),
       ri_attributeAs = None, ri_shadow = sp_shadow spec \<rparr>"

definition after_turn ::
  "string \<Rightarrow> time \<Rightarrow> trigger_spec \<Rightarrow> trigger_plan \<Rightarrow> turn_result \<Rightarrow> delivery_store \<Rightarrow> firing \<times> delivery_store" where
  "after_turn newId now spec p res s =
     (let f = \<lparr> fi_status = Some (tr_status res), fi_note = None, fi_reply = tr_reply res, fi_sessionId = tr_sessionId res \<rparr>
      in if tr_status res = TSSilent then (f, s)
         else if tr_status res = TSPendingApproval
         then (f\<lparr> fi_note := Some ''hit a require_approval command ~ failed closed (no human at fire/event time)'' \<rparr>, s)
         else if tr_status res = TSOk \<and> (truthy (tr_reply res) \<or> has_attachments (Some res))
         then (if sp_destination spec = None \<or> pl_liveDelivery spec p then (f, s)
               else send_or_note newId now spec p (reply_message spec p res) f s)
         else if tr_status res = TSOk then (f\<lparr> fi_note := Some ''produced no reply'' \<rparr>, s)
         else (f\<lparr> fi_note := Some (if truthy (tr_reason res) then status_name (tr_status res) @ '': '' @ the (tr_reason res)
                                    else status_name (tr_status res)) \<rparr>, s))"

text \<open>The job: relay a fixed message, or run a turn; the second part are the turns it asked for.\<close>

definition trigger_job ::
  "'e trigger_deps \<Rightarrow> string \<Rightarrow> time \<Rightarrow> trigger_spec \<Rightarrow> trigger_plan \<Rightarrow> delivery_store \<Rightarrow>
     ('e, firing) promise \<times> trigger_request list \<times> delivery_store" where
  "trigger_job deps newId now spec p s =
     (case sp_message spec of
        Some m \<Rightarrow>
          (case send_or_note newId now spec p (relay_message deps spec p m) (no_firing\<lparr> fi_status := Some TSOk \<rparr>) s of
             (f, s1) \<Rightarrow> (Resolved f, [], s1))
      | None \<Rightarrow>
          if \<not> can_read_home deps spec p
          then (Resolved (no_firing\<lparr> fi_note := Some ''the acting person is no longer a member of this trigger's home scope ~ run skipped'' \<rparr>), [], s)
          else
            let rq = trigger_request_of spec (pl_actorId p) (pl_members p) (pl_liveDelivery spec p)
            in case td_run deps rq of
                 Rejected e \<Rightarrow> (Rejected e, [rq], s)
               | Resolved res \<Rightarrow> (case after_turn newId now spec p res s of (f, s1) \<Rightarrow> (Resolved f, [rq], s1)))"

definition trigger_outcome_of :: "bool \<Rightarrow> firing \<Rightarrow> trigger_outcome" where
  "trigger_outcome_of didRun f =
     \<lparr> to_authzFailed = False, to_ran = didRun, to_status = fi_status f, to_note = if_truthy (fi_note f), to_reply = fi_reply f,
       to_sessionId = if_truthy (fi_sessionId f) \<rparr>"

definition error_notice ::
  "string \<Rightarrow> time \<Rightarrow> trigger_spec \<Rightarrow> trigger_plan \<Rightarrow> trigger_outcome \<Rightarrow> firing \<Rightarrow> delivery_store \<Rightarrow> delivery_store" where
  "error_notice newId now spec p out f s =
     (case (sp_errorNotice spec, sp_destination spec) of
        (Some notice, Some d) \<Rightarrow>
          if pl_consented p \<and> pl_deliverable p \<and> isTriggerFailure out
          then snd (enqueue_delivery newId now
                 \<lparr> di_destination = d,
                   di_text = notice (case fi_note f of Some n \<Rightarrow> n | None \<Rightarrow> status_name (the (fi_status f))),
                   di_attachments = [], di_provenance = Some (deliveryProvenance spec (pl_threadRef p) None),
                   di_idempotencyKey = sp_fireKey spec @ '':err'', di_shadow = sp_shadow spec \<rparr> s)
          else s
      | _ \<Rightarrow> s)"

text \<open>
  \<open>runTrigger\<close>: the identities are refreshed at \<open>t0\<close>, the job starts at \<open>t1\<close> and ends at \<open>t2\<close>; the ids of
  the deliveries it may make are \<open>i1\<close> and \<open>i2\<close>.
\<close>

definition runTrigger ::
  "'e trigger_deps \<Rightarrow> time \<Rightarrow> time \<Rightarrow> time \<Rightarrow> string \<Rightarrow> string \<Rightarrow> trigger_spec \<Rightarrow> trigger_world \<Rightarrow>
     ('e, trigger_outcome) promise \<times> trigger_world" where
  "runTrigger deps t0 t1 t2 i1 i2 spec w =
     (let identity = refresh_identity t0 (tw_identity w); w0 = w\<lparr> tw_identity := identity \<rparr>
      in case td_currentScopeMembers deps (sp_ownerScopeId spec) of
           Rejected e \<Rightarrow> (Rejected e, w0)
         | Resolved currentMembers \<Rightarrow>
             (case trigger_actor identity currentMembers spec of
                Inl n \<Rightarrow>
                  (Resolved \<lparr> to_authzFailed = True, to_ran = False, to_status = None, to_note = Some n, to_reply = None, to_sessionId = None \<rparr>, w0)
              | Inr actorId \<Rightarrow>
                  let p = plan_trigger deps spec currentMembers actorId
                  in case once_begin (td_idem deps) t1 (sp_fireKey spec) (tw_backing w0) (tw_store w0) of
                       (Runs, s1) \<Rightarrow>
                         (case trigger_job deps i1 t1 spec p (tw_deliveries w0) of
                            (Rejected e, rqs, ds) \<Rightarrow>
                              (Rejected e, w0\<lparr> tw_store := once_fail (sp_fireKey spec) s1, tw_deliveries := ds,
                                              tw_requests := tw_requests w0 @ rqs \<rparr>)
                          | (Resolved f, rqs, ds) \<Rightarrow>
                              (case once_commit (td_idem deps) t2 (sp_fireKey spec) (tw_backing w0) s1 of
                                 (_, b, s2) \<Rightarrow>
                                   let out = trigger_outcome_of True f
                                   in (Resolved out,
                                       w0\<lparr> tw_store := s2, tw_backing := b, tw_deliveries := error_notice i2 t2 spec p out f ds,
                                           tw_requests := tw_requests w0 @ rqs \<rparr>)))
                     | (_, s1) \<Rightarrow> (Resolved (trigger_outcome_of False no_firing), w0\<lparr> tw_store := s1 \<rparr>)))"

section \<open>Properties\<close>

definition is_member :: "principal \<Rightarrow> string \<Rightarrow> bool" where
  "is_member m a \<longleftrightarrow> p_id m = a \<or> samePerson (Some (p_id m)) (Some a)"

text \<open>Who may act: somebody internal, for a shared scope one of its members of the moment.\<close>

lemma classify_samePerson: "samePerson (Some a) (Some b) \<Longrightarrow> p_type (classify s a g) = p_type (classify s b g)"
  by (auto simp: samePerson_def classify_def Let_def)

lemma trigger_actor_internal:
  assumes "trigger_actor identity cm spec = Inr a"
  shows "p_type (classify identity a None) = Internal"
    "sp_runAs spec = Some RunAsScopeShared \<Longrightarrow> cm = Some ms \<Longrightarrow> \<exists>m \<in> set ms. is_member m a"
    "sp_runAs spec = Some RunAsScopeFloor \<Longrightarrow> cm = Some ms \<Longrightarrow> \<exists>m \<in> set ms. p_type m = Internal \<and> is_member m a"
    "sp_runAs spec \<noteq> Some RunAsScopeFloor \<Longrightarrow> a = sp_owner spec"
proof -
  let ?members = "case cm of Some ms \<Rightarrow> ms | None \<Rightarrow> (case sp_members spec of Some ms \<Rightarrow> ms | None \<Rightarrow> [])"
  let ?int = "filter (\<lambda>m. p_type m = Internal \<and> p_type (classify identity (p_id m) None) = Internal) ?members"
  have floor: "\<exists>m \<in> set ?int. is_member m a" if "sp_runAs spec = Some RunAsScopeFloor"
  proof -
    have ne: "?int \<noteq> []" and a: "a = p_id (hd ?int) \<or> (a = sp_owner spec \<and> list_ex (\<lambda>m. samePerson (Some (p_id m)) (Some (sp_owner spec))) ?int)"
      using assms that by (auto simp: trigger_actor_def Let_def split: if_splits)
    have "hd ?int \<in> set ?int" using ne by (rule hd_in_set)
    then show ?thesis using a unfolding is_member_def list_ex_iff by blast
  qed
  show "p_type (classify identity a None) = Internal"
  proof (cases "sp_runAs spec = Some RunAsScopeFloor")
    case True
    from floor [OF this] obtain m where "p_type (classify identity (p_id m) None) = Internal" "is_member m a" by auto
    then show ?thesis using classify_samePerson [of "p_id m" a] by (auto simp: is_member_def)
  next
    case False
    with assms show ?thesis by (auto simp: trigger_actor_def Let_def split: if_splits)
  qed
  show "sp_runAs spec = Some RunAsScopeShared \<Longrightarrow> cm = Some ms \<Longrightarrow> \<exists>m \<in> set ms. is_member m a"
    using assms by (auto simp: trigger_actor_def Let_def list_ex_iff is_member_def split: if_splits)
  show "sp_runAs spec = Some RunAsScopeFloor \<Longrightarrow> cm = Some ms \<Longrightarrow> \<exists>m \<in> set ms. p_type m = Internal \<and> is_member m a"
    using floor by auto
  show "sp_runAs spec \<noteq> Some RunAsScopeFloor \<Longrightarrow> a = sp_owner spec"
    using assms by (auto simp: trigger_actor_def Let_def split: if_splits)
qed

text \<open>Nothing is put in the outbox without consent and visibility, whatever the turn answered.\<close>

lemma send_or_note_changes:
  "snd (send_or_note i t spec p msg f s) \<noteq> s \<Longrightarrow> sp_destination spec \<noteq> None \<and> pl_consented p \<and> pl_deliverable p"
  by (auto simp: send_or_note_def split: option.splits if_splits)

lemma after_turn_changes:
  assumes "snd (after_turn i t spec p res s) \<noteq> s"
  shows "sp_destination spec \<noteq> None \<and> pl_consented p \<and> pl_deliverable p \<and> tr_status res = TSOk"
  using assms send_or_note_changes [of i t spec p "reply_message spec p res" _ s]
  by (auto simp: after_turn_def Let_def split: if_splits)

lemma trigger_job_effects:
  assumes "trigger_job deps i t spec p s = (r, rqs, s')"
  shows "s' \<noteq> s \<Longrightarrow> sp_destination spec \<noteq> None \<and> pl_consented p \<and> pl_deliverable p"
    "rqs \<noteq> [] \<Longrightarrow> rqs = [trigger_request_of spec (pl_actorId p) (pl_members p) (pl_liveDelivery spec p)] \<and>
       can_read_home deps spec p \<and> sp_message spec = None"
  using assms send_or_note_changes [of i t spec p "relay_message deps spec p (the (sp_message spec))" _ s]
    after_turn_changes [of i t spec p _ s]
  by (auto simp: trigger_job_def Let_def split: option.splits prod.splits if_splits promise.splits) (metis snd_conv)+

lemma error_notice_changes:
  "error_notice i t spec p out f s \<noteq> s \<Longrightarrow> sp_destination spec \<noteq> None \<and> pl_consented p \<and> pl_deliverable p"
  by (auto simp: error_notice_def split: option.splits if_splits)

definition firing_authorized :: "'e trigger_deps \<Rightarrow> trigger_spec \<Rightarrow> identity_service \<Rightarrow> principal list option \<Rightarrow> string \<Rightarrow> bool" where
  "firing_authorized deps spec identity cm a \<longleftrightarrow>
     p_type (classify identity a None) = Internal \<and>
     (sp_runAs spec \<noteq> Some RunAsScopeFloor \<longrightarrow> a = sp_owner spec) \<and>
     (\<forall>ms. cm = Some ms \<and> sp_runAs spec \<in> {Some RunAsScopeFloor, Some RunAsScopeShared} \<longrightarrow>
        (\<exists>m \<in> set ms. is_member m a))"

lemma runTrigger_cases:
  assumes "runTrigger deps t0 t1 t2 i1 i2 spec w = (r, w')"
    and "tw_requests w' \<noteq> tw_requests w \<or> tw_deliveries w' \<noteq> tw_deliveries w"
  obtains cm a s1 jr rqs ds where "td_currentScopeMembers deps (sp_ownerScopeId spec) = Resolved cm"
    "trigger_actor (refresh_identity t0 (tw_identity w)) cm spec = Inr a"
    "once_begin (td_idem deps) t1 (sp_fireKey spec) (tw_backing w) (tw_store w) = (Runs, s1)"
    "trigger_job deps i1 t1 spec (plan_trigger deps spec cm a) (tw_deliveries w) = (jr, rqs, ds)"
    "tw_requests w' = tw_requests w @ rqs"
    "tw_deliveries w' = ds \<or> (\<exists>out f. tw_deliveries w' = error_notice i2 t2 spec (plan_trigger deps spec cm a) out f ds)"
proof -
  from assms obtain cm a where ca: "td_currentScopeMembers deps (sp_ownerScopeId spec) = Resolved cm"
      "trigger_actor (refresh_identity t0 (tw_identity w)) cm spec = Inr a"
    by (auto simp: runTrigger_def Let_def split: promise.splits sum.splits)
  obtain o1 s1 where b: "once_begin (td_idem deps) t1 (sp_fireKey spec) (tw_backing w) (tw_store w) = (o1, s1)" by force
  have "o1 = Runs" using assms ca b by (cases o1) (auto simp: runTrigger_def Let_def)
  obtain jr rqs ds where j: "trigger_job deps i1 t1 spec (plan_trigger deps spec cm a) (tw_deliveries w) = (jr, rqs, ds)"
    by (cases "trigger_job deps i1 t1 spec (plan_trigger deps spec cm a) (tw_deliveries w)") auto
  show thesis
  proof (rule that [OF ca b [unfolded \<open>o1 = Runs\<close>] j])
    show "tw_requests w' = tw_requests w @ rqs"
      using assms(1) ca b \<open>o1 = Runs\<close> j by (auto simp: runTrigger_def Let_def split: promise.splits prod.splits)
    show "tw_deliveries w' = ds \<or> (\<exists>out f. tw_deliveries w' = error_notice i2 t2 spec (plan_trigger deps spec cm a) out f ds)"
      using assms(1) ca b \<open>o1 = Runs\<close> j by (auto simp: runTrigger_def Let_def split: promise.splits prod.splits) blast
  qed
qed

definition consent_given :: "trigger_spec \<Rightarrow> destination \<Rightarrow> bool" where
  "consent_given spec d \<longleftrightarrow>
     (sp_recipientConsentRequired spec \<and> ds_type d = ''principal'' \<and> ds_target d \<noteq> [] \<and>
        \<not> samePerson (Some (ds_target d)) (Some (sp_owner spec)) \<longrightarrow>
      (\<exists>c. sp_recipientConsent spec = Some c \<and> samePerson (Some (rc_recipientId c)) (Some (ds_target d)))) \<and>
     (\<forall>c. sp_recipientConsent spec = Some c \<longrightarrow> rc_status c = ConsentAccepted)"

lemma plan_consent:
  "sp_destination spec = Some d \<Longrightarrow> pl_consented (plan_trigger deps spec cm a) \<Longrightarrow> consent_given spec d"
  by (auto simp: plan_trigger_def recipientConsentSatisfied_def consentRequiredRecipient_def consent_given_def truthy_def
      split: if_splits option.splits)


section \<open>An example\<close>

definition demo_trigger :: trigger_spec where
  "demo_trigger =
     \<lparr> sp_owner = ''ann'', sp_ownerScopeId = ''personal:ann'', sp_input = ''report'', sp_securityScreenData = None,
       sp_fireKey = ''cron:c1:60'', sp_surface = ''cron'',
       sp_destination = Some ((destination_to ''slack'' ''C1'')\<lparr> ds_audienceScopeId := Some ''channel:C1'' \<rparr>),
       sp_message = None, sp_threadRef = None, sp_runAs = None, sp_members = None, sp_recipientConsent = None,
       sp_recipientConsentRequired = True, sp_shadow = False, sp_thinkingLevel = None, sp_readOnly = False,
       sp_turnWallClockMs = None, sp_errorNotice = None \<rparr>"

definition demo_ok :: turn_result where
  "demo_ok = (failed_result ''s'' '''')\<lparr> tr_status := TSOk, tr_reply := Some ''done'', tr_reason := None \<rparr>"

definition demo_trigger_deps :: "unit trigger_deps" where
  "demo_trigger_deps =
     \<lparr> td_run = \<lambda>_. Resolved demo_ok, td_currentScopeMembers = \<lambda>_. Resolved None, td_directory = Some demo_directory,
       td_idem = race_opts \<rparr>"

definition demo_world :: trigger_world where
  "demo_world =
     \<lparr> tw_identity = createIdentityService [], tw_store = createIdempotencyStore 0, tw_backing = Some [],
       tw_deliveries = createDeliveryStore, tw_requests = [] \<rparr>"

definition demo_fired :: trigger_world where
  "demo_fired = snd (runTrigger demo_trigger_deps 1 1 2 ''d1'' ''d2'' demo_trigger demo_world)"


end
