(* ===== verification/Cron.thy ===== *)
theory Cron
  imports Triggers Json
begin

text \<open>
  Scheduled automations (\<open>src/cron/schedule.ts\<close>, \<open>src/cron/cron-store.ts\<close>, \<open>src/cron/scheduler.ts\<close>): the
  schedules a cron may have and when it fires next, the store of crons, the claim of a slot, and the
  scheduler that fires what is due. The calendar (the \<open>croner\<close> package and the time zones of the platform)
  is a parameter, and so is the hash of \<open>hashId\<close>. Numbers of a schedule are integers; the checks that
  reject other numbers are the bounds of the safe integers. Characters outside the alphabet are written
  as \<open>~\<close>.
\<close>

section \<open>Schedules\<close>

record cron_schedule =
  sc_cron :: "string option"
  sc_timezone :: "string option"
  sc_everyMs :: "int option"
  sc_firstFireAt :: "time option"

datatype cron_error =
    CronEmpty
  | CronCombined
  | CronNotFiveFields
  | InvalidTimezone string
  | CronNoFuture
  | TimezoneWithoutCron
  | EveryMsTooLong
  | NotPositiveMs string
  | NotEpochMs string
  | CronRequired
  | CalendarError string
  | OwnerConsentRequired
  | RunFailed string

record cron_env =
  ce_validTz :: "string \<Rightarrow> bool"
  ce_nextRun :: "string \<Rightarrow> string \<Rightarrow> time \<Rightarrow> (string, time option) promise"
  ce_sha :: "string \<Rightarrow> string"

definition DEFAULT_CRON_TIMEZONE :: string where "DEFAULT_CRON_TIMEZONE = ''America/Los_Angeles''"
definition DAY_MS :: int where "DAY_MS = 24 * 60 * 60 * 1000"
definition MIN_RECURRING_CRON_MS :: int where "MIN_RECURRING_CRON_MS = 60000"

definition isSafeInteger :: "int \<Rightarrow> bool" where
  "isSafeInteger n \<longleftrightarrow> \<bar>n\<bar> \<le> 2 ^ 53 - 1"

definition isCalendarSchedule :: "cron_schedule \<Rightarrow> bool" where
  "isCalendarSchedule sch \<longleftrightarrow> sc_cron sch \<noteq> None"

definition finiteEpochMs :: "time option \<Rightarrow> string \<Rightarrow> cron_error + time option" where
  "finiteEpochMs v name =
     (case v of None \<Rightarrow> Inr None | Some n \<Rightarrow> if \<not> isSafeInteger n then Inl (NotEpochMs name) else Inr (Some n))"

definition finitePositiveMs :: "int option \<Rightarrow> string \<Rightarrow> cron_error + int option" where
  "finitePositiveMs v name =
     (case v of None \<Rightarrow> Inr None | Some n \<Rightarrow> if \<not> isSafeInteger n \<or> n \<le> 0 then Inl (NotPositiveMs name) else Inr (Some n))"

definition normalizeTimezone :: "cron_env \<Rightarrow> string option \<Rightarrow> string \<Rightarrow> cron_error + string" where
  "normalizeTimezone env input fallback =
     (let tz = js_trim (case map_option js_trim input of Some t \<Rightarrow> if t = [] then fallback else t | None \<Rightarrow> fallback)
      in if ce_validTz env tz then Inr tz else Inl (InvalidTimezone tz))"

definition normalizeCronExpression :: "string \<Rightarrow> cron_error + string" where
  "normalizeCronExpression input =
     (let cron = js_squeeze (js_trim input)
      in if length (js_split (CHR '' '') cron) \<noteq> 5 then Inl CronNotFiveFields else Inr cron)"

definition nextCalendarFireAfter :: "cron_env \<Rightarrow> cron_schedule \<Rightarrow> time \<Rightarrow> cron_error + time option" where
  "nextCalendarFireAfter env sch after =
     (if \<not> truthy (sc_cron sch) then Inl CronRequired
      else
        case normalizeTimezone env (sc_timezone sch) DEFAULT_CRON_TIMEZONE of
          Inl e \<Rightarrow> Inl e
        | Inr tz \<Rightarrow>
            (case ce_nextRun env (the (sc_cron sch)) tz after of
               Rejected m \<Rightarrow> Inl (CalendarError m)
             | Resolved next \<Rightarrow> Inr next))"

definition normalize_calendar :: "cron_env \<Rightarrow> cron_schedule \<Rightarrow> time \<Rightarrow> string \<Rightarrow> cron_error + cron_schedule \<times> time option" where
  "normalize_calendar env input now defaultTimezone =
     (if js_trim (the (sc_cron input)) = [] then Inl CronEmpty
      else if sc_everyMs input \<noteq> None \<or> sc_firstFireAt input \<noteq> None then Inl CronCombined
      else
        case normalizeCronExpression (the (sc_cron input)) of
          Inl e \<Rightarrow> Inl e
        | Inr cron \<Rightarrow>
            (case normalizeTimezone env (sc_timezone input) defaultTimezone of
               Inl e \<Rightarrow> Inl e
             | Inr tz \<Rightarrow>
                 let sch = \<lparr> sc_cron = Some cron, sc_timezone = Some tz, sc_everyMs = None, sc_firstFireAt = None \<rparr>
                 in (case nextCalendarFireAfter env sch now of
                       Inl e \<Rightarrow> Inl e
                     | Inr None \<Rightarrow> Inl CronNoFuture
                     | Inr (Some next) \<Rightarrow> Inr (sch, Some next))))"

definition normalizeSchedule :: "cron_env \<Rightarrow> cron_schedule \<Rightarrow> time \<Rightarrow> string \<Rightarrow> cron_error + cron_schedule \<times> time option" where
  "normalizeSchedule env input now defaultTimezone =
     (if sc_cron input \<noteq> None then normalize_calendar env input now defaultTimezone
      else if sc_timezone input \<noteq> None then Inl TimezoneWithoutCron
      else if (case sc_everyMs input of Some n \<Rightarrow> n \<ge> DAY_MS | None \<Rightarrow> False) then Inl EveryMsTooLong
      else
        case finitePositiveMs (sc_everyMs input) ''schedule.everyMs'' of
          Inl e \<Rightarrow> Inl e
        | Inr everyMs \<Rightarrow>
            (case finiteEpochMs (sc_firstFireAt input) ''schedule.firstFireAt'' of
               Inl e \<Rightarrow> Inl e
             | Inr first \<Rightarrow>
                 let firstFireAt = (case first of
                       Some f \<Rightarrow> f
                     | None \<Rightarrow> (case everyMs of Some n \<Rightarrow> now + n | None \<Rightarrow> now))
                 in Inr (\<lparr> sc_cron = None, sc_timezone = None, sc_everyMs = everyMs, sc_firstFireAt = Some firstFireAt \<rparr>,
                         Some firstFireAt)))"

definition validateUserSchedule :: "cron_schedule \<Rightarrow> bool" where
  "validateUserSchedule sch \<longleftrightarrow> (case sc_everyMs sch of Some n \<Rightarrow> n \<ge> MIN_RECURRING_CRON_MS | None \<Rightarrow> True)"

definition recoverNextFireAt ::
  "cron_env \<Rightarrow> cron_schedule \<Rightarrow> time \<Rightarrow> time option \<Rightarrow> time option \<Rightarrow> cron_error + time option" where
  "recoverNextFireAt env sch createdAt lastFiredAt nextFireAt =
     (if nextFireAt \<noteq> None then finiteEpochMs nextFireAt ''nextFireAt''
      else if isCalendarSchedule sch
      then nextCalendarFireAfter env sch (case lastFiredAt of Some t \<Rightarrow> t | None \<Rightarrow> createdAt)
      else
        case lastFiredAt of
          None \<Rightarrow>
            (case finiteEpochMs (sc_firstFireAt sch) ''schedule.firstFireAt'' of
               Inl e \<Rightarrow> Inl e
             | Inr f \<Rightarrow> Inr (Some (case f of Some t \<Rightarrow> t | None \<Rightarrow> createdAt)))
        | Some t \<Rightarrow>
            (case finitePositiveMs (sc_everyMs sch) ''schedule.everyMs'' of
               Inl e \<Rightarrow> Inl e
             | Inr everyMs \<Rightarrow> Inr (map_option (\<lambda>n. t + n) everyMs)))"

definition advanceNextFireAt :: "cron_env \<Rightarrow> cron_schedule \<Rightarrow> time \<Rightarrow> cron_error + time option" where
  "advanceNextFireAt env sch firedAt =
     (if isCalendarSchedule sch then nextCalendarFireAfter env sch firedAt
      else
        case finitePositiveMs (sc_everyMs sch) ''schedule.everyMs'' of
          Inl e \<Rightarrow> Inl e
        | Inr everyMs \<Rightarrow> Inr (map_option (\<lambda>n. firedAt + n) everyMs))"

section \<open>The store\<close>

record cron_fire =
  cf_fireKey :: string
  cf_threadRef :: string
  cf_firedAt :: time
  cf_scheduledAt :: "time option"
  cf_status :: "turn_status option"
  cf_note :: "string option"
  cf_reply :: "string option"
  cf_sessionId :: "string option"

record cron = trigger_base +
  cr_schedule :: cron_schedule
  cr_nextFireAt :: "time option"
  cr_title :: "string option"
  cr_archived :: "bool option"
  cr_action :: "string option"
  cr_message :: "string option"
  cr_runAs :: "run_as option"
  cr_members :: "principal list option"
  cr_fireLog :: "cron_fire list option"

record create_cron_input = create_trigger_input +
  cc_schedule :: cron_schedule
  cc_title :: "string option"
  cc_action :: "string option"
  cc_message :: "string option"
  cc_runAs :: "run_as option"
  cc_members :: "principal list option"

record cron_patch =
  cp_title :: "string option"
  cp_action :: "string option"
  cp_message :: "string option"
  cp_schedule :: "cron_schedule option"
  cp_enabled :: "bool option"
  cp_archived :: "bool option"
  cp_destination :: "destination option"
  cp_members :: "principal list option"
  cp_runAs :: "run_as option"

definition normalizeTitle :: "string option \<Rightarrow> string option" where
  "normalizeTitle title =
     (case map_option (\<lambda>t. js_squeeze (js_trim t)) title of
        None \<Rightarrow> None
      | Some t \<Rightarrow> if t = [] then None else if length t > 80 then Some (take 79 t @ ''...'') else Some t)"

text \<open>The JSON of the parts a cron's content id is made of; absent fields are left out.\<close>

definition json_field :: "string \<Rightarrow> ('a \<Rightarrow> json) \<Rightarrow> 'a option \<Rightarrow> (string \<times> json) list" where
  "json_field k f v = (case v of None \<Rightarrow> [] | Some x \<Rightarrow> [(k, f x)])"

definition schedule_json :: "cron_schedule \<Rightarrow> json" where
  "schedule_json s = JObj (json_field ''cron'' JStr (sc_cron s) @ json_field ''timezone'' JStr (sc_timezone s) @
     json_field ''everyMs'' JNum (sc_everyMs s) @ json_field ''firstFireAt'' JNum (sc_firstFireAt s))"

definition destination_json :: "destination \<Rightarrow> json" where
  "destination_json d = JObj ([(''type'', JStr (ds_type d)), (''target'', JStr (ds_target d))] @
     json_field ''audienceScopeId'' JStr (ds_audienceScopeId d) @ json_field ''onBehalfOf'' JStr (ds_onBehalfOf d) @
     json_field ''editRef'' JStr (ds_editRef d) @
     json_field ''taskList'' (\<lambda>ts. JArr (map (\<lambda>(i, t, st).
        JObj [(''id'', JStr i), (''title'', JStr t), (''status'', JStr st)]) ts)) (ds_taskList d) @
     json_field ''unfurlLinks'' JBool (ds_unfurlLinks d) @
     json_field ''react'' (\<lambda>(ts, e). JObj [(''messageTs'', JStr ts), (''emoji'', JStr e)]) (ds_react d) @
     json_field ''delete'' (\<lambda>ts. JObj [(''messageTs'', JStr ts)]) (ds_delete d) @
     json_field ''identity'' JStr (ds_identity d) @ json_field ''debugFooter'' JStr (ds_debugFooter d))"

definition principal_json :: "principal \<Rightarrow> json" where
  "principal_json p = JObj ([(''id'', JStr (p_id p)), (''type'', JStr (case p_type p of Internal \<Rightarrow> ''internal'' | Guest \<Rightarrow> ''guest''))] @
     json_field ''teamIds'' (\<lambda>ts. JArr (map JStr ts)) (p_teamIds p) @ json_field ''displayName'' JStr (p_displayName p))"

fun run_as_name :: "run_as \<Rightarrow> string" where
  "run_as_name RunAsOwner = ''owner''"
| "run_as_name RunAsScopeFloor = ''scopeFloor''"
| "run_as_name RunAsScopeShared = ''scopeShared''"

definition hashId :: "cron_env \<Rightarrow> string list \<Rightarrow> nat \<Rightarrow> string" where
  "hashId env parts len = take len (ce_sha env (js_join [CHR 0x00] parts))"

definition cron_content_id :: "cron_env \<Rightarrow> create_cron_input \<Rightarrow> string option \<Rightarrow> string" where
  "cron_content_id env i title =
     hashId env
       [contentPart (Some (JStr (ct_owner i))), contentPart (Some (JStr (ct_ownerScopeId i))),
        contentPart (Some (schedule_json (cc_schedule i))), contentPart (map_option JStr (cc_action i)),
        contentPart (map_option JStr (cc_message i)), contentPart (map_option destination_json (ct_destination i)),
        contentPart (map_option (\<lambda>r. JStr (run_as_name r)) (cc_runAs i)),
        contentPart (map_option (\<lambda>ms. JArr (map principal_json ms)) (cc_members i)),
        contentPart (map_option JStr title)] 16"

definition build_cron :: "create_cron_input \<Rightarrow> string \<Rightarrow> time \<Rightarrow> cron_schedule \<Rightarrow> time option \<Rightarrow> string option \<Rightarrow> cron" where
  "build_cron i cid now sch next title =
     trigger_base.extend (buildTriggerBase (create_trigger_input.truncate i) cid now)
       \<lparr> cr_schedule = sch, cr_nextFireAt = next, cr_title = title, cr_archived = None, cr_action = cc_action i,
         cr_message = cc_message i, cr_runAs = cc_runAs i, cr_members = cc_members i, cr_fireLog = None \<rparr>"

definition create_cron ::
  "cron_env \<Rightarrow> time \<Rightarrow> create_cron_input \<Rightarrow> cron mem_map \<Rightarrow> (cron_error + cron) \<times> cron mem_map" where
  "create_cron env now i m =
     (if \<not> assertNoEscalation (ct_owner i) (ct_createdBy i) (ct_ownerConsentedAt i) then (Inl OwnerConsentRequired, m)
      else
        let title = normalizeTitle (cc_title i)
        in case normalizeSchedule env (cc_schedule i) now DEFAULT_CRON_TIMEZONE of
             Inl e \<Rightarrow> (Inl e, m)
           | Inr (sch, next) \<Rightarrow>
               let cid = cron_content_id env i title
               in (case mm_putIfAbsent cid (build_cron i cid now sch next title) m of (c, m1) \<Rightarrow> (Inr c, m1)))"

text \<open>\<open>update\<close>: the fields the patch sets; a title that is blank is removed, archiving disables.\<close>

definition patch_cron :: "cron_patch \<Rightarrow> (cron_schedule \<times> time option) option \<Rightarrow> cron \<Rightarrow> cron" where
  "patch_cron p norm c =
     c\<lparr> cr_title := (if cp_title p = None then cr_title c else normalizeTitle (cp_title p)),
        cr_action := coalesce (cp_action p) (cr_action c),
        cr_message := coalesce (cp_message p) (cr_message c),
        cr_schedule := (case norm of Some (sch, _) \<Rightarrow> sch | None \<Rightarrow> cr_schedule c),
        cr_nextFireAt := (case norm of Some (_, next) \<Rightarrow> next | None \<Rightarrow> cr_nextFireAt c),
        tb_enabled := (if cp_archived p = Some True then False else case cp_enabled p of Some b \<Rightarrow> b | None \<Rightarrow> tb_enabled c),
        cr_archived := coalesce (cp_archived p) (cr_archived c),
        tb_destination := coalesce (cp_destination p) (tb_destination c),
        cr_members := coalesce (cp_members p) (cr_members c),
        cr_runAs := coalesce (cp_runAs p) (cr_runAs c) \<rparr>"

definition update_cron ::
  "cron_env \<Rightarrow> time \<Rightarrow> string \<Rightarrow> cron_patch \<Rightarrow> cron mem_map \<Rightarrow> (cron_error + cron option) \<times> cron mem_map" where
  "update_cron env now i p m =
     (case cp_schedule p of
        None \<Rightarrow> (case mm_update i (patch_cron p None) m of (r, m1) \<Rightarrow> (Inr r, m1))
      | Some sch \<Rightarrow>
          (case normalizeSchedule env sch now DEFAULT_CRON_TIMEZONE of
             Inl e \<Rightarrow> (Inl e, m)
           | Inr norm \<Rightarrow> (case mm_update i (patch_cron p (Some norm)) m of (r, m1) \<Rightarrow> (Inr r, m1))))"

definition delete_cron :: "string \<Rightarrow> cron mem_map \<Rightarrow> cron mem_map" where
  "delete_cron i m = mm_delete i m"

definition setEnabled_cron :: "string \<Rightarrow> bool \<Rightarrow> cron mem_map \<Rightarrow> cron mem_map" where
  "setEnabled_cron i b m =
     snd (mm_update i (\<lambda>c. c\<lparr> tb_enabled := b, cr_archived := (if b then Some False else cr_archived c) \<rparr>) m)"

definition setDestination_cron :: "string \<Rightarrow> destination option \<Rightarrow> cron mem_map \<Rightarrow> cron mem_map" where
  "setDestination_cron i d m = snd (mm_update i (\<lambda>c. c\<lparr> tb_destination := d \<rparr>) m)"

definition setRecipientConsent_cron :: "string \<Rightarrow> recipient_consent \<Rightarrow> cron mem_map \<Rightarrow> cron mem_map" where
  "setRecipientConsent_cron i rc m = snd (mm_update i (\<lambda>c. c\<lparr> tb_recipientConsent := Some rc \<rparr>) m)"

text \<open>The log of fires: an entry under a key that is there is merged into it, then sorted by time.\<close>

definition merge_fire :: "cron_fire option \<Rightarrow> cron_fire \<Rightarrow> cron_fire" where
  "merge_fire old e =
     (case old of
        None \<Rightarrow> e
      | Some o' \<Rightarrow>
          e\<lparr> cf_scheduledAt := coalesce (cf_scheduledAt e) (cf_scheduledAt o'), cf_status := coalesce (cf_status e) (cf_status o'),
             cf_note := coalesce (cf_note e) (cf_note o'), cf_reply := coalesce (cf_reply e) (cf_reply o'),
             cf_sessionId := coalesce (cf_sessionId e) (cf_sessionId o') \<rparr>)"

definition add_fire :: "cron_fire \<Rightarrow> cron \<Rightarrow> cron" where
  "add_fire e c =
     (let byKey = fold (\<lambda>x m. jmap_set (cf_fireKey x) x m) (case cr_fireLog c of None \<Rightarrow> [] | Some l \<Rightarrow> l) []
      in c\<lparr> cr_fireLog := Some (sort_key cf_firedAt
             (jmap_values (jmap_set (cf_fireKey e) (merge_fire (map_of byKey (cf_fireKey e)) e) byKey))) \<rparr>)"

definition recordFire :: "string \<Rightarrow> cron_fire \<Rightarrow> cron mem_map \<Rightarrow> cron mem_map" where
  "recordFire i e m = snd (mm_update i (add_fire e) m)"

definition markFired :: "cron_env \<Rightarrow> string \<Rightarrow> time \<Rightarrow> time option \<Rightarrow> cron mem_map \<Rightarrow> (cron_error + unit) \<times> cron mem_map" where
  "markFired env i at scheduledAt m =
     (case mm_get m i of
        None \<Rightarrow> (Inr (), m)
      | Some c \<Rightarrow>
          let advanceFrom = (if isCalendarSchedule (cr_schedule c) then (case scheduledAt of Some t \<Rightarrow> t | None \<Rightarrow> at) else at)
          in (case advanceNextFireAt env (cr_schedule c) advanceFrom of
                Inl e \<Rightarrow> (Inl e, m)
              | Inr next \<Rightarrow> (Inr (), snd (mm_update i (\<lambda>c. c\<lparr> tb_lastFiredAt := Some at, cr_nextFireAt := next \<rparr>) m))))"

definition is_active :: "cron \<Rightarrow> bool" where
  "is_active c \<longleftrightarrow> cr_archived c \<noteq> Some True \<and> tb_enabled c"

definition nextSlot :: "cron_env \<Rightarrow> cron \<Rightarrow> cron_error + time option" where
  "nextSlot env c = recoverNextFireAt env (cr_schedule c) (tb_createdAt c) (tb_lastFiredAt c) (cr_nextFireAt c)"

definition claimSlot :: "cron_env \<Rightarrow> string \<Rightarrow> time \<Rightarrow> time \<Rightarrow> cron mem_map \<Rightarrow> (cron_error + bool) \<times> cron mem_map" where
  "claimSlot env i scheduledAt at m =
     (case mm_get m i of
        None \<Rightarrow> (Inr False, m)
      | Some c \<Rightarrow>
          if \<not> is_active c then (Inr False, m)
          else
            case nextSlot env c of
              Inl e \<Rightarrow> (Inl e, m)
            | Inr slot \<Rightarrow>
                if slot \<noteq> Some scheduledAt then (Inr False, m)
                else
                  (case advanceNextFireAt env (cr_schedule c) (if isCalendarSchedule (cr_schedule c) then scheduledAt else at) of
                     Inl e \<Rightarrow> (Inl e, m)
                   | Inr next \<Rightarrow> (Inr True, mm_put i (c\<lparr> tb_lastFiredAt := Some at, cr_nextFireAt := next \<rparr>) m)))"

definition unclaimSlot :: "string \<Rightarrow> time \<Rightarrow> time \<Rightarrow> time option \<Rightarrow> cron mem_map \<Rightarrow> cron mem_map" where
  "unclaimSlot i scheduledAt at priorLastFiredAt m =
     snd (mm_update i (\<lambda>c. if tb_lastFiredAt c \<noteq> Some at then c
                            else c\<lparr> tb_lastFiredAt := priorLastFiredAt, cr_nextFireAt := Some scheduledAt \<rparr>) m)"

text \<open>The crons that are due, with their slots; a schedule that cannot be read fails the whole list.\<close>

fun due_of :: "cron_env \<Rightarrow> time \<Rightarrow> cron list \<Rightarrow> cron_error + (cron \<times> time) list" where
  "due_of env now [] = Inr []"
| "due_of env now (c # cs) =
     (if \<not> is_active c then due_of env now cs
      else
        case nextSlot env c of
          Inl e \<Rightarrow> Inl e
        | Inr slot \<Rightarrow>
            (case due_of env now cs of
               Inl e \<Rightarrow> Inl e
             | Inr ds \<Rightarrow>
                 (case slot of
                    Some t \<Rightarrow> if t \<le> now then Inr ((c\<lparr> cr_nextFireAt := Some t \<rparr>, t) # ds) else Inr ds
                  | None \<Rightarrow> Inr ds)))"

definition due :: "cron_env \<Rightarrow> time \<Rightarrow> cron mem_map \<Rightarrow> cron_error + (cron \<times> time) list" where
  "due env now m = due_of env now (mm_all m)"

section \<open>The scheduler\<close>

definition CRON_FIRE_REPLY_MAX_CHARS :: int where "CRON_FIRE_REPLY_MAX_CHARS = 2000"
definition CRON_MENTION_ROSTER_MAX :: nat where "CRON_MENTION_ROSTER_MAX = 40"

definition truncate_text :: "string \<Rightarrow> int \<Rightarrow> string" where
  "truncate_text s maxChars = (if int (length s) \<le> maxChars then s else js_slice s 0 (maxChars - 3) @ ''...'')"

definition cronFireLogReply :: "string \<Rightarrow> string" where
  "cronFireLogReply s =
     (if js_includes s ''[Cron runtime context]'' \<or> js_includes s ''[End cron runtime context]''
      then ''[reply echoed cron runtime context; omitted]''
      else truncate_text s CRON_FIRE_REPLY_MAX_CHARS)"

definition cronFireThreadRef :: "cron_env \<Rightarrow> string \<Rightarrow> string \<Rightarrow> string" where
  "cronFireThreadRef env cronId fireKey = ''cron:'' @ cronId @ '':fire:'' @ hashId env [fireKey] 12"

definition mentionable :: "directory_member \<Rightarrow> string" where
  "mentionable m =
     (let mentionId = (case dm_slackId m of
            Some i \<Rightarrow> Some i
          | None \<Rightarrow> if dm_principalId m \<noteq> [] \<and> list_all is_alnum (dm_principalId m) then Some (dm_principalId m) else None)
      in ''@'' @ dm_displayName m @ (if truthy mentionId then '' (<@'' @ the mentionId @ ''>)'' else []))"

definition cronMentionRoster :: "directory_store option \<Rightarrow> cron \<Rightarrow> string option" where
  "cronMentionRoster dir c =
     (case dir of
        None \<Rightarrow> None
      | Some d \<Rightarrow>
          let scope = Option.bind (tb_destination c) ds_audienceScopeId;
              members = (case cr_members c of Some ms \<Rightarrow> ms | None \<Rightarrow> [])
          in if \<not> truthy scope \<or> fst (parseScopeId (the scope)) \<notin> {Some Channel, Some Group} then None
             else if members = [] \<or> length members > CRON_MENTION_ROSTER_MAX then None
             else
               let byId = fold (\<lambda>m. jmap_set (dm_principalId m) m) (ds_members d) [];
                   roster = map mentionable (filter (\<lambda>m. dm_type m = Internal)
                              (List.map_filter (\<lambda>p. map_of byId (p_id p)) members))
               in if roster = [] then None else Some (js_join '', '' roster))"

text \<open>A stored task that starts with \<open>!run\<close> or \<open>!scratch\<close> is passed on as it is.\<close>

definition is_bang_command :: "string \<Rightarrow> bool" where
  "is_bang_command t \<longleftrightarrow>
     list_ex (\<lambda>w. js_startsWith t w \<and> length t > length w \<and> js_is_space (t ! length w)) [''!run'', ''!scratch'']"

definition renderCronFireInput :: "cron \<Rightarrow> string option \<Rightarrow> string" where
  "renderCronFireInput c mentionRoster =
     (let task = (case cr_action c of Some a \<Rightarrow> a | None \<Rightarrow> [])
      in if js_trim task = [] then task
         else if is_bang_command (js_trimStart task) then task
         else js_join [CHR 0x0A]
           ([''[Cron runtime context]'',
             ''Cron id: '' @ tb_id c @ (if truthy (cr_title c) then '' ('' @ the (cr_title c) @ '')'' else []) @ ''.'',
             ''Each fire runs as a fresh thread with no memory of previous fires. Two things persist between fires:'',
             ''- Your workspace disk. Durable state ~ notes, queues, checkpoints, anything a future fire should know ~ lives in files there.'',
             ''- The stored task below: the standing instructions every fire receives. Edit it (via the cron tool) only to change what future fires are told to do.'',
             ''The retained fire log (cron tool, action='' @ [CHR 0x22] @ ''runs'' @ [CHR 0x22] @ '', id='' @ [CHR 0x22] @ tb_id c @ [CHR 0x22] @
               '') shows how prior fires went ~ useful when this run hits errors or surprising state.''] @
            (if truthy mentionRoster
             then [''People here: '' @ the mentionRoster @ ''.'',
                   ''If this reminder is for a specific person, @-mention them with their <@~> id so they're actually notified ~ addressing them by name alone does not ping them.'']
             else []) @
            [''[End cron runtime context]'', [], ''Stored cron task:'', task]))"

text \<open>The times and the delivery ids one firing uses, and what the scheduler's state is.\<close>

record stamp =
  sm_refreshedAt :: time
  sm_startedAt :: time
  sm_endedAt :: time
  sm_deliveryId :: string
  sm_noticeId :: string

record cron_world =
  cw_crons :: "cron mem_map"
  cw_triggers :: trigger_world

definition cron_spec :: "cron_env \<Rightarrow> string trigger_deps \<Rightarrow> cron \<Rightarrow> string \<Rightarrow> trigger_spec" where
  "cron_spec env deps c fireKey =
     \<lparr> sp_owner = tb_owner c, sp_ownerScopeId = tb_ownerScopeId c,
       sp_input = renderCronFireInput c (cronMentionRoster (td_directory deps) c), sp_securityScreenData = None,
       sp_fireKey = fireKey, sp_surface = ''cron'', sp_destination = tb_destination c, sp_message = cr_message c,
       sp_threadRef = Some (cronFireThreadRef env (tb_id c) fireKey), sp_runAs = cr_runAs c, sp_members = cr_members c,
       sp_recipientConsent = tb_recipientConsent c,
       sp_recipientConsentRequired = (sc_everyMs (cr_schedule c) \<noteq> None \<or> sc_cron (cr_schedule c) \<noteq> None),
       sp_shadow = False, sp_thinkingLevel = None, sp_readOnly = False, sp_turnWallClockMs = None, sp_errorNotice = None \<rparr>"

definition fire ::
  "cron_env \<Rightarrow> string trigger_deps \<Rightarrow> stamp \<Rightarrow> cron \<Rightarrow> time \<Rightarrow> string \<Rightarrow> time option \<Rightarrow> cron_world \<Rightarrow>
     (cron_error + bool) \<times> cron_world" where
  "fire env deps st c t fireKey scheduledAt w =
     (let entry = \<lparr> cf_fireKey = fireKey, cf_threadRef = cronFireThreadRef env (tb_id c) fireKey, cf_firedAt = t,
                    cf_scheduledAt = scheduledAt, cf_status = None, cf_note = None, cf_reply = None, cf_sessionId = None \<rparr>
      in case runTrigger deps (sm_refreshedAt st) (sm_startedAt st) (sm_endedAt st) (sm_deliveryId st) (sm_noticeId st)
                (cron_spec env deps c fireKey) (cw_triggers w) of
           (Rejected e, tw) \<Rightarrow>
             (Inl (RunFailed e),
              \<lparr> cw_crons = recordFire (tb_id c)
                  (entry\<lparr> cf_status := Some TSFailed, cf_note := Some (truncate_text e CRON_FIRE_REPLY_MAX_CHARS) \<rparr>) (cw_crons w),
                cw_triggers = tw \<rparr>)
         | (Resolved out, tw) \<Rightarrow>
             let crons = (if to_ran out \<or> to_authzFailed out
                    then recordFire (tb_id c)
                      (entry\<lparr> cf_status := to_status out,
                              cf_note := map_option (\<lambda>n. truncate_text n CRON_FIRE_REPLY_MAX_CHARS) (if_truthy (to_note out)),
                              cf_reply := map_option cronFireLogReply (to_reply out), cf_sessionId := if_truthy (to_sessionId out) \<rparr>)
                      (cw_crons w)
                    else cw_crons w)
             in if to_authzFailed out
                then (Inr True, \<lparr> cw_crons = setEnabled_cron (tb_id c) False crons, cw_triggers = tw \<rparr>)
                else (Inr False,
                      \<lparr> cw_crons = (if sc_everyMs (cr_schedule c) = None \<and> sc_cron (cr_schedule c) = None
                                    then setEnabled_cron (tb_id c) False crons else crons), cw_triggers = tw \<rparr>))"

definition slot_key :: "cron \<Rightarrow> time \<Rightarrow> string" where
  "slot_key c slot = ''cron:'' @ tb_id c @ '':'' @ js_show_int slot"

text \<open>The batch of a tick, one cron after the other; the first error ends it.\<close>

fun fire_batch ::
  "cron_env \<Rightarrow> string trigger_deps \<Rightarrow> (nat \<Rightarrow> stamp) \<Rightarrow> time \<Rightarrow> (cron \<times> time) list \<Rightarrow> cron_world \<Rightarrow> (cron_error + unit) \<times> cron_world" where
  "fire_batch env deps stamps t [] w = (Inr (), w)"
| "fire_batch env deps stamps t ((c, slot) # rest) w =
     (case fire env deps (stamps 0) c t (slot_key c slot) (Some slot) w of
        (Inl e, w1) \<Rightarrow> (Inl e, w1)
      | (Inr authzFailed, w1) \<Rightarrow>
          (case (if authzFailed then (Inr (), cw_crons w1) else markFired env (tb_id c) t (Some slot) (cw_crons w1)) of
             (Inl e, m) \<Rightarrow> (Inl e, w1\<lparr> cw_crons := m \<rparr>)
           | (Inr _, m) \<Rightarrow> fire_batch env deps (\<lambda>n. stamps (Suc n)) t rest (w1\<lparr> cw_crons := m \<rparr>)))"

definition fireDue ::
  "cron_env \<Rightarrow> string trigger_deps \<Rightarrow> (nat \<Rightarrow> stamp) \<Rightarrow> nat \<Rightarrow> time \<Rightarrow> cron_world \<Rightarrow> (cron_error + unit) \<times> cron_world" where
  "fireDue env deps stamps maxFiresPerTick t w =
     (case due env t (cw_crons w) of
        Inl e \<Rightarrow> (Inl e, w)
      | Inr ds \<Rightarrow> fire_batch env deps stamps t (take maxFiresPerTick ds) w)"

definition runNow :: "cron_env \<Rightarrow> string trigger_deps \<Rightarrow> stamp \<Rightarrow> time \<Rightarrow> string \<Rightarrow> string \<Rightarrow> cron_world \<Rightarrow> (cron_error + bool) \<times> cron_world" where
  "runNow env deps st now uuid i w =
     (case mm_get (cw_crons w) i of
        None \<Rightarrow> (Inr False, w)
      | Some c \<Rightarrow>
          if \<not> is_active c then (Inr False, w)
          else fire env deps st c now (''cron:'' @ tb_id c @ '':manual:'' @ uuid) None w)"

text \<open>The next job of a cron.\<close>

definition enqueueNext :: "cron_env \<Rightarrow> string \<Rightarrow> cron mem_map \<Rightarrow> cron_error + (string \<times> time) option" where
  "enqueueNext env i m =
     (case mm_get m i of
        None \<Rightarrow> Inr None
      | Some c \<Rightarrow>
          if \<not> is_active c then Inr None
          else (case nextSlot env c of Inl e \<Rightarrow> Inl e | Inr slot \<Rightarrow> Inr (map_option (\<lambda>s. (i, s)) slot)))"

text \<open>A job of the queue: fire the slot it is for, if it is still the cron's next one and has come.\<close>

datatype job_result = JobIgnored | JobRequeued | JobFired "(string \<times> time) option" | JobRolledBack | JobError cron_error

definition fireJob ::
  "cron_env \<Rightarrow> string trigger_deps \<Rightarrow> stamp \<Rightarrow> time \<Rightarrow> string \<times> time \<Rightarrow> cron_world \<Rightarrow> job_result \<times> cron_world" where
  "fireJob env deps st t job w =
     (case job of (i, scheduledAt) \<Rightarrow>
        case mm_get (cw_crons w) i of
          None \<Rightarrow> (JobIgnored, w)
        | Some c \<Rightarrow>
            if \<not> is_active c then (JobIgnored, w)
            else
              case nextSlot env c of
                Inl e \<Rightarrow> (JobError e, w)
              | Inr slot \<Rightarrow>
                  if slot \<noteq> Some scheduledAt then (JobIgnored, w)
                  else if t < scheduledAt then (JobRequeued, w)
                  else
                    case claimSlot env i scheduledAt t (cw_crons w) of
                      (Inl e, _) \<Rightarrow> (JobError e, w)
                    | (Inr False, _) \<Rightarrow> (JobIgnored, w)
                    | (Inr True, m) \<Rightarrow>
                        (case fire env deps st c t (slot_key c scheduledAt) (Some scheduledAt) (w\<lparr> cw_crons := m \<rparr>) of
                           (Inr False, w1) \<Rightarrow>
                             (case enqueueNext env i (cw_crons w1) of Inl e \<Rightarrow> (JobError e, w1) | Inr next \<Rightarrow> (JobFired next, w1))
                         | (_, w1) \<Rightarrow>
                             (JobRolledBack, w1\<lparr> cw_crons := unclaimSlot i scheduledAt t (tb_lastFiredAt c) (cw_crons w1) \<rparr>)))"

text \<open>The jobs that reconciling enqueues, one for the next slot of every active cron.\<close>

fun reconcile_jobs :: "cron_env \<Rightarrow> cron list \<Rightarrow> (string \<times> time) list" where
  "reconcile_jobs env [] = []"
| "reconcile_jobs env (c # cs) =
     (if \<not> is_active c then reconcile_jobs env cs
      else
        case nextSlot env c of
          Inl e \<Rightarrow> []
        | Inr (Some slot) \<Rightarrow> (tb_id c, slot) # reconcile_jobs env cs
        | Inr None \<Rightarrow> reconcile_jobs env cs)"

section \<open>Properties\<close>

text \<open>What the development relies on of the calendar: the next run comes after the moment asked about.\<close>

definition calendar_law :: "cron_env \<Rightarrow> bool" where
  "calendar_law env \<longleftrightarrow> (\<forall>e tz a n. ce_nextRun env e tz a = Resolved (Some n) \<longrightarrow> a < n)"

lemma calendar_after: "calendar_law env \<Longrightarrow> nextCalendarFireAfter env sch a = Inr (Some n) \<Longrightarrow> a < n"
  by (auto simp: nextCalendarFireAfter_def calendar_law_def split: if_splits sum.splits promise.splits)

lemma positive_ms: "finitePositiveMs v name = Inr (Some n) \<Longrightarrow> 0 < n"
  by (auto simp: finitePositiveMs_def split: option.splits if_splits)

lemma advance_after:
  assumes "calendar_law env" "advanceNextFireAt env sch a = Inr (Some n)"
  shows "a < n"
  using assms calendar_after positive_ms
  by (auto simp: advanceNextFireAt_def split: if_splits sum.splits)

lemma claimSlot_True:
  assumes "claimSlot env i slot at m = (Inr True, m')"
  obtains c nx where "mm_get m i = Some c" "is_active c" "nextSlot env c = Inr (Some slot)"
    "advanceNextFireAt env (cr_schedule c) (if isCalendarSchedule (cr_schedule c) then slot else at) = Inr nx"
    "m' = mm_put i (c\<lparr> tb_lastFiredAt := Some at, cr_nextFireAt := nx \<rparr>) m"
  using assms that by (auto simp: claimSlot_def split: option.splits if_splits sum.splits)

text \<open>After a slot was claimed it is not the cron's next slot any more.\<close>

lemma slot_moves_on:
  assumes "calendar_law env" "slot \<le> at"
    and adv: "advanceNextFireAt env (cr_schedule c) (if isCalendarSchedule (cr_schedule c) then slot else at) = Inr nx"
  shows "nextSlot env (c\<lparr> tb_lastFiredAt := Some at, cr_nextFireAt := nx \<rparr>) \<noteq> Inr (Some slot)"
proof (cases nx)
  case (Some n)
  then have "slot < n" using advance_after [OF assms(1)] adv assms(2) by (fastforce split: if_splits)
  with Some show ?thesis by (auto simp: nextSlot_def recoverNextFireAt_def finiteEpochMs_def)
next
  case None
  show ?thesis
  proof (cases "isCalendarSchedule (cr_schedule c)")
    case True
    then show ?thesis
      using None calendar_after [OF assms(1), of "cr_schedule c" at slot] assms(2)
      by (auto simp: nextSlot_def recoverNextFireAt_def isCalendarSchedule_def)
  next
    case False
    with adv None have "finitePositiveMs (sc_everyMs (cr_schedule c)) ''schedule.everyMs'' = Inr None"
      by (auto simp: advanceNextFireAt_def split: sum.splits)
    with False None show ?thesis by (auto simp: nextSlot_def recoverNextFireAt_def isCalendarSchedule_def)
  qed
qed



section \<open>Examples\<close>

definition demo_env :: cron_env where
  "demo_env = \<lparr> ce_validTz = (\<lambda>tz. tz \<noteq> []), ce_nextRun = (\<lambda>_ _ a. Resolved (Some (a + 60))), ce_sha = id \<rparr>"

lemma demo_env_law: "calendar_law demo_env"
  by (simp add: calendar_law_def demo_env_def)

definition demo_cron :: "string \<Rightarrow> cron" where
  "demo_cron i =
     build_cron
       \<lparr> ct_ownerScopeId = ''personal:ann'', ct_owner = ''ann'', ct_createdBy = ''ann'', ct_destination = None,
         ct_ownerConsentedAt = None, ct_recipientConsent = None,
         cc_schedule = \<lparr> sc_cron = None, sc_timezone = None, sc_everyMs = Some 60000, sc_firstFireAt = Some 10 \<rparr>,
         cc_title = None, cc_action = Some ''report'', cc_message = None, cc_runAs = None, cc_members = None \<rparr>
       i 0 \<lparr> sc_cron = None, sc_timezone = None, sc_everyMs = Some 60000, sc_firstFireAt = Some 10 \<rparr> (Some 10) None"

definition demo_crons :: "cron mem_map" where
  "demo_crons = [(''a'', demo_cron ''a''), (''b'', demo_cron ''b'')]"



definition failing_deps :: "string trigger_deps" where
  "failing_deps =
     \<lparr> td_run = (\<lambda>rq. if rq_idempotencyKey rq = slot_key (demo_cron ''a'') 10 then Rejected ''boom'' else Resolved demo_ok),
       td_currentScopeMembers = \<lambda>_. Resolved None, td_directory = None, td_idem = race_opts \<rparr>"

definition tick_world :: cron_world where
  "tick_world = \<lparr> cw_crons = demo_crons, cw_triggers = demo_world \<rparr>"

definition demo_stamp :: "time \<Rightarrow> nat \<Rightarrow> stamp" where
  "demo_stamp t n = \<lparr> sm_refreshedAt = t, sm_startedAt = t, sm_endedAt = t, sm_deliveryId = ''d'', sm_noticeId = ''n'' \<rparr>"

definition due_ids :: "cron_error + (cron \<times> time) list \<Rightarrow> (string \<times> time) list" where
  "due_ids r = (case r of Inr ds \<Rightarrow> map (\<lambda>(c, t). (tb_id c, t)) ds | Inl _ \<Rightarrow> [])"

text \<open>
  One cron that fails starves those after it: a tick fires what is due one after the other and the
  first firing that fails ends the tick, with nothing marked as fired. So here, where the run of the first
  cron fails and the second is due as well, the second is not fired, and at the next tick the same two are
  due in the same order.
\<close>

theorem failing_cron_starves_tick:
  "due_ids (due demo_env 20 demo_crons) = [(''a'', 10), (''b'', 10)] \<and>
   (case fireDue demo_env failing_deps (demo_stamp 20) 100 20 tick_world of (r, w1) \<Rightarrow>
      r = Inl (RunFailed ''boom'') \<and>
      map rq_idempotencyKey (tw_requests (cw_triggers w1)) = [''cron:a:10''] \<and>
      due_ids (due demo_env 21 (cw_crons w1)) = [(''a'', 10), (''b'', 10)] \<and>
      (case fireDue demo_env failing_deps (demo_stamp 21) 100 21 w1 of (r2, w2) \<Rightarrow>
         r2 = Inl (RunFailed ''boom'') \<and>
         map rq_idempotencyKey (tw_requests (cw_triggers w2)) = [''cron:a:10'', ''cron:a:10'']))"
  by code_simp

end
