(* ===== verification/Json_Parse.thy ===== *)
theory Json_Parse
  imports Json
begin

text \<open>
  Reading JSON: \<open>JSON.parse\<close>, as the token and policy code of the program calls it. A text that the
  function rejects with a \<open>SyntaxError\<close> is \<open>None\<close>. As everywhere in the model a number is an integer and a
  character is below 256: a text with a fraction, an exponent or an escape above \<open>\u00ff\<close> has no value
  here. A repeated key keeps its place and takes the last value. What \<open>JSON.stringify\<close> wrote is read back.
\<close>

section \<open>The reader\<close>

definition json_space :: "char \<Rightarrow> bool" where
  "json_space c \<longleftrightarrow> c \<in> {CHR 0x20, CHR 0x09, CHR 0x0A, CHR 0x0D}"

definition skip_space :: "string \<Rightarrow> string" where
  "skip_space s = dropWhile json_space s"

definition hex_digit_value :: "char \<Rightarrow> nat option" where
  "hex_digit_value c =
     (let n = (of_char c :: nat)
      in if 48 \<le> n \<and> n \<le> 57 then Some (n - 48)
         else if 97 \<le> n \<and> n \<le> 102 then Some (n - 87)
         else if 65 \<le> n \<and> n \<le> 70 then Some (n - 55)
         else None)"

fun json_unescape :: "string \<Rightarrow> (char \<times> string) option" where
  "json_unescape [] = None"
| "json_unescape (c # cs) =
     (if c \<in> {CHR 0x22, CHR 0x5C, CHR ''/''} then Some (c, cs)
      else if c = CHR ''b'' then Some (CHR 0x08, cs)
      else if c = CHR ''f'' then Some (CHR 0x0C, cs)
      else if c = CHR ''n'' then Some (CHR 0x0A, cs)
      else if c = CHR ''r'' then Some (CHR 0x0D, cs)
      else if c = CHR ''t'' then Some (CHR 0x09, cs)
      else if c = CHR ''u'' then
        (case cs of
           w # x # y # z # rest \<Rightarrow>
             (case (hex_digit_value w, hex_digit_value x, hex_digit_value y, hex_digit_value z) of
                (Some 0, Some 0, Some a, Some b) \<Rightarrow> Some (char_of (16 * a + b), rest)
              | _ \<Rightarrow> None)
         | _ \<Rightarrow> None)
      else None)"

lemma json_unescape_shorter: "json_unescape cs = Some (c, rest) \<Longrightarrow> length rest < length cs"
  by (cases cs) (auto split: if_splits list.splits option.splits nat.splits)

text \<open>The characters of a string up to its closing quote.\<close>

function json_chars :: "string \<Rightarrow> (string \<times> string) option" where
  "json_chars [] = None"
| "json_chars (c # cs) =
     (if c = CHR 0x22 then Some ([], cs)
      else if c = CHR 0x5C then
        (case json_unescape cs of
           None \<Rightarrow> None
         | Some (d, rest) \<Rightarrow> map_option (apfst (Cons d)) (json_chars rest))
      else if (of_char c :: nat) < 32 then None
      else map_option (apfst (Cons c)) (json_chars cs))"
  by pat_completeness auto
termination by (relation "measure length") (auto dest: json_unescape_shorter)

definition decimal_value :: "string \<Rightarrow> nat" where
  "decimal_value ds = foldl (\<lambda>a c. 10 * a + (of_char c - 48)) 0 ds"

definition json_nat :: "string \<Rightarrow> (nat \<times> string) option" where
  "json_nat s =
     (let ds = takeWhile is_digit s; rest = dropWhile is_digit s
      in if ds = [] \<or> hd ds = CHR ''0'' \<and> length ds > 1 then None
         else if rest \<noteq> [] \<and> hd rest \<in> {CHR ''.'', CHR ''e'', CHR ''E''} then None
         else Some (decimal_value ds, rest))"

definition json_number :: "string \<Rightarrow> (json \<times> string) option" where
  "json_number s =
     (case s of
        [] \<Rightarrow> None
      | c # cs \<Rightarrow>
          if c = CHR ''-'' then map_option (apfst (\<lambda>n. JNum (- int n))) (json_nat cs)
          else map_option (apfst (\<lambda>n. JNum (int n))) (json_nat s))"

text \<open>Values, the rest of an array and the rest of an object; the fuel bounds the nesting.\<close>

fun json_value :: "nat \<Rightarrow> string \<Rightarrow> (json \<times> string) option"
  and json_items :: "nat \<Rightarrow> string \<Rightarrow> (json list \<times> string) option"
  and json_members :: "nat \<Rightarrow> (string, json) jsmap \<Rightarrow> string \<Rightarrow> ((string, json) jsmap \<times> string) option" where
  "json_value 0 s = None"
| "json_value (Suc n) s =
     (case skip_space s of
        [] \<Rightarrow> None
      | c # cs \<Rightarrow>
          if c = CHR ''{'' then
            (case skip_space cs of
               [] \<Rightarrow> None
             | d # ds \<Rightarrow> if d = CHR ''}'' then Some (JObj [], ds)
                         else map_option (apfst JObj) (json_members n [] cs))
          else if c = CHR ''['' then
            (case skip_space cs of
               [] \<Rightarrow> None
             | d # ds \<Rightarrow> if d = CHR '']'' then Some (JArr [], ds)
                         else map_option (apfst JArr) (json_items n cs))
          else if c = CHR 0x22 then map_option (apfst JStr) (json_chars cs)
          else if js_startsWith (c # cs) ''true'' then Some (JBool True, drop 4 (c # cs))
          else if js_startsWith (c # cs) ''false'' then Some (JBool False, drop 5 (c # cs))
          else if js_startsWith (c # cs) ''null'' then Some (JNull, drop 4 (c # cs))
          else json_number (c # cs))"
| "json_items 0 s = None"
| "json_items (Suc n) s =
     (case json_value n s of
        None \<Rightarrow> None
      | Some (v, r) \<Rightarrow>
          (case skip_space r of
             [] \<Rightarrow> None
           | d # ds \<Rightarrow>
               if d = CHR '','' then map_option (apfst (Cons v)) (json_items n ds)
               else if d = CHR '']'' then Some ([v], ds)
               else None))"
| "json_members 0 m s = None"
| "json_members (Suc n) m s =
     (case skip_space s of
        [] \<Rightarrow> None
      | q # qs \<Rightarrow>
          if q \<noteq> CHR 0x22 then None
          else
            (case json_chars qs of
               None \<Rightarrow> None
             | Some (k, r) \<Rightarrow>
                 (case skip_space r of
                    [] \<Rightarrow> None
                  | e # es \<Rightarrow>
                      if e \<noteq> CHR '':'' then None
                      else
                        (case json_value n es of
                           None \<Rightarrow> None
                         | Some (v, r') \<Rightarrow>
                             (case skip_space r' of
                                [] \<Rightarrow> None
                              | d # ds \<Rightarrow>
                                  if d = CHR '','' then json_members n (jmap_set k v m) ds
                                  else if d = CHR ''}'' then Some (jmap_set k v m, ds)
                                  else None)))))"

definition json_parse :: "string \<Rightarrow> json option" where
  "json_parse s =
     (case json_value (Suc (length s)) s of
        None \<Rightarrow> None
      | Some (j, r) \<Rightarrow> if skip_space r = [] then Some j else None)"

section \<open>Reading back what was written\<close>

lemma skip_space_id [simp]: "\<not> json_space c \<Longrightarrow> skip_space (c # cs) = c # cs"
  by (simp add: skip_space_def)

lemma json_spaces [simp]:
  "\<not> json_space CHR 0x22" "\<not> json_space CHR ''{''" "\<not> json_space CHR ''}''" "\<not> json_space CHR ''[''"
  "\<not> json_space CHR '']''" "\<not> json_space CHR '',''" "\<not> json_space CHR '':''" "\<not> json_space CHR ''-''"
  by (simp_all add: json_space_def)

lemma hex_char_value: "n < 16 \<Longrightarrow> hex_digit_value (hex_char n) = Some n"
  by (auto simp: hex_digit_value_def hex_char_def Let_def)

lemma json_chars_escape: "json_chars (json_escape c @ s) = map_option (apfst (Cons c)) (json_chars s)"
proof -
  have n: "(of_char c :: nat) < 256" by simp
  consider "c \<in> {CHR 0x22, CHR 0x5C, CHR 0x08, CHR 0x09, CHR 0x0A, CHR 0x0C, CHR 0x0D}"
    | "c \<notin> {CHR 0x22, CHR 0x5C, CHR 0x08, CHR 0x09, CHR 0x0A, CHR 0x0C, CHR 0x0D}" "(of_char c :: nat) < 32"
    | "c \<notin> {CHR 0x22, CHR 0x5C}" "32 \<le> (of_char c :: nat)" by force
  then show ?thesis
  proof cases
    case 1
    then show ?thesis by (auto simp: json_escape_def)
  next
    case 2
    define k where "k = (of_char c :: nat)"
    have "(of_char c :: nat) \<noteq> of_char d" if "d \<in> {CHR 0x08, CHR 0x09, CHR 0x0A, CHR 0x0C, CHR 0x0D}" for d
      using 2(1) that by (auto simp: of_char_eq_iff)
    from this [of "CHR 0x08"] this [of "CHR 0x09"] this [of "CHR 0x0A"] this [of "CHR 0x0C"] this [of "CHR 0x0D"]
    have ne: "k \<notin> {8, 9, 10, 12, 13}" by (simp add: k_def)
    have z: "hex_digit_value CHR ''0'' = Some 0" by (simp add: hex_digit_value_def)
    have "char_of (16 * (k div 16) + k mod 16) = c" by (simp add: k_def)
    then show ?thesis
      using 2 ne n z hex_char_value [of "k div 16"] hex_char_value [of "k mod 16"]
      by (simp add: json_escape_def Let_def k_def [symmetric])
  next
    case 3
    then have "(of_char c :: nat) \<notin> {8, 9, 10, 12, 13}" by auto
    with 3 show ?thesis by (auto simp: json_escape_def Let_def)
  qed
qed

lemma json_chars_quote: "json_chars (concat (map json_escape s) @ CHR 0x22 # rest) = Some (s, rest)"
  by (induction s) (simp_all add: json_chars_escape)

lemma decimal_value_nat_digits: "decimal_value (nat_digits n) = n"
  by (simp only: decimal_value_def nat_digits_value)

lemma is_digit_nat_digits: "c \<in> set (nat_digits n) \<Longrightarrow> is_digit c"
  using nat_digits_range [of c n] by (simp add: is_digit_def Let_def)

lemma nat_digits_ne [simp]: "nat_digits n \<noteq> []"
  by (subst nat_digits.simps) simp

lemma nat_digits_hd: "0 < n \<Longrightarrow> hd (nat_digits n) \<noteq> CHR ''0''"
proof (induction n rule: less_induct)
  case (less n)
  show ?case
  proof (cases "n < 10")
    case True
    then have "of_char (hd (nat_digits n)) = 48 + n" by (subst nat_digits.simps) simp
    then show ?thesis using less.prems by auto
  next
    case False
    then have "hd (nat_digits n) = hd (nat_digits (n div 10))" by (subst nat_digits.simps) simp
    then show ?thesis using less.IH [of "n div 10"] False by simp
  qed
qed

text \<open>What may follow a value in a text that was written: anything a number does not go on with.\<close>

definition ends_number :: "string \<Rightarrow> bool" where
  "ends_number rest \<longleftrightarrow> (case rest of [] \<Rightarrow> True | c # _ \<Rightarrow> c \<in> {CHR '','', CHR '']'', CHR ''}''})"

lemma json_nat_digits:
  assumes "ends_number rest"
  shows "json_nat (nat_digits n @ rest) = Some (n, rest)"
proof -
  have nd: "\<not> is_digit (hd rest)" if "rest \<noteq> []"
    using assms that by (cases rest) (auto simp: ends_number_def is_digit_def)
  have t: "takeWhile is_digit (nat_digits n @ rest) = nat_digits n"
    and d: "dropWhile is_digit (nat_digits n @ rest) = rest"
    using is_digit_nat_digits [of _ n] nd by (cases rest; simp)+
  have z: "\<not> (hd (nat_digits n) = CHR ''0'' \<and> length (nat_digits n) > 1)"
    using nat_digits_hd [of n] by (cases "n = 0") (simp_all add: nat_digits.simps [of 0])
  have "rest \<noteq> [] \<Longrightarrow> hd rest \<notin> {CHR ''.'', CHR ''e'', CHR ''E''}"
    using assms by (cases rest) (auto simp: ends_number_def)
  then show ?thesis using z by (auto simp: json_nat_def t d decimal_value_nat_digits)
qed

lemma json_number_show:
  assumes "ends_number rest"
  shows "json_number (js_show_int i @ rest) = Some (JNum i, rest)"
proof (cases "i < 0")
  case True
  then show ?thesis using json_nat_digits [OF assms] by (simp add: json_number_def js_show_int_def)
next
  case False
  moreover obtain c cs where c: "nat_digits (nat i) = c # cs" by (cases "nat_digits (nat i)") auto
  moreover have "c \<noteq> CHR ''-''" using nat_digits_no_minus [of "nat i"] c by auto
  ultimately show ?thesis
    using json_nat_digits [OF assms, of "nat i"] by (simp add: json_number_def js_show_int_def)
qed

text \<open>The first character of a number and of a value that was written.\<close>

lemma show_int_first:
  obtains c cs where "js_show_int i = c # cs" "c = CHR ''-'' \<or> is_digit c"
proof (cases "i < 0")
  case False
  obtain c cs where "nat_digits (nat i) = c # cs" by (cases "nat_digits (nat i)") auto
  then show ?thesis using that False is_digit_nat_digits [of c "nat i"] by (simp add: js_show_int_def)
qed (use that in \<open>auto simp: js_show_int_def\<close>)

fun json_fuel :: "json \<Rightarrow> nat" where
  "json_fuel (JArr xs) = Suc (sum_list (map (\<lambda>x. Suc (json_fuel x)) xs))"
| "json_fuel (JObj kvs) = Suc (sum_list (map (\<lambda>(k, v). Suc (json_fuel v)) kvs))"
| "json_fuel _ = 1"

text \<open>Every object has distinct keys, as every JavaScript object has.\<close>

fun json_proper :: "json \<Rightarrow> bool" where
  "json_proper (JArr xs) \<longleftrightarrow> (\<forall>x \<in> set xs. json_proper x)"
| "json_proper (JObj kvs) \<longleftrightarrow> distinct (map fst kvs) \<and> (\<forall>(k, v) \<in> set kvs. json_proper v)"
| "json_proper _ \<longleftrightarrow> True"

lemma stringify_first:
  obtains c cs where "json_stringify j = c # cs" "\<not> json_space c" "c \<noteq> CHR '']''" "c \<noteq> CHR ''}''"
proof (cases j)
  case (JNum n)
  obtain c cs where c: "js_show_int n = c # cs" "c = CHR ''-'' \<or> is_digit c" by (rule show_int_first)
  then have "\<not> json_space c" "c \<noteq> CHR '']''" "c \<noteq> CHR ''}''" by (auto simp: json_space_def is_digit_def)
  then show ?thesis using that c JNum by simp
next
  case (JBool b)
  then show ?thesis using that by (cases b) (auto simp: json_space_def)
qed (use that in \<open>auto simp: json_space_def json_quote_def\<close>)

lemma join_length:
  assumes "\<And>x. x \<in> set xs \<Longrightarrow> f x \<le> length (g x)"
  shows "sum_list (map (\<lambda>x. Suc (f x)) xs) \<le> Suc (length (js_join [c] (map g xs)))"
  using assms
proof (induction xs rule: induct_list012)
  case (3 x y zs)
  have "f x \<le> length (g x)" using "3.prems" by simp
  moreover have "sum_list (map (\<lambda>x. Suc (f x)) (y # zs)) \<le> Suc (length (js_join [c] (map g (y # zs))))"
    using "3.IH" "3.prems" by auto
  ultimately show ?case by simp
qed simp_all

lemmas json_cases = json_fuel.induct [case_names array object null bool number string]

lemma json_fuel_length: "json_fuel j \<le> length (json_stringify j)"
proof (induction j rule: json_cases)
  case (array xs)
  then show ?case using join_length [of xs json_fuel json_stringify "CHR '',''"] by simp
next
  case (object kvs)
  have "json_fuel (snd kv) \<le> length (json_quote (fst kv) @ '':'' @ json_stringify (snd kv))" if "kv \<in> set kvs" for kv
    using object [of kv "fst kv" "snd kv"] that by simp
  then show ?case
    using join_length [of kvs "\<lambda>kv. json_fuel (snd kv)" "\<lambda>kv. json_quote (fst kv) @ '':'' @ json_stringify (snd kv)"
      "CHR '',''"]
    by (simp add: split_def)
next
  case (number n)
  obtain c cs where "js_show_int n = c # cs" by (rule show_int_first)
  then show ?case by simp
qed (simp_all add: json_quote_def)

lemma jmap_set_fresh: "k \<notin> fst ` set m \<Longrightarrow> jmap_set k v m = m @ [(k, v)]"
  by (induction m) auto

lemma json_items_join:
  assumes "xs \<noteq> []" "sum_list (map (\<lambda>x. Suc (json_fuel x)) xs) \<le> n"
    and "\<And>x n rest. x \<in> set xs \<Longrightarrow> json_fuel x \<le> n \<Longrightarrow> ends_number rest \<Longrightarrow>
           json_value n (json_stringify x @ rest) = Some (x, rest)"
  shows "json_items n (js_join '','' (map json_stringify xs) @ '']'' @ rest) = Some (xs, rest)"
  using assms
proof (induction xs arbitrary: n rule: induct_list012)
  case (2 x)
  then obtain k where k: "n = Suc k" "json_fuel x \<le> k" by (cases n) auto
  have "json_value k (json_stringify x @ '']'' @ rest) = Some (x, '']'' @ rest)"
    by (rule "2.prems") (simp_all add: k ends_number_def)
  then show ?case by (simp add: k)
next
  case (3 x y zs)
  then obtain k where k: "n = Suc k" "json_fuel x \<le> k"
    "sum_list (map (\<lambda>x. Suc (json_fuel x)) (y # zs)) \<le> k" by (cases n) auto
  let ?r = "js_join '','' (map json_stringify (y # zs)) @ '']'' @ rest"
  have "json_value k (json_stringify x @ '','' @ ?r) = Some (x, '','' @ ?r)"
    by (rule "3.prems") (simp_all add: k ends_number_def)
  moreover have "json_items k ?r = Some (y # zs, rest)"
    by (rule "3.IH"(2)) (use "3.prems" k in auto)
  ultimately show ?case by (simp add: k)
qed simp

lemma json_members_join:
  assumes "kvs \<noteq> []" "sum_list (map (\<lambda>(k, v). Suc (json_fuel v)) kvs) \<le> n" "distinct (map fst (m @ kvs))"
    and "\<And>k v n rest. (k, v) \<in> set kvs \<Longrightarrow> json_fuel v \<le> n \<Longrightarrow> ends_number rest \<Longrightarrow>
           json_value n (json_stringify v @ rest) = Some (v, rest)"
  shows "json_members n m (js_join '','' (map (\<lambda>(k, v). json_quote k @ '':'' @ json_stringify v) kvs) @ ''}'' @ rest) =
      Some (m @ kvs, rest)"
  using assms
proof (induction kvs arbitrary: n m rule: induct_list012)
  case (2 kv)
  obtain k v where kv: "kv = (k, v)" by (cases kv)
  with 2 obtain l where l: "n = Suc l" "json_fuel v \<le> l" by (cases n) auto
  have "json_value l (json_stringify v @ ''}'' @ rest) = Some (v, ''}'' @ rest)"
    by (rule "2.prems"(4) [of k]) (simp_all add: l kv ends_number_def)
  then show ?case using "2.prems"(3) by (simp add: l kv json_quote_def json_chars_quote jmap_set_fresh)
next
  case (3 kv kv' kvs)
  obtain k v where kv: "kv = (k, v)" by (cases kv)
  with 3 obtain l where l: "n = Suc l" "json_fuel v \<le> l"
    "sum_list (map (\<lambda>(k, v). Suc (json_fuel v)) (kv' # kvs)) \<le> l" by (cases n) auto
  let ?r = "js_join '','' (map (\<lambda>(k, v). json_quote k @ '':'' @ json_stringify v) (kv' # kvs)) @ ''}'' @ rest"
  have "json_value l (json_stringify v @ '','' @ ?r) = Some (v, '','' @ ?r)"
    by (rule "3.prems"(4) [of k]) (simp_all add: l kv ends_number_def)
  moreover have "json_members l (m @ [(k, v)]) ?r = Some ((m @ [(k, v)]) @ kv' # kvs, rest)"
    by (rule "3.IH"(2)) (use "3.prems" l kv in \<open>auto simp del: json_fuel.simps\<close>)
  ultimately show ?case
    using "3.prems"(3) by (simp add: l kv json_quote_def json_chars_quote jmap_set_fresh)
qed simp

lemma json_value_stringify:
  assumes "json_proper j" "json_fuel j \<le> n" "ends_number rest"
  shows "json_value n (json_stringify j @ rest) = Some (j, rest)"
  using assms
proof (induction j arbitrary: n rest rule: json_cases)
  case (array xs)
  then obtain k where n: "n = Suc k" by (cases n) auto
  show ?case
  proof (cases xs)
    case Nil
    then show ?thesis by (simp add: n)
  next
    case (Cons y ys)
    have i: "json_items k (js_join '','' (map json_stringify xs) @ '']'' @ rest) = Some (xs, rest)"
      by (rule json_items_join) (use array n Cons in auto)
    obtain c cs where "json_stringify y = c # cs" "\<not> json_space c" "c \<noteq> CHR '']''" by (rule stringify_first)
    then have "\<exists>d. js_join '','' (map json_stringify xs) = c # d" using Cons by (cases ys) auto
    then show ?thesis using i \<open>\<not> json_space c\<close> \<open>c \<noteq> CHR '']''\<close> by (auto simp: n)
  qed
next
  case (object kvs)
  then obtain k where n: "n = Suc k" by (cases n) auto
  let ?w = "\<lambda>(k, v). json_quote k @ '':'' @ json_stringify v"
  show ?case
  proof (cases kvs)
    case Nil
    then show ?thesis by (simp add: n)
  next
    case (Cons kv kvs')
    have v: "json_value n (json_stringify v @ rest) = Some (v, rest)"
      if "(k, v) \<in> set kvs" "json_fuel v \<le> n" "ends_number rest" for k v n rest
      using object.IH [of "(k, v)" k v n rest] object.prems(1) that by auto
    have i: "json_members k [] (js_join '','' (map ?w kvs) @ ''}'' @ rest) = Some ([] @ kvs, rest)"
      by (rule json_members_join [OF _ _ _ v]) (use object.prems n Cons in \<open>auto split: prod.splits\<close>)
    have "\<exists>d. js_join '','' (map ?w kvs) = CHR 0x22 # d"
      using Cons by (cases kvs'; cases kv) (auto simp: json_quote_def)
    then show ?thesis using i by (auto simp: n)
  qed
next
  case (bool b)
  then show ?case by (cases n; cases b) (simp_all add: js_startsWith_def json_space_def)
next
  case (number i)
  obtain c cs where c: "js_show_int i = c # cs" "c = CHR ''-'' \<or> is_digit c" by (rule show_int_first)
  then have "\<not> json_space c" "c \<notin> {CHR ''{'', CHR ''['', CHR 0x22, CHR ''t'', CHR ''f'', CHR ''n''}"
    by (auto simp: json_space_def is_digit_def)
  moreover have "json_number (c # cs @ rest) = Some (JNum i, rest)"
    using json_number_show [OF number.prems(3), of i] c(1) by simp
  ultimately show ?case using number.prems(2) c(1) by (cases n) (auto simp: js_startsWith_def)
next
  case null
  then show ?case by (cases n) (simp_all add: js_startsWith_def json_space_def)
next
  case (string s)
  then show ?case by (cases n) (simp_all add: json_quote_def json_chars_quote)
qed

lemma json_parse_stringify [simp]: "json_proper j \<Longrightarrow> json_parse (json_stringify j) = Some j"
  using json_value_stringify [of j "Suc (length (json_stringify j))" "[]"] json_fuel_length [of j]
  by (simp add: json_parse_def ends_number_def skip_space_def)

end
