(* ===== verification/Tokens.thy ===== *)
theory Tokens
  imports Json_Parse Rate_Limits
begin

text \<open>
  Signed tokens (\<open>src/auth/signed-token.ts\<close>, \<open>src/auth/capability-token.ts\<close>, \<open>src/auth/portal-identity.ts\<close>) and
  signed requests (\<open>src/auth/source-auth.ts\<close>, \<open>src/auth/source-auth-sign.ts\<close>). The cryptography is the record
  \<open>crypto_lib\<close>: the hash functions and encodings of Node, and the functions the code calls of the
  \<open>jose\<close> package; a call that throws is \<open>None\<close>. Claims are JSON values, as the code has them. A timestamp
  that is no finite number is \<open>None\<close>.
\<close>

section \<open>Signed payloads\<close>

record crypto_lib =
  cl_sha256 :: "string \<Rightarrow> string"
  cl_hmac :: "string \<Rightarrow> string \<Rightarrow> string"
  cl_base64url :: "string \<Rightarrow> string"
  cl_unbase64url :: "string \<Rightarrow> string"
  cl_hex :: "string \<Rightarrow> string"
  cl_compactSign :: "string \<Rightarrow> string \<Rightarrow> string \<Rightarrow> string"
  cl_compactVerify :: "string \<Rightarrow> string \<Rightarrow> string option"
  cl_protectedKid :: "string \<Rightarrow> string option option"

definition constantTimeEqual :: "string \<Rightarrow> string \<Rightarrow> bool" where
  "constantTimeEqual a b \<longleftrightarrow> length a = length b \<and> list_all2 (=) a b"

definition signingKeyId :: "crypto_lib \<Rightarrow> string \<Rightarrow> string" where
  "signingKeyId lib secret = take 8 (cl_base64url lib (cl_sha256 lib secret))"

text \<open>The arguments of \<open>cl_compactSign\<close> are the key id of the header, the payload and the key.\<close>

definition mintSignedPayload :: "crypto_lib \<Rightarrow> json \<Rightarrow> string \<Rightarrow> string" where
  "mintSignedPayload lib v secret = cl_compactSign lib (signingKeyId lib secret) (json_stringify v) secret"

definition js_lastIndexOf :: "char \<Rightarrow> string \<Rightarrow> nat option" where
  "js_lastIndexOf c s = map_option (\<lambda>i. length s - Suc i) (js_find_index (\<lambda>d. d = c) (rev s))"

definition legacy_mac :: "crypto_lib \<Rightarrow> string \<Rightarrow> string \<Rightarrow> string \<Rightarrow> bool" where
  "legacy_mac lib payload sig secret \<longleftrightarrow>
     (let hmac = cl_hmac lib secret payload
      in constantTimeEqual (cl_base64url lib hmac) sig \<or> constantTimeEqual (cl_hex lib hmac) sig)"

definition verifyLegacyPayload :: "crypto_lib \<Rightarrow> string \<Rightarrow> string list \<Rightarrow> json option" where
  "verifyLegacyPayload lib token secrets =
     (case js_lastIndexOf CHR ''.'' token of
        None \<Rightarrow> None
      | Some dot \<Rightarrow>
          if dot = 0 then None
          else
            let payload = take dot token; sig = drop (dot + 1) token
            in case List.find (legacy_mac lib payload sig) secrets of
                 None \<Rightarrow> None
               | Some _ \<Rightarrow> json_parse (cl_unbase64url lib payload))"

fun first_verified :: "crypto_lib \<Rightarrow> string \<Rightarrow> string list \<Rightarrow> json option" where
  "first_verified lib token [] = None"
| "first_verified lib token (candidate # ordered) =
     (case Option.bind (cl_compactVerify lib token candidate) json_parse of
        None \<Rightarrow> first_verified lib token ordered
      | Some v \<Rightarrow> Some v)"

definition verifySignedPayload :: "crypto_lib \<Rightarrow> string \<Rightarrow> string list \<Rightarrow> json option" where
  "verifySignedPayload lib token secrets =
     (if length (js_split CHR ''.'' token) \<noteq> 3 then verifyLegacyPayload lib token secrets
      else
        case cl_protectedKid lib token of
          None \<Rightarrow> None
        | Some kid \<Rightarrow>
            let ordered = (case kid of
                             None \<Rightarrow> secrets
                           | Some k \<Rightarrow> sort_key (\<lambda>s. if signingKeyId lib s = k then 0 else (1::nat)) secrets)
            in first_verified lib token ordered)"

section \<open>Capability tokens\<close>

definition CAPABILITY_TTL_MS :: int where "CAPABILITY_TTL_MS = 60 * 60000"
definition CONTROL_PLANE_AUD :: string where "CONTROL_PLANE_AUD = ''control-plane''"
definition OAUTH_CONSENT_AUD :: string where "OAUTH_CONSENT_AUD = ''oauth-consent''"
definition CREDENTIAL_BROKER_AUD :: string where "CREDENTIAL_BROKER_AUD = ''credential-broker''"
definition EGRESS_PROXY_AUD :: string where "EGRESS_PROXY_AUD = ''egress-proxy''"
definition BLOB_TRANSFER_AUD :: string where "BLOB_TRANSFER_AUD = ''blob-transfer''"
definition SECRET_DROP_AUD :: string where "SECRET_DROP_AUD = ''secret-drop''"

text \<open>\<open>{ orgId: configOrgId(), ...claims }\<close>: the claims win over the default.\<close>

definition mintCapabilityToken :: "crypto_lib \<Rightarrow> string \<Rightarrow> (string \<times> json) list \<Rightarrow> string \<Rightarrow> string" where
  "mintCapabilityToken lib org claims secret =
     mintSignedPayload lib (JObj (fold (\<lambda>(k, v). jmap_set k v) claims [(''orgId'', JStr org)])) secret"

text \<open>\<open>Intl.DateTimeFormat\<close> knows the zone: the parameter \<open>knownTz\<close>.\<close>

definition isValidCapabilityTimezone :: "(string \<Rightarrow> bool) \<Rightarrow> json \<Rightarrow> bool" where
  "isValidCapabilityTimezone knownTz timezone =
     (case timezone of
        JStr tz \<Rightarrow> if length tz = 0 \<or> length tz > 64 \<or> js_trim tz \<noteq> tz then False else knownTz tz
      | _ \<Rightarrow> False)"

fun is_JStr :: "json \<Rightarrow> bool" where "is_JStr (JStr _) = True" | "is_JStr _ = False"
fun is_JNum :: "json \<Rightarrow> bool" where "is_JNum (JNum _) = True" | "is_JNum _ = False"
fun is_JBool :: "json \<Rightarrow> bool" where "is_JBool (JBool _) = True" | "is_JBool _ = False"
fun is_JArr :: "json \<Rightarrow> bool" where "is_JArr (JArr _) = True" | "is_JArr _ = False"

text \<open>\<open>claims.k !== undefined && !p(claims.k)\<close> does not hold.\<close>

definition absent_or :: "(json \<Rightarrow> bool) \<Rightarrow> string \<Rightarrow> json \<Rightarrow> bool" where
  "absent_or p k claims \<longleftrightarrow> (case json_get k claims of None \<Rightarrow> True | Some v \<Rightarrow> p v)"

definition present :: "(json \<Rightarrow> bool) \<Rightarrow> string \<Rightarrow> json \<Rightarrow> bool" where
  "present p k claims \<longleftrightarrow> (case json_get k claims of None \<Rightarrow> False | Some v \<Rightarrow> p v)"

definition blob_dir :: "json \<Rightarrow> bool" where
  "blob_dir blob \<longleftrightarrow> json_get ''dir'' blob = Some (JStr ''read'') \<or> json_get ''dir'' blob = Some (JStr ''write'')"

definition claims_exp :: "json \<Rightarrow> time" where
  "claims_exp claims = (case json_get ''exp'' claims of Some (JNum t) \<Rightarrow> t | _ \<Rightarrow> 0)"

definition verifyCapabilityToken ::
  "crypto_lib \<Rightarrow> (string \<Rightarrow> bool) \<Rightarrow> string \<Rightarrow> string list \<Rightarrow> time \<Rightarrow> json option" where
  "verifyCapabilityToken lib knownTz token secrets now =
     (case verifySignedPayload lib token secrets of
        None \<Rightarrow> None
      | Some claims \<Rightarrow>
          if \<not> json_truthy claims \<or> \<not> present is_JStr ''actorId'' claims \<or> \<not> present is_JStr ''scopeId'' claims \<or>
             \<not> present is_JNum ''exp'' claims
          then None
          else if \<not> absent_or (isValidCapabilityTimezone knownTz) ''timezone'' claims then None
          else if \<not> absent_or is_JStr ''scopeVersion'' claims then None
          else if \<not> absent_or is_JArr ''destinations'' claims then None
          else if \<not> absent_or is_JArr ''credentials'' claims then None
          else if \<not> absent_or is_JArr ''keychainMembers'' claims then None
          else if \<not> absent_or (present is_JArr ''read'') ''memory'' claims then None
          else if \<not> absent_or is_JBool ''liveActor'' claims then None
          else if \<not> absent_or is_JBool ''liveAuthor'' claims then None
          else if \<not> absent_or blob_dir ''blob'' claims then None
          else if \<not> absent_or is_JStr ''drop'' claims then None
          else if now \<ge> claims_exp claims then None
          else Some claims)"

datatype blob_transfer = BlobRead string | BlobWrite

text \<open>\<open>/^[0-9a-f]{32}$/\<close>.\<close>

definition BLOB_ID :: "string \<Rightarrow> bool" where
  "BLOB_ID s \<longleftrightarrow>
     length s = 32 \<and> list_all (\<lambda>c. is_digit c \<or> (let n = (of_char c :: nat) in 97 \<le> n \<and> n \<le> 102)) s"

fun blob_transfer_dir :: "blob_transfer \<Rightarrow> string" where
  "blob_transfer_dir (BlobRead _) = ''read''"
| "blob_transfer_dir BlobWrite = ''write''"

definition verifyBlobTransferCapability ::
  "crypto_lib \<Rightarrow> (string \<Rightarrow> bool) \<Rightarrow> string \<Rightarrow> string list \<Rightarrow> blob_transfer \<Rightarrow> time \<Rightarrow> json option" where
  "verifyBlobTransferCapability lib knownTz token secrets expected now =
     (case verifyCapabilityToken lib knownTz token secrets now of
        None \<Rightarrow> None
      | Some claims \<Rightarrow>
          (case json_get ''blob'' claims of
             None \<Rightarrow> None
           | Some grant \<Rightarrow>
               if json_get ''aud'' claims \<noteq> Some (JStr BLOB_TRANSFER_AUD) \<or> \<not> json_truthy grant \<or>
                  json_get ''dir'' grant \<noteq> Some (JStr (blob_transfer_dir expected))
               then None
               else if \<not> absent_or (\<lambda>v. case v of JStr s \<Rightarrow> BLOB_ID s | _ \<Rightarrow> False) ''id'' grant then None
               else if (case expected of
                          BlobRead i \<Rightarrow> json_get ''id'' grant \<noteq> Some (JStr i)
                        | BlobWrite \<Rightarrow> json_get ''id'' grant \<noteq> None)
               then None
               else Some claims))"

section \<open>Portal identities\<close>

definition verifyPortalIdentity :: "crypto_lib \<Rightarrow> string \<Rightarrow> string \<Rightarrow> time \<Rightarrow> json option" where
  "verifyPortalIdentity lib token secret nowMs =
     (case verifySignedPayload lib token [secret] of
        None \<Rightarrow> None
      | Some claims \<Rightarrow>
          if \<not> json_truthy claims \<or> \<not> present is_JStr ''p'' claims \<or> \<not> present json_truthy ''p'' claims \<or>
             \<not> present is_JNum ''exp'' claims
          then None
          else if nowMs > claims_exp claims then None
          else Some claims)"

section \<open>Signed requests\<close>

definition SOURCE_AUTH_REPLAY_WINDOW_MS :: int where "SOURCE_AUTH_REPLAY_WINDOW_MS = 5 * 60000"
definition MIN_SIGNING_SECRET_LENGTH :: nat where "MIN_SIGNING_SECRET_LENGTH = 32"

definition isStrongSigningSecret :: "string option \<Rightarrow> bool" where
  "isStrongSigningSecret secret \<longleftrightarrow>
     (case secret of None \<Rightarrow> 0 | Some s \<Rightarrow> length (js_trim s)) \<ge> MIN_SIGNING_SECRET_LENGTH"

record source_request =
  sr_signature :: string
  sr_timestamp :: "int option"
  sr_body :: string
  sr_eventId :: string

datatype source_auth_reason = MissingSignature | InvalidTimestamp | StaleTimestamp | SignatureMismatch | DuplicateEvent

definition canonicalPayload :: "string \<Rightarrow> string \<Rightarrow> string \<Rightarrow> string" where
  "canonicalPayload method pathWithQuery body = method @ [CHR 0x0A] @ pathWithQuery @ [CHR 0x0A] @ body"

definition signRequest :: "crypto_lib \<Rightarrow> string \<Rightarrow> int \<Rightarrow> string \<Rightarrow> string" where
  "signRequest lib secret timestampSec canonical =
     ''v0='' @ cl_hex lib (cl_hmac lib secret (''v0:'' @ js_show_int timestampSec @ '':'' @ canonical))"

definition signedRequestHeaders ::
  "crypto_lib \<Rightarrow> string option \<Rightarrow> string \<Rightarrow> string \<Rightarrow> string \<Rightarrow> (string, string) jsmap \<Rightarrow> int \<Rightarrow> (string, string) jsmap" where
  "signedRequestHeaders lib secret method pathWithQuery body base nowSec =
     (if \<not> truthy secret then base
      else
        let canonical = canonicalPayload method pathWithQuery body
        in jmap_set ''x-signature'' (signRequest lib (the secret) nowSec canonical)
             (jmap_set ''x-timestamp'' (js_show_int nowSec) base))"

definition verifySignature ::
  "crypto_lib \<Rightarrow> string \<Rightarrow> source_request \<Rightarrow> time \<Rightarrow> int \<Rightarrow> source_auth_reason + unit" where
  "verifySignature lib secret req now replayWindowMs =
     (if sr_signature req = [] then Inl MissingSignature
      else
        case sr_timestamp req of
          None \<Rightarrow> Inl InvalidTimestamp
        | Some ts \<Rightarrow>
            if \<bar>now - ts * 1000\<bar> > replayWindowMs then Inl StaleTimestamp
            else if \<not> constantTimeEqual (signRequest lib secret ts (sr_body req)) (sr_signature req)
            then Inl SignatureMismatch
            else Inr ())"

record source_auth_opts =
  so_signingSecret :: string
  so_replayWindowMs :: "int option"

definition source_auth_verify ::
  "crypto_lib \<Rightarrow> source_auth_opts \<Rightarrow> time \<Rightarrow> source_request \<Rightarrow> replay_guard \<Rightarrow>
     (source_auth_reason + unit) \<times> replay_guard" where
  "source_auth_verify lib opts t req dedupe =
     (let replayWindowMs = (case so_replayWindowMs opts of None \<Rightarrow> SOURCE_AUTH_REPLAY_WINDOW_MS | Some w \<Rightarrow> w)
      in case verifySignature lib (so_signingSecret opts) req t replayWindowMs of
           Inl e \<Rightarrow> (Inl e, dedupe)
         | Inr _ \<Rightarrow>
             (let expiresAtMs = the (sr_timestamp req) * 1000 + replayWindowMs
              in case replay_claim (sr_eventId req) expiresAtMs t dedupe of
                   (claimed, dedupe') \<Rightarrow> (if claimed then Inr () else Inl DuplicateEvent, dedupe')))"

section \<open>What a token is accepted for\<close>

lemma constantTimeEqual_iff [simp]: "constantTimeEqual a b \<longleftrightarrow> a = b"
  by (auto simp only: constantTimeEqual_def list.rel_eq)

text \<open>
  The documented behaviour of the functions of \<open>jose\<close>: a compact signature has three parts, its header
  carries the key id, and it verifies to its payload under its own key and under no other of the given
  keys.
\<close>

definition jose_signature :: "crypto_lib \<Rightarrow> string list \<Rightarrow> string \<Rightarrow> string \<Rightarrow> string \<Rightarrow> bool" where
  "jose_signature lib secrets kid payload secret \<longleftrightarrow>
     (let token = cl_compactSign lib kid payload secret
      in length (js_split CHR ''.'' token) = 3 \<and> cl_protectedKid lib token = Some (Some kid) \<and>
         cl_compactVerify lib token secret = Some payload \<and>
         (\<forall>s \<in> set secrets. s \<noteq> secret \<longrightarrow> cl_compactVerify lib token s = None))"

lemma first_verified_sorted:
  assumes "\<forall>s \<in> set ordered. s \<noteq> secret \<longrightarrow> cl_compactVerify lib token s = None"
    and "Option.bind (cl_compactVerify lib token secret) json_parse = Some v"
  shows "first_verified lib token ordered = (if secret \<in> set ordered then Some v else None)"
  using assms
proof (induction ordered)
  case (Cons s ordered)
  then show ?case by (cases "s = secret") auto
qed simp

lemma verify_minted:
  assumes "jose_signature lib secrets (signingKeyId lib secret) (json_stringify v) secret" "json_proper v"
  shows "verifySignedPayload lib (mintSignedPayload lib v secret) secrets = (if secret \<in> set secrets then Some v else None)"
proof -
  let ?t = "mintSignedPayload lib v secret"
  have none: "\<forall>s \<in> set xs. s \<noteq> secret \<longrightarrow> cl_compactVerify lib ?t s = None" if "set xs = set secrets" for xs
    using assms(1) that by (auto simp: jose_signature_def mintSignedPayload_def Let_def)
  have own: "Option.bind (cl_compactVerify lib ?t secret) json_parse = Some v"
    using assms by (simp add: jose_signature_def mintSignedPayload_def Let_def)
  have "first_verified lib ?t xs = (if secret \<in> set secrets then Some v else None)" if "set xs = set secrets" for xs
    using first_verified_sorted [OF none [OF that] own] that by simp
  then show ?thesis
    using assms(1) by (simp add: verifySignedPayload_def jose_signature_def mintSignedPayload_def Let_def)
qed

text \<open>The types that the verification establishes of the fields of the claims.\<close>

definition claims_typed :: "(string \<Rightarrow> bool) \<Rightarrow> json \<Rightarrow> bool" where
  "claims_typed knownTz claims \<longleftrightarrow>
     (\<exists>actorId. json_get ''actorId'' claims = Some (JStr actorId)) \<and>
     (\<exists>sc. json_get ''scopeId'' claims = Some (JStr sc)) \<and>
     (\<exists>t. json_get ''exp'' claims = Some (JNum t)) \<and>
     (\<forall>v. json_get ''timezone'' claims = Some v \<longrightarrow>
        (\<exists>tz. v = JStr tz \<and> tz \<noteq> [] \<and> length tz \<le> 64 \<and> js_trim tz = tz \<and> knownTz tz)) \<and>
     (\<forall>v. json_get ''scopeVersion'' claims = Some v \<longrightarrow> (\<exists>s. v = JStr s)) \<and>
     (\<forall>v. json_get ''drop'' claims = Some v \<longrightarrow> (\<exists>s. v = JStr s)) \<and>
     (\<forall>k \<in> {''destinations'', ''credentials'', ''keychainMembers''}.
        \<forall>v. json_get k claims = Some v \<longrightarrow> (\<exists>xs. v = JArr xs)) \<and>
     (\<forall>k \<in> {''liveActor'', ''liveAuthor''}. \<forall>v. json_get k claims = Some v \<longrightarrow> (\<exists>b. v = JBool b)) \<and>
     (\<forall>v. json_get ''memory'' claims = Some v \<longrightarrow> (\<exists>xs. json_get ''read'' v = Some (JArr xs))) \<and>
     (\<forall>v. json_get ''blob'' claims = Some v \<longrightarrow>
        json_get ''dir'' v = Some (JStr ''read'') \<or> json_get ''dir'' v = Some (JStr ''write''))"

lemma json_kinds:
  "is_JStr v \<longleftrightarrow> (\<exists>s. v = JStr s)" "is_JNum v \<longleftrightarrow> (\<exists>n. v = JNum n)" "is_JBool v \<longleftrightarrow> (\<exists>b. v = JBool b)"
  "is_JArr v \<longleftrightarrow> (\<exists>xs. v = JArr xs)"
  by (cases v; simp)+

lemma timezone_iff:
  "isValidCapabilityTimezone knownTz v \<longleftrightarrow>
     (\<exists>tz. v = JStr tz \<and> tz \<noteq> [] \<and> length tz \<le> 64 \<and> js_trim tz = tz \<and> knownTz tz)"
  by (cases v) (auto simp: isValidCapabilityTimezone_def)

lemma get_truthy: "json_get k j = Some v \<Longrightarrow> json_truthy j"
  by (cases j) auto

lemma absent_or_iff: "absent_or p k j \<longleftrightarrow> (\<forall>v. json_get k j = Some v \<longrightarrow> p v)"
  and present_iff: "present p k j \<longleftrightarrow> (\<exists>v. json_get k j = Some v \<and> p v)"
  by (auto simp: absent_or_def present_def split: option.split)

lemma verifyCapabilityToken_iff:
  "verifyCapabilityToken lib knownTz token secrets now = Some c \<longleftrightarrow>
     verifySignedPayload lib token secrets = Some c \<and> claims_typed knownTz c \<and> now < claims_exp c"
proof -
  have eq: "claims_typed knownTz c \<longleftrightarrow>
      json_truthy c \<and> present is_JStr ''actorId'' c \<and> present is_JStr ''scopeId'' c \<and> present is_JNum ''exp'' c \<and>
      absent_or (isValidCapabilityTimezone knownTz) ''timezone'' c \<and> absent_or is_JStr ''scopeVersion'' c \<and>
      absent_or is_JArr ''destinations'' c \<and> absent_or is_JArr ''credentials'' c \<and> absent_or is_JArr ''keychainMembers'' c \<and>
      absent_or (present is_JArr ''read'') ''memory'' c \<and> absent_or is_JBool ''liveActor'' c \<and>
      absent_or is_JBool ''liveAuthor'' c \<and> absent_or blob_dir ''blob'' c \<and> absent_or is_JStr ''drop'' c"
  proof -
    have p: "present is_JStr k c \<longleftrightarrow> (\<exists>s. json_get k c = Some (JStr s))"
      "present is_JNum k c \<longleftrightarrow> (\<exists>n. json_get k c = Some (JNum n))"
      "present is_JArr k d \<longleftrightarrow> (\<exists>xs. json_get k d = Some (JArr xs))" for k d
      by (auto simp: present_iff json_kinds)
    have tr: "(\<exists>n. json_get ''exp'' c = Some (JNum n)) \<longrightarrow> json_truthy c" using get_truthy by blast
    show ?thesis
      unfolding claims_typed_def absent_or_iff p json_kinds timezone_iff blob_dir_def ball_simps
      using tr by argo
  qed
  show ?thesis
  proof (cases "verifySignedPayload lib token secrets")
    case (Some d)
    show ?thesis
    proof (cases "d = c")
      case True
      then show ?thesis by (simp add: verifyCapabilityToken_def Some eq not_le) blast
    qed (simp add: verifyCapabilityToken_def Some)
  qed (simp add: verifyCapabilityToken_def)
qed

lemma minted_capability:
  assumes "jose_signature lib secrets (signingKeyId lib secret) (json_stringify c) secret" "json_proper c"
    and "c = JObj (fold (\<lambda>(k, v). jmap_set k v) claims [(''orgId'', JStr org)])"
  shows "verifyCapabilityToken lib knownTz (mintCapabilityToken lib org claims secret) secrets now =
    (if secret \<in> set secrets \<and> claims_typed knownTz c \<and> now < claims_exp c then Some c else None)"
proof -
  let ?v = "verifyCapabilityToken lib knownTz (mintCapabilityToken lib org claims secret) secrets now"
  have iff: "?v = Some d \<longleftrightarrow> (if secret \<in> set secrets then Some c else None) = Some d \<and> claims_typed knownTz d \<and> now < claims_exp d"
    for d
    using verify_minted [OF assms(1,2)] assms(3) by (simp add: verifyCapabilityToken_iff mintCapabilityToken_def)
  from this [of c] show ?thesis
  proof (cases "secret \<in> set secrets \<and> claims_typed knownTz c \<and> now < claims_exp c")
    case False
    have "?v \<noteq> Some d" for d using iff [of d] False by (auto split: if_splits)
    then have "?v = None" by (metis option.exhaust)
    then show ?thesis using False by auto
  qed simp
qed

text \<open>
  C16. A capability token is worth exactly what was signed. A token minted under a secret is accepted if and
  only if that secret is among the verifier's (in whatever order the key id puts them, so that keys can be
  rotated), the claims have the types the program reads them at, and the expiry is in the future; what
  the verifier then hands on is the claims as minted, read back from the text.
\<close>

theorem capability_accepted_exactly:
  assumes "jose_signature lib secrets (signingKeyId lib secret) (json_stringify c) secret" "json_proper c"
    and "c = JObj (fold (\<lambda>(k, v). jmap_set k v) claims [(''orgId'', JStr org)])"
  shows "verifyCapabilityToken lib knownTz (mintCapabilityToken lib org claims secret) secrets now =
    (if secret \<in> set secrets \<and> claims_typed knownTz c \<and> now < claims_exp c then Some c else None)"
  using assms by (rule minted_capability)

text \<open>A toy implementation of the cryptography: the parts of a token are lengths and plain text.\<close>

definition toy_lib :: crypto_lib where
  "toy_lib =
     \<lparr> cl_sha256 = id, cl_hmac = (\<lambda>k d. k @ '':'' @ d), cl_base64url = id, cl_unbase64url = id, cl_hex = id,
       cl_compactSign = (\<lambda>kid p s. kid @ ''.'' @ p @ ''.'' @ s),
       cl_compactVerify = (\<lambda>t s. case js_split CHR ''.'' t of [kid, p, s'] \<Rightarrow> if s = s' then Some p else None | _ \<Rightarrow> None),
       cl_protectedKid = (\<lambda>t. case js_split CHR ''.'' t of [kid, p, s] \<Rightarrow> Some (Some kid) | _ \<Rightarrow> None) \<rparr>"

definition demo_claims :: "(string \<times> json) list" where
  "demo_claims = [(''actorId'', JStr ''ann''), (''scopeId'', JStr ''personal:ann''), (''aud'', JStr BLOB_TRANSFER_AUD),
     (''blob'', JObj [(''dir'', JStr ''write'')]), (''exp'', JNum 90)]"

definition demo_signed :: json where
  "demo_signed = JObj (fold (\<lambda>(k, v). jmap_set k v) demo_claims [(''orgId'', JStr ''acme'')])"

theorem capability_accepted_exactly_witness:
  "verifyCapabilityToken toy_lib (\<lambda>_. True) (mintCapabilityToken toy_lib ''acme'' demo_claims ''old'') [''new'', ''old''] 5 =
     Some demo_signed \<and>
   verifyCapabilityToken toy_lib (\<lambda>_. True) (mintCapabilityToken toy_lib ''acme'' demo_claims ''old'') [''new''] 5 = None \<and>
   verifyCapabilityToken toy_lib (\<lambda>_. True) (mintCapabilityToken toy_lib ''acme'' demo_claims ''old'') [''new'', ''old''] 90 = None"
proof -
  have j: "jose_signature toy_lib [''new'', ''old''] (signingKeyId toy_lib ''old'') (json_stringify demo_signed) ''old''"
    "jose_signature toy_lib [''new''] (signingKeyId toy_lib ''old'') (json_stringify demo_signed) ''old''"
    by code_simp+
  have p: "json_proper demo_signed" by code_simp
  have x: "claims_exp demo_signed = 90" by code_simp
  have e: "demo_signed = JObj [(''orgId'', JStr ''acme''), (''actorId'', JStr ''ann''), (''scopeId'', JStr ''personal:ann''),
      (''aud'', JStr BLOB_TRANSFER_AUD), (''blob'', JObj [(''dir'', JStr ''write'')]), (''exp'', JNum 90)]"
    by code_simp
  have t: "claims_typed (\<lambda>_. True) demo_signed" by (simp add: claims_typed_def e)
  show ?thesis
    using capability_accepted_exactly [OF j(1) p demo_signed_def, of "\<lambda>_. True" 5]
      capability_accepted_exactly [OF j(2) p demo_signed_def, of "\<lambda>_. True" 5]
      capability_accepted_exactly [OF j(1) p demo_signed_def, of "\<lambda>_. True" 90] x t by simp
qed

section \<open>One token, one transfer\<close>

lemma verifyBlob_iff:
  "verifyBlobTransferCapability lib knownTz token secrets e now = Some c \<longleftrightarrow>
     verifyCapabilityToken lib knownTz token secrets now = Some c \<and>
     json_get ''aud'' c = Some (JStr BLOB_TRANSFER_AUD) \<and>
     (\<exists>grant. json_get ''blob'' c = Some grant \<and> json_get ''dir'' grant = Some (JStr (blob_transfer_dir e)) \<and>
        (case e of BlobRead i \<Rightarrow> json_get ''id'' grant = Some (JStr i) \<and> BLOB_ID i
                 | BlobWrite \<Rightarrow> json_get ''id'' grant = None))"
  by (cases e)
     (auto simp: verifyBlobTransferCapability_def absent_or_iff dest: get_truthy split: option.splits json.splits if_splits)

text \<open>
  A blob token opens one transfer: it was minted for the transfer of blobs, it has not expired, the
  transfer is the one it names (reading the one blob whose well-formed id it carries, or writing a new
  blob and then carrying no id), and no other transfer is accepted with it, under any secrets and at any
  time.
\<close>

theorem blob_token_one_transfer:
  assumes "verifyBlobTransferCapability lib knownTz token secrets e now = Some c"
  shows "json_get ''aud'' c = Some (JStr BLOB_TRANSFER_AUD) \<and> now < claims_exp c \<and> claims_typed knownTz c \<and>
    (\<forall>i. e = BlobRead i \<longrightarrow> length i = 32) \<and>
    (\<forall>e' now'. verifyBlobTransferCapability lib knownTz token secrets e' now' \<noteq> None \<longrightarrow> e' = e)"
proof -
  have c: "verifySignedPayload lib token secrets = Some c" "claims_typed knownTz c" "now < claims_exp c"
    using assms by (auto simp: verifyBlob_iff verifyCapabilityToken_iff)
  have one: "e' = e" if "verifyBlobTransferCapability lib knownTz token secrets e' now' = Some c'" for e' now' c'
  proof -
    have "c' = c" using that c(1) by (auto simp: verifyBlob_iff verifyCapabilityToken_iff)
    then show ?thesis using assms that by (cases e; cases e') (auto simp: verifyBlob_iff)
  qed
  have "length i = 32" if "e = BlobRead i" for i
    using assms that unfolding verifyBlob_iff BLOB_ID_def by auto
  moreover have "json_get ''aud'' c = Some (JStr BLOB_TRANSFER_AUD)" using assms by (simp add: verifyBlob_iff)
  ultimately show ?thesis using one c(2,3) by blast
qed

theorem blob_token_one_transfer_witness:
  "verifyBlobTransferCapability toy_lib (\<lambda>_. True) (mintCapabilityToken toy_lib ''acme'' demo_claims ''k'') [''k''] BlobWrite 5 =
     Some demo_signed \<and>
   verifyBlobTransferCapability toy_lib (\<lambda>_. True) (mintCapabilityToken toy_lib ''acme'' demo_claims ''k'') [''k''] (BlobRead ''x'') 5 = None"
proof -
  have a: "verifyBlobTransferCapability toy_lib (\<lambda>_. True) (mintCapabilityToken toy_lib ''acme'' demo_claims ''k'') [''k''] BlobWrite 5 =
     Some demo_signed" by code_simp
  have "BlobRead ''x'' \<noteq> BlobWrite" by simp
  with a show ?thesis using blob_token_one_transfer [OF a] by metis
qed

section \<open>A signed request is served once\<close>

lemma source_auth_verify_ok:
  assumes "source_auth_verify lib opts t req g = (Inr (), g')"
  shows "\<exists>ts w. sr_timestamp req = Some ts \<and>
      w = (case so_replayWindowMs opts of None \<Rightarrow> SOURCE_AUTH_REPLAY_WINDOW_MS | Some w \<Rightarrow> w) \<and>
      \<bar>t - ts * 1000\<bar> \<le> w \<and> sr_signature req = signRequest lib (so_signingSecret opts) ts (sr_body req) \<and>
      replay_claim (sr_eventId req) (ts * 1000 + w) t g = (True, g')"
  using assms
  by (auto simp: source_auth_verify_def verifySignature_def Let_def split: sum.splits if_splits option.splits prod.splits)

lemma source_auth_guard:
  "snd (source_auth_verify lib opts t req g) = g \<or>
     (\<exists>till. snd (source_auth_verify lib opts t req g) = snd (replay_claim (sr_eventId req) till t g))"
proof (cases "verifySignature lib (so_signingSecret opts) req t
    (case so_replayWindowMs opts of None \<Rightarrow> SOURCE_AUTH_REPLAY_WINDOW_MS | Some w \<Rightarrow> w)")
  case (Inr u)
  then show ?thesis
    unfolding source_auth_verify_def Let_def by (auto simp: case_prod_beta intro: exI)
qed (simp add: source_auth_verify_def Let_def)

text \<open>Serving a sequence of requests, each at its own time.\<close>

definition serve :: "crypto_lib \<Rightarrow> source_auth_opts \<Rightarrow> (time \<times> source_request) list \<Rightarrow> replay_guard \<Rightarrow> replay_guard" where
  "serve lib opts reqs g = fold (\<lambda>(t, req) g. snd (source_auth_verify lib opts t req g)) reqs g"

lemma serve_barred:
  "barred g e till \<Longrightarrow> \<forall>(t, req) \<in> set reqs. t \<le> till \<Longrightarrow> barred (serve lib opts reqs g) e till"
proof (induction reqs arbitrary: g)
  case (Cons r reqs)
  obtain t req where r: "r = (t, req)" by (cases r)
  have "barred (snd (source_auth_verify lib opts t req g)) e till"
    using source_auth_guard [of lib opts t req g] mem_guard.bar_kept [of g e till t] Cons.prems r by auto
  then show ?case using Cons r by (simp add: serve_def)
qed (simp add: serve_def)

text \<open>
  A signed request is served once, for ever: after a request was accepted, presenting its event again
  with its timestamp is refused at every later time, whatever other requests were served in between; until
  the end of the replay window by the guard and after it because the timestamp is stale. An accepted
  request was signed under the shared secret within the window.
\<close>

theorem signed_request_served_once:
  assumes "source_auth_verify lib opts t req g = (Inr (), g')"
    and "\<forall>(t', req') \<in> set reqs. t' \<le> t''" "t \<le> t''"
    and "sr_eventId again = sr_eventId req" "sr_timestamp again = sr_timestamp req"
  shows "fst (source_auth_verify lib opts t'' again (serve lib opts reqs g')) \<noteq> Inr () \<and>
    (\<exists>ts. sr_timestamp req = Some ts \<and> sr_signature req = signRequest lib (so_signingSecret opts) ts (sr_body req) \<and>
      \<bar>t - ts * 1000\<bar> \<le> (case so_replayWindowMs opts of None \<Rightarrow> SOURCE_AUTH_REPLAY_WINDOW_MS | Some w \<Rightarrow> w))"
proof -
  obtain ts w where ts: "sr_timestamp req = Some ts"
      "w = (case so_replayWindowMs opts of None \<Rightarrow> SOURCE_AUTH_REPLAY_WINDOW_MS | Some w \<Rightarrow> w)"
      "\<bar>t - ts * 1000\<bar> \<le> w" "sr_signature req = signRequest lib (so_signingSecret opts) ts (sr_body req)"
      "replay_claim (sr_eventId req) (ts * 1000 + w) t g = (True, g')"
    using source_auth_verify_ok [OF assms(1)] by blast
  have "fst (source_auth_verify lib opts t'' again (serve lib opts reqs g')) \<noteq> Inr ()"
  proof
    let ?g = "serve lib opts reqs g'"
    assume "fst (source_auth_verify lib opts t'' again ?g) = Inr ()"
    then have "source_auth_verify lib opts t'' again ?g = (Inr (), snd (source_auth_verify lib opts t'' again ?g))"
      by (simp add: prod_eq_iff)
    from source_auth_verify_ok [OF this] assms(4,5) ts(1,2)
    have late: "\<bar>t'' - ts * 1000\<bar> \<le> w" and again: "fst (replay_claim (sr_eventId req) (ts * 1000 + w) t'' ?g)"
      by auto
    have "barred ?g (sr_eventId req) (ts * 1000 + w)"
      using serve_barred mem_guard.accept_bars [OF ts(5)] assms(2) late by fastforce
    with again late show False using mem_guard.bar_refuses [of ?g _ _ t''] by fastforce
  qed
  then show ?thesis using ts by blast
qed

definition demo_request :: source_request where
  "demo_request = \<lparr> sr_signature = signRequest toy_lib ''k'' 100 ''hello'', sr_timestamp = Some 100, sr_body = ''hello'',
     sr_eventId = ''e1'' \<rparr>"

theorem signed_request_served_once_witness:
  "let opts = \<lparr> so_signingSecret = ''k'', so_replayWindowMs = None \<rparr>;
       g = snd (source_auth_verify toy_lib opts 100500 demo_request createReplayDedupe)
   in fst (source_auth_verify toy_lib opts 100500 demo_request createReplayDedupe) = Inr () \<and>
      fst (source_auth_verify toy_lib opts 100900 demo_request g) \<noteq> Inr () \<and>
      fst (source_auth_verify toy_lib opts 900900 demo_request g) \<noteq> Inr ()"
proof -
  let ?o = "\<lparr> so_signingSecret = ''k'', so_replayWindowMs = None \<rparr>"
  let ?g = "snd (source_auth_verify toy_lib ?o 100500 demo_request createReplayDedupe)"
  have a: "fst (source_auth_verify toy_lib ?o 100500 demo_request createReplayDedupe) = Inr ()" by code_simp
  then have b: "source_auth_verify toy_lib ?o 100500 demo_request createReplayDedupe = (Inr (), ?g)"
    by (simp add: prod_eq_iff)
  have "fst (source_auth_verify toy_lib ?o t demo_request ?g) \<noteq> Inr ()" if "100500 \<le> t" for t
    using signed_request_served_once [OF b, of "[]" t demo_request] that by (simp add: serve_def)
  from this [of 100900] this [of 900900] a show ?thesis by (simp add: Let_def)
qed

end
