(* ===== verification/Projects.thy ===== *)
theory Projects
  imports Membership Sessions
begin

text \<open>
  Projects (\<open>src/projects/project-store.ts\<close>): named groups whose roster the program itself keeps, and what
  the application builds on them (\<open>src/api/app-helpers.ts\<close>, \<open>src/api/app-sessions.ts\<close>): changing a roster
  together with the sessions of the project, and the check that a capability of a project is still
  current. A method runs under the project's lock, so it is one step. The clock, new ids, the id of the
  organisation and the test for active members are arguments. The audit log is left out.
\<close>

section \<open>The store\<close>

record project =
  pr_id :: string
  pr_orgId :: string
  pr_name :: string
  pr_ownerId :: string
  pr_memberIds :: "string list"
  pr_createdAt :: time
  pr_updatedAt :: time

datatype project_refusal = PNotFound | PForbidden | PInvalidMember | PInvalidName

type_synonym project_mutation = "project_refusal + project \<times> bool"

definition PROJECT_GROUP_PREFIX :: string where "PROJECT_GROUP_PREFIX = ''web-project-''"

definition projectGroupRef :: "string \<Rightarrow> string" where
  "projectGroupRef pid = PROJECT_GROUP_PREFIX @ pid"

definition projectScopeId :: "string \<Rightarrow> scope_id" where
  "projectScopeId pid = scopeId Group (projectGroupRef pid)"

definition isProjectGroupRef :: "string \<Rightarrow> bool" where
  "isProjectGroupRef ref \<longleftrightarrow> js_startsWith ref PROJECT_GROUP_PREFIX"

definition projectIdFromGroupRef :: "string \<Rightarrow> string option" where
  "projectIdFromGroupRef ref =
     (if \<not> isProjectGroupRef ref then None
      else let pid = drop (length PROJECT_GROUP_PREFIX) ref
           in if pid \<noteq> [] \<and> \<not> js_includes pid '':'' then Some pid else None)"

definition cleanName :: "string \<Rightarrow> string" where
  "cleanName name = js_slice (js_squeeze (js_trim name)) 0 200"

definition projectForGroup :: "string \<Rightarrow> project mem_map \<Rightarrow> string \<Rightarrow> project option" where
  "projectForGroup org m groupRef =
     (case projectIdFromGroupRef groupRef of
        None \<Rightarrow> None
      | Some pid \<Rightarrow>
          (case mm_get m pid of
             Some p \<Rightarrow> if pr_orgId p = org then Some p else None
           | None \<Rightarrow> None))"

text \<open>The function \<open>mutate\<close> hands to \<open>backing.update\<close>: the status, whether the roster changed, the row.\<close>

definition roster_change ::
  "(string \<Rightarrow> bool) \<Rightarrow> time \<Rightarrow> string \<Rightarrow> string \<Rightarrow> bool \<Rightarrow> project \<Rightarrow> project_refusal option \<times> bool \<times> project" where
  "roster_change isActiveMember now actorId memberId add p =
     (let canChangeRoster =
            (if add then list_ex (\<lambda>member. samePerson (Some member) (Some actorId)) (pr_memberIds p)
             else samePerson (Some (pr_ownerId p)) (Some actorId))
      in if \<not> canChangeRoster \<or> \<not> isActiveMember (pr_ownerId p) \<or> \<not> isActiveMember actorId
         then (Some PForbidden, False, p)
         else if samePerson (Some memberId) (Some (pr_ownerId p)) then (Some PInvalidMember, False, p)
         else
           let memberIds =
                 (if add then jset_of (pr_memberIds p @ [memberId])
                  else filter (\<lambda>member. member \<noteq> memberId) (pr_memberIds p))
           in if memberIds = pr_memberIds p then (None, False, p)
              else (None, True, p\<lparr> pr_memberIds := memberIds, pr_updatedAt := max now (pr_updatedAt p + 1) \<rparr>))"

definition mutate_project ::
  "(string \<Rightarrow> bool) \<Rightarrow> time \<Rightarrow> string \<Rightarrow> string \<Rightarrow> string \<Rightarrow> bool \<Rightarrow> project mem_map \<Rightarrow>
     project_mutation \<times> project mem_map" where
  "mutate_project isActiveMember now pid actorId memberId add m =
     (if memberId = [] then (Inl PInvalidMember, m)
      else
        case mm_get m pid of
          None \<Rightarrow> (Inl PNotFound, m)
        | Some p \<Rightarrow>
            (case roster_change isActiveMember now actorId memberId add p of
               (status, changed, p') \<Rightarrow>
                 ((case status of Some e \<Rightarrow> Inl e | None \<Rightarrow> Inr (p', changed)),
                  snd (mm_update pid (\<lambda>_. p') m))))"

definition addMember ::
  "(string \<Rightarrow> bool) \<Rightarrow> time \<Rightarrow> string \<Rightarrow> string \<Rightarrow> string \<Rightarrow> project mem_map \<Rightarrow>
     project_mutation \<times> project mem_map" where
  "addMember isActiveMember now pid actorId memberId m = mutate_project isActiveMember now pid actorId memberId True m"

definition removeMember ::
  "(string \<Rightarrow> bool) \<Rightarrow> time \<Rightarrow> string \<Rightarrow> string \<Rightarrow> string \<Rightarrow> project mem_map \<Rightarrow>
     project_mutation \<times> project mem_map" where
  "removeMember isActiveMember now pid actorId memberId m = mutate_project isActiveMember now pid actorId memberId False m"

datatype project_error = ProjectIncomplete | ProjectIdCollision

definition create_project ::
  "string \<Rightarrow> time \<Rightarrow> string \<Rightarrow> string \<Rightarrow> string \<Rightarrow> project mem_map \<Rightarrow>
     (project_error + project) \<times> project mem_map" where
  "create_project org now newId name ownerId m =
     (let clean = cleanName name
      in if clean = [] \<or> ownerId = [] then (Inl ProjectIncomplete, m)
         else
           let p = \<lparr> pr_id = newId, pr_orgId = org, pr_name = clean, pr_ownerId = ownerId,
                     pr_memberIds = [ownerId], pr_createdAt = now, pr_updatedAt = now \<rparr>
           in case mm_putIfAbsent newId p m of
                (stored, m') \<Rightarrow>
                  (if pr_createdAt stored \<noteq> now \<or> pr_ownerId stored \<noteq> ownerId
                   then Inl ProjectIdCollision else Inr stored, m'))"

definition get_project :: "project mem_map \<Rightarrow> string \<Rightarrow> project option" where
  "get_project m pid = mm_get m pid"

definition listForMember :: "string \<Rightarrow> (string \<Rightarrow> bool) \<Rightarrow> string \<Rightarrow> project mem_map \<Rightarrow> project list" where
  "listForMember org isActiveMember principalId m =
     sort_key (\<lambda>p. - pr_updatedAt p)
       (filter (\<lambda>p. pr_orgId p = org \<and> isActiveMember (pr_ownerId p) \<and> isActiveMember principalId \<and>
                    principalId \<in> set (pr_memberIds p)) (mm_all m))"

definition rename_project ::
  "(string \<Rightarrow> bool) \<Rightarrow> string \<Rightarrow> string \<Rightarrow> string \<Rightarrow> project mem_map \<Rightarrow> project_mutation \<times> project mem_map" where
  "rename_project isActiveMember pid ownerId name m =
     (let clean = cleanName name
      in if clean = [] then (Inl PInvalidName, m)
         else
           case mm_get m pid of
             None \<Rightarrow> (Inl PNotFound, m)
           | Some p \<Rightarrow>
               if pr_ownerId p \<noteq> ownerId \<or> \<not> isActiveMember ownerId
               then (Inl PForbidden, snd (mm_update pid (\<lambda>_. p) m))
               else
                 let p' = (if pr_name p = clean then p else p\<lparr> pr_name := clean \<rparr>)
                 in (Inr (p', pr_name p \<noteq> clean), snd (mm_update pid (\<lambda>_. p') m)))"

definition project_membership ::
  "string \<Rightarrow> (string \<Rightarrow> bool) \<Rightarrow> project mem_map \<Rightarrow> string \<Rightarrow> string \<Rightarrow> bool option" where
  "project_membership org isActiveMember m groupRef principalId =
     map_option (\<lambda>p. isActiveMember (pr_ownerId p) \<and> isActiveMember principalId \<and> principalId \<in> set (pr_memberIds p))
       (projectForGroup org m groupRef)"

definition project_members :: "string \<Rightarrow> (string \<Rightarrow> bool) \<Rightarrow> project mem_map \<Rightarrow> string \<Rightarrow> string list option" where
  "project_members org isActiveMember m groupRef =
     map_option (\<lambda>p. if isActiveMember (pr_ownerId p) then filter isActiveMember (pr_memberIds p) else [])
       (projectForGroup org m groupRef)"

definition project_version :: "string \<Rightarrow> project mem_map \<Rightarrow> string \<Rightarrow> string option" where
  "project_version org m groupRef = map_option (\<lambda>p. js_show_int (pr_updatedAt p)) (projectForGroup org m groupRef)"

definition withVersion :: "string \<Rightarrow> project mem_map \<Rightarrow> string \<Rightarrow> string option \<Rightarrow> 'a \<Rightarrow> 'a option" where
  "withVersion org m groupRef version result =
     (case projectIdFromGroupRef groupRef of
        None \<Rightarrow> None
      | Some pid \<Rightarrow>
          (case mm_get m pid of
             None \<Rightarrow> None
           | Some p \<Rightarrow>
               if pr_orgId p \<noteq> org \<or> Some (js_show_int (pr_updatedAt p)) \<noteq> version then None else Some result))"

definition project_name :: "string \<Rightarrow> (string \<Rightarrow> bool) \<Rightarrow> project mem_map \<Rightarrow> string \<Rightarrow> string option" where
  "project_name org isActiveMember m groupRef =
     (case projectForGroup org m groupRef of
        Some p \<Rightarrow> if isActiveMember (pr_ownerId p) then Some (pr_name p) else None
      | None \<Rightarrow> None)"

section \<open>Projects as managed groups\<close>

text \<open>The store as the membership tests see it, and with it the configuration of \<open>src/wiring.ts\<close>.\<close>

definition active_member :: "identity_service \<Rightarrow> string \<Rightarrow> bool" where
  "active_member ident pid \<longleftrightarrow> isInternal (classify ident pid None)"

definition project_groups :: "string \<Rightarrow> identity_service \<Rightarrow> project mem_map \<Rightarrow> managed_groups" where
  "project_groups org ident m =
     \<lparr> mg_recognizes = isProjectGroupRef,
       mg_membership = (\<lambda>ref pid. Resolved (project_membership org (active_member ident) m ref pid)),
       mg_members = (\<lambda>ref. Resolved (project_members org (active_member ident) m ref)) \<rparr>"

definition project_deps ::
  "string \<Rightarrow> identity_service \<Rightarrow> project mem_map \<Rightarrow> directory_store \<Rightarrow> (string \<Rightarrow> (string, scope_id list) promise) \<Rightarrow>
     membership_deps" where
  "project_deps org ident m d sessions = wired_deps (project_groups org ident m) d ident sessions"

definition authorizesCapabilityScope ::
  "string \<Rightarrow> identity_service \<Rightarrow> project mem_map \<Rightarrow> directory_store \<Rightarrow> (string \<Rightarrow> (string, scope_id list) promise) \<Rightarrow>
     string \<Rightarrow> scope_id \<Rightarrow> string option \<Rightarrow> bool" where
  "authorizesCapabilityScope org ident m d sessions actorId sc scopeVersion =
     (case parseScopeId sc of
        (kind, ref) \<Rightarrow>
          if kind \<noteq> Some Group \<or> \<not> isProjectGroupRef ref then True
          else canManageScope (project_deps org ident m d sessions) actorId sc \<and>
               scopeVersion = project_version org m ref)"

section \<open>Rosters and sessions\<close>

definition listAll :: "session_store \<Rightarrow> session list" where
  "listAll s = jmap_values (ss_sessions s)"

definition reconcileProjectMember :: "time \<Rightarrow> project \<Rightarrow> string \<Rightarrow> bool \<Rightarrow> session_store \<Rightarrow> session_store" where
  "reconcileProjectMember now p memberId add s =
     fold (\<lambda>se s. if add then addParticipant now (se_id se) memberId None True s
                  else removeParticipant now (se_id se) memberId s)
       (filter (\<lambda>se. se_scopeId se = projectScopeId (pr_id p)) (listAll s)) s"

record project_world =
  pw_projects :: "project mem_map"
  pw_sessions :: session_store

definition in_org :: "string \<Rightarrow> string \<Rightarrow> project mem_map \<Rightarrow> bool" where
  "in_org org pid m \<longleftrightarrow> (case get_project m pid of None \<Rightarrow> False | Some p \<Rightarrow> pr_orgId p = org)"

definition addProjectMember ::
  "string \<Rightarrow> identity_service \<Rightarrow> directory_store \<Rightarrow> time \<Rightarrow> string \<Rightarrow> string \<Rightarrow> string \<Rightarrow> project_world \<Rightarrow>
     project_mutation \<times> project_world" where
  "addProjectMember org ident d now pid principalId memberId w =
     (if \<not> active_member ident principalId then (Inl PForbidden, w)
      else if \<not> in_org org pid (pw_projects w) then (Inl PNotFound, w)
      else if (case get_member d memberId of None \<Rightarrow> True | Some dm \<Rightarrow> dm_type dm \<noteq> Internal) \<or>
              \<not> active_member ident memberId
      then (Inl PInvalidMember, w)
      else
        case addMember (active_member ident) now pid principalId memberId (pw_projects w) of
          (Inl e, m) \<Rightarrow> (Inl e, w\<lparr> pw_projects := m \<rparr>)
        | (Inr (p, changed), m) \<Rightarrow>
            (Inr (p, changed),
             \<lparr> pw_projects = m, pw_sessions = reconcileProjectMember now p memberId True (pw_sessions w) \<rparr>))"

definition removeProjectMember ::
  "string \<Rightarrow> identity_service \<Rightarrow> time \<Rightarrow> string \<Rightarrow> string \<Rightarrow> string \<Rightarrow> project_world \<Rightarrow>
     project_mutation \<times> project_world" where
  "removeProjectMember org ident now pid principalId memberId w =
     (if \<not> active_member ident principalId then (Inl PForbidden, w)
      else if \<not> in_org org pid (pw_projects w) then (Inl PNotFound, w)
      else
        case removeMember (active_member ident) now pid principalId memberId (pw_projects w) of
          (Inl e, m) \<Rightarrow> (Inl e, w\<lparr> pw_projects := m \<rparr>)
        | (Inr (p, changed), m) \<Rightarrow>
            (Inr (p, changed),
             \<lparr> pw_projects = m, pw_sessions = reconcileProjectMember now p memberId False (pw_sessions w) \<rparr>))"

definition createProject ::
  "string \<Rightarrow> identity_service \<Rightarrow> time \<Rightarrow> string \<Rightarrow> string \<Rightarrow> string \<Rightarrow> project_world \<Rightarrow>
     (project_error + project) option \<times> project_world" where
  "createProject org ident now newId principalId name w =
     (if \<not> active_member ident principalId \<or> js_trim name = [] then (None, w)
      else case create_project org now newId name principalId (pw_projects w) of
             (r, m) \<Rightarrow> (Some r, w\<lparr> pw_projects := m \<rparr>))"

definition renameProject ::
  "string \<Rightarrow> identity_service \<Rightarrow> string \<Rightarrow> string \<Rightarrow> string \<Rightarrow> project_world \<Rightarrow> project_mutation \<times> project_world" where
  "renameProject org ident pid principalId name w =
     (if \<not> active_member ident principalId then (Inl PForbidden, w)
      else if \<not> in_org org pid (pw_projects w) then (Inl PNotFound, w)
      else case rename_project (active_member ident) pid principalId name (pw_projects w) of
             (r, m) \<Rightarrow> (r, w\<lparr> pw_projects := m \<rparr>))"

definition managedProjectMembership ::
  "string \<Rightarrow> identity_service \<Rightarrow> project mem_map \<Rightarrow> scope_id \<Rightarrow> string \<Rightarrow> bool option" where
  "managedProjectMembership org ident m sc principalId =
     (case parseScopeId sc of
        (kind, ref) \<Rightarrow>
          (case projectIdFromGroupRef ref of
             None \<Rightarrow> None
           | Some pid \<Rightarrow>
               if kind \<noteq> Some Group then None
               else if \<not> in_org org pid m then Some False
               else if \<not> active_member ident (pr_ownerId (the (get_project m pid))) then Some False
               else if \<not> active_member ident principalId then Some False
               else Some (project_membership org (active_member ident) m ref principalId = Some True)))"

definition sessionsForViewer ::
  "string \<Rightarrow> identity_service \<Rightarrow> string \<Rightarrow> project_world \<Rightarrow> session list" where
  "sessionsForViewer org ident principalId w =
     filter (\<lambda>se. managedProjectMembership org ident (pw_projects w) (se_scopeId se) principalId \<noteq> Some False)
       (listByParticipant (pw_sessions w) principalId)"

section \<open>The store as a state machine\<close>

inductive project_step :: "project mem_map \<Rightarrow> project mem_map \<Rightarrow> bool" where
  step_create: "project_step m (snd (create_project org now newId name ownerId m))"
| step_add: "project_step m (snd (addMember isActive now pid actorId memberId m))"
| step_remove: "project_step m (snd (removeMember isActive now pid actorId memberId m))"
| step_rename: "project_step m (snd (rename_project isActive pid ownerId name m))"

definition project_ok :: "string \<Rightarrow> project \<Rightarrow> bool" where
  "project_ok pid p \<longleftrightarrow>
     pr_id p = pid \<and> pr_ownerId p \<noteq> [] \<and> pr_ownerId p \<in> set (pr_memberIds p) \<and> distinct (pr_memberIds p)"

definition projects_ok :: "project mem_map \<Rightarrow> bool" where
  "projects_ok m \<longleftrightarrow> mm_invar m \<and> (\<forall>pid p. mm_get m pid = Some p \<longrightarrow> project_ok pid p)"

text \<open>What a run of the store keeps of a project, and that a new roster has a newer version.\<close>

definition project_follows :: "project \<Rightarrow> project \<Rightarrow> bool" where
  "project_follows p q \<longleftrightarrow>
     pr_id q = pr_id p \<and> pr_orgId q = pr_orgId p \<and> pr_ownerId q = pr_ownerId p \<and> pr_createdAt q = pr_createdAt p \<and>
     (pr_updatedAt p < pr_updatedAt q \<or> pr_updatedAt p = pr_updatedAt q \<and> pr_memberIds q = pr_memberIds p)"

definition projects_follow :: "project mem_map \<Rightarrow> project mem_map \<Rightarrow> bool" where
  "projects_follow m n \<longleftrightarrow>
     (\<forall>pid p. mm_get m pid = Some p \<longrightarrow> (\<exists>q. mm_get n pid = Some q \<and> project_follows p q))"

lemma project_follows_refl [simp]: "project_follows p p"
  by (simp add: project_follows_def)

lemma project_follows_trans: "project_follows p q \<Longrightarrow> project_follows q r \<Longrightarrow> project_follows p r"
  by (auto simp: project_follows_def)

lemma project_version_same:
  assumes "project_follows p q" "project_follows q r" "pr_updatedAt p = pr_updatedAt r"
  shows "pr_memberIds q = pr_memberIds p" "pr_memberIds r = pr_memberIds p" "pr_ownerId r = pr_ownerId p"
proof -
  have "pr_updatedAt p \<le> pr_updatedAt q" "pr_updatedAt q \<le> pr_updatedAt r"
    using assms(1,2) unfolding project_follows_def by linarith+
  then have "\<not> pr_updatedAt p < pr_updatedAt q" "\<not> pr_updatedAt q < pr_updatedAt r" using assms(3) by linarith+
  then have "pr_memberIds q = pr_memberIds p" "pr_memberIds r = pr_memberIds q"
    using assms(1,2) unfolding project_follows_def by blast+
  then show "pr_memberIds q = pr_memberIds p" "pr_memberIds r = pr_memberIds p" by simp_all
  show "pr_ownerId r = pr_ownerId p" using assms(1,2) by (simp add: project_follows_def)
qed

lemma roster_change_follows: "roster_change act now a mid add p = (st, ch, p') \<Longrightarrow> project_follows p p'"
  by (auto simp: roster_change_def Let_def project_follows_def split: if_splits)

lemma distinct_jset_snoc: "distinct xs \<Longrightarrow> jset_of (xs @ [x]) = (if x \<in> set xs then xs else xs @ [x])"
  by (simp add: jset_of_def fold_jset_add_id [of "[]", simplified] jset_add_def)

lemma roster_change_ok:
  assumes "roster_change act now a mid add p = (st, ch, p')" "project_ok pid p"
  shows "project_ok pid p'"
proof -
  have own: "mid \<noteq> pr_ownerId p"
    if "samePerson (Some (pr_ownerId p)) (Some a)" "\<not> samePerson (Some mid) (Some (pr_ownerId p))"
    using that by (auto simp: samePerson_def Let_def)
  show ?thesis
    using assms own
    by (cases add) (auto simp: roster_change_def Let_def project_ok_def split: if_splits)
qed

text \<open>Replacing a stored project, the one way in which the operations write.\<close>

lemma replace_ok:
  assumes "projects_ok m" "mm_get m pid = Some p" "project_ok pid p'" "project_follows p p'"
  shows "projects_ok (snd (mm_update pid (\<lambda>_. p') m)) \<and> projects_follow m (snd (mm_update pid (\<lambda>_. p') m))"
  using assms by (auto simp: projects_ok_def projects_follow_def mm_invar_update)

lemma mutate_ok:
  assumes "projects_ok m"
  shows "projects_ok (snd (mutate_project act now pid a mid add m)) \<and>
    projects_follow m (snd (mutate_project act now pid a mid add m))"
proof (cases "mm_get m pid")
  case (Some p)
  obtain st ch p' where r: "roster_change act now a mid add p = (st, ch, p')" by (cases "roster_change act now a mid add p")
  have "project_ok pid p" using assms Some by (simp add: projects_ok_def)
  then show ?thesis
    using replace_ok [OF assms Some roster_change_ok [OF r] roster_change_follows [OF r]] assms Some r
    by (auto simp: mutate_project_def projects_follow_def)
qed (use assms in \<open>auto simp: mutate_project_def projects_follow_def\<close>)

lemma create_ok:
  assumes "projects_ok m"
  shows "projects_ok (snd (create_project org now newId name ownerId m)) \<and>
    projects_follow m (snd (create_project org now newId name ownerId m))"
proof (cases "cleanName name = [] \<or> ownerId = [] \<or> mm_get m newId \<noteq> None")
  case True
  then have "snd (create_project org now newId name ownerId m) = m"
    by (auto simp: create_project_def Let_def mm_putIfAbsent_def mm_get_def)
  then show ?thesis using assms by (simp add: projects_follow_def)
next
  case False
  define p where "p = \<lparr> pr_id = newId, pr_orgId = org, pr_name = cleanName name, pr_ownerId = ownerId,
    pr_memberIds = [ownerId], pr_createdAt = now, pr_updatedAt = now \<rparr>"
  have e: "snd (create_project org now newId name ownerId m) = jmap_set newId p m"
    using False by (simp add: create_project_def Let_def mm_putIfAbsent_def mm_get_def p_def)
  have g: "mm_get (jmap_set newId p m) = (mm_get m)(newId \<mapsto> p)" by (simp add: mm_get_def fun_eq_iff)
  have "project_ok newId p" using False by (simp add: project_ok_def p_def)
  then show ?thesis
    using assms False
    by (auto simp: e g projects_ok_def projects_follow_def mm_invar_def distinct_update)
qed

lemma rename_ok:
  assumes "projects_ok m"
  shows "projects_ok (snd (rename_project act pid ownerId name m)) \<and>
    projects_follow m (snd (rename_project act pid ownerId name m))"
proof (cases "mm_get m pid")
  case (Some p)
  have ok: "project_ok pid p" using assms Some by (simp add: projects_ok_def)
  then have "project_ok pid (p\<lparr> pr_name := n \<rparr>)" "project_follows p (p\<lparr> pr_name := n \<rparr>)" for n
    by (auto simp: project_ok_def project_follows_def)
  then show ?thesis
    using replace_ok [OF assms Some] ok assms Some
    by (auto simp: rename_project_def Let_def projects_follow_def)
qed (use assms in \<open>auto simp: rename_project_def Let_def projects_follow_def\<close>)

lemma project_step_ok:
  "project_step m n \<Longrightarrow> projects_ok m \<Longrightarrow> projects_ok n \<and> projects_follow m n"
  by (induction rule: project_step.induct)
     (auto simp: addMember_def removeMember_def mutate_ok create_ok rename_ok)

interpretation project_machine: evolving_machine "\<lambda>m. m = mm_empty" project_step projects_ok projects_follow
proof
  show "projects_follow m m" for m by (auto simp: projects_follow_def)
  show "projects_follow m n \<Longrightarrow> projects_follow n k \<Longrightarrow> projects_follow m k" for m n k
    by (fastforce simp: projects_follow_def intro: project_follows_trans)
qed (auto simp: projects_ok_def mm_empty_def mm_get_def mm_invar_def dest: project_step_ok)

section \<open>Access follows the roster\<close>

lemma isProjectGroupRef_ref [simp]: "isProjectGroupRef (projectGroupRef pid)"
  by (simp add: isProjectGroupRef_def projectGroupRef_def)

lemma parse_projectScopeId [simp]: "parseScopeId (projectScopeId pid) = (Some Group, projectGroupRef pid)"
  by (simp add: projectScopeId_def)

lemma projectForGroup_ref:
  "projectForGroup org m (projectGroupRef pid) = Some p \<longleftrightarrow>
     pid \<noteq> [] \<and> \<not> js_includes pid '':'' \<and> mm_get m pid = Some p \<and> pr_orgId p = org"
  by (auto simp: projectForGroup_def projectIdFromGroupRef_def isProjectGroupRef_ref [unfolded projectGroupRef_def]
      projectGroupRef_def Let_def split: option.split)

lemma project_active [simp]: "activePrincipal (project_deps org ident m d ss) pid \<longleftrightarrow> active_member ident pid"
  by (simp add: project_deps_def wired_active active_member_def isInternal_def)

lemma project_shared_member:
  "currentSharedScopeMember (project_deps org ident m d ss) Group (projectGroupRef pid) a \<longleftrightarrow>
     (\<exists>p. projectForGroup org m (projectGroupRef pid) = Some p \<and> active_member ident (pr_ownerId p) \<and>
          active_member ident a \<and> a \<in> set (pr_memberIds p))"
  by (auto simp: currentSharedScopeMember_def recognizedGroup_def)
     (auto simp: project_deps_def wired_deps_def project_groups_def project_membership_def)

lemma authorizes_project:
  "authorizesCapabilityScope org ident m d ss a (projectScopeId pid) v \<longleftrightarrow>
     a \<noteq> [] \<and> (\<exists>p. projectForGroup org m (projectGroupRef pid) = Some p \<and> active_member ident (pr_ownerId p) \<and>
       active_member ident a \<and> a \<in> set (pr_memberIds p) \<and> v = Some (js_show_int (pr_updatedAt p)))"
  by (auto simp: authorizesCapabilityScope_def canManageScope_def project_shared_member project_version_def)

text \<open>
  C20. A capability of a project lasts as long as the roster it was made for: when a capability that
  carries the version of a project at some moment is still accepted later, then its holder is an active
  member of the project with an active owner, and the roster was the same at every moment in between,
  whatever projects were created, renamed or changed meanwhile. In every reachable state the owner is a
  member and nobody is listed twice.
\<close>

theorem project_capability_pins_roster:
  assumes "project_step\<^sup>*\<^sup>* mm_empty m" "project_step\<^sup>*\<^sup>* m k" "project_step\<^sup>*\<^sup>* k n"
    and "authorizesCapabilityScope org ident n d ss a (projectScopeId pid) (project_version org m (projectGroupRef pid))"
  shows "\<exists>p q r. mm_get m pid = Some p \<and> mm_get k pid = Some q \<and> mm_get n pid = Some r \<and>
    pr_memberIds q = pr_memberIds p \<and> pr_memberIds r = pr_memberIds p \<and> pr_ownerId r = pr_ownerId p \<and>
    a \<in> set (pr_memberIds r) \<and> active_member ident a \<and> active_member ident (pr_ownerId r) \<and>
    pr_ownerId r \<in> set (pr_memberIds r) \<and> distinct (pr_memberIds r)"
proof -
  obtain r where r: "projectForGroup org n (projectGroupRef pid) = Some r" "active_member ident (pr_ownerId r)"
      "active_member ident a" "a \<in> set (pr_memberIds r)"
      "project_version org m (projectGroupRef pid) = Some (js_show_int (pr_updatedAt r))"
    using assms(4) by (auto simp: authorizes_project)
  from r(5) obtain p where p: "projectForGroup org m (projectGroupRef pid) = Some p" "pr_updatedAt p = pr_updatedAt r"
    by (auto simp: project_version_def)
  have inv: "projects_ok m" "projects_ok k" "projects_ok n"
    using project_machine.inv_reachable assms(1-3) project_machine.inv_steps by blast+
  have mk: "projects_follow m k" and kn: "projects_follow k n"
    using project_machine.rel_steps assms(2,3) inv by blast+
  from mk p obtain q where q: "mm_get k pid = Some q" "project_follows p q"
    by (auto simp: projects_follow_def projectForGroup_ref)
  from kn q(1) r(1) have "project_follows q r" by (fastforce simp: projects_follow_def projectForGroup_ref)
  note same = project_version_same [OF q(2) this p(2)]
  have "project_ok pid r" using inv(3) r(1) by (simp add: projects_ok_def projectForGroup_ref)
  moreover have "mm_get m pid = Some p" "mm_get n pid = Some r" using p(1) r(1) by (simp_all add: projectForGroup_ref)
  ultimately show ?thesis
    by (rule_tac x = p in exI, rule_tac x = q in exI, rule_tac x = r in exI)
       (simp only: project_ok_def q same r(3) r(2,4) [unfolded same] simp_thms)
qed

definition demo_projects :: "project mem_map" where
  "demo_projects = snd (addMember (\<lambda>_. True) 7 ''p1'' ''ann'' ''bob'' (snd (create_project ''acme'' 5 ''p1'' ''Plans'' ''ann'' mm_empty)))"

lemma demo_projects_reachable: "project_step\<^sup>*\<^sup>* mm_empty demo_projects"
proof -
  have "project_step mm_empty (snd (create_project ''acme'' 5 ''p1'' ''Plans'' ''ann'' mm_empty))" by (rule step_create)
  moreover have "project_step (snd (create_project ''acme'' 5 ''p1'' ''Plans'' ''ann'' mm_empty)) demo_projects"
    unfolding demo_projects_def by (rule step_add)
  ultimately show ?thesis by (rule converse_rtranclp_into_rtranclp [OF _ r_into_rtranclp])
qed

theorem project_capability_pins_roster_witness:
  "''bob'' \<in> set (pr_memberIds (the (mm_get (snd (rename_project (\<lambda>_. True) ''p1'' ''ann'' ''Old plans'' demo_projects)) ''p1'')))"
proof -
  let ?i = "createIdentityService []" and ?d = createDirectoryStore and ?ss = "\<lambda>_. Resolved []"
  let ?n = "snd (rename_project (\<lambda>_. True) ''p1'' ''ann'' ''Old plans'' demo_projects)"
  have step: "project_step\<^sup>*\<^sup>* demo_projects ?n" by (rule r_into_rtranclp) (rule step_rename)
  have "authorizesCapabilityScope ''acme'' ?i ?n ?d ?ss ''bob'' (projectScopeId ''p1'')
      (project_version ''acme'' demo_projects (projectGroupRef ''p1''))"
    by code_simp
  from project_capability_pins_roster [OF demo_projects_reachable rtranclp.rtrancl_refl step this] show ?thesis by auto
qed

section \<open>Leaving a project\<close>

lemma removeParticipant_window:
  "window_of (removeParticipant now sid pid s) sid' pid' =
     (if sid' = sid \<and> pid' = pid
      then map_option (\<lambda>w. if wi_validTo w = None
             then w\<lparr> wi_validTo := Some now, wi_validToSeq := Some (length (log_of s sid)) \<rparr> else w) (window_of s sid pid)
      else window_of s sid' pid')"
  by (cases "window_of s sid pid") (auto simp: removeParticipant_def set_window)

lemma remove_all_closed:
  "\<not> window_open s sid pid \<or> sid \<in> set sids \<Longrightarrow> \<not> window_open (fold (\<lambda>i s. removeParticipant now i pid s) sids s) sid pid"
proof (induction sids arbitrary: s)
  case (Cons i sids)
  have "\<not> window_open (removeParticipant now i pid s) sid pid \<or> sid \<in> set sids"
    using Cons.prems by (auto simp: window_open_def removeParticipant_window split: option.splits if_splits)
  then show ?case using Cons.IH by simp
qed simp

lemma reconcile_remove_closed:
  assumes "se \<in> set (listAll s)" "se_scopeId se = projectScopeId (pr_id p)"
  shows "\<not> window_open (reconcileProjectMember now p mid False s) (se_id se) mid"
proof -
  let ?sel = "filter (\<lambda>se. se_scopeId se = projectScopeId (pr_id p)) (listAll s)"
  have "reconcileProjectMember now p mid False s = fold (\<lambda>i s. removeParticipant now i mid s) (map se_id ?sel) s"
    by (simp add: reconcileProjectMember_def fold_map comp_def)
  then show ?thesis using remove_all_closed [of s "se_id se" mid "map se_id ?sel"] assms by simp
qed

lemma removeMember_result:
  assumes "removeMember act now pid a mid m = (Inr (p, changed), m')"
  shows "\<exists>p0. mm_get m pid = Some p0 \<and> samePerson (Some (pr_ownerId p0)) (Some a) \<and> act a \<and> act (pr_ownerId p0) \<and>
      \<not> samePerson (Some mid) (Some (pr_ownerId p0)) \<and> (changed \<longleftrightarrow> mid \<in> set (pr_memberIds p0)) \<and>
      pr_memberIds p = filter (\<lambda>x. x \<noteq> mid) (pr_memberIds p0) \<and> pr_id p = pr_id p0 \<and> pr_orgId p = pr_orgId p0"
    "mm_get m' pid = Some p"
proof -
  obtain p0 where p0: "mm_get m pid = Some p0"
    using assms by (auto simp: removeMember_def mutate_project_def split: if_splits option.splits)
  have same: "filter (\<lambda>x. x \<noteq> mid) xs = xs \<longleftrightarrow> mid \<notin> set xs" for xs :: "string list"
    by (auto simp: filter_id_conv)
  show "\<exists>p0. mm_get m pid = Some p0 \<and> samePerson (Some (pr_ownerId p0)) (Some a) \<and> act a \<and> act (pr_ownerId p0) \<and>
      \<not> samePerson (Some mid) (Some (pr_ownerId p0)) \<and> (changed \<longleftrightarrow> mid \<in> set (pr_memberIds p0)) \<and>
      pr_memberIds p = filter (\<lambda>x. x \<noteq> mid) (pr_memberIds p0) \<and> pr_id p = pr_id p0 \<and> pr_orgId p = pr_orgId p0"
    using assms p0 same [of "pr_memberIds p0"]
    by (auto simp: removeMember_def mutate_project_def roster_change_def Let_def split: if_splits option.splits)
  show "mm_get m' pid = Some p"
    using assms p0 by (auto simp: removeMember_def mutate_project_def split: if_splits option.splits prod.splits)
qed

lemma project_not_member:
  assumes "mm_get m pid = Some p" "a \<notin> set (pr_memberIds p)"
  shows "\<not> currentSharedScopeMember (project_deps org ident m d ss) Group (projectGroupRef pid) a"
    "\<not> memberOfSharedScope (project_deps org ident m d ss) Group (projectGroupRef pid) a sc"
proof -
  show "\<not> currentSharedScopeMember (project_deps org ident m d ss) Group (projectGroupRef pid) a"
    using assms by (auto simp: project_shared_member projectForGroup_ref)
  have rec: "recognizedGroup (project_deps org ident m d ss) Group (projectGroupRef pid) = Some (project_groups org ident m)"
    by (simp add: recognizedGroup_def project_deps_def wired_deps_def project_groups_def)
  have "project_membership org (active_member ident) m (projectGroupRef pid) a \<noteq> Some True"
    using assms by (auto simp: project_membership_def projectForGroup_ref)
  then show "\<not> memberOfSharedScope (project_deps org ident m d ss) Group (projectGroupRef pid) a sc"
    by (simp add: memberOfSharedScope_def sharedScopeMembership_def rec) (simp add: project_groups_def)
qed

text \<open>
  C21. Only the owner takes somebody off a project, never the owner, and who was taken off is locked out at
  once: they can neither read, write nor manage the scope of the project, no capability of theirs for it is
  accepted with any version, none of its sessions is listed for them, and their window on every session
  of the project is closed, so that nothing said there later becomes visible to them.
\<close>

theorem removed_member_locked_out:
  assumes "project_step\<^sup>*\<^sup>* mm_empty (pw_projects w)"
    and "removeProjectMember org ident now pid actor member w = (Inr (p, changed), w')"
  shows "(\<exists>p0. mm_get (pw_projects w) pid = Some p0 \<and> samePerson (Some (pr_ownerId p0)) (Some actor) \<and>
        active_member ident actor \<and> \<not> samePerson (Some member) (Some (pr_ownerId p0)) \<and>
        (changed \<longleftrightarrow> member \<in> set (pr_memberIds p0)) \<and> set (pr_memberIds p) = set (pr_memberIds p0) - {member}) \<and>
    \<not> canReadScope (project_deps org ident (pw_projects w') d ss) member (projectScopeId pid) \<and>
    \<not> canWriteScope (project_deps org ident (pw_projects w') d ss) member (projectScopeId pid) \<and>
    \<not> canManageScope (project_deps org ident (pw_projects w') d ss) member (projectScopeId pid) \<and>
    \<not> authorizesCapabilityScope org ident (pw_projects w') d ss member (projectScopeId pid) version \<and>
    (\<forall>se \<in> set (sessionsForViewer org ident member w'). pid \<noteq> [] \<and> \<not> js_includes pid '':'' \<longrightarrow>
        se_scopeId se \<noteq> projectScopeId pid) \<and>
    (\<forall>se \<in> set (listAll (pw_sessions w)). se_scopeId se = projectScopeId pid \<longrightarrow>
        \<not> window_open (pw_sessions w') (se_id se) member)"
proof (intro conjI ballI impI)
  have act: "active_member ident actor" and org: "in_org org pid (pw_projects w)"
    using assms(2) by (auto simp: removeProjectMember_def split: if_splits)
  obtain m' where rm: "removeMember (active_member ident) now pid actor member (pw_projects w) = (Inr (p, changed), m')"
    and w': "w' = \<lparr> pw_projects = m', pw_sessions = reconcileProjectMember now p member False (pw_sessions w) \<rparr>"
    using assms(2) act org by (auto simp: removeProjectMember_def split: prod.splits sum.splits)
  obtain p0 where p0: "mm_get (pw_projects w) pid = Some p0" "samePerson (Some (pr_ownerId p0)) (Some actor)"
      "\<not> samePerson (Some member) (Some (pr_ownerId p0))" "changed \<longleftrightarrow> member \<in> set (pr_memberIds p0)"
      "pr_memberIds p = filter (\<lambda>x. x \<noteq> member) (pr_memberIds p0)" "pr_id p = pr_id p0" "pr_orgId p = pr_orgId p0"
    using removeMember_result(1) [OF rm] by blast
  have p: "mm_get m' pid = Some p" using removeMember_result(2) [OF rm] .
  have nm: "member \<notin> set (pr_memberIds p)" using p0(5) by simp
  have "projects_ok (pw_projects w)" using project_machine.inv_reachable assms(1) by blast
  with p0 have id: "pr_id p = pid" by (simp add: projects_ok_def project_ok_def)
  show "\<exists>p0. mm_get (pw_projects w) pid = Some p0 \<and> samePerson (Some (pr_ownerId p0)) (Some actor) \<and>
      active_member ident actor \<and> \<not> samePerson (Some member) (Some (pr_ownerId p0)) \<and>
      (changed \<longleftrightarrow> member \<in> set (pr_memberIds p0)) \<and> set (pr_memberIds p) = set (pr_memberIds p0) - {member}"
    using p0 act by auto
  note out = project_not_member [OF p nm, where ss = ss and d = d and org = org and ident = ident]
  show "\<not> canReadScope (project_deps org ident (pw_projects w') d ss) member (projectScopeId pid)"
    "\<not> canWriteScope (project_deps org ident (pw_projects w') d ss) member (projectScopeId pid)"
    "\<not> canManageScope (project_deps org ident (pw_projects w') d ss) member (projectScopeId pid)"
    using out by (simp_all add: w' canReadScope_def canWriteScope_def canManageScope_def)
  show "\<not> authorizesCapabilityScope org ident (pw_projects w') d ss member (projectScopeId pid) version"
    using p nm by (auto simp: w' authorizes_project projectForGroup_ref)
  show "se_scopeId se \<noteq> projectScopeId pid"
    if "se \<in> set (sessionsForViewer org ident member w')" "pid \<noteq> [] \<and> \<not> js_includes pid '':''" for se
    using that p nm by (auto simp: w' sessionsForViewer_def managedProjectMembership_def project_membership_def
        projectForGroup_ref projectIdFromGroupRef_def isProjectGroupRef_def projectGroupRef_def projectForGroup_def Let_def
        split: option.splits if_splits)
  show "\<not> window_open (pw_sessions w') (se_id se) member"
    if "se \<in> set (listAll (pw_sessions w))" "se_scopeId se = projectScopeId pid" for se
    using reconcile_remove_closed [of se "pw_sessions w" p now member] that by (simp add: w' id)
qed

definition demo_project_world :: project_world where
  "demo_project_world =
     \<lparr> pw_projects = demo_projects,
       pw_sessions = addParticipant 6 ''s9'' ''bob'' None True
         (snd (getOrCreateByThread ''s9'' 6 ''t9'' SGroup (projectScopeId ''p1'') None None createMemorySessionStore)) \<rparr>"

theorem removed_member_locked_out_witness:
  "\<not> window_open (pw_sessions (snd (removeProjectMember ''acme'' (createIdentityService []) 9 ''p1'' ''ann'' ''bob'' demo_project_world)))
     ''s9'' ''bob'' \<and> window_open (pw_sessions demo_project_world) ''s9'' ''bob''"
proof -
  let ?r = "removeProjectMember ''acme'' (createIdentityService []) 9 ''p1'' ''ann'' ''bob'' demo_project_world"
  have reach: "project_step\<^sup>*\<^sup>* mm_empty (pw_projects demo_project_world)"
    using demo_projects_reachable by (simp add: demo_project_world_def)
  have r: "fst ?r = Inr (the (mm_get (pw_projects (snd ?r)) ''p1''), True)" by code_simp
  let ?se = "hd (listAll (pw_sessions demo_project_world))"
  have se: "?se \<in> set (listAll (pw_sessions demo_project_world)) \<and> se_scopeId ?se = projectScopeId ''p1'' \<and> se_id ?se = ''s9''"
    by code_simp
  have o: "window_open (pw_sessions demo_project_world) ''s9'' ''bob''" by code_simp
  from r have "?r = (Inr (the (mm_get (pw_projects (snd ?r)) ''p1''), True), snd ?r)" by (simp add: prod_eq_iff)
  from removed_member_locked_out [OF reach this] se o show ?thesis by metis
qed

text \<open>
  Rosters compare ids exactly where the authorisation checks compare persons: taking a member off under
  another spelling of the same address reports success and leaves the member in place.
\<close>

lemma respelled_member_stays:
  "let m = snd (addMember (\<lambda>_. True) 7 ''p1'' ''ann'' ''bob@x.io''
             (snd (create_project ''acme'' 5 ''p1'' ''Plans'' ''ann'' mm_empty)));
       r = removeMember (\<lambda>_. True) 9 ''p1'' ''ann'' ''Bob@x.io'' m
   in samePerson (Some ''Bob@x.io'') (Some ''bob@x.io'') \<and> fst r = Inr (the (mm_get m ''p1''), False) \<and>
      project_membership ''acme'' (\<lambda>_. True) (snd r) (projectGroupRef ''p1'') ''bob@x.io'' = Some True"
  by code_simp

end
