(* ===== verification/Gate.thy ===== *)
theory Gate
  imports Tokens Projects Policy
begin

text \<open>
  The gate in front of the HTTP API (\<open>gate\<close> in \<open>src/api/server.ts\<close>, \<open>src/api/user-scoped-routes.ts\<close> and
  \<open>verifyOrReject\<close> in \<open>src/api/http.ts\<close>): who a request acts as and whether it may reach its route. A request
  comes with a capability token, or signed by a surface and with the identity of a portal user, or to a
  public route. The refusals are a datatype in place of the texts the server sends.

  The environment record holds the secrets, the identities after their refresh, the test of a capability's
  scope and the posture lookup. \<open>decodeURIComponent\<close> is a parameter; \<open>None\<close> means that it throws. A
  timestamp header that is no finite number is \<open>None\<close>.
\<close>

section \<open>Routes of users and of the system\<close>

datatype field = InQuery string | InBody string | InHeader string

record api_rule =
  ar_method :: string
  ar_path :: "string list"
  ar_field :: "field option"

text \<open>\<open>pat\<close>: a segment that begins with a colon stands for a non-empty segment of the path.\<close>

definition route_rule :: "string \<Rightarrow> string \<Rightarrow> field option \<Rightarrow> api_rule" where
  "route_rule method template field =
     \<lparr> ar_method = method, ar_path = js_split CHR ''/'' template, ar_field = field \<rparr>"

definition segment_matches :: "string \<Rightarrow> string \<Rightarrow> bool" where
  "segment_matches t s \<longleftrightarrow> (if js_startsWith t '':'' then s \<noteq> [] else s = t)"

definition path_matches :: "string list \<Rightarrow> string \<Rightarrow> bool" where
  "path_matches template pathname \<longleftrightarrow> list_all2 segment_matches template (js_split CHR ''/'' pathname)"

definition rule_matches :: "string \<Rightarrow> string \<Rightarrow> api_rule \<Rightarrow> bool" where
  "rule_matches method pathname r \<longleftrightarrow> ar_method r = method \<and> path_matches (ar_path r) pathname"

definition USER_SCOPED :: "api_rule list" where
  "USER_SCOPED =
     [
      route_rule ''GET'' ''/v1/sessions/:id'' (Some (InQuery ''viewer'')),
      route_rule ''GET'' ''/v1/sessions/:id/approvals'' (Some (InQuery ''viewer'')),
      route_rule ''GET'' ''/v1/sessions/:id/background'' (Some (InQuery ''viewer'')),
      route_rule ''GET'' ''/v1/sessions/:id/background/:pid/output'' (Some (InQuery ''viewer'')),
      route_rule ''GET'' ''/v1/files/:id/content'' (Some (InQuery ''viewer'')),
      route_rule ''GET'' ''/v1/files'' (Some (InQuery ''viewer'')),
      route_rule ''POST'' ''/v1/files/upload'' (Some (InBody ''principalId'')),
      route_rule ''POST'' ''/v1/sessions/:id'' (Some (InBody ''principalId'')),
      route_rule ''POST'' ''/v1/sessions/:id/title'' (Some (InBody ''principalId'')),
      route_rule ''POST'' ''/v1/sessions/:id/fork'' (Some (InBody ''principalId'')),
      route_rule ''GET'' ''/v1/sessions'' (Some (InQuery ''principalId'')),
      route_rule ''GET'' ''/v1/contexts'' (Some (InQuery ''principalId'')),
      route_rule ''GET'' ''/v1/projects'' (Some (InQuery ''principalId'')),
      route_rule ''POST'' ''/v1/projects'' (Some (InBody ''principalId'')),
      route_rule ''POST'' ''/v1/projects/:id/members'' (Some (InBody ''principalId'')),
      route_rule ''DELETE'' ''/v1/projects/:id/members/:memberId'' (Some (InBody ''principalId'')),
      route_rule ''GET'' ''/v1/scope-resources'' (Some (InQuery ''principalId'')),
      route_rule ''GET'' ''/v1/memory'' (Some (InQuery ''principalId'')),
      route_rule ''PUT'' ''/v1/memory'' (Some (InBody ''principalId'')),
      route_rule ''GET'' ''/v1/memory/history'' (Some (InQuery ''principalId'')),
      route_rule ''POST'' ''/v1/memory/restore'' (Some (InBody ''principalId'')),
      route_rule ''GET'' ''/v1/contexts/policy'' (Some (InQuery ''principalId'')),
      route_rule ''GET'' ''/v1/skills'' (Some (InQuery ''principalId'')),
      route_rule ''POST'' ''/v1/skills'' (Some (InBody ''principalId'')),
      route_rule ''PUT'' ''/v1/skills/:id'' (Some (InBody ''principalId'')),
      route_rule ''DELETE'' ''/v1/skills/:id'' (Some (InBody ''principalId'')),
      route_rule ''POST'' ''/v1/soul'' (Some (InBody ''actorId'')),
      route_rule ''GET'' ''/v1/crons'' (Some (InQuery ''viewer'')),
      route_rule ''POST'' ''/v1/crons'' (Some (InBody ''createdBy'')),
      route_rule ''GET'' ''/v1/crons/:id'' (Some (InQuery ''principalId'')),
      route_rule ''PATCH'' ''/v1/crons/:id'' (Some (InQuery ''principalId'')),
      route_rule ''DELETE'' ''/v1/crons/:id'' (Some (InQuery ''principalId'')),
      route_rule ''POST'' ''/v1/crons/:id/disable'' (Some (InQuery ''principalId'')),
      route_rule ''POST'' ''/v1/crons/:id/run'' (Some (InQuery ''principalId'')),
      route_rule ''POST'' ''/v1/crons/:id/destination'' (Some (InQuery ''principalId'')),
      route_rule ''GET'' ''/v1/crons/:id/runs'' (Some (InQuery ''principalId'')),
      route_rule ''GET'' ''/v1/deployments'' (Some (InQuery ''principalId'')),
      route_rule ''POST'' ''/v1/deployments'' (Some (InBody ''createdBy'')),
      route_rule ''GET'' ''/v1/connectors/oauth/:provider/start'' (Some (InQuery ''principalId'')),
      route_rule ''GET'' ''/v1/connectors/oauth/status'' (Some (InQuery ''principalId'')),
      route_rule ''POST'' ''/v1/connectors/token'' (Some (InBody ''principalId'')),
      route_rule ''POST'' ''/v1/connectors/oauth/revoke'' (Some (InBody ''principalId'')),
      route_rule ''POST'' ''/v1/deployments/:id/display-name'' None,
      route_rule ''POST'' ''/v1/deployments/:id/name'' None,
      route_rule ''POST'' ''/v1/deployments/:id/archive'' None,
      route_rule ''POST'' ''/v1/deployments/:id/restore'' None,
      route_rule ''POST'' ''/v1/deployments/:id/rollback'' None,
      route_rule ''POST'' ''/v1/deployments/:id/redeploy'' None,
      route_rule ''POST'' ''/v1/deployments/:id/share'' None,
      route_rule ''GET'' ''/v1/approvals/:id'' None,
      route_rule ''GET'' ''/v1/approvals/pending'' None,
      route_rule ''GET'' ''/v1/directory/resolve'' None,
      route_rule ''POST'' ''/v1/reach'' None,
      route_rule ''POST'' ''/v1/share'' None,
      route_rule ''POST'' ''/v1/environments'' None,
      route_rule ''POST'' ''/v1/environments/attach'' None,
      route_rule ''POST'' ''/v1/emoji'' None,
      route_rule ''GET'' ''/v1/runs/:id'' None,
      route_rule ''GET'' ''/v1/runs'' None,
      route_rule ''POST'' ''/v1/runs/:id/signal'' None]"

definition SYSTEM :: "api_rule list" where
  "SYSTEM =
     [
      route_rule ''POST'' ''/v1/turns'' None,
      route_rule ''POST'' ''/v1/turns/:id/metrics'' None,
      route_rule ''POST'' ''/v1/runs/:id/delivery-state'' None,
      route_rule ''POST'' ''/v1/deliveries/:id/ack'' None,
      route_rule ''POST'' ''/v1/deliveries/ack-by-key'' None,
      route_rule ''POST'' ''/v1/directory'' None,
      route_rule ''POST'' ''/v1/principals/:id/deactivate'' None,
      route_rule ''POST'' ''/v1/principals/:id/reactivate'' None,
      route_rule ''POST'' ''/v1/surface-cache/ingest'' None,
      route_rule ''POST'' ''/v1/surface-cache/policy'' None,
      route_rule ''POST'' ''/v1/surface-context/:id/result'' None,
      route_rule ''POST'' ''/v1/grants'' None,
      route_rule ''POST'' ''/v1/grants/revoke'' None,
      route_rule ''POST'' ''/v1/blobs'' None,
      route_rule ''POST'' ''/v1/egress-audit'' None,
      route_rule ''POST'' ''/v1/auth/broker/claim'' None,
      route_rule ''PUT'' ''/v1/deployment-layer'' None,
      route_rule ''POST'' ''/v1/session-cap'' None,
      route_rule ''POST'' ''/v1/keychain/drops/:id'' None,
      route_rule ''POST'' ''/v1/keychain/asks'' None,
      route_rule ''POST'' ''/v1/keychain/asks/:id/decline'' None,
      route_rule ''POST'' ''/v1/keychain/credentials'' None,
      route_rule ''DELETE'' ''/v1/keychain/credentials/:id'' None,
      route_rule ''POST'' ''/v1/keychain/drops'' None,
      route_rule ''POST'' ''/v1/keychain/grants'' None,
      route_rule ''POST'' ''/v1/keychain/grants/:id/revoke'' None,
      route_rule ''POST'' ''/v1/keychain/use'' None,
      route_rule ''POST'' ''/v1/surface-context'' None,
      route_rule ''POST'' ''/v1/surface-file'' None,
      route_rule ''POST'' ''/v1/triggers/:id/consent'' None]"

definition WRITE :: "string list" where "WRITE = [''POST'', ''PUT'', ''DELETE'', ''PATCH'']"

definition isUserScoped :: "string \<Rightarrow> string \<Rightarrow> bool" where
  "isUserScoped method pathname \<longleftrightarrow> list_ex (rule_matches method pathname) USER_SCOPED"

definition userScopedField :: "string \<Rightarrow> string \<Rightarrow> field option" where
  "userScopedField method pathname =
     Option.bind (List.find (\<lambda>r. ar_method r = method \<and> ar_field r \<noteq> None \<and> path_matches (ar_path r) pathname) USER_SCOPED)
       ar_field"

definition isUnclassifiedWrite :: "string \<Rightarrow> string \<Rightarrow> bool" where
  "isUnclassifiedWrite method pathname \<longleftrightarrow>
     (if method \<notin> set WRITE then False
      else if js_startsWith pathname ''/v1/admin/'' then False
      else if userScopedField method pathname \<noteq> None then False
      else \<not> list_ex (rule_matches method pathname) SYSTEM)"

record http_request =
  rq_method :: string
  rq_pathname :: string
  rq_search :: string
  rq_query :: "(string, string) jsmap"
  rq_raw :: string
  rq_header :: "string \<Rightarrow> string option"
  rq_timestamp :: "int option"

definition assertedActor :: "field \<Rightarrow> http_request \<Rightarrow> json \<Rightarrow> string option" where
  "assertedActor field req body =
     (case field of
        InQuery name \<Rightarrow> map_of (rq_query req) name
      | InHeader name \<Rightarrow> rq_header req name
      | InBody name \<Rightarrow> json_get_str name body)"

section \<open>What a capability may do to the administration\<close>

datatype admin_denial =
    NeedsAgentToken
  | NeedsLiveActor
  | GrantsPortalOnly
  | ImpersonatePortalOnly
  | ImportFromDm
  | SessionReadsFromDm
  | PrivateContentFromDm

definition personal_scope :: "json \<Rightarrow> bool" where
  "personal_scope claims \<longleftrightarrow>
     fst (parseScopeId (case json_get_str ''scopeId'' claims of Some s \<Rightarrow> s | None \<Rightarrow> [])) = Some Personal"

definition ADMIN_CONTENT_EXACT :: "string list" where
  "ADMIN_CONTENT_EXACT =
     [''/v1/admin/memory'', ''/v1/admin/keychain'', ''/v1/admin/volumes'', ''/v1/admin/runs'', ''/v1/admin/audit'',
      ''/v1/admin/errors'', ''/v1/admin/egress'', ''/v1/admin/crons'', ''/v1/admin/deployments'', ''/v1/admin/skills'',
      ''/v1/admin/deliveries/shadow'']"

definition ADMIN_CONTENT_PREFIXES :: "string list" where
  "ADMIN_CONTENT_PREFIXES =
     [''/v1/admin/scopes/'', ''/v1/admin/sessions'', ''/v1/admin/files'', ''/v1/admin/slack-mirror'',
      ''/v1/admin/ambient-judgments'', ''/v1/admin/ack-emoji-picks'', ''/v1/admin/skills/'', ''/v1/admin/users/'']"

definition isAdminContentRead :: "string \<Rightarrow> bool" where
  "isAdminContentRead pathname \<longleftrightarrow>
     pathname \<in> set ADMIN_CONTENT_EXACT \<or> list_ex (js_startsWith pathname) ADMIN_CONTENT_PREFIXES"

definition safeDecode :: "(string \<Rightarrow> string option) \<Rightarrow> string \<Rightarrow> string" where
  "safeDecode decodeURIComponent s = (case decodeURIComponent s of Some d \<Rightarrow> d | None \<Rightarrow> [])"

definition admin_target :: "(string \<Rightarrow> string option) \<Rightarrow> http_request \<Rightarrow> string" where
  "admin_target decodeURIComponent req =
     (if js_startsWith (rq_pathname req) ''/v1/admin/scopes/''
      then safeDecode decodeURIComponent (hd (js_split CHR ''/'' (drop (length ''/v1/admin/scopes/'') (rq_pathname req))))
      else if rq_pathname req = ''/v1/admin/memory''
      then (case map_of (rq_query req) ''scope'' of Some s \<Rightarrow> s | None \<Rightarrow> [])
      else [])"

definition capabilityAdminDenied :: "(string \<Rightarrow> string option) \<Rightarrow> http_request \<Rightarrow> json \<Rightarrow> admin_denial option" where
  "capabilityAdminDenied decodeURIComponent req claims =
     (let method = rq_method req; pathname = rq_pathname req
      in if method = ''GET'' \<and> pathname = ''/v1/admin/whoami'' then None
         else if json_get ''aud'' claims \<noteq> Some (JStr CONTROL_PLANE_AUD) then Some NeedsAgentToken
         else if json_get ''liveActor'' claims \<noteq> Some (JBool True) then Some NeedsLiveActor
         else if js_startsWith pathname ''/v1/admin/grants'' then Some GrantsPortalOnly
         else if js_startsWith pathname ''/v1/admin/impersonate'' then Some ImpersonatePortalOnly
         else if method = ''PUT'' \<and> path_matches (js_split CHR ''/'' ''/v1/admin/scopes/:id/import'') pathname \<and>
                 \<not> personal_scope claims
         then Some ImportFromDm
         else if path_matches (js_split CHR ''/'' ''/v1/admin/scopes/:id/admin-session-reads'') pathname \<and>
                 \<not> personal_scope claims
         then Some SessionReadsFromDm
         else if method = ''GET'' \<and> isAdminContentRead pathname \<and> \<not> personal_scope claims \<and>
                 fst (parseScopeId (admin_target decodeURIComponent req)) \<noteq> Some Org
         then Some PrivateContentFromDm
         else None)"

definition strictPostAllowed :: "string \<Rightarrow> json \<Rightarrow> bool" where
  "strictPostAllowed pathname body \<longleftrightarrow>
     pathname = ''/v1/surface-context'' \<or> pathname = ''/v1/memory/search'' \<or>
     js_startsWith pathname ''/v1/run-signals/'' \<or>
     path_matches (js_split CHR ''/'' ''/v1/triggers/:id/consent'') pathname \<and>
       json_get ''decision'' body = Some (JStr ''decline'')"

section \<open>The gate\<close>

datatype route_auth = AuthEither | AuthSource | AuthPublic | AuthAud string

datatype gate_refusal =
    BadCapability
  | InactivePrincipal
  | ScopeRevoked
  | AudienceRequired string
  | AudienceInvalid
  | AdminDenied admin_denial
  | CapabilityNotValid
  | CapabilityRequired string
  | SourceNotConfigured
  | SourceRefused source_auth_reason
  | BadJson
  | StrictBlocked
  | PortalIdentityRequired
  | ActorMismatch

fun gate_status :: "gate_refusal \<Rightarrow> nat" where
  "gate_status BadCapability = 401"
| "gate_status InactivePrincipal = 401"
| "gate_status ScopeRevoked = 403"
| "gate_status (AudienceRequired _) = 403"
| "gate_status AudienceInvalid = 403"
| "gate_status (AdminDenied _) = 403"
| "gate_status CapabilityNotValid = 403"
| "gate_status (CapabilityRequired _) = 401"
| "gate_status SourceNotConfigured = 401"
| "gate_status (SourceRefused _) = 401"
| "gate_status BadJson = 400"
| "gate_status StrictBlocked = 403"
| "gate_status PortalIdentityRequired = 401"
| "gate_status ActorMismatch = 403"

record gate_result =
  gr_body :: json
  gr_capability :: "json option"
  gr_actor :: "json option"

record gate_env =
  ge_lib :: crypto_lib
  ge_knownTz :: "string \<Rightarrow> bool"
  ge_decode :: "string \<Rightarrow> string option"
  ge_secret :: "string option"
  ge_capabilitySecret :: "string option"
  ge_portalIdentitySecret :: "string option"
  ge_requirePortalIdentity :: bool
  ge_allowUnsigned :: bool
  ge_identity :: "identity_service option"
  ge_authorizesScope :: "string \<Rightarrow> scope_id \<Rightarrow> string option \<Rightarrow> bool"
  ge_posture :: "(scope_id \<Rightarrow> security_posture) option"

definition CAPABILITY_HEADER :: string where "CAPABILITY_HEADER = ''x-agent-capability''"
definition PORTAL_IDENTITY_HEADER :: string where "PORTAL_IDENTITY_HEADER = ''x-portal-identity''"

definition if_set :: "string option \<Rightarrow> string option" where
  "if_set s = (if truthy s then s else None)"

definition capabilityFromHeaders :: "http_request \<Rightarrow> string option" where
  "capabilityFromHeaders req = if_set (rq_header req CAPABILITY_HEADER)"

text \<open>\<open>deps.identity.classify(id).type !== "internal"\<close>, when there is an identity service.\<close>

definition no_longer_active :: "gate_env \<Rightarrow> string \<Rightarrow> bool" where
  "no_longer_active env pid \<longleftrightarrow>
     (case ge_identity env of None \<Rightarrow> False | Some i \<Rightarrow> p_type (classify i pid None) \<noteq> Internal)"

definition claim_str :: "string \<Rightarrow> json \<Rightarrow> string" where
  "claim_str k claims = (case json_get_str k claims of Some s \<Rightarrow> s | None \<Rightarrow> [])"

definition gate_capability ::
  "gate_env \<Rightarrow> time \<Rightarrow> http_request \<Rightarrow> route_auth option \<Rightarrow> string \<Rightarrow> gate_refusal + json" where
  "gate_capability env now req routeAuth capToken =
     (let capSecret = (case ge_capabilitySecret env of None \<Rightarrow> ge_secret env | Some s \<Rightarrow> Some s)
      in case (if truthy capSecret
               then verifyCapabilityToken (ge_lib env) (ge_knownTz env) capToken [the capSecret] now else None) of
           None \<Rightarrow> Inl BadCapability
         | Some capability \<Rightarrow>
             if no_longer_active env (claim_str ''actorId'' capability) then Inl InactivePrincipal
             else if \<not> ge_authorizesScope env (claim_str ''actorId'' capability) (claim_str ''scopeId'' capability)
                       (if_set (json_get_str ''scopeVersion'' capability))
             then Inl ScopeRevoked
             else
               case routeAuth of
                 Some (AuthAud requiredAud) \<Rightarrow>
                   if json_get ''aud'' capability \<noteq> Some (JStr requiredAud) then Inl (AudienceRequired requiredAud)
                   else Inr capability
               | Some AuthEither \<Rightarrow>
                   if json_get ''aud'' capability \<notin> {None, Some (JStr CONTROL_PLANE_AUD)} then Inl AudienceInvalid
                   else if js_startsWith (rq_pathname req) ''/v1/admin/''
                   then (case capabilityAdminDenied (ge_decode env) req capability of
                           Some denied \<Rightarrow> Inl (AdminDenied denied)
                         | None \<Rightarrow> Inr capability)
                   else Inr capability
               | _ \<Rightarrow> Inl CapabilityNotValid)"

definition verifyOrReject ::
  "gate_env \<Rightarrow> time \<Rightarrow> http_request \<Rightarrow> string \<Rightarrow> bool \<Rightarrow> replay_guard \<Rightarrow> (gate_refusal + unit) \<times> replay_guard" where
  "verifyOrReject env now req payload dedup g =
     (if \<not> truthy (ge_secret env)
      then (if ge_allowUnsigned env then Inr () else Inl SourceNotConfigured, g)
      else
        let secret = the (ge_secret env);
            signature = (case rq_header req ''x-signature'' of Some s \<Rightarrow> s | None \<Rightarrow> []);
            sreq = \<lparr> sr_signature = signature, sr_timestamp = rq_timestamp req, sr_body = payload, sr_eventId = signature \<rparr>
        in case (if dedup
                 then source_auth_verify (ge_lib env) \<lparr> so_signingSecret = secret, so_replayWindowMs = None \<rparr> now sreq g
                 else (verifySignature (ge_lib env) secret sreq now SOURCE_AUTH_REPLAY_WINDOW_MS, g)) of
             (Inl e, g') \<Rightarrow> (Inl (SourceRefused e), g')
           | (Inr _, g') \<Rightarrow> (Inr (), g'))"

text \<open>Authentication: the capability, if that is what the request came with.\<close>

definition authenticate ::
  "gate_env \<Rightarrow> time \<Rightarrow> http_request \<Rightarrow> route_auth option \<Rightarrow> replay_guard \<Rightarrow> (gate_refusal + json option) \<times> replay_guard" where
  "authenticate env now req routeAuth g =
     (if routeAuth = Some AuthPublic then (Inr None, g)
      else
        case capabilityFromHeaders req of
          Some capToken \<Rightarrow>
            (case gate_capability env now req routeAuth capToken of Inl e \<Rightarrow> Inl e | Inr c \<Rightarrow> Inr (Some c), g)
        | None \<Rightarrow>
            (case routeAuth of
               Some (AuthAud requiredAud) \<Rightarrow> (Inl (CapabilityRequired requiredAud), g)
             | _ \<Rightarrow>
                 (case verifyOrReject env now req
                         (canonicalPayload (rq_method req) (rq_pathname req @ rq_search req) (rq_raw req))
                         (rq_method req \<noteq> ''GET'') g of
                    (Inl e, g') \<Rightarrow> (Inl e, g')
                  | (Inr _, g') \<Rightarrow> (Inr None, g'))))"

definition portal_actor :: "gate_env \<Rightarrow> time \<Rightarrow> http_request \<Rightarrow> string option \<Rightarrow> json option" where
  "portal_actor env now req psecret =
     (case (if truthy (rq_header req PORTAL_IDENTITY_HEADER) \<and> truthy psecret
            then verifyPortalIdentity (ge_lib env) (the (rq_header req PORTAL_IDENTITY_HEADER)) (the psecret) now
            else None) of
        None \<Rightarrow> None
      | Some actor \<Rightarrow> if no_longer_active env (claim_str ''p'' actor) then None else Some actor)"

definition is_web_turn :: "http_request \<Rightarrow> json \<Rightarrow> bool" where
  "is_web_turn req body \<longleftrightarrow>
     rq_method req = ''POST'' \<and> rq_pathname req = ''/v1/turns'' \<and> json_get ''surface'' body = Some (JStr ''web'')"

definition needs_actor :: "http_request \<Rightarrow> json \<Rightarrow> bool" where
  "needs_actor req body \<longleftrightarrow>
     isUserScoped (rq_method req) (rq_pathname req) \<or> is_web_turn req body \<or>
     js_startsWith (rq_pathname req) ''/v1/admin/'' \<or> isUnclassifiedWrite (rq_method req) (rq_pathname req)"

text \<open>\<open>body.actor?.externalId ?? null\<close>.\<close>

definition web_turn_actor :: "json \<Rightarrow> json option" where
  "web_turn_actor body =
     (case Option.bind (json_get ''actor'' body) (json_get ''externalId'') of
        Some JNull \<Rightarrow> None
      | v \<Rightarrow> v)"

definition actor_matches :: "http_request \<Rightarrow> json \<Rightarrow> string \<Rightarrow> bool" where
  "actor_matches req body p \<longleftrightarrow>
     (if is_web_turn req body then web_turn_actor body \<in> {None, Some (JStr p)}
      else case userScopedField (rq_method req) (rq_pathname req) of
             Some f \<Rightarrow> assertedActor f req body = Some p
           | None \<Rightarrow> True)"

definition identify ::
  "gate_env \<Rightarrow> time \<Rightarrow> http_request \<Rightarrow> route_auth option \<Rightarrow> json \<Rightarrow> gate_refusal + json option" where
  "identify env now req routeAuth body =
     (let psecret = (case ge_portalIdentitySecret env of None \<Rightarrow> ge_secret env | Some s \<Rightarrow> Some s);
          actor = portal_actor env now req psecret
      in if routeAuth \<noteq> Some AuthPublic \<and> ge_requirePortalIdentity env \<and> needs_actor req body
         then (if \<not> truthy psecret \<or> actor = None then Inl PortalIdentityRequired
               else if \<not> actor_matches req body (claim_str ''p'' (the actor)) then Inl ActorMismatch
               else Inr actor)
         else Inr actor)"

definition strict_blocked :: "gate_env \<Rightarrow> http_request \<Rightarrow> route_auth option \<Rightarrow> json option \<Rightarrow> json \<Rightarrow> bool" where
  "strict_blocked env req routeAuth capability body \<longleftrightarrow>
     (case capability of
        None \<Rightarrow> False
      | Some c \<Rightarrow>
          (case routeAuth of Some (AuthAud _) \<Rightarrow> False | _ \<Rightarrow> True) \<and> rq_method req \<noteq> ''GET'' \<and>
          \<not> strictPostAllowed (rq_pathname req) body \<and>
          (case ge_posture env of None \<Rightarrow> False | Some f \<Rightarrow> f (claim_str ''scopeId'' c) = Strict))"

definition gate ::
  "gate_env \<Rightarrow> time \<Rightarrow> http_request \<Rightarrow> route_auth option \<Rightarrow> replay_guard \<Rightarrow> (gate_refusal + gate_result) \<times> replay_guard" where
  "gate env now req routeAuth g =
     (case authenticate env now req routeAuth g of
        (Inl e, g') \<Rightarrow> (Inl e, g')
      | (Inr capability, g') \<Rightarrow>
          (case (if rq_raw req = [] then Some (JObj []) else json_parse (rq_raw req)) of
             None \<Rightarrow> (Inl BadJson, g')
           | Some body \<Rightarrow>
               if strict_blocked env req routeAuth capability body then (Inl StrictBlocked, g')
               else
                 (case capability of
                    Some c \<Rightarrow> (Inr \<lparr> gr_body = body, gr_capability = Some c, gr_actor = None \<rparr>, g')
                  | None \<Rightarrow>
                      (case identify env now req routeAuth body of
                         Inl e \<Rightarrow> (Inl e, g')
                       | Inr actor \<Rightarrow> (Inr \<lparr> gr_body = body, gr_capability = None, gr_actor = actor \<rparr>, g')))))"

section \<open>A small configuration\<close>

text \<open>The configuration and the requests the examples below run on.\<close>

definition demo_gate :: gate_env where
  "demo_gate =
     \<lparr> ge_lib = toy_lib, ge_knownTz = (\<lambda>_. True), ge_decode = Some, ge_secret = Some ''k'', ge_capabilitySecret = None,
       ge_portalIdentitySecret = None, ge_requirePortalIdentity = True, ge_allowUnsigned = False,
       ge_identity = Some (createIdentityService []),
       ge_authorizesScope = authorizesCapabilityScope ''acme'' (createIdentityService []) mm_empty createDirectoryStore
         (\<lambda>_. Resolved []),
       ge_posture = Some (\<lambda>_. Strict) \<rparr>"

definition demo_capability :: "(string \<times> json) list" where
  "demo_capability = [(''actorId'', JStr ''ann''), (''scopeId'', JStr ''personal:ann''), (''aud'', JStr CONTROL_PLANE_AUD),
     (''exp'', JNum 90)]"

definition demo_cap_request :: http_request where
  "demo_cap_request =
     \<lparr> rq_method = ''POST'', rq_pathname = ''/v1/memory/search'', rq_search = [], rq_query = [], rq_raw = [],
       rq_header = [CAPABILITY_HEADER \<mapsto> mintCapabilityToken toy_lib ''acme'' demo_capability ''k''],
       rq_timestamp = None \<rparr>"

definition demo_user_request :: http_request where
  "demo_user_request =
     \<lparr> rq_method = ''POST'', rq_pathname = ''/v1/reach'', rq_search = [], rq_query = [], rq_raw = [],
       rq_header = [PORTAL_IDENTITY_HEADER \<mapsto>
                      mintSignedPayload toy_lib (JObj [(''p'', JStr ''ann''), (''exp'', JNum 90)]) ''k'',
                    ''x-signature'' \<mapsto> signRequest toy_lib ''k'' 0 (canonicalPayload ''POST'' ''/v1/reach'' [])],
       rq_timestamp = Some 0 \<rparr>"

lemma demo_cap_accepted:
  obtains r where "gate demo_gate 5 demo_cap_request (Some AuthEither) createReplayDedupe = (Inr r, createReplayDedupe)"
    "gr_capability r = Some (JObj (fold (\<lambda>(k, v). jmap_set k v) demo_capability [(''orgId'', JStr ''acme'')]))"
proof -
  have "(case gate demo_gate 5 demo_cap_request (Some AuthEither) createReplayDedupe of
      (Inr r, g) \<Rightarrow> g = createReplayDedupe \<and>
        gr_capability r = Some (JObj (fold (\<lambda>(k, v). jmap_set k v) demo_capability [(''orgId'', JStr ''acme'')]))
    | _ \<Rightarrow> False)" by code_simp
  then show ?thesis using that by (auto split: prod.splits sum.splits)
qed

lemma demo_user_accepted:
  obtains r g where "gate demo_gate 5 demo_user_request (Some AuthEither) createReplayDedupe = (Inr r, g)"
    "gr_capability r = None"
proof -
  have "(case gate demo_gate 5 demo_user_request (Some AuthEither) createReplayDedupe of
      (Inr r, g) \<Rightarrow> gr_capability r = None | _ \<Rightarrow> False)" by code_simp
  then show ?thesis using that by (auto split: prod.splits sum.splits)
qed

section \<open>Requests with a capability\<close>

definition cap_secret :: "gate_env \<Rightarrow> string option" where
  "cap_secret env = (case ge_capabilitySecret env of None \<Rightarrow> ge_secret env | Some s \<Rightarrow> Some s)"

lemma gate_InrD:
  assumes "gate env now req ra g = (Inr r, g')"
  shows "authenticate env now req ra g = (Inr (gr_capability r), g')"
    "\<not> strict_blocked env req ra (gr_capability r) (gr_body r)"
    "gr_capability r = None \<Longrightarrow> identify env now req ra (gr_body r) = Inr (gr_actor r)"
    "gr_capability r \<noteq> None \<Longrightarrow> gr_actor r = None"
  using assms unfolding gate_def
  by (auto split: prod.splits sum.splits option.splits if_splits)

lemma authenticate_capabilityD:
  assumes "authenticate env now req ra g = (Inr (Some c), g')"
  shows "\<exists>token. capabilityFromHeaders req = Some token \<and> gate_capability env now req ra token = Inr c" "g' = g"
    "ra \<noteq> Some AuthPublic"
  using assms unfolding authenticate_def
  by (auto split: prod.splits sum.splits option.splits if_splits route_auth.splits)

lemma gate_capability_InrD:
  assumes "gate_capability env now req ra token = Inr c"
  shows "truthy (cap_secret env)"
    "verifyCapabilityToken (ge_lib env) (ge_knownTz env) token [the (cap_secret env)] now = Some c"
    "\<not> no_longer_active env (claim_str ''actorId'' c)"
    "ge_authorizesScope env (claim_str ''actorId'' c) (claim_str ''scopeId'' c) (if_set (json_get_str ''scopeVersion'' c))"
    "(\<exists>aud. ra = Some (AuthAud aud) \<and> json_get ''aud'' c = Some (JStr aud)) \<or>
     ra = Some AuthEither \<and> json_get ''aud'' c \<in> {None, Some (JStr CONTROL_PLANE_AUD)} \<and>
       (js_startsWith (rq_pathname req) ''/v1/admin/'' \<longrightarrow> capabilityAdminDenied (ge_decode env) req c = None)"
  using assms unfolding gate_capability_def Let_def cap_secret_def [symmetric]
  by (auto split: option.splits if_splits route_auth.splits)

text \<open>What the administration requires of a capability.\<close>

definition admin_allowed :: "gate_env \<Rightarrow> http_request \<Rightarrow> json \<Rightarrow> bool" where
  "admin_allowed env req c \<longleftrightarrow>
     rq_method req = ''GET'' \<and> rq_pathname req = ''/v1/admin/whoami'' \<or>
     json_get ''aud'' c = Some (JStr CONTROL_PLANE_AUD) \<and> json_get ''liveActor'' c = Some (JBool True) \<and>
     \<not> js_startsWith (rq_pathname req) ''/v1/admin/grants'' \<and> \<not> js_startsWith (rq_pathname req) ''/v1/admin/impersonate'' \<and>
     (rq_method req = ''GET'' \<and> isAdminContentRead (rq_pathname req) \<longrightarrow>
        personal_scope c \<or> fst (parseScopeId (admin_target (ge_decode env) req)) = Some Org)"

lemma admin_not_denied: "capabilityAdminDenied (ge_decode env) req c = None \<Longrightarrow> admin_allowed env req c"
  by (auto simp: capabilityAdminDenied_def admin_allowed_def Let_def split: if_splits)



section \<open>Requests of portal users\<close>

lemma identify_InrD:
  assumes "identify env now req ra body = Inr a" "ra \<noteq> Some AuthPublic" "ge_requirePortalIdentity env" "needs_actor req body"
  shows "\<exists>actor psecret token. a = Some actor \<and> rq_header req PORTAL_IDENTITY_HEADER = Some token \<and>
      (ge_portalIdentitySecret env = Some psecret \<or> ge_portalIdentitySecret env = None \<and> ge_secret env = Some psecret) \<and>
      verifyPortalIdentity (ge_lib env) token psecret now = Some actor \<and>
      \<not> no_longer_active env (claim_str ''p'' actor) \<and> actor_matches req body (claim_str ''p'' actor)"
proof -
  define ps where "ps = (case ge_portalIdentitySecret env of None \<Rightarrow> ge_secret env | Some s \<Rightarrow> Some s)"
  have i: "(if \<not> truthy ps \<or> portal_actor env now req ps = None then Inl PortalIdentityRequired
      else if \<not> actor_matches req body (claim_str ''p'' (the (portal_actor env now req ps))) then Inl ActorMismatch
      else Inr (portal_actor env now req ps)) = Inr a"
    using assms(1) unfolding identify_def Let_def ps_def [symmetric] by (simp only: assms(2-4) simp_thms if_True)
  obtain actor where pa: "portal_actor env now req ps = Some actor"
    using i by (cases "portal_actor env now req ps") simp_all
  from i have a: "a = Some actor" "truthy ps" "portal_actor env now req ps = Some actor"
      "actor_matches req body (claim_str ''p'' actor)" by (simp_all add: pa split: if_splits)
  from a(3) have p: "truthy (rq_header req PORTAL_IDENTITY_HEADER)"
      "verifyPortalIdentity (ge_lib env) (the (rq_header req PORTAL_IDENTITY_HEADER)) (the ps) now = Some actor"
      "\<not> no_longer_active env (claim_str ''p'' actor)"
    unfolding portal_actor_def by (auto split: option.splits if_splits)
  obtain token where "rq_header req PORTAL_IDENTITY_HEADER = Some token" using p(1) by (auto simp: truthy_def)
  moreover obtain psecret where "ps = Some psecret" using a(2) by (auto simp: truthy_def)
  ultimately show ?thesis using a p by (auto simp: ps_def split: option.splits)
qed

text \<open>The claim a portal identity makes: the person, until when.\<close>

lemma verifyPortalIdentity_iff:
  "verifyPortalIdentity lib token secret now = Some a \<longleftrightarrow>
     verifySignedPayload lib token [secret] = Some a \<and> claim_str ''p'' a \<noteq> [] \<and>
     (\<exists>t. json_get ''exp'' a = Some (JNum t) \<and> now \<le> t)"
proof (cases "verifySignedPayload lib token [secret] = Some a")
  case True
  have "present is_JStr ''p'' a \<and> present json_truthy ''p'' a \<longleftrightarrow> claim_str ''p'' a \<noteq> []"
    by (auto simp: present_def claim_str_def json_get_str_def split: option.splits json.splits)
  moreover have "present is_JNum ''exp'' a \<and> now \<le> claims_exp a \<longleftrightarrow> (\<exists>t. json_get ''exp'' a = Some (JNum t) \<and> now \<le> t)"
    by (auto simp: present_def claims_exp_def split: option.splits json.splits)
  moreover have "present is_JNum ''exp'' a \<longrightarrow> json_truthy a" using get_truthy by (auto simp: present_iff)
  moreover have "verifyPortalIdentity lib token secret now = Some a \<longleftrightarrow> json_truthy a \<and> present is_JStr ''p'' a \<and>
      present json_truthy ''p'' a \<and> present is_JNum ''exp'' a \<and> now \<le> claims_exp a"
    using True by (auto simp: verifyPortalIdentity_def)
  ultimately show ?thesis using True by argo
qed (auto simp: verifyPortalIdentity_def split: option.splits)

lemma unclassified_needs_actor:
  assumes "rq_method req \<in> set WRITE \<or> isUserScoped (rq_method req) (rq_pathname req) \<or>
      js_startsWith (rq_pathname req) ''/v1/admin/''"
    and "\<not> needs_actor req body"
  shows "list_ex (rule_matches (rq_method req) (rq_pathname req)) SYSTEM \<and> \<not> is_web_turn req body"
proof -
  have "isUserScoped (rq_method req) (rq_pathname req)" if "userScopedField (rq_method req) (rq_pathname req) \<noteq> None"
    using that by (auto simp: userScopedField_def isUserScoped_def rule_matches_def list_ex_iff bind_eq_Some_conv
        dest!: find_SomeD)
  then show ?thesis using assms by (auto simp: needs_actor_def isUnclassifiedWrite_def split: if_splits)
qed

text \<open>
  C13. Nobody changes anything anonymously: where portal identities are required, a request without a
  capability that passes the gate to a route that is not public, and that writes, reads something of a user
  or goes to the administration, acts as an active person named by an identity that was signed under the
  portal secret and has not expired, and the person the request itself names is that one; the only
  exceptions are the listed routes of the system, where it must not be a turn from the web. A write
  to a route nobody classified is never an exception. And a request without a capability was signed under
  the shared secret, unless the server has none and accepts that.
\<close>

theorem gate_identifies_user:
  assumes "gate env now req ra g = (Inr r, g')" "gr_capability r = None" "ra \<noteq> Some AuthPublic"
  shows "(ge_requirePortalIdentity env \<and>
      (rq_method req \<in> set WRITE \<or> isUserScoped (rq_method req) (rq_pathname req) \<or>
       js_startsWith (rq_pathname req) ''/v1/admin/'') \<longrightarrow>
     (\<exists>actor token psecret. gr_actor r = Some actor \<and> rq_header req PORTAL_IDENTITY_HEADER = Some token \<and>
        psecret \<in> {ge_portalIdentitySecret env, ge_secret env} \<and>
        verifySignedPayload (ge_lib env) token [the psecret] = Some actor \<and>
        (\<exists>t. json_get ''exp'' actor = Some (JNum t) \<and> now \<le> t) \<and>
        (\<forall>i. ge_identity env = Some i \<longrightarrow> isInternal (classify i (claim_str ''p'' actor) None)) \<and>
        actor_matches req (gr_body r) (claim_str ''p'' actor)) \<or>
     list_ex (rule_matches (rq_method req) (rq_pathname req)) SYSTEM \<and> \<not> is_web_turn req (gr_body r)) \<and>
    (truthy (ge_secret env) \<longrightarrow>
       (\<exists>ts. rq_timestamp req = Some ts \<and> \<bar>now - ts * 1000\<bar> \<le> SOURCE_AUTH_REPLAY_WINDOW_MS \<and>
          rq_header req ''x-signature'' = Some (signRequest (ge_lib env) (the (ge_secret env)) ts
            (canonicalPayload (rq_method req) (rq_pathname req @ rq_search req) (rq_raw req))))) \<and>
    (\<not> truthy (ge_secret env) \<longrightarrow> ge_allowUnsigned env)"
proof (intro conjI impI)
  note D = gate_InrD [OF assms(1), unfolded assms(2)]
  let ?needs = "needs_actor req (gr_body r)"
  assume A: "ge_requirePortalIdentity env \<and> (rq_method req \<in> set WRITE \<or> isUserScoped (rq_method req) (rq_pathname req) \<or>
       js_startsWith (rq_pathname req) ''/v1/admin/'')"
  show "(\<exists>actor token psecret. gr_actor r = Some actor \<and> rq_header req PORTAL_IDENTITY_HEADER = Some token \<and>
        psecret \<in> {ge_portalIdentitySecret env, ge_secret env} \<and>
        verifySignedPayload (ge_lib env) token [the psecret] = Some actor \<and>
        (\<exists>t. json_get ''exp'' actor = Some (JNum t) \<and> now \<le> t) \<and>
        (\<forall>i. ge_identity env = Some i \<longrightarrow> isInternal (classify i (claim_str ''p'' actor) None)) \<and>
        actor_matches req (gr_body r) (claim_str ''p'' actor)) \<or>
     list_ex (rule_matches (rq_method req) (rq_pathname req)) SYSTEM \<and> \<not> is_web_turn req (gr_body r)"
  proof (cases ?needs)
    case True
    obtain actor psecret token where a: "gr_actor r = Some actor" "rq_header req PORTAL_IDENTITY_HEADER = Some token"
        "ge_portalIdentitySecret env = Some psecret \<or> ge_portalIdentitySecret env = None \<and> ge_secret env = Some psecret"
        "verifyPortalIdentity (ge_lib env) token psecret now = Some actor"
        "\<not> no_longer_active env (claim_str ''p'' actor)" "actor_matches req (gr_body r) (claim_str ''p'' actor)"
      using identify_InrD [OF D(3) assms(3) _ True] A by blast
    have "isInternal (classify i (claim_str ''p'' actor) None)" if "ge_identity env = Some i" for i
      using a(5) that by (simp add: no_longer_active_def isInternal_def)
    moreover have "Some psecret \<in> {ge_portalIdentitySecret env, ge_secret env}" using a(3) by auto
    moreover have "verifySignedPayload (ge_lib env) token [the (Some psecret)] = Some actor"
        "\<exists>t. json_get ''exp'' actor = Some (JNum t) \<and> now \<le> t"
      using a(4) by (simp_all add: verifyPortalIdentity_iff)
    ultimately show ?thesis using a(1,2,6) by blast
  next
    case False
    then show ?thesis using A unclassified_needs_actor by blast
  qed
next
  have "authenticate env now req ra g = (Inr None, g')" using gate_InrD(1) [OF assms(1)] assms(2) by simp
  then have v: "fst (verifyOrReject env now req (canonicalPayload (rq_method req) (rq_pathname req @ rq_search req) (rq_raw req))
      (rq_method req \<noteq> ''GET'') g) = Inr ()"
    using assms(3) unfolding authenticate_def by (auto split: prod.splits sum.splits option.splits route_auth.splits)
  show "ge_allowUnsigned env" if "\<not> truthy (ge_secret env)" using v that by (auto simp: verifyOrReject_def split: if_splits)
  show "\<exists>ts. rq_timestamp req = Some ts \<and> \<bar>now - ts * 1000\<bar> \<le> SOURCE_AUTH_REPLAY_WINDOW_MS \<and>
      rq_header req ''x-signature'' = Some (signRequest (ge_lib env) (the (ge_secret env)) ts
        (canonicalPayload (rq_method req) (rq_pathname req @ rq_search req) (rq_raw req)))"
    if "truthy (ge_secret env)"
    using v that by (auto simp: verifyOrReject_def source_auth_verify_def verifySignature_def Let_def
        split: if_splits option.splits sum.splits prod.splits)
qed

theorem gate_identifies_user_witness:
  "\<exists>actor token psecret. rq_header demo_user_request PORTAL_IDENTITY_HEADER = Some token \<and>
     psecret \<in> {None, Some ''k''} \<and> verifySignedPayload toy_lib token [the psecret] = Some actor \<and>
     (\<exists>t. json_get ''exp'' actor = Some (JNum t) \<and> 5 \<le> t)"
proof -
  obtain r g where r: "gate demo_gate 5 demo_user_request (Some AuthEither) createReplayDedupe = (Inr r, g)"
    "gr_capability r = None" by (rule demo_user_accepted)
  have w: "rq_method demo_user_request \<in> set WRITE"
    "\<not> list_ex (rule_matches (rq_method demo_user_request) (rq_pathname demo_user_request)) SYSTEM" by code_simp+
  have d: "ge_requirePortalIdentity demo_gate" "ge_lib demo_gate = toy_lib" "ge_secret demo_gate = Some ''k''"
    "ge_portalIdentitySecret demo_gate = None"
    by (simp_all add: demo_gate_def)
  have "Some AuthEither \<noteq> Some AuthPublic" by simp
  from gate_identifies_user [OF r this, unfolded d(2-4)] w d(1) show ?thesis by blast
qed

section \<open>Writes are served once\<close>

definition source_opts :: "gate_env \<Rightarrow> source_auth_opts" where
  "source_opts env = \<lparr> so_signingSecret = the (ge_secret env), so_replayWindowMs = None \<rparr>"

definition source_request_of :: "http_request \<Rightarrow> source_request" where
  "source_request_of req =
     (let signature = (case rq_header req ''x-signature'' of Some s \<Rightarrow> s | None \<Rightarrow> [])
      in \<lparr> sr_signature = signature, sr_timestamp = rq_timestamp req,
           sr_body = canonicalPayload (rq_method req) (rq_pathname req @ rq_search req) (rq_raw req), sr_eventId = signature \<rparr>)"

lemma gate_guard_authenticate: "snd (gate env now req ra g) = snd (authenticate env now req ra g)"
  by (auto simp: gate_def split: prod.splits sum.splits option.splits if_splits)

lemma verifyOrReject_guard:
  assumes "payload = canonicalPayload (rq_method req) (rq_pathname req @ rq_search req) (rq_raw req)"
  shows "snd (verifyOrReject env now req payload dedup g) = g \<or>
     snd (verifyOrReject env now req payload dedup g) =
       snd (source_auth_verify (ge_lib env) (source_opts env) now (source_request_of req) g)"
  using assms
  by (auto simp: verifyOrReject_def source_opts_def source_request_of_def Let_def split: prod.splits sum.splits)

lemma gate_guard:
  "snd (gate env now req ra g) = g \<or>
   snd (gate env now req ra g) = snd (source_auth_verify (ge_lib env) (source_opts env) now (source_request_of req) g)"
  unfolding gate_guard_authenticate authenticate_def
  using verifyOrReject_guard [OF refl, of env now req "rq_method req \<noteq> ''GET''" g]
  by (auto split: prod.splits sum.splits option.splits route_auth.splits)

text \<open>Requests that arrive one after the other, each at its time and for its route.\<close>

definition serve_requests ::
  "gate_env \<Rightarrow> (time \<times> http_request \<times> route_auth option) list \<Rightarrow> replay_guard \<Rightarrow> replay_guard" where
  "serve_requests env reqs g = fold (\<lambda>(t, req, ra) g. snd (gate env t req ra g)) reqs g"

lemma serve_requests_barred:
  "barred g e till \<Longrightarrow> \<forall>(t, req, ra) \<in> set reqs. t \<le> till \<Longrightarrow> barred (serve_requests env reqs g) e till"
proof (induction reqs arbitrary: g)
  case (Cons x reqs)
  obtain t req ra where x: "x = (t, req, ra)" by (cases x)
  have "barred (snd (gate env t req ra g)) e till"
    using gate_guard [of env t req ra g] Cons.prems x
      serve_barred [of g e till "[(t, source_request_of req)]" "ge_lib env" "source_opts env"]
    by (auto simp: serve_def)
  then show ?case using Cons x by (simp add: serve_requests_def)
qed (simp add: serve_requests_def)

text \<open>A write that comes signed, without a capability and not to a public route.\<close>

definition signed_write :: "http_request \<Rightarrow> route_auth option \<Rightarrow> bool" where
  "signed_write req ra \<longleftrightarrow> capabilityFromHeaders req = None \<and> ra \<noteq> Some AuthPublic \<and> rq_method req \<noteq> ''GET''"

lemma signed_write_accepted:
  assumes "gate env now req ra g = (Inr r, g')" "truthy (ge_secret env)" "signed_write req ra"
  shows "source_auth_verify (ge_lib env) (source_opts env) now (source_request_of req) g = (Inr (), g')"
proof -
  note A = gate_InrD(1) [OF assms(1)]
  have "gr_capability r = None"
    using A assms(3) by (auto simp: authenticate_def signed_write_def split: prod.splits sum.splits route_auth.splits option.splits)
  then have "verifyOrReject env now req (canonicalPayload (rq_method req) (rq_pathname req @ rq_search req) (rq_raw req)) True g =
      (Inr (), g')"
    using A assms(3) by (auto simp: authenticate_def signed_write_def split: prod.splits sum.splits route_auth.splits option.splits)
  then show ?thesis
    using assms(2) by (auto simp: verifyOrReject_def source_opts_def source_request_of_def Let_def
        split: prod.splits sum.splits)
qed

text \<open>
  A captured write is worthless: after a signed write passed the gate, no later signed write with its
  signature and timestamp passes again, to whatever route and with whatever body it is presented, and
  whatever requests were served in between.
\<close>

theorem gate_write_served_once:
  assumes "gate env now req ra g = (Inr r, g')" "truthy (ge_secret env)" "signed_write req ra"
    and "\<forall>(t, _) \<in> set reqs. t \<le> later" "now \<le> later"
    and "signed_write again ra'" "rq_header again ''x-signature'' = rq_header req ''x-signature''"
      "rq_timestamp again = rq_timestamp req"
  shows "\<exists>e. fst (gate env later again ra' (serve_requests env reqs g')) = Inl e"
proof (rule ccontr)
  let ?g = "serve_requests env reqs g'" and ?w = SOURCE_AUTH_REPLAY_WINDOW_MS
  let ?e = "sr_eventId (source_request_of req)"
  assume "\<nexists>e. fst (gate env later again ra' ?g) = Inl e"
  then obtain r' where "gate env later again ra' ?g = (Inr r', snd (gate env later again ra' ?g))"
    by (metis obj_sumE prod.collapse)
  note again = source_auth_verify_ok [OF signed_write_accepted [OF this assms(2,6)]]
  obtain ts where ts: "rq_timestamp req = Some ts" "replay_claim ?e (ts * 1000 + ?w) now g = (True, g')"
    using source_auth_verify_ok [OF signed_write_accepted [OF assms(1-3)]]
    by (auto simp: source_opts_def source_request_of_def Let_def)
  have same: "sr_eventId (source_request_of again) = ?e" using assms(7) by (simp add: source_request_of_def Let_def)
  have late: "later \<le> ts * 1000 + ?w" and claimed: "fst (replay_claim ?e (ts * 1000 + ?w) later ?g)"
    using again ts(1) assms(8) same by (auto simp: source_opts_def source_request_of_def Let_def)
  have "\<forall>(t, req, ra) \<in> set reqs. t \<le> ts * 1000 + ?w" using assms(4) late by fastforce
  from serve_requests_barred [OF mem_guard.accept_bars [OF ts(2)] this]
  have "barred ?g ?e (ts * 1000 + ?w)" .
  from mem_guard.bar_refuses [OF this late] claimed show False by blast
qed

theorem gate_write_served_once_witness:
  "\<exists>e. fst (gate demo_gate 9 demo_user_request (Some AuthEither)
     (snd (gate demo_gate 5 demo_user_request (Some AuthEither) createReplayDedupe))) = Inl e"
proof -
  obtain r g where r: "gate demo_gate 5 demo_user_request (Some AuthEither) createReplayDedupe = (Inr r, g)"
    by (rule demo_user_accepted)
  have "truthy (ge_secret demo_gate)" "signed_write demo_user_request (Some AuthEither)" by code_simp+
  from gate_write_served_once [OF r this, of "[]" 9 demo_user_request "Some AuthEither"] this r show ?thesis
    by (simp add: serve_requests_def)
qed

end
