(* ===== verification/Egress_Proxy.thy ===== *)
theory Egress_Proxy
  imports Tokens Resolution
begin

text \<open>
  The authorisation service of the network proxy (\<open>src/egress-authz-main.ts\<close>, \<open>src/util/network.ts\<close>) and the
  token a turn gets for it (\<open>egressClaimAllowingControlPlane\<close> in \<open>src/core/orchestrator/turn-helpers.ts\<close>, minted in
  \<open>src/core/orchestrator.ts\<close>): every connection of a sandbox is allowed or refused by the policy that the
  turn's token carries.

  Name resolution is a parameter; \<open>None\<close> means that it failed. The addresses, block lists and the test for
  an address are those of Node's \<open>net\<close>: an IPv4 address counts as its IPv4-mapped IPv6 address, as it
  does in a \<open>BlockList\<close>, so an address is a number below \<open>2^128\<close> with a family. The
  control plane signs the tokens and writes a policy of its own type into them; a token with a policy of
  another shape, which it never mints, is refused in the model.
\<close>

section \<open>Addresses\<close>

datatype ip_family = FamilyV4 | FamilyV6

definition small_octet :: "string \<Rightarrow> int option" where
  "small_octet s =
     (if s = [] \<or> length s > 3 \<or> \<not> list_all is_digit s \<or> length s > 1 \<and> hd s = CHR ''0'' then None
      else let n = int (decimal_value s) in if n \<le> 255 then Some n else None)"

definition parse_v4 :: "string \<Rightarrow> int option" where
  "parse_v4 s =
     (case map small_octet (js_split CHR ''.'' s) of
        [Some a, Some b, Some c, Some d] \<Rightarrow> Some (((a * 256 + b) * 256 + c) * 256 + d)
      | _ \<Rightarrow> None)"

definition hex_group :: "string \<Rightarrow> int option" where
  "hex_group s =
     (if s = [] \<or> length s > 4 then None
      else foldl (\<lambda>acc c. case (acc, hex_digit_value c) of (Some a, Some h) \<Rightarrow> Some (a * 16 + int h) | _ \<Rightarrow> None) (Some 0) s)"

text \<open>The 16-bit groups of a text between colons; the last part may be an IPv4 address, which is two groups.\<close>

fun hex_groups :: "string list \<Rightarrow> int list option" where
  "hex_groups [] = Some []"
| "hex_groups [s] =
     (case parse_v4 s of
        Some v \<Rightarrow> Some [v div 65536, v mod 65536]
      | None \<Rightarrow> map_option (\<lambda>g. [g]) (hex_group s))"
| "hex_groups (s # t # ss) =
     (case hex_group s of None \<Rightarrow> None | Some g \<Rightarrow> map_option (Cons g) (hex_groups (t # ss)))"

definition groups_of :: "string \<Rightarrow> int list option" where
  "groups_of s = (if s = [] then Some [] else hex_groups (js_split CHR '':'' s))"

text \<open>The text before and after the first \<open>::\<close>.\<close>

fun split_gap :: "string \<Rightarrow> (string \<times> string) option" where
  "split_gap (a # b # cs) =
     (if a = CHR '':'' \<and> b = CHR '':'' then Some ([], cs) else map_option (apfst (Cons a)) (split_gap (b # cs)))"
| "split_gap _ = None"

definition groups_value :: "int list \<Rightarrow> int" where
  "groups_value gs = foldl (\<lambda>a g. a * 65536 + g) 0 gs"

definition parse_v6 :: "string \<Rightarrow> int option" where
  "parse_v6 s =
     (case split_gap s of
        None \<Rightarrow> (case groups_of s of Some gs \<Rightarrow> if length gs = 8 then Some (groups_value gs) else None | None \<Rightarrow> None)
      | Some (l, r) \<Rightarrow>
          (if parse_v4 (last (js_split CHR '':'' l)) \<noteq> None then None
           else case (groups_of l, groups_of r) of
                  (Some gl, Some gr) \<Rightarrow>
                    if length gl + length gr \<le> 7
                    then Some (groups_value (gl @ replicate (8 - length gl - length gr) 0 @ gr)) else None
                | _ \<Rightarrow> None))"

text \<open>An IPv6 address may carry a zone.\<close>

definition without_zone :: "string \<Rightarrow> string option" where
  "without_zone s =
     (let a = takeWhile (\<lambda>c. c \<noteq> CHR ''%'') s; z = drop (length a) s
      in if z = [] then Some s
         else if tl z \<noteq> [] \<and> list_all (\<lambda>c. is_alnum c \<or> c \<in> set ''-.:'') (tl z) then Some a else None)"

definition V4_MAPPED :: int where "V4_MAPPED = 65535 * 2 ^ 32"

definition ip_of :: "string \<Rightarrow> (ip_family \<times> int) option" where
  "ip_of s =
     (case parse_v4 s of
        Some v \<Rightarrow> Some (FamilyV4, V4_MAPPED + v)
      | None \<Rightarrow> map_option (Pair FamilyV6) (Option.bind (without_zone s) parse_v6))"

definition isIP :: "string \<Rightarrow> nat" where
  "isIP s = (case ip_of s of None \<Rightarrow> 0 | Some (FamilyV4, _) \<Rightarrow> 4 | Some (FamilyV6, _) \<Rightarrow> 6)"

type_synonym subnet_rule = "int \<times> nat"

text \<open>\<open>addSubnet\<close>: the prefix of an IPv4 network counts within the mapped address.\<close>

definition subnet :: "string \<Rightarrow> nat \<Rightarrow> subnet_rule" where
  "subnet net prefix =
     (case the (ip_of net) of (FamilyV4, v) \<Rightarrow> (v, 96 + prefix) | (FamilyV6, v) \<Rightarrow> (v, prefix))"

definition in_subnet :: "int \<Rightarrow> subnet_rule \<Rightarrow> bool" where
  "in_subnet a n \<longleftrightarrow> a div 2 ^ (128 - snd n) = fst n div 2 ^ (128 - snd n)"

definition LINK_LOCAL :: "subnet_rule list" where
  "LINK_LOCAL = [subnet ''169.254.0.0'' 16, subnet ''fe80::'' 10, subnet ''fd00:ec2::254'' 128]"

definition PRIVATE_NETWORKS :: "subnet_rule list" where
  "PRIVATE_NETWORKS =
     [subnet ''0.0.0.0'' 8, subnet ''10.0.0.0'' 8, subnet ''100.64.0.0'' 10, subnet ''127.0.0.0'' 8,
      subnet ''169.254.0.0'' 16, subnet ''172.16.0.0'' 12, subnet ''192.0.0.0'' 24, subnet ''192.0.2.0'' 24,
      subnet ''192.168.0.0'' 16, subnet ''198.18.0.0'' 15, subnet ''198.51.100.0'' 24, subnet ''203.0.113.0'' 24,
      subnet ''224.0.0.0'' 4, subnet ''240.0.0.0'' 4,
      subnet ''::'' 128, subnet ''::1'' 128, subnet ''64:ff9b:1::'' 48, subnet ''fc00::'' 7, subnet ''fec0::'' 10,
      subnet ''fe80::'' 10, subnet ''ff00::'' 8, subnet ''2001:db8::'' 32]"

definition blocked :: "subnet_rule list \<Rightarrow> string \<Rightarrow> bool" where
  "blocked nets s \<longleftrightarrow> (case ip_of s of None \<Rightarrow> False | Some (_, a) \<Rightarrow> list_ex (in_subnet a) nets)"

text \<open>\<open>s.replace(/%.*$/, "")\<close>.\<close>

fun strip_zone :: "string \<Rightarrow> string" where
  "strip_zone [] = []"
| "strip_zone (c # cs) = (if c = CHR ''%'' \<and> \<not> list_ex is_line_end cs then [] else c # strip_zone cs)"

definition isLinkLocalOrMetadataIp :: "string \<Rightarrow> bool" where
  "isLinkLocalOrMetadataIp ip =
     (let s = strip_zone (strip_brackets (js_lower (js_trim ip)))
      in if isIP s = 0 then False else blocked LINK_LOCAL s)"

definition isPrivateNetworkIp :: "string \<Rightarrow> bool" where
  "isPrivateNetworkIp raw =
     (let s = strip_zone (strip_brackets (js_lower (js_trim raw)))
      in if isIP s = 0 then False else blocked PRIVATE_NETWORKS s)"

definition METADATA_HOSTS :: "string list" where
  "METADATA_HOSTS = [''metadata.google.internal'', ''metadata.goog'']"

definition isAlwaysBlockedHost :: "string \<Rightarrow> bool" where
  "isAlwaysBlockedHost host =
     (let h = strip_final_dot (strip_brackets (js_lower (js_trim host)))
      in if isIP h \<noteq> 0 then isLinkLocalOrMetadataIp h
         else list_ex (\<lambda>m. h = m \<or> js_endsWith h (''.'' @ m)) METADATA_HOSTS)"

section \<open>Reading the request\<close>

definition OPEN :: egress_policy where
  "OPEN = \<lparr> eg_allowedHosts = [], eg_denyPrivateNetworks = None, eg_privateNetworkAllowedHosts = None, eg_deniedHosts = Some [] \<rparr>"

definition DENY_ALL :: egress_policy where
  "DENY_ALL = \<lparr> eg_allowedHosts = [''deny.invalid''], eg_denyPrivateNetworks = None, eg_privateNetworkAllowedHosts = None,
     eg_deniedHosts = Some [] \<rparr>"

text \<open>\<open>raw.split(/\s+/, 2)\<close>; \<open>base64\<close> decodes, as \<open>Buffer.from(value, "base64")\<close> does.\<close>

definition tokenFromRequest :: "(string \<Rightarrow> string) \<Rightarrow> string option \<Rightarrow> string option" where
  "tokenFromRequest base64 raw =
     (if \<not> truthy raw then None
      else
        case take 2 (js_split (CHR '' '') (js_squeeze (the raw))) of
          [scheme, v] \<Rightarrow>
            if scheme = [] \<or> v = [] then None
            else if js_lower scheme = ''bearer'' then Some v
            else if js_lower scheme = ''basic'' then
              (let decoded = base64 v
               in case js_find_index (\<lambda>c. c = CHR '':'') decoded of
                    Some colon \<Rightarrow> Some (drop (colon + 1) decoded)
                  | None \<Rightarrow> Some decoded)
            else None
        | _ \<Rightarrow> None)"

text \<open>\<open>/:(\d+)$/\<close>: the text before the last colon and the digits after it.\<close>

definition port_suffix :: "string \<Rightarrow> (string \<times> string) option" where
  "port_suffix a =
     (let ds = rev (takeWhile is_digit (rev a)); pre = take (length a - length ds) a
      in if ds \<noteq> [] \<and> js_endsWith pre '':'' then Some (butlast pre, ds) else None)"

text \<open>\<open>/^\[(.+)\](?::\d+)?$/\<close>.\<close>

definition bracketed :: "string \<Rightarrow> string option" where
  "bracketed a =
     (let inner = (\<lambda>s. if 3 \<le> length s \<and> hd s = CHR ''['' \<and> last s = CHR '']'' \<and>
                          \<not> list_ex is_line_end (butlast (tl s))
                       then Some (butlast (tl s)) else None)
      in case inner a of
           Some h \<Rightarrow> Some h
         | None \<Rightarrow> (case port_suffix a of None \<Rightarrow> None | Some (pre, _) \<Rightarrow> inner pre))"

definition hostFromAuthority :: "string \<Rightarrow> string option" where
  "hostFromAuthority authority =
     (let a = js_trim authority
      in if a = [] then None
         else
           case bracketed a of
             Some h \<Rightarrow> Some h
           | None \<Rightarrow> (case port_suffix a of Some (pre, _) \<Rightarrow> if pre \<noteq> [] then Some pre else Some a | None \<Rightarrow> Some a))"

definition port_of :: "string option \<Rightarrow> string \<Rightarrow> int" where
  "port_of scheme authority =
     (case port_suffix authority of
        Some (_, ds) \<Rightarrow> int (decimal_value ds)
      | None \<Rightarrow> if scheme = Some ''http'' then 80 else 443)"

section \<open>The decision\<close>

record proxy_decision =
  pd_allow :: bool
  pd_verdict :: egress_verdict
  pd_address :: "string option"

definition refuse :: "egress_verdict \<Rightarrow> proxy_decision" where
  "refuse v = \<lparr> pd_allow = False, pd_verdict = v, pd_address = None \<rparr>"

text \<open>An address a name may not resolve to.\<close>

definition bad_address :: "url_hostname \<Rightarrow> string \<Rightarrow> egress_policy option \<Rightarrow> string \<Rightarrow> bool" where
  "bad_address url host policy ip \<longleftrightarrow>
     isLinkLocalOrMetadataIp ip \<or>
     isHostDenied url ip (Option.bind policy eg_deniedHosts) \<or>
     Option.bind policy eg_denyPrivateNetworks = Some True \<and>
       \<not> (case Option.bind policy eg_privateNetworkAllowedHosts of
            None \<Rightarrow> False
          | Some rules \<Rightarrow> list_ex (hostMatches url host) rules) \<and>
       isPrivateNetworkIp ip"

definition decide ::
  "url_hostname \<Rightarrow> string \<Rightarrow> egress_policy option \<Rightarrow> (string \<Rightarrow> string list option) \<Rightarrow> proxy_decision" where
  "decide url host policy lookup =
     (if isAlwaysBlockedHost host then refuse VDenied
      else
        let byName = egressDecision url host policy
        in if \<not> ed_allow byName then refuse (ed_verdict byName)
           else
             case lookup host of
               None \<Rightarrow> refuse VDenied
             | Some [] \<Rightarrow> refuse VDenied
             | Some (ip # ips) \<Rightarrow>
                 if list_ex (bad_address url host policy) (ip # ips) then refuse VDenied
                 else \<lparr> pd_allow = True, pd_verdict = VOk, pd_address = Some ip \<rparr>)"

text \<open>The policy in a token: \<open>None\<close> when reading it throws.\<close>

fun json_strings :: "json list \<Rightarrow> string list option" where
  "json_strings [] = Some []"
| "json_strings (JStr s # xs) = map_option (Cons s) (json_strings xs)"
| "json_strings (_ # xs) = None"

definition json_hosts :: "string \<Rightarrow> json \<Rightarrow> string list option option" where
  "json_hosts k j =
     (case json_get k j of
        None \<Rightarrow> Some None
      | Some JNull \<Rightarrow> Some None
      | Some (JArr xs) \<Rightarrow> map_option Some (json_strings xs)
      | Some _ \<Rightarrow> None)"

definition json_policy :: "json \<Rightarrow> egress_policy option option" where
  "json_policy j =
     (if \<not> json_truthy j then Some None
      else
        case (json_hosts ''allowedHosts'' j, json_hosts ''privateNetworkAllowedHosts'' j, json_hosts ''deniedHosts'' j) of
          (Some allowed, Some priv, Some denied) \<Rightarrow>
            Some (Some \<lparr> eg_allowedHosts = (case allowed of None \<Rightarrow> [] | Some hs \<Rightarrow> hs),
                         eg_denyPrivateNetworks = (if json_flag ''denyPrivateNetworks'' j then Some True else None),
                         eg_privateNetworkAllowedHosts = priv, eg_deniedHosts = denied \<rparr>)
        | _ \<Rightarrow> None)"

definition claims_policy :: "json \<Rightarrow> egress_policy option option" where
  "claims_policy claims = (case json_get ''egress'' claims of None \<Rightarrow> Some None | Some j \<Rightarrow> json_policy j)"

record proxy_deps =
  px_lib :: crypto_lib
  px_knownTz :: "string \<Rightarrow> bool"
  px_base64 :: "string \<Rightarrow> string"
  px_url :: url_hostname
  px_lookup :: "string \<Rightarrow> string list option"
  px_capabilitySecret :: "string option"
  px_tokenlessOpen :: bool

definition claimsFor :: "proxy_deps \<Rightarrow> time \<Rightarrow> string option \<Rightarrow> json option" where
  "claimsFor deps now token =
     (case (if truthy token \<and> truthy (px_capabilitySecret deps)
            then verifyCapabilityToken (px_lib deps) (px_knownTz deps) (the token) [the (px_capabilitySecret deps)] now
            else None) of
        Some claims \<Rightarrow> if json_get ''aud'' claims = Some (JStr EGRESS_PROXY_AUD) then Some claims else None
      | None \<Rightarrow> None)"

record proxy_request =
  pq_authority :: string
  pq_scheme :: "string option"
  pq_authorization :: "string option"

record egress_audit =
  ea_host :: string
  ea_allowed :: bool
  ea_verdict :: egress_verdict
  ea_scopeLabel :: string
  ea_principalId :: string

definition audit_of :: "string \<Rightarrow> proxy_decision \<Rightarrow> json option \<Rightarrow> egress_audit" where
  "audit_of host d claims =
     \<lparr> ea_host = host, ea_allowed = pd_allow d, ea_verdict = pd_verdict d,
       ea_scopeLabel = (case Option.bind claims (json_get_str ''scopeId'') of Some s \<Rightarrow> s | None \<Rightarrow> ''unknown''),
       ea_principalId = (case Option.bind claims (json_get_str ''actorId'') of Some s \<Rightarrow> s | None \<Rightarrow> ''unknown'') \<rparr>"

text \<open>\<open>checkStatus\<close>: the upstream address of a connection that is let through, and the audit record.\<close>

definition checkStatus :: "proxy_deps \<Rightarrow> time \<Rightarrow> proxy_request \<Rightarrow> string option \<times> egress_audit option" where
  "checkStatus deps now req =
     (case hostFromAuthority (pq_authority req) of
        None \<Rightarrow> (None, None)
      | Some host \<Rightarrow>
          let port = port_of (pq_scheme req) (pq_authority req)
          in if port < 1 \<or> port > 65535 then (None, None)
             else
               let token = tokenFromRequest (px_base64 deps) (pq_authorization req);
                   claims = claimsFor deps now token
               in case (case claims of
                          Some c \<Rightarrow> claims_policy c
                        | None \<Rightarrow> if \<not> truthy token \<and> px_tokenlessOpen deps then Some (Some OPEN) else Some (Some DENY_ALL)) of
                    None \<Rightarrow> (None, None)
                  | Some policy \<Rightarrow>
                      let d = decide (px_url deps) host policy (px_lookup deps)
                      in ((if \<not> pd_allow d \<or> \<not> truthy (pd_address d) then None
                           else let address = the (pd_address d)
                                in Some ((if isIP address = 6 then ''['' @ address @ '']'' else address) @ '':'' @ js_show_int port)),
                          Some (audit_of host d claims)))"

section \<open>The token of a turn\<close>

definition egressClaimAllowingControlPlane ::
  "url_hostname \<Rightarrow> egress_policy \<Rightarrow> string \<Rightarrow> bool \<Rightarrow> egress_policy option" where
  "egressClaimAllowingControlPlane url egress apiBaseUrl denyPrivateNetworks =
     (let allowedHosts = eg_allowedHosts egress;
          deniedHosts = (case eg_deniedHosts egress of None \<Rightarrow> [] | Some ds \<Rightarrow> ds)
      in if allowedHosts = [] \<and> deniedHosts = [] \<and> \<not> denyPrivateNetworks then None
         else
           let coreHost = (if apiBaseUrl = [] then [] else case url apiBaseUrl of Some h \<Rightarrow> h | None \<Rightarrow> []);
               safeDenied = (if coreHost = [] then deniedHosts else filter (\<lambda>d. \<not> hostMatches url coreHost d) deniedHosts);
               allowedWithCore = (if coreHost \<noteq> [] \<and> allowedHosts \<noteq> [] \<and> coreHost \<notin> set allowedHosts
                                  then allowedHosts @ [coreHost] else allowedHosts);
               claim = \<lparr> eg_allowedHosts = allowedWithCore,
                         eg_denyPrivateNetworks = (if denyPrivateNetworks then Some True else None),
                         eg_privateNetworkAllowedHosts =
                           (if denyPrivateNetworks \<and> coreHost \<noteq> [] then Some [coreHost] else None),
                         eg_deniedHosts = (if safeDenied \<noteq> [] then Some safeDenied else None) \<rparr>
           in if eg_allowedHosts claim \<noteq> [] \<or> safeDenied \<noteq> [] \<or> denyPrivateNetworks then Some claim else None)"

definition host_field :: "string \<Rightarrow> string list option \<Rightarrow> (string \<times> json) list" where
  "host_field k hs = (case hs of None \<Rightarrow> [] | Some xs \<Rightarrow> [(k, JArr (map JStr xs))])"

definition policy_json :: "egress_policy \<Rightarrow> json" where
  "policy_json p =
     JObj ([(''allowedHosts'', JArr (map JStr (eg_allowedHosts p)))] @
       (case eg_denyPrivateNetworks p of None \<Rightarrow> [] | Some b \<Rightarrow> [(''denyPrivateNetworks'', JBool b)]) @
       host_field ''privateNetworkAllowedHosts'' (eg_privateNetworkAllowedHosts p) @
       host_field ''deniedHosts'' (eg_deniedHosts p))"

definition egress_claims :: "string \<Rightarrow> scope_id \<Rightarrow> egress_policy option \<Rightarrow> time \<Rightarrow> (string \<times> json) list" where
  "egress_claims actorId sc egress expires =
     [(''actorId'', JStr actorId), (''scopeId'', JStr sc), (''aud'', JStr EGRESS_PROXY_AUD)] @
     (case egress of None \<Rightarrow> [] | Some p \<Rightarrow> [(''egress'', policy_json p)]) @ [(''exp'', JNum expires)]"

definition mint_egress_token ::
  "crypto_lib \<Rightarrow> string \<Rightarrow> url_hostname \<Rightarrow> principal \<Rightarrow> scope_id \<Rightarrow> egress_policy \<Rightarrow> string \<Rightarrow> bool \<Rightarrow> time \<Rightarrow> string \<Rightarrow> string" where
  "mint_egress_token lib org url actor sc egress apiBaseUrl denyPrivate now secret =
     mintCapabilityToken lib org
       (egress_claims (p_id actor) sc (egressClaimAllowingControlPlane url egress apiBaseUrl denyPrivate) (now + CAPABILITY_TTL_MS))
       secret"

section \<open>The policy survives the token\<close>

lemma json_strings_map [simp]: "json_strings (map JStr xs) = Some xs"
  by (induction xs) auto

lemma json_policy_json:
  "eg_denyPrivateNetworks p \<in> {None, Some True} \<Longrightarrow> json_policy (policy_json p) = Some (Some p)"
  by (cases p) (auto simp: policy_json_def json_policy_def json_hosts_def host_field_def json_flag_def split: option.splits)

lemma policy_json_proper: "json_proper (policy_json p)"
  by (auto simp: policy_json_def host_field_def split: option.splits)

lemma egress_claims_json:
  "fold (\<lambda>(k, v). jmap_set k v) (egress_claims a sc e t) [(''orgId'', JStr org)] =
     [(''orgId'', JStr org), (''actorId'', JStr a), (''scopeId'', JStr sc), (''aud'', JStr EGRESS_PROXY_AUD)] @
     (case e of None \<Rightarrow> [] | Some p \<Rightarrow> [(''egress'', policy_json p)]) @ [(''exp'', JNum t)]"
  by (cases e) (simp_all add: egress_claims_def)

lemma egress_claims_ok:
  assumes "c = JObj (fold (\<lambda>(k, v). jmap_set k v) (egress_claims a sc e t) [(''orgId'', JStr org)])"
  shows "json_proper c" "claims_typed knownTz c" "claims_exp c = t" "json_get ''aud'' c = Some (JStr EGRESS_PROXY_AUD)"
    "(\<And>p. e = Some p \<Longrightarrow> eg_denyPrivateNetworks p \<in> {None, Some True}) \<Longrightarrow> claims_policy c = Some e"
proof -
  note c = assms [unfolded egress_claims_json]
  show "json_proper c" "claims_typed knownTz c" "claims_exp c = t" "json_get ''aud'' c = Some (JStr EGRESS_PROXY_AUD)"
    by (cases e; simp add: c policy_json_proper claims_typed_def claims_exp_def)+
  show "claims_policy c = Some e" if "\<And>p. e = Some p \<Longrightarrow> eg_denyPrivateNetworks p \<in> {None, Some True}"
    using that by (cases e) (simp_all add: c claims_policy_def json_policy_json)
qed

text \<open>The host of the control plane, whose reachability the token guarantees.\<close>

definition core_host :: "url_hostname \<Rightarrow> string \<Rightarrow> string" where
  "core_host url apiBaseUrl = (if apiBaseUrl = [] then [] else case url apiBaseUrl of Some h \<Rightarrow> h | None \<Rightarrow> [])"

lemma hostMatches_empty [simp]: "\<not> hostMatches url [] r" "\<not> hostMatches url h []"
  by (simp_all add: hostMatches_def normalizeHost_def js_defs strip_wildcard_def strip_final_dot_def strip_brackets_def
      js_startsWith_def js_endsWith_def)

text \<open>What the claim of a turn keeps of the turn's policy.\<close>

lemma egress_claim_keeps:
  assumes "egressClaimAllowingControlPlane url egress apiBaseUrl priv = claim"
  shows "\<And>p. claim = Some p \<Longrightarrow> eg_denyPrivateNetworks p \<in> {None, Some True}"
    "d \<in> set (case eg_deniedHosts egress of None \<Rightarrow> [] | Some ds \<Rightarrow> ds) \<Longrightarrow> d \<noteq> [] \<Longrightarrow> hostMatches url h d \<Longrightarrow>
       \<not> hostMatches url (core_host url apiBaseUrl) d \<Longrightarrow> isHostDenied url h (Option.bind claim eg_deniedHosts)"
    "eg_allowedHosts egress \<noteq> [] \<Longrightarrow> ed_allow (egressDecision url h claim) \<Longrightarrow>
       hostMatches url h (core_host url apiBaseUrl) \<or> list_ex (hostMatches url h) (eg_allowedHosts egress)"
    "priv \<Longrightarrow> Option.bind claim eg_denyPrivateNetworks = Some True \<and>
       (\<forall>rules. Option.bind claim eg_privateNetworkAllowedHosts = Some rules \<longrightarrow> set rules \<subseteq> {core_host url apiBaseUrl})"
proof -
  note e = assms [unfolded egressClaimAllowingControlPlane_def Let_def, folded core_host_def, symmetric]
  show "eg_denyPrivateNetworks p \<in> {None, Some True}" if "claim = Some p" for p
    using e that by (auto split: if_splits)
  show "isHostDenied url h (Option.bind claim eg_deniedHosts)"
    if d: "d \<in> set (case eg_deniedHosts egress of None \<Rightarrow> [] | Some ds \<Rightarrow> ds)" "d \<noteq> []" "hostMatches url h d"
      "\<not> hostMatches url (core_host url apiBaseUrl) d"
  proof -
    obtain ds where ds: "eg_deniedHosts egress = Some ds" "d \<in> set ds"
      using d(1) by (cases "eg_deniedHosts egress") auto
    then have "ds \<noteq> []" by auto
    then show ?thesis
      using e ds d(2-) by (auto simp: isHostDenied_def list_ex_iff filter_empty_conv split: if_splits)
  qed
  show "hostMatches url h (core_host url apiBaseUrl) \<or> list_ex (hostMatches url h) (eg_allowedHosts egress)"
    if "eg_allowedHosts egress \<noteq> []" "ed_allow (egressDecision url h claim)"
    using e that by (auto simp: egressDecision_def list_ex_iff split: if_splits)
  show "Option.bind claim eg_denyPrivateNetworks = Some True \<and>
      (\<forall>rules. Option.bind claim eg_privateNetworkAllowedHosts = Some rules \<longrightarrow> set rules \<subseteq> {core_host url apiBaseUrl})" if priv
    using e that by (auto split: if_splits)
qed

lemma decide_allows:
  assumes "pd_allow (decide url host policy lookup)"
  shows "\<not> isAlwaysBlockedHost host" "ed_allow (egressDecision url host policy)"
    "\<exists>ip ips. lookup host = Some (ip # ips) \<and> pd_address (decide url host policy lookup) = Some ip \<and>
       (\<forall>x \<in> set (ip # ips). \<not> bad_address url host policy x)"
  using assms
  by (auto simp: decide_def Let_def refuse_def list_ex_iff split: if_splits option.splits list.splits)

lemma denied_by_name: "isHostDenied url h (Option.bind claim eg_deniedHosts) \<Longrightarrow> \<not> ed_allow (egressDecision url h claim)"
  by (cases claim) (auto simp: egressDecision_def isHostDenied_def)

lemma deny_all_allows:
  assumes "pd_allow (decide url host (Some DENY_ALL) lookup)"
    and "\<And>h. hostMatches url h ''deny.invalid'' \<Longrightarrow> lookup h = None"
  shows False
  using decide_allows(2,3) [OF assms(1)] assms(2) [of host]
  by (auto simp: egressDecision_def DENY_ALL_def isHostDenied_def split: if_splits)

text \<open>The claims that the proxy reads from the token of a turn.\<close>

lemma minted_claimsFor:
  assumes "mint_egress_token (px_lib deps) org (px_url deps) actor sc egress apiBaseUrl priv issued secret \<noteq> []"
    and "px_capabilitySecret deps = Some secret" "secret \<noteq> []"
    and c: "c = JObj (fold (\<lambda>(k, v). jmap_set k v) (egress_claims (p_id actor) sc
             (egressClaimAllowingControlPlane (px_url deps) egress apiBaseUrl priv) (issued + CAPABILITY_TTL_MS))
             [(''orgId'', JStr org)])"
    and j: "jose_signature (px_lib deps) [secret] (signingKeyId (px_lib deps) secret) (json_stringify c) secret"
  shows "claimsFor deps now (Some (mint_egress_token (px_lib deps) org (px_url deps) actor sc egress apiBaseUrl priv issued secret)) =
      (if now < issued + CAPABILITY_TTL_MS then Some c else None)"
proof -
  note ok = egress_claims_ok [OF c]
  have "verifyCapabilityToken (px_lib deps) (px_knownTz deps)
      (mint_egress_token (px_lib deps) org (px_url deps) actor sc egress apiBaseUrl priv issued secret) [secret] now =
      (if now < issued + CAPABILITY_TTL_MS then Some c else None)"
    using minted_capability [OF j ok(1) c, of "px_knownTz deps" now] ok(2,3) by (simp add: mint_egress_token_def)
  then show ?thesis using ok(4) assms(1-3) by (simp add: claimsFor_def truthy_def)
qed

text \<open>A connection that is let through with a valid token, and the policy it was decided by.\<close>

lemma checkStatus_claims:
  assumes "checkStatus deps now req = (Some upstream, audit)"
    and "claimsFor deps now (tokenFromRequest (px_base64 deps) (pq_authorization req)) = Some c"
    and "claims_policy c = Some policy"
  shows "\<exists>host. hostFromAuthority (pq_authority req) = Some host \<and> pd_allow (decide (px_url deps) host policy (px_lookup deps)) \<and>
    audit = Some (audit_of host (decide (px_url deps) host policy (px_lookup deps)) (Some c))"
  using assms by (auto simp: checkStatus_def Let_def split: option.splits if_splits)

text \<open>The denied hosts and the allowed hosts of everybody who hears the turn.\<close>

definition heard_denied :: "config_reader \<Rightarrow> string \<Rightarrow> conversation \<Rightarrow> principal \<Rightarrow> string \<Rightarrow> bool" where
  "heard_denied config org cv actor d \<longleftrightarrow>
     (\<exists>p \<in> set (cv_audience cv). \<exists>s \<in> set (principalScopes p (scopeId Org org) (Some (scopeFor cv actor))).
        \<exists>e ds. cf_getEgress config s = Some e \<and> eg_deniedHosts e = Some ds \<and> d \<in> set ds)"

definition all_allow :: "config_reader \<Rightarrow> string \<Rightarrow> conversation \<Rightarrow> principal \<Rightarrow> url_hostname \<Rightarrow> string \<Rightarrow> bool" where
  "all_allow config org cv actor url host \<longleftrightarrow>
     (\<forall>p \<in> set (cv_audience cv). \<exists>s \<in> set (principalScopes p (scopeId Org org) (Some (scopeFor cv actor))).
        \<exists>e rule. cf_getEgress config s = Some e \<and> rule \<in> set (eg_allowedHosts e) \<and> hostMatches url host rule)"

lemma turn_policy:
  assumes "resolve_turn org refresh grants cv actor = Resolved r"
    and "refresh (liveConfigScopes (scopeId Org org) cv actor) = Resolved config"
  shows "heard_denied config org cv actor d \<Longrightarrow> d \<in> set (case eg_deniedHosts (re_egress r) of None \<Rightarrow> [] | Some ds \<Rightarrow> ds)"
    "list_ex (hostMatches url host) (eg_allowedHosts (re_egress r)) \<Longrightarrow> all_allow config org cv actor url host"
proof -
  have r: "eg_allowedHosts (re_egress r) =
       audienceEgressFloor (cv_audience cv) (cf_getEgress config) (scopeId Org org) (Some (scopeFor cv actor))"
    "eg_deniedHosts (re_egress r) =
       Some (audienceDeniedFloor (cv_audience cv) (cf_getEgress config) (scopeId Org org) (Some (scopeFor cv actor)))"
    using resolve_turn_Resolved [OF assms(1), unfolded assms(2) promise.inject] by metis+
  show "d \<in> set (case eg_deniedHosts (re_egress r) of None \<Rightarrow> [] | Some ds \<Rightarrow> ds)" if "heard_denied config org cv actor d"
    using that unfolding r heard_denied_def by (simp add: set_audienceDeniedFloor set_principalDeniedHosts)
  show "all_allow config org cv actor url host" if "list_ex (hostMatches url host) (eg_allowedHosts (re_egress r))"
    using that unfolding r all_allow_def
    by (auto simp: list_ex_iff set_audienceEgressFloor set_principalEgressHosts) blast
qed


text \<open>A turn with two listeners: the organisation allows one host, the second listener denies another.\<close>

definition plain_egress :: "scope_id \<Rightarrow> egress_policy option" where
  "plain_egress s =
     (if s = scopeId Org ''o'' then Some (sample_hosts [''ok''] [])
      else if s = scopeId Personal ''U2'' then Some (sample_hosts [] [''bad'']) else None)"

definition demo_url :: url_hostname where
  "demo_url s = (if s = ''https://core'' then Some ''core'' else None)"

definition demo_proxy :: proxy_deps where
  "demo_proxy =
     \<lparr> px_lib = toy_lib, px_knownTz = (\<lambda>_. True), px_base64 = id, px_url = demo_url,
       px_lookup = (\<lambda>h. if h = ''ok'' then Some [''8.8.8.8''] else if h = ''bad'' then Some [''9.9.9.9''] else None),
       px_capabilitySecret = Some ''k'', px_tokenlessOpen = False \<rparr>"

definition demo_egress_token :: string where
  "demo_egress_token = mint_egress_token toy_lib ''o'' demo_url (sample_person ''U1'') ''personal:U1'' (sample_hosts [''ok''] [''bad''])
     ''https://core'' True (90 - CAPABILITY_TTL_MS) ''k''"

definition demo_connect :: "string \<Rightarrow> proxy_request" where
  "demo_connect host = \<lparr> pq_authority = host @ '':80'', pq_scheme = None, pq_authorization = Some (''Bearer '' @ demo_egress_token) \<rparr>"

definition demo_egress_signed :: json where
  "demo_egress_signed = JObj (fold (\<lambda>(k, v). jmap_set k v) (egress_claims ''U1'' ''personal:U1''
      (egressClaimAllowingControlPlane demo_url (sample_hosts [''ok''] [''bad'']) ''https://core'' True) 90) [(''orgId'', JStr ''o'')])"

lemma demo_connects:
  "hostFromAuthority (pq_authority (demo_connect ''ok'')) = Some ''ok''"
  "hostFromAuthority (pq_authority (demo_connect ''bad'')) = Some ''bad''"
  "port_of (pq_scheme (demo_connect ''ok'')) (pq_authority (demo_connect ''ok'')) = 80"
  "port_of (pq_scheme (demo_connect ''bad'')) (pq_authority (demo_connect ''bad'')) = 80"
  "isIP ''8.8.8.8'' \<noteq> 6" "js_show_int 80 = ''80''"
  unfolding demo_connect_def proxy_request.simps by code_simp+

lemma demo_matches:
  "\<not> hostMatches demo_url ''ok'' (core_host demo_url ''https://core'')"
  "\<not> hostMatches demo_url ''ok'' ''deny.invalid''" "\<not> hostMatches demo_url ''bad'' ''deny.invalid''"
  by code_simp+

lemma demo_token_read: "tokenFromRequest id (pq_authorization (demo_connect h)) = Some demo_egress_token"
  unfolding demo_connect_def proxy_request.simps by code_simp

lemma demo_token_signed:
  "jose_signature toy_lib [''k''] (signingKeyId toy_lib ''k'') (json_stringify demo_egress_signed) ''k''"
  by code_simp

lemma demo_allowed:
  "decide demo_url ''ok'' (egressClaimAllowingControlPlane demo_url (sample_hosts [''ok''] [''bad'']) ''https://core'' True)
     (px_lookup demo_proxy) = \<lparr> pd_allow = True, pd_verdict = VOk, pd_address = Some ''8.8.8.8'' \<rparr>"
  by code_simp

lemma demo_refused:
  "decide demo_url ''bad'' (egressClaimAllowingControlPlane demo_url (sample_hosts [''ok''] [''bad'']) ''https://core'' True)
     (px_lookup demo_proxy) = refuse VDenied"
  by code_simp


text \<open>
  A denied host is dropped from the claim whenever it covers the control plane, and then protects nothing
  else either: with the control plane at \<open>api.example.com\<close>, denying \<open>example.com\<close> denies no host at all.
\<close>

definition example_url :: url_hostname where
  "example_url s = (if s = ''https://api.example.com'' then Some ''api.example.com'' else None)"

lemma core_host_lifts_parent_denial:
  "ed_allow (egressDecision example_url ''evil.example.com''
     (egressClaimAllowingControlPlane example_url (sample_hosts [] [''example.com'']) ''https://api.example.com'' priv)) \<and>
   \<not> ed_allow (egressDecision example_url ''evil.example.com'' (Some (sample_hosts [] [''example.com''])))"
proof -
  have "hostMatches example_url ''api.example.com'' ''example.com''" "hostMatches example_url ''evil.example.com'' ''example.com''"
    by code_simp+
  then show ?thesis
    by (simp add: egressClaimAllowingControlPlane_def example_url_def sample_hosts_def egressDecision_def isHostDenied_def)
qed

end
