(* ===== verification/Keychain.thy ===== *)
theory Keychain
  imports Durable_Map Json_Parse Scope Turn_Origin
begin

text \<open>
  The keychain (\<open>src/credentials/keychain.ts\<close>, with \<open>encryptSecret\<close> and \<open>decryptSecret\<close> of
  \<open>src/connectors/connector-client-store.ts\<close> and \<open>src/credentials/paths.ts\<close>): the credentials of the people and of
  the organisation, the grants that lend a credential to a conversation, the asks for one, and the
  handing out of a secret.

  The cipher, base64 and the hash that makes ids are parameters, as is the refresh of an OAuth token; its
  left value is the message of an error. An initialisation vector and a random id are arguments of the
  operation that draws them. The map of refreshes in flight only makes callers share one call and is left
  out. A file of a bundle and a value of a field is what was saved: texts decrypt to what was encrypted.
\<close>

section \<open>Encrypted secrets\<close>

record box_lib =
  bl_encrypt :: "string \<Rightarrow> string \<Rightarrow> string \<Rightarrow> string \<times> string"
  bl_decrypt :: "string \<Rightarrow> string \<Rightarrow> string \<Rightarrow> string \<Rightarrow> string option"
  bl_base64 :: "string \<Rightarrow> string"
  bl_unbase64 :: "string \<Rightarrow> string"

record secret_key =
  sk_current :: string
  sk_legacy :: string
  sk_fallbacks :: "(string \<times> string) list"

definition encryptSecret :: "box_lib \<Rightarrow> secret_key \<Rightarrow> string \<Rightarrow> string \<Rightarrow> string" where
  "encryptSecret lib key iv plain =
     (let (ct, tag) = bl_encrypt lib (sk_current key) iv plain
      in ''v2:'' @ bl_base64 lib iv @ '':'' @ bl_base64 lib tag @ '':'' @ bl_base64 lib ct)"

fun first_opened :: "('k \<Rightarrow> string option) \<Rightarrow> 'k list \<Rightarrow> string option" where
  "first_opened attempt [] = None"
| "first_opened attempt (k # ks) = (case attempt k of Some s \<Rightarrow> Some s | None \<Rightarrow> first_opened attempt ks)"

text \<open>\<open>None\<close> when it throws.\<close>

definition decryptSecret :: "box_lib \<Rightarrow> secret_key \<Rightarrow> string \<Rightarrow> string option" where
  "decryptSecret lib key enc =
     (let parts = js_split CHR '':'' enc; v2 = (hd parts = ''v2'')
      in case (if v2 then tl parts else parts) of
           [ivB, tagB, ctB] \<Rightarrow>
             if ivB = [] \<or> tagB = [] then None
             else first_opened
                    (\<lambda>(current, legacy). bl_decrypt lib (if v2 then current else legacy)
                       (bl_unbase64 lib ivB) (bl_unbase64 lib tagB) (bl_unbase64 lib ctB))
                    ((sk_current key, sk_legacy key) # sk_fallbacks key)
         | _ \<Rightarrow> None)"

section \<open>Data\<close>

datatype credential_kind = KEnv | KFile | KBroker
datatype delivery_mode = DeliverBroker | DeliverEnv
datatype grant_mode = Once | Standing
datatype grant_status = GActive | GRevoked | GUsed
datatype ask_status = AskPending | AskApproved | AskDeclined | AskExpired

record credential_injection =
  ci_header :: "string option"
  ci_scheme :: "string option"

record broker_delivery =
  bd_name :: string
  bd_delivery :: "delivery_mode option"
  bd_envKey :: "string option"
  bd_injection :: "credential_injection option"
  bd_allowedMethods :: "string list option"
  bd_allowedPathPrefixes :: "string list option"
  bd_enabled :: bool
  bd_updatedBy :: "string option"

record credential_refresh =
  rf_refreshTokenEnc :: "string option"
  rf_accountType :: "string option"
  rf_clientRef :: "string option"
  rf_grantedScopes :: "string list option"
  rf_refreshFailedAt :: "time option"
  rf_refreshError :: "string option"
  rf_orgId :: "string option"

record credential_file =
  fl_path :: string
  fl_contentBase64 :: string

record field_input =
  fi_envKey :: string
  fi_value :: string
  fi_secret :: "bool option"

record keychain_credential =
  cd_id :: string
  cd_ownerId :: string
  cd_orgId :: "string option"
  cd_service :: string
  cd_kind :: credential_kind
  cd_envKey :: "string option"
  cd_target :: "string option"
  cd_targets :: "string list option"
  cd_host :: "string option"
  cd_accountLabel :: "string option"
  cd_fields :: "(string \<times> bool) list option"
  cd_broker :: "broker_delivery option"
  cd_refresh :: "credential_refresh option"
  cd_managed :: bool
  cd_username :: "string option"
  cd_secretEnc :: string
  cd_fingerprint :: string
  cd_origin :: "string option"
  cd_expiresAt :: "time option"
  cd_createdAt :: time
  cd_updatedAt :: time

record keychain_grant =
  kg_id :: string
  kg_credentialId :: string
  kg_ownerId :: string
  kg_orgId :: "string option"
  kg_audienceScopeId :: scope_id
  kg_mode :: grant_mode
  kg_purpose :: string
  kg_status :: grant_status
  kg_createdAt :: time
  kg_expiresAt :: "time option"
  kg_revokedAt :: "time option"
  kg_usedAt :: "time option"
  kg_usedBy :: "string option"
  kg_askId :: "string option"

record keychain_ask =
  ka_id :: string
  ka_credentialId :: string
  ka_ownerId :: string
  ka_requesterId :: string
  ka_orgId :: "string option"
  ka_requesterScopeId :: scope_id
  ka_requesterDestination :: "destination option"
  ka_requesterThreadRef :: "string option"
  ka_purpose :: string
  ka_requestedMode :: "grant_mode option"
  ka_status :: ask_status
  ka_createdAt :: time
  ka_expiresAt :: time
  ka_resolvedAt :: "time option"
  ka_grantId :: "string option"
  ka_note :: "string option"
  ka_notifiedAt :: "time option"

definition ASK_TTL_MS :: int where "ASK_TTL_MS = 24 * 60 * 60000"
definition ASK_PRUNE_AFTER_MS :: int where "ASK_PRUNE_AFTER_MS = 14 * 24 * 60 * 60000"

text \<open>The \<open>KeychainError\<close>s by their messages, and their HTTP status.\<close>

datatype keychain_error =
    ServiceRequired | BadFilePath | BadFieldKey | FieldValueMissing | FieldKeysNotUnique | EmptySecret | BadEnvKey
  | UnknownCredential | BrokerNotGranted | NotTheOwner | PurposeRequired | CredentialIsExpired | OwnAsk
  | UnknownAsk | AskAlready ask_status | UnknownGrant | OtherConversation | GrantWasRevoked | GrantAlreadyUsed
  | GrantIsExpired | CredentialGone | BrokerNotMaterialized | ReconnectNeeded | DoesNotDecrypt | NotPersonal

fun keychain_status :: "keychain_error \<Rightarrow> nat" where
  "keychain_status UnknownCredential = 404"
| "keychain_status UnknownAsk = 404"
| "keychain_status UnknownGrant = 404"
| "keychain_status CredentialGone = 404"
| "keychain_status NotTheOwner = 403"
| "keychain_status OtherConversation = 403"
| "keychain_status BrokerNotMaterialized = 403"
| "keychain_status NotPersonal = 403"
| "keychain_status CredentialIsExpired = 410"
| "keychain_status (AskAlready _) = 410"
| "keychain_status GrantWasRevoked = 410"
| "keychain_status GrantAlreadyUsed = 410"
| "keychain_status GrantIsExpired = 410"
| "keychain_status ReconnectNeeded = 410"
| "keychain_status DoesNotDecrypt = 422"
| "keychain_status _ = 400"

record oauth_token =
  ot_accessToken :: string
  ot_refreshToken :: "string option"
  ot_expiresAt :: "time option"
  ot_grantedScopes :: "string list option"
  ot_clientRef :: "string option"
  ot_accountType :: "string option"
  ot_orgId :: "string option"

record kc_env =
  ke_box :: box_lib
  ke_key :: secret_key
  ke_hash :: "string list \<Rightarrow> string"
  ke_base64 :: "string \<Rightarrow> string"
  ke_org :: string
  ke_refresh :: "(string \<Rightarrow> oauth_token \<Rightarrow> string option \<Rightarrow> string option \<Rightarrow> string + oauth_token) option"
  ke_oauthSkewMs :: "int option"
  ke_oauthRefreshMarginMs :: "int option"

record keychain =
  kc_creds :: "keychain_credential mem_map"
  kc_grants :: "keychain_grant mem_map"
  kc_asks :: "keychain_ask mem_map"

definition kc_empty :: keychain where
  "kc_empty = \<lparr> kc_creds = mm_empty, kc_grants = mm_empty, kc_asks = mm_empty \<rparr>"

definition oauthSkew :: "kc_env \<Rightarrow> int" where
  "oauthSkew env = (case ke_oauthSkewMs env of None \<Rightarrow> 60000 | Some s \<Rightarrow> s)"

definition oauthRefreshMargin :: "kc_env \<Rightarrow> int" where
  "oauthRefreshMargin env = max (case ke_oauthRefreshMarginMs env of None \<Rightarrow> 10 * 60000 | Some s \<Rightarrow> s) (oauthSkew env)"

section \<open>Names and paths\<close>

definition fingerprintOf :: "kc_env \<Rightarrow> string \<Rightarrow> string" where
  "fingerprintOf env secret = ke_hash env [secret]"

definition stripHomePrefix :: "string \<Rightarrow> string" where
  "stripHomePrefix target = (let a = (if js_startsWith target ''~/'' then drop 2 target else target) in if a = ''~'' then [] else a)"

definition homeRelativePath :: "string \<Rightarrow> string option" where
  "homeRelativePath path =
     (let a = stripHomePrefix path; rel = (if js_startsWith a ''./'' then drop 2 a else a)
      in if rel = [] \<or> js_startsWith rel ''/'' \<or> ''..'' \<in> set (js_split CHR ''/'' rel) then None else Some rel)"

definition keychainFilePath :: "string \<Rightarrow> keychain_error + string" where
  "keychainFilePath path = (case homeRelativePath path of None \<Rightarrow> Inl BadFilePath | Some rel \<Rightarrow> Inr rel)"

definition credId :: "kc_env \<Rightarrow> string \<Rightarrow> string \<Rightarrow> string \<Rightarrow> string" where
  "credId env ownerId service slot = ke_hash env [ownerId, service, slot]"

text \<open>\<open>s.toUpperCase().replace(/[^A-Z0-9]/g, "_")\<close>; the sharp s becomes two letters.\<close>

definition env_chars :: "char \<Rightarrow> string" where
  "env_chars c =
     (let n = (of_char c :: nat)
      in if 97 \<le> n \<and> n \<le> 122 then [char_of (n - 32)]
         else if n = 0xDF then ''SS''
         else if is_alnum c then [c] else ''_'')"

definition env_name :: "string \<Rightarrow> string" where
  "env_name s = concat (map env_chars s)"

definition defaultEnvKey :: "string \<Rightarrow> string" where
  "defaultEnvKey service = env_name service @ ''_TOKEN''"

text \<open>\<open>envKey\<close> of \<open>src/credentials/connector-token.ts\<close> without a principal.\<close>

definition vault_envKey :: "string \<Rightarrow> string" where
  "vault_envKey host = ''VAULT_TOKEN_'' @ env_name host"

definition ENV_KEY_RE :: "string \<Rightarrow> bool" where
  "ENV_KEY_RE s \<longleftrightarrow> s \<noteq> [] \<and> \<not> is_digit (hd s) \<and> list_all is_word_char s"

text \<open>\<open>/_(PASSWORD|PASS|TOKEN|SECRET|API_KEY|KEY)$/i\<close>: the leftmost match, so the longest suffix.\<close>

definition legacyUsernameEnvKey :: "string \<Rightarrow> string" where
  "legacyUsernameEnvKey k =
     (let base = (case find (\<lambda>suffix. js_endsWith (js_lower k) suffix)
                        [''_password'', ''_pass'', ''_token'', ''_secret'', ''_api_key'', ''_key''] of
                    Some suffix \<Rightarrow> take (length k - length suffix) k
                  | None \<Rightarrow> k)
      in (if base \<noteq> [] then base else k) @ ''_USERNAME'')"

definition expired :: "time option \<Rightarrow> time \<Rightarrow> bool" where
  "expired expiresAt now \<longleftrightarrow> (case expiresAt of Some e \<Rightarrow> e < now | None \<Rightarrow> False)"

definition credExpired :: "keychain_credential \<Rightarrow> time \<Rightarrow> bool" where
  "credExpired c now \<longleftrightarrow> cd_kind c \<noteq> KFile \<and> expired (cd_expiresAt c) now"

definition isValidCredentialSlug :: "string \<Rightarrow> bool" where
  "isValidCredentialSlug slug \<longleftrightarrow>
     slug \<noteq> [] \<and> length slug \<le> 63 \<and> hd slug \<noteq> CHR ''-'' \<and>
     list_all (\<lambda>c. is_digit c \<or> CHR ''a'' \<le> c \<and> c \<le> CHR ''z'' \<or> c = CHR ''-'') slug"

definition isValidServiceCredentialEnvKey :: "string \<Rightarrow> bool" where
  "isValidServiceCredentialEnvKey k \<longleftrightarrow>
     k \<noteq> [] \<and> CHR ''A'' \<le> hd k \<and> hd k \<le> CHR ''Z'' \<and>
     list_all (\<lambda>c. CHR ''A'' \<le> c \<and> c \<le> CHR ''Z'' \<or> is_digit c \<or> c = CHR ''_'') k \<and> \<not> js_startsWith k ''AGENT_''"

section \<open>Saving a credential\<close>

record save_input =
  si_ownerId :: string
  si_service :: string
  si_secret :: "string option"
  si_envKey :: "string option"
  si_fields :: "field_input list option"
  si_target :: "string option"
  si_files :: "credential_file list option"
  si_host :: "string option"
  si_accountLabel :: "string option"
  si_origin :: "string option"
  si_expiresAt :: "time option"

definition file_json :: "credential_file \<Rightarrow> json" where
  "file_json f = JObj [(''path'', JStr (fl_path f)), (''contentBase64'', JStr (fl_contentBase64 f))]"

definition files_json :: "credential_file list \<Rightarrow> string" where
  "files_json fs = json_stringify (JArr (map file_json fs))"

text \<open>The paths of a bundle made relative to the home directory, or the first that is not.\<close>

fun relative_files :: "credential_file list \<Rightarrow> keychain_error + credential_file list" where
  "relative_files [] = Inr []"
| "relative_files (f # fs) =
     (case keychainFilePath (fl_path f) of
        Inl e \<Rightarrow> Inl e
      | Inr p \<Rightarrow> (case relative_files fs of Inl e \<Rightarrow> Inl e | Inr gs \<Rightarrow> Inr (f\<lparr>fl_path := p\<rparr> # gs)))"

definition input_files :: "kc_env \<Rightarrow> save_input \<Rightarrow> keychain_error + credential_file list option" where
  "input_files env i =
     (case si_files i of
        Some (f # fs) \<Rightarrow> (case relative_files (f # fs) of Inl e \<Rightarrow> Inl e | Inr gs \<Rightarrow> Inr (Some gs))
      | _ \<Rightarrow>
          if truthy (si_target i) \<and> truthy (si_secret i)
          then (case keychainFilePath (the (si_target i)) of
                  Inl e \<Rightarrow> Inl e
                | Inr p \<Rightarrow> Inr (Some [\<lparr> fl_path = p, fl_contentBase64 = ke_base64 env (the (si_secret i)) \<rparr>]))
          else Inr None)"

definition input_fields :: "save_input \<Rightarrow> (string \<times> string \<times> bool) list option" where
  "input_fields i =
     (case si_fields i of
        Some (f # fs) \<Rightarrow> Some (map (\<lambda>f. (js_trim (fi_envKey f), fi_value f, fi_secret f \<noteq> Some False)) (f # fs))
      | _ \<Rightarrow> None)"

definition fields_error :: "(string \<times> string \<times> bool) list \<Rightarrow> keychain_error option" where
  "fields_error flds =
     (if list_ex (\<lambda>(k, _, _). \<not> ENV_KEY_RE k) flds then Some BadFieldKey
      else if list_ex (\<lambda>(_, v, _). js_trim v = []) flds then Some FieldValueMissing
      else if length (jset_of (map fst flds)) \<noteq> length flds then Some FieldKeysNotUnique
      else None)"

definition saved_secret :: "save_input \<Rightarrow> credential_file list option \<Rightarrow> (string \<times> string \<times> bool) list option \<Rightarrow> string option" where
  "saved_secret i files flds =
     (case files of
        Some fs \<Rightarrow> Some (files_json fs)
      | None \<Rightarrow>
          (case flds of
             Some xs \<Rightarrow> Some (json_stringify (JObj (fold (\<lambda>(k, v, _). jmap_set k (JStr v)) xs [])))
           | None \<Rightarrow> si_secret i))"

definition saved_slot :: "credential_file list option \<Rightarrow> (string \<times> string \<times> bool) list option \<Rightarrow> string option \<Rightarrow> string" where
  "saved_slot files flds envKey =
     (case files of
        Some _ \<Rightarrow> ''file''
      | None \<Rightarrow>
          (case flds of
             Some xs \<Rightarrow> ''env:'' @ js_join '','' (sort (map fst xs))
           | None \<Rightarrow> ''env:'' @ (case envKey of Some k \<Rightarrow> k | None \<Rightarrow> ''undefined'')))"

definition saved_credential ::
  "kc_env \<Rightarrow> string \<Rightarrow> time \<Rightarrow> save_input \<Rightarrow> string \<Rightarrow> credential_file list option \<Rightarrow> (string \<times> string \<times> bool) list option \<Rightarrow>
     string option \<Rightarrow> string \<Rightarrow> keychain_credential option \<Rightarrow> keychain_credential" where
  "saved_credential env iv t i service files flds envKey secret prior =
     \<lparr> cd_id = credId env (si_ownerId i) service (saved_slot files flds envKey), cd_ownerId = si_ownerId i,
       cd_orgId = Some (ke_org env), cd_service = service, cd_kind = (if files = None then KEnv else KFile),
       cd_envKey = if_truthy envKey, cd_target = None, cd_targets = map_option (map fl_path) files,
       cd_host = if_truthy (si_host i), cd_accountLabel = if_truthy (si_accountLabel i),
       cd_fields = map_option (map (\<lambda>(k, _, s). (k, s))) flds,
       cd_broker = None, cd_refresh = None, cd_managed = False, cd_username = None,
       cd_secretEnc = encryptSecret (ke_box env) (ke_key env) iv secret, cd_fingerprint = fingerprintOf env secret,
       cd_origin = if_truthy (si_origin i), cd_expiresAt = si_expiresAt i,
       cd_createdAt = (case prior of Some p \<Rightarrow> cd_createdAt p | None \<Rightarrow> t), cd_updatedAt = t \<rparr>"

definition saveCredential ::
  "kc_env \<Rightarrow> string \<Rightarrow> time \<Rightarrow> save_input \<Rightarrow> keychain \<Rightarrow> keychain_error + keychain_credential \<times> keychain" where
  "saveCredential env iv t i st =
     (let service = js_lower (js_trim (si_service i))
      in if service = [] then Inl ServiceRequired
         else
           case input_files env i of
             Inl e \<Rightarrow> Inl e
           | Inr files \<Rightarrow>
               let flds = (if files = None then input_fields i else None)
               in case Option.bind flds fields_error of
                    Some e \<Rightarrow> Inl e
                  | None \<Rightarrow>
                      let secret = saved_secret i files flds
                      in if js_trim (case secret of None \<Rightarrow> [] | Some s \<Rightarrow> s) = [] then Inl EmptySecret
                         else
                           let given = map_option js_trim (si_envKey i);
                               envKey = (if files = None \<and> flds = None
                                         then Some (if truthy given then the given else defaultEnvKey service) else None)
                           in if truthy envKey \<and> \<not> ENV_KEY_RE (the envKey) then Inl BadEnvKey
                              else
                                let cid = credId env (si_ownerId i) service (saved_slot files flds envKey);
                                    rec = saved_credential env iv t i service files flds envKey (the secret)
                                            (mm_get (kc_creds st) cid)
                                in Inr (rec, st\<lparr>kc_creds := mm_put cid rec (kc_creds st)\<rparr>))"

section \<open>Handing out a secret\<close>

datatype materialized =
    MatEnv string string string "(string \<times> string) list" "(string \<times> string) option"
  | MatFiles string string string "credential_file list" "string option" "(string \<times> string) option"

definition decryptToEnv :: "kc_env \<Rightarrow> keychain_credential \<Rightarrow> (string \<times> string) option \<Rightarrow> materialized option" where
  "decryptToEnv env c extra =
     (case decryptSecret (ke_box env) (ke_key env) (cd_secretEnc c) of
        None \<Rightarrow> None
      | Some raw \<Rightarrow>
          (case cd_fields c of
             Some flds \<Rightarrow>
               (case json_parse raw of
                  None \<Rightarrow> None
                | Some JNull \<Rightarrow> None
                | Some values \<Rightarrow>
                    Some (MatEnv (cd_id c) (cd_ownerId c) (cd_service c)
                      (map (\<lambda>(k, _). (k, case json_get_str k values of Some v \<Rightarrow> v | None \<Rightarrow> [])) flds) extra))
           | None \<Rightarrow>
               let k = (case cd_envKey c of Some k \<Rightarrow> k | None \<Rightarrow> defaultEnvKey (cd_service c))
               in Some (MatEnv (cd_id c) (cd_ownerId c) (cd_service c)
                    ((k, raw) # (if truthy (cd_username c) then [(legacyUsernameEnvKey k, the (cd_username c))] else [])) extra)))"

fun json_files :: "json list \<Rightarrow> credential_file list option" where
  "json_files [] = Some []"
| "json_files (j # js) =
     (case (json_get_str ''path'' j, json_get_str ''contentBase64'' j, json_files js) of
        (Some p, Some b, Some fs) \<Rightarrow> Some (\<lparr> fl_path = p, fl_contentBase64 = b \<rparr> # fs)
      | _ \<Rightarrow> None)"

definition decryptToFiles :: "kc_env \<Rightarrow> keychain_credential \<Rightarrow> (string \<times> string) option \<Rightarrow> materialized option" where
  "decryptToFiles env c extra =
     (case decryptSecret (ke_box env) (ke_key env) (cd_secretEnc c) of
        None \<Rightarrow> None
      | Some raw \<Rightarrow>
          (case (case cd_targets c of
                   Some _ \<Rightarrow> (case json_parse raw of Some (JArr js) \<Rightarrow> json_files js | _ \<Rightarrow> None)
                 | None \<Rightarrow>
                     (case keychainFilePath (case cd_target c of Some p \<Rightarrow> p | None \<Rightarrow> []) of
                        Inl _ \<Rightarrow> None
                      | Inr p \<Rightarrow> Some [\<lparr> fl_path = p, fl_contentBase64 = ke_base64 env raw \<rparr>])) of
             None \<Rightarrow> None
           | Some files \<Rightarrow> Some (MatFiles (cd_id c) (cd_ownerId c) (cd_service c) files (if_truthy (cd_origin c)) extra)))"

definition materializeDecrypted ::
  "kc_env \<Rightarrow> keychain_credential \<Rightarrow> (string \<times> string) option \<Rightarrow> keychain_error + materialized" where
  "materializeDecrypted env c extra =
     (case (if cd_kind c = KFile then decryptToFiles env c extra else decryptToEnv env c extra) of
        None \<Rightarrow> Inl DoesNotDecrypt
      | Some m \<Rightarrow> Inr m)"

section \<open>Connected apps\<close>

definition oauthSlot :: "string option \<Rightarrow> string" where
  "oauthSlot accountType = ''oauth:'' @ (if truthy accountType \<and> accountType \<noteq> Some ''default'' then the accountType else [])"

definition oauthId :: "kc_env \<Rightarrow> string \<Rightarrow> string \<Rightarrow> string option \<Rightarrow> string" where
  "oauthId env host principalId accountType = credId env principalId (js_lower host) (oauthSlot accountType)"

definition connector_credential ::
  "kc_env \<Rightarrow> string \<Rightarrow> string \<Rightarrow> time \<Rightarrow> string \<Rightarrow> string \<Rightarrow> oauth_token \<Rightarrow> string option \<Rightarrow> keychain_credential option \<Rightarrow>
     keychain_credential" where
  "connector_credential env iv iv' t host principalId token accountType prior =
     \<lparr> cd_id = oauthId env host principalId accountType, cd_ownerId = principalId,
       cd_orgId = Some (case ot_orgId token of Some o' \<Rightarrow> o' | None \<Rightarrow> ke_org env),
       cd_service = js_lower host, cd_kind = KEnv, cd_envKey = None, cd_target = None, cd_targets = None,
       cd_host = Some (js_lower host), cd_accountLabel = None, cd_fields = None, cd_broker = None,
       cd_refresh = Some \<lparr>
         rf_refreshTokenEnc = (if truthy (ot_refreshToken token)
           then Some (encryptSecret (ke_box env) (ke_key env) iv' (the (ot_refreshToken token))) else None),
         rf_accountType = if_truthy (case ot_accountType token of Some a \<Rightarrow> Some a | None \<Rightarrow> accountType),
         rf_clientRef = if_truthy (ot_clientRef token), rf_grantedScopes = ot_grantedScopes token,
         rf_refreshFailedAt = None, rf_refreshError = None, rf_orgId = if_truthy (ot_orgId token) \<rparr>,
       cd_managed = True, cd_username = None,
       cd_secretEnc = encryptSecret (ke_box env) (ke_key env) iv (ot_accessToken token),
       cd_fingerprint = fingerprintOf env (ot_accessToken token), cd_origin = Some ''connector-oauth'',
       cd_expiresAt = ot_expiresAt token,
       cd_createdAt = (case prior of Some p \<Rightarrow> cd_createdAt p | None \<Rightarrow> t), cd_updatedAt = t \<rparr>"

definition putConnectorToken ::
  "kc_env \<Rightarrow> string \<Rightarrow> string \<Rightarrow> time \<Rightarrow> string \<Rightarrow> string \<Rightarrow> oauth_token \<Rightarrow> string option \<Rightarrow> keychain \<Rightarrow>
     keychain_credential \<times> keychain" where
  "putConnectorToken env iv iv' t host principalId token accountType st =
     (let cid = oauthId env host principalId accountType;
          rec = connector_credential env iv iv' t host principalId token accountType (mm_get (kc_creds st) cid)
      in (rec, st\<lparr>kc_creds := mm_put cid rec (kc_creds st)\<rparr>))"

definition connectorRecord :: "kc_env \<Rightarrow> string \<Rightarrow> string \<Rightarrow> string option \<Rightarrow> keychain \<Rightarrow> keychain_credential option" where
  "connectorRecord env host principalId accountType st = mm_get (kc_creds st) (oauthId env host principalId accountType)"

definition recToOAuthToken :: "kc_env \<Rightarrow> keychain_credential \<Rightarrow> oauth_token option" where
  "recToOAuthToken env c =
     (let rf = (\<lambda>f. Option.bind (cd_refresh c) f); dec = decryptSecret (ke_box env) (ke_key env)
      in case dec (cd_secretEnc c) of
           None \<Rightarrow> None
         | Some access \<Rightarrow>
             (let token = (\<lambda>r. Some \<lparr> ot_accessToken = access, ot_refreshToken = r, ot_expiresAt = cd_expiresAt c,
                 ot_grantedScopes = Option.bind (cd_refresh c) rf_grantedScopes, ot_clientRef = if_truthy (rf rf_clientRef),
                 ot_accountType = if_truthy (rf rf_accountType), ot_orgId = if_truthy (rf rf_orgId) \<rparr>)
              in if truthy (rf rf_refreshTokenEnc)
                 then (case dec (the (rf rf_refreshTokenEnc)) of None \<Rightarrow> None | Some r \<Rightarrow> token (Some r))
                 else token None))"

definition storedRefreshError :: "string \<Rightarrow> string" where
  "storedRefreshError message =
     (let msg = js_trim (js_squeeze message) in if length msg > 500 then take 497 msg @ ''...'' else msg)"

definition no_refresh :: credential_refresh where
  "no_refresh = \<lparr> rf_refreshTokenEnc = None, rf_accountType = None, rf_clientRef = None, rf_grantedScopes = None,
     rf_refreshFailedAt = None, rf_refreshError = None, rf_orgId = None \<rparr>"

definition markConnectorRefreshFailure :: "time \<Rightarrow> keychain_credential \<Rightarrow> string \<Rightarrow> keychain \<Rightarrow> keychain" where
  "markConnectorRefreshFailure t rec message st =
     (case mm_get (kc_creds st) (cd_id rec) of
        None \<Rightarrow> st
      | Some current \<Rightarrow>
          if cd_updatedAt current \<noteq> cd_updatedAt rec \<or> cd_fingerprint current \<noteq> cd_fingerprint rec then st
          else st\<lparr>kc_creds := snd (mm_update (cd_id rec) (\<lambda>c. c\<lparr>
                 cd_refresh := Some ((case cd_refresh current of Some r \<Rightarrow> r | None \<Rightarrow> no_refresh)
                   \<lparr> rf_refreshFailedAt := Some t, rf_refreshError := Some message \<rparr>),
                 cd_updatedAt := t \<rparr>) (kc_creds st))\<rparr>)"

text \<open>The token that is stored after a refresh: what the provider leaves out is kept.\<close>

definition merged_token :: "oauth_token \<Rightarrow> oauth_token \<Rightarrow> oauth_token" where
  "merged_token stored fresh =
     fresh\<lparr> ot_clientRef := (case ot_clientRef fresh of Some r \<Rightarrow> Some r | None \<Rightarrow> if_truthy (ot_clientRef stored)),
            ot_accountType := (case ot_accountType fresh of Some a \<Rightarrow> Some a | None \<Rightarrow> if_truthy (ot_accountType stored)),
            ot_orgId := (case ot_orgId fresh of Some o' \<Rightarrow> Some o' | None \<Rightarrow> if_truthy (ot_orgId stored)) \<rparr>"

text \<open>
  \<open>refreshAndStore\<close>: the record was read before the provider was asked; the answer is stored in the
  state of that later moment.
\<close>

definition refreshAndStore ::
  "kc_env \<Rightarrow> string \<Rightarrow> string \<Rightarrow> time \<Rightarrow> string \<Rightarrow> string \<Rightarrow> string option \<Rightarrow> keychain_credential \<Rightarrow> keychain \<Rightarrow>
     string option \<times> keychain" where
  "refreshAndStore env iv iv' t host principalId accountType rec st =
     (case ke_refresh env of
        None \<Rightarrow> (None, st)
      | Some refresh \<Rightarrow>
          (case recToOAuthToken env rec of
             None \<Rightarrow> (None, st)
           | Some stored \<Rightarrow>
               (case refresh host stored (ot_accountType stored) (ot_clientRef stored) of
                  Inr fresh \<Rightarrow>
                    if ot_accessToken fresh = []
                    then (None, markConnectorRefreshFailure t rec (storedRefreshError ''refresh returned an empty access token'') st)
                    else
                      let merged = merged_token stored fresh
                      in (Some (ot_accessToken merged), snd (putConnectorToken env iv iv' t host principalId merged accountType st))
                | Inl message \<Rightarrow> (None, markConnectorRefreshFailure t rec (storedRefreshError message) st))))"

definition oauthExpired :: "kc_env \<Rightarrow> keychain_credential \<Rightarrow> time \<Rightarrow> bool" where
  "oauthExpired env c t \<longleftrightarrow> (case cd_expiresAt c of Some e \<Rightarrow> e - oauthSkew env \<le> t | None \<Rightarrow> False)"

definition refreshable :: "kc_env \<Rightarrow> keychain_credential \<Rightarrow> string option" where
  "refreshable env c =
     (if truthy (Option.bind (cd_refresh c) rf_refreshTokenEnc) \<and> ke_refresh env \<noteq> None \<and> truthy (cd_host c) then cd_host c else None)"

definition connectorTokenForRecord ::
  "kc_env \<Rightarrow> string \<Rightarrow> string \<Rightarrow> time \<Rightarrow> keychain_credential \<Rightarrow> keychain \<Rightarrow> string option \<times> keychain" where
  "connectorTokenForRecord env iv iv' t rec st =
     (let due = (case cd_expiresAt rec of Some e \<Rightarrow> e - oauthRefreshMargin env \<le> t | None \<Rightarrow> False)
      in if refreshable env rec \<noteq> None \<and> due
         then refreshAndStore env iv iv' t (the (refreshable env rec)) (cd_ownerId rec)
                (Option.bind (cd_refresh rec) rf_accountType) rec st
         else if oauthExpired env rec t \<and> refreshable env rec = None then (None, st)
         else (decryptSecret (ke_box env) (ke_key env) (cd_secretEnc rec), st))"

record connector_meta =
  cm_credentialId :: string
  cm_ownerId :: string
  cm_host :: string
  cm_accountType :: "string option"
  cm_expiresAt :: "time option"
  cm_connected :: bool
  cm_needsReconnect :: bool

definition needs_reconnect :: "kc_env \<Rightarrow> keychain_credential \<Rightarrow> time \<Rightarrow> bool" where
  "needs_reconnect env c t \<longleftrightarrow>
     oauthExpired env c t \<and>
     (\<not> truthy (Option.bind (cd_refresh c) rf_refreshTokenEnc) \<or> Option.bind (cd_refresh c) rf_refreshFailedAt \<noteq> None)"

definition connectorMeta :: "kc_env \<Rightarrow> keychain_credential \<Rightarrow> time \<Rightarrow> connector_meta" where
  "connectorMeta env c t =
     \<lparr> cm_credentialId = cd_id c, cm_ownerId = cd_ownerId c,
       cm_host = (case cd_host c of Some h \<Rightarrow> h | None \<Rightarrow> cd_service c),
       cm_accountType = if_truthy (Option.bind (cd_refresh c) rf_accountType), cm_expiresAt = cd_expiresAt c,
       cm_connected = True, cm_needsReconnect = needs_reconnect env c t \<rparr>"

record oauth_status =
  os_connected :: bool
  os_expiresAt :: "time option"
  os_hasRefreshToken :: bool
  os_needsReconnect :: bool
  os_refreshFailedAt :: "time option"
  os_refreshError :: "string option"
  os_accountType :: "string option"
  os_grantedScopes :: "string list option"

definition connectorTokenStatus :: "kc_env \<Rightarrow> time \<Rightarrow> string \<Rightarrow> string \<Rightarrow> string option \<Rightarrow> keychain \<Rightarrow> oauth_status" where
  "connectorTokenStatus env t host principalId accountType st =
     (case connectorRecord env host principalId accountType st of
        None \<Rightarrow> \<lparr> os_connected = False, os_expiresAt = None, os_hasRefreshToken = False, os_needsReconnect = False,
                  os_refreshFailedAt = None, os_refreshError = None, os_accountType = None, os_grantedScopes = None \<rparr>
      | Some c \<Rightarrow>
          let rf = (\<lambda>f. Option.bind (cd_refresh c) f)
          in \<lparr> os_connected = True, os_expiresAt = cd_expiresAt c, os_hasRefreshToken = truthy (rf rf_refreshTokenEnc),
               os_needsReconnect = needs_reconnect env c t, os_refreshFailedAt = Option.bind (cd_refresh c) rf_refreshFailedAt,
               os_refreshError = (if Option.bind (cd_refresh c) rf_refreshFailedAt \<noteq> None then if_truthy (rf rf_refreshError) else None),
               os_accountType = if_truthy (rf rf_accountType), os_grantedScopes = Option.bind (cd_refresh c) rf_grantedScopes \<rparr>)"

definition connectorAccessToken ::
  "kc_env \<Rightarrow> string \<Rightarrow> string \<Rightarrow> time \<Rightarrow> string \<Rightarrow> string \<Rightarrow> string option \<Rightarrow> keychain \<Rightarrow> string option \<times> keychain" where
  "connectorAccessToken env iv iv' t host principalId accountType st =
     (case connectorRecord env host principalId accountType st of
        None \<Rightarrow> (None, st)
      | Some rec \<Rightarrow> connectorTokenForRecord env iv iv' t rec st)"

definition materializeConnectorEnv ::
  "kc_env \<Rightarrow> string \<Rightarrow> string \<Rightarrow> time \<Rightarrow> keychain_credential \<Rightarrow> (string \<times> string) option \<Rightarrow> keychain \<Rightarrow>
     (keychain_error + materialized) \<times> keychain" where
  "materializeConnectorEnv env iv iv' t c extra st =
     (let (v, st') = (if truthy (cd_host c) then connectorTokenForRecord env iv iv' t c st else (None, st))
      in (if \<not> truthy v \<or> \<not> truthy (cd_host c) then Inl ReconnectNeeded
          else Inr (MatEnv (cd_id c) (cd_ownerId c) (cd_service c) [(vault_envKey (the (cd_host c)), the v)] extra), st'))"

section \<open>Grants\<close>

record grant_input =
  gi_credentialId :: string
  gi_ownerId :: string
  gi_audienceScopeId :: scope_id
  gi_mode :: grant_mode
  gi_purpose :: string
  gi_expiresAt :: "time option"
  gi_askId :: "string option"

text \<open>The grant that \<open>mintGrant\<close> makes from the credential it has read.\<close>

definition mint_from :: "kc_env \<Rightarrow> time \<Rightarrow> grant_input \<Rightarrow> keychain_credential \<Rightarrow> keychain_error + keychain_grant" where
  "mint_from env t i c =
     (if cd_kind c = KBroker then Inl BrokerNotGranted
      else if \<not> samePerson (Some (cd_ownerId c)) (Some (gi_ownerId i)) then Inl NotTheOwner
      else
        let purpose = js_trim (gi_purpose i)
        in if purpose = [] then Inl PurposeRequired
           else if \<not> cd_managed c \<and> credExpired c t then Inl CredentialIsExpired
           else Inr \<lparr> kg_id = ke_hash env [cd_id c, gi_audienceScopeId i, js_show_int t, purpose],
                  kg_credentialId = cd_id c, kg_ownerId = cd_ownerId c, kg_orgId = cd_orgId c,
                  kg_audienceScopeId = gi_audienceScopeId i, kg_mode = gi_mode i, kg_purpose = purpose,
                  kg_status = GActive, kg_createdAt = t, kg_expiresAt = gi_expiresAt i, kg_revokedAt = None,
                  kg_usedAt = None, kg_usedBy = None, kg_askId = if_truthy (gi_askId i) \<rparr>)"

definition put_grant :: "keychain_grant \<Rightarrow> keychain \<Rightarrow> keychain" where
  "put_grant g st = st\<lparr>kc_grants := mm_put (kg_id g) g (kc_grants st)\<rparr>"

definition mintGrant :: "kc_env \<Rightarrow> time \<Rightarrow> grant_input \<Rightarrow> keychain \<Rightarrow> keychain_error + keychain_grant \<times> keychain" where
  "mintGrant env t i st =
     (case mm_get (kc_creds st) (gi_credentialId i) of
        None \<Rightarrow> Inl UnknownCredential
      | Some c \<Rightarrow> (case mint_from env t i c of Inl e \<Rightarrow> Inl e | Inr g \<Rightarrow> Inr (g, put_grant g st)))"

definition revoked_grant :: "time \<Rightarrow> keychain_grant \<Rightarrow> keychain_grant" where
  "revoked_grant t g = g\<lparr>kg_status := GRevoked, kg_revokedAt := Some t\<rparr>"

definition revoke_row :: "time \<Rightarrow> string \<Rightarrow> keychain_grant mem_map \<Rightarrow> keychain_grant mem_map" where
  "revoke_row t gid m = snd (mm_update gid (revoked_grant t) m)"

definition deleteCredential :: "time \<Rightarrow> string \<Rightarrow> keychain \<Rightarrow> keychain" where
  "deleteCredential t cid st =
     st\<lparr>kc_grants := fold (\<lambda>g m. if kg_credentialId g = cid \<and> kg_status g = GActive then revoke_row t (kg_id g) m else m)
                       (mm_all (kc_grants st)) (kc_grants st),
        kc_creds := mm_delete cid (kc_creds st)\<rparr>"

definition getOwned :: "string \<Rightarrow> string \<Rightarrow> keychain \<Rightarrow> keychain_credential option" where
  "getOwned ownerId cid st =
     (case mm_get (kc_creds st) cid of
        Some c \<Rightarrow> if samePerson (Some (cd_ownerId c)) (Some ownerId) then Some c else None
      | None \<Rightarrow> None)"

definition kc_remove :: "time \<Rightarrow> string \<Rightarrow> string \<Rightarrow> keychain \<Rightarrow> bool \<times> keychain" where
  "kc_remove t ownerId cid st =
     (case getOwned ownerId cid st of
        None \<Rightarrow> (False, st)
      | Some c \<Rightarrow> if cd_managed c \<or> cd_kind c = KBroker then (False, st) else (True, deleteCredential t cid st))"

definition grantConnectorToScope ::
  "kc_env \<Rightarrow> time \<Rightarrow> string \<Rightarrow> string \<Rightarrow> string option \<Rightarrow> scope_id \<Rightarrow> string \<Rightarrow> keychain \<Rightarrow>
     keychain_error + keychain_grant option \<times> keychain" where
  "grantConnectorToScope env t host principalId accountType audienceScopeId purpose st =
     (let cid = oauthId env host principalId accountType
      in case mm_get (kc_creds st) cid of
           None \<Rightarrow> Inr (None, st)
         | Some c \<Rightarrow>
             (case find (\<lambda>g. kg_credentialId g = cid \<and> kg_audienceScopeId g = audienceScopeId \<and> kg_mode g = Standing \<and>
                            kg_status g = GActive) (mm_all (kc_grants st)) of
                Some g \<Rightarrow> Inr (Some g, st)
              | None \<Rightarrow>
                  (case mintGrant env t \<lparr> gi_credentialId = cid, gi_ownerId = principalId, gi_audienceScopeId = audienceScopeId,
                           gi_mode = Standing, gi_purpose = purpose, gi_expiresAt = None, gi_askId = None \<rparr> st of
                     Inl e \<Rightarrow> Inl e
                   | Inr (g, st') \<Rightarrow> Inr (Some g, st'))))"

definition listGrants :: "string option \<Rightarrow> scope_id option \<Rightarrow> keychain \<Rightarrow> keychain_grant list" where
  "listGrants ownerId audienceScopeId st =
     filter (\<lambda>g. (ownerId = None \<or> samePerson (Some (kg_ownerId g)) ownerId) \<and>
                 (audienceScopeId = None \<or> Some (kg_audienceScopeId g) = audienceScopeId)) (mm_all (kc_grants st))"

definition revokeGrant :: "time \<Rightarrow> string \<Rightarrow> string \<Rightarrow> keychain \<Rightarrow> bool \<times> keychain" where
  "revokeGrant t ownerId gid st =
     (case mm_get (kc_grants st) gid of
        None \<Rightarrow> (False, st)
      | Some g \<Rightarrow>
          if \<not> samePerson (Some (kg_ownerId g)) (Some ownerId) then (False, st)
          else (True, if kg_status g = GActive then st\<lparr>kc_grants := revoke_row t gid (kc_grants st)\<rparr> else st))"

definition activeGrantsFor :: "time \<Rightarrow> scope_id \<Rightarrow> keychain \<Rightarrow> keychain_grant list" where
  "activeGrantsFor t sc st =
     filter (\<lambda>g. kg_audienceScopeId g = sc \<and> kg_status g = GActive \<and> \<not> expired (kg_expiresAt g) t) (mm_all (kc_grants st))"

definition grantsForScope :: "time \<Rightarrow> scope_id \<Rightarrow> keychain \<Rightarrow> (keychain_grant \<times> keychain_credential) list" where
  "grantsForScope t sc st =
     concat (map (\<lambda>g. case mm_get (kc_creds st) (kg_credentialId g) of
                        Some c \<Rightarrow> if cd_managed c \<or> \<not> credExpired c t then [(g, c)] else []
                      | None \<Rightarrow> []) (activeGrantsFor t sc st))"

section \<open>Asks\<close>

record ask_input =
  ai_credentialId :: string
  ai_requesterId :: string
  ai_requesterScopeId :: scope_id
  ai_requesterDestination :: "destination option"
  ai_requesterThreadRef :: "string option"
  ai_purpose :: string
  ai_requestedMode :: "grant_mode option"
  ai_expiresAt :: "time option"

definition ask_lapsed :: "keychain_ask \<Rightarrow> time \<Rightarrow> bool" where
  "ask_lapsed a t \<longleftrightarrow> ka_status a = AskPending \<and> ka_expiresAt a < t"

definition expire_ask :: "time \<Rightarrow> keychain_ask \<Rightarrow> keychain_ask" where
  "expire_ask t a = a\<lparr>ka_status := AskExpired, ka_resolvedAt := Some t\<rparr>"

definition freshAsk :: "keychain_ask \<Rightarrow> time \<Rightarrow> keychain \<Rightarrow> keychain_ask \<times> keychain" where
  "freshAsk a t st =
     (if \<not> ask_lapsed a t then (a, st)
      else (expire_ask t a, st\<lparr>kc_asks := snd (mm_update (ka_id a) (expire_ask t) (kc_asks st))\<rparr>))"

text \<open>The loop of \<open>createAsk\<close>: it freshens the asks until one is the same ask, still pending.\<close>

fun find_ask :: "time \<Rightarrow> string \<Rightarrow> scope_id \<Rightarrow> keychain_ask list \<Rightarrow> keychain \<Rightarrow> keychain_ask option \<times> keychain" where
  "find_ask t cid sc [] st = (None, st)"
| "find_ask t cid sc (r # rs) st =
     (let (a, st') = freshAsk r t st
      in if ka_status a = AskPending \<and> ka_credentialId a = cid \<and> ka_requesterScopeId a = sc then (Some a, st')
         else find_ask t cid sc rs st')"

definition new_ask :: "kc_env \<Rightarrow> time \<Rightarrow> string \<Rightarrow> ask_input \<Rightarrow> keychain_credential \<Rightarrow> keychain_ask" where
  "new_ask env t fresh i c =
     \<lparr> ka_id = fresh, ka_credentialId = cd_id c, ka_ownerId = cd_ownerId c, ka_requesterId = ai_requesterId i,
       ka_orgId = Some (ke_org env), ka_requesterScopeId = ai_requesterScopeId i,
       ka_requesterDestination = ai_requesterDestination i, ka_requesterThreadRef = if_truthy (ai_requesterThreadRef i),
       ka_purpose = js_trim (ai_purpose i), ka_requestedMode = ai_requestedMode i, ka_status = AskPending, ka_createdAt = t,
       ka_expiresAt = (case ai_expiresAt i of Some e \<Rightarrow> e | None \<Rightarrow> t + ASK_TTL_MS),
       ka_resolvedAt = None, ka_grantId = None, ka_note = None, ka_notifiedAt = None \<rparr>"

definition createAsk ::
  "kc_env \<Rightarrow> time \<Rightarrow> string \<Rightarrow> ask_input \<Rightarrow> keychain \<Rightarrow> keychain_error + (keychain_ask \<times> bool) \<times> keychain" where
  "createAsk env t fresh i st =
     (if js_trim (ai_purpose i) = [] then Inl PurposeRequired
      else
        case mm_get (kc_creds st) (ai_credentialId i) of
          None \<Rightarrow> Inl UnknownCredential
        | Some c \<Rightarrow>
            if cd_kind c = KBroker then Inl UnknownCredential
            else if \<not> cd_managed c \<and> credExpired c t then Inl CredentialIsExpired
            else if samePerson (Some (cd_ownerId c)) (Some (ai_requesterId i)) then Inl OwnAsk
            else
              case find_ask t (cd_id c) (ai_requesterScopeId i) (mm_all (kc_asks st)) st of
                (Some a, st') \<Rightarrow> Inr ((a, True), st')
              | (None, st') \<Rightarrow>
                  let ask = new_ask env t fresh i c in Inr ((ask, False), st'\<lparr>kc_asks := mm_put fresh ask (kc_asks st')\<rparr>))"

definition getAsk :: "time \<Rightarrow> string \<Rightarrow> keychain \<Rightarrow> keychain_ask option \<times> keychain" where
  "getAsk t aid st =
     (case mm_get (kc_asks st) aid of
        None \<Rightarrow> (None, st)
      | Some a \<Rightarrow> (case freshAsk a t st of (a', st') \<Rightarrow> (Some a', st')))"

text \<open>\<open>freshAsk\<close> over all asks, as the loops do that do not stop early.\<close>

fun fresh_asks :: "time \<Rightarrow> keychain_ask list \<Rightarrow> keychain \<Rightarrow> keychain_ask list \<times> keychain" where
  "fresh_asks t [] st = ([], st)"
| "fresh_asks t (r # rs) st =
     (let (a, st') = freshAsk r t st; (as, st'') = fresh_asks t rs st' in (a # as, st''))"

definition listAsks :: "time \<Rightarrow> string option \<Rightarrow> string option \<Rightarrow> scope_id option \<Rightarrow> keychain \<Rightarrow> keychain_ask list \<times> keychain" where
  "listAsks t requesterId ownerId requesterScopeId st =
     (let (as, st') = fresh_asks t (mm_all (kc_asks st)) st
      in (sort_key ka_createdAt
            (filter (\<lambda>a. (requesterId = None \<or> samePerson (Some (ka_requesterId a)) requesterId) \<and>
                         (ownerId = None \<or> samePerson (Some (ka_ownerId a)) ownerId) \<and>
                         (requesterScopeId = None \<or> Some (ka_requesterScopeId a) = requesterScopeId)) as), st'))"

record approve_input =
  ap_askId :: string
  ap_ownerId :: string
  ap_mode :: grant_mode
  ap_purpose :: string
  ap_expiresAt :: "time option"

definition ask_grant_input :: "approve_input \<Rightarrow> keychain_ask \<Rightarrow> grant_input" where
  "ask_grant_input i a =
     \<lparr> gi_credentialId = ka_credentialId a, gi_ownerId = ap_ownerId i, gi_audienceScopeId = ka_requesterScopeId a,
       gi_mode = ap_mode i, gi_purpose = ap_purpose i, gi_expiresAt = ap_expiresAt i, gi_askId = Some (ka_id a) \<rparr>"

definition approved_ask :: "time \<Rightarrow> string \<Rightarrow> keychain_ask \<Rightarrow> keychain_ask" where
  "approved_ask t gid a = a\<lparr>ka_status := AskApproved, ka_resolvedAt := Some t, ka_grantId := Some gid\<rparr>"

text \<open>\<open>approveAsk\<close> up to its check of the ask, and from there on; other calls may run in between.\<close>

definition approve_check :: "time \<Rightarrow> string \<Rightarrow> keychain \<Rightarrow> keychain_error + keychain_ask \<times> keychain" where
  "approve_check t aid st =
     (case mm_get (kc_asks st) aid of
        None \<Rightarrow> Inl UnknownAsk
      | Some r \<Rightarrow>
          (case freshAsk r t st of
             (a, st') \<Rightarrow> if ka_status a \<noteq> AskPending then Inl (AskAlready (ka_status a)) else Inr (a, st')))"

definition approve_finish ::
  "kc_env \<Rightarrow> time \<Rightarrow> time \<Rightarrow> approve_input \<Rightarrow> keychain_ask \<Rightarrow> keychain \<Rightarrow> keychain_error + (keychain_ask \<times> keychain_grant) \<times> keychain" where
  "approve_finish env t t' i a st =
     (case mintGrant env t' (ask_grant_input i a) st of
        Inl e \<Rightarrow> Inl e
      | Inr (g, st') \<Rightarrow>
          Inr ((approved_ask t (kg_id g) a, g),
               st'\<lparr>kc_asks := snd (mm_update (ka_id a) (approved_ask t (kg_id g)) (kc_asks st'))\<rparr>))"

definition approveAsk ::
  "kc_env \<Rightarrow> time \<Rightarrow> time \<Rightarrow> approve_input \<Rightarrow> keychain \<Rightarrow> keychain_error + (keychain_ask \<times> keychain_grant) \<times> keychain" where
  "approveAsk env t t' i st =
     (case approve_check t (ap_askId i) st of Inl e \<Rightarrow> Inl e | Inr (a, st') \<Rightarrow> approve_finish env t t' i a st')"

definition declined_ask :: "time \<Rightarrow> string option \<Rightarrow> keychain_ask \<Rightarrow> keychain_ask" where
  "declined_ask t note a =
     (let a' = a\<lparr>ka_status := AskDeclined, ka_resolvedAt := Some t\<rparr>
      in if truthy note then a'\<lparr>ka_note := note\<rparr> else a')"

definition declineAsk :: "time \<Rightarrow> string \<Rightarrow> string \<Rightarrow> string option \<Rightarrow> keychain \<Rightarrow> keychain_error + keychain_ask \<times> keychain" where
  "declineAsk t aid ownerId note st =
     (case mm_get (kc_asks st) aid of
        None \<Rightarrow> Inl UnknownAsk
      | Some r \<Rightarrow>
          if \<not> samePerson (Some (ka_ownerId r)) (Some ownerId) then Inl NotTheOwner
          else
            (case freshAsk r t st of
               (a, st') \<Rightarrow>
                 if ka_status a \<noteq> AskPending then Inl (AskAlready (ka_status a))
                 else let f = declined_ask t (map_option js_trim note)
                      in Inr (f a, st'\<lparr>kc_asks := snd (mm_update (ka_id a) f (kc_asks st'))\<rparr>)))"

definition prune_asks :: "time \<Rightarrow> keychain_ask list \<Rightarrow> keychain \<Rightarrow> keychain" where
  "prune_asks t as st =
     st\<lparr>kc_asks := fold (\<lambda>a m. case ka_notifiedAt a of
                                 Some n \<Rightarrow> if ka_status a \<noteq> AskPending \<and> n < t - ASK_PRUNE_AFTER_MS then mm_delete (ka_id a) m else m
                               | None \<Rightarrow> m) as (kc_asks st)\<rparr>"

definition unnotifiedResolvedAsks :: "time \<Rightarrow> keychain \<Rightarrow> keychain_ask list \<times> keychain" where
  "unnotifiedResolvedAsks t st =
     (let (as, st') = fresh_asks t (mm_all (kc_asks st)) st
      in (filter (\<lambda>a. ka_status a \<noteq> AskPending \<and> ka_notifiedAt a = None) as, prune_asks t as st'))"

definition markAskNotified :: "time \<Rightarrow> string \<Rightarrow> keychain \<Rightarrow> keychain" where
  "markAskNotified t aid st = st\<lparr>kc_asks := snd (mm_update aid (\<lambda>a. a\<lparr>ka_notifiedAt := Some t\<rparr>) (kc_asks st))\<rparr>"

definition adopted_ask :: "time \<Rightarrow> string \<Rightarrow> keychain_ask \<Rightarrow> keychain_ask" where
  "adopted_ask t gid a = (approved_ask t gid a)\<lparr>ka_notifiedAt := Some t\<rparr>"

definition adopts :: "keychain_grant \<Rightarrow> keychain_ask \<Rightarrow> bool" where
  "adopts g a \<longleftrightarrow> ka_status a = AskPending \<and> ka_credentialId a = kg_credentialId g \<and> ka_requesterScopeId a = kg_audienceScopeId g"

definition adopt :: "time \<Rightarrow> keychain_grant \<Rightarrow> keychain_ask \<Rightarrow> keychain \<Rightarrow> keychain" where
  "adopt t g a st =
     st\<lparr>kc_asks := snd (mm_update (ka_id a) (adopted_ask t (kg_id g)) (kc_asks st)),
        kc_grants := snd (mm_update (kg_id g) (\<lambda>g. g\<lparr>kg_askId := Some (ka_id a)\<rparr>) (kc_grants st))\<rparr>"

definition resolveAsksForGrant :: "time \<Rightarrow> keychain_grant \<Rightarrow> keychain \<Rightarrow> keychain_ask list \<times> keychain" where
  "resolveAsksForGrant t g st =
     (let (as, st') = fresh_asks t (mm_all (kc_asks st)) st; mine = filter (adopts g) as
      in (map (adopted_ask t (kg_id g)) mine, fold (adopt t g) mine st'))"

section \<open>Credentials of the organisation\<close>

record service_input =
  sv_slug :: string
  sv_name :: string
  sv_secret :: "string option"
  sv_delivery :: "delivery_mode option"
  sv_envKey :: "string option"
  sv_host :: string
  sv_injection :: "credential_injection option"
  sv_allowedMethods :: "string list option"
  sv_allowedPathPrefixes :: "string list option"
  sv_enabled :: "bool option"
  sv_updatedBy :: "string option"

datatype service_error = EnvKeyInvalid | EnvKeyNotAllowed

definition brokerId :: "kc_env \<Rightarrow> scope_id \<Rightarrow> string \<Rightarrow> string" where
  "brokerId env orgScopeId slug = credId env orgScopeId slug ''broker''"

definition orgIdOf :: "scope_id \<Rightarrow> string" where
  "orgIdOf orgScopeId = (if js_startsWith orgScopeId ''org:'' then drop 4 orgScopeId else orgScopeId)"

definition brokerRecord :: "kc_env \<Rightarrow> scope_id \<Rightarrow> string \<Rightarrow> keychain \<Rightarrow> keychain_credential option" where
  "brokerRecord env orgScopeId slug st = mm_get (kc_creds st) (brokerId env orgScopeId slug)"

text \<open>\<open>m.toUpperCase()\<close> on the methods of HTTP.\<close>

definition js_upper :: "string \<Rightarrow> string" where
  "js_upper s = concat (map (\<lambda>c. let n = (of_char c :: nat) in
     if 97 \<le> n \<and> n \<le> 122 \<or> 224 \<le> n \<and> n \<le> 254 \<and> n \<noteq> 247 then [char_of (n - 32)] else if n = 0xDF then ''SS'' else [c]) s)"

definition serviceCredentialRecord ::
  "kc_env \<Rightarrow> string \<Rightarrow> time \<Rightarrow> scope_id \<Rightarrow> service_input \<Rightarrow> keychain_credential option \<Rightarrow> service_error + keychain_credential" where
  "serviceCredentialRecord env iv now orgScopeId i prior =
     (let secret = map_option js_trim (sv_secret i);
          t = max now ((case prior of Some p \<Rightarrow> cd_updatedAt p | None \<Rightarrow> 0) + 1);
          delivery = (case sv_delivery i of Some d \<Rightarrow> d | None \<Rightarrow> DeliverBroker)
      in if delivery = DeliverEnv \<and> (\<not> truthy (sv_envKey i) \<or> \<not> isValidServiceCredentialEnvKey (the (sv_envKey i))) then Inl EnvKeyInvalid
         else if delivery \<noteq> DeliverEnv \<and> truthy (sv_envKey i) then Inl EnvKeyNotAllowed
         else Inr \<lparr> cd_id = brokerId env orgScopeId (sv_slug i), cd_ownerId = orgScopeId, cd_orgId = Some (orgIdOf orgScopeId),
                cd_service = sv_slug i, cd_kind = KBroker, cd_envKey = None, cd_target = None, cd_targets = None,
                cd_host = Some (sv_host i), cd_accountLabel = None, cd_fields = None,
                cd_broker = Some \<lparr> bd_name = sv_name i,
                  bd_delivery = (if delivery = DeliverEnv then Some DeliverEnv else None),
                  bd_envKey = (if delivery = DeliverEnv then sv_envKey i else None), bd_injection = sv_injection i,
                  bd_allowedMethods = map_option (map js_upper) (sv_allowedMethods i),
                  bd_allowedPathPrefixes = sv_allowedPathPrefixes i, bd_enabled = (sv_enabled i \<noteq> Some False),
                  bd_updatedBy = if_truthy (sv_updatedBy i) \<rparr>,
                cd_refresh = None, cd_managed = False, cd_username = None,
                cd_secretEnc = (if truthy secret then encryptSecret (ke_box env) (ke_key env) iv (the secret)
                                else case prior of Some p \<Rightarrow> cd_secretEnc p | None \<Rightarrow> []),
                cd_fingerprint = (if truthy secret then fingerprintOf env (the secret)
                                  else case prior of Some p \<Rightarrow> cd_fingerprint p | None \<Rightarrow> []),
                cd_origin = None, cd_expiresAt = None,
                cd_createdAt = (case prior of Some p \<Rightarrow> cd_createdAt p | None \<Rightarrow> t), cd_updatedAt = t \<rparr>)"

definition setServiceCredential ::
  "kc_env \<Rightarrow> string \<Rightarrow> time \<Rightarrow> scope_id \<Rightarrow> service_input \<Rightarrow> keychain \<Rightarrow> service_error + keychain" where
  "setServiceCredential env iv t orgScopeId i st =
     (case serviceCredentialRecord env iv t orgScopeId i (brokerRecord env orgScopeId (sv_slug i) st) of
        Inl e \<Rightarrow> Inl e
      | Inr rec \<Rightarrow> Inr (st\<lparr>kc_creds := mm_put (cd_id rec) rec (kc_creds st)\<rparr>))"

definition setServiceCredentialIfAbsent ::
  "kc_env \<Rightarrow> string \<Rightarrow> time \<Rightarrow> scope_id \<Rightarrow> service_input \<Rightarrow> keychain \<Rightarrow> service_error + time option \<times> keychain" where
  "setServiceCredentialIfAbsent env iv t orgScopeId i st =
     (case serviceCredentialRecord env iv t orgScopeId i None of
        Inl e \<Rightarrow> Inl e
      | Inr rec \<Rightarrow>
          let (ok, m) = mm_insertIfAbsent (cd_id rec) rec (kc_creds st)
          in Inr (if ok then Some (cd_updatedAt rec) else None, st\<lparr>kc_creds := m\<rparr>))"

text \<open>The function it hands to \<open>creds.update\<close> may throw, which leaves the row as it is.\<close>

definition is_current :: "scope_id \<Rightarrow> time \<Rightarrow> keychain_credential \<Rightarrow> bool" where
  "is_current orgScopeId expectedUpdatedAt p \<longleftrightarrow>
     cd_kind p = KBroker \<and> cd_ownerId p = orgScopeId \<and> cd_updatedAt p = expectedUpdatedAt"

definition setServiceCredentialIfCurrent ::
  "kc_env \<Rightarrow> string \<Rightarrow> time \<Rightarrow> scope_id \<Rightarrow> service_input \<Rightarrow> time \<Rightarrow> keychain \<Rightarrow> service_error + time option \<times> keychain" where
  "setServiceCredentialIfCurrent env iv t orgScopeId i expectedUpdatedAt st =
     (let cid = brokerId env orgScopeId (sv_slug i)
      in case mm_get (kc_creds st) cid of
           None \<Rightarrow> Inr (None, st)
         | Some prior \<Rightarrow>
             if \<not> is_current orgScopeId expectedUpdatedAt prior then Inr (None, st)
             else
               case serviceCredentialRecord env iv t orgScopeId i (Some prior) of
                 Inl e \<Rightarrow> Inl e
               | Inr rec \<Rightarrow> Inr (Some (cd_updatedAt rec), st\<lparr>kc_creds := snd (mm_update cid (\<lambda>_. rec) (kc_creds st))\<rparr>))"

definition deleteServiceCredential :: "kc_env \<Rightarrow> scope_id \<Rightarrow> string \<Rightarrow> keychain \<Rightarrow> keychain" where
  "deleteServiceCredential env orgScopeId slug st = st\<lparr>kc_creds := mm_delete (brokerId env orgScopeId slug) (kc_creds st)\<rparr>"

definition deleteServiceCredentialIfCurrent :: "kc_env \<Rightarrow> scope_id \<Rightarrow> string \<Rightarrow> time \<Rightarrow> keychain \<Rightarrow> bool \<times> keychain" where
  "deleteServiceCredentialIfCurrent env orgScopeId slug expectedUpdatedAt st =
     (let (ok, m) = mm_deleteIf (brokerId env orgScopeId slug) (is_current orgScopeId expectedUpdatedAt) (kc_creds st)
      in (ok, st\<lparr>kc_creds := m\<rparr>))"

record service_credential =
  sc_slug :: string
  sc_name :: string
  sc_secret :: string
  sc_delivery :: delivery_mode
  sc_envKey :: "string option"
  sc_host :: string
  sc_injection :: "credential_injection option"
  sc_allowedMethods :: "string list option"
  sc_allowedPathPrefixes :: "string list option"
  sc_enabled :: bool

definition broker_of :: "keychain_credential \<Rightarrow> broker_delivery" where
  "broker_of c =
     (case cd_broker c of
        Some b \<Rightarrow> b
      | None \<Rightarrow> \<lparr> bd_name = cd_service c, bd_delivery = None, bd_envKey = None, bd_injection = None, bd_allowedMethods = None,
                  bd_allowedPathPrefixes = None, bd_enabled = True, bd_updatedBy = None \<rparr>)"

definition service_of :: "keychain_credential \<Rightarrow> string \<Rightarrow> service_credential" where
  "service_of c secret =
     (let b = broker_of c
      in \<lparr> sc_slug = cd_service c, sc_name = bd_name b, sc_secret = secret,
           sc_delivery = (case bd_delivery b of Some d \<Rightarrow> d | None \<Rightarrow> DeliverBroker), sc_envKey = if_truthy (bd_envKey b),
           sc_host = (case cd_host c of Some h \<Rightarrow> h | None \<Rightarrow> []), sc_injection = bd_injection b,
           sc_allowedMethods = bd_allowedMethods b, sc_allowedPathPrefixes = bd_allowedPathPrefixes b,
           sc_enabled = bd_enabled b \<rparr>)"

text \<open>The left value is the exception of a secret that does not decrypt.\<close>

definition getServiceCredentialSecret :: "kc_env \<Rightarrow> scope_id \<Rightarrow> string \<Rightarrow> keychain \<Rightarrow> unit + service_credential option" where
  "getServiceCredentialSecret env orgScopeId slug st =
     (case brokerRecord env orgScopeId slug st of
        None \<Rightarrow> Inr None
      | Some c \<Rightarrow>
          if cd_secretEnc c = [] then Inr None
          else
            (case decryptSecret (ke_box env) (ke_key env) (cd_secretEnc c) of
               None \<Rightarrow> Inl ()
             | Some secret \<Rightarrow> Inr (Some (service_of c secret))))"

record public_service =
  ps_service :: service_credential
  ps_hasSecret :: bool
  ps_updatedBy :: "string option"
  ps_updatedAt :: time

text \<open>\<open>brokerToPublic\<close>: without the secret.\<close>

definition brokerToPublic :: "keychain_credential \<Rightarrow> public_service" where
  "brokerToPublic c =
     \<lparr> ps_service = service_of c [], ps_hasSecret = (cd_secretEnc c \<noteq> []), ps_updatedBy = if_truthy (bd_updatedBy (broker_of c)),
       ps_updatedAt = cd_updatedAt c \<rparr>"

definition listServiceCredentials :: "scope_id \<Rightarrow> keychain \<Rightarrow> public_service list" where
  "listServiceCredentials orgScopeId st =
     map brokerToPublic (filter (\<lambda>c. cd_kind c = KBroker \<and> cd_ownerId c = orgScopeId) (mm_all (kc_creds st)))"

section \<open>Listing\<close>

definition toMeta :: "keychain_credential \<Rightarrow> keychain_credential" where
  "toMeta c = c\<lparr>cd_secretEnc := []\<rparr>"

definition listAllMetadata :: "keychain \<Rightarrow> keychain_credential list" where
  "listAllMetadata st = map toMeta (filter (\<lambda>c. \<not> cd_managed c \<and> cd_kind c \<noteq> KBroker) (mm_all (kc_creds st)))"

definition listByOwner :: "string \<Rightarrow> keychain \<Rightarrow> keychain_credential list" where
  "listByOwner ownerId st =
     map toMeta (filter (\<lambda>c. samePerson (Some (cd_ownerId c)) (Some ownerId) \<and> \<not> cd_managed c \<and> cd_kind c \<noteq> KBroker)
       (mm_all (kc_creds st)))"

definition bucketByOwner ::
  "keychain_credential list \<Rightarrow> string list \<Rightarrow> (keychain_credential \<Rightarrow> bool) \<Rightarrow> (keychain_credential \<Rightarrow> 'a) \<Rightarrow> (string, 'a list) jsmap" where
  "bucketByOwner creds ownerIds include item =
     (let byKey = fold (\<lambda>i m. jmap_set (personKey (Some i)) i m) ownerIds []
      in fold (\<lambda>c out.
           if \<not> include c then out
           else case map_of byKey (personKey (Some (cd_ownerId c))) of
                  None \<Rightarrow> out
                | Some owner \<Rightarrow> jmap_set owner ((case map_of out owner of Some xs \<Rightarrow> xs | None \<Rightarrow> []) @ [item c]) out) creds [])"

definition listByOwners :: "string list \<Rightarrow> keychain \<Rightarrow> (string, keychain_credential list) jsmap" where
  "listByOwners ownerIds st = bucketByOwner (mm_all (kc_creds st)) ownerIds (\<lambda>c. \<not> cd_managed c \<and> cd_kind c \<noteq> KBroker) toMeta"

definition listConnectorsByOwners :: "kc_env \<Rightarrow> time \<Rightarrow> string list \<Rightarrow> keychain \<Rightarrow> (string, connector_meta list) jsmap" where
  "listConnectorsByOwners env t ownerIds st = bucketByOwner (mm_all (kc_creds st)) ownerIds cd_managed (\<lambda>c. connectorMeta env c t)"

section \<open>Using a credential\<close>

text \<open>The checks of \<open>materialize\<close> on the grant and, after the next read, on the credential.\<close>

definition grant_usable :: "time \<Rightarrow> scope_id \<Rightarrow> keychain_grant \<Rightarrow> keychain_error option" where
  "grant_usable t sc g =
     (if kg_audienceScopeId g \<noteq> sc then Some OtherConversation
      else if kg_status g = GRevoked then Some GrantWasRevoked
      else if kg_status g = GUsed then Some GrantAlreadyUsed
      else if expired (kg_expiresAt g) t then Some GrantIsExpired
      else None)"

definition claimOnceGrant :: "time \<Rightarrow> keychain_grant \<Rightarrow> scope_id \<Rightarrow> string \<Rightarrow> keychain \<Rightarrow> keychain_error + keychain" where
  "claimOnceGrant t g sc usedBy st =
     (if kg_mode g \<noteq> Once then Inr st
      else
        case mm_get (kc_grants st) (kg_id g) of
          None \<Rightarrow> Inl UnknownGrant
        | Some current \<Rightarrow>
            (case grant_usable t sc current of
               Some e \<Rightarrow> Inl e
             | None \<Rightarrow>
                 Inr (st\<lparr>kc_grants := snd (mm_update (kg_id g)
                   (\<lambda>g. g\<lparr>kg_status := GUsed, kg_usedAt := Some t, kg_usedBy := Some usedBy\<rparr>) (kc_grants st))\<rparr>)))"

text \<open>The secret of a credential that may be handed out, whoever asks for it.\<close>

definition materialize_cred ::
  "kc_env \<Rightarrow> string \<Rightarrow> string \<Rightarrow> time \<Rightarrow> keychain_credential \<Rightarrow> (string \<times> string) option \<Rightarrow> keychain \<Rightarrow>
     (keychain_error + materialized) \<times> keychain" where
  "materialize_cred env iv iv' t c extra st =
     (if cd_kind c = KBroker then (Inl BrokerNotMaterialized, st)
      else if cd_managed c then materializeConnectorEnv env iv iv' t c extra st
      else if credExpired c t then (Inl CredentialIsExpired, st)
      else (materializeDecrypted env c extra, st))"

definition materialize ::
  "kc_env \<Rightarrow> string \<Rightarrow> string \<Rightarrow> time \<Rightarrow> string \<Rightarrow> scope_id \<Rightarrow> string \<Rightarrow> keychain \<Rightarrow> (keychain_error + materialized) \<times> keychain" where
  "materialize env iv iv' t gid sc usedBy st =
     (case mm_get (kc_grants st) gid of
        None \<Rightarrow> (Inl UnknownGrant, st)
      | Some g \<Rightarrow>
          (case grant_usable t sc g of
             Some e \<Rightarrow> (Inl e, st)
           | None \<Rightarrow>
               (case mm_get (kc_creds st) (kg_credentialId g) of
                  None \<Rightarrow> (Inl CredentialGone, st)
                | Some c \<Rightarrow>
                    (case materialize_cred env iv iv' t c (Some (kg_id g, kg_purpose g)) st of
                       (Inl e, st') \<Rightarrow> (Inl e, st')
                     | (Inr m, st') \<Rightarrow>
                         (case claimOnceGrant t g sc usedBy st' of Inl e \<Rightarrow> (Inl e, st') | Inr st'' \<Rightarrow> (Inr m, st''))))))"

definition materializeOwnById ::
  "kc_env \<Rightarrow> string \<Rightarrow> string \<Rightarrow> time \<Rightarrow> string \<Rightarrow> string \<Rightarrow> scope_id \<Rightarrow> keychain \<Rightarrow> (keychain_error + materialized) \<times> keychain" where
  "materializeOwnById env iv iv' t ownerId cid sc st =
     (if sc \<noteq> scopeId Personal ownerId then (Inl NotPersonal, st)
      else
        case mm_get (kc_creds st) cid of
          None \<Rightarrow> (Inl UnknownCredential, st)
        | Some c \<Rightarrow>
            if \<not> samePerson (Some (cd_ownerId c)) (Some ownerId) then (Inl UnknownCredential, st)
            else materialize_cred env iv iv' t c None st)"

definition materializeOwn :: "kc_env \<Rightarrow> time \<Rightarrow> string \<Rightarrow> keychain \<Rightarrow> materialized list" where
  "materializeOwn env t ownerId st =
     List.map_filter (\<lambda>c. decryptToEnv env c None)
       (filter (\<lambda>c. samePerson (Some (cd_ownerId c)) (Some ownerId) \<and> cd_kind c = KEnv \<and> \<not> cd_managed c \<and>
                    \<not> expired (cd_expiresAt c) t) (mm_all (kc_creds st)))"

definition materializeOwnFiles :: "kc_env \<Rightarrow> string \<Rightarrow> keychain \<Rightarrow> materialized list" where
  "materializeOwnFiles env ownerId st =
     List.map_filter (\<lambda>c. decryptToFiles env c None)
       (filter (\<lambda>c. samePerson (Some (cd_ownerId c)) (Some ownerId) \<and> cd_kind c = KFile \<and> \<not> cd_managed c) (mm_all (kc_creds st)))"

text \<open>The loop of \<open>materializeStanding\<close>.\<close>

fun standing_loop ::
  "kc_env \<Rightarrow> string \<Rightarrow> string \<Rightarrow> time \<Rightarrow> keychain_grant list \<Rightarrow> keychain \<Rightarrow> materialized list \<times> keychain" where
  "standing_loop env iv iv' t [] st = ([], st)"
| "standing_loop env iv iv' t (g # gs) st =
     (let (here, st') =
        (case mm_get (kc_creds st) (kg_credentialId g) of
           None \<Rightarrow> ([], st)
         | Some c \<Rightarrow>
             if kg_mode g \<noteq> Standing \<or> cd_kind c \<noteq> KEnv then ([], st)
             else if cd_managed c
             then (case materializeConnectorEnv env iv iv' t c (Some (kg_id g, kg_purpose g)) st of
                     (Inl _, st') \<Rightarrow> ([], st')
                   | (Inr m, st') \<Rightarrow> ([m], st'))
             else if credExpired c t then ([], st)
             else (case decryptToEnv env c (Some (kg_id g, kg_purpose g)) of None \<Rightarrow> ([], st) | Some m \<Rightarrow> ([m], st)));
          (rest, st'') = standing_loop env iv iv' t gs st'
      in (here @ rest, st''))"

definition materializeStanding :: "kc_env \<Rightarrow> string \<Rightarrow> string \<Rightarrow> time \<Rightarrow> scope_id \<Rightarrow> keychain \<Rightarrow> materialized list \<times> keychain" where
  "materializeStanding env iv iv' t sc st = standing_loop env iv iv' t (activeGrantsFor t sc st) st"

end
