(* ===== verification/Keychain_Grants.thy ===== *)
theory Keychain_Grants
  imports Keychain
begin

text \<open>
  What the grants of the keychain promise, whatever calls overlap. The methods of the keychain await
  their store between a read and a write, so a call here holds what it has read while others run: a grant
  may be minted from a credential read earlier, a use checks its grant, loads the credential and claims the
  grant at three different moments, a refresh stores a token read long before. Only what the store does
  in one step (an update of one row) is one step.
\<close>

section \<open>Overlapping calls\<close>

record kc_world =
  kw_store :: keychain
  kw_seen :: "keychain_credential set"
  kw_checked :: "(keychain_grant \<times> scope_id \<times> string) set"
  kw_loaded :: "(keychain_grant \<times> scope_id \<times> string \<times> keychain_credential \<times> materialized) set"
  kw_minted :: "(keychain_grant \<times> string) list"
  kw_released :: "(keychain_grant \<times> scope_id \<times> string \<times> keychain_credential \<times> materialized) list"

definition kc_start :: kc_world where
  "kc_start = \<lparr> kw_store = kc_empty, kw_seen = {}, kw_checked = {}, kw_loaded = {}, kw_minted = [], kw_released = [] \<rparr>"

definition with_store :: "keychain \<Rightarrow> kc_world \<Rightarrow> kc_world" where
  "with_store st w = w\<lparr>kw_store := st, kw_seen := kw_seen w \<union> {c. \<exists>k. mm_get (kc_creds st) k = Some c}\<rparr>"

text \<open>The operations that mint no grant and hand out no secret.\<close>

inductive kc_op :: "(string list \<Rightarrow> string) \<Rightarrow> keychain_credential set \<Rightarrow> keychain \<Rightarrow> keychain \<Rightarrow> bool"
  for hash seen where
  op_save: "ke_hash env = hash \<Longrightarrow> saveCredential env iv t i st = Inr (c, st') \<Longrightarrow> kc_op hash seen st st'"
| op_remove: "kc_remove t ownerId cid st = (b, st') \<Longrightarrow> kc_op hash seen st st'"
| op_revoke: "revokeGrant t ownerId gid st = (b, st') \<Longrightarrow> kc_op hash seen st st'"
| op_connect: "ke_hash env = hash \<Longrightarrow> putConnectorToken env iv iv' t host principalId token acct st = (c, st') \<Longrightarrow> kc_op hash seen st st'"
| op_disconnect: "ke_hash env = hash \<Longrightarrow> kc_op hash seen st (deleteCredential t (oauthId env host principalId acct) st)"
| op_refresh: "ke_hash env = hash \<Longrightarrow> c \<in> seen \<Longrightarrow> connectorTokenForRecord env iv iv' t c st = (v, st') \<Longrightarrow> kc_op hash seen st st'"
| op_service: "ke_hash env = hash \<Longrightarrow> setServiceCredential env iv t org si st = Inr st' \<Longrightarrow> kc_op hash seen st st'"
| op_service_absent: "ke_hash env = hash \<Longrightarrow> setServiceCredentialIfAbsent env iv t org si st = Inr (r, st') \<Longrightarrow> kc_op hash seen st st'"
| op_service_current: "ke_hash env = hash \<Longrightarrow> setServiceCredentialIfCurrent env iv t org si e st = Inr (r, st') \<Longrightarrow> kc_op hash seen st st'"
| op_service_delete: "kc_op hash seen st (deleteServiceCredential env org slug st)"
| op_service_deleteIf: "deleteServiceCredentialIfCurrent env org slug e st = (b, st') \<Longrightarrow> kc_op hash seen st st'"
| op_ask: "createAsk env t fresh ai st = Inr (a, st') \<Longrightarrow> kc_op hash seen st st'"
| op_getAsk: "getAsk t aid st = (oa, st') \<Longrightarrow> kc_op hash seen st st'"
| op_listAsks: "listAsks t ra oa sa st = (as, st') \<Longrightarrow> kc_op hash seen st st'"
| op_approved: "kc_op hash seen st (st\<lparr>kc_asks := snd (mm_update aid (approved_ask t gid) (kc_asks st))\<rparr>)"
| op_decline: "declineAsk t aid ownerId note st = Inr (a, st') \<Longrightarrow> kc_op hash seen st st'"
| op_unnotified: "unnotifiedResolvedAsks t st = (as, st') \<Longrightarrow> kc_op hash seen st st'"
| op_notified: "kc_op hash seen st (markAskNotified t aid st)"
| op_adopt: "resolveAsksForGrant t g st = (as, st') \<Longrightarrow> kc_op hash seen st st'"

inductive kc_step :: "(string list \<Rightarrow> string) \<Rightarrow> kc_world \<Rightarrow> kc_world \<Rightarrow> bool" for hash where
  step_op: "kc_op hash (kw_seen w) (kw_store w) st \<Longrightarrow> kc_step hash w (with_store st w)"
| step_mint: "ke_hash env = hash \<Longrightarrow> c \<in> kw_seen w \<Longrightarrow> mint_from env t i c = Inr g \<Longrightarrow>
    kc_step hash w (w\<lparr>kw_store := put_grant g (kw_store w), kw_minted := (g, gi_ownerId i) # kw_minted w\<rparr>)"
| step_check: "mm_get (kc_grants (kw_store w)) gid = Some g \<Longrightarrow> grant_usable t sc g = None \<Longrightarrow>
    kc_step hash w (w\<lparr>kw_checked := insert (g, sc, user) (kw_checked w)\<rparr>)"
| step_load: "ke_hash env = hash \<Longrightarrow> (g, sc, user) \<in> kw_checked w \<Longrightarrow> c \<in> kw_seen w \<Longrightarrow> cd_id c = kg_credentialId g \<Longrightarrow>
    materialize_cred env iv iv' t c (Some (kg_id g, kg_purpose g)) (kw_store w) = (Inr m, st) \<Longrightarrow>
    kc_step hash w ((with_store st w)\<lparr>kw_loaded := insert (g, sc, user, c, m) (kw_loaded w)\<rparr>)"
| step_release: "(g, sc, user, c, m) \<in> kw_loaded w \<Longrightarrow> claimOnceGrant t g sc user (kw_store w) = Inr st \<Longrightarrow>
    kc_step hash w (w\<lparr>kw_store := st, kw_released := (g, sc, user, c, m) # kw_released w\<rparr>)"

text \<open>How often the owner minted a grant and how often its one-time use succeeded.\<close>

definition mints_of :: "string \<Rightarrow> kc_world \<Rightarrow> nat" where
  "mints_of gid w = length (filter (\<lambda>(g, _). kg_id g = gid) (kw_minted w))"

definition uses_of :: "string \<Rightarrow> kc_world \<Rightarrow> nat" where
  "uses_of gid w = length (filter (\<lambda>(g, _). kg_id g = gid \<and> kg_mode g = Once) (kw_released w))"

section \<open>What an operation does to the rows\<close>

definition same_terms :: "keychain_grant \<Rightarrow> keychain_grant \<Rightarrow> bool" where
  "same_terms g g' \<longleftrightarrow>
     kg_id g' = kg_id g \<and> kg_credentialId g' = kg_credentialId g \<and> kg_ownerId g' = kg_ownerId g \<and>
     kg_audienceScopeId g' = kg_audienceScopeId g \<and> kg_mode g' = kg_mode g \<and> kg_purpose g' = kg_purpose g \<and>
     kg_expiresAt g' = kg_expiresAt g"

definition grants_kept :: "keychain_grant mem_map \<Rightarrow> keychain_grant mem_map \<Rightarrow> bool" where
  "grants_kept m m' \<longleftrightarrow>
     (\<forall>gid. (mm_get m' gid = None \<longleftrightarrow> mm_get m gid = None) \<and>
        (\<forall>g'. mm_get m' gid = Some g' \<longrightarrow>
           (\<exists>g. mm_get m gid = Some g \<and> same_terms g g' \<and> (kg_status g' = GActive \<longrightarrow> kg_status g = GActive))))"

definition cred_ok :: "(string list \<Rightarrow> string) \<Rightarrow> keychain_credential \<Rightarrow> bool" where
  "cred_ok hash c \<longleftrightarrow> (\<exists>service slot. cd_id c = hash [cd_ownerId c, service, slot])"

definition creds_ok :: "(string list \<Rightarrow> string) \<Rightarrow> keychain_credential mem_map \<Rightarrow> bool" where
  "creds_ok hash m \<longleftrightarrow> (\<forall>k c. mm_get m k = Some c \<longrightarrow> cd_id c = k \<and> cred_ok hash c)"

lemma same_terms_refl [simp]: "same_terms g g"
  by (simp add: same_terms_def)

lemma same_terms_trans: "same_terms g h \<Longrightarrow> same_terms h k \<Longrightarrow> same_terms g k"
  by (simp add: same_terms_def)

lemma grants_kept_refl [simp]: "grants_kept m m"
  by (auto simp: grants_kept_def)

lemma grants_kept_trans: "grants_kept m n \<Longrightarrow> grants_kept n k \<Longrightarrow> grants_kept m k"
  unfolding grants_kept_def by (meson same_terms_trans)

lemma grants_kept_update:
  assumes "\<And>g. mm_get m k = Some g \<Longrightarrow> same_terms g (f g) \<and> (kg_status (f g) = GActive \<longrightarrow> kg_status g = GActive)"
  shows "grants_kept m (snd (mm_update k f m))"
  using assms by (auto simp: grants_kept_def)

lemma grants_kept_fold:
  "(\<And>x m. grants_kept m (f x m)) \<Longrightarrow> grants_kept m (fold f xs m)"
  by (induction xs arbitrary: m) (auto intro: grants_kept_trans)

lemma creds_ok_put: "creds_ok hash m \<Longrightarrow> cd_id c = k \<Longrightarrow> cred_ok hash c \<Longrightarrow> creds_ok hash (mm_put k c m)"
  by (auto simp: creds_ok_def split: if_splits)

lemma creds_ok_delete: "creds_ok hash m \<Longrightarrow> creds_ok hash (mm_delete k m)"
  by (auto simp: creds_ok_def split: if_splits)

lemma creds_ok_update:
  assumes "creds_ok hash m" "\<And>c. mm_get m k = Some c \<Longrightarrow> cd_id (f c) = cd_id c \<and> cd_ownerId (f c) = cd_ownerId c"
  shows "creds_ok hash (snd (mm_update k f m))"
  using assms unfolding creds_ok_def cred_ok_def by (auto split: if_splits) metis

lemma saved_credential_sel [simp]:
  "cd_id (saved_credential env iv t i service files flds k secret prior) = credId env (si_ownerId i) service (saved_slot files flds k)"
  "cd_ownerId (saved_credential env iv t i service files flds k secret prior) = si_ownerId i"
  "cd_kind (saved_credential env iv t i service files flds k secret prior) = (if files = None then KEnv else KFile)"
  "\<not> cd_managed (saved_credential env iv t i service files flds k secret prior)"
  "cd_expiresAt (saved_credential env iv t i service files flds k secret prior) = si_expiresAt i"
  "cd_targets (saved_credential env iv t i service files flds k secret prior) = map_option (map fl_path) files"
  "cd_fields (saved_credential env iv t i service files flds k secret prior) = map_option (map (\<lambda>(k, _, s). (k, s))) flds"
  "cd_envKey (saved_credential env iv t i service files flds k secret prior) = if_truthy k"
  "cd_secretEnc (saved_credential env iv t i service files flds k secret prior) = encryptSecret (ke_box env) (ke_key env) iv secret"
  "cd_origin (saved_credential env iv t i service files flds k secret prior) = if_truthy (si_origin i)"
  "cd_username (saved_credential env iv t i service files flds k secret prior) = None"
  by (simp_all add: saved_credential_def)

lemma saveCredential_Inr:
  assumes "saveCredential env iv t i st = Inr (c, st')"
  obtains files flds k secret where
    "input_files env i = Inr files" "flds = (if files = None then input_fields i else None)" "Option.bind flds fields_error = None"
    "saved_secret i files flds = Some secret" "js_trim secret \<noteq> []"
    "k = (if files = None \<and> flds = None then Some (let g = map_option js_trim (si_envKey i)
            in if truthy g then the g else defaultEnvKey (js_lower (js_trim (si_service i)))) else None)"
    "truthy k \<longrightarrow> ENV_KEY_RE (the k)"
    "c = saved_credential env iv t i (js_lower (js_trim (si_service i))) files flds k secret
       (mm_get (kc_creds st) (credId env (si_ownerId i) (js_lower (js_trim (si_service i))) (saved_slot files flds k)))"
    "st' = st\<lparr>kc_creds := mm_put (cd_id c) c (kc_creds st)\<rparr>"
proof -
  obtain files where f: "input_files env i = Inr files"
    using assms by (cases "input_files env i") (auto simp: saveCredential_def Let_def split: if_splits)
  define flds where "flds = (if files = None then input_fields i else None)"
  have fl: "Option.bind flds fields_error = None"
    using assms f by (auto simp: saveCredential_def Let_def flds_def split: if_splits option.splits)
  define sec where "sec = saved_secret i files flds"
  have s: "js_trim (case sec of None \<Rightarrow> [] | Some s \<Rightarrow> s) \<noteq> []"
    using assms f fl by (auto simp: saveCredential_def Let_def flds_def [symmetric] sec_def [symmetric] split: if_splits)
  then obtain secret where secret: "sec = Some secret" by (cases sec) (simp_all add: js_trim_def js_trimStart_def js_trimEnd_def)
  show thesis
    by (rule that [of files flds secret])
      (use assms f fl s secret in \<open>auto simp: saveCredential_def Let_def flds_def [symmetric] sec_def [symmetric] split: if_splits\<close>)
qed

lemma saveCredential_frame:
  assumes "saveCredential env iv t i st = Inr (c, st')"
  shows "kc_grants st' = kc_grants st" "kc_creds st' = mm_put (cd_id c) c (kc_creds st)" "cred_ok (ke_hash env) c"
    "cd_ownerId c = si_ownerId i" "\<not> cd_managed c" "cd_kind c \<noteq> KBroker"
proof -
  obtain service files flds k secret prior where
    c: "c = saved_credential env iv t i service files flds k secret prior" "st' = st\<lparr>kc_creds := mm_put (cd_id c) c (kc_creds st)\<rparr>"
    using saveCredential_Inr [OF assms] by metis
  show "kc_grants st' = kc_grants st" "kc_creds st' = mm_put (cd_id c) c (kc_creds st)" by (simp_all add: c(2))
  show "cred_ok (ke_hash env) c" unfolding cred_ok_def c(1) saved_credential_sel credId_def by blast
  show "cd_ownerId c = si_ownerId i" "\<not> cd_managed c" "cd_kind c \<noteq> KBroker" by (simp_all add: c(1))
qed

lemma grants_kept_revoke_row: "grants_kept m (revoke_row t gid m)"
  unfolding revoke_row_def by (rule grants_kept_update) (simp add: revoked_grant_def same_terms_def)

lemma deleteCredential_frame:
  "grants_kept (kc_grants st) (kc_grants (deleteCredential t cid st))"
  "kc_creds (deleteCredential t cid st) = mm_delete cid (kc_creds st)"
  by (auto simp: deleteCredential_def intro!: grants_kept_fold grants_kept_revoke_row)

lemma connector_credential_sel [simp]:
  "cd_id (connector_credential env iv iv' t host principalId token acct prior) = oauthId env host principalId acct"
  "cd_ownerId (connector_credential env iv iv' t host principalId token acct prior) = principalId"
  "cd_kind (connector_credential env iv iv' t host principalId token acct prior) = KEnv"
  "cd_managed (connector_credential env iv iv' t host principalId token acct prior)"
  by (simp_all add: connector_credential_def)

lemma putConnectorToken_frame:
  assumes "putConnectorToken env iv iv' t host principalId token acct st = (c, st')"
  shows "kc_grants st' = kc_grants st" "kc_creds st' = mm_put (cd_id c) c (kc_creds st)" "cred_ok (ke_hash env) c"
proof -
  have c: "c = connector_credential env iv iv' t host principalId token acct (mm_get (kc_creds st) (oauthId env host principalId acct))"
    "st' = st\<lparr>kc_creds := mm_put (oauthId env host principalId acct) c (kc_creds st)\<rparr>"
    using assms by (auto simp: putConnectorToken_def Let_def)
  show "kc_grants st' = kc_grants st" "kc_creds st' = mm_put (cd_id c) c (kc_creds st)" by (simp_all add: c)
  show "cred_ok (ke_hash env) c" unfolding cred_ok_def c(1) connector_credential_sel oauthId_def credId_def by blast
qed

lemma markFailure_frame:
  "kc_grants (markConnectorRefreshFailure t c msg st) = kc_grants st"
  "creds_ok hash (kc_creds st) \<Longrightarrow> creds_ok hash (kc_creds (markConnectorRefreshFailure t c msg st))"
  by (auto simp: markConnectorRefreshFailure_def intro!: creds_ok_update split: option.split)

lemma refreshAndStore_frame:
  assumes "refreshAndStore env iv iv' t host principalId acct c st = (v, st')"
  shows "kc_grants st' = kc_grants st"
    "creds_ok (ke_hash env) (kc_creds st) \<Longrightarrow> creds_ok (ke_hash env) (kc_creds st')"
proof -
  have "kc_grants (snd (putConnectorToken env iv iv' t host principalId token acct st)) = kc_grants st \<and>
      (creds_ok (ke_hash env) (kc_creds st) \<longrightarrow>
       creds_ok (ke_hash env) (kc_creds (snd (putConnectorToken env iv iv' t host principalId token acct st))))" for token
    using putConnectorToken_frame [OF prod.collapse [symmetric], of env iv iv' t host principalId token acct st]
    by (auto intro: creds_ok_put)
  then show "kc_grants st' = kc_grants st"
    "creds_ok (ke_hash env) (kc_creds st) \<Longrightarrow> creds_ok (ke_hash env) (kc_creds st')"
    using assms
    by (auto simp: refreshAndStore_def Let_def markFailure_frame split: option.splits sum.splits if_splits)
qed

lemma connectorToken_frame:
  assumes "connectorTokenForRecord env iv iv' t c st = (v, st')"
  shows "kc_grants st' = kc_grants st"
    "creds_ok (ke_hash env) (kc_creds st) \<Longrightarrow> creds_ok (ke_hash env) (kc_creds st')"
  using assms refreshAndStore_frame by (auto simp: connectorTokenForRecord_def Let_def split: if_splits)

lemma serviceRecord_ok:
  assumes "serviceCredentialRecord env iv t org si prior = Inr c"
  shows "cred_ok (ke_hash env) c \<and> cd_id c = brokerId env org (sv_slug si) \<and> cd_ownerId c = org"
proof -
  have c: "cd_id c = brokerId env org (sv_slug si)" "cd_ownerId c = org"
    using assms by (auto simp: serviceCredentialRecord_def Let_def split: if_splits)
  then show ?thesis unfolding cred_ok_def c brokerId_def credId_def by blast
qed

lemma freshAsk_frame [simp]:
  "kc_grants (snd (freshAsk a t st)) = kc_grants st" "kc_creds (snd (freshAsk a t st)) = kc_creds st"
  by (simp_all add: freshAsk_def)

lemma find_ask_frame [simp]:
  "kc_grants (snd (find_ask t cid sc as st)) = kc_grants st" "kc_creds (snd (find_ask t cid sc as st)) = kc_creds st"
  by (induction t cid sc as st rule: find_ask.induct) (auto simp: Let_def freshAsk_def split: prod.split)

lemma fresh_asks_frame [simp]:
  "kc_grants (snd (fresh_asks t as st)) = kc_grants st" "kc_creds (snd (fresh_asks t as st)) = kc_creds st"
  by (induction t as st rule: fresh_asks.induct) (auto simp: Let_def freshAsk_def split: prod.split)

lemma adopt_frame: "grants_kept (kc_grants st) (kc_grants (fold (adopt t g) as st)) \<and> kc_creds (fold (adopt t g) as st) = kc_creds st"
proof (induction as arbitrary: st)
  case (Cons a as)
  have "grants_kept (kc_grants st) (kc_grants (adopt t g a st))"
    unfolding adopt_def by (simp, rule grants_kept_update) (simp add: same_terms_def)
  moreover have "kc_creds (adopt t g a st) = kc_creds st" by (simp add: adopt_def)
  ultimately show ?case using Cons.IH [of "adopt t g a st"] by (auto intro: grants_kept_trans)
qed simp

lemma ask_ops_frame:
  "createAsk env t fresh ai st = Inr (a, st') \<Longrightarrow> kc_grants st' = kc_grants st \<and> kc_creds st' = kc_creds st"
  "getAsk t aid st = (oa, st') \<Longrightarrow> kc_grants st' = kc_grants st \<and> kc_creds st' = kc_creds st"
  "listAsks t r ow s st = (as, st') \<Longrightarrow> kc_grants st' = kc_grants st \<and> kc_creds st' = kc_creds st"
  "declineAsk t aid ownerId note st = Inr (a', st') \<Longrightarrow> kc_grants st' = kc_grants st \<and> kc_creds st' = kc_creds st"
  "unnotifiedResolvedAsks t st = (as, st') \<Longrightarrow> kc_grants st' = kc_grants st \<and> kc_creds st' = kc_creds st"
proof -
  show "kc_grants st' = kc_grants st \<and> kc_creds st' = kc_creds st" if ask: "createAsk env t fresh ai st = Inr (a, st')"
  proof -
    obtain c where c: "mm_get (kc_creds st) (ai_credentialId ai) = Some c"
      using ask by (cases "mm_get (kc_creds st) (ai_credentialId ai)") (simp_all add: createAsk_def split: if_splits)
    obtain o1 st1 where f: "find_ask t (cd_id c) (ai_requesterScopeId ai) (mm_all (kc_asks st)) st = (o1, st1)" by force
    have "kc_grants st1 = kc_grants st" "kc_creds st1 = kc_creds st"
      using find_ask_frame [of t "cd_id c" "ai_requesterScopeId ai" "mm_all (kc_asks st)" st] by (simp_all add: f)
    moreover have "st' = st1 \<or> (\<exists>m. st' = st1\<lparr>kc_asks := m\<rparr>)"
      using ask c f by (cases o1) (simp_all add: createAsk_def Let_def split: if_splits, blast)
    ultimately show ?thesis by auto
  qed
  show "kc_grants st' = kc_grants st \<and> kc_creds st' = kc_creds st" if "getAsk t aid st = (oa, st')"
    using that by (auto simp: getAsk_def freshAsk_def split: option.splits prod.splits if_splits)
  show "kc_grants st' = kc_grants st \<and> kc_creds st' = kc_creds st" if "listAsks t r ow s st = (as, st')"
    using that fresh_asks_frame [of t "mm_all (kc_asks st)" st] by (cases "fresh_asks t (mm_all (kc_asks st)) st") (simp add: listAsks_def)
  show "kc_grants st' = kc_grants st \<and> kc_creds st' = kc_creds st" if "declineAsk t aid ownerId note st = Inr (a', st')"
    using that by (auto simp: declineAsk_def freshAsk_def Let_def split: option.splits if_splits prod.splits)
  show "kc_grants st' = kc_grants st \<and> kc_creds st' = kc_creds st" if "unnotifiedResolvedAsks t st = (as, st')"
    using that fresh_asks_frame [of t "mm_all (kc_asks st)" st]
    by (cases "fresh_asks t (mm_all (kc_asks st)) st") (auto simp: unnotifiedResolvedAsks_def prune_asks_def)
qed

lemma resolveAsks_frame:
  assumes "resolveAsksForGrant t g st = (as, st')"
  shows "grants_kept (kc_grants st) (kc_grants st') \<and> kc_creds st' = kc_creds st"
proof -
  obtain bs st1 where b: "fresh_asks t (mm_all (kc_asks st)) st = (bs, st1)" by force
  have "kc_grants st1 = kc_grants st" "kc_creds st1 = kc_creds st"
    using fresh_asks_frame [of t "mm_all (kc_asks st)" st] b by simp_all
  then show ?thesis using assms adopt_frame [of st1 t g] by (auto simp: resolveAsksForGrant_def b Let_def)
qed

lemma kc_op_kept:
  assumes "kc_op hash seen st st'" "creds_ok hash (kc_creds st)"
  shows "creds_ok hash (kc_creds st') \<and> grants_kept (kc_grants st) (kc_grants st')"
  using assms
proof (induction rule: kc_op.induct)
  case op_save
  then show ?case using saveCredential_frame creds_ok_put by (metis grants_kept_refl)
next
  case op_remove
  then show ?case by (auto simp: kc_remove_def deleteCredential_frame creds_ok_delete split: option.splits if_splits)
next
  case op_revoke
  then show ?case by (auto simp: revokeGrant_def grants_kept_revoke_row split: option.splits if_splits)
next
  case op_connect
  then show ?case using putConnectorToken_frame creds_ok_put by (metis grants_kept_refl)
next
  case op_disconnect
  then show ?case by (simp add: deleteCredential_frame creds_ok_delete)
next
  case op_refresh
  then show ?case using connectorToken_frame by (metis grants_kept_refl)
next
  case op_service
  then show ?case by (auto simp: setServiceCredential_def dest!: serviceRecord_ok intro: creds_ok_put split: sum.splits)
next
  case op_service_absent
  then show ?case
    by (auto simp: setServiceCredentialIfAbsent_def mm_insertIfAbsent_def mm_put_def [symmetric] dest!: serviceRecord_ok
        intro: creds_ok_put split: sum.splits if_splits)
next
  case (op_service_current env iv t org si e st r st')
  then show ?case
    by (auto simp: setServiceCredentialIfCurrent_def Let_def is_current_def creds_ok_def dest!: serviceRecord_ok
        split: sum.splits if_splits option.splits)
next
  case op_service_delete
  then show ?case by (simp add: deleteServiceCredential_def creds_ok_delete)
next
  case op_service_deleteIf
  then show ?case
    by (auto simp: deleteServiceCredentialIfCurrent_def mm_deleteIf_def mm_delete_def [symmetric] intro: creds_ok_delete
        split: option.splits if_splits)
next
  case op_adopt
  then show ?case using resolveAsks_frame by metis
qed (auto dest: ask_ops_frame simp: markAskNotified_def)

section \<open>The invariant\<close>

definition minted_ok :: "(string list \<Rightarrow> string) \<Rightarrow> keychain_grant \<times> string \<Rightarrow> bool" where
  "minted_ok hash = (\<lambda>(g, owner).
     samePerson (Some (kg_ownerId g)) (Some owner) \<and> (\<exists>service slot. kg_credentialId g = hash [kg_ownerId g, service, slot]))"

definition from_mint :: "kc_world \<Rightarrow> keychain_grant \<Rightarrow> bool" where
  "from_mint w g \<longleftrightarrow> (\<exists>g0 owner. (g0, owner) \<in> set (kw_minted w) \<and> same_terms g0 g)"

definition active_now :: "string \<Rightarrow> kc_world \<Rightarrow> bool" where
  "active_now gid w \<longleftrightarrow> (\<exists>g. mm_get (kc_grants (kw_store w)) gid = Some g \<and> kg_status g = GActive)"

definition lent_ok :: "(string list \<Rightarrow> string) \<Rightarrow> kc_world \<Rightarrow> keychain_grant \<times> scope_id \<times> string \<times> keychain_credential \<times> materialized \<Rightarrow> bool" where
  "lent_ok hash w = (\<lambda>(g, sc, user, c, m).
     from_mint w g \<and> kg_audienceScopeId g = sc \<and> cred_ok hash c \<and> cd_id c = kg_credentialId g \<and> cd_kind c \<noteq> KBroker)"

definition kc_inv :: "(string list \<Rightarrow> string) \<Rightarrow> kc_world \<Rightarrow> bool" where
  "kc_inv hash w \<longleftrightarrow>
     creds_ok hash (kc_creds (kw_store w)) \<and> (\<forall>c \<in> kw_seen w. cred_ok hash c) \<and>
     (\<forall>gid g. mm_get (kc_grants (kw_store w)) gid = Some g \<longrightarrow> kg_id g = gid \<and> from_mint w g) \<and>
     (\<forall>x \<in> set (kw_minted w). minted_ok hash x) \<and>
     (\<forall>(g, sc, user) \<in> kw_checked w. from_mint w g \<and> kg_audienceScopeId g = sc) \<and>
     (\<forall>x \<in> kw_loaded w. lent_ok hash w x) \<and> (\<forall>x \<in> set (kw_released w). lent_ok hash w x) \<and>
     (\<forall>gid. uses_of gid w + (if active_now gid w then 1 else 0) \<le> mints_of gid w)"

lemma from_mint_mono:
  "set (kw_minted w) \<subseteq> set (kw_minted w') \<Longrightarrow> from_mint w g \<Longrightarrow> from_mint w' g"
  by (auto simp: from_mint_def)

lemma from_mint_same: "from_mint w g \<Longrightarrow> same_terms g g' \<Longrightarrow> from_mint w g'"
  unfolding from_mint_def using same_terms_trans by blast

lemma kc_inv_D:
  assumes "kc_inv hash w"
  shows "creds_ok hash (kc_creds (kw_store w))" "\<And>c. c \<in> kw_seen w \<Longrightarrow> cred_ok hash c"
    "\<And>gid g. mm_get (kc_grants (kw_store w)) gid = Some g \<Longrightarrow> kg_id g = gid \<and> from_mint w g"
    "\<And>x. x \<in> set (kw_minted w) \<Longrightarrow> minted_ok hash x"
    "\<And>g sc user. (g, sc, user) \<in> kw_checked w \<Longrightarrow> from_mint w g \<and> kg_audienceScopeId g = sc"
    "\<And>x. x \<in> kw_loaded w \<Longrightarrow> lent_ok hash w x" "\<And>x. x \<in> set (kw_released w) \<Longrightarrow> lent_ok hash w x"
    "\<And>gid. uses_of gid w + (if active_now gid w then 1 else 0) \<le> mints_of gid w"
  using assms unfolding kc_inv_def by blast+

lemma kc_invI:
  assumes "creds_ok hash (kc_creds (kw_store w))" "\<And>c. c \<in> kw_seen w \<Longrightarrow> cred_ok hash c"
    "\<And>gid g. mm_get (kc_grants (kw_store w)) gid = Some g \<Longrightarrow> kg_id g = gid \<and> from_mint w g"
    "\<And>x. x \<in> set (kw_minted w) \<Longrightarrow> minted_ok hash x"
    "\<And>g sc user. (g, sc, user) \<in> kw_checked w \<Longrightarrow> from_mint w g \<and> kg_audienceScopeId g = sc"
    "\<And>x. x \<in> kw_loaded w \<Longrightarrow> lent_ok hash w x" "\<And>x. x \<in> set (kw_released w) \<Longrightarrow> lent_ok hash w x"
    "\<And>gid. uses_of gid w + (if active_now gid w then 1 else 0) \<le> mints_of gid w"
  shows "kc_inv hash w"
  using assms unfolding kc_inv_def by fast

lemma lent_ok_mono: "set (kw_minted w) \<subseteq> set (kw_minted w') \<Longrightarrow> lent_ok hash w x \<Longrightarrow> lent_ok hash w' x"
  using from_mint_mono by (auto simp: lent_ok_def split: prod.splits)

text \<open>A step that keeps the grants and everything but the store and what was read from it.\<close>

lemma kc_inv_store:
  assumes inv: "kc_inv hash w" and st: "creds_ok hash (kc_creds st)" "grants_kept (kc_grants (kw_store w)) (kc_grants st)"
  shows "kc_inv hash (with_store st w)"
proof -
  let ?w = "with_store st w"
  have w: "kw_store ?w = st" "kw_minted ?w = kw_minted w" "kw_checked ?w = kw_checked w" "kw_loaded ?w = kw_loaded w"
      "kw_released ?w = kw_released w" "kw_seen ?w = kw_seen w \<union> {c. \<exists>k. mm_get (kc_creds st) k = Some c}"
    by (simp_all add: with_store_def)
  have fm: "from_mint ?w g = from_mint w g" "lent_ok hash ?w x = lent_ok hash w x" "mints_of gid ?w = mints_of gid w"
      "uses_of gid ?w = uses_of gid w" for g x gid
    by (simp_all add: from_mint_def lent_ok_def mints_of_def uses_of_def w)
  have "kg_id g = gid \<and> from_mint w g" if g: "mm_get (kc_grants st) gid = Some g" for gid g
  proof -
    obtain g0 where "mm_get (kc_grants (kw_store w)) gid = Some g0" "same_terms g0 g"
      using st(2) g unfolding grants_kept_def by blast
    then show ?thesis using kc_inv_D(3) [OF inv] from_mint_same same_terms_def by metis
  qed
  moreover have "active_now gid ?w \<longrightarrow> active_now gid w" for gid
    using st(2) by (auto simp: active_now_def w grants_kept_def)
  moreover have "\<forall>c \<in> kw_seen ?w. cred_ok hash c" using inv st(1) by (auto simp: kc_inv_def creds_ok_def w)
  moreover have "uses_of gid w + (if active_now gid ?w then 1 else 0) \<le> mints_of gid w" for gid
    using kc_inv_D(8) [OF inv, of gid] calculation(2) [of gid] by (auto split: if_splits)
  ultimately show ?thesis using kc_inv_D(4-7) [OF inv] st(1) unfolding kc_inv_def fm w by fast
qed

lemma mint_from_Inr:
  assumes "mint_from env t i c = Inr g"
  shows "kg_credentialId g = cd_id c" "kg_ownerId g = cd_ownerId c" "samePerson (Some (cd_ownerId c)) (Some (gi_ownerId i))"
    "kg_status g = GActive" "kg_audienceScopeId g = gi_audienceScopeId i" "cd_kind c \<noteq> KBroker" "kg_mode g = gi_mode i"
  using assms by (auto simp: mint_from_def Let_def split: if_splits)

lemma materialize_cred_frame:
  assumes "materialize_cred env iv iv' t c extra st = (r, st')"
  shows "kc_grants st' = kc_grants st"
    "creds_ok (ke_hash env) (kc_creds st) \<Longrightarrow> creds_ok (ke_hash env) (kc_creds st')"
    "r = Inr m \<Longrightarrow> cd_kind c \<noteq> KBroker"
proof -
  have "(\<exists>v. connectorTokenForRecord env iv iv' t c st = (v, st')) \<or> st' = st"
    using assms
    by (auto simp: materialize_cred_def materializeConnectorEnv_def Let_def split: if_splits prod.splits)
  then show "kc_grants st' = kc_grants st" "creds_ok (ke_hash env) (kc_creds st) \<Longrightarrow> creds_ok (ke_hash env) (kc_creds st')"
    using connectorToken_frame by blast+
  show "r = Inr m \<Longrightarrow> cd_kind c \<noteq> KBroker" using assms by (auto simp: materialize_cred_def)
qed

lemma claimOnce_frame:
  assumes "claimOnceGrant t g sc user st = Inr st'"
  shows "kc_creds st' = kc_creds st" "grants_kept (kc_grants st) (kc_grants st')"
    "kg_mode g = Once \<Longrightarrow> (\<exists>h. mm_get (kc_grants st) (kg_id g) = Some h \<and> kg_status h = GActive) \<and>
       (\<forall>h. mm_get (kc_grants st') (kg_id g) = Some h \<longrightarrow> kg_status h = GUsed)"
proof -
  have "grants_kept (kc_grants st) (snd (mm_update k (\<lambda>g. g\<lparr>kg_status := GUsed, kg_usedAt := u, kg_usedBy := v\<rparr>) (kc_grants st)))"
    for k u v by (rule grants_kept_update) (simp add: same_terms_def)
  then show "kc_creds st' = kc_creds st" "grants_kept (kc_grants st) (kc_grants st')"
    using assms by (auto simp: claimOnceGrant_def split: if_splits option.splits)
  show "kg_mode g = Once \<Longrightarrow> (\<exists>h. mm_get (kc_grants st) (kg_id g) = Some h \<and> kg_status h = GActive) \<and>
       (\<forall>h. mm_get (kc_grants st') (kg_id g) = Some h \<longrightarrow> kg_status h = GUsed)"
    using assms by (auto simp: claimOnceGrant_def grant_usable_def split: if_splits option.splits) (meson grant_status.exhaust)
qed

lemma kc_inv_start: "kc_inv hash kc_start"
  by (simp add: kc_inv_def kc_start_def kc_empty_def creds_ok_def uses_of_def active_now_def)

lemma kc_inv_mint:
  assumes inv: "kc_inv hash w" and m: "c \<in> kw_seen w" "mint_from env t i c = Inr g" and h: "ke_hash env = hash"
  shows "kc_inv hash (w\<lparr>kw_store := put_grant g (kw_store w), kw_minted := (g, gi_ownerId i) # kw_minted w\<rparr>)"
    (is "kc_inv hash ?w")
proof -
  note g = mint_from_Inr [OF m(2)] and D = kc_inv_D [OF inv]
  have sub: "set (kw_minted w) \<subseteq> set (kw_minted ?w)" by auto
  note mono = from_mint_mono [OF sub] lent_ok_mono [OF sub]
  have "minted_ok hash (g, gi_ownerId i)" using D(2) [OF m(1)] g by (auto simp: minted_ok_def cred_ok_def)
  moreover have "kg_id h = gid \<and> from_mint ?w h" if "mm_get (kc_grants (kw_store ?w)) gid = Some h" for gid h
  proof (cases "gid = kg_id g")
    case True
    then have "h = g" using that by (simp add: put_grant_def)
    moreover have "from_mint ?w g" unfolding from_mint_def using same_terms_refl by force
    ultimately show ?thesis using True by simp
  next
    case False
    then show ?thesis using that D(3) mono(1) by (simp add: put_grant_def)
  qed
  moreover have "uses_of gid ?w + (if active_now gid ?w then 1 else 0) \<le> mints_of gid ?w" for gid
    using D(8) [of gid] by (auto simp: uses_of_def mints_of_def active_now_def put_grant_def split: if_splits)
  ultimately show ?thesis
  proof (intro kc_invI)
    show "creds_ok hash (kc_creds (kw_store ?w))" using D(1) by (simp add: put_grant_def)
    show "minted_ok hash x" if "minted_ok hash (g, gi_ownerId i)" "x \<in> set (kw_minted ?w)" for x
      using that D(4) [of x] by (cases "x = (g, gi_ownerId i)") simp_all
    show "lent_ok hash ?w x" if "x \<in> kw_loaded ?w" for x using that D(6) mono(2) by simp
    show "lent_ok hash ?w x" if "x \<in> set (kw_released ?w)" for x using that D(7) mono(2) by simp
    show "from_mint ?w h \<and> kg_audienceScopeId h = sc" if "(h, sc, user) \<in> kw_checked ?w" for h sc user
      using that D(5) mono(1) by simp
  qed (use D(2) in simp_all)
qed

lemma kc_inv_release:
  assumes inv: "kc_inv hash w" and r: "(g, sc, user, c, m) \<in> kw_loaded w" "claimOnceGrant t g sc user (kw_store w) = Inr st"
  shows "kc_inv hash (w\<lparr>kw_store := st, kw_released := (g, sc, user, c, m) # kw_released w\<rparr>)" (is "kc_inv hash ?w")
proof -
  note D = kc_inv_D [OF inv] and f = claimOnce_frame [OF r(2)]
  have same: "from_mint ?w = from_mint w" "lent_ok hash ?w = lent_ok hash w" "mints_of gid ?w = mints_of gid w" for gid
    by (simp_all add: fun_eq_iff from_mint_def lent_ok_def mints_of_def)
  have "kg_id h = gid \<and> from_mint w h" if h: "mm_get (kc_grants st) gid = Some h" for gid h
  proof -
    obtain g0 where "mm_get (kc_grants (kw_store w)) gid = Some g0" "same_terms g0 h"
      using f(2) h unfolding grants_kept_def by blast
    then show ?thesis using D(3) from_mint_same same_terms_def by metis
  qed
  moreover have "uses_of gid ?w + (if active_now gid ?w then 1 else 0) \<le> mints_of gid w" for gid
  proof -
    have "active_now gid ?w \<longrightarrow> active_now gid w" using f(2) by (auto simp: active_now_def grants_kept_def)
    moreover have "active_now gid w \<and> \<not> active_now gid ?w" if "kg_mode g = Once" "kg_id g = gid"
      using f(3) that by (auto simp: active_now_def)
    ultimately show ?thesis using D(8) [of gid] by (auto simp: uses_of_def split: if_splits)
  qed
  ultimately show ?thesis
    using D(1,2,4-7) D(6) [OF r(1)] f(1) by (intro kc_invI) (simp_all add: same, auto)
qed

lemma kc_inv_step: "kc_step hash w w' \<Longrightarrow> kc_inv hash w \<Longrightarrow> kc_inv hash w'"
proof (induction rule: kc_step.induct)
  case (step_op w st)
  then show ?case using kc_op_kept kc_inv_store kc_inv_D(1) by metis
next
  case (step_mint env c w t i g)
  then show ?case by (metis kc_inv_mint)
next
  case (step_check w gid g t sc user)
  then have "from_mint w g \<and> kg_audienceScopeId g = sc"
    using kc_inv_D(3) by (auto simp: grant_usable_def split: if_splits)
  then show ?case using step_check.prems
    by (auto simp: kc_inv_def from_mint_def lent_ok_def mints_of_def uses_of_def active_now_def split: prod.splits)
next
  case (step_load env g sc user w c iv iv' t m st)
  let ?w = "with_store st w"
  note D = kc_inv_D [OF step_load.prems]
  have inv: "kc_inv hash ?w"
    using materialize_cred_frame(1,2) [OF step_load.hyps(5)] step_load.hyps(1) D(1)
    by (intro kc_inv_store [OF step_load.prems]) simp_all
  have "lent_ok hash ?w (g, sc, user, c, m)"
    using D(2) [OF step_load.hyps(3)] D(5) [OF step_load.hyps(2)] step_load.hyps(4) materialize_cred_frame(3) [OF step_load.hyps(5) refl]
    by (simp add: lent_ok_def from_mint_def with_store_def)
  then show ?case using inv
    by (auto simp: kc_inv_def from_mint_def lent_ok_def mints_of_def uses_of_def active_now_def with_store_def split: prod.splits)
next
  case (step_release g sc user c m w t st)
  then show ?case by (metis kc_inv_release)
qed

definition withdrawn :: "string \<Rightarrow> kc_world \<Rightarrow> bool" where
  "withdrawn gid w \<longleftrightarrow> \<not> active_now gid w"

definition kc_evolves :: "kc_world \<Rightarrow> kc_world \<Rightarrow> bool" where
  "kc_evolves w w' \<longleftrightarrow>
     (\<forall>gid. mints_of gid w \<le> mints_of gid w' \<and> (mints_of gid w' = mints_of gid w \<longrightarrow> withdrawn gid w \<longrightarrow> withdrawn gid w'))"

lemma kc_evolves_store:
  "grants_kept (kc_grants (kw_store w)) (kc_grants st) \<Longrightarrow> kw_store w' = st \<Longrightarrow> kw_minted w' = kw_minted w \<Longrightarrow> kc_evolves w w'"
  by (auto simp: kc_evolves_def mints_of_def withdrawn_def active_now_def grants_kept_def)

lemma kc_evolves_step: "kc_step hash w w' \<Longrightarrow> kc_inv hash w \<Longrightarrow> kc_evolves w w'"
proof (induction rule: kc_step.induct)
  case (step_op w st)
  then have "grants_kept (kc_grants (kw_store w)) (kc_grants st)" using kc_op_kept kc_inv_D(1) by metis
  then show ?case by (rule kc_evolves_store) (simp_all add: with_store_def)
next
  case (step_mint env c w t i g)
  show ?case by (auto simp: kc_evolves_def mints_of_def withdrawn_def active_now_def put_grant_def)
next
  case (step_check w gid g t sc user)
  show ?case by (rule kc_evolves_store [where st = "kw_store w"]) simp_all
next
  case (step_load env g sc user w c iv iv' t m st)
  then have "grants_kept (kc_grants (kw_store w)) (kc_grants st)" using materialize_cred_frame(1) by (metis grants_kept_refl)
  then show ?case by (rule kc_evolves_store) (simp_all add: with_store_def)
next
  case (step_release g sc user c m w t st)
  then have "grants_kept (kc_grants (kw_store w)) (kc_grants st)" using claimOnce_frame(2) by metis
  then show ?case by (rule kc_evolves_store) simp_all
qed

interpretation kc_machine: evolving_machine "\<lambda>w. w = kc_start" "kc_step hash" "kc_inv hash" kc_evolves
proof
  show "kc_inv hash w" if "w = kc_start" for w using that kc_inv_start by simp
  show "kc_inv hash w'" if "kc_step hash w w'" "kc_inv hash w" for w w' using that by (rule kc_inv_step)
  show "kc_evolves w w" for w by (simp add: kc_evolves_def)
  show "kc_evolves w u" if "kc_evolves w v" "kc_evolves v u" for w v u
    using that unfolding kc_evolves_def by (metis le_antisym le_trans)
  show "kc_evolves w w'" if "kc_step hash w w'" "kc_inv hash w" for w w' using that by (rule kc_evolves_step)
qed

section \<open>What a grant promises\<close>

text \<open>The ids of credentials are hashes; two owners never share one.\<close>

definition no_shared_ids :: "(string list \<Rightarrow> string) \<Rightarrow> bool" where
  "no_shared_ids hash \<longleftrightarrow> (\<forall>ow s l ow' s' l'. hash [ow, s, l] = hash [ow', s', l'] \<longrightarrow> ow = ow')"


text \<open>A toy hash and cipher, and a credential that is saved, lent once and used.\<close>

definition toy_hash :: "string list \<Rightarrow> string" where
  "toy_hash parts = concat (map (\<lambda>c. [CHR ''c'', c]) (hd parts)) @ ''|'' @ concat (tl parts)"

lemma toy_hash_owner: "no_shared_ids toy_hash"
proof -
  have "concat (map (\<lambda>c. [CHR ''c'', c]) a) @ CHR ''|'' # x = concat (map (\<lambda>c. [CHR ''c'', c]) b) @ CHR ''|'' # y \<Longrightarrow> a = b"
    for a b x y :: string
  proof (induction a arbitrary: b)
    case Nil
    then show ?case by (cases b) auto
  next
    case (Cons c a)
    then show ?case by (cases b) auto
  qed
  note inj = this
  show ?thesis unfolding no_shared_ids_def
  proof (intro allI impI)
    fix ow s l ow' s' l' :: string
    assume "toy_hash [ow, s, l] = toy_hash [ow', s', l']"
    then show "ow = ow'" by (intro inj [of ow "s @ l" ow' "s' @ l'"]) (simp add: toy_hash_def)
  qed
qed

fun toy_bits :: "string \<Rightarrow> string" where
  "toy_bits [] = []"
| "toy_bits (Char b0 b1 b2 b3 b4 b5 b6 b7 # s) =
     map (\<lambda>b. if b then CHR ''1'' else CHR ''0'') [b0, b1, b2, b3, b4, b5, b6, b7] @ toy_bits s"

fun toy_chars :: "string \<Rightarrow> string" where
  "toy_chars (b0 # b1 # b2 # b3 # b4 # b5 # b6 # b7 # s) =
     Char (b0 = CHR ''1'') (b1 = CHR ''1'') (b2 = CHR ''1'') (b3 = CHR ''1'') (b4 = CHR ''1'') (b5 = CHR ''1'') (b6 = CHR ''1'')
       (b7 = CHR ''1'') # toy_chars s"
| "toy_chars _ = []"

definition toy_box :: box_lib where
  "toy_box = \<lparr> bl_encrypt = (\<lambda>k iv p. (p, CHR ''t'' # k)), bl_decrypt = (\<lambda>k iv tag ct. if tag = CHR ''t'' # k then Some ct else None),
     bl_base64 = toy_bits, bl_unbase64 = toy_chars \<rparr>"

definition demo_key :: secret_key where
  "demo_key = \<lparr> sk_current = ''key'', sk_legacy = ''old'', sk_fallbacks = [] \<rparr>"

definition demo_env :: kc_env where
  "demo_env = \<lparr> ke_box = toy_box, ke_key = demo_key,
     ke_hash = toy_hash, ke_base64 = id, ke_org = ''acme'', ke_refresh = None, ke_oauthSkewMs = None,
     ke_oauthRefreshMarginMs = None \<rparr>"

definition demo_save :: save_input where
  "demo_save = \<lparr> si_ownerId = ''ann'', si_service = ''GitHub'', si_secret = Some ''s3cret'', si_envKey = None,
     si_fields = None, si_target = None, si_files = None, si_host = None, si_accountLabel = None, si_origin = None,
     si_expiresAt = None \<rparr>"

definition demo_grant :: grant_input where
  "demo_grant = \<lparr> gi_credentialId = ''x'', gi_ownerId = ''ann'', gi_audienceScopeId = ''channel:c1'', gi_mode = Once,
     gi_purpose = ''ok, once'', gi_expiresAt = None, gi_askId = None \<rparr>"

definition demo_cred :: keychain_credential where
  "demo_cred = \<lparr> cd_id = ''cacncn|githubenv:GITHUB_TOKEN'', cd_ownerId = ''ann'', cd_orgId = Some ''acme'', cd_service = ''github'',
     cd_kind = KEnv, cd_envKey = Some ''GITHUB_TOKEN'', cd_target = None, cd_targets = None, cd_host = None,
     cd_accountLabel = None, cd_fields = None, cd_broker = None, cd_refresh = None, cd_managed = False, cd_username = None,
     cd_secretEnc = encryptSecret toy_box demo_key ''iv'' ''s3cret'', cd_fingerprint = ''csc3cccrcect|'', cd_origin = None, cd_expiresAt = None,
     cd_createdAt = 1, cd_updatedAt = 1 \<rparr>"

definition demo_minted :: keychain_grant where
  "demo_minted = \<lparr> kg_id = toy_hash [cd_id demo_cred, ''channel:c1'', ''2'', ''ok, once''], kg_credentialId = cd_id demo_cred,
     kg_ownerId = ''ann'', kg_orgId = Some ''acme'', kg_audienceScopeId = ''channel:c1'', kg_mode = Once,
     kg_purpose = ''ok, once'', kg_status = GActive, kg_createdAt = 2, kg_expiresAt = None, kg_revokedAt = None,
     kg_usedAt = None, kg_usedBy = None, kg_askId = None \<rparr>"

definition demo_saved :: keychain where
  "demo_saved = kc_empty\<lparr>kc_creds := mm_put (cd_id demo_cred) demo_cred mm_empty\<rparr>"

lemma demo_facts:
  "saveCredential demo_env ''iv'' 1 demo_save kc_empty = Inr (demo_cred, demo_saved)"
  "mint_from demo_env 2 demo_grant demo_cred = Inr demo_minted"
  "mm_get (kc_creds demo_saved) (cd_id demo_cred) = Some demo_cred"
  "cd_id demo_cred = kg_credentialId demo_minted" "grant_usable 3 ''channel:c1'' demo_minted = None"
  "mm_get (kc_grants (put_grant demo_minted demo_saved)) (kg_id demo_minted) = Some demo_minted"
  "materialize_cred demo_env ''i'' ''j'' 3 demo_cred (Some (kg_id demo_minted, kg_purpose demo_minted)) (put_grant demo_minted demo_saved) =
     (Inr (MatEnv (cd_id demo_cred) ''ann'' ''github'' [(''GITHUB_TOKEN'', ''s3cret'')] (Some (kg_id demo_minted, ''ok, once''))),
      put_grant demo_minted demo_saved)"
  "\<not> isl (claimOnceGrant 4 demo_minted ''channel:c1'' ''bob'' (put_grant demo_minted demo_saved))"
  by code_simp+

lemma demo_reach:
  "\<exists>w. (kc_step toy_hash)\<^sup>*\<^sup>* kc_start w \<and>
     kw_released w = [(demo_minted, ''channel:c1'', ''bob'', demo_cred,
       MatEnv (cd_id demo_cred) ''ann'' ''github'' [(''GITHUB_TOKEN'', ''s3cret'')] (Some (kg_id demo_minted, ''ok, once'')))] \<and>
     kw_minted w = [(demo_minted, ''ann'')]"
proof -
  let ?m = "MatEnv (cd_id demo_cred) ''ann'' ''github'' [(''GITHUB_TOKEN'', ''s3cret'')] (Some (kg_id demo_minted, ''ok, once''))"
  have h: "ke_hash demo_env = toy_hash" by (simp add: demo_env_def)
  obtain st where st: "claimOnceGrant 4 demo_minted ''channel:c1'' ''bob'' (put_grant demo_minted demo_saved) = Inr st"
    using demo_facts(8) by (cases "claimOnceGrant 4 demo_minted ''channel:c1'' ''bob'' (put_grant demo_minted demo_saved)") auto
  define w1 where "w1 = with_store demo_saved kc_start"
  define w2 where "w2 = w1\<lparr>kw_store := put_grant demo_minted (kw_store w1), kw_minted := (demo_minted, gi_ownerId demo_grant) # kw_minted w1\<rparr>"
  define w3 where "w3 = w2\<lparr>kw_checked := insert (demo_minted, ''channel:c1'', ''bob'') (kw_checked w2)\<rparr>"
  define w4 where "w4 = (with_store (put_grant demo_minted demo_saved) w3)\<lparr>kw_loaded := insert (demo_minted, ''channel:c1'', ''bob'', demo_cred, ?m) (kw_loaded w3)\<rparr>"
  define w5 where "w5 = w4\<lparr>kw_store := st, kw_released := (demo_minted, ''channel:c1'', ''bob'', demo_cred, ?m) # kw_released w4\<rparr>"
  note ws = w1_def w2_def w3_def w4_def w5_def with_store_def kc_start_def
  have 1: "kc_step toy_hash kc_start w1"
    unfolding w1_def using op_save [OF h demo_facts(1)] by (intro step_op) (simp add: kc_start_def)
  have seen: "demo_cred \<in> kw_seen w1" "demo_cred \<in> kw_seen w3" using demo_facts(3) by (auto simp: ws)
  have 2: "kc_step toy_hash w1 w2" unfolding w2_def by (rule step_mint [OF h seen(1) demo_facts(2)])
  have 3: "kc_step toy_hash w2 w3"
    unfolding w3_def by (rule step_check [OF _ demo_facts(5)]) (use demo_facts(6) in \<open>simp add: ws\<close>)
  have 4: "kc_step toy_hash w3 w4"
    unfolding w4_def by (rule step_load [OF h _ seen(2) demo_facts(4)]) (use demo_facts(7) in \<open>simp_all add: ws\<close>)
  have 5: "kc_step toy_hash w4 w5" unfolding w5_def by (rule step_release) (use st in \<open>simp_all add: ws\<close>)
  have "(kc_step toy_hash)\<^sup>*\<^sup>* kc_start w5" using 1 2 3 4 5 by (meson rtranclp.rtrancl_into_rtrancl rtranclp.rtrancl_refl)
  moreover have "gi_ownerId demo_grant = ''ann''" by (simp add: demo_grant_def)
  ultimately show ?thesis by (intro exI [of _ w5]) (simp add: ws)
qed


section \<open>What is taken back stays taken back\<close>

lemma mm_get_in_all: "mm_get m k = Some v \<Longrightarrow> v \<in> set (mm_all m)"
  by (force simp: mm_get_def mm_all_def mm_entries_def dest: map_of_SomeD)

lemma fold_revokes:
  assumes "g \<in> set gs" "kg_credentialId g = cid" "kg_status g = GActive"
    and "mm_get (fold (\<lambda>g m. if kg_credentialId g = cid \<and> kg_status g = GActive then revoke_row t (kg_id g) m else m) gs m) (kg_id g) = Some h"
  shows "kg_status h \<noteq> GActive"
  using assms
proof (induction gs arbitrary: m)
  case (Cons x gs)
  let ?f = "\<lambda>g m. if kg_credentialId g = cid \<and> kg_status g = GActive then revoke_row t (kg_id g) m else m"
  have kept: "grants_kept m' (fold ?f gs m')" for m'
    by (rule grants_kept_fold) (simp add: grants_kept_revoke_row)
  show ?case
  proof (cases "g \<in> set gs")
    case True
    then show ?thesis using Cons by simp
  next
    case False
    then have "x = g" using Cons.prems(1) by simp
    then have "mm_get (fold ?f gs (revoke_row t (kg_id g) m)) (kg_id g) = Some h" using Cons.prems by simp
    then obtain g0 where "mm_get (revoke_row t (kg_id g) m) (kg_id g) = Some g0" "kg_status h = GActive \<longrightarrow> kg_status g0 = GActive"
      using kept [of "revoke_row t (kg_id g) m"] unfolding grants_kept_def by blast
    then show ?thesis by (auto simp: revoke_row_def revoked_grant_def)
  qed
qed simp

lemma deleteCredential_withdraws:
  assumes inv: "kc_inv hash w" and g: "mm_get (kc_grants (kw_store w)) gid = Some g" "kg_credentialId g = cid"
    and h: "mm_get (kc_grants (deleteCredential t cid (kw_store w))) gid = Some h"
  shows "kg_status h \<noteq> GActive"
proof (cases "kg_status g = GActive")
  case True
  have i: "kg_id g = gid" using kc_inv_D(3) [OF inv g(1)] by simp
  show ?thesis
    by (rule fold_revokes [OF mm_get_in_all [OF g(1)] g(2) True]) (use h i in \<open>simp add: deleteCredential_def\<close>)
next
  case False
  obtain g0 where "mm_get (kc_grants (kw_store w)) gid = Some g0" "kg_status h = GActive \<longrightarrow> kg_status g0 = GActive"
    using deleteCredential_frame(1) h unfolding grants_kept_def by blast
  then show ?thesis using False g(1) by auto
qed

text \<open>The two ways in which an owner takes a grant back.\<close>

definition takes_back :: "time \<Rightarrow> string \<Rightarrow> string \<Rightarrow> keychain \<Rightarrow> keychain \<Rightarrow> bool" where
  "takes_back t ownerId gid st st' \<longleftrightarrow>
     revokeGrant t ownerId gid st = (True, st') \<or>
     (\<exists>g. mm_get (kc_grants st) gid = Some g \<and> kc_remove t ownerId (kg_credentialId g) st = (True, st'))"

lemma withdrawn_fails:
  assumes "withdrawn gid w"
  shows "isl (fst (materialize env iv iv' t gid sc user (kw_store w)))"
    "kg_id g = gid \<Longrightarrow> kg_mode g = Once \<Longrightarrow> isl (claimOnceGrant t g sc user (kw_store w))"
  using assms grant_status.exhaust
  by (auto simp: withdrawn_def active_now_def materialize_def claimOnceGrant_def grant_usable_def split: option.splits)


definition demo_lent :: kc_world where
  "demo_lent = (with_store demo_saved kc_start)\<lparr>kw_store := put_grant demo_minted demo_saved, kw_minted := [(demo_minted, ''ann'')]\<rparr>"

definition demo_removed :: keychain where
  "demo_removed = snd (kc_remove 5 ''ann'' (kg_credentialId demo_minted) (put_grant demo_minted demo_saved))"

definition demo_saved_again :: keychain where
  "demo_saved_again = snd (projr (saveCredential demo_env ''iv'' 6 demo_save demo_removed))"

lemma demo_lent_reachable: "(kc_step toy_hash)\<^sup>*\<^sup>* kc_start demo_lent"
proof -
  have h: "ke_hash demo_env = toy_hash" by (simp add: demo_env_def)
  let ?w = "with_store demo_saved kc_start"
  have "kc_step toy_hash kc_start ?w"
    using op_save [OF h demo_facts(1)] by (intro step_op) (simp add: kc_start_def)
  moreover have "demo_cred \<in> kw_seen ?w" using demo_facts(3) by (auto simp: with_store_def)
  then have "kc_step toy_hash ?w demo_lent"
    using step_mint [OF h _ demo_facts(2), of ?w] by (simp add: demo_lent_def with_store_def kc_start_def demo_grant_def)
  ultimately show ?thesis by (meson rtranclp.rtrancl_into_rtrancl rtranclp.rtrancl_refl)
qed


section \<open>What is saved comes back\<close>

text \<open>What the cipher and base64 promise.\<close>

definition box_law :: "box_lib \<Rightarrow> bool" where
  "box_law lib \<longleftrightarrow>
     (\<forall>k iv p. case bl_encrypt lib k iv p of (ct, tag) \<Rightarrow>
        bl_decrypt lib k iv tag ct = Some p \<and> tag \<noteq> [] \<and> (\<forall>k'. k' \<noteq> k \<longrightarrow> bl_decrypt lib k' iv tag ct = None)) \<and>
     (\<forall>s. bl_unbase64 lib (bl_base64 lib s) = s \<and> CHR '':'' \<notin> set (bl_base64 lib s) \<and> (bl_base64 lib s = [] \<longleftrightarrow> s = []))"

lemma js_split_colon: "CHR '':'' \<notin> set a \<Longrightarrow> js_split CHR '':'' (a @ CHR '':'' # b) = a # js_split CHR '':'' b"
  by (induction a) auto

lemma js_split_whole: "CHR '':'' \<notin> set s \<Longrightarrow> js_split CHR '':'' s = [s]"
  by (induction s) auto

text \<open>A secret written under a key is read under every key that has it as its own or as a fallback.\<close>

lemma decrypt_encrypt:
  assumes "box_law lib" "iv \<noteq> []"
    and "sk_current key = sk_current key' \<or> sk_current key \<in> fst ` set (sk_fallbacks key')"
  shows "decryptSecret lib key' (encryptSecret lib key iv plain) = Some plain"
proof -
  obtain ct tag where e: "bl_encrypt lib (sk_current key) iv plain = (ct, tag)" by force
  have "case bl_encrypt lib (sk_current key) iv plain of (ct, tag) \<Rightarrow> bl_decrypt lib (sk_current key) iv tag ct = Some plain \<and>
      tag \<noteq> [] \<and> (\<forall>k'. k' \<noteq> sk_current key \<longrightarrow> bl_decrypt lib k' iv tag ct = None)"
    using conjunct1 [OF assms(1) [unfolded box_law_def]] by (elim allE)
  then have d: "bl_decrypt lib (sk_current key) iv tag ct = Some plain" "tag \<noteq> []"
      "\<And>k'. k' \<noteq> sk_current key \<Longrightarrow> bl_decrypt lib k' iv tag ct = None"
    by (simp_all add: e)
  have b: "bl_unbase64 lib (bl_base64 lib s) = s" "CHR '':'' \<notin> set (bl_base64 lib s)" "(bl_base64 lib s = []) = (s = [])" for s
    using assms(1) unfolding box_law_def by blast+
  have f: "first_opened (\<lambda>(current, legacy). bl_decrypt lib current iv tag ct) ks = Some plain" if "sk_current key \<in> fst ` set ks" for ks
    using that
  proof (induction ks)
    case (Cons k ks)
    then show ?case using d by (cases "fst k = sk_current key") (auto split: prod.splits)
  qed simp
  have p: "js_split CHR '':'' (encryptSecret lib key iv plain) = [''v2'', bl_base64 lib iv, bl_base64 lib tag, bl_base64 lib ct]"
  proof -
    have "js_split CHR '':'' (''v2'' @ CHR '':'' # (bl_base64 lib iv @ CHR '':'' # (bl_base64 lib tag @ CHR '':'' # bl_base64 lib ct))) =
        [''v2'', bl_base64 lib iv, bl_base64 lib tag, bl_base64 lib ct]"
      using js_split_colon [of "''v2''"] js_split_colon [OF b(2)] js_split_whole [OF b(2)] by simp
    then show ?thesis by (simp add: encryptSecret_def e)
  qed
  have k: "sk_current key \<in> fst ` set ((sk_current key', sk_legacy key') # sk_fallbacks key')" using assms(3) by auto
  show ?thesis
    using assms(2) d(2) f [OF k] b(3) unfolding decryptSecret_def p Let_def by (simp add: b(1) cong: option.case_cong)
qed

lemma json_files_json: "json_files (map file_json fs) = Some fs"
  by (induction fs) (simp_all add: file_json_def json_get_str_def)

lemma json_proper_files: "json_proper (JArr (map file_json fs))"
  by (auto simp: file_json_def)

lemma fold_set_fresh:
  "distinct (map fst xs @ map fst m) \<Longrightarrow> fold (\<lambda>(k, v, _). jmap_set k (JStr v)) xs m = m @ map (\<lambda>(k, v, _). (k, JStr v)) xs"
  by (induction xs arbitrary: m) (auto simp: jmap_set_fresh)

lemma fields_distinct:
  assumes "fields_error xs = None"
  shows "distinct (map fst xs)"
proof -
  have "length (jset_of (map fst xs)) = length (map fst xs)" using assms by (auto simp: fields_error_def split: if_splits)
  then have "card (set (map fst xs)) = length (map fst xs)"
    by (metis distinct_card distinct_jset_of set_jset_of)
  then show ?thesis by (rule card_distinct)
qed

lemma map_of_fields:
  assumes "distinct (map fst xs)" "(k, v, b) \<in> set xs"
  shows "map_of (map (\<lambda>(k, v, _). (k, JStr v)) xs) k = Some (JStr v)"
proof (rule map_of_is_SomeI)
  show "distinct (map fst (map (\<lambda>(k, v, _). (k, JStr v)) xs))" using assms(1) by (simp add: comp_def split_def)
  show "(k, JStr v) \<in> set (map (\<lambda>(k, v, _). (k, JStr v)) xs)" using assms(2) by force
qed

text \<open>The secret of a saved credential, as whoever may use it receives it.\<close>

definition saved_material :: "kc_env \<Rightarrow> save_input \<Rightarrow> keychain_credential \<Rightarrow> (string \<times> string) option \<Rightarrow> materialized" where
  "saved_material env i c extra =
     (case input_files env i of
        Inr (Some fs) \<Rightarrow> MatFiles (cd_id c) (cd_ownerId c) (cd_service c) fs (if_truthy (si_origin i)) extra
      | _ \<Rightarrow>
          MatEnv (cd_id c) (cd_ownerId c) (cd_service c)
            (case input_fields i of
               Some xs \<Rightarrow> map (\<lambda>(k, v, _). (k, v)) xs
             | None \<Rightarrow> [(the (cd_envKey c), the (si_secret i))]) extra)"

lemma materialize_saved:
  assumes save: "saveCredential env iv t i st = Inr (c, st')" and law: "box_law (ke_box env)" "iv \<noteq> []"
    and key: "sk_current (ke_key env) = sk_current (ke_key env') \<or> sk_current (ke_key env) \<in> fst ` set (sk_fallbacks (ke_key env'))"
      "ke_box env' = ke_box env"
  shows "materializeDecrypted env' c extra = Inr (saved_material env i c extra)"
  using save
proof (cases rule: saveCredential_Inr)
  case (1 files flds k secret)
  have c: "cd_targets c = map_option (map fl_path) files" "cd_fields c = map_option (map (\<lambda>(k, _, s). (k, s))) flds"
      "cd_envKey c = if_truthy k" "cd_origin c = if_truthy (si_origin i)" "cd_username c = None"
      "cd_kind c = (if files = None then KEnv else KFile)"
    unfolding 1(8) by simp_all
  have d: "decryptSecret (ke_box env') (ke_key env') (cd_secretEnc c) = Some secret"
    unfolding 1(8) saved_credential_sel using decrypt_encrypt [OF law key(1)] key(2) by simp
  show ?thesis
  proof (cases files)
    case (Some fs)
    have s: "secret = files_json fs" using 1(4) Some by (simp add: saved_secret_def)
    have "json_parse secret = Some (JArr (map file_json fs))"
      using json_proper_files unfolding s files_json_def by (rule json_parse_stringify)
    then have "decryptToFiles env' c extra = Some (MatFiles (cd_id c) (cd_ownerId c) (cd_service c) fs (if_truthy (si_origin i)) extra)"
      by (simp add: decryptToFiles_def d c Some json_files_json if_truthy_idem)
    then show ?thesis using 1(1) Some by (simp add: materializeDecrypted_def saved_material_def c)
  next
    case None
    show ?thesis
    proof (cases "input_fields i")
      case (Some xs)
      have xs: "flds = Some xs" "distinct (map fst xs)" using 1(2,3) None Some fields_distinct by simp_all
      have s: "secret = json_stringify (JObj (map (\<lambda>(k, v, _). (k, JStr v)) xs))"
        using 1(4) None xs fold_set_fresh [of xs "[]"] by (simp add: saved_secret_def)
      have "json_proper (JObj (map (\<lambda>(k, v, _). (k, JStr v)) xs))"
        using xs(2) by (auto simp: comp_def split_def)
      then have p: "json_parse secret = Some (JObj (map (\<lambda>(k, v, _). (k, JStr v)) xs))"
        unfolding s by (rule json_parse_stringify)
      have "map (\<lambda>(k, _). (k, case json_get_str k (JObj (map (\<lambda>(k, v, _). (k, JStr v)) xs)) of Some v \<Rightarrow> v | None \<Rightarrow> []))
          (map (\<lambda>(k, _, s). (k, s)) xs) = map (\<lambda>(k, v, _). (k, v)) xs"
        using map_of_fields [OF xs(2)] by (auto simp: json_get_str_def)
      then show ?thesis using 1(1) None Some xs p
        by (simp add: materializeDecrypted_def decryptToEnv_def d saved_material_def c)
    next
      case N: None
      then have n: "flds = None" "si_secret i = Some secret" using 1(2,4) None by (simp_all add: saved_secret_def)
      obtain v where "k = Some v" "v \<noteq> []" using 1(6) n(1) None by (auto simp: Let_def truthy_def defaultEnvKey_def split: if_splits)
      then show ?thesis using 1(1) None N n
        by (simp add: materializeDecrypted_def decryptToEnv_def d saved_material_def c if_truthy_def truthy_def)
    qed
  qed
qed

text \<open>
  C40. What is saved comes back. A credential that was saved and is still there is handed to its owner in
  their own conversation exactly as it went in: the value under its variable, the fields in their order, or the
  files under their home-relative paths; also after the key was rotated, as long as the old key is kept as a
  fallback. Anywhere else, and for anyone else, the id alone opens nothing.
\<close>

theorem saved_credential_comes_back:
  assumes save: "saveCredential env iv t i st = Inr (c, st')" and law: "box_law (ke_box env)" "iv \<noteq> []"
    and key: "sk_current (ke_key env) = sk_current (ke_key env') \<or> sk_current (ke_key env) \<in> fst ` set (sk_fallbacks (ke_key env'))"
      "ke_box env' = ke_box env"
    and there: "mm_get (kc_creds later) (cd_id c) = Some c" and fresh: "\<not> credExpired c now"
  shows "materializeOwnById env' iv1 iv2 now user (cd_id c) sc later =
    (if sc \<noteq> scopeId Personal user then (Inl NotPersonal, later)
     else if \<not> samePerson (Some (si_ownerId i)) (Some user) then (Inl UnknownCredential, later)
     else (Inr (saved_material env i c None), later))"
proof -
  note f = saveCredential_frame(4-6) [OF save]
  have "materialize_cred env' iv1 iv2 now c None later = (Inr (saved_material env i c None), later)"
    using f fresh materialize_saved [OF save law key] by (simp add: materialize_cred_def)
  then show ?thesis using there f(1) by (simp add: materializeOwnById_def)
qed

lemma toy_box_law: "box_law toy_box"
proof -
  have "toy_chars (toy_bits s) = s \<and> CHR '':'' \<notin> set (toy_bits s) \<and> (toy_bits s = [] \<longleftrightarrow> s = [])" for s
    by (induction s rule: toy_bits.induct) auto
  then show ?thesis by (auto simp: box_law_def toy_box_def)
qed

text \<open>The key is rotated after the credential was saved.\<close>

definition rotated_env :: kc_env where
  "rotated_env = demo_env\<lparr>ke_key := \<lparr> sk_current = ''new'', sk_legacy = ''new'', sk_fallbacks = [(''key'', ''old'')] \<rparr>\<rparr>"

theorem saved_credential_comes_back_witness:
  "fst (materializeOwnById rotated_env ''i'' ''j'' 9 ''ann'' (cd_id demo_cred) ''personal:ann'' demo_saved) =
     Inr (MatEnv (cd_id demo_cred) ''ann'' ''github'' [(''GITHUB_TOKEN'', ''s3cret'')] None) \<and>
   fst (materializeOwnById rotated_env ''i'' ''j'' 9 ''bob'' (cd_id demo_cred) ''personal:bob'' demo_saved) = Inl UnknownCredential"
proof -
  have k: "sk_current (ke_key demo_env) = sk_current (ke_key rotated_env) \<or>
      sk_current (ke_key demo_env) \<in> fst ` set (sk_fallbacks (ke_key rotated_env))" "ke_box rotated_env = ke_box demo_env"
      "box_law (ke_box demo_env)"
    by (simp_all add: rotated_env_def demo_env_def demo_key_def toy_box_law)
  have s: "saved_material demo_env demo_save demo_cred None =
      MatEnv (cd_id demo_cred) ''ann'' ''github'' [(''GITHUB_TOKEN'', ''s3cret'')] None" "\<not> credExpired demo_cred 9"
    "scopeId Personal ''ann'' = ''personal:ann''" "scopeId Personal ''bob'' = ''personal:bob''"
    "samePerson (Some (si_ownerId demo_save)) (Some ''ann'')" "\<not> samePerson (Some (si_ownerId demo_save)) (Some ''bob'')"
    by code_simp+
  have "(''iv'' :: string) \<noteq> []" by simp
  from saved_credential_comes_back [OF demo_facts(1) k(3) this k(1,2) demo_facts(3) s(2)] s
  show ?thesis by simp
qed

section \<open>Findings\<close>

text \<open>
  A refresh that is under way when the owner disconnects the app stores the new token afterwards: the
  credential is back.
\<close>

lemma refresh_restores_disconnected:
  assumes "ke_refresh env = Some refresh" "recToOAuthToken env c = Some stored"
    and "refresh host stored (ot_accountType stored) (ot_clientRef stored) = Inr fresh" "ot_accessToken fresh \<noteq> []"
  shows "mm_get (kc_creds (snd (refreshAndStore env iv iv' t host principalId acct c
      (deleteCredential t0 (oauthId env host principalId acct) st)))) (oauthId env host principalId acct) \<noteq> None"
  using assms by (simp add: refreshAndStore_def putConnectorToken_def Let_def)

text \<open>
  The standing grant that is found for an app may have expired; it is returned as if it lent the app, but
  nothing can be used under it.
\<close>

lemma expired_grant_answers_for_app:
  assumes "mm_get (kc_creds st) (oauthId env host p acct) = Some c"
    and "find (\<lambda>g. kg_credentialId g = oauthId env host p acct \<and> kg_audienceScopeId g = sc \<and> kg_mode g = Standing \<and> kg_status g = GActive)
      (mm_all (kc_grants st)) = Some g" "expired (kg_expiresAt g) t"
  shows "grantConnectorToScope env t host p acct sc purpose st = Inr (Some g, st)" "grant_usable t sc g = Some GrantIsExpired"
  using assms by (auto simp: grantConnectorToScope_def Let_def grant_usable_def dest!: find_SomeD)

text \<open>
  Two approvals of one ask that overlap both find it pending and both mint a grant, so one ask yields two
  one-time grants.
\<close>

definition demo_ask :: keychain_ask where
  "demo_ask = new_ask demo_env 2 ''a1'' \<lparr> ai_credentialId = cd_id demo_cred, ai_requesterId = ''bob'', ai_requesterScopeId = ''channel:c1'',
     ai_requesterDestination = None, ai_requesterThreadRef = None, ai_purpose = ''deploy'', ai_requestedMode = None, ai_expiresAt = None \<rparr>
     demo_cred"

definition demo_approve :: approve_input where
  "demo_approve = \<lparr> ap_askId = ''a1'', ap_ownerId = ''ann'', ap_mode = Once, ap_purpose = ''yes'', ap_expiresAt = None \<rparr>"

lemma ask_approved_twice:
  "let st = demo_saved\<lparr>kc_asks := mm_put ''a1'' demo_ask mm_empty\<rparr>;
       (a, st1) = projr (approve_check 3 ''a1'' st); (b, st2) = projr (approve_check 3 ''a1'' st1);
       st3 = snd (projr (approve_finish demo_env 3 4 demo_approve a st2)); st4 = snd (projr (approve_finish demo_env 3 5 demo_approve b st3))
   in length (filter (\<lambda>g. kg_status g = GActive \<and> kg_mode g = Once \<and> kg_askId g = Some ''a1'') (mm_all (kc_grants st4))) = 2"
  by code_simp

end
