(* ===== verification/Workers.thy ===== *)
theory Workers
  imports Runs Sessions Turn_Origin
begin

text \<open>
  The workers that take runs from the queue and execute them (\<open>src/runs/worker.ts\<close>), the inline execution
  of a run by the API (\<open>drive\<close> of \<open>src/api/app-helpers.ts\<close>) and the reaper (\<open>src/runs/reaper.ts\<close>), over the
  run store and the session store.

  A worker is a record of its variables with one program counter per loop it has started. Every \<open>await\<close>
  of the code is a boundary between two steps, and the steps of all workers, of the inline executions, of
  the reaper and of everything else that uses the stores interleave. The turn itself is any result or any
  error. A call of a store may throw before it has an effect, as with a lost database connection.
  Sleeping changes nothing and has no step of its own; so a worker that may not claim has none.
\<close>

section \<open>One execution of a run\<close>

definition LEASE_LOST_CONSECUTIVE :: nat where "LEASE_LOST_CONSECUTIVE = 3"
definition CLAIM_FAIL_CRASH_CONSECUTIVE :: nat where "CLAIM_FAIL_CRASH_CONSECUTIVE = 20"

record worker_env =
  we_leaseTtlMs :: int
  we_heartbeatIntervalMs :: "int option"
  we_pollMs :: "int option"
  we_maxClaims :: "int option"
  we_origin :: "json \<Rightarrow> turn_origin option \<times> legacy_origin"

definition beat_interval :: "worker_env \<Rightarrow> int" where
  "beat_interval env =
     (case we_heartbeatIntervalMs env of Some ms \<Rightarrow> ms | None \<Rightarrow> max 1000 (we_leaseTtlMs env div 3))"

definition claim_backoff :: "worker_env \<Rightarrow> nat \<Rightarrow> int" where
  "claim_backoff env claimFailures =
     min ((case we_pollMs env of Some ms \<Rightarrow> ms | None \<Rightarrow> 50) * 2 ^ min claimFailures 5) 5000"

text \<open>What the orchestrator is called with.\<close>

record turn_input =
  ti_request :: json
  ti_origin :: turn_origin
  ti_runId :: string
  ti_attempt :: int
  ti_finalAttempt :: bool
  ti_background :: bool
  ti_queueMs :: "int option"

definition turn_input_of :: "worker_env \<Rightarrow> run \<Rightarrow> bool \<Rightarrow> turn_input" where
  "turn_input_of env r background =
     \<lparr> ti_request = run_request r,
       ti_origin = (case we_origin env (run_request r) of (typed, legacy) \<Rightarrow> resolveTurnOrigin typed legacy),
       ti_runId = run_id r, ti_attempt = run_attempts r, ti_finalAttempt = errorParks r (we_maxClaims env),
       ti_background = background,
       ti_queueMs = (case run_startedAt r of None \<Rightarrow> None | Some t \<Rightarrow> Some (max 0 (t - run_createdAt r))) \<rparr>"

text \<open>
  The variables of \<open>processRun\<close>: the claimed run, its token, and the state of the heartbeat. \<open>ex_answers\<close>
  holds the answers of the beats that were sent and not yet handled; \<open>None\<close> is a beat that failed.
\<close>

record exec =
  ex_run :: run
  ex_token :: string
  ex_background :: bool
  ex_consecutiveLost :: nat
  ex_leaseLost :: bool
  ex_beating :: bool
  ex_cancelled :: bool
  ex_answers :: "bool option list"

definition start_exec :: "run \<Rightarrow> bool \<Rightarrow> exec option" where
  "start_exec r background =
     (case run_leaseToken r of
        None \<Rightarrow> None
      | Some token \<Rightarrow> Some \<lparr> ex_run = r, ex_token = token, ex_background = background, ex_consecutiveLost = 0,
          ex_leaseLost = False, ex_beating = True, ex_cancelled = False, ex_answers = [] \<rparr>)"

fun on_beat :: "bool option \<Rightarrow> exec \<Rightarrow> exec" where
  "on_beat (Some True) e = e\<lparr> ex_consecutiveLost := 0 \<rparr>"
| "on_beat (Some False) e =
     (let e' = e\<lparr> ex_consecutiveLost := ex_consecutiveLost e + 1 \<rparr>
      in if ex_consecutiveLost e' \<ge> LEASE_LOST_CONSECUTIVE \<and> \<not> ex_leaseLost e'
         then e'\<lparr> ex_leaseLost := True, ex_beating := False, ex_cancelled := True \<rparr> else e')"
| "on_beat None e = e\<lparr> ex_consecutiveLost := 0 \<rparr>"

section \<open>A worker\<close>

datatype loop_pc =
    AtTop nat
  | Claimed run
  | Turning exec
  | Returned exec turn_result
  | Threw exec string bool
  | Ended
  | Crashed

record held_run =
  hr_runId :: string
  hr_leaseToken :: string
  hr_threadRef :: string

text \<open>The \<open>await\<close>s of \<open>releaseInFlight\<close>.\<close>

datatype release_pc = RelBeat | RelFind | RelForce string | RelRun

record worker =
  wk_loops :: "loop_pc list"
  wk_started :: bool
  wk_stopped :: bool
  wk_inFlight :: "held_run option"
  wk_releasedLeaseToken :: "string option"
  wk_releasing :: "(held_run \<times> release_pc) option"

definition new_worker :: worker where
  "new_worker = \<lparr> wk_loops = [], wk_started = False, wk_stopped = False, wk_inFlight = None,
     wk_releasedLeaseToken = None, wk_releasing = None \<rparr>"

definition worker_start :: "worker \<Rightarrow> worker" where
  "worker_start k =
     (if wk_started k then k
      else k\<lparr> wk_stopped := False, wk_started := True, wk_loops := wk_loops k @ [AtTop 0] \<rparr>)"

definition worker_stop :: "worker \<Rightarrow> worker" where
  "worker_stop k = k\<lparr> wk_stopped := True \<rparr>"

text \<open>\<open>stop\<close> after the loop has ended or the time to drain is over.\<close>

definition worker_stop_returns :: "worker \<Rightarrow> worker" where
  "worker_stop_returns k = k\<lparr> wk_started := False \<rparr>"

definition busy :: "worker \<Rightarrow> bool" where
  "busy k \<longleftrightarrow> wk_inFlight k \<noteq> None"

definition set_pc :: "nat \<Rightarrow> loop_pc \<Rightarrow> worker \<Rightarrow> worker" where
  "set_pc i pc k = k\<lparr> wk_loops := (wk_loops k)[i := pc] \<rparr>"

text \<open>The head of the loop, with what the claim answered: nothing when it threw.\<close>

definition after_claim :: "nat \<Rightarrow> run option option \<Rightarrow> loop_pc" where
  "after_claim failures answer =
     (case answer of
        None \<Rightarrow> if failures + 1 \<ge> CLAIM_FAIL_CRASH_CONSECUTIVE then Crashed else AtTop (failures + 1)
      | Some None \<Rightarrow> AtTop 0
      | Some (Some r) \<Rightarrow> Claimed r)"

text \<open>The worker enters the turn of the run it claimed.\<close>

definition enter_turn :: "nat \<Rightarrow> run \<Rightarrow> worker \<Rightarrow> worker" where
  "enter_turn i r k =
     (case start_exec r True of
        None \<Rightarrow> set_pc i (AtTop 0) (k\<lparr> wk_inFlight := None \<rparr>)
      | Some e \<Rightarrow> set_pc i (Turning e) (k\<lparr> wk_inFlight :=
          Some \<lparr> hr_runId = run_id r, hr_leaseToken = ex_token e, hr_threadRef = run_sessionId r \<rparr> \<rparr>))"

text \<open>\<open>processRun\<close> has returned or thrown: a loop goes on, an inline execution is over.\<close>

definition leave_turn :: "nat \<Rightarrow> exec \<Rightarrow> worker \<Rightarrow> worker" where
  "leave_turn i e k =
     (if ex_background e then set_pc i (AtTop 0) (k\<lparr> wk_inFlight := None \<rparr>) else set_pc i Ended k)"

definition releaseInFlight :: "worker \<Rightarrow> worker" where
  "releaseInFlight k =
     (case wk_inFlight k of
        None \<Rightarrow> k
      | Some held \<Rightarrow>
          if wk_releasedLeaseToken k = Some (hr_leaseToken held) \<or> wk_releasing k \<noteq> None then k
          else k\<lparr> wk_releasing := Some (held, RelBeat) \<rparr>)"

definition release_done :: "held_run \<Rightarrow> worker \<Rightarrow> worker" where
  "release_done held k = k\<lparr> wk_releasedLeaseToken := Some (hr_leaseToken held), wk_releasing := None \<rparr>"

definition release_failed :: "worker \<Rightarrow> worker" where
  "release_failed k = k\<lparr> wk_releasing := None \<rparr>"

section \<open>The world of the workers\<close>

text \<open>
  The stores with the lease tokens drawn so far, the workers by their id, the reaper's sweeps that still
  have session leases to release, and four logs: the turns that were started, the results they
  returned, and the ids of the runs that were handed back and that were reaped.
\<close>

record workers_world =
  ww_runs :: run_store
  ww_tokens :: "string set"
  ww_sessions :: session_store
  ww_sessionTokens :: "string set"
  ww_workers :: "string \<Rightarrow> worker"
  ww_sweeps :: "(string list \<times> string option) list"
  ww_turns :: "(string \<times> turn_input) list"
  ww_results :: "(string \<times> turn_input \<times> turn_result) list"
  ww_handedBack :: "string list"
  ww_reaped :: "string list"

definition ww_start :: workers_world where
  "ww_start = \<lparr> ww_runs = createMemoryRunStore, ww_tokens = {}, ww_sessions = createMemorySessionStore,
     ww_sessionTokens = {}, ww_workers = (\<lambda>w. new_worker), ww_sweeps = [], ww_turns = [], ww_results = [],
     ww_handedBack = [], ww_reaped = [] \<rparr>"

definition loop_at :: "loop_pc list \<Rightarrow> nat \<Rightarrow> loop_pc" where
  "loop_at ls i = (if i < length ls then ls ! i else Ended)"

definition pc_of :: "workers_world \<Rightarrow> string \<Rightarrow> nat \<Rightarrow> loop_pc" where
  "pc_of W w i = loop_at (wk_loops (ww_workers W w)) i"

definition upd_worker :: "string \<Rightarrow> (worker \<Rightarrow> worker) \<Rightarrow> workers_world \<Rightarrow> workers_world" where
  "upd_worker w f W = W\<lparr> ww_workers := (ww_workers W)(w := f (ww_workers W w)) \<rparr>"

definition upd_pc :: "string \<Rightarrow> nat \<Rightarrow> loop_pc \<Rightarrow> workers_world \<Rightarrow> workers_world" where
  "upd_pc w i pc = upd_worker w (set_pc i pc)"

text \<open>The operations of the loop on the world. The claim at the head of the loop:\<close>

definition ww_claim :: "worker_env \<Rightarrow> string \<Rightarrow> nat \<Rightarrow> nat \<Rightarrow> string \<Rightarrow> time \<Rightarrow> workers_world \<Rightarrow> workers_world" where
  "ww_claim env w i failures tok now W =
     (case claim tok now w (we_leaseTtlMs env) (ww_runs W) of
        (answer, s) \<Rightarrow> upd_pc w i (after_claim failures (Some answer))
          (W\<lparr> ww_runs := s, ww_tokens := insert tok (ww_tokens W) \<rparr>))"

text \<open>A run claimed while the worker was stopped goes back.\<close>

definition ww_hand_back :: "string \<Rightarrow> nat \<Rightarrow> run \<Rightarrow> workers_world \<Rightarrow> workers_world" where
  "ww_hand_back w i r W =
     upd_pc w i Ended
       (case run_leaseToken r of
          None \<Rightarrow> W
        | Some tok \<Rightarrow>
            (case releaseLease (run_id r) tok (ww_runs W) of
               (released, s) \<Rightarrow> W\<lparr> ww_runs := s,
                 ww_handedBack := ww_handedBack W @ (if released then [run_id r] else []) \<rparr>))"

definition ww_enter :: "worker_env \<Rightarrow> string \<Rightarrow> nat \<Rightarrow> run \<Rightarrow> workers_world \<Rightarrow> workers_world" where
  "ww_enter env w i r W =
     upd_worker w (enter_turn i r)
       (W\<lparr> ww_turns := ww_turns W @ (case run_leaseToken r of None \<Rightarrow> [] | Some tok \<Rightarrow> [(tok, turn_input_of env r True)]) \<rparr>)"

definition ww_inline :: "worker_env \<Rightarrow> string \<Rightarrow> string \<Rightarrow> string \<Rightarrow> time \<Rightarrow> workers_world \<Rightarrow> workers_world" where
  "ww_inline env w runId tok now W =
     (case claimById tok now runId w (we_leaseTtlMs env) (ww_runs W) of
        (answer, s) \<Rightarrow>
          let W' = W\<lparr> ww_runs := s, ww_tokens := insert tok (ww_tokens W) \<rparr>
          in case answer of
               None \<Rightarrow> W'
             | Some r \<Rightarrow>
                 (case start_exec r False of
                    None \<Rightarrow> W'
                  | Some e \<Rightarrow> upd_worker w (\<lambda>k. k\<lparr> wk_loops := wk_loops k @ [Turning e] \<rparr>)
                      (W'\<lparr> ww_turns := ww_turns W @ [(ex_token e, turn_input_of env r False)] \<rparr>)))"

definition ww_beat :: "worker_env \<Rightarrow> string \<Rightarrow> nat \<Rightarrow> exec \<Rightarrow> time \<Rightarrow> workers_world \<Rightarrow> workers_world" where
  "ww_beat env w i e now W =
     (case heartbeat now (run_id (ex_run e)) (ex_token e) (we_leaseTtlMs env) (ww_runs W) of
        (alive, s) \<Rightarrow> upd_pc w i (Turning (e\<lparr> ex_answers := ex_answers e @ [Some alive] \<rparr>)) (W\<lparr> ww_runs := s \<rparr>))"

definition ww_return :: "worker_env \<Rightarrow> string \<Rightarrow> nat \<Rightarrow> exec \<Rightarrow> turn_result \<Rightarrow> workers_world \<Rightarrow> workers_world" where
  "ww_return env w i e res W =
     upd_pc w i (Returned e res)
       (W\<lparr> ww_results := ww_results W @ [(ex_token e, turn_input_of env (ex_run e) (ex_background e), res)] \<rparr>)"

definition ww_complete :: "string \<Rightarrow> nat \<Rightarrow> exec \<Rightarrow> turn_result \<Rightarrow> time \<Rightarrow> workers_world \<Rightarrow> workers_world" where
  "ww_complete w i e res now W =
     upd_worker w (leave_turn i e) (W\<lparr> ww_runs := snd (complete now (run_id (ex_run e)) (ex_token e) res (ww_runs W)) \<rparr>)"

definition ww_fail :: "worker_env \<Rightarrow> string \<Rightarrow> nat \<Rightarrow> exec \<Rightarrow> string \<Rightarrow> bool \<Rightarrow> time \<Rightarrow> workers_world \<Rightarrow> workers_world" where
  "ww_fail env w i e err nonRetryable now W =
     upd_worker w (leave_turn i e) (W\<lparr> ww_runs :=
       snd (fail_run (we_maxClaims env) now (run_id (ex_run e)) (ex_token e) err (Some (\<not> nonRetryable)) (ww_runs W)) \<rparr>)"

text \<open>The parts of \<open>releaseInFlight\<close> between its \<open>await\<close>s.\<close>

definition ww_release :: "worker_env \<Rightarrow> string \<Rightarrow> held_run \<Rightarrow> release_pc \<Rightarrow> time \<Rightarrow> workers_world \<Rightarrow> workers_world" where
  "ww_release env w held pc now W =
     (case pc of
        RelBeat \<Rightarrow>
          (case heartbeat now (hr_runId held) (hr_leaseToken held) (we_leaseTtlMs env) (ww_runs W) of
             (alive, s) \<Rightarrow> upd_worker w
                (if alive then (\<lambda>k. k\<lparr> wk_releasing := Some (held, RelFind) \<rparr>) else release_done held) (W\<lparr> ww_runs := s \<rparr>))
      | RelFind \<Rightarrow> upd_worker w (\<lambda>k. k\<lparr> wk_releasing := Some (held,
          case getByThread (ww_sessions W) (hr_threadRef held) of None \<Rightarrow> RelRun | Some se \<Rightarrow> RelForce (se_id se)) \<rparr>) W
      | RelForce sid \<Rightarrow> upd_worker w (\<lambda>k. k\<lparr> wk_releasing := Some (held, RelRun) \<rparr>)
          (W\<lparr> ww_sessions := forceReleaseLease sid (ww_sessions W) \<rparr>)
      | RelRun \<Rightarrow>
          (case releaseLease (hr_runId held) (hr_leaseToken held) (ww_runs W) of
             (released, s) \<Rightarrow> upd_worker w (release_done held)
               (W\<lparr> ww_runs := s,
                  ww_handedBack := ww_handedBack W @ (if released then [hr_runId held] else []) \<rparr>)))"

text \<open>A sweep of the reaper: the runs at once, then the session leases one after the other.\<close>

definition ww_reap :: "worker_env \<Rightarrow> time \<Rightarrow> int option \<Rightarrow> workers_world \<Rightarrow> workers_world" where
  "ww_reap env now maxAgeMs W =
     (case reapExpired (we_maxClaims env) now maxAgeMs (ww_runs W) of
        (res, s) \<Rightarrow> W\<lparr> ww_runs := s, ww_reaped := ww_reaped W @ map re_runId (rr_events res),
          ww_sweeps := ww_sweeps W @ [(jset_of (rr_retiredSessionIds res), None)] \<rparr>)"

definition releaseStranded :: "nat \<Rightarrow> workers_world \<Rightarrow> workers_world" where
  "releaseStranded j W =
     (case ww_sweeps W ! j of
        (rest, Some sid) \<Rightarrow>
          W\<lparr> ww_sessions := forceReleaseLease sid (ww_sessions W), ww_sweeps := (ww_sweeps W)[j := (rest, None)] \<rparr>
      | ([], None) \<Rightarrow> W
      | (threadRef # rest, None) \<Rightarrow>
          W\<lparr> ww_sweeps := (ww_sweeps W)[j := (rest, map_option se_id (getByThread (ww_sessions W) threadRef))] \<rparr>)"

inductive ww_step :: "worker_env \<Rightarrow> workers_world \<Rightarrow> workers_world \<Rightarrow> bool" for env :: worker_env where
  ww_starts: "ww_step env W (upd_worker w worker_start W)"
| ww_stops: "ww_step env W (upd_worker w worker_stop W)"
| ww_stop_returns: "ww_step env W (upd_worker w worker_stop_returns W)"
| ww_loop_ends: "pc_of W w i = AtTop n \<Longrightarrow> wk_stopped (ww_workers W w) \<Longrightarrow> ww_step env W (upd_pc w i Ended W)"
| ww_claims: "pc_of W w i = AtTop n \<Longrightarrow> \<not> wk_stopped (ww_workers W w) \<Longrightarrow> tok \<notin> ww_tokens W \<Longrightarrow>
    ww_step env W (ww_claim env w i n tok now W)"
| ww_claim_throws: "pc_of W w i = AtTop n \<Longrightarrow> \<not> wk_stopped (ww_workers W w) \<Longrightarrow>
    ww_step env W (upd_pc w i (after_claim n None) W)"
| ww_hands_back: "pc_of W w i = Claimed r \<Longrightarrow> wk_stopped (ww_workers W w) \<Longrightarrow> ww_step env W (ww_hand_back w i r W)"
| ww_hand_back_throws: "pc_of W w i = Claimed r \<Longrightarrow> wk_stopped (ww_workers W w) \<Longrightarrow> ww_step env W (upd_pc w i Ended W)"
| ww_enters: "pc_of W w i = Claimed r \<Longrightarrow> \<not> wk_stopped (ww_workers W w) \<Longrightarrow> ww_step env W (ww_enter env w i r W)"
| ww_drives: "tok \<notin> ww_tokens W \<Longrightarrow> ww_step env W (ww_inline env w runId tok now W)"
| ww_beats: "pc_of W w i = Turning e \<Longrightarrow> ex_beating e \<Longrightarrow> ww_step env W (ww_beat env w i e now W)"
| ww_beat_throws: "pc_of W w i = Turning e \<Longrightarrow> ex_beating e \<Longrightarrow>
    ww_step env W (upd_pc w i (Turning (e\<lparr> ex_answers := ex_answers e @ [None] \<rparr>)) W)"
| ww_answers: "pc_of W w i = Turning e \<Longrightarrow> ex_answers e = xs @ a # ys \<Longrightarrow>
    ww_step env W (upd_pc w i (Turning (on_beat a (e\<lparr> ex_answers := xs @ ys \<rparr>))) W)"
| ww_returns: "pc_of W w i = Turning e \<Longrightarrow> ww_step env W (ww_return env w i e res W)"
| ww_throws: "pc_of W w i = Turning e \<Longrightarrow> ww_step env W (upd_pc w i (Threw e err nonRetryable) W)"
| ww_completes: "pc_of W w i = Returned e res \<Longrightarrow> ww_step env W (ww_complete w i e res now W)"
| ww_complete_throws: "pc_of W w i = Returned e res \<Longrightarrow> ww_step env W (upd_pc w i (Threw e err False) W)"
| ww_fails: "pc_of W w i = Threw e err nonRetryable \<Longrightarrow> ww_step env W (ww_fail env w i e err nonRetryable now W)"
| ww_fail_throws: "pc_of W w i = Threw e err nonRetryable \<Longrightarrow> ww_step env W (upd_worker w (leave_turn i e) W)"
| ww_release_starts: "ww_step env W (upd_worker w releaseInFlight W)"
| ww_releases: "wk_releasing (ww_workers W w) = Some (held, pc) \<Longrightarrow> ww_step env W (ww_release env w held pc now W)"
| ww_release_throws: "wk_releasing (ww_workers W w) = Some (held, pc) \<Longrightarrow> ww_step env W (upd_worker w release_failed W)"
| ww_reaps: "ww_step env W (ww_reap env now maxAgeMs W)"
| ww_strands: "j < length (ww_sweeps W) \<Longrightarrow> ww_step env W (releaseStranded j W)"
| ww_enqueues: "newId \<noteq> '''' \<Longrightarrow> get_run (ww_runs W) newId = None \<Longrightarrow>
    ww_step env W (W\<lparr> ww_runs := snd (enqueue newId now inp (ww_runs W)) \<rparr>)"
| ww_delivers: "ww_step env W (W\<lparr> ww_runs := snd (setDeliveryState rid tk st (ww_runs W)) \<rparr>)"
| ww_records: "ww_step env W (W\<lparr> ww_runs := ledger_record rid a c out (ww_runs W) \<rparr>)"
| ww_session: "session_step (ww_sessions W, ww_sessionTokens W) (ss, J) \<Longrightarrow>
    ww_step env W (W\<lparr> ww_sessions := ss, ww_sessionTokens := J \<rparr>)"

section \<open>What an operation of the store does to each run\<close>

text \<open>One event per run; an operation touches one run, a sweep of the reaper all that have lapsed.\<close>

datatype run_event = Stays | Leased string | HandedBack | Finished string turn_result | Retired bool

fun run_moves :: "int option \<Rightarrow> run_event \<Rightarrow> run option \<Rightarrow> run option \<Rightarrow> bool" where
  "run_moves mc Stays x y \<longleftrightarrow> x = y \<or>
     (\<exists>r d e. x = Some r \<and> y = Some (r\<lparr> run_deliveryState := d, run_leaseExpiresAt := e \<rparr>)) \<or>
     (\<exists>i t inp. x = None \<and> y = Some (new_run i t inp))"
| "run_moves mc (Leased tok) x y \<longleftrightarrow>
     (\<exists>r now w ttl. x = Some r \<and> run_status r = RPending \<and> y = Some (lease_run tok now w ttl r))"
| "run_moves mc HandedBack x y \<longleftrightarrow>
     (\<exists>r. x = Some r \<and> run_status r = RRunning \<and>
        y = Some (r\<lparr> run_status := RPending, run_leaseToken := None, run_leaseExpiresAt := None, run_workerId := None \<rparr>))"
| "run_moves mc (Finished tok res) x y \<longleftrightarrow>
     (\<exists>r t. x = Some r \<and> run_status r = RRunning \<and> run_leaseToken r = Some tok \<and>
        y = Some (r\<lparr> run_status := RDone, run_result := Some res, run_leaseToken := None,
                     run_leaseExpiresAt := None, run_finishedAt := t \<rparr>))"
| "run_moves mc (Retired counts) x y \<longleftrightarrow>
     (\<exists>r r' rq. x = Some r \<and> run_status r = RRunning \<and> y = Some r' \<and> run_leaseToken r' = None \<and>
        run_request r' = run_request r \<and> run_attempts r' = run_attempts r \<and>
        run_errorAttempts r' = run_errorAttempts r + (if counts then 1 else 0) \<and>
        run_status r' = (if rq then RPending else RFailed) \<and> (rq \<longrightarrow> (\<forall>m. mc = Some m \<longrightarrow> run_attempts r < m)))"

definition store_moves :: "int option \<Rightarrow> (string \<Rightarrow> run_event) \<Rightarrow> run_store \<Rightarrow> run_store \<Rightarrow> bool" where
  "store_moves mc evs s s' \<longleftrightarrow> (\<forall>rid. run_moves mc (evs rid) (get_run s rid) (get_run s' rid))"

abbreviation quiet :: "string \<Rightarrow> run_event" where "quiet \<equiv> \<lambda>_. Stays"

lemma store_moves_same: "get_run s' = get_run s \<Longrightarrow> store_moves mc quiet s s'"
  by (simp add: store_moves_def)

lemma store_moves_put:
  assumes "get_run s' = (get_run s)(run_id r' \<mapsto> r')" "run_moves mc ev (get_run s (run_id r')) (Some r')"
  shows "store_moves mc (quiet(run_id r' := ev)) s s'"
  using assms by (simp add: store_moves_def)

lemma retire_run_requeued:
  "retire_run mc now r err rt ex ce = (r', True, ap) \<Longrightarrow> mc = Some m \<Longrightarrow> run_attempts r < m"
  by (auto simp: retire_run_def Let_def split: if_splits)

lemma retire_moves:
  assumes "retire_run mc now r err rt ex ce = (r', rq, True)"
  shows "run_moves mc (Retired ce) (Some r) (Some r')"
proof -
  have a: "run_status r = RRunning \<and> run_leaseToken r' = None \<and> run_request r' = run_request r \<and>
      run_attempts r' = run_attempts r \<and> run_errorAttempts r' = run_errorAttempts r + (if ce then 1 else 0) \<and>
      run_status r' = (if rq then RPending else RFailed)"
    using retire_run_sel [OF assms] by simp
  have b: "rq \<longrightarrow> (\<forall>m. mc = Some m \<longrightarrow> run_attempts r < m)"
    using assms retire_run_requeued [of mc now r err rt ex ce r' True] by auto
  show ?thesis unfolding run_moves.simps by (intro exI [of _ r] exI [of _ r'] exI [of _ rq] conjI) (use a b in simp_all)
qed

lemma enqueue_moves:
  assumes "get_run s newId = None"
  shows "store_moves mc quiet s (snd (enqueue newId now inp s))"
proof (cases "dedup_lookup inp s")
  case None
  then have "get_run (snd (enqueue newId now inp s)) = (get_run s)(newId \<mapsto> new_run newId now inp)"
    by (auto simp: enqueue_def Let_def insert_run_def get_run_def put_run_def)
  with assms show ?thesis by (auto simp: store_moves_def)
qed (simp add: enqueue_def store_moves_same)

lemma lease_run_id [simp]: "run_id (lease_run tok now w ttl r) = run_id r"
  by (simp add: lease_run_def)

lemma lease_moves:
  assumes "get_run s (run_id r) = Some r" "run_status r = RPending"
  shows "store_moves mc (quiet(run_id r := Leased tok)) s (put_run (lease_run tok now w ttl r) s)"
  using store_moves_put [where s' = "put_run (lease_run tok now w ttl r) s" and r' = "lease_run tok now w ttl r"
      and ev = "Leased tok" and s = s and mc = mc] assms by (simp, blast)

lemma claim_moves:
  assumes inv: "run_inv (s, I)" and eq: "claim tok now w ttl s = (answer, s')"
  shows "case answer of None \<Rightarrow> s' = s
    | Some r' \<Rightarrow> run_leaseToken r' = Some tok \<and> get_run s' (run_id r') = Some r' \<and>
        store_moves mc (quiet(run_id r' := Leased tok)) s s'"
proof (cases "claimable s")
  case (Cons r rs)
  then have "r \<in> set (claimable s)" by simp
  with set_claimable [OF run_inv_D(1) [OF inv]]
  have "get_run s (run_id r) = Some r" "run_status r = RPending" by auto
  from lease_moves [OF this] Cons eq show ?thesis by (auto simp: claim_def Let_def lease_run_def)
qed (use eq in \<open>auto simp: claim_def\<close>)

lemma claimById_moves:
  assumes inv: "run_inv (s, I)" and eq: "claimById tok now rid w ttl s = (answer, s')"
  shows "case answer of None \<Rightarrow> s' = s
    | Some r' \<Rightarrow> run_leaseToken r' = Some tok \<and> get_run s' (run_id r') = Some r' \<and>
        store_moves mc (quiet(run_id r' := Leased tok)) s s'"
proof (cases "get_run s rid")
  case (Some r)
  with get_run_D(1) [OF inv Some] lease_moves [of s r mc tok now w ttl] eq show ?thesis
    by (auto simp: claimById_def Let_def lease_run_def split: if_splits)
qed (use eq in \<open>auto simp: claimById_def\<close>)

text \<open>Operations that act under a lease token.\<close>

lemma stays_delivery: "run_moves mc Stays (Some r) (Some (r\<lparr> run_deliveryState := d \<rparr>))"
  unfolding run_moves.simps
  by (rule disjI2, rule disjI1, intro exI [of _ r] exI [of _ d] exI [of _ "run_leaseExpiresAt r"]) simp

lemma stays_lease: "run_moves mc Stays (Some r) (Some (r\<lparr> run_leaseExpiresAt := e \<rparr>))"
  unfolding run_moves.simps
  by (rule disjI2, rule disjI1, intro exI [of _ r] exI [of _ "run_deliveryState r"] exI [of _ e]) simp

lemma store_moves_upd:
  assumes "get_run s' = (get_run s)(rid \<mapsto> r')" "get_run s rid = Some r" "run_moves mc ev (Some r) (Some r')"
  shows "store_moves mc (quiet(rid := ev)) s s'"
  using assms by (simp add: store_moves_def)

lemma heartbeat_moves:
  assumes inv: "run_inv (s, I)"
  shows "store_moves mc quiet s (snd (heartbeat now rid tok ttl s))"
proof (cases "get_run s rid")
  case (Some r)
  show ?thesis using Some get_run_D(1) [OF inv Some] stays_lease [of mc r]
    by (simp add: heartbeat_def store_moves_def del: run_moves.simps(1)) simp
qed (simp add: heartbeat_def store_moves_same)

lemma release_moves:
  assumes inv: "run_inv (s, I)" and eq: "releaseLease rid tok s = (released, s')"
  shows "store_moves mc (if released then quiet(rid := HandedBack) else quiet) s s'" "released \<Longrightarrow> get_run s rid \<noteq> None"
proof -
  show "store_moves mc (if released then quiet(rid := HandedBack) else quiet) s s'"
  proof (cases "get_run s rid")
    case (Some r)
    with get_run_D(1) [OF inv Some] eq show ?thesis by (auto simp: releaseLease_def store_moves_def split: if_splits)
  qed (use eq in \<open>auto simp: releaseLease_def store_moves_same\<close>)
  show "released \<Longrightarrow> get_run s rid \<noteq> None" using eq by (cases "get_run s rid") (auto simp: releaseLease_def)
qed

lemma complete_moves:
  assumes inv: "run_inv (s, I)"
  shows "store_moves mc quiet s (snd (complete now rid tok res s)) \<or>
    (\<exists>r. get_run s rid = Some r \<and> run_leaseToken r = Some tok) \<and>
    store_moves mc (quiet(rid := Finished tok res)) s (snd (complete now rid tok res s))"
proof (cases "\<exists>r. get_run s rid = Some r \<and> run_leaseToken r = Some tok")
  case True
  then obtain r where r: "get_run s rid = Some r" "run_leaseToken r = Some tok" by blast
  have "store_moves mc (quiet(rid := Finished tok res)) s (snd (complete now rid tok res s))"
  proof (rule store_moves_upd [OF _ r(1)])
    let ?r = "r\<lparr> run_status := RDone, run_result := Some res, run_leaseToken := None,
               run_leaseExpiresAt := None, run_finishedAt := Some now \<rparr>"
    show "get_run (snd (complete now rid tok res s)) = (get_run s)(rid \<mapsto> ?r)"
      using r get_run_D(1) [OF inv r(1)] by (simp add: complete_def Let_def)
    show "run_moves mc (Finished tok res) (Some r) (Some ?r)"
      unfolding run_moves.simps by (intro exI [of _ r] exI [of _ "Some now"] conjI refl r(2) token_running [OF inv r])
  qed
  with r show ?thesis by blast
qed (auto simp: complete_def store_moves_same split: option.split)

lemma fail_moves:
  assumes inv: "run_inv (s, I)"
  shows "\<exists>evs. store_moves mc evs s (snd (fail_run mc now rid tok err rt s)) \<and>
    (evs = quiet \<or> evs = quiet(rid := Retired True) \<and> (\<exists>r. get_run s rid = Some r \<and> run_leaseToken r = Some tok))"
proof (cases "\<exists>r. get_run s rid = Some r \<and> run_leaseToken r = Some tok")
  case True
  then obtain r where r: "get_run s rid = Some r" "run_leaseToken r = Some tok" by blast
  obtain r' rq ap where eq: "retire_run mc now r err (rt \<noteq> Some False) None True = (r', rq, ap)"
    by (metis prod_cases3)
  have ap: ap using eq token_running [OF inv r] by (auto simp: retire_run_def Let_def split: if_splits)
  have "run_id r' = rid" using retire_run_sel [OF eq] get_run_D(1) [OF inv r(1)] by simp
  then have "get_run (snd (fail_run mc now rid tok err rt s)) = (get_run s)(rid \<mapsto> r')"
    using r eq ap by (simp add: fail_run_def retire_def)
  then have "store_moves mc (quiet(rid := Retired True)) s (snd (fail_run mc now rid tok err rt s))"
    using retire_moves [OF eq [unfolded eqTrueI [OF ap]]] r(1) by (auto simp: store_moves_def simp del: run_moves.simps(5))
  with r show ?thesis by blast
next
  case False
  then have "get_run (snd (fail_run mc now rid tok err rt s)) = get_run s" by (auto simp: fail_run_def split: option.split)
  then show ?thesis using store_moves_same by blast
qed

lemma setDeliveryState_moves:
  assumes inv: "run_inv (s, I)"
  shows "store_moves mc quiet s (snd (setDeliveryState rid tk st s))"
proof (cases "get_run s rid")
  case (Some r)
  show ?thesis using Some get_run_D(1) [OF inv Some] stays_delivery [of mc r]
    by (simp add: setDeliveryState_def store_moves_def del: run_moves.simps(1)) simp
qed (simp add: setDeliveryState_def store_moves_same)

lemma reap_moves:
  assumes inv: "run_inv (s, I)" and eq: "reapExpired mc now maxAge s = (res, s')"
  shows "store_moves mc (\<lambda>rid. if rid \<in> run_id ` set (lapsed_runs now s) then Retired False else Stays) s s'"
  unfolding store_moves_def
proof
  fix rid
  note R = reapExpired_result [OF inv eq] and L = lapsed_runs_props(2) [OF inv]
  show "run_moves mc (if rid \<in> run_id ` set (lapsed_runs now s) then Retired False else Stays) (get_run s rid) (get_run s' rid)"
  proof (cases "get_run s rid")
    case None
    then have "rid \<notin> run_id ` set (lapsed_runs now s)" using L by auto
    with None R(5) show ?thesis by simp
  next
    case (Some r)
    have "rid \<in> run_id ` set (lapsed_runs now s) \<longleftrightarrow> leaseLapsed r now"
      using L Some get_run_D(1) [OF inv Some] by (auto simp: image_iff)
    moreover have "run_moves mc (Retired False) (Some r) (Some (fst (reap_target mc now maxAge r)))" if "leaseLapsed r now"
    proof -
      obtain err rt where t: "reap_target mc now maxAge r = retire_run mc now r err rt (Some now) False"
        by (rule reap_target_retire)
      obtain r' rq ap where e: "reap_target mc now maxAge r = (r', rq, ap)" by (metis prod_cases3)
      have ap using reap_target_sel(2) [OF e that] .
      with e t retire_moves [of mc now r err rt "Some now" False r' rq] show ?thesis by simp
    qed
    ultimately show ?thesis using R(4) [OF Some] Some by (simp del: run_moves.simps(5))
  qed
qed

section \<open>What the events keep\<close>

lemma moves_lease:
  assumes "store_moves mc evs s s'" "get_run s' rid = Some q'" "run_leaseToken q' = Some t"
  shows "evs rid = Leased t \<or> (\<exists>q. get_run s rid = Some q \<and> run_leaseToken q = Some t \<and> run_attempts q = run_attempts q')"
proof -
  have "run_moves mc (evs rid) (get_run s rid) (Some q')" using assms(1,2) by (metis store_moves_def)
  with assms(3) show ?thesis by (cases "evs rid") (auto simp: lease_run_def)
qed

lemma moves_done:
  assumes "store_moves mc evs s s'" "get_run s' rid = Some q'" "run_status q' = RDone"
  shows "(\<exists>q. get_run s rid = Some q \<and> run_status q = RDone \<and> run_result q = run_result q' \<and>
      run_attempts q = run_attempts q' \<and> run_request q = run_request q') \<or>
    (\<exists>tok res q. evs rid = Finished tok res \<and> get_run s rid = Some q \<and> run_result q' = Some res \<and>
      run_attempts q' = run_attempts q \<and> run_request q' = run_request q)"
proof -
  have "run_moves mc (evs rid) (get_run s rid) (Some q')" using assms(1,2) by (metis store_moves_def)
  with assms(3) show ?thesis by (cases "evs rid") (auto simp: lease_run_def split: if_splits)
qed

text \<open>
  The books of a run: each claim ended in an error, a handback or a reaping, or is the one that is under
  way or that finished the run. And with a bound on claims, a run that waits has been claimed less often
  than the bound and the handbacks allow.
\<close>

definition run_charged :: "int option \<Rightarrow> nat \<Rightarrow> nat \<Rightarrow> run \<Rightarrow> bool" where
  "run_charged mc h p q \<longleftrightarrow>
     run_attempts q = run_errorAttempts q + int h + int p + (if run_status q \<in> {RRunning, RDone} then 1 else 0) \<and>
     (\<forall>m. mc = Some m \<longrightarrow> run_attempts q \<le> max 1 m + int h \<and>
        (run_status q = RPending \<longrightarrow> run_attempts q < max 1 m + int h))"

definition charged :: "int option \<Rightarrow> string list \<Rightarrow> string list \<Rightarrow> run_store \<Rightarrow> bool" where
  "charged mc H P s \<longleftrightarrow>
     (\<forall>rid q. get_run s rid = Some q \<longrightarrow> run_charged mc (count_list H rid) (count_list P rid) q) \<and>
     (\<forall>rid. get_run s rid = None \<longrightarrow> rid \<notin> set H \<and> rid \<notin> set P)"

lemma new_run_charged: "run_charged mc 0 0 (new_run i t inp)"
  by (auto simp: run_charged_def new_run_def)

lemma charged_moves:
  assumes moves: "run_moves mc ev x (Some q')" and old: "\<And>q. x = Some q \<Longrightarrow> run_charged mc h p q" "x = None \<Longrightarrow> h = 0 \<and> p = 0"
  shows "run_charged mc (h + (if ev = HandedBack then 1 else 0)) (p + (if ev = Retired False then 1 else 0)) q'"
proof (cases ev)
  case Stays
  with moves consider "x = Some q'" | r d e where "x = Some r" "q' = r\<lparr> run_deliveryState := d, run_leaseExpiresAt := e \<rparr>"
    | i t inp where "x = None" "q' = new_run i t inp" by auto
  then show ?thesis
  proof cases
    case 1
    with Stays old(1) show ?thesis by simp
  next
    case 2
    then have "run_charged mc h p q' \<longleftrightarrow> run_charged mc h p r" unfolding 2(2) run_charged_def by simp
    with Stays old(1) [OF 2(1)] show ?thesis by simp
  next
    case 3
    with Stays old(2) show ?thesis by (simp add: new_run_charged)
  qed
next
  case (Leased tok)
  with moves obtain r now w ttl where r: "x = Some r" "run_status r = RPending" "q' = lease_run tok now w ttl r" by auto
  with Leased old(1) [OF r(1)] show ?thesis by (auto simp: run_charged_def lease_run_def)
next
  case HandedBack
  with moves obtain r where r: "x = Some r" "run_status r = RRunning"
    "q' = r\<lparr> run_status := RPending, run_leaseToken := None, run_leaseExpiresAt := None, run_workerId := None \<rparr>" by auto
  with HandedBack old(1) [OF r(1)] show ?thesis by (auto simp: run_charged_def)
next
  case (Finished tok res)
  with moves obtain r t where r: "x = Some r" "run_status r = RRunning"
    "q' = r\<lparr> run_status := RDone, run_result := Some res, run_leaseToken := None,
             run_leaseExpiresAt := None, run_finishedAt := t \<rparr>" by auto
  with Finished old(1) [OF r(1)] show ?thesis by (auto simp: run_charged_def)
next
  case (Retired counts)
  with moves obtain r rq where r: "x = Some r" "run_status r = RRunning" "run_attempts q' = run_attempts r"
    "run_errorAttempts q' = run_errorAttempts r + (if counts then 1 else 0)"
    "run_status q' = (if rq then RPending else RFailed)" "rq \<longrightarrow> (\<forall>m. mc = Some m \<longrightarrow> run_attempts r < m)" by auto
  have "run_attempts r < max 1 m + int h" if "rq" "mc = Some m" for m using r(6) that by fastforce
  with Retired r old(1) [OF r(1)] show ?thesis by (auto simp: run_charged_def)
qed

lemma charged_step:
  assumes moves: "store_moves mc evs s s'" and old: "charged mc H P s"
    and H: "\<And>rid. count_list H' rid = count_list H rid + (if evs rid = HandedBack then 1 else 0)"
    and P: "\<And>rid. count_list P' rid = count_list P rid + (if evs rid = Retired False then 1 else 0)"
  shows "charged mc H' P' s'"
  unfolding charged_def
proof (intro conjI allI impI)
  fix rid q' assume q': "get_run s' rid = Some q'"
  then have m: "run_moves mc (evs rid) (get_run s rid) (Some q')" using moves by (metis store_moves_def)
  show "run_charged mc (count_list H' rid) (count_list P' rid) q'"
    unfolding H P by (rule charged_moves [OF m]) (use old in \<open>auto simp: charged_def count_list_0_iff\<close>)
next
  fix rid assume none: "get_run s' rid = None"
  then have "run_moves mc (evs rid) (get_run s rid) None" using moves by (metis store_moves_def)
  then have "evs rid = Stays" "get_run s rid = None" by (cases "evs rid"; auto)+
  then have "count_list H' rid = 0" "count_list P' rid = 0" using H P old by (auto simp: charged_def count_list_0_iff)
  then show "rid \<notin> set H'" "rid \<notin> set P'" by (simp_all add: count_list_0_iff)
qed

section \<open>The invariant of the workers\<close>

fun pc_lease :: "loop_pc \<Rightarrow> (run \<times> string) option" where
  "pc_lease (Claimed r) = map_option (Pair r) (run_leaseToken r)"
| "pc_lease (Turning e) = Some (ex_run e, ex_token e)"
| "pc_lease (Returned e res) = Some (ex_run e, ex_token e)"
| "pc_lease (Threw e err nonRetryable) = Some (ex_run e, ex_token e)"
| "pc_lease pc = None"

text \<open>A lease that a loop works under: what it claimed is a past state of the stored run, and as long as the token is held, the run has not been claimed again.\<close>

definition lease_ok :: "run_store \<Rightarrow> string set \<Rightarrow> run \<times> string \<Rightarrow> bool" where
  "lease_ok s I l \<longleftrightarrow> snd l \<in> I \<and> (\<exists>q. get_run s (run_id (fst l)) = Some q \<and> run_evolves (fst l) q) \<and>
     (\<forall>rid q. get_run s rid = Some q \<and> run_leaseToken q = Some (snd l) \<longrightarrow>
        rid = run_id (fst l) \<and> run_attempts q = run_attempts (fst l))"

definition result_of :: "(string \<times> turn_input \<times> turn_result) list \<Rightarrow> string \<Rightarrow> int \<Rightarrow> json \<Rightarrow> turn_result \<Rightarrow> bool" where
  "result_of log rid attempt req res \<longleftrightarrow>
     (\<exists>(t, ti, x) \<in> set log. x = res \<and> ti_runId ti = rid \<and> ti_attempt ti = attempt \<and> ti_request ti = req)"

definition ww_inv :: "int option \<Rightarrow> workers_world \<Rightarrow> bool" where
  "ww_inv mc W \<longleftrightarrow> run_inv (ww_runs W, ww_tokens W) \<and>
     (\<forall>w i l. pc_lease (pc_of W w i) = Some l \<longrightarrow> lease_ok (ww_runs W) (ww_tokens W) l) \<and>
     (\<forall>w i w' i' r r' t. pc_lease (pc_of W w i) = Some (r, t) \<longrightarrow> pc_lease (pc_of W w' i') = Some (r', t) \<longrightarrow> w = w' \<and> i = i') \<and>
     (\<forall>w i e res. pc_of W w i = Returned e res \<longrightarrow>
        result_of (ww_results W) (run_id (ex_run e)) (run_attempts (ex_run e)) (run_request (ex_run e)) res) \<and>
     (\<forall>rid q. get_run (ww_runs W) rid = Some q \<and> run_status q = RDone \<longrightarrow>
        (\<exists>res. run_result q = Some res \<and> result_of (ww_results W) rid (run_attempts q) (run_request q) res)) \<and>
     charged mc (ww_handedBack W) (ww_reaped W) (ww_runs W)"

lemma ww_inv_D:
  assumes "ww_inv mc W"
  shows "run_inv (ww_runs W, ww_tokens W)"
    "pc_lease (pc_of W w i) = Some l \<Longrightarrow> lease_ok (ww_runs W) (ww_tokens W) l"
    "pc_lease (pc_of W w i) = Some (r, t) \<Longrightarrow> pc_lease (pc_of W w' i') = Some (r', t) \<Longrightarrow> w = w' \<and> i = i'"
    "pc_of W w i = Returned e res \<Longrightarrow>
       result_of (ww_results W) (run_id (ex_run e)) (run_attempts (ex_run e)) (run_request (ex_run e)) res"
    "get_run (ww_runs W) rid = Some q \<Longrightarrow> run_status q = RDone \<Longrightarrow>
       \<exists>res. run_result q = Some res \<and> result_of (ww_results W) rid (run_attempts q) (run_request q) res"
    "charged mc (ww_handedBack W) (ww_reaped W) (ww_runs W)"
  using assms unfolding ww_inv_def by blast+

lemma lease_ok_kept:
  assumes ok: "lease_ok s I l" and moves: "store_moves mc evs s s'" and rel: "run_rel (s, I) (s', I')"
    and fresh: "\<And>rid t. evs rid = Leased t \<Longrightarrow> t \<notin> I"
  shows "lease_ok s' I' l"
proof -
  from ok obtain q where q: "get_run s (run_id (fst l)) = Some q" "run_evolves (fst l) q" and t: "snd l \<in> I"
    by (auto simp: lease_ok_def)
  from rel q(1) obtain q' where "get_run s' (run_id (fst l)) = Some q'" "run_evolves q q'"
    unfolding run_rel_def fst_conv by blast
  then have "\<exists>q. get_run s' (run_id (fst l)) = Some q \<and> run_evolves (fst l) q" using q(2) run_evolves_trans by blast
  moreover have "snd l \<in> I'" using rel t by (auto simp: run_rel_def)
  moreover have "rid = run_id (fst l) \<and> run_attempts q' = run_attempts (fst l)"
    if "get_run s' rid = Some q'" "run_leaseToken q' = Some (snd l)" for rid q'
    using moves_lease [OF moves that] fresh [of rid "snd l"] t ok unfolding lease_ok_def by metis
  ultimately show ?thesis unfolding lease_ok_def by blast
qed

lemma result_of_mono: "result_of log rid a req res \<Longrightarrow> set log \<subseteq> set log' \<Longrightarrow> result_of log' rid a req res"
  unfolding result_of_def by blast

text \<open>One rule for every step: how the runs moved, which loop works under a new lease, which results are new.\<close>

lemma ww_inv_step:
  assumes inv: "ww_inv mc W" and step: "(run_step mc)\<^sup>*\<^sup>* (ww_runs W, ww_tokens W) (ww_runs W', ww_tokens W')"
    and moves: "store_moves mc evs (ww_runs W) (ww_runs W')"
    and fresh: "\<And>rid t. evs rid = Leased t \<Longrightarrow> t \<notin> ww_tokens W"
    and pcs: "\<And>w i l. pc_lease (pc_of W' w i) = Some l \<Longrightarrow> pc_lease (pc_of W w i) = Some l \<or>
      w = w0 \<and> i = i0 \<and> snd l \<notin> ww_tokens W \<and> lease_ok (ww_runs W') (ww_tokens W') l"
    and ret: "\<And>w i e res. pc_of W' w i = Returned e res \<Longrightarrow> pc_of W w i = Returned e res \<or>
      result_of (ww_results W') (run_id (ex_run e)) (run_attempts (ex_run e)) (run_request (ex_run e)) res"
    and log: "set (ww_results W) \<subseteq> set (ww_results W')"
    and fin: "\<And>rid tok res q. evs rid = Finished tok res \<Longrightarrow> get_run (ww_runs W) rid = Some q \<Longrightarrow>
      result_of (ww_results W') rid (run_attempts q) (run_request q) res"
    and H: "\<And>rid. count_list (ww_handedBack W') rid = count_list (ww_handedBack W) rid + (if evs rid = HandedBack then 1 else 0)"
    and P: "\<And>rid. count_list (ww_reaped W') rid = count_list (ww_reaped W) rid + (if evs rid = Retired False then 1 else 0)"
  shows "ww_inv mc W'"
proof -
  note D = ww_inv_D [OF inv]
  have runs: "run_inv (ww_runs W', ww_tokens W')" using run_machine.inv_steps [OF step D(1)] .
  have rel: "run_rel (ww_runs W, ww_tokens W) (ww_runs W', ww_tokens W')" using run_machine.rel_steps [OF step D(1)] .
  have keep: "lease_ok (ww_runs W) (ww_tokens W) l \<Longrightarrow> lease_ok (ww_runs W') (ww_tokens W') l" for l
    by (erule lease_ok_kept [OF _ moves rel]) (rule fresh)
  have leases: "lease_ok (ww_runs W') (ww_tokens W') l" if "pc_lease (pc_of W' w i) = Some l" for w i l
    using pcs [OF that] D(2) keep by blast
  have old_token: "snd l \<in> ww_tokens W" if "pc_lease (pc_of W w i) = Some l" for w i l
    using D(2) [OF that] by (simp add: lease_ok_def)
  have uniq: "w = w' \<and> i = i'" if a: "pc_lease (pc_of W' w i) = Some (r, t)" and b: "pc_lease (pc_of W' w' i') = Some (r', t)"
    for w i w' i' r r' t
    using pcs [OF a] pcs [OF b] old_token D(3) by (metis snd_conv)
  have finished: "\<exists>res. run_result q' = Some res \<and> result_of (ww_results W') rid (run_attempts q') (run_request q') res"
    if q': "get_run (ww_runs W') rid = Some q'" "run_status q' = RDone" for rid q'
    using moves_done [OF moves q']
  proof (elim disjE exE conjE)
    fix q assume q: "get_run (ww_runs W) rid = Some q" "run_status q = RDone" "run_result q = run_result q'"
      "run_attempts q = run_attempts q'" "run_request q = run_request q'"
    then show ?thesis using D(5) [OF q(1,2)] result_of_mono [OF _ log] by metis
  next
    fix tok res q assume q: "evs rid = Finished tok res" "get_run (ww_runs W) rid = Some q" "run_result q' = Some res"
      "run_attempts q' = run_attempts q" "run_request q' = run_request q"
    then show ?thesis using fin [OF q(1,2)] by auto
  qed
  have books: "charged mc (ww_handedBack W') (ww_reaped W') (ww_runs W')" by (rule charged_step [OF moves D(6) H P])
  have returned: "result_of (ww_results W') (run_id (ex_run e)) (run_attempts (ex_run e)) (run_request (ex_run e)) res"
    if "pc_of W' w i = Returned e res" for w i e res
    using ret [OF that] D(4) result_of_mono [OF _ log] by blast
  show ?thesis unfolding ww_inv_def using runs leases uniq returned finished books by blast
qed

lemma loop_at_update: "loop_at (ls[i := pc]) j = (if j = i \<and> i < length ls then pc else loop_at ls j)"
  by (auto simp: loop_at_def)

lemma loop_at_append: "loop_at (ls @ [pc]) j = (if j = length ls then pc else loop_at ls j)"
  by (auto simp: loop_at_def nth_append)

lemma loop_at_inside: "loop_at ls i \<noteq> Ended \<Longrightarrow> i < length ls"
  by (auto simp: loop_at_def split: if_splits)

lemma worker_loops [simp]:
  "wk_loops (worker_stop k) = wk_loops k" "wk_loops (worker_stop_returns k) = wk_loops k"
  "wk_loops (releaseInFlight k) = wk_loops k" "wk_loops (release_done held k) = wk_loops k"
  "wk_loops (release_failed k) = wk_loops k" "wk_loops (set_pc i pc k) = (wk_loops k)[i := pc]"
  "wk_loops (leave_turn i e k) = (wk_loops k)[i := if ex_background e then AtTop 0 else Ended]"
  by (auto simp: worker_stop_def worker_stop_returns_def releaseInFlight_def release_done_def release_failed_def
      set_pc_def leave_turn_def split: option.split)

lemma enter_turn_loops:
  "wk_loops (enter_turn i r k) = (wk_loops k)[i := case start_exec r True of None \<Rightarrow> AtTop 0 | Some e \<Rightarrow> Turning e]"
  by (simp add: enter_turn_def split: option.split)

lemma start_exec_lease: "start_exec r b = Some e \<Longrightarrow> run_leaseToken r = Some (ex_token e) \<and> ex_run e = r"
  by (auto simp: start_exec_def split: option.splits)

lemma on_beat_sel [simp]:
  "ex_run (on_beat a e) = ex_run e" "ex_token (on_beat a e) = ex_token e" "ex_background (on_beat a e) = ex_background e"
  by (induction a e rule: on_beat.induct; simp add: Let_def)+

lemma upd_worker_sel [simp]:
  "ww_runs (upd_worker w f W) = ww_runs W" "ww_tokens (upd_worker w f W) = ww_tokens W"
  "ww_results (upd_worker w f W) = ww_results W" "ww_handedBack (upd_worker w f W) = ww_handedBack W"
  "ww_reaped (upd_worker w f W) = ww_reaped W" "ww_sessions (upd_worker w f W) = ww_sessions W"
  by (simp_all add: upd_worker_def)

lemma pc_of_upd_worker:
  "pc_of (upd_worker w f W) w' j = (if w' = w then loop_at (wk_loops (f (ww_workers W w))) j else pc_of W w' j)"
  by (simp add: pc_of_def upd_worker_def)

lemma pc_of_upd_pc:
  "pc_of (upd_pc w i pc W) w' j =
     (if w' = w \<and> j = i \<and> i < length (wk_loops (ww_workers W w)) then pc else pc_of W w' j)"
  by (auto simp: upd_pc_def pc_of_upd_worker loop_at_update) (auto simp: pc_of_def)

lemma upd_pc_sel [simp]:
  "ww_runs (upd_pc w i pc W) = ww_runs W" "ww_tokens (upd_pc w i pc W) = ww_tokens W"
  "ww_results (upd_pc w i pc W) = ww_results W" "ww_handedBack (upd_pc w i pc W) = ww_handedBack W"
  "ww_reaped (upd_pc w i pc W) = ww_reaped W" "ww_sessions (upd_pc w i pc W) = ww_sessions W"
  by (simp_all add: upd_pc_def)

text \<open>Steps that leave the runs alone, and those of one operation of the store under the same loops.\<close>

definition pcs_kept :: "workers_world \<Rightarrow> workers_world \<Rightarrow> bool" where
  "pcs_kept W W' \<longleftrightarrow>
     (\<forall>w i l. pc_lease (pc_of W' w i) = Some l \<longrightarrow> pc_lease (pc_of W w i) = Some l) \<and>
     (\<forall>w i e res. pc_of W' w i = Returned e res \<longrightarrow> pc_of W w i = Returned e res)"

lemma ww_inv_op:
  assumes inv: "ww_inv mc W" and step: "(run_step mc)\<^sup>*\<^sup>* (ww_runs W, ww_tokens W) (ww_runs W', ww_tokens W')"
    and moves: "store_moves mc evs (ww_runs W) (ww_runs W')" "\<And>rid t. evs rid \<noteq> Leased t"
    and pcs: "pcs_kept W W'" and log: "ww_results W' = ww_results W"
    and fin: "\<And>rid tok res q. evs rid = Finished tok res \<Longrightarrow> get_run (ww_runs W) rid = Some q \<Longrightarrow>
      result_of (ww_results W) rid (run_attempts q) (run_request q) res"
    and H: "\<And>rid. count_list (ww_handedBack W') rid = count_list (ww_handedBack W) rid + (if evs rid = HandedBack then 1 else 0)"
    and P: "\<And>rid. count_list (ww_reaped W') rid = count_list (ww_reaped W) rid + (if evs rid = Retired False then 1 else 0)"
  shows "ww_inv mc W'"
proof (rule ww_inv_step [OF inv step moves(1)])
  show "t \<notin> ww_tokens W" if "evs rid = Leased t" for rid t using moves(2) that by blast
  show "pc_lease (pc_of W w i) = Some l \<or> w = '''' \<and> i = 0 \<and> snd l \<notin> ww_tokens W \<and> lease_ok (ww_runs W') (ww_tokens W') l"
    if "pc_lease (pc_of W' w i) = Some l" for w i l using pcs that unfolding pcs_kept_def by blast
  show "pc_of W w i = Returned e res \<or> result_of (ww_results W') (run_id (ex_run e)) (run_attempts (ex_run e)) (run_request (ex_run e)) res"
    if "pc_of W' w i = Returned e res" for w i e res using pcs that unfolding pcs_kept_def by blast
qed (use log fin H P in auto)

lemma ww_inv_still:
  assumes inv: "ww_inv mc W" and pcs: "pcs_kept W W'"
    and same: "ww_runs W' = ww_runs W" "ww_tokens W' = ww_tokens W" "ww_results W' = ww_results W"
      "ww_handedBack W' = ww_handedBack W" "ww_reaped W' = ww_reaped W"
  shows "ww_inv mc W'"
proof (rule ww_inv_op [OF inv _ _ _ pcs])
  show "store_moves mc quiet (ww_runs W) (ww_runs W')" by (simp add: same store_moves_same)
qed (simp_all add: same)

lemma pcs_kept_same: "(\<And>w. wk_loops (ww_workers W' w) = wk_loops (ww_workers W w)) \<Longrightarrow> pcs_kept W W'"
  by (simp add: pcs_kept_def pc_of_def)

lemma pcs_kept_loop:
  assumes "ww_workers V = ww_workers W" "wk_loops (f (ww_workers W w)) = (wk_loops (ww_workers W w))[i := pc]"
    and "pc_lease pc = None \<or> pc_lease pc = pc_lease (pc_of W w i)" "\<And>e res. pc \<noteq> Returned e res"
  shows "pcs_kept W (upd_worker w f V)"
proof -
  have "pc_of (upd_worker w f V) v j = (if v = w \<and> j = i \<and> i < length (wk_loops (ww_workers W w)) then pc else pc_of W v j)" for v j
    using assms(1,2) by (auto simp: pc_of_upd_worker loop_at_update) (auto simp: pc_of_def)
  then show ?thesis using assms(3,4) unfolding pcs_kept_def by (metis option.distinct(1))
qed

lemma pcs_kept_upd_pc:
  assumes "ww_workers V = ww_workers W" "pc_lease pc = None \<or> pc_lease pc = pc_lease (pc_of W w i)" "\<And>e res. pc \<noteq> Returned e res"
  shows "pcs_kept W (upd_pc w i pc V)"
  unfolding upd_pc_def by (rule pcs_kept_loop [OF assms(1) _ assms(2,3)]) (simp_all add: assms)

lemma pcs_kept_worker:
  assumes "ww_workers V = ww_workers W" "wk_loops (f (ww_workers W w)) = wk_loops (ww_workers W w)"
  shows "pcs_kept W (upd_worker w f V)"
  by (rule pcs_kept_same) (simp add: upd_worker_def assms)

lemma pcs_kept_start: "pcs_kept W (upd_worker w worker_start W)"
proof -
  have "pc_of (upd_worker w worker_start W) v j = pc_of W v j \<or> pc_of (upd_worker w worker_start W) v j = AtTop 0" for v j
    by (auto simp: pc_of_upd_worker worker_start_def loop_at_append) (auto simp: pc_of_def)
  then show ?thesis unfolding pcs_kept_def by (metis loop_pc.distinct(5) option.distinct(1) pc_lease.simps(5))
qed

text \<open>A claim, by a loop or inline: the only step after which a loop works under a new lease.\<close>

lemma new_lease_ok:
  assumes inv: "run_inv (s, I)" and tok: "tok \<notin> I" "run_leaseToken r' = Some tok" "get_run s' (run_id r') = Some r'"
    and moves: "store_moves mc (quiet(run_id r' := Leased tok)) s s'"
  shows "lease_ok s' (insert tok I) (r', tok)"
proof -
  have "rid = run_id r'" if "get_run s' rid = Some q" "run_leaseToken q = Some tok" for rid q
    using moves_lease [OF moves that] tok(1) run_inv_D(3) [OF inv] by (auto simp: tokens_ok_def split: if_splits)
  with tok(3) show ?thesis by (auto simp: lease_ok_def run_evolves_refl)
qed

lemma ww_inv_claimed:
  assumes inv: "ww_inv mc W" and step: "run_step mc (ww_runs W, ww_tokens W) (s', insert tok (ww_tokens W))"
    and tok: "tok \<notin> ww_tokens W" "run_leaseToken r = Some tok" "get_run s' (run_id r) = Some r"
    and moves: "store_moves mc (quiet(run_id r := Leased tok)) (ww_runs W) s'"
    and W': "ww_runs W' = s'" "ww_tokens W' = insert tok (ww_tokens W)" "ww_results W' = ww_results W"
      "ww_handedBack W' = ww_handedBack W" "ww_reaped W' = ww_reaped W"
    and pcs: "\<And>w i. pc_of W' w i = pc_of W w i \<or> w = w0 \<and> i = i0 \<and> pc_lease (pc_of W' w i) = Some (r, tok) \<and>
      (\<forall>e res. pc_of W' w i \<noteq> Returned e res)"
  shows "ww_inv mc W'"
proof (rule ww_inv_step [OF inv])
  show "(run_step mc)\<^sup>*\<^sup>* (ww_runs W, ww_tokens W) (ww_runs W', ww_tokens W')" using step W' by auto
  show "store_moves mc (quiet(run_id r := Leased tok)) (ww_runs W) (ww_runs W')" using moves W' by simp
  have ok: "lease_ok (ww_runs W') (ww_tokens W') (r, tok)" using new_lease_ok [OF ww_inv_D(1) [OF inv] tok moves] W' by simp
  show "pc_lease (pc_of W w i) = Some l \<or> w = w0 \<and> i = i0 \<and> snd l \<notin> ww_tokens W \<and> lease_ok (ww_runs W') (ww_tokens W') l"
    if "pc_lease (pc_of W' w i) = Some l" for w i l
    using pcs [of w i] that ok tok(1) by (metis option.inject snd_conv)
  show "pc_of W w i = Returned e res \<or> result_of (ww_results W') (run_id (ex_run e)) (run_attempts (ex_run e)) (run_request (ex_run e)) res"
    if "pc_of W' w i = Returned e res" for w i e res
    using pcs [of w i] that by metis
qed (use tok(1) W' in \<open>auto split: if_splits\<close>)

lemma ww_claim_inv:
  assumes inv: "ww_inv (we_maxClaims env) W" and pc: "pc_of W w i = AtTop n" and tok: "tok \<notin> ww_tokens W"
  shows "ww_inv (we_maxClaims env) (ww_claim env w i n tok now W)"
proof -
  obtain answer s' where eq: "claim tok now w (we_leaseTtlMs env) (ww_runs W) = (answer, s')" by force
  have step: "run_step (we_maxClaims env) (ww_runs W, ww_tokens W) (s', insert tok (ww_tokens W))"
    using step_claim [OF tok, of "we_maxClaims env" "ww_runs W" now w "we_leaseTtlMs env"] eq by simp
  note M = claim_moves [OF ww_inv_D(1) [OF inv] eq, of "we_maxClaims env"]
  show ?thesis
  proof (cases answer)
    case None
    then have "s' = ww_runs W" using M by simp
    then show ?thesis using None eq step unfolding ww_claim_def
      by (intro ww_inv_op [OF inv, where evs = quiet]) (auto simp: after_claim_def store_moves_same intro!: pcs_kept_upd_pc)
  next
    case (Some r)
    let ?W = "upd_pc w i (Claimed r) (W\<lparr> ww_runs := s', ww_tokens := insert tok (ww_tokens W) \<rparr>)"
    have r: "run_leaseToken r = Some tok" "get_run s' (run_id r) = Some r"
      "store_moves (we_maxClaims env) (quiet(run_id r := Leased tok)) (ww_runs W) s'" using M Some by auto
    have "ww_inv (we_maxClaims env) ?W"
      by (rule ww_inv_claimed [OF inv step tok r, where ?w0.0 = w and ?i0.0 = i])
         (simp_all add: pc_of_upd_pc r(1), simp_all add: pc_of_def)
    then show ?thesis using eq Some by (simp add: ww_claim_def after_claim_def)
  qed
qed

lemma ww_inline_inv:
  assumes inv: "ww_inv (we_maxClaims env) W" and tok: "tok \<notin> ww_tokens W"
  shows "ww_inv (we_maxClaims env) (ww_inline env w runId tok now W)"
proof -
  obtain answer s' where eq: "claimById tok now runId w (we_leaseTtlMs env) (ww_runs W) = (answer, s')" by force
  have step: "run_step (we_maxClaims env) (ww_runs W, ww_tokens W) (s', insert tok (ww_tokens W))"
    using step_claimById [OF tok, of "we_maxClaims env" "ww_runs W" now runId w "we_leaseTtlMs env"] eq by simp
  note M = claimById_moves [OF ww_inv_D(1) [OF inv] eq, of "we_maxClaims env"]
  show ?thesis
  proof (cases answer)
    case None
    then have "s' = ww_runs W" using M by simp
    then show ?thesis using None eq step unfolding ww_inline_def
      by (intro ww_inv_op [OF inv, where evs = quiet]) (auto simp: Let_def store_moves_same intro!: pcs_kept_same)
  next
    case (Some r)
    then have r: "run_leaseToken r = Some tok" "get_run s' (run_id r) = Some r"
      "store_moves (we_maxClaims env) (quiet(run_id r := Leased tok)) (ww_runs W) s'" using M by auto
    then obtain e where e: "start_exec r False = Some e" "ex_run e = r" "ex_token e = tok"
      by (auto simp: start_exec_def)
    let ?W = "ww_inline env w runId tok now W"
    have pcs: "pc_of ?W v j = (if v = w \<and> j = length (wk_loops (ww_workers W w)) then Turning e else pc_of W v j)" for v j
      using eq Some e(1) by (auto simp: ww_inline_def pc_of_upd_worker loop_at_append) (auto simp: pc_of_def)
    show ?thesis
      by (rule ww_inv_claimed [OF inv step tok r, where ?w0.0 = w and ?i0.0 = "length (wk_loops (ww_workers W w))"])
         (use eq Some e pcs in \<open>auto simp: ww_inline_def\<close>)
  qed
qed

lemma ww_return_inv:
  assumes inv: "ww_inv mc W" and pc: "pc_of W w i = Turning e"
  shows "ww_inv mc (ww_return env w i e res W)"
proof (rule ww_inv_step [OF inv])
  let ?W = "ww_return env w i e res W"
  have pcs: "pc_of ?W v j = (if v = w \<and> j = i then Returned e res else pc_of W v j)" for v j
    using pc loop_at_inside [of "wk_loops (ww_workers W w)" i]
    by (auto simp: ww_return_def pc_of_upd_pc) (auto simp: pc_of_def)
  show "store_moves mc quiet (ww_runs W) (ww_runs ?W)" by (simp add: ww_return_def store_moves_same)
  show "(run_step mc)\<^sup>*\<^sup>* (ww_runs W, ww_tokens W) (ww_runs ?W, ww_tokens ?W)" by (simp add: ww_return_def)
  show "pc_lease (pc_of W v j) = Some l \<or> v = w \<and> j = i \<and> snd l \<notin> ww_tokens W \<and> lease_ok (ww_runs ?W) (ww_tokens ?W) l"
    if "pc_lease (pc_of ?W v j) = Some l" for v j l using that pcs [of v j] pc by (auto split: if_splits)
  show "pc_of W v j = Returned e' res' \<or>
      result_of (ww_results ?W) (run_id (ex_run e')) (run_attempts (ex_run e')) (run_request (ex_run e')) res'"
    if "pc_of ?W v j = Returned e' res'" for v j e' res'
    using that pcs [of v j] by (auto simp: ww_return_def result_of_def turn_input_of_def split: if_splits)
qed (auto simp: ww_return_def)

lemma ww_complete_inv:
  assumes inv: "ww_inv mc W" and pc: "pc_of W w i = Returned e res"
  shows "ww_inv mc (ww_complete w i e res now W)"
proof -
  let ?W = "ww_complete w i e res now W" and ?rid = "run_id (ex_run e)" and ?s' = "snd (complete now (run_id (ex_run e)) (ex_token e) res (ww_runs W))"
  note D = ww_inv_D [OF inv]
  have step: "(run_step mc)\<^sup>*\<^sup>* (ww_runs W, ww_tokens W) (ww_runs ?W, ww_tokens ?W)"
    using step_complete by (auto simp: ww_complete_def)
  have pcs: "pcs_kept W ?W" unfolding ww_complete_def by (rule pcs_kept_loop) (auto split: if_splits)
  have ok: "lease_ok (ww_runs W) (ww_tokens W) (ex_run e, ex_token e)" using D(2) [of w i] pc by simp
  from complete_moves [OF D(1), of mc now ?rid "ex_token e" res] show ?thesis
  proof (elim disjE conjE exE)
    assume "store_moves mc quiet (ww_runs W) ?s'"
    then show ?thesis by (intro ww_inv_op [OF inv step _ _ pcs, where evs = quiet]) (simp_all add: ww_complete_def)
  next
    fix r assume r: "get_run (ww_runs W) ?rid = Some r" "run_leaseToken r = Some (ex_token e)"
      and m: "store_moves mc (quiet(?rid := Finished (ex_token e) res)) (ww_runs W) ?s'"
    have a: "run_attempts r = run_attempts (ex_run e)" "run_request r = run_request (ex_run e)"
      using ok r by (auto simp: lease_ok_def run_evolves_def)
    have "result_of (ww_results W) ?rid (run_attempts r) (run_request r) res" using D(4) [OF pc] by (simp only: a)
    then show ?thesis using m r(1)
      by (intro ww_inv_op [OF inv step _ _ pcs, where evs = "quiet(?rid := Finished (ex_token e) res)"])
         (auto simp: ww_complete_def split: if_splits)
  qed
qed

lemma ww_fail_inv:
  assumes inv: "ww_inv (we_maxClaims env) W" and pc: "pc_of W w i = Threw e err nonRetryable"
  shows "ww_inv (we_maxClaims env) (ww_fail env w i e err nonRetryable now W)"
proof -
  let ?W = "ww_fail env w i e err nonRetryable now W" and ?mc = "we_maxClaims env"
  have step: "(run_step ?mc)\<^sup>*\<^sup>* (ww_runs W, ww_tokens W) (ww_runs ?W, ww_tokens ?W)"
    using step_fail by (auto simp: ww_fail_def)
  have pcs: "pcs_kept W ?W" unfolding ww_fail_def by (rule pcs_kept_loop) (auto split: if_splits)
  obtain evs where "store_moves ?mc evs (ww_runs W) (ww_runs ?W)" "evs = quiet \<or> evs = quiet(run_id (ex_run e) := Retired True)"
    using fail_moves [OF ww_inv_D(1) [OF inv]] unfolding ww_fail_def upd_worker_sel by fastforce
  then show ?thesis
    by (intro ww_inv_op [OF inv step _ _ pcs, where evs = evs]) (auto simp: ww_fail_def split: if_splits)
qed

lemma ww_hand_back_inv:
  assumes inv: "ww_inv mc W" and pc: "pc_of W w i = Claimed r"
  shows "ww_inv mc (ww_hand_back w i r W)"
proof (cases "run_leaseToken r")
  case None
  then show ?thesis unfolding ww_hand_back_def by (intro ww_inv_still [OF inv]) (auto intro!: pcs_kept_upd_pc)
next
  case (Some tok)
  obtain b s' where eq: "releaseLease (run_id r) tok (ww_runs W) = (b, s')" by force
  let ?W = "ww_hand_back w i r W"
  have step: "(run_step mc)\<^sup>*\<^sup>* (ww_runs W, ww_tokens W) (ww_runs ?W, ww_tokens ?W)"
    using step_releaseLease [of mc "ww_runs W" "ww_tokens W" "run_id r" tok] eq Some by (auto simp: ww_hand_back_def)
  have "pcs_kept W ?W" using Some eq unfolding ww_hand_back_def by (auto intro!: pcs_kept_upd_pc)
  then show ?thesis using release_moves(1) [OF ww_inv_D(1) [OF inv] eq, of mc] Some eq
    by (intro ww_inv_op [OF inv step, where evs = "if b then quiet(run_id r := HandedBack) else quiet"])
       (auto simp: ww_hand_back_def split: if_splits)
qed

lemma ww_beat_inv:
  assumes inv: "ww_inv (we_maxClaims env) W" and pc: "pc_of W w i = Turning e"
  shows "ww_inv (we_maxClaims env) (ww_beat env w i e now W)"
proof -
  let ?mc = "we_maxClaims env"
  obtain alive s' where eq: "heartbeat now (run_id (ex_run e)) (ex_token e) (we_leaseTtlMs env) (ww_runs W) = (alive, s')" by force
  have "run_step ?mc (ww_runs W, ww_tokens W) (s', ww_tokens W)" using step_heartbeat [of ?mc "ww_runs W" "ww_tokens W"] eq by (metis snd_conv)
  moreover have "store_moves ?mc quiet (ww_runs W) s'" using heartbeat_moves [OF ww_inv_D(1) [OF inv]] eq by (metis snd_conv)
  ultimately show ?thesis using eq pc unfolding ww_beat_def
    by (intro ww_inv_op [OF inv, where evs = quiet]) (auto intro!: pcs_kept_upd_pc)
qed

lemma ww_release_inv:
  assumes inv: "ww_inv (we_maxClaims env) W"
  shows "ww_inv (we_maxClaims env) (ww_release env w held pc now W)"
proof (cases pc)
  case RelBeat
  let ?mc = "we_maxClaims env"
  obtain alive s' where eq: "heartbeat now (hr_runId held) (hr_leaseToken held) (we_leaseTtlMs env) (ww_runs W) = (alive, s')" by force
  have "run_step ?mc (ww_runs W, ww_tokens W) (s', ww_tokens W)" using step_heartbeat [of ?mc "ww_runs W" "ww_tokens W"] eq by (metis snd_conv)
  moreover have "store_moves ?mc quiet (ww_runs W) s'" using heartbeat_moves [OF ww_inv_D(1) [OF inv]] eq by (metis snd_conv)
  ultimately show ?thesis using eq RelBeat unfolding ww_release_def
    by (intro ww_inv_op [OF inv, where evs = quiet]) (auto intro!: pcs_kept_worker)
next
  case RelFind
  then show ?thesis unfolding ww_release_def by (intro ww_inv_still [OF inv]) (auto intro!: pcs_kept_worker)
next
  case (RelForce sid)
  then show ?thesis unfolding ww_release_def by (intro ww_inv_still [OF inv]) (auto intro!: pcs_kept_worker)
next
  case RelRun
  let ?mc = "we_maxClaims env" and ?W = "ww_release env w held pc now W"
  obtain b s' where eq: "releaseLease (hr_runId held) (hr_leaseToken held) (ww_runs W) = (b, s')" by force
  have step: "(run_step ?mc)\<^sup>*\<^sup>* (ww_runs W, ww_tokens W) (ww_runs ?W, ww_tokens ?W)"
    using step_releaseLease [of ?mc "ww_runs W" "ww_tokens W" "hr_runId held" "hr_leaseToken held"] eq RelRun
    by (auto simp: ww_release_def)
  have "pcs_kept W ?W" using RelRun eq unfolding ww_release_def by (auto intro!: pcs_kept_worker)
  then show ?thesis using release_moves(1) [OF ww_inv_D(1) [OF inv] eq, of ?mc] RelRun eq
    by (intro ww_inv_op [OF inv step, where evs = "if b then quiet(hr_runId held := HandedBack) else quiet"])
       (auto simp: ww_release_def split: if_splits)
qed

lemma distinct_count: "distinct xs \<Longrightarrow> count_list xs x = (if x \<in> set xs then 1 else 0)"
  by (induction xs) (auto simp: count_list_0_iff)

lemma ww_reap_inv:
  assumes inv: "ww_inv (we_maxClaims env) W"
  shows "ww_inv (we_maxClaims env) (ww_reap env now maxAge W)"
proof -
  let ?mc = "we_maxClaims env" and ?W = "ww_reap env now maxAge W"
  note R = ww_inv_D(1) [OF inv]
  obtain res s' where eq: "reapExpired ?mc now maxAge (ww_runs W) = (res, s')" by force
  let ?evs = "\<lambda>rid. if rid \<in> run_id ` set (lapsed_runs now (ww_runs W)) then Retired False else Stays"
  have W': "ww_runs ?W = s'" "ww_reaped ?W = ww_reaped W @ map run_id (lapsed_runs now (ww_runs W))"
    using eq reapExpired_result(3) [OF R eq] by (simp_all add: ww_reap_def)
  have "count_list (map run_id (lapsed_runs now (ww_runs W))) rid = (if ?evs rid = Retired False then 1 else 0)" for rid
    using lapsed_runs_props(1) [OF R, of now] by (simp add: distinct_count)
  then have P: "count_list (ww_reaped ?W) rid = count_list (ww_reaped W) rid + (if ?evs rid = Retired False then 1 else 0)" for rid
    by (simp add: W')
  have step: "(run_step ?mc)\<^sup>*\<^sup>* (ww_runs W, ww_tokens W) (ww_runs ?W, ww_tokens ?W)"
    using step_reapExpired [of ?mc "ww_runs W" "ww_tokens W" now maxAge] eq by (auto simp: ww_reap_def)
  show ?thesis
    by (rule ww_inv_op [OF inv step, where evs = ?evs])
       (use reap_moves [OF R eq] W' P eq in \<open>auto simp: ww_reap_def split: if_splits intro!: pcs_kept_same\<close>)
qed

lemma releaseStranded_still:
  "ww_runs (releaseStranded j W) = ww_runs W" "ww_tokens (releaseStranded j W) = ww_tokens W"
  "ww_results (releaseStranded j W) = ww_results W" "ww_handedBack (releaseStranded j W) = ww_handedBack W"
  "ww_reaped (releaseStranded j W) = ww_reaped W" "ww_workers (releaseStranded j W) = ww_workers W"
  by (auto simp: releaseStranded_def split: prod.split list.split option.split)

lemma ww_inv_start: "ww_inv mc ww_start"
proof -
  have pcs: "pc_of ww_start w i = Ended" for w i
    by (simp add: ww_start_def pc_of_def new_worker_def loop_at_def)
  have runs: "get_run (ww_runs ww_start) rid = None" for rid
    by (simp add: ww_start_def createMemoryRunStore_def get_run_def)
  have "run_inv (ww_runs ww_start, ww_tokens ww_start)" by (rule run_inv_init) (simp add: run_init_def ww_start_def)
  then show ?thesis unfolding ww_inv_def using pcs runs by (simp add: charged_def ww_start_def)
qed

lemma ww_inv_enters:
  assumes inv: "ww_inv mc W" and pc: "pc_of W w i = Claimed r"
  shows "ww_inv mc (ww_enter env w i r W)"
proof (rule ww_inv_still [OF inv])
  show "pcs_kept W (ww_enter env w i r W)" unfolding ww_enter_def
    by (rule pcs_kept_loop [where i = i and pc = "case start_exec r True of None \<Rightarrow> AtTop 0 | Some e \<Rightarrow> Turning e"])
       (use pc in \<open>auto simp: enter_turn_loops dest: start_exec_lease split: option.splits\<close>)
qed (simp_all add: ww_enter_def)

lemmas ww_inv_kept = ww_claim_inv ww_inline_inv ww_return_inv ww_complete_inv ww_fail_inv ww_hand_back_inv ww_beat_inv
  ww_release_inv ww_reap_inv ww_inv_enters

lemma ww_inv_upd_pc:
  assumes "ww_inv mc W" "pc_lease pc = None \<or> pc_lease pc = pc_lease (pc_of W w i)" "\<And>e res. pc \<noteq> Returned e res"
  shows "ww_inv mc (upd_pc w i pc W)"
  by (rule ww_inv_still [OF assms(1)]) (simp_all add: pcs_kept_upd_pc [OF refl assms(2,3)])

lemma ww_inv_worker:
  "ww_inv mc W \<Longrightarrow> wk_loops (f (ww_workers W w)) = wk_loops (ww_workers W w) \<Longrightarrow> ww_inv mc (upd_worker w f W)"
  by (rule ww_inv_still) (simp_all add: pcs_kept_worker)

lemma ww_inv_run_step: "ww_step env W W' \<Longrightarrow> ww_inv (we_maxClaims env) W \<Longrightarrow> ww_inv (we_maxClaims env) W'"
proof (induction rule: ww_step.induct)
  case (ww_starts W w)
  then show ?case by (intro ww_inv_still [OF ww_starts]) (simp_all add: pcs_kept_start)
next
  case (ww_claim_throws W w i n)
  then show ?case by (intro ww_inv_upd_pc) (auto simp: after_claim_def)
next
  case (ww_session W ss J)
  then show ?case by (intro ww_inv_still [OF ww_session(2)] pcs_kept_same) simp_all
next
  case (ww_fail_throws W w i e err nonRetryable)
  then show ?case
    by (intro ww_inv_still [OF ww_fail_throws(2)]) (auto intro!: pcs_kept_loop [where i = i] split: if_splits)
next
  case (ww_strands j W)
  then show ?case by (intro ww_inv_still [OF ww_strands(2)] pcs_kept_same) (simp_all add: releaseStranded_still)
next
  case (ww_enqueues newId W now inp)
  then show ?case using step_enqueue [OF ww_enqueues(1,2)]
    by (intro ww_inv_op [OF ww_enqueues(3), where evs = quiet]) (auto intro!: pcs_kept_same enqueue_moves)
next
  case (ww_delivers W rid tk st)
  then show ?case using step_setDeliveryState
    by (intro ww_inv_op [OF ww_delivers, where evs = quiet])
       (auto intro!: pcs_kept_same setDeliveryState_moves [OF ww_inv_D(1)])
next
  case (ww_records W rid a c out)
  then show ?case using step_record
    by (intro ww_inv_op [OF ww_records, where evs = quiet]) (auto intro!: pcs_kept_same store_moves_same)
qed (auto intro: ww_inv_kept intro!: ww_inv_upd_pc ww_inv_worker)

interpretation ww_machine: invariant_machine "\<lambda>W. W = ww_start" "ww_step env" "ww_inv (we_maxClaims env)" for env
  by unfold_locales (auto simp: ww_inv_start ww_inv_run_step)

section \<open>Properties of the workers\<close>

lemma lease_session:
  assumes "ww_inv mc W" "pc_lease (pc_of W w i) = Some (r, t)" "get_run (ww_runs W) (run_id r) = Some q"
  shows "run_sessionId q = run_sessionId r" "run_id q = run_id r"
  using ww_inv_D(2) [OF assms(1,2)] assms(3) get_run_D(1) [OF ww_inv_D(1) [OF assms(1)] assms(3)]
  by (auto simp: lease_ok_def run_evolves_def)

definition holds_run :: "run_store \<Rightarrow> run \<Rightarrow> string \<Rightarrow> bool" where
  "holds_run s r t \<longleftrightarrow> (\<exists>q. get_run s (run_id r) = Some q \<and> run_leaseToken q = Some t)"

text \<open>
  C2. Whatever the workers, the inline executions of the API, the reaper, shutdowns and failing store
  calls do between each other's steps: of all the executions under way, two that still hold their leases
  work on different conversations, so at most one live turn runs per conversation; and the result of a
  run that is done is one that its turn returned in the last claim of the run, on the run's own request,
  never the late answer of a worker that had lost it.
\<close>

theorem turns_exclusive:
  assumes "(ww_step env)\<^sup>*\<^sup>* ww_start W"
  shows "(\<forall>w i r t w' i' r' t'. pc_lease (pc_of W w i) = Some (r, t) \<and> holds_run (ww_runs W) r t \<and>
       pc_lease (pc_of W w' i') = Some (r', t') \<and> holds_run (ww_runs W) r' t' \<and> (w, i) \<noteq> (w', i') \<longrightarrow>
       run_sessionId r \<noteq> run_sessionId r') \<and>
    (\<forall>rid q. get_run (ww_runs W) rid = Some q \<and> run_status q = RDone \<longrightarrow>
       (\<exists>t ti res. (t, ti, res) \<in> set (ww_results W) \<and> run_result q = Some res \<and> ti_runId ti = rid \<and>
          ti_attempt ti = run_attempts q \<and> ti_request ti = run_request q))"
proof -
  have inv: "ww_inv (we_maxClaims env) W" using ww_machine.inv_reachable assms by blast
  note R = ww_inv_D(1) [OF inv]
  have "run_sessionId r \<noteq> run_sessionId r'"
    if a: "pc_lease (pc_of W w i) = Some (r, t)" "holds_run (ww_runs W) r t"
      and b: "pc_lease (pc_of W w' i') = Some (r', t')" "holds_run (ww_runs W) r' t'" and ne: "(w, i) \<noteq> (w', i')"
    for w i r t w' i' r' t'
  proof
    assume same: "run_sessionId r = run_sessionId r'"
    obtain q q' where q: "get_run (ww_runs W) (run_id r) = Some q" "run_leaseToken q = Some t"
      and q': "get_run (ww_runs W) (run_id r') = Some q'" "run_leaseToken q' = Some t'"
      using a(2) b(2) by (auto simp: holds_run_def)
    have "run_id r = run_id r'"
      using run_inv_D(2) [OF R] q q' token_running [OF R q] token_running [OF R q'] same
        lease_session(1) [OF inv a(1) q(1)] lease_session(1) [OF inv b(1) q'(1)]
      unfolding runs_exclusive_def by metis
    then have "t = t'" using q q' by simp
    then show False using ww_inv_D(3) [OF inv a(1)] b(1) ne by blast
  qed
  moreover have "\<exists>t ti res. (t, ti, res) \<in> set (ww_results W) \<and> run_result q = Some res \<and> ti_runId ti = rid \<and>
      ti_attempt ti = run_attempts q \<and> ti_request ti = run_request q"
    if "get_run (ww_runs W) rid = Some q" "run_status q = RDone" for rid q
    using ww_inv_D(5) [OF inv that] unfolding result_of_def by fast
  ultimately show ?thesis by blast
qed

text \<open>
  C4. A run cannot be tried for ever. Each of its claims ended in an error of its turn, in a handback by a
  worker that was shutting down or in a reaping, or is the one under way or the one that finished it;
  errors are bounded by the attempts the run allows, and where the store bounds claims, no more than that
  many are made besides one for each handback.
\<close>

theorem claims_bounded:
  assumes "(ww_step env)\<^sup>*\<^sup>* ww_start W" and q: "get_run (ww_runs W) rid = Some q"
  shows "run_attempts q = run_errorAttempts q + int (count_list (ww_handedBack W) rid) + int (count_list (ww_reaped W) rid) +
      (if run_status q \<in> {RRunning, RDone} then 1 else 0) \<and>
    0 \<le> run_errorAttempts q \<and> run_errorAttempts q \<le> max 1 (run_maxAttempts q) \<and>
    (\<forall>m. we_maxClaims env = Some m \<longrightarrow> run_attempts q \<le> max 1 m + int (count_list (ww_handedBack W) rid))"
proof -
  have inv: "ww_inv (we_maxClaims env) W" using ww_machine.inv_reachable assms(1) by blast
  have "run_charged (we_maxClaims env) (count_list (ww_handedBack W) rid) (count_list (ww_reaped W) rid) q"
    using ww_inv_D(6) [OF inv] q by (simp add: charged_def)
  moreover have "0 \<le> run_errorAttempts q" "run_errorAttempts q \<le> max 1 (run_maxAttempts q)"
    using get_run_D(2) [OF ww_inv_D(1) [OF inv] q] by (auto simp: run_wf_def)
  ultimately show ?thesis unfolding run_charged_def by blast
qed

lemma ww_step_runs: "ww_step env W W' \<Longrightarrow> (run_step (we_maxClaims env))\<^sup>*\<^sup>* (ww_runs W, ww_tokens W) (ww_runs W', ww_tokens W')"
proof (induction rule: ww_step.induct)
  case (ww_claims W w i n tok now)
  then show ?case using step_claim [OF ww_claims(3)] by (auto simp: ww_claim_def split: prod.split) (metis r_into_rtranclp snd_conv)
next
  case (ww_drives tok W w runId now)
  then show ?case using step_claimById [OF ww_drives(1)]
    by (auto simp: ww_inline_def Let_def split: prod.split option.split) (metis r_into_rtranclp snd_conv)+
next
  case (ww_releases W w held pc now)
  then show ?case using step_heartbeat step_releaseLease
    by (cases pc) (auto simp: ww_release_def split: prod.split, (metis r_into_rtranclp snd_conv)+)
next
  case (ww_hands_back W w i r)
  then show ?case using step_releaseLease
    by (auto simp: ww_hand_back_def split: prod.split option.split) (metis r_into_rtranclp snd_conv)
next
  case (ww_beats W w i e now)
  then show ?case using step_heartbeat by (auto simp: ww_beat_def split: prod.split) (metis r_into_rtranclp snd_conv)
next
  case (ww_reaps W now maxAge)
  then show ?case using step_reapExpired by (auto simp: ww_reap_def split: prod.split) (metis r_into_rtranclp snd_conv)
qed (auto simp: ww_enter_def ww_return_def ww_complete_def ww_fail_def releaseStranded_still
      intro: r_into_rtranclp run_step.intros)

lemma ww_steps_rel:
  assumes "(ww_step env)\<^sup>*\<^sup>* W W'" "ww_inv (we_maxClaims env) W"
  shows "run_rel (ww_runs W, ww_tokens W) (ww_runs W', ww_tokens W')"
proof -
  have "(run_step (we_maxClaims env))\<^sup>*\<^sup>* (ww_runs W, ww_tokens W) (ww_runs W', ww_tokens W')"
    using assms(1) by (induction rule: rtranclp_induct) (auto dest: ww_step_runs)
  then show ?thesis using run_machine.rel_steps ww_inv_D(1) [OF assms(2)] by blast
qed

lemma three_lost_beats:
  "\<not> ex_leaseLost e \<Longrightarrow> ex_cancelled (on_beat (Some False) (on_beat (Some False) (on_beat (Some False) e)))"
  by (simp add: Let_def LEASE_LOST_CONSECUTIVE_def)

text \<open>
  C6. A turn that has lost its run can do no harm to it and is called off: from the moment a run is no
  longer held under the token of an execution, whatever happens, every beat of that execution is refused,
  its result and its error change nothing in the store, and the third refusal in a row cancels it.
\<close>

theorem lost_turn_called_off:
  assumes "(ww_step env)\<^sup>*\<^sup>* ww_start W" and pc: "pc_lease (pc_of W w i) = Some (r, t)"
    and lost: "\<not> holds_run (ww_runs W) r t" and later: "(ww_step env)\<^sup>*\<^sup>* W W'"
  shows "heartbeat now (run_id r) t ttl (ww_runs W') = (False, ww_runs W') \<and>
    complete now (run_id r) t res (ww_runs W') = (False, ww_runs W') \<and>
    fail_run mc now (run_id r) t err retry (ww_runs W') = (False, ww_runs W') \<and>
    (\<forall>e. \<not> ex_leaseLost e \<longrightarrow> ex_cancelled (on_beat (Some False) (on_beat (Some False) (on_beat (Some False) e))))"
proof -
  have inv: "ww_inv (we_maxClaims env) W" using ww_machine.inv_reachable assms(1) by blast
  have ok: "lease_ok (ww_runs W) (ww_tokens W) (r, t)" by (rule ww_inv_D(2) [OF inv pc])
  then have "\<not> holds_token (ww_runs W) t" using lost by (auto simp: lease_ok_def holds_token_def holds_run_def)
  moreover have "t \<in> ww_tokens W" using ok by (simp add: lease_ok_def)
  ultimately have "\<not> holds_token (ww_runs W') t" using ww_steps_rel [OF later inv] unfolding run_rel_def fst_conv snd_conv by blast
  then have "run_leaseToken q \<noteq> Some t" if "get_run (ww_runs W') rid = Some q" for rid q
    using that by (auto simp: holds_token_def)
  then show ?thesis using three_lost_beats
    by (auto simp: heartbeat_def complete_def fail_run_def split: option.split)
qed

text \<open>
  A short history for the witnesses: worker \<open>A\<close> claims the run \<open>r1\<close> of the thread \<open>T\<close> and stops beating, the
  reaper takes the run away, worker \<open>B\<close> claims it again and takes the lease of the session.
\<close>

definition demo_worker_env :: worker_env where
  "demo_worker_env = \<lparr> we_leaseTtlMs = 100, we_heartbeatIntervalMs = None, we_pollMs = None, we_maxClaims = Some 2,
     we_origin = (\<lambda>_. (None, no_legacy)) \<rparr>"

definition demo_work :: enqueue_input where
  "demo_work = \<lparr> eq_sessionId = ''T'', eq_request = JNull, eq_dedupKey = None, eq_maxAttempts = None \<rparr>"

definition demo_first :: run where
  "demo_first = lease_run ''ta'' 10 ''A'' 100 (new_run ''r1'' 5 demo_work)"

definition demo_again :: run where
  "demo_again = lease_run ''tb'' 210 ''B'' 100 (fst (reap_target (Some 2) 200 None demo_first))"

definition demo_ready :: workers_world where
  "demo_ready = upd_worker ''A'' worker_start (ww_start\<lparr> ww_runs := snd (enqueue ''r1'' 5 demo_work createMemoryRunStore) \<rparr>)"

definition demo_claims :: workers_world where
  "demo_claims = ww_claim demo_worker_env ''A'' 0 0 ''ta'' 10 demo_ready"

definition demo_turning :: workers_world where
  "demo_turning = ww_enter demo_worker_env ''A'' 0 demo_first demo_claims"

definition demo_reaped :: workers_world where
  "demo_reaped = upd_worker ''B'' worker_start (ww_reap demo_worker_env 200 None demo_turning)"

definition demo_reclaims :: workers_world where
  "demo_reclaims = ww_claim demo_worker_env ''B'' 0 0 ''tb'' 210 demo_reaped"

definition demo_taken :: workers_world where
  "demo_taken = ww_enter demo_worker_env ''B'' 0 demo_again demo_reclaims"

lemma demo_ready_reachable: "(ww_step demo_worker_env)\<^sup>*\<^sup>* ww_start demo_ready"
proof -
  have "ww_step demo_worker_env ww_start (ww_start\<lparr> ww_runs := snd (enqueue ''r1'' 5 demo_work (ww_runs ww_start)) \<rparr>)"
    by (rule ww_enqueues) code_simp+
  then show ?thesis unfolding demo_ready_def using ww_starts [of demo_worker_env _ "''A''"]
    by (metis converse_rtranclp_into_rtranclp r_into_rtranclp ww_start_def workers_world.select_convs(1))
qed

lemma demo_pcs:
  "pc_of demo_ready ''A'' 0 = AtTop 0" "pc_of demo_claims ''A'' 0 = Claimed demo_first"
  "pc_of demo_reaped ''B'' 0 = AtTop 0" "pc_of demo_reclaims ''B'' 0 = Claimed demo_again"
  "pc_of demo_taken ''A'' 0 = Turning (the (start_exec demo_first True))"
  "pc_of demo_taken ''B'' 0 = Turning (the (start_exec demo_again True))"
  by code_simp+

lemma demo_taken_reachable:
  "(ww_step demo_worker_env)\<^sup>*\<^sup>* ww_start demo_claims" "(ww_step demo_worker_env)\<^sup>*\<^sup>* demo_claims demo_taken"
proof -
  have "ww_step demo_worker_env demo_ready demo_claims"
    unfolding demo_claims_def by (rule ww_claims [OF demo_pcs(1)]) code_simp+
  with demo_ready_reachable show "(ww_step demo_worker_env)\<^sup>*\<^sup>* ww_start demo_claims" by simp
  have "ww_step demo_worker_env demo_claims demo_turning"
    unfolding demo_turning_def by (rule ww_enters [OF demo_pcs(2)]) code_simp
  moreover have "ww_step demo_worker_env demo_turning (ww_reap demo_worker_env 200 None demo_turning)" by (rule ww_reaps)
  moreover have "ww_step demo_worker_env (ww_reap demo_worker_env 200 None demo_turning) demo_reaped"
    unfolding demo_reaped_def by (rule ww_starts)
  moreover have "ww_step demo_worker_env demo_reaped demo_reclaims"
    unfolding demo_reclaims_def by (rule ww_claims [OF demo_pcs(3)]) code_simp+
  moreover have "ww_step demo_worker_env demo_reclaims demo_taken"
    unfolding demo_taken_def by (rule ww_enters [OF demo_pcs(4)]) code_simp
  ultimately show "(ww_step demo_worker_env)\<^sup>*\<^sup>* demo_claims demo_taken"
    by (meson converse_rtranclp_into_rtranclp rtranclp.rtrancl_refl)
qed

lemmas demo_reachable = rtranclp_trans [OF demo_taken_reachable]

lemma demo_taken_run: "get_run (ww_runs demo_taken) ''r1'' = Some demo_again"
  by code_simp

theorem turns_exclusive_witness:
  "\<not> (holds_run (ww_runs demo_taken) demo_first ''ta'' \<and> holds_run (ww_runs demo_taken) demo_again ''tb'')"
proof -
  have l: "pc_lease (pc_of demo_taken ''A'' 0) = Some (demo_first, ''ta'')"
    "pc_lease (pc_of demo_taken ''B'' 0) = Some (demo_again, ''tb'')"
    unfolding demo_pcs by code_simp+
  have "run_sessionId demo_first = run_sessionId demo_again" by code_simp
  then show ?thesis using turns_exclusive [OF demo_reachable] l by blast
qed

theorem claims_bounded_witness: "run_attempts demo_again = 2 \<and> run_attempts demo_again \<le> max 1 2 + int (count_list (ww_handedBack demo_taken) ''r1'')"
proof -
  have "we_maxClaims demo_worker_env = Some 2" "run_attempts demo_again = 2" by code_simp+
  then show ?thesis using claims_bounded [OF demo_reachable demo_taken_run] by blast
qed

theorem lost_turn_called_off_witness:
  "heartbeat 220 (run_id demo_first) ''ta'' 100 (ww_runs demo_taken) = (False, ww_runs demo_taken)"
proof -
  have l: "pc_lease (pc_of demo_taken ''A'' 0) = Some (demo_first, ''ta'')" unfolding demo_pcs by code_simp
  have "run_id demo_first = ''r1''" "run_leaseToken demo_again = Some ''tb''" by code_simp+
  then have "\<not> holds_run (ww_runs demo_taken) demo_first ''ta''" by (simp add: holds_run_def demo_taken_run)
  from lost_turn_called_off [OF demo_reachable l this rtranclp.rtrancl_refl] show ?thesis by blast
qed

section \<open>The lease of a session is released under another worker\<close>

text \<open>
  The reaper releases the session leases of the runs it has retired after it has put the runs back. A
  worker that claims such a run in between and takes the lease of the session loses it while it holds the
  run: the release does not look at who holds the lease.
\<close>

definition demo_session :: workers_world where
  "demo_session = demo_taken\<lparr>
     ww_sessions := snd (getOrCreateByThread ''S'' 211 ''T'' SChannel ''channel:c'' None None createMemorySessionStore),
     ww_sessionTokens := {''S''} \<rparr>"

definition demo_held :: workers_world where
  "demo_held = demo_session\<lparr> ww_sessions := snd (acquireLease 1000 212 ''ls'' ''S'' (Some HTurn) (ww_sessions demo_session)),
     ww_sessionTokens := {''ls'', ''S''} \<rparr>"

lemma demo_held_reachable: "(ww_step demo_worker_env)\<^sup>*\<^sup>* ww_start demo_held"
proof -
  have s: "ww_sessions demo_taken = createMemorySessionStore" "ww_sessionTokens demo_taken = {}"
    "ww_sessionTokens demo_session = {''S''}" by (simp_all add: demo_taken_def ww_enter_def upd_worker_def
      demo_reclaims_def ww_claim_def upd_pc_def demo_reaped_def ww_reap_def demo_turning_def demo_claims_def demo_ready_def
      ww_start_def demo_session_def split: prod.split)
  have "ww_step demo_worker_env demo_taken demo_session" unfolding demo_session_def
    by (rule ww_session) (use step_getOrCreate [of "''S''" "{}" createMemorySessionStore] s in simp)
  moreover have "ww_step demo_worker_env demo_session demo_held" unfolding demo_held_def
    by (rule ww_session) (use step_acquireLease [of "''ls''" "{''S''}" "ww_sessions demo_session"] s in simp)
  ultimately show ?thesis using demo_reachable by simp
qed

lemma reaper_releases_new_holder:
  "(ww_step demo_worker_env)\<^sup>*\<^sup>* ww_start demo_held \<and> holds_run (ww_runs demo_held) demo_again ''tb'' \<and>
   lease_valid \<lparr> le_sessionId = ''S'', le_token = ''ls'' \<rparr> (ww_sessions demo_held) \<and>
   \<not> lease_valid \<lparr> le_sessionId = ''S'', le_token = ''ls'' \<rparr> (ww_sessions (releaseStranded 0 (releaseStranded 0 demo_held)))"
proof (intro conjI)
  have "run_id demo_again = ''r1''" "run_leaseToken demo_again = Some ''tb''" by code_simp+
  moreover have "ww_runs demo_held = ww_runs demo_taken" by (simp add: demo_held_def demo_session_def)
  ultimately show "holds_run (ww_runs demo_held) demo_again ''tb''" by (simp add: holds_run_def demo_taken_run)
qed (rule demo_held_reachable, code_simp+)

end
