(* ===== verification/Run_Signals.thy ===== *)
theory Run_Signals
  imports Prelude
begin

text \<open>
  What reaches a turn while it runs and what it shows of itself: the signals sent to a run and the poll that
  hands them to the turn (\<open>src/runs/run-signal-store.ts\<close>), the stream of its text
  (\<open>src/runs/turn-stream.ts\<close>), its activity log (\<open>src/runs/run-activity-store.ts\<close>) and the drain of a worker
  process behind a newer build (\<open>src/runs/drain.ts\<close>).

  The poll is split at its \<open>await\<close>s. \<open>takePending\<close> runs when a drain begins, before the first \<open>await\<close>; each
  handler is an \<open>await\<close> of its own, which may throw. Timers are steps that may happen whenever they are set.
\<close>

section \<open>The signal store\<close>

record run_signal =
  sg_kind :: string
  sg_text :: "string option"
  sg_ts :: "string option"

type_synonym signal_store = "(string, run_signal list) jsmap"

definition pending_of :: "signal_store \<Rightarrow> string \<Rightarrow> run_signal list" where
  "pending_of m runId = (case map_of m runId of None \<Rightarrow> [] | Some l \<Rightarrow> l)"

text \<open>\<open>send\<close> without the call of the listeners, which the poll below makes.\<close>

definition push_signal :: "string \<Rightarrow> run_signal \<Rightarrow> signal_store \<Rightarrow> signal_store" where
  "push_signal runId s m = jmap_set runId (pending_of m runId @ [s]) m"

definition takePending :: "string \<Rightarrow> signal_store \<Rightarrow> run_signal list \<times> signal_store" where
  "takePending runId m = (pending_of m runId, jmap_delete runId m)"

definition pendingRunIds :: "signal_store \<Rightarrow> string list" where
  "pendingRunIds m = map fst m"

lemma pending_of_push [simp]: "pending_of (push_signal r s m) r' = (if r' = r then pending_of m r @ [s] else pending_of m r')"
  by (simp add: pending_of_def push_signal_def)

lemma pending_of_take [simp]: "pending_of (snd (takePending r m)) r' = (if r' = r then [] else pending_of m r')"
  by (simp add: pending_of_def takePending_def delete_conv)

section \<open>The poll of one run\<close>

text \<open>
  The variables of \<open>startSignalPoll\<close>, the signals of the drain under way that are not handled yet, and what
  became of the others, in order. \<open>sp_timer\<close> also stands for the subscription, which ends with it.
\<close>

datatype signal_fate = HandlerRan | HandlerThrew | NotForHandler | LostWithBatch

record signal_poll =
  sp_store :: signal_store
  sp_draining :: bool
  sp_redrain :: bool
  sp_accepting :: bool
  sp_timer :: bool
  sp_batch :: "run_signal list"
  sp_log :: "(run_signal \<times> signal_fate) list"

definition startSignalPoll :: "signal_store \<Rightarrow> signal_poll" where
  "startSignalPoll m = \<lparr> sp_store = m, sp_draining = False, sp_redrain = False, sp_accepting = True, sp_timer = True,
     sp_batch = [], sp_log = [] \<rparr>"

definition drain :: "string \<Rightarrow> bool \<Rightarrow> signal_poll \<Rightarrow> signal_poll" where
  "drain runId forced p =
     (if \<not> sp_accepting p \<and> \<not> forced then p
      else if sp_draining p then p\<lparr> sp_redrain := True \<rparr>
      else (case takePending runId (sp_store p) of
              (batch, m) \<Rightarrow> p\<lparr> sp_draining := True, sp_batch := batch, sp_store := m \<rparr>))"

definition wants_handler :: "run_signal \<Rightarrow> bool" where
  "wants_handler s \<longleftrightarrow> sg_kind s = ''abort'' \<or> (sg_kind s = ''steer'' \<or> sg_kind s = ''followUp'') \<and> truthy (sg_text s)"

text \<open>One turn of the loop over the batch; a handler that throws ends the loop.\<close>

definition handle_next :: "bool \<Rightarrow> signal_poll \<Rightarrow> signal_poll" where
  "handle_next throws p =
     (case sp_batch p of
        [] \<Rightarrow> p
      | s # rest \<Rightarrow>
          if \<not> wants_handler s then p\<lparr> sp_batch := rest, sp_log := sp_log p @ [(s, NotForHandler)] \<rparr>
          else if throws
          then p\<lparr> sp_batch := [], sp_log := sp_log p @ (s, HandlerThrew) # map (\<lambda>x. (x, LostWithBatch)) rest \<rparr>
          else p\<lparr> sp_batch := rest, sp_log := sp_log p @ [(s, HandlerRan)] \<rparr>)"

definition finish_drain :: "string \<Rightarrow> signal_poll \<Rightarrow> signal_poll" where
  "finish_drain runId p =
     (let p1 = p\<lparr> sp_draining := False \<rparr>
      in if sp_redrain p1 then drain runId False (p1\<lparr> sp_redrain := False \<rparr>) else p1)"

text \<open>\<open>send\<close> with the subscription of the poll.\<close>

definition send_signal :: "string \<Rightarrow> string \<Rightarrow> run_signal \<Rightarrow> signal_poll \<Rightarrow> signal_poll" where
  "send_signal runId target s p =
     (let p1 = p\<lparr> sp_store := push_signal target s (sp_store p) \<rparr>
      in if target = runId \<and> sp_timer p1 then drain runId False p1 else p1)"

definition poll_tick :: "string \<Rightarrow> signal_poll \<Rightarrow> signal_poll" where
  "poll_tick runId p = (if sp_timer p then drain runId False p else p)"

text \<open>The stop function up to its first \<open>await\<close>; it returns once no drain is under way.\<close>

definition stop_poll :: "string \<Rightarrow> bool \<Rightarrow> signal_poll \<Rightarrow> signal_poll" where
  "stop_poll runId drainOnStop p =
     (let p1 = p\<lparr> sp_accepting := False, sp_timer := False \<rparr> in if drainOnStop then drain runId True p1 else p1)"

definition stop_returns :: "signal_poll \<Rightarrow> bool" where
  "stop_returns p \<longleftrightarrow> \<not> sp_accepting p \<and> \<not> sp_draining p"

text \<open>The steps of the drain itself, and all steps with the signals sent to the run so far.\<close>

inductive drain_step :: "string \<Rightarrow> signal_poll \<Rightarrow> signal_poll \<Rightarrow> bool" for runId where
  drain_handles: "sp_draining p \<Longrightarrow> sp_batch p \<noteq> [] \<Longrightarrow> drain_step runId p (handle_next throws p)"
| drain_finishes: "sp_draining p \<Longrightarrow> sp_batch p = [] \<Longrightarrow> drain_step runId p (finish_drain runId p)"

inductive poll_step :: "string \<Rightarrow> signal_poll \<times> run_signal list \<Rightarrow> signal_poll \<times> run_signal list \<Rightarrow> bool" for runId where
  poll_drains: "drain_step runId p p' \<Longrightarrow> poll_step runId (p, sent) (p', sent)"
| poll_sends: "poll_step runId (p, sent) (send_signal runId target s p, if target = runId then sent @ [s] else sent)"
| poll_ticks: "poll_step runId (p, sent) (poll_tick runId p, sent)"
| poll_stops: "sp_accepting p \<Longrightarrow> poll_step runId (p, sent) (stop_poll runId drainOnStop p, sent)"

definition poll_init :: "string \<Rightarrow> signal_poll \<times> run_signal list \<Rightarrow> bool" where
  "poll_init runId c \<longleftrightarrow> (\<exists>m. c = (startSignalPoll m, pending_of m runId))"

text \<open>
  Every signal is in the log, in the batch or still in the store, in the order in which they were sent; and
  as long as the poll accepts signals, one that waits in the store will be taken when the batch is through,
  unless it was there before the poll and no drain has begun.
\<close>

fun fate_ok :: "(run_signal \<times> signal_fate) list \<Rightarrow> run_signal \<times> signal_fate \<Rightarrow> bool" where
  "fate_ok log (s, NotForHandler) \<longleftrightarrow> \<not> wants_handler s"
| "fate_ok log (s, LostWithBatch) \<longleftrightarrow> HandlerThrew \<in> snd ` set log"
| "fate_ok log (s, _) \<longleftrightarrow> wants_handler s"

definition poll_books :: "string \<Rightarrow> signal_poll \<Rightarrow> run_signal list \<Rightarrow> bool" where
  "poll_books runId p sent \<longleftrightarrow>
     map fst (sp_log p) @ sp_batch p @ pending_of (sp_store p) runId = sent \<and>
     (sp_accepting p \<longleftrightarrow> sp_timer p) \<and> (\<not> sp_draining p \<longrightarrow> sp_batch p = []) \<and>
     list_all (fate_ok (sp_log p)) (sp_log p)"

lemma fate_ok_mono: "fate_ok log x \<Longrightarrow> set log \<subseteq> set log' \<Longrightarrow> fate_ok log' x"
  by (cases "(log, x)" rule: fate_ok.cases) auto

definition poll_inv :: "string \<Rightarrow> signal_poll \<times> run_signal list \<Rightarrow> bool" where
  "poll_inv runId c \<longleftrightarrow> (case c of (p, sent) \<Rightarrow> poll_books runId p sent \<and>
     (sp_accepting p \<longrightarrow> pending_of (sp_store p) runId \<noteq> [] \<longrightarrow>
        sp_draining p \<and> sp_redrain p \<or> \<not> sp_draining p \<and> sp_log p = []))"

lemma drain_inv: "poll_books runId p sent \<Longrightarrow> poll_inv runId (drain runId forced p, sent)"
  by (auto simp: drain_def poll_inv_def poll_books_def takePending_def pending_of_def delete_conv split: option.splits)

lemma handle_next_inv:
  assumes inv: "poll_inv runId (p, sent)" and "sp_draining p"
  shows "poll_inv runId (handle_next throws p, sent)"
proof (cases "sp_batch p")
  case (Cons s rest)
  have "list_all (fate_ok (sp_log (handle_next throws p))) (sp_log (handle_next throws p))"
    using assms Cons by (auto simp: poll_inv_def poll_books_def handle_next_def list_all_iff intro: fate_ok_mono)
  then show ?thesis using assms Cons by (auto simp: poll_inv_def poll_books_def handle_next_def comp_def)
qed (use inv in \<open>simp add: handle_next_def\<close>)

lemma poll_inv_step: "poll_step runId c d \<Longrightarrow> poll_inv runId c \<Longrightarrow> poll_inv runId d"
proof (induction rule: poll_step.induct)
  case (poll_drains p p' sent)
  from poll_drains(1) show ?case
  proof (cases rule: drain_step.cases)
    case (drain_handles throws)
    with handle_next_inv poll_drains(2) show ?thesis by simp
  next
    case drain_finishes
    have b: "poll_books runId (p\<lparr> sp_draining := False, sp_redrain := r \<rparr>) sent" for r
      using drain_finishes poll_drains(2) by (auto simp: poll_inv_def poll_books_def)
    show ?thesis
    proof (cases "sp_redrain p")
      case True
      with drain_finishes drain_inv [OF b [of False]] show ?thesis by (simp add: finish_drain_def Let_def)
    next
      case False
      with drain_finishes poll_drains(2) show ?thesis
        by (auto simp: finish_drain_def Let_def poll_inv_def poll_books_def)
    qed
  qed
next
  case (poll_sends p sent target s)
  let ?sent = "if target = runId then sent @ [s] else sent"
  have b: "poll_books runId (p\<lparr> sp_store := push_signal target s (sp_store p) \<rparr>) ?sent"
    using poll_sends by (auto simp: poll_inv_def poll_books_def)
  show ?case
  proof (cases "target = runId \<and> sp_timer p")
    case True
    with drain_inv [OF b] show ?thesis by (simp add: send_signal_def Let_def)
  next
    case False
    with b poll_sends show ?thesis by (auto simp: send_signal_def Let_def poll_inv_def poll_books_def)
  qed
next
  case (poll_ticks p sent)
  then show ?case using drain_inv [of runId p sent False] by (simp add: poll_tick_def poll_inv_def)
next
  case (poll_stops p sent drainOnStop)
  then have b: "poll_books runId (p\<lparr> sp_accepting := False, sp_timer := False \<rparr>) sent"
    by (auto simp: poll_inv_def poll_books_def)
  then show ?case using drain_inv [OF b, of True] by (simp add: stop_poll_def Let_def poll_inv_def)
qed

interpretation poll_machine: invariant_machine "poll_init runId" "poll_step runId" "poll_inv runId" for runId
  by unfold_locales (auto simp: poll_init_def poll_inv_def poll_books_def startSignalPoll_def dest: poll_inv_step)

section \<open>Properties of the poll\<close>

text \<open>
  C32. Signals reach a turn once and in order. At any moment the signals sent to the run are those dealt
  with, those of the drain under way and those still in the store, in this order, each once; a signal the
  turn understands was given to its handler unless a handler threw, which loses the rest of its batch; and
  while the poll accepts signals, one that arrived after the first drain never waits for the timer: it is
  taken as soon as the batch under way is through.
\<close>

theorem signals_in_order:
  assumes "poll_init runId c0" "(poll_step runId)\<^sup>*\<^sup>* c0 (p, sent)"
  shows "map fst (sp_log p) @ sp_batch p @ pending_of (sp_store p) runId = sent \<and>
    (HandlerThrew \<notin> snd ` set (sp_log p) \<longrightarrow>
       (\<forall>(s, fate) \<in> set (sp_log p). fate = (if wants_handler s then HandlerRan else NotForHandler))) \<and>
    (sp_accepting p \<and> sp_log p \<noteq> [] \<and> pending_of (sp_store p) runId \<noteq> [] \<longrightarrow>
       sp_draining p \<and> sp_batch (finish_drain runId (p\<lparr> sp_batch := [] \<rparr>)) = pending_of (sp_store p) runId)"
proof -
  have inv: "poll_inv runId (p, sent)" using poll_machine.inv_reachable assms by blast
  have "fate = (if wants_handler s then HandlerRan else NotForHandler)"
    if "(s, fate) \<in> set (sp_log p)" "HandlerThrew \<notin> snd ` set (sp_log p)" for s fate
  proof -
    have "fate_ok (sp_log p) (s, fate)" using inv that(1) by (auto simp: poll_inv_def poll_books_def list_all_iff)
    moreover have "fate \<noteq> HandlerThrew" using that by force
    ultimately show ?thesis using that(2) by (cases fate) auto
  qed
  moreover have "sp_batch (finish_drain runId (p\<lparr> sp_batch := [] \<rparr>)) = pending_of (sp_store p) runId"
    if "sp_accepting p" "sp_redrain p"
    using that by (simp add: finish_drain_def Let_def drain_def takePending_def)
  ultimately show ?thesis using inv by (auto simp: poll_inv_def poll_books_def)
qed

definition drain_left :: "signal_poll \<Rightarrow> nat" where
  "drain_left p = length (sp_batch p) + (if sp_draining p then 1 else 0)"

lemma stopped_drain_step:
  assumes "drain_step runId p p'" "\<not> sp_accepting p"
  shows "drain_left p' < drain_left p \<and> \<not> sp_accepting p' \<and>
    map fst (sp_log p') @ sp_batch p' = map fst (sp_log p) @ sp_batch p"
  using assms(1)
proof cases
  case (drain_handles throws)
  then obtain s rest where "sp_batch p = s # rest" by (cases "sp_batch p") auto
  with drain_handles assms(2) show ?thesis by (auto simp: handle_next_def drain_left_def comp_def)
qed (use assms(2) in \<open>auto simp: finish_drain_def Let_def drain_def drain_left_def\<close>)

lemma stopped_drain_steps:
  "(drain_step runId ^^ n) p p' \<Longrightarrow> \<not> sp_accepting p \<Longrightarrow>
   n + drain_left p' \<le> drain_left p \<and> \<not> sp_accepting p' \<and> map fst (sp_log p') @ sp_batch p' = map fst (sp_log p) @ sp_batch p"
proof (induction n arbitrary: p')
  case (Suc n)
  then obtain q where q: "(drain_step runId ^^ n) p q" "drain_step runId q p'" by auto
  show ?case using Suc.IH [OF q(1) Suc.prems(2)] stopped_drain_step [OF q(2)] by auto
qed simp

text \<open>
  C33. Stopping the poll ends. Once it has been stopped, the drain under way takes at most one step for each
  signal it holds and one to finish, whatever is sent meanwhile; it cannot get stuck before the stop
  returns; and by then every signal it had taken has been dealt with.
\<close>

theorem poll_stop_terminates:
  assumes "poll_init runId c0" "(poll_step runId)\<^sup>*\<^sup>* c0 (p, sent)" and stopped: "\<not> sp_accepting p"
  shows "(\<forall>n p'. (drain_step runId ^^ n) p p' \<longrightarrow> n \<le> length (sp_batch p) + 1) \<and>
    (\<forall>p'. (drain_step runId)\<^sup>*\<^sup>* p p' \<and> (\<nexists>q. drain_step runId p' q) \<longrightarrow>
       stop_returns p' \<and> map fst (sp_log p') = map fst (sp_log p) @ sp_batch p) \<and>
    (\<forall>target s. sp_batch (send_signal runId target s p) = sp_batch p \<and> sp_draining (send_signal runId target s p) = sp_draining p \<and>
       sp_log (send_signal runId target s p) = sp_log p)"
proof (intro conjI allI impI)
  fix n p' assume "(drain_step runId ^^ n) p p'"
  then show "n \<le> length (sp_batch p) + 1" using stopped_drain_steps stopped by (fastforce simp: drain_left_def split: if_splits)
next
  fix p' assume a: "(drain_step runId)\<^sup>*\<^sup>* p p' \<and> (\<nexists>q. drain_step runId p' q)"
  then obtain n where n: "(drain_step runId ^^ n) p p'" by (metis rtranclp_imp_relpowp)
  note S = stopped_drain_steps [OF n stopped]
  have "\<not> sp_draining p'" using a drain_handles drain_finishes by metis
  with S show "stop_returns p'" by (simp add: stop_returns_def)
  have "(poll_step runId)\<^sup>*\<^sup>* (p, sent) (p', sent)" using conjunct1 [OF a]
    by (induction rule: rtranclp_induct) (auto intro: rtranclp.rtrancl_into_rtrancl poll_drains)
  then have "poll_inv runId (p', sent)" using poll_machine.inv_steps poll_machine.inv_reachable assms(1,2) by blast
  then have "sp_batch p' = []" using \<open>\<not> sp_draining p'\<close> by (simp add: poll_inv_def poll_books_def)
  then show "map fst (sp_log p') = map fst (sp_log p) @ sp_batch p" using S by simp
qed (use stopped in \<open>auto simp: send_signal_def Let_def drain_def\<close>)

text \<open>A turn is sent two messages, handles the first and is stopped.\<close>

definition demo_signal :: "string \<Rightarrow> run_signal" where
  "demo_signal text = \<lparr> sg_kind = ''steer'', sg_text = Some text, sg_ts = None \<rparr>"

definition demo_sent :: signal_poll where
  "demo_sent = send_signal ''r'' ''r'' (demo_signal ''b'') (send_signal ''r'' ''r'' (demo_signal ''a'') (startSignalPoll []))"

definition demo_stopped :: signal_poll where
  "demo_stopped = stop_poll ''r'' True demo_sent"

lemma demo_stopped_reachable:
  "poll_init ''r'' (startSignalPoll [], [])"
  "(poll_step ''r'')\<^sup>*\<^sup>* (startSignalPoll [], []) (demo_stopped, [demo_signal ''a'', demo_signal ''b''])"
proof -
  show "poll_init ''r'' (startSignalPoll [], [])"
    unfolding poll_init_def by (rule exI [of _ "[]"]) (simp add: pending_of_def)
  have "poll_step ''r'' (startSignalPoll [], []) (send_signal ''r'' ''r'' (demo_signal ''a'') (startSignalPoll []), [demo_signal ''a''])"
    using poll_sends [of "''r''" "startSignalPoll []" "[]" "''r''"] by simp
  moreover have "poll_step ''r'' (send_signal ''r'' ''r'' (demo_signal ''a'') (startSignalPoll []), [demo_signal ''a''])
      (demo_sent, [demo_signal ''a'', demo_signal ''b''])"
    unfolding demo_sent_def using poll_sends [of "''r''" _ "[demo_signal ''a'']" "''r''"] by simp
  moreover have "sp_accepting demo_sent" by code_simp
  ultimately show "(poll_step ''r'')\<^sup>*\<^sup>* (startSignalPoll [], []) (demo_stopped, [demo_signal ''a'', demo_signal ''b''])"
    unfolding demo_stopped_def
    by (meson poll_stops converse_rtranclp_into_rtranclp rtranclp.rtrancl_refl)
qed

theorem signals_in_order_witness:
  "map fst (sp_log demo_stopped) @ sp_batch demo_stopped @ pending_of (sp_store demo_stopped) ''r'' = [demo_signal ''a'', demo_signal ''b'']"
  using signals_in_order [OF demo_stopped_reachable] by (rule conjunct1)

theorem poll_stop_terminates_witness: "(\<forall>p'. \<not> (drain_step ''r'' ^^ 3) demo_stopped p') \<or> length (sp_batch demo_stopped) \<ge> 2"
proof -
  have "\<not> sp_accepting demo_stopped" by code_simp
  with poll_stop_terminates [OF demo_stopped_reachable] have "(drain_step ''r'' ^^ 3) demo_stopped p' \<longrightarrow> 3 \<le> length (sp_batch demo_stopped) + 1"
for p'
    by blast
  then show ?thesis by fastforce
qed

text \<open>
  The forced drain of a stop that finds a drain under way only asks for another one, and that request is
  refused when the drain ends, because it is not forced: a message sent before the stop stays in the store.
\<close>

lemma stop_leaves_signal:
  "stop_returns (finish_drain ''r'' (handle_next False demo_stopped)) \<and>
   pending_of (sp_store (finish_drain ''r'' (handle_next False demo_stopped))) ''r'' = [demo_signal ''b'']"
  by code_simp

lemma stop_takes_all: "\<not> sp_draining p \<Longrightarrow> pending_of (sp_store (stop_poll runId True p)) runId = []"
  by (simp add: stop_poll_def Let_def drain_def takePending_def pending_of_def delete_conv)

end
