(* ===== verification/Turn_Stream.thy ===== *)
theory Turn_Stream
  imports Prelude
begin

text \<open>
  What a running turn shows of itself: the stream of its text (\<open>src/runs/turn-stream.ts\<close>) and its activity
  log (\<open>src/runs/run-activity-store.ts\<close>); and the drain of a worker process behind a newer build
  (\<open>src/runs/drain.ts\<close>). A notification of a listener is an output of the operation; the timer that removes
  an entry is a flag of the entry and a step of its own.
\<close>

section \<open>The stream of a turn\<close>

definition DEFAULT_MAX_CHARS :: nat where "DEFAULT_MAX_CHARS = 200000"
definition FIRST_BLOCK_MAX_CHARS :: nat where "FIRST_BLOCK_MAX_CHARS = 20000"
definition BLOCK_JOIN :: string where "BLOCK_JOIN = [CHR 0x0A, CHR 0x0A]"

record stream_entry =
  te_text :: string
  te_firstBlock :: string
  te_firstBlockOpen :: bool
  te_firstBlockClosed :: bool
  te_surfacePosted :: bool
  te_live :: bool
  te_replying :: bool
  te_replyDone :: bool
  te_timer :: bool

definition makeEntry :: stream_entry where
  "makeEntry = \<lparr> te_text = [], te_firstBlock = [], te_firstBlockOpen = True, te_firstBlockClosed = False,
     te_surfacePosted = False, te_live = True, te_replying = True, te_replyDone = False, te_timer = False \<rparr>"

datatype stream_event = OnFirstBlock string | OnSurfacePosted

record turn_stream =
  ts_runs :: "(string, stream_entry) jsmap"
  ts_listeners :: "(string, nat list) jsmap"

definition ensure :: "string \<Rightarrow> turn_stream \<Rightarrow> stream_entry" where
  "ensure runId ts = (case map_of (ts_runs ts) runId of Some e \<Rightarrow> e | None \<Rightarrow> makeEntry)"

definition put_entry :: "string \<Rightarrow> stream_entry \<Rightarrow> turn_stream \<Rightarrow> turn_stream" where
  "put_entry runId e ts = ts\<lparr> ts_runs := jmap_set runId e (ts_runs ts) \<rparr>"

definition notify :: "string \<Rightarrow> stream_event \<Rightarrow> turn_stream \<Rightarrow> (nat \<times> stream_event) list" where
  "notify runId ev ts = (case map_of (ts_listeners ts) runId of None \<Rightarrow> [] | Some ls \<Rightarrow> map (\<lambda>l. (l, ev)) ls)"

definition stream_begin :: "string \<Rightarrow> turn_stream \<Rightarrow> turn_stream" where
  "stream_begin runId ts =
     put_entry runId (case map_of (ts_runs ts) runId of
                        Some e \<Rightarrow> e\<lparr> te_replying := True, te_live := True \<rparr> | None \<Rightarrow> makeEntry) ts"

definition stream_alive :: "turn_stream \<Rightarrow> string \<Rightarrow> bool" where
  "stream_alive ts runId = (case map_of (ts_runs ts) runId of Some e \<Rightarrow> te_live e | None \<Rightarrow> False)"

definition stream_replying :: "turn_stream \<Rightarrow> string \<Rightarrow> bool" where
  "stream_replying ts runId = (case map_of (ts_runs ts) runId of Some e \<Rightarrow> te_replying e | None \<Rightarrow> False)"

definition published :: "nat \<Rightarrow> string \<Rightarrow> stream_entry \<Rightarrow> stream_entry" where
  "published maxChars delta e =
     (let e1 = e\<lparr> te_replying := True, te_live := True, te_timer := False \<rparr>;
          e2 = (if te_firstBlockOpen e1 \<and> length (te_firstBlock e1) < FIRST_BLOCK_MAX_CHARS
                then e1\<lparr> te_firstBlock := take FIRST_BLOCK_MAX_CHARS (te_firstBlock e1 @ delta) \<rparr> else e1)
      in if length (te_text e2) < maxChars then e2\<lparr> te_text := take maxChars (te_text e2 @ delta) \<rparr> else e2)"

definition stream_publish :: "nat \<Rightarrow> string \<Rightarrow> string \<Rightarrow> turn_stream \<Rightarrow> turn_stream" where
  "stream_publish maxChars runId delta ts =
     (if delta = [] then ts else put_entry runId (published maxChars delta (ensure runId ts)) ts)"

definition block_started :: "nat \<Rightarrow> stream_entry \<Rightarrow> stream_entry" where
  "block_started maxChars e =
     (let e1 = (if te_firstBlock e \<noteq> [] then e\<lparr> te_firstBlockOpen := False \<rparr> else e)
      in if te_text e1 = [] \<or> js_endsWith (te_text e1) BLOCK_JOIN then e1
         else if length (te_text e1) < maxChars then e1\<lparr> te_text := take maxChars (te_text e1 @ BLOCK_JOIN) \<rparr> else e1)"

definition publishBlockStart :: "nat \<Rightarrow> string \<Rightarrow> turn_stream \<Rightarrow> turn_stream" where
  "publishBlockStart maxChars runId ts =
     (case map_of (ts_runs ts) runId of None \<Rightarrow> ts | Some e \<Rightarrow> put_entry runId (block_started maxChars e) ts)"

definition noteToolCall :: "string \<Rightarrow> turn_stream \<Rightarrow> (nat \<times> stream_event) list \<times> turn_stream" where
  "noteToolCall runId ts =
     (let e = ensure runId ts
      in if \<not> te_firstBlockOpen e then ([], put_entry runId e ts)
         else let e' = e\<lparr> te_firstBlockOpen := False, te_firstBlockClosed := (js_trim (te_firstBlock e) \<noteq> []) \<rparr>
              in (if te_firstBlockClosed e' then notify runId (OnFirstBlock (te_firstBlock e')) ts else [],
                  put_entry runId e' ts))"

definition stream_firstBlock :: "turn_stream \<Rightarrow> string \<Rightarrow> (string \<times> bool) option" where
  "stream_firstBlock ts runId =
     (case map_of (ts_runs ts) runId of
        None \<Rightarrow> None
      | Some e \<Rightarrow> if js_trim (te_firstBlock e) = [] then None else Some (te_firstBlock e, te_firstBlockClosed e))"

definition markSurfacePosted :: "string \<Rightarrow> turn_stream \<Rightarrow> (nat \<times> stream_event) list \<times> turn_stream" where
  "markSurfacePosted runId ts =
     (let e = ensure runId ts
      in if te_surfacePosted e then ([], put_entry runId e ts)
         else (notify runId OnSurfacePosted ts, put_entry runId (e\<lparr> te_surfacePosted := True \<rparr>) ts))"

definition stream_surfacePosted :: "turn_stream \<Rightarrow> string \<Rightarrow> bool" where
  "stream_surfacePosted ts runId = (case map_of (ts_runs ts) runId of Some e \<Rightarrow> te_surfacePosted e | None \<Rightarrow> False)"

definition stream_snapshot :: "turn_stream \<Rightarrow> string \<Rightarrow> string option" where
  "stream_snapshot ts runId =
     (case map_of (ts_runs ts) runId of Some e \<Rightarrow> if te_text e \<noteq> [] then Some (te_text e) else None | None \<Rightarrow> None)"

definition markReplyDone :: "string \<Rightarrow> turn_stream \<Rightarrow> turn_stream" where
  "markReplyDone runId ts = put_entry runId ((ensure runId ts)\<lparr> te_replyDone := True \<rparr>) ts"

definition isReplyDone :: "turn_stream \<Rightarrow> string \<Rightarrow> bool" where
  "isReplyDone ts runId = (case map_of (ts_runs ts) runId of Some e \<Rightarrow> te_replyDone e | None \<Rightarrow> False)"

definition stream_end :: "string \<Rightarrow> turn_stream \<Rightarrow> turn_stream" where
  "stream_end runId ts =
     (case map_of (ts_runs ts) runId of None \<Rightarrow> ts | Some e \<Rightarrow> put_entry runId (e\<lparr> te_live := False, te_timer := True \<rparr>) ts)"

text \<open>The timer of an ended entry fires.\<close>

definition stream_expire :: "string \<Rightarrow> turn_stream \<Rightarrow> turn_stream" where
  "stream_expire runId ts = ts\<lparr> ts_runs := jmap_delete runId (ts_runs ts) \<rparr>"

definition stream_subscribe :: "string \<Rightarrow> nat \<Rightarrow> turn_stream \<Rightarrow> turn_stream" where
  "stream_subscribe runId l ts =
     ts\<lparr> ts_listeners := jmap_set runId (jset_add l (case map_of (ts_listeners ts) runId of None \<Rightarrow> [] | Some ls \<Rightarrow> ls)) (ts_listeners ts) \<rparr>"

definition stream_unsubscribe :: "string \<Rightarrow> nat \<Rightarrow> turn_stream \<Rightarrow> turn_stream" where
  "stream_unsubscribe runId l ts =
     (case map_of (ts_listeners ts) runId of
        None \<Rightarrow> ts
      | Some ls \<Rightarrow>
          let ls' = filter (\<lambda>x. x \<noteq> l) ls
          in ts\<lparr> ts_listeners := (if ls' = [] then jmap_delete runId (ts_listeners ts) else jmap_set runId ls' (ts_listeners ts)) \<rparr>)"

section \<open>The stream as a state machine\<close>

text \<open>Each step with the notifications it sends.\<close>

inductive stream_step :: "nat \<Rightarrow> turn_stream \<Rightarrow> (nat \<times> stream_event) list \<Rightarrow> turn_stream \<Rightarrow> bool" for maxChars where
  "stream_step maxChars ts [] (stream_begin runId ts)"
| "stream_step maxChars ts [] (stream_publish maxChars runId delta ts)"
| "stream_step maxChars ts [] (publishBlockStart maxChars runId ts)"
| "noteToolCall runId ts = (evs, ts') \<Longrightarrow> stream_step maxChars ts evs ts'"
| "markSurfacePosted runId ts = (evs, ts') \<Longrightarrow> stream_step maxChars ts evs ts'"
| "stream_step maxChars ts [] (markReplyDone runId ts)"
| "stream_step maxChars ts [] (stream_end runId ts)"
| "map_of (ts_runs ts) runId = Some e \<Longrightarrow> te_timer e \<Longrightarrow> stream_step maxChars ts [] (stream_expire runId ts)"
| "stream_step maxChars ts [] (stream_subscribe runId l ts)"
| "stream_step maxChars ts [] (stream_unsubscribe runId l ts)"

definition entry_wf :: "nat \<Rightarrow> stream_entry \<Rightarrow> bool" where
  "entry_wf maxChars e \<longleftrightarrow> length (te_text e) \<le> maxChars \<and> length (te_firstBlock e) \<le> FIRST_BLOCK_MAX_CHARS \<and>
     (te_firstBlockClosed e \<longrightarrow> \<not> te_firstBlockOpen e \<and> js_trim (te_firstBlock e) \<noteq> []) \<and>
     (te_live e \<longrightarrow> te_replying e)"

text \<open>What a reader of one entry can rely on between two looks at it.\<close>

definition entry_grows :: "stream_entry \<Rightarrow> stream_entry \<Rightarrow> bool" where
  "entry_grows e e' \<longleftrightarrow> take (length (te_text e)) (te_text e') = te_text e \<and>
     take (length (te_firstBlock e)) (te_firstBlock e') = te_firstBlock e \<and>
     (\<not> te_firstBlockOpen e \<longrightarrow> te_firstBlock e' = te_firstBlock e \<and> \<not> te_firstBlockOpen e' \<and>
        te_firstBlockClosed e' = te_firstBlockClosed e) \<and>
     (te_surfacePosted e \<longrightarrow> te_surfacePosted e') \<and> (te_replyDone e \<longrightarrow> te_replyDone e')"

definition stream_wf :: "nat \<Rightarrow> turn_stream \<Rightarrow> bool" where
  "stream_wf maxChars ts \<longleftrightarrow> (\<forall>runId e. map_of (ts_runs ts) runId = Some e \<longrightarrow> entry_wf maxChars e)"

definition stream_rel :: "turn_stream \<Rightarrow> turn_stream \<Rightarrow> bool" where
  "stream_rel ts ts' \<longleftrightarrow> (\<forall>runId e e'. map_of (ts_runs ts) runId = Some e \<and> map_of (ts_runs ts') runId = Some e' \<longrightarrow> entry_grows e e')"

lemma entry_grows_refl [simp]: "entry_grows e e"
  by (simp add: entry_grows_def)

lemma take_prefix_trans:
  assumes "take (length a) b = a" "take (length b) c = b"
  shows "take (length a) c = a"
proof -
  have "length a \<le> length b" using assms(1) by (metis length_take min.cobounded1 min.commute)
  then have "take (length a) c = take (length a) (take (length b) c)" by (simp add: min_absorb1)
  then show ?thesis using assms by simp
qed

lemma entry_grows_trans: "entry_grows a b \<Longrightarrow> entry_grows b c \<Longrightarrow> entry_grows a c"
  unfolding entry_grows_def using take_prefix_trans by metis

lemma entry_growsI:
  assumes "\<exists>zs. te_text e' = te_text e @ zs" "\<exists>zs. te_firstBlock e' = te_firstBlock e @ zs"
    "\<not> te_firstBlockOpen e \<Longrightarrow> te_firstBlock e' = te_firstBlock e \<and> \<not> te_firstBlockOpen e' \<and> te_firstBlockClosed e' = te_firstBlockClosed e"
    "te_surfacePosted e \<Longrightarrow> te_surfacePosted e'" "te_replyDone e \<Longrightarrow> te_replyDone e'"
  shows "entry_grows e e'"
  using assms by (auto simp: entry_grows_def)

lemma capped_extends: "length xs < n \<Longrightarrow> \<exists>zs. take n (xs @ ys) = xs @ zs"
  by simp

lemma published_ok:
  assumes "entry_wf m e"
  shows "entry_wf m (published m d e)" "entry_grows e (published m d e)"
proof -
  show "entry_wf m (published m d e)" using assms by (auto simp: published_def entry_wf_def Let_def)
  show "entry_grows e (published m d e)" by (rule entry_growsI) (auto simp: published_def Let_def)
qed

lemma block_started_ok:
  assumes "entry_wf m e"
  shows "entry_wf m (block_started m e)" "entry_grows e (block_started m e)"
proof -
  show "entry_wf m (block_started m e)" using assms by (auto simp: block_started_def entry_wf_def Let_def)
  show "entry_grows e (block_started m e)" by (rule entry_growsI) (auto simp: block_started_def Let_def)
qed

lemma makeEntry_wf [simp]: "entry_wf m makeEntry"
  by (simp add: entry_wf_def makeEntry_def)

lemma entry_grows_flags:
  "entry_grows e (e\<lparr> te_replying := True, te_live := True \<rparr>)" "entry_grows e (e\<lparr> te_replyDone := True \<rparr>)"
  "entry_grows e (e\<lparr> te_live := False, te_timer := True \<rparr>)" "entry_grows e (e\<lparr> te_surfacePosted := True \<rparr>)"
  "te_firstBlockOpen e \<Longrightarrow> entry_grows e (e\<lparr> te_firstBlockOpen := False, te_firstBlockClosed := b \<rparr>)"
  by (simp_all add: entry_grows_def)

lemma entry_wf_flags:
  assumes "entry_wf m e"
  shows "entry_wf m (e\<lparr> te_replying := True, te_live := True \<rparr>)" "entry_wf m (e\<lparr> te_replyDone := True \<rparr>)"
    "entry_wf m (e\<lparr> te_live := False, te_timer := True \<rparr>)" "entry_wf m (e\<lparr> te_surfacePosted := True \<rparr>)"
    "entry_wf m (e\<lparr> te_firstBlockOpen := False, te_firstBlockClosed := (js_trim (te_firstBlock e) \<noteq> []) \<rparr>)"
  using assms by (simp_all add: entry_wf_def)

text \<open>An operation writes one entry, which grew out of the stored or a fresh one.\<close>

lemma put_entry_ok:
  assumes wf: "stream_wf m ts" and e: "entry_wf m e'" "\<And>e. map_of (ts_runs ts) runId = Some e \<Longrightarrow> entry_grows e e'"
  shows "stream_wf m (put_entry runId e' ts) \<and> stream_rel ts (put_entry runId e' ts)"
  using assms by (auto simp: stream_wf_def stream_rel_def put_entry_def split: if_splits)

lemma ensure_ok:
  assumes "stream_wf m ts"
  shows "entry_wf m (ensure runId ts)" "map_of (ts_runs ts) runId = Some e \<Longrightarrow> ensure runId ts = e"
  using assms by (auto simp: ensure_def stream_wf_def split: option.split)

lemma stream_step_ok:
  assumes "stream_step m ts evs ts'" "stream_wf m ts"
  shows "stream_wf m ts' \<and> stream_rel ts ts'"
  using assms
proof (induction rule: stream_step.induct)
  case (1 ts runId)
  then show ?case unfolding stream_begin_def
    by (intro put_entry_ok) (auto simp: stream_wf_def entry_wf_flags entry_grows_flags split: option.split)
next
  case (2 ts runId delta)
  show ?case
  proof (cases "delta = []")
    case False
    have "stream_wf m (put_entry runId (published m delta (ensure runId ts)) ts) \<and>
        stream_rel ts (put_entry runId (published m delta (ensure runId ts)) ts)"
      using ensure_ok [OF 2, of runId] published_ok [of m "ensure runId ts" delta] by (intro put_entry_ok [OF 2]) auto
    with False show ?thesis by (simp add: stream_publish_def)
  qed (use 2 in \<open>auto simp: stream_publish_def stream_rel_def\<close>)
next
  case (3 ts runId)
  show ?case
  proof (cases "map_of (ts_runs ts) runId")
    case (Some e)
    then have "entry_wf m e" using 3 by (simp add: stream_wf_def)
    then show ?thesis using put_entry_ok [OF 3, of "block_started m e" runId] block_started_ok [of m e] Some
      by (simp add: publishBlockStart_def)
  qed (use 3 in \<open>auto simp: publishBlockStart_def stream_rel_def\<close>)
next
  case (4 runId ts evs ts')
  note E = ensure_ok [OF 4(2), of runId]
  have "ts' = put_entry runId (if te_firstBlockOpen (ensure runId ts)
      then (ensure runId ts)\<lparr> te_firstBlockOpen := False, te_firstBlockClosed := (js_trim (te_firstBlock (ensure runId ts)) \<noteq> []) \<rparr>
      else ensure runId ts) ts"
    using 4(1) by (auto simp: noteToolCall_def Let_def split: if_splits)
  then show ?case using E entry_wf_flags(5) [OF E(1)] entry_grows_flags(5)
    by (simp only:) (rule put_entry_ok [OF 4(2)], auto)
next
  case (5 runId ts evs ts')
  note E = ensure_ok [OF 5(2), of runId]
  have "ts' = put_entry runId (if te_surfacePosted (ensure runId ts) then ensure runId ts
      else (ensure runId ts)\<lparr> te_surfacePosted := True \<rparr>) ts"
    using 5(1) by (auto simp: markSurfacePosted_def Let_def split: if_splits)
  then show ?case using E entry_wf_flags(4) [OF E(1)] entry_grows_flags(4)
    by (simp only:) (rule put_entry_ok [OF 5(2)], auto)
next
  case (6 ts runId)
  then show ?case using ensure_ok [OF 6, of runId] unfolding markReplyDone_def
    by (intro put_entry_ok) (auto simp: entry_wf_flags entry_grows_flags)
next
  case (7 ts runId)
  show ?case
  proof (cases "map_of (ts_runs ts) runId")
    case (Some e)
    then have "entry_wf m e" using 7 by (simp add: stream_wf_def)
    then show ?thesis using put_entry_ok [OF 7, of "e\<lparr> te_live := False, te_timer := True \<rparr>" runId] Some
      by (simp add: stream_end_def entry_wf_flags entry_grows_flags)
  qed (use 7 in \<open>auto simp: stream_end_def stream_rel_def\<close>)
qed (auto simp: stream_wf_def stream_rel_def stream_expire_def stream_subscribe_def stream_unsubscribe_def delete_conv
      Let_def split: if_splits option.splits)

text \<open>The steps between which the entry of a run is not removed.\<close>

definition stream_step_keeping :: "nat \<Rightarrow> string \<Rightarrow> turn_stream \<Rightarrow> turn_stream \<Rightarrow> bool" where
  "stream_step_keeping m runId ts ts' \<longleftrightarrow> (\<exists>evs. stream_step m ts evs ts') \<and> map_of (ts_runs ts') runId \<noteq> None"

text \<open>
  What is shown of a running turn only grows and stays bounded: over any operations on any runs, as long
  as the entry of a run is not removed, its text keeps everything it had as a prefix and never exceeds the
  bound, so does its first block, which is frozen once it is closed, and the marks that a reply was posted
  and is done are never taken back.
\<close>

theorem stream_grows_bounded:
  assumes "stream_wf m ts" "map_of (ts_runs ts) runId = Some e" "(stream_step_keeping m runId)\<^sup>*\<^sup>* ts ts'"
  shows "\<exists>e'. map_of (ts_runs ts') runId = Some e' \<and> entry_grows e e' \<and> length (te_text e') \<le> m \<and>
    length (te_firstBlock e') \<le> FIRST_BLOCK_MAX_CHARS"
proof -
  from assms(3) have "stream_wf m ts' \<and> (\<exists>e'. map_of (ts_runs ts') runId = Some e' \<and> entry_grows e e')"
  proof (induction rule: rtranclp_induct)
    case base
    then show ?case using assms(1,2) by simp
  next
    case (step u v)
    then obtain e1 where u: "stream_wf m u" "map_of (ts_runs u) runId = Some e1" "entry_grows e e1" by blast
    from step.hyps(2) obtain evs e2 where v: "stream_step m u evs v" "map_of (ts_runs v) runId = Some e2"
      by (auto simp: stream_step_keeping_def)
    note K = stream_step_ok [OF v(1) u(1)]
    then have "entry_grows e1 e2" using u(2) v(2) by (auto simp: stream_rel_def)
    with K u(3) v(2) entry_grows_trans show ?case by blast
  qed
  then obtain e' where "stream_wf m ts'" "map_of (ts_runs ts') runId = Some e'" "entry_grows e e'" by blast
  then show ?thesis by (auto simp: stream_wf_def entry_wf_def)
qed

definition empty_stream :: turn_stream where
  "empty_stream = \<lparr> ts_runs = [], ts_listeners = [] \<rparr>"

theorem stream_grows_bounded_witness:
  "\<exists>e'. map_of (ts_runs (stream_publish 5 ''r'' ''llo, you'' (stream_publish 5 ''r'' ''he'' empty_stream))) ''r'' = Some e' \<and>
     length (te_text e') \<le> 5"
proof -
  let ?ts = "stream_publish 5 ''r'' ''he'' empty_stream"
  have "stream_wf 5 empty_stream" by (simp add: stream_wf_def empty_stream_def)
  then have wf: "stream_wf 5 ?ts" using stream_step_ok [OF stream_step.intros(2)] by blast
  have e: "map_of (ts_runs ?ts) ''r'' = Some (published 5 ''he'' makeEntry)"
    by (simp add: stream_publish_def put_entry_def ensure_def empty_stream_def)
  have s: "stream_step_keeping 5 ''r'' ?ts (stream_publish 5 ''r'' ''llo, you'' ?ts)"
    unfolding stream_step_keeping_def
    by (intro conjI exI [of _ "[]"] stream_step.intros(2)) (simp add: stream_publish_def put_entry_def)
  have "(stream_step_keeping 5 ''r'')\<^sup>*\<^sup>* ?ts (stream_publish 5 ''r'' ''llo, you'' ?ts)" using s by (rule r_into_rtranclp)
  from stream_grows_bounded [OF wf e this] show ?thesis by blast
qed

text \<open>
  A run that begins again within the grace period after it ended, as when it is retried, keeps the timer of
  its end: the entry of the live turn is removed when it fires.
\<close>

lemma restarted_entry_expires:
  "\<exists>ts e. map_of (ts_runs ts) ''r'' = Some e \<and> te_timer e \<and> stream_alive ts ''r'' \<and>
     ts = stream_begin ''r'' (stream_end ''r'' (stream_begin ''r'' empty_stream)) \<and>
     stream_step 200000 ts [] (stream_expire ''r'' ts) \<and> \<not> stream_alive (stream_expire ''r'' ts) ''r''"
proof -
  let ?ts = "stream_begin ''r'' (stream_end ''r'' (stream_begin ''r'' empty_stream))"
  let ?e = "makeEntry\<lparr> te_live := False, te_timer := True, te_replying := True, te_live := True \<rparr>"
  have e: "map_of (ts_runs ?ts) ''r'' = Some ?e" "te_timer ?e"
    by (simp_all add: stream_begin_def stream_end_def put_entry_def empty_stream_def makeEntry_def)
  have "stream_step 200000 ?ts [] (stream_expire ''r'' ?ts)" by (rule stream_step.intros(8) [OF e])
  moreover have "stream_alive ?ts ''r''" "\<not> stream_alive (stream_expire ''r'' ?ts) ''r''"
    using e by (simp_all add: stream_alive_def stream_expire_def delete_conv)
  ultimately show ?thesis using e by blast
qed

section \<open>The activity log of a run\<close>

definition RUN_ACTIVITY_TTL_MS :: int where "RUN_ACTIVITY_TTL_MS = 60 * 60000"
definition MAX_PER_RUN :: nat where "MAX_PER_RUN = 2000"
definition PRUNE_INTERVAL_MS :: int where "PRUNE_INTERVAL_MS = 60000"

record activity_entry =
  ae_seq :: int
  ae_parentSeq :: "int option"
  ae_type :: string
  ae_payload :: json
  ae_createdAt :: time

record activity_store =
  as_runs :: "(string, activity_entry list) jsmap"
  as_nextPruneAt :: "time option"

definition prune_activity :: "time \<Rightarrow> (string, activity_entry list) jsmap \<Rightarrow> (string, activity_entry list) jsmap" where
  "prune_activity cutoff m =
     filter (\<lambda>(_, l). l \<noteq> []) (map (\<lambda>(rid, l). (rid, filter (\<lambda>x. ae_createdAt x \<ge> cutoff) l)) m)"

definition activity_of :: "(string, activity_entry list) jsmap \<Rightarrow> string \<Rightarrow> activity_entry list" where
  "activity_of m runId = (case map_of m runId of None \<Rightarrow> [] | Some l \<Rightarrow> l)"

definition append_activity :: "time \<Rightarrow> string \<Rightarrow> activity_entry \<Rightarrow> activity_store \<Rightarrow> activity_store" where
  "append_activity t runId x st =
     (let due = (case as_nextPruneAt st of None \<Rightarrow> True | Some n \<Rightarrow> t \<ge> n);
          m = (if due then prune_activity (t - RUN_ACTIVITY_TTL_MS) (as_runs st) else as_runs st);
          l = activity_of m runId;
          l' = (if length l < MAX_PER_RUN then l @ [x] else l)
      in \<lparr> as_runs = jmap_set runId l' m, as_nextPruneAt = (if due then Some (t + PRUNE_INTERVAL_MS) else as_nextPruneAt st) \<rparr>)"

lemma prune_activity_get:
  "distinct (map fst m) \<Longrightarrow> activity_of (prune_activity cutoff m) rid = filter (\<lambda>x. ae_createdAt x \<ge> cutoff) (activity_of m rid)"
proof (induction m)
  case (Cons p m)
  obtain r l where p: "p = (r, l)" by force
  have out: "r \<notin> fst ` set m \<Longrightarrow> map_of (filter (\<lambda>(_, l). l \<noteq> []) (map (\<lambda>(rid, l). (rid, filter (\<lambda>x. ae_createdAt x \<ge> cutoff) l)) m)) r = None"
    by (force simp: map_of_eq_None_iff)
  have "map_of m r = None" using Cons.prems p by (auto simp: map_of_eq_None_iff)
  then show ?case using Cons out p by (auto simp: prune_activity_def activity_of_def split: option.splits)
qed (simp add: prune_activity_def activity_of_def)

lemma prune_activity_keys: "distinct (map fst m) \<Longrightarrow> distinct (map fst (prune_activity c m))"
proof -
  assume "distinct (map fst m)"
  then have "distinct (map fst (map (\<lambda>(rid, l). (rid, filter (\<lambda>x. ae_createdAt x \<ge> c) l)) m))"
    by (simp add: comp_def case_prod_unfold)
  then show ?thesis unfolding prune_activity_def by (rule distinct_map_filter)
qed

text \<open>A log never exceeds its bound, and an append keeps what is not older than the time to live.\<close>

lemma append_activity_bounded:
  assumes "distinct (map fst (as_runs st))" "\<And>rid. length (activity_of (as_runs st) rid) \<le> MAX_PER_RUN"
  shows "distinct (map fst (as_runs (append_activity t r x st)))"
    "length (activity_of (as_runs (append_activity t r x st)) rid) \<le> MAX_PER_RUN"
    "\<forall>y \<in> set (activity_of (as_runs st) rid). ae_createdAt y \<ge> t - RUN_ACTIVITY_TTL_MS \<longrightarrow>
       y \<in> set (activity_of (as_runs (append_activity t r x st)) rid)"
proof -
  let ?m = "\<lambda>due. if due then prune_activity (t - RUN_ACTIVITY_TTL_MS) (as_runs st) else as_runs st"
  have len: "length (activity_of (?m b) rid) \<le> MAX_PER_RUN" for b rid
    using assms(2) [of rid] prune_activity_get [OF assms(1)] by (auto intro: order_trans [OF length_filter_le])
  have upd: "activity_of (jmap_set r l m) rid = (if rid = r then l else activity_of m rid)" for l m rid
    by (simp add: activity_of_def)
  show "distinct (map fst (as_runs (append_activity t r x st)))"
    using assms(1) prune_activity_keys by (auto simp: append_activity_def Let_def intro: distinct_update)
  show "length (activity_of (as_runs (append_activity t r x st)) rid) \<le> MAX_PER_RUN"
    using len by (auto simp: append_activity_def Let_def upd simp del: if_split)
  show "\<forall>y \<in> set (activity_of (as_runs st) rid). ae_createdAt y \<ge> t - RUN_ACTIVITY_TTL_MS \<longrightarrow>
       y \<in> set (activity_of (as_runs (append_activity t r x st)) rid)"
    using prune_activity_get [OF assms(1)] by (auto simp: append_activity_def Let_def upd)
qed

section \<open>Draining behind a newer build\<close>

text \<open>
  The variables of \<open>createDrainController\<close>, with the state of the task protection it last asked for. A sweep
  is split at the beat of the registry, whose answer is an argument, and at the setting of the protection.
\<close>

record drain_controller =
  dc_superseded :: bool
  dc_protectionOn :: bool
  dc_protected :: bool

definition drain_start :: drain_controller where
  "drain_start = \<lparr> dc_superseded = False, dc_protectionOn = False, dc_protected = False \<rparr>"

definition canClaim :: "drain_controller \<Rightarrow> bool" where
  "canClaim d \<longleftrightarrow> \<not> dc_superseded d"

definition noteBusy :: "bool \<Rightarrow> drain_controller \<Rightarrow> drain_controller" where
  "noteBusy hasProtection d =
     (if \<not> hasProtection \<or> dc_protectionOn d then d else d\<lparr> dc_protectionOn := True, dc_protected := True \<rparr>)"

definition drain_beat :: "bool \<Rightarrow> drain_controller \<Rightarrow> drain_controller" where
  "drain_beat superseded d = d\<lparr> dc_superseded := superseded \<rparr>"

text \<open>The rest of the sweep: the protection is set, and after that the variable; \<open>wasOn\<close> is its value before.\<close>

definition drain_protect :: "bool \<Rightarrow> bool \<Rightarrow> drain_controller \<Rightarrow> drain_controller" where
  "drain_protect hasProtection busy d =
     (if \<not> hasProtection then d
      else if busy then d\<lparr> dc_protected := True \<rparr>
      else if dc_protectionOn d then d\<lparr> dc_protected := False \<rparr> else d)"

definition drain_protected :: "bool \<Rightarrow> bool \<Rightarrow> bool \<Rightarrow> drain_controller \<Rightarrow> drain_controller" where
  "drain_protected hasProtection busy wasOn d =
     (if \<not> hasProtection then d
      else if busy then d\<lparr> dc_protectionOn := True \<rparr>
      else if wasOn then d\<lparr> dc_protectionOn := False \<rparr> else d)"

definition drain_stop :: "bool \<Rightarrow> drain_controller \<Rightarrow> drain_controller" where
  "drain_stop hasProtection d =
     (if dc_protectionOn d \<and> hasProtection then d\<lparr> dc_protectionOn := False, dc_protected := False \<rparr> else d)"

text \<open>
  A run claimed while a sweep is turning the protection off is not protected: it finds the protection still
  marked as on and asks for nothing, and the sweep then marks it as off. The next sweep sets it again.
\<close>

lemma busy_run_unprotected:
  "\<exists>d. dc_protectionOn d \<and> dc_protected d \<and>
     \<not> dc_protected (drain_protected True False (dc_protectionOn d) (noteBusy True (drain_protect True False d)))"
  by (rule exI [of _ "\<lparr> dc_superseded = False, dc_protectionOn = True, dc_protected = True \<rparr>"])
     (simp add: drain_protect_def noteBusy_def drain_protected_def)

lemma quiet_sweep_protects:
  "dc_protected (drain_protected True busy (dc_protectionOn d) (drain_protect True busy d)) = (busy \<or> dc_protected d \<and> \<not> dc_protectionOn d)"
  by (auto simp: drain_protect_def drain_protected_def)

end
