(* ===== verification/Secret_Drop.thy ===== *)
theory Secret_Drop
  imports Keychain_Grants Tokens
begin

text \<open>
  Secret drops: single-use links through which a person hands a secret to the keychain without showing it
  in a conversation (\<open>src/credentials/secret-drop.ts\<close>, \<open>src/api/routes/secret-drop.ts\<close>), and what the keychain
  routes share with them (\<open>src/api/capability-destination.ts\<close>, \<open>src/api/expiry.ts\<close>).

  Redeeming a link awaits its stores and the check of the scope, so it is split there and any number of
  redemptions interleave with each other and with other uses of the keychain. The check of the scope is
  an answer that may differ each time. The audit log, the notice to the conversation and the HTML of
  the form are left out.
\<close>

section \<open>What a capability and a request say\<close>

definition stripCandidate :: "json \<Rightarrow> json" where
  "stripCandidate c = JObj
     ([(''type'', case json_get ''type'' c of Some v \<Rightarrow> v | None \<Rightarrow> JNull),
       (''target'', case json_get ''target'' c of Some v \<Rightarrow> v | None \<Rightarrow> JNull)] @
      (case json_get_str ''audienceScopeId'' c of Some s \<Rightarrow> if s = [] then [] else [(''audienceScopeId'', JStr s)] | None \<Rightarrow> []))"

definition find_destination :: "json option \<Rightarrow> json \<Rightarrow> json option" where
  "find_destination key cap =
     (case json_get_arr ''destinations'' cap of None \<Rightarrow> None | Some ds \<Rightarrow> find (\<lambda>d. json_get ''key'' d = key) ds)"

text \<open>\<open>None\<close> stands for \<open>{ ok: false }\<close>.\<close>

definition resolveCapabilityDestination :: "json \<Rightarrow> string option \<Rightarrow> json option option" where
  "resolveCapabilityDestination cap destinationKey =
     (case destinationKey of
        Some k \<Rightarrow> (case find_destination (Some (JStr k)) cap of Some d \<Rightarrow> Some (Some (stripCandidate d)) | None \<Rightarrow> None)
      | None \<Rightarrow>
          (case find_destination (json_get ''defaultDestinationKey'' cap) cap of
             Some d \<Rightarrow> Some (Some (stripCandidate d))
           | None \<Rightarrow> Some (json_get ''destination'' cap)))"

definition SECONDS_VS_MS_CUTOFF :: int where "SECONDS_VS_MS_CUTOFF = 1000000000000"
definition MIN_REASONABLE_EPOCH_MS :: int where "MIN_REASONABLE_EPOCH_MS = 946684800000"
definition MAX_REASONABLE_EPOCH_MS :: int where "MAX_REASONABLE_EPOCH_MS = 32503680000000"

text \<open>\<open>dateParse\<close> is \<open>Date.parse\<close>, \<open>None\<close> for \<open>NaN\<close>. The left value is the bad request.\<close>

definition normalizeInboundExpiresAt :: "(string \<Rightarrow> int option) \<Rightarrow> json option \<Rightarrow> unit + time option" where
  "normalizeInboundExpiresAt dateParse value =
     (case value of
        None \<Rightarrow> Inr None
      | Some v \<Rightarrow>
          (case (case v of
                   JNum n \<Rightarrow> Some (if n < SECONDS_VS_MS_CUTOFF then n * 1000 else n)
                 | JStr s \<Rightarrow> if js_trim s = [] then None else dateParse (js_trim s)
                 | _ \<Rightarrow> None) of
             None \<Rightarrow> Inl ()
           | Some ms \<Rightarrow> if ms < MIN_REASONABLE_EPOCH_MS \<or> ms > MAX_REASONABLE_EPOCH_MS then Inl () else Inr (Some ms)))"

lemma normalized_expiry_bounds:
  "normalizeInboundExpiresAt dp v = Inr (Some t) \<Longrightarrow> MIN_REASONABLE_EPOCH_MS \<le> t \<and> t \<le> MAX_REASONABLE_EPOCH_MS"
  by (auto simp: normalizeInboundExpiresAt_def split: option.splits if_splits)

text \<open>Seconds and milliseconds of the same moment are read alike, and what was accepted is accepted again from the cutoff on.\<close>

lemma normalized_expiry_stable:
  "SECONDS_VS_MS_CUTOFF \<le> t \<Longrightarrow> normalizeInboundExpiresAt dp v = Inr (Some t) \<Longrightarrow>
   normalizeInboundExpiresAt dp (Some (JNum t)) = Inr (Some t)"
  by (auto simp: normalizeInboundExpiresAt_def split: option.splits if_splits)

text \<open>A time between 2000 and September 2001 is accepted as a date and refused as the number of milliseconds it is.\<close>

lemma early_ms_refused:
  "normalizeInboundExpiresAt (\<lambda>_. Some 959817600000) (Some (JStr ''2000-06-01'')) = Inr (Some 959817600000) \<and>
   normalizeInboundExpiresAt dp (Some (JNum 959817600000)) = Inl ()"
  by (simp add: normalizeInboundExpiresAt_def SECONDS_VS_MS_CUTOFF_def MIN_REASONABLE_EPOCH_MS_def
      MAX_REASONABLE_EPOCH_MS_def js_defs)

section \<open>The store of drops\<close>

record drop_field =
  df_key :: string
  df_label :: "string option"
  df_secret :: bool

record drop_record =
  dr_ownerId :: string
  dr_orgId :: "string option"
  dr_service :: string
  dr_envKey :: "string option"
  dr_host :: "string option"
  dr_fields :: "drop_field list option"
  dr_purpose :: string
  dr_requestedBy :: string
  dr_audienceScopeId :: "scope_id option"
  dr_scopeVersion :: "string option"
  dr_grantMode :: "grant_mode option"
  dr_destination :: "json option"
  dr_threadRef :: "string option"
  dr_requiresToken :: bool
  dr_createdAt :: time

definition SECRET_DROP_TTL_MS :: int where "SECRET_DROP_TTL_MS = 7 * 24 * 60 * 60000"

datatype drop_refusal = DropNotFound | DropExpired

definition judge :: "int \<Rightarrow> time \<Rightarrow> drop_record option \<Rightarrow> drop_refusal + drop_record" where
  "judge ttl t r =
     (case r of
        None \<Rightarrow> Inl DropNotFound
      | Some rec \<Rightarrow> if t - dr_createdAt rec > ttl then Inl DropExpired else Inr rec)"

definition mint_drop :: "string \<Rightarrow> time \<Rightarrow> drop_record \<Rightarrow> drop_record mem_map \<Rightarrow> drop_record mem_map" where
  "mint_drop dropId now rec m = mm_put dropId (rec\<lparr> dr_createdAt := now \<rparr>) m"

definition peek_drop :: "int \<Rightarrow> time \<Rightarrow> string \<Rightarrow> drop_record mem_map \<Rightarrow> drop_refusal + drop_record" where
  "peek_drop ttl now dropId m = judge ttl now (mm_get m dropId)"

definition redeem_drop :: "int \<Rightarrow> time \<Rightarrow> string \<Rightarrow> drop_record mem_map \<Rightarrow> (drop_refusal + drop_record) \<times> drop_record mem_map" where
  "redeem_drop ttl now dropId m = (case mm_take dropId m of (r, m') \<Rightarrow> (judge ttl now r, m'))"

definition siblings :: "int \<Rightarrow> time \<Rightarrow> drop_record \<Rightarrow> drop_record mem_map \<Rightarrow> drop_record list \<times> drop_record mem_map" where
  "siblings ttl t rec m =
     (filter (\<lambda>r. t - dr_createdAt r \<le> ttl \<and> dr_orgId r = dr_orgId rec \<and> dr_audienceScopeId r = dr_audienceScopeId rec \<and>
                  dr_threadRef r = dr_threadRef rec \<and> dr_service r \<noteq> dr_service rec) (mm_all m),
      fold (\<lambda>(k, r) m'. if t - dr_createdAt r > ttl then mm_delete k m' else m') (mm_entries m) m)"

section \<open>Minting a link\<close>

definition MAX_DROP_FIELDS :: nat where "MAX_DROP_FIELDS = 8"

definition drop_label :: "json \<Rightarrow> string option" where
  "drop_label f = (case json_get_str ''label'' f of
     Some l \<Rightarrow> if js_trim l = [] then None else Some (take 80 (js_trim l)) | None \<Rightarrow> None)"

fun parse_drop_items :: "string list \<Rightarrow> json list \<Rightarrow> drop_field list option" where
  "parse_drop_items seen [] = Some []"
| "parse_drop_items seen (f # fs) =
     (case json_get_str ''key'' f of
        None \<Rightarrow> None
      | Some k \<Rightarrow>
          if \<not> ENV_KEY_RE k \<or> k \<in> set seen then None
          else map_option (Cons \<lparr> df_key = k, df_label = drop_label f, df_secret = (json_get ''secret'' f \<noteq> Some (JBool False)) \<rparr>)
                 (parse_drop_items (k # seen) fs))"

text \<open>\<open>None\<close> is the answer \<open>"invalid"\<close>.\<close>

definition parseDropFields :: "json option \<Rightarrow> drop_field list option option" where
  "parseDropFields raw =
     (case raw of
        None \<Rightarrow> Some None
      | Some (JArr xs) \<Rightarrow>
          if xs = [] \<or> length xs > MAX_DROP_FIELDS then None else map_option Some (parse_drop_items [] xs)
      | Some _ \<Rightarrow> None)"

definition nonempty_str :: "string \<Rightarrow> json \<Rightarrow> string option" where
  "nonempty_str k b = (case json_get_str k b of Some s \<Rightarrow> if js_trim s = [] then None else Some (js_trim s) | None \<Rightarrow> None)"

definition parse_mode :: "json option \<Rightarrow> grant_mode option option" where
  "parse_mode v = (case v of None \<Rightarrow> Some None
     | Some m \<Rightarrow> if m = JStr ''once'' then Some (Some Once) else if m = JStr ''standing'' then Some (Some Standing) else None)"

record drop_env =
  de_lib :: crypto_lib
  de_tz :: "string \<Rightarrow> bool"
  de_capSecret :: "string option"
  de_ttl :: int
  de_kc :: kc_env

datatype drop_answer = DropRefused nat | DropMinted string drop_record string

definition claim_of :: "string \<Rightarrow> json \<Rightarrow> string" where
  "claim_of k c = (case json_get_str k c of Some s \<Rightarrow> s | None \<Rightarrow> [])"

definition minted_record :: "drop_env \<Rightarrow> json \<Rightarrow> json \<Rightarrow> drop_field list option \<Rightarrow> grant_mode option \<Rightarrow> drop_record" where
  "minted_record env cap body flds mode =
     (let kind = fst (parseScopeId (claim_of ''scopeId'' cap)); wantsGrant = (kind = Some Channel \<or> kind = Some Group)
      in \<lparr> dr_ownerId = claim_of ''actorId'' cap, dr_orgId = Some (ke_org (de_kc env)),
           dr_service = js_trim (claim_of ''service'' body),
           dr_envKey = nonempty_str ''envKey'' body, dr_host = nonempty_str ''host'' body, dr_fields = flds,
           dr_purpose = js_trim (claim_of ''purpose'' body), dr_requestedBy = claim_of ''actorId'' cap,
           dr_audienceScopeId = Some (claim_of ''scopeId'' cap),
           dr_scopeVersion = (if wantsGrant then if_truthy (json_get_str ''scopeVersion'' cap) else None),
           dr_grantMode = (if wantsGrant then Some (case mode of Some m \<Rightarrow> m | None \<Rightarrow> Standing) else None),
           dr_destination = (case resolveCapabilityDestination cap None of Some d \<Rightarrow> d | None \<Rightarrow> None),
           dr_threadRef = if_truthy (json_get_str ''threadRef'' cap), dr_requiresToken = True, dr_createdAt = 0 \<rparr>)"

definition mintDrop :: "drop_env \<Rightarrow> string \<Rightarrow> time \<Rightarrow> json option \<Rightarrow> json \<Rightarrow> drop_record mem_map \<Rightarrow> drop_answer \<times> drop_record mem_map" where
  "mintDrop env dropId now capability body m =
     (case capability of
        None \<Rightarrow> (DropRefused 401, m)
      | Some cap \<Rightarrow>
          if \<not> truthy (de_capSecret env) then (DropRefused 500, m)
          else if json_truthy_at ''triggered'' cap then (DropRefused 403, m)
          else if nonempty_str ''service'' body = None \<or> nonempty_str ''purpose'' body = None then (DropRefused 400, m)
          else
            case parse_mode (json_get ''grantMode'' body) of
              None \<Rightarrow> (DropRefused 400, m)
            | Some mode \<Rightarrow>
                (case parseDropFields (json_get ''fields'' body) of
                   None \<Rightarrow> (DropRefused 400, m)
                 | Some flds \<Rightarrow>
                     let rec = minted_record env cap body flds mode;
                         linkToken = mintCapabilityToken (de_lib env) (ke_org (de_kc env))
                           [(''actorId'', JStr (dr_ownerId rec)), (''scopeId'', JStr (claim_of ''scopeId'' cap)),
                            (''aud'', JStr SECRET_DROP_AUD), (''drop'', JStr dropId),
                            (''exp'', JNum (now + SECRET_DROP_TTL_MS))] (the (de_capSecret env))
                     in (DropMinted dropId (rec\<lparr> dr_createdAt := now \<rparr>) linkToken, mint_drop dropId now rec m)))"

section \<open>Redeeming a link\<close>

record drop_request =
  dq_dropId :: string
  dq_owner :: "string option"
  dq_token :: "string option"
  dq_secret :: "json option"
  dq_values :: "json option"

definition dropScopeAuthorized :: "drop_record \<Rightarrow> bool \<Rightarrow> bool" where
  "dropScopeAuthorized rec answer \<longleftrightarrow> \<not> isSharedScope (dr_audienceScopeId rec) \<or> answer"

definition dropLinkTokenOk :: "drop_env \<Rightarrow> time \<Rightarrow> string \<Rightarrow> drop_record \<Rightarrow> string option \<Rightarrow> bool" where
  "dropLinkTokenOk env now dropId rec token \<longleftrightarrow>
     \<not> dr_requiresToken rec \<or>
     truthy (de_capSecret env) \<and> truthy token \<and>
     (case verifyCapabilityToken (de_lib env) (de_tz env) (the token) [the (de_capSecret env)] now of
        None \<Rightarrow> False
      | Some claims \<Rightarrow> json_get ''aud'' claims = Some (JStr SECRET_DROP_AUD) \<and> json_get ''drop'' claims = Some (JStr dropId) \<and>
          samePerson (json_get_str ''actorId'' claims) (Some (dr_ownerId rec)))"

fun submitted_items :: "json option \<Rightarrow> drop_field list \<Rightarrow> field_input list option" where
  "submitted_items values [] = Some []"
| "submitted_items values (f # fs) =
     (case Option.bind values (json_get (df_key f)) of
        Some (JStr v) \<Rightarrow>
          if js_trim v = [] then None
          else map_option (Cons \<lparr> fi_envKey = df_key f, fi_value = js_trim v, fi_secret = Some (df_secret f) \<rparr>) (submitted_items values fs)
      | _ \<Rightarrow> None)"

text \<open>What the form sent for the drop: \<open>None\<close> is the bad request, \<open>Some None\<close> a single secret.\<close>

definition submitted :: "drop_record \<Rightarrow> drop_request \<Rightarrow> field_input list option option" where
  "submitted rec q =
     (case dr_fields rec of
        Some (f # fs) \<Rightarrow> map_option Some (submitted_items (dq_values q) (f # fs))
      | _ \<Rightarrow> (case dq_secret q of Some (JStr s) \<Rightarrow> if js_trim s = [] then None else Some None | _ \<Rightarrow> None))"

definition drop_save_input :: "drop_record \<Rightarrow> drop_request \<Rightarrow> field_input list option \<Rightarrow> save_input" where
  "drop_save_input rec q flds =
     \<lparr> si_ownerId = dr_ownerId rec, si_service = dr_service rec,
       si_secret = (if flds = None then (case dq_secret q of Some (JStr s) \<Rightarrow> Some s | _ \<Rightarrow> None) else None),
       si_envKey = (if flds = None then if_truthy (dr_envKey rec) else None), si_fields = flds, si_target = None, si_files = None,
       si_host = if_truthy (dr_host rec), si_accountLabel = None, si_origin = Some ''secret-drop'', si_expiresAt = None \<rparr>"

text \<open>The points of \<open>redeemDrop\<close> between its \<open>await\<close>s.\<close>

datatype drop_pc =
    DPeek
  | DToken drop_record
  | DScope drop_record
  | DSpend "field_input list option"
  | DSpendChanged
  | DSave drop_record "field_input list option"
  | DShare drop_record keychain_credential
  | DGrant drop_record keychain_credential bool
  | DAnswered nat

definition redeem_peek :: "drop_env \<Rightarrow> time \<Rightarrow> drop_request \<Rightarrow> drop_record mem_map \<Rightarrow> drop_pc" where
  "redeem_peek env now q m =
     (case peek_drop (de_ttl env) now (dq_dropId q) m of Inl _ \<Rightarrow> DAnswered 404 | Inr rec \<Rightarrow> DToken rec)"

definition redeem_token :: "drop_env \<Rightarrow> time \<Rightarrow> drop_request \<Rightarrow> drop_record \<Rightarrow> drop_pc" where
  "redeem_token env now q rec =
     (if \<not> dropLinkTokenOk env now (dq_dropId q) rec (dq_token q) then DAnswered 404
      else if \<not> samePerson (dq_owner q) (Some (dr_ownerId rec)) then DAnswered 403
      else DScope rec)"

definition redeem_scope :: "drop_request \<Rightarrow> drop_record \<Rightarrow> bool \<Rightarrow> drop_pc" where
  "redeem_scope q rec answer =
     (if \<not> dropScopeAuthorized rec answer then DSpendChanged
      else case submitted rec q of None \<Rightarrow> DAnswered 400 | Some flds \<Rightarrow> DSpend flds)"

definition redeem_spend :: "drop_env \<Rightarrow> time \<Rightarrow> drop_request \<Rightarrow> field_input list option \<Rightarrow> drop_record mem_map \<Rightarrow> drop_pc \<times> drop_record mem_map" where
  "redeem_spend env now q flds m =
     (case redeem_drop (de_ttl env) now (dq_dropId q) m of
        (Inl _, m') \<Rightarrow> (DAnswered 404, m')
      | (Inr rec, m') \<Rightarrow>
          (if dr_orgId rec \<noteq> None \<and> dr_orgId rec \<noteq> Some (ke_org (de_kc env)) then DAnswered 404 else DSave rec flds, m'))"

definition redeem_changed :: "drop_env \<Rightarrow> time \<Rightarrow> drop_request \<Rightarrow> drop_record mem_map \<Rightarrow> drop_pc \<times> drop_record mem_map" where
  "redeem_changed env now q m = (DAnswered 409, snd (redeem_drop (de_ttl env) now (dq_dropId q) m))"

definition redeem_save ::
  "drop_env \<Rightarrow> string \<Rightarrow> time \<Rightarrow> drop_request \<Rightarrow> drop_record \<Rightarrow> field_input list option \<Rightarrow> keychain \<Rightarrow> drop_pc \<times> keychain" where
  "redeem_save env iv now q rec flds st =
     (case saveCredential (de_kc env) iv now (drop_save_input rec q flds) st of
        Inl e \<Rightarrow> (DAnswered (keychain_status e), st)
      | Inr (c, st') \<Rightarrow> (DShare rec c, st'))"

definition redeem_share :: "drop_record \<Rightarrow> keychain_credential \<Rightarrow> bool \<Rightarrow> drop_pc" where
  "redeem_share rec c answer =
     (if dropScopeAuthorized rec answer \<and> dr_grantMode rec \<noteq> None \<and> truthy (dr_audienceScopeId rec)
      then DGrant rec c answer else DAnswered 200)"

definition drop_grant_input :: "drop_record \<Rightarrow> keychain_credential \<Rightarrow> grant_input" where
  "drop_grant_input rec c =
     \<lparr> gi_credentialId = cd_id c, gi_ownerId = dr_ownerId rec, gi_audienceScopeId = the (dr_audienceScopeId rec),
       gi_mode = the (dr_grantMode rec), gi_purpose = dr_purpose rec, gi_expiresAt = None, gi_askId = None \<rparr>"

definition redeem_grant :: "drop_env \<Rightarrow> time \<Rightarrow> drop_record \<Rightarrow> keychain_credential \<Rightarrow> keychain \<Rightarrow> drop_pc \<times> keychain \<times> keychain_grant option" where
  "redeem_grant env now rec c st =
     (case mintGrant (de_kc env) now (drop_grant_input rec c) st of
        Inl e \<Rightarrow> (DAnswered (keychain_status e), st, None)
      | Inr (g, st') \<Rightarrow> (DAnswered 200, st', Some g))"

text \<open>The form of a link: its status and the fields it asks for (\<open>None\<close> is the single secret).\<close>

definition formFields :: "drop_field list option \<Rightarrow> (string option \<times> string \<times> bool) list" where
  "formFields flds =
     (case flds of
        Some (f # fs) \<Rightarrow> map (\<lambda>f. (Some (df_key f), case df_label f of Some l \<Rightarrow> l | None \<Rightarrow> df_key f, df_secret f)) (f # fs)
      | _ \<Rightarrow> [(None, ''Paste the secret here'', True)])"

definition dropForm :: "drop_env \<Rightarrow> time \<Rightarrow> drop_request \<Rightarrow> drop_record mem_map \<Rightarrow> nat \<times> (string option \<times> string \<times> bool) list" where
  "dropForm env now q m =
     (case peek_drop (de_ttl env) now (dq_dropId q) m of
        Inl _ \<Rightarrow> (404, [])
      | Inr rec \<Rightarrow>
          if \<not> dropLinkTokenOk env now (dq_dropId q) rec (dq_token q) then (404, [])
          else if \<not> samePerson (dq_owner q) (Some (dr_ownerId rec)) then (403, [])
          else (200, formFields (dr_fields rec)))"

text \<open>The form is shown exactly to a request that could go on to redeem, and asks for what is then required.\<close>

lemma form_shown_iff_redeemable:
  "fst (dropForm env now q m) = 200 \<longleftrightarrow>
     (\<exists>rec. redeem_peek env now q m = DToken rec \<and> redeem_token env now q rec = DScope rec)"
  by (auto simp: dropForm_def redeem_peek_def redeem_token_def split: sum.splits)

lemma submitted_items_keys: "submitted_items values fs = Some xs \<Longrightarrow> map fi_envKey xs = map df_key fs"
  by (induction fs arbitrary: xs) (auto split: option.splits json.splits if_splits)

lemma form_asks_for_submitted:
  assumes "submitted rec q = Some (Some xs)"
  shows "map fst (formFields (dr_fields rec)) = map (\<lambda>x. Some (fi_envKey x)) xs"
proof -
  obtain f fs where f: "dr_fields rec = Some (f # fs)" "submitted_items (dq_values q) (f # fs) = Some xs"
    using assms by (auto simp: submitted_def split: option.splits list.splits json.splits if_splits)
  have "map fst (formFields (dr_fields rec)) = map (Some \<circ> df_key) (f # fs)" by (simp add: f(1) formFields_def)
  also have "\<dots> = map Some (map fi_envKey xs)" by (simp only: submitted_items_keys [OF f(2)] map_map)
  finally show ?thesis by (simp add: comp_def)
qed

section \<open>Overlapping redemptions\<close>

text \<open>
  The stores and the requests under way, by position, with four logs: the links minted with the capability
  that asked for them, the links spent with the request that spent them, and the credentials and grants
  that came of them.
\<close>

record drop_world =
  dw_drops :: "drop_record mem_map"
  dw_keychain :: keychain
  dw_requests :: "(drop_request \<times> drop_pc) list"
  dw_minted :: "(string \<times> drop_record \<times> json) list"
  dw_spent :: "(string \<times> nat) list"
  dw_saved :: "(nat \<times> drop_request \<times> drop_record \<times> keychain_credential) list"
  dw_granted :: "(nat \<times> bool \<times> keychain_grant) list"

definition dw_start :: drop_world where
  "dw_start = \<lparr> dw_drops = mm_empty, dw_keychain = kc_empty, dw_requests = [], dw_minted = [], dw_spent = [], dw_saved = [],
     dw_granted = [] \<rparr>"

definition at_request :: "drop_world \<Rightarrow> nat \<Rightarrow> drop_request \<Rightarrow> drop_pc \<Rightarrow> bool" where
  "at_request W i q pc \<longleftrightarrow> i < length (dw_requests W) \<and> dw_requests W ! i = (q, pc)"

definition go :: "nat \<Rightarrow> drop_request \<Rightarrow> drop_pc \<Rightarrow> drop_world \<Rightarrow> drop_world" where
  "go i q pc W = W\<lparr> dw_requests := (dw_requests W)[i := (q, pc)] \<rparr>"

definition log_spent :: "nat \<Rightarrow> string \<Rightarrow> drop_world \<Rightarrow> drop_world" where
  "log_spent i dropId W = W\<lparr> dw_spent := (if mm_get (dw_drops W) dropId = None then dw_spent W else (dropId, i) # dw_spent W) \<rparr>"

inductive drop_step :: "drop_env \<Rightarrow> drop_world \<Rightarrow> drop_world \<Rightarrow> bool" for env where
  ds_mint: "mintDrop env dropId now (Some cap) body (dw_drops W) = (DropMinted dropId rec tok, m) \<Longrightarrow>
    dropId \<notin> fst ` set (dw_minted W) \<Longrightarrow>
    drop_step env W (W\<lparr> dw_drops := m, dw_minted := (dropId, rec, cap) # dw_minted W \<rparr>)"
| ds_request: "drop_step env W (W\<lparr> dw_requests := dw_requests W @ [(q, DPeek)] \<rparr>)"
| ds_peek: "at_request W i q DPeek \<Longrightarrow> drop_step env W (go i q (redeem_peek env now q (dw_drops W)) W)"
| ds_token: "at_request W i q (DToken rec) \<Longrightarrow> drop_step env W (go i q (redeem_token env now q rec) W)"
| ds_scope: "at_request W i q (DScope rec) \<Longrightarrow> drop_step env W (go i q (redeem_scope q rec answer) W)"
| ds_spend: "at_request W i q (DSpend flds) \<Longrightarrow> redeem_spend env now q flds (dw_drops W) = (pc, m) \<Longrightarrow>
    drop_step env W ((go i q pc (log_spent i (dq_dropId q) W))\<lparr> dw_drops := m \<rparr>)"
| ds_changed: "at_request W i q DSpendChanged \<Longrightarrow> redeem_changed env now q (dw_drops W) = (pc, m) \<Longrightarrow>
    drop_step env W ((go i q pc (log_spent i (dq_dropId q) W))\<lparr> dw_drops := m \<rparr>)"
| ds_save: "at_request W i q (DSave rec flds) \<Longrightarrow> redeem_save env iv now q rec flds (dw_keychain W) = (pc, st) \<Longrightarrow>
    drop_step env W ((go i q pc W)\<lparr> dw_keychain := st,
      dw_saved := (case pc of DShare rec' c \<Rightarrow> [(i, q, rec', c)] | _ \<Rightarrow> []) @ dw_saved W \<rparr>)"
| ds_share: "at_request W i q (DShare rec c) \<Longrightarrow> drop_step env W (go i q (redeem_share rec c answer) W)"
| ds_grant: "at_request W i q (DGrant rec c ok) \<Longrightarrow> redeem_grant env now rec c (dw_keychain W) = (pc, st, g) \<Longrightarrow>
    drop_step env W ((go i q pc W)\<lparr> dw_keychain := st,
      dw_granted := (case g of Some x \<Rightarrow> [(i, ok, x)] | None \<Rightarrow> []) @ dw_granted W \<rparr>)"
| ds_siblings: "siblings (de_ttl env) now rec (dw_drops W) = (rs, m) \<Longrightarrow> drop_step env W (W\<lparr> dw_drops := m \<rparr>)"
| ds_keychain: "drop_step env W (W\<lparr> dw_keychain := st \<rparr>)"

section \<open>What holds of every redemption under way\<close>

definition asked_by_owner :: "drop_record \<Rightarrow> json \<Rightarrow> bool" where
  "asked_by_owner rec cap \<longleftrightarrow> \<not> json_truthy_at ''triggered'' cap \<and> dr_ownerId rec = claim_of ''actorId'' cap \<and>
     dr_audienceScopeId rec = Some (claim_of ''scopeId'' cap) \<and> dr_requiresToken rec"

definition linked :: "drop_world \<Rightarrow> drop_request \<Rightarrow> drop_record \<Rightarrow> bool" where
  "linked W q rec \<longleftrightarrow> (\<exists>cap. (dq_dropId q, rec, cap) \<in> set (dw_minted W))"

definition admitted :: "drop_env \<Rightarrow> drop_request \<Rightarrow> drop_record \<Rightarrow> bool" where
  "admitted env q rec \<longleftrightarrow> (\<exists>now. dropLinkTokenOk env now (dq_dropId q) rec (dq_token q)) \<and> samePerson (dq_owner q) (Some (dr_ownerId rec))"

definition saved_from :: "drop_env \<Rightarrow> drop_world \<Rightarrow> nat \<Rightarrow> drop_request \<Rightarrow> drop_record \<Rightarrow> bool" where
  "saved_from env W i q rec \<longleftrightarrow> linked W q rec \<and> admitted env q rec \<and> submitted rec q \<noteq> None \<and> (dq_dropId q, i) \<in> set (dw_spent W)"

definition pc_ok :: "drop_env \<Rightarrow> drop_world \<Rightarrow> nat \<Rightarrow> drop_request \<Rightarrow> drop_pc \<Rightarrow> bool" where
  "pc_ok env W i q pc =
     (case pc of
        DPeek \<Rightarrow> i \<notin> fst ` set (dw_saved W) \<and> i \<notin> fst ` set (dw_granted W)
      | DToken rec \<Rightarrow> linked W q rec \<and> i \<notin> fst ` set (dw_saved W) \<and> i \<notin> fst ` set (dw_granted W)
      | DScope rec \<Rightarrow> linked W q rec \<and> admitted env q rec \<and> i \<notin> fst ` set (dw_saved W) \<and> i \<notin> fst ` set (dw_granted W)
      | DSpend flds \<Rightarrow> (\<exists>rec. linked W q rec \<and> admitted env q rec \<and> submitted rec q = Some flds) \<and>
          i \<notin> fst ` set (dw_saved W) \<and> i \<notin> fst ` set (dw_granted W)
      | DSpendChanged \<Rightarrow> True
      | DSave rec flds \<Rightarrow> saved_from env W i q rec \<and> submitted rec q = Some flds \<and> i \<notin> fst ` set (dw_saved W) \<and> i \<notin> fst ` set (dw_granted W)
      | DShare rec c \<Rightarrow> (i, q, rec, c) \<in> set (dw_saved W) \<and> i \<notin> fst ` set (dw_granted W)
      | DGrant rec c ok \<Rightarrow> (i, q, rec, c) \<in> set (dw_saved W) \<and> i \<notin> fst ` set (dw_granted W) \<and> dropScopeAuthorized rec ok \<and>
          dr_grantMode rec \<noteq> None \<and> dr_audienceScopeId rec \<noteq> None
      | DAnswered _ \<Rightarrow> True)"

definition granted_ok :: "drop_world \<Rightarrow> nat \<times> bool \<times> keychain_grant \<Rightarrow> bool" where
  "granted_ok W x = (case x of (i, ok, g) \<Rightarrow> \<exists>q rec c. (i, q, rec, c) \<in> set (dw_saved W) \<and> dropScopeAuthorized rec ok \<and>
     dr_audienceScopeId rec = Some (kg_audienceScopeId g) \<and> dr_grantMode rec = Some (kg_mode g) \<and>
     samePerson (Some (kg_ownerId g)) (Some (dr_ownerId rec)))"

definition drop_logs :: "drop_env \<Rightarrow> drop_world \<Rightarrow> bool" where
  "drop_logs env W \<longleftrightarrow>
     distinct (map fst (dw_minted W)) \<and> distinct (map fst (dw_spent W)) \<and> distinct (map fst (dw_saved W)) \<and> distinct (map fst (dw_granted W)) \<and>
     (\<forall>(dropId, rec, cap) \<in> set (dw_minted W). asked_by_owner rec cap) \<and>
     (\<forall>dropId rec. mm_get (dw_drops W) dropId = Some rec \<longrightarrow> (\<exists>cap. (dropId, rec, cap) \<in> set (dw_minted W))) \<and>
     (\<forall>(dropId, i) \<in> set (dw_spent W). mm_get (dw_drops W) dropId = None \<and> dropId \<in> fst ` set (dw_minted W)) \<and>
     (\<forall>(i, q, rec, c) \<in> set (dw_saved W). saved_from env W i q rec \<and> cd_ownerId c = dr_ownerId rec \<and> i < length (dw_requests W)) \<and>
     (\<forall>x \<in> set (dw_granted W). granted_ok W x)"

definition drop_inv :: "drop_env \<Rightarrow> drop_world \<Rightarrow> bool" where
  "drop_inv env W \<longleftrightarrow> drop_logs env W \<and> (\<forall>i < length (dw_requests W). pc_ok env W i (fst (dw_requests W ! i)) (snd (dw_requests W ! i)))"

definition logs_grow :: "drop_world \<Rightarrow> drop_world \<Rightarrow> bool" where
  "logs_grow W W' \<longleftrightarrow> set (dw_minted W) \<subseteq> set (dw_minted W') \<and> set (dw_spent W) \<subseteq> set (dw_spent W') \<and> set (dw_saved W) \<subseteq> set (dw_saved W')"

lemma linked_mono: "linked W q rec \<Longrightarrow> logs_grow W W' \<Longrightarrow> linked W' q rec"
  unfolding linked_def logs_grow_def by blast

lemma saved_from_mono: "saved_from env W i q rec \<Longrightarrow> logs_grow W W' \<Longrightarrow> saved_from env W' i q rec"
  using linked_mono [of W q rec W'] unfolding saved_from_def logs_grow_def by blast

lemma granted_ok_mono: "granted_ok W x \<Longrightarrow> logs_grow W W' \<Longrightarrow> granted_ok W' x"
  unfolding granted_ok_def logs_grow_def by blast

lemma pc_ok_mono:
  assumes "pc_ok env W j q pc" "logs_grow W W'"
    "j \<in> fst ` set (dw_saved W') \<longrightarrow> j \<in> fst ` set (dw_saved W)" "j \<in> fst ` set (dw_granted W') \<longrightarrow> j \<in> fst ` set (dw_granted W)"
  shows "pc_ok env W' j q pc"
proof (cases pc)
  case (DSpend flds)
  then show ?thesis using assms linked_mono [OF _ assms(2)] unfolding pc_ok_def by (simp, blast)
qed (use assms linked_mono [OF _ assms(2)] saved_from_mono [OF _ assms(2)] in \<open>auto simp: pc_ok_def logs_grow_def subset_iff\<close>)

lemma drop_inv_move:
  assumes inv: "drop_inv env W" and q: "at_request W i q pc" and req: "dw_requests W' = (dw_requests W)[i := (q, pc')]"
    and grow: "logs_grow W W'" and only: "fst ` set (dw_saved W') \<subseteq> insert i (fst ` set (dw_saved W))"
      "fst ` set (dw_granted W') \<subseteq> insert i (fst ` set (dw_granted W))"
    and logs: "drop_logs env W'" and pc': "pc_ok env W' i q pc'"
  shows "drop_inv env W'"
proof -
  have "pc_ok env W' j (fst (dw_requests W' ! j)) (snd (dw_requests W' ! j))" if j: "j < length (dw_requests W')" for j
  proof (cases "j = i")
    case True
    then show ?thesis using pc' j by (simp add: req)
  next
    case False
    then have "pc_ok env W j (fst (dw_requests W' ! j)) (snd (dw_requests W' ! j))" using inv j by (simp add: drop_inv_def req)
    then show ?thesis by (rule pc_ok_mono [OF _ grow]) (use only False in auto)
  qed
  then show ?thesis using logs by (simp add: drop_inv_def)
qed

lemma drop_inv_at: "drop_inv env W \<Longrightarrow> at_request W i q pc \<Longrightarrow> pc_ok env W i q pc \<and> drop_logs env W \<and> i < length (dw_requests W)"
  by (auto simp: drop_inv_def at_request_def)

text \<open>A step that writes no log and leaves the store alone.\<close>

lemma drop_logs_go:
  assumes "drop_logs env W"
  shows "drop_logs env (go i q pc W)"
proof -
  have g: "logs_grow W (go i q pc W)" by (simp add: logs_grow_def go_def)
  show ?thesis using assms saved_from_mono [OF _ g] granted_ok_mono [OF _ g] unfolding drop_logs_def
    by (auto simp: go_def split_beta)
qed

lemma drop_inv_go:
  assumes "drop_inv env W" "at_request W i q pc" "pc_ok env W i q pc'"
  shows "drop_inv env (go i q pc' W)"
proof (rule drop_inv_move [OF assms(1,2)])
  show "pc_ok env (go i q pc' W) i q pc'" by (rule pc_ok_mono [OF assms(3)]) (simp_all add: logs_grow_def go_def)
qed (use assms(1) drop_logs_go in \<open>auto simp: drop_inv_def logs_grow_def go_def\<close>)

lemma mintDrop_minted:
  assumes "mintDrop env dropId now (Some cap) body m = (DropMinted i rec tok, m')"
  shows "i = dropId" "m' = mm_put dropId rec m" "asked_by_owner rec cap"
proof -
  obtain flds mode where r: "i = dropId" "rec = (minted_record env cap body flds mode)\<lparr> dr_createdAt := now \<rparr>"
      "m' = mint_drop dropId now (minted_record env cap body flds mode) m" "\<not> json_truthy_at ''triggered'' cap"
    using assms by (auto simp: mintDrop_def Let_def split: if_splits option.splits)
  show "i = dropId" "m' = mm_put dropId rec m" by (simp_all add: r mint_drop_def)
  show "asked_by_owner rec cap" using r(4) by (simp add: r(2) asked_by_owner_def minted_record_def Let_def)
qed

lemma redeem_drop_result:
  assumes "redeem_drop ttl now dropId m = (r, m')"
  shows "mm_get m' = (mm_get m)(dropId := None)" "r = Inr rec \<Longrightarrow> mm_get m dropId = Some rec"
  using assms by (auto simp: redeem_drop_def mm_take_def mm_get_def judge_def fun_eq_iff split: option.splits if_splits)

lemma fold_deletes_shrink:
  "mm_get (fold (\<lambda>(k, r) m'. if P r then mm_delete k m' else m') xs n) k = Some r \<Longrightarrow> mm_get n k = Some r"
proof (induction xs arbitrary: n)
  case (Cons x xs)
  have "mm_get (if P (snd x) then mm_delete (fst x) n else n) k = Some r" by (rule Cons.IH) (use Cons.prems in \<open>simp add: split_beta\<close>)
  then show ?case by (simp split: if_splits)
qed simp

lemma siblings_shrinks: "siblings ttl t rec m = (rs, m') \<Longrightarrow> mm_get m' k = Some r \<Longrightarrow> mm_get m k = Some r"
  unfolding siblings_def using fold_deletes_shrink by fastforce

lemma drop_logs_shrink:
  assumes "drop_logs env W" "\<And>k r. mm_get m k = Some r \<Longrightarrow> mm_get (dw_drops W) k = Some r"
  shows "drop_logs env (W\<lparr> dw_drops := m \<rparr>)"
proof -
  have g: "logs_grow W (W\<lparr> dw_drops := m \<rparr>)" by (simp add: logs_grow_def)
  have "mm_get (dw_drops W) k = None \<Longrightarrow> mm_get m k = None" for k using assms(2) [of k] by (cases "mm_get m k") auto
  then show ?thesis using assms saved_from_mono [OF _ g] granted_ok_mono [OF _ g] unfolding drop_logs_def
    by (auto simp: split_beta)
qed

lemma drop_logs_D:
  assumes "drop_logs env W"
  shows "mm_get (dw_drops W) dropId = Some rec \<Longrightarrow> \<exists>cap. (dropId, rec, cap) \<in> set (dw_minted W)"
    "(dropId, i) \<in> set (dw_spent W) \<Longrightarrow> mm_get (dw_drops W) dropId = None \<and> dropId \<in> fst ` set (dw_minted W)"
    "(i, q, rec, c) \<in> set (dw_saved W) \<Longrightarrow> saved_from env W i q rec \<and> cd_ownerId c = dr_ownerId rec \<and> i < length (dw_requests W)"
    "x \<in> set (dw_granted W) \<Longrightarrow> granted_ok W x"
    "(dropId, rec, cap) \<in> set (dw_minted W) \<Longrightarrow> asked_by_owner rec cap"
  using assms unfolding drop_logs_def by blast+

lemma drop_logs_spent:
  assumes "drop_logs env W" "mm_get m = (mm_get (dw_drops W))(dropId := None)"
  shows "drop_logs env ((log_spent i dropId W)\<lparr> dw_drops := m \<rparr>)"
proof (cases "mm_get (dw_drops W) dropId")
  case None
  then have "log_spent i dropId W = W" by (simp add: log_spent_def)
  then show ?thesis by (simp only:) (rule drop_logs_shrink [OF assms(1)], simp add: assms(2) split: if_splits)
next
  case (Some rec)
  let ?W = "(log_spent i dropId W)\<lparr> dw_drops := m \<rparr>"
  have g: "logs_grow W ?W" by (auto simp: logs_grow_def log_spent_def)
  have "dropId \<in> fst ` set (dw_minted W)" using drop_logs_D(1) [OF assms(1) Some] by force
  moreover have "dropId \<notin> fst ` set (dw_spent W)" using drop_logs_D(2) [OF assms(1), of dropId] Some by auto
  ultimately show ?thesis using assms(1) saved_from_mono [OF _ g] granted_ok_mono [OF _ g] unfolding drop_logs_def
    by (auto simp: split_beta assms(2) Some log_spent_def)
qed

lemma fresh_pc_ok: "pc_ok env W i q DPeek \<longleftrightarrow> i \<notin> fst ` set (dw_saved W) \<and> i \<notin> fst ` set (dw_granted W)"
  by (simp add: pc_ok_def)

lemma logged_requests:
  assumes "drop_logs env W" "i \<in> fst ` set (dw_saved W) \<or> i \<in> fst ` set (dw_granted W)"
  shows "i < length (dw_requests W)"
proof -
  have s: "j < length (dw_requests W)" if "j \<in> fst ` set (dw_saved W)" for j using that drop_logs_D(3) [OF assms(1)] by fastforce
  moreover have "j \<in> fst ` set (dw_saved W)" if j: "j \<in> fst ` set (dw_granted W)" for j
  proof -
    obtain ok g where "granted_ok W (j, ok, g)" using j drop_logs_D(4) [OF assms(1)] by force
    then show ?thesis unfolding granted_ok_def by force
  qed
  ultimately show ?thesis using assms(2) by blast
qed

lemma peek_keeps:
  assumes "drop_logs env W" "pc_ok env W i q DPeek"
  shows "pc_ok env W i q (redeem_peek env now q (dw_drops W))"
  using assms(2) drop_logs_D(1) [OF assms(1)]
  by (auto simp: redeem_peek_def peek_drop_def judge_def pc_ok_def linked_def split: option.splits if_splits)

lemma token_keeps: "pc_ok env W i q (DToken rec) \<Longrightarrow> pc_ok env W i q (redeem_token env now q rec)"
  by (auto simp: redeem_token_def pc_ok_def admitted_def)

lemma scope_keeps: "pc_ok env W i q (DScope rec) \<Longrightarrow> pc_ok env W i q (redeem_scope q rec answer)"
  by (auto simp: redeem_scope_def pc_ok_def split: option.splits)

lemma share_keeps: "pc_ok env W i q (DShare rec c) \<Longrightarrow> pc_ok env W i q (redeem_share rec c answer)"
  by (auto simp: redeem_share_def pc_ok_def truthy_def split: option.splits)

lemma minted_once:
  assumes "drop_logs env W" "(dropId, rec, cap) \<in> set (dw_minted W)" "(dropId, rec', cap') \<in> set (dw_minted W)"
  shows "rec' = rec"
proof -
  have "distinct (map fst (dw_minted W))" using assms(1) by (simp add: drop_logs_def)
  then show ?thesis using assms(2,3) by (metis eq_key_imp_eq_value prod.inject)
qed

lemma spend_keeps:
  assumes L: "drop_logs env W" and pc: "pc_ok env W i q (DSpend flds)" and r: "redeem_spend env now q flds (dw_drops W) = (pc', m)"
  shows "pc_ok env ((go i q pc' (log_spent i (dq_dropId q) W))\<lparr> dw_drops := m \<rparr>) i q pc'" (is "pc_ok env ?W i q pc'")
proof -
  obtain a where a: "redeem_drop (de_ttl env) now (dq_dropId q) (dw_drops W) = (a, m)"
    using r by (auto simp: redeem_spend_def split: prod.splits sum.splits)
  have pc': "(\<exists>n. pc' = DAnswered n) \<or> (\<exists>rec. a = Inr rec \<and> pc' = DSave rec flds)"
    using r a by (auto simp: redeem_spend_def split: sum.splits if_splits)
  show ?thesis
  proof (cases "\<exists>n. pc' = DAnswered n")
    case False
    then obtain rec where rec: "a = Inr rec" "pc' = DSave rec flds" using pc' by blast
    have get: "mm_get (dw_drops W) (dq_dropId q) = Some rec" using redeem_drop_result(2) [OF a rec(1)] .
    obtain cap rec' where m: "(dq_dropId q, rec, cap) \<in> set (dw_minted W)" "linked W q rec'" "admitted env q rec'" "submitted rec' q = Some flds"
      using drop_logs_D(1) [OF L get] pc unfolding pc_ok_def by auto
    have "rec' = rec" using m(1,2) minted_once [OF L] unfolding linked_def by blast
    then have "linked W q rec" "admitted env q rec" "submitted rec q = Some flds" using m by simp_all
    moreover have "(dq_dropId q, i) \<in> set (dw_spent ?W)" using get by (simp add: log_spent_def go_def)
    ultimately show ?thesis using pc unfolding rec(2)
      by (simp add: pc_ok_def saved_from_def linked_def log_spent_def go_def)
  qed (auto simp: pc_ok_def)
qed

lemma redeem_save_result:
  assumes "redeem_save env iv now q rec flds st = (pc, st')"
  shows "(\<exists>n. pc = DAnswered n) \<or> (\<exists>c. pc = DShare rec c \<and> cd_ownerId c = dr_ownerId rec)"
  using assms saveCredential_frame(4) [of "de_kc env" iv now "drop_save_input rec q flds" st]
  by (auto simp: redeem_save_def drop_save_input_def split: sum.splits prod.splits)

lemma redeem_grant_result:
  assumes "redeem_grant env now rec c st = (pc, st', g)"
  shows "\<exists>n. pc = DAnswered n" "g = Some x \<Longrightarrow> kg_audienceScopeId x = the (dr_audienceScopeId rec) \<and>
    kg_mode x = the (dr_grantMode rec) \<and> samePerson (Some (kg_ownerId x)) (Some (dr_ownerId rec))"
proof -
  show "\<exists>n. pc = DAnswered n" using assms by (auto simp: redeem_grant_def split: sum.splits)
  assume g: "g = Some x"
  then obtain c' where "mint_from (de_kc env) now (drop_grant_input rec c) c' = Inr x"
    using assms by (auto simp: redeem_grant_def mintGrant_def split: sum.splits option.splits)
  from mint_from_Inr [OF this] show "kg_audienceScopeId x = the (dr_audienceScopeId rec) \<and>
    kg_mode x = the (dr_grantMode rec) \<and> samePerson (Some (kg_ownerId x)) (Some (dr_ownerId rec))"
    by (simp add: drop_grant_input_def)
qed

lemma drop_inv_spends:
  assumes inv: "drop_inv env W" and q: "at_request W i q pc"
    and m: "mm_get m = (mm_get (dw_drops W))(dq_dropId q := None)"
    and pc': "pc_ok env ((go i q pc' (log_spent i (dq_dropId q) W))\<lparr> dw_drops := m \<rparr>) i q pc'"
  shows "drop_inv env ((go i q pc' (log_spent i (dq_dropId q) W))\<lparr> dw_drops := m \<rparr>)" (is "drop_inv env ?W")
proof (rule drop_inv_move [OF inv q])
  have "drop_logs env (go i q pc' ((log_spent i (dq_dropId q) W)\<lparr> dw_drops := m \<rparr>))"
    using drop_logs_go drop_logs_spent m inv unfolding drop_inv_def by blast
  moreover have "go i q pc' ((log_spent i (dq_dropId q) W)\<lparr> dw_drops := m \<rparr>) = ?W" by (cases W) (simp add: go_def log_spent_def)
  ultimately show "drop_logs env ?W" by (simp only:)
qed (use pc' in \<open>auto simp: go_def log_spent_def logs_grow_def\<close>)

lemma drop_inv_saves:
  assumes inv: "drop_inv env W" and q: "at_request W i q (DSave rec flds)"
    and r: "redeem_save env iv now q rec flds (dw_keychain W) = (pc, st)"
  shows "drop_inv env ((go i q pc W)\<lparr> dw_keychain := st, dw_saved := (case pc of DShare rec' c \<Rightarrow> [(i, q, rec', c)] | _ \<Rightarrow> []) @ dw_saved W \<rparr>)"
    (is "drop_inv env ?W")
proof (rule drop_inv_move [OF inv q])
  note P = drop_inv_at [OF inv q]
  have L: "drop_logs env (go i q pc W)" using drop_logs_go P by blast
  show g: "logs_grow W ?W" by (auto simp: go_def logs_grow_def)
  have g': "logs_grow (go i q pc W) ?W" by (auto simp: go_def logs_grow_def)
  have sf: "saved_from env ?W i q rec" using P saved_from_mono [OF _ g] by (simp add: pc_ok_def)
  have notin: "i \<notin> fst ` set (dw_saved W)" "i \<notin> fst ` set (dw_granted W)" using P by (simp_all add: pc_ok_def)
  consider (answered) n where "pc = DAnswered n" | (share) c where "pc = DShare rec c" "cd_ownerId c = dr_ownerId rec"
    using redeem_save_result [OF r] by blast
  note pcs = this
  from pcs show "drop_logs env ?W"
  proof cases
    case share
    then show ?thesis using L sf P notin saved_from_mono [OF _ g'] granted_ok_mono [OF _ g'] unfolding drop_logs_def
      by (auto simp: go_def split_beta)
  qed (use L saved_from_mono [OF _ g'] granted_ok_mono [OF _ g'] in \<open>auto simp: drop_logs_def go_def split_beta\<close>)
  from pcs show "pc_ok env ?W i q pc" by cases (use notin in \<open>auto simp: pc_ok_def go_def\<close>)
  from pcs show "fst ` set (dw_saved ?W) \<subseteq> insert i (fst ` set (dw_saved W))" by cases auto
qed (auto simp: go_def)

lemma drop_inv_grants:
  assumes inv: "drop_inv env W" and q: "at_request W i q (DGrant rec c ok)"
    and r: "redeem_grant env now rec c (dw_keychain W) = (pc, st, g)"
  shows "drop_inv env ((go i q pc W)\<lparr> dw_keychain := st, dw_granted := (case g of Some x \<Rightarrow> [(i, ok, x)] | None \<Rightarrow> []) @ dw_granted W \<rparr>)"
    (is "drop_inv env ?W")
proof (rule drop_inv_move [OF inv q])
  note P = drop_inv_at [OF inv q]
  have L: "drop_logs env (go i q pc W)" using drop_logs_go P by blast
  show "logs_grow W ?W" by (auto simp: go_def logs_grow_def)
  have g': "logs_grow (go i q pc W) ?W" by (auto simp: go_def logs_grow_def)
  have p: "i \<notin> fst ` set (dw_granted W)" "(i, q, rec, c) \<in> set (dw_saved W)" "dropScopeAuthorized rec ok"
      "dr_grantMode rec \<noteq> None" "dr_audienceScopeId rec \<noteq> None" using P by (simp_all add: pc_ok_def)
  have "granted_ok ?W (i, ok, x)" if "g = Some x" for x
    using redeem_grant_result(2) [OF r that] p unfolding granted_ok_def by (auto simp: go_def)
  then show "drop_logs env ?W"
    using L p(1) saved_from_mono [OF _ g'] granted_ok_mono [OF _ g'] unfolding drop_logs_def
    by (cases g) (auto simp: go_def split_beta)
  show "pc_ok env ?W i q pc" using redeem_grant_result(1) [OF r] by (auto simp: pc_ok_def)
qed (auto simp: go_def split: option.splits)

lemma drop_inv_same_requests:
  assumes "drop_inv env W" "dw_requests W' = dw_requests W" "logs_grow W W'" "dw_saved W' = dw_saved W" "dw_granted W' = dw_granted W"
    "drop_logs env W'"
  shows "drop_inv env W'"
  using assms pc_ok_mono [OF _ assms(3)] by (simp add: drop_inv_def)

lemma drop_inv_step:
  assumes "drop_step env W W'" and inv: "drop_inv env W"
  shows "drop_inv env W'"
  using assms(1)
proof cases
  case (ds_mint dropId now cap body rec tok m)
  note r = mintDrop_minted(2,3) [OF ds_mint(2)]
  have g: "logs_grow W W'" by (auto simp: ds_mint(1) logs_grow_def)
  have L: "drop_logs env W" using inv by (simp add: drop_inv_def)
  have "drop_logs env W'" using L ds_mint(3) r saved_from_mono [OF _ g] granted_ok_mono [OF _ g] unfolding drop_logs_def
    by (auto simp: ds_mint(1) split_beta)
  then show ?thesis by (intro drop_inv_same_requests [OF inv _ g]) (simp_all add: ds_mint(1))
next
  case (ds_request q)
  have g: "logs_grow W W'" by (auto simp: ds_request logs_grow_def)
  have L: "drop_logs env W" using inv by (simp add: drop_inv_def)
  have "drop_logs env W'" using L saved_from_mono [OF _ g] granted_ok_mono [OF _ g] unfolding drop_logs_def
    by (auto simp: ds_request split_beta)
  moreover have "pc_ok env W' (length (dw_requests W)) q DPeek" using logged_requests [OF L] by (auto simp: fresh_pc_ok ds_request)
  ultimately show ?thesis using inv pc_ok_mono [OF _ g]
    by (auto simp: drop_inv_def ds_request nth_append less_Suc_eq)
next
  case (ds_peek i q now)
  then show ?thesis using drop_inv_go drop_inv_at inv peek_keeps by metis
next
  case (ds_token i q rec now)
  then show ?thesis using drop_inv_go drop_inv_at inv token_keeps by metis
next
  case (ds_scope i q rec answer)
  then show ?thesis using drop_inv_go drop_inv_at inv scope_keeps by metis
next
  case (ds_share i q rec c answer)
  then show ?thesis using drop_inv_go drop_inv_at inv share_keeps by metis
next
  case (ds_spend i q flds now pc m)
  have "mm_get m = (mm_get (dw_drops W))(dq_dropId q := None)"
    using ds_spend(3) redeem_drop_result(1) by (fastforce simp: redeem_spend_def split: prod.splits sum.splits)
  then show ?thesis unfolding ds_spend(1)
    by (rule drop_inv_spends [OF inv ds_spend(2)]) (use drop_inv_at [OF inv ds_spend(2)] spend_keeps ds_spend(3) in blast)
next
  case (ds_changed i q now pc m)
  have "mm_get m = (mm_get (dw_drops W))(dq_dropId q := None)"
    using ds_changed(3) redeem_drop_result(1) [OF surjective_pairing] by (auto simp: redeem_changed_def)
  then show ?thesis unfolding ds_changed(1)
    by (rule drop_inv_spends [OF inv ds_changed(2)]) (use ds_changed(3) in \<open>auto simp: redeem_changed_def pc_ok_def\<close>)
next
  case (ds_save i q rec flds iv now pc st)
  then show ?thesis using drop_inv_saves [OF inv ds_save(2,3)] by simp
next
  case (ds_grant i q rec c ok now pc st g)
  then show ?thesis using drop_inv_grants [OF inv ds_grant(2,3)] by simp
next
  case (ds_siblings now rec rs m)
  have "drop_logs env W'" unfolding ds_siblings(1) using inv siblings_shrinks [OF ds_siblings(2)]
    by (intro drop_logs_shrink) (auto simp: drop_inv_def)
  then show ?thesis by (intro drop_inv_same_requests [OF inv]) (simp_all add: ds_siblings(1) logs_grow_def)
next
  case (ds_keychain st)
  have g: "logs_grow W W'" by (auto simp: ds_keychain logs_grow_def)
  have "drop_logs env W'" using inv saved_from_mono [OF _ g] granted_ok_mono [OF _ g] unfolding drop_inv_def drop_logs_def
    by (auto simp: ds_keychain split_beta)
  then show ?thesis by (intro drop_inv_same_requests [OF inv _ g]) (simp_all add: ds_keychain)
qed

interpretation drop_machine: invariant_machine "\<lambda>W. W = dw_start" "drop_step env" "drop_inv env" for env
proof unfold_locales
  show "drop_inv env W" if "W = dw_start" for W by (simp add: that dw_start_def drop_inv_def drop_logs_def)
qed (rule drop_inv_step)

section \<open>Properties\<close>

lemma same_spender:
  assumes "drop_logs env W" "(dropId, i) \<in> set (dw_spent W)" "(dropId, j) \<in> set (dw_spent W)"
  shows "i = j"
proof -
  have "distinct (map fst (dw_spent W))" using assms(1) by (simp add: drop_logs_def)
  then show ?thesis using assms(2,3) by (meson eq_key_imp_eq_value)
qed

lemma saved_drops_distinct:
  assumes L: "drop_logs env W"
  shows "distinct (map (\<lambda>(i, q, rec, c). dq_dropId q) (dw_saved W))"
proof -
  have d: "distinct (map fst (dw_saved W))" using L by (simp add: drop_logs_def)
  have "inj_on (\<lambda>(i, q, rec, c). dq_dropId q) (set (dw_saved W))"
  proof (rule inj_onI)
    fix x y assume xy: "x \<in> set (dw_saved W)" "y \<in> set (dw_saved W)"
      "(case x of (i, q, rec, c) \<Rightarrow> dq_dropId q) = (case y of (i, q, rec, c) \<Rightarrow> dq_dropId q)"
    obtain i q rec c j q' rec' c' where v: "x = (i, q, rec, c)" "y = (j, q', rec', c')" by (metis prod_cases4)
    have "(dq_dropId q', i) \<in> set (dw_spent W)" "(dq_dropId q', j) \<in> set (dw_spent W)"
      using drop_logs_D(3) [OF L] xy unfolding v saved_from_def prod.case by metis+
    then have "i = j" by (rule same_spender [OF L])
    then show "x = y" using xy(1,2) d v by (metis eq_key_imp_eq_value)
  qed
  moreover have "distinct (dw_saved W)" using d by (simp add: distinct_map)
  ultimately show ?thesis by (simp add: distinct_map)
qed

lemma token_bound:
  assumes "dropLinkTokenOk env now dropId rec token" "dr_requiresToken rec"
  shows "\<exists>t secret claims. token = Some t \<and> de_capSecret env = Some secret \<and>
    verifyCapabilityToken (de_lib env) (de_tz env) t [secret] now = Some claims \<and>
    json_get ''aud'' claims = Some (JStr SECRET_DROP_AUD) \<and> json_get ''drop'' claims = Some (JStr dropId)"
  using assms by (auto simp: dropLinkTokenOk_def truthy_def split: option.splits)

text \<open>
  C22. A drop link stores one secret, its owner's. However redemptions overlap, no link gives rise to two
  stored credentials nor to two grants; each credential belongs to the person who asked for the link, in a
  turn that no trigger started, and came from a request made as that person with a token signed for this
  link alone; and a grant that follows lends to the conversation the link was asked for in, in the mode the
  link recorded, and never to a shared one whose check had failed.
\<close>

theorem drop_single_use:
  assumes "(drop_step env)\<^sup>*\<^sup>* dw_start W"
  shows "distinct (map (\<lambda>(i, q, rec, c). dq_dropId q) (dw_saved W)) \<and> distinct (map fst (dw_granted W)) \<and>
    (\<forall>i q rec c. (i, q, rec, c) \<in> set (dw_saved W) \<longrightarrow>
       (\<exists>cap. (dq_dropId q, rec, cap) \<in> set (dw_minted W) \<and> \<not> json_truthy_at ''triggered'' cap \<and> cd_ownerId c = claim_of ''actorId'' cap \<and>
         samePerson (dq_owner q) (Some (claim_of ''actorId'' cap)) \<and>
         (\<exists>now t secret claims. dq_token q = Some t \<and> de_capSecret env = Some secret \<and>
            verifyCapabilityToken (de_lib env) (de_tz env) t [secret] now = Some claims \<and>
            json_get ''aud'' claims = Some (JStr SECRET_DROP_AUD) \<and> json_get ''drop'' claims = Some (JStr (dq_dropId q))))) \<and>
    (\<forall>i ok g. (i, ok, g) \<in> set (dw_granted W) \<longrightarrow>
       (\<exists>q rec c cap. (i, q, rec, c) \<in> set (dw_saved W) \<and> (dq_dropId q, rec, cap) \<in> set (dw_minted W) \<and>
         kg_audienceScopeId g = claim_of ''scopeId'' cap \<and> dr_grantMode rec = Some (kg_mode g) \<and>
         samePerson (Some (kg_ownerId g)) (Some (claim_of ''actorId'' cap)) \<and> (isSharedScope (Some (kg_audienceScopeId g)) \<longrightarrow> ok)))"
proof -
  have L: "drop_logs env W" using drop_machine.inv_reachable [OF refl assms] by (simp add: drop_inv_def)
  have asked: "\<exists>cap. (dq_dropId q, rec, cap) \<in> set (dw_minted W) \<and> asked_by_owner rec cap"
    if "(i, q, rec, c) \<in> set (dw_saved W)" for i q rec c
    using drop_logs_D(3) [OF L that] drop_logs_D(5) [OF L] unfolding saved_from_def linked_def by blast
  have "\<exists>cap. (dq_dropId q, rec, cap) \<in> set (dw_minted W) \<and> \<not> json_truthy_at ''triggered'' cap \<and> cd_ownerId c = claim_of ''actorId'' cap \<and>
      samePerson (dq_owner q) (Some (claim_of ''actorId'' cap)) \<and>
      (\<exists>now t secret claims. dq_token q = Some t \<and> de_capSecret env = Some secret \<and>
         verifyCapabilityToken (de_lib env) (de_tz env) t [secret] now = Some claims \<and>
         json_get ''aud'' claims = Some (JStr SECRET_DROP_AUD) \<and> json_get ''drop'' claims = Some (JStr (dq_dropId q)))"
    if s: "(i, q, rec, c) \<in> set (dw_saved W)" for i q rec c
    using asked [OF s] drop_logs_D(3) [OF L s] token_bound unfolding saved_from_def admitted_def asked_by_owner_def by metis
  moreover have "\<exists>q rec c cap. (i, q, rec, c) \<in> set (dw_saved W) \<and> (dq_dropId q, rec, cap) \<in> set (dw_minted W) \<and>
      kg_audienceScopeId g = claim_of ''scopeId'' cap \<and> dr_grantMode rec = Some (kg_mode g) \<and>
      samePerson (Some (kg_ownerId g)) (Some (claim_of ''actorId'' cap)) \<and> (isSharedScope (Some (kg_audienceScopeId g)) \<longrightarrow> ok)"
    if mem: "(i, ok, g) \<in> set (dw_granted W)" for i ok g
  proof -
    obtain q rec c where s: "(i, q, rec, c) \<in> set (dw_saved W)" "dropScopeAuthorized rec ok" "dr_audienceScopeId rec = Some (kg_audienceScopeId g)"
        "dr_grantMode rec = Some (kg_mode g)" "samePerson (Some (kg_ownerId g)) (Some (dr_ownerId rec))"
      using drop_logs_D(4) [OF L mem] unfolding granted_ok_def by blast
    obtain cap where "(dq_dropId q, rec, cap) \<in> set (dw_minted W)" "asked_by_owner rec cap" using asked [OF s(1)] by blast
    with s show ?thesis by (intro exI [of _ q] exI [of _ rec] exI [of _ c] exI [of _ cap]) (simp add: asked_by_owner_def dropScopeAuthorized_def)
  qed
  moreover have "distinct (map fst (dw_granted W))" using L by (simp add: drop_logs_def)
  ultimately show ?thesis using saved_drops_distinct [OF L] by blast
qed

text \<open>Ann asks for a link in a channel and redeems it; the secret is stored and lent to the channel.\<close>

definition demo_drops :: drop_env where
  "demo_drops = \<lparr> de_lib = toy_lib, de_tz = (\<lambda>_. True), de_capSecret = Some ''k'', de_ttl = SECRET_DROP_TTL_MS, de_kc = demo_env \<rparr>"

definition demo_cap :: json where
  "demo_cap = JObj [(''actorId'', JStr ''ann''), (''scopeId'', JStr ''channel:c1'')]"

definition demo_ask :: json where
  "demo_ask = JObj [(''service'', JStr ''GitHub''), (''purpose'', JStr ''push'')]"

definition demo_link :: drop_record where
  "demo_link = (minted_record demo_drops demo_cap demo_ask None None)\<lparr> dr_createdAt := 1 \<rparr>"

definition demo_token :: string where
  "demo_token = mintCapabilityToken toy_lib ''acme''
     [(''actorId'', JStr ''ann''), (''scopeId'', JStr ''channel:c1''), (''aud'', JStr SECRET_DROP_AUD), (''drop'', JStr ''d''), (''exp'', JNum 90)] ''k''"

definition demo_redeem :: drop_request where
  "demo_redeem = \<lparr> dq_dropId = ''d'', dq_owner = Some ''ann'', dq_token = Some demo_token, dq_secret = Some (JStr ''s3cret''), dq_values = None \<rparr>"

definition demo_card :: keychain_credential where
  "demo_card = fst (projr (saveCredential demo_env ''iv'' 1 (drop_save_input demo_link demo_redeem None) kc_empty))"

lemma demo_drop_mint:
  "\<exists>tok. mintDrop demo_drops ''d'' 1 (Some demo_cap) demo_ask mm_empty = (DropMinted ''d'' demo_link tok, mm_put ''d'' demo_link mm_empty)"
proof -
  have "truthy (de_capSecret demo_drops)" "\<not> json_truthy_at ''triggered'' demo_cap" "nonempty_str ''service'' demo_ask \<noteq> None"
    "nonempty_str ''purpose'' demo_ask \<noteq> None" "parse_mode (json_get ''grantMode'' demo_ask) = Some None"
    "parseDropFields (json_get ''fields'' demo_ask) = Some None" by code_simp+
  then show ?thesis by (simp add: mintDrop_def Let_def demo_link_def mint_drop_def)
qed

lemma demo_drop_token: "redeem_token demo_drops 2 demo_redeem demo_link = DScope demo_link"
  by code_simp

lemma demo_drop_facts:
  "redeem_peek demo_drops 2 demo_redeem (mm_put ''d'' demo_link mm_empty) = DToken demo_link"
  "redeem_scope demo_redeem demo_link True = DSpend None"
  "redeem_spend demo_drops 2 demo_redeem None (mm_put ''d'' demo_link mm_empty) = (DSave demo_link None, mm_empty)"
  by code_simp+

lemma demo_drop_save:
  "redeem_save demo_drops ''iv'' 1 demo_redeem demo_link None kc_empty =
     (DShare demo_link demo_card, kc_empty\<lparr>kc_creds := mm_put (cd_id demo_card) demo_card mm_empty\<rparr>)"
  "redeem_share demo_link demo_card True = DGrant demo_link demo_card True"
  by code_simp+

definition demo_stored :: keychain where
  "demo_stored = kc_empty\<lparr>kc_creds := mm_put (cd_id demo_card) demo_card mm_empty\<rparr>"

lemma demo_drop_grant:
  "case redeem_grant demo_drops 3 demo_link demo_card demo_stored of (pc, st, g) \<Rightarrow> g \<noteq> None \<and> map_option kg_audienceScopeId g = Some ''channel:c1''"
  by code_simp

definition demo_dw :: "drop_record mem_map \<Rightarrow> keychain \<Rightarrow> drop_pc \<Rightarrow> (string \<times> nat) list \<Rightarrow>
    (nat \<times> drop_request \<times> drop_record \<times> keychain_credential) list \<Rightarrow> (nat \<times> bool \<times> keychain_grant) list \<Rightarrow> drop_world" where
  "demo_dw m st pc spent saved granted = \<lparr> dw_drops = m, dw_keychain = st, dw_requests = [(demo_redeem, pc)],
     dw_minted = [(''d'', demo_link, demo_cap)], dw_spent = spent, dw_saved = saved, dw_granted = granted \<rparr>"

lemma demo_dw_at: "at_request (demo_dw m st pc spent saved granted) 0 demo_redeem pc"
  by (simp add: at_request_def demo_dw_def)

lemma demo_drop_reach:
  "\<exists>st pc g. (drop_step demo_drops)\<^sup>*\<^sup>* dw_start (demo_dw mm_empty st pc [(''d'', 0)] [(0, demo_redeem, demo_link, demo_card)] [(0, True, g)]) \<and>
     kg_audienceScopeId g = ''channel:c1''"
proof -
  let ?m = "mm_put ''d'' demo_link mm_empty" and ?s = "[(0, demo_redeem, demo_link, demo_card)]"
  let ?step = "drop_step demo_drops"
  have id: "dq_dropId demo_redeem = ''d''" by (simp add: demo_redeem_def)
  obtain tok where "mintDrop demo_drops ''d'' 1 (Some demo_cap) demo_ask (dw_drops dw_start) = (DropMinted ''d'' demo_link tok, ?m)"
    using demo_drop_mint by (auto simp: dw_start_def)
  from ds_mint [OF this] have 1: "?step dw_start (dw_start\<lparr> dw_drops := ?m, dw_minted := [(''d'', demo_link, demo_cap)] \<rparr>)"
    by (simp add: dw_start_def)
  have 2: "?step (dw_start\<lparr> dw_drops := ?m, dw_minted := [(''d'', demo_link, demo_cap)] \<rparr>) (demo_dw ?m kc_empty DPeek [] [] [])"
    using ds_request [of _ "dw_start\<lparr> dw_drops := ?m, dw_minted := [(''d'', demo_link, demo_cap)] \<rparr>" demo_redeem] by (simp add: dw_start_def demo_dw_def)
  have 3: "?step (demo_dw ?m kc_empty DPeek [] [] []) (demo_dw ?m kc_empty (DToken demo_link) [] [] [])"
    using ds_peek [where env = demo_drops and now = 2, OF demo_dw_at [of ?m kc_empty _ "[]" "[]" "[]"]] demo_drop_facts(1) by (simp add: demo_dw_def go_def)
  have 4: "?step (demo_dw ?m kc_empty (DToken demo_link) [] [] []) (demo_dw ?m kc_empty (DScope demo_link) [] [] [])"
    using ds_token [where env = demo_drops and now = 2 and rec = demo_link, OF demo_dw_at [of ?m kc_empty _ "[]" "[]" "[]"]] demo_drop_token by (simp add: demo_dw_def go_def)
  have 5: "?step (demo_dw ?m kc_empty (DScope demo_link) [] [] []) (demo_dw ?m kc_empty (DSpend None) [] [] [])"
    using ds_scope [where env = demo_drops and answer = True and rec = demo_link, OF demo_dw_at [of ?m kc_empty _ "[]" "[]" "[]"]] demo_drop_facts(2) by (simp add: demo_dw_def go_def)
  have 6: "?step (demo_dw ?m kc_empty (DSpend None) [] [] []) (demo_dw mm_empty kc_empty (DSave demo_link None) [(''d'', 0)] [] [])"
    using ds_spend [where env = demo_drops and now = 2 and flds = None, OF demo_dw_at [of ?m kc_empty _ "[]" "[]" "[]"]] demo_drop_facts(3)
    by (simp add: demo_dw_def go_def log_spent_def id)
  have 7: "?step (demo_dw mm_empty kc_empty (DSave demo_link None) [(''d'', 0)] [] []) (demo_dw mm_empty demo_stored (DShare demo_link demo_card) [(''d'', 0)] ?s [])"
    using ds_save [where env = demo_drops and iv = "''iv''" and now = 1 and rec = demo_link and flds = None, OF demo_dw_at [of mm_empty kc_empty _ "[(''d'', 0)]" "[]" "[]"]] demo_drop_save(1)
    by (simp add: demo_dw_def go_def demo_stored_def)
  have 8: "?step (demo_dw mm_empty demo_stored (DShare demo_link demo_card) [(''d'', 0)] ?s []) (demo_dw mm_empty demo_stored (DGrant demo_link demo_card True) [(''d'', 0)] ?s [])"
    using ds_share [where env = demo_drops and answer = True and rec = demo_link and c = demo_card, OF demo_dw_at [of mm_empty demo_stored _ "[(''d'', 0)]" ?s "[]"]] demo_drop_save(2) by (simp add: demo_dw_def go_def)
  obtain pc st g where g: "redeem_grant demo_drops 3 demo_link demo_card demo_stored = (pc, st, Some g)" "kg_audienceScopeId g = ''channel:c1''"
    using demo_drop_grant by (auto split: prod.splits)
  have 9: "?step (demo_dw mm_empty demo_stored (DGrant demo_link demo_card True) [(''d'', 0)] ?s []) (demo_dw mm_empty st pc [(''d'', 0)] ?s [(0, True, g)])"
    using ds_grant [where env = demo_drops and now = 3 and rec = demo_link and c = demo_card and ok = True, OF demo_dw_at [of mm_empty demo_stored _ "[(''d'', 0)]" ?s "[]"]] g(1) by (simp add: demo_dw_def go_def)
  from 1 2 3 4 5 6 7 8 9 have "?step\<^sup>*\<^sup>* dw_start (demo_dw mm_empty st pc [(''d'', 0)] ?s [(0, True, g)])"
    by (meson converse_rtranclp_into_rtranclp rtranclp.rtrancl_refl)
  then show ?thesis using g(2) by blast
qed

theorem drop_single_use_witness:
  "\<exists>W g. (drop_step demo_drops)\<^sup>*\<^sup>* dw_start W \<and> length (dw_saved W) = 1 \<and> dw_granted W = [(0, True, g)] \<and>
     samePerson (Some (kg_ownerId g)) (Some ''ann'') \<and> kg_audienceScopeId g = ''channel:c1''"
proof -
  obtain st pc g where r: "(drop_step demo_drops)\<^sup>*\<^sup>* dw_start
      (demo_dw mm_empty st pc [(''d'', 0)] [(0, demo_redeem, demo_link, demo_card)] [(0, True, g)])"
    and g: "kg_audienceScopeId g = ''channel:c1''"
    using demo_drop_reach by blast
  let ?W = "demo_dw mm_empty st pc [(''d'', 0)] [(0, demo_redeem, demo_link, demo_card)] [(0, True, g)]"
  have mem: "(0, True, g) \<in> set (dw_granted ?W)" by (simp add: demo_dw_def)
  obtain q :: drop_request and rec cap where "(dq_dropId q, rec, cap) \<in> set (dw_minted ?W)" "samePerson (Some (kg_ownerId g)) (Some (claim_of ''actorId'' cap))"
    using drop_single_use [OF r, THEN conjunct2, THEN conjunct2, THEN conjunct2, rule_format, OF mem] by blast
  then have "samePerson (Some (kg_ownerId g)) (Some ''ann'')"
    by (simp add: demo_dw_def demo_cap_def claim_of_def json_get_str_def)
  then show ?thesis using r g by (intro exI [of _ ?W] exI [of _ g]) (simp add: demo_dw_def)
qed

end
