(* ===== verification/Skills.thy ===== *)
theory Skills
  imports Durable_Map Scope Json
begin

text \<open>
  Skills (\<open>src/skills/\<close>): the names and file paths they may have (\<open>skill-name.ts\<close>, \<open>materialization-paths.ts\<close>), the
  store with its review and publication (\<open>skill-store.ts\<close>), the stores of packs and bundles, the check of
  paths that two owners claim (\<open>skill-collision.ts\<close>) and the installation of a seed (\<open>seed.ts\<close>).

  An operation of the store reads a record, edits it and writes it back, with an \<open>await\<close> after the read. The
  editing is a definition of its own, so that the last part can apply it to a record that is no longer the
  stored one. \<open>createHmac\<close> is an argument.
\<close>

section \<open>Names and paths\<close>

definition skill_name_char :: "char \<Rightarrow> bool" where
  "skill_name_char c \<longleftrightarrow> is_word_char c \<or> c = CHR ''.'' \<or> c = CHR ''-''"

definition isSafeSkillName :: "string \<Rightarrow> bool" where
  "isSafeSkillName name =
     (case name of
        [] \<Rightarrow> False
      | c # cs \<Rightarrow> is_alnum c \<and>
          (cs = [] \<or> length cs \<le> 127 \<and> list_all skill_name_char (butlast cs) \<and> skill_name_char (last cs) \<and> last cs \<noteq> CHR ''.''))"

definition slashes :: "string \<Rightarrow> string" where
  "slashes path = map (\<lambda>c. if c = CHR 0x5C then CHR ''/'' else c) path"

definition strip_dot_slash :: "string \<Rightarrow> string" where
  "strip_dot_slash p = (if js_startsWith p ''./'' then dropWhile (\<lambda>c. c = CHR ''/'') (tl p) else p)"

definition strip_end_slashes :: "string \<Rightarrow> string" where
  "strip_end_slashes p = rev (dropWhile (\<lambda>c. c = CHR ''/'') (rev p))"

definition path_parts :: "string \<Rightarrow> string list" where
  "path_parts p = filter (\<lambda>s. s \<noteq> []) (js_split CHR ''/'' p)"

text \<open>\<open>None\<close> is the error that is thrown.\<close>

definition safeSkillFilePath :: "string \<Rightarrow> string option" where
  "safeSkillFilePath path =
     (let parts = path_parts (strip_end_slashes (strip_dot_slash (slashes path)))
      in if parts = [] \<or> js_startsWith path ''/'' \<or> list_ex (\<lambda>p. p = ''.'' \<or> p = ''..'' \<or> CHR 0x00 \<in> set p) parts
         then None else Some (js_join ''/'' parts))"

definition SKILLS_DIR :: string where "SKILLS_DIR = ''skills''"
definition SKILLS_INDEX_MARKER :: string where "SKILLS_INDEX_MARKER = SKILLS_DIR @ ''/.index''"
definition SKILL_TREE_MARKER :: string where "SKILL_TREE_MARKER = ''.tree''"

definition isSkillMaterializationControlPath :: "string \<Rightarrow> bool" where
  "isSkillMaterializationControlPath path \<longleftrightarrow>
     path = SKILLS_INDEX_MARKER \<or> js_startsWith path (SKILLS_INDEX_MARKER @ ''/'') \<or>
     (let parts = js_split CHR ''/'' path in 3 \<le> length parts \<and> parts ! 0 = SKILLS_DIR \<and> parts ! 2 = SKILL_TREE_MARKER)"

section \<open>The store of skills\<close>

datatype skill_status = Draft | Reviewed | Published | Archived

record skill_file =
  sf_path :: string
  sf_content :: string
  sf_executable :: bool

record skill_manifest =
  sm_name :: string
  sm_description :: string
  sm_requiredCapabilities :: "string list"
  sm_body :: string
  sm_files :: "skill_file list option"

record skill_pack_ref =
  pk_packId :: string
  pk_commit :: string
  pk_upstreamName :: string

record skill =
  sk_id :: string
  sk_scopeId :: scope_id
  sk_manifest :: skill_manifest
  sk_signature :: string
  sk_status :: skill_status
  sk_createdBy :: string
  sk_version :: nat
  sk_grantedCapabilities :: "string list"
  sk_approvals :: "string list"
  sk_createdAt :: "time option"
  sk_updatedAt :: "time option"
  sk_lastUsedAt :: "time option"
  sk_pack :: "skill_pack_ref option"

definition manifest_files :: "skill_manifest \<Rightarrow> skill_file list" where
  "manifest_files m = (case sm_files m of Some fs \<Rightarrow> fs | None \<Rightarrow> [])"

definition canonicalFiles :: "skill_file list \<Rightarrow> (string \<times> string \<times> bool) list" where
  "canonicalFiles files = sort_key fst (map (\<lambda>f. (sf_path f, sf_content f, sf_executable f)) files)"

definition canonical_manifest :: "skill_manifest \<Rightarrow> json" where
  "canonical_manifest m =
     (let files = canonicalFiles (manifest_files m)
      in JObj ([(''name'', JStr (sm_name m)), (''description'', JStr (sm_description m)),
           (''requiredCapabilities'', JArr (map JStr (sort (sm_requiredCapabilities m)))), (''body'', JStr (sm_body m))] @
           (if files = [] then [] else [(''files'', JArr (map (\<lambda>(p, c, x). JArr [JStr p, JStr c, JBool x]) files))])))"

record skill_env =
  ss_hmac :: "string \<Rightarrow> string \<Rightarrow> string"
  ss_secret :: string

definition sign :: "skill_env \<Rightarrow> skill_manifest \<Rightarrow> string" where
  "sign env m = ss_hmac env (ss_secret env) (json_stringify (canonical_manifest m))"

definition skill_verify :: "skill_env \<Rightarrow> skill \<Rightarrow> bool" where
  "skill_verify env s \<longleftrightarrow> sign env (sk_manifest s) = sk_signature s"

datatype skill_error =
    UnsafeSkillName | UnknownSkill | RenameRefused | SignatureInvalid | MustBeReviewed | UngrantedCapabilities "string list"
  | OnlyPublished | OrgByPromotion

record skill_input =
  in_scopeId :: scope_id
  in_manifest :: skill_manifest
  in_createdBy :: string
  in_pack :: "skill_pack_ref option"

definition created_skill :: "skill_env \<Rightarrow> string \<Rightarrow> time \<Rightarrow> skill_input \<Rightarrow> skill_error + skill" where
  "created_skill env uid now i =
     (if \<not> isSafeSkillName (sm_name (in_manifest i)) then Inl UnsafeSkillName
      else Inr \<lparr> sk_id = uid, sk_scopeId = in_scopeId i, sk_manifest = in_manifest i, sk_signature = sign env (in_manifest i),
             sk_status = Draft, sk_createdBy = in_createdBy i, sk_version = 1, sk_grantedCapabilities = [], sk_approvals = [],
             sk_createdAt = Some now, sk_updatedAt = Some now, sk_lastUsedAt = None, sk_pack = in_pack i \<rparr>)"

definition scopeKind :: "scope_id \<Rightarrow> string" where
  "scopeKind sid = (case fst (parseScopeId sid) of Some k \<Rightarrow> kind_name k | None \<Rightarrow> sid)"

definition updated_skill :: "skill_env \<Rightarrow> time \<Rightarrow> skill_manifest \<Rightarrow> skill \<Rightarrow> skill_error + skill" where
  "updated_skill env now m s =
     (if sm_name m \<noteq> sm_name (sk_manifest s) then Inl RenameRefused
      else Inr (s\<lparr> sk_manifest := m, sk_signature := sign env m,
                 sk_status := (if scopeKind (sk_scopeId s) \<noteq> ''personal'' then Draft else sk_status s),
                 sk_version := sk_version s + 1, sk_updatedAt := Some now \<rparr>))"

definition reviewed_skill :: "skill_env \<Rightarrow> time \<Rightarrow> string \<Rightarrow> string list \<Rightarrow> skill \<Rightarrow> skill_error + skill" where
  "reviewed_skill env now reviewer grantCapabilities s =
     (if \<not> isSafeSkillName (sm_name (sk_manifest s)) then Inl UnsafeSkillName
      else if sign env (sk_manifest s) \<noteq> sk_signature s then Inl SignatureInvalid
      else Inr (s\<lparr> sk_grantedCapabilities := jset_of (sk_grantedCapabilities s @ grantCapabilities),
                 sk_approvals := jset_add reviewer (sk_approvals s), sk_status := Reviewed, sk_updatedAt := Some now \<rparr>))"

definition missing_capabilities :: "skill \<Rightarrow> string list" where
  "missing_capabilities s = filter (\<lambda>c. c \<notin> set (sk_grantedCapabilities s)) (sm_requiredCapabilities (sk_manifest s))"

definition published_skill :: "time \<Rightarrow> skill \<Rightarrow> skill_error + skill" where
  "published_skill now s =
     (if \<not> isSafeSkillName (sm_name (sk_manifest s)) then Inl UnsafeSkillName
      else if sk_status s = Draft then Inl MustBeReviewed
      else if missing_capabilities s \<noteq> [] then Inl (UngrantedCapabilities (missing_capabilities s))
      else Inr (s\<lparr> sk_status := Published, sk_updatedAt := Some now \<rparr>))"

definition archived_skill :: "time \<Rightarrow> skill \<Rightarrow> skill_error + skill" where
  "archived_skill now s = Inr (if sk_status s = Archived then s else s\<lparr> sk_status := Archived, sk_updatedAt := Some now \<rparr>)"

definition moved_skill :: "time \<Rightarrow> scope_id \<Rightarrow> skill \<Rightarrow> skill_error + skill" where
  "moved_skill now to s =
     (if \<not> isSafeSkillName (sm_name (sk_manifest s)) then Inl UnsafeSkillName
      else if scopeKind to = ''org'' then Inl OrgByPromotion
      else Inr (s\<lparr> sk_scopeId := to, sk_updatedAt := Some now \<rparr>))"

definition is_live_in :: "scope_id \<Rightarrow> string \<Rightarrow> skill \<Rightarrow> bool" where
  "is_live_in sc name s \<longleftrightarrow> sk_status s = Published \<and> sm_name (sk_manifest s) = name \<and> sk_scopeId s = sc"

definition promoted_skill :: "skill_env \<Rightarrow> string \<Rightarrow> time \<Rightarrow> scope_id \<Rightarrow> skill option \<Rightarrow> skill \<Rightarrow> skill_error + skill" where
  "promoted_skill env uid now target existing s =
     (if \<not> isSafeSkillName (sm_name (sk_manifest s)) then Inl UnsafeSkillName
      else if sk_status s \<noteq> Published then Inl OnlyPublished
      else if sign env (sk_manifest s) \<noteq> sk_signature s then Inl SignatureInvalid
      else Inr \<lparr> sk_id = (case existing of Some x \<Rightarrow> sk_id x | None \<Rightarrow> uid), sk_scopeId = target, sk_manifest = sk_manifest s,
             sk_signature = sign env (sk_manifest s), sk_status = Published, sk_createdBy = sk_createdBy s,
             sk_version = (case existing of Some x \<Rightarrow> sk_version x | None \<Rightarrow> 0) + 1,
             sk_grantedCapabilities = sk_grantedCapabilities s, sk_approvals = sk_approvals s,
             sk_createdAt = Some now, sk_updatedAt = Some now, sk_lastUsedAt = None, sk_pack = None \<rparr>)"

type_synonym skill_store = "skill mem_map"

definition put_skill :: "skill \<Rightarrow> skill_store \<Rightarrow> skill_store" where
  "put_skill s m = mm_put (sk_id s) s m"

text \<open>An operation on one record: read it, edit it, write it back.\<close>

definition edit_skill :: "string \<Rightarrow> (skill \<Rightarrow> skill_error + skill) \<Rightarrow> skill_store \<Rightarrow> skill_error + skill \<times> skill_store" where
  "edit_skill uid f m =
     (case mm_get m uid of
        None \<Rightarrow> Inl UnknownSkill
      | Some s \<Rightarrow> (case f s of Inl e \<Rightarrow> Inl e | Inr s' \<Rightarrow> Inr (s', put_skill s' m)))"

definition skill_create :: "skill_env \<Rightarrow> string \<Rightarrow> time \<Rightarrow> skill_input \<Rightarrow> skill_store \<Rightarrow> skill_error + skill \<times> skill_store" where
  "skill_create env uid now i m = (case created_skill env uid now i of Inl e \<Rightarrow> Inl e | Inr s \<Rightarrow> Inr (s, put_skill s m))"

definition skill_update :: "skill_env \<Rightarrow> time \<Rightarrow> string \<Rightarrow> skill_manifest \<Rightarrow> skill_store \<Rightarrow> skill_error + skill \<times> skill_store" where
  "skill_update env now uid man m =
     (if \<not> isSafeSkillName (sm_name man) then Inl UnsafeSkillName else edit_skill uid (updated_skill env now man) m)"

definition skill_review :: "skill_env \<Rightarrow> time \<Rightarrow> string \<Rightarrow> string \<Rightarrow> string list \<Rightarrow> skill_store \<Rightarrow> skill_error + skill \<times> skill_store" where
  "skill_review env now uid reviewer caps m = edit_skill uid (reviewed_skill env now reviewer caps) m"

definition skill_publish :: "time \<Rightarrow> string \<Rightarrow> skill_store \<Rightarrow> skill_error + skill \<times> skill_store" where
  "skill_publish now uid m = edit_skill uid (published_skill now) m"

definition skill_archive :: "time \<Rightarrow> string \<Rightarrow> skill_store \<Rightarrow> skill_error + skill \<times> skill_store" where
  "skill_archive now uid m = edit_skill uid (archived_skill now) m"

definition skill_move :: "time \<Rightarrow> string \<Rightarrow> scope_id \<Rightarrow> skill_store \<Rightarrow> skill_error + skill \<times> skill_store" where
  "skill_move now uid to m = edit_skill uid (moved_skill now to) m"

definition skill_promote :: "skill_env \<Rightarrow> string \<Rightarrow> time \<Rightarrow> string \<Rightarrow> scope_id \<Rightarrow> skill_store \<Rightarrow> skill_error + skill \<times> skill_store" where
  "skill_promote env fresh now uid target m =
     edit_skill uid (\<lambda>s. promoted_skill env fresh now target (find (is_live_in target (sm_name (sk_manifest s))) (mm_all m)) s) m"

definition skill_restore :: "skill \<Rightarrow> skill_store \<Rightarrow> skill_error + skill_store" where
  "skill_restore s m = (if \<not> isSafeSkillName (sm_name (sk_manifest s)) then Inl UnsafeSkillName else Inr (put_skill s m))"

definition recordUse :: "string \<Rightarrow> time \<Rightarrow> skill_store \<Rightarrow> skill_store" where
  "recordUse uid now m = snd (mm_update uid (\<lambda>s. s\<lparr> sk_lastUsedAt := Some now \<rparr>) m)"

definition skill_resolve :: "string \<Rightarrow> scope_id list \<Rightarrow> skill_store \<Rightarrow> skill option \<times> skill list" where
  "skill_resolve name orderedScopes m =
     (if \<not> isSafeSkillName name then (None, [])
      else case List.map_filter (\<lambda>sc. find (is_live_in sc name) (mm_all m)) orderedScopes of
             [] \<Rightarrow> (None, []) | s # shadowed \<Rightarrow> (Some s, shadowed))"

definition visible_names :: "scope_id list \<Rightarrow> skill_store \<Rightarrow> string list" where
  "visible_names orderedScopes m = jset_of (map (\<lambda>s. sm_name (sk_manifest s))
     (filter (\<lambda>s. sk_status s = Published \<and> sk_scopeId s \<in> set orderedScopes \<and> isSafeSkillName (sm_name (sk_manifest s))) (mm_all m)))"

definition visibleFor :: "scope_id list \<Rightarrow> skill_store \<Rightarrow> (skill option \<times> skill list) list" where
  "visibleFor orderedScopes m =
     filter (\<lambda>r. fst r \<noteq> None) (map (\<lambda>n. skill_resolve n orderedScopes m) (visible_names orderedScopes m))"

section \<open>Packs and bundles\<close>

datatype sync_mode = Pinned | Tracked
datatype trust_tier = InternalPack | ThirdPartyPack

record import_record =
  im_at :: time
  im_commit :: string
  im_ok :: bool
  im_error :: "string option"
  im_counts :: "(string \<times> nat) list option"

record pack_config =
  pc_skillGlobs :: "string list option"
  pc_exclude :: "string list option"
  pc_fieldOverrides :: "(string \<times> string) list"

text \<open>\<open>None\<close> in \<open>sp_subset\<close> is the value \<open>"all"\<close>.\<close>

record skill_pack =
  sp_id :: string
  sp_url :: string
  sp_ref :: string
  sp_syncMode :: sync_mode
  sp_trustTier :: trust_tier
  sp_config :: "pack_config option"
  sp_targetScopeId :: scope_id
  sp_subset :: "string list option"
  sp_authCredentialSlug :: "string option"
  sp_createdBy :: string
  sp_createdAt :: time
  sp_lastImport :: "import_record option"
  sp_updateAvailable :: bool
  sp_available :: "nat option"

definition pack_create :: "string \<Rightarrow> time \<Rightarrow> skill_pack \<Rightarrow> skill_pack mem_map \<Rightarrow> skill_pack \<times> skill_pack mem_map" where
  "pack_create uid now p m =
     (let pack = p\<lparr> sp_id := uid, sp_createdAt := now, sp_lastImport := None \<rparr> in (pack, mm_put uid pack m))"

definition pack_update :: "string \<Rightarrow> (skill_pack \<Rightarrow> skill_pack) \<Rightarrow> skill_pack mem_map \<Rightarrow> skill_pack option \<times> skill_pack mem_map" where
  "pack_update uid patch m = mm_update uid patch m"

definition recordImport :: "string \<Rightarrow> import_record \<Rightarrow> skill_pack mem_map \<Rightarrow> skill_pack mem_map" where
  "recordImport uid r m = snd (mm_update uid (\<lambda>p. p\<lparr> sp_lastImport := Some r \<rparr>) m)"

record skill_bundle =
  sb_packId :: string
  sb_commit :: string
  sb_files :: "skill_file list"
  sb_hash :: string

definition computeBundleHash :: "(string \<Rightarrow> string) \<Rightarrow> skill_file list \<Rightarrow> string" where
  "computeBundleHash sha256 files =
     sha256 (concat (map (\<lambda>e. e @ [CHR 0x0A]) (sort (map (\<lambda>f. sf_path f @ [CHR 0x00] @ sf_content f) files))))"

section \<open>Paths that are claimed\<close>

definition skill_file_path :: "string \<Rightarrow> skill_file \<Rightarrow> string option" where
  "skill_file_path dir f =
     (case safeSkillFilePath (sf_path f) of
        None \<Rightarrow> None
      | Some rel \<Rightarrow> let path = dir @ ''/'' @ rel in if isSkillMaterializationControlPath path then None else Some path)"

definition skill_dir :: "string \<Rightarrow> string" where
  "skill_dir name = SKILLS_DIR @ ''/'' @ name"

text \<open>\<open>None\<close>: the name is refused.\<close>

definition skillRecordPaths :: "string \<Rightarrow> skill_file list option \<Rightarrow> string list option" where
  "skillRecordPaths name files =
     (if \<not> isSafeSkillName name then None
      else let dir = skill_dir name
           in Some ([dir @ ''/SKILL.md'', dir @ ''/'' @ SKILL_TREE_MARKER] @
                List.map_filter (skill_file_path dir) (case files of Some fs \<Rightarrow> fs | None \<Rightarrow> [])))"

definition persistedSkillRecordPaths :: "string \<Rightarrow> skill_file list option \<Rightarrow> string list" where
  "persistedSkillRecordPaths name files = (case skillRecordPaths name files of Some ps \<Rightarrow> ps | None \<Rightarrow> [])"

definition materializationControlPathCollisions :: "string list \<Rightarrow> (string \<times> string) list" where
  "materializationControlPathCollisions paths =
     map (\<lambda>p. (p, ''core skill materialization metadata'')) (filter isSkillMaterializationControlPath paths)"

definition bundleFilePaths :: "skill_file list \<Rightarrow> string list" where
  "bundleFilePaths files = List.map_filter (\<lambda>f. safeSkillFilePath (sf_path f)) files"

fun detect_collisions :: "string list \<Rightarrow> string list \<Rightarrow> (string \<rightharpoonup> string) \<Rightarrow> (string \<times> string) list" where
  "detect_collisions seen [] claimed = []"
| "detect_collisions seen (p # ps) claimed =
     (case claimed p of
        Some owner \<Rightarrow> if p \<in> set seen then detect_collisions seen ps claimed else (p, owner) # detect_collisions (p # seen) ps claimed
      | None \<Rightarrow> detect_collisions seen ps claimed)"

definition detectPathCollisions :: "string list \<Rightarrow> (string \<rightharpoonup> string) \<Rightarrow> (string \<times> string) list" where
  "detectPathCollisions incoming claimed = detect_collisions [] incoming claimed"

section \<open>Installing a seed\<close>

definition canonicalFilesKey :: "skill_file list option \<Rightarrow> string" where
  "canonicalFilesKey files =
     concat (sort (map (\<lambda>f. sf_path f @ [CHR 0x00] @ sf_content f @ [CHR 0x00] @ (if sf_executable f then ''1'' else ''0''))
       (case files of Some fs \<Rightarrow> fs | None \<Rightarrow> [])))"

definition capabilities_key :: "string list \<Rightarrow> string" where
  "capabilities_key caps = js_join [CHR 0x00] (sort caps)"

definition sameManifest :: "skill_manifest \<Rightarrow> skill_manifest \<Rightarrow> bool" where
  "sameManifest a b \<longleftrightarrow>
     sm_description a = sm_description b \<and> sm_body a = sm_body b \<and>
     capabilities_key (sm_requiredCapabilities a) = capabilities_key (sm_requiredCapabilities b) \<and>
     canonicalFilesKey (sm_files a) = canonicalFilesKey (sm_files b)"

datatype upsert_outcome = Installed | UpdatedSkill | Skipped | Foreign

definition foreignSkillCollision :: "skill list \<Rightarrow> scope_id \<Rightarrow> string \<Rightarrow> string \<Rightarrow> skill option" where
  "foreignSkillCollision ss sid name createdBy =
     find (\<lambda>s. sk_scopeId s = sid \<and> sm_name (sk_manifest s) = name \<and> sk_createdBy s \<noteq> createdBy \<and> sk_status s \<noteq> Archived) ss"

text \<open>What was written before an error stays written.\<close>

definition review_and_publish ::
  "skill_env \<Rightarrow> time \<Rightarrow> string \<Rightarrow> string \<Rightarrow> string list \<Rightarrow> skill_store \<Rightarrow> (skill_error + skill) \<times> skill_store" where
  "review_and_publish env now uid reviewer caps m =
     (case skill_review env now uid reviewer caps m of
        Inl e \<Rightarrow> (Inl e, m)
      | Inr (_, m1) \<Rightarrow> (case skill_publish now uid m1 of Inl e \<Rightarrow> (Inl e, m1) | Inr (s, m2) \<Rightarrow> (Inr s, m2)))"

definition outcome_of :: "upsert_outcome \<Rightarrow> (skill_error + skill) \<times> skill_store \<Rightarrow> (skill_error + upsert_outcome) \<times> skill_store" where
  "outcome_of outcome r = (case fst r of Inl e \<Rightarrow> Inl e | Inr _ \<Rightarrow> Inr outcome, snd r)"

definition owned_seed :: "skill_input \<Rightarrow> skill \<Rightarrow> bool" where
  "owned_seed i s \<longleftrightarrow> sk_scopeId s = in_scopeId i \<and> sm_name (sk_manifest s) = sm_name (in_manifest i) \<and> sk_createdBy s = in_createdBy i"

definition upsertSeedSkill ::
  "skill_env \<Rightarrow> string \<Rightarrow> time \<Rightarrow> string \<Rightarrow> skill_input \<Rightarrow> skill_store \<Rightarrow> (skill_error + upsert_outcome) \<times> skill_store" where
  "upsertSeedSkill env uid now reviewer i m =
     (let man = in_manifest i; ss = mm_all m; caps = sm_requiredCapabilities man
      in case find (owned_seed i) ss of
           None \<Rightarrow>
             if foreignSkillCollision ss (in_scopeId i) (sm_name man) (in_createdBy i) \<noteq> None then (Inr Foreign, m)
             else (case skill_create env uid now i m of
                     Inl e \<Rightarrow> (Inl e, m)
                   | Inr (s, m1) \<Rightarrow> outcome_of Installed (review_and_publish env now (sk_id s) reviewer caps m1))
         | Some x \<Rightarrow>
             if sameManifest (sk_manifest x) man then
               if sk_status x = Published then (Inr Skipped, m)
               else outcome_of UpdatedSkill (review_and_publish env now (sk_id x) reviewer caps m)
             else (case skill_update env now (sk_id x) man m of
                     Inl e \<Rightarrow> (Inl e, m)
                   | Inr (_, m1) \<Rightarrow> outcome_of UpdatedSkill (review_and_publish env now (sk_id x) reviewer caps m1)))"

section \<open>Safe paths\<close>

definition safe_part :: "string \<Rightarrow> bool" where
  "safe_part p \<longleftrightarrow> p \<noteq> [] \<and> p \<noteq> ''.'' \<and> p \<noteq> ''..'' \<and> CHR 0x00 \<notin> set p \<and> CHR ''/'' \<notin> set p \<and> CHR 0x5C \<notin> set p"

lemma set_strips: "set (strip_end_slashes p) \<subseteq> set p" "set (strip_dot_slash p) \<subseteq> set p"
  by (auto simp: strip_end_slashes_def strip_dot_slash_def dest: set_dropWhileD list.set_sel(2) [rotated])
    (metis list.sel(2) list.set_sel(2) set_dropWhileD)+

lemma safe_path_parts:
  assumes "safeSkillFilePath path = Some q"
  shows "js_split CHR ''/'' q \<noteq> [] \<and> list_all safe_part (js_split CHR ''/'' q) \<and> q = js_join ''/'' (js_split CHR ''/'' q)"
proof -
  define parts where "parts = path_parts (strip_end_slashes (strip_dot_slash (slashes path)))"
  have q: "q = js_join ''/'' parts" "parts \<noteq> []" "\<not> list_ex (\<lambda>p. p = ''.'' \<or> p = ''..'' \<or> CHR 0x00 \<in> set p) parts"
    using assms by (auto simp: safeSkillFilePath_def parts_def Let_def split: if_splits)
  have "safe_part p" if p: "p \<in> set parts" for p
  proof -
    have s: "p \<noteq> []" "p \<in> set (js_split CHR ''/'' (strip_end_slashes (strip_dot_slash (slashes path))))"
      using p by (auto simp: parts_def path_parts_def)
    have "set p \<subseteq> set (slashes path)" using set_js_split [OF s(2)] set_strips by blast
    then have "CHR 0x5C \<notin> set p" by (auto simp: slashes_def split: if_splits)
    with s js_split_no_sep [OF s(2)] q(3) p show ?thesis by (auto simp: safe_part_def list_ex_iff)
  qed
  moreover from this have "js_split CHR ''/'' q = parts" unfolding q(1) by (intro js_split_join q(2)) (auto simp: safe_part_def)
  ultimately show ?thesis using q by (auto simp: list_all_iff)
qed

lemma join_free: "c \<notin> set sep \<Longrightarrow> \<forall>w \<in> set ws. c \<notin> set w \<Longrightarrow> c \<notin> set (js_join sep ws)"
proof (induction ws)
  case (Cons w ws)
  then show ?case by (cases ws) auto
qed simp

lemma join_last:
  "ws \<noteq> [] \<Longrightarrow> \<forall>w \<in> set ws. w \<noteq> [] \<and> c \<notin> set w \<Longrightarrow> last (js_join sep ws) \<noteq> c \<and> js_join sep ws \<noteq> []"
proof (induction ws)
  case (Cons w ws)
  have w: "w \<noteq> []" "last w \<noteq> c" using Cons.prems(2) last_in_set [of w] by auto
  show ?case
  proof (cases ws)
    case (Cons v vs)
    then have "last (js_join sep ws) \<noteq> c \<and> js_join sep ws \<noteq> []" using Cons.IH Cons.prems(2) by simp
    with Cons w show ?thesis by (simp add: last_append)
  qed (use w in simp)
qed simp

lemma safe_parts_accepted:
  assumes "ws \<noteq> []" "list_all safe_part ws"
  shows "safeSkillFilePath (js_join ''/'' ws) = Some (js_join ''/'' ws)"
proof -
  let ?q = "js_join ''/'' ws"
  have sp: "js_split CHR ''/'' ?q = ws" using assms by (intro js_split_join) (auto simp: safe_part_def list_all_iff)
  obtain w vs where ws: "ws = w # vs" using assms(1) by (cases ws) simp_all
  obtain c cs where w: "w \<in> set ws" "w = c # cs" using assms(2) ws by (cases w) (simp_all add: safe_part_def)
  have first: "?q = w @ (if vs = [] then [] else CHR ''/'' # js_join ''/'' vs)" using ws by (cases vs) simp_all
  have sw: "safe_part w" using assms(2) w(1) by (auto simp: list_all_iff)
  have no: "CHR 0x5C \<notin> set ?q"
    using assms(2) by (intro join_free) (auto simp: list_all_iff safe_part_def)
  have "slashes ?q = ?q" unfolding slashes_def by (rule map_idI) (use no in auto)
  moreover have "strip_dot_slash ?q = ?q"
  proof -
    have "\<not> js_startsWith ?q ''./''" using sw w(2) unfolding first
      by (cases cs) (auto simp: js_startsWith_def safe_part_def)
    then show ?thesis by (simp add: strip_dot_slash_def)
  qed
  moreover have "strip_end_slashes ?q = ?q"
  proof -
    have "last ?q \<noteq> CHR ''/'' \<and> ?q \<noteq> []"
      using assms by (intro join_last) (auto simp: list_all_iff safe_part_def)
    then show ?thesis by (cases ?q rule: rev_cases) (auto simp: strip_end_slashes_def)
  qed
  moreover have "path_parts ?q = ws" unfolding path_parts_def sp using assms(2) by (simp add: list_all_iff safe_part_def filter_id_conv)
  moreover have "\<not> js_startsWith ?q ''/''" using sw w(2) unfolding first by (auto simp: js_startsWith_def safe_part_def)
  moreover have "\<not> list_ex (\<lambda>p. p = ''.'' \<or> p = ''..'' \<or> CHR 0x00 \<in> set p) ws" using assms(2) by (auto simp: list_all_iff list_ex_iff safe_part_def)
  ultimately show ?thesis using assms(1) by (simp add: safeSkillFilePath_def Let_def)
qed

lemma safe_path_stable: "safeSkillFilePath path = Some q \<Longrightarrow> safeSkillFilePath q = Some q"
  using safe_path_parts safe_parts_accepted by metis

section \<open>What a name resolves to\<close>

lemma map_filter_Cons_first:
  assumes "List.map_filter f xs = y # ys"
  obtains k where "k < length xs" "f (xs ! k) = Some y" "\<forall>j < k. f (xs ! j) = None"
  using assms
proof (induction xs arbitrary: thesis)
  case (Cons x xs)
  show ?case
  proof (cases "f x")
    case None
    then have "List.map_filter f xs = y # ys" using Cons.prems(2) by (simp add: List.map_filter_def)
    then obtain k where k: "k < length xs" "f (xs ! k) = Some y" "\<forall>j < k. f (xs ! j) = None" using Cons.IH by blast
    then have "\<forall>j < Suc k. f ((x # xs) ! j) = None" using None by (auto simp: less_Suc_eq_0_disj)
    then show ?thesis using k by (intro Cons.prems(1) [of "Suc k"]) simp_all
  next
    case (Some z)
    then show ?thesis using Cons.prems by (intro Cons.prems(1) [of 0]) (simp_all add: List.map_filter_def)
  qed
qed (simp add: List.map_filter_def)

lemma find_live: "find P xs = Some x \<Longrightarrow> x \<in> set xs \<and> P x" "find P xs = None \<longleftrightarrow> (\<forall>x \<in> set xs. \<not> P x)"
  by (auto simp: find_Some_iff find_None_iff)

lemma resolve_live:
  assumes "skill_resolve name scopes m = (Some s, shadowed)"
  shows "isSafeSkillName name" "s \<in> set (mm_all m)" "is_live_in (sk_scopeId s) name s"
    "\<exists>k < length scopes. scopes ! k = sk_scopeId s \<and> (\<forall>j < k. \<forall>x \<in> set (mm_all m). \<not> is_live_in (scopes ! j) name x)"
    "\<forall>x \<in> set shadowed. x \<in> set (mm_all m) \<and> sk_scopeId x \<in> set scopes \<and> is_live_in (sk_scopeId x) name x"
proof -
  let ?f = "\<lambda>sc. find (is_live_in sc name) (mm_all m)"
  have r: "isSafeSkillName name" "List.map_filter ?f scopes = s # shadowed"
    using assms by (auto simp: skill_resolve_def split: if_splits list.splits)
  obtain k where k: "k < length scopes" "?f (scopes ! k) = Some s" "\<forall>j < k. ?f (scopes ! j) = None"
    using map_filter_Cons_first [OF r(2)] by blast
  have s: "s \<in> set (mm_all m)" "is_live_in (scopes ! k) name s" using find_live(1) [OF k(2)] by simp_all
  then have "scopes ! k = sk_scopeId s" by (simp add: is_live_in_def)
  then show "isSafeSkillName name" "s \<in> set (mm_all m)" "is_live_in (sk_scopeId s) name s"
    "\<exists>k < length scopes. scopes ! k = sk_scopeId s \<and> (\<forall>j < k. \<forall>x \<in> set (mm_all m). \<not> is_live_in (scopes ! j) name x)"
    using r s k find_live(2) by metis+
  show "\<forall>x \<in> set shadowed. x \<in> set (mm_all m) \<and> sk_scopeId x \<in> set scopes \<and> is_live_in (sk_scopeId x) name x"
  proof
    fix x assume "x \<in> set shadowed"
    then have "x \<in> set (List.map_filter ?f scopes)" by (simp add: r(2))
    then obtain sc where sc: "sc \<in> set scopes" "?f sc = Some x" by (auto simp: List.map_filter_def)
    from find_live(1) [OF sc(2)] sc(1) show "x \<in> set (mm_all m) \<and> sk_scopeId x \<in> set scopes \<and> is_live_in (sk_scopeId x) name x"
      by (auto simp: is_live_in_def)
  qed
qed

lemma resolve_none:
  "fst (skill_resolve name scopes m) = None \<longleftrightarrow>
     \<not> isSafeSkillName name \<or> (\<forall>sc \<in> set scopes. \<forall>x \<in> set (mm_all m). \<not> is_live_in sc name x)"
proof -
  have "List.map_filter f xs = [] \<longleftrightarrow> (\<forall>x \<in> set xs. f x = None)" for f :: "scope_id \<Rightarrow> skill option" and xs
    by (induction xs) (auto simp: List.map_filter_def split: option.splits)
  then have "List.map_filter (\<lambda>sc. find (is_live_in sc name) (mm_all m)) scopes = [] \<longleftrightarrow>
      (\<forall>sc \<in> set scopes. \<forall>x \<in> set (mm_all m). \<not> is_live_in sc name x)" by (simp add: find_live(2))
  then show ?thesis unfolding skill_resolve_def
    by (cases "List.map_filter (\<lambda>sc. find (is_live_in sc name) (mm_all m)) scopes") simp_all
qed

lemma visible_resolved:
  assumes "n \<in> set (visible_names scopes m)"
  shows "\<exists>s shadowed. skill_resolve n scopes m = (Some s, shadowed) \<and> sm_name (sk_manifest s) = n"
proof -
  have "fst (skill_resolve n scopes m) \<noteq> None" using assms by (auto simp: resolve_none visible_names_def is_live_in_def)
  then obtain s sh where "skill_resolve n scopes m = (Some s, sh)" by (cases "skill_resolve n scopes m") auto
  with resolve_live(3) show ?thesis by (fastforce simp: is_live_in_def)
qed

text \<open>
  What a skill name means in a turn. A name resolves to a published skill of the first scope in the
  order of the turn that has one, to nothing only when the name is unsafe or no scope of the turn has a
  published skill of that name, and the skills it is said to shadow are published ones of later scopes. The
  skills listed for the turn are exactly the published ones of its scopes with a safe name, each name once.
\<close>

theorem skill_resolution_exact:
  "(\<forall>s shadowed. skill_resolve name scopes m = (Some s, shadowed) \<longrightarrow>
      s \<in> set (mm_all m) \<and> is_live_in (sk_scopeId s) name s \<and>
      (\<exists>k < length scopes. scopes ! k = sk_scopeId s \<and> (\<forall>j < k. \<forall>x \<in> set (mm_all m). \<not> is_live_in (scopes ! j) name x)) \<and>
      (\<forall>x \<in> set shadowed. x \<in> set (mm_all m) \<and> sk_scopeId x \<in> set scopes \<and> is_live_in (sk_scopeId x) name x)) \<and>
   (fst (skill_resolve name scopes m) = None \<longleftrightarrow>
      \<not> isSafeSkillName name \<or> (\<forall>sc \<in> set scopes. \<forall>x \<in> set (mm_all m). \<not> is_live_in sc name x)) \<and>
   (let listed = map (\<lambda>r. sm_name (sk_manifest (the (fst r)))) (visibleFor scopes m)
    in distinct listed \<and> set listed = {n. isSafeSkillName n \<and> (\<exists>sc \<in> set scopes. \<exists>x \<in> set (mm_all m). is_live_in sc n x)})"
proof -
  have all: "visibleFor scopes m = map (\<lambda>n. skill_resolve n scopes m) (visible_names scopes m)"
    unfolding visibleFor_def using visible_resolved by (fastforce simp: filter_id_conv)
  have "map (\<lambda>r. sm_name (sk_manifest (the (fst r)))) (visibleFor scopes m) = visible_names scopes m"
    unfolding all map_map by (rule map_idI) (use visible_resolved in fastforce)
  moreover have "distinct (visible_names scopes m)" by (simp add: visible_names_def)
  moreover have "set (visible_names scopes m) = {n. isSafeSkillName n \<and> (\<exists>sc \<in> set scopes. \<exists>x \<in> set (mm_all m). is_live_in sc n x)}"
    by (auto simp: visible_names_def is_live_in_def)
  ultimately have listed: "let listed = map (\<lambda>r. sm_name (sk_manifest (the (fst r)))) (visibleFor scopes m)
    in distinct listed \<and> set listed = {n. isSafeSkillName n \<and> (\<exists>sc \<in> set scopes. \<exists>x \<in> set (mm_all m). is_live_in sc n x)}"
    by (simp add: Let_def)
  show ?thesis using resolve_live [of name scopes m] by (intro conjI [OF _ conjI [OF resolve_none listed]] allI impI conjI) blast+
qed

section \<open>Review and publication, with overlapping operations\<close>

text \<open>
  An operation may edit any record the store has ever held, because what it read may have been replaced
  before it writes. An edit of a published skill in a personal scope, which stays published, may not ask for
  capabilities that were not granted: the edits a person makes keep the list of capabilities, and an import
  reviews the skill right after its edit. \<open>personal_edit_escapes\<close> shows what happens without it.
\<close>

type_synonym skill_world = "skill_store \<times> skill set"

inductive skill_edit :: "skill_env \<Rightarrow> skill set \<Rightarrow> skill \<Rightarrow> skill \<Rightarrow> bool" for env seen where
  se_update: "isSafeSkillName (sm_name m) \<Longrightarrow> updated_skill env now m s = Inr s' \<Longrightarrow>
    scopeKind (sk_scopeId s) = ''personal'' \<and> sk_status s = Published \<longrightarrow> set (sm_requiredCapabilities m) \<subseteq> set (sk_grantedCapabilities s) \<Longrightarrow>
    skill_edit env seen s s'"
| se_review: "reviewed_skill env now reviewer caps s = Inr s' \<Longrightarrow> skill_edit env seen s s'"
| se_publish: "published_skill now s = Inr s' \<Longrightarrow> skill_edit env seen s s'"
| se_archive: "archived_skill now s = Inr s' \<Longrightarrow> skill_edit env seen s s'"
| se_move: "moved_skill now to s = Inr s' \<Longrightarrow> skill_edit env seen s s'"
| se_promote: "existing \<in> insert None (Some ` seen) \<Longrightarrow> promoted_skill env uid now target existing s = Inr s' \<Longrightarrow> skill_edit env seen s s'"

inductive skill_step :: "skill_env \<Rightarrow> skill_world \<Rightarrow> skill_world \<Rightarrow> bool" for env where
  sks_create: "created_skill env uid now i = Inr s \<Longrightarrow> skill_step env (m, seen) (put_skill s m, insert s seen)"
| sks_edit: "s \<in> seen \<Longrightarrow> skill_edit env seen s s' \<Longrightarrow> skill_step env (m, seen) (put_skill s' m, insert s' seen)"
| sks_restore: "s \<in> seen \<Longrightarrow> skill_restore s m = Inr m' \<Longrightarrow> skill_step env (m, seen) (m', seen)"
| sks_delete: "skill_step env (m, seen) (mm_delete uid m, seen)"
| sks_use: "skill_step env (m, seen) (recordUse uid now m, seen \<union> {s. \<exists>k. mm_get (recordUse uid now m) k = Some s})"

definition vetted :: "skill_env \<Rightarrow> skill \<Rightarrow> bool" where
  "vetted env s \<longleftrightarrow> isSafeSkillName (sm_name (sk_manifest s)) \<and> skill_verify env s \<and>
     (sk_status s = Published \<longrightarrow> set (sm_requiredCapabilities (sk_manifest s)) \<subseteq> set (sk_grantedCapabilities s))"

definition skill_inv :: "skill_env \<Rightarrow> skill_world \<Rightarrow> bool" where
  "skill_inv env w \<longleftrightarrow> (\<forall>s \<in> snd w. vetted env s) \<and> (\<forall>k s. mm_get (fst w) k = Some s \<longrightarrow> s \<in> snd w \<and> sk_id s = k)"

lemma created_vetted: "created_skill env uid now i = Inr s \<Longrightarrow> vetted env s \<and> sk_status s = Draft"
  by (auto simp: created_skill_def vetted_def skill_verify_def split: if_splits)

lemma edit_vetted:
  assumes "skill_edit env seen s s'" "vetted env s"
  shows "vetted env s'"
  using assms(1)
proof cases
  case (se_update m now)
  then show ?thesis using assms(2) by (auto simp: updated_skill_def vetted_def skill_verify_def split: if_splits)
next
  case (se_publish now)
  then show ?thesis using assms(2)
    by (auto simp: published_skill_def vetted_def skill_verify_def missing_capabilities_def filter_empty_conv split: if_splits)
qed (use assms(2) in \<open>auto simp: reviewed_skill_def archived_skill_def moved_skill_def promoted_skill_def vetted_def skill_verify_def split: if_splits\<close>)

lemma skill_inv_step:
  assumes "skill_step env w w'" "skill_inv env w"
  shows "skill_inv env w'"
  using assms(1)
proof cases
  case (sks_create uid now i s m seen)
  then show ?thesis using assms(2) created_vetted by (auto simp: skill_inv_def put_skill_def)
next
  case (sks_edit s seen s' m)
  then show ?thesis using assms(2) edit_vetted by (auto simp: skill_inv_def put_skill_def)
next
  case (sks_restore s seen m m')
  then show ?thesis using assms(2) by (auto simp: skill_inv_def put_skill_def skill_restore_def split: if_splits)
next
  case (sks_delete m seen uid)
  then show ?thesis using assms(2) by (auto simp: skill_inv_def)
next
  case (sks_use m seen uid now)
  have "vetted env s \<and> sk_id s = k" if g: "mm_get (recordUse uid now m) k = Some s" for k s
  proof -
    obtain s0 where "mm_get m k = Some s0" "s = s0 \<or> s = s0\<lparr> sk_lastUsedAt := Some now \<rparr>"
      using g by (auto simp: recordUse_def split: if_splits)
    moreover from this have "vetted env s0" "sk_id s0 = k" using assms(2) sks_use(1) by (auto simp: skill_inv_def)
    ultimately show ?thesis by (auto simp: vetted_def skill_verify_def)
  qed
  then show ?thesis using assms(2) sks_use by (fastforce simp: skill_inv_def)
qed

interpretation skill_machine: invariant_machine "\<lambda>w. w = (mm_empty, {})" "skill_step env" "skill_inv env" for env
proof unfold_locales
  show "skill_inv env w" if "w = (mm_empty, {})" for w by (simp add: that skill_inv_def)
qed (rule skill_inv_step)

lemma live_in_store:
  assumes "s \<in> set (mm_all m)" "mm_invar m"
  shows "mm_get m (sk_id s) = Some s \<or> (\<exists>k. mm_get m k = Some s)"
  using assms by (auto simp: mm_all_def mm_entries_def mm_get_def mm_invar_def)

lemma skill_step_invar: "skill_step env w w' \<Longrightarrow> mm_invar (fst w) \<Longrightarrow> mm_invar (fst w')"
  by (induction rule: skill_step.induct)
    (auto simp: put_skill_def mm_put_def mm_delete_def mm_invar_def skill_restore_def recordUse_def distinct_update distinct_delete
      mm_update_def Let_def split: if_splits option.splits)

lemma skill_steps_invar: "(skill_step env)\<^sup>*\<^sup>* (mm_empty, {}) w \<Longrightarrow> mm_invar (fst w)"
proof (induction rule: rtranclp_induct)
  case base
  show ?case by (simp add: mm_invar_def mm_empty_def)
next
  case (step v w)
  then show ?case using skill_step_invar by blast
qed


text \<open>A skill that needs a host is created in a channel, reviewed with that capability and published.\<close>

definition demo_manifest :: skill_manifest where
  "demo_manifest = \<lparr> sm_name = ''deploy'', sm_description = ''d'', sm_requiredCapabilities = [''egress:h''], sm_body = ''b'', sm_files = None \<rparr>"

definition demo_skills :: skill_env where
  "demo_skills = \<lparr> ss_hmac = (\<lambda>k s. k @ s), ss_secret = ''k'' \<rparr>"

definition demo_create :: "scope_id \<Rightarrow> skill_input" where
  "demo_create sid = \<lparr> in_scopeId = sid, in_manifest = demo_manifest, in_createdBy = ''ann'', in_pack = None \<rparr>"

definition demo_draft :: "scope_id \<Rightarrow> skill" where
  "demo_draft sid = projr (created_skill demo_skills ''s1'' 1 (demo_create sid))"

definition demo_reviewed :: "scope_id \<Rightarrow> skill" where
  "demo_reviewed sid = projr (reviewed_skill demo_skills 2 ''bob'' [''egress:h''] (demo_draft sid))"

definition demo_published :: "scope_id \<Rightarrow> skill" where
  "demo_published sid = projr (published_skill 3 (demo_reviewed sid))"

lemma demo_edits:
  "created_skill demo_skills ''s1'' 1 (demo_create sid) = Inr (demo_draft sid)"
  "reviewed_skill demo_skills 2 ''bob'' [''egress:h''] (demo_draft sid) = Inr (demo_reviewed sid)"
  "published_skill 3 (demo_reviewed sid) = Inr (demo_published sid)"
proof -
  have n: "isSafeSkillName (sm_name demo_manifest)" by code_simp
  show 1: "created_skill demo_skills ''s1'' 1 (demo_create sid) = Inr (demo_draft sid)"
    using n by (simp add: demo_draft_def created_skill_def demo_create_def)
  show 2: "reviewed_skill demo_skills 2 ''bob'' [''egress:h''] (demo_draft sid) = Inr (demo_reviewed sid)"
    using n by (simp add: demo_reviewed_def demo_draft_def reviewed_skill_def created_skill_def demo_create_def)
  show "published_skill 3 (demo_reviewed sid) = Inr (demo_published sid)"
    using n by (simp add: demo_published_def demo_reviewed_def demo_draft_def published_skill_def reviewed_skill_def created_skill_def
        demo_create_def missing_capabilities_def demo_manifest_def)
qed

definition demo_skill_store :: "scope_id \<Rightarrow> skill_store" where
  "demo_skill_store sid = put_skill (demo_published sid) (put_skill (demo_reviewed sid) (put_skill (demo_draft sid) mm_empty))"

lemma demo_skill_reach:
  "(skill_step demo_skills)\<^sup>*\<^sup>* (mm_empty, {}) (demo_skill_store sid, {demo_published sid, demo_reviewed sid, demo_draft sid})"
proof -
  have "skill_step demo_skills (mm_empty, {}) (put_skill (demo_draft sid) mm_empty, {demo_draft sid})"
    using sks_create [OF demo_edits(1)] by blast
  moreover have "skill_step demo_skills (put_skill (demo_draft sid) mm_empty, {demo_draft sid})
      (put_skill (demo_reviewed sid) (put_skill (demo_draft sid) mm_empty), {demo_reviewed sid, demo_draft sid})"
    by (rule sks_edit [of "demo_draft sid"]) (simp, rule se_review [OF demo_edits(2)])
  moreover have "skill_step demo_skills (put_skill (demo_reviewed sid) (put_skill (demo_draft sid) mm_empty), {demo_reviewed sid, demo_draft sid})
      (demo_skill_store sid, {demo_published sid, demo_reviewed sid, demo_draft sid})"
    unfolding demo_skill_store_def by (rule sks_edit [of "demo_reviewed sid"]) (simp, rule se_publish [OF demo_edits(3)])
  ultimately show ?thesis by (meson converse_rtranclp_into_rtranclp rtranclp.rtrancl_refl)
qed


theorem skill_resolution_exact_witness:
  "\<exists>s. skill_resolve ''deploy'' [''channel:c''] (demo_skill_store ''channel:c'') = (Some s, []) \<and> sk_scopeId s = ''channel:c''"
proof -
  have "skill_resolve ''deploy'' [''channel:c''] (demo_skill_store ''channel:c'') = (Some (demo_published ''channel:c''), [])" by code_simp
  moreover from this skill_resolution_exact [of "''deploy''" "[''channel:c'']" "demo_skill_store ''channel:c''", THEN conjunct1, rule_format]
  have "sk_scopeId (demo_published ''channel:c'') = ''channel:c''" by fastforce
  ultimately show ?thesis by blast
qed

section \<open>Ways around the review\<close>

text \<open>
  The publication refuses a draft, but an archived skill is not a draft: a skill that nobody reviewed is
  published by archiving it first.
\<close>

lemma archived_draft_publishes:
  "sk_status s = Draft \<Longrightarrow> isSafeSkillName (sm_name (sk_manifest s)) \<Longrightarrow> sm_requiredCapabilities (sk_manifest s) = [] \<Longrightarrow> sk_approvals s = [] \<Longrightarrow>
   isl (published_skill now s) \<and>
   (\<exists>a p. archived_skill now s = Inr a \<and> published_skill now a = Inr p \<and> sk_status p = Published \<and> sk_approvals p = [])"
  by (auto simp: published_skill_def archived_skill_def missing_capabilities_def)

text \<open>
  An edit in a personal scope keeps a skill published whatever it now requires, and a move then takes it to a
  channel as it is.
\<close>

lemma personal_edit_escapes:
  "\<exists>s man edited moved. s = demo_published ''personal:ann'' \<and> updated_skill demo_skills 4 man s = Inr edited \<and>
     moved_skill 5 ''channel:c'' edited = Inr moved \<and> is_live_in ''channel:c'' ''deploy'' moved \<and>
     ''egress:evil'' \<in> set (sm_requiredCapabilities (sk_manifest moved)) \<and> ''egress:evil'' \<notin> set (sk_grantedCapabilities moved)"
proof -
  let ?man = "demo_manifest\<lparr> sm_requiredCapabilities := [''egress:evil''] \<rparr>"
  let ?edited = "projr (updated_skill demo_skills 4 ?man (demo_published ''personal:ann''))"
  let ?moved = "projr (moved_skill 5 ''channel:c'' ?edited)"
  have "\<not> isl (updated_skill demo_skills 4 ?man (demo_published ''personal:ann''))" "\<not> isl (moved_skill 5 ''channel:c'' ?edited)"
    "is_live_in ''channel:c'' ''deploy'' ?moved" "''egress:evil'' \<in> set (sm_requiredCapabilities (sk_manifest ?moved))"
    "''egress:evil'' \<notin> set (sk_grantedCapabilities ?moved)" by code_simp+
  note f = this
  have "updated_skill demo_skills 4 ?man (demo_published ''personal:ann'') = Inr ?edited" "moved_skill 5 ''channel:c'' ?edited = Inr ?moved"
    by (simp_all only: sum.collapse(2) [OF f(1)] sum.collapse(2) [OF f(2)])
  with f(3-5) show ?thesis by blast
qed

end
