(* ===== verification/Skill_Packs.thy ===== *)
theory Skill_Packs
  imports Skills
begin

text \<open>
  Skill packs: reading a skill file (\<open>skills/frontmatter.ts\<close>, \<open>skills/normalize.ts\<close>), planning and importing the
  skills of a repository (\<open>skills/ingest.ts\<close>) and keeping a pack in step with it (\<open>api/app-skills.ts\<close>).

  The repository that was fetched is an argument. The ellipsis that ends a shortened description lies
  outside the characters of the model and is an argument too; a byte order mark never starts a text of the
  model. A header key \<open>__proto__\<close> sets no attribute.
\<close>

section \<open>The header of a skill file\<close>

definition stripQuotes :: "string \<Rightarrow> string" where
  "stripQuotes value =
     (let t = js_trim value
      in if 2 \<le> length t \<and> (hd t = CHR 0x22 \<and> last t = CHR 0x22 \<or> hd t = CHR 0x27 \<and> last t = CHR 0x27)
         then butlast (tl t) else t)"

definition parseFlowArray :: "string \<Rightarrow> string list" where
  "parseFlowArray value = filter (\<lambda>s. s \<noteq> []) (map stripQuotes (js_split CHR '','' (butlast (tl value))))"

definition indentOf :: "string \<Rightarrow> nat" where
  "indentOf line = length (takeWhile (\<lambda>c. c = CHR '' '' \<or> c = CHR 0x09) line)"

text \<open>The opening fence, the first closing fence, and the lines in between.\<close>

definition after_opening :: "string \<Rightarrow> string option" where
  "after_opening s =
     (if js_startsWith s (''---'' @ [CHR 0x0D, CHR 0x0A]) then Some (drop 5 s)
      else if js_startsWith s (''---'' @ [CHR 0x0A]) then Some (drop 4 s) else None)"

fun find_closing :: "string \<Rightarrow> (string \<times> string) option" where
  "find_closing [] = None"
| "find_closing (c # cs) =
     (if js_startsWith (c # cs) ([CHR 0x0D, CHR 0x0A] @ ''---'') then Some ([], drop 5 (c # cs))
      else if js_startsWith (c # cs) ([CHR 0x0A] @ ''---'') then Some ([], drop 4 (c # cs))
      else map_option (\<lambda>(a, b). (c # a, b)) (find_closing cs))"

definition drop_cr :: "string \<Rightarrow> string" where
  "drop_cr l = (if l \<noteq> [] \<and> last l = CHR 0x0D then butlast l else l)"

definition header_lines :: "string \<Rightarrow> string list" where
  "header_lines s = (let ls = js_split CHR 0x0A s in map drop_cr (butlast ls) @ [last ls])"

definition key_char :: "char \<Rightarrow> bool" where
  "key_char c \<longleftrightarrow> is_word_char c \<or> c = CHR ''-''"

definition header_entry :: "string \<Rightarrow> (string \<times> string) option" where
  "header_entry line =
     (let key = takeWhile key_char line; rest = dropWhile key_char line; value = dropWhile js_is_space (tl rest)
      in if key = [] \<or> rest = [] \<or> hd rest \<noteq> CHR '':'' \<or> list_ex is_line_end value then None else Some (key, value))"

definition list_item :: "string \<Rightarrow> string option" where
  "list_item line =
     (let r = dropWhile js_is_space line; sp = takeWhile js_is_space (tl r); value = dropWhile js_is_space (tl r)
      in if r = [] \<or> hd r \<noteq> CHR ''-'' \<or> sp = [] \<or> list_ex is_line_end value then None else Some value)"

fun block_lines :: "nat \<Rightarrow> string list \<Rightarrow> string list \<times> string list" where
  "block_lines base [] = ([], [])"
| "block_lines base (l # ls) =
     (if js_trim l \<noteq> [] \<and> indentOf l \<le> base then ([], l # ls)
      else case block_lines base ls of
             (c, rest) \<Rightarrow> ((if js_trim l \<noteq> [] then drop (min (indentOf l) (base + 2)) l else []) # c, rest))"

fun item_lines :: "nat \<Rightarrow> string list \<Rightarrow> string list \<times> string list" where
  "item_lines base [] = ([], [])"
| "item_lines base (l # ls) =
     (if js_trim l = [] \<or> indentOf l \<le> base then ([], l # ls)
      else case list_item l of
             None \<Rightarrow> ([], l # ls)
           | Some v \<Rightarrow> (case item_lines base ls of (c, rest) \<Rightarrow> (stripQuotes v # c, rest)))"

lemma block_lines_shorter: "length (snd (block_lines base ls)) \<le> length ls"
  by (induction ls) (auto split: prod.splits)

lemma item_lines_shorter: "length (snd (item_lines base ls)) \<le> length ls"
  by (induction ls) (auto split: prod.splits option.splits)

type_synonym attrs = "(string \<times> json) list"

definition set_attr :: "string \<Rightarrow> json \<Rightarrow> attrs \<Rightarrow> attrs" where
  "set_attr k v as = (if k = ''__proto__'' then as else jmap_set k v as)"

definition block_value :: "string \<Rightarrow> string list \<Rightarrow> string" where
  "block_value rest collected =
     js_trim (if hd rest = CHR ''|'' then js_join [CHR 0x0A] collected else js_squeeze (js_join '' '' collected))"

function header_attrs :: "string list \<Rightarrow> attrs \<Rightarrow> attrs" where
  "header_attrs [] as = as"
| "header_attrs (l # ls) as =
     (if js_trim l = [] \<or> js_startsWith (js_trimStart l) ''#'' then header_attrs ls as
      else case header_entry l of
             None \<Rightarrow> header_attrs ls as
           | Some (key, rest) \<Rightarrow>
               if rest \<in> {''>'', ''|'', ''>-'', ''|-''} then
                 header_attrs (snd (block_lines (indentOf l) ls)) (set_attr key (JStr (block_value rest (fst (block_lines (indentOf l) ls)))) as)
               else if rest \<noteq> [] then
                 header_attrs ls (set_attr key (if js_startsWith rest ''['' \<and> js_endsWith rest '']'' then JArr (map JStr (parseFlowArray rest))
                                                else JStr (stripQuotes rest)) as)
               else header_attrs (snd (item_lines (indentOf l) ls)) (set_attr key (JArr (map JStr (fst (item_lines (indentOf l) ls)))) as))"
  by pat_completeness auto

termination header_attrs
  by (relation "measure (length \<circ> fst)") (auto simp: less_Suc_eq_le block_lines_shorter item_lines_shorter)

text \<open>\<open>None\<close> is the error of a missing fence.\<close>

definition parseFrontmatter :: "string \<Rightarrow> (attrs \<times> string) option" where
  "parseFrontmatter raw =
     (case after_opening raw of
        None \<Rightarrow> None
      | Some content \<Rightarrow>
          (case find_closing content of
             None \<Rightarrow> None
           | Some (header, rest) \<Rightarrow> Some (header_attrs (header_lines header) [], js_trimStart rest)))"

datatype seed_error = NoFence | SeedName | SeedUnsafeName | SeedDescription | SeedCapabilities | SeedBody

fun json_string_of :: "json \<Rightarrow> string option" where
  "json_string_of (JStr s) = Some s"
| "json_string_of _ = None"

definition parseSeedSkillFrontmatter :: "string \<Rightarrow> seed_error + skill_manifest" where
  "parseSeedSkillFrontmatter raw =
     (case parseFrontmatter raw of
        None \<Rightarrow> Inl NoFence
      | Some (as, body) \<Rightarrow>
          (case Option.bind (map_of as ''name'') json_string_of of
             None \<Rightarrow> Inl SeedName
           | Some name \<Rightarrow>
               if js_trim name = [] then Inl SeedName
               else if \<not> isSafeSkillName name then Inl SeedUnsafeName
               else case Option.bind (map_of as ''description'') json_string_of of
                      None \<Rightarrow> Inl SeedDescription
                    | Some description \<Rightarrow>
                        if js_trim description = [] then Inl SeedDescription
                        else case (case map_of as ''requiredCapabilities'' of None \<Rightarrow> Some [] | Some (JArr xs) \<Rightarrow> those (map json_string_of xs) | Some _ \<Rightarrow> None) of
                               None \<Rightarrow> Inl SeedCapabilities
                             | Some caps \<Rightarrow>
                                 if js_trim body = [] then Inl SeedBody
                                 else Inr \<lparr> sm_name = name, sm_description = description, sm_requiredCapabilities = caps, sm_body = body,
                                        sm_files = None \<rparr>))"

section \<open>Normalising a skill\<close>

record normalized_skill =
  ns_manifest :: skill_manifest
  ns_scopeHint :: "string option"
  ns_private :: bool
  ns_declaredCreds :: "string list"
  ns_meta :: attrs

definition RECOGNIZED :: "string list" where
  "RECOGNIZED = [''name'', ''description'', ''requiredCapabilities'', ''egress'', ''allowed-tools'', ''scope'', ''visibility'', ''private'',
     ''agent_only'', ''declaredCreds'']"

definition isTruthy :: "json option \<Rightarrow> bool" where
  "isTruthy v = (case v of Some (JBool b) \<Rightarrow> b | Some (JStr s) \<Rightarrow> js_lower (js_trim s) \<in> {''true'', ''yes'', ''1''} | _ \<Rightarrow> False)"

definition asStringArray :: "json option \<Rightarrow> string list" where
  "asStringArray v =
     (case v of
        Some (JArr xs) \<Rightarrow> filter (\<lambda>s. s \<noteq> []) (map js_trim (List.map_filter json_string_of xs))
      | Some (JStr s) \<Rightarrow> if js_trim s = [] then [] else [js_trim s]
      | _ \<Rightarrow> [])"

definition drop_md :: "string \<Rightarrow> string" where
  "drop_md s = (if 3 \<le> length s \<and> js_lower (drop (length s - 3) s) = ''.md'' then take (length s - 3) s else s)"

definition dirNameFromPath :: "string \<Rightarrow> string" where
  "dirNameFromPath path =
     (let parts = path_parts path
      in if 2 \<le> length parts \<and> js_lower (last parts) = ''skill.md'' then last (butlast parts)
         else drop_md (if parts = [] then ''skill'' else last parts))"

definition is_prose :: "string \<Rightarrow> bool" where
  "is_prose l \<longleftrightarrow> l \<noteq> [] \<and> \<not> js_startsWith l ''#'' \<and> \<not> js_startsWith l ''>'' \<and> \<not> js_startsWith l ''---'' \<and> \<not> js_startsWith l ''```''"

definition heading_text :: "string \<Rightarrow> string" where
  "heading_text l = js_trim (dropWhile js_is_space (dropWhile (\<lambda>c. c = CHR ''#'') l))"

definition deriveDescription :: "char \<Rightarrow> string \<Rightarrow> string \<Rightarrow> string" where
  "deriveDescription ellipsis body name =
     (let lines = map js_trim (js_split CHR 0x0A body);
          heading = map_option heading_text (find (\<lambda>l. js_startsWith l ''#'') lines);
          chosen = (case find is_prose lines of Some l \<Rightarrow> l | None \<Rightarrow> if truthy heading then the heading else name);
          txt = js_trim (js_squeeze chosen)
      in if length txt > 200 then take 199 txt @ [ellipsis] else txt)"

definition is_upper :: "char \<Rightarrow> bool" where
  "is_upper c \<longleftrightarrow> is_alpha c \<and> js_lower_char c \<noteq> c"

definition env_ref :: "string \<Rightarrow> string" where
  "env_ref s = takeWhile (\<lambda>c. is_upper c \<or> is_digit c \<or> c = CHR ''_'') s"

definition skip_brace :: "char \<Rightarrow> string \<Rightarrow> string" where
  "skip_brace b s = (if js_startsWith s [b] then tl s else s)"

lemma skip_brace_shorter: "length (skip_brace b s) \<le> length s"
  by (simp add: skip_brace_def)

function env_refs :: "string \<Rightarrow> string list" where
  "env_refs [] = []"
| "env_refs (c # cs) =
     (let r = skip_brace CHR ''{'' cs; w = env_ref r
      in if c = CHR ''$'' \<and> 3 \<le> length w \<and> is_upper (hd w) then w # env_refs (skip_brace CHR ''}'' (drop (length w) r))
         else env_refs cs)"
  by pat_completeness auto

termination env_refs
proof (relation "measure length", goal_cases)
  case (2 c cs r w)
  have "length (skip_brace CHR ''}'' (drop (length w) r)) \<le> length r" using skip_brace_shorter [of "CHR ''}''" "drop (length w) r"] by simp
  then show ?case using 2(1) skip_brace_shorter [of "CHR ''{''" cs] by simp
qed simp_all

definition extractEnvRefs :: "string \<Rightarrow> string list" where
  "extractEnvRefs body = jset_of (env_refs body)"

definition override_fields :: "(string \<times> string) list \<Rightarrow> attrs \<Rightarrow> attrs" where
  "override_fields overrides as =
     fold (\<lambda>(from, to) a. case map_of a from of Some v \<Rightarrow> if map_of a to = None then set_attr to v a else a | None \<Rightarrow> a) overrides as"

definition attr_str :: "string \<Rightarrow> attrs \<Rightarrow> string option" where
  "attr_str k as = Option.bind (map_of as k) json_string_of"

definition skill_requires :: "attrs \<Rightarrow> string list" where
  "skill_requires as =
     (let caps = asStringArray (map_of as ''requiredCapabilities'')
      in if caps = [] \<and> map_of as ''egress'' \<noteq> None
         then map (\<lambda>h. if CHR '':'' \<in> set h then h else ''egress:'' @ h) (asStringArray (map_of as ''egress'')) else caps)"

definition scope_hint :: "attrs \<Rightarrow> string option" where
  "scope_hint as =
     (let raw = (case attr_str ''scope'' as of Some s \<Rightarrow> Some s | None \<Rightarrow> attr_str ''visibility'' as);
          h = map_option (\<lambda>s. js_lower (js_trim s)) raw
      in if truthy h then h else None)"

definition is_private :: "attrs \<Rightarrow> string \<Rightarrow> bool" where
  "is_private as body \<longleftrightarrow> isTruthy (map_of as ''private'') \<or> isTruthy (map_of as ''agent_only'') \<or> js_includes body ''THE-AGENT-ONLY''"

text \<open>\<open>None\<close> is the answer \<open>{ skip: true, reason: "malformed" }\<close>.\<close>

definition normalizeSkill :: "char \<Rightarrow> pack_config option \<Rightarrow> string \<Rightarrow> string \<Rightarrow> normalized_skill option" where
  "normalizeSkill ellipsis cfg raw path =
     (case parseFrontmatter raw of
        None \<Rightarrow> None
      | Some (parsed, body) \<Rightarrow>
          let as = override_fields (case cfg of Some c \<Rightarrow> pc_fieldOverrides c | None \<Rightarrow> []) parsed;
              given = map_option js_trim (attr_str ''name'' as);
              name = (if truthy given then the given else dirNameFromPath path)
          in if js_trim body = [] then None
             else
               let fm = map_option js_trim (attr_str ''description'' as);
                   creds = asStringArray (map_of as ''declaredCreds'')
               in Some \<lparr> ns_manifest = \<lparr> sm_name = name, sm_description = (if truthy fm then the fm else deriveDescription ellipsis body name),
                                        sm_requiredCapabilities = skill_requires as, sm_body = body, sm_files = None \<rparr>,
                         ns_scopeHint = scope_hint as, ns_private = is_private as body,
                         ns_declaredCreds = (if creds = [] then extractEnvRefs body else creds),
                         ns_meta = filter (\<lambda>(k, v). k \<notin> set RECOGNIZED) parsed \<rparr>)"

definition PERSONAL_SCOPES :: "string list" where
  "PERSONAL_SCOPES = [''personal'', ''person'', ''private'', ''owner'', ''me'', ''self'', ''individual'']"

definition isOrgEligibleScope :: "string option \<Rightarrow> bool" where
  "isOrgEligibleScope h = (case h of None \<Rightarrow> True | Some s \<Rightarrow> s \<notin> set PERSONAL_SCOPES)"

section \<open>Planning an import\<close>

record repo_file =
  rf_path :: string
  rf_text :: string
  rf_binary :: bool

record fetched_repo =
  fr_commit :: string
  fr_files :: "repo_file list"

text \<open>A glob: \<open>**\<close> is any text without line ends, \<open>*\<close> any text without a slash, every other character itself.\<close>

datatype glob_token = GLit char | GStar | GDouble

fun globTokens :: "string \<Rightarrow> glob_token list" where
  "globTokens [] = []"
| "globTokens [c] = [if c = CHR ''*'' then GStar else GLit c]"
| "globTokens (c # d # cs) =
     (if c = CHR ''*'' \<and> d = CHR ''*'' then GDouble # globTokens cs
      else (if c = CHR ''*'' then GStar else GLit c) # globTokens (d # cs))"

fun glob_matches :: "glob_token list \<Rightarrow> string \<Rightarrow> bool" where
  "glob_matches [] s \<longleftrightarrow> s = []"
| "glob_matches (GLit c # ts) s \<longleftrightarrow> (case s of [] \<Rightarrow> False | d # ds \<Rightarrow> d = c \<and> glob_matches ts ds)"
| "glob_matches (GStar # ts) s \<longleftrightarrow>
     glob_matches ts s \<or> (case s of [] \<Rightarrow> False | d # ds \<Rightarrow> d \<noteq> CHR ''/'' \<and> glob_matches (GStar # ts) ds)"
| "glob_matches (GDouble # ts) s \<longleftrightarrow>
     glob_matches ts s \<or> (case s of [] \<Rightarrow> False | d # ds \<Rightarrow> \<not> is_line_end d \<and> glob_matches (GDouble # ts) ds)"

definition matchesAny :: "string \<Rightarrow> string list option \<Rightarrow> bool" where
  "matchesAny path globs = (case globs of None \<Rightarrow> False | Some gs \<Rightarrow> list_ex (\<lambda>g. glob_matches (globTokens g) path) gs)"

definition skillDirOf :: "string \<Rightarrow> string" where
  "skillDirOf path = js_join ''/'' (butlast (js_split CHR ''/'' path))"

definition lastSegment :: "string \<Rightarrow> string" where
  "lastSegment path = (let parts = path_parts path in if parts = [] then path else last parts)"

definition asset_of :: "repo_file \<Rightarrow> string \<Rightarrow> skill_file option" where
  "asset_of f rel = map_option (\<lambda>p. \<lparr> sf_path = p, sf_content = rf_text f, sf_executable = False \<rparr>) (safeSkillFilePath rel)"

fun collect_assets :: "string \<Rightarrow> repo_file list \<Rightarrow> skill_file list option" where
  "collect_assets prefix [] = Some []"
| "collect_assets prefix (f # fs) =
     (let rel = drop (length prefix) (rf_path f)
      in if \<not> js_startsWith (rf_path f) prefix \<or> rel = ''SKILL.md'' \<or> js_includes rel ''/SKILL.md'' then collect_assets prefix fs
         else if rf_binary f then None
         else case asset_of f rel of None \<Rightarrow> None | Some a \<Rightarrow> map_option (Cons a) (collect_assets prefix fs))"

definition collectAssets :: "fetched_repo \<Rightarrow> string \<Rightarrow> skill_file list option" where
  "collectAssets repo dir = map_option (sort_key sf_path) (collect_assets (if dir = [] then [] else dir @ ''/'') (fr_files repo))"

definition isExcludedPath :: "string \<Rightarrow> string list option \<Rightarrow> bool" where
  "isExcludedPath path globs \<longleftrightarrow>
     globs \<noteq> None \<and> globs \<noteq> Some [] \<and>
     (matchesAny path globs \<or>
      (let parts = js_split CHR ''/'' path in list_ex (\<lambda>i. matchesAny (js_join ''/'' (take i parts)) globs) [1..<length parts]))"

definition BUNDLE_IGNORE_ANYWHERE :: "string list" where
  "BUNDLE_IGNORE_ANYWHERE = [''.gitignore'', ''.gitattributes'', ''.gitmodules'', ''.editorconfig'', ''.npmignore'', ''.ds_store'']"

definition BUNDLE_IGNORE_ROOT :: "string list" where
  "BUNDLE_IGNORE_ROOT = [''readme'', ''readme.md'', ''readme.txt'', ''readme.rst'', ''license'', ''license.md'', ''license.txt'', ''licence'',
     ''licence.md'', ''notice'', ''contributing.md'', ''code_of_conduct.md'', ''changelog.md'', ''changelog'', ''security.md'', ''codeowners'']"

definition isRepoMetadata :: "string \<Rightarrow> bool" where
  "isRepoMetadata path =
     (let lower = js_lower path; base = last (js_split CHR ''/'' lower)
      in list_ex (\<lambda>d. lower = d \<or> js_startsWith lower (d @ ''/'')) [''.github'', ''.claude-plugin'', ''.claude''] \<or>
         base \<in> set BUNDLE_IGNORE_ANYWHERE \<or> CHR ''/'' \<notin> set lower \<and> base \<in> set BUNDLE_IGNORE_ROOT)"

definition is_skill_md :: "repo_file \<Rightarrow> bool" where
  "is_skill_md f \<longleftrightarrow> lastSegment (rf_path f) = ''SKILL.md''"

definition skill_dirs :: "fetched_repo \<Rightarrow> string list" where
  "skill_dirs repo = map (\<lambda>f. skillDirOf (rf_path f)) (filter is_skill_md (fr_files repo))"

definition bundle_member :: "string list \<Rightarrow> string list option \<Rightarrow> repo_file \<Rightarrow> bool" where
  "bundle_member dirs exclude f \<longleftrightarrow>
     \<not> is_skill_md f \<and> \<not> list_ex (\<lambda>d. rf_path f = d \<or> js_startsWith (rf_path f) (d @ ''/'')) dirs \<and>
     \<not> isRepoMetadata (rf_path f) \<and> \<not> isExcludedPath (rf_path f) exclude \<and> \<not> rf_binary f"

definition collectSharedBundle :: "fetched_repo \<Rightarrow> pack_config option \<Rightarrow> skill_file list" where
  "collectSharedBundle repo config =
     (let dirs = skill_dirs repo; exclude = Option.bind config pc_exclude
      in if [] \<in> set dirs then []
         else sort_key sf_path (List.map_filter (\<lambda>f. if bundle_member dirs exclude f then asset_of f (rf_path f) else None) (fr_files repo)))"

datatype exclude_reason = ByScope | ByPrivate | ByCollision | ByBinaryAsset | ByMalformed

record ingest_candidate =
  ic_upstreamName :: string
  ic_skillPath :: string
  ic_normalized :: "normalized_skill option"
  ic_excluded :: "exclude_reason option"

definition ic_eligible :: "ingest_candidate \<Rightarrow> bool" where
  "ic_eligible c \<longleftrightarrow> ic_excluded c = None"

definition exclusion :: "fetched_repo \<Rightarrow> string list \<Rightarrow> string \<Rightarrow> normalized_skill \<Rightarrow> exclude_reason option" where
  "exclusion repo nativeNames dir n =
     (if ns_private n then Some ByPrivate
      else if \<not> isOrgEligibleScope (ns_scopeHint n) then Some ByScope
      else if sm_name (ns_manifest n) \<in> set nativeNames then Some ByCollision
      else if collectAssets repo dir = None then Some ByBinaryAsset
      else None)"

definition skill_selected :: "pack_config option \<Rightarrow> repo_file \<Rightarrow> bool" where
  "skill_selected cfg f \<longleftrightarrow>
     is_skill_md f \<and>
     (case Option.bind cfg pc_skillGlobs of None \<Rightarrow> True | Some gs \<Rightarrow> matchesAny (skillDirOf (rf_path f)) (Some gs)) \<and>
     \<not> matchesAny (skillDirOf (rf_path f)) (Option.bind cfg pc_exclude)"

definition candidate_of :: "char \<Rightarrow> fetched_repo \<Rightarrow> pack_config option \<Rightarrow> string list \<Rightarrow> repo_file \<Rightarrow> ingest_candidate" where
  "candidate_of ellipsis repo cfg nativeNames f =
     (let dir = skillDirOf (rf_path f);
          up = (if lastSegment dir = [] then lastSegment (rf_path f) else lastSegment dir)
      in case normalizeSkill ellipsis cfg (rf_text f) (rf_path f) of
           None \<Rightarrow> \<lparr> ic_upstreamName = up, ic_skillPath = rf_path f, ic_normalized = None, ic_excluded = Some ByMalformed \<rparr>
         | Some n \<Rightarrow> \<lparr> ic_upstreamName = up, ic_skillPath = rf_path f, ic_normalized = Some n, ic_excluded = exclusion repo nativeNames dir n \<rparr>)"

definition planIngest :: "char \<Rightarrow> fetched_repo \<Rightarrow> pack_config option \<Rightarrow> string list \<Rightarrow> ingest_candidate list" where
  "planIngest ellipsis repo cfg nativeNames = map (candidate_of ellipsis repo cfg nativeNames) (filter (skill_selected cfg) (fr_files repo))"

definition excluded_as :: "exclude_reason \<Rightarrow> ingest_candidate list \<Rightarrow> nat" where
  "excluded_as r cs = length (filter (\<lambda>c. ic_excluded c = Some r) cs)"

definition plan_counts :: "ingest_candidate list \<Rightarrow> (string \<times> nat) list" where
  "plan_counts cs =
     [(''total'', length cs), (''eligible'', length (filter ic_eligible cs)), (''scope'', excluded_as ByScope cs),
      (''private'', excluded_as ByPrivate cs), (''collision'', excluded_as ByCollision cs),
      (''binary-asset'', excluded_as ByBinaryAsset cs), (''malformed'', excluded_as ByMalformed cs)]"

section \<open>Importing\<close>

record import_context =
  ix_pack :: skill_pack
  ix_selected :: "string list option"
  ix_nativeNames :: "string list"
  ix_targetScopeId :: scope_id
  ix_claimedPaths :: "(string \<rightharpoonup> string) option"
  ix_claimedBundlePaths :: "(string \<rightharpoonup> string) option"
  ix_bundleFiles :: "skill_file list"

definition wanted :: "import_context \<Rightarrow> string \<Rightarrow> bool" where
  "wanted ctx name \<longleftrightarrow> (case ix_selected ctx of None \<Rightarrow> True | Some xs \<Rightarrow> name \<in> set xs) \<and>
     (case sp_subset (ix_pack ctx) of None \<Rightarrow> True | Some xs \<Rightarrow> name \<in> set xs)"

definition to_write :: "char \<Rightarrow> fetched_repo \<Rightarrow> import_context \<Rightarrow> (string \<times> skill_manifest) list" where
  "to_write ellipsis repo ctx = List.map_filter (\<lambda>c.
     case ic_normalized c of
       None \<Rightarrow> None
     | Some n \<Rightarrow> if ic_eligible c \<and> wanted ctx (ic_upstreamName c)
         then Some (ic_upstreamName c,
           (ns_manifest n)\<lparr> sm_files := Some (case collectAssets repo (skillDirOf (ic_skillPath c)) of Some as \<Rightarrow> as | None \<Rightarrow> []) \<rparr>)
         else None) (planIngest ellipsis repo (sp_config (ix_pack ctx)) (ix_nativeNames ctx))"

text \<open>The paths of the skills to write; \<open>None\<close> when a name is refused.\<close>

definition incoming_skill_paths :: "(string \<times> skill_manifest) list \<Rightarrow> string list option" where
  "incoming_skill_paths ws = map_option concat (those (map (\<lambda>(u, man). skillRecordPaths (sm_name man) (sm_files man)) ws))"

datatype import_error = ImportUnsafeName | PathCollisions "(string \<times> string) list" | StoreRefused skill_error

definition claim_all :: "string list \<Rightarrow> string \<Rightarrow> (string \<rightharpoonup> string) \<Rightarrow> (string \<rightharpoonup> string)" where
  "claim_all ps owner claimed = fold (\<lambda>p c. c(p \<mapsto> owner)) ps claimed"

definition import_checks :: "import_context \<Rightarrow> (string \<times> skill_manifest) list \<Rightarrow> import_error option" where
  "import_checks ctx ws =
     (case incoming_skill_paths ws of
        None \<Rightarrow> Some ImportUnsafeName
      | Some skillPaths \<Rightarrow>
          let bundlePaths = bundleFilePaths (ix_bundleFiles ctx);
              control = materializationControlPathCollisions bundlePaths;
              direct = (case ix_claimedPaths ctx of None \<Rightarrow> [] | Some cl \<Rightarrow> detectPathCollisions (skillPaths @ bundlePaths) cl);
              bundle = (case ix_claimedBundlePaths ctx of None \<Rightarrow> []
                        | Some cl \<Rightarrow> detectPathCollisions bundlePaths (claim_all skillPaths ''incoming skill'' cl))
          in if control \<noteq> [] then Some (PathCollisions control)
             else if direct \<noteq> [] then Some (PathCollisions direct)
             else if bundle \<noteq> [] then Some (PathCollisions bundle) else None)"

definition PACK_REVIEWER :: string where "PACK_REVIEWER = ''system:pack-reviewer''"

definition pack_author :: "string \<Rightarrow> string" where "pack_author packId = ''pack:'' @ packId"

record import_result =
  ir_imported :: "string list"
  ir_updated :: "string list"
  ir_skipped :: "string list"

definition note_outcome :: "string \<Rightarrow> upsert_outcome \<Rightarrow> import_result \<Rightarrow> import_result" where
  "note_outcome name out r =
     (case out of
        Installed \<Rightarrow> r\<lparr> ir_imported := ir_imported r @ [name] \<rparr>
      | UpdatedSkill \<Rightarrow> r\<lparr> ir_updated := ir_updated r @ [name] \<rparr>
      | _ \<Rightarrow> r\<lparr> ir_skipped := ir_skipped r @ [name] \<rparr>)"

definition pack_skill_input :: "import_context \<Rightarrow> string \<Rightarrow> string \<Rightarrow> skill_manifest \<Rightarrow> skill_input" where
  "pack_skill_input ctx commit up man =
     \<lparr> in_scopeId = ix_targetScopeId ctx, in_manifest = man, in_createdBy = pack_author (sp_id (ix_pack ctx)),
       in_pack = Some \<lparr> pk_packId = sp_id (ix_pack ctx), pk_commit = commit, pk_upstreamName = up \<rparr> \<rparr>"

fun write_skills ::
  "skill_env \<Rightarrow> (nat \<Rightarrow> string) \<Rightarrow> time \<Rightarrow> import_context \<Rightarrow> string \<Rightarrow> nat \<Rightarrow> (string \<times> skill_manifest) list \<Rightarrow> import_result \<Rightarrow> skill_store \<Rightarrow>
   (import_error + import_result) \<times> skill_store" where
  "write_skills env uid now ctx commit k [] r m = (Inr r, m)"
| "write_skills env uid now ctx commit k ((up, man) # ws) r m =
     (case upsertSeedSkill env (uid k) now PACK_REVIEWER (pack_skill_input ctx commit up man) m of
        (Inl e, m1) \<Rightarrow> (Inl (StoreRefused e), m1)
      | (Inr out, m1) \<Rightarrow> write_skills env uid now ctx commit (Suc k) ws (note_outcome (sm_name man) out r) m1)"

text \<open>The answer carries what was imported and the names that were kept.\<close>

definition importPack ::
  "skill_env \<Rightarrow> char \<Rightarrow> (nat \<Rightarrow> string) \<Rightarrow> time \<Rightarrow> fetched_repo \<Rightarrow> import_context \<Rightarrow> skill_store \<Rightarrow>
   (import_error + import_result \<times> string list) \<times> skill_store" where
  "importPack env ellipsis uid now repo ctx m =
     (let ws = to_write ellipsis repo ctx
      in case import_checks ctx ws of
           Some e \<Rightarrow> (Inl e, m)
         | None \<Rightarrow>
             (case write_skills env uid now ctx (fr_commit repo) 0 ws \<lparr> ir_imported = [], ir_updated = [], ir_skipped = [] \<rparr> m of
                (Inl e, m1) \<Rightarrow> (Inl e, m1)
              | (Inr r, m1) \<Rightarrow> (Inr (r, map fst ws), m1)))"

section \<open>Keeping a pack in step\<close>

record pack_env =
  pe_skills :: skill_env
  pe_ellipsis :: char
  pe_sha256 :: "string \<Rightarrow> string"
  pe_message :: "import_error \<Rightarrow> string"

record registry =
  rg_skills :: skill_store
  rg_packs :: "skill_pack mem_map"
  rg_bundles :: "skill_bundle mem_map"

definition nativeNamesFor :: "skill_store \<Rightarrow> string \<Rightarrow> scope_id \<Rightarrow> string list" where
  "nativeNamesFor m packId scope =
     jset_of (map (\<lambda>s. sm_name (sk_manifest s)) (filter (\<lambda>s. sk_scopeId s = scope \<and> sk_createdBy s \<noteq> pack_author packId) (mm_all m)))"

definition importedPackSkills :: "skill_store \<Rightarrow> string \<Rightarrow> (scope_id \<times> string) list" where
  "importedPackSkills m packId = List.map_filter (\<lambda>s.
     case sk_pack s of
       Some p \<Rightarrow> if sk_status s = Published \<and> pk_packId p = packId then Some (sk_scopeId s, pk_upstreamName p) else None
     | None \<Rightarrow> None) (mm_all m)"

definition claim_skill :: "string \<Rightarrow> skill \<Rightarrow> (string \<rightharpoonup> string) \<Rightarrow> (string \<rightharpoonup> string)" where
  "claim_skill owner s claimed = claim_all (persistedSkillRecordPaths (sm_name (sk_manifest s)) (sm_files (sk_manifest s))) owner claimed"

definition buildClaimedPaths :: "skill_store \<Rightarrow> string \<Rightarrow> scope_id \<Rightarrow> (string \<rightharpoonup> string)" where
  "buildClaimedPaths m exceptPackId sid =
     fold (\<lambda>s. claim_skill (sk_createdBy s) s)
       (filter (\<lambda>s. sk_status s = Published \<and> sk_createdBy s \<noteq> pack_author exceptPackId \<and> sk_scopeId s = sid) (mm_all m)) Map.empty"

definition buildClaimedBundlePaths :: "skill_store \<Rightarrow> (string \<rightharpoonup> string)" where
  "buildClaimedBundlePaths m =
     fold (\<lambda>s. claim_skill (''skill '' @ [CHR 0x22] @ sm_name (sk_manifest s) @ [CHR 0x22] @ '' in '' @ sk_scopeId s) s)
       (filter (\<lambda>s. sk_status s = Published) (mm_all m)) Map.empty"

definition removed_upstream :: "string \<Rightarrow> scope_id \<Rightarrow> string list \<Rightarrow> skill \<Rightarrow> bool" where
  "removed_upstream packId sid kept s \<longleftrightarrow>
     sk_createdBy s = pack_author packId \<and> sk_scopeId s = sid \<and> sk_status s \<noteq> Archived \<and>
     (case map_option pk_upstreamName (sk_pack s) of None \<Rightarrow> False | Some u \<Rightarrow> u \<noteq> [] \<and> u \<notin> set kept)"

definition archive_or_same :: "time \<Rightarrow> skill \<Rightarrow> skill_store \<Rightarrow> skill_store" where
  "archive_or_same now s m = (case skill_archive now (sk_id s) m of Inr (_, m') \<Rightarrow> m' | Inl _ \<Rightarrow> m)"

definition archiveRemoved :: "time \<Rightarrow> string \<Rightarrow> scope_id \<Rightarrow> string list \<Rightarrow> skill_store \<Rightarrow> string list \<times> skill_store" where
  "archiveRemoved now packId sid kept m =
     (let gone = filter (removed_upstream packId sid kept) (mm_all m)
      in (map (\<lambda>s. sm_name (sk_manifest s)) gone, fold (archive_or_same now) gone m))"

definition skillPackSourceIdentity ::
  "skill_pack \<Rightarrow> string \<times> string \<times> sync_mode \<times> trust_tier \<times> pack_config option \<times> scope_id \<times> string list option \<times> string option \<times> import_record option" where
  "skillPackSourceIdentity p = (sp_url p, sp_ref p, sp_syncMode p, sp_trustTier p, sp_config p, sp_targetScopeId p, sp_subset p,
     sp_authCredentialSlug p, sp_lastImport p)"

record import_totals = import_result +
  it_archived :: "string list"

definition add_totals :: "import_result \<Rightarrow> string list \<Rightarrow> import_totals \<Rightarrow> import_totals" where
  "add_totals r gone t = t\<lparr> ir_imported := ir_imported t @ ir_imported r, ir_updated := ir_updated t @ ir_updated r,
     ir_skipped := ir_skipped t @ ir_skipped r, it_archived := it_archived t @ gone \<rparr>"

definition target_context :: "skill_pack \<Rightarrow> skill_file list \<Rightarrow> scope_id \<Rightarrow> string list option \<Rightarrow> skill_store \<Rightarrow> import_context" where
  "target_context pack bundleFiles sid selected m =
     \<lparr> ix_pack = pack, ix_selected = selected, ix_nativeNames = nativeNamesFor m (sp_id pack) sid, ix_targetScopeId = sid,
       ix_claimedPaths = Some (buildClaimedPaths m (sp_id pack) sid), ix_claimedBundlePaths = Some (buildClaimedBundlePaths m),
       ix_bundleFiles = bundleFiles \<rparr>"

fun reconcile_targets ::
  "pack_env \<Rightarrow> (nat \<Rightarrow> nat \<Rightarrow> string) \<Rightarrow> time \<Rightarrow> skill_pack \<Rightarrow> fetched_repo \<Rightarrow> skill_file list \<Rightarrow> nat \<Rightarrow> (scope_id \<times> string list option) list \<Rightarrow>
   import_totals \<Rightarrow> skill_store \<Rightarrow> (import_error + import_totals) \<times> skill_store" where
  "reconcile_targets env uid now pack repo bundle j [] t m = (Inr t, m)"
| "reconcile_targets env uid now pack repo bundle j ((sid, selected) # ts) t m =
     (case importPack (pe_skills env) (pe_ellipsis env) (uid j) now repo (target_context pack bundle sid selected m) m of
        (Inl e, m1) \<Rightarrow> (Inl e, m1)
      | (Inr (r, kept), m1) \<Rightarrow>
          (case archiveRemoved now (sp_id pack) sid kept m1 of
             (gone, m2) \<Rightarrow> reconcile_targets env uid now pack repo bundle (Suc j) ts (add_totals r gone t) m2))"

datatype reconcile_error = UnknownPack | PackChanged | FetchFailed string | ImportFailed import_error

definition failed_import :: "time \<Rightarrow> string \<Rightarrow> string \<Rightarrow> import_record" where
  "failed_import now ref msg = \<lparr> im_at = now, im_commit = ref, im_ok = False, im_error = Some msg, im_counts = None \<rparr>"

definition empty_totals :: import_totals where
  "empty_totals = \<lparr> ir_imported = [], ir_updated = [], ir_skipped = [], it_archived = [] \<rparr>"

text \<open>The part of \<open>reconcilePack\<close> after the fetch, which runs under the lock; \<open>pack\<close> is the pack as it was read before the fetch.\<close>

definition applyFetched ::
  "pack_env \<Rightarrow> (nat \<Rightarrow> nat \<Rightarrow> string) \<Rightarrow> time \<Rightarrow> skill_pack \<Rightarrow> fetched_repo \<Rightarrow> (scope_id \<times> string list option) list \<Rightarrow> registry \<Rightarrow>
   (reconcile_error + import_totals) \<times> registry" where
  "applyFetched env uid now pack repo targets st =
     (case mm_get (rg_packs st) (sp_id pack) of
        None \<Rightarrow> (Inl UnknownPack, st)
      | Some current \<Rightarrow>
          if skillPackSourceIdentity current \<noteq> skillPackSourceIdentity pack then (Inl PackChanged, st)
          else
            let bundle = collectSharedBundle repo (sp_config pack);
                counts = plan_counts (planIngest (pe_ellipsis env) repo (sp_config pack) (nativeNamesFor (rg_skills st) (sp_id pack) (sp_targetScopeId pack)))
            in case reconcile_targets env uid now pack repo bundle 0 targets empty_totals (rg_skills st) of
                 (Inl e, skills) \<Rightarrow>
                   (Inl (ImportFailed e),
                    st\<lparr> rg_skills := skills, rg_packs := recordImport (sp_id pack) (failed_import now (sp_ref pack) (pe_message env e)) (rg_packs st) \<rparr>)
               | (Inr t, skills) \<Rightarrow>
                   let done_record = \<lparr> im_at = now, im_commit = fr_commit repo, im_ok = True, im_error = None,
                         im_counts = Some (counts @ [(''imported'', length (ir_imported t)), (''updated'', length (ir_updated t)),
                                            (''skipped'', length (ir_skipped t)), (''archived'', length (it_archived t))]) \<rparr>;
                       packs = recordImport (sp_id pack) done_record (rg_packs st)
                   in (Inr t,
                       st\<lparr> rg_skills := skills,
                           rg_bundles := mm_put (sp_id pack) \<lparr> sb_packId = sp_id pack, sb_commit = fr_commit repo, sb_files = bundle,
                             sb_hash = computeBundleHash (pe_sha256 env) bundle \<rparr> (rg_bundles st),
                           rg_packs := snd (pack_update (sp_id pack) (\<lambda>p. p\<lparr> sp_updateAvailable := False, sp_available := map_of counts ''eligible'' \<rparr>) packs) \<rparr>))"

definition fetch_failed :: "time \<Rightarrow> skill_pack \<Rightarrow> string \<Rightarrow> registry \<Rightarrow> (reconcile_error + import_totals) \<times> registry" where
  "fetch_failed now pack msg st = (Inl (FetchFailed msg), st\<lparr> rg_packs := recordImport (sp_id pack) (failed_import now (sp_ref pack) msg) (rg_packs st) \<rparr>)"

definition sync_targets :: "skill_pack \<Rightarrow> skill_store \<Rightarrow> (scope_id \<times> string list option) list" where
  "sync_targets pack m =
     (let xs = importedPackSkills m (sp_id pack)
      in if xs = [] then [(sp_targetScopeId pack, Some [])]
         else map (\<lambda>sid. (sid, Some (map snd (filter (\<lambda>x. fst x = sid) xs)))) (jset_of (map fst xs)))"

definition removeSkillPack :: "string \<Rightarrow> registry \<Rightarrow> nat \<times> registry" where
  "removeSkillPack packId st =
     (let mine = filter (\<lambda>s. sk_createdBy s = pack_author packId) (mm_all (rg_skills st))
      in (length mine, st\<lparr> rg_skills := fold (\<lambda>s. mm_delete (sk_id s)) mine (rg_skills st),
                           rg_bundles := mm_delete packId (rg_bundles st), rg_packs := mm_delete packId (rg_packs st) \<rparr>))"

section \<open>Skills that people write\<close>

text \<open>
  \<open>canManage\<close> is the answer of the check of the home scope. The audit log is left out.
\<close>

definition SKILL_AUTHORING :: string where "SKILL_AUTHORING = ''system:skill-authoring''"

definition triggerBlocksSharedSkill :: "scope_id \<Rightarrow> bool \<Rightarrow> bool" where
  "triggerBlocksSharedSkill homeScope liveActor \<longleftrightarrow> isSharedScope (Some homeScope) \<and> \<not> liveActor"

datatype owned_answer = OwnedNone | OwnedForbidden | OwnedTriggerBlocked | OwnedError skill_error | OwnedInvalid | OwnedDeleted | OwnedSkill skill

definition owned_of :: "(skill_error + skill) \<times> skill_store \<Rightarrow> owned_answer \<times> skill_store" where
  "owned_of r = (case fst r of Inl e \<Rightarrow> OwnedError e | Inr s \<Rightarrow> OwnedSkill s, snd r)"

definition republishIfShared :: "skill_env \<Rightarrow> time \<Rightarrow> skill \<Rightarrow> skill_store \<Rightarrow> (skill_error + skill) \<times> skill_store" where
  "republishIfShared env now s m =
     (if sk_status s = Published then (Inr s, m)
      else if fst (parseScopeId (sk_scopeId s)) \<notin> {Some Channel, Some Group} then (Inr s, m)
      else review_and_publish env now (sk_id s) SKILL_AUTHORING (sm_requiredCapabilities (sk_manifest s)) m)"

definition patched_manifest :: "string option \<Rightarrow> string option \<Rightarrow> skill_manifest \<Rightarrow> skill_manifest" where
  "patched_manifest description body man =
     man\<lparr> sm_description := (case description of Some d \<Rightarrow> d | None \<Rightarrow> sm_description man),
          sm_body := (case body of Some b \<Rightarrow> b | None \<Rightarrow> sm_body man) \<rparr>"

definition updateOwnedSkill ::
  "skill_env \<Rightarrow> time \<Rightarrow> (skill \<Rightarrow> bool) \<Rightarrow> bool \<Rightarrow> string \<Rightarrow> string option \<Rightarrow> string option \<Rightarrow> skill_store \<Rightarrow> owned_answer \<times> skill_store" where
  "updateOwnedSkill env now canManage liveActor uid description body m =
     (case mm_get m uid of
        None \<Rightarrow> (OwnedNone, m)
      | Some s \<Rightarrow>
          if \<not> canManage s then (OwnedNone, m)
          else if triggerBlocksSharedSkill (sk_scopeId s) liveActor then (OwnedTriggerBlocked, m)
          else if sk_status s = Archived then (OwnedNone, m)
          else case skill_update env now uid (patched_manifest description body (sk_manifest s)) m of
                 Inl e \<Rightarrow> (OwnedError e, m)
               | Inr (s1, m1) \<Rightarrow> owned_of (republishIfShared env now s1 m1))"

definition restoreOwnedSkill :: "skill_env \<Rightarrow> time \<Rightarrow> (skill \<Rightarrow> bool) \<Rightarrow> string \<Rightarrow> string \<Rightarrow> skill_store \<Rightarrow> owned_answer \<times> skill_store" where
  "restoreOwnedSkill env now canManage principalId uid m =
     (case mm_get m uid of
        None \<Rightarrow> (OwnedNone, m)
      | Some s \<Rightarrow>
          if sk_status s \<noteq> Archived \<or> \<not> canManage s then (OwnedNone, m)
          else owned_of (review_and_publish env now uid principalId (sm_requiredCapabilities (sk_manifest s)) m))"

definition deleteOwnedSkill :: "time \<Rightarrow> (skill \<Rightarrow> bool) \<Rightarrow> bool \<Rightarrow> string \<Rightarrow> skill_store \<Rightarrow> owned_answer \<times> skill_store" where
  "deleteOwnedSkill now canManage liveActor uid m =
     (case mm_get m uid of
        None \<Rightarrow> (OwnedNone, m)
      | Some s \<Rightarrow>
          if \<not> canManage s then (OwnedForbidden, m)
          else if triggerBlocksSharedSkill (sk_scopeId s) liveActor then (OwnedTriggerBlocked, m)
          else case skill_archive now uid m of Inl e \<Rightarrow> (OwnedError e, m) | Inr (_, m1) \<Rightarrow> (OwnedDeleted, m1))"

definition createOwnedSkill ::
  "skill_env \<Rightarrow> string \<Rightarrow> time \<Rightarrow> string \<Rightarrow> scope_id option \<Rightarrow> string \<Rightarrow> string \<Rightarrow> string \<Rightarrow> string list \<Rightarrow> skill_store \<Rightarrow> owned_answer \<times> skill_store" where
  "createOwnedSkill env uid now principalId homeScope name description body caps m =
     (let home = (case homeScope of Some h \<Rightarrow> h | None \<Rightarrow> scopeId Personal principalId);
          man = \<lparr> sm_name = js_trim name, sm_description = js_trim description, sm_requiredCapabilities = caps, sm_body = js_trim body, sm_files = None \<rparr>
      in if js_trim name = [] \<or> js_trim description = [] \<or> js_trim body = [] then (OwnedInvalid, m)
         else if fst (parseScopeId home) \<notin> {Some Personal, Some Channel, Some Group} then (OwnedInvalid, m)
         else
           let existing = find (\<lambda>s. sk_scopeId s = home \<and> sm_name (sk_manifest s) = js_trim name) (mm_all m)
           in if (case existing of Some x \<Rightarrow> sk_status x \<noteq> Archived | None \<Rightarrow> False) then (OwnedNone, m)
              else
                let m0 = (case existing of Some x \<Rightarrow> mm_delete (sk_id x) m | None \<Rightarrow> m)
                in case skill_create env uid now \<lparr> in_scopeId = home, in_manifest = man, in_createdBy = principalId, in_pack = None \<rparr> m0 of
                     Inl e \<Rightarrow> (OwnedError e, m0)
                   | Inr (s, m1) \<Rightarrow> owned_of (review_and_publish env now uid SKILL_AUTHORING caps m1))"

definition promoteSkill :: "skill_env \<Rightarrow> string \<Rightarrow> time \<Rightarrow> bool \<Rightarrow> bool \<Rightarrow> string \<Rightarrow> scope_id \<Rightarrow> skill_store \<Rightarrow> owned_answer \<times> skill_store" where
  "promoteSkill env fresh now isAdmin liveActor uid target m =
     (if fst (parseScopeId target) \<noteq> Some Org then (OwnedInvalid, m)
      else if \<not> liveActor then (OwnedForbidden, m)
      else if \<not> isAdmin then (OwnedForbidden, m)
      else case skill_promote env fresh now uid target m of Inl e \<Rightarrow> (OwnedError e, m) | Inr (s, m1) \<Rightarrow> (OwnedSkill s, m1))"

text \<open>
  A person's edit keeps the list of capabilities, so it is one of the edits of the machine of the store; an
  edit by a trigger never changes a skill that others use, and neither a trigger nor a person who is no
  administrator puts one into the organisation.
\<close>

lemma owned_edit_allowed:
  assumes "vetted env s" "updated_skill env now (patched_manifest d b (sk_manifest s)) s = Inr s'"
  shows "skill_edit env seen s s'"
proof (rule se_update [OF _ assms(2)])
  show "isSafeSkillName (sm_name (patched_manifest d b (sk_manifest s)))" using assms(1) by (simp add: vetted_def patched_manifest_def)
  show "scopeKind (sk_scopeId s) = ''personal'' \<and> sk_status s = Published \<longrightarrow>
      set (sm_requiredCapabilities (patched_manifest d b (sk_manifest s))) \<subseteq> set (sk_grantedCapabilities s)"
    using assms(1) by (simp add: vetted_def patched_manifest_def)
qed

lemma trigger_leaves_shared_skill:
  assumes "mm_get m uid = Some s" "isSharedScope (Some (sk_scopeId s))"
  shows "snd (updateOwnedSkill env now canManage False uid d b m) = m" "snd (deleteOwnedSkill now canManage False uid m) = m"
    "snd (promoteSkill env fresh now isAdmin False uid target m) = m" "snd (promoteSkill env fresh now False live uid target m) = m"
  using assms by (auto simp: updateOwnedSkill_def deleteOwnedSkill_def promoteSkill_def triggerBlocksSharedSkill_def)

section \<open>The synchronisation tick\<close>

text \<open>
  What a tick does with one pack, given the head of its reference: fetch and reconcile it, note whether an
  update is available, or nothing.
\<close>

datatype sync_action = SyncNothing | SyncReconcile | SyncNote bool

definition syncOne :: "skill_pack mem_map \<Rightarrow> string \<Rightarrow> string \<Rightarrow> sync_action" where
  "syncOne packs packId head =
     (case mm_get packs packId of
        None \<Rightarrow> SyncNothing
      | Some pack \<Rightarrow>
          (case sp_syncMode pack of
             Tracked \<Rightarrow>
               (case sp_lastImport pack of
                  Some r \<Rightarrow> if im_ok r \<and> head = im_commit r then SyncNothing else SyncReconcile
                | None \<Rightarrow> SyncReconcile)
           | Pinned \<Rightarrow>
               let available = (case sp_lastImport pack of Some r \<Rightarrow> head \<noteq> im_commit r | None \<Rightarrow> False)
               in if available \<noteq> sp_updateAvailable pack then SyncNote available else SyncNothing))"

definition note_update :: "string \<Rightarrow> bool \<Rightarrow> skill_pack mem_map \<Rightarrow> skill_pack mem_map" where
  "note_update packId available packs = snd (pack_update packId (\<lambda>p. p\<lparr> sp_updateAvailable := available \<rparr>) packs)"

text \<open>After an import of the head, and after a note, the next tick at the same head has nothing to do.\<close>

lemma note_settles: "syncOne packs packId head = SyncNote b \<Longrightarrow> syncOne (note_update packId b packs) packId head = SyncNothing"
  by (auto simp: syncOne_def note_update_def pack_update_def mm_update_def Let_def mm_get_def split: option.splits sync_mode.splits if_splits)

lemma import_settles:
  assumes "applyFetched env uid now pack repo targets st = (Inr t, st')"
  shows "syncOne (rg_packs st') (sp_id pack) (fr_commit repo) = SyncNothing"
proof -
  obtain p where "mm_get (rg_packs st) (sp_id pack) = Some p" using assms by (auto simp: applyFetched_def split: option.splits)
  then obtain r a p' where "mm_get (rg_packs st') (sp_id pack) = Some p'" "sp_lastImport p' = Some r" "im_ok r" "im_commit r = fr_commit repo"
      "\<not> sp_updateAvailable p'"
    using assms by (auto simp: applyFetched_def recordImport_def pack_update_def Let_def split: option.splits if_splits prod.splits sum.splits)
  then show ?thesis by (auto simp: syncOne_def split: sync_mode.splits)
qed

section \<open>What an import changes\<close>

definition store_ok :: "skill_store \<Rightarrow> bool" where
  "store_ok m \<longleftrightarrow> mm_invar m \<and> (\<forall>k s. mm_get m k = Some s \<longrightarrow> sk_id s = k)"

text \<open>Every record that differs was, and is now, one of \<open>P\<close>.\<close>

definition changes :: "(skill \<Rightarrow> bool) \<Rightarrow> skill_store \<Rightarrow> skill_store \<Rightarrow> bool" where
  "changes P m m' \<longleftrightarrow> (\<forall>k. mm_get m' k = mm_get m k \<or> (\<forall>s. mm_get m k = Some s \<longrightarrow> P s) \<and> (\<forall>s. mm_get m' k = Some s \<longrightarrow> P s))"

lemma changes_refl: "changes P m m" by (simp add: changes_def)

lemma changes_trans: "changes P m m' \<Longrightarrow> changes P m' m'' \<Longrightarrow> changes P m m''"
  unfolding changes_def by metis

lemma changes_mono: "changes P m m' \<Longrightarrow> (\<And>s. P s \<Longrightarrow> Q s) \<Longrightarrow> changes Q m m'"
  unfolding changes_def by blast

lemma changes_put:
  assumes "mm_get m (sk_id s) = None \<or> (\<exists>x. mm_get m (sk_id s) = Some x \<and> P x)" "P s"
  shows "changes P m (put_skill s m)"
  using assms by (auto simp: changes_def put_skill_def)

lemma store_ok_put: "store_ok m \<Longrightarrow> store_ok (put_skill s m)"
  by (auto simp: store_ok_def put_skill_def mm_invar_def mm_put_def [symmetric]) (simp add: mm_put_def distinct_update)

lemma store_ok_get: "store_ok m \<Longrightarrow> s \<in> set (mm_all m) \<Longrightarrow> mm_get m (sk_id s) = Some s"
  using live_in_store [of s m] by (auto simp: store_ok_def)

text \<open>What every edit of a record but a move and a promotion keeps.\<close>

definition same_skill :: "skill \<Rightarrow> skill \<Rightarrow> bool" where
  "same_skill s t \<longleftrightarrow> sk_id t = sk_id s \<and> sk_createdBy t = sk_createdBy s \<and> sk_scopeId t = sk_scopeId s \<and>
     sm_name (sk_manifest t) = sm_name (sk_manifest s) \<and> sk_pack t = sk_pack s"

lemma edits_same:
  "updated_skill env now man s = Inr t \<Longrightarrow> same_skill s t" "reviewed_skill env now rv caps s = Inr t \<Longrightarrow> same_skill s t"
  "published_skill now s = Inr t \<Longrightarrow> same_skill s t" "archived_skill now s = Inr t \<Longrightarrow> same_skill s t"
  by (auto simp: same_skill_def updated_skill_def reviewed_skill_def published_skill_def archived_skill_def split: if_splits)

text \<open>A predicate on skills that only looks at what edits keep.\<close>

definition kept_by_edits :: "(skill \<Rightarrow> bool) \<Rightarrow> bool" where
  "kept_by_edits P \<longleftrightarrow> (\<forall>s t. same_skill s t \<longrightarrow> P s \<longrightarrow> P t)"

definition writes :: "(skill \<Rightarrow> bool) \<Rightarrow> skill_store \<Rightarrow> skill_store \<Rightarrow> bool" where
  "writes P m m' \<longleftrightarrow> store_ok m' \<and> changes P m m' \<and> {k. mm_get m' k \<noteq> None} = {k. mm_get m k \<noteq> None}"

lemma writes_trans: "writes P m m' \<Longrightarrow> writes P m' m'' \<Longrightarrow> writes P m m''"
  unfolding writes_def using changes_trans by blast

lemma writes_refl: "store_ok m \<Longrightarrow> writes P m m"
  by (simp add: writes_def changes_refl)

lemma edit_writes:
  assumes e: "edit_skill k f m = Inr (t, m')" and m: "store_ok m" and get: "mm_get m k = Some s" "P s" and P: "kept_by_edits P"
    and f: "\<And>s t. f s = Inr t \<Longrightarrow> same_skill s t"
  shows "writes P m m'" "mm_get m' k = Some t" "P t" "same_skill s t"
proof -
  have t: "f s = Inr t" "m' = put_skill t m" using e get(1) by (auto simp: edit_skill_def split: sum.splits)
  have st: "same_skill s t" using f t(1) by blast
  then have id: "sk_id t = k" using m get(1) by (simp add: same_skill_def store_ok_def)
  show Pt: "P t" using P st get(2) by (auto simp: kept_by_edits_def)
  show "mm_get m' k = Some t" "same_skill s t" using t(2) id st by (simp_all add: put_skill_def)
  have "changes P m m'" unfolding t(2) by (rule changes_put) (use get id Pt in auto)
  moreover have "{k. mm_get m' k \<noteq> None} = {k. mm_get m k \<noteq> None}" using get(1) id by (auto simp: t(2) put_skill_def)
  ultimately show "writes P m m'" using store_ok_put [OF m] by (simp add: writes_def t(2))
qed

lemma review_publish_writes:
  assumes r: "review_and_publish env now k rv caps m = (r, m')" and m: "store_ok m" and get: "mm_get m k = Some s" "P s" and P: "kept_by_edits P"
  shows "writes P m m'"
proof (cases "skill_review env now k rv caps m")
  case (Inl e)
  then show ?thesis using r m by (simp add: review_and_publish_def writes_refl)
next
  case (Inr y)
  then obtain t m1 where m1: "edit_skill k (reviewed_skill env now rv caps) m = Inr (t, m1)" "skill_review env now k rv caps m = Inr (t, m1)"
    by (cases y) (simp add: skill_review_def)
  note w1 = edit_writes [OF m1(1) m get P edits_same(2)]
  have ok: "store_ok m1" using w1(1) by (simp add: writes_def)
  show ?thesis
  proof (cases "skill_publish now k m1")
    case (Inl e)
    then show ?thesis using r m1(2) w1(1) by (simp add: review_and_publish_def)
  next
    case (Inr z)
    then obtain u m2 where m2: "edit_skill k (published_skill now) m1 = Inr (u, m2)" "skill_publish now k m1 = Inr (u, m2)"
      by (cases z) (simp add: skill_publish_def)
    have "writes P m1 m2" by (rule edit_writes(1) [OF m2(1) ok w1(2,3) P edits_same(3)])
    then show ?thesis using r m1(2) m2(2) writes_trans [OF w1(1)] by (simp add: review_and_publish_def)
  qed
qed

lemma owned_seed_kept: "kept_by_edits (owned_seed i)"
  by (simp add: kept_by_edits_def same_skill_def owned_seed_def)

text \<open>The installation of a seed changes one record, which has the place, name and author of the seed.\<close>

definition seeds :: "skill_input \<Rightarrow> string \<Rightarrow> skill_store \<Rightarrow> skill_store \<Rightarrow> bool" where
  "seeds i uid m m' \<longleftrightarrow> changes (owned_seed i) m m' \<and> store_ok m' \<and> (\<forall>k. mm_get m' k \<noteq> None \<longrightarrow> mm_get m k \<noteq> None \<or> k = uid)"

lemma seeds_same: "store_ok m \<Longrightarrow> seeds i uid m m"
  by (simp add: seeds_def changes_refl)

lemma seeds_writes: "writes (owned_seed i) m m' \<Longrightarrow> seeds i uid m m'"
  by (auto simp: seeds_def writes_def)

lemma review_publish_seed:
  assumes "snd (review_and_publish env now k rv caps m) = m'" "store_ok m" "mm_get m k = Some s" "owned_seed i s"
  shows "writes (owned_seed i) m m'"
  using review_publish_writes [OF _ assms(2-4) owned_seed_kept] assms(1) by (metis prod.collapse)

lemma upsert_new:
  assumes u: "upsertSeedSkill env uid now rv i m = (r, m')" and m: "store_ok m" and fresh: "mm_get m uid = None"
    and none: "find (owned_seed i) (mm_all m) = None"
  shows "seeds i uid m m'"
proof (cases "foreignSkillCollision (mm_all m) (in_scopeId i) (sm_name (in_manifest i)) (in_createdBy i) \<noteq> None \<or> isl (skill_create env uid now i m)")
  case True
  then have "m' = m" using u none by (auto simp: upsertSeedSkill_def Let_def isl_def split: if_splits)
  then show ?thesis using seeds_same [OF m] by simp
next
  case False
  then obtain s m1 where c: "skill_create env uid now i m = Inr (s, m1)" by (cases "skill_create env uid now i m") auto
  have s: "m1 = put_skill s m" "sk_id s = uid" "owned_seed i s"
    using c by (auto simp: skill_create_def created_skill_def owned_seed_def split: if_splits)
  have ch: "changes (owned_seed i) m m1" unfolding s(1) by (rule changes_put) (use fresh s in auto)
  have ok: "store_ok m1" "mm_get m1 uid = Some s" using store_ok_put [OF m, of s] s(2) by (simp_all add: s(1) put_skill_def)
  have "snd (review_and_publish env now uid rv (sm_requiredCapabilities (in_manifest i)) m1) = m'"
    using u none False c s(2) by (auto simp: upsertSeedSkill_def Let_def outcome_of_def)
  then have w: "writes (owned_seed i) m1 m'" using ok s(3) by (rule review_publish_seed)
  have "{k. mm_get m1 k \<noteq> None} = insert uid {k. mm_get m k \<noteq> None}" by (auto simp: s(1,2) put_skill_def)
  with w ch changes_trans show ?thesis unfolding writes_def seeds_def by blast
qed

lemma upsert_existing:
  assumes u: "upsertSeedSkill env uid now rv i m = (r, m')" and m: "store_ok m" and found: "find (owned_seed i) (mm_all m) = Some x"
  shows "seeds i uid m m'"
proof -
  let ?caps = "sm_requiredCapabilities (in_manifest i)"
  have x: "mm_get m (sk_id x) = Some x" "owned_seed i x" using find_live(1) [OF found] store_ok_get [OF m] by simp_all
  consider "m' = m" | "snd (review_and_publish env now (sk_id x) rv ?caps m) = m'" |
    t m1 where "skill_update env now (sk_id x) (in_manifest i) m = Inr (t, m1)" "snd (review_and_publish env now (sk_id x) rv ?caps m1) = m'"
    using u found by (auto simp: upsertSeedSkill_def Let_def outcome_of_def split: if_splits sum.splits prod.splits)
  then show ?thesis
  proof cases
    case 1
    then show ?thesis using seeds_same [OF m] by simp
  next
    case 2
    then show ?thesis using seeds_writes review_publish_seed m x by blast
  next
    case (3 t m1)
    then have t: "edit_skill (sk_id x) (updated_skill env now (in_manifest i)) m = Inr (t, m1)" by (simp add: skill_update_def split: if_splits)
    have w1: "writes (owned_seed i) m m1" "mm_get m1 (sk_id x) = Some t" "owned_seed i t"
      by (rule edit_writes [OF t m x owned_seed_kept], erule edits_same(1))+
    have ok: "store_ok m1" using w1(1) by (simp add: writes_def)
    show ?thesis using seeds_writes writes_trans [OF w1(1) review_publish_seed [OF 3(2) ok w1(2,3)]] by blast
  qed
qed

lemma upsert_seeds:
  "upsertSeedSkill env uid now rv i m = (r, m') \<Longrightarrow> store_ok m \<Longrightarrow> mm_get m uid = None \<Longrightarrow> seeds i uid m m'"
  using upsert_new upsert_existing by (cases "find (owned_seed i) (mm_all m)") blast+

definition pack_skill :: "import_context \<Rightarrow> (string \<times> skill_manifest) list \<Rightarrow> skill \<Rightarrow> bool" where
  "pack_skill ctx ws s \<longleftrightarrow> sk_createdBy s = pack_author (sp_id (ix_pack ctx)) \<and> sk_scopeId s = ix_targetScopeId ctx \<and>
     sm_name (sk_manifest s) \<in> (\<lambda>w. sm_name (snd w)) ` set ws"

lemma write_skills_changes:
  assumes "write_skills env uid now ctx commit k ws r m = (res, m')" "store_ok m" "inj uid" "\<forall>j \<ge> k. mm_get m (uid j) = None"
  shows "changes (pack_skill ctx ws) m m' \<and> store_ok m' \<and> (\<forall>i. mm_get m' i \<noteq> None \<longrightarrow> mm_get m i \<noteq> None \<or> i \<in> range uid)"
  using assms
proof (induction ws arbitrary: k r m)
  case Nil
  then show ?case by (simp add: changes_refl)
next
  case (Cons w ws)
  obtain up man where w: "w = (up, man)" by (cases w)
  let ?i = "pack_skill_input ctx commit up man"
  obtain out m1 where o: "upsertSeedSkill env (uid k) now PACK_REVIEWER ?i m = (out, m1)"
    by (cases "upsertSeedSkill env (uid k) now PACK_REVIEWER ?i m")
  have s: "seeds ?i (uid k) m m1" by (rule upsert_seeds [OF o Cons.prems(2)]) (use Cons.prems(4) in simp)
  have ch: "changes (pack_skill ctx (w # ws)) m m1"
    using s by (auto simp: seeds_def owned_seed_def pack_skill_input_def pack_skill_def w intro: changes_mono)
  have ok: "store_ok m1" and dom: "\<forall>i. mm_get m1 i \<noteq> None \<longrightarrow> mm_get m i \<noteq> None \<or> i \<in> range uid" using s unfolding seeds_def by blast+
  show ?case
  proof (cases out)
    case (Inl e)
    then show ?thesis using Cons.prems(1) o w ch ok dom by simp
  next
    case (Inr oc)
    have "mm_get m1 (uid j) = None" if "Suc k \<le> j" for j
      using s Cons.prems(3,4) that unfolding seeds_def by (metis Suc_leD Suc_n_not_le_n injD)
    then have "changes (pack_skill ctx ws) m1 m' \<and> store_ok m' \<and> (\<forall>i. mm_get m' i \<noteq> None \<longrightarrow> mm_get m1 i \<noteq> None \<or> i \<in> range uid)"
      using Cons.IH [OF _ ok Cons.prems(3)] Cons.prems(1) o w Inr by simp
    moreover from this have "changes (pack_skill ctx (w # ws)) m1 m'" by (auto simp: pack_skill_def intro: changes_mono)
    ultimately show ?thesis using ch dom changes_trans by blast
  qed
qed

text \<open>What it takes for a skill of a repository to be written.\<close>

lemma to_write_eligible:
  assumes "(up, man) \<in> set (to_write ell repo ctx)"
  shows "\<exists>f n. f \<in> set (fr_files repo) \<and> skill_selected (sp_config (ix_pack ctx)) f \<and>
    normalizeSkill ell (sp_config (ix_pack ctx)) (rf_text f) (rf_path f) = Some n \<and> sm_name man = sm_name (ns_manifest n) \<and>
    \<not> ns_private n \<and> isOrgEligibleScope (ns_scopeHint n) \<and> sm_name man \<notin> set (ix_nativeNames ctx) \<and> wanted ctx up \<and>
    up = ic_upstreamName (candidate_of ell repo (sp_config (ix_pack ctx)) (ix_nativeNames ctx) f)"
proof -
  let ?cfg = "sp_config (ix_pack ctx)" and ?nat = "ix_nativeNames ctx"
  obtain f n where f: "f \<in> set (fr_files repo)" "skill_selected ?cfg f" "ic_normalized (candidate_of ell repo ?cfg ?nat f) = Some n"
      "ic_eligible (candidate_of ell repo ?cfg ?nat f)" "wanted ctx up" "up = ic_upstreamName (candidate_of ell repo ?cfg ?nat f)"
      "sm_name man = sm_name (ns_manifest n)"
    using assms by (auto simp: to_write_def planIngest_def List.map_filter_def split: option.splits if_splits)
  then have n: "normalizeSkill ell ?cfg (rf_text f) (rf_path f) = Some n"
      "exclusion repo ?nat (skillDirOf (rf_path f)) n = None"
    by (auto simp: candidate_of_def Let_def ic_eligible_def split: option.splits)
  then have "\<not> ns_private n" "isOrgEligibleScope (ns_scopeHint n)" "sm_name (ns_manifest n) \<notin> set ?nat"
    by (auto simp: exclusion_def split: if_splits)
  then show ?thesis using f n(1) by metis
qed

lemma detect_collisions_Nil: "detect_collisions seen ps claimed = [] \<Longrightarrow> p \<in> set ps \<Longrightarrow> p \<notin> set seen \<Longrightarrow> claimed p = None"
  by (induction ps arbitrary: seen) (auto split: option.splits if_splits)

lemma those_map_all: "those (map f xs) = Some ys \<Longrightarrow> x \<in> set xs \<Longrightarrow> \<exists>y \<in> set ys. f x = Some y"
  by (induction xs arbitrary: ys) (auto split: option.splits)

lemma import_checks_ok:
  assumes "import_checks ctx ws = None" "(up, man) \<in> set ws"
  shows "isSafeSkillName (sm_name man)"
    "ix_claimedPaths ctx = Some cl \<Longrightarrow> p \<in> set (persistedSkillRecordPaths (sm_name man) (sm_files man)) \<Longrightarrow> cl p = None"
proof -
  obtain ps where ps: "incoming_skill_paths ws = Some ps" using assms(1) by (auto simp: import_checks_def split: option.splits)
  then obtain pss where pss: "those (map (\<lambda>(u, man). skillRecordPaths (sm_name man) (sm_files man)) ws) = Some pss" "ps = concat pss"
    by (auto simp: incoming_skill_paths_def)
  obtain y where y: "y \<in> set pss" "skillRecordPaths (sm_name man) (sm_files man) = Some y" using those_map_all [OF pss(1) assms(2)] by auto
  then show "isSafeSkillName (sm_name man)" by (simp add: skillRecordPaths_def split: if_splits)
  assume "ix_claimedPaths ctx = Some cl" "p \<in> set (persistedSkillRecordPaths (sm_name man) (sm_files man))"
  moreover from this(2) have "p \<in> set ps" using y pss(2) by (auto simp: persistedSkillRecordPaths_def)
  ultimately show "cl p = None" using assms(1) ps detect_collisions_Nil [of "[]" _ cl p]
    by (auto simp: import_checks_def Let_def detectPathCollisions_def split: if_splits)
qed

lemma importPack_changes:
  assumes "importPack env ell uid now repo ctx m = (res, m')" "store_ok m" "inj uid" "\<forall>j. mm_get m (uid j) = None"
  shows "changes (pack_skill ctx (to_write ell repo ctx)) m m'" "store_ok m'" "m' \<noteq> m \<Longrightarrow> import_checks ctx (to_write ell repo ctx) = None"
    "res = Inr (r, kept) \<Longrightarrow> kept = map fst (to_write ell repo ctx)"
    "\<forall>i. mm_get m' i \<noteq> None \<longrightarrow> mm_get m i \<noteq> None \<or> i \<in> range uid"
proof -
  let ?ws = "to_write ell repo ctx" and ?r = "\<lparr> ir_imported = [], ir_updated = [], ir_skipped = [] \<rparr>"
  have "changes (pack_skill ctx ?ws) m m' \<and> store_ok m' \<and> (m' \<noteq> m \<longrightarrow> import_checks ctx ?ws = None) \<and>
      (\<forall>i. mm_get m' i \<noteq> None \<longrightarrow> mm_get m i \<noteq> None \<or> i \<in> range uid)"
  proof (cases "import_checks ctx ?ws")
    case None
    then obtain r1 where "write_skills env uid now ctx (fr_commit repo) 0 ?ws ?r m = (r1, m')"
      using assms(1) by (auto simp: importPack_def Let_def split: prod.splits sum.splits)
    then show ?thesis using write_skills_changes [OF _ assms(2,3)] assms(4) None by blast
  next
    case (Some e)
    then show ?thesis using assms(1,2) by (simp add: importPack_def Let_def changes_refl)
  qed
  then show "changes (pack_skill ctx ?ws) m m'" "store_ok m'" "m' \<noteq> m \<Longrightarrow> import_checks ctx ?ws = None"
    "\<forall>i. mm_get m' i \<noteq> None \<longrightarrow> mm_get m i \<noteq> None \<or> i \<in> range uid" by blast+
  show "res = Inr (r, kept) \<Longrightarrow> kept = map fst ?ws"
    using assms(1) by (auto simp: importPack_def Let_def split: option.splits prod.splits sum.splits)
qed

text \<open>A record of the pack in a scope.\<close>

definition of_pack :: "string \<Rightarrow> scope_id set \<Rightarrow> skill \<Rightarrow> bool" where
  "of_pack packId S s \<longleftrightarrow> sk_createdBy s = pack_author packId \<and> sk_scopeId s \<in> S"

lemma of_pack_kept: "kept_by_edits (of_pack packId S)"
  by (simp add: kept_by_edits_def same_skill_def of_pack_def)

lemma archive_or_same_writes:
  assumes "store_ok m" "P s" "kept_by_edits P" "mm_get m (sk_id s) = Some t" "P t"
  shows "writes P m (archive_or_same now s m)" "\<exists>a. mm_get (archive_or_same now s m) (sk_id s) = Some a \<and> sk_status a = Archived"
    "k \<noteq> sk_id s \<Longrightarrow> mm_get (archive_or_same now s m) k = mm_get m k"
proof -
  obtain a where a: "archived_skill now t = Inr a" "sk_status a = Archived" by (simp add: archived_skill_def)
  have e: "edit_skill (sk_id s) (archived_skill now) m = Inr (a, put_skill a m)" using assms(4) a(1) by (simp add: edit_skill_def)
  have s: "archive_or_same now s m = put_skill a m" by (simp add: archive_or_same_def skill_archive_def e)
  have "same_skill t a" using edits_same(4) a(1) by blast
  then have id: "sk_id a = sk_id s" using assms(1,4) by (simp add: same_skill_def store_ok_def)
  show "writes P m (archive_or_same now s m)" unfolding s by (rule edit_writes(1) [OF e assms(1,4,5,3)]) (erule edits_same(4))
  show "\<exists>a. mm_get (archive_or_same now s m) (sk_id s) = Some a \<and> sk_status a = Archived"
    "k \<noteq> sk_id s \<Longrightarrow> mm_get (archive_or_same now s m) k = mm_get m k" using a(2) id by (simp_all add: s put_skill_def)
qed

lemma fold_archives:
  assumes "store_ok m" "kept_by_edits P" "\<forall>s \<in> set ss. P s \<and> (\<exists>t. mm_get m (sk_id s) = Some t \<and> P t)"
  shows "writes P m (fold (archive_or_same now) ss m) \<and>
    (\<forall>k t. mm_get (fold (archive_or_same now) ss m) k = Some t \<longrightarrow> sk_status t = Archived \<or> k \<notin> sk_id ` set ss \<and> mm_get m k = Some t)"
  using assms
proof (induction ss arbitrary: m)
  case Nil
  then show ?case by (simp add: writes_refl)
next
  case (Cons s ss)
  obtain t where t: "mm_get m (sk_id s) = Some t" "P t" "P s" using Cons.prems(3) by auto
  let ?m = "archive_or_same now s m"
  note A = archive_or_same_writes [OF Cons.prems(1) t(3) Cons.prems(2) t(1,2)]
  have ok: "store_ok ?m" using A(1) by (simp add: writes_def)
  have later: "\<forall>x \<in> set ss. P x \<and> (\<exists>t. mm_get ?m (sk_id x) = Some t \<and> P t)"
  proof
    fix x assume x: "x \<in> set ss"
    then obtain y where y: "P x" "mm_get m (sk_id x) = Some y" "P y" using Cons.prems(3) by auto
    then have "mm_get ?m (sk_id x) \<noteq> None" using A(1) by (auto simp: writes_def)
    then obtain z where z: "mm_get ?m (sk_id x) = Some z" by blast
    have "P z" using A(1) y z unfolding writes_def changes_def by (metis option.inject)
    then show "P x \<and> (\<exists>t. mm_get ?m (sk_id x) = Some t \<and> P t)" using y z by blast
  qed
  note I = Cons.IH [OF ok Cons.prems(2) later]
  have "writes P m (fold (archive_or_same now) (s # ss) m)" using writes_trans [OF A(1) conjunct1 [OF I]] by simp
  moreover have "sk_status u = Archived \<or> k \<notin> sk_id ` set (s # ss) \<and> mm_get m k = Some u"
    if u: "mm_get (fold (archive_or_same now) (s # ss) m) k = Some u" for k u
  proof (cases "sk_status u = Archived")
    case False
    have "mm_get (fold (archive_or_same now) ss ?m) k = Some u" using u by simp
    then have k: "k \<notin> sk_id ` set ss" "mm_get ?m k = Some u" using conjunct2 [OF I, rule_format, of k u] False by blast+
    have "k \<noteq> sk_id s" using A(2) [of now] k(2) False by auto
    then show ?thesis using k A(3) [of k now] by simp
  qed simp
  ultimately show ?case by blast
qed

lemma archiveRemoved_result:
  assumes "archiveRemoved now packId sid kept m = (gone, m')" "store_ok m"
  shows "writes (of_pack packId {sid}) m m'" "mm_get m' k = Some s \<Longrightarrow> \<not> removed_upstream packId sid kept s"
proof -
  let ?ss = "filter (removed_upstream packId sid kept) (mm_all m)"
  have m': "m' = fold (archive_or_same now) ?ss m" using assms(1) by (simp add: archiveRemoved_def Let_def)
  have pre: "\<forall>s \<in> set ?ss. of_pack packId {sid} s \<and> (\<exists>t. mm_get m (sk_id s) = Some t \<and> of_pack packId {sid} t)"
    using store_ok_get [OF assms(2)] by (auto simp: removed_upstream_def of_pack_def)
  note F = fold_archives [OF assms(2) of_pack_kept pre, of now, folded m']
  show "writes (of_pack packId {sid}) m m'" using F by blast
  show "\<not> removed_upstream packId sid kept s" if "mm_get m' k = Some s"
  proof
    assume r: "removed_upstream packId sid kept s"
    then have "k \<notin> sk_id ` set ?ss" "mm_get m k = Some s" using F that by (auto simp: removed_upstream_def)
    moreover from this(2) have "sk_id s = k" "s \<in> set (mm_all m)" using assms(2)
      by (auto simp: store_ok_def mm_all_def mm_entries_def mm_get_def dest: map_of_SomeD intro: image_eqI [where x = "(k, s)"])
    ultimately show False using r by (auto simp: image_iff)
  qed
qed

lemma changes_keep:
  assumes "changes P m m'" "mm_get m' k = Some s" "\<not> P s"
  shows "mm_get m k = Some s"
  using assms unfolding changes_def by metis

lemma writes_of_pack: "writes (of_pack packId {sid}) m m' \<Longrightarrow> sid \<in> S \<Longrightarrow> changes (of_pack packId S) m m'"
  unfolding writes_def by (auto simp: of_pack_def intro: changes_mono)

lemma target_writes_of_pack:
  "ix_pack ctx = pack \<Longrightarrow> ix_targetScopeId ctx = sid \<Longrightarrow> changes (pack_skill ctx ws) m m' \<Longrightarrow> sid \<in> S \<Longrightarrow> changes (of_pack (sp_id pack) S) m m'"
  by (auto simp: of_pack_def pack_skill_def intro: changes_mono)

lemma target_context_sel [simp]:
  "ix_pack (target_context pack b sid sel m) = pack" "ix_targetScopeId (target_context pack b sid sel m) = sid"
  "ix_selected (target_context pack b sid sel m) = sel" "ix_nativeNames (target_context pack b sid sel m) = nativeNamesFor m (sp_id pack) sid"
  by (simp_all add: target_context_def)

text \<open>The names that a repository gives its skills, and what is gone from it.\<close>

definition upstream_names :: "fetched_repo \<Rightarrow> pack_config option \<Rightarrow> string set" where
  "upstream_names repo cfg = (\<lambda>f. let dir = skillDirOf (rf_path f) in if lastSegment dir = [] then lastSegment (rf_path f) else lastSegment dir)
     ` {f \<in> set (fr_files repo). skill_selected cfg f}"

definition mirrors :: "skill_pack \<Rightarrow> fetched_repo \<Rightarrow> scope_id \<Rightarrow> string list option \<Rightarrow> skill_store \<Rightarrow> bool" where
  "mirrors pack repo sid selected m \<longleftrightarrow>
     (\<forall>k s p. mm_get m k = Some s \<and> of_pack (sp_id pack) {sid} s \<and> sk_status s \<noteq> Archived \<and> sk_pack s = Some p \<and> pk_upstreamName p \<noteq> [] \<longrightarrow>
        pk_upstreamName p \<in> upstream_names repo (sp_config pack) \<and> (\<forall>xs. selected = Some xs \<longrightarrow> pk_upstreamName p \<in> set xs))"

lemma kept_upstream:
  assumes "u \<in> fst ` set (to_write ell repo ctx)" "ix_pack ctx = pack"
  shows "u \<in> upstream_names repo (sp_config pack)" "ix_selected ctx = Some xs \<Longrightarrow> u \<in> set xs"
proof -
  obtain man where "(u, man) \<in> set (to_write ell repo ctx)" using assms(1) by auto
  from to_write_eligible [OF this] obtain f where f: "f \<in> set (fr_files repo)" "skill_selected (sp_config pack) f" "wanted ctx u"
    "u = ic_upstreamName (candidate_of ell repo (sp_config pack) (ix_nativeNames ctx) f)" using assms(2) by blast
  then show "u \<in> upstream_names repo (sp_config pack)" by (auto simp: upstream_names_def candidate_of_def Let_def split: option.splits)
  show "ix_selected ctx = Some xs \<Longrightarrow> u \<in> set xs" using f(3) by (simp add: wanted_def)
qed

lemma mirrors_after_archive:
  assumes "archiveRemoved now (sp_id pack) sid (map fst (to_write ell repo ctx)) m = (gone, m')" "store_ok m" "ix_pack ctx = pack"
    "ix_selected ctx = selected"
  shows "mirrors pack repo sid selected m'"
  unfolding mirrors_def
proof (intro allI impI)
  fix k s p assume s: "mm_get m' k = Some s \<and> of_pack (sp_id pack) {sid} s \<and> sk_status s \<noteq> Archived \<and> sk_pack s = Some p \<and> pk_upstreamName p \<noteq> []"
  have "\<not> removed_upstream (sp_id pack) sid (map fst (to_write ell repo ctx)) s" by (rule archiveRemoved_result(2) [OF assms(1,2)]) (use s in blast)
  then have "pk_upstreamName p \<in> fst ` set (to_write ell repo ctx)" using s by (auto simp: removed_upstream_def of_pack_def)
  then show "pk_upstreamName p \<in> upstream_names repo (sp_config pack) \<and> (\<forall>xs. selected = Some xs \<longrightarrow> pk_upstreamName p \<in> set xs)"
    using kept_upstream assms(3,4) by blast
qed

lemma mirrors_kept:
  assumes "mirrors pack repo sid selected m" "changes (of_pack (sp_id pack) S) m m'" "sid \<notin> S"
  shows "mirrors pack repo sid selected m'"
proof -
  have "mm_get m k = Some s" if "mm_get m' k = Some s" "of_pack (sp_id pack) {sid} s" for k s
    using changes_keep [OF assms(2) that(1)] that(2) assms(3) by (auto simp: of_pack_def)
  then show ?thesis using assms(1) unfolding mirrors_def by blast
qed

lemma fresh_later:
  assumes "inj (\<lambda>(a, b). uid a b)" "\<forall>a \<ge> j. \<forall>b. mm_get m (uid a b) = None"
    "\<forall>i. mm_get m1 i \<noteq> None \<longrightarrow> mm_get m i \<noteq> None \<or> i \<in> range (uid j)" "{k. mm_get m2 k \<noteq> None} = {k. mm_get m1 k \<noteq> None}"
  shows "\<forall>a \<ge> Suc j. \<forall>b. mm_get m2 (uid a b) = None"
proof (intro allI impI, rule ccontr)
  fix a b assume a: "Suc j \<le> a" "mm_get m2 (uid a b) \<noteq> None"
  then have "mm_get m1 (uid a b) \<noteq> None" "mm_get m (uid a b) = None" using assms(2,4) by (blast, simp)
  then obtain c where "uid a b = uid j c" using assms(3) by blast
  then have "a = j" using injD [OF assms(1), of "(a, b)" "(j, c)"] by simp
  then show False using a(1) by simp
qed

lemma reconcile_targets_result:
  assumes "reconcile_targets env uid now pack repo bundle j ts t m = (res, m')" "store_ok m"
    "inj (\<lambda>(a, b). uid a b)" "\<forall>a \<ge> j. \<forall>b. mm_get m (uid a b) = None"
  shows "changes (of_pack (sp_id pack) (fst ` set ts)) m m' \<and> store_ok m' \<and>
    (\<not> isl res \<and> distinct (map fst ts) \<longrightarrow> (\<forall>(sid, selected) \<in> set ts. mirrors pack repo sid selected m'))"
  using assms
proof (induction ts arbitrary: j t m)
  case Nil
  then show ?case by (simp add: changes_refl)
next
  case (Cons x ts)
  obtain sid selected where x: "x = (sid, selected)" by (cases x)
  let ?ctx = "target_context pack bundle sid selected m" and ?P = "of_pack (sp_id pack) (fst ` set (x # ts))"
  obtain ires m1 where i: "importPack (pe_skills env) (pe_ellipsis env) (uid j) now repo ?ctx m = (ires, m1)"
    by (cases "importPack (pe_skills env) (pe_ellipsis env) (uid j) now repo ?ctx m")
  have inj: "inj (uid j)" using Cons.prems(3) by (auto simp: inj_def)
  note I = importPack_changes [OF i Cons.prems(2) inj]
  have fresh: "\<forall>b. mm_get m (uid j b) = None" using Cons.prems(4) by simp
  have ch1: "changes ?P m m1" by (rule target_writes_of_pack [of ?ctx pack sid, OF _ _ I(1) [OF fresh]]) (simp_all add: x)
  show ?case
  proof (cases ires)
    case (Inl e)
    then show ?thesis using Cons.prems(1) x i ch1 I(2) [OF fresh] by auto
  next
    case (Inr y)
    then obtain r kept where y: "ires = Inr (r, kept)" by (cases y) auto
    have kept: "kept = map fst (to_write (pe_ellipsis env) repo ?ctx)" using I(4) [OF fresh y] .
    obtain gone m2 where g: "archiveRemoved now (sp_id pack) sid kept m1 = (gone, m2)" by (cases "archiveRemoved now (sp_id pack) sid kept m1")
    note A = archiveRemoved_result(1) [OF g I(2) [OF fresh]]
    have ch2: "changes ?P m1 m2" using writes_of_pack [OF A] by (simp add: x)
    have ok2: "store_ok m2" and dom2: "{k. mm_get m2 k \<noteq> None} = {k. mm_get m1 k \<noteq> None}" using A by (simp_all add: writes_def)
    have later: "\<forall>a \<ge> Suc j. \<forall>b. mm_get m2 (uid a b) = None" by (rule fresh_later [OF Cons.prems(3,4) I(5) [OF fresh] dom2])
    note IH = Cons.IH [OF _ ok2 Cons.prems(3), of "Suc j" "add_totals r gone t"]
    have rest: "changes (of_pack (sp_id pack) (fst ` set ts)) m2 m' \<and> store_ok m' \<and>
        (\<not> isl res \<and> distinct (map fst ts) \<longrightarrow> (\<forall>(sid, selected) \<in> set ts. mirrors pack repo sid selected m'))"
      by (rule IH [OF _ later]) (use Cons.prems(1) x i y g in simp)
    have "changes ?P m2 m'" using rest by (auto simp: of_pack_def intro: changes_mono)
    moreover have "mirrors pack repo sid selected m2" by (rule mirrors_after_archive [OF g [unfolded kept] I(2) [OF fresh]]) simp_all
    then have "mirrors pack repo sid selected m'" if "sid \<notin> fst ` set ts" using mirrors_kept [OF _ conjunct1 [OF rest] that] by blast
    ultimately show ?thesis using rest changes_trans [OF ch1 changes_trans [OF ch2]] x by auto
  qed
qed

section \<open>Properties\<close>


text \<open>
  An import admits only what may be shared. A skill that an import writes or changes has a safe name that
  no other author uses in the scope, comes from a file of the repository that the globs of the pack select
  and that is neither private nor scoped to a person, was asked for by the selection and by the pack, and
  lays none of its files on a path that a published skill of another author claims. A repository with a
  name or a path that may not be used is refused before anything is written.
\<close>

theorem import_admits_eligible:
  assumes "importPack env ell uid now repo ctx m = (res, m')" "store_ok m" "inj uid" "\<forall>j. mm_get m (uid j) = None"
  shows "(\<forall>k s. mm_get m' k = Some s \<and> mm_get m k \<noteq> Some s \<longrightarrow>
      (\<exists>up man f n. (up, man) \<in> set (to_write ell repo ctx) \<and> sm_name (sk_manifest s) = sm_name man \<and> isSafeSkillName (sm_name man) \<and>
         sm_name man \<notin> set (ix_nativeNames ctx) \<and> f \<in> set (fr_files repo) \<and> skill_selected (sp_config (ix_pack ctx)) f \<and>
         normalizeSkill ell (sp_config (ix_pack ctx)) (rf_text f) (rf_path f) = Some n \<and> sm_name (ns_manifest n) = sm_name man \<and>
         \<not> ns_private n \<and> isOrgEligibleScope (ns_scopeHint n) \<and> wanted ctx up \<and>
         (\<forall>cl. ix_claimedPaths ctx = Some cl \<longrightarrow> (\<forall>p \<in> set (persistedSkillRecordPaths (sm_name man) (sm_files man)). cl p = None)))) \<and>
    (import_checks ctx (to_write ell repo ctx) \<noteq> None \<longrightarrow> m' = m)"
proof -
  note I = importPack_changes [OF assms]
  let ?ws = "to_write ell repo ctx"
  have H: "\<exists>up man f n. (up, man) \<in> set ?ws \<and> sm_name (sk_manifest s) = sm_name man \<and> isSafeSkillName (sm_name man) \<and>
       sm_name man \<notin> set (ix_nativeNames ctx) \<and> f \<in> set (fr_files repo) \<and> skill_selected (sp_config (ix_pack ctx)) f \<and>
       normalizeSkill ell (sp_config (ix_pack ctx)) (rf_text f) (rf_path f) = Some n \<and> sm_name (ns_manifest n) = sm_name man \<and>
       \<not> ns_private n \<and> isOrgEligibleScope (ns_scopeHint n) \<and> wanted ctx up \<and>
       (\<forall>cl. ix_claimedPaths ctx = Some cl \<longrightarrow> (\<forall>p \<in> set (persistedSkillRecordPaths (sm_name man) (sm_files man)). cl p = None))"
    if s: "mm_get m' k = Some s" "mm_get m k \<noteq> Some s" for k s
  proof -
    have "m' \<noteq> m" using s by auto
    then have ok: "import_checks ctx ?ws = None" by (rule I(3))
    have "pack_skill ctx ?ws s" using changes_keep [OF I(1) s(1)] s(2) by blast
    then obtain up man where w: "(up, man) \<in> set ?ws" "sm_name (sk_manifest s) = sm_name man" by (auto simp: pack_skill_def)
    show ?thesis using to_write_eligible [OF w(1)] import_checks_ok [OF ok w(1)] w by metis
  qed
  have "m' = m" if "import_checks ctx ?ws \<noteq> None" using I(3) that by (rule contrapos_np [rotated])
  then show ?thesis by (intro conjI allI impI H) (elim conjE, assumption | simp | blast)+
qed

section \<open>Two repositories\<close>

definition demo_uid :: "nat \<Rightarrow> nat \<Rightarrow> string" where
  "demo_uid a b = replicate a CHR ''a'' @ CHR ''x'' # replicate b CHR ''b''"

lemma demo_uid_inj: "inj (\<lambda>(a, b). demo_uid a b)"
proof (rule injI, clarify)
  fix a b c d assume e: "demo_uid a b = demo_uid c d"
  have t: "takeWhile (\<lambda>x. x = CHR ''a'') (demo_uid n k) = replicate n CHR ''a''" for n k
    unfolding demo_uid_def by (subst takeWhile_append2) (auto simp: takeWhile_replicate)
  have "replicate a CHR ''a'' = replicate c CHR ''a''" using t [of a b] t [of c d] e by simp
  then have "a = c" by (metis length_replicate)
  with e show "a = c \<and> b = d" by (simp add: demo_uid_def replicate_eq_replicate)
qed

definition demo_text :: "string \<Rightarrow> string" where
  "demo_text body = ''---'' @ [CHR 0x0A] @ ''name: deploy'' @ [CHR 0x0A] @ ''egress: [h]'' @ [CHR 0x0A] @ ''---'' @ [CHR 0x0A] @ body"

definition demo_file :: "string \<Rightarrow> string \<Rightarrow> repo_file" where
  "demo_file path text = \<lparr> rf_path = path, rf_text = text, rf_binary = False \<rparr>"

definition demo_pack :: skill_pack where
  "demo_pack = \<lparr> sp_id = ''p1'', sp_url = ''u'', sp_ref = ''main'', sp_syncMode = Tracked, sp_trustTier = InternalPack, sp_config = None,
     sp_targetScopeId = ''org:o'', sp_subset = None, sp_authCredentialSlug = None, sp_createdBy = ''ann'', sp_createdAt = 0,
     sp_lastImport = None, sp_updateAvailable = False, sp_available = None \<rparr>"

definition demo_registry :: registry where
  "demo_registry = \<lparr> rg_skills = put_skill (demo_published ''channel:c'') mm_empty, rg_packs = mm_put ''p1'' demo_pack mm_empty, rg_bundles = mm_empty \<rparr>"

definition demo_pack_env :: pack_env where
  "demo_pack_env = \<lparr> pe_skills = demo_skills, pe_ellipsis = CHR ''~'', pe_sha256 = id, pe_message = (\<lambda>_. ''failed'') \<rparr>"

definition demo_repo :: fetched_repo where
  "demo_repo = \<lparr> fr_commit = ''c1'', fr_files = [demo_file ''ship/SKILL.md'' (demo_text ''Do it.''), demo_file ''ship/run.sh'' ''true''] \<rparr>"

definition demo_sync :: "(reconcile_error + import_totals) \<times> registry" where
  "demo_sync = applyFetched demo_pack_env demo_uid 9 demo_pack demo_repo [(''org:o'', None)] demo_registry"

lemma demo_registry_ok: "store_ok (rg_skills demo_registry)" "mm_get (rg_skills demo_registry) (demo_uid a b) = None"
proof -
  have id: "sk_id (demo_published ''channel:c'') = ''s1''" by code_simp
  have "''s1'' \<noteq> demo_uid a b" by (cases a) (auto simp: demo_uid_def)
  then show "mm_get (rg_skills demo_registry) (demo_uid a b) = None" by (auto simp: demo_registry_def put_skill_def id)
  show "store_ok (rg_skills demo_registry)"
    by (auto simp: demo_registry_def store_ok_def put_skill_def mm_put_def mm_invar_def mm_empty_def mm_get_def id)
qed


definition demo_import :: "fetched_repo \<Rightarrow> skill_store \<Rightarrow> (import_error + import_result \<times> string list) \<times> skill_store" where
  "demo_import repo m = importPack demo_skills CHR ''~'' (demo_uid 0) 9 repo (target_context demo_pack [] ''org:o'' None m) m"

theorem import_admits_eligible_witness:
  "\<exists>n. normalizeSkill CHR ''~'' None (demo_text ''Do it.'') ''ship/SKILL.md'' = Some n \<and> \<not> ns_private n \<and>
     mm_get (snd (demo_import demo_repo mm_empty)) ''x'' \<noteq> None"
proof -
  let ?ctx = "target_context demo_pack [] ''org:o'' None mm_empty"
  have e: "importPack demo_skills CHR ''~'' (demo_uid 0) 9 demo_repo ?ctx mm_empty = (fst (demo_import demo_repo mm_empty), snd (demo_import demo_repo mm_empty))"
    by (simp add: demo_import_def)
  have ok: "store_ok mm_empty" by (simp add: store_ok_def mm_invar_def mm_empty_def mm_get_def)
  have inj: "inj (demo_uid 0)" using demo_uid_inj by (auto simp: inj_def)
  have x: "mm_get (snd (demo_import demo_repo mm_empty)) ''x'' \<noteq> None" by code_simp
  then obtain s where s: "mm_get (snd (demo_import demo_repo mm_empty)) ''x'' = Some s" by blast
  have c: "mm_get (snd (demo_import demo_repo mm_empty)) ''x'' = Some s \<and> mm_get mm_empty ''x'' \<noteq> Some s" using s by simp
  obtain f n where f: "f \<in> set (fr_files demo_repo)" "skill_selected (sp_config (ix_pack ?ctx)) f"
      "normalizeSkill CHR ''~'' (sp_config (ix_pack ?ctx)) (rf_text f) (rf_path f) = Some n" "\<not> ns_private n"
    using conjunct1 [OF import_admits_eligible [OF e ok inj], rule_format, OF _ c] by auto
  have "\<not> skill_selected None (demo_file ''ship/run.sh'' ''true'')" by code_simp
  with f have "f = demo_file ''ship/SKILL.md'' (demo_text ''Do it.'')" by (auto simp: demo_repo_def demo_pack_def)
  with f(3,4) x show ?thesis by (auto simp: demo_file_def demo_pack_def)
qed

text \<open>
  Two skills of one repository with the same name are not checked against each other: they pass as two
  skills, the second replaces the first, and the next import updates the skill twice again.
\<close>

definition demo_twins :: fetched_repo where
  "demo_twins = \<lparr> fr_commit = ''c1'', fr_files = [demo_file ''a/SKILL.md'' (demo_text ''One.''), demo_file ''b/SKILL.md'' (demo_text ''Two.'')] \<rparr>"

lemma same_name_skills_overwrite:
  "map_option (\<lambda>s. sm_body (sk_manifest s)) (mm_get (snd (demo_import demo_twins mm_empty)) ''x'') = Some ''Two.'' \<and>
   length (snd (demo_import demo_twins mm_empty)) = 1 \<and>
   (case fst (demo_import demo_twins (snd (demo_import demo_twins mm_empty))) of
      Inr (r, kept) \<Rightarrow> ir_updated r = [''deploy'', ''deploy''] \<and> kept = [''a'', ''b''] | Inl _ \<Rightarrow> False)"
  by (intro conjI) code_simp+

end
