(* ===== verification/Skill_Trees.thy ===== *)
theory Skill_Trees
  imports Skills Json_Parse
begin

text \<open>
  Laying skills into the workspace of a turn (\<open>src/skills/materialize.ts\<close>): the index of the skills that are
  visible and the tree of one skill, each with a marker file that says what was laid.

  The workspace is a map from paths to contents; removing a path removes what lies below it. A hash function
  is an argument. The locks around the two operations are left out, so each runs alone. A name that is
  refused ends an operation before it has written anything.
\<close>

type_synonym workspace = "string \<rightharpoonup> string"

definition below :: "string \<Rightarrow> string \<Rightarrow> bool" where
  "below p q \<longleftrightarrow> q = p \<or> js_startsWith q (p @ ''/'')"

definition removeDir :: "string \<Rightarrow> workspace \<Rightarrow> workspace" where
  "removeDir p fs = (\<lambda>q. if below p q then None else fs q)"

definition layFiles :: "(string \<times> string) list \<Rightarrow> workspace \<Rightarrow> workspace" where
  "layFiles entries fs = fold (\<lambda>(p, c) f. f(p \<mapsto> c)) entries fs"

section \<open>What is laid\<close>

definition SKILL_PACKS_DIR :: string where "SKILL_PACKS_DIR = SKILLS_DIR @ ''/.packs''"

definition pack_dir :: "string \<Rightarrow> string" where "pack_dir packId = SKILL_PACKS_DIR @ ''/'' @ packId"

definition renderedBody :: "skill \<Rightarrow> string" where
  "renderedBody s =
     (case sk_pack s of
        None \<Rightarrow> sm_body (sk_manifest s)
      | Some p \<Rightarrow> sm_body (sk_manifest s) @ [CHR 0x0A, CHR 0x0A] @ ''## Pack files'' @ [CHR 0x0A] @
          ''Resolve repository-relative shared-file paths against `'' @ pack_dir (pk_packId p) @ ''/`; pack files never overwrite the workspace root.'')"

definition pack_safe :: "skill \<Rightarrow> bool" where
  "pack_safe s \<longleftrightarrow> (case sk_pack s of None \<Rightarrow> True | Some p \<Rightarrow> isSafeSkillName (pk_packId p))"

definition skills_of :: "(skill option \<times> skill list) list \<Rightarrow> skill list" where
  "skills_of resolved = List.map_filter fst resolved"

definition indexHash :: "(string \<Rightarrow> string) \<Rightarrow> skill list \<Rightarrow> string" where
  "indexHash sha256 ss =
     sha256 (concat (map (\<lambda>e. e @ [CHR 0x0A]) (sort (map (\<lambda>s. sm_name (sk_manifest s) @ [CHR 0x00] @ renderedBody s) ss))))"

definition treeHash :: "(string \<Rightarrow> string) \<Rightarrow> skill \<Rightarrow> skill_bundle list \<Rightarrow> string" where
  "treeHash sha256 s bundles =
     (let files = js_join [CHR 0x00] (sort (map (\<lambda>f. sf_path f @ [CHR 0x00] @ sf_content f @ [CHR 0x00] @ (if sf_executable f then ''1'' else ''0''))
                    (manifest_files (sk_manifest s))));
          folded = js_join [CHR 0x00] (sort (map sb_hash bundles))
      in sha256 (renderedBody s @ [CHR 0x00] @ files @ [CHR 0x00] @ folded))"

text \<open>The entries of the files below a directory, unless their path is refused or a control path.\<close>

definition lay_entry :: "string \<Rightarrow> skill_file \<Rightarrow> (string \<times> string) option" where
  "lay_entry dir f = map_option (\<lambda>p. (p, sf_content f)) (skill_file_path dir f)"

definition skill_entries :: "string \<Rightarrow> skill \<Rightarrow> (string \<times> string) list" where
  "skill_entries dir s = (dir @ ''/SKILL.md'', renderedBody s) # List.map_filter (lay_entry dir) (manifest_files (sk_manifest s))"

definition bundle_entries :: "skill_bundle list \<Rightarrow> (string \<times> string) list" where
  "bundle_entries bundles = concat (map (\<lambda>b. List.map_filter (lay_entry (pack_dir (sb_packId b))) (sb_files b)) bundles)"

definition sorted_paths :: "string list \<Rightarrow> string list" where
  "sorted_paths ps = sort (jset_of ps)"

definition guardedSkillPaths :: "string \<Rightarrow> skill \<Rightarrow> string list" where
  "guardedSkillPaths dir s =
     sorted_paths ((dir @ ''/SKILL.md'') # List.map_filter (skill_file_path dir) (manifest_files (sk_manifest s)))"

definition guardedBundlePaths :: "skill_bundle list \<Rightarrow> string list" where
  "guardedBundlePaths bundles =
     sorted_paths (concat (map (\<lambda>b. List.map_filter (skill_file_path (pack_dir (sb_packId b))) (sb_files b)) bundles))"

section \<open>Markers\<close>

definition parsedMarker :: "string option \<Rightarrow> (json \<times> string) option" where
  "parsedMarker raw =
     (case raw of
        None \<Rightarrow> None
      | Some s \<Rightarrow>
          if \<not> js_startsWith s ''{'' then None
          else case json_parse s of
                 None \<Rightarrow> None
               | Some j \<Rightarrow> if json_get ''version'' j = Some (JNum 2) then map_option (\<lambda>h. (j, h)) (json_get_str ''hash'' j) else None)"

fun json_str :: "json \<Rightarrow> string option" where
  "json_str (JStr s) = Some s"
| "json_str _ = None"

definition json_strs :: "string \<Rightarrow> json \<Rightarrow> string list option" where
  "json_strs k j = Option.bind (json_get_arr k j) (\<lambda>xs. those (map json_str xs))"

record index_marker =
  xm_hash :: string
  xm_names :: "string list"
  xm_legacy :: bool

definition indexMarkerState :: "string option \<Rightarrow> index_marker option" where
  "indexMarkerState raw =
     (case parsedMarker raw of
        None \<Rightarrow> None
      | Some (j, h) \<Rightarrow>
          (case json_strs ''names'' j of
             None \<Rightarrow> None
           | Some names \<Rightarrow> if list_all isSafeSkillName names
               then Some \<lparr> xm_hash = h, xm_names = names, xm_legacy = (json_get ''legacyExternalPathsPreserved'' j = Some (JBool True)) \<rparr> else None))"

definition isSafeMaterializedPath :: "string \<Rightarrow> bool" where
  "isSafeMaterializedPath p \<longleftrightarrow> safeSkillFilePath p = Some p"

record tree_marker =
  tm_hash :: string
  tm_skillPaths :: "string list"
  tm_bundlePaths :: "string list"

definition skill_path_ok :: "string \<Rightarrow> string \<Rightarrow> bool" where
  "skill_path_ok dir p \<longleftrightarrow> isSafeMaterializedPath p \<and> js_startsWith p (dir @ ''/'') \<and> \<not> isSkillMaterializationControlPath p"

definition bundle_path_ok :: "string \<Rightarrow> bool" where
  "bundle_path_ok p \<longleftrightarrow> isSafeMaterializedPath p \<and> \<not> isSkillMaterializationControlPath p"

definition treeMarkerState :: "string option \<Rightarrow> string \<Rightarrow> tree_marker option" where
  "treeMarkerState raw dir =
     (case parsedMarker raw of
        None \<Rightarrow> None
      | Some (j, h) \<Rightarrow>
          (case (json_strs ''skillPaths'' j, json_strs ''bundlePaths'' j) of
             (Some sp, Some bp) \<Rightarrow>
               if list_all (skill_path_ok dir) sp \<and> list_all bundle_path_ok bp
               then Some \<lparr> tm_hash = h, tm_skillPaths = sp, tm_bundlePaths = bp \<rparr> else None
           | _ \<Rightarrow> None))"

definition json_list :: "string list \<Rightarrow> json" where "json_list xs = JArr (map JStr xs)"

definition index_marker_text :: "string \<Rightarrow> string list \<Rightarrow> bool \<Rightarrow> string" where
  "index_marker_text hash names legacy =
     json_stringify (JObj ([(''version'', JNum 2), (''hash'', JStr hash), (''names'', json_list names)] @
       (if legacy then [(''legacyExternalPathsPreserved'', JBool True)] else [])))"

definition tree_marker_text :: "string \<Rightarrow> string list \<Rightarrow> string list \<Rightarrow> string" where
  "tree_marker_text hash sp bp =
     json_stringify (JObj [(''version'', JNum 2), (''hash'', JStr hash), (''skillPaths'', json_list sp), (''bundlePaths'', json_list bp)])"

definition tree_marker_path :: "string \<Rightarrow> string" where
  "tree_marker_path name = skill_dir name @ ''/'' @ SKILL_TREE_MARKER"

definition tree_state :: "workspace \<Rightarrow> string \<Rightarrow> tree_marker option" where
  "tree_state fs name = treeMarkerState (fs (tree_marker_path name)) (skill_dir name)"

definition bundle_paths_at :: "workspace \<Rightarrow> string \<Rightarrow> string list" where
  "bundle_paths_at fs name = (case tree_state fs name of Some t \<Rightarrow> tm_bundlePaths t | None \<Rightarrow> [])"

section \<open>The index\<close>

definition remove_unless :: "string list \<Rightarrow> string list \<Rightarrow> workspace \<Rightarrow> workspace" where
  "remove_unless keep ps fs = fold (\<lambda>p f. if p \<in> set keep then f else removeDir p f) ps fs"

definition remove_stale :: "string list \<Rightarrow> string \<Rightarrow> workspace \<Rightarrow> workspace" where
  "remove_stale active name fs =
     (let dir = skill_dir name;
          paths = (dir @ ''/SKILL.md'') # (case tree_state fs name of Some t \<Rightarrow> tm_skillPaths t @ tm_bundlePaths t | None \<Rightarrow> []);
          fs1 = remove_unless active (jset_of paths) fs
      in if list_ex (\<lambda>p. js_startsWith p (dir @ ''/'')) active then removeDir (tree_marker_path name) fs1 else removeDir dir fs1)"

definition index_entries :: "skill list \<Rightarrow> (string \<times> string) list" where
  "index_entries ss = map (\<lambda>s. (skill_dir (sm_name (sk_manifest s)) @ ''/SKILL.md'', renderedBody s)) ss"

definition index_ok :: "skill list \<Rightarrow> bool" where
  "index_ok ss \<longleftrightarrow> list_all (\<lambda>s. isSafeSkillName (sm_name (sk_manifest s)) \<and> pack_safe s) ss"

definition materializeSkillIndex :: "(string \<Rightarrow> string) \<Rightarrow> (skill option \<times> skill list) list \<Rightarrow> workspace \<Rightarrow> workspace option" where
  "materializeSkillIndex sha256 resolved fs =
     (let ss = skills_of resolved; want = indexHash sha256 ss; names = sort (map (\<lambda>s. sm_name (sk_manifest s)) ss);
          raw = fs SKILLS_INDEX_MARKER; prev = indexMarkerState raw
      in if \<not> index_ok ss then None
         else if (case prev of Some x \<Rightarrow> xm_hash x = want \<and> xm_names x = names | None \<Rightarrow> False) then Some fs
         else
           let legacy = (case prev of Some x \<Rightarrow> xm_legacy x | None \<Rightarrow> truthy raw);
               fs1 = (case prev of
                        None \<Rightarrow> if truthy raw then removeDir SKILLS_DIR fs else fs
                      | Some x \<Rightarrow>
                          let active = concat (map (bundle_paths_at fs) names)
                          in fold (remove_stale active) (filter (\<lambda>n. n \<notin> set names) (xm_names x)) fs)
           in Some (layFiles (index_entries ss @ [(SKILLS_INDEX_MARKER, index_marker_text want names legacy)]) fs1))"

section \<open>The tree of a skill\<close>

definition tree_ok :: "skill \<Rightarrow> skill_bundle list \<Rightarrow> bool" where
  "tree_ok s bundles \<longleftrightarrow> isSafeSkillName (sm_name (sk_manifest s)) \<and> pack_safe s \<and> list_all (\<lambda>b. isSafeSkillName (sb_packId b)) bundles"

definition other_bundle_paths :: "workspace \<Rightarrow> string \<Rightarrow> string list" where
  "other_bundle_paths fs name =
     (case indexMarkerState (fs SKILLS_INDEX_MARKER) of
        None \<Rightarrow> []
      | Some x \<Rightarrow> concat (map (bundle_paths_at fs) (filter (\<lambda>n. n \<noteq> name) (xm_names x))))"

definition clear_tree :: "string \<Rightarrow> string list \<Rightarrow> string list \<Rightarrow> tree_marker option \<Rightarrow> workspace \<Rightarrow> workspace" where
  "clear_tree name sp bp prev fs =
     (let others = other_bundle_paths fs name
      in case prev of
           Some t \<Rightarrow> remove_unless (bp @ others) (tm_bundlePaths t) (remove_unless (sp @ others) (tm_skillPaths t) fs)
         | None \<Rightarrow> if list_ex (\<lambda>p. js_startsWith p (skill_dir name @ ''/'')) others then fs else removeDir (skill_dir name) fs)"

definition materializeSkillTree :: "(string \<Rightarrow> string) \<Rightarrow> skill option \<times> skill list \<Rightarrow> skill_bundle list \<Rightarrow> workspace \<Rightarrow> workspace option" where
  "materializeSkillTree sha256 resolution bundles fs =
     (case fst resolution of
        None \<Rightarrow> Some fs
      | Some s \<Rightarrow>
          let name = sm_name (sk_manifest s); dir = skill_dir name; marker = tree_marker_path name; want = treeHash sha256 s bundles;
              sp = guardedSkillPaths dir s; bp = guardedBundlePaths bundles; raw = fs marker; prev = treeMarkerState raw dir
          in if \<not> tree_ok s bundles then None
             else if prev = Some \<lparr> tm_hash = want, tm_skillPaths = sp, tm_bundlePaths = bp \<rparr> then Some fs
             else if raw = Some want then Some (fs(marker \<mapsto> tree_marker_text want sp bp))
             else Some (layFiles (skill_entries dir s @ bundle_entries bundles @ [(marker, tree_marker_text want sp bp)])
                          (clear_tree name sp bp prev fs)))"

definition skillsIndex_lines :: "char list \<Rightarrow> char list \<Rightarrow> (skill option \<times> skill list) list \<Rightarrow> string list" where
  "skillsIndex_lines dash arrow resolved =
     map (\<lambda>(s, shadow). ''- **'' @ sm_name (sk_manifest s) @ ''** '' @ dash @ '' '' @ sm_description (sk_manifest s) @
           (if shadow then '' (shadows a broader-scope skill of the same name)'' else []) @ ''  '' @ arrow @ '' read `'' @
           skill_dir (sm_name (sk_manifest s)) @ ''/SKILL.md`'')
       (sort_key (\<lambda>(s, _). sm_name (sk_manifest s))
          (List.map_filter (\<lambda>(s, sh). map_option (\<lambda>x. (x, sh \<noteq> [])) s) resolved))"

definition skillsIndex :: "char list \<Rightarrow> char list \<Rightarrow> (skill option \<times> skill list) list \<Rightarrow> string" where
  "skillsIndex dash arrow resolved =
     (let lines = skillsIndex_lines dash arrow resolved
      in if lines = [] then []
         else js_join [CHR 0x0A]
           ([''## Skills'', ''You have these skills available. To use one, read its SKILL.md and follow it (run its steps with your tools):''] @ lines))"

section \<open>Safe paths below a directory\<close>

lemma safe_name_part:
  assumes "isSafeSkillName name"
  shows "safe_part name" "hd name \<noteq> CHR ''.''"
proof -
  obtain c cs where n: "name = c # cs" "is_alnum c" "list_all skill_name_char cs"
  proof (cases name)
    case (Cons c cs)
    then have "is_alnum c" "cs = [] \<or> list_all skill_name_char (butlast cs) \<and> skill_name_char (last cs)" using assms by (auto simp: isSafeSkillName_def)
    moreover from this(2) have "list_all skill_name_char cs" by (cases cs rule: rev_cases) auto
    ultimately show thesis using that Cons by blast
  qed (use assms in \<open>simp add: isSafeSkillName_def\<close>)
  have no: "\<not> is_alnum CHR ''.''" "\<not> skill_name_char CHR 0x00" "\<not> skill_name_char CHR ''/''" "\<not> skill_name_char CHR 0x5C" "\<not> skill_name_char CHR 0x00"
    by code_simp+
  have all: "skill_name_char x" if "x \<in> set name" for x using that n by (auto simp: list_all_iff skill_name_char_def is_word_char_def)
  show "hd name \<noteq> CHR ''.''" using n no(1) by auto
  then show "safe_part name" using n(1) all no by (auto simp: safe_part_def)
qed

lemma js_join_append: "xs \<noteq> [] \<Longrightarrow> ys \<noteq> [] \<Longrightarrow> js_join sep (xs @ ys) = js_join sep xs @ sep @ js_join sep ys"
proof (induction xs)
  case (Cons x xs)
  then show ?case by (cases xs; cases ys) auto
qed simp

definition dir_parts :: "string \<Rightarrow> string list \<Rightarrow> bool" where
  "dir_parts dir ws \<longleftrightarrow> ws \<noteq> [] \<and> list_all safe_part ws \<and> dir = js_join ''/'' ws"

lemma skill_dir_parts: "isSafeSkillName name \<Longrightarrow> dir_parts (skill_dir name) [SKILLS_DIR, name]"
  using safe_name_part by (simp add: dir_parts_def skill_dir_def SKILLS_DIR_def safe_part_def)

lemma pack_dir_parts: "isSafeSkillName packId \<Longrightarrow> dir_parts (pack_dir packId) [SKILLS_DIR, ''.packs'', packId]"
  using safe_name_part by (simp add: dir_parts_def pack_dir_def SKILL_PACKS_DIR_def SKILLS_DIR_def safe_part_def)

lemma safe_below_dir:
  assumes "dir_parts dir ws" "list_all safe_part vs" "vs \<noteq> []"
  shows "isSafeMaterializedPath (dir @ ''/'' @ js_join ''/'' vs)" "js_split CHR ''/'' (dir @ ''/'' @ js_join ''/'' vs) = ws @ vs"
proof -
  have j: "dir @ ''/'' @ js_join ''/'' vs = js_join ''/'' (ws @ vs)" using assms by (simp add: dir_parts_def js_join_append)
  have all: "list_all safe_part (ws @ vs)" "ws @ vs \<noteq> []" using assms by (simp_all add: dir_parts_def)
  show "isSafeMaterializedPath (dir @ ''/'' @ js_join ''/'' vs)" unfolding isSafeMaterializedPath_def j by (rule safe_parts_accepted [OF all(2,1)])
  show "js_split CHR ''/'' (dir @ ''/'' @ js_join ''/'' vs) = ws @ vs" unfolding j using all by (intro js_split_join) (auto simp: list_all_iff safe_part_def)
qed

lemma skill_file_path_ok:
  assumes "skill_file_path dir f = Some p" "dir_parts dir ws"
  shows "isSafeMaterializedPath p" "js_startsWith p (dir @ ''/'')" "\<not> isSkillMaterializationControlPath p"
    "list_all safe_part (js_split CHR ''/'' p)" "\<exists>vs. vs \<noteq> [] \<and> js_split CHR ''/'' p = ws @ vs"
proof -
  obtain rel where r: "safeSkillFilePath (sf_path f) = Some rel" "p = dir @ ''/'' @ rel" "\<not> isSkillMaterializationControlPath p"
    using assms(1) by (auto simp: skill_file_path_def Let_def split: option.splits if_splits)
  define vs where "vs = js_split CHR ''/'' rel"
  have vs: "vs \<noteq> []" "list_all safe_part vs" "rel = js_join ''/'' vs" using safe_path_parts [OF r(1)] by (simp_all add: vs_def)
  note B = safe_below_dir [OF assms(2) vs(2,1), folded vs(3), folded r(2)]
  show "isSafeMaterializedPath p" "\<not> isSkillMaterializationControlPath p" using B(1) r(3) by simp_all
  show "js_startsWith p (dir @ ''/'')" unfolding r(2) by (simp add: js_startsWith_def)
  show "list_all safe_part (js_split CHR ''/'' p)" "\<exists>vs. vs \<noteq> [] \<and> js_split CHR ''/'' p = ws @ vs"
    using B(2) vs assms(2) by (auto simp: dir_parts_def)
qed

lemma skill_md_ok:
  assumes "isSafeSkillName name"
  shows "isSafeMaterializedPath (skill_dir name @ ''/SKILL.md'')" "js_split CHR ''/'' (skill_dir name @ ''/SKILL.md'') = [SKILLS_DIR, name, ''SKILL.md'']"
    "\<not> isSkillMaterializationControlPath (skill_dir name @ ''/SKILL.md'')"
proof -
  have v: "list_all safe_part [''SKILL.md'']" by code_simp
  note B = safe_below_dir [OF skill_dir_parts [OF assms] v, simplified]
  show 1: "isSafeMaterializedPath (skill_dir name @ ''/SKILL.md'')" "js_split CHR ''/'' (skill_dir name @ ''/SKILL.md'') = [SKILLS_DIR, name, ''SKILL.md'']"
    using B by simp_all
  have "hd name \<noteq> CHR ''.''" "name \<noteq> []" using safe_name_part [OF assms] by (auto simp: safe_part_def)
  then have "\<not> js_startsWith (skill_dir name @ ''/SKILL.md'') SKILLS_INDEX_MARKER"
    by (cases name) (auto simp: js_startsWith_def skill_dir_def SKILLS_INDEX_MARKER_def SKILLS_DIR_def)
  then have "skill_dir name @ ''/SKILL.md'' \<noteq> SKILLS_INDEX_MARKER" "\<not> js_startsWith (skill_dir name @ ''/SKILL.md'') (SKILLS_INDEX_MARKER @ ''/'')"
    by (auto simp: js_startsWith_iff)
  then show "\<not> isSkillMaterializationControlPath (skill_dir name @ ''/SKILL.md'')"
    unfolding isSkillMaterializationControlPath_def 1(2) by (simp add: SKILL_TREE_MARKER_def)
qed

lemma set_map_filter: "set (List.map_filter f xs) = {y. \<exists>x \<in> set xs. f x = Some y}"
  by (force simp: List.map_filter_def)

lemma set_sorted_paths [simp]: "set (sorted_paths ps) = set ps"
  by (simp add: sorted_paths_def)

lemma guarded_paths_ok:
  assumes "tree_ok s bundles"
  shows "list_all (skill_path_ok (skill_dir (sm_name (sk_manifest s)))) (guardedSkillPaths (skill_dir (sm_name (sk_manifest s))) s)"
    "list_all bundle_path_ok (guardedBundlePaths bundles)"
proof -
  let ?n = "sm_name (sk_manifest s)"
  have n: "isSafeSkillName ?n" using assms by (simp add: tree_ok_def)
  show "list_all (skill_path_ok (skill_dir ?n)) (guardedSkillPaths (skill_dir ?n) s)"
    using skill_md_ok [OF n] skill_file_path_ok [OF _ skill_dir_parts [OF n]]
    by (auto simp: list_all_iff guardedSkillPaths_def skill_path_ok_def set_map_filter js_startsWith_iff)
  show "list_all bundle_path_ok (guardedBundlePaths bundles)"
    using assms skill_file_path_ok [OF _ pack_dir_parts] by (auto simp: list_all_iff guardedBundlePaths_def bundle_path_ok_def set_map_filter tree_ok_def)
qed

section \<open>Markers come back\<close>

lemma those_strs: "those (map (json_str \<circ> JStr) xs) = Some xs"
  by (induction xs) auto

lemma tree_marker_back:
  assumes "list_all (skill_path_ok dir) sp" "list_all bundle_path_ok bp"
  shows "treeMarkerState (Some (tree_marker_text h sp bp)) dir = Some \<lparr> tm_hash = h, tm_skillPaths = sp, tm_bundlePaths = bp \<rparr>"
proof -
  let ?j = "JObj [(''version'', JNum 2), (''hash'', JStr h), (''skillPaths'', json_list sp), (''bundlePaths'', json_list bp)]"
  have "json_proper ?j" by (simp add: json_list_def)
  then have "parsedMarker (Some (json_stringify ?j)) = Some (?j, h)"
    using json_parse_stringify [of ?j] by (simp add: parsedMarker_def js_startsWith_def json_get_str_def del: json_parse_stringify)
  then show ?thesis using assms
    by (simp add: treeMarkerState_def tree_marker_text_def json_strs_def json_get_arr_def json_list_def those_strs)
qed

lemma index_marker_back:
  assumes "list_all isSafeSkillName names"
  shows "indexMarkerState (Some (index_marker_text h names legacy)) = Some \<lparr> xm_hash = h, xm_names = names, xm_legacy = legacy \<rparr>"
proof -
  let ?j = "JObj ([(''version'', JNum 2), (''hash'', JStr h), (''names'', json_list names)] @
      (if legacy then [(''legacyExternalPathsPreserved'', JBool True)] else []))"
  have "json_proper ?j" by (simp add: json_list_def)
  then have "parsedMarker (Some (json_stringify ?j)) = Some (?j, h)"
    using json_parse_stringify [of ?j] by (simp add: parsedMarker_def js_startsWith_def json_get_str_def del: json_parse_stringify)
  then show ?thesis using assms
    by (simp add: indexMarkerState_def index_marker_text_def json_strs_def json_get_arr_def json_list_def those_strs)
qed

section \<open>What an operation changes\<close>

lemma layFiles_get: "layFiles es fs p = (case map_of (rev es) p of Some c \<Rightarrow> Some c | None \<Rightarrow> fs p)"
proof (induction es arbitrary: fs)
  case (Cons e es)
  then show ?case by (cases e) (auto simp: layFiles_def map_add_def split: option.splits)
qed (simp add: layFiles_def)

lemma layFiles_same: "p \<notin> fst ` set es \<Longrightarrow> layFiles es fs p = fs p"
proof -
  assume "p \<notin> fst ` set es"
  then have "map_of (rev es) p = None" by (simp add: map_of_eq_None_iff)
  then show ?thesis by (simp add: layFiles_get)
qed

lemma remove_unless_same: "(\<And>p. p \<in> set ps \<Longrightarrow> p \<notin> set keep \<Longrightarrow> \<not> below p q) \<Longrightarrow> remove_unless keep ps fs q = fs q"
  unfolding remove_unless_def by (induction ps arbitrary: fs) (auto simp: removeDir_def)

lemma tree_entry_paths:
  assumes "tree_ok s bundles" "p \<in> fst ` set (skill_entries (skill_dir (sm_name (sk_manifest s))) s @ bundle_entries bundles)"
  shows "(below (skill_dir (sm_name (sk_manifest s))) p \<or> (\<exists>b \<in> set bundles. below (pack_dir (sb_packId b)) p)) \<and>
    list_all safe_part (js_split CHR ''/'' p) \<and> \<not> isSkillMaterializationControlPath p"
proof -
  let ?n = "sm_name (sk_manifest s)"
  have n: "isSafeSkillName ?n" using assms(1) by (simp add: tree_ok_def)
  consider "p = skill_dir ?n @ ''/SKILL.md''" | f where "skill_file_path (skill_dir ?n) f = Some p" |
    b f where "b \<in> set bundles" "skill_file_path (pack_dir (sb_packId b)) f = Some p"
    using assms(2) by (auto simp: skill_entries_def bundle_entries_def set_map_filter lay_entry_def)
  then show ?thesis
  proof cases
    case 1
    have "list_all safe_part [SKILLS_DIR, ?n, ''SKILL.md'']" using safe_name_part [OF n] by (simp add: safe_part_def SKILLS_DIR_def)
    with 1 skill_md_ok [OF n] show ?thesis by (auto simp: below_def js_startsWith_iff)
  next
    case (2 f)
    then show ?thesis using skill_file_path_ok [OF _ skill_dir_parts [OF n]] by (auto simp: below_def)
  next
    case (3 b f)
    then have "isSafeSkillName (sb_packId b)" using assms(1) by (auto simp: tree_ok_def list_all_iff)
    note P = skill_file_path_ok [OF 3(2) pack_dir_parts [OF this]]
    then have "below (pack_dir (sb_packId b)) p" by (simp add: below_def)
    with P 3(1) show ?thesis by blast
  qed
qed

lemma below_skills: "below (skill_dir n) p \<Longrightarrow> below SKILLS_DIR p" "below (pack_dir n) p \<Longrightarrow> below SKILLS_DIR p" "below SKILLS_DIR (tree_marker_path n)"
  by (auto simp: below_def js_startsWith_iff skill_dir_def pack_dir_def SKILL_PACKS_DIR_def tree_marker_path_def)

lemma below_prefix: "js_startsWith p (d @ ''/'') \<Longrightarrow> below p q \<Longrightarrow> below d q"
  by (auto simp: below_def js_startsWith_iff)

lemma tree_state_paths: "tree_state fs name = Some t \<Longrightarrow> list_all (skill_path_ok (skill_dir name)) (tm_skillPaths t)"
  by (auto simp: tree_state_def treeMarkerState_def split: option.splits if_splits prod.splits)

lemma clear_tree_same:
  assumes "\<not> below SKILLS_DIR q" "\<forall>b \<in> set (bundle_paths_at fs name). \<not> below b q"
  shows "clear_tree name sp bp (tree_state fs name) fs q = fs q"
proof (cases "tree_state fs name")
  case None
  then show ?thesis using assms(1) below_skills(1) by (auto simp: clear_tree_def Let_def removeDir_def)
next
  case (Some t)
  have "\<not> below p q" if "p \<in> set (tm_skillPaths t)" for p
  proof
    assume "below p q"
    moreover have "js_startsWith p (skill_dir name @ ''/'')" using tree_state_paths [OF Some] that by (simp add: list_all_iff skill_path_ok_def)
    ultimately show False using assms(1) below_prefix below_skills(1) by blast
  qed
  moreover have "\<not> below p q" if "p \<in> set (tm_bundlePaths t)" for p using assms(2) that by (simp add: bundle_paths_at_def Some)
  ultimately show ?thesis by (simp add: clear_tree_def Let_def Some remove_unless_same)
qed

lemma three_ways: "(if A then Some a else if B then Some b else Some c) = Some x \<Longrightarrow> A \<and> x = a \<or> B \<and> x = b \<or> x = c"
  by (simp split: if_splits)


lemma remove_unless_none: "remove_unless keep ps fs q = fs q \<or> remove_unless keep ps fs q = None"
proof (induction ps arbitrary: fs)
  case (Cons x ps)
  define g where "g = (if x \<in> set keep then fs else removeDir x fs)"
  have "remove_unless keep (x # ps) fs = remove_unless keep ps g" by (simp add: remove_unless_def g_def)
  moreover have "g q = fs q \<or> g q = None" by (simp add: g_def removeDir_def)
  ultimately show ?case using Cons.IH [of g] by auto
qed (simp add: remove_unless_def)

lemma remove_unless_gone: "p \<in> set ps \<Longrightarrow> p \<notin> set keep \<Longrightarrow> remove_unless keep ps fs p = None"
proof (induction ps arbitrary: fs)
  case (Cons x ps)
  have e: "remove_unless keep (x # ps) fs = remove_unless keep ps (if x \<in> set keep then fs else removeDir x fs)" by (simp add: remove_unless_def)
  show ?case
  proof (cases "x = p")
    case True
    then have "(if x \<in> set keep then fs else removeDir x fs) p = None" using Cons.prems by (simp add: removeDir_def below_def)
    then show ?thesis unfolding e using remove_unless_none by metis
  next
    case False
    then show ?thesis unfolding e using Cons by simp
  qed
qed simp

lemma remove_stale_shrinks: "remove_stale active n fs q = fs q \<or> remove_stale active n fs q = None"
  using remove_unless_none [of active _ fs q] by (auto simp: remove_stale_def Let_def removeDir_def)

lemma fold_stale_shrinks: "fold (remove_stale active) ns fs q = fs q \<or> fold (remove_stale active) ns fs q = None"
proof (induction ns arbitrary: fs)
  case (Cons n ns)
  then show ?case using remove_stale_shrinks [of active n fs q] by (metis fold_simps(2))
qed simp

lemma remove_stale_gone: "skill_dir n @ ''/SKILL.md'' \<notin> set active \<Longrightarrow> remove_stale active n fs (skill_dir n @ ''/SKILL.md'') = None"
  by (auto simp: remove_stale_def Let_def removeDir_def intro!: remove_unless_gone)

lemma fold_stale_gone:
  "n \<in> set ns \<Longrightarrow> skill_dir n @ ''/SKILL.md'' \<notin> set active \<Longrightarrow> fold (remove_stale active) ns fs (skill_dir n @ ''/SKILL.md'') = None"
proof (induction ns arbitrary: fs)
  case (Cons x ns)
  have "fold (remove_stale active) ns (remove_stale active n fs) (skill_dir n @ ''/SKILL.md'') = None"
    using fold_stale_shrinks [of active ns "remove_stale active n fs"] remove_stale_gone [OF Cons.prems(2)] by metis
  then show ?case using Cons by (cases "x = n") auto
qed simp

lemma skill_dir_inj [simp]: "skill_dir a = skill_dir b \<longleftrightarrow> a = b"
  by (simp add: skill_dir_def)

lemma skill_md_not_index: "isSafeSkillName n \<Longrightarrow> skill_dir n @ ''/SKILL.md'' \<noteq> SKILLS_INDEX_MARKER"
  using skill_md_ok(3) [of n] by (auto simp: isSkillMaterializationControlPath_def)

text \<open>
  The index of skills in the workspace of a turn. After it, the instructions of every visible skill are
  those of its current body, the instructions of a skill that was laid before and is no longer visible are
  gone unless a pack of a visible skill owns that file, and doing it again changes nothing.
\<close>

theorem skill_index_materialized:
  assumes mat: "materializeSkillIndex sha256 resolved fs = Some fs'" and names: "distinct (map (\<lambda>s. sm_name (sk_manifest s)) (skills_of resolved))"
  shows "materializeSkillIndex sha256 resolved fs' = Some fs' \<and>
    (fs' \<noteq> fs \<longrightarrow>
      (\<forall>s \<in> set (skills_of resolved). fs' (skill_dir (sm_name (sk_manifest s)) @ ''/SKILL.md'') = Some (renderedBody s)) \<and>
      (\<forall>x n. indexMarkerState (fs SKILLS_INDEX_MARKER) = Some x \<and> n \<in> set (xm_names x) \<and>
         n \<notin> (\<lambda>s. sm_name (sk_manifest s)) ` set (skills_of resolved) \<and>
         (\<forall>s \<in> set (skills_of resolved). skill_dir n @ ''/SKILL.md'' \<notin> set (bundle_paths_at fs (sm_name (sk_manifest s)))) \<longrightarrow>
         fs' (skill_dir n @ ''/SKILL.md'') = None))"
proof -
  define ss where "ss = skills_of resolved"
  define ns where "ns = sort (map (\<lambda>s. sm_name (sk_manifest s)) ss)"
  define want where "want = indexHash sha256 ss"
  let ?at = "\<lambda>g. indexMarkerState (g SKILLS_INDEX_MARKER)"
  let ?cleared = "\<lambda>g. case ?at g of None \<Rightarrow> if truthy (g SKILLS_INDEX_MARKER) then removeDir SKILLS_DIR g else g
      | Some x \<Rightarrow> fold (remove_stale (concat (map (bundle_paths_at g) ns))) (filter (\<lambda>n. n \<notin> set ns) (xm_names x)) g"
  let ?old = "\<lambda>g. case ?at g of Some x \<Rightarrow> xm_legacy x | None \<Rightarrow> truthy (g SKILLS_INDEX_MARKER)"
  have eq: "materializeSkillIndex sha256 resolved g =
      (if \<not> index_ok ss then None else if (case ?at g of Some x \<Rightarrow> xm_hash x = want \<and> xm_names x = ns | None \<Rightarrow> False) then Some g
       else Some (layFiles (index_entries ss @ [(SKILLS_INDEX_MARKER, index_marker_text want ns (?old g))]) (?cleared g)))" for g
    unfolding materializeSkillIndex_def Let_def ss_def ns_def want_def by (rule refl)
  have ok: "index_ok ss" using mat by (simp add: eq split: if_splits)
  have safe: "list_all isSafeSkillName ns" using ok by (auto simp: index_ok_def ns_def list_all_iff)
  show ?thesis
  proof (cases "case ?at fs of Some x \<Rightarrow> xm_hash x = want \<and> xm_names x = ns | None \<Rightarrow> False")
    case True
    then show ?thesis using mat ok by (simp add: eq)
  next
    case False
    then have fs': "fs' = layFiles (index_entries ss @ [(SKILLS_INDEX_MARKER, index_marker_text want ns (?old fs))]) (?cleared fs)"
      using mat ok by (simp add: eq)
    have "?at fs' = Some \<lparr> xm_hash = want, xm_names = ns, xm_legacy = ?old fs \<rparr>" by (simp add: fs' layFiles_get index_marker_back [OF safe])
    then have again: "materializeSkillIndex sha256 resolved fs' = Some fs'" using ok by (simp add: eq)
    have d: "distinct (map fst (index_entries ss))" using names by (simp add: index_entries_def ss_def comp_def distinct_map inj_on_def)
    have body: "fs' (skill_dir (sm_name (sk_manifest s)) @ ''/SKILL.md'') = Some (renderedBody s)" if s: "s \<in> set ss" for s
    proof -
      have "map_of (rev (index_entries ss)) (skill_dir (sm_name (sk_manifest s)) @ ''/SKILL.md'') = Some (renderedBody s)"
        using d s by (intro map_of_is_SomeI) (auto simp: index_entries_def rev_map [symmetric] distinct_rev)
      moreover have "skill_dir (sm_name (sk_manifest s)) @ ''/SKILL.md'' \<noteq> SKILLS_INDEX_MARKER"
        using ok s skill_md_not_index by (auto simp: index_ok_def list_all_iff)
      ultimately show ?thesis by (simp add: fs' layFiles_get)
    qed
    have gone: "fs' (skill_dir n @ ''/SKILL.md'') = None"
      if x: "?at fs = Some x" and n: "n \<in> set (xm_names x)" "n \<notin> set ns" "skill_dir n @ ''/SKILL.md'' \<notin> set (concat (map (bundle_paths_at fs) ns))" for x n
    proof -
      have "isSafeSkillName n" using x n(1) by (auto simp: indexMarkerState_def list_all_iff split: option.splits if_splits prod.splits)
      then have out: "skill_dir n @ ''/SKILL.md'' \<notin> fst ` set (index_entries ss @ [(SKILLS_INDEX_MARKER, index_marker_text want ns (?old fs))])"
        using skill_md_not_index n(2) by (auto simp: index_entries_def ns_def)
      have "?cleared fs (skill_dir n @ ''/SKILL.md'') = None" using n by (simp only: x option.case) (rule fold_stale_gone, simp_all)
      then show ?thesis unfolding fs' layFiles_same [OF out] .
    qed
    show ?thesis using again body gone unfolding ss_def [symmetric] by (auto simp: ns_def)
  qed
qed

text \<open>The published skill of the store's example, with a script, is laid into an empty workspace.\<close>

definition demo_tree :: skill where
  "demo_tree = (demo_published ''channel:c'')\<lparr> sk_manifest := demo_manifest\<lparr> sm_files :=
     Some [\<lparr> sf_path = ''./run.sh'', sf_content = ''true'', sf_executable = True \<rparr>] \<rparr> \<rparr>"

lemma demo_tree_ok: "tree_ok demo_tree []" "index_ok [demo_tree]" "sm_name (sk_manifest demo_tree) = ''deploy''"
  by code_simp+

lemma demo_tree_laid:
  "\<exists>fs'. materializeSkillTree id (Some demo_tree, []) [] Map.empty = Some fs' \<and> fs' (tree_marker_path ''deploy'') \<noteq> None"
  using demo_tree_ok(1,3) by (simp add: materializeSkillTree_def Let_def treeMarkerState_def parsedMarker_def layFiles_get)


lemma demo_index_laid:
  "\<exists>fs'. materializeSkillIndex id [(Some demo_tree, [])] Map.empty = Some fs' \<and> fs' SKILLS_INDEX_MARKER \<noteq> None"
  using demo_tree_ok(2) by (simp add: materializeSkillIndex_def Let_def skills_of_def List.map_filter_def indexMarkerState_def parsedMarker_def layFiles_get)

theorem skill_index_materialized_witness:
  "\<exists>fs'. materializeSkillIndex id [(Some demo_tree, [])] Map.empty = Some fs' \<and> materializeSkillIndex id [(Some demo_tree, [])] fs' = Some fs' \<and>
     fs' ''skills/deploy/SKILL.md'' = Some ''b''"
proof -
  obtain fs' where f: "materializeSkillIndex id [(Some demo_tree, [])] Map.empty = Some fs'" "fs' SKILLS_INDEX_MARKER \<noteq> None"
    using demo_index_laid by blast
  have ss: "skills_of [(Some demo_tree, [])] = [demo_tree]" by (simp add: skills_of_def List.map_filter_def)
  have T: "materializeSkillIndex id [(Some demo_tree, [])] fs' = Some fs'" "fs' (skill_dir ''deploy'' @ ''/SKILL.md'') = Some (renderedBody demo_tree)"
    using skill_index_materialized [OF f(1)] f(2) demo_tree_ok(3) by (auto simp: ss)
  moreover have "skill_dir ''deploy'' @ ''/SKILL.md'' = ''skills/deploy/SKILL.md''" "renderedBody demo_tree = ''b''" by code_simp+
  ultimately show ?thesis using f(1) by simp
qed

text \<open>
  Whether a file is executable is signed, compared and hashed, but what is laid does not depend on it: the
  scripts of a skill lose the permission.
\<close>

lemma executable_bit_lost: "lay_entry dir (f\<lparr> sf_executable := b \<rparr>) = lay_entry dir f"
  by (simp add: lay_entry_def skill_file_path_def)

end
