(* ===== verification/Processes.thy ===== *)
theory Processes
  imports Durable_Map
begin

text \<open>
  Background processes (\<open>src/processes/process-registry.ts\<close>, \<open>process-reaper.ts\<close>,
  \<open>src/sandbox/process-poll.ts\<close>, \<open>await-process-exit.ts\<close>, \<open>src/connectors/background-exec-broker.ts\<close>): the
  registry of the processes that are running, the loop that reads a process until it ends or a deadline
  passes, the reaper of processes whose time is over, and the operations of the background tool.

  The sandbox is a parameter, a record of its operations on a state of the outside world that also holds
  the clock: time only passes while an operation is awaited. Rejected promises carry the message of the
  error. A loop that does not return is \<open>None\<close>.
\<close>

section \<open>The sandbox as its callers see it\<close>

datatype process_state = Running | Exited int

record process_read =
  pr_chunks :: string
  pr_cursor :: int
  pr_status :: process_state

record ('h, 's) sandbox =
  sb_now :: "'s \<Rightarrow> time"
  sb_sleep :: "int \<Rightarrow> 's \<Rightarrow> 's"
  sb_provision :: "string \<Rightarrow> 's \<Rightarrow> (string, 'h) promise \<times> 's"
  sb_teardown :: "'h \<Rightarrow> 's \<Rightarrow> (string, unit) promise \<times> 's"
  sb_startProcess :: "'h \<Rightarrow> string \<Rightarrow> 's \<Rightarrow> (string, string) promise \<times> 's"
  sb_readProcess :: "'h \<Rightarrow> string \<Rightarrow> int \<Rightarrow> int option \<Rightarrow> int \<Rightarrow> 's \<Rightarrow> (string, process_read) promise \<times> 's"
  sb_writeStdin :: "'h \<Rightarrow> string \<Rightarrow> string \<Rightarrow> 's \<Rightarrow> (string, unit) promise \<times> 's"
  sb_signalProcess :: "'h \<Rightarrow> string \<Rightarrow> string \<Rightarrow> 's \<Rightarrow> (string, unit) promise \<times> 's"

definition is_exited :: "process_state \<Rightarrow> bool" where
  "is_exited st \<longleftrightarrow> st \<noteq> Running"

definition processIsGone :: "string \<Rightarrow> bool" where
  "processIsGone e \<longleftrightarrow> js_startsWith (js_lower e) ''no such process''"

section \<open>Reading until a deadline\<close>

record poll_options =
  po_deadlineMs :: int
  po_waitMs :: "int option"
  po_sinceCursor :: "int option"
  po_collect :: "bool option"
  po_until :: "(process_read \<Rightarrow> string \<Rightarrow> bool) option"

record poll_result =
  ps_output :: string
  ps_cursor :: int
  ps_status :: process_state

definition wait_ms :: "poll_options \<Rightarrow> int" where
  "wait_ms opts = (case po_waitMs opts of Some n \<Rightarrow> n | None \<Rightarrow> 1000)"

definition read_wait :: "poll_options \<Rightarrow> time \<Rightarrow> time \<Rightarrow> int" where
  "read_wait opts deadline startedAt = max 0 (min (deadline - startedAt) (wait_ms opts))"

definition collected :: "poll_options \<Rightarrow> string \<Rightarrow> process_read \<Rightarrow> string" where
  "collected opts output r = (if po_collect opts \<noteq> Some False then output @ pr_chunks r else output)"

definition poll_over :: "poll_options \<Rightarrow> time \<Rightarrow> time \<Rightarrow> process_read \<Rightarrow> string \<Rightarrow> bool" where
  "poll_over opts deadline now r output \<longleftrightarrow>
     is_exited (pr_status r) \<or> (case po_until opts of Some f \<Rightarrow> f r output | None \<Rightarrow> False) \<or> deadline \<le> now"

text \<open>The pause at the end of a round that took less than 25 milliseconds.\<close>

definition pause_round :: "('h, 's) sandbox \<Rightarrow> time \<Rightarrow> time \<Rightarrow> 's \<Rightarrow> 's" where
  "pause_round sb deadline startedAt s =
     (if sb_now sb s - startedAt < 25 then sb_sleep sb (min 50 (max 1 (deadline - sb_now sb s))) s else s)"

partial_function (option) poll_loop ::
  "('h, 's) sandbox \<Rightarrow> 'h \<Rightarrow> string \<Rightarrow> poll_options \<Rightarrow> time \<Rightarrow> int \<Rightarrow> string \<Rightarrow> 's \<Rightarrow>
     ((string, poll_result) promise \<times> 's) option" where
  "poll_loop sb h pid opts deadline cursor output s =
     (case sb_readProcess sb h pid cursor None (read_wait opts deadline (sb_now sb s)) s of
        (Rejected e, s1) \<Rightarrow> Some (Rejected e, s1)
      | (Resolved r, s1) \<Rightarrow>
          if poll_over opts deadline (sb_now sb s1) r (collected opts output r)
          then Some (Resolved \<lparr> ps_output = collected opts output r, ps_cursor = pr_cursor r, ps_status = pr_status r \<rparr>, s1)
          else poll_loop sb h pid opts deadline (pr_cursor r) (collected opts output r)
                 (pause_round sb deadline (sb_now sb s) s1))"

declare poll_loop.simps [code]

definition pollProcess ::
  "('h, 's) sandbox \<Rightarrow> 'h \<Rightarrow> string \<Rightarrow> poll_options \<Rightarrow> 's \<Rightarrow> ((string, poll_result) promise \<times> 's) option" where
  "pollProcess sb h pid opts s =
     poll_loop sb h pid opts (sb_now sb s + po_deadlineMs opts)
       (case po_sinceCursor opts of Some c \<Rightarrow> c | None \<Rightarrow> 0) [] s"

definition exit_options :: "int \<Rightarrow> poll_options" where
  "exit_options graceMs =
     \<lparr> po_deadlineMs = graceMs, po_waitMs = None, po_sinceCursor = None, po_collect = Some False, po_until = None \<rparr>"

definition awaitProcessExit ::
  "('h, 's) sandbox \<Rightarrow> 'h \<Rightarrow> string \<Rightarrow> int \<Rightarrow> 's \<Rightarrow> ((string, process_state) promise \<times> 's) option" where
  "awaitProcessExit sb h pid graceMs s =
     (case pollProcess sb h pid (exit_options graceMs) s of
        None \<Rightarrow> None
      | Some (Rejected e, s1) \<Rightarrow> Some (Rejected e, s1)
      | Some (Resolved r, s1) \<Rightarrow> Some (Resolved (ps_status r), s1))"

section \<open>The registry\<close>

definition DECLARED_KINDS :: "string list" where
  "DECLARED_KINDS = [''build'', ''dev-server'', ''background'']"

definition isDeclaredKind :: "string \<Rightarrow> bool" where
  "isDeclaredKind kind \<longleftrightarrow> kind \<in> set DECLARED_KINDS"

datatype process_status = ProcRunning | ProcExited | ProcReaped

record process_record =
  pc_processId :: string
  pc_scopeId :: string
  pc_kind :: string
  pc_command :: string
  pc_startedAt :: time
  pc_expiresAt :: time
  pc_status :: process_status
  pc_sessionRef :: "string option"
  pc_runId :: "string option"

record new_process_record =
  np_processId :: string
  np_scopeId :: string
  np_kind :: string
  np_command :: string
  np_ttlMs :: int
  np_sessionRef :: "string option"
  np_runId :: "string option"

type_synonym process_registry = "(string, process_record) jsmap"

definition newRecord :: "new_process_record \<Rightarrow> time \<Rightarrow> string + process_record" where
  "newRecord rec now =
     (if \<not> isDeclaredKind (np_kind rec) then Inl (''process kind not declared: '' @ np_kind rec)
      else Inr \<lparr> pc_processId = np_processId rec, pc_scopeId = np_scopeId rec, pc_kind = np_kind rec, pc_command = np_command rec,
                 pc_startedAt = now, pc_expiresAt = now + np_ttlMs rec, pc_status = ProcRunning,
                 pc_sessionRef = (if truthy (np_sessionRef rec) then np_sessionRef rec else None),
                 pc_runId = (if truthy (np_runId rec) then np_runId rec else None) \<rparr>)"

definition register_process :: "new_process_record \<Rightarrow> time \<Rightarrow> process_registry \<Rightarrow> (string + process_record) \<times> process_registry" where
  "register_process rec now rows =
     (case newRecord rec now of
        Inl e \<Rightarrow> (Inl e, rows)
      | Inr row \<Rightarrow> (Inr row, jmap_set (pc_processId row) row rows))"

definition get_process :: "process_registry \<Rightarrow> string \<Rightarrow> process_record option" where
  "get_process rows pid = map_of rows pid"

definition listByScope :: "string \<Rightarrow> process_registry \<Rightarrow> process_record list" where
  "listByScope scopeId rows = filter (\<lambda>r. pc_scopeId r = scopeId) (map snd rows)"

definition liveByScope :: "string \<Rightarrow> time \<Rightarrow> process_registry \<Rightarrow> process_record list" where
  "liveByScope scopeId now rows =
     filter (\<lambda>r. pc_scopeId r = scopeId \<and> pc_status r = ProcRunning \<and> now < pc_expiresAt r) (map snd rows)"

definition listLive :: "time \<Rightarrow> process_registry \<Rightarrow> process_record list" where
  "listLive now rows = filter (\<lambda>r. pc_status r = ProcRunning \<and> now < pc_expiresAt r) (map snd rows)"

definition markStatus :: "string \<Rightarrow> process_status \<Rightarrow> process_registry \<Rightarrow> bool \<times> process_registry" where
  "markStatus pid st rows =
     (case map_of rows pid of
        None \<Rightarrow> (False, rows)
      | Some row \<Rightarrow> (True, jmap_set pid (row\<lparr> pc_status := st \<rparr>) rows))"

definition listExpired :: "time \<Rightarrow> process_registry \<Rightarrow> process_record list" where
  "listExpired now rows = filter (\<lambda>r. pc_status r = ProcRunning \<and> pc_expiresAt r \<le> now) (map snd rows)"

definition delete_process :: "string \<Rightarrow> process_registry \<Rightarrow> process_registry" where
  "delete_process pid rows = jmap_delete pid rows"

section \<open>The reaper\<close>

text \<open>Awaiting one operation after the other: a rejection ends the sequence, and so does a loop that does not return.\<close>

definition and_then ::
  "(('e, 'a) promise \<times> 's) option \<Rightarrow> ('a \<Rightarrow> 's \<Rightarrow> (('e, 'b) promise \<times> 's) option) \<Rightarrow> (('e, 'b) promise \<times> 's) option" where
  "and_then m f =
     (case m of
        None \<Rightarrow> None
      | Some (Rejected e, s) \<Rightarrow> Some (Rejected e, s)
      | Some (Resolved x, s) \<Rightarrow> f x s)"

definition kill_process ::
  "('h, 's) sandbox \<Rightarrow> int \<Rightarrow> int \<Rightarrow> 'h \<Rightarrow> string \<Rightarrow> 's \<Rightarrow> ((string, unit) promise \<times> 's) option" where
  "kill_process sb termGraceMs killGraceMs h pid s =
     and_then (Some (sb_signalProcess sb h pid ''TERM'' s)) (\<lambda>_ s1.
     and_then (awaitProcessExit sb h pid termGraceMs s1) (\<lambda>st s2.
     and_then
       (if is_exited st then Some (Resolved st, s2)
        else and_then (Some (sb_signalProcess sb h pid ''KILL'' s2)) (\<lambda>_. awaitProcessExit sb h pid killGraceMs))
       (\<lambda>st s3. Some (if is_exited st then Resolved () else Rejected (''process survived TERM+KILL: '' @ pid), s3))))"

definition forgive_gone :: "(string, unit) promise \<Rightarrow> (string, unit) promise" where
  "forgive_gone r = (case r of Rejected e \<Rightarrow> if processIsGone e then Resolved () else Rejected e | Resolved u \<Rightarrow> Resolved u)"

definition createReaperKillHook ::
  "('h, 's) sandbox \<Rightarrow> int \<Rightarrow> int \<Rightarrow> process_record \<Rightarrow> 's \<Rightarrow> ((string, unit) promise \<times> 's) option" where
  "createReaperKillHook sb termGraceMs killGraceMs rec s =
     and_then (Some (sb_provision sb (pc_scopeId rec) s)) (\<lambda>h s1.
       case kill_process sb termGraceMs killGraceMs h (pc_processId rec) s1 of
         None \<Rightarrow> None
       | Some (r, s2) \<Rightarrow>
           and_then (Some (sb_teardown sb h s2)) (\<lambda>_ s3. Some (forgive_gone r, s3)))"

record 's reaper_options =
  ro_kill :: "(process_record \<Rightarrow> 's \<Rightarrow> ((string, unit) promise \<times> 's) option) option"
  ro_onReaped :: "(process_record \<Rightarrow> 's \<Rightarrow> 's) option"

definition run_kill :: "'s reaper_options \<Rightarrow> process_record \<Rightarrow> 's \<Rightarrow> ((string, unit) promise \<times> 's) option" where
  "run_kill opts rec s = (case ro_kill opts of None \<Rightarrow> Some (Resolved (), s) | Some kill \<Rightarrow> kill rec s)"

fun sweep_rows ::
  "'s reaper_options \<Rightarrow> process_record list \<Rightarrow> nat \<Rightarrow> process_registry \<Rightarrow> 's \<Rightarrow> (nat \<times> process_registry \<times> 's) option" where
  "sweep_rows opts [] reaped rows s = Some (reaped, rows, s)"
| "sweep_rows opts (rec # rest) reaped rows s =
     (case run_kill opts rec s of
        None \<Rightarrow> None
      | Some (Rejected _, s1) \<Rightarrow> sweep_rows opts rest reaped rows s1
      | Some (Resolved _, s1) \<Rightarrow>
          (case markStatus (pc_processId rec) ProcReaped rows of
             (False, rows1) \<Rightarrow> sweep_rows opts rest reaped rows1 s1
           | (True, rows1) \<Rightarrow>
               sweep_rows opts rest (Suc reaped) rows1 (case ro_onReaped opts of None \<Rightarrow> s1 | Some f \<Rightarrow> f rec s1)))"

definition sweep_processes ::
  "'s reaper_options \<Rightarrow> time \<Rightarrow> process_registry \<Rightarrow> 's \<Rightarrow> (nat \<times> process_registry \<times> 's) option" where
  "sweep_processes opts now rows s = sweep_rows opts (listExpired now rows) 0 rows s"

section \<open>The background tool\<close>

record 'h broker_deps =
  bd_scopeId :: string
  bd_sessionRef :: "string option"
  bd_ttlMs :: "int option"
  bd_ttlMaxMs :: "int option"
  bd_pollMs :: "int option"
  bd_termGraceMs :: "int option"
  bd_killGraceMs :: "int option"
  bd_redactCommand :: "'h \<Rightarrow> string \<Rightarrow> string"

definition or_default :: "'a option \<Rightarrow> 'a \<Rightarrow> 'a" where
  "or_default v d = (case v of Some x \<Rightarrow> x | None \<Rightarrow> d)"

definition DEFAULT_TTL_MS :: int where "DEFAULT_TTL_MS = 1800 * 1000"
definition DEFAULT_TTL_MAX_MS :: int where "DEFAULT_TTL_MAX_MS = 3600 * 1000"
definition DEFAULT_MAX_BYTES :: int where "DEFAULT_MAX_BYTES = 64 * 1024"
definition DEFAULT_TERM_GRACE_MS :: int where "DEFAULT_TERM_GRACE_MS = 2000"
definition DEFAULT_KILL_GRACE_MS :: int where "DEFAULT_KILL_GRACE_MS = 1000"

record job_started =
  bs_processId :: string
  bs_output :: string
  bs_cursor :: int
  bs_status :: process_state
  bs_reattached :: bool

record job_stopped =
  bp_processId :: string
  bp_status :: process_state
  bp_stopped :: bool

record job_summary =
  bj_processId :: string
  bj_command :: string
  bj_status :: process_state
  bj_registryStatus :: process_status
  bj_startedAt :: time

text \<open>The tool works on the registry and the world; an operation of the sandbox leaves the registry.\<close>

type_synonym 's broker_world = "process_registry \<times> 's"

definition in_world :: "('s \<Rightarrow> 'a \<times> 's) \<Rightarrow> 's broker_world \<Rightarrow> ('a \<times> 's broker_world) option" where
  "in_world f w = (case f (snd w) of (r, s) \<Rightarrow> Some (r, (fst w, s)))"

definition in_world_opt :: "('s \<Rightarrow> ('a \<times> 's) option) \<Rightarrow> 's broker_world \<Rightarrow> ('a \<times> 's broker_world) option" where
  "in_world_opt f w = map_option (\<lambda>(r, s). (r, (fst w, s))) (f (snd w))"

definition mark_if_exited :: "string \<Rightarrow> process_state \<Rightarrow> 's broker_world \<Rightarrow> 's broker_world" where
  "mark_if_exited pid st w = (if is_exited st then (snd (markStatus pid ProcExited (fst w)), snd w) else w)"

definition stateFromRow :: "process_status \<Rightarrow> process_state" where
  "stateFromRow st = (case st of ProcRunning \<Rightarrow> Running | ProcReaped \<Rightarrow> Exited 143 | ProcExited \<Rightarrow> Exited 0)"

definition own_job :: "'h broker_deps \<Rightarrow> string \<Rightarrow> process_registry \<Rightarrow> bool" where
  "own_job deps pid rows \<longleftrightarrow>
     (case get_process rows pid of
        None \<Rightarrow> False
      | Some r \<Rightarrow> pc_scopeId r = bd_scopeId deps \<and> pc_kind r = ''background'')"

definition normalized_command :: "string \<Rightarrow> string" where
  "normalized_command command = ''bg: '' @ js_trim (js_squeeze command)"

definition running_job :: "'h broker_deps \<Rightarrow> 'h \<Rightarrow> string \<Rightarrow> process_registry \<Rightarrow> string option" where
  "running_job deps h command rows =
     (let redacted = bd_redactCommand deps h (normalized_command command)
      in if redacted = normalized_command command
         then map_option pc_processId
                (List.find (\<lambda>r. pc_kind r = ''background'' \<and> pc_command r = redacted \<and> pc_status r = ProcRunning)
                   (listByScope (bd_scopeId deps) rows))
         else None)"

text \<open>A job found in the registry is only joined when the sandbox still has it and it has not ended.\<close>

definition probe_job ::
  "('h, 's) sandbox \<Rightarrow> 'h \<Rightarrow> string option \<Rightarrow> 's broker_world \<Rightarrow> string option \<times> 's broker_world" where
  "probe_job sb h found w =
     (case found of
        None \<Rightarrow> (None, w)
      | Some pid \<Rightarrow>
          if pid = [] then (None, w)
          else
            case sb_readProcess sb h pid 0 (Some 1) 0 (snd w) of
              (Rejected _, s) \<Rightarrow> (None, (delete_process pid (fst w), s))
            | (Resolved r, s) \<Rightarrow>
                if is_exited (pr_status r) then (None, (snd (markStatus pid ProcExited (fst w)), s))
                else (Some pid, (fst w, s)))"

definition join_job ::
  "('h, 's) sandbox \<Rightarrow> 'h \<Rightarrow> string \<Rightarrow> 's broker_world \<Rightarrow> ((string, job_started) promise \<times> 's broker_world) option" where
  "join_job sb h pid w =
     and_then (in_world (sb_readProcess sb h pid 0 (Some DEFAULT_MAX_BYTES) 0) w) (\<lambda>r w1.
       Some (Resolved \<lparr> bs_processId = pid, bs_output = pr_chunks r, bs_cursor = pr_cursor r, bs_status = pr_status r,
                        bs_reattached = True \<rparr>,
             mark_if_exited pid (pr_status r) w1))"

definition start_options :: "'h broker_deps \<Rightarrow> poll_options" where
  "start_options deps =
     \<lparr> po_deadlineMs = or_default (bd_pollMs deps) 5000, po_waitMs = None, po_sinceCursor = None, po_collect = None, po_until = None \<rparr>"

definition new_job :: "'h broker_deps \<Rightarrow> 'h \<Rightarrow> string \<Rightarrow> int option \<Rightarrow> string \<Rightarrow> new_process_record" where
  "new_job deps h command ttlMs pid =
     \<lparr> np_processId = pid, np_scopeId = bd_scopeId deps, np_kind = ''background'',
       np_command = bd_redactCommand deps h (normalized_command command),
       np_ttlMs = min (or_default ttlMs (or_default (bd_ttlMs deps) DEFAULT_TTL_MS)) (or_default (bd_ttlMaxMs deps) DEFAULT_TTL_MAX_MS),
       np_sessionRef = (if truthy (bd_sessionRef deps) then bd_sessionRef deps else None), np_runId = None \<rparr>"

definition launch_job ::
  "('h, 's) sandbox \<Rightarrow> 'h broker_deps \<Rightarrow> 'h \<Rightarrow> string \<Rightarrow> int option \<Rightarrow> 's broker_world \<Rightarrow>
     ((string, job_started) promise \<times> 's broker_world) option" where
  "launch_job sb deps h command ttlMs w =
     and_then (in_world (sb_startProcess sb h command) w) (\<lambda>pid w1.
       case register_process (new_job deps h command ttlMs pid) (sb_now sb (snd w1)) (fst w1) of
         (Inl e, rows) \<Rightarrow> Some (Rejected e, (rows, snd w1))
       | (Inr _, rows) \<Rightarrow>
           and_then (in_world_opt (pollProcess sb h pid (start_options deps)) (rows, snd w1)) (\<lambda>r w2.
             Some (Resolved \<lparr> bs_processId = pid, bs_output = ps_output r, bs_cursor = ps_cursor r, bs_status = ps_status r,
                              bs_reattached = False \<rparr>,
                   mark_if_exited pid (ps_status r) w2)))"

definition bg_start ::
  "('h, 's) sandbox \<Rightarrow> 'h broker_deps \<Rightarrow> 'h \<Rightarrow> string \<Rightarrow> int option \<Rightarrow> 's broker_world \<Rightarrow>
     ((string, job_started) promise \<times> 's broker_world) option" where
  "bg_start sb deps h command ttlMs w =
     (case probe_job sb h (running_job deps h command (fst w)) w of
        (Some pid, w1) \<Rightarrow> join_job sb h pid w1
      | (None, w1) \<Rightarrow> launch_job sb deps h command ttlMs w1)"

definition no_such_job :: string where "no_such_job = ''no such background job''"

definition bg_poll ::
  "('h, 's) sandbox \<Rightarrow> 'h broker_deps \<Rightarrow> 'h \<Rightarrow> string \<Rightarrow> int option \<Rightarrow> int option \<Rightarrow> int option \<Rightarrow> 's broker_world \<Rightarrow>
     ((string, process_read) promise \<times> 's broker_world) option" where
  "bg_poll sb deps h pid sinceCursor maxBytes waitMs w =
     (if \<not> own_job deps pid (fst w) then Some (Rejected no_such_job, w)
      else
        and_then (in_world (sb_readProcess sb h pid (or_default sinceCursor 0) (Some (or_default maxBytes DEFAULT_MAX_BYTES))
            (or_default waitMs 0)) w)
          (\<lambda>r w1. Some (Resolved r, mark_if_exited pid (pr_status r) w1)))"

definition bg_write ::
  "('h, 's) sandbox \<Rightarrow> 'h broker_deps \<Rightarrow> 'h \<Rightarrow> string \<Rightarrow> string \<Rightarrow> 's broker_world \<Rightarrow>
     ((string, nat \<times> process_state) promise \<times> 's broker_world) option" where
  "bg_write sb deps h pid data w =
     (if \<not> own_job deps pid (fst w) then Some (Rejected no_such_job, w)
      else
        and_then (in_world (sb_writeStdin sb h pid data) w) (\<lambda>_ w1.
        and_then (in_world (sb_readProcess sb h pid 0 (Some 1) 0) w1) (\<lambda>r w2.
          Some (Resolved (length data, pr_status r), mark_if_exited pid (pr_status r) w2))))"

definition stop_process ::
  "('h, 's) sandbox \<Rightarrow> int \<Rightarrow> int \<Rightarrow> 'h \<Rightarrow> string \<Rightarrow> string \<Rightarrow> 's \<Rightarrow> ((string, process_state) promise \<times> 's) option" where
  "stop_process sb termGraceMs killGraceMs h pid signal s =
     and_then (Some (sb_signalProcess sb h pid signal s)) (\<lambda>_ s1.
     and_then (awaitProcessExit sb h pid termGraceMs s1) (\<lambda>st s2.
       if is_exited st \<or> signal = ''KILL'' then Some (Resolved st, s2)
       else and_then (Some (sb_signalProcess sb h pid ''KILL'' s2)) (\<lambda>_. awaitProcessExit sb h pid killGraceMs)))"

definition bg_stop ::
  "('h, 's) sandbox \<Rightarrow> 'h broker_deps \<Rightarrow> 'h \<Rightarrow> string \<Rightarrow> string option \<Rightarrow> 's broker_world \<Rightarrow>
     ((string, job_stopped) promise \<times> 's broker_world) option" where
  "bg_stop sb deps h pid signal w =
     (if \<not> own_job deps pid (fst w) then Some (Rejected no_such_job, w)
      else
        and_then (in_world_opt (stop_process sb (or_default (bd_termGraceMs deps) DEFAULT_TERM_GRACE_MS)
            (or_default (bd_killGraceMs deps) DEFAULT_KILL_GRACE_MS) h pid (or_default signal ''TERM'')) w) (\<lambda>st w1.
          Some (Resolved \<lparr> bp_processId = pid, bp_status = st, bp_stopped = is_exited st \<rparr>, mark_if_exited pid st w1)))"

definition bg_list :: "'h broker_deps \<Rightarrow> process_registry \<Rightarrow> job_summary list" where
  "bg_list deps rows =
     map (\<lambda>r. \<lparr> bj_processId = pc_processId r, bj_command = pc_command r, bj_status = stateFromRow (pc_status r),
                bj_registryStatus = pc_status r, bj_startedAt = pc_startedAt r \<rparr>)
       (filter (\<lambda>r. pc_kind r = ''background'') (listByScope (bd_scopeId deps) rows))"

section \<open>Properties\<close>

text \<open>
  What the loops rely on: a read does not take the clock back and a pause lasts at least as long as asked.
\<close>

definition clock_law :: "('h, 's) sandbox \<Rightarrow> bool" where
  "clock_law sb \<longleftrightarrow>
     (\<forall>h pid c m w s. sb_now sb s \<le> sb_now sb (snd (sb_readProcess sb h pid c m w s))) \<and>
     (\<forall>n s. sb_now sb s + n \<le> sb_now sb (sb_sleep sb n s))"

text \<open>
  What a sandbox says of processes that have ended, \<open>dead\<close>: a process that is read as exited, or is no
  longer there for a read or a signal, has ended, and no operation brings it back.
\<close>

definition death_law :: "('h, 's) sandbox \<Rightarrow> (string \<Rightarrow> 's \<Rightarrow> bool) \<Rightarrow> bool" where
  "death_law sb dead \<longleftrightarrow>
     (\<forall>h pid c m w s r s1. sb_readProcess sb h pid c m w s = (Resolved r, s1) \<longrightarrow> is_exited (pr_status r) \<longrightarrow> dead pid s1) \<and>
     (\<forall>h pid c m w s e s1. sb_readProcess sb h pid c m w s = (Rejected e, s1) \<longrightarrow> processIsGone e \<longrightarrow> dead pid s1) \<and>
     (\<forall>h pid g s e s1. sb_signalProcess sb h pid g s = (Rejected e, s1) \<longrightarrow> processIsGone e \<longrightarrow> dead pid s1) \<and>
     (\<forall>p s. dead p s \<longrightarrow>
        (\<forall>h pid c m w. dead p (snd (sb_readProcess sb h pid c m w s))) \<and>
        (\<forall>h pid g. dead p (snd (sb_signalProcess sb h pid g s))) \<and>
        (\<forall>h. dead p (snd (sb_teardown sb h s))) \<and>
        (\<forall>scope. dead p (snd (sb_provision sb scope s))) \<and>
        (\<forall>n. dead p (sb_sleep sb n s)))"

lemma pause_round_later:
  assumes "clock_law sb" "sb_now sb s \<le> sb_now sb s1" "sb_now sb s1 < deadline"
  shows "sb_now sb s < sb_now sb (pause_round sb deadline (sb_now sb s) s1)"
proof -
  have "sb_now sb s1 + min 50 (max 1 (deadline - sb_now sb s1))
      \<le> sb_now sb (sb_sleep sb (min 50 (max 1 (deadline - sb_now sb s1))) s1)"
    using assms(1) by (simp add: clock_law_def)
  with assms(2,3) show ?thesis by (auto simp: pause_round_def min_def max_def split: if_splits)
qed

text \<open>The loop returns: every round that is not the last takes time.\<close>

lemma poll_loop_returns:
  assumes "clock_law sb"
  shows "\<exists>x. poll_loop sb h pid opts deadline cursor out s = Some x"
proof (induction "nat (deadline - sb_now sb s)" arbitrary: cursor out s rule: less_induct)
  case less
  obtain p s1 where rd: "sb_readProcess sb h pid cursor None (read_wait opts deadline (sb_now sb s)) s = (p, s1)" by force
  have later: "sb_now sb s \<le> sb_now sb s1" using assms rd unfolding clock_law_def by (metis snd_conv)
  show ?case
  proof (cases p)
    case (Rejected e)
    then show ?thesis using rd by (subst poll_loop.simps) simp
  next
    case (Resolved r)
    show ?thesis
    proof (cases "poll_over opts deadline (sb_now sb s1) r (collected opts out r)")
      case True
      then show ?thesis using rd Resolved by (subst poll_loop.simps) simp
    next
      case False
      then have "sb_now sb s1 < deadline" by (auto simp: poll_over_def)
      then have "sb_now sb s < sb_now sb (pause_round sb deadline (sb_now sb s) s1)" "sb_now sb s < deadline"
        using pause_round_later [OF assms later] later by auto
      then have "\<exists>x. poll_loop sb h pid opts deadline (pr_cursor r) (collected opts out r)
          (pause_round sb deadline (sb_now sb s) s1) = Some x"
        by (intro less) auto
      then show ?thesis using rd Resolved False by (subst poll_loop.simps) simp
    qed
  qed
qed

lemma pollProcess_returns: "clock_law sb \<Longrightarrow> \<exists>x. pollProcess sb h pid opts s = Some x"
  unfolding pollProcess_def by (rule poll_loop_returns)

lemma awaitProcessExit_returns:
  assumes "clock_law sb"
  shows "\<exists>x. awaitProcessExit sb h pid graceMs s = Some x"
proof -
  obtain r s1 where "pollProcess sb h pid (exit_options graceMs) s = Some (r, s1)"
    using pollProcess_returns [OF assms, of h pid "exit_options graceMs" s] by auto
  then show ?thesis by (cases r) (auto simp: awaitProcessExit_def)
qed

text \<open>What a sequence of operations keeps, and what it has found out when it ends.\<close>

definition run_ok :: "(('e, 'a) promise \<times> 's) option \<Rightarrow> (('e, 'a) promise \<Rightarrow> 's \<Rightarrow> bool) \<Rightarrow> bool" where
  "run_ok m Q \<longleftrightarrow> (\<exists>r s. m = Some (r, s) \<and> Q r s)"

lemma run_ok_and_then:
  assumes "run_ok m Q" "\<And>e s. Q (Rejected e) s \<Longrightarrow> R (Rejected e) s" "\<And>x s. Q (Resolved x) s \<Longrightarrow> run_ok (f x s) R"
  shows "run_ok (and_then m f) R"
proof -
  obtain r s where "m = Some (r, s)" "Q r s" using assms(1) by (auto simp: run_ok_def)
  then show ?thesis using assms(2,3) by (cases r) (auto simp: and_then_def run_ok_def)
qed

text \<open>
  The outcome of a step of killing \<open>pid\<close> from a state in which \<open>D\<close> held the dead: nobody comes back, and
  an error that says the process is gone is right.
\<close>

definition kill_post ::
  "(string \<Rightarrow> 's \<Rightarrow> bool) \<Rightarrow> (string \<Rightarrow> bool) \<Rightarrow> string \<Rightarrow> ('a \<Rightarrow> bool) \<Rightarrow> (string, 'a) promise \<Rightarrow> 's \<Rightarrow> bool" where
  "kill_post dead D pid ended r s \<longleftrightarrow>
     (\<forall>p. D p \<longrightarrow> dead p s) \<and>
     (case r of Resolved x \<Rightarrow> ended x \<longrightarrow> dead pid s | Rejected e \<Rightarrow> processIsGone e \<longrightarrow> dead pid s)"

lemma poll_loop_dead:
  assumes "clock_law sb" and law: "death_law sb dead"
    and "poll_loop sb h pid opts deadline cursor out s = Some (r, s')" and "\<forall>p. D p \<longrightarrow> dead p s"
  shows "kill_post dead D pid (\<lambda>x. is_exited (ps_status x)) r s'"
  using assms(3,4)
proof (induction "nat (deadline - sb_now sb s)" arbitrary: cursor out s rule: less_induct)
  case less
  obtain p s1 where rd: "sb_readProcess sb h pid cursor None (read_wait opts deadline (sb_now sb s)) s = (p, s1)" by force
  have later: "sb_now sb s \<le> sb_now sb s1" using assms(1) rd unfolding clock_law_def by (metis snd_conv)
  have D1: "\<forall>p. D p \<longrightarrow> dead p s1" using less.prems(2) law rd unfolding death_law_def by (metis snd_conv)
  show ?case
  proof (cases p)
    case (Rejected e)
    then have "r = Rejected e" "s' = s1" using less.prems(1) rd by (subst (asm) poll_loop.simps; simp)+
    then show ?thesis using D1 rd Rejected law by (auto simp: kill_post_def death_law_def)
  next
    case (Resolved rr)
    show ?thesis
    proof (cases "poll_over opts deadline (sb_now sb s1) rr (collected opts out rr)")
      case True
      then have "r = Resolved \<lparr> ps_output = collected opts out rr, ps_cursor = pr_cursor rr, ps_status = pr_status rr \<rparr>" "s' = s1"
        using less.prems(1) rd Resolved by (subst (asm) poll_loop.simps; simp)+
      then show ?thesis using D1 rd Resolved law by (auto simp: kill_post_def death_law_def)
    next
      case False
      then have "sb_now sb s1 < deadline" by (auto simp: poll_over_def)
      then have t: "sb_now sb s < sb_now sb (pause_round sb deadline (sb_now sb s) s1)" "sb_now sb s < deadline"
        using pause_round_later [OF assms(1) later] later by auto
      have D2: "\<forall>p. D p \<longrightarrow> dead p (pause_round sb deadline (sb_now sb s) s1)"
        using D1 law by (auto simp: pause_round_def death_law_def)
      have "poll_loop sb h pid opts deadline (pr_cursor rr) (collected opts out rr)
          (pause_round sb deadline (sb_now sb s) s1) = Some (r, s')"
        using less.prems(1) rd Resolved False by (subst (asm) poll_loop.simps) simp
      from less.hyps [OF _ this D2] t show ?thesis by auto
    qed
  qed
qed

lemma await_dead:
  assumes "clock_law sb" "death_law sb dead" "\<forall>p. D p \<longrightarrow> dead p s"
  shows "run_ok (awaitProcessExit sb h pid graceMs s) (kill_post dead D pid is_exited)"
proof -
  obtain r s1 where r: "pollProcess sb h pid (exit_options graceMs) s = Some (r, s1)"
    using pollProcess_returns [OF assms(1), of h pid "exit_options graceMs" s] by auto
  have "kill_post dead D pid (\<lambda>x. is_exited (ps_status x)) r s1"
    by (rule poll_loop_dead [OF assms(1,2) r [unfolded pollProcess_def] assms(3)])
  with r show ?thesis by (cases r) (auto simp: awaitProcessExit_def run_ok_def kill_post_def)
qed

lemma signal_dead:
  assumes "death_law sb dead" "\<forall>p. D p \<longrightarrow> dead p s"
  shows "run_ok (Some (sb_signalProcess sb h pid g s)) (kill_post dead D pid (\<lambda>_. False))"
proof -
  obtain r s1 where r: "sb_signalProcess sb h pid g s = (r, s1)" by force
  have "\<forall>p. D p \<longrightarrow> dead p s1" using assms r unfolding death_law_def by (metis snd_conv)
  then show ?thesis using r assms(1) by (cases r) (auto simp: run_ok_def kill_post_def death_law_def)
qed

lemma run_ok_weaken: "run_ok m Q \<Longrightarrow> (\<And>r s. Q r s \<Longrightarrow> R r s) \<Longrightarrow> run_ok m R"
  by (auto simp: run_ok_def)

lemma kill_post_dead: "kill_post dead D pid ended r s \<Longrightarrow> \<forall>p. D p \<longrightarrow> dead p s"
  by (simp add: kill_post_def)

lemma kill_post_rejected: "kill_post dead D pid ended (Rejected e) s \<Longrightarrow> kill_post dead D pid ended' (Rejected e) s"
  by (simp add: kill_post_def)

lemma signal_then_await:
  assumes "clock_law sb" "death_law sb dead" "\<forall>p. D p \<longrightarrow> dead p s"
  shows "run_ok (and_then (Some (sb_signalProcess sb h pid g s)) (\<lambda>_. awaitProcessExit sb h pid graceMs)) (kill_post dead D pid is_exited)"
  by (rule run_ok_and_then [OF signal_dead [OF assms(2,3)]])
    (auto intro: kill_post_rejected await_dead [OF assms(1,2)] dest: kill_post_dead)

lemma kill_process_dead:
  assumes "clock_law sb" "death_law sb dead" "\<forall>p. D p \<longrightarrow> dead p s"
  shows "run_ok (kill_process sb termMs killMs h pid s) (kill_post dead D pid (\<lambda>_. True))"
  unfolding kill_process_def
proof (rule run_ok_and_then [OF signal_dead [OF assms(2,3)]])
  fix x :: unit and s1
  assume "kill_post dead D pid (\<lambda>_. False) (Resolved x) s1"
  then have D1: "\<forall>p. D p \<longrightarrow> dead p s1" by (rule kill_post_dead)
  show "run_ok (and_then (awaitProcessExit sb h pid termMs s1) (\<lambda>st s2.
      and_then (if is_exited st then Some (Resolved st, s2)
          else and_then (Some (sb_signalProcess sb h pid ''KILL'' s2)) (\<lambda>_. awaitProcessExit sb h pid killMs))
        (\<lambda>st s3. Some (if is_exited st then Resolved () else Rejected (''process survived TERM+KILL: '' @ pid), s3))))
      (kill_post dead D pid (\<lambda>_. True))"
  proof (rule run_ok_and_then [OF await_dead [OF assms(1,2) D1]])
    fix st s2 assume st: "kill_post dead D pid is_exited (Resolved st) s2"
    let ?m = "if is_exited st then Some (Resolved st, s2)
          else and_then (Some (sb_signalProcess sb h pid ''KILL'' s2)) (\<lambda>_. awaitProcessExit sb h pid killMs)"
    have "run_ok ?m (kill_post dead D pid is_exited)"
      using st signal_then_await [OF assms(1,2) kill_post_dead [OF st], of h pid "''KILL''" killMs]
      by (simp add: run_ok_def)
    then show "run_ok (and_then ?m (\<lambda>st s3. Some (if is_exited st then Resolved () else Rejected (''process survived TERM+KILL: '' @ pid), s3)))
        (kill_post dead D pid (\<lambda>_. True))"
      by (rule run_ok_and_then)
        (auto simp: run_ok_def kill_post_def processIsGone_def js_startsWith_def js_lower_def js_lower_char_def)
  qed (rule kill_post_rejected)
qed (rule kill_post_rejected)

lemma hook_dead:
  assumes "clock_law sb" "death_law sb dead" "\<forall>p. D p \<longrightarrow> dead p s"
  shows "run_ok (createReaperKillHook sb termMs killMs rec s)
     (\<lambda>r s1. (\<forall>p. D p \<longrightarrow> dead p s1) \<and> (r = Resolved () \<longrightarrow> dead (pc_processId rec) s1))"
proof -
  obtain hp s1 where h: "sb_provision sb (pc_scopeId rec) s = (hp, s1)" by force
  have D1: "\<forall>p. D p \<longrightarrow> dead p s1" using assms(2,3) h unfolding death_law_def by (metis snd_conv)
  show ?thesis
  proof (cases hp)
    case (Rejected e)
    with h D1 show ?thesis by (simp add: createReaperKillHook_def and_then_def run_ok_def)
  next
    case (Resolved h')
    obtain r s2 where k: "kill_process sb termMs killMs h' (pc_processId rec) s1 = Some (r, s2)"
        "kill_post dead D (pc_processId rec) (\<lambda>_. True) r s2"
      using kill_process_dead [OF assms(1,2) D1] unfolding run_ok_def by blast
    obtain t s3 where t: "sb_teardown sb h' s2 = (t, s3)" by force
    have stay: "dead p s2 \<Longrightarrow> dead p s3" for p using assms(2) t unfolding death_law_def by (metis snd_conv)
    show ?thesis
      using h Resolved k t stay
      by (cases t; cases r) (auto simp: createReaperKillHook_def and_then_def run_ok_def kill_post_def forgive_gone_def)
  qed
qed

definition reaped :: "process_record \<Rightarrow> process_record" where
  "reaped r = r\<lparr> pc_status := ProcReaped \<rparr>"

lemma sweep_rows_effect:
  assumes kill: "\<And>rec s D. \<forall>p. D p \<longrightarrow> dead p s \<Longrightarrow> run_ok (run_kill opts rec s)
      (\<lambda>r s1. (\<forall>p. D p \<longrightarrow> dead p s1) \<and> (r = Resolved () \<longrightarrow> dead (pc_processId rec) s1))"
    and onReaped: "\<And>f rec s p. ro_onReaped opts = Some f \<Longrightarrow> dead p s \<Longrightarrow> dead p (f rec s)"
    and "distinct (map pc_processId recs)" "\<forall>r \<in> set recs. pc_processId r \<in> dom (map_of rows)"
    and "\<forall>p. D p \<longrightarrow> dead p s"
  shows "\<exists>R rows' s'. sweep_rows opts recs n rows s = Some (n + length R, rows', s') \<and> distinct R \<and> set R \<subseteq> set recs \<and>
     (\<forall>pid. get_process rows' pid =
        (if pid \<in> pc_processId ` set R then map_option reaped (get_process rows pid) else get_process rows pid)) \<and>
     (\<forall>r \<in> set R. dead (pc_processId r) s') \<and> (\<forall>p. D p \<longrightarrow> dead p s')"
  using assms(3-5)
proof (induction recs arbitrary: n rows s D)
  case Nil
  then show ?case by (intro exI [of _ "[]"] exI [of _ rows] exI [of _ s]) auto
next
  case (Cons rec rest)
  obtain r s1 where k: "run_kill opts rec s = Some (r, s1)" "\<forall>p. D p \<longrightarrow> dead p s1"
      "r = Resolved () \<longrightarrow> dead (pc_processId rec) s1"
    using kill [OF Cons.prems(3), of rec] by (auto simp: run_ok_def)
  have d: "distinct (map pc_processId rest)" "pc_processId rec \<notin> pc_processId ` set rest" using Cons.prems(1) by auto
  show ?case
  proof (cases r)
    case (Rejected e)
    then show ?thesis using Cons.IH [OF d(1) _ k(2), of rows n] Cons.prems(2) k(1) by fastforce
  next
    case (Resolved u)
    obtain row where row: "map_of rows (pc_processId rec) = Some row" using Cons.prems(2) by auto
    let ?rows = "jmap_set (pc_processId rec) (reaped row) rows"
    let ?s = "case ro_onReaped opts of None \<Rightarrow> s1 | Some f \<Rightarrow> f rec s1"
    have D2: "\<forall>p. D p \<or> p = pc_processId rec \<longrightarrow> dead p ?s" using k Resolved onReaped by (auto split: option.splits)
    have dom: "\<forall>r \<in> set rest. pc_processId r \<in> dom (map_of ?rows)" using Cons.prems(2) by auto
    obtain R rows' s' where IH: "sweep_rows opts rest (Suc n) ?rows ?s = Some (Suc n + length R, rows', s')" "distinct R"
        "set R \<subseteq> set rest"
        "\<forall>pid. get_process rows' pid = (if pid \<in> pc_processId ` set R then map_option reaped (get_process ?rows pid) else get_process ?rows pid)"
        "\<forall>r \<in> set R. dead (pc_processId r) s'" "\<forall>p. D p \<or> p = pc_processId rec \<longrightarrow> dead p s'"
      using Cons.IH [OF d(1) dom D2, of "Suc n"] by blast
    have "rec \<notin> set R" "pc_processId rec \<notin> pc_processId ` set R" using IH(3) d(2) by auto
    moreover have "sweep_rows opts (rec # rest) n rows s = Some (n + length (rec # R), rows', s')"
      using k(1) Resolved row IH(1) by (simp add: markStatus_def reaped_def)
    ultimately show ?thesis using IH row by (intro exI [of _ "rec # R"]) (auto simp: get_process_def)
  qed
qed

text \<open>The rows of the registry carry the key they are kept under; every operation leaves it so.\<close>

definition registry_ok :: "process_registry \<Rightarrow> bool" where
  "registry_ok rows \<longleftrightarrow> distinct (map fst rows) \<and> (\<forall>(pid, r) \<in> set rows. pc_processId r = pid)"

lemma registry_ok_map_of: "registry_ok rows \<Longrightarrow> map_of rows pid = Some r \<Longrightarrow> pc_processId r = pid"
  by (auto simp: registry_ok_def dest: map_of_SomeD)

lemma registry_ok_set: "registry_ok rows \<Longrightarrow> pc_processId r = pid \<Longrightarrow> registry_ok (jmap_set pid r rows)"
  by (auto simp: registry_ok_def distinct_update in_set_jmap_set split: if_splits)

lemma registry_ok_ops:
  assumes "registry_ok rows"
  shows "registry_ok (snd (register_process rec now rows))" "registry_ok (snd (markStatus pid st rows))"
    "registry_ok (delete_process pid rows)"
proof -
  show "registry_ok (snd (register_process rec now rows))"
    using assms by (auto simp: register_process_def newRecord_def registry_ok_set)
  show "registry_ok (snd (markStatus pid st rows))"
    using assms registry_ok_map_of [OF assms, of pid] by (auto simp: markStatus_def registry_ok_set split: option.splits)
  show "registry_ok (delete_process pid rows)"
    using assms by (auto simp: delete_process_def registry_ok_def AList.delete_eq intro: distinct_map_filter)
qed

lemma expired_rows:
  assumes "registry_ok rows"
  shows "distinct (map pc_processId (listExpired now rows))"
    "r \<in> set (listExpired now rows) \<longleftrightarrow>
       get_process rows (pc_processId r) = Some r \<and> pc_status r = ProcRunning \<and> pc_expiresAt r \<le> now"
proof -
  have keys: "map pc_processId (map snd rows) = map fst rows" using assms by (auto simp: registry_ok_def)
  have "distinct (map pc_processId (map snd rows))" unfolding keys using assms by (simp add: registry_ok_def)
  then show "distinct (map pc_processId (listExpired now rows))"
    unfolding listExpired_def by (rule distinct_map_filter)
  have "r \<in> set (map snd rows) \<longleftrightarrow> map_of rows (pc_processId r) = Some r"
    using assms by (force simp: registry_ok_def map_of_eq_Some_iff)
  then show "r \<in> set (listExpired now rows) \<longleftrightarrow>
       get_process rows (pc_processId r) = Some r \<and> pc_status r = ProcRunning \<and> pc_expiresAt r \<le> now"
    by (auto simp: listExpired_def get_process_def)
qed


text \<open>
  The background tool keeps to its scope: a job of another scope, of another kind or of nobody can be
  neither read, written to nor stopped, and asking for it changes nothing; starting a job leaves every row of
  another scope alone unless the sandbox hands out an id that is taken, and a row it adds is due at the
  longest lifetime allowed.
\<close>

definition foreign_kept :: "string \<Rightarrow> process_registry \<Rightarrow> process_registry \<Rightarrow> bool" where
  "foreign_kept scopeId rows rows' \<longleftrightarrow>
     (\<forall>pid r. get_process rows pid = Some r \<longrightarrow> pc_scopeId r \<noteq> scopeId \<longrightarrow> get_process rows' pid = Some r)"

lemma foreign_kept_refl: "foreign_kept scopeId rows rows"
  by (simp add: foreign_kept_def)

lemma foreign_kept_own:
  assumes "get_process rows pid = Some r" "pc_scopeId r = scopeId"
  shows "foreign_kept scopeId rows (snd (markStatus pid st rows))" "foreign_kept scopeId rows (delete_process pid rows)"
  using assms by (auto simp: foreign_kept_def markStatus_def delete_process_def get_process_def)

lemma running_job_own:
  assumes "registry_ok rows" "running_job deps h command rows = Some pid"
  shows "\<exists>r. get_process rows pid = Some r \<and> pc_scopeId r = bd_scopeId deps"
proof -
  from assms(2) obtain r where r: "r \<in> set (listByScope (bd_scopeId deps) rows)" "pid = pc_processId r"
    by (auto simp: running_job_def Let_def split: if_splits dest!: find_SomeD)
  then obtain k where "(k, r) \<in> set rows" "pc_scopeId r = bd_scopeId deps" by (auto simp: listByScope_def)
  with assms(1) r(2) show ?thesis by (force simp: registry_ok_def get_process_def)
qed

lemma probe_job_own:
  assumes "registry_ok rows" "probe_job sb h (running_job deps h command rows) (rows, s) = (found, w)"
  shows "foreign_kept (bd_scopeId deps) rows (fst w)"
    "found = Some pid \<Longrightarrow> \<exists>r. get_process (fst w) pid = Some r \<and> pc_scopeId r = bd_scopeId deps"
proof -
  show "foreign_kept (bd_scopeId deps) rows (fst w)"
    using assms(2) running_job_own [OF assms(1), of deps h command] foreign_kept_own
    by (auto simp: probe_job_def foreign_kept_refl split: option.splits prod.splits promise.splits if_splits)
  show "\<exists>r. get_process (fst w) pid = Some r \<and> pc_scopeId r = bd_scopeId deps" if "found = Some pid"
    using assms(2) that running_job_own [OF assms(1), of deps h command]
    by (auto simp: probe_job_def split: option.splits prod.splits promise.splits if_splits)
qed

definition new_row_ok :: "'h broker_deps \<Rightarrow> string \<Rightarrow> process_record \<Rightarrow> bool" where
  "new_row_ok deps pid r \<longleftrightarrow> pc_processId r = pid \<and> pc_scopeId r = bd_scopeId deps \<and> pc_kind r = ''background'' \<and>
     pc_expiresAt r \<le> pc_startedAt r + or_default (bd_ttlMaxMs deps) DEFAULT_TTL_MAX_MS"

definition rows_safe :: "'h broker_deps \<Rightarrow> process_registry \<Rightarrow> process_registry \<Rightarrow> bool" where
  "rows_safe deps rows rows' \<longleftrightarrow> foreign_kept (bd_scopeId deps) rows rows' \<and>
     (\<forall>pid r. get_process rows' pid = Some r \<longrightarrow> get_process rows pid = None \<longrightarrow> new_row_ok deps pid r)"

lemma rows_safe_put:
  assumes safe: "rows_safe deps rows rows1" and put: "get_process rows2 = (get_process rows1)(pid \<mapsto> r)"
    and own: "\<And>q. get_process rows pid = Some q \<Longrightarrow> pc_scopeId q = bd_scopeId deps"
    and new: "get_process rows pid = None \<Longrightarrow> new_row_ok deps pid r"
  shows "rows_safe deps rows rows2"
  unfolding rows_safe_def foreign_kept_def
proof (intro conjI allI impI)
  fix p q assume q: "get_process rows p = Some q" "pc_scopeId q \<noteq> bd_scopeId deps"
  then have "p \<noteq> pid" using own by blast
  moreover have "get_process rows1 p = Some q" using safe q unfolding rows_safe_def foreign_kept_def by blast
  ultimately show "get_process rows2 p = Some q" using put by simp
next
  fix p q assume q: "get_process rows2 p = Some q" "get_process rows p = None"
  show "new_row_ok deps p q"
  proof (cases "p = pid")
    case True
    then show ?thesis using q new put by simp
  next
    case False
    then have "get_process rows1 p = Some q" using q(1) put by simp
    then show ?thesis using safe q(2) unfolding rows_safe_def by blast
  qed
qed

lemma rows_safe_mark:
  assumes "rows_safe deps rows (fst w)" "get_process (fst w) pid = Some r"
    and "\<And>q. get_process rows pid = Some q \<Longrightarrow> pc_scopeId q = bd_scopeId deps"
  shows "rows_safe deps rows (fst (mark_if_exited pid st w))"
proof (cases "is_exited st")
  case True
  then have put: "get_process (fst (mark_if_exited pid st w)) = (get_process (fst w))(pid \<mapsto> r\<lparr> pc_status := ProcExited \<rparr>)"
    using assms(2) by (simp add: mark_if_exited_def markStatus_def get_process_def fun_eq_iff)
  have new: "new_row_ok deps pid (r\<lparr> pc_status := ProcExited \<rparr>)" if "get_process rows pid = None"
  proof -
    have "new_row_ok deps pid r" using assms(1,2) that unfolding rows_safe_def by blast
    then show ?thesis by (simp add: new_row_ok_def)
  qed
  show ?thesis by (rule rows_safe_put [OF assms(1) put]) (use assms(3) new in blast)+
next
  case False
  with assms(1) show ?thesis by (simp add: mark_if_exited_def)
qed

lemma probe_rows_safe:
  assumes "registry_ok rows" "probe_job sb h (running_job deps h command rows) (rows, s) = (found, w)"
  shows "rows_safe deps rows (fst w)"
  unfolding rows_safe_def
proof (intro conjI allI impI)
  show "foreign_kept (bd_scopeId deps) rows (fst w)" by (rule probe_job_own [OF assms])
  fix pid r assume "get_process (fst w) pid = Some r" "get_process rows pid = None"
  then have False
    using assms(2) by (auto simp: probe_job_def markStatus_def delete_process_def get_process_def
        split: option.splits prod.splits promise.splits if_splits)
  then show "new_row_ok deps pid r" ..
qed

lemma launch_rows_safe:
  assumes "rows_safe deps rows (fst w)" "launch_job sb deps h command ttlMs w = Some (r, w')"
    and fresh: "\<And>s pid s1. sb_startProcess sb h command s = (Resolved pid, s1) \<Longrightarrow> get_process rows pid = None"
  shows "rows_safe deps rows (fst w')"
proof (cases "sb_startProcess sb h command (snd w)")
  case (Pair p s1)
  show ?thesis
  proof (cases p)
    case (Rejected e)
    then show ?thesis using assms(1,2) Pair by (auto simp: launch_job_def and_then_def in_world_def)
  next
    case (Resolved pid)
    let ?row = "(case newRecord (new_job deps h command ttlMs pid) (sb_now sb s1) of Inr row \<Rightarrow> row)"
    have none: "get_process rows pid = None" using fresh Pair Resolved by blast
    have reg: "register_process (new_job deps h command ttlMs pid) (sb_now sb s1) (fst w) = (Inr ?row, jmap_set pid ?row (fst w))"
      by (simp add: register_process_def newRecord_def new_job_def isDeclaredKind_def DECLARED_KINDS_def)
    have row: "new_row_ok deps pid ?row"
      by (simp add: new_row_ok_def newRecord_def new_job_def isDeclaredKind_def DECLARED_KINDS_def)
    have put: "get_process (jmap_set pid ?row (fst w)) = (get_process (fst w))(pid \<mapsto> ?row)"
      by (simp add: get_process_def fun_eq_iff)
    have safe: "rows_safe deps rows (jmap_set pid ?row (fst w))"
      by (rule rows_safe_put [OF assms(1) put]) (simp_all add: none row)
    obtain q s2 where "pollProcess sb h pid (start_options deps) s1 = Some (q, s2)"
      using assms(2) Pair Resolved reg
      by (cases "pollProcess sb h pid (start_options deps) s1") (auto simp: launch_job_def and_then_def in_world_def in_world_opt_def)
    then have "fst w' = jmap_set pid ?row (fst w) \<or> (\<exists>st. w' = mark_if_exited pid st (jmap_set pid ?row (fst w), s2))"
      using assms(2) Pair Resolved reg
      by (cases q) (auto simp: launch_job_def and_then_def in_world_def in_world_opt_def)
    moreover have "rows_safe deps rows (fst (mark_if_exited pid st (jmap_set pid ?row (fst w), s2)))" for st
      by (rule rows_safe_mark [where r = ?row]) (simp_all only: fst_conv safe put none fun_upd_same option.distinct)
    ultimately show ?thesis using safe by auto
  qed
qed

theorem background_confined:
  assumes "registry_ok rows"
  shows "\<not> own_job deps pid rows \<Longrightarrow>
      bg_poll sb deps h pid c m wt (rows, s) = Some (Rejected no_such_job, (rows, s)) \<and>
      bg_write sb deps h pid data (rows, s) = Some (Rejected no_such_job, (rows, s)) \<and>
      bg_stop sb deps h pid signal (rows, s) = Some (Rejected no_such_job, (rows, s))"
    and "bg_start sb deps h command ttlMs (rows, s) = Some (r, w) \<Longrightarrow>
      (\<And>s pid s1. sb_startProcess sb h command s = (Resolved pid, s1) \<Longrightarrow> get_process rows pid = None) \<Longrightarrow>
      rows_safe deps rows (fst w)"
    and "clock_law sb \<Longrightarrow> \<exists>x. bg_start sb deps h command ttlMs (rows, s) = Some x"
proof -
  show "bg_poll sb deps h pid c m wt (rows, s) = Some (Rejected no_such_job, (rows, s)) \<and>
      bg_write sb deps h pid data (rows, s) = Some (Rejected no_such_job, (rows, s)) \<and>
      bg_stop sb deps h pid signal (rows, s) = Some (Rejected no_such_job, (rows, s))" if "\<not> own_job deps pid rows"
    using that by (simp add: bg_poll_def bg_write_def bg_stop_def)
  obtain found w1 where p: "probe_job sb h (running_job deps h command rows) (rows, s) = (found, w1)"
    by (cases "probe_job sb h (running_job deps h command rows) (rows, s)")
  note safe = probe_rows_safe [OF assms p] and own = probe_job_own(2) [OF assms p]
  show "rows_safe deps rows (fst w)" if b: "bg_start sb deps h command ttlMs (rows, s) = Some (r, w)"
    and fresh: "\<And>s pid s1. sb_startProcess sb h command s = (Resolved pid, s1) \<Longrightarrow> get_process rows pid = None"
  proof (cases found)
    case None
    then show ?thesis using b p launch_rows_safe [OF safe _ fresh] by (simp add: bg_start_def)
  next
    case (Some pid)
    obtain q where q: "get_process (fst w1) pid = Some q" "pc_scopeId q = bd_scopeId deps" using own [OF Some] by blast
    have mine: "pc_scopeId x = bd_scopeId deps" if "get_process rows pid = Some x" for x
    proof (rule ccontr)
      assume "pc_scopeId x \<noteq> bd_scopeId deps"
      then have "get_process (fst w1) pid = Some x" using safe that unfolding rows_safe_def foreign_kept_def by blast
      with q \<open>pc_scopeId x \<noteq> bd_scopeId deps\<close> show False by simp
    qed
    obtain pr s1 where rd: "sb_readProcess sb h pid 0 (Some DEFAULT_MAX_BYTES) 0 (snd w1) = (pr, s1)" by force
    have "join_job sb h pid w1 = Some (r, w)" using b p Some by (simp add: bg_start_def)
    then have "fst w = fst w1 \<or> (\<exists>st. w = mark_if_exited pid st (fst w1, s1))"
      using rd by (cases pr) (auto simp: join_job_def and_then_def in_world_def)
    moreover have "rows_safe deps rows (fst (mark_if_exited pid st (fst w1, s1)))" for st
      by (rule rows_safe_mark [where r = q]) (simp_all add: safe q mine)
    ultimately show ?thesis using safe by metis
  qed
  show "\<exists>x. bg_start sb deps h command ttlMs (rows, s) = Some x" if "clock_law sb"
  proof -
    have "(pollProcess sb h pid opts s = None) = False" for h pid opts s
      using pollProcess_returns [OF that, of h pid opts s] by auto
    then show ?thesis
      using p by (auto simp del: not_None_eq simp: bg_start_def join_job_def launch_job_def and_then_def in_world_def in_world_opt_def
          split: option.splits prod.splits promise.splits sum.splits)
  qed
qed

section \<open>An example\<close>

text \<open>A sandbox with a clock and the processes it has: some end on \<open>TERM\<close>, some only on \<open>KILL\<close>, some never.\<close>

type_synonym demo_computer = "time \<times> string list"

definition demo_kill_signal :: "unit \<Rightarrow> string \<Rightarrow> string \<Rightarrow> demo_computer \<Rightarrow> (string, unit) promise \<times> demo_computer" where
  "demo_kill_signal h pid g s =
     (Resolved (),
      (fst s, if js_startsWith pid ''polite'' \<or> js_startsWith pid ''stubborn'' \<and> g = ''KILL'' then filter (\<lambda>p. p \<noteq> pid) (snd s) else snd s))"

definition demo_read :: "unit \<Rightarrow> string \<Rightarrow> int \<Rightarrow> int option \<Rightarrow> int \<Rightarrow> demo_computer \<Rightarrow> (string, process_read) promise \<times> demo_computer" where
  "demo_read h pid c m w s =
     (Resolved \<lparr> pr_chunks = [], pr_cursor = c, pr_status = (if pid \<in> set (snd s) then Running else Exited 143) \<rparr>, s)"

definition demo_sandbox :: "(unit, demo_computer) sandbox" where
  "demo_sandbox =
     \<lparr> sb_now = fst, sb_sleep = \<lambda>n s. (fst s + n, snd s), sb_provision = \<lambda>_ s. (Resolved (), s), sb_teardown = \<lambda>_ s. (Resolved (), s),
       sb_startProcess = \<lambda>_ _ s. (Rejected ''no'', s), sb_readProcess = demo_read, sb_writeStdin = \<lambda>_ _ _ s. (Resolved (), s),
       sb_signalProcess = demo_kill_signal \<rparr>"

lemma demo_sandbox_laws: "clock_law demo_sandbox" "death_law demo_sandbox (\<lambda>p s. p \<notin> set (snd s))"
  by (auto simp: clock_law_def death_law_def demo_sandbox_def demo_read_def demo_kill_signal_def is_exited_def processIsGone_def
      split: if_splits)

definition demo_process :: "string \<Rightarrow> time \<Rightarrow> process_record" where
  "demo_process pid expires =
     \<lparr> pc_processId = pid, pc_scopeId = ''s'', pc_kind = ''background'', pc_command = ''bg: x'', pc_startedAt = 0, pc_expiresAt = expires,
       pc_status = ProcRunning, pc_sessionRef = None, pc_runId = None \<rparr>"

definition demo_processes :: process_registry where
  "demo_processes =
     map (\<lambda>(pid, t). (pid, demo_process pid t)) [(''polite'', 9), (''stubborn'', 10), (''undead'', 8), (''polite2'', 11)]"

definition demo_reaper :: "demo_computer reaper_options" where
  "demo_reaper = \<lparr> ro_kill = Some (createReaperKillHook demo_sandbox 60 40), ro_onReaped = None \<rparr>"

definition demo_swept :: "(nat \<times> process_registry \<times> demo_computer) option" where
  "demo_swept = sweep_processes demo_reaper 10 demo_processes (10, map fst demo_processes)"


end
