(* ===== verification/Monitors.thy ===== *)
theory Monitors
  imports Cron Processes
begin

text \<open>
  Watches on background jobs (\<open>src/monitors/monitor-store.ts\<close>, \<open>monitor-broker.ts\<close>, \<open>monitor-poller.ts\<close>): the
  store of monitors, arming and removing one, the patterns that say which lines of output matter, and
  the poller that reads every watched job and wakes the agent with what is new. The sandbox is that of
  \<open>Processes\<close>, a firing that of \<open>Triggers\<close>. While a firing is awaited the agent it wakes may change the
  store; \<open>pd_during\<close> says how. Characters outside the alphabet are written as \<open>~\<close>.
\<close>

section \<open>The store\<close>

record monitor = trigger_base +
  mo_processId :: string
  mo_command :: string
  mo_threadRef :: string
  mo_instructions :: "string option"
  mo_pattern :: "string option"
  mo_cursor :: int
  mo_tail :: "string option"
  mo_expiresAt :: time
  mo_lastError :: "string option"

record create_monitor_input = create_trigger_input +
  cm_processId :: string
  cm_command :: string
  cm_threadRef :: string
  cm_instructions :: "string option"
  cm_pattern :: "string option"
  cm_cursor :: "int option"
  cm_expiresAt :: time

definition build_monitor :: "create_monitor_input \<Rightarrow> string \<Rightarrow> time \<Rightarrow> monitor" where
  "build_monitor input i now =
     trigger_base.extend (buildTriggerBase (create_trigger_input.truncate input) i now)
       \<lparr> mo_processId = cm_processId input, mo_command = cm_command input, mo_threadRef = cm_threadRef input,
         mo_instructions = cm_instructions input, mo_pattern = cm_pattern input, mo_cursor = or_default (cm_cursor input) 0,
         mo_tail = None, mo_expiresAt = cm_expiresAt input, mo_lastError = None \<rparr>"

definition create_monitor ::
  "create_monitor_input \<Rightarrow> string \<Rightarrow> time \<Rightarrow> monitor mem_map \<Rightarrow> monitor option \<times> monitor mem_map" where
  "create_monitor input i now m =
     (if \<not> assertNoEscalation (ct_owner input) (ct_createdBy input) (ct_ownerConsentedAt input) then (None, m)
      else let mo = build_monitor input i now in (Some mo, mm_put (tb_id mo) mo m))"

definition enabled_monitors :: "monitor mem_map \<Rightarrow> monitor list" where
  "enabled_monitors m = filter tb_enabled (mm_all m)"

definition setEnabled_monitor :: "string \<Rightarrow> bool \<Rightarrow> monitor mem_map \<Rightarrow> monitor mem_map" where
  "setEnabled_monitor i b m = snd (mm_update i (\<lambda>x. x\<lparr> tb_enabled := b \<rparr>) m)"

definition delete_monitor :: "string \<Rightarrow> monitor mem_map \<Rightarrow> monitor mem_map" where
  "delete_monitor i m = mm_delete i m"

definition advanced :: "int \<Rightarrow> string option \<Rightarrow> time option \<Rightarrow> monitor \<Rightarrow> monitor" where
  "advanced cursor tail firedAt x =
     x\<lparr> mo_cursor := cursor, mo_tail := tail,
        tb_lastFiredAt := (case firedAt of Some t \<Rightarrow> Some t | None \<Rightarrow> tb_lastFiredAt x) \<rparr>"

definition advance_monitor :: "string \<Rightarrow> int \<Rightarrow> string option \<Rightarrow> time option \<Rightarrow> monitor mem_map \<Rightarrow> monitor mem_map" where
  "advance_monitor i cursor tail firedAt m = snd (mm_update i (advanced cursor tail firedAt) m)"

definition patched_monitor :: "string option \<Rightarrow> string option \<Rightarrow> int option \<Rightarrow> monitor \<Rightarrow> monitor" where
  "patched_monitor instructions pattern cursor x =
     x\<lparr> mo_instructions := (case instructions of Some v \<Rightarrow> Some v | None \<Rightarrow> mo_instructions x),
        mo_pattern := (case pattern of Some v \<Rightarrow> Some v | None \<Rightarrow> mo_pattern x),
        mo_cursor := (case cursor of Some c \<Rightarrow> c | None \<Rightarrow> mo_cursor x),
        mo_tail := (if cursor \<noteq> None then None else mo_tail x) \<rparr>"

definition update_monitor :: "string \<Rightarrow> string option \<Rightarrow> string option \<Rightarrow> int option \<Rightarrow> monitor mem_map \<Rightarrow> monitor mem_map" where
  "update_monitor i instructions pattern cursor m =
     (if instructions = None \<and> pattern = None \<and> cursor = None then m
      else snd (mm_update i (patched_monitor instructions pattern cursor) m))"

definition recordError_monitor :: "string \<Rightarrow> string \<Rightarrow> monitor mem_map \<Rightarrow> monitor mem_map" where
  "recordError_monitor i e m = snd (mm_update i (\<lambda>x. x\<lparr> mo_lastError := Some e \<rparr>) m)"

section \<open>Patterns\<close>

definition MONITOR_PATTERN_CHARS :: nat where "MONITOR_PATTERN_CHARS = 256"

definition regex_chars :: string where "regex_chars = [CHR 0x5C] @ ''[](){}`*+?''"

record alternative =
  al_literal :: string
  al_starts :: bool
  al_ends :: bool

definition compile_alternative :: "string \<Rightarrow> string + alternative" where
  "compile_alternative raw =
     (if raw = [] then Inl ''pattern alternatives must not be empty''
      else
        let starts = js_startsWith raw ''^''; ends = js_endsWith raw ''$'';
            tail = (if starts then tl raw else raw); literal = (if ends then butlast tail else tail)
        in if literal = [] \<or> js_includes literal ''^'' \<or> js_includes literal ''$''
           then Inl ''^ and $ are supported only as alternative anchors''
           else Inr \<lparr> al_literal = literal, al_starts = starts, al_ends = ends \<rparr>)"

fun compile_alternatives :: "string list \<Rightarrow> string + alternative list" where
  "compile_alternatives [] = Inr []"
| "compile_alternatives (raw # rest) =
     (case compile_alternative raw of
        Inl e \<Rightarrow> Inl e
      | Inr a \<Rightarrow> (case compile_alternatives rest of Inl e \<Rightarrow> Inl e | Inr as \<Rightarrow> Inr (a # as)))"

definition alternative_matches :: "string \<Rightarrow> alternative \<Rightarrow> bool" where
  "alternative_matches line a \<longleftrightarrow>
     (if al_starts a \<and> al_ends a then line = al_literal a
      else if al_starts a then js_startsWith line (al_literal a)
      else if al_ends a then js_endsWith line (al_literal a)
      else js_includes line (al_literal a))"

definition line_matches :: "alternative list \<Rightarrow> string \<Rightarrow> bool" where
  "line_matches alternatives line \<longleftrightarrow> list_ex (alternative_matches line) alternatives"

definition compileMonitorPattern :: "string \<Rightarrow> string + alternative list" where
  "compileMonitorPattern pattern =
     (if pattern = [] \<or> MONITOR_PATTERN_CHARS < length pattern then Inl ''pattern must be 1-256 characters''
      else if list_ex (\<lambda>c. c \<in> set regex_chars) pattern
      then Inl ''pattern must use literal alternatives, with optional ^ and $ anchors''
      else compile_alternatives (js_split (CHR ''|'') pattern))"

section \<open>Arming and removing a watch\<close>

record monitor_broker_deps =
  mb_scopeId :: string
  mb_owner :: string
  mb_ownerScopeId :: scope_id
  mb_threadRef :: string
  mb_destination :: "destination option"
  mb_graceMs :: "int option"

record watch_opts =
  wo_instructions :: "string option"
  wo_pattern :: "string option"
  wo_sinceCursor :: "int option"

record watch_result =
  wr_monitorId :: string
  wr_processId :: string
  wr_reattached :: bool
  wr_expiresAt :: time

definition EXPIRY_GRACE_MS :: int where "EXPIRY_GRACE_MS = 5 * 60000"

fun process_status_name :: "process_status \<Rightarrow> string" where
  "process_status_name ProcRunning = ''running''"
| "process_status_name ProcExited = ''exited''"
| "process_status_name ProcReaped = ''reaped''"

definition watchable :: "monitor_broker_deps \<Rightarrow> string \<Rightarrow> process_registry \<Rightarrow> string + process_record" where
  "watchable deps pid procs =
     (case get_process procs pid of
        None \<Rightarrow> Inl ''no such background job to watch''
      | Some rec \<Rightarrow>
          if pc_scopeId rec \<noteq> mb_scopeId deps \<or> pc_kind rec \<noteq> ''background'' then Inl ''no such background job to watch''
          else if pc_status rec \<noteq> ProcRunning
          then Inl (''background job already '' @ process_status_name (pc_status rec) @ '' ~ nothing left to watch'')
          else Inr rec)"

definition watch_input :: "monitor_broker_deps \<Rightarrow> string \<Rightarrow> process_record \<Rightarrow> watch_opts \<Rightarrow> create_monitor_input" where
  "watch_input deps pid rec opts =
     create_trigger_input.extend
       \<lparr> ct_ownerScopeId = mb_ownerScopeId deps, ct_owner = mb_owner deps, ct_createdBy = mb_owner deps,
         ct_destination = mb_destination deps, ct_ownerConsentedAt = None, ct_recipientConsent = None \<rparr>
       \<lparr> cm_processId = pid, cm_command = pc_command rec, cm_threadRef = mb_threadRef deps,
         cm_instructions = wo_instructions opts, cm_pattern = wo_pattern opts, cm_cursor = wo_sinceCursor opts,
         cm_expiresAt = pc_expiresAt rec + or_default (mb_graceMs deps) EXPIRY_GRACE_MS \<rparr>"

definition armed_for :: "monitor_broker_deps \<Rightarrow> string \<Rightarrow> monitor \<Rightarrow> bool" where
  "armed_for deps pid m \<longleftrightarrow> tb_enabled m \<and> mo_processId m = pid \<and> mo_threadRef m = mb_threadRef deps"

definition watch_job ::
  "monitor_broker_deps \<Rightarrow> process_registry \<Rightarrow> string \<Rightarrow> watch_opts \<Rightarrow> string \<Rightarrow> time \<Rightarrow> monitor mem_map \<Rightarrow>
     (string + watch_result) \<times> monitor mem_map" where
  "watch_job deps procs pid opts newId now m =
     (case watchable deps pid procs of
        Inl e \<Rightarrow> (Inl e, m)
      | Inr rec \<Rightarrow>
          (case (case wo_pattern opts of None \<Rightarrow> Inr [] | Some p \<Rightarrow> compileMonitorPattern p) of
             Inl e \<Rightarrow> (Inl (''invalid pattern: '' @ e), m)
           | Inr _ \<Rightarrow>
               (case List.find (armed_for deps pid) (mm_all m) of
                  Some existing \<Rightarrow>
                    (Inr \<lparr> wr_monitorId = tb_id existing, wr_processId = pid, wr_reattached = True, wr_expiresAt = mo_expiresAt existing \<rparr>,
                     update_monitor (tb_id existing) (wo_instructions opts) (wo_pattern opts) (wo_sinceCursor opts) m)
                | None \<Rightarrow>
                    (case create_monitor (watch_input deps pid rec opts) newId now m of
                       (None, m1) \<Rightarrow> (Inl ''assigning a different owner requires that owner's consent'', m1)
                     | (Some mo, m1) \<Rightarrow>
                         (Inr \<lparr> wr_monitorId = tb_id mo, wr_processId = pid, wr_reattached = False, wr_expiresAt = mo_expiresAt mo \<rparr>, m1)))))"

definition unwatch :: "monitor_broker_deps \<Rightarrow> string \<Rightarrow> monitor mem_map \<Rightarrow> bool \<times> monitor mem_map" where
  "unwatch deps i m =
     (case mm_get m i of
        None \<Rightarrow> (False, m)
      | Some x \<Rightarrow> if tb_ownerScopeId x \<noteq> mb_ownerScopeId deps then (False, m) else (True, delete_monitor i m))"

definition list_watches :: "monitor_broker_deps \<Rightarrow> monitor mem_map \<Rightarrow> monitor list" where
  "list_watches deps m = filter (\<lambda>x. tb_ownerScopeId x = mb_ownerScopeId deps) (mm_all m)"

section \<open>What the agent is told\<close>

datatype monitor_event = EvOutput | EvExited int | EvExpired | EvLost | EvQuiet int

definition MAX_EVENT_CHARS :: int where "MAX_EVENT_CHARS = 16000"
definition MAX_TAIL_CHARS :: int where "MAX_TAIL_CHARS = 4096"
definition MAX_READ_BYTES :: int where "MAX_READ_BYTES = 64 * 1024"
definition DEFAULT_HEARTBEAT_MS :: int where "DEFAULT_HEARTBEAT_MS = 180000"
definition DEFAULT_MIN_FIRE_INTERVAL_MS :: int where "DEFAULT_MIN_FIRE_INTERVAL_MS = 60000"

definition lf :: char where "lf = CHR 0x0A"

definition filterLines :: "string \<Rightarrow> string \<Rightarrow> string" where
  "filterLines chunk pattern =
     (case compileMonitorPattern pattern of
        Inl _ \<Rightarrow> chunk
      | Inr alts \<Rightarrow> js_join [lf] (filter (\<lambda>l. l \<noteq> [] \<and> line_matches alts l) (js_split lf chunk)))"

fun describeEvent :: "monitor_event \<Rightarrow> string" where
  "describeEvent (EvExited code) = ''It just exited with code '' @ js_show_int code @ ''.''"
| "describeEvent EvExpired =
     ''Your watch on it expired (the job may still be running ~ `background poll` it, or arm a new watch if you still need one).''"
| "describeEvent EvLost = ''It is no longer on your computer (likely lost to a restart) ~ treat it as gone.''"
| "describeEvent (EvQuiet mins) =
     ''It's still running ~ just nothing wake-worthy in the last ~'' @ js_show_int mins @
     '' min. Its most recent raw output (if any) is below so you can read where it's up to.''"
| "describeEvent EvOutput = ''It produced new output.''"

fun replyGuidance :: "monitor_event \<Rightarrow> string" where
  "replyGuidance (EvQuiet _) =
     ''This heartbeat exists so they can tell a quiet job from a stalled one: a one-line still-running note is the point, unless they asked you to stay quiet. ''"
| "replyGuidance EvOutput = ''If the new output is just noise they wouldn't care about, finish silently. ''"
| "replyGuidance _ =
     ''This is the last update this watch will send, so stay quiet only if they explicitly asked for silence on this outcome. ''"

definition capped_output :: "string \<Rightarrow> string" where
  "capped_output out = (if MAX_EVENT_CHARS < int (length out) then ''~[truncated]'' @ [lf] @ js_slice_from out (- MAX_EVENT_CHARS) else out)"

definition renderEvent :: "monitor \<Rightarrow> string \<Rightarrow> monitor_event \<Rightarrow> string \<times> string" where
  "renderEvent m out ev =
     (js_join [lf]
        ([''[background job update ~ automated, not a user message] You are watching background job '' @ mo_processId m @ '' (`'' @
            mo_command m @ ''`) in this conversation. '' @ describeEvent ev] @
         (if js_trim (capped_output out) \<noteq> [] then [[], ''<output>'', capped_output out, ''</output>''] else []) @
         (if truthy (mo_instructions m) then [[], ''When you armed this watch you said: '' @ the (mo_instructions m)] else []) @
         [[],
          ''Act on this. The user can't see the job, so when something changed that's worth telling them, reply with a brief update ~ it posts to this conversation ~ saying where things stand and what to expect next. '' @
          replyGuidance ev @ ''Use the `background` tool (poll/stop/watch) if you need more than what's shown.'']),
      capped_output out)"

section \<open>One poll\<close>

record ('h, 's) poller_deps =
  pd_supported :: bool
  pd_sandbox :: "('h, 's) sandbox"
  pd_triggers :: "string trigger_deps"
  pd_heartbeatMs :: int
  pd_minFireIntervalMs :: int
  pd_maxFiresPerTick :: nat
  pd_during :: "string \<Rightarrow> monitor mem_map \<Rightarrow> monitor mem_map"

record 's monitor_world =
  mw_monitors :: "monitor mem_map"
  mw_processes :: process_registry
  mw_triggers :: trigger_world
  mw_env :: 's

definition monitor_spec :: "monitor \<Rightarrow> string \<Rightarrow> string \<times> string \<Rightarrow> bool \<Rightarrow> trigger_spec" where
  "monitor_spec m fireKey event withErrorNotice =
     \<lparr> sp_owner = tb_owner m, sp_ownerScopeId = tb_ownerScopeId m, sp_input = fst event, sp_securityScreenData = Some (snd event),
       sp_fireKey = fireKey, sp_surface = ''monitor'', sp_destination = tb_destination m, sp_message = None,
       sp_threadRef = Some (mo_threadRef m), sp_runAs = None, sp_members = None, sp_recipientConsent = None,
       sp_recipientConsentRequired = False, sp_shadow = False, sp_thinkingLevel = None, sp_readOnly = False,
       sp_turnWallClockMs = None,
       sp_errorNotice = (if withErrorNotice
          then Some (\<lambda>e. ''~ A background-job update (`'' @ mo_command m @ ''`) could not run: '' @ e) else None) \<rparr>"

definition fire_monitor ::
  "('h, 's) poller_deps \<Rightarrow> stamp \<Rightarrow> monitor \<Rightarrow> string \<Rightarrow> string \<times> string \<Rightarrow> bool \<Rightarrow> 's monitor_world \<Rightarrow>
     (string, trigger_outcome) promise \<times> 's monitor_world" where
  "fire_monitor deps st m fireKey event withErrorNotice w =
     (case runTrigger (pd_triggers deps) (sm_refreshedAt st) (sm_startedAt st) (sm_endedAt st) (sm_deliveryId st) (sm_noticeId st)
             (monitor_spec m fireKey event withErrorNotice) (mw_triggers w) of
        (r, tw) \<Rightarrow> (r, w\<lparr> mw_triggers := tw, mw_monitors := pd_during deps fireKey (mw_monitors w) \<rparr>))"

definition on_monitors :: "(monitor mem_map \<Rightarrow> monitor mem_map) \<Rightarrow> 's monitor_world \<Rightarrow> 's monitor_world" where
  "on_monitors f w = w\<lparr> mw_monitors := f (mw_monitors w) \<rparr>"

definition note_error :: "monitor \<Rightarrow> trigger_outcome \<Rightarrow> 's monitor_world \<Rightarrow> 's monitor_world" where
  "note_error m out w =
     (case if_truthy (to_note out) of None \<Rightarrow> w | Some n \<Rightarrow> on_monitors (recordError_monitor (tb_id m) n) w)"

definition monitor_key :: "monitor \<Rightarrow> string \<Rightarrow> string" where
  "monitor_key m suffix = ''monitor:'' @ tb_id m @ '':'' @ suffix"

definition reportLost ::
  "('h, 's) poller_deps \<Rightarrow> stamp \<Rightarrow> monitor \<Rightarrow> 's monitor_world \<Rightarrow> (string, unit) promise \<times> 's monitor_world" where
  "reportLost deps st m w =
     (case fire_monitor deps st m (monitor_key m ''lost'') (renderEvent m (or_default (mo_tail m) []) EvLost) False w of
        (Rejected e, w1) \<Rightarrow> (Rejected e, w1)
      | (Resolved out, w1) \<Rightarrow>
          (Resolved (),
           on_monitors (setEnabled_monitor (tb_id m) False) (if \<not> to_authzFailed out then note_error m out w1 else w1)))"

definition stillLive :: "monitor \<Rightarrow> 's monitor_world \<Rightarrow> bool" where
  "stillLive m w \<longleftrightarrow> (case mm_get (mw_monitors w) (tb_id m) of None \<Rightarrow> False | Some fresh \<Rightarrow> tb_enabled fresh)"

text \<open>What a read comes to: the text to report and the unfinished line that is kept for the next read.\<close>

record digest =
  dg_exited :: bool
  dg_expired :: bool
  dg_raw :: string
  dg_events :: string
  dg_tail :: "string option"

definition whole_lines :: "string \<Rightarrow> string" where
  "whole_lines raw = rev (dropWhile (\<lambda>c. c \<noteq> lf) (rev raw))"

definition open_line :: "string \<Rightarrow> string" where
  "open_line raw = rev (takeWhile (\<lambda>c. c \<noteq> lf) (rev raw))"

definition kept_tail :: "string \<Rightarrow> string option" where
  "kept_tail raw = if_truthy (Some (js_slice_from (open_line raw) (- MAX_TAIL_CHARS)))"

definition digest_read :: "monitor \<Rightarrow> time \<Rightarrow> process_read \<Rightarrow> digest" where
  "digest_read m t r =
     (let exited = is_exited (pr_status r); expired = (\<not> exited \<and> mo_expiresAt m \<le> t);
          raw = or_default (mo_tail m) [] @ pr_chunks r
      in if truthy (mo_pattern m)
         then (if exited \<or> expired
               then \<lparr> dg_exited = exited, dg_expired = expired, dg_raw = raw, dg_events = filterLines raw (the (mo_pattern m)), dg_tail = None \<rparr>
               else \<lparr> dg_exited = exited, dg_expired = expired, dg_raw = raw,
                      dg_events = (if whole_lines raw = [] then [] else filterLines (whole_lines raw) (the (mo_pattern m))),
                      dg_tail = kept_tail raw \<rparr>)
         else \<lparr> dg_exited = exited, dg_expired = expired, dg_raw = raw, dg_events = raw, dg_tail = None \<rparr>)"

text \<open>What the poll does with it.\<close>

datatype poll_action =
    Beat time int
  | Skip
  | Throttle
  | Wake string monitor_event

definition quiet_since :: "monitor \<Rightarrow> time" where
  "quiet_since m = or_default (tb_lastFiredAt m) (tb_createdAt m)"

definition quiet_mins :: "time \<Rightarrow> time \<Rightarrow> int" where
  "quiet_mins t since = max 1 ((2 * (t - since) + 60000) div 120000)"

definition next_action :: "('h, 's) poller_deps \<Rightarrow> monitor \<Rightarrow> time \<Rightarrow> process_read \<Rightarrow> poll_action" where
  "next_action deps m t r =
     (let d = digest_read m t r
      in if js_trim (dg_events d) = [] \<and> \<not> dg_exited d \<and> \<not> dg_expired d
         then (if 0 < pd_heartbeatMs deps \<and> pd_heartbeatMs deps \<le> t - quiet_since m
               then Beat (quiet_since m) (quiet_mins t (quiet_since m)) else Skip)
         else if \<not> dg_exited d \<and> \<not> dg_expired d \<and> 0 < pd_minFireIntervalMs deps \<and>
           (case tb_lastFiredAt m of None \<Rightarrow> False | Some firedAt \<Rightarrow> t - firedAt < pd_minFireIntervalMs deps)
         then Throttle
         else if dg_exited d then Wake (monitor_key m ''exit'') (EvExited (case pr_status r of Exited code \<Rightarrow> code | Running \<Rightarrow> 0))
         else if dg_expired d then Wake (monitor_key m ''expired'') EvExpired
         else Wake (monitor_key m (js_show_int (mo_cursor m))) EvOutput)"

definition after_beat :: "monitor \<Rightarrow> time \<Rightarrow> process_read \<Rightarrow> trigger_outcome \<Rightarrow> 's monitor_world \<Rightarrow> 's monitor_world" where
  "after_beat m t r out w =
     (if to_authzFailed out then on_monitors (setEnabled_monitor (tb_id m) False) w
      else on_monitors (advance_monitor (tb_id m) (pr_cursor r) (dg_tail (digest_read m t r)) (Some t)) (note_error m out w))"

definition after_wake :: "monitor \<Rightarrow> time \<Rightarrow> process_read \<Rightarrow> trigger_outcome \<Rightarrow> 's monitor_world \<Rightarrow> 's monitor_world" where
  "after_wake m t r out w =
     (if to_authzFailed out then on_monitors (setEnabled_monitor (tb_id m) False) w
      else
        let d = digest_read m t r; w1 = note_error m out w;
            w2 = (if mm_get (mw_monitors w1) (tb_id m) \<noteq> None
                  then on_monitors (\<lambda>ms.
                         (if dg_exited d \<or> dg_expired d then setEnabled_monitor (tb_id m) False else id)
                           (advance_monitor (tb_id m) (pr_cursor r) (dg_tail d) (Some t) ms)) w1
                  else w1)
        in if dg_exited d then w2\<lparr> mw_processes := snd (markStatus (mo_processId m) ProcExited (mw_processes w2)) \<rparr> else w2)"

definition poll_read ::
  "('h, 's) poller_deps \<Rightarrow> stamp \<Rightarrow> monitor \<Rightarrow> time \<Rightarrow> process_read \<Rightarrow> 's monitor_world \<Rightarrow> (string, bool) promise \<times> 's monitor_world" where
  "poll_read deps st m t r w =
     (let d = digest_read m t r
      in case next_action deps m t r of
           Beat since mins \<Rightarrow>
             (case fire_monitor deps st m (monitor_key m (''quiet:'' @ js_show_int since))
                 (renderEvent m (js_slice_from (dg_raw d) (- MAX_TAIL_CHARS)) (EvQuiet mins)) False w of
                (Rejected e, w1) \<Rightarrow> (Rejected e, w1)
              | (Resolved out, w1) \<Rightarrow> (Resolved True, after_beat m t r out w1))
         | Skip \<Rightarrow>
             (Resolved False,
              if pr_cursor r \<noteq> mo_cursor m \<or> dg_tail d \<noteq> mo_tail m
              then on_monitors (advance_monitor (tb_id m) (pr_cursor r) (dg_tail d) None) w else w)
         | Throttle \<Rightarrow> (Resolved False, w)
         | Wake key ev \<Rightarrow>
             (case fire_monitor deps st m key (renderEvent m (dg_events d) ev) True w of
                (Rejected e, w1) \<Rightarrow> (Rejected e, w1)
              | (Resolved out, w1) \<Rightarrow> (Resolved True, after_wake m t r out w1)))"

definition poll_monitor ::
  "('h, 's) poller_deps \<Rightarrow> stamp \<Rightarrow> 'h \<Rightarrow> monitor \<Rightarrow> time \<Rightarrow> 's monitor_world \<Rightarrow> (string, bool) promise \<times> 's monitor_world" where
  "poll_monitor deps st h m t w =
     (if \<not> stillLive m w then (Resolved False, w)
      else
        case sb_readProcess (pd_sandbox deps) h (mo_processId m) (mo_cursor m) (Some MAX_READ_BYTES) 0 (mw_env w) of
          (Rejected e, s) \<Rightarrow>
            let w1 = w\<lparr> mw_env := s \<rparr>
            in if processIsGone e
               then (case reportLost deps st m w1 of (Rejected e2, w2) \<Rightarrow> (Rejected e2, w2) | (Resolved _, w2) \<Rightarrow> (Resolved True, w2))
               else (Resolved False, on_monitors (recordError_monitor (tb_id m) e) w1)
        | (Resolved r, s) \<Rightarrow> poll_read deps st m t r (w\<lparr> mw_env := s \<rparr>))"

section \<open>One tick\<close>

definition note_failure :: "monitor \<Rightarrow> string \<Rightarrow> 's monitor_world \<Rightarrow> 's monitor_world" where
  "note_failure m e w = on_monitors (recordError_monitor (tb_id m) e) w"

definition provision_once ::
  "('h, 's) sandbox \<Rightarrow> string \<Rightarrow> (string, 'h) jsmap \<Rightarrow> 's \<Rightarrow> (string, 'h) promise \<times> (string, 'h) jsmap \<times> 's" where
  "provision_once sb scope handles s =
     (case map_of handles scope of
        Some h \<Rightarrow> (Resolved h, handles, s)
      | None \<Rightarrow>
          (case sb_provision sb scope s of
             (Rejected e, s1) \<Rightarrow> (Rejected e, handles, s1)
           | (Resolved h, s1) \<Rightarrow> (Resolved h, jmap_set scope h handles, s1)))"

fun poll_each ::
  "('h, 's) poller_deps \<Rightarrow> (nat \<Rightarrow> stamp) \<Rightarrow> time \<Rightarrow> monitor list \<Rightarrow> nat \<Rightarrow> (string, 'h) jsmap \<Rightarrow> 's monitor_world \<Rightarrow>
     (string, unit) promise \<times> (string, 'h) jsmap \<times> 's monitor_world" where
  "poll_each deps stamps t [] fires handles w = (Resolved (), handles, w)"
| "poll_each deps stamps t (m # rest) fires handles w =
     (if pd_maxFiresPerTick deps \<le> fires then (Resolved (), handles, w)
      else
        case get_process (mw_processes w) (mo_processId m) of
          None \<Rightarrow>
            (case reportLost deps (stamps 0) m w of
               (Rejected e, w1) \<Rightarrow> (Rejected e, handles, w1)
             | (Resolved _, w1) \<Rightarrow> poll_each deps (\<lambda>n. stamps (Suc n)) t rest (Suc fires) handles w1)
        | Some rec \<Rightarrow>
            (case provision_once (pd_sandbox deps) (pc_scopeId rec) handles (mw_env w) of
               (Rejected e, hs, s) \<Rightarrow> poll_each deps (\<lambda>n. stamps (Suc n)) t rest fires hs (note_failure m e (w\<lparr> mw_env := s \<rparr>))
             | (Resolved h, hs, s) \<Rightarrow>
                 (case poll_monitor deps (stamps 0) h m t (w\<lparr> mw_env := s \<rparr>) of
                    (Rejected e, w1) \<Rightarrow> poll_each deps (\<lambda>n. stamps (Suc n)) t rest fires hs (note_failure m e w1)
                  | (Resolved fired, w1) \<Rightarrow>
                      poll_each deps (\<lambda>n. stamps (Suc n)) t rest (if fired then Suc fires else fires) hs w1)))"

definition teardown_all :: "('h, 's) sandbox \<Rightarrow> (string, 'h) jsmap \<Rightarrow> 's \<Rightarrow> 's" where
  "teardown_all sb handles s = fold (\<lambda>h s. snd (sb_teardown sb h s)) (map snd handles) s"

definition pollAll ::
  "('h, 's) poller_deps \<Rightarrow> (nat \<Rightarrow> stamp) \<Rightarrow> time \<Rightarrow> 's monitor_world \<Rightarrow> (string, unit) promise \<times> 's monitor_world" where
  "pollAll deps stamps t w =
     (if \<not> pd_supported deps then (Resolved (), w)
      else
        case poll_each deps stamps t (sort_key tb_createdAt (enabled_monitors (mw_monitors w))) 0 [] w of
          (r, handles, w1) \<Rightarrow> (r, w1\<lparr> mw_env := teardown_all (pd_sandbox deps) handles (mw_env w1) \<rparr>))"

section \<open>Properties\<close>

subsection \<open>Lines\<close>

lemma js_trim_blank: "js_trim s = [] \<longleftrightarrow> (\<forall>c \<in> set s. js_is_space c)"
proof -
  have "js_trimEnd s = [] \<longleftrightarrow> (\<forall>c \<in> set s. js_is_space c)" for s
    by (auto simp: js_trimEnd_def)
  moreover have "(\<forall>c \<in> set (js_trimStart s). js_is_space c) \<longleftrightarrow> (\<forall>c \<in> set s. js_is_space c)"
    by (induction s) (auto simp: js_trimStart_def)
  ultimately show ?thesis by (simp add: js_trim_def)
qed

lemma whole_open: "whole_lines s @ open_line s = s"
  by (simp add: whole_lines_def open_line_def flip: rev_append)

lemma whole_lines_ends: "whole_lines s = [] \<or> (\<exists>a. whole_lines s = a @ [lf])"
proof (cases "dropWhile (\<lambda>c. c \<noteq> lf) (rev s)")
  case (Cons c cs)
  then have "c = lf" by (metis (full_types) dropWhile_eq_Cons_conv)
  with Cons show ?thesis by (simp add: whole_lines_def)
qed (simp add: whole_lines_def)

lemma open_line_no_nl: "lf \<notin> set (open_line s)"
  by (auto simp: open_line_def dest: set_takeWhileD)

lemma open_whole_append:
  assumes "a = [] \<or> (\<exists>b. a = b @ [lf])"
  shows "open_line (a @ s) = open_line s" "whole_lines (a @ s) = a @ whole_lines s"
proof -
  show *: "open_line (a @ s) = open_line s"
    using assms by (cases "lf \<in> set s") (auto simp: open_line_def takeWhile_append takeWhile_eq_all_conv [THEN iffD2])
  have "whole_lines (a @ s) @ open_line (a @ s) = a @ whole_lines s @ open_line s" by (simp add: whole_open)
  with * show "whole_lines (a @ s) = a @ whole_lines s" by simp
qed

subsection \<open>A watch reports every line that matters\<close>

text \<open>
  What a reader of the whole output would pick out: the lines that match and are not blank. And what one
  report tells of such lines.
\<close>

definition wanted_lines :: "alternative list \<Rightarrow> string \<Rightarrow> string list" where
  "wanted_lines alts text = filter (\<lambda>l. js_trim l \<noteq> [] \<and> line_matches alts l) (js_split lf text)"

definition told_lines :: "string \<Rightarrow> string list" where
  "told_lines events = filter (\<lambda>l. js_trim l \<noteq> []) (js_split lf events)"

lemma wanted_Nil: "wanted_lines alts [] = []"
  by (simp add: wanted_lines_def js_trim_blank)

lemma wanted_append:
  assumes "a = [] \<or> (\<exists>b. a = b @ [lf])"
  shows "wanted_lines alts (a @ s) = wanted_lines alts a @ wanted_lines alts s"
proof (cases "a = []")
  case False
  then obtain b where "a = b @ [lf]" using assms by auto
  then show ?thesis using js_split_append_sep [of lf b s] js_split_append_sep [of lf b "[]"]
    by (simp add: wanted_lines_def js_trim_blank)
qed (simp add: wanted_Nil)

lemma told_filterLines:
  assumes "compileMonitorPattern p = Inr alts"
  shows "told_lines (filterLines s p) = wanted_lines alts s"
proof -
  let ?ls = "filter (\<lambda>l. l \<noteq> [] \<and> line_matches alts l) (js_split lf s)"
  have "told_lines (js_join [lf] ls) = filter (\<lambda>l. js_trim l \<noteq> []) ls" if "\<forall>l \<in> set ls. lf \<notin> set l" for ls
    using js_split_join [of ls lf] that by (cases "ls = []") (simp_all add: told_lines_def js_trim_blank)
  then have "told_lines (js_join [lf] ?ls) = filter (\<lambda>l. js_trim l \<noteq> []) ?ls"
    using js_split_no_sep [of _ lf s] by auto
  also have "\<dots> = wanted_lines alts s" by (auto simp: wanted_lines_def js_trim_blank intro: filter_cong)
  finally show ?thesis using assms by (simp add: filterLines_def)
qed

lemma told_blank: "js_trim events = [] \<Longrightarrow> told_lines events = []"
  using set_js_split by (fastforce simp: told_lines_def js_trim_blank filter_empty_conv)

text \<open>
  A job with the output \<open>out\<close>, polled at the times \<open>t\<close> with reads that reach up to \<open>e\<close>: what the
  firings tell, and where the monitor is after them, when every firing is allowed and runs.
\<close>

type_synonym poll_at = "time \<times> nat \<times> process_state"

definition read_upto :: "string \<Rightarrow> monitor \<Rightarrow> nat \<Rightarrow> process_state \<Rightarrow> process_read" where
  "read_upto out m e st =
     \<lparr> pr_chunks = drop (nat (mo_cursor m)) (take e out), pr_cursor = int e, pr_status = st \<rparr>"

definition follow_one :: "('h, 's) poller_deps \<Rightarrow> string \<Rightarrow> monitor \<Rightarrow> poll_at \<Rightarrow> string list \<times> monitor" where
  "follow_one deps out m q =
     (case q of (t, e, st) \<Rightarrow>
        let r = read_upto out m e st; d = digest_read m t r
        in case next_action deps m t r of
             Throttle \<Rightarrow> ([], m)
           | Skip \<Rightarrow> ([], advanced (pr_cursor r) (dg_tail d) None m)
           | Beat _ _ \<Rightarrow> ([], advanced (pr_cursor r) (dg_tail d) (Some t) m)
           | Wake _ _ \<Rightarrow> (told_lines (dg_events d), advanced (pr_cursor r) (dg_tail d) (Some t) m))"

fun follow :: "('h, 's) poller_deps \<Rightarrow> string \<Rightarrow> monitor \<Rightarrow> poll_at list \<Rightarrow> string list \<times> monitor" where
  "follow deps out m [] = ([], m)"
| "follow deps out m (q # qs) =
     (case follow_one deps out m q of (ls, m1) \<Rightarrow> (case follow deps out m1 qs of (ls', m2) \<Rightarrow> (ls @ ls', m2)))"

definition short_lines :: "string \<Rightarrow> bool" where
  "short_lines out \<longleftrightarrow> (\<forall>l \<in> set (js_split lf out). int (length l) \<le> MAX_TAIL_CHARS)"

lemma split_hd: "\<exists>ws. js_split d s = takeWhile (\<lambda>c. c \<noteq> d) s # ws"
  by (induction s) auto

lemma open_line_short:
  assumes "short_lines out"
  shows "int (length (open_line (take c out))) \<le> MAX_TAIL_CHARS"
proof -
  let ?w = "whole_lines (take c out)" and ?o = "open_line (take c out)"
  have out: "out = ?w @ ?o @ drop c out" by (metis append.assoc append_take_drop_id whole_open)
  have "\<exists>xs. js_split lf out = xs @ js_split lf (?o @ drop c out)"
    using whole_lines_ends [of "take c out"] out js_split_append_sep [of lf _ "?o @ drop c out"]
    by (metis append.assoc append_Cons append_Nil)
  moreover have "takeWhile (\<lambda>x. x \<noteq> lf) (?o @ drop c out) \<in> set (js_split lf (?o @ drop c out))"
    using split_hd [of lf "?o @ drop c out"] by (metis list.set_intros(1))
  ultimately have "takeWhile (\<lambda>x. x \<noteq> lf) (?o @ drop c out) \<in> set (js_split lf out)" by auto
  then have "int (length (takeWhile (\<lambda>x. x \<noteq> lf) (?o @ drop c out))) \<le> MAX_TAIL_CHARS"
    using assms by (auto simp: short_lines_def)
  moreover have "takeWhile (\<lambda>x. x \<noteq> lf) (?o @ drop c out) = ?o @ takeWhile (\<lambda>x. x \<noteq> lf) (drop c out)"
    using open_line_no_nl [of "take c out"] by (intro takeWhile_append2) auto
  ultimately show ?thesis by simp
qed

lemma kept_tail_short:
  assumes "int (length (open_line raw)) \<le> MAX_TAIL_CHARS"
  shows "or_default (kept_tail raw) [] = open_line raw"
proof -
  have "js_slice_from (open_line raw) (- MAX_TAIL_CHARS) = open_line raw"
    using assms by (auto simp: js_slice_from_def js_rel_index_def MAX_TAIL_CHARS_def)
  then show ?thesis by (simp add: kept_tail_def if_truthy_def truthy_def or_default_def)
qed

text \<open>The place of a monitor in the output: all up to its cursor is dealt with but the line that is open there.\<close>

definition placed :: "string \<Rightarrow> string \<Rightarrow> monitor \<Rightarrow> nat \<Rightarrow> bool" where
  "placed out p m c \<longleftrightarrow> mo_pattern m = Some p \<and> mo_cursor m = int c \<and> or_default (mo_tail m) [] = open_line (take c out)"

lemma placed_raw:
  assumes "placed out p m c" "c \<le> e"
  shows "whole_lines (take c out) @ (or_default (mo_tail m) [] @ pr_chunks (read_upto out m e st)) = take e out"
proof -
  have "whole_lines (take c out) @ (or_default (mo_tail m) [] @ pr_chunks (read_upto out m e st)) = take c out @ drop c (take e out)"
    using assms(1) whole_open [of "take c out"] by (simp add: placed_def read_upto_def flip: append.assoc)
  also have "\<dots> = take e out" using assms(2) append_take_drop_id [of c "take e out"] by (simp add: min_def)
  finally show ?thesis .
qed

lemma pattern_truthy: "compileMonitorPattern p = Inr alts \<Longrightarrow> truthy (Some p)"
  by (auto simp: compileMonitorPattern_def truthy_def split: if_splits)

lemma follow_running:
  assumes p: "compileMonitorPattern p = Inr alts" and short: "short_lines out"
    and pl: "placed out p m c" "c \<le> e" "t < mo_expiresAt m"
    and f: "follow_one deps out m (t, e, Running) = (ls, m1)"
  shows "\<exists>c1. c \<le> c1 \<and> c1 \<le> e \<and> placed out p m1 c1 \<and> mo_expiresAt m1 = mo_expiresAt m \<and>
     wanted_lines alts (whole_lines (take c out)) @ ls = wanted_lines alts (whole_lines (take c1 out))"
proof -
  let ?r = "read_upto out m e Running"
  let ?raw = "or_default (mo_tail m) [] @ pr_chunks ?r"
  let ?d = "digest_read m t ?r"
  have raw: "whole_lines (take c out) @ ?raw = take e out" by (rule placed_raw [OF pl(1,2)])
  note split = open_whole_append [OF whole_lines_ends [of "take c out"], of ?raw, unfolded raw]
  have d: "\<not> dg_exited ?d" "\<not> dg_expired ?d" "dg_tail ?d = kept_tail ?raw"
      "dg_events ?d = (if whole_lines ?raw = [] then [] else filterLines (whole_lines ?raw) p)"
    using pl(1,3) pattern_truthy [OF p] by (auto simp: digest_read_def Let_def placed_def read_upto_def is_exited_def)
  have told: "told_lines (dg_events ?d) = wanted_lines alts (whole_lines ?raw)"
    using d(4) told_filterLines [OF p] by (auto simp: wanted_Nil told_blank js_trim_blank)
  have w: "wanted_lines alts (whole_lines (take c out)) @ wanted_lines alts (whole_lines ?raw) = wanted_lines alts (whole_lines (take e out))"
    unfolding split(2) by (rule wanted_append [OF whole_lines_ends, symmetric])
  have moved: "placed out p (advanced (pr_cursor ?r) (dg_tail ?d) f m) e" for f
    using pl(1) kept_tail_short [of ?raw] open_line_short [OF short, of e] split(1) d(3)
    by (simp add: placed_def advanced_def read_upto_def)
  have blank: "wanted_lines alts (whole_lines ?raw) = []" if "js_trim (dg_events ?d) = []"
    using told told_blank [OF that] by simp
  have act: "next_action deps m t ?r = Throttle \<and> (ls, m1) = ([], m) \<or>
      (\<exists>f. m1 = advanced (pr_cursor ?r) (dg_tail ?d) f m) \<and> ls = wanted_lines alts (whole_lines ?raw)"
    using f told blank d(1,2)
    by (auto simp: follow_one_def Let_def next_action_def split: if_splits)
  then show ?thesis
  proof
    assume "next_action deps m t ?r = Throttle \<and> (ls, m1) = ([], m)"
    then show ?thesis using pl by (intro exI [of _ c]) simp
  next
    assume "(\<exists>f. m1 = advanced (pr_cursor ?r) (dg_tail ?d) f m) \<and> ls = wanted_lines alts (whole_lines ?raw)"
    then show ?thesis using moved w pl(2) by (intro exI [of _ e]) (auto simp: advanced_def)
  qed
qed

definition reach_of :: "poll_at \<Rightarrow> nat" where
  "reach_of q = fst (snd q)"

lemma follow_runs:
  assumes p: "compileMonitorPattern p = Inr alts" and short: "short_lines out"
  shows "placed out p m c \<Longrightarrow> \<forall>(t, e, st) \<in> set qs. st = Running \<and> t < mo_expiresAt m \<Longrightarrow>
     sorted (c # map reach_of qs) \<Longrightarrow> \<forall>q \<in> set qs. reach_of q \<le> bound \<Longrightarrow> c \<le> bound \<Longrightarrow> follow deps out m qs = (ls, m1) \<Longrightarrow>
     \<exists>c1. c \<le> c1 \<and> c1 \<le> bound \<and> placed out p m1 c1 \<and> mo_expiresAt m1 = mo_expiresAt m \<and>
       wanted_lines alts (whole_lines (take c out)) @ ls = wanted_lines alts (whole_lines (take c1 out))"
proof (induction qs arbitrary: m c ls)
  case Nil
  then show ?case by (intro exI [of _ c]) simp
next
  case (Cons q qs)
  obtain t e where q: "q = (t, e, Running)" "t < mo_expiresAt m" using Cons.prems(2) by (cases q) auto
  obtain ls1 m' where f1: "follow_one deps out m q = (ls1, m')" by force
  obtain ls2 where f2: "follow deps out m' qs = (ls2, m1)" "ls = ls1 @ ls2"
    using Cons.prems(6) f1 by (auto split: prod.splits)
  have ce: "c \<le> e" "e \<le> bound" using Cons.prems(3,4) q(1) by (auto simp: reach_of_def)
  from follow_running [OF p short Cons.prems(1) ce(1) q(2) f1 [unfolded q(1)]]
  obtain c' where c': "c \<le> c'" "c' \<le> e" "placed out p m' c'" "mo_expiresAt m' = mo_expiresAt m"
      "wanted_lines alts (whole_lines (take c out)) @ ls1 = wanted_lines alts (whole_lines (take c' out))" by blast
  have "sorted (c' # map reach_of qs)" using Cons.prems(3) c'(2) q(1) by (auto simp: reach_of_def [of "(_, _)"])
  from Cons.IH [OF c'(3) _ this _ _ f2(1)] Cons.prems(2,4) c'(2,4) ce(2)
  obtain c1 where c1: "c' \<le> c1" "c1 \<le> bound" "placed out p m1 c1" "mo_expiresAt m1 = mo_expiresAt m'"
      "wanted_lines alts (whole_lines (take c' out)) @ ls2 = wanted_lines alts (whole_lines (take c1 out))" by auto
  then show ?case using c' f2(2) by (intro exI [of _ c1]) (simp flip: append.assoc)
qed

lemma follow_last:
  assumes p: "compileMonitorPattern p = Inr alts" and pl: "placed out p m c" "c \<le> e"
    and ended: "is_exited st \<or> mo_expiresAt m \<le> t"
  shows "wanted_lines alts (whole_lines (take c out)) @ fst (follow_one deps out m (t, e, st)) = wanted_lines alts (take e out)"
proof -
  let ?r = "read_upto out m e st"
  let ?raw = "or_default (mo_tail m) [] @ pr_chunks ?r"
  let ?d = "digest_read m t ?r"
  have d: "dg_exited ?d \<or> dg_expired ?d" "dg_events ?d = filterLines ?raw p"
    using pl(1) ended pattern_truthy [OF p] by (auto simp: digest_read_def Let_def placed_def read_upto_def)
  then obtain key ev where "next_action deps m t ?r = Wake key ev"
    by (cases "dg_exited ?d") (auto simp: next_action_def Let_def)
  then have "fst (follow_one deps out m (t, e, st)) = wanted_lines alts ?raw"
    using d(2) told_filterLines [OF p] by (simp add: follow_one_def Let_def)
  then show ?thesis
    using wanted_append [OF whole_lines_ends [of "take c out"], of alts ?raw] placed_raw [OF pl] by simp
qed

lemma follow_append:
  "follow deps out m (qs @ [q]) =
     (fst (follow deps out m qs) @ fst (follow_one deps out (snd (follow deps out m qs)) q),
      snd (follow_one deps out (snd (follow deps out m qs)) q))"
  by (induction qs arbitrary: m) (auto split: prod.splits)


subsection \<open>The polls of the store do what was followed\<close>

lemma fire_monitor_requests:
  assumes "fire_monitor deps st m key ev b w = (x, w1)" "rq \<in> set (drop (length (tw_requests (mw_triggers w))) (tw_requests (mw_triggers w1)))"
  shows "rq_text rq = fst ev \<and> rq_securityScreenData rq = Some (snd ev) \<and> rq_idempotencyKey rq = key"
proof -
  obtain r where r: "runTrigger (pd_triggers deps) (sm_refreshedAt st) (sm_startedAt st) (sm_endedAt st) (sm_deliveryId st) (sm_noticeId st)
      (monitor_spec m key ev b) (mw_triggers w) = (r, mw_triggers w1)"
    using assms(1) by (auto simp: fire_monitor_def split: prod.splits)
  have "tw_requests (mw_triggers w1) \<noteq> tw_requests (mw_triggers w)" using assms(2) by auto
  then show ?thesis
  proof (rule runTrigger_cases [OF r disjI1])
    fix cm a s1 jr rqs ds
    assume j: "trigger_job (pd_triggers deps) (sm_deliveryId st) (sm_startedAt st) (monitor_spec m key ev b)
        (plan_trigger (pd_triggers deps) (monitor_spec m key ev b) cm a) (tw_deliveries (mw_triggers w)) = (jr, rqs, ds)"
      and q: "tw_requests (mw_triggers w1) = tw_requests (mw_triggers w) @ rqs"
    let ?p = "plan_trigger (pd_triggers deps) (monitor_spec m key ev b) cm a"
    have "rq \<in> set rqs" using assms(2) q by simp
    then have "rq = trigger_request_of (monitor_spec m key ev b) (pl_actorId ?p) (pl_members ?p) (pl_liveDelivery (monitor_spec m key ev b) ?p)"
      using trigger_job_effects(2) [OF j] by (metis empty_iff empty_set list.set_cases set_ConsD)
    then show ?thesis by (simp add: trigger_request_of_def monitor_spec_def)
  qed
qed

lemma store_after:
  assumes "mm_get ms i = Some x"
  shows "mm_get (advance_monitor i c tail f ms) i = Some (advanced c tail f x)"
    "mm_get (setEnabled_monitor i b ms) i = Some (x\<lparr> tb_enabled := b \<rparr>)"
    "mm_get (recordError_monitor i e ms) i = Some (x\<lparr> mo_lastError := Some e \<rparr>)"
  using assms by (simp_all add: advance_monitor_def setEnabled_monitor_def recordError_monitor_def)

lemma note_error_get:
  assumes "mm_get (mw_monitors w) i = Some x" "i = tb_id m"
  shows "\<exists>e. mm_get (mw_monitors (note_error m out w)) i = Some (x\<lparr> mo_lastError := e \<rparr>)"
proof (cases "if_truthy (to_note out)")
  case None
  then have "mm_get (mw_monitors (note_error m out w)) i = Some (x\<lparr> mo_lastError := mo_lastError x \<rparr>)"
    using assms by (simp add: note_error_def)
  then show ?thesis ..
qed (use assms store_after(3) [OF assms(1)] in \<open>auto simp: note_error_def on_monitors_def\<close>)

text \<open>What the row of a monitor shares with the monitor that was followed.\<close>

definition same_place :: "monitor \<Rightarrow> monitor \<Rightarrow> bool" where
  "same_place x y \<longleftrightarrow> mo_pattern x = mo_pattern y \<and> mo_cursor x = mo_cursor y \<and> mo_tail x = mo_tail y \<and>
     mo_expiresAt x = mo_expiresAt y \<and> tb_lastFiredAt x = tb_lastFiredAt y \<and> tb_createdAt x = tb_createdAt y \<and> tb_id x = tb_id y"

lemma fire_monitor_store:
  "fire_monitor deps st m key ev b w = (x, w1) \<Longrightarrow> mw_monitors w1 = pd_during deps key (mw_monitors w)"
  by (auto simp: fire_monitor_def split: prod.splits)

theorem poll_follows:
  assumes row: "mm_get (mw_monitors w) (tb_id m) = Some m" and alone: "\<forall>key ms. pd_during deps key ms = ms"
    and poll: "poll_read deps st m t (read_upto out m e ps) w = (Resolved b, w')"
    and allowed: "\<forall>key ev n w1 outcome. fire_monitor deps st m key ev n w = (Resolved outcome, w1) \<longrightarrow> \<not> to_authzFailed outcome"
  shows "\<exists>m'. mm_get (mw_monitors w') (tb_id m) = Some m' \<and> same_place m' (snd (follow_one deps out m (t, e, ps))) \<and>
     tb_enabled m' = (tb_enabled m \<and> \<not> is_exited ps \<and> t < mo_expiresAt m)"
proof -
  let ?r = "read_upto out m e ps"
  let ?d = "digest_read m t ?r"
  have d: "dg_exited ?d = is_exited ps" "dg_expired ?d = (\<not> is_exited ps \<and> mo_expiresAt m \<le> t)"
    by (auto simp: digest_read_def Let_def read_upto_def)
  have got: "mm_get (mw_monitors w1) (tb_id m) = Some m" "\<not> to_authzFailed outcome"
    if "fire_monitor deps st m key ev n w = (Resolved outcome, w1)" for key ev n w1 outcome
    using fire_monitor_store [OF that] allowed [rule_format, OF that] row by (simp_all add: alone)
  show ?thesis
  proof (cases "next_action deps m t ?r")
    case (Beat since mins)
    then have run: "\<not> dg_exited ?d" "\<not> dg_expired ?d" by (auto simp: next_action_def Let_def split: if_splits)
    obtain key ev n outcome w1 where f: "fire_monitor deps st m key ev n w = (Resolved outcome, w1)" "w' = after_beat m t ?r outcome w1"
      using poll Beat by (auto simp: poll_read_def Let_def split: prod.splits promise.splits)
    obtain x where "mm_get (mw_monitors (note_error m outcome w1)) (tb_id m) = Some (m\<lparr> mo_lastError := x \<rparr>)"
      using note_error_get [OF got(1) [OF f(1)]] by auto
    from store_after(1) [OF this] f(2) got(2) [OF f(1)] show ?thesis
      using run d by (auto simp: after_beat_def on_monitors_def same_place_def follow_one_def Let_def Beat advanced_def)
  next
    case Skip
    then have run: "\<not> dg_exited ?d" "\<not> dg_expired ?d" by (auto simp: next_action_def Let_def split: if_splits)
    with poll Skip store_after(1) [OF row] row d show ?thesis
      by (auto simp: poll_read_def Let_def on_monitors_def same_place_def follow_one_def advanced_def split: if_splits)
  next
    case Throttle
    then have "\<not> dg_exited ?d" "\<not> dg_expired ?d" by (auto simp: next_action_def Let_def split: if_splits)
    with poll Throttle row d show ?thesis
      by (auto simp: poll_read_def Let_def same_place_def follow_one_def)
  next
    case (Wake key ev)
    obtain outcome w1 where f: "fire_monitor deps st m key (renderEvent m (dg_events ?d) ev) True w = (Resolved outcome, w1)"
        "w' = after_wake m t ?r outcome w1"
      using poll Wake by (auto simp: poll_read_def Let_def split: prod.splits promise.splits)
    obtain x where "mm_get (mw_monitors (note_error m outcome w1)) (tb_id m) = Some (m\<lparr> mo_lastError := x \<rparr>)"
      using note_error_get [OF got(1) [OF f(1)]] by auto
    note a = this store_after(1) [OF this] store_after(2) [OF store_after(1) [OF this]]
    show ?thesis
      using f(2) got(2) [OF f(1)] a d
      by (auto simp: after_wake_def Let_def on_monitors_def same_place_def follow_one_def Wake advanced_def)
  qed
qed

text \<open>
  The read that finds the job exited is the last one, wherever it ends. A read returns at most
  \<open>MAX_READ_BYTES\<close> and says so only by its cursor, so what a job wrote beyond that before it exited is never
  read, whether it matches or not.
\<close>

theorem exit_read_ends_watch:
  assumes "mm_get (mw_monitors w) (tb_id m) = Some m" "\<forall>key ms. pd_during deps key ms = ms"
    and "poll_read deps st m t (read_upto out m e (Exited code)) w = (Resolved b, w')"
    and "\<forall>key ev n w1 outcome. fire_monitor deps st m key ev n w = (Resolved outcome, w1) \<longrightarrow> \<not> to_authzFailed outcome"
  shows "\<exists>m'. mm_get (mw_monitors w') (tb_id m) = Some m' \<and> \<not> tb_enabled m' \<and> mo_cursor m' = int e"
proof -
  have "mo_cursor (snd (follow_one deps out m (t, e, Exited code))) = int e"
    by (simp add: follow_one_def Let_def next_action_def digest_read_def read_upto_def is_exited_def advanced_def)
  then show ?thesis using poll_follows [OF assms] by (auto simp: same_place_def is_exited_def)
qed

subsection \<open>Who may watch and unwatch\<close>

text \<open>
  A watch is only armed on a running background job of the scope, a refused one changes nothing, an armed one
  outlives the job's time by the grace given, and nobody removes a watch of another scope.
\<close>

theorem watch_confined:
  assumes "watch_job deps procs pid opts i now ms = (r, ms')"
  shows "r = Inl e \<Longrightarrow> ms' = ms"
    and "r = Inr x \<Longrightarrow> \<exists>rec. get_process procs pid = Some rec \<and> pc_scopeId rec = mb_scopeId deps \<and>
      pc_kind rec = ''background'' \<and> pc_status rec = ProcRunning \<and> wr_processId x = pid \<and>
      (\<not> wr_reattached x \<longrightarrow> wr_expiresAt x = pc_expiresAt rec + or_default (mb_graceMs deps) EXPIRY_GRACE_MS)"
    and "mm_get ms j = Some y \<Longrightarrow> tb_ownerScopeId y \<noteq> mb_ownerScopeId deps \<Longrightarrow> mm_get (snd (unwatch deps k ms)) j = Some y"
proof -
  show "ms' = ms" if "r = Inl e"
    using assms that by (auto simp: watch_job_def create_monitor_def Let_def split: sum.splits option.splits prod.splits if_splits)
  show "\<exists>rec. get_process procs pid = Some rec \<and> pc_scopeId rec = mb_scopeId deps \<and>
      pc_kind rec = ''background'' \<and> pc_status rec = ProcRunning \<and> wr_processId x = pid \<and>
      (\<not> wr_reattached x \<longrightarrow> wr_expiresAt x = pc_expiresAt rec + or_default (mb_graceMs deps) EXPIRY_GRACE_MS)" if "r = Inr x"
    using assms that
    by (auto simp: watch_job_def watchable_def create_monitor_def build_monitor_def watch_input_def Let_def
        trigger_base.defs create_trigger_input.defs split: sum.splits option.splits prod.splits if_splits)
  show "mm_get (snd (unwatch deps k ms)) j = Some y" if "mm_get ms j = Some y" "tb_ownerScopeId y \<noteq> mb_ownerScopeId deps"
    using that by (auto simp: unwatch_def delete_monitor_def split: option.splits)
qed

section \<open>Examples\<close>

definition demo_monitor :: "string \<Rightarrow> time \<Rightarrow> monitor" where
  "demo_monitor i created =
     trigger_base.extend
       \<lparr> tb_id = i, tb_ownerScopeId = ''personal:ann'', tb_owner = ''ann'', tb_createdBy = ''ann'', tb_ownerConsentedAt = None,
         tb_destination = None, tb_enabled = True, tb_createdAt = created, tb_lastFiredAt = None, tb_recipientConsent = None \<rparr>
       \<lparr> mo_processId = ''p'' @ i, mo_command = ''bg: x'', mo_threadRef = ''th'', mo_instructions = None,
         mo_pattern = Some ''err|^ok$'', mo_cursor = 0, mo_tail = None, mo_expiresAt = 1000, mo_lastError = None \<rparr>"

definition demo_output :: string where
  "demo_output = ''start'' @ [lf] @ ''an error'' @ [lf] @ ''ok'' @ [lf] @ ''not ok'' @ [lf] @ ''err''"

definition output_sandbox :: "string \<Rightarrow> (unit, time) sandbox" where
  "output_sandbox out =
     \<lparr> sb_now = id, sb_sleep = \<lambda>n s. s + n, sb_provision = \<lambda>_ s. (Resolved (), s), sb_teardown = \<lambda>_ s. (Resolved (), s),
       sb_startProcess = \<lambda>_ _ s. (Rejected ''no'', s),
       sb_readProcess = \<lambda>_ _ c _ _ s.
         (Resolved \<lparr> pr_chunks = drop (nat c) out, pr_cursor = int (length out), pr_status = Running \<rparr>, s),
       sb_writeStdin = \<lambda>_ _ _ s. (Resolved (), s), sb_signalProcess = \<lambda>_ _ _ s. (Resolved (), s) \<rparr>"

definition demo_poller :: "(unit, time) poller_deps" where
  "demo_poller =
     \<lparr> pd_supported = True, pd_sandbox = output_sandbox demo_output,
       pd_triggers = \<lparr> td_run = (\<lambda>rq. if rq_idempotencyKey rq = ''monitor:a:lost'' then Rejected ''boom'' else Resolved demo_ok),
         td_currentScopeMembers = \<lambda>_. Resolved None, td_directory = None, td_idem = race_opts \<rparr>,
       pd_heartbeatMs = 0, pd_minFireIntervalMs = 2, pd_maxFiresPerTick = 20, pd_during = \<lambda>_ ms. ms \<rparr>"


definition watch_world :: "string list \<Rightarrow> monitor mem_map \<Rightarrow> time monitor_world" where
  "watch_world procs ms =
     \<lparr> mw_monitors = ms, mw_processes = map (\<lambda>p. (p, demo_process p 900)) procs, mw_triggers = demo_world, mw_env = 0 \<rparr>"

definition asked :: "time monitor_world \<Rightarrow> string list" where
  "asked w = map rq_idempotencyKey (tw_requests (mw_triggers w))"

text \<open>
  One lost job stops every younger watch: the firing that reports a job the registry no longer has is not
  inside the \<open>try\<close> of the loop, so when that turn fails the tick ends there, and the next tick starts with
  the same monitor again. Here the watch \<open>b\<close> has output to report at both ticks and is not polled.
\<close>

theorem lost_watch_blocks_tick:
  "case pollAll demo_poller (demo_stamp 10) 10 (watch_world [''pb''] [(''a'', demo_monitor ''a'' 1), (''b'', demo_monitor ''b'' 2)]) of (r1, w1) \<Rightarrow>
     r1 = Rejected ''boom'' \<and> asked w1 = [''monitor:a:lost''] \<and>
     (case pollAll demo_poller (demo_stamp 20) 20 w1 of (r2, w2) \<Rightarrow>
        r2 = Rejected ''boom'' \<and> asked w2 = [''monitor:a:lost'', ''monitor:a:lost''])"
  by code_simp

definition rewind :: "time \<Rightarrow> time monitor_world \<Rightarrow> time monitor_world" where
  "rewind now w =
     w\<lparr> mw_monitors := snd (watch_job
          \<lparr> mb_scopeId = ''s'', mb_owner = ''ann'', mb_ownerScopeId = ''personal:ann'', mb_threadRef = ''th'', mb_destination = None, mb_graceMs = None \<rparr>
          (mw_processes w) ''pb'' \<lparr> wo_instructions = None, wo_pattern = None, wo_sinceCursor = Some 0 \<rparr> ''new'' now (mw_monitors w)) \<rparr>"

text \<open>
  A watch that is armed again from an earlier cursor stays silent: the key of a firing is made of the
  cursor it starts at, the key of the first report is still committed, so the second report does not run,
  and the cursor moves past the output all the same.
\<close>

theorem rewound_watch_is_silent:
  "case pollAll demo_poller (demo_stamp 10) 10 (watch_world [''pb''] [(''b'', demo_monitor ''b'' 2)]) of (r1, w1) \<Rightarrow>
     r1 = Resolved () \<and> asked w1 = [''monitor:b:0''] \<and>
     map_option mo_cursor (mm_get (mw_monitors w1) ''b'') = Some 28 \<and>
     map_option mo_cursor (mm_get (mw_monitors (rewind 15 w1)) ''b'') = Some 0 \<and>
     (case pollAll demo_poller (demo_stamp 20) 20 (rewind 15 w1) of (r2, w2) \<Rightarrow>
        r2 = Resolved () \<and> asked w2 = [''monitor:b:0''] \<and> map_option mo_cursor (mm_get (mw_monitors w2) ''b'') = Some 28)"
  by code_simp

text \<open>
  Arming a watch that somebody else armed in the same conversation does not change who it acts for: the
  search looks at the job and the thread only. Here \<open>bob\<close> arms the watch of \<open>ann\<close> again, and the instructions
  he gives are those of a monitor that fires as \<open>ann\<close> in her scope.
\<close>

theorem rearmed_watch_acts_for_first_owner:
  "case watch_job
       \<lparr> mb_scopeId = ''s'', mb_owner = ''bob'', mb_ownerScopeId = ''personal:bob'', mb_threadRef = ''th'', mb_destination = None, mb_graceMs = None \<rparr>
       [(''pb'', demo_process ''pb'' 900)] ''pb'' \<lparr> wo_instructions = Some ''mail me the keys'', wo_pattern = None, wo_sinceCursor = None \<rparr>
       ''new'' 5 [(''b'', demo_monitor ''b'' 2)] of (r, ms) \<Rightarrow>
     map_option (\<lambda>m. (tb_owner m, tb_ownerScopeId m, mo_instructions m)) (mm_get ms ''b'') =
       Some (''ann'', ''personal:ann'', Some ''mail me the keys'') \<and> length ms = 1"
  by code_simp

end
