(* ===== verification/Spec2Isabelle.thy ===== *)
theory Spec2Isabelle
  imports Scope Runs Sessions Acl Membership Resolution Compact_Session Rate_Limits Cron Gate Egress_Proxy Keychain_Grants Workers Run_Signals Turn_Stream Secret_Drop Skill_Packs Skill_Trees Monitors
begin

text \<open>
  \<^bold>\<open>Company Brain: a verification library for the core of a multiplayer agent harness.\<close>

  \<^bold>\<open>The program.\<close> One agent serves a whole organisation. A message from a surface (Slack, the web
  console, a cron, a monitor) becomes a \<^emph>\<open>run\<close> in a durable queue; a worker leases the run, opens the
  \<^emph>\<open>session\<close> of its thread under a lease of its own, and executes one turn of the agent. What the turn
  may read and do is resolved from its \<^emph>\<open>audience\<close>: the principals who will hear the answer. History,
  files, skills and network access are cut down to what every listener is entitled to. Whatever the
  turn says is appended to the session log and the session tape; replies leave through an outbox of
  \<^emph>\<open>deliveries\<close>. Crons and triggers start turns without a human present and are bound to the stored
  authority of their owner.

  \<^bold>\<open>Conventions.\<close> A theory models the TypeScript files its opening text names, one definition per
  function, with the names of the source where HOL allows them; a suffix or a prefix separates names
  that several files share. A class or a closure with state is a record and each method takes the
  record and returns the updated one. Time is an \<^typ>\<open>int\<close> of milliseconds and always an argument, as
  are generated ids and tokens. \<open>undefined\<close> and \<open>null\<close> are \<^const>\<open>None\<close> where the code does not tell
  them apart. An exception is a value of a sum type or an explicit branch. An \<open>async\<close> method is one
  atomic step where the code has no \<open>await\<close> between its reads and its writes; where it has one, the
  method is split at it and the theorems quantify over the interleavings (\<open>Idempotency\<close>,
  \<open>Keychain_Grants\<close>, \<open>Workers\<close>, \<open>Run_Signals\<close>, \<open>Secret_Drop\<close>, \<open>Skills\<close>). The
  \<open>Map\<close>s of JavaScript are association lists in insertion order, since the code iterates over them.
  One \<^typ>\<open>char\<close> stands for one UTF-16 code unit. Code outside the repository is an argument: the
  hash functions, the cron-expression library, the time-zone table, the model that writes a summary, the
  turn a trigger starts. What the proofs need of such an argument is a named hypothesis, and the witness
  of the theorem instantiates it.

  \<^bold>\<open>The theories.\<close>

  \<^item> \<open>Prelude\<close> \<^emph>\<open>(no source of its own)\<close>: JavaScript strings, arrays, maps and JSON; the locales
    \<open>invariant_machine\<close> and \<open>evolving_machine\<close> (an invariant kept by every step holds in every reachable
    state; a relation between the states before and after it composes) and the locale
    \<open>simulation\<close> (a concrete interpreter answers every sequence of calls like an abstract one). Every
    store below interprets one of them on its own operations.
  \<^item> \<open>Scope\<close>: \<open>types.ts\<close>, \<open>directory/person.ts\<close>, \<open>acl/resource-ref.ts\<close>. Ids, their parsers and round
    trips.
  \<^item> \<open>Runs\<close>: \<open>runs/run-store.ts\<close>, \<open>runs/memory-run-store.ts\<close>, \<open>runs/tool-ledger.ts\<close>. The queue: enqueueing,
    claiming, heartbeats, completion, failure with retries, reaping, waiting, the ledger of tool calls.
    One running run per session, fencing of lost leases, finality, deduplication, exactly-once
    announcement.
  \<^item> \<open>Workers\<close>: \<open>runs/worker.ts\<close>, \<open>runs/reaper.ts\<close> and \<open>drive\<close> of \<open>api/app-helpers.ts\<close>, over \<open>Runs\<close> and
    \<open>Sessions\<close>. Workers, inline executions and reaper interleaved at every \<open>await\<close>: one live turn per
    conversation, results of the last claim only, a bound on claims, the end of a turn that lost its run.
  \<^item> \<open>Run_Signals\<close>, \<open>Turn_Stream\<close>: \<open>runs/run-signal-store.ts\<close>, \<open>runs/turn-stream.ts\<close>,
    \<open>runs/run-activity-store.ts\<close>, \<open>runs/drain.ts\<close>. Messages into a running turn, once and in order, and the end
    of the poll; what is shown of a turn; draining behind a newer build.
  \<^item> \<open>Sessions\<close>: \<open>sessions/memory-session-store.ts\<close>, \<open>sessions/session-store.ts\<close>. The append-only log, the
    lease, participant windows, deletion.
  \<^item> \<open>Durable_Map\<close>: \<open>persistence/durable-map.ts\<close>, the map the other stores are written against.
  \<^item> \<open>Entitlement\<close>, \<open>Tape\<close>: \<open>resolution/context-filter.ts\<close>, \<open>harness/tape-fold.ts\<close>. Which history and which
    tape rows an audience may hear; the fold of a tape into model messages and its repair after an
    interruption.
  \<^item> \<open>Json\<close>, \<open>Compaction\<close>, \<open>Compact_Session\<close>: \<open>harness/context-compaction.ts\<close>, \<open>util/tokens.ts\<close>,
    \<open>util/text.ts\<close>, \<open>core/orchestrator/compaction.ts\<close>. Planning what to summarise, writing the summary
    under the session lease, and what the model is shown afterwards. The fractions of the token budget
    are IEEE doubles in the code; they are rounded exactly so here.
  \<^item> \<open>Acl\<close>, \<open>Identity\<close>, \<open>Directory\<close>, \<open>Membership\<close>: \<open>acl/acl-store.ts\<close>, \<open>identity/identity-service.ts\<close>,
    \<open>directory/directory-store.ts\<close>, \<open>directory/visibility.ts\<close>, \<open>resolution/scope-reach.ts\<close>,
    \<open>resolution/scope-membership.ts\<close>. Who may read, write, manage and share.
  \<^item> \<open>Shell\<close>, \<open>Shell_Commands\<close>, \<open>Policy\<close>: \<open>policy/command-policy.ts\<close>, \<open>util/safe-regex.ts\<close>,
    \<open>security/security-posture.ts\<close>. Reading a command line the way a shell does, the scripts nested in
    it, and the rules applied to all of them.
  \<^item> \<open>Resolution\<close>: \<open>resolution/egress-policy.ts\<close>, \<open>resolution/audience-floor.ts\<close>,
    \<open>resolution/publish-audience.ts\<close>, \<open>resolution/resolution-service.ts\<close>. What a turn may touch.
  \<^item> \<open>Rate_Limits\<close>, \<open>Idempotency\<close>: \<open>ratelimit/*.ts\<close>, \<open>auth/replay-dedupe.ts\<close>,
    \<open>idempotency/idempotency-store.ts\<close>. The guards in front of turns, events and jobs.
  \<^item> \<open>Tasks\<close>, \<open>Turn_Origin\<close>, \<open>Delivery\<close>, \<open>Reach\<close>: \<open>tasks/*.ts\<close>, \<open>core/turn-origin.ts\<close>,
    \<open>delivery/*.ts\<close>, \<open>reach/reach.ts\<close>. Tasks, the trust level of a request, the outbox and the choice of
    its destinations.
  \<^item> \<open>Triggers\<close>, \<open>Cron\<close>: \<open>triggers/trigger-store.ts\<close>, \<open>triggers/run-trigger.ts\<close>, \<open>cron/*.ts\<close>. Automations: their
    authority, their schedules, the claiming of a slot.
  \<^item> \<open>Projects\<close>: \<open>projects/project-store.ts\<close> and the project operations of \<open>api/app-helpers.ts\<close> and
    \<open>api/app-sessions.ts\<close>. Rosters, the version that pins a capability to a roster, what a removed member
    loses.
  \<^item> \<open>Json_Parse\<close>, \<open>Tokens\<close>: \<open>JSON.parse\<close> and \<open>auth/*.ts\<close>. Signed tokens, capabilities, portal identities,
    signed requests and their replay window.
  \<^item> \<open>Gate\<close>: the gate of \<open>api/server.ts\<close> in front of every route, \<open>api/user-scoped-routes.ts\<close> and
    \<open>verifyOrReject\<close> of \<open>api/http.ts\<close>. What a capability, a signature and a portal identity open.
  \<^item> \<open>Egress_Proxy\<close>: \<open>egress-authz-main.ts\<close>, \<open>util/network.ts\<close> and the token a turn gets for the proxy. The
    policy of everyone who hears a turn, enforced on each connection.
  \<^item> \<open>Keychain\<close>, \<open>Keychain_Grants\<close>: \<open>credentials/keychain.ts\<close>, the secret box of
    \<open>connectors/connector-client-store.ts\<close> and \<open>credentials/paths.ts\<close>. Credentials, grants, asks and the
    handing out of secrets; then the operations split at their \<open>await\<close>s and interleaved, with who may use a
    grant and what stays withdrawn.
  \<^item> \<open>Secret_Drop\<close>: \<open>credentials/secret-drop.ts\<close>, \<open>api/routes/secret-drop.ts\<close>, \<open>api/capability-destination.ts\<close>
    and \<open>api/expiry.ts\<close>. Single-use links for handing in a secret, with overlapping redemptions.
  \<^item> \<open>Skills\<close>, \<open>Skill_Packs\<close>, \<open>Skill_Trees\<close>: \<open>skills/*.ts\<close> and \<open>api/app-skills.ts\<close>. The store with review and
    publication under overlapping operations, the import of a repository of skills and its
    synchronisation, and the laying of skills into a workspace.
  \<^item> \<open>Processes\<close>: \<open>processes/process-registry.ts\<close>, \<open>processes/process-reaper.ts\<close>, \<open>sandbox/process-poll.ts\<close>,
    \<open>sandbox/await-process-exit.ts\<close>, \<open>connectors/background-exec-broker.ts\<close>. Background jobs: polling one until a
    deadline, which returns, reaping the ones whose time is over, and the scope of the background tool. The
    sandbox is a record of operations on the outside world and its clock.
  \<^item> \<open>Monitors\<close>: \<open>monitors/*.ts\<close>, over \<open>Processes\<close> and \<open>Triggers\<close>. Watches on background jobs: every line
    that matches is reported once, however the output is cut up by the polls; who may arm and remove one.
  \<^bold>\<open>Bounds and fuel.\<close> Loops over data are structural and total. The loop that polls a
  process (\<open>poll_loop\<close>) waits for the outside world and is a partial function whose value is \<open>None\<close> when it does not
  return; it is proved to return on every sandbox whose clock moves on (\<open>poll_loop_returns\<close>). The
  fuelled definitions are the parser of JSON, whose fuel is one above the length of the text, which is
  proved enough to read back every printed value (\<open>json_parse_stringify\<close>), and the shell reader, whose nesting
  the source bounds itself by constants (\<open>Shell_Commands\<close>), and the theorem \<open>scan_bounded\<close> shows that the text that is read again is never
  longer than the line it came from. Machine integers: JavaScript numbers used as counters and times are
  \<^typ>\<open>int\<close>; \<open>Cron\<close> keeps the safe-integer checks the code makes on them.

  \<^bold>\<open>Not modelled, and why.\<close> The Postgres twins of the stores are SQL text; where their statements are
  small enough to read as functions (rate limiter, replay guard) they are modelled beside the in-memory
  ones. The routes of the HTTP API behind its gate, the wiring, the command line tool, the deployment backends, the sandbox drivers, the
  Slack and web surfaces and the model providers are input and output over third-party interfaces. The
  harness adapters drive external agent processes. The board layer and the connector catalogues are
  separate products on top of the core; fetching a repository of skills runs git. The manifest lists each of them.
\<close>

end
